(* ===== verification/Py_Float.thy ===== *)
theory Py_Float
  imports Complex_Main "HOL-Library.Log_Nat"
begin

text \<open>
  Python's \<open>float\<close>: IEEE-754 binary64 with round-to-nearest, ties-to-even.
  A finite double is represented by its exact rational value; infinities and NaN are values
  of their own, since JSON payloads and provider adapters can deliver them and the code compares
  them. The sign of zero is not kept: no code modelled here divides by a float or inspects it
  (a printed negative zero reads \<open>0.0\<close>).
  Arithmetic computes exactly and then rounds with \<open>fl\<close>, so every sum, product and quotient
  in the development is rounded as the interpreter rounds it. \<open>f_round\<close> is the built-in
  \<open>round(x, n)\<close>: decimal rounding of the exact value, half to even, then the nearest double.
\<close>

section \<open>Values and rounding\<close>

datatype pyfloat = Fin rat | PInf | NInf | NaN

definition rhe :: "rat \<Rightarrow> int" where
  "rhe y = (let f = \<lfloor>y\<rfloor>; d = y - of_int f in
     if d < 1/2 then f else if d > 1/2 then f + 1 else if even f then f else f + 1)"

text \<open>The binary exponent of a positive rational: the \<open>e\<close> with \<open>2 powi e \<le> x < 2 powi (e + 1)\<close>.\<close>

definition fexp :: "rat \<Rightarrow> int" where
  "fexp x = (case quotient_of x of (p, q) \<Rightarrow>
     (let e = bitlen p - bitlen q in if x < 2 powi e then e - 1 else e))"

definition ulp_exp :: "rat \<Rightarrow> int" where
  "ulp_exp x = max (fexp x - 52) (- 1074)"

text \<open>Rounding a non-negative rational to 53 significant bits (fewer for subnormals).\<close>

definition round53 :: "rat \<Rightarrow> rat" where
  "round53 x = (if x \<le> 0 then 0
     else of_int (rhe (x / 2 powi ulp_exp x)) * 2 powi ulp_exp x)"

definition fl :: "rat \<Rightarrow> pyfloat" where
  "fl x = (let m = round53 \<bar>x\<bar> in
     if m \<ge> 2 ^ 1024 then (if x < 0 then NInf else PInf)
     else Fin (if x < 0 then - m else m))"

section \<open>Operations\<close>

fun f_lt :: "pyfloat \<Rightarrow> pyfloat \<Rightarrow> bool" where
  "f_lt NaN _ = False"
| "f_lt _ NaN = False"
| "f_lt (Fin x) (Fin y) = (x < y)"
| "f_lt (Fin x) PInf = True"
| "f_lt (Fin x) NInf = False"
| "f_lt PInf _ = False"
| "f_lt NInf y = (y \<noteq> NInf)"

fun f_le :: "pyfloat \<Rightarrow> pyfloat \<Rightarrow> bool" where
  "f_le NaN _ = False"
| "f_le _ NaN = False"
| "f_le (Fin x) (Fin y) = (x \<le> y)"
| "f_le (Fin x) PInf = True"
| "f_le (Fin x) NInf = False"
| "f_le PInf y = (y = PInf)"
| "f_le NInf _ = True"

abbreviation f_gt :: "pyfloat \<Rightarrow> pyfloat \<Rightarrow> bool" where
  "f_gt x y \<equiv> f_lt y x"

abbreviation f_ge :: "pyfloat \<Rightarrow> pyfloat \<Rightarrow> bool" where
  "f_ge x y \<equiv> f_le y x"

fun f_neg :: "pyfloat \<Rightarrow> pyfloat" where
  "f_neg (Fin x) = Fin (- x)"
| "f_neg PInf = NInf"
| "f_neg NInf = PInf"
| "f_neg NaN = NaN"

fun f_abs :: "pyfloat \<Rightarrow> pyfloat" where
  "f_abs (Fin x) = Fin \<bar>x\<bar>"
| "f_abs PInf = PInf"
| "f_abs NInf = PInf"
| "f_abs NaN = NaN"

fun f_add :: "pyfloat \<Rightarrow> pyfloat \<Rightarrow> pyfloat" where
  "f_add NaN _ = NaN"
| "f_add _ NaN = NaN"
| "f_add (Fin x) (Fin y) = fl (x + y)"
| "f_add (Fin x) y = y"
| "f_add x (Fin y) = x"
| "f_add x y = (if x = y then x else NaN)"

definition f_sub :: "pyfloat \<Rightarrow> pyfloat \<Rightarrow> pyfloat" where
  "f_sub x y = f_add x (f_neg y)"

definition f_inf :: "bool \<Rightarrow> pyfloat" where
  "f_inf neg = (if neg then NInf else PInf)"

fun f_mul :: "pyfloat \<Rightarrow> pyfloat \<Rightarrow> pyfloat" where
  "f_mul NaN _ = NaN"
| "f_mul _ NaN = NaN"
| "f_mul (Fin x) (Fin y) = fl (x * y)"
| "f_mul (Fin x) y = (if x = 0 then NaN else f_inf ((x < 0) \<noteq> (y = NInf)))"
| "f_mul x (Fin y) = (if y = 0 then NaN else f_inf ((y < 0) \<noteq> (x = NInf)))"
| "f_mul x y = f_inf (x \<noteq> y)"

text \<open>\<open>a / b\<close> on Python integers with \<open>b > 0\<close>: the correctly rounded quotient.\<close>

definition f_int_div :: "int \<Rightarrow> int \<Rightarrow> pyfloat" where
  "f_int_div a b = fl (of_int a / of_int b)"

fun f_round :: "nat \<Rightarrow> pyfloat \<Rightarrow> pyfloat" where
  "f_round n (Fin x) = fl (of_int (rhe (x * 10 ^ n)) / 10 ^ n)"
| "f_round n x = x"

text \<open>The built-ins \<open>min(a, b)\<close> and \<open>max(a, b)\<close> keep their first argument unless the
  second one compares strictly better, so a NaN in second place is dropped.\<close>

definition f_min :: "pyfloat \<Rightarrow> pyfloat \<Rightarrow> pyfloat" where
  "f_min a b = (if f_lt b a then b else a)"

definition f_max :: "pyfloat \<Rightarrow> pyfloat \<Rightarrow> pyfloat" where
  "f_max a b = (if f_gt b a then b else a)"

definition f_truthy :: "pyfloat \<Rightarrow> bool" where
  "f_truthy x = (x \<noteq> Fin 0)"

text \<open>A value that a Python float can hold: infinities, NaN, and the rationals \<open>fl\<close> fixes.\<close>

definition is_double :: "pyfloat \<Rightarrow> bool" where
  "is_double x = (case x of Fin r \<Rightarrow> fl r = Fin r | _ \<Rightarrow> True)"

section \<open>Rounding to the nearest integer\<close>

lemma rhe_of_int [simp]: "rhe (of_int n) = n"
  by (simp add: rhe_def)

lemma rhe_bounds: "\<lfloor>y\<rfloor> \<le> rhe y" "rhe y \<le> \<lfloor>y\<rfloor> + 1"
  by (auto simp: rhe_def Let_def)

lemma rhe_mono:
  assumes "x \<le> y"
  shows "rhe x \<le> rhe y"
proof (cases "\<lfloor>x\<rfloor> = \<lfloor>y\<rfloor>")
  case True
  then show ?thesis using assms by (auto simp: rhe_def Let_def)
next
  case False
  with assms have "\<lfloor>x\<rfloor> + 1 \<le> \<lfloor>y\<rfloor>"
    using floor_mono[OF assms] by linarith
  then show ?thesis using rhe_bounds[of x] rhe_bounds[of y] by linarith
qed

lemma rhe_le_iff_int: "y \<le> of_int n \<Longrightarrow> rhe y \<le> n"
  using rhe_mono[of y "of_int n"] by simp

lemma rhe_ge_iff_int: "of_int n \<le> y \<Longrightarrow> n \<le> rhe y"
  using rhe_mono[of "of_int n" y] by simp

lemma rhe_nonneg [simp]: "0 \<le> y \<Longrightarrow> 0 \<le> rhe y"
  using rhe_ge_iff_int[of 0 y] by simp


section \<open>The binary exponent\<close>

lemma pow2_pos [simp]: "(0::rat) < 2 powi e"
  by (simp add: zero_less_power_int)

lemma pow2_mono: "a \<le> b \<Longrightarrow> (2::rat) powi a \<le> 2 powi b"
  by (rule power_int_increasing) auto

lemma pow2_less: "(2::rat) powi a < 2 powi b \<longleftrightarrow> a < b"
  by (metis linorder_not_less pow2_mono power_int_strict_increasing one_less_numeral_iff semiring_norm(76))

lemma bitlen_powi:
  assumes "0 < n"
  shows "2 powi (bitlen n - 1) \<le> (of_int n :: rat)" "(of_int n :: rat) < 2 powi bitlen n"
proof -
  have b: "1 \<le> bitlen n"
    using assms bitlen_nonneg[of n] bitlen_eq_zero_iff[of n] by linarith
  have "(of_int (2 ^ nat (bitlen n - 1)) :: rat) \<le> of_int n"
    using bitlen_bounds[OF assms] by (simp only: of_int_le_iff)
  then show "2 powi (bitlen n - 1) \<le> (of_int n :: rat)"
    using b by (simp add: power_int_nonneg_exp)
  have "(of_int n :: rat) < of_int (2 ^ nat (bitlen n))"
    using bitlen_bounds[OF assms] by (simp only: of_int_less_iff)
  then show "(of_int n :: rat) < 2 powi bitlen n"
    using b by (simp add: power_int_nonneg_exp)
qed

lemma fexp_bounds:
  assumes "0 < x"
  shows "2 powi fexp x \<le> x" "x < 2 powi (fexp x + 1)"
proof -
  obtain p q where pq: "quotient_of x = (p, q)" by (cases "quotient_of x")
  let ?e = "bitlen p - bitlen q"
  from pq have q: "0 < q" and x: "x = of_int p / of_int q"
    by (rule quotient_of_denom_pos, rule quotient_of_div)
  from assms x q have p: "0 < p" by (simp add: zero_less_divide_iff)
  note P = bitlen_powi[OF p] and Q = bitlen_powi[OF q]
  have "x < 2 powi bitlen p / 2 powi (bitlen q - 1)"
    unfolding x using P Q p q by (intro frac_less) auto
  also have "\<dots> = 2 powi (?e + 1)"
    by (simp add: power_int_diff power_int_add)
  finally have up: "x < 2 powi (?e + 1)" .
  have "2 powi (?e - 1) = (2 powi (bitlen p - 1) :: rat) / 2 powi bitlen q"
    by (simp add: power_int_diff)
  also have "\<dots> \<le> x"
    unfolding x using P Q p q by (intro frac_le) auto
  finally have low: "2 powi (?e - 1) \<le> x" .
  show "2 powi fexp x \<le> x" "x < 2 powi (fexp x + 1)"
    using up low by (auto simp: fexp_def pq Let_def)
qed

lemma fexp_mono:
  assumes "0 < x" "x \<le> y"
  shows "fexp x \<le> fexp y"
proof -
  have "2 powi fexp x < (2::rat) powi (fexp y + 1)"
    using fexp_bounds[of x] fexp_bounds[of y] assms by linarith
  then show ?thesis by (simp add: pow2_less)
qed

section \<open>Monotonicity and exactness of rounding\<close>

lemma pow2_grid:
  assumes "k \<le> e"
  shows "\<exists>n. (2::rat) powi e = of_int n * 2 powi k"
proof (intro exI)
  show "(2::rat) powi e = of_int (2 ^ nat (e - k)) * 2 powi k"
    using assms by (simp add: power_int_nonneg_exp[symmetric] power_int_diff)
qed

lemma round53_le_grid:
  assumes "0 < x" "x \<le> of_int n * 2 powi ulp_exp x"
  shows "round53 x \<le> of_int n * 2 powi ulp_exp x"
proof -
  have "x / 2 powi ulp_exp x \<le> of_int n"
    using assms by (simp add: pos_divide_le_eq)
  then show ?thesis
    using assms by (simp add: round53_def rhe_le_iff_int)
qed

lemma round53_ge_grid:
  assumes "0 < x" "of_int n * 2 powi ulp_exp x \<le> x"
  shows "of_int n * 2 powi ulp_exp x \<le> round53 x"
proof -
  have "of_int n \<le> x / 2 powi ulp_exp x"
    using assms by (simp add: pos_le_divide_eq)
  then show ?thesis
    using assms by (simp add: round53_def rhe_ge_iff_int)
qed

lemma round53_grid: "0 < x \<Longrightarrow> x = of_int n * 2 powi ulp_exp x \<Longrightarrow> round53 x = x"
  using round53_le_grid[of x n] round53_ge_grid[of x n] by linarith

lemma round53_nonneg [simp]: "0 \<le> round53 x"
  by (simp add: round53_def)

lemma round53_mono:
  assumes "x \<le> y"
  shows "round53 x \<le> round53 y"
proof (cases "0 < x")
  case False
  then show ?thesis by (simp add: round53_def)
next
  case True
  with assms have y: "0 < y" by simp
  show ?thesis
  proof (cases "ulp_exp x = ulp_exp y")
    case True
    then show ?thesis using assms \<open>0 < x\<close> y
      by (simp add: round53_def rhe_mono divide_right_mono)
  next
    case False
    with fexp_mono[OF \<open>0 < x\<close> assms] have k: "ulp_exp x \<le> fexp y" "ulp_exp y \<le> fexp y"
      and e: "fexp x + 1 \<le> fexp y"
      by (auto simp: ulp_exp_def)
    from k obtain m n where m: "(2::rat) powi fexp y = of_int m * 2 powi ulp_exp x"
      and n: "(2::rat) powi fexp y = of_int n * 2 powi ulp_exp y"
      using pow2_grid by metis
    have "x \<le> 2 powi fexp y"
      using fexp_bounds[OF \<open>0 < x\<close>] pow2_mono[OF e] by linarith
    then have "round53 x \<le> 2 powi fexp y"
      unfolding m using \<open>0 < x\<close> by (intro round53_le_grid) (simp_all add: m)
    moreover have "2 powi fexp y \<le> round53 y"
      unfolding n using y fexp_bounds(1)[OF y] by (intro round53_ge_grid) (simp_all add: n)
    ultimately show ?thesis by linarith
  qed
qed

lemma round53_int:
  assumes "0 \<le> n" "n < 2 ^ 53"
  shows "round53 (of_int n) = of_int n"
proof (cases "n = 0")
  case True
  then show ?thesis by (simp add: round53_def)
next
  case False
  with assms have n: "0 < n" by simp
  let ?x = "of_int n :: rat"
  have "(2::rat) powi fexp ?x < 2 powi 53"
    using fexp_bounds(1)[of ?x] n assms(2)
      of_int_less_iff[where 'a = rat, of n "2 ^ 53"] by simp
  then have "ulp_exp ?x \<le> 0"
    by (simp only: pow2_less) (simp add: ulp_exp_def)
  then obtain m where m: "(2::rat) powi 0 = of_int m * 2 powi ulp_exp ?x"
    using pow2_grid by blast
  have "?x = of_int (n * m) * 2 powi ulp_exp ?x"
    using m by simp
  then show ?thesis using n by (intro round53_grid[of _ "n * m"]) auto
qed

lemma fl_0 [simp]: "fl 0 = Fin 0"
  by (simp add: fl_def round53_def)

lemma fl_int:
  assumes "\<bar>n\<bar> < 2 ^ 53"
  shows "fl (of_int n) = Fin (of_int n)"
proof -
  have "round53 \<bar>of_int n\<bar> = of_int \<bar>n\<bar>"
    using round53_int[of "\<bar>n\<bar>"] assms by simp
  moreover have "(of_int \<bar>n\<bar> :: rat) < of_int (2 ^ 53)"
    using assms by (simp only: of_int_less_iff)
  then have "(of_int \<bar>n\<bar> :: rat) < 2 ^ 1024"
    by (rule less_trans) simp
  ultimately show ?thesis
    by (auto simp: fl_def Let_def)
qed

lemma fl_mono:
  assumes "x \<le> y"
  shows "f_le (fl x) (fl y)"
proof -
  have pos: "0 \<le> x \<Longrightarrow> round53 x \<le> round53 y"
    and neg: "y < 0 \<Longrightarrow> round53 (- y) \<le> round53 (- x)"
    using assms by (auto intro: round53_mono)
  have s: "- round53 a \<le> round53 b" for a b
    using round53_nonneg[of a] round53_nonneg[of b] by linarith
  show ?thesis
    using assms pos neg s by (auto simp: fl_def Let_def abs_if)
qed

lemma fl_nonneg: "0 \<le> x \<Longrightarrow> f_le (Fin 0) (fl x)"
  using fl_mono[of 0 x] by simp

section \<open>Order facts\<close>

lemma f_le_refl [simp]: "x \<noteq> NaN \<Longrightarrow> f_le x x"
  by (cases x) auto

lemma f_le_trans [trans]: "f_le x y \<Longrightarrow> f_le y z \<Longrightarrow> f_le x z"
  by (cases x; cases y; cases z) auto

lemma f_le_less_trans: "f_le x y \<Longrightarrow> f_lt y z \<Longrightarrow> f_lt x z"
  by (cases x; cases y; cases z) auto

lemma f_lt_le_trans: "f_lt x y \<Longrightarrow> f_le y z \<Longrightarrow> f_lt x z"
  by (cases x; cases y; cases z) auto

lemma f_lt_imp_le: "f_lt x y \<Longrightarrow> f_le x y"
  by (cases x; cases y) auto

lemma f_not_lt: "\<not> f_lt x y \<Longrightarrow> x \<noteq> NaN \<Longrightarrow> y \<noteq> NaN \<Longrightarrow> f_le y x"
  by (cases x; cases y) auto

lemma f_NaN [simp]: "\<not> f_le x NaN" "\<not> f_lt x NaN"
  by (cases x; simp)+

lemma f_lt_irrefl [simp]: "\<not> f_lt x x"
  by (cases x) auto

lemma fl_not_NaN [simp]: "fl x \<noteq> NaN"
  by (simp add: fl_def Let_def)

lemma f_sub_self: "x = Fin r \<Longrightarrow> f_sub x x = Fin 0"
  by (simp add: f_sub_def)

lemma f_add_0_double: "is_double x \<Longrightarrow> f_add (Fin 0) x = x"
  by (cases x) (auto simp: is_double_def)

end
