(* ===== verification/Py_Prelude.thy ===== *)
theory Py_Prelude
  imports Py_Float "HOL-Library.AList"
begin

text \<open>
  The Python vocabulary shared by the component theories: insertion-ordered dictionaries,
  dynamically typed values (\<open>Any\<close> in JSON payloads), truthiness, exceptions as values, the
  identifier and clock supplies behind \<open>uuid.uuid4()\<close> and \<open>datetime.now()\<close>, and the
  generic list and dictionary lemmas the component proofs rest on.
\<close>

section \<open>Collections of facts\<close>

named_theorems run_simps \<open>definitions to unfold when an operation is run on a concrete input\<close>
named_theorems inv_intros \<open>an operation keeps a component's invariant\<close>

section \<open>Exceptions\<close>

datatype py_exn =
    ValueError string
  | KeyError string
  | TypeError string
  | AttributeError string
  | ValidationError string
  | PermissionError string
  | RuntimeError string
  | OverflowError string
  | NotImplementedError string
  | ZeroDivisionError string

text \<open>The outcome of a call on a mutable object: the exception or the returned value, together
  with the object's state afterwards (a raise does not undo earlier writes).\<close>

type_synonym ('s, 'a) outcome = "(py_exn + 'a) \<times> 's"

lemma outcome_Inr: "\<not> isl (fst x) \<Longrightarrow> x = (Inr (projr (fst x)), snd x)"
  by (cases x; cases "fst x") auto

lemma outcome_Inl: "isl (fst x) \<Longrightarrow> x = (Inl (projl (fst x)), snd x)"
  by (cases x; cases "fst x") auto

text \<open>\<open>x / y\<close> on floats. A zero divisor raises whatever the dividend is.\<close>

fun f_div :: "pyfloat \<Rightarrow> pyfloat \<Rightarrow> py_exn + pyfloat" where
  "f_div x NaN = Inr NaN"
| "f_div NaN (Fin y) = (if y = 0 then Inl (ZeroDivisionError ''float division by zero'') else Inr NaN)"
| "f_div (Fin x) (Fin y) = (if y = 0 then Inl (ZeroDivisionError ''float division by zero'') else Inr (fl (x / y)))"
| "f_div (Fin x) _ = Inr (Fin 0)"
| "f_div x (Fin y) = (if y = 0 then Inl (ZeroDivisionError ''float division by zero'') else Inr (f_inf ((y < 0) \<noteq> (x = NInf))))"
| "f_div _ _ = Inr NaN"

text \<open>\<open>==\<close> on floats.\<close>

definition f_eq :: "pyfloat \<Rightarrow> pyfloat \<Rightarrow> bool" where
  "f_eq x y \<longleftrightarrow> x = y \<and> x \<noteq> NaN"

section \<open>Dictionaries\<close>

text \<open>A \<open>dict\<close> is an association list in insertion order: assignment to an existing key
  keeps its position, a new key goes to the end.\<close>

type_synonym ('k, 'v) dict = "('k \<times> 'v) list"

definition dict_get :: "('k, 'v) dict \<Rightarrow> 'k \<Rightarrow> 'v option" where
  "dict_get d k = map_of d k"

definition dict_set :: "'k \<Rightarrow> 'v \<Rightarrow> ('k, 'v) dict \<Rightarrow> ('k, 'v) dict" where
  "dict_set k v d = AList.update k v d"

definition dict_in :: "'k \<Rightarrow> ('k, 'v) dict \<Rightarrow> bool" where
  "dict_in k d = (k \<in> fst ` set d)"

definition dict_values :: "('k, 'v) dict \<Rightarrow> 'v list" where
  "dict_values d = map snd d"

definition dict_wf :: "('k, 'v) dict \<Rightarrow> bool" where
  "dict_wf d = distinct (map fst d)"

text \<open>\<open>d.setdefault(k, v)\<close> and the counting idiom \<open>d[k] = d.get(k, 0) + 1\<close>.\<close>

definition dict_setdefault :: "'k \<Rightarrow> 'v \<Rightarrow> ('k, 'v) dict \<Rightarrow> ('k, 'v) dict" where
  "dict_setdefault k v d = (if dict_in k d then d else d @ [(k, v)])"

definition dict_bump :: "'k \<Rightarrow> ('k, nat) dict \<Rightarrow> ('k, nat) dict" where
  "dict_bump k d = dict_set k (Suc (case dict_get d k of None \<Rightarrow> 0 | Some n \<Rightarrow> n)) d"

locale dict_spec =
  fixes lookup :: "'d \<Rightarrow> 'k \<Rightarrow> 'v option"
    and put :: "'k \<Rightarrow> 'v \<Rightarrow> 'd \<Rightarrow> 'd"
    and has_key :: "'k \<Rightarrow> 'd \<Rightarrow> bool"
    and vals :: "'d \<Rightarrow> 'v list"
    and wf :: "'d \<Rightarrow> bool"
  assumes lookup_put: "lookup (put k v d) k' = (if k' = k then Some v else lookup d k')"
    and has_key_iff: "has_key k d \<longleftrightarrow> lookup d k \<noteq> None"
    and wf_put: "wf d \<Longrightarrow> wf (put k v d)"
    and vals_put_fresh: "\<not> has_key k d \<Longrightarrow> vals (put k v d) = vals d @ [v]"
    and vals_lookup: "wf d \<Longrightarrow> set (vals d) = {v. \<exists>k. lookup d k = Some v}"
begin

lemma has_key_put: "has_key k' (put k v d) \<longleftrightarrow> k' = k \<or> has_key k' d"
  by (auto simp: has_key_iff lookup_put)

lemma lookup_put_same [simp]: "lookup (put k v d) k = Some v"
  by (simp add: lookup_put)

lemma lookup_put_other: "k' \<noteq> k \<Longrightarrow> lookup (put k v d) k' = lookup d k'"
  by (simp add: lookup_put)

lemma put_put_lookup: "lookup (put k v (put k u d)) = lookup (put k v d)"
  by (rule ext) (simp add: lookup_put)

lemma vals_put_all:
  assumes "wf d" "\<forall>v \<in> set (vals d). P v" "P v"
  shows "\<forall>v' \<in> set (vals (put k v d)). P v'"
  using assms by (auto simp: vals_lookup wf_put lookup_put split: if_splits)

end

lemma AList_update_fresh: "k \<notin> fst ` set d \<Longrightarrow> AList.update k v d = d @ [(k, v)]"
  by (induction d) auto

interpretation dict: dict_spec dict_get dict_set dict_in dict_values dict_wf
proof (unfold_locales, goal_cases)
  case (1 k v d k')
  show ?case by (simp add: dict_get_def dict_set_def update_conv')
next
  case (2 k d)
  show ?case by (force simp: dict_in_def dict_get_def map_of_eq_None_iff)
next
  case (3 d k v)
  then show ?case by (simp add: dict_wf_def dict_set_def distinct_update)
next
  case (4 k d v)
  then show ?case by (simp add: dict_in_def dict_set_def dict_values_def AList_update_fresh)
next
  case (5 d)
  then show ?case by (force simp: dict_wf_def dict_values_def dict_get_def)
qed

lemma dict_set_fresh: "\<not> dict_in k d \<Longrightarrow> dict_set k v d = d @ [(k, v)]"
  by (simp add: dict_in_def dict_set_def AList_update_fresh)

lemma dict_empty [simp]:
  "dict_get [] k = None" "\<not> dict_in k []" "dict_values [] = []" "dict_wf []"
  by (simp_all add: dict_get_def dict_in_def dict_values_def dict_wf_def)

lemma dict_set_eq_Nil [simp]: "dict_set k v d \<noteq> []"
  by (cases d) (auto simp: dict_set_def)

lemma length_dict_set:
  "length (dict_set k v d) = (if dict_in k d then length d else Suc (length d))"
  by (induction d) (auto simp: dict_set_def dict_in_def)

lemma dict_setdefault_get:
  "dict_get (dict_setdefault k v d) k' =
     (if k' = k \<and> dict_get d k = None then Some v else dict_get d k')"
  by (auto simp: dict_setdefault_def dict.has_key_iff)
    (auto simp: dict_get_def map_add_def split: option.splits)

lemma dict_setdefault_wf: "dict_wf d \<Longrightarrow> dict_wf (dict_setdefault k v d)"
  by (auto simp: dict_setdefault_def dict_wf_def dict_in_def)

lemma dict_setdefault_in: "dict_in k' (dict_setdefault k v d) \<longleftrightarrow> k' = k \<or> dict_in k' d"
  by (auto simp: dict_setdefault_def dict_in_def)

lemma dict_bump_get:
  "dict_get (dict_bump k d) k' =
     (if k' = k then Some (Suc (case dict_get d k of None \<Rightarrow> 0 | Some n \<Rightarrow> n)) else dict_get d k')"
  by (simp add: dict_bump_def dict.lookup_put)

lemma dict_bump_wf: "dict_wf d \<Longrightarrow> dict_wf (dict_bump k d)"
  by (simp add: dict_bump_def dict.wf_put)

lemma AList_update_bump_sum:
  "distinct (map fst d) \<Longrightarrow>
     sum_list (map snd (AList.update k (Suc (case map_of d k of None \<Rightarrow> 0 | Some n \<Rightarrow> n)) d))
       = Suc (sum_list (map snd d))"
  by (induction d) auto

lemma dict_bump_sum:
  "dict_wf d \<Longrightarrow> sum_list (dict_values (dict_bump k d)) = Suc (sum_list (dict_values d))"
  by (simp add: dict_bump_def dict_values_def dict_set_def dict_get_def dict_wf_def
      AList_update_bump_sum)

section \<open>Counting occurrences with a dictionary\<close>

text \<open>The loop \<open>for x in xs: seen[x] = seen.get(x, 0) + 1\<close>.\<close>

definition count_into :: "('k, nat) dict \<Rightarrow> 'k list \<Rightarrow> ('k, nat) dict" where
  "count_into d xs = fold dict_bump xs d"

lemma count_into_simps [simp]:
  "count_into d [] = d" "count_into d (x # xs) = count_into (dict_bump x d) xs"
  by (simp_all add: count_into_def)

lemma count_into_wf: "dict_wf d \<Longrightarrow> dict_wf (count_into d xs)"
  by (induction xs arbitrary: d) (auto simp: dict_bump_wf)

lemma count_into_sum:
  "dict_wf d \<Longrightarrow> sum_list (dict_values (count_into d xs)) = sum_list (dict_values d) + length xs"
  by (induction xs arbitrary: d) (auto simp: dict_bump_wf dict_bump_sum)

lemma count_into_get:
  "dict_get (count_into d xs) k =
     (if k \<in> set xs then Some ((case dict_get d k of None \<Rightarrow> 0 | Some n \<Rightarrow> n) + count_list xs k)
      else dict_get d k)"
  by (induction xs arbitrary: d) (auto simp: dict_bump_get split: option.splits)

section \<open>Dynamically typed values\<close>

text \<open>Values of JSON payloads (\<open>Dict[str, Any]\<close>).\<close>

datatype pyval =
    PNone
  | PBool bool
  | PInt int
  | PFloat pyfloat
  | PStr string
  | PList "pyval list"
  | PDict "(string \<times> pyval) list"

type_synonym payload = "(string, pyval) dict"

fun truthy :: "pyval \<Rightarrow> bool" where
  "truthy PNone = False"
| "truthy (PBool b) = b"
| "truthy (PInt i) = (i \<noteq> 0)"
| "truthy (PFloat x) = f_truthy x"
| "truthy (PStr s) = (s \<noteq> [])"
| "truthy (PList xs) = (xs \<noteq> [])"
| "truthy (PDict d) = (d \<noteq> [])"

text \<open>\<open>d.get(k, default)\<close> and \<open>d.get(k)\<close>.\<close>

definition get_or :: "payload \<Rightarrow> string \<Rightarrow> pyval \<Rightarrow> pyval" where
  "get_or d k dflt = (case dict_get d k of None \<Rightarrow> dflt | Some v \<Rightarrow> v)"

text \<open>\<open>a or b\<close>: the first operand when it is truthy.\<close>

definition py_or :: "pyval \<Rightarrow> pyval \<Rightarrow> pyval" where
  "py_or a b = (if truthy a then a else b)"

text \<open>A list or a dictionary cannot be a dictionary key (\<open>TypeError: unhashable type\<close>).\<close>

fun hashable :: "pyval \<Rightarrow> bool" where
  "hashable (PList _) = False"
| "hashable (PDict _) = False"
| "hashable _ = True"

text \<open>Optional strings: \<open>if s\<close> is true for a present, non-empty string, and \<open>s or t\<close>.\<close>

definition opt_truthy :: "string option \<Rightarrow> bool" where
  "opt_truthy s = (case s of None \<Rightarrow> False | Some t \<Rightarrow> t \<noteq> [])"

definition opt_or :: "string option \<Rightarrow> string option \<Rightarrow> string option" where
  "opt_or s t = (if opt_truthy s then s else t)"

definition opt_or_str :: "string option \<Rightarrow> string \<Rightarrow> string" where
  "opt_or_str s t = (case s of Some u \<Rightarrow> (if u \<noteq> [] then u else t) | None \<Rightarrow> t)"

lemma opt_truthy_simps [simp]:
  "\<not> opt_truthy None" "opt_truthy (Some s) \<longleftrightarrow> s \<noteq> []"
  by (simp_all add: opt_truthy_def)

text \<open>The guard \<open>k and k in S\<close> on an optional key, and the key as a set.\<close>

definition key_in :: "string option \<Rightarrow> string set \<Rightarrow> bool" where
  "key_in k S = (opt_truthy k \<and> the k \<in> S)"

definition key_set :: "string option \<Rightarrow> string set" where
  "key_set k = (if opt_truthy k then {the k} else {})"

lemma key_in_iff: "key_in k S \<longleftrightarrow> key_set k \<noteq> {} \<and> key_set k \<subseteq> S"
  by (auto simp: key_in_def key_set_def)

lemma key_set_disjoint: "\<not> key_in k S \<Longrightarrow> key_set k \<inter> S = {}"
  by (auto simp: key_in_def key_set_def)

lemma opt_truthyE: "opt_truthy s \<Longrightarrow> (\<And>t. s = Some t \<Longrightarrow> t \<noteq> [] \<Longrightarrow> P) \<Longrightarrow> P"
  by (cases s) auto

section \<open>Strings\<close>

text \<open>\<open>str.upper()\<close> and \<open>str.lower()\<close> on ASCII letters; \<open>str.join\<close>; decimal digits of a natural number
  (\<open>str(n)\<close>).\<close>

definition upper_char :: "char \<Rightarrow> char" where
  "upper_char c = (let n = (of_char c :: nat) in if 97 \<le> n \<and> n \<le> 122 then char_of (n - 32) else c)"

definition upper :: "string \<Rightarrow> string" where
  "upper s = map upper_char s"

definition lower_char :: "char \<Rightarrow> char" where
  "lower_char c = (let n = (of_char c :: nat) in if 65 \<le> n \<and> n \<le> 90 then char_of (n + 32) else c)"

definition lower :: "string \<Rightarrow> string" where
  "lower s = map lower_char s"

fun join :: "string \<Rightarrow> string list \<Rightarrow> string" where
  "join sep [] = []"
| "join sep [x] = x"
| "join sep (x # y # xs) = x @ sep @ join sep (y # xs)"

fun str_of_nat :: "nat \<Rightarrow> string" where
  "str_of_nat n = (if n < 10 then [char_of (48 + n)]
     else str_of_nat (n div 10) @ [char_of (48 + n mod 10)])"

declare str_of_nat.simps [simp del]

definition str_of_int :: "int \<Rightarrow> string" where
  "str_of_int i = (if i < 0 then CHR ''-'' # str_of_nat (nat (- i)) else str_of_nat (nat i))"

section \<open>Conversion to float\<close>

text \<open>The built-in \<open>float(v)\<close>. A string is stripped of white space and read as an optional sign
  and either \<open>inf\<close>, \<open>infinity\<close>, \<open>nan\<close> in any case or a decimal literal, whose digit
  groups may hold single underscores between digits.\<close>

definition is_digit :: "char \<Rightarrow> bool" where
  "is_digit c = (let n = (of_char c :: nat) in 48 \<le> n \<and> n \<le> 57)"

definition digit_val :: "char \<Rightarrow> nat" where
  "digit_val c = of_char c - 48"

definition is_space :: "char \<Rightarrow> bool" where
  "is_space c = (let n = (of_char c :: nat) in n = 32 \<or> (9 \<le> n \<and> n \<le> 13) \<or> (28 \<le> n \<and> n \<le> 31) \<or> n = 133 \<or> n = 160)"

definition strip :: "string \<Rightarrow> string" where
  "strip s = rev (dropWhile is_space (rev (dropWhile is_space s)))"

text \<open>The longest digit group: its value, its number of digits, and what follows.\<close>

fun digit_run :: "string \<Rightarrow> nat \<Rightarrow> nat \<Rightarrow> nat \<times> nat \<times> string" where
  "digit_run [] v n = (v, n, [])"
| "digit_run (c # cs) v n =
     (if is_digit c then digit_run cs (v * 10 + digit_val c) (Suc n)
      else if c = CHR ''_'' \<and> 0 < n \<and> cs \<noteq> [] \<and> is_digit (hd cs) then digit_run cs v n
      else (v, n, c # cs))"

definition parse_sign :: "string \<Rightarrow> bool \<times> string" where
  "parse_sign s = (case s of [] \<Rightarrow> (False, s)
     | c # cs \<Rightarrow> if c = CHR ''-'' then (True, cs) else if c = CHR ''+'' then (False, cs) else (False, s))"

text \<open>The exponent part; \<open>None\<close> when it is malformed or followed by anything.\<close>

definition parse_exponent :: "string \<Rightarrow> int option" where
  "parse_exponent s = (case s of [] \<Rightarrow> Some 0
     | c # cs \<Rightarrow>
       if c = CHR ''e'' \<or> c = CHR ''E'' then
         (case parse_sign cs of (neg, ds) \<Rightarrow>
          case digit_run ds 0 0 of (v, n, rest) \<Rightarrow>
            if n = 0 \<or> rest \<noteq> [] then None else Some (if neg then - int v else int v))
       else None)"

definition parse_decimal :: "string \<Rightarrow> rat option" where
  "parse_decimal s =
     (case digit_run s 0 0 of (iv, ni, r) \<Rightarrow>
      case (if r \<noteq> [] \<and> hd r = CHR ''.'' then digit_run (tl r) 0 0 else (0, 0, r)) of (fv, nf, r') \<Rightarrow>
        if ni + nf = 0 then None
        else map_option (\<lambda>e. (of_nat (iv * 10 ^ nf + fv)) * 10 powi (e - int nf)) (parse_exponent r'))"

definition float_of_str :: "string \<Rightarrow> pyfloat option" where
  "float_of_str s =
     (case parse_sign (strip s) of (neg, t) \<Rightarrow>
        if upper t = ''INF'' \<or> upper t = ''INFINITY'' then Some (f_inf neg)
        else if upper t = ''NAN'' then Some NaN
        else map_option (\<lambda>x. fl (if neg then - x else x)) (parse_decimal t))"

fun py_float :: "pyval \<Rightarrow> py_exn + pyfloat" where
  "py_float (PFloat x) = Inr x"
| "py_float (PBool b) = Inr (Fin (if b then 1 else 0))"
| "py_float (PInt i) = (case fl (of_int i) of Fin x \<Rightarrow> Inr (Fin x)
     | _ \<Rightarrow> Inl (OverflowError ''int too large to convert to float''))"
| "py_float (PStr s) = (case float_of_str s of Some x \<Rightarrow> Inr x
     | None \<Rightarrow> Inl (ValueError ''could not convert string to float''))"
| "py_float _ = Inl (TypeError ''float() argument must be a string or a real number'')"

section \<open>Printing a float\<close>

text \<open>\<open>repr(x)\<close>, which f-strings use: the shortest digit string that reads back as \<open>x\<close> and among
  those the closest one, in fixed notation when the decimal point falls near the digits and in
  scientific notation otherwise. \<open>dec_point x\<close> is the exponent \<open>k\<close> with
  \<open>10^(k-1) \<le> x < 10^k\<close>; a positive double is at least \<open>10^-324\<close>, so 400 steps are enough
  to scale it up to 1.\<close>

fun scale_up :: "nat \<Rightarrow> rat \<Rightarrow> nat" where
  "scale_up 0 x = 0"
| "scale_up (Suc n) x = (if x \<ge> 1 then 0 else Suc (scale_up n (x * 10)))"

definition dec_point :: "rat \<Rightarrow> int" where
  "dec_point x = (if x \<ge> 1 then int (length (str_of_nat (nat \<lfloor>x\<rfloor>)))
     else 1 - int (scale_up 400 x))"

text \<open>The \<open>n\<close>-digit decimals just below and above \<open>x\<close> that read back as \<open>x\<close>, the closer first.\<close>

definition digit_candidates :: "rat \<Rightarrow> nat \<Rightarrow> nat list" where
  "digit_candidates x n =
     (let u = 10 powi (dec_point x - int n); lo = nat \<lfloor>x / u\<rfloor>;
          cs = (if x - of_nat lo * u \<le> of_nat (Suc lo) * u - x then [lo, Suc lo] else [Suc lo, lo])
      in filter (\<lambda>c. fl (of_nat c * u) = Fin x) cs)"

fun shortest_digits :: "rat \<Rightarrow> nat \<Rightarrow> nat \<Rightarrow> nat \<times> nat" where
  "shortest_digits x n 0 = (nat \<lfloor>x\<rfloor>, n)"
| "shortest_digits x n (Suc k) =
     (case digit_candidates x n of c # _ \<Rightarrow> (c, n) | [] \<Rightarrow> shortest_digits x (Suc n) k)"

definition pad2 :: "nat \<Rightarrow> string" where
  "pad2 n = (if n < 10 then ''0'' @ str_of_nat n else str_of_nat n)"

definition repr_pos :: "rat \<Rightarrow> string" where
  "repr_pos x =
     (case shortest_digits x 1 17 of (c, n) \<Rightarrow>
      let ds = str_of_nat c; p = dec_point x + int (length ds) - int n
      in if - 4 < p \<and> p \<le> 16 then
           (if p \<le> 0 then ''0.'' @ replicate (nat (- p)) (CHR ''0'') @ ds
            else if int (length ds) \<le> p then ds @ replicate (nat p - length ds) (CHR ''0'') @ ''.0''
            else take (nat p) ds @ ''.'' @ drop (nat p) ds)
         else
           (let e = p - 1;
                m = (if length ds = 1 then ds else take 1 ds @ ''.'' @ drop 1 ds)
            in m @ ''e'' @ (if e < 0 then ''-'' else ''+'') @ pad2 (nat \<bar>e\<bar>)))"

definition float_repr :: "pyfloat \<Rightarrow> string" where
  "float_repr x = (case x of PInf \<Rightarrow> ''inf'' | NInf \<Rightarrow> ''-inf'' | NaN \<Rightarrow> ''nan''
     | Fin r \<Rightarrow> if r = 0 then ''0.0'' else if r < 0 then ''-'' @ repr_pos (- r) else repr_pos r)"

text \<open>\<open>k in d\<close> followed by \<open>d[k]\<close>, for a dictionary with string keys and a key of any type.\<close>

definition any_lookup :: "pyval \<Rightarrow> (string, 'v) dict \<Rightarrow> py_exn + 'v option" where
  "any_lookup k d = (if \<not> hashable k then Inl (TypeError ''unhashable type'')
     else case k of PStr s \<Rightarrow> Inr (dict_get d s) | _ \<Rightarrow> Inr None)"

section \<open>Model validation\<close>

text \<open>
  Field validation by pydantic, which is not part of this repository: what a value of a field
  declared \<open>str\<close> or \<open>float\<close> becomes, \<open>None\<close> for a \<open>ValidationError\<close>. The documented facts
  the code relies on are that strings and floats pass unchanged and that nothing else passes
  for a string (no coercion to \<open>str\<close> since version 2).
\<close>

record validators =
  v_str :: "pyval \<Rightarrow> string option"
  v_float :: "pyval \<Rightarrow> pyfloat option"

definition validators_ok :: "validators \<Rightarrow> bool" where
  "validators_ok v \<longleftrightarrow> (\<forall>s. v_str v (PStr s) = Some s) \<and> (\<forall>x. v_float v (PFloat x) = Some x)
     \<and> (\<forall>x s. v_str v x = Some s \<longrightarrow> x = PStr s)"

definition v_opt_str :: "validators \<Rightarrow> pyval \<Rightarrow> string option option" where
  "v_opt_str v x = (if x = PNone then Some None else map_option Some (v_str v x))"

fun v_str_list :: "validators \<Rightarrow> pyval list \<Rightarrow> string list option" where
  "v_str_list v [] = Some []"
| "v_str_list v (x # xs) =
     (case v_str v x of None \<Rightarrow> None | Some s \<Rightarrow> map_option (\<lambda>ss. s # ss) (v_str_list v xs))"

definition of_opt :: "string option \<Rightarrow> pyval" where
  "of_opt s = (case s of None \<Rightarrow> PNone | Some t \<Rightarrow> PStr t)"

text \<open>An instance with the documented behaviour, for evaluation on concrete inputs.\<close>

definition plain_validators :: validators where
  "plain_validators = \<lparr>v_str = (\<lambda>x. case x of PStr s \<Rightarrow> Some s | _ \<Rightarrow> None),
     v_float = (\<lambda>x. case x of PFloat y \<Rightarrow> Some y | PInt i \<Rightarrow> Some (fl (of_int i)) | _ \<Rightarrow> None)\<rparr>"

lemma plain_validators_ok: "validators_ok plain_validators"
  by (auto simp: validators_ok_def plain_validators_def split: pyval.splits)

lemma v_str_iff: "validators_ok v \<Longrightarrow> v_str v x = Some s \<longleftrightarrow> x = PStr s"
  by (auto simp: validators_ok_def)

lemma v_str_None [simp]: "validators_ok v \<Longrightarrow> v_str v PNone = None"
  by (metis option.exhaust pyval.distinct(7) v_str_iff)

lemma v_str_list_None: "validators_ok v \<Longrightarrow> PNone \<in> set xs \<Longrightarrow> v_str_list v xs = None"
  by (induction xs) (auto split: option.splits)

lemma v_str_list_Some: "validators_ok v \<Longrightarrow> v_str_list v (map PStr ss) = Some ss"
  by (induction ss) (auto simp: validators_ok_def)

section \<open>Identifiers and the clock\<close>

text \<open>
  \<open>uuid.uuid4().hex\<close> and \<open>datetime.now(timezone.utc)\<close> are read from two infinite supplies:
  the n-th draw of the process and the n-th reading of the clock, in microseconds. A call
  advances the position it read. Nothing is assumed of either supply here; theorems that need
  two draws to differ say so of the draws they compare.
\<close>

record world =
  uuid_of :: "nat \<Rightarrow> string"
  uuid_n :: nat
  clock_of :: "nat \<Rightarrow> int"
  clock_n :: nat

definition new_id :: "string \<Rightarrow> world \<Rightarrow> string \<times> world" where
  "new_id prefix w = (prefix @ ''_'' @ take 16 (uuid_of w (uuid_n w)), w\<lparr>uuid_n := Suc (uuid_n w)\<rparr>)"

definition utcnow :: "world \<Rightarrow> int \<times> world" where
  "utcnow w = (clock_of w (clock_n w), w\<lparr>clock_n := Suc (clock_n w)\<rparr>)"

lemma new_id_world [simp]:
  "uuid_of (snd (new_id p w)) = uuid_of w" "clock_of (snd (new_id p w)) = clock_of w"
  "uuid_n (snd (new_id p w)) = Suc (uuid_n w)" "clock_n (snd (new_id p w)) = clock_n w"
  by (simp_all add: new_id_def)

lemma utcnow_world [simp]:
  "uuid_of (snd (utcnow w)) = uuid_of w" "clock_of (snd (utcnow w)) = clock_of w"
  "uuid_n (snd (utcnow w)) = uuid_n w" "clock_n (snd (utcnow w)) = Suc (clock_n w)"
  by (simp_all add: utcnow_def)

text \<open>The identifier drawn at position \<open>n\<close> of the supply.\<close>

definition id_at :: "world \<Rightarrow> nat \<Rightarrow> string" where
  "id_at w n = take 16 (uuid_of w n)"

text \<open>Time passes: the supplies stay, the positions advance.\<close>

definition world_le :: "world \<Rightarrow> world \<Rightarrow> bool" where
  "world_le w w' \<longleftrightarrow> uuid_of w' = uuid_of w \<and> clock_of w' = clock_of w
     \<and> uuid_n w \<le> uuid_n w' \<and> clock_n w \<le> clock_n w'"

lemma world_le_refl [simp]: "world_le w w"
  by (simp add: world_le_def)

lemma world_le_trans [trans]: "world_le u v \<Longrightarrow> world_le v w \<Longrightarrow> world_le u w"
  by (auto simp: world_le_def)

lemma world_le_draw [simp]:
  "world_le w (w\<lparr>uuid_n := Suc (uuid_n w), clock_n := Suc (clock_n w)\<rparr>)"
  by (simp add: world_le_def)

lemma world_le_id_at: "world_le w w' \<Longrightarrow> id_at w' = id_at w"
  by (auto simp: world_le_def id_at_def)

text \<open>The identifiers drawn before position \<open>N\<close> are pairwise different.\<close>

definition draws_distinct :: "world \<Rightarrow> nat \<Rightarrow> bool" where
  "draws_distinct w N \<longleftrightarrow> inj_on (id_at w) {..<N}"

lemma draws_distinct_eq:
  "draws_distinct w N \<Longrightarrow> m < N \<Longrightarrow> n < N \<Longrightarrow> id_at w m = id_at w n \<longleftrightarrow> m = n"
  by (auto simp: draws_distinct_def dest: inj_onD)

lemma draws_distinct_mono: "draws_distinct w N \<Longrightarrow> M \<le> N \<Longrightarrow> draws_distinct w M"
  by (auto simp: draws_distinct_def intro: inj_on_subset)

text \<open>The strings with a given prefix drawn so far.\<close>

definition drawn :: "string \<Rightarrow> world \<Rightarrow> string set" where
  "drawn p w = (\<lambda>n. p @ ''_'' @ id_at w n) ` {..<uuid_n w}"

lemma drawn_mono: "world_le w w' \<Longrightarrow> drawn p w \<subseteq> drawn p w'"
  by (auto simp: drawn_def world_le_id_at) (auto simp: world_le_def)

lemma drawn_fresh:
  assumes "draws_distinct w N" "uuid_n w < N"
  shows "p @ ''_'' @ id_at w (uuid_n w) \<notin> drawn p w"
  using assms draws_distinct_eq[OF assms(1)] by (fastforce simp: drawn_def)

lemma drawn_next:
  "world_le w w' \<Longrightarrow> uuid_n w < uuid_n w' \<Longrightarrow> p @ ''_'' @ id_at w (uuid_n w) \<in> drawn p w'"
  by (auto simp: drawn_def world_le_id_at)

text \<open>All identifiers drawn so far differ; this is inherited by earlier points of the run.\<close>

definition ids_ok :: "world \<Rightarrow> bool" where
  "ids_ok w \<longleftrightarrow> draws_distinct w (uuid_n w)"

lemma ids_ok_before: "world_le w w' \<Longrightarrow> ids_ok w' \<Longrightarrow> ids_ok w"
  by (auto simp: ids_ok_def draws_distinct_def world_le_id_at world_le_def intro: inj_on_subset)

lemma id_fresh:
  assumes "world_le w w'" "uuid_n w < uuid_n w'" "ids_ok w'"
  shows "p @ ''_'' @ id_at w (uuid_n w) \<notin> drawn p w"
proof (rule drawn_fresh)
  show "draws_distinct w (uuid_n w')"
    using assms by (simp add: ids_ok_def draws_distinct_def world_le_id_at)
qed (rule assms(2))

text \<open>A supply for evaluation on concrete inputs.\<close>

definition sample_world :: world where
  "sample_world = \<lparr>uuid_of = str_of_nat, uuid_n = 0, clock_of = int, clock_n = 0\<rparr>"

lemma new_id_fst: "fst (new_id p w) = p @ ''_'' @ id_at w (uuid_n w)"
  by (simp add: new_id_def id_at_def)

declare dict_get_def [run_simps] dict_set_def [run_simps] dict_in_def [run_simps]
  dict_values_def [run_simps] dict_setdefault_def [run_simps] dict_bump_def [run_simps]
  count_into_def [run_simps] get_or_def [run_simps] py_or_def [run_simps] key_in_def [run_simps]
  key_set_def [run_simps] opt_or_def [run_simps] opt_or_str_def [run_simps]
  any_lookup_def [run_simps] v_opt_str_def [run_simps] of_opt_def [run_simps]
  plain_validators_def [run_simps] upper_def [run_simps] upper_char_def [run_simps]
  sample_world_def [run_simps] str_of_nat.simps [run_simps] char_of_def [run_simps] bit_0 [run_simps] new_id_def [run_simps] utcnow_def [run_simps]

section \<open>Keys and entries of updated dictionaries\<close>

lemma set_dict_set: "set (dict_set k v d) \<subseteq> insert (k, v) (set d)"
  by (induction d) (auto simp: dict_set_def)

lemma keys_dict_set: "fst ` set (dict_set k v d) = insert k (fst ` set d)"
  using dict.has_key_put[of _ k v d] by (auto simp: dict_in_def)

lemma dict_get_in_values: "dict_get d k = Some x \<Longrightarrow> x \<in> set (dict_values d)"
  by (force simp: dict_get_def dict_values_def dest: map_of_SomeD)

lemma key_in_mono: "key_in k S \<Longrightarrow> S \<subseteq> T \<Longrightarrow> key_in k T"
  by (auto simp: key_in_def)

section \<open>Lists\<close>

lemma list_all_append_single: "(\<forall>x \<in> set (xs @ [y]). P x) \<longleftrightarrow> (\<forall>x \<in> set xs. P x) \<and> P y"
  by auto

lemma set_update_split:
  "a < length xs \<Longrightarrow> set (xs[a := y]) = insert y ((!) xs ` ({..<length xs} - {a}))"
proof (intro equalityI subsetI)
  fix z assume a: "a < length xs" and "z \<in> insert y ((!) xs ` ({..<length xs} - {a}))"
  then consider "z = y" | b where "b < length xs" "b \<noteq> a" "z = xs ! b" by blast
  then show "z \<in> set (xs[a := y])"
  proof cases
    case 2
    then show ?thesis by (metis length_list_update nth_list_update_neq nth_mem)
  qed (use a set_update_memI in fast)
next
  fix z assume a: "a < length xs" and "z \<in> set (xs[a := y])"
  then obtain b where "b < length xs" "z = xs[a := y] ! b" by (auto simp: set_conv_nth)
  then show "z \<in> insert y ((!) xs ` ({..<length xs} - {a}))" by (cases "b = a") auto
qed

lemma filter_append_single: "filter P (xs @ [y]) = filter P xs @ (if P y then [y] else [])"
  by simp

end
