(* ===== verification/Fin_Models.thy ===== *)
theory Fin_Models
  imports Py_Prelude
begin

text \<open>
  The data model of the marketplace financial control plane
  (\<^verbatim>\<open>product_factory/marketplace_financial_hardening/models.py\<close>): every enumeration as a
  \<^theory_text>\<open>datatype\<close> with its \<open>.value\<close>, every model class as a \<^theory_text>\<open>record\<close> whose fields
  carry a prefix for the class. Points in time are microseconds. Constructors that fill
  \<open>default_factory\<close> fields draw identifiers and clock readings from the world.
\<close>

section \<open>Enumerations\<close>

datatype PaymentStatus =
    PS_CREATED | PS_AUTHORIZED | PS_CAPTURED | PS_FAILED | PS_REFUNDED
  | PS_PARTIALLY_REFUNDED | PS_CANCELLED | PS_REQUIRES_ACTION

fun payment_status_value :: "PaymentStatus \<Rightarrow> string" where
  "payment_status_value PS_CREATED = ''CREATED''"
| "payment_status_value PS_AUTHORIZED = ''AUTHORIZED''"
| "payment_status_value PS_CAPTURED = ''CAPTURED''"
| "payment_status_value PS_FAILED = ''FAILED''"
| "payment_status_value PS_REFUNDED = ''REFUNDED''"
| "payment_status_value PS_PARTIALLY_REFUNDED = ''PARTIALLY_REFUNDED''"
| "payment_status_value PS_CANCELLED = ''CANCELLED''"
| "payment_status_value PS_REQUIRES_ACTION = ''REQUIRES_ACTION''"

datatype RefundStatus =
    RS_REQUESTED | RS_PENDING_APPROVAL | RS_APPROVED | RS_REJECTED | RS_PROCESSING
  | RS_COMPLETED | RS_FAILED

datatype LedgerEntryType =
    LT_PAYMENT_CAPTURED | LT_PAYMENT_FAILED | LT_REFUND_REQUESTED | LT_REFUND_APPROVED
  | LT_REFUND_COMPLETED | LT_FEE_CHARGED | LT_FEE_ADJUSTED | LT_TAX_CALCULATED
  | LT_TAX_ADJUSTED | LT_PAYOUT_PLANNED | LT_PAYOUT_COMPLETED

fun ledger_entry_type_value :: "LedgerEntryType \<Rightarrow> string" where
  "ledger_entry_type_value LT_PAYMENT_CAPTURED = ''PAYMENT_CAPTURED''"
| "ledger_entry_type_value LT_PAYMENT_FAILED = ''PAYMENT_FAILED''"
| "ledger_entry_type_value LT_REFUND_REQUESTED = ''REFUND_REQUESTED''"
| "ledger_entry_type_value LT_REFUND_APPROVED = ''REFUND_APPROVED''"
| "ledger_entry_type_value LT_REFUND_COMPLETED = ''REFUND_COMPLETED''"
| "ledger_entry_type_value LT_FEE_CHARGED = ''FEE_CHARGED''"
| "ledger_entry_type_value LT_FEE_ADJUSTED = ''FEE_ADJUSTED''"
| "ledger_entry_type_value LT_TAX_CALCULATED = ''TAX_CALCULATED''"
| "ledger_entry_type_value LT_TAX_ADJUSTED = ''TAX_ADJUSTED''"
| "ledger_entry_type_value LT_PAYOUT_PLANNED = ''PAYOUT_PLANNED''"
| "ledger_entry_type_value LT_PAYOUT_COMPLETED = ''PAYOUT_COMPLETED''"

datatype FraudAction = FA_ALLOW | FA_REVIEW | FA_HOLD | FA_BLOCK

datatype SLAStatus = SLA_OK | SLA_WARNING | SLA_BREACH

datatype SLAStatusOverall = SO_HEALTHY | SO_DEGRADED | SO_BREACH

datatype SLADomain =
    PAYMENT_WEBHOOK_PROCESSING_LATENCY | PAYMENT_EVENT_INGESTION_SUCCESS_RATE
  | REFUND_PROCESSING_LATENCY | RECONCILIATION_FRESHNESS | FRAUD_ASSESSMENT_LATENCY
  | TAX_CALCULATION_LATENCY | MARKETPLACE_API_AVAILABILITY | LISTING_PUBLICATION_LATENCY

fun sla_domain_value :: "SLADomain \<Rightarrow> string" where
  "sla_domain_value PAYMENT_WEBHOOK_PROCESSING_LATENCY = ''payment_webhook_processing_latency''"
| "sla_domain_value PAYMENT_EVENT_INGESTION_SUCCESS_RATE = ''payment_event_ingestion_success_rate''"
| "sla_domain_value REFUND_PROCESSING_LATENCY = ''refund_processing_latency''"
| "sla_domain_value RECONCILIATION_FRESHNESS = ''reconciliation_freshness''"
| "sla_domain_value FRAUD_ASSESSMENT_LATENCY = ''fraud_assessment_latency''"
| "sla_domain_value TAX_CALCULATION_LATENCY = ''tax_calculation_latency''"
| "sla_domain_value MARKETPLACE_API_AVAILABILITY = ''marketplace_api_availability''"
| "sla_domain_value LISTING_PUBLICATION_LATENCY = ''listing_publication_latency''"

datatype SLAComparator = LESS_THAN_MS | GREATER_THAN_RATE

datatype GovernanceAction =
    MARKETPLACE_FEE_CHANGE | MARKETPLACE_PRICING_POLICY_CHANGE | REFUND_ABOVE_THRESHOLD
  | TAX_POLICY_CHANGE | FRAUD_POLICY_CHANGE | PAYOUT_POLICY_CHANGE | FINANCIAL_ROLLBACK
  | MARKETPLACE_EMERGENCY_SUSPENSION | MARKETPLACE_DELISTING | FINANCIAL_COMPLIANCE_CERTIFICATION

datatype ReconciliationMismatchKind =
    PAYMENT_EVENT_MISSING_LEDGER | LEDGER_MISSING_PAYMENT_EVENT | AMOUNT_MISMATCH
  | CURRENCY_MISMATCH | STATUS_MISMATCH | DUPLICATE_IDEMPOTENCY_KEY
  | REFUND_WITHOUT_ORIGINAL_PAYMENT | REFUND_EXCEEDS_CAPTURED | FEE_MISMATCH | TAX_MISMATCH

fun mismatch_kind_value :: "ReconciliationMismatchKind \<Rightarrow> string" where
  "mismatch_kind_value PAYMENT_EVENT_MISSING_LEDGER = ''PAYMENT_EVENT_MISSING_LEDGER''"
| "mismatch_kind_value LEDGER_MISSING_PAYMENT_EVENT = ''LEDGER_MISSING_PAYMENT_EVENT''"
| "mismatch_kind_value AMOUNT_MISMATCH = ''AMOUNT_MISMATCH''"
| "mismatch_kind_value CURRENCY_MISMATCH = ''CURRENCY_MISMATCH''"
| "mismatch_kind_value STATUS_MISMATCH = ''STATUS_MISMATCH''"
| "mismatch_kind_value DUPLICATE_IDEMPOTENCY_KEY = ''DUPLICATE_IDEMPOTENCY_KEY''"
| "mismatch_kind_value REFUND_WITHOUT_ORIGINAL_PAYMENT = ''REFUND_WITHOUT_ORIGINAL_PAYMENT''"
| "mismatch_kind_value REFUND_EXCEEDS_CAPTURED = ''REFUND_EXCEEDS_CAPTURED''"
| "mismatch_kind_value FEE_MISMATCH = ''FEE_MISMATCH''"
| "mismatch_kind_value TAX_MISMATCH = ''TAX_MISMATCH''"

datatype ReconciliationSeverity = SEV_LOW | SEV_MEDIUM | SEV_HIGH | SEV_CRITICAL

datatype ReconciliationStatus = REC_HEALTHY | REC_MISMATCHES_DETECTED | REC_FAILED

section \<open>Model classes\<close>

record PaymentWebhookEnvelope =
  env_provider :: string
  env_provider_event_id :: string
  env_idempotency_key :: "string option"
  env_signature :: "string option"
  env_timestamp :: "int option"
  env_payload :: payload

record PaymentIntent =
  pi_intent_id :: string
  pi_marketplace_id :: string
  pi_order_id :: string
  pi_listing_id :: string
  pi_tenant_id :: string
  pi_amount :: pyfloat
  pi_currency :: string
  pi_status :: PaymentStatus
  pi_provider :: string
  pi_provider_intent_id :: "string option"
  pi_created_at :: int
  pi_updated_at :: int
  pi_idempotency_key :: "string option"
  pi_approval_ref :: "string option"
  pi_governance_ref :: "string option"

text \<open>\<open>intent_id\<close> is assigned after construction without validation, so it can hold any value.\<close>

record PaymentEvent =
  pe_event_id :: string
  pe_intent_id :: pyval
  pe_marketplace_id :: string
  pe_order_id :: string
  pe_listing_id :: string
  pe_tenant_id :: string
  pe_provider :: string
  pe_provider_event_id :: string
  pe_status :: PaymentStatus
  pe_amount :: pyfloat
  pe_currency :: string
  pe_idempotency_key :: "string option"
  pe_timestamp :: int
  pe_normalized :: bool
  pe_evidence_ref :: "string option"
  pe_audit_ref :: "string option"

record RefundRequest =
  rr_refund_id :: string
  rr_marketplace_id :: string
  rr_order_id :: string
  rr_listing_id :: string
  rr_tenant_id :: string
  rr_amount :: pyfloat
  rr_currency :: string
  rr_original_payment_event_id :: "string option"
  rr_reason_code :: string
  rr_reason :: string
  rr_requested_by :: string
  rr_status :: RefundStatus
  rr_governance_ref :: "string option"
  rr_approval_ref :: "string option"
  rr_created_at :: int
  rr_updated_at :: int
  rr_idempotency_key :: "string option"
  rr_completed_at :: "int option"

record FinancialLedgerEntry =
  le_ledger_id :: string
  le_marketplace_id :: string
  le_order_id :: "string option"
  le_listing_id :: "string option"
  le_tenant_id :: "string option"
  le_entry_type :: LedgerEntryType
  le_amount :: pyfloat
  le_currency :: string
  le_status :: string
  le_idempotency_key :: "string option"
  le_source_event_id :: "string option"
  le_governance_ref :: "string option"
  le_actor :: string
  le_reason :: string
  le_evidence_ref :: "string option"
  le_created_at :: int

record ReconciliationMismatch =
  mm_mismatch_id :: string
  mm_marketplace_id :: string
  mm_order_id :: "string option"
  mm_kind :: ReconciliationMismatchKind
  mm_severity :: ReconciliationSeverity
  mm_details :: string
  mm_evidence_refs :: "string list"
  mm_governance_ref :: "string option"
  mm_detected_at :: int

record ReconciliationReport =
  rec_report_id :: string
  rec_marketplace_id :: string
  rec_generated_at :: int
  rec_total_entries :: nat
  rec_mismatch_count :: nat
  rec_mismatches :: "ReconciliationMismatch list"
  rec_summary :: "(string, nat) dict"
  rec_governance_ref :: "string option"
  rec_status :: ReconciliationStatus

record TaxCalculationRequest =
  txq_tax_request_id :: string
  txq_marketplace_id :: string
  txq_order_id :: string
  txq_listing_id :: string
  txq_tenant_id :: string
  txq_jurisdiction :: string
  txq_amounts :: "payload list"
  txq_currency :: string
  txq_provider :: string
  txq_evidence_ref :: "string option"

record TaxCalculationResult =
  txr_tax_request_id :: string
  txr_provider :: string
  txr_jurisdiction :: string
  txr_tax_rate :: pyfloat
  txr_tax_amount :: pyfloat
  txr_currency :: string
  txr_provider_reference :: "string option"
  txr_calculated_at :: int
  txr_evidence_ref :: "string option"

record FraudAssessment =
  fa_assessment_id :: string
  fa_listing_id :: "string option"
  fa_tenant_id :: "string option"
  fa_order_id :: "string option"
  fa_provider :: string
  fa_fraud_score :: pyfloat
  fa_risk_indicators :: "string list"
  fa_action :: FraudAction
  fa_provider_reference :: "string option"
  fa_timestamp :: int
  fa_evidence_ref :: "string option"
  fa_governance_ref :: "string option"

record SLADefinition =
  sd_domain :: SLADomain
  sd_target_value :: pyfloat
  sd_comparator :: SLAComparator
  sd_window_seconds :: int
  sd_warning_threshold_pct :: pyfloat
  sd_breach_threshold_pct :: pyfloat
  sd_severity_on_breach :: ReconciliationSeverity

record SLAStatusItem =
  si_domain :: SLADomain
  si_status :: SLAStatus
  si_current_value :: pyfloat
  si_target_value :: pyfloat
  si_breach_count :: nat
  si_last_breach_at :: "int option"

record SLAStatusReport =
  sr_marketplace_id :: string
  sr_generated_at :: int
  sr_items :: "SLAStatusItem list"
  sr_overall_status :: SLAStatusOverall
  sr_alerts :: "string list"
  sr_recommendations :: "string list"

record FinancialComplianceGate =
  fg_name :: string
  fg_passed :: bool
  fg_severity :: string
  fg_reason :: string
  fg_evidence_refs :: "string list"

record FinancialComplianceReport =
  fr_report_id :: string
  fr_marketplace_id :: string
  fr_scope :: string
  fr_status :: string
  fr_gates :: "FinancialComplianceGate list"
  fr_reasons :: "string list"
  fr_evidence_refs :: "string list"
  fr_prerequisite_26_8_report_id :: "string option"
  fr_certified_by :: string
  fr_created_at :: int
  fr_expires_at :: "int option"
  fr_revoked_at :: "int option"
  fr_revocation_reason :: "string option"

record MarketplaceFinancialPolicy =
  pol_marketplace_id :: string
  pol_auto_approve_refund_threshold_amount :: pyfloat
  pol_auto_approve_refund_threshold_currency :: string
  pol_auto_approve_small_refunds :: bool
  pol_require_governance_for_refund_above_threshold :: bool
  pol_require_governance_for_fee_changes :: bool
  pol_require_governance_for_tax_policy :: bool
  pol_require_governance_for_fraud_policy :: bool
  pol_block_uncertified_products :: bool
  pol_block_fraud_flagged_from_publication :: bool
  pol_min_fraud_score_to_hold :: pyfloat
  pol_min_fraud_score_to_block :: pyfloat
  pol_payment_webhook_signature_required :: bool
  pol_financial_certification_ttl_days :: int
  pol_require_human_financial_certification :: bool
  pol_allow_conditional_financial_certification :: bool
  pol_fail_closed_on_adapter_error :: bool

text \<open>\<open>MarketplaceFinancialPolicy()\<close>: the defaults of the class.\<close>

definition default_policy :: MarketplaceFinancialPolicy where
  "default_policy = \<lparr>
     pol_marketplace_id = ''marketplace_1'',
     pol_auto_approve_refund_threshold_amount = Fin 50,
     pol_auto_approve_refund_threshold_currency = ''USD'',
     pol_auto_approve_small_refunds = True,
     pol_require_governance_for_refund_above_threshold = True,
     pol_require_governance_for_fee_changes = True,
     pol_require_governance_for_tax_policy = True,
     pol_require_governance_for_fraud_policy = True,
     pol_block_uncertified_products = True,
     pol_block_fraud_flagged_from_publication = True,
     pol_min_fraud_score_to_hold = fl (70/100),
     pol_min_fraud_score_to_block = fl (85/100),
     pol_payment_webhook_signature_required = True,
     pol_financial_certification_ttl_days = 90,
     pol_require_human_financial_certification = True,
     pol_allow_conditional_financial_certification = True,
     pol_fail_closed_on_adapter_error = True\<rparr>"

record GovernanceDecision =
  gd_action :: GovernanceAction
  gd_actor :: string
  gd_allowed :: bool
  gd_decision :: string
  gd_constraints :: payload
  gd_approval_ref :: "string option"
  gd_audit_ref :: string
  gd_evidence_refs :: "string list"
  gd_evaluated_at :: int

record FinancialAuditEvent =
  ae_event_id :: string
  ae_marketplace_id :: string
  ae_action :: string
  ae_actor :: string
  ae_status :: string
  ae_amount :: "pyfloat option"
  ae_currency :: "string option"
  ae_idempotency_key :: "string option"
  ae_source_event_id :: "string option"
  ae_governance_ref :: "string option"
  ae_evidence_ref :: "string option"
  ae_reason :: string
  ae_created_at :: int

record MarketplaceFinancialReadinessEvidence =
  ev_slo_definitions :: "string list"
  ev_runbooks :: "string list"
  ev_incident_response_plans :: "string list"
  ev_backup_restore_evidence :: "string list"
  ev_observability_evidence :: "string list"
  ev_dashboard_refs :: "string list"
  ev_marketplace_metrics_refs :: "string list"
  ev_payment_adapter_evidence :: "string list"
  ev_fraud_evidence :: "string list"
  ev_tax_evidence :: "string list"
  ev_audit_evidence :: "string list"

section \<open>Construction with default factories\<close>

text \<open>An audit event given all fields but its drawn identifier and time stamp.\<close>

definition new_audit_event ::
  "string \<Rightarrow> string \<Rightarrow> string \<Rightarrow> string \<Rightarrow> pyfloat option \<Rightarrow> string option \<Rightarrow> string option \<Rightarrow>
   string option \<Rightarrow> string option \<Rightarrow> string option \<Rightarrow> string \<Rightarrow> world \<Rightarrow>
   FinancialAuditEvent \<times> world" where
  "new_audit_event mid action actor status amount currency ikey src gov evid reason w =
     (let (i, w) = new_id ''audit'' w; (t, w) = utcnow w in
      (\<lparr>ae_event_id = i, ae_marketplace_id = mid, ae_action = action, ae_actor = actor,
        ae_status = status, ae_amount = amount, ae_currency = currency,
        ae_idempotency_key = ikey, ae_source_event_id = src, ae_governance_ref = gov,
        ae_evidence_ref = evid, ae_reason = reason, ae_created_at = t\<rparr>, w))"

text \<open>A ledger entry given the fields its callers pass; \<open>governance_ref\<close>, \<open>actor\<close> and
  \<open>reason\<close> keep their defaults in every call of the package.\<close>

definition new_ledger_entry ::
  "string \<Rightarrow> string option \<Rightarrow> string option \<Rightarrow> string option \<Rightarrow> LedgerEntryType \<Rightarrow> pyfloat \<Rightarrow>
   string \<Rightarrow> string \<Rightarrow> string option \<Rightarrow> string option \<Rightarrow> string option \<Rightarrow> world \<Rightarrow>
   FinancialLedgerEntry \<times> world" where
  "new_ledger_entry mid oid lid tid ty amount currency status ikey src evid w =
     (let (i, w) = new_id ''le'' w; (t, w) = utcnow w in
      (\<lparr>le_ledger_id = i, le_marketplace_id = mid, le_order_id = oid, le_listing_id = lid,
        le_tenant_id = tid, le_entry_type = ty, le_amount = amount, le_currency = currency,
        le_status = status, le_idempotency_key = ikey, le_source_event_id = src,
        le_governance_ref = None, le_actor = ''system'', le_reason = '''', le_evidence_ref = evid,
        le_created_at = t\<rparr>, w))"

lemma new_ledger_entry_sel [simp]:
  "fst (new_ledger_entry mid oid lid tid ty am cur st ik src evid w) =
     \<lparr>le_ledger_id = ''le_'' @ id_at w (uuid_n w), le_marketplace_id = mid, le_order_id = oid,
      le_listing_id = lid, le_tenant_id = tid, le_entry_type = ty, le_amount = am,
      le_currency = cur, le_status = st, le_idempotency_key = ik, le_source_event_id = src,
      le_governance_ref = None, le_actor = ''system'', le_reason = '''', le_evidence_ref = evid,
      le_created_at = clock_of w (clock_n w)\<rparr>"
  "snd (new_ledger_entry mid oid lid tid ty am cur st ik src evid w) =
     w\<lparr>uuid_n := Suc (uuid_n w), clock_n := Suc (clock_n w)\<rparr>"
  by (simp_all add: new_ledger_entry_def new_id_def utcnow_def id_at_def Let_def)

lemma new_audit_event_world [simp]:
  "snd (new_audit_event mid action actor status amount currency ikey src gov evid reason w) =
     w\<lparr>uuid_n := Suc (uuid_n w), clock_n := Suc (clock_n w)\<rparr>"
  by (simp add: new_audit_event_def new_id_def utcnow_def Let_def)

declare default_policy_def [run_simps] new_audit_event_def [run_simps]
  new_ledger_entry_def [run_simps]

end
