(* ===== verification/Fin_Ledger.thy ===== *)
theory Fin_Ledger
  imports Fin_Models
begin

text \<open>
  The financial ledger (\<^verbatim>\<open>ledger.py\<close>, \<open>FinancialLedgerEngine\<close>): an insertion-ordered
  dictionary of entries, the set of idempotency keys already used, and the audit trail. The
  locale \<open>idempotent_log\<close> is the contract the payment, refund and tax engines rely on; it
  is interpreted on the ledger's own operations.
\<close>

section \<open>State and operations\<close>

record FinancialLedgerEngine =
  lg_entries :: "(string, FinancialLedgerEntry) dict"
  lg_idempotency_keys :: "string set"
  lg_audit_events :: "FinancialAuditEvent list"

definition ledger_init :: FinancialLedgerEngine where
  "ledger_init = \<lparr>lg_entries = [], lg_idempotency_keys = {}, lg_audit_events = []\<rparr>"

definition ledger_append ::
  "FinancialLedgerEntry \<Rightarrow> FinancialLedgerEngine \<Rightarrow> world \<Rightarrow> bool \<times> FinancialLedgerEngine \<times> world" where
  "ledger_append e L w =
     (if key_in (le_idempotency_key e) (lg_idempotency_keys L) then (False, L, w)
      else
       (let keys = key_set (le_idempotency_key e) \<union> lg_idempotency_keys L;
            entries = dict_set (le_ledger_id e) e (lg_entries L);
            (ev, w) = new_audit_event (le_marketplace_id e) ''ledger_entry_appended''
              ''financial_ledger'' ''OK'' (Some (le_amount e)) (Some (le_currency e))
              (le_idempotency_key e) (le_source_event_id e) None (le_evidence_ref e)
              (ledger_entry_type_value (le_entry_type e)) w
        in (True, L\<lparr>lg_entries := entries, lg_idempotency_keys := keys,
                    lg_audit_events := lg_audit_events L @ [ev]\<rparr>, w)))"

definition ledger_get :: "string \<Rightarrow> FinancialLedgerEngine \<Rightarrow> FinancialLedgerEntry option" where
  "ledger_get i L = dict_get (lg_entries L) i"

text \<open>The optional marketplace filter that the query methods share.\<close>

definition only_marketplace ::
  "string option \<Rightarrow> FinancialLedgerEntry list \<Rightarrow> FinancialLedgerEntry list" where
  "only_marketplace m es =
     (if opt_truthy m then filter (\<lambda>e. le_marketplace_id e = the m) es else es)"

definition ledger_by_order ::
  "string \<Rightarrow> string option \<Rightarrow> FinancialLedgerEngine \<Rightarrow> FinancialLedgerEntry list" where
  "ledger_by_order oid m L =
     only_marketplace m (filter (\<lambda>e. le_order_id e = Some oid) (dict_values (lg_entries L)))"

definition ledger_by_entry_type ::
  "LedgerEntryType \<Rightarrow> string option \<Rightarrow> FinancialLedgerEngine \<Rightarrow> FinancialLedgerEntry list" where
  "ledger_by_entry_type ty m L =
     only_marketplace m (filter (\<lambda>e. le_entry_type e = ty) (dict_values (lg_entries L)))"

definition ledger_by_source_event ::
  "string \<Rightarrow> string option \<Rightarrow> FinancialLedgerEngine \<Rightarrow> FinancialLedgerEntry list" where
  "ledger_by_source_event sid m L =
     only_marketplace m (filter (\<lambda>e. le_source_event_id e = Some sid) (dict_values (lg_entries L)))"

definition ledger_record_audit ::
  "FinancialAuditEvent \<Rightarrow> FinancialLedgerEngine \<Rightarrow> FinancialLedgerEngine" where
  "ledger_record_audit ev L = L\<lparr>lg_audit_events := lg_audit_events L @ [ev]\<rparr>"

definition entry_keys :: "FinancialLedgerEntry list \<Rightarrow> string list" where
  "entry_keys es = map (the \<circ> le_idempotency_key) (filter (opt_truthy \<circ> le_idempotency_key) es)"

definition ledger_duplicate_idempotency_keys :: "FinancialLedgerEngine \<Rightarrow> string list" where
  "ledger_duplicate_idempotency_keys L =
     map fst (filter (\<lambda>(k, n). n > 1) (count_into [] (entry_keys (dict_values (lg_entries L)))))"

definition ledger_total_count :: "FinancialLedgerEngine \<Rightarrow> nat" where
  "ledger_total_count L = length (lg_entries L)"

definition ledger_report :: "string option \<Rightarrow> FinancialLedgerEngine \<Rightarrow> FinancialLedgerEntry list" where
  "ledger_report m L = only_marketplace m (dict_values (lg_entries L))"

section \<open>Well-formedness\<close>

text \<open>Entries are stored under their own identifier, every used key is recorded, and no two
  entries carry the same non-empty key.\<close>

definition ledger_wf :: "FinancialLedgerEngine \<Rightarrow> bool" where
  "ledger_wf L \<longleftrightarrow>
     dict_wf (lg_entries L)
   \<and> (\<forall>(i, e) \<in> set (lg_entries L). le_ledger_id e = i)
   \<and> set (entry_keys (dict_values (lg_entries L))) \<subseteq> lg_idempotency_keys L
   \<and> distinct (entry_keys (dict_values (lg_entries L)))"

text \<open>The ledgers a program can build: the empty one, extended by appends and audit records.\<close>

inductive ledger_reach :: "FinancialLedgerEngine \<Rightarrow> bool" where
  reach_init: "ledger_reach ledger_init"
| reach_append: "ledger_reach L \<Longrightarrow> ledger_append e L w = (b, L', w') \<Longrightarrow> ledger_reach L'"
| reach_audit: "ledger_reach L \<Longrightarrow> ledger_reach (ledger_record_audit ev L)"

section \<open>The contract the engines rely on\<close>

locale idempotent_log =
  fixes app :: "'e \<Rightarrow> 'l \<Rightarrow> 'w \<Rightarrow> bool \<times> 'l \<times> 'w"
    and key :: "'e \<Rightarrow> string option"
    and ident :: "'e \<Rightarrow> string"
    and seen :: "'l \<Rightarrow> string set"
    and log :: "'l \<Rightarrow> 'e list"
    and inv :: "'l \<Rightarrow> bool"
  assumes app_dup: "key_in (key e) (seen l) \<Longrightarrow> app e l w = (False, l, w)"
    and app_new: "\<not> key_in (key e) (seen l) \<Longrightarrow> fst (app e l w)"
    and seen_new: "\<not> key_in (key e) (seen l) \<Longrightarrow>
        seen (fst (snd (app e l w))) = key_set (key e) \<union> seen l"
    and log_new: "inv l \<Longrightarrow> \<not> key_in (key e) (seen l) \<Longrightarrow> ident e \<notin> ident ` set (log l) \<Longrightarrow>
        log (fst (snd (app e l w))) = log l @ [e]"
    and inv_app: "inv l \<Longrightarrow> inv (fst (snd (app e l w)))"
begin

lemma seen_app: "seen (fst (snd (app e l w))) = key_set (key e) \<union> seen l"
  by (cases "key_in (key e) (seen l)") (auto simp: app_dup seen_new key_in_iff)

lemma accepted_iff: "fst (app e l w) \<longleftrightarrow> \<not> key_in (key e) (seen l)"
  by (cases "key_in (key e) (seen l)") (auto simp: app_dup app_new)

text \<open>A second append with the same key is refused and changes nothing, whatever was appended
  in between.\<close>

lemma replay_refused:
  assumes "opt_truthy (key e)" "seen (fst (snd (app e l w))) \<subseteq> seen l2" "key e' = key e"
  shows "app e' l2 w2 = (False, l2, w2)"
  using assms by (intro app_dup) (auto simp: seen_app key_in_def key_set_def)

text \<open>With fresh identifiers the log only ever grows at its end.\<close>

lemma log_app:
  assumes "inv l" "ident e \<notin> ident ` set (log l)"
  shows "log (fst (snd (app e l w))) = (if fst (app e l w) then log l @ [e] else log l)"
  using assms by (cases "key_in (key e) (seen l)") (auto simp: app_dup app_new log_new)

end

section \<open>Lemmas\<close>

lemma entry_keys_append [simp]: "entry_keys (xs @ ys) = entry_keys xs @ entry_keys ys"
  by (simp add: entry_keys_def)

lemma entry_keys_Cons:
  "entry_keys (e # es) =
     (if opt_truthy (le_idempotency_key e) then [the (le_idempotency_key e)] else []) @ entry_keys es"
  by (simp add: entry_keys_def)

lemma entry_keys_Nil [simp]: "entry_keys [] = []"
  by (simp add: entry_keys_def)

lemma set_entry_keys_Cons [simp]:
  "set (entry_keys (e # es)) = key_set (le_idempotency_key e) \<union> set (entry_keys es)"
  by (simp add: entry_keys_Cons key_set_def)

lemma distinct_entry_keys_Cons [simp]:
  "distinct (entry_keys (e # es)) \<longleftrightarrow>
     key_set (le_idempotency_key e) \<inter> set (entry_keys es) = {} \<and> distinct (entry_keys es)"
  by (auto simp: entry_keys_Cons key_set_def)

lemma ledger_wf_init: "ledger_wf ledger_init"
  by (simp add: ledger_wf_def ledger_init_def)

lemma ledger_record_audit_sel [simp]:
  "lg_entries (ledger_record_audit ev L) = lg_entries L"
  "lg_idempotency_keys (ledger_record_audit ev L) = lg_idempotency_keys L"
  "lg_audit_events (ledger_record_audit ev L) = lg_audit_events L @ [ev]"
  by (simp_all add: ledger_record_audit_def)

lemma ledger_wf_record_audit [inv_intros]: "ledger_wf L \<Longrightarrow> ledger_wf (ledger_record_audit ev L)"
  by (simp add: ledger_wf_def)

text \<open>Overwriting an entry (a colliding identifier) can only lose keys; it never duplicates one.\<close>

lemma entry_keys_update_subset:
  "set (entry_keys (map snd (AList.update i e d))) \<subseteq>
     key_set (le_idempotency_key e) \<union> set (entry_keys (map snd d))"
  by (induction d) auto

lemma entry_keys_update_distinct:
  "distinct (entry_keys (map snd d)) \<Longrightarrow>
     key_set (le_idempotency_key e) \<inter> set (entry_keys (map snd d)) = {} \<Longrightarrow>
     distinct (entry_keys (map snd (AList.update i e d)))"
proof (induction d)
  case (Cons p d)
  then show ?case
    using entry_keys_update_subset[of i e d] by (cases p) (auto split: if_splits)
qed simp

lemma AList_update_own_id:
  "\<forall>(i, e) \<in> set d. le_ledger_id e = i \<Longrightarrow>
     \<forall>(i, e) \<in> set (AList.update (le_ledger_id x) x d). le_ledger_id e = i"
  by (induction d) auto

text \<open>The two branches of \<open>append\<close>, and the fields of its result.\<close>

lemma ledger_append_dup:
  "key_in (le_idempotency_key e) (lg_idempotency_keys L) \<Longrightarrow> ledger_append e L w = (False, L, w)"
  by (simp add: ledger_append_def)

lemma ledger_append_new:
  assumes "\<not> key_in (le_idempotency_key e) (lg_idempotency_keys L)"
  shows "fst (ledger_append e L w)"
    "lg_entries (fst (snd (ledger_append e L w))) = dict_set (le_ledger_id e) e (lg_entries L)"
    "lg_idempotency_keys (fst (snd (ledger_append e L w))) =
       key_set (le_idempotency_key e) \<union> lg_idempotency_keys L"
    "\<exists>ev. lg_audit_events (fst (snd (ledger_append e L w))) = lg_audit_events L @ [ev]"
  using assms by (simp_all add: ledger_append_def Let_def split_beta)

lemma ledger_append_world:
  "snd (snd (ledger_append e L w)) =
     (if key_in (le_idempotency_key e) (lg_idempotency_keys L) then w
      else w\<lparr>uuid_n := Suc (uuid_n w), clock_n := Suc (clock_n w)\<rparr>)"
  by (simp add: ledger_append_def Let_def split_beta)

lemma ledger_wf_append [inv_intros]:
  assumes "ledger_wf L"
  shows "ledger_wf (fst (snd (ledger_append e L w)))"
proof (cases "key_in (le_idempotency_key e) (lg_idempotency_keys L)")
  case True
  then show ?thesis using assms by (simp add: ledger_append_dup)
next
  case False
  let ?K = "set (entry_keys (map snd (lg_entries L)))"
  from assms have K: "?K \<subseteq> lg_idempotency_keys L" "distinct (entry_keys (map snd (lg_entries L)))"
    by (simp_all add: ledger_wf_def dict_values_def)
  with key_set_disjoint[OF False] have "key_set (le_idempotency_key e) \<inter> ?K = {}"
    by blast
  then have "distinct (entry_keys (map snd (AList.update (le_ledger_id e) e (lg_entries L))))"
    using K(2) by (rule entry_keys_update_distinct[rotated])
  moreover have "set (entry_keys (map snd (AList.update (le_ledger_id e) e (lg_entries L))))
      \<subseteq> key_set (le_idempotency_key e) \<union> lg_idempotency_keys L"
    using entry_keys_update_subset[of "le_ledger_id e" e "lg_entries L"] K(1) by blast
  moreover have "dict_wf (dict_set (le_ledger_id e) e (lg_entries L))"
    using assms by (intro dict.wf_put) (simp add: ledger_wf_def)
  ultimately show ?thesis
    using assms AList_update_own_id[of "lg_entries L" e]
    unfolding ledger_wf_def ledger_append_new[OF False] dict_values_def dict_set_def by blast
qed

lemma ledger_append_log:
  assumes "ledger_wf L" "\<not> key_in (le_idempotency_key e) (lg_idempotency_keys L)"
    and "le_ledger_id e \<notin> le_ledger_id ` set (dict_values (lg_entries L))"
  shows "dict_values (lg_entries (fst (snd (ledger_append e L w)))) = dict_values (lg_entries L) @ [e]"
proof -
  have "fst p \<noteq> le_ledger_id e" if "p \<in> set (lg_entries L)" for p
  proof -
    have "le_ledger_id (snd p) = fst p"
      using that assms(1) by (auto simp: ledger_wf_def split_beta)
    moreover have "snd p \<in> set (dict_values (lg_entries L))"
      using that by (simp add: dict_values_def)
    ultimately show ?thesis using assms(3) by (metis image_eqI)
  qed
  then have "\<not> dict_in (le_ledger_id e) (lg_entries L)"
    unfolding dict_in_def by (metis imageE)
  then show ?thesis
    by (simp add: ledger_append_new[OF assms(2)] dict.vals_put_fresh)
qed

interpretation ledger: idempotent_log ledger_append le_idempotency_key le_ledger_id
  lg_idempotency_keys "\<lambda>L. dict_values (lg_entries L)" ledger_wf
  by unfold_locales
    (rule ledger_append_dup ledger_append_new(1,3) ledger_append_log ledger_wf_append; assumption)+

lemma ledger_reach_wf: "ledger_reach L \<Longrightarrow> ledger_wf L"
proof (induction rule: ledger_reach.induct)
  case (reach_append L e w b L' w')
  then show ?case using ledger_wf_append[of L e w] by simp
qed (simp_all add: ledger_wf_init ledger_wf_record_audit)

lemma no_duplicates_if_distinct:
  assumes "distinct xs"
  shows "filter (\<lambda>(k, n). n > 1) (count_into [] xs) = []"
proof -
  have "n \<le> 1" if "(k, n) \<in> set (count_into [] xs)" for k n
  proof -
    have "dict_get (count_into [] xs) k = Some n"
      using that count_into_wf[of "[]" xs] by (simp add: dict_wf_def dict_get_def)
    then show ?thesis
      using assms by (auto simp: count_into_get count_list_eq_length_filter distinct_length_filter
          card_insert_if split: if_splits)
  qed
  then show ?thesis by (fastforce simp: filter_empty_conv)
qed

lemma ledger_wf_no_duplicates: "ledger_wf L \<Longrightarrow> ledger_duplicate_idempotency_keys L = []"
  unfolding ledger_wf_def ledger_duplicate_idempotency_keys_def
  by (simp only: no_duplicates_if_distinct) simp

lemma ledger_append_audit:
  "\<exists>evs. lg_audit_events (fst (snd (ledger_append e L w))) = lg_audit_events L @ evs
       \<and> length evs = (if fst (ledger_append e L w) then 1 else 0)"
proof (cases "key_in (le_idempotency_key e) (lg_idempotency_keys L)")
  case False
  then show ?thesis using ledger_append_new[OF False] by (metis length_Cons list.size(3) One_nat_def)
qed (simp add: ledger_append_dup)

section \<open>Clients of the ledger\<close>

text \<open>How a ledger changes while time passes: audit records, and appends of entries that carry a
  newly drawn identifier. Every engine that shares the ledger stays within these steps.\<close>

inductive ledger_grows ::
  "FinancialLedgerEngine \<times> world \<Rightarrow> FinancialLedgerEngine \<times> world \<Rightarrow> bool" where
  grows_refl: "ledger_grows c c"
| grows_time: "ledger_grows c (L, w) \<Longrightarrow> world_le w w' \<Longrightarrow> ledger_grows c (L, w')"
| grows_audit: "ledger_grows c (L, w) \<Longrightarrow> ledger_grows c (ledger_record_audit ev L, w)"
| grows_append: "ledger_grows c (L, w) \<Longrightarrow> le_ledger_id e = ''le'' @ ''_'' @ id_at w (uuid_n w) \<Longrightarrow>
    world_le w w' \<Longrightarrow> uuid_n w < uuid_n w' \<Longrightarrow> ledger_grows c (fst (snd (ledger_append e L x)), w')"

lemma ledger_grows_trans: "ledger_grows b c \<Longrightarrow> ledger_grows a b \<Longrightarrow> ledger_grows a c"
  by (induction rule: ledger_grows.induct) (auto intro: ledger_grows.intros)

text \<open>Posting a new entry, the way every engine does it.\<close>

lemma post_grows:
  assumes "ledger_grows b (L, w)"
  shows "ledger_grows b (snd (ledger_append (fst (new_ledger_entry m oid l t ty am cu st ik sr ev w)) L
           (snd (new_ledger_entry m oid l t ty am cu st ik sr ev w))))"
    (is "ledger_grows b (snd (ledger_append (fst ?n) L (snd ?n)))")
proof -
  have "ledger_grows b (fst (snd (ledger_append (fst ?n) L (snd ?n))), snd (snd (ledger_append (fst ?n) L (snd ?n))))"
    by (rule ledger_grows.grows_append[OF assms]) (simp_all add: ledger_append_world world_le_def)
  then show ?thesis by simp
qed

text \<open>Entries are well formed and their identifiers have been drawn.\<close>

definition ledger_safe :: "FinancialLedgerEngine \<times> world \<Rightarrow> bool" where
  "ledger_safe c \<longleftrightarrow> ledger_wf (fst c) \<and>
     le_ledger_id ` set (dict_values (lg_entries (fst c))) \<subseteq> drawn ''le'' (snd c)"

lemma ledger_safe_init: "ledger_safe (ledger_init, w)"
  by (simp add: ledger_safe_def ledger_wf_init) (simp add: ledger_init_def)

text \<open>Under such steps the ledger is append-only, as is the audit trail, and keys stay used.\<close>

definition ledger_extends :: "FinancialLedgerEngine \<Rightarrow> FinancialLedgerEngine \<Rightarrow> bool" where
  "ledger_extends L L' \<longleftrightarrow>
     (\<exists>new. dict_values (lg_entries L') = dict_values (lg_entries L) @ new)
   \<and> (\<exists>evs. lg_audit_events L' = lg_audit_events L @ evs)
   \<and> lg_idempotency_keys L \<subseteq> lg_idempotency_keys L'"

lemma ledger_extends_refl [simp]: "ledger_extends L L"
  by (simp add: ledger_extends_def)

lemma ledger_extends_trans: "ledger_extends L M \<Longrightarrow> ledger_extends M N \<Longrightarrow> ledger_extends L N"
  by (auto simp: ledger_extends_def)

lemma ledger_extends_append:
  assumes "ledger_wf L" "le_ledger_id e \<notin> le_ledger_id ` set (dict_values (lg_entries L))"
  shows "ledger_extends L (fst (snd (ledger_append e L x)))"
  using ledger.log_app[OF assms, of x] ledger_append_audit[of e L x] ledger.seen_app[of e L x]
  by (auto simp: ledger_extends_def)

lemma ledger_grows_world: "ledger_grows c c' \<Longrightarrow> world_le (snd c) (snd c')"
  by (induction rule: ledger_grows.induct) (auto intro: world_le_trans)

lemma ledger_grows_safe:
  assumes "ledger_grows c c'" "ledger_safe c"
  shows "ids_ok (snd c') \<Longrightarrow> ledger_safe c' \<and> ledger_extends (fst c) (fst c')"
  using assms
proof (induction rule: ledger_grows.induct)
  case (grows_time c L w w')
  then have "ids_ok w" using ids_ok_before by simp
  then show ?case using grows_time drawn_mono[OF grows_time(2), of "''le''"] by (auto simp: ledger_safe_def)
next
  case (grows_audit c L w ev)
  then show ?case
    by (auto simp: ledger_safe_def ledger_extends_def ledger_wf_record_audit)
next
  case (grows_append c L w e w' x)
  then have "ids_ok w" using ids_ok_before by simp
  then have IH: "ledger_safe (L, w)" "ledger_extends (fst c) L" using grows_append by auto
  have "ids_ok w'" using grows_append.prems by simp
  then have new: "le_ledger_id e \<notin> le_ledger_id ` set (dict_values (lg_entries L))"
    using id_fresh[OF grows_append.hyps(3,4), of "''le''"] IH(1) unfolding grows_append.hyps(2)
    by (auto simp: ledger_safe_def)
  have wf: "ledger_wf L" using IH(1) by (simp add: ledger_safe_def)
  have "le_ledger_id e \<in> drawn ''le'' w'"
    unfolding grows_append.hyps(2) by (rule drawn_next[OF grows_append.hyps(3,4)])
  then have "ledger_safe (fst (snd (ledger_append e L x)), w')"
    using IH(1) ledger_wf_append[OF wf] ledger.log_app[OF wf new, of x]
      drawn_mono[OF grows_append.hyps(3), of "''le''"]
    by (auto simp: ledger_safe_def)
  moreover have "ledger_extends (fst c) (fst (snd (ledger_append e L x)))"
    by (rule ledger_extends_trans[OF IH(2) ledger_extends_append[OF wf new]])
  ultimately show ?case by simp
qed simp

text \<open>The ledger and the world of a context that an engine's calls thread through.\<close>

definition ctx_books :: "'e \<times> FinancialLedgerEngine option \<times> world \<Rightarrow> FinancialLedgerEngine \<times> world" where
  "ctx_books c = (the (fst (snd c)), snd (snd c))"

text \<open>The contract between the ledger and a component whose calls go through it.\<close>

locale ledger_client =
  fixes call :: "'c \<Rightarrow> 'c \<Rightarrow> bool"
    and books :: "'c \<Rightarrow> FinancialLedgerEngine \<times> world"
  assumes call_grows: "call c c' \<Longrightarrow> ledger_grows (books c) (books c')"
begin

lemma run_grows: "rtranclp call c c' \<Longrightarrow> ledger_grows (books c) (books c')"
  by (induction rule: rtranclp_induct) (auto intro: ledger_grows.grows_refl ledger_grows_trans call_grows)

lemma run_extends:
  assumes "rtranclp call c c'" "ledger_safe (books c)" "ids_ok (snd (books c'))"
  shows "ledger_extends (fst (books c)) (fst (books c'))"
  using ledger_grows_safe[OF run_grows[OF assms(1)] assms(2,3)] by simp

lemma run_no_duplicates:
  assumes "rtranclp call c c'" "ledger_safe (books c)" "ids_ok (snd (books c'))"
  shows "ledger_duplicate_idempotency_keys (fst (books c')) = []"
  using ledger_grows_safe[OF run_grows[OF assms(1)] assms(2,3)]
  by (auto simp: ledger_safe_def intro: ledger_wf_no_duplicates)

end

declare ledger_init_def [run_simps] ledger_append_def [run_simps] ledger_record_audit_def [run_simps]
  ledger_report_def [run_simps] only_marketplace_def [run_simps] entry_keys_def [run_simps]
  ledger_duplicate_idempotency_keys_def [run_simps]

end
