(* ===== verification/Fin_Payments.thy ===== *)
theory Fin_Payments
  imports Fin_Ledger "HOL-Library.Monad_Syntax"
begin

text \<open>
  The payment adapter framework and the payment event engine (\<^verbatim>\<open>payments.py\<close>).
  A provider adapter is a record of its two operations; the base class and the no-op adapter of
  the source are two instances. The engine's state is threaded together with the ledger it may
  share with other engines and the world its events draw identifiers from.
\<close>

section \<open>Provider adapters\<close>

record PaymentProviderAdapter =
  pa_normalize_event :: "payload \<Rightarrow> py_exn + payload"
  pa_verify_signature :: "PaymentWebhookEnvelope \<Rightarrow> py_exn + bool"

definition base_payment_adapter :: PaymentProviderAdapter where
  "base_payment_adapter = \<lparr>pa_normalize_event = (\<lambda>_. Inl (NotImplementedError '''')),
     pa_verify_signature = (\<lambda>_. Inr True)\<rparr>"

definition noop_normalize_event :: "payload \<Rightarrow> py_exn + payload" where
  "noop_normalize_event p =
     (case py_float (get_or p ''amount'' (PFloat (Fin 0))) of
        Inl exn \<Rightarrow> Inl exn
      | Inr amount \<Rightarrow> Inr
         [(''provider'', get_or p ''provider'' (PStr ''unknown'')),
          (''provider_event_id'',
             py_or (py_or (get_or p ''event_id'' PNone) (get_or p ''id'' PNone))
               (get_or p ''provider_event_id'' PNone)),
          (''raw_status'', get_or p ''status'' (PStr ''CREATED'')),
          (''amount'', PFloat amount),
          (''currency'', get_or p ''currency'' (PStr ''USD'')),
          (''order_id'', get_or p ''order_id'' (PStr '''')),
          (''listing_id'', get_or p ''listing_id'' (PStr '''')),
          (''tenant_id'', get_or p ''tenant_id'' (PStr '''')),
          (''marketplace_id'', get_or p ''marketplace_id'' (PStr '''')),
          (''intent_id'', get_or p ''intent_id'' PNone),
          (''idempotency_key'', get_or p ''idempotency_key'' PNone)])"

definition NoopPaymentAdapter :: PaymentProviderAdapter where
  "NoopPaymentAdapter = \<lparr>pa_normalize_event = noop_normalize_event,
     pa_verify_signature = (\<lambda>env. Inr (opt_truthy (env_signature env)))\<rparr>"

section \<open>The payment engine\<close>

record PaymentAdapterEngine =
  pay_events_by_provider_event_id :: "(string, PaymentEvent) dict"
  pay_events_by_idempotency :: "(string, PaymentEvent) dict"
  pay_audit_events :: "FinancialAuditEvent list"

definition payment_init :: PaymentAdapterEngine where
  "payment_init = \<lparr>pay_events_by_provider_event_id = [], pay_events_by_idempotency = [],
     pay_audit_events = []\<rparr>"

type_synonym pay_ctx = "PaymentAdapterEngine \<times> FinancialLedgerEngine option \<times> world"

abbreviation ctx_pay :: "pay_ctx \<Rightarrow> PaymentAdapterEngine" where "ctx_pay \<equiv> fst"
abbreviation ctx_ledger :: "pay_ctx \<Rightarrow> FinancialLedgerEngine option" where "ctx_ledger c \<equiv> fst (snd c)"
abbreviation ctx_world :: "pay_ctx \<Rightarrow> world" where "ctx_world c \<equiv> snd (snd c)"

definition create_payment_intent ::
  "string \<Rightarrow> string \<Rightarrow> string \<Rightarrow> string \<Rightarrow> pyfloat \<Rightarrow> string \<Rightarrow> string \<Rightarrow> string option \<Rightarrow>
   string option \<Rightarrow> string option \<Rightarrow> world \<Rightarrow> PaymentIntent \<times> world" where
  "create_payment_intent mid oid lid tid amount currency provider ikey approval gov w =
     (let (i, w) = new_id ''pi'' w; (t1, w) = utcnow w; (t2, w) = utcnow w in
      (\<lparr>pi_intent_id = i, pi_marketplace_id = mid, pi_order_id = oid, pi_listing_id = lid,
        pi_tenant_id = tid, pi_amount = amount, pi_currency = currency, pi_status = PS_CREATED,
        pi_provider = provider, pi_provider_intent_id = None, pi_created_at = t1,
        pi_updated_at = t2, pi_idempotency_key = ikey, pi_approval_ref = approval,
        pi_governance_ref = gov\<rparr>, w))"

definition status_mapping :: "(string, PaymentStatus) dict" where
  "status_mapping =
     [(''CREATED'', PS_CREATED), (''INITIALIZED'', PS_CREATED),
      (''AUTHORIZED'', PS_AUTHORIZED), (''AUTHENTICATED'', PS_AUTHORIZED),
      (''CAPTURED'', PS_CAPTURED), (''PAID'', PS_CAPTURED),
      (''SUCCEEDED'', PS_CAPTURED), (''COMPLETED'', PS_CAPTURED),
      (''FAILED'', PS_FAILED), (''DECLINED'', PS_FAILED), (''ERROR'', PS_FAILED),
      (''REFUNDED'', PS_REFUNDED), (''PARTIALLY_REFUNDED'', PS_PARTIALLY_REFUNDED),
      (''CANCELLED'', PS_CANCELLED), (''CANCELED'', PS_CANCELLED),
      (''REQUIRES_ACTION'', PS_REQUIRES_ACTION),
      (''REQUIRES_PAYMENT_METHOD'', PS_REQUIRES_ACTION)]"

definition map_status :: "string \<Rightarrow> PaymentStatus" where
  "map_status raw = (case dict_get status_mapping (upper raw) of
     Some s \<Rightarrow> s | None \<Rightarrow> PS_REQUIRES_ACTION)"

definition pay_audit ::
  "string \<Rightarrow> string \<Rightarrow> string \<Rightarrow> string \<Rightarrow> pyfloat option \<Rightarrow> string option \<Rightarrow> string option \<Rightarrow>
   string option \<Rightarrow> string option \<Rightarrow> string \<Rightarrow> pay_ctx \<Rightarrow> pay_ctx" where
  "pay_audit action mid actor status amount currency ikey src evid reason ctx =
     (case ctx of (P, lg, w) \<Rightarrow>
      case new_audit_event mid action actor status amount currency ikey src None evid reason w of
        (ev, w') \<Rightarrow>
        (case lg of
           Some L \<Rightarrow> (P, Some (ledger_record_audit ev L), w')
         | None \<Rightarrow> (P\<lparr>pay_audit_events := pay_audit_events P @ [ev]\<rparr>, None, w')))"

definition pay_register :: "PaymentEvent \<Rightarrow> PaymentAdapterEngine \<Rightarrow> PaymentAdapterEngine" where
  "pay_register ev P =
     (let P1 = (if opt_truthy (pe_idempotency_key ev)
                then P\<lparr>pay_events_by_idempotency :=
                       dict_set (the (pe_idempotency_key ev)) ev (pay_events_by_idempotency P)\<rparr>
                else P)
      in P1\<lparr>pay_events_by_provider_event_id :=
            dict_set (pe_provider_event_id ev) ev (pay_events_by_provider_event_id P1)\<rparr>)"

text \<open>The entry type a payment status is ledgered as, if any.\<close>

fun payment_entry_type :: "PaymentStatus \<Rightarrow> LedgerEntryType option" where
  "payment_entry_type PS_CAPTURED = Some LT_PAYMENT_CAPTURED"
| "payment_entry_type PS_AUTHORIZED = Some LT_PAYMENT_CAPTURED"
| "payment_entry_type PS_FAILED = Some LT_PAYMENT_FAILED"
| "payment_entry_type PS_CANCELLED = Some LT_PAYMENT_FAILED"
| "payment_entry_type _ = None"

definition payment_ledger_entry ::
  "PaymentEvent \<Rightarrow> LedgerEntryType \<Rightarrow> world \<Rightarrow> FinancialLedgerEntry \<times> world" where
  "payment_ledger_entry ev ty w =
     new_ledger_entry (pe_marketplace_id ev) (Some (pe_order_id ev)) (Some (pe_listing_id ev))
       (Some (pe_tenant_id ev)) ty (pe_amount ev) (pe_currency ev)
       (payment_status_value (pe_status ev))
       (Some (opt_or_str (pe_idempotency_key ev) (pe_event_id ev)))
       (Some (pe_event_id ev)) (pe_evidence_ref ev) w"

definition ledgerize_payment :: "PaymentEvent \<Rightarrow> pay_ctx \<Rightarrow> pay_ctx" where
  "ledgerize_payment ev ctx =
     (case ctx of (P, None, w) \<Rightarrow> ctx
      | (P, Some L, w) \<Rightarrow>
        (case payment_entry_type (pe_status ev) of None \<Rightarrow> ctx
         | Some ty \<Rightarrow>
           (case payment_ledger_entry ev ty w of (entry, w1) \<Rightarrow>
            case ledger_append entry L w1 of (_, L', w2) \<Rightarrow> (P, Some L', w2))))"

text \<open>Construction of the event from the normalized dictionary: \<open>map_status\<close> needs a string,
  then every field is validated. The f-string for \<open>evidence_ref\<close> is built from the validated
  provider and event id.\<close>

definition payment_event_fields ::
  "validators \<Rightarrow> PaymentWebhookEnvelope \<Rightarrow> payload \<Rightarrow> PaymentStatus \<Rightarrow> string \<Rightarrow> int \<Rightarrow> PaymentEvent option" where
  "payment_event_fields v env raw status i t =
     do {
       mid \<leftarrow> v_str v (get_or raw ''marketplace_id'' (PStr ''''));
       oid \<leftarrow> v_str v (get_or raw ''order_id'' (PStr ''''));
       lid \<leftarrow> v_str v (get_or raw ''listing_id'' (PStr ''''));
       tid \<leftarrow> v_str v (get_or raw ''tenant_id'' (PStr ''''));
       prov \<leftarrow> v_str v (get_or raw ''provider'' (PStr ''unknown''));
       pid \<leftarrow> v_str v (get_or raw ''provider_event_id'' PNone);
       am \<leftarrow> v_float v (get_or raw ''amount'' (PFloat (Fin 0)));
       cur \<leftarrow> v_str v (get_or raw ''currency'' (PStr ''USD''));
       ik \<leftarrow> v_opt_str v (py_or (of_opt (env_idempotency_key env))
                            (get_or raw ''idempotency_key'' PNone));
       Some \<lparr>pe_event_id = i,
             pe_intent_id = py_or (get_or raw ''intent_id'' PNone) PNone,
             pe_marketplace_id = mid, pe_order_id = oid, pe_listing_id = lid,
             pe_tenant_id = tid, pe_provider = prov, pe_provider_event_id = pid,
             pe_status = status, pe_amount = am, pe_currency = cur,
             pe_idempotency_key = ik, pe_timestamp = t, pe_normalized = True,
             pe_evidence_ref = Some (''provider:'' @ prov @ '':event:'' @ pid),
             pe_audit_ref = None\<rparr>
     }"

definition build_payment_event ::
  "validators \<Rightarrow> PaymentWebhookEnvelope \<Rightarrow> payload \<Rightarrow> world \<Rightarrow> (world, PaymentEvent) outcome" where
  "build_payment_event v env raw w =
     (case get_or raw ''raw_status'' PNone of
        PStr st \<Rightarrow>
          (let (i, w) = new_id ''payev'' w; (t, w) = utcnow w in
           case payment_event_fields v env raw (map_status st) i t of
             None \<Rightarrow> (Inl (ValidationError ''PaymentEvent''), w)
           | Some ev \<Rightarrow> (Inr ev, w))
      | _ \<Rightarrow> (Inl (AttributeError ''upper''), w))"

text \<open>What happens to an event that no index knows: register, ledgerize, audit.\<close>

definition process_payment_event :: "PaymentEvent \<Rightarrow> pay_ctx \<Rightarrow> pay_ctx" where
  "process_payment_event ev ctx =
     pay_audit ''payment_event_processed'' (pe_marketplace_id ev) ''provider_webhook'' ''OK''
       (Some (pe_amount ev)) (Some (pe_currency ev)) (pe_idempotency_key ev)
       (Some (pe_event_id ev)) (pe_evidence_ref ev) ''''
       (ledgerize_payment ev (pay_register ev (ctx_pay ctx), snd ctx))"

text \<open>\<open>ingest_webhook\<close> up to the normalized dictionary: the signature checks, which audit their
  rejections, the adapter calls, and the check for a missing event id or status.\<close>

definition webhook_gate ::
  "PaymentProviderAdapter \<Rightarrow> MarketplaceFinancialPolicy \<Rightarrow> PaymentWebhookEnvelope \<Rightarrow>
   pay_ctx \<Rightarrow> (pay_ctx, payload) outcome" where
  "webhook_gate ad pol env ctx =
     (if pol_payment_webhook_signature_required pol \<and> \<not> opt_truthy (env_signature env) then
        (Inl (ValueError ''Missing webhook signature; signature validation is required.''),
         pay_audit ''webhook_rejected_unsigned'' '''' ''provider_webhook'' ''FAILED'' None
           (Some ''USD'') None None None ''Missing webhook signature.'' ctx)
      else case pa_verify_signature ad env of
        Inl exn \<Rightarrow> (Inl exn, ctx)
      | Inr ok \<Rightarrow>
        if \<not> ok then
          (Inl (ValueError ''Invalid webhook signature; provider event rejected.''),
           pay_audit ''webhook_rejected_invalid_signature'' '''' ''provider_webhook'' ''FAILED'' None
             (Some ''USD'') None None None ''Invalid webhook signature.'' ctx)
        else case pa_normalize_event ad (env_payload env) of
          Inl exn \<Rightarrow> (Inl exn, ctx)
        | Inr raw \<Rightarrow>
          if \<not> truthy (get_or raw ''provider_event_id'' PNone)
             \<or> \<not> truthy (get_or raw ''raw_status'' PNone)
          then (Inl (ValueError
                  ''Invalid provider payment event: missing provider_event_id or status.''), ctx)
          else (Inr raw, ctx))"

text \<open>The rest of \<open>ingest_webhook\<close>: the two idempotency lookups, then a new event.\<close>

definition ingest_normalized ::
  "validators \<Rightarrow> PaymentWebhookEnvelope \<Rightarrow> payload \<Rightarrow> pay_ctx \<Rightarrow> (pay_ctx, PaymentEvent) outcome" where
  "ingest_normalized v env raw ctx =
     (case ctx of (P, lg, w) \<Rightarrow>
      if key_in (env_idempotency_key env) (fst ` set (pay_events_by_idempotency P)) then
        (Inr (the (dict_get (pay_events_by_idempotency P) (the (env_idempotency_key env)))), ctx)
      else case any_lookup (get_or raw ''provider_event_id'' PNone)
                  (pay_events_by_provider_event_id P) of
        Inl exn \<Rightarrow> (Inl exn, ctx)
      | Inr (Some ev) \<Rightarrow> (Inr ev, ctx)
      | Inr None \<Rightarrow>
        (case build_payment_event v env raw w of
           (Inl exn, w') \<Rightarrow> (Inl exn, (P, lg, w'))
         | (Inr ev, w') \<Rightarrow> (Inr ev, process_payment_event ev (P, lg, w'))))"

definition ingest_webhook ::
  "validators \<Rightarrow> PaymentProviderAdapter \<Rightarrow> MarketplaceFinancialPolicy \<Rightarrow> PaymentWebhookEnvelope \<Rightarrow>
   pay_ctx \<Rightarrow> (pay_ctx, PaymentEvent) outcome" where
  "ingest_webhook v ad pol env ctx =
     (case webhook_gate ad pol env ctx of
        (Inl exn, ctx') \<Rightarrow> (Inl exn, ctx')
      | (Inr raw, ctx') \<Rightarrow> ingest_normalized v env raw ctx')"

definition get_payment_status ::
  "string option \<Rightarrow> string option \<Rightarrow> PaymentAdapterEngine \<Rightarrow> PaymentStatus option" where
  "get_payment_status pid ikey P =
     (let ev = (if opt_truthy pid then dict_get (pay_events_by_provider_event_id P) (the pid) else None);
          ev = (if ev = None \<and> opt_truthy ikey
                then dict_get (pay_events_by_idempotency P) (the ikey) else ev)
      in map_option pe_status ev)"

definition processed_events :: "PaymentAdapterEngine \<Rightarrow> PaymentEvent list" where
  "processed_events P = dict_values (pay_events_by_provider_event_id P)"

section \<open>What the helpers leave unchanged\<close>

text \<open>Same indexes, same ledger contents; only audit trails and the world may have moved on.\<close>

definition pay_frame :: "pay_ctx \<Rightarrow> pay_ctx \<Rightarrow> bool" where
  "pay_frame c c' \<longleftrightarrow>
     pay_events_by_provider_event_id (ctx_pay c') = pay_events_by_provider_event_id (ctx_pay c)
   \<and> pay_events_by_idempotency (ctx_pay c') = pay_events_by_idempotency (ctx_pay c)
   \<and> map_option lg_entries (ctx_ledger c') = map_option lg_entries (ctx_ledger c)
   \<and> map_option lg_idempotency_keys (ctx_ledger c') = map_option lg_idempotency_keys (ctx_ledger c)
   \<and> world_le (ctx_world c) (ctx_world c')"

lemma pay_frame_refl [simp]: "pay_frame c c"
  by (simp add: pay_frame_def)

lemma pay_frame_audit [simp]:
  "pay_frame c (pay_audit a m ac st am cu ik sr ev re c)"
  by (auto simp: pay_frame_def pay_audit_def split: prod.splits option.splits)
    (metis new_audit_event_world snd_conv world_le_draw)+

lemma pay_audit_sel:
  "pay_events_by_provider_event_id (ctx_pay (pay_audit a m ac st am cu ik sr ev re c)) =
     pay_events_by_provider_event_id (ctx_pay c)"
  "pay_events_by_idempotency (ctx_pay (pay_audit a m ac st am cu ik sr ev re c)) =
     pay_events_by_idempotency (ctx_pay c)"
  using pay_frame_audit[of c a m ac st am cu ik sr ev re] unfolding pay_frame_def by simp_all

lemma pay_audit_ledger:
  "ctx_ledger (pay_audit a m ac st am cu ik sr ev re (P, Some L, w)) =
     Some (ledger_record_audit (fst (new_audit_event m a ac st am cu ik sr None ev re w)) L)"
  "ctx_pay (pay_audit a m ac st am cu ik sr ev re (P, Some L, w)) = P"
  "ctx_world (pay_audit a m ac st am cu ik sr ev re (P, Some L, w)) =
     w\<lparr>uuid_n := Suc (uuid_n w), clock_n := Suc (clock_n w)\<rparr>"
  by (simp_all add: pay_audit_def split_beta)

lemma build_payment_event_world:
  "world_le w (snd (build_payment_event v env raw w))"
  by (simp add: build_payment_event_def new_id_def utcnow_def world_le_def
      split: pyval.split option.split)

text \<open>A built event carries the drawn identifier, the string the lookup used, and the key chosen
  by \<open>envelope.idempotency_key or raw.get(...)\<close>.\<close>

lemma payment_event_fields_Some:
  assumes "payment_event_fields v env raw st i t = Some ev" "validators_ok v"
  shows "pe_event_id ev = i" "pe_status ev = st"
    "get_or raw ''provider_event_id'' PNone = PStr (pe_provider_event_id ev)"
    "opt_truthy (env_idempotency_key env) \<Longrightarrow> pe_idempotency_key ev = env_idempotency_key env"
proof -
  show "opt_truthy (env_idempotency_key env) \<Longrightarrow> pe_idempotency_key ev = env_idempotency_key env"
    using assms
    by (auto simp: payment_event_fields_def bind_eq_Some_conv v_str_iff v_opt_str_def of_opt_def
        py_or_def elim!: opt_truthyE split: if_splits)
qed (use assms in \<open>auto simp: payment_event_fields_def bind_eq_Some_conv v_str_iff\<close>)

lemma build_payment_event_Inr:
  assumes "build_payment_event v env raw w = (Inr ev, w')" "validators_ok v"
  shows "pe_event_id ev = ''payev'' @ ''_'' @ id_at w (uuid_n w)"
    "get_or raw ''provider_event_id'' PNone = PStr (pe_provider_event_id ev)"
    "opt_truthy (env_idempotency_key env) \<Longrightarrow> pe_idempotency_key ev = env_idempotency_key env"
    "w' = w\<lparr>uuid_n := Suc (uuid_n w), clock_n := Suc (clock_n w)\<rparr>"
proof -
  from assms(1) obtain st where
    f: "payment_event_fields v env raw (map_status st) (''payev'' @ ''_'' @ id_at w (uuid_n w))
          (clock_of w (clock_n w)) = Some ev"
    and w': "w' = w\<lparr>uuid_n := Suc (uuid_n w), clock_n := Suc (clock_n w)\<rparr>"
    by (auto simp: build_payment_event_def new_id_def utcnow_def id_at_def
        split: pyval.splits option.splits)
  note payment_event_fields_Some[OF f assms(2)]
  with w' show "pe_event_id ev = ''payev'' @ ''_'' @ id_at w (uuid_n w)"
    "get_or raw ''provider_event_id'' PNone = PStr (pe_provider_event_id ev)"
    "opt_truthy (env_idempotency_key env) \<Longrightarrow> pe_idempotency_key ev = env_idempotency_key env"
    "w' = w\<lparr>uuid_n := Suc (uuid_n w), clock_n := Suc (clock_n w)\<rparr>"
    by simp_all
qed

section \<open>The ways a webhook call ends\<close>

lemma webhook_gate_cases:
  assumes "webhook_gate ad pol env ctx = (r, ctx')"
  shows "pay_frame ctx ctx'" "r = Inr raw \<Longrightarrow> ctx' = ctx"
    "r = Inr raw \<Longrightarrow> pa_normalize_event ad (env_payload env) = Inr raw"
  using assms by (auto simp: webhook_gate_def split: if_splits sum.splits)

lemma any_lookup_Some:
  "any_lookup k d = Inr (Some x) \<Longrightarrow> \<exists>s. k = PStr s \<and> dict_get d s = Some x"
  by (auto simp: any_lookup_def split: if_splits pyval.splits)

lemma ingest_normalized_cases [consumes 1, case_names reject replay fresh]:
  assumes "ingest_normalized v env raw (P, lg, w) = (r, ctx')"
  obtains exn w' where "r = Inl exn" "ctx' = (P, lg, w')" "world_le w w'"
  | ev where "r = Inr ev" "ctx' = (P, lg, w)"
      "ev \<in> set (dict_values (pay_events_by_idempotency P)) \<or> ev \<in> set (processed_events P)"
  | ev w' where "r = Inr ev" "build_payment_event v env raw w = (Inr ev, w')"
      "\<not> key_in (env_idempotency_key env) (fst ` set (pay_events_by_idempotency P))"
      "any_lookup (get_or raw ''provider_event_id'' PNone) (pay_events_by_provider_event_id P) = Inr None"
      "ctx' = process_payment_event ev (P, lg, w')"
proof (cases "key_in (env_idempotency_key env) (fst ` set (pay_events_by_idempotency P))")
  case True
  then have "dict_in (the (env_idempotency_key env)) (pay_events_by_idempotency P)"
    by (simp add: key_in_def dict_in_def)
  then obtain ev where
    "dict_get (pay_events_by_idempotency P) (the (env_idempotency_key env)) = Some ev"
    by (auto simp: dict.has_key_iff)
  then show thesis using True assms
    by (intro that(2)) (auto simp: ingest_normalized_def dest: dict_get_in_values)
next
  case False
  show thesis
  proof (cases "any_lookup (get_or raw ''provider_event_id'' PNone) (pay_events_by_provider_event_id P)
      = Inr None")
    case None: True
    obtain q w' where b: "build_payment_event v env raw w = (q, w')"
      by (cases "build_payment_event v env raw w")
    with build_payment_event_world[of w v env raw] have "world_le w w'" by simp
    with b None False assms show thesis
      by (cases q) (auto simp: ingest_normalized_def intro: that)
  next
    case nn: False
    then consider exn where "any_lookup (get_or raw ''provider_event_id'' PNone)
          (pay_events_by_provider_event_id P) = Inl exn"
      | ev where "any_lookup (get_or raw ''provider_event_id'' PNone)
          (pay_events_by_provider_event_id P) = Inr (Some ev)"
      by (metis obj_sumE option.exhaust)
    then show thesis
    proof cases
      case 1
      then show thesis using False assms by (intro that(1)) (auto simp: ingest_normalized_def)
    next
      case 2
      moreover from 2 obtain s where "dict_get (pay_events_by_provider_event_id P) s = Some ev"
        by (blast dest: any_lookup_Some)
      ultimately show thesis using False assms
        by (intro that(2)) (auto simp: ingest_normalized_def processed_events_def dest: dict_get_in_values)
    qed
  qed
qed

lemma ingest_webhook_cases [consumes 1, case_names reject replay fresh]:
  assumes "ingest_webhook v ad pol env (P, lg, w) = (r, ctx')"
  obtains exn where "r = Inl exn" "pay_frame (P, lg, w) ctx'"
  | ev where "r = Inr ev" "ctx' = (P, lg, w)"
      "ev \<in> set (dict_values (pay_events_by_idempotency P)) \<or> ev \<in> set (processed_events P)"
  | ev raw w' where "r = Inr ev" "pa_normalize_event ad (env_payload env) = Inr raw"
      "build_payment_event v env raw w = (Inr ev, w')"
      "\<not> key_in (env_idempotency_key env) (fst ` set (pay_events_by_idempotency P))"
      "any_lookup (get_or raw ''provider_event_id'' PNone) (pay_events_by_provider_event_id P) = Inr None"
      "ctx' = process_payment_event ev (P, lg, w')"
proof -
  obtain q c where g: "webhook_gate ad pol env (P, lg, w) = (q, c)"
    by (cases "webhook_gate ad pol env (P, lg, w)")
  show thesis
  proof (cases q)
    case (Inl exn)
    with g assms webhook_gate_cases(1)[OF g] show thesis
      by (intro that(1)) (auto simp: ingest_webhook_def)
  next
    case (Inr raw)
    note G = webhook_gate_cases(2,3)[OF g Inr]
    from assms g Inr G(1) have "ingest_normalized v env raw (P, lg, w) = (r, ctx')"
      by (simp add: ingest_webhook_def)
    then show thesis
      by (cases rule: ingest_normalized_cases) (auto intro: that G simp: pay_frame_def)
  qed
qed

section \<open>Registering and ledgering an event\<close>

lemma pay_register_sel [simp]:
  "pay_events_by_provider_event_id (pay_register ev P) =
     dict_set (pe_provider_event_id ev) ev (pay_events_by_provider_event_id P)"
  "pay_events_by_idempotency (pay_register ev P) =
     (if opt_truthy (pe_idempotency_key ev)
      then dict_set (the (pe_idempotency_key ev)) ev (pay_events_by_idempotency P)
      else pay_events_by_idempotency P)"
  "pay_audit_events (pay_register ev P) = pay_audit_events P"
  by (simp_all add: pay_register_def Let_def)

definition payment_ledger_step ::
  "PaymentEvent \<Rightarrow> FinancialLedgerEngine \<Rightarrow> world \<Rightarrow> FinancialLedgerEngine" where
  "payment_ledger_step ev L w =
     (case payment_entry_type (pe_status ev) of None \<Rightarrow> L
      | Some ty \<Rightarrow> fst (snd (ledger_append (fst (payment_ledger_entry ev ty w)) L
                             (snd (payment_ledger_entry ev ty w)))))"

lemma process_payment_event_Some:
  assumes "process_payment_event ev (P, Some L, w) = (P', lg', w')"
  shows "P' = pay_register ev P"
    "\<exists>L'. lg' = Some L' \<and> lg_entries L' = lg_entries (payment_ledger_step ev L w)
       \<and> lg_idempotency_keys L' = lg_idempotency_keys (payment_ledger_step ev L w)"
    "world_le w w'" "payment_entry_type (pe_status ev) \<noteq> None \<Longrightarrow> uuid_n w < uuid_n w'"
proof -
  have le: "world_le w (snd (snd (ledgerize_payment ev (Q, Some L, w))))
      \<and> (payment_entry_type (pe_status ev) \<noteq> None \<longrightarrow>
         uuid_n w < uuid_n (snd (snd (ledgerize_payment ev (Q, Some L, w)))))" for Q
    by (simp add: ledgerize_payment_def payment_ledger_entry_def split_beta ledger_append_world
        world_le_def split: option.split)
  have l: "ledgerize_payment ev (Q, Some L, w) =
      (Q, Some (payment_ledger_step ev L w), snd (snd (ledgerize_payment ev (Q, Some L, w))))" for Q
    by (simp add: ledgerize_payment_def payment_ledger_step_def split_beta split: option.split)
  let ?w1 = "snd (snd (ledgerize_payment ev (pay_register ev P, Some L, w)))"
  have "(P', lg', w') = pay_audit ''payment_event_processed'' (pe_marketplace_id ev)
      ''provider_webhook'' ''OK'' (Some (pe_amount ev)) (Some (pe_currency ev))
      (pe_idempotency_key ev) (Some (pe_event_id ev)) (pe_evidence_ref ev) ''''
      (pay_register ev P, Some (payment_ledger_step ev L w), ?w1)"
    using assms l[of "pay_register ev P"] by (simp add: process_payment_event_def)
  then have *: "P' = pay_register ev P"
      "\<exists>x. lg' = Some (ledger_record_audit x (payment_ledger_step ev L w))"
      "w' = ?w1\<lparr>uuid_n := Suc (uuid_n ?w1), clock_n := Suc (clock_n ?w1)\<rparr>"
    by (auto simp: pay_audit_def split: prod.splits) (metis new_audit_event_world snd_conv)
  then show "P' = pay_register ev P"
    "\<exists>L'. lg' = Some L' \<and> lg_entries L' = lg_entries (payment_ledger_step ev L w)
       \<and> lg_idempotency_keys L' = lg_idempotency_keys (payment_ledger_step ev L w)"
    by auto
  show "world_le w w'" "payment_entry_type (pe_status ev) \<noteq> None \<Longrightarrow> uuid_n w < uuid_n w'"
    using le[of "pay_register ev P"] by (auto simp: *(3) world_le_def)
qed

section \<open>Redelivery\<close>

text \<open>A sequence of webhook calls, each handled on its own: an exception is the caller's, the state
  stays with the engine.\<close>

fun ingest_all ::
  "validators \<Rightarrow> PaymentProviderAdapter \<Rightarrow> MarketplaceFinancialPolicy \<Rightarrow> PaymentWebhookEnvelope list \<Rightarrow>
   pay_ctx \<Rightarrow> pay_ctx" where
  "ingest_all v ad pol [] ctx = ctx"
| "ingest_all v ad pol (env # envs) ctx =
     ingest_all v ad pol envs (snd (ingest_webhook v ad pol env ctx))"

text \<open>An envelope is settled when one of the two lookups will find it.\<close>

definition settled :: "PaymentWebhookEnvelope \<Rightarrow> payload \<Rightarrow> PaymentAdapterEngine \<Rightarrow> bool" where
  "settled env raw P \<longleftrightarrow>
     key_in (env_idempotency_key env) (fst ` set (pay_events_by_idempotency P))
   \<or> (\<exists>s. get_or raw ''provider_event_id'' PNone = PStr s
        \<and> dict_in s (pay_events_by_provider_event_id P))"

lemma settled_register: "settled env raw P \<Longrightarrow> settled env raw (pay_register ev P)"
  by (auto simp: settled_def keys_dict_set dict.has_key_put elim: key_in_mono)

lemma settled_frame:
  "pay_frame (P, lg, w) (P', lg', w') \<Longrightarrow> settled env raw P' \<longleftrightarrow> settled env raw P"
  by (simp add: settled_def pay_frame_def)

lemma process_payment_event_pay:
  "settled env raw (fst (process_payment_event ev (P, lg, w))) \<longleftrightarrow> settled env raw (pay_register ev P)"
proof -
  have "fst (ledgerize_payment ev (Q, l, w)) = Q" for Q l
    by (simp add: ledgerize_payment_def split_beta split: option.split)
  then show ?thesis
    by (simp add: process_payment_event_def settled_def pay_audit_sel)
qed

lemma settled_step:
  assumes "settled e raw P"
  shows "settled e raw (fst (snd (ingest_webhook v ad pol env (P, lg, w))))"
proof -
  obtain r P' lg' w' where i: "ingest_webhook v ad pol env (P, lg, w) = (r, P', lg', w')"
    by (metis prod.exhaust)
  then show ?thesis
  proof (cases rule: ingest_webhook_cases)
    case (reject exn)
    then show ?thesis using assms i by (simp add: settled_frame)
  next
    case (replay ev)
    then show ?thesis using assms i by simp
  next
    case (fresh ev raw' w1)
    then have "P' = fst (process_payment_event ev (P, lg, w1))" by (metis fst_conv)
    then show ?thesis
      using assms i by (simp add: process_payment_event_pay settled_register)
  qed
qed

lemma settled_ingest_all:
  "settled e raw (fst c) \<Longrightarrow> settled e raw (fst (ingest_all v ad pol envs c))"
proof (induction envs arbitrary: c)
  case (Cons env envs)
  then show ?case
    using settled_step[of e raw "fst c" v ad pol env "fst (snd c)" "snd (snd c)"] by simp
qed simp

lemma settled_after:
  assumes "ingest_webhook v ad pol env (P, lg, w) = (Inr ev, ctx')" "validators_ok v"
    and "webhook_gate ad pol env (P, lg, w) = (Inr raw, c)"
  shows "settled env raw (fst ctx')"
proof -
  from webhook_gate_cases(2)[OF assms(3)] have c: "c = (P, lg, w)" by simp
  with assms have n: "ingest_normalized v env raw (P, lg, w) = (Inr ev, ctx')"
    by (simp add: ingest_webhook_def)
  show ?thesis
  proof (cases "settled env raw P")
    case True
    then show ?thesis
      using settled_step[OF True, of v ad pol env lg w] assms(1) by simp
  next
    case False
    with n obtain w' where "build_payment_event v env raw w = (Inr ev, w')"
      and "ctx' = process_payment_event ev (P, lg, w')"
      by (auto simp: ingest_normalized_def settled_def dict.has_key_iff
          dest!: any_lookup_Some split: if_splits sum.splits option.splits prod.splits)
    moreover from this have "settled env raw (pay_register ev P)"
      using build_payment_event_Inr(2)[OF _ assms(2)] by (auto simp: settled_def dict.has_key_put)
    ultimately show ?thesis by (simp add: process_payment_event_pay)
  qed
qed

lemma settled_replays:
  assumes "webhook_gate ad pol env c0 = (Inr raw, c1)" "settled env raw (fst c)"
  shows "\<exists>ev. ingest_webhook v ad pol env c = (Inr ev, c)"
proof -
  have g: "webhook_gate ad pol env c = (Inr raw, c)"
    using assms(1) by (auto simp: webhook_gate_def split: if_splits sum.splits)
  from assms(2) show ?thesis
    by (auto simp: ingest_webhook_def g ingest_normalized_def settled_def any_lookup_def
        dict.has_key_iff split: prod.splits)
qed

section \<open>The payment engine as a client of the ledger\<close>

definition pay_call ::
  "validators \<Rightarrow> PaymentProviderAdapter \<Rightarrow> MarketplaceFinancialPolicy \<Rightarrow> pay_ctx \<Rightarrow> pay_ctx \<Rightarrow> bool" where
  "pay_call v ad pol c c' \<longleftrightarrow> ctx_ledger c \<noteq> None \<and> (\<exists>env. c' = snd (ingest_webhook v ad pol env c))"

lemma pay_audit_grows:
  "ledger_grows b (L, w) \<Longrightarrow>
     ledger_grows b (ctx_books (pay_audit a m ac st am cu ik sr ev re (P, Some L, w)))"
  by (auto simp: ctx_books_def pay_audit_def split_beta intro!: ledger_grows.grows_audit
      intro: ledger_grows.grows_time[OF _ world_le_draw])

lemma ledgerize_payment_grows:
  "ledger_grows (L, w) (ctx_books (ledgerize_payment ev (P, Some L, w)))"
proof (cases "payment_entry_type (pe_status ev)")
  case (Some ty)
  let ?n = "payment_ledger_entry ev ty w"
  have "ctx_books (ledgerize_payment ev (P, Some L, w)) = snd (ledger_append (fst ?n) L (snd ?n))"
    by (simp add: ledgerize_payment_def Some ctx_books_def split_beta)
  then show ?thesis
    using post_grows[OF ledger_grows.grows_refl] by (simp only: payment_ledger_entry_def)
qed (simp add: ledgerize_payment_def ctx_books_def ledger_grows.grows_refl)

lemma process_payment_event_grows:
  "ledger_grows (L, w) (ctx_books (process_payment_event ev (P, Some L, w)))"
proof -
  obtain P' lg' w' where l: "ledgerize_payment ev (pay_register ev P, Some L, w) = (P', lg', w')"
    by (metis prod.exhaust)
  have "lg' = Some (the lg')"
    using l by (auto simp: ledgerize_payment_def split_beta split: option.splits)
  then show ?thesis
    using ledgerize_payment_grows[of L w ev "pay_register ev P"] pay_audit_grows[of "(L, w)" "the lg'" w'] l
    by (auto simp: process_payment_event_def ctx_books_def)
qed

lemma ingest_webhook_grows:
  "ledger_grows (L, w) (ctx_books (snd (ingest_webhook v ad pol env (P, Some L, w))))"
proof -
  obtain q c where g: "webhook_gate ad pol env (P, Some L, w) = (q, c)" by (metis surj_pair)
  have c: "c = (P, Some L, w) \<or> isl q \<and> (\<exists>a m ac st am cu ik sr ev re. c = pay_audit a m ac st am cu ik sr ev re (P, Some L, w))"
    using g unfolding webhook_gate_def by (force split: if_splits sum.splits)
  show ?thesis
  proof (cases q)
    case (Inl exn)
    then show ?thesis
      using c g pay_audit_grows[OF ledger_grows.grows_refl]
      by (auto simp: ingest_webhook_def ctx_books_def ledger_grows.grows_refl)
  next
    case (Inr raw)
    obtain r c' where n: "ingest_normalized v env raw (P, Some L, w) = (r, c')" by (metis surj_pair)
    have i: "snd (ingest_webhook v ad pol env (P, Some L, w)) = c'"
      using g c Inr n by (simp add: ingest_webhook_def)
    from n show ?thesis
    proof (cases rule: ingest_normalized_cases)
      case (reject exn w')
      then show ?thesis unfolding i by (auto simp: ctx_books_def intro: ledger_grows.intros)
    next
      case (replay ev)
      then show ?thesis unfolding i by (simp add: ctx_books_def ledger_grows.grows_refl)
    next
      case (fresh ev w1)
      have "ledger_grows (L, w) (L, w1)"
        using build_payment_event_world[of w v env raw] fresh(2) by (auto intro: ledger_grows.intros)
      from ledger_grows_trans[OF process_payment_event_grows this] show ?thesis
        unfolding i by (simp add: fresh(5))
    qed
  qed
qed

interpretation pay: ledger_client "pay_call v ad pol" ctx_books for v ad pol
proof
  fix c c' assume "pay_call v ad pol c c'"
  then obtain env P L w where "c = (P, Some L, w)" "c' = snd (ingest_webhook v ad pol env c)"
    by (cases c) (auto simp: pay_call_def)
  then show "ledger_grows (ctx_books c) (ctx_books c')"
    using ingest_webhook_grows[of L w v ad pol env P] by (simp add: ctx_books_def)
qed

section \<open>A concrete engine for evaluation\<close>

definition sample_envelope :: "string \<Rightarrow> string \<Rightarrow> string \<Rightarrow> pyfloat \<Rightarrow> PaymentWebhookEnvelope" where
  "sample_envelope key pid st am =
     \<lparr>env_provider = ''acme'', env_provider_event_id = pid, env_idempotency_key = Some key,
      env_signature = Some ''sig'', env_timestamp = None,
      env_payload = [(''provider'', PStr ''acme''), (''event_id'', PStr pid), (''status'', PStr st),
        (''amount'', PFloat am), (''order_id'', PStr ''o1''), (''marketplace_id'', PStr ''m1'')]\<rparr>"

definition sample_ctx :: pay_ctx where
  "sample_ctx = (payment_init, Some ledger_init, sample_world)"

abbreviation sample_ingest ::
  "string \<Rightarrow> string \<Rightarrow> string \<Rightarrow> pyfloat \<Rightarrow> pay_ctx \<Rightarrow> (pay_ctx, PaymentEvent) outcome" where
  "sample_ingest key pid st am \<equiv>
     ingest_webhook plain_validators NoopPaymentAdapter default_policy (sample_envelope key pid st am)"

declare base_payment_adapter_def [run_simps] noop_normalize_event_def [run_simps]
  NoopPaymentAdapter_def [run_simps] payment_init_def [run_simps] status_mapping_def [run_simps]
  map_status_def [run_simps] pay_audit_def [run_simps] pay_register_def [run_simps]
  payment_ledger_entry_def [run_simps] ledgerize_payment_def [run_simps]
  payment_event_fields_def [run_simps] build_payment_event_def [run_simps]
  process_payment_event_def [run_simps] webhook_gate_def [run_simps]
  ingest_normalized_def [run_simps] ingest_webhook_def [run_simps] processed_events_def [run_simps]
  sample_envelope_def [run_simps] sample_ctx_def [run_simps]

section \<open>Properties\<close>

text \<open>
  C5. Redelivery is a no-op. Once a webhook call has succeeded, delivering the same envelope
  again, after any number of other webhook calls, returns an event and leaves the payment
  indexes, the ledger, both audit trails and the identifier supply exactly as they were.
\<close>

theorem payment_redelivery_is_noop:
  assumes "validators_ok v"
    and "ingest_webhook v ad pol env c = (Inr ev, c1)"
    and "c2 = ingest_all v ad pol envs c1"
  shows "\<exists>ev2. ingest_webhook v ad pol env c2 = (Inr ev2, c2)"
proof -
  obtain P lg w where c: "c = (P, lg, w)" by (cases c)
  obtain raw c' where g: "webhook_gate ad pol env c = (Inr raw, c')"
    using assms(2) by (auto simp: ingest_webhook_def split: prod.splits sum.splits)
  then have "settled env raw (fst c1)"
    using settled_after assms(1,2) c by blast
  then have "settled env raw (fst c2)"
    unfolding assms(3) by (rule settled_ingest_all)
  then show ?thesis using g by (rule settled_replays[rotated])
qed

text \<open>
  C8. A failing webhook call changes no books: whatever exception it ends with, both payment
  indexes, the ledger entries and the used idempotency keys are those from before the call.
\<close>

theorem failed_webhook_keeps_books:
  assumes "ingest_webhook v ad pol env c = (Inl exn, c')"
  shows "pay_frame c c'"
proof -
  obtain P lg w where c: "c = (P, lg, w)" by (cases c)
  from assms[unfolded c] show ?thesis
    by (cases rule: ingest_webhook_cases) (auto simp: c)
qed

theorem payment_redelivery_is_noop_witness:
  "\<exists>ev2. sample_ingest ''k1'' ''e1'' ''paid'' (Fin 100)
      (ingest_all plain_validators NoopPaymentAdapter default_policy
         [sample_envelope ''k2'' ''e2'' ''failed'' (Fin 7)]
         (snd (sample_ingest ''k1'' ''e1'' ''paid'' (Fin 100) sample_ctx)))
    = (Inr ev2, ingest_all plain_validators NoopPaymentAdapter default_policy
         [sample_envelope ''k2'' ''e2'' ''failed'' (Fin 7)]
         (snd (sample_ingest ''k1'' ''e1'' ''paid'' (Fin 100) sample_ctx)))"
proof (rule payment_redelivery_is_noop[OF plain_validators_ok _ refl])
  have "\<not> isl (fst (sample_ingest ''k1'' ''e1'' ''paid'' (Fin 100) sample_ctx))"
    by (simp add: run_simps)
  then show "sample_ingest ''k1'' ''e1'' ''paid'' (Fin 100) sample_ctx =
      (Inr (projr (fst (sample_ingest ''k1'' ''e1'' ''paid'' (Fin 100) sample_ctx))),
       snd (sample_ingest ''k1'' ''e1'' ''paid'' (Fin 100) sample_ctx))"
    by (rule outcome_Inr)
qed

theorem failed_webhook_keeps_books_witness:
  "pay_frame sample_ctx (snd (sample_ingest ''k1'' '''' ''paid'' (Fin 100) sample_ctx))"
proof (rule failed_webhook_keeps_books)
  have "isl (fst (sample_ingest ''k1'' '''' ''paid'' (Fin 100) sample_ctx))"
    by (simp add: run_simps)
  then show "sample_ingest ''k1'' '''' ''paid'' (Fin 100) sample_ctx =
      (Inl (projl (fst (sample_ingest ''k1'' '''' ''paid'' (Fin 100) sample_ctx))),
       snd (sample_ingest ''k1'' '''' ''paid'' (Fin 100) sample_ctx))"
    by (rule outcome_Inl)
qed

text \<open>
  A new payment event reaches the ledger exactly once. When a webhook call returns an event
  the engine did not know, the ledger gains one entry at its end if the status is captured,
  authorized, failed or cancelled and the entry's key is unused, and is unchanged otherwise; the
  entry repeats the event's amount, currency, status and identifier.
\<close>

theorem new_payment_event_ledgered:
  assumes "validators_ok v" "ledger_wf L"
    and "ingest_webhook v ad pol env (P, Some L, w) = (Inr ev, P', lg', w')"
    and "ev \<notin> set (processed_events P)" "ev \<notin> set (dict_values (pay_events_by_idempotency P))"
    and "''le_'' @ id_at w (Suc (uuid_n w)) \<notin> le_ledger_id ` set (dict_values (lg_entries L))"
  shows "\<exists>L'. lg' = Some L' \<and>
     (case payment_entry_type (pe_status ev) of
        None \<Rightarrow> dict_values (lg_entries L') = dict_values (lg_entries L)
      | Some ty \<Rightarrow>
          if key_in (Some (opt_or_str (pe_idempotency_key ev) (pe_event_id ev))) (lg_idempotency_keys L)
          then dict_values (lg_entries L') = dict_values (lg_entries L)
          else \<exists>e. dict_values (lg_entries L') = dict_values (lg_entries L) @ [e]
             \<and> le_entry_type e = ty \<and> le_amount e = pe_amount ev \<and> le_currency e = pe_currency ev
             \<and> le_status e = payment_status_value (pe_status ev)
             \<and> le_source_event_id e = Some (pe_event_id ev) \<and> le_order_id e = Some (pe_order_id ev))"
  using assms(3)
proof (cases rule: ingest_webhook_cases)
  case (fresh ev' raw w1)
  then have ev: "ev' = ev" by simp
  note B = build_payment_event_Inr[OF fresh(3) assms(1)]
  from process_payment_event_Some[OF fresh(6)[symmetric]] obtain L' where
    L': "lg' = Some L'" "lg_entries L' = lg_entries (payment_ledger_step ev L w1)"
    unfolding ev by blast
  show ?thesis
  proof (cases "payment_entry_type (pe_status ev)")
    case None
    then show ?thesis using L' by (simp add: payment_ledger_step_def)
  next
    case (Some ty)
    let ?e = "fst (payment_ledger_entry ev ty w1)"
    have k: "le_idempotency_key ?e = Some (opt_or_str (pe_idempotency_key ev) (pe_event_id ev))"
      and i: "le_ledger_id ?e = ''le_'' @ id_at w (Suc (uuid_n w))"
      by (simp_all add: payment_ledger_entry_def B(4) id_at_def)
    have f: "le_entry_type ?e = ty" "le_amount ?e = pe_amount ev" "le_currency ?e = pe_currency ev"
      "le_status ?e = payment_status_value (pe_status ev)" "le_order_id ?e = Some (pe_order_id ev)"
      "le_source_event_id ?e = Some (pe_event_id ev)"
      by (simp_all add: payment_ledger_entry_def)
    have "dict_values (lg_entries L') = (if key_in (le_idempotency_key ?e) (lg_idempotency_keys L)
        then dict_values (lg_entries L) else dict_values (lg_entries L) @ [?e])"
      using ledger_append_log[OF assms(2), of ?e] assms(6) i
      by (auto simp: L'(2) payment_ledger_step_def Some ledger_append_dup)
    then show ?thesis using Some L'(1) k f by auto
  qed
qed (use assms(4,5) in auto)

theorem new_payment_event_ledgered_witness:
  "\<exists>ev P' L' w'. sample_ingest ''k1'' ''e1'' ''paid'' (Fin 100) sample_ctx = (Inr ev, P', Some L', w')
     \<and> (\<exists>e. dict_values (lg_entries L') = [e] \<and> le_amount e = Fin 100)"
proof -
  obtain ev P' lg' w' where s: "sample_ingest ''k1'' ''e1'' ''paid'' (Fin 100) sample_ctx = (Inr ev, P', lg', w')"
    and f: "payment_entry_type (pe_status ev) = Some LT_PAYMENT_CAPTURED" "pe_amount ev = Fin 100"
    by (simp add: run_simps)
  then show ?thesis
    using new_payment_event_ledgered[OF plain_validators_ok ledger_wf_init, of NoopPaymentAdapter
        default_policy _ payment_init sample_world ev P' lg' w']
    by (fastforce simp: sample_ctx_def ledger_init_def payment_init_def processed_events_def key_in_def)
qed

text \<open>
  Unsigned webhooks are rejected. Under a policy that requires signatures, an envelope without
  one raises \<open>ValueError\<close> before the adapter is consulted; nothing but the audit trail changes,
  which gains exactly one record with status \<open>FAILED\<close>.
\<close>

theorem unsigned_webhook_rejected:
  assumes "pol_payment_webhook_signature_required pol" "\<not> opt_truthy (env_signature env)"
  shows "\<exists>x w'. ingest_webhook v ad pol env (P, Some L, w) =
       (Inl (ValueError ''Missing webhook signature; signature validation is required.''),
        P, Some (ledger_record_audit x L), w')
     \<and> ae_status x = ''FAILED'' \<and> ae_action x = ''webhook_rejected_unsigned''"
proof -
  let ?x = "fst (new_audit_event '''' ''webhook_rejected_unsigned'' ''provider_webhook'' ''FAILED''
    None (Some ''USD'') None None None None ''Missing webhook signature.'' w)"
  have "\<exists>w'. ingest_webhook v ad pol env (P, Some L, w) =
      (Inl (ValueError ''Missing webhook signature; signature validation is required.''),
       P, Some (ledger_record_audit ?x L), w')"
    using assms by (simp add: ingest_webhook_def webhook_gate_def pay_audit_def split_beta)
  moreover have "ae_status ?x = ''FAILED''" "ae_action ?x = ''webhook_rejected_unsigned''"
    by (simp_all add: new_audit_event_def split_beta)
  ultimately show ?thesis by blast
qed

theorem unsigned_webhook_rejected_witness:
  "\<exists>x w'. ingest_webhook plain_validators base_payment_adapter default_policy
       ((sample_envelope ''k1'' ''e1'' ''paid'' (Fin 100))\<lparr>env_signature := Some ''''\<rparr>)
       (payment_init, Some ledger_init, sample_world) =
       (Inl (ValueError ''Missing webhook signature; signature validation is required.''),
        payment_init, Some (ledger_record_audit x ledger_init), w')
     \<and> ae_status x = ''FAILED'' \<and> ae_action x = ''webhook_rejected_unsigned''"
  by (rule unsigned_webhook_rejected) (simp_all add: default_policy_def)

end
