(* ===== verification/Fin_Refunds.thy ===== *)
theory Fin_Refunds
  imports Fin_Ledger
begin

text \<open>
  Refund governance (\<^verbatim>\<open>refunds.py\<close>). A refund request is one mutable object that two
  dictionaries share and that callers keep references to, so the engine's state holds an explicit
  heap of refund objects: the dictionaries map to addresses, and an update through one path is
  seen through the other. The governance kernel is a parameter: a function from the evaluated
  action to a decision or an exception; the pass-through adapter of \<^verbatim>\<open>engine.py\<close> is an instance.
\<close>

section \<open>Governance\<close>

type_synonym governance =
  "GovernanceAction \<Rightarrow> string \<Rightarrow> payload \<Rightarrow> pyval list \<Rightarrow> world \<Rightarrow> (world, GovernanceDecision) outcome"

definition new_decision ::
  "GovernanceAction \<Rightarrow> string \<Rightarrow> string list \<Rightarrow> world \<Rightarrow> GovernanceDecision \<times> world" where
  "new_decision action actor refs w =
     (let (i, w) = new_id ''gov_audit'' w; (t, w) = utcnow w in
      (\<lparr>gd_action = action, gd_actor = actor, gd_allowed = True, gd_decision = ''APPROVED'',
        gd_constraints = [], gd_approval_ref = None, gd_audit_ref = i, gd_evidence_refs = refs,
        gd_evaluated_at = t\<rparr>, w))"

definition governance_decision :: "governance option \<Rightarrow> governance" where
  "governance_decision gov action actor context refs w =
     (case gov of
        None \<Rightarrow> (case new_decision action actor [] w of (d, w') \<Rightarrow> (Inr d, w'))
      | Some g \<Rightarrow> g action actor context refs w)"

text \<open>\<open>DefaultGovernanceAdapter.evaluate\<close>: approves, and validates the evidence references as
  strings when it builds the decision.\<close>

definition default_governance :: "validators \<Rightarrow> governance" where
  "default_governance v action actor context refs w =
     (case v_str_list v refs of
        None \<Rightarrow> (Inl (ValidationError ''GovernanceDecision''), w)
      | Some ss \<Rightarrow> (case new_decision action actor ss w of (d, w') \<Rightarrow> (Inr d, w')))"

section \<open>State\<close>

record RefundGovernanceEngine =
  rf_heap :: "RefundRequest list"
  rf_refunds :: "(string, nat) dict"
  rf_by_idempotency :: "(string, nat) dict"
  rf_audit_events :: "FinancialAuditEvent list"

definition refund_init :: RefundGovernanceEngine where
  "refund_init = \<lparr>rf_heap = [], rf_refunds = [], rf_by_idempotency = [], rf_audit_events = []\<rparr>"

type_synonym ref_ctx = "RefundGovernanceEngine \<times> FinancialLedgerEngine option \<times> world"

text \<open>Assignment to attributes of the object at an address.\<close>

definition rf_modify :: "nat \<Rightarrow> (RefundRequest \<Rightarrow> RefundRequest) \<Rightarrow> ref_ctx \<Rightarrow> ref_ctx" where
  "rf_modify a f ctx =
     (case ctx of (R, lg, w) \<Rightarrow> (R\<lparr>rf_heap := (rf_heap R)[a := f (rf_heap R ! a)]\<rparr>, lg, w))"

definition rf_object :: "nat \<Rightarrow> ref_ctx \<Rightarrow> RefundRequest" where
  "rf_object a ctx = rf_heap (fst ctx) ! a"

definition rf_set_status :: "nat \<Rightarrow> RefundStatus \<Rightarrow> ref_ctx \<Rightarrow> ref_ctx" where
  "rf_set_status a st ctx = rf_modify a (\<lambda>r. r\<lparr>rr_status := st\<rparr>) ctx"

text \<open>\<open>refund.updated_at = utcnow()\<close> and \<open>refund.completed_at = utcnow()\<close>.\<close>

definition rf_touch :: "nat \<Rightarrow> ref_ctx \<Rightarrow> ref_ctx" where
  "rf_touch a ctx = (case ctx of (R, lg, w) \<Rightarrow>
     case utcnow w of (t, w') \<Rightarrow> rf_modify a (\<lambda>r. r\<lparr>rr_updated_at := t\<rparr>) (R, lg, w'))"

definition rf_set_completed :: "nat \<Rightarrow> ref_ctx \<Rightarrow> ref_ctx" where
  "rf_set_completed a ctx = (case ctx of (R, lg, w) \<Rightarrow>
     case utcnow w of (t, w') \<Rightarrow> rf_modify a (\<lambda>r. r\<lparr>rr_completed_at := Some t\<rparr>) (R, lg, w'))"

section \<open>Internal helpers\<close>

definition rf_store :: "RefundRequest \<Rightarrow> RefundGovernanceEngine \<Rightarrow> RefundGovernanceEngine" where
  "rf_store r R =
     (let a = length (rf_heap R);
          R1 = R\<lparr>rf_heap := rf_heap R @ [r],
                 rf_refunds := dict_set (rr_refund_id r) a (rf_refunds R)\<rparr>
      in if opt_truthy (rr_idempotency_key r)
         then R1\<lparr>rf_by_idempotency := dict_set (the (rr_idempotency_key r)) a (rf_by_idempotency R1)\<rparr>
         else R1)"

definition rf_append_ledger_entry ::
  "LedgerEntryType \<Rightarrow> nat \<Rightarrow> string \<Rightarrow> ref_ctx \<Rightarrow> ref_ctx" where
  "rf_append_ledger_entry ty a key ctx =
     (case ctx of (R, None, w) \<Rightarrow> ctx
      | (R, Some L, w) \<Rightarrow>
        (let r = rf_heap R ! a in
         case new_ledger_entry (rr_marketplace_id r) (Some (rr_order_id r)) (Some (rr_listing_id r))
                (Some (rr_tenant_id r)) ty (rr_amount r) (rr_currency r)
                (ledger_entry_type_value ty) (Some key) (rr_original_payment_event_id r)
                (Some (rr_refund_id r)) w of
           (e, w1) \<Rightarrow> (case ledger_append e L w1 of (_, L', w2) \<Rightarrow> (R, Some L', w2))))"

definition rf_audit ::
  "string \<Rightarrow> string \<Rightarrow> string \<Rightarrow> string \<Rightarrow> pyfloat \<Rightarrow> string \<Rightarrow> string option \<Rightarrow> string \<Rightarrow> string \<Rightarrow>
   ref_ctx \<Rightarrow> ref_ctx" where
  "rf_audit action mid actor status amount currency gov evid reason ctx =
     (case ctx of (R, lg, w) \<Rightarrow>
      case new_audit_event mid action actor status (Some amount) (Some currency) None None gov
             (Some evid) reason w of
        (ev, w') \<Rightarrow>
        (case lg of
           Some L \<Rightarrow> (R, Some (ledger_record_audit ev L), w')
         | None \<Rightarrow> (R\<lparr>rf_audit_events := rf_audit_events R @ [ev]\<rparr>, None, w')))"

text \<open>The tail that automatic and manual approval share, from the \<open>REFUND_APPROVED\<close> entry to the
  \<open>REFUND_COMPLETED\<close> entry.\<close>

definition rf_finish :: "nat \<Rightarrow> ref_ctx \<Rightarrow> ref_ctx" where
  "rf_finish a ctx =
     (let rid = rr_refund_id (rf_object a ctx);
          ctx = rf_append_ledger_entry LT_REFUND_APPROVED a (''refapp_'' @ rid) ctx;
          ctx = rf_set_status a RS_COMPLETED ctx;
          ctx = rf_set_completed a ctx;
          ctx = rf_touch a ctx
      in rf_append_ledger_entry LT_REFUND_COMPLETED a (''refcomp_'' @ rid) ctx)"

section \<open>Requesting a refund\<close>

record refund_args =
  ra_marketplace_id :: string
  ra_order_id :: string
  ra_listing_id :: string
  ra_tenant_id :: string
  ra_amount :: pyfloat
  ra_currency :: string
  ra_requested_by :: string
  ra_original_payment_event_id :: "string option"
  ra_reason_code :: string
  ra_reason :: string
  ra_idempotency_key :: "string option"

definition new_refund :: "refund_args \<Rightarrow> world \<Rightarrow> RefundRequest \<times> world" where
  "new_refund x w =
     (let (i, w) = new_id ''refund'' w; (t1, w) = utcnow w; (t2, w) = utcnow w in
      (\<lparr>rr_refund_id = i, rr_marketplace_id = ra_marketplace_id x, rr_order_id = ra_order_id x,
        rr_listing_id = ra_listing_id x, rr_tenant_id = ra_tenant_id x, rr_amount = ra_amount x,
        rr_currency = ra_currency x,
        rr_original_payment_event_id = ra_original_payment_event_id x,
        rr_reason_code = ra_reason_code x, rr_reason = ra_reason x,
        rr_requested_by = ra_requested_by x, rr_status = RS_REQUESTED, rr_governance_ref = None,
        rr_approval_ref = None, rr_created_at = t1, rr_updated_at = t2,
        rr_idempotency_key = ra_idempotency_key x, rr_completed_at = None\<rparr>, w))"

definition above_threshold :: "MarketplaceFinancialPolicy \<Rightarrow> refund_args \<Rightarrow> bool" where
  "above_threshold pol x =
     (ra_currency x = pol_auto_approve_refund_threshold_currency pol
      \<and> f_gt (ra_amount x) (pol_auto_approve_refund_threshold_amount pol))"

text \<open>Ask governance, threading the world through the context.\<close>

definition rf_decide ::
  "governance option \<Rightarrow> string \<Rightarrow> payload \<Rightarrow> pyval list \<Rightarrow> ref_ctx \<Rightarrow>
   (ref_ctx, GovernanceDecision) outcome" where
  "rf_decide gov actor context refs ctx =
     (case ctx of (R, lg, w) \<Rightarrow>
      case governance_decision gov REFUND_ABOVE_THRESHOLD actor context refs w of
        (r, w') \<Rightarrow> (r, (R, lg, w')))"

definition request_small ::
  "governance option \<Rightarrow> refund_args \<Rightarrow> nat \<Rightarrow> ref_ctx \<Rightarrow> (ref_ctx, nat) outcome" where
  "request_small gov x a ctx =
     (let rid = rr_refund_id (rf_object a ctx) in
      case rf_decide gov (ra_requested_by x)
             [(''refund_id'', PStr rid), (''amount'', PFloat (ra_amount x)),
              (''currency'', PStr (ra_currency x))] [PStr rid] ctx of
        (Inl exn, ctx) \<Rightarrow> (Inl exn, ctx)
      | (Inr d, ctx) \<Rightarrow>
        if gd_allowed d then
          (let ctx = rf_modify a (\<lambda>r. r\<lparr>rr_status := RS_APPROVED,
                   rr_approval_ref := Some (opt_or_str (gd_approval_ref d) (''auto:'' @ ra_requested_by x)),
                   rr_governance_ref := Some (gd_audit_ref d)\<rparr>) ctx;
               ctx = rf_touch a ctx;
               ctx = rf_finish a ctx
           in (Inr a, rf_audit ''refund_auto_completed'' (ra_marketplace_id x) (ra_requested_by x)
                 ''OK'' (ra_amount x) (ra_currency x) (Some (gd_audit_ref d)) rid '''' ctx))
        else (Inr a, ctx))"

definition request_large ::
  "governance option \<Rightarrow> refund_args \<Rightarrow> nat \<Rightarrow> ref_ctx \<Rightarrow> (ref_ctx, nat) outcome" where
  "request_large gov x a ctx =
     (let rid = rr_refund_id (rf_object a ctx) in
      case rf_decide gov (ra_requested_by x)
             [(''refund_id'', PStr rid), (''amount'', PFloat (ra_amount x)),
              (''currency'', PStr (ra_currency x)), (''order_id'', PStr (ra_order_id x))]
             [PStr rid, of_opt (ra_original_payment_event_id x)] ctx of
        (Inl exn, ctx) \<Rightarrow> (Inl exn, ctx)
      | (Inr d, ctx) \<Rightarrow>
        (let ctx = rf_modify a (\<lambda>r. r\<lparr>rr_governance_ref := Some (gd_audit_ref d)\<rparr>) ctx in
         if \<not> gd_allowed d then
           (let ctx = rf_set_status a RS_REJECTED ctx;
                ctx = rf_touch a ctx
            in (Inl (ValueError
                   ''Refund above threshold requires governance approval, which was denied.''),
                rf_audit ''refund_above_threshold_denied'' (ra_marketplace_id x) (ra_requested_by x)
                  ''DENIED'' (ra_amount x) (ra_currency x) (Some (gd_audit_ref d)) rid
                  ''Governance denied refund above threshold.'' ctx))
         else
           (let ctx = rf_set_status a RS_PENDING_APPROVAL ctx;
                ctx = rf_modify a (\<lambda>r. r\<lparr>rr_governance_ref := Some (gd_audit_ref d)\<rparr>) ctx;
                ctx = rf_touch a ctx
            in (Inr a, rf_audit ''refund_above_threshold_pending_approval'' (ra_marketplace_id x)
                  (ra_requested_by x) ''PENDING'' (ra_amount x) (ra_currency x)
                  (Some (gd_audit_ref d)) rid '''' ctx))))"

definition request_pending :: "refund_args \<Rightarrow> nat \<Rightarrow> ref_ctx \<Rightarrow> (ref_ctx, nat) outcome" where
  "request_pending x a ctx =
     (let rid = rr_refund_id (rf_object a ctx);
          ctx = rf_set_status a RS_PENDING_APPROVAL ctx;
          ctx = rf_touch a ctx
      in (Inr a, rf_audit ''refund_requested_pending_approval'' (ra_marketplace_id x)
            (ra_requested_by x) ''PENDING'' (ra_amount x) (ra_currency x) None rid '''' ctx))"

text \<open>Creation, storage and the \<open>REFUND_REQUESTED\<close> entry.\<close>

definition open_refund :: "refund_args \<Rightarrow> ref_ctx \<Rightarrow> nat \<times> ref_ctx" where
  "open_refund x ctx =
     (case ctx of (R, lg, w) \<Rightarrow>
      case new_refund x w of (r, w') \<Rightarrow>
        (length (rf_heap R),
         rf_append_ledger_entry LT_REFUND_REQUESTED (length (rf_heap R))
           (''refreq_'' @ rr_refund_id r) (rf_store r R, lg, w')))"

definition request_refund ::
  "governance option \<Rightarrow> MarketplaceFinancialPolicy \<Rightarrow> refund_args \<Rightarrow> ref_ctx \<Rightarrow> (ref_ctx, nat) outcome" where
  "request_refund gov pol x ctx =
     (if key_in (ra_idempotency_key x) (fst ` set (rf_by_idempotency (fst ctx))) then
        (Inr (the (dict_get (rf_by_idempotency (fst ctx)) (the (ra_idempotency_key x)))), ctx)
      else case open_refund x ctx of (a, ctx1) \<Rightarrow>
        if \<not> above_threshold pol x \<and> pol_auto_approve_small_refunds pol then request_small gov x a ctx1
        else if above_threshold pol x then request_large gov x a ctx1
        else request_pending x a ctx1)"

section \<open>Approving, rejecting, reading\<close>

text \<open>The governance check of \<open>approve_refund\<close>, which rejects the refund when it is denied.\<close>

definition approve_gate ::
  "governance option \<Rightarrow> MarketplaceFinancialPolicy \<Rightarrow> nat \<Rightarrow> string \<Rightarrow> string \<Rightarrow>
   ref_ctx \<Rightarrow> (ref_ctx, unit) outcome" where
  "approve_gate gov pol a refund_id approver ctx =
     (if \<not> pol_require_governance_for_refund_above_threshold pol then (Inr (), ctx)
      else
       (let r = rf_object a ctx in
        case rf_decide gov approver
               [(''refund_id'', PStr refund_id), (''amount'', PFloat (rr_amount r))]
               [PStr (rr_refund_id r)] ctx of
          (Inl exn, ctx) \<Rightarrow> (Inl exn, ctx)
        | (Inr d, ctx) \<Rightarrow>
          if \<not> gd_allowed d then
            (Inl (ValueError ''Refund approval denied by governance.''),
             rf_audit ''refund_approval_denied'' (rr_marketplace_id r) approver
               ''DENIED'' (rr_amount r) (rr_currency r) (Some (gd_audit_ref d))
               refund_id ''Governance denied refund approval.''
               (rf_touch a (rf_set_status a RS_REJECTED ctx)))
          else (Inr (), rf_modify a (\<lambda>r. r\<lparr>rr_governance_ref := Some (gd_audit_ref d)\<rparr>) ctx)))"

text \<open>The rest of \<open>approve_refund\<close>: approval, the ledger entries, completion and the audit record.\<close>

definition approve_complete ::
  "nat \<Rightarrow> string \<Rightarrow> string option \<Rightarrow> ref_ctx \<Rightarrow> ref_ctx" where
  "approve_complete a approver approval_ref ctx =
     (let ctx = rf_modify a (\<lambda>r. r\<lparr>rr_status := RS_APPROVED,
              rr_approval_ref := Some (opt_or_str approval_ref (''approval:'' @ approver))\<rparr>) ctx;
          ctx = rf_touch a ctx;
          ctx = rf_finish a ctx;
          r = rf_object a ctx
      in rf_audit ''refund_completed'' (rr_marketplace_id r) approver ''OK''
           (rr_amount r) (rr_currency r) None (rr_refund_id r) '''' ctx)"

definition approve_refund ::
  "governance option \<Rightarrow> MarketplaceFinancialPolicy \<Rightarrow> string \<Rightarrow> string \<Rightarrow> string option \<Rightarrow>
   ref_ctx \<Rightarrow> (ref_ctx, nat) outcome" where
  "approve_refund gov pol refund_id approver approval_ref ctx =
     (case dict_get (rf_refunds (fst ctx)) refund_id of
        None \<Rightarrow> (Inl (KeyError (''Refund request not found: '' @ refund_id)), ctx)
      | Some a \<Rightarrow>
        if rr_status (rf_object a ctx) \<noteq> RS_PENDING_APPROVAL then
          (Inl (ValueError ''Refund must be pending approval to approve.''), ctx)
        else case approve_gate gov pol a refund_id approver ctx of
          (Inl exn, ctx) \<Rightarrow> (Inl exn, ctx)
        | (Inr _, ctx) \<Rightarrow> (Inr a, approve_complete a approver approval_ref ctx))"

definition reject_refund ::
  "string \<Rightarrow> string \<Rightarrow> string \<Rightarrow> ref_ctx \<Rightarrow> (ref_ctx, nat) outcome" where
  "reject_refund refund_id approver reason ctx =
     (case dict_get (rf_refunds (fst ctx)) refund_id of
        None \<Rightarrow> (Inl (KeyError (''Refund request not found: '' @ refund_id)), ctx)
      | Some a \<Rightarrow>
        (let r = rf_object a ctx in
         if rr_status r \<noteq> RS_PENDING_APPROVAL then
           (Inl (ValueError ''Refund must be pending approval to reject.''), ctx)
         else
           (let ctx = rf_modify a (\<lambda>r. r\<lparr>rr_status := RS_REJECTED, rr_reason := reason\<rparr>) ctx;
                ctx = rf_touch a ctx
            in (Inr a, rf_audit ''refund_rejected'' (rr_marketplace_id r) approver ''REJECTED''
                  (rr_amount r) (rr_currency r) None refund_id reason ctx))))"

definition get_refund :: "string \<Rightarrow> RefundGovernanceEngine \<Rightarrow> py_exn + nat" where
  "get_refund refund_id R =
     (case dict_get (rf_refunds R) refund_id of
        None \<Rightarrow> Inl (KeyError (''Refund request not found: '' @ refund_id))
      | Some a \<Rightarrow> Inr a)"


section \<open>Frames\<close>

text \<open>What every helper leaves in place: the number and the identity of the objects, the two
  dictionaries, the presence of a ledger, and the direction of time.\<close>

definition same_refund :: "RefundRequest \<Rightarrow> RefundRequest \<Rightarrow> bool" where
  "same_refund r r' \<longleftrightarrow> rr_refund_id r' = rr_refund_id r \<and> rr_marketplace_id r' = rr_marketplace_id r
     \<and> rr_order_id r' = rr_order_id r \<and> rr_amount r' = rr_amount r \<and> rr_currency r' = rr_currency r
     \<and> rr_original_payment_event_id r' = rr_original_payment_event_id r
     \<and> rr_idempotency_key r' = rr_idempotency_key r \<and> rr_created_at r' = rr_created_at r"

lemma same_refund_refl [simp]: "same_refund r r"
  by (simp add: same_refund_def)

lemma same_refund_update [simp]:
  "same_refund r (s\<lparr>rr_status := st\<rparr>) \<longleftrightarrow> same_refund r s"
  "same_refund r (s\<lparr>rr_governance_ref := g\<rparr>) \<longleftrightarrow> same_refund r s"
  "same_refund r (s\<lparr>rr_approval_ref := g\<rparr>) \<longleftrightarrow> same_refund r s"
  "same_refund r (s\<lparr>rr_reason := re\<rparr>) \<longleftrightarrow> same_refund r s"
  "same_refund r (s\<lparr>rr_updated_at := t\<rparr>) \<longleftrightarrow> same_refund r s"
  "same_refund r (s\<lparr>rr_completed_at := ct\<rparr>) \<longleftrightarrow> same_refund r s"
  by (simp_all add: same_refund_def)

lemma same_refund_trans: "same_refund r s \<Longrightarrow> same_refund s t \<Longrightarrow> same_refund r t"
  by (simp add: same_refund_def)

text \<open>\<open>rf_only a c c'\<close>: between the two states only the object at \<open>a\<close> changed, and not its
  identity.\<close>

definition rf_only :: "nat \<Rightarrow> ref_ctx \<Rightarrow> ref_ctx \<Rightarrow> bool" where
  "rf_only a c c' \<longleftrightarrow>
     length (rf_heap (fst c')) = length (rf_heap (fst c))
   \<and> (\<forall>b. b \<noteq> a \<longrightarrow> rf_heap (fst c') ! b = rf_heap (fst c) ! b)
   \<and> same_refund (rf_heap (fst c) ! a) (rf_heap (fst c') ! a)
   \<and> rf_refunds (fst c') = rf_refunds (fst c)
   \<and> rf_by_idempotency (fst c') = rf_by_idempotency (fst c)
   \<and> (fst (snd c') = None \<longleftrightarrow> fst (snd c) = None)
   \<and> world_le (snd (snd c)) (snd (snd c'))"

lemma rf_only_refl [simp]: "rf_only a c c"
  by (simp add: rf_only_def)

lemma rf_only_trans: "rf_only a c d \<Longrightarrow> rf_only a d e \<Longrightarrow> rf_only a c e"
  unfolding rf_only_def using same_refund_trans world_le_trans by (auto; blast)

lemma rf_only_modify:
  assumes "\<And>r. same_refund r (f r)"
  shows "rf_only a c (rf_modify a f c)"
  using assms by (cases c; cases "a < length (rf_heap (fst c))")
    (auto simp: rf_only_def rf_modify_def list_update_beyond)

lemma rf_only_world: "world_le w w' \<Longrightarrow> rf_only a (R, lg, w) (R, lg, w')"
  by (simp add: rf_only_def)

lemma rf_only_touch: "rf_only a c (rf_touch a c)" "rf_only a c (rf_set_completed a c)"
  by (cases c; force simp: rf_touch_def rf_set_completed_def utcnow_def same_refund_def world_le_def
      intro: rf_only_trans[OF rf_only_world rf_only_modify])+

lemma rf_only_status: "rf_only a c (rf_set_status a st c)"
  unfolding rf_set_status_def by (rule rf_only_modify) (simp add: same_refund_def)

lemma rf_only_append: "rf_only a c (rf_append_ledger_entry ty a k c)"
  by (cases c) (auto simp: rf_append_ledger_entry_def rf_only_def split_beta Let_def world_le_def
      ledger_append_world split: option.split)

lemma rf_only_audit: "rf_only a c (rf_audit ac m atr st am cu g ev re c)"
  by (cases c) (auto simp: rf_audit_def rf_only_def split_beta world_le_def split: option.split)

lemmas rf_only_ops = rf_only_trans[OF _ rf_only_append] rf_only_trans[OF _ rf_only_status]
  rf_only_trans[OF _ rf_only_touch(1)] rf_only_trans[OF _ rf_only_touch(2)]
  rf_only_trans[OF _ rf_only_audit] rf_only_trans[OF _ rf_only_modify] rf_only_refl

lemma rf_only_finish: "rf_only a c (rf_finish a c)"
  unfolding rf_finish_def Let_def by (rule rf_only_ops)+

text \<open>The only thing asked of a governance kernel: it does not turn back the supplies.\<close>

definition governance_ok :: "governance option \<Rightarrow> bool" where
  "governance_ok gov \<longleftrightarrow> (\<forall>g act actor ctxt refs w. gov = Some g \<longrightarrow>
     world_le w (snd (g act actor ctxt refs w)))"

lemma new_decision_world:
  "snd (new_decision act actor refs w) = w\<lparr>uuid_n := Suc (uuid_n w), clock_n := Suc (clock_n w)\<rparr>"
  by (simp add: new_decision_def new_id_def utcnow_def Let_def)

lemma governance_ok_default: "governance_ok (Some (default_governance v))" "governance_ok None"
proof -
  have "world_le w (snd (default_governance v act actor ctxt refs w))" for act actor ctxt refs w
    using new_decision_world[of act actor _ w]
    by (auto simp: default_governance_def split: option.split prod.split) (metis snd_conv world_le_draw)
  then show "governance_ok (Some (default_governance v))" by (auto simp: governance_ok_def)
qed (simp add: governance_ok_def)

lemma rf_decide_frame:
  assumes "governance_ok gov" "rf_decide gov actor ctxt refs c = (r, c')"
  shows "fst c' = fst c" "fst (snd c') = fst (snd c)" "world_le (snd (snd c)) (snd (snd c'))"
proof -
  have "world_le w (snd (governance_decision gov act actor ctxt refs w))" for act w
    using assms(1) new_decision_world[of act actor "[]" w]
    by (cases gov) (auto simp: governance_ok_def governance_decision_def split_beta)
  from this[of "snd (snd c)" REFUND_ABOVE_THRESHOLD] assms(2)
  show "fst c' = fst c" "fst (snd c') = fst (snd c)" "world_le (snd (snd c)) (snd (snd c'))"
    by (cases c; auto simp: rf_decide_def split_beta)+
qed

lemma rf_only_decide:
  "governance_ok gov \<Longrightarrow> rf_decide gov actor ctxt refs c = (r, c') \<Longrightarrow> rf_only a c c'"
  using rf_decide_frame by (simp add: rf_only_def)

section \<open>Status transitions\<close>

definition rf_status :: "nat \<Rightarrow> ref_ctx \<Rightarrow> RefundStatus" where
  "rf_status a c = rr_status (rf_object a c)"

abbreviation rf_count :: "ref_ctx \<Rightarrow> nat" where
  "rf_count c \<equiv> length (rf_heap (fst c))"

lemma rf_modify_object:
  "a < rf_count c \<Longrightarrow> rf_object a (rf_modify a f c) = f (rf_object a c)"
  by (cases c) (simp add: rf_object_def rf_modify_def)

lemma rf_modify_rest [simp]:
  "rf_count (rf_modify a f c) = rf_count c" "snd (rf_modify a f c) = snd c"
  by (cases c; simp add: rf_modify_def)+

lemma rf_status_modify:
  "a < rf_count c \<Longrightarrow> rf_status a (rf_modify a f c) = rr_status (f (rf_object a c))"
  by (simp add: rf_status_def rf_modify_object)

lemma rf_status_keep [simp]:
  assumes "a < rf_count c"
  shows "rf_status a (rf_touch a c) = rf_status a c"
    "rf_status a (rf_set_completed a c) = rf_status a c"
  using assms by (cases c; simp add: rf_touch_def rf_set_completed_def split_beta rf_status_modify;
      simp add: rf_status_def rf_object_def)+

lemma rf_append_heap: "rf_heap (fst (rf_append_ledger_entry ty b k c)) = rf_heap (fst c)"
  by (cases c) (auto simp: rf_append_ledger_entry_def split_beta Let_def split: option.split)

lemma rf_audit_heap: "rf_heap (fst (rf_audit ac m atr st am cu g ev re c)) = rf_heap (fst c)"
  by (cases c) (auto simp: rf_audit_def split_beta split: option.split)

lemma rf_status_append [simp]: "rf_status a (rf_append_ledger_entry ty b k c) = rf_status a c"
  by (simp add: rf_status_def rf_object_def rf_append_heap)

lemma rf_status_audit [simp]: "rf_status a (rf_audit ac m atr st am cu g ev re c) = rf_status a c"
  by (simp add: rf_status_def rf_object_def rf_audit_heap)

lemma rf_status_set [simp]: "a < rf_count c \<Longrightarrow> rf_status a (rf_set_status a st c) = st"
  by (simp add: rf_set_status_def rf_status_modify)

lemma rf_count_ops [simp]:
  "rf_count (rf_touch a c) = rf_count c" "rf_count (rf_set_completed a c) = rf_count c"
  "rf_count (rf_set_status a st c) = rf_count c"
  "rf_count (rf_append_ledger_entry ty b k c) = rf_count c"
  "rf_count (rf_audit ac m atr st2 am cu g ev re c) = rf_count c"
  using rf_only_touch rf_only_status rf_append_heap rf_audit_heap by (simp_all add: rf_only_def)

lemma rf_status_finish [simp]: "a < rf_count c \<Longrightarrow> rf_status a (rf_finish a c) = RS_COMPLETED"
  by (simp add: rf_finish_def Let_def)

text \<open>The steps of the engine, each with any arguments and any outcome.\<close>

inductive refund_step ::
  "governance option \<Rightarrow> MarketplaceFinancialPolicy \<Rightarrow> ref_ctx \<Rightarrow> ref_ctx \<Rightarrow> bool"
  for gov pol where
  step_request: "request_refund gov pol x c = (r, c') \<Longrightarrow> refund_step gov pol c c'"
| step_approve: "approve_refund gov pol i approver ref c = (r, c') \<Longrightarrow> refund_step gov pol c c'"
| step_reject: "reject_refund i approver reason c = (r, c') \<Longrightarrow> refund_step gov pol c c'"

text \<open>What the three ways to decide an open request do to the object at \<open>a\<close>.\<close>

lemma rf_modify_only_count: "rf_only a c e \<Longrightarrow> rf_count e = rf_count c"
  by (simp add: rf_only_def)

lemma approve_complete_effect:
  "rf_only a c (approve_complete a approver ref c)"
  "a < rf_count c \<Longrightarrow> rf_status a (approve_complete a approver ref c) = RS_COMPLETED"
proof -
  show "rf_only a c (approve_complete a approver ref c)"
    unfolding approve_complete_def Let_def
    by (rule rf_only_ops rf_only_trans[OF _ rf_only_finish] | simp)+
  show "a < rf_count c \<Longrightarrow> rf_status a (approve_complete a approver ref c) = RS_COMPLETED"
    by (simp add: approve_complete_def Let_def)
qed

lemma approve_gate_effect:
  assumes "governance_ok gov" "approve_gate gov pol a i approver c = (r, c')"
  shows "rf_only a c c'"
    "a < rf_count c \<Longrightarrow> rf_status a c' = rf_status a c \<or> isl r \<and> rf_status a c' = RS_REJECTED"
proof -
  obtain q d where d: "rf_decide gov approver [(''refund_id'', PStr i),
        (''amount'', PFloat (rr_amount (rf_object a c)))] [PStr (rr_refund_id (rf_object a c))] c = (q, d)"
    by (metis surj_pair)
  have o: "rf_only a c d" by (rule rf_only_decide[OF assms(1) d])
  have s: "rf_status a d = rf_status a c" "rf_count d = rf_count c"
    using rf_decide_frame(1)[OF assms(1) d] by (simp_all add: rf_status_def rf_object_def)
  have sm: "a < rf_count c \<Longrightarrow> rf_status a (rf_modify a (\<lambda>r. r\<lparr>rr_governance_ref := g\<rparr>) d) = rf_status a c" for g
    using s by (simp add: rf_status_modify) (simp add: rf_status_def)
  show "rf_only a c c'"
    using assms(2) d o
    by (auto simp: approve_gate_def Let_def split: if_splits sum.splits intro!: rf_only_ops)
  show "a < rf_count c \<Longrightarrow> rf_status a c' = rf_status a c \<or> isl r \<and> rf_status a c' = RS_REJECTED"
    using assms(2) d s sm
    by (auto simp: approve_gate_def Let_def split: if_splits sum.splits)
qed

lemma approve_refund_effect:
  assumes "governance_ok gov" "approve_refund gov pol i approver ref c = (r, c')"
  shows "c' = c \<or> (\<exists>a. dict_get (rf_refunds (fst c)) i = Some a
      \<and> rf_status a c = RS_PENDING_APPROVAL \<and> rf_only a c c'
      \<and> (a < rf_count c \<longrightarrow> rf_status a c' \<in> {RS_PENDING_APPROVAL, RS_REJECTED, RS_COMPLETED}))"
proof (cases "\<exists>a. dict_get (rf_refunds (fst c)) i = Some a \<and> rf_status a c = RS_PENDING_APPROVAL")
  case False
  then show ?thesis using assms(2)
    by (auto simp: approve_refund_def rf_status_def split: option.splits if_splits)
next
  case True
  then obtain a where a: "dict_get (rf_refunds (fst c)) i = Some a" "rf_status a c = RS_PENDING_APPROVAL"
    by blast
  obtain q d where g: "approve_gate gov pol a i approver c = (q, d)" by (metis surj_pair)
  note G = approve_gate_effect[OF assms(1) g]
  have n: "rf_count d = rf_count c" using G(1) by (simp add: rf_only_def)
  have "r = Inr a \<and> c' = approve_complete a approver ref d \<or> isl q \<and> c' = d"
    using assms(2) a g by (auto simp: approve_refund_def rf_status_def split: sum.splits)
  then have "rf_only a c c' \<and>
      (a < rf_count c \<longrightarrow> rf_status a c' \<in> {RS_PENDING_APPROVAL, RS_REJECTED, RS_COMPLETED})"
    using G a n approve_complete_effect(2)[of a d] rf_only_trans[OF G(1) approve_complete_effect(1)]
    by auto
  then show ?thesis using a by blast
qed

lemma reject_refund_effect:
  assumes "reject_refund i approver reason c = (r, c')"
  shows "c' = c \<or> (\<exists>a. dict_get (rf_refunds (fst c)) i = Some a
      \<and> rf_status a c = RS_PENDING_APPROVAL \<and> rf_only a c c'
      \<and> (a < rf_count c \<longrightarrow> rf_status a c' = RS_REJECTED))"
  using assms
  by (auto simp: reject_refund_def Let_def rf_status_def[symmetric] rf_status_modify
      split: option.splits if_splits intro!: rf_only_ops)

lemma open_refund_effect:
  assumes "open_refund x c = (a, c')"
  shows "a = rf_count c" "rf_count c' = Suc (rf_count c)" "rf_status a c' = RS_REQUESTED"
    "\<And>b. b < rf_count c \<Longrightarrow> rf_object b c' = rf_object b c"
    "world_le (snd (snd c)) (snd (snd c'))" "fst (snd c') = None \<longleftrightarrow> fst (snd c) = None"
proof -
  obtain R lg w where c: "c = (R, lg, w)" by (cases c)
  obtain r w' where n: "new_refund x w = (r, w')" by (metis surj_pair)
  have r: "rr_status r = RS_REQUESTED" "world_le w w'"
    using n by (auto simp: new_refund_def new_id_def utcnow_def Let_def world_le_def)
  let ?d = "(rf_store r R, lg, w')"
  have c': "a = length (rf_heap R)"
      "c' = rf_append_ledger_entry LT_REFUND_REQUESTED a (''refreq_'' @ rr_refund_id r) ?d"
    using assms n by (auto simp add: open_refund_def c)
  have h: "rf_heap (rf_store r R) = rf_heap R @ [r]"
    by (simp add: rf_store_def Let_def)
  have o: "rf_only a ?d c'" unfolding c'(2) by (rule rf_only_append)
  show "a = rf_count c" "rf_count c' = Suc (rf_count c)" "rf_status a c' = RS_REQUESTED"
    using r(1) h by (simp_all add: c' c) (simp add: rf_status_def rf_object_def)
  show "rf_object b c' = rf_object b c" if "b < rf_count c" for b
    using that h by (simp add: c'(2) c rf_object_def rf_append_heap nth_append)
  show "world_le (snd (snd c)) (snd (snd c'))" "fst (snd c') = None \<longleftrightarrow> fst (snd c) = None"
    using o world_le_trans[OF r(2)] by (simp_all add: rf_only_def c)
qed

text \<open>A decision on a request just opened touches only the new object.\<close>

lemma request_decide_effect:
  assumes "governance_ok gov"
  shows "request_small gov x a c = (r, c') \<Longrightarrow> rf_only a c c'"
    "request_large gov x a c = (r, c') \<Longrightarrow> rf_only a c c'"
    "request_pending x a c = (r, c') \<Longrightarrow> rf_only a c c'"
proof -
  assume s: "request_small gov x a c = (r, c')"
  obtain q d where d: "rf_decide gov (ra_requested_by x)
             [(''refund_id'', PStr (rr_refund_id (rf_object a c))), (''amount'', PFloat (ra_amount x)),
              (''currency'', PStr (ra_currency x))] [PStr (rr_refund_id (rf_object a c))] c = (q, d)"
    by (metis surj_pair)
  note o = rf_only_decide[OF assms d, of a]
  show "rf_only a c c'" using s d o
    by (auto simp: request_small_def Let_def split: sum.splits if_splits
        intro!: rf_only_ops rf_only_trans[OF _ rf_only_finish])
next
  assume s: "request_large gov x a c = (r, c')"
  obtain q d where d: "rf_decide gov (ra_requested_by x)
             [(''refund_id'', PStr (rr_refund_id (rf_object a c))), (''amount'', PFloat (ra_amount x)),
              (''currency'', PStr (ra_currency x)), (''order_id'', PStr (ra_order_id x))]
             [PStr (rr_refund_id (rf_object a c)), of_opt (ra_original_payment_event_id x)] c = (q, d)"
    by (metis surj_pair)
  note o = rf_only_decide[OF assms d, of a]
  show "rf_only a c c'" using s d o
    by (auto simp: request_large_def Let_def split: sum.splits if_splits intro!: rf_only_ops)
qed (auto simp: request_pending_def Let_def intro!: rf_only_ops)

lemma request_refund_effect:
  assumes "governance_ok gov" "request_refund gov pol x c = (r, c')"
  shows "c' = c \<or> (\<exists>c1. open_refund x c = (rf_count c, c1) \<and> rf_only (rf_count c) c1 c')"
proof (cases "key_in (ra_idempotency_key x) (fst ` set (rf_by_idempotency (fst c)))")
  case True
  then show ?thesis using assms(2) by (simp add: request_refund_def)
next
  case False
  obtain a c1 where o: "open_refund x c = (a, c1)" by (metis surj_pair)
  from open_refund_effect(1)[OF o] o False assms(2) request_decide_effect[OF assms(1)]
  show ?thesis by (auto simp: request_refund_def split: if_splits)
qed

lemma rf_only_object:
  assumes "rf_only b c c'"
  shows "rf_count c' = rf_count c" "same_refund (rf_object a c) (rf_object a c')"
    "a \<noteq> b \<Longrightarrow> rf_object a c' = rf_object a c"
  using assms by (cases "a = b"; simp add: rf_only_def rf_object_def)+

text \<open>One step, seen from an object that exists before it.\<close>

lemma refund_step_object:
  assumes "governance_ok gov" "refund_step gov pol c c'" "a < rf_count c"
  shows "rf_count c \<le> rf_count c' \<and> same_refund (rf_object a c) (rf_object a c') \<and>
     (rf_object a c' = rf_object a c \<or> rf_status a c = RS_PENDING_APPROVAL
        \<and> rf_status a c' \<in> {RS_PENDING_APPROVAL, RS_REJECTED, RS_COMPLETED})"
  using assms(2)
proof (cases rule: refund_step.cases)
  case (step_request x r)
  from request_refund_effect[OF assms(1) step_request] show ?thesis
  proof
    assume "\<exists>c1. open_refund x c = (rf_count c, c1) \<and> rf_only (rf_count c) c1 c'"
    then obtain c1 where c1: "open_refund x c = (rf_count c, c1)" "rf_only (rf_count c) c1 c'" by blast
    from open_refund_effect[OF c1(1)] assms(3) c1(2) show ?thesis
      by (auto simp: rf_only_def rf_object_def)
  qed simp
next
  case (step_approve i approver ref r)
  from approve_refund_effect[OF assms(1) step_approve] show ?thesis
  proof
    assume "\<exists>b. dict_get (rf_refunds (fst c)) i = Some b \<and> rf_status b c = RS_PENDING_APPROVAL
      \<and> rf_only b c c'
      \<and> (b < rf_count c \<longrightarrow> rf_status b c' \<in> {RS_PENDING_APPROVAL, RS_REJECTED, RS_COMPLETED})"
    then obtain b where "rf_status b c = RS_PENDING_APPROVAL" "rf_only b c c'"
      "b < rf_count c \<longrightarrow> rf_status b c' \<in> {RS_PENDING_APPROVAL, RS_REJECTED, RS_COMPLETED}" by blast
    then show ?thesis using assms(3) rf_only_object(1)[of b c c'] rf_only_object(2,3)[of b c c' a] by (cases "a = b") auto
  qed simp
next
  case (step_reject i approver reason r)
  from reject_refund_effect[OF step_reject] show ?thesis
  proof
    assume "\<exists>b. dict_get (rf_refunds (fst c)) i = Some b \<and> rf_status b c = RS_PENDING_APPROVAL
      \<and> rf_only b c c' \<and> (b < rf_count c \<longrightarrow> rf_status b c' = RS_REJECTED)"
    then obtain b where "rf_status b c = RS_PENDING_APPROVAL" "rf_only b c c'"
      "b < rf_count c \<longrightarrow> rf_status b c' = RS_REJECTED" by blast
    then show ?thesis using assms(3) rf_only_object(1)[of b c c'] rf_only_object(2,3)[of b c c' a] by (cases "a = b") auto
  qed simp
qed

section \<open>The ledger follows the refunds\<close>

text \<open>The entries of one type that refer to one refund, and what they should be.\<close>

definition refund_entries ::
  "string \<Rightarrow> LedgerEntryType \<Rightarrow> FinancialLedgerEntry list \<Rightarrow> (pyfloat \<times> string) list" where
  "refund_entries i ty es = map (\<lambda>e. (le_amount e, le_currency e))
     (filter (\<lambda>e. le_entry_type e = ty \<and> le_evidence_ref e = Some i) es)"

definition expected_entries :: "RefundRequest \<Rightarrow> LedgerEntryType \<Rightarrow> (pyfloat \<times> string) list" where
  "expected_entries r ty =
     (if ty = LT_REFUND_REQUESTED
         \<or> (ty = LT_REFUND_APPROVED \<or> ty = LT_REFUND_COMPLETED) \<and> rr_status r = RS_COMPLETED
      then [(rr_amount r, rr_currency r)] else [])"

definition refund_keys :: "RefundRequest \<Rightarrow> string set" where
  "refund_keys r = {''refreq_'' @ rr_refund_id r} \<union>
     (if rr_status r = RS_COMPLETED
      then {''refapp_'' @ rr_refund_id r, ''refcomp_'' @ rr_refund_id r} else {})"

definition refund_books :: "RefundRequest list \<Rightarrow> FinancialLedgerEngine \<Rightarrow> world \<Rightarrow> bool" where
  "refund_books H L w \<longleftrightarrow>
     ledger_wf L
   \<and> le_ledger_id ` set (dict_values (lg_entries L)) \<subseteq> drawn ''le'' w
   \<and> rr_refund_id ` set H \<subseteq> drawn ''refund'' w
   \<and> distinct (map rr_refund_id H)
   \<and> lg_idempotency_keys L = (\<Union>r \<in> set H. refund_keys r)
   \<and> le_evidence_ref ` set (dict_values (lg_entries L)) \<subseteq> Some ` rr_refund_id ` set H
   \<and> (\<forall>r \<in> set H. \<forall>ty. refund_entries (rr_refund_id r) ty (dict_values (lg_entries L))
          = expected_entries r ty)"

text \<open>An append with a new key and a new identifier, at the level of the entry list.\<close>

lemma rf_append_run:
  assumes "ledger_wf L" "le_ledger_id ` set (dict_values (lg_entries L)) \<subseteq> drawn ''le'' w"
    and "rf_append_ledger_entry ty a k (R, Some L, w) = (R', lg', w')" "ids_ok w'"
    and "k \<noteq> []" "k \<notin> lg_idempotency_keys L"
  obtains L' e where "R' = R" "lg' = Some L'" "ledger_wf L'" "world_le w w'"
    "le_ledger_id ` set (dict_values (lg_entries L')) \<subseteq> drawn ''le'' w'"
    "lg_idempotency_keys L' = insert k (lg_idempotency_keys L)"
    "dict_values (lg_entries L') = dict_values (lg_entries L) @ [e]"
    "le_entry_type e = ty" "le_amount e = rr_amount (rf_heap R ! a)"
    "le_currency e = rr_currency (rf_heap R ! a)"
    "le_evidence_ref e = Some (rr_refund_id (rf_heap R ! a))"
proof -
  let ?r = "rf_heap R ! a"
  let ?n = "new_ledger_entry (rr_marketplace_id ?r) (Some (rr_order_id ?r)) (Some (rr_listing_id ?r))
                (Some (rr_tenant_id ?r)) ty (rr_amount ?r) (rr_currency ?r)
                (ledger_entry_type_value ty) (Some k) (rr_original_payment_event_id ?r)
                (Some (rr_refund_id ?r)) w"
  let ?e = "fst ?n" and ?w1 = "snd ?n"
  let ?L = "fst (snd (ledger_append ?e L ?w1))"
  have R: "R' = R" "lg' = Some ?L" "w' = snd (snd (ledger_append ?e L ?w1))"
    using assms(3) by (auto simp add: rf_append_ledger_entry_def Let_def split_beta)
  have k: "\<not> key_in (le_idempotency_key ?e) (lg_idempotency_keys L)"
    using assms(6) by (simp add: key_in_def)
  have w': "world_le w w'" "uuid_n w < uuid_n w'"
    using assms(5) by (simp_all add: R(3) ledger_append_world world_le_def)
  have i: "le_ledger_id ?e = ''le'' @ ''_'' @ id_at w (uuid_n w)" by simp
  have f: "le_ledger_id ?e \<notin> le_ledger_id ` set (dict_values (lg_entries L))"
    using id_fresh[OF w' assms(4), of "''le''"] assms(2) unfolding i by blast
  note v = ledger_append_log[OF assms(1) k f, of ?w1]
  show thesis
  proof (rule that[of ?L ?e, OF R(1,2)])
    show "ledger_wf ?L" by (rule ledger_wf_append[OF assms(1)])
    show "le_ledger_id ` set (dict_values (lg_entries ?L)) \<subseteq> drawn ''le'' w'"
      using assms(2) drawn_mono[OF w'(1), of "''le''"] drawn_next[OF w', of "''le''"] i
      unfolding v by auto
    show "lg_idempotency_keys ?L = insert k (lg_idempotency_keys L)"
      using assms(5) ledger_append_new(3)[OF k, of ?w1] by (simp add: key_set_def)
  qed (use v w' in simp_all)
qed

lemma refund_books_world: "refund_books H L w \<Longrightarrow> world_le w w' \<Longrightarrow> refund_books H L w'"
  unfolding refund_books_def
  by (elim conjE, intro conjI) (assumption | erule subset_trans, erule drawn_mono)+

lemma refund_books_audit [simp]: "refund_books H (ledger_record_audit ev L) w \<longleftrightarrow> refund_books H L w"
  by (simp add: refund_books_def ledger_wf_def)

text \<open>An update of one object that keeps its identity and whether it is completed.\<close>

lemma refund_books_update:
  assumes "refund_books H L w" "same_refund (H ! a) r"
    and "rr_status r = RS_COMPLETED \<longleftrightarrow> rr_status (H ! a) = RS_COMPLETED"
  shows "refund_books (H[a := r]) L w"
proof (cases "a < length H")
  case True
  have r: "rr_refund_id r = rr_refund_id (H ! a)" "refund_keys r = refund_keys (H ! a)"
    "expected_entries r ty = expected_entries (H ! a) ty" for ty
    using assms(2,3) by (simp_all add: same_refund_def refund_keys_def expected_entries_def)
  have ids: "map rr_refund_id (H[a := r]) = map rr_refund_id H"
    using r(1) True by (simp add: map_update list_update_same_conv)
  have keys: "map refund_keys (H[a := r]) = map refund_keys H"
    using r(2) True by (simp add: map_update list_update_same_conv)
  have im: "rr_refund_id ` set (H[a := r]) = rr_refund_id ` set H"
      "refund_keys ` set (H[a := r]) = refund_keys ` set H"
    using ids keys by (metis list.set_map)+
  have all: "\<forall>q \<in> set (H[a := r]). \<forall>ty. refund_entries (rr_refund_id q) ty (dict_values (lg_entries L))
      = expected_entries q ty"
  proof
    fix q assume "q \<in> set (H[a := r])"
    then have "q = r \<or> q \<in> set H" using set_update_subset_insert[of H a r] by blast
    then show "\<forall>ty. refund_entries (rr_refund_id q) ty (dict_values (lg_entries L))
        = expected_entries q ty"
      using assms(1) True unfolding refund_books_def by (auto simp: r)
  qed
  show ?thesis
    using assms(1) all unfolding refund_books_def ids im by (elim conjE, intro conjI)
qed (use assms(1) in \<open>simp add: list_update_beyond\<close>)

text \<open>A new request with its \<open>REFUND_REQUESTED\<close> entry.\<close>

lemma refund_entries_append:
  "refund_entries i ty (es @ fs) = refund_entries i ty es @ refund_entries i ty fs"
  "refund_entries i ty (e # es) =
     (if le_entry_type e = ty \<and> le_evidence_ref e = Some i then [(le_amount e, le_currency e)] else [])
     @ refund_entries i ty es"
  "refund_entries i ty [] = []"
  by (simp_all add: refund_entries_def)

lemma refund_entries_none:
  "Some i \<notin> le_evidence_ref ` set es \<Longrightarrow> refund_entries i ty es = []"
  by (force simp: refund_entries_def filter_empty_conv)

lemma refund_books_open:
  assumes "refund_books (rf_heap R) L w" "open_refund x (R, Some L, w) = (a, c')"
    and "ids_ok (snd (snd c'))"
  shows "\<exists>R' L' w'. c' = (R', Some L', w') \<and> refund_books (rf_heap R') L' w'"
proof -
  obtain r w1 where n: "new_refund x w = (r, w1)" by (metis surj_pair)
  have r: "rr_status r = RS_REQUESTED" "rr_refund_id r = ''refund'' @ ''_'' @ id_at w (uuid_n w)"
    and w1: "world_le w w1" "uuid_n w < uuid_n w1"
    using n by (auto simp: new_refund_def new_id_def utcnow_def Let_def world_le_def id_at_def)
  have h: "rf_heap (rf_store r R) = rf_heap R @ [r]" by (simp add: rf_store_def Let_def)
  let ?H = "rf_heap R"
  obtain R' lg' w' where c': "c' = (R', lg', w')" by (cases c')
  have run: "rf_append_ledger_entry LT_REFUND_REQUESTED (length ?H)
        (''refreq_'' @ rr_refund_id r) (rf_store r R, Some L, w1) = (R', lg', w')"
    using assms(2) n by (auto simp add: open_refund_def c')
  have ok: "ids_ok w'" using assms(3) by (simp add: c')
  have "world_le w1 w'"
    using rf_only_append[of "length ?H" "(rf_store r R, Some L, w1)" LT_REFUND_REQUESTED
        "''refreq_'' @ rr_refund_id r"] unfolding run by (simp add: rf_only_def)
  then have "ids_ok w1" using ok by (rule ids_ok_before)
  then have new: "rr_refund_id r \<notin> rr_refund_id ` set ?H"
    using id_fresh[OF w1, of "''refund''"] assms(1) unfolding r(2) refund_books_def by blast
  have B: "ledger_wf L" "le_ledger_id ` set (dict_values (lg_entries L)) \<subseteq> drawn ''le'' w1"
      "''refreq_'' @ rr_refund_id r \<notin> lg_idempotency_keys L"
    using assms(1) drawn_mono[OF w1(1), of "''le''"] new unfolding refund_books_def
    by (auto simp: refund_keys_def split: if_splits)
  from rf_append_run[OF B(1,2) run ok _ B(3)] obtain L' e where
    L': "R' = rf_store r R" "lg' = Some L'" "ledger_wf L'" "world_le w1 w'"
    "le_ledger_id ` set (dict_values (lg_entries L')) \<subseteq> drawn ''le'' w'"
    "lg_idempotency_keys L' = insert (''refreq_'' @ rr_refund_id r) (lg_idempotency_keys L)"
    "dict_values (lg_entries L') = dict_values (lg_entries L) @ [e]"
    "le_entry_type e = LT_REFUND_REQUESTED" "le_amount e = rr_amount r"
    "le_currency e = rr_currency r" "le_evidence_ref e = Some (rr_refund_id r)"
    by (auto simp: h)
  have "rr_refund_id r \<in> drawn ''refund'' w'"
    using drawn_next[OF w1, of "''refund''"] drawn_mono[OF L'(4)] r(2) by auto
  moreover have "drawn ''refund'' w \<subseteq> drawn ''refund'' w'"
    using drawn_mono[OF world_le_trans[OF w1(1) L'(4)]] .
  moreover have "refund_entries (rr_refund_id r) ty (dict_values (lg_entries L)) = []" for ty
    using assms(1) new by (intro refund_entries_none) (auto simp: refund_books_def)
  ultimately have "refund_books (?H @ [r]) L' w'"
    using assms(1) L' new r(1)
    unfolding refund_books_def
    by (auto simp: refund_entries_append expected_entries_def refund_keys_def)
  then show ?thesis using L'(1,2) h c' by auto
qed

text \<open>Completion: both entries are new, and the object is completed.\<close>

lemma rf_ledger_ops [simp]:
  "fst (snd (rf_touch a c)) = fst (snd c)" "fst (snd (rf_set_completed a c)) = fst (snd c)"
  "snd (rf_set_status a st c) = snd c"
  by (cases c; simp add: rf_touch_def rf_set_completed_def rf_set_status_def split_beta)+

lemma rf_only_heap:
  assumes "rf_only a c c'" "a < rf_count c"
  shows "rf_heap (fst c') = (rf_heap (fst c))[a := rf_object a c']"
  using assms by (intro nth_equalityI) (auto simp: rf_only_def rf_object_def nth_list_update)

lemma refund_books_complete:
  assumes "refund_books H L w" "a < length H" "rr_status (H ! a) \<noteq> RS_COMPLETED"
    and "same_refund (H ! a) r" "rr_status r = RS_COMPLETED"
    and "world_le w w'" "ledger_wf L'" "le_ledger_id ` set (dict_values (lg_entries L')) \<subseteq> drawn ''le'' w'"
    and "lg_idempotency_keys L' = {''refapp_'' @ rr_refund_id r, ''refcomp_'' @ rr_refund_id r}
           \<union> lg_idempotency_keys L"
    and "dict_values (lg_entries L') = dict_values (lg_entries L) @ [e1] @ [e2]"
    and "le_entry_type e1 = LT_REFUND_APPROVED" "le_entry_type e2 = LT_REFUND_COMPLETED"
    and "\<forall>e \<in> {e1, e2}. le_amount e = rr_amount r \<and> le_currency e = rr_currency r
           \<and> le_evidence_ref e = Some (rr_refund_id r)"
  shows "refund_books (H[a := r]) L' w'"
proof -
  have ra: "rr_refund_id r = rr_refund_id (H ! a)" "rr_amount r = rr_amount (H ! a)"
      "rr_currency r = rr_currency (H ! a)"
    using assms(4) by (simp_all add: same_refund_def)
  have ids: "map rr_refund_id (H[a := r]) = map rr_refund_id H"
    using ra(1) assms(2) by (simp add: map_update list_update_same_conv)
  then have im: "rr_refund_id ` set (H[a := r]) = rr_refund_id ` set H"
    by (metis list.set_map)
  have d: "distinct (map rr_refund_id H)" using assms(1) by (simp add: refund_books_def)
  have other: "rr_refund_id (H ! b) \<noteq> rr_refund_id r" if "b < length H" "b \<noteq> a" for b
    using d that assms(2) nth_eq_iff_index_eq[OF d, of a b] by (simp add: ra)
  have keys: "(\<Union>r \<in> set (H[a := r]). refund_keys r) =
      {''refapp_'' @ rr_refund_id r, ''refcomp_'' @ rr_refund_id r} \<union> (\<Union>r \<in> set H. refund_keys r)"
  proof -
    have "refund_keys r = {''refapp_'' @ rr_refund_id r, ''refcomp_'' @ rr_refund_id r} \<union> refund_keys (H ! a)"
      using assms(3,5) by (auto simp: refund_keys_def ra)
    then show ?thesis
      using set_update_split[OF assms(2), of r] set_update_split[OF assms(2), of "H ! a"] by auto
  qed
  have books: "refund_entries (rr_refund_id (H ! b)) ty (dict_values (lg_entries L)) = expected_entries (H ! b) ty"
    if "b < length H" for b ty
    using assms(1) that by (simp add: refund_books_def)
  have all: "refund_entries (rr_refund_id q) ty (dict_values (lg_entries L')) = expected_entries q ty"
    if "q \<in> set (H[a := r])" for q ty
  proof -
    from that obtain b where b: "b < length H" "q = H[a := r] ! b"
      by (auto simp: set_conv_nth)
    show ?thesis
    proof (cases "b = a")
      case True
      then show ?thesis using b books[of a ty] assms(2,3,5,10-13)
        by (auto simp: refund_entries_append expected_entries_def ra)
    next
      case False
      then show ?thesis using b books[of b ty] other[of b] assms(10,13)
        by (auto simp: refund_entries_append)
    qed
  qed
  have "rr_refund_id r \<in> rr_refund_id ` set H" using assms(2) ra(1) by simp
  then have "le_evidence_ref ` set (dict_values (lg_entries L')) \<subseteq> Some ` rr_refund_id ` set H"
    using assms(1,10,13) by (auto simp: refund_books_def)
  moreover have "rr_refund_id ` set H \<subseteq> drawn ''refund'' w'"
    using assms(1) drawn_mono[OF assms(6), of "''refund''"] by (auto simp: refund_books_def)
  ultimately show ?thesis
    unfolding refund_books_def ids im keys using assms(1,7,8,9) d all
    by (simp add: refund_books_def)
qed

lemma refund_books_finish:
  assumes "refund_books (rf_heap R) L w" "a < length (rf_heap R)"
    and "rr_status (rf_heap R ! a) \<noteq> RS_COMPLETED"
    and "rf_finish a (R, Some L, w) = c'" "ids_ok (snd (snd c'))"
  shows "\<exists>R' L' w'. c' = (R', Some L', w') \<and> refund_books (rf_heap R') L' w'"
proof -
  let ?H = "rf_heap R" and ?i = "rr_refund_id (rf_heap R ! a)"
  define c1 where "c1 = rf_append_ledger_entry LT_REFUND_APPROVED a (''refapp_'' @ ?i) (R, Some L, w)"
  define c4 where "c4 = rf_touch a (rf_set_completed a (rf_set_status a RS_COMPLETED c1))"
  have c': "c' = rf_append_ledger_entry LT_REFUND_COMPLETED a (''refcomp_'' @ ?i) c4"
    using assms(4) by (simp add: rf_finish_def c1_def c4_def rf_object_def Let_def)
  have n1: "rf_heap (fst c1) = ?H" by (simp add: c1_def rf_append_heap)
  have o4: "rf_only a c1 c4" unfolding c4_def by (rule rf_only_ops)+
  have s4: "rf_status a c4 = RS_COMPLETED" using n1 assms(2) by (simp add: c4_def)
  obtain R1 lg1 w1 R4 lg4 w4 R5 lg5 w5 where cs: "c1 = (R1, lg1, w1)" "c4 = (R4, lg4, w4)"
    "c' = (R5, lg5, w5)" by (metis prod.exhaust)
  have w: "world_le w1 w4" "world_le w4 w5"
    using o4 rf_only_append[of a c4 LT_REFUND_COMPLETED "''refcomp_'' @ ?i"]
    unfolding c'[symmetric] by (simp_all add: cs rf_only_def)
  have ok: "ids_ok w5" "ids_ok w1"
    using assms(5) ids_ok_before[OF world_le_trans[OF w]] by (simp_all add: cs)
  have B: "ledger_wf L" "le_ledger_id ` set (dict_values (lg_entries L)) \<subseteq> drawn ''le'' w"
      "distinct (map rr_refund_id ?H)" "lg_idempotency_keys L = (\<Union>r \<in> set ?H. refund_keys r)"
    using assms(1) by (simp_all add: refund_books_def)
  have "r = ?H ! a" if "r \<in> set ?H" "rr_refund_id r = ?i" for r
    using that B(3) assms(2) by (simp add: distinct_map inj_on_def)
  then have k: "''refapp_'' @ ?i \<notin> lg_idempotency_keys L" "''refcomp_'' @ ?i \<notin> lg_idempotency_keys L"
    using assms(3) unfolding B(4) by (auto simp: refund_keys_def split: if_splits)
  from rf_append_run[OF B(1,2) c1_def[symmetric, unfolded cs(1)] ok(2) _ k(1)]
  obtain L1 e1 where L1: "R1 = R" "lg1 = Some L1" "ledger_wf L1" "world_le w w1"
    "le_ledger_id ` set (dict_values (lg_entries L1)) \<subseteq> drawn ''le'' w1"
    "lg_idempotency_keys L1 = insert (''refapp_'' @ ?i) (lg_idempotency_keys L)"
    "dict_values (lg_entries L1) = dict_values (lg_entries L) @ [e1]"
    "le_entry_type e1 = LT_REFUND_APPROVED" "le_amount e1 = rr_amount (?H ! a)"
    "le_currency e1 = rr_currency (?H ! a)" "le_evidence_ref e1 = Some ?i"
    by blast
  have lg4: "lg4 = Some L1" using arg_cong[OF c4_def, of "\<lambda>c. fst (snd c)"] cs L1(2) by simp
  let ?r = "rf_heap R4 ! a"
  have h4: "rf_heap R4 = ?H[a := ?r]" and r4: "same_refund (?H ! a) ?r" "rr_status ?r = RS_COMPLETED"
    using rf_only_heap[OF o4] o4 s4 n1 assms(2) cs
    by (simp_all add: rf_object_def rf_status_def rf_only_def L1(1))
  have le4: "le_ledger_id ` set (dict_values (lg_entries L1)) \<subseteq> drawn ''le'' w4"
    using L1(5) drawn_mono[OF w(1)] by blast
  have k2: "''refcomp_'' @ ?i \<notin> lg_idempotency_keys L1" using k(2) by (simp add: L1(6))
  from rf_append_run[OF L1(3) le4 c'[symmetric, unfolded cs(2,3) lg4] ok(1) _ k2]
  obtain L5 e2 where L5: "R5 = R4" "lg5 = Some L5" "ledger_wf L5"
    "le_ledger_id ` set (dict_values (lg_entries L5)) \<subseteq> drawn ''le'' w5"
    "lg_idempotency_keys L5 = insert (''refcomp_'' @ ?i) (lg_idempotency_keys L1)"
    "dict_values (lg_entries L5) = dict_values (lg_entries L1) @ [e2]"
    "le_entry_type e2 = LT_REFUND_COMPLETED" "le_amount e2 = rr_amount ?r"
    "le_currency e2 = rr_currency ?r" "le_evidence_ref e2 = Some (rr_refund_id ?r)"
    by blast
  have "refund_books (?H[a := ?r]) L5 w5"
    by (rule refund_books_complete[OF assms(1-3) r4, of w5 L5 e1 e2])
      (use L1 L5 r4(1) world_le_trans[OF L1(4) world_le_trans[OF w]] in \<open>auto simp: same_refund_def\<close>)
  then show ?thesis using cs(3) L5(1,2) h4 by auto
qed

section \<open>The invariant of the engine\<close>

definition refund_good :: "ref_ctx \<Rightarrow> bool" where
  "refund_good c \<longleftrightarrow> (\<exists>L. fst (snd c) = Some L \<and> refund_books (rf_heap (fst c)) L (snd (snd c)))"

text \<open>Both dictionaries lead to the object that carries the key.\<close>

definition refund_index_ok :: "RefundGovernanceEngine \<Rightarrow> bool" where
  "refund_index_ok R \<longleftrightarrow>
     (\<forall>(i, a) \<in> set (rf_refunds R). a < length (rf_heap R) \<and> rr_refund_id (rf_heap R ! a) = i)
   \<and> (\<forall>(k, a) \<in> set (rf_by_idempotency R). a < length (rf_heap R) \<and> rr_idempotency_key (rf_heap R ! a) = Some k)"

definition refund_inv :: "ref_ctx \<Rightarrow> bool" where
  "refund_inv c \<longleftrightarrow> refund_good c \<and> refund_index_ok (fst c)"

lemma refund_inv_init: "refund_inv (refund_init, Some ledger_init, w)"
  by (simp add: refund_inv_def refund_good_def refund_index_ok_def refund_init_def refund_books_def
      ledger_wf_init) (simp add: ledger_init_def)

lemma refund_index_only:
  assumes "rf_only a c c'" "refund_index_ok (fst c)"
  shows "refund_index_ok (fst c')"
proof -
  have "same_refund (rf_heap (fst c) ! b) (rf_heap (fst c') ! b)" for b
    using rf_only_object(2)[OF assms(1), of b] by (simp add: rf_object_def)
  then show ?thesis
    using assms by (auto simp: refund_index_ok_def rf_only_def same_refund_def)
qed

lemma refund_index_store:
  assumes "refund_index_ok R"
  shows "refund_index_ok (rf_store r R)"
proof -
  let ?a = "length (rf_heap R)"
  have old: "a < length (rf_heap (rf_store r R)) \<and> rf_heap (rf_store r R) ! a = rf_heap R ! a"
    if "a < length (rf_heap R)" for a
    using that by (simp add: rf_store_def Let_def nth_append)
  have new: "?a < length (rf_heap (rf_store r R))" "rf_heap (rf_store r R) ! ?a = r"
    by (simp_all add: rf_store_def Let_def)
  have oldR: "a < length (rf_heap R) \<and> rr_refund_id (rf_heap R ! a) = i"
    if "(i, a) \<in> set (rf_refunds R)" for i a
    using assms that by (auto simp: refund_index_ok_def)
  have oldK: "a < length (rf_heap R) \<and> rr_idempotency_key (rf_heap R ! a) = Some k"
    if "(k, a) \<in> set (rf_by_idempotency R)" for k a
    using assms that by (auto simp: refund_index_ok_def)
  have S: "set (rf_refunds (rf_store r R)) \<subseteq> insert (rr_refund_id r, ?a) (set (rf_refunds R))"
    using set_dict_set by (simp add: rf_store_def Let_def)
  have K: "set (rf_by_idempotency (rf_store r R)) \<subseteq>
      {(k, ?a) | k. rr_idempotency_key r = Some k} \<union> set (rf_by_idempotency R)"
    using set_dict_set[of "the (rr_idempotency_key r)" ?a "rf_by_idempotency R"]
    by (auto simp: rf_store_def Let_def elim!: opt_truthyE)
  show ?thesis
    unfolding refund_index_ok_def
  proof (intro conjI ballI, goal_cases)
    case (1 p)
    with S have "p = (rr_refund_id r, ?a) \<or> p \<in> set (rf_refunds R)" by blast
    then show ?case using old new by (cases p) (auto dest: oldR)
  next
    case (2 p)
    with K have "p \<in> {(k, ?a) | k. rr_idempotency_key r = Some k} \<or> p \<in> set (rf_by_idempotency R)"
      by blast
    then show ?case using old new by (cases p) (auto dest: oldK)
  qed
qed

lemma refund_good_modify:
  assumes "refund_good c" "same_refund (rf_object a c) (f (rf_object a c))"
    and "rr_status (f (rf_object a c)) = RS_COMPLETED \<longleftrightarrow> rr_status (rf_object a c) = RS_COMPLETED"
  shows "refund_good (rf_modify a f c)"
  using assms refund_books_update[of "rf_heap (fst c)" _ "snd (snd c)" a]
  by (cases c) (auto simp: refund_good_def rf_modify_def rf_object_def)

lemma refund_good_world:
  "refund_good (R, lg, w) \<Longrightarrow> world_le w w' \<Longrightarrow> refund_good (R, lg, w')"
  by (auto simp: refund_good_def intro: refund_books_world)

lemma refund_good_touch: "refund_good c \<Longrightarrow> refund_good (rf_touch a c)"
  using refund_good_world[of "fst c" "fst (snd c)" "snd (snd c)" "snd (utcnow (snd (snd c)))"]
  by (cases c) (auto simp: rf_touch_def split_beta utcnow_def world_le_def intro: refund_good_modify)

lemma refund_good_audit: "refund_good c \<Longrightarrow> refund_good (rf_audit ac m atr st am cu g ev re c)"
  by (cases c) (auto simp: refund_good_def rf_audit_def split_beta intro: refund_books_world[OF _ world_le_draw])

lemma refund_good_status:
  "refund_good c \<Longrightarrow> rf_status a c \<noteq> RS_COMPLETED \<Longrightarrow> st \<noteq> RS_COMPLETED \<Longrightarrow>
   refund_good (rf_set_status a st c)"
  unfolding rf_set_status_def by (rule refund_good_modify) (simp_all add: rf_status_def)

lemma refund_good_decide:
  "refund_good c \<Longrightarrow> governance_ok gov \<Longrightarrow> rf_decide gov actor ctxt refs c = (r, c') \<Longrightarrow> refund_good c'"
  using rf_decide_frame[of gov actor ctxt refs c r c'] refund_books_world
  by (fastforce simp: refund_good_def)

lemma refund_good_finish:
  assumes "refund_good c" "a < rf_count c" "rf_status a c \<noteq> RS_COMPLETED"
    and "ids_ok (snd (snd (rf_finish a c)))"
  shows "refund_good (rf_finish a c)"
proof -
  obtain R L w where "c = (R, Some L, w)" "refund_books (rf_heap R) L w"
    using assms(1) by (cases c) (auto simp: refund_good_def)
  with refund_books_finish[of R L w a "rf_finish a c"] assms show ?thesis
    by (fastforce simp: rf_status_def rf_object_def refund_good_def)
qed

lemma rf_only_ids_ok: "rf_only a c c' \<Longrightarrow> ids_ok (snd (snd c')) \<Longrightarrow> ids_ok (snd (snd c))"
  by (auto simp: rf_only_def intro: ids_ok_before)

text \<open>Approval and completion of the object at \<open>a\<close>, automatic or manual.\<close>

lemma refund_good_approved:
  assumes "refund_good c" "a < rf_count c" "rf_status a c \<noteq> RS_COMPLETED"
    and "\<And>r. same_refund r (f r)" "\<And>r. rr_status (f r) = RS_APPROVED"
    and "c' = rf_audit ac m atr st am cu g ev re (rf_finish a (rf_touch a (rf_modify a f c)))"
    and "ids_ok (snd (snd c'))"
  shows "refund_good c'"
proof -
  let ?d = "rf_touch a (rf_modify a f c)"
  have "refund_good ?d"
    using assms(1,3-5) by (intro refund_good_touch refund_good_modify) (simp_all add: rf_status_def)
  moreover have "rf_status a ?d \<noteq> RS_COMPLETED" "a < rf_count ?d"
    using assms(2,5) by (simp_all add: rf_status_modify)
  moreover have "ids_ok (snd (snd (rf_finish a ?d)))"
    using assms(7) rf_only_ids_ok[OF rf_only_audit] by (simp add: assms(6))
  ultimately show ?thesis unfolding assms(6) by (intro refund_good_audit refund_good_finish)
qed

lemma refund_good_request_small:
  assumes "refund_good c" "governance_ok gov" "a < rf_count c" "rf_status a c = RS_REQUESTED"
    and "request_small gov x a c = (r, c')" "ids_ok (snd (snd c'))"
  shows "refund_good c'"
proof -
  obtain q d where d: "rf_decide gov (ra_requested_by x)
             [(''refund_id'', PStr (rr_refund_id (rf_object a c))), (''amount'', PFloat (ra_amount x)),
              (''currency'', PStr (ra_currency x))] [PStr (rr_refund_id (rf_object a c))] c = (q, d)"
    by (metis surj_pair)
  have g: "refund_good d" by (rule refund_good_decide[OF assms(1,2) d])
  have s: "rf_status a d \<noteq> RS_COMPLETED" "a < rf_count d"
    using rf_decide_frame(1)[OF assms(2) d] assms(3,4) by (simp_all add: rf_status_def rf_object_def)
  show ?thesis
  proof (cases "isl q \<or> \<not> gd_allowed (projr q)")
    case True
    then show ?thesis using d g assms(5) by (cases q) (auto simp: request_small_def Let_def)
  next
    case False
    then obtain D where D: "q = Inr D" "gd_allowed D" by (cases q) auto
    show ?thesis
      by (rule refund_good_approved[OF g s(2,1) _ _ _ assms(6)])
        (use assms(5) d D in \<open>auto simp: request_small_def Let_def\<close>)
  qed
qed

lemma refund_good_govref:
  "refund_good c \<Longrightarrow> refund_good (rf_modify a (\<lambda>r. r\<lparr>rr_governance_ref := G\<rparr>) c)"
  by (rule refund_good_modify) simp_all

lemma refund_good_request_large:
  assumes "refund_good c" "governance_ok gov" "a < rf_count c" "rf_status a c = RS_REQUESTED"
    and "request_large gov x a c = (r, c')"
  shows "refund_good c'"
proof -
  obtain q d where d: "rf_decide gov (ra_requested_by x)
             [(''refund_id'', PStr (rr_refund_id (rf_object a c))), (''amount'', PFloat (ra_amount x)),
              (''currency'', PStr (ra_currency x)), (''order_id'', PStr (ra_order_id x))]
             [PStr (rr_refund_id (rf_object a c)), of_opt (ra_original_payment_event_id x)] c = (q, d)"
    by (metis surj_pair)
  have g: "refund_good d" by (rule refund_good_decide[OF assms(1,2) d])
  have s: "rf_status a d \<noteq> RS_COMPLETED" "a < rf_count d"
    using rf_decide_frame(1)[OF assms(2) d] assms(3,4) by (simp_all add: rf_status_def rf_object_def)
  let ?m = "\<lambda>D. rf_modify a (\<lambda>r. r\<lparr>rr_governance_ref := Some (gd_audit_ref D)\<rparr>)"
  have ms: "rf_status a (?m D d) \<noteq> RS_COMPLETED" "a < rf_count (?m D d)" for D
    using s by (simp_all add: rf_status_modify) (simp add: rf_status_def)
  show ?thesis
    using assms(5) d g ms by (cases q)
      (auto simp: request_large_def Let_def split: if_splits
        intro!: refund_good_audit refund_good_touch refund_good_status refund_good_govref)
qed

lemma refund_good_request_pending:
  assumes "refund_good c" "rf_status a c = RS_REQUESTED" "request_pending x a c = (r, c')"
  shows "refund_good c'"
  using assms
  by (auto simp: request_pending_def Let_def intro!: refund_good_audit refund_good_touch refund_good_status)

lemma refund_inv_request:
  assumes "refund_inv c" "governance_ok gov" "request_refund gov pol x c = (r, c')" "ids_ok (snd (snd c'))"
  shows "refund_inv c'"
proof (cases "c' = c")
  case False
  with request_refund_effect[OF assms(2,3)] obtain c1 where
    o: "open_refund x c = (rf_count c, c1)" "rf_only (rf_count c) c1 c'" by blast
  note E = open_refund_effect[OF o(1)]
  have ok: "ids_ok (snd (snd c1))" by (rule rf_only_ids_ok[OF o(2) assms(4)])
  obtain R L w where c: "c = (R, Some L, w)" "refund_books (rf_heap R) L w"
    using assms(1) by (cases c) (auto simp: refund_inv_def refund_good_def)
  have g: "refund_good c1"
    using refund_books_open[OF c(2) o(1)[unfolded c(1)] ok] by (auto simp: refund_good_def)
  have i: "refund_index_ok (fst c1)"
  proof -
    have "fst c1 = rf_store (fst (new_refund x w)) R"
      using o(1) by (auto simp: open_refund_def c(1) split_beta rf_append_ledger_entry_def Let_def)
    then show ?thesis using assms(1) refund_index_store by (simp add: c(1) refund_inv_def)
  qed
  have "request_small gov x (rf_count c) c1 = (r, c') \<or> request_large gov x (rf_count c) c1 = (r, c')
      \<or> request_pending x (rf_count c) c1 = (r, c')"
    using assms(3) o(1) False by (auto simp: request_refund_def split: if_splits)
  then have "refund_good c'"
    using g E assms(2,4) refund_good_request_small refund_good_request_large refund_good_request_pending
    by (metis lessI)
  then show ?thesis using refund_index_only[OF o(2) i] by (simp add: refund_inv_def)
qed (use assms(1) in simp)

lemma refund_good_approve:
  assumes "refund_good c" "governance_ok gov" "a < rf_count c" "rf_status a c = RS_PENDING_APPROVAL"
    and "dict_get (rf_refunds (fst c)) i = Some a"
    and "approve_refund gov pol i approver ref c = (r, c')" "ids_ok (snd (snd c'))"
  shows "refund_good c'"
proof -
  obtain q d where g: "approve_gate gov pol a i approver c = (q, d)" by (metis surj_pair)
  have gd: "refund_good d"
  proof (cases "pol_require_governance_for_refund_above_threshold pol")
    case False
    then show ?thesis using g assms(1) by (simp add: approve_gate_def)
  next
    case True
    obtain p e where e: "rf_decide gov approver [(''refund_id'', PStr i),
        (''amount'', PFloat (rr_amount (rf_object a c)))] [PStr (rr_refund_id (rf_object a c))] c = (p, e)"
      by (metis surj_pair)
    have ge: "refund_good e" by (rule refund_good_decide[OF assms(1,2) e])
    moreover have "rf_status a e \<noteq> RS_COMPLETED"
      using rf_decide_frame(1)[OF assms(2) e] assms(4) by (simp add: rf_status_def rf_object_def)
    ultimately show ?thesis using g e True by (cases p)
      (auto simp: approve_gate_def Let_def split: if_splits
        intro!: refund_good_audit refund_good_touch refund_good_status refund_good_govref)
  qed
  note G = approve_gate_effect[OF assms(2) g]
  show ?thesis
  proof (cases q)
    case (Inl exn)
    then show ?thesis using assms(4-6) g gd by (simp add: approve_refund_def rf_status_def)
  next
    case (Inr u)
    have s: "a < rf_count d" "rf_status a d \<noteq> RS_COMPLETED"
      using G assms(3,4) by (auto simp: rf_only_def)
    show ?thesis
      by (rule refund_good_approved[OF gd s _ _ _ assms(7)])
        (use assms(4-6) g Inr in \<open>auto simp: approve_refund_def approve_complete_def rf_status_def Let_def\<close>)
  qed
qed

lemma refund_inv_step:
  assumes "refund_inv c" "governance_ok gov" "refund_step gov pol c c'" "ids_ok (snd (snd c'))"
  shows "refund_inv c'"
  using assms(3)
proof (cases rule: refund_step.cases)
  case (step_request x r)
  then show ?thesis using refund_inv_request assms by blast
next
  case (step_approve i approver ref r)
  show ?thesis
  proof (cases "c' = c")
    case False
    with approve_refund_effect[OF assms(2) step_approve] obtain a where
      a: "dict_get (rf_refunds (fst c)) i = Some a" "rf_status a c = RS_PENDING_APPROVAL" "rf_only a c c'"
      by blast
    have "a < rf_count c"
      using a(1) assms(1) by (auto simp: refund_inv_def refund_index_ok_def dict_get_def dest: map_of_SomeD)
    with a show ?thesis
      using refund_good_approve[OF _ assms(2) _ a(2,1) step_approve assms(4)]
        refund_index_only[OF a(3)] assms(1) by (simp add: refund_inv_def)
  qed (use assms(1) in simp)
next
  case (step_reject i approver reason r)
  show ?thesis
  proof (cases "c' = c")
    case False
    with reject_refund_effect[OF step_reject] obtain a where
      a: "dict_get (rf_refunds (fst c)) i = Some a" "rf_status a c = RS_PENDING_APPROVAL" "rf_only a c c'"
      by blast
    have "refund_good (rf_modify a (\<lambda>r. r\<lparr>rr_status := RS_REJECTED, rr_reason := reason\<rparr>) c)"
      by (rule refund_good_modify) (use a(2) assms(1) in \<open>simp_all add: rf_status_def refund_inv_def\<close>)
    with a step_reject have "refund_good c'"
      by (auto simp: reject_refund_def Let_def rf_status_def[symmetric]
          intro!: refund_good_audit refund_good_touch)
    then show ?thesis using refund_index_only[OF a(3)] assms(1) by (simp add: refund_inv_def)
  qed (use assms(1) in simp)
qed

lemma refund_step_world:
  assumes "governance_ok gov" "refund_step gov pol c c'"
  shows "world_le (snd (snd c)) (snd (snd c'))"
  using assms(2)
proof (cases rule: refund_step.cases)
  case (step_request x r)
  from request_refund_effect[OF assms(1) step_request] show ?thesis
  proof
    assume "\<exists>c1. open_refund x c = (rf_count c, c1) \<and> rf_only (rf_count c) c1 c'"
    then obtain c1 where "open_refund x c = (rf_count c, c1)" "rf_only (rf_count c) c1 c'" by blast
    then show ?thesis
      using open_refund_effect(5)[of x c "rf_count c" c1] world_le_trans by (simp add: rf_only_def; blast)
  qed simp
next
  case (step_approve i approver ref r)
  from approve_refund_effect[OF assms(1) step_approve] show ?thesis by (auto simp: rf_only_def)
next
  case (step_reject i approver reason r)
  from reject_refund_effect[OF step_reject] show ?thesis by (auto simp: rf_only_def)
qed

abbreviation refund_run ::
  "governance option \<Rightarrow> MarketplaceFinancialPolicy \<Rightarrow> ref_ctx \<Rightarrow> ref_ctx \<Rightarrow> bool" where
  "refund_run gov pol \<equiv> rtranclp (refund_step gov pol)"

lemma refund_run_inv:
  assumes "governance_ok gov" "refund_run gov pol c c'" "refund_inv c"
  shows "ids_ok (snd (snd c')) \<Longrightarrow> refund_inv c'"
  using assms(2)
proof (induction rule: rtranclp_induct)
  case (step d e)
  have "ids_ok (snd (snd d))"
    using refund_step_world[OF assms(1) step.hyps(2)] step.prems by (rule ids_ok_before)
  then show ?case using refund_inv_step[OF _ assms(1) step.hyps(2)] step by blast
qed (use assms(3) in simp)

section \<open>Governance that denies\<close>

definition governance_denies :: "governance option \<Rightarrow> bool" where
  "governance_denies gov \<longleftrightarrow> (\<exists>g. gov = Some g
     \<and> (\<forall>act actor ctxt refs w d. fst (g act actor ctxt refs w) = Inr d \<longrightarrow> \<not> gd_allowed d))"

definition none_completed :: "ref_ctx \<Rightarrow> bool" where
  "none_completed c \<longleftrightarrow> (\<forall>a < rf_count c. rf_status a c \<noteq> RS_COMPLETED)"

lemma rf_decide_denied:
  "governance_denies gov \<Longrightarrow> rf_decide gov actor ctxt refs c = (Inr d, c') \<Longrightarrow> \<not> gd_allowed d"
  by (cases c) (auto simp: governance_denies_def rf_decide_def governance_decision_def
      split: prod.splits, metis fst_conv)

lemma rf_decide_denied_status:
  "governance_ok gov \<Longrightarrow> governance_denies gov \<Longrightarrow> rf_decide gov actor ctxt refs c = (r, c') \<Longrightarrow>
     (\<forall>d. r = Inr d \<longrightarrow> \<not> gd_allowed d) \<and> rf_status a c' = rf_status a c \<and> rf_count c' = rf_count c"
  using rf_decide_frame(1)[of gov actor ctxt refs c r c'] rf_decide_denied[of gov actor ctxt refs c _ c']
  by (auto simp: rf_status_def rf_object_def)

lemma denied_request_status:
  assumes "governance_ok gov" "governance_denies gov" "a < rf_count c" "rf_status a c = RS_REQUESTED"
  shows "request_small gov x a c = (r, c') \<Longrightarrow> rf_status a c' = RS_REQUESTED"
    "request_large gov x a c = (r, c') \<Longrightarrow> rf_status a c' \<in> {RS_REQUESTED, RS_REJECTED}"
  by (auto simp: request_small_def request_large_def Let_def rf_status_modify assms(3,4)
      split: prod.splits sum.splits if_splits
      dest!: rf_decide_denied_status[OF assms(1,2), of _ _ _ c _ _ a]
      simp flip: rf_status_def)

lemma none_completed_only:
  assumes "rf_only a c c'" "none_completed c" "a < rf_count c \<Longrightarrow> rf_status a c' \<noteq> RS_COMPLETED"
  shows "none_completed c'"
  unfolding none_completed_def
proof (intro allI impI)
  fix b assume "b < rf_count c'"
  then show "rf_status b c' \<noteq> RS_COMPLETED"
    using assms rf_only_object(1)[OF assms(1)] rf_only_object(3)[OF assms(1), of b]
    by (cases "b = a") (auto simp: none_completed_def rf_status_def)
qed

lemma denied_step:
  assumes "governance_ok gov" "governance_denies gov"
    and "pol_require_governance_for_refund_above_threshold pol"
    and "refund_step gov pol c c'" "none_completed c"
  shows "none_completed c'"
  using assms(4)
proof (cases rule: refund_step.cases)
  case (step_request x r)
  show ?thesis
  proof (cases "c' = c")
    case False
    with request_refund_effect[OF assms(1) step_request] obtain c1 where
      o: "open_refund x c = (rf_count c, c1)" "rf_only (rf_count c) c1 c'" by blast
    note E = open_refund_effect[OF o(1)]
    have "request_small gov x (rf_count c) c1 = (r, c') \<or> request_large gov x (rf_count c) c1 = (r, c')
        \<or> request_pending x (rf_count c) c1 = (r, c')"
      using step_request o(1) False by (auto simp: request_refund_def split: if_splits)
    then have "rf_status (rf_count c) c' \<noteq> RS_COMPLETED"
      using denied_request_status[OF assms(1,2) _ E(3), of x r c'] E(2)
      by (auto simp: request_pending_def Let_def)
    moreover have "rf_object b c' = rf_object b c" if "b < rf_count c" for b
      using E(4)[OF that] rf_only_object(3)[OF o(2), of b] that by simp
    ultimately show ?thesis
      using assms(5) rf_only_object(1)[OF o(2)] E(2)
      by (auto simp: none_completed_def rf_status_def less_Suc_eq)
  qed (use assms(5) in simp)
next
  case (step_approve i approver ref r)
  show ?thesis
  proof (cases "c' = c")
    case False
    with approve_refund_effect[OF assms(1) step_approve] obtain a where
      a: "dict_get (rf_refunds (fst c)) i = Some a" "rf_status a c = RS_PENDING_APPROVAL" "rf_only a c c'"
      by blast
    obtain q d where g: "approve_gate gov pol a i approver c = (q, d)" by (metis surj_pair)
    have "isl q"
      using g assms(3) by (auto simp: approve_gate_def Let_def split: prod.splits sum.splits if_splits
          dest: rf_decide_denied[OF assms(2)])
    then have "c' = d" using step_approve a g by (auto simp: approve_refund_def rf_status_def isl_def)
    then have "a < rf_count c \<Longrightarrow> rf_status a c' \<noteq> RS_COMPLETED"
      using approve_gate_effect(2)[OF assms(1) g] a(2) by auto
    then show ?thesis by (rule none_completed_only[OF a(3) assms(5)])
  qed (use assms(5) in simp)
next
  case (step_reject i approver reason r)
  show ?thesis
  proof (cases "c' = c")
    case False
    with reject_refund_effect[OF step_reject] obtain a where
      a: "rf_only a c c'" "a < rf_count c \<longrightarrow> rf_status a c' = RS_REJECTED" by blast
    show ?thesis by (rule none_completed_only[OF a(1) assms(5)]) (use a(2) in simp)
  qed (use assms(5) in simp)
qed

section \<open>The idempotency index\<close>

lemma by_idempotency_step:
  assumes "governance_ok gov" "refund_step gov pol c c'"
    and "dict_get (rf_by_idempotency (fst c)) k = Some a" "k \<noteq> []"
  shows "dict_get (rf_by_idempotency (fst c')) k = Some a"
  using assms(2)
proof (cases rule: refund_step.cases)
  case (step_request x r)
  show ?thesis
  proof (cases "c' = c")
    case False
    with request_refund_effect[OF assms(1) step_request] obtain c1 where
      o: "open_refund x c = (rf_count c, c1)" "rf_only (rf_count c) c1 c'" by blast
    obtain R lg w where c: "c = (R, lg, w)" by (cases c)
    have "\<not> key_in (ra_idempotency_key x) (fst ` set (rf_by_idempotency R))"
      using step_request False by (auto simp: c request_refund_def split: if_splits)
    then have nk: "k \<noteq> the (ra_idempotency_key x)" if "opt_truthy (ra_idempotency_key x)"
      using that assms(3) by (force simp: key_in_def c dict_get_def dest: map_of_SomeD)
    have "rf_by_idempotency (fst c1) = rf_by_idempotency (rf_store (fst (new_refund x w)) R)"
      using o(1) by (auto simp: open_refund_def c split_beta rf_append_ledger_entry_def Let_def
          split: option.splits)
    also have "dict_get \<dots> k = Some a"
      using assms(3) nk by (simp add: rf_store_def Let_def new_refund_def split_beta dict.lookup_put c)
    finally show ?thesis using o(2) by (simp add: rf_only_def)
  qed (use assms(3) in simp)
next
  case (step_approve i approver ref r)
  from approve_refund_effect[OF assms(1) step_approve] assms(3) show ?thesis by (auto simp: rf_only_def)
next
  case (step_reject i approver reason r)
  from reject_refund_effect[OF step_reject] assms(3) show ?thesis by (auto simp: rf_only_def)
qed

lemma request_returns:
  "request_small gov x a c = (Inr b, c') \<Longrightarrow> b = a"
  "request_large gov x a c = (Inr b, c') \<Longrightarrow> b = a"
  "request_pending x a c = (Inr b, c') \<Longrightarrow> b = a"
  by (auto simp: request_small_def request_large_def request_pending_def Let_def
      split: prod.splits sum.splits if_splits)

lemma by_idempotency_request:
  assumes "governance_ok gov" "request_refund gov pol x c = (Inr a, c')" "ra_idempotency_key x = Some k" "k \<noteq> []"
  shows "dict_get (rf_by_idempotency (fst c')) k = Some a"
proof (cases "dict_in k (rf_by_idempotency (fst c))")
  case True
  then have "key_in (ra_idempotency_key x) (fst ` set (rf_by_idempotency (fst c)))"
    using assms(3,4) by (simp add: key_in_def dict_in_def)
  then show ?thesis using True assms(2,3) by (auto simp: request_refund_def dict.has_key_iff)
next
  case False
  obtain R lg w where c: "c = (R, lg, w)" by (cases c)
  obtain c1 where o: "open_refund x c = (rf_count c, c1)"
    using open_refund_effect(1) by (metis surj_pair)
  have nk: "\<not> key_in (ra_idempotency_key x) (fst ` set (rf_by_idempotency (fst c)))"
    using False assms(3) by (simp add: key_in_def dict_in_def)
  have "request_small gov x (rf_count c) c1 = (Inr a, c') \<or> request_large gov x (rf_count c) c1 = (Inr a, c')
      \<or> request_pending x (rf_count c) c1 = (Inr a, c')"
    using assms(2) o nk by (auto simp: request_refund_def split: if_splits)
  then have a: "a = rf_count c \<and> rf_only (rf_count c) c1 c'"
    by (elim disjE) (blast dest: request_returns request_decide_effect[OF assms(1)])+
  have "rf_by_idempotency (fst c1) = rf_by_idempotency (rf_store (fst (new_refund x w)) R)"
    using o by (auto simp: open_refund_def c split_beta rf_append_ledger_entry_def Let_def
        split: option.splits)
  then show ?thesis
    using a assms(3,4) by (simp add: rf_only_def rf_store_def Let_def new_refund_def split_beta c)
qed

lemma refund_run_count:
  assumes "governance_ok gov" "refund_run gov pol c c'"
  shows "rf_count c \<le> rf_count c'"
  using assms(2)
proof (induction rule: rtranclp_induct)
  case (step d e)
  then show ?case
    using refund_step_object[OF assms(1) step.hyps(2)] by (cases "rf_count d = 0") fastforce+
qed simp

section \<open>The refund engine as a client of the ledger\<close>

definition rf_grows :: "FinancialLedgerEngine \<times> world \<Rightarrow> ref_ctx \<Rightarrow> bool" where
  "rf_grows b c \<longleftrightarrow> fst (snd c) \<noteq> None \<and> ledger_grows b (ctx_books c)"

lemma rf_grows_modify: "rf_grows b c \<Longrightarrow> rf_grows b (rf_modify a f c)"
  by (cases c) (simp add: rf_grows_def rf_modify_def ctx_books_def)

lemma rf_grows_time: "rf_grows b (R, lg, w) \<Longrightarrow> world_le w w' \<Longrightarrow> rf_grows b (R, lg, w')"
  by (auto simp: rf_grows_def ctx_books_def intro: ledger_grows.grows_time)

lemma rf_grows_touch:
  "rf_grows b c \<Longrightarrow> rf_grows b (rf_touch a c)" "rf_grows b c \<Longrightarrow> rf_grows b (rf_set_completed a c)"
  "rf_grows b c \<Longrightarrow> rf_grows b (rf_set_status a st c)"
  by (cases c; auto simp: rf_touch_def rf_set_completed_def rf_set_status_def utcnow_def world_le_def
      intro!: rf_grows_modify elim!: rf_grows_time)+

lemma rf_grows_audit: "rf_grows b c \<Longrightarrow> rf_grows b (rf_audit ac m atr st am cu g ev re c)"
  by (cases c) (auto simp: rf_grows_def ctx_books_def rf_audit_def split_beta
      intro!: ledger_grows.grows_audit intro: ledger_grows.grows_time[OF _ world_le_draw])

lemma rf_grows_append: "rf_grows b c \<Longrightarrow> rf_grows b (rf_append_ledger_entry ty a k c)"
proof -
  assume c: "rf_grows b c"
  then obtain R L w where e: "c = (R, Some L, w)" "ledger_grows b (L, w)"
    by (cases c) (auto simp: rf_grows_def ctx_books_def)
  let ?r = "rf_heap R ! a"
  let ?n = "new_ledger_entry (rr_marketplace_id ?r) (Some (rr_order_id ?r)) (Some (rr_listing_id ?r))
                (Some (rr_tenant_id ?r)) ty (rr_amount ?r) (rr_currency ?r)
                (ledger_entry_type_value ty) (Some k) (rr_original_payment_event_id ?r)
                (Some (rr_refund_id ?r)) w"
  have "snd (rf_append_ledger_entry ty a k c) =
      (Some (fst (snd (ledger_append (fst ?n) L (snd ?n)))), snd (snd (ledger_append (fst ?n) L (snd ?n))))"
    by (simp add: e(1) rf_append_ledger_entry_def Let_def split_beta del: new_ledger_entry_sel)
  then show ?thesis
    using post_grows[OF e(2)] by (simp add: rf_grows_def ctx_books_def del: new_ledger_entry_sel)
qed

lemma rf_grows_decide:
  "rf_grows b c \<Longrightarrow> governance_ok gov \<Longrightarrow> rf_decide gov actor ctxt refs c = (r, c') \<Longrightarrow> rf_grows b c'"
  using rf_decide_frame[of gov actor ctxt refs c r c'] rf_grows_time[of b "fst c" "fst (snd c)" "snd (snd c)" "snd (snd c')"]
  by (metis prod.collapse)

lemma rf_grows_finish: "rf_grows b c \<Longrightarrow> rf_grows b (rf_finish a c)"
  by (simp add: rf_finish_def Let_def rf_grows_append rf_grows_touch)

lemmas rf_grows_ops = rf_grows_finish rf_grows_append rf_grows_audit rf_grows_touch rf_grows_modify

lemma rf_grows_open: "rf_grows b c \<Longrightarrow> open_refund x c = (a, c') \<Longrightarrow> rf_grows b c'"
proof -
  assume c: "rf_grows b c" and o: "open_refund x c = (a, c')"
  obtain R lg w where e: "c = (R, lg, w)" by (cases c)
  have "world_le w (snd (new_refund x w))"
    by (simp add: new_refund_def new_id_def utcnow_def Let_def world_le_def)
  with c have "rf_grows b (rf_store (fst (new_refund x w)) R, lg, snd (new_refund x w))"
    unfolding e rf_grows_def ctx_books_def by (auto intro: ledger_grows.grows_time)
  from rf_grows_append[OF this] show ?thesis using o by (auto simp: e open_refund_def split_beta)
qed

lemma rf_grows_request:
  assumes "rf_grows b c" "governance_ok gov"
  shows "request_small gov x a c = (r, c') \<Longrightarrow> rf_grows b c'"
    "request_large gov x a c = (r, c') \<Longrightarrow> rf_grows b c'"
    "request_pending x a c = (r, c') \<Longrightarrow> rf_grows b c'"
  by (auto simp: request_small_def request_large_def request_pending_def Let_def assms(1)
      split: prod.splits sum.splits if_splits
      dest!: rf_grows_decide[OF assms] intro!: rf_grows_ops)

lemma rf_grows_approve:
  assumes "rf_grows b c" "governance_ok gov"
  shows "approve_gate gov pol a i approver c = (q, d) \<Longrightarrow> rf_grows b d"
    "rf_grows b (approve_complete a approver ref c)"
  using assms(1)
  by (auto simp: approve_gate_def approve_complete_def Let_def split: prod.splits sum.splits if_splits
      dest!: rf_grows_decide[OF assms] intro!: rf_grows_ops)

lemma refund_step_grows:
  assumes "governance_ok gov" "refund_step gov pol c c'" "rf_grows b c"
  shows "rf_grows b c'"
  using assms(2)
proof (cases rule: refund_step.cases)
  case (step_request x r)
  obtain a c1 where o: "open_refund x c = (a, c1)" by (metis surj_pair)
  note g = rf_grows_request[OF rf_grows_open[OF assms(3) o] assms(1)]
  show ?thesis
    using step_request o assms(3) by (auto simp: request_refund_def split: if_splits dest: g)
next
  case (step_approve i approver ref r)
  then show ?thesis
    using assms(3)
    by (auto simp: approve_refund_def split: option.splits prod.splits sum.splits if_splits
        dest!: rf_grows_approve(1)[OF assms(3,1)] intro!: rf_grows_approve(2)[OF _ assms(1)])
next
  case (step_reject i approver reason r)
  then show ?thesis
    using assms(3) by (auto simp: reject_refund_def Let_def split: option.splits if_splits intro!: rf_grows_ops)
qed

definition refund_call ::
  "governance option \<Rightarrow> MarketplaceFinancialPolicy \<Rightarrow> ref_ctx \<Rightarrow> ref_ctx \<Rightarrow> bool" where
  "refund_call gov pol c c' \<longleftrightarrow> governance_ok gov \<and> fst (snd c) \<noteq> None \<and> refund_step gov pol c c'"

interpretation refunds: ledger_client "refund_call gov pol" ctx_books for gov pol
proof
  fix c c' assume c: "refund_call gov pol c c'"
  then have "rf_grows (ctx_books c) c"
    by (simp add: refund_call_def rf_grows_def ledger_grows.grows_refl)
  with c have "rf_grows (ctx_books c) c'"
    using refund_step_grows[of gov pol c c' "ctx_books c"] by (simp add: refund_call_def)
  then show "ledger_grows (ctx_books c) (ctx_books c')" by (simp add: rf_grows_def)
qed

section \<open>Properties\<close>

definition sample_refund :: "string \<Rightarrow> pyfloat \<Rightarrow> string \<Rightarrow> string option \<Rightarrow> refund_args" where
  "sample_refund key am cur orig =
     \<lparr>ra_marketplace_id = ''m1'', ra_order_id = ''o1'', ra_listing_id = ''l1'', ra_tenant_id = ''t1'',
      ra_amount = am, ra_currency = cur, ra_requested_by = ''bob'',
      ra_original_payment_event_id = orig, ra_reason_code = '''', ra_reason = '''',
      ra_idempotency_key = Some key\<rparr>"

definition sample_refund_ctx :: ref_ctx where
  "sample_refund_ctx = (refund_init, Some ledger_init, sample_world)"

declare new_decision_def [run_simps] governance_decision_def [run_simps] default_governance_def [run_simps]
  refund_init_def [run_simps] rf_modify_def [run_simps] rf_object_def [run_simps] rf_set_status_def [run_simps]
  rf_touch_def [run_simps] rf_set_completed_def [run_simps] rf_store_def [run_simps]
  rf_append_ledger_entry_def [run_simps] rf_audit_def [run_simps] rf_finish_def [run_simps]
  new_refund_def [run_simps] above_threshold_def [run_simps] rf_decide_def [run_simps]
  request_small_def [run_simps] request_large_def [run_simps] request_pending_def [run_simps]
  open_refund_def [run_simps] request_refund_def [run_simps] approve_gate_def [run_simps]
  approve_complete_def [run_simps] approve_refund_def [run_simps] reject_refund_def [run_simps]
  sample_refund_def [run_simps] sample_refund_ctx_def [run_simps]

text \<open>
  C2. The refund ledger agrees with the refunds. In every state the engine reaches from an empty
  ledger, by any sequence of requests, approvals and rejections with any outcome, each refund has
  exactly one \<open>REFUND_REQUESTED\<close> entry with its amount and currency, exactly one
  \<open>REFUND_APPROVED\<close> and one \<open>REFUND_COMPLETED\<close> entry when its status is \<open>COMPLETED\<close>, none
  otherwise, and no idempotency key occurs twice. The identifiers drawn have to be different and
  the governance kernel may not turn back the identifier supply.
\<close>

theorem refund_ledger_agrees:
  assumes "governance_ok gov"
    and "refund_run gov pol (refund_init, Some ledger_init, w0) (R, Some L, w)" "ids_ok w"
    and "r \<in> set (rf_heap R)"
  shows "refund_entries (rr_refund_id r) LT_REFUND_REQUESTED (ledger_report None L)
       = [(rr_amount r, rr_currency r)]
     \<and> refund_entries (rr_refund_id r) LT_REFUND_APPROVED (ledger_report None L)
       = (if rr_status r = RS_COMPLETED then [(rr_amount r, rr_currency r)] else [])
     \<and> refund_entries (rr_refund_id r) LT_REFUND_COMPLETED (ledger_report None L)
       = (if rr_status r = RS_COMPLETED then [(rr_amount r, rr_currency r)] else [])
     \<and> ledger_duplicate_idempotency_keys L = []"
proof -
  have "refund_inv (R, Some L, w)"
    by (rule refund_run_inv[OF assms(1,2) refund_inv_init]) (use assms(3) in simp)
  then have "refund_books (rf_heap R) L w" by (simp add: refund_inv_def refund_good_def)
  then show ?thesis
    using assms(4) ledger_wf_no_duplicates[of L]
    by (simp add: refund_books_def expected_entries_def ledger_report_def only_marketplace_def)
qed

theorem refund_ledger_agrees_witness:
  "\<exists>R L w r. snd (request_refund None default_policy (sample_refund ''k1'' (Fin 20) ''USD'' None)
        sample_refund_ctx) = (R, Some L, w) \<and> r \<in> set (rf_heap R) \<and> rr_status r = RS_COMPLETED
     \<and> refund_entries (rr_refund_id r) LT_REFUND_COMPLETED (ledger_report None L) = [(Fin 20, ''USD'')]"
proof -
  let ?q = "request_refund None default_policy (sample_refund ''k1'' (Fin 20) ''USD'' None) sample_refund_ctx"
  have q: "\<exists>R L w r. ?q = (Inr 0, R, Some L, w) \<and> rf_heap R = [r] \<and> rr_status r = RS_COMPLETED
      \<and> rr_amount r = Fin 20 \<and> rr_currency r = ''USD'' \<and> uuid_n w = 9 \<and> uuid_of w = str_of_nat"
    by (simp add: run_simps Let_def)
  then obtain R L w r where q: "?q = (Inr 0, R, Some L, w)" "rf_heap R = [r]" "rr_status r = RS_COMPLETED"
      "rr_amount r = Fin 20" "rr_currency r = ''USD''" "uuid_n w = 9" "uuid_of w = str_of_nat" by blast
  have "ids_ok w"
    using q(6,7) by (auto simp: ids_ok_def draws_distinct_def inj_on_def id_at_def str_of_nat.simps)
  moreover have "refund_run None default_policy (refund_init, Some ledger_init, sample_world) (R, Some L, w)"
    using step_request[OF q(1)] by (simp add: sample_refund_ctx_def)
  ultimately show ?thesis
    using refund_ledger_agrees[OF governance_ok_default(2), of default_policy sample_world R L w r] q by auto
qed

lemma sample_request_run:
  "refund_run gov pol c (snd (request_refund gov pol x c))"
  using step_request[of gov pol x c] by (metis prod.collapse r_into_rtranclp)

text \<open>
  C6. Decided refunds are final. Whatever happens afterwards, a refund keeps its identifier, order,
  amount, currency and payment reference; if its status is not \<open>PENDING_APPROVAL\<close> the whole
  object stays as it is, and from \<open>PENDING_APPROVAL\<close> it can only become \<open>REJECTED\<close> or
  \<open>COMPLETED\<close>.
\<close>

theorem refund_lifecycle:
  assumes "governance_ok gov" "refund_run gov pol c c'" "a < rf_count c"
  shows "same_refund (rf_object a c) (rf_object a c')
     \<and> (rf_status a c \<noteq> RS_PENDING_APPROVAL \<longrightarrow> rf_object a c' = rf_object a c)
     \<and> (rf_status a c = RS_PENDING_APPROVAL \<longrightarrow>
          rf_status a c' \<in> {RS_PENDING_APPROVAL, RS_REJECTED, RS_COMPLETED})"
proof -
  have "rf_count c \<le> rf_count c' \<and> same_refund (rf_object a c) (rf_object a c')
     \<and> (rf_status a c \<noteq> RS_PENDING_APPROVAL \<longrightarrow> rf_object a c' = rf_object a c)
     \<and> (rf_status a c = RS_PENDING_APPROVAL \<longrightarrow>
          rf_status a c' \<in> {RS_PENDING_APPROVAL, RS_REJECTED, RS_COMPLETED})"
    using assms(2)
  proof (induction rule: rtranclp_induct)
    case (step d e)
    then have "a < rf_count d" using assms(3) by simp
    from refund_step_object[OF assms(1) step.hyps(2) this] step.IH show ?case
      using same_refund_trans[of "rf_object a c" "rf_object a d" "rf_object a e"]
      by (auto simp: rf_status_def)
  qed simp
  then show ?thesis by blast
qed

theorem refund_lifecycle_witness:
  "rf_object 0 (snd (request_refund None default_policy (sample_refund ''k2'' (Fin 70) ''USD'' None)
        (snd (request_refund None default_policy (sample_refund ''k1'' (Fin 20) ''USD'' None)
          sample_refund_ctx))))
     = rf_object 0 (snd (request_refund None default_policy (sample_refund ''k1'' (Fin 20) ''USD'' None)
          sample_refund_ctx))"
proof -
  let ?c = "snd (request_refund None default_policy (sample_refund ''k1'' (Fin 20) ''USD'' None) sample_refund_ctx)"
  have "0 < rf_count ?c" "rf_status 0 ?c = RS_COMPLETED"
    by (simp_all add: run_simps rf_status_def Let_def)
  then show ?thesis
    using refund_lifecycle[OF governance_ok_default(2) sample_request_run, of 0 ?c default_policy] by simp
qed

text \<open>
  C7. No money moves against governance. When the policy requires governance for approvals and the
  governance kernel allows nothing, then after any sequence of operations no refund is completed
  and the ledger holds nothing but \<open>REFUND_REQUESTED\<close> entries.
\<close>

theorem denied_refunds_never_complete:
  assumes "governance_ok gov" "governance_denies gov"
    and "pol_require_governance_for_refund_above_threshold pol"
    and "refund_run gov pol (refund_init, Some ledger_init, w0) (R, Some L, w)" "ids_ok w"
  shows "(\<forall>r \<in> set (rf_heap R). rr_status r \<noteq> RS_COMPLETED)
     \<and> (\<forall>e \<in> set (ledger_report None L). le_entry_type e = LT_REFUND_REQUESTED)"
proof -
  have nc: "none_completed c'" if "refund_run gov pol (refund_init, Some ledger_init, w0) c'" for c'
    using that
  proof (induction rule: rtranclp_induct)
    case (step d e)
    then show ?case using denied_step[OF assms(1-3)] by blast
  qed (simp add: none_completed_def refund_init_def)
  from nc[OF assms(4)] have n: "\<forall>r \<in> set (rf_heap R). rr_status r \<noteq> RS_COMPLETED"
    by (auto simp: none_completed_def rf_status_def rf_object_def set_conv_nth)
  have "refund_inv (R, Some L, w)"
    by (rule refund_run_inv[OF assms(1,4) refund_inv_init]) (use assms(5) in simp)
  then have B: "le_evidence_ref ` set (dict_values (lg_entries L)) \<subseteq> Some ` rr_refund_id ` set (rf_heap R)"
      "\<forall>r \<in> set (rf_heap R). \<forall>ty. refund_entries (rr_refund_id r) ty (dict_values (lg_entries L))
          = expected_entries r ty"
    by (simp_all add: refund_inv_def refund_good_def refund_books_def)
  have "le_entry_type e = LT_REFUND_REQUESTED" if e: "e \<in> set (dict_values (lg_entries L))" for e
  proof -
    obtain r where r: "r \<in> set (rf_heap R)" "le_evidence_ref e = Some (rr_refund_id r)"
      using B(1) e by blast
    then have "refund_entries (rr_refund_id r) (le_entry_type e) (dict_values (lg_entries L)) \<noteq> []"
      using e by (auto simp: refund_entries_def filter_empty_conv)
    then show ?thesis using B(2) r(1) n by (auto simp: expected_entries_def split: if_splits)
  qed
  then show ?thesis using n by (simp add: ledger_report_def only_marketplace_def)
qed

definition deny_all :: governance where
  "deny_all action actor context refs w =
     (case new_decision action actor [] w of (d, w') \<Rightarrow> (Inr (d\<lparr>gd_allowed := False\<rparr>), w'))"

lemma deny_all_ok: "governance_ok (Some deny_all)" "governance_denies (Some deny_all)"
  by (auto simp: governance_ok_def governance_denies_def deny_all_def split_beta new_decision_world)

theorem denied_refunds_never_complete_witness:
  "\<exists>R L w. snd (request_refund (Some deny_all) default_policy (sample_refund ''k1'' (Fin 20) ''USD'' None)
       sample_refund_ctx) = (R, Some L, w) \<and> length (ledger_report None L) = 1
     \<and> (\<forall>r \<in> set (rf_heap R). rr_status r \<noteq> RS_COMPLETED)
     \<and> (\<forall>e \<in> set (ledger_report None L). le_entry_type e = LT_REFUND_REQUESTED)"
proof -
  let ?q = "request_refund (Some deny_all) default_policy (sample_refund ''k1'' (Fin 20) ''USD'' None)"
  have "\<exists>R L w. ?q sample_refund_ctx = (Inr 0, R, Some L, w) \<and> length (ledger_report None L) = 1
      \<and> uuid_n w = 4 \<and> uuid_of w = str_of_nat"
    by (simp add: run_simps Let_def deny_all_def)
  then obtain R L w where q: "?q sample_refund_ctx = (Inr 0, R, Some L, w)"
    "length (ledger_report None L) = 1" "uuid_n w = 4" "uuid_of w = str_of_nat" by blast
  have ok: "ids_ok w"
    using q(3,4) by (auto simp: ids_ok_def draws_distinct_def inj_on_def id_at_def str_of_nat.simps)
  have run: "refund_run (Some deny_all) default_policy (refund_init, Some ledger_init, sample_world) (R, Some L, w)"
    using step_request[OF q(1)] by (simp add: sample_refund_ctx_def)
  have "pol_require_governance_for_refund_above_threshold default_policy"
    by (simp add: default_policy_def)
  from denied_refunds_never_complete[OF deny_all_ok this run ok] show ?thesis using q(1,2) by simp
qed

text \<open>
  Requests are idempotent. After a request that carried a non-empty idempotency key returned a
  refund, every later request with that key, whatever its other arguments, returns the same object
  and changes neither the engine nor the ledger nor the audit trail.
\<close>

theorem refund_request_idempotent:
  assumes "governance_ok gov" "request_refund gov pol x c = (Inr a, c1)"
    and "ra_idempotency_key x = Some k" "k \<noteq> []" "refund_run gov pol c1 c2"
    and "ra_idempotency_key y = Some k"
  shows "request_refund gov pol y c2 = (Inr a, c2)"
proof -
  have "dict_get (rf_by_idempotency (fst c2)) k = Some a"
    using assms(5)
  proof (induction rule: rtranclp_induct)
    case base
    then show ?case using by_idempotency_request[OF assms(1-4)] .
  next
    case (step d e)
    then show ?case using by_idempotency_step[OF assms(1) step.hyps(2) _ assms(4)] by blast
  qed
  then show ?thesis
    using assms(4,6) dict.has_key_iff[of k "rf_by_idempotency (fst c2)"]
    by (simp add: request_refund_def key_in_def dict_in_def)
qed

theorem refund_request_idempotent_witness:
  "request_refund None default_policy (sample_refund ''k1'' (Fin 999) ''EUR'' None)
     (snd (request_refund None default_policy (sample_refund ''k1'' (Fin 20) ''USD'' None) sample_refund_ctx))
   = (Inr 0, snd (request_refund None default_policy (sample_refund ''k1'' (Fin 20) ''USD'' None) sample_refund_ctx))"
proof (rule refund_request_idempotent[OF governance_ok_default(2), of default_policy
      "sample_refund ''k1'' (Fin 20) ''USD'' None" sample_refund_ctx 0 _ "''k1''"])
  let ?q = "request_refund None default_policy (sample_refund ''k1'' (Fin 20) ''USD'' None) sample_refund_ctx"
  have "fst ?q = Inr 0" by (simp add: run_simps Let_def)
  then show "?q = (Inr 0, snd ?q)" by (metis prod.collapse)
qed (simp_all add: sample_refund_def)

lemma default_decision:
  assumes "validators_ok v"
  shows "\<exists>d w'. rf_decide (Some (default_governance v)) actor ctxt (map PStr refs) c
     = (Inr d, fst c, fst (snd c), w') \<and> gd_allowed d"
  by (cases c) (simp add: rf_decide_def governance_decision_def default_governance_def
      v_str_list_Some[OF assms] new_decision_def split_beta)

text \<open>
  The threshold is read in one currency only. A request in any other currency than the policy's
  threshold currency is completed at once whatever its amount, with the pass-through governance
  adapter and automatic approval of small refunds, both of which are the defaults.
\<close>

theorem foreign_currency_refund_completes:
  assumes "validators_ok v" "pol_auto_approve_small_refunds pol"
    and "ra_currency x \<noteq> pol_auto_approve_refund_threshold_currency pol"
    and "\<not> key_in (ra_idempotency_key x) (fst ` set (rf_by_idempotency (fst c)))"
  shows "\<exists>c'. request_refund (Some (default_governance v)) pol x c = (Inr (rf_count c), c')
     \<and> rf_status (rf_count c) c' = RS_COMPLETED"
proof -
  obtain c1 where o: "open_refund x c = (rf_count c, c1)"
    using open_refund_effect(1) by (metis surj_pair)
  note E = open_refund_effect[OF o]
  let ?i = "rr_refund_id (rf_object (rf_count c) c1)"
  obtain d w' where d: "rf_decide (Some (default_governance v)) (ra_requested_by x)
       [(''refund_id'', PStr ?i), (''amount'', PFloat (ra_amount x)), (''currency'', PStr (ra_currency x))]
       [PStr ?i] c1 = (Inr d, fst c1, fst (snd c1), w')" "gd_allowed d"
    using default_decision[OF assms(1), of "ra_requested_by x" _ "[?i]" c1] by force
  have "request_refund (Some (default_governance v)) pol x c
      = request_small (Some (default_governance v)) x (rf_count c) c1"
    using assms(2-4) o by (simp add: request_refund_def above_threshold_def)
  then show ?thesis using d E(2) by (simp add: request_small_def Let_def)
qed

theorem foreign_currency_refund_completes_witness:
  "\<exists>c'. request_refund (Some (default_governance plain_validators)) default_policy
       (sample_refund ''k1'' (Fin 1000000) ''EUR'' None) sample_refund_ctx = (Inr 0, c')
     \<and> rf_status 0 c' = RS_COMPLETED"
proof -
  have "rf_count sample_refund_ctx = 0" by (simp add: run_simps)
  then show ?thesis
    using foreign_currency_refund_completes[OF plain_validators_ok, of default_policy
        "sample_refund ''k1'' (Fin 1000000) ''EUR'' None" sample_refund_ctx]
    by (simp add: default_policy_def sample_refund_def sample_refund_ctx_def refund_init_def key_in_def)
qed

text \<open>
  A large refund without a payment reference gets stuck. With the pass-through adapter, a request
  above the threshold that names no original payment event raises a validation error after it was
  stored and ledgered; the refund stays \<open>REQUESTED\<close> whatever is done later, a status that can be neither approved
  nor rejected.
\<close>

theorem large_refund_without_payment_stuck:
  assumes "validators_ok v" "above_threshold pol x" "ra_original_payment_event_id x = None"
    and "\<not> key_in (ra_idempotency_key x) (fst ` set (rf_by_idempotency (fst c)))"
    and "request_refund (Some (default_governance v)) pol x c = (r, c')"
    and "refund_run (Some (default_governance v)) pol c' c2"
  shows "r = Inl (ValidationError ''GovernanceDecision'') \<and> rf_status (rf_count c) c2 = RS_REQUESTED"
proof -
  obtain c1 where o: "open_refund x c = (rf_count c, c1)"
    using open_refund_effect(1) by (metis surj_pair)
  note E = open_refund_effect[OF o]
  let ?a = "rf_count c"
  have "request_large (Some (default_governance v)) x ?a c1
      = (Inl (ValidationError ''GovernanceDecision''), c1)"
    using v_str_None[OF assms(1)] assms(3)
    by (simp add: request_large_def Let_def rf_decide_def governance_decision_def of_opt_def
        default_governance_def split_beta split: option.split)
  then have r: "r = Inl (ValidationError ''GovernanceDecision'')" "c' = c1"
    using assms(2,4,5) o by (simp_all add: request_refund_def)
  have "rf_status ?a c2 = RS_REQUESTED"
    using assms(6) unfolding r(2)
  proof (induction rule: rtranclp_induct)
    case (step d e)
    then have n: "?a < rf_count d"
      using E(2) refund_run_count by (metis lessI less_le_trans governance_ok_default(1))
    from refund_step_object[OF governance_ok_default(1) step.hyps(2) n] step.IH show ?case
      by (auto simp: rf_status_def)
  qed (rule E(3))
  then show ?thesis using r(1) by simp
qed

theorem large_refund_without_payment_stuck_witness:
  "fst (request_refund (Some (default_governance plain_validators)) default_policy
       (sample_refund ''k1'' (Fin 70) ''USD'' None) sample_refund_ctx)
     = Inl (ValidationError ''GovernanceDecision'')
   \<and> rf_status 0 (snd (request_refund (Some (default_governance plain_validators)) default_policy
       (sample_refund ''k1'' (Fin 70) ''USD'' None) sample_refund_ctx)) = RS_REQUESTED"
proof -
  have "above_threshold default_policy (sample_refund ''k1'' (Fin 70) ''USD'' None)"
    by (simp add: run_simps)
  moreover have "\<not> key_in (ra_idempotency_key (sample_refund ''k1'' (Fin 70) ''USD'' None))
      (fst ` set (rf_by_idempotency (fst sample_refund_ctx)))" "rf_count sample_refund_ctx = 0"
    "ra_original_payment_event_id (sample_refund ''k1'' (Fin 70) ''USD'' None) = None"
    by (simp_all add: run_simps)
  ultimately show ?thesis
    using large_refund_without_payment_stuck[OF plain_validators_ok, of default_policy
        "sample_refund ''k1'' (Fin 70) ''USD'' None" sample_refund_ctx]
    by (metis prod.collapse rtranclp.rtrancl_refl)
qed

end
