(* ===== verification/Fin_Tax_Fraud.thy ===== *)
theory Fin_Tax_Fraud
  imports Fin_Ledger
begin

text \<open>
  Tax calculation (\<^verbatim>\<open>tax.py\<close>) and fraud control (\<^verbatim>\<open>fraud.py\<close>). Both delegate
  to a provider adapter, a parameter of the model with the no-op adapters of the source as
  instances. The tax engine has no state beside the ledger it posts to; the fraud engine keeps its
  assessments and the lists of held and blocked listings.
\<close>

section \<open>Tax\<close>

type_synonym tax_adapter = "TaxCalculationRequest \<Rightarrow> world \<Rightarrow> (world, TaxCalculationResult) outcome"

definition base_tax_adapter :: tax_adapter where
  "base_tax_adapter req w = (Inl (NotImplementedError ''''), w)"

text \<open>The loop of the no-op adapter: every line is converted and multiplied by zero.\<close>

fun noop_tax_lines :: "payload list \<Rightarrow> pyfloat \<Rightarrow> py_exn + pyfloat" where
  "noop_tax_lines [] acc = Inr acc"
| "noop_tax_lines (line # lines) acc =
     (case py_float (get_or line ''amount'' (PFloat (Fin 0))) of
        Inl exn \<Rightarrow> Inl exn
      | Inr amount \<Rightarrow> noop_tax_lines lines (f_add acc (f_mul amount (Fin 0))))"

definition NoopTaxAdapter :: tax_adapter where
  "NoopTaxAdapter req w =
     (case noop_tax_lines (txq_amounts req) (Fin 0) of
        Inl exn \<Rightarrow> (Inl exn, w)
      | Inr tax_amount \<Rightarrow>
        (let (t, w) = utcnow w in
         (Inr \<lparr>txr_tax_request_id = txq_tax_request_id req,
               txr_provider = (if txq_provider req \<noteq> [] then txq_provider req else ''noop''),
               txr_jurisdiction = txq_jurisdiction req, txr_tax_rate = Fin 0,
               txr_tax_amount = tax_amount, txr_currency = txq_currency req,
               txr_provider_reference = None, txr_calculated_at = t,
               txr_evidence_ref = txq_evidence_ref req\<rparr>, w)))"

definition ledgerize_tax ::
  "TaxCalculationRequest \<Rightarrow> TaxCalculationResult \<Rightarrow> FinancialLedgerEngine option \<times> world \<Rightarrow>
   FinancialLedgerEngine option \<times> world" where
  "ledgerize_tax req res ctx =
     (case ctx of (None, w) \<Rightarrow> (None, w)
      | (Some L, w) \<Rightarrow>
        (case new_ledger_entry (txq_marketplace_id req) (Some (txq_order_id req))
                (Some (txq_listing_id req)) (Some (txq_tenant_id req)) LT_TAX_CALCULATED
                (txr_tax_amount res) (txr_currency res) ''POSTED''
                (Some (''tax_'' @ txq_tax_request_id req)) (Some (txq_tax_request_id req))
                (opt_or (txr_evidence_ref res) (txq_evidence_ref req)) w of
           (e, w1) \<Rightarrow> (case ledger_append e L w1 of (_, L', w2) \<Rightarrow> (Some L', w2))))"

definition calculate_tax ::
  "tax_adapter \<Rightarrow> TaxCalculationRequest \<Rightarrow> FinancialLedgerEngine option \<times> world \<Rightarrow>
   (FinancialLedgerEngine option \<times> world, TaxCalculationResult) outcome" where
  "calculate_tax ad req ctx =
     (case ctx of (lg, w) \<Rightarrow>
      case ad req w of
        (Inl exn, w') \<Rightarrow> (Inl exn, (lg, w'))
      | (Inr res, w') \<Rightarrow>
        (Inr res, if f_gt (txr_tax_amount res) (Fin 0) then ledgerize_tax req res (lg, w')
                  else (lg, w')))"

text \<open>\<open>getattr(self, "_calculations", [])\<close>: no method of the class ever sets that attribute.\<close>

definition recent_calculations :: "TaxCalculationResult list" where
  "recent_calculations = []"

section \<open>Fraud\<close>

type_synonym fraud_adapter = "string \<Rightarrow> string \<Rightarrow> string option \<Rightarrow> payload \<Rightarrow> py_exn + payload"

definition base_fraud_adapter :: fraud_adapter where
  "base_fraud_adapter lid tid oid context = Inl (NotImplementedError '''')"

definition NoopFraudAdapter :: fraud_adapter where
  "NoopFraudAdapter lid tid oid context = Inr
     [(''provider'', PStr ''noop''), (''fraud_score'', PFloat (Fin 0)),
      (''risk_indicators'', PList []), (''provider_reference'', PNone)]"

record FraudControlEngine =
  fc_assessments :: "(string, FraudAssessment) dict"
  fc_held_listings :: "string list"
  fc_blocked_listings :: "string list"

definition fraud_init :: FraudControlEngine where
  "fraud_init = \<lparr>fc_assessments = [], fc_held_listings = [], fc_blocked_listings = []\<rparr>"

definition fraud_map_action :: "MarketplaceFinancialPolicy \<Rightarrow> pyfloat \<Rightarrow> FraudAction" where
  "fraud_map_action pol score =
     (if f_ge score (pol_min_fraud_score_to_block pol) then FA_BLOCK
      else if f_ge score (pol_min_fraud_score_to_hold pol) then FA_HOLD
      else if f_ge score (fl (4/10)) then FA_REVIEW
      else FA_ALLOW)"

definition recorded_score :: "pyfloat \<Rightarrow> pyfloat" where
  "recorded_score score = f_round 4 (f_max (Fin 0) (f_min (Fin 1) score))"

text \<open>\<open>list(v)\<close>: a string is split into characters, a dictionary into its keys.\<close>

fun py_list :: "pyval \<Rightarrow> py_exn + pyval list" where
  "py_list (PList xs) = Inr xs"
| "py_list (PStr s) = Inr (map (\<lambda>c. PStr [c]) s)"
| "py_list (PDict d) = Inr (map (PStr \<circ> fst) d)"
| "py_list _ = Inl (TypeError ''object is not iterable'')"

text \<open>What an action does to the two lists.\<close>

definition fraud_enforce :: "FraudAction \<Rightarrow> string \<Rightarrow> FraudControlEngine \<Rightarrow> FraudControlEngine" where
  "fraud_enforce action lid F =
     (case action of
        FA_HOLD \<Rightarrow>
          if lid \<in> set (fc_held_listings F) then F
          else F\<lparr>fc_held_listings := fc_held_listings F @ [lid]\<rparr>
      | FA_BLOCK \<Rightarrow>
          (let F1 = (if lid \<in> set (fc_blocked_listings F) then F
                     else F\<lparr>fc_blocked_listings := fc_blocked_listings F @ [lid]\<rparr>)
           in if lid \<in> set (fc_held_listings F1)
              then F1\<lparr>fc_held_listings := remove1 lid (fc_held_listings F1)\<rparr> else F1)
      | _ \<Rightarrow> F)"

definition fraud_assess ::
  "validators \<Rightarrow> fraud_adapter \<Rightarrow> MarketplaceFinancialPolicy \<Rightarrow> string \<Rightarrow> string \<Rightarrow> string option \<Rightarrow>
   payload \<Rightarrow> FraudControlEngine \<times> world \<Rightarrow> (FraudControlEngine \<times> world, FraudAssessment) outcome" where
  "fraud_assess v ad pol lid tid oid context ctx =
     (case ctx of (F, w) \<Rightarrow>
      case ad lid tid oid context of
        Inl exn \<Rightarrow> (Inl exn, ctx)
      | Inr raw \<Rightarrow>
        (case py_float (get_or raw ''fraud_score'' (PFloat (Fin 0))) of
           Inl exn \<Rightarrow> (Inl exn, ctx)
         | Inr score \<Rightarrow>
           (case py_list (get_or raw ''risk_indicators'' (PList [])) of
              Inl exn \<Rightarrow> (Inl exn, ctx)
            | Inr inds \<Rightarrow>
              (let (i, w) = new_id ''frd'' w; (t, w) = utcnow w in
               case (v_str v (get_or raw ''provider'' (PStr ''unknown'')), v_str_list v inds,
                     v_opt_str v (get_or raw ''provider_reference'' PNone)) of
                 (Some prov, Some risk, Some ref) \<Rightarrow>
                   (let a = \<lparr>fa_assessment_id = i, fa_listing_id = Some lid, fa_tenant_id = Some tid,
                              fa_order_id = oid, fa_provider = prov,
                              fa_fraud_score = recorded_score score, fa_risk_indicators = risk,
                              fa_action = fraud_map_action pol score, fa_provider_reference = ref,
                              fa_timestamp = t, fa_evidence_ref = None, fa_governance_ref = None\<rparr>
                    in (Inr a, (fraud_enforce (fa_action a) lid
                                 (F\<lparr>fc_assessments := dict_set i a (fc_assessments F)\<rparr>), w)))
               | _ \<Rightarrow> (Inl (ValidationError ''FraudAssessment''), (F, w))))))"

definition is_blocked :: "string \<Rightarrow> FraudControlEngine \<Rightarrow> bool" where
  "is_blocked lid F = (lid \<in> set (fc_blocked_listings F))"

definition is_held :: "string \<Rightarrow> FraudControlEngine \<Rightarrow> bool" where
  "is_held lid F = (lid \<in> set (fc_held_listings F))"

definition fraud_assessments :: "FraudControlEngine \<Rightarrow> FraudAssessment list" where
  "fraud_assessments F = dict_values (fc_assessments F)"

section \<open>Lemmas\<close>

lemma calculate_tax_cases:
  assumes "calculate_tax ad req (Some L, w) = (r, lg', w')"
  obtains "lg' = Some L" "\<And>res. r = Inr res \<Longrightarrow> \<not> f_gt (txr_tax_amount res) (Fin 0)"
  | res e w1 where "r = Inr res" "f_gt (txr_tax_amount res) (Fin 0)"
      "lg' = Some (fst (snd (ledger_append e L w1)))"
      "le_idempotency_key e = Some (''tax_'' @ txq_tax_request_id req)"
      "le_entry_type e = LT_TAX_CALCULATED" "le_amount e = txr_tax_amount res"
      "le_source_event_id e = Some (txq_tax_request_id req)" "le_order_id e = Some (txq_order_id req)"
proof (cases "\<exists>res. r = Inr res \<and> f_gt (txr_tax_amount res) (Fin 0)")
  case True
  then obtain res where res: "r = Inr res" "f_gt (txr_tax_amount res) (Fin 0)" by blast
  with assms obtain w2 where "ledgerize_tax req res (Some L, w2) = (lg', w')"
    by (auto simp: calculate_tax_def split: prod.splits sum.splits if_splits)
  then show thesis
    by (intro that(2)[OF res]) (auto simp: ledgerize_tax_def split_beta)
next
  case False
  then show thesis using assms
    by (intro that(1)) (auto simp: calculate_tax_def split: prod.splits sum.splits if_splits)
qed

section \<open>The tax engine as a client of the ledger\<close>

text \<open>A tax adapter does not turn back the supplies.\<close>

definition tax_adapter_ok :: "tax_adapter \<Rightarrow> bool" where
  "tax_adapter_ok ad \<longleftrightarrow> (\<forall>req w. world_le w (snd (ad req w)))"

lemma tax_adapter_ok_noop: "tax_adapter_ok NoopTaxAdapter" "tax_adapter_ok base_tax_adapter"
  by (auto simp: tax_adapter_ok_def NoopTaxAdapter_def base_tax_adapter_def utcnow_def world_le_def
      split: sum.split)

definition tax_call ::
  "tax_adapter \<Rightarrow> FinancialLedgerEngine \<times> world \<Rightarrow> FinancialLedgerEngine \<times> world \<Rightarrow> bool" where
  "tax_call ad c c' \<longleftrightarrow> tax_adapter_ok ad \<and> (\<exists>req r L'. calculate_tax ad req (Some (fst c), snd c) = (r, Some L', snd c')
     \<and> fst c' = L')"

lemma calculate_tax_grows:
  assumes "tax_adapter_ok ad" "calculate_tax ad req (Some L, w) = (r, lg', w')"
  shows "\<exists>L'. lg' = Some L' \<and> ledger_grows (L, w) (L', w')"
proof -
  obtain q w1 where q: "ad req w = (q, w1)" by (metis surj_pair)
  have w1: "world_le w w1" using assms(1) q by (metis snd_conv tax_adapter_ok_def)
  then have g: "ledger_grows (L, w) (L, w1)" by (auto intro: ledger_grows.intros)
  have app: "\<exists>L'. fst (ledgerize_tax req res (Some L, w1)) = Some L'
      \<and> ledger_grows (L, w) (L', snd (ledgerize_tax req res (Some L, w1)))" for res
    using post_grows[OF g]
    by (simp add: ledgerize_tax_def split_beta del: new_ledger_entry_sel)
  show ?thesis
  proof (cases q)
    case (Inl exn)
    then show ?thesis using assms(2) q g by (auto simp: calculate_tax_def)
  next
    case (Inr res)
    then show ?thesis
      using assms(2) q g app[of res] by (auto simp: calculate_tax_def split: if_splits)
  qed
qed

interpretation tax: ledger_client "tax_call ad" "\<lambda>c. c" for ad
proof
  fix c c' assume "tax_call ad c c'"
  then show "ledger_grows c c'"
    using calculate_tax_grows[of ad _ "fst c" "snd c"] by (cases c') (fastforce simp: tax_call_def)
qed

text \<open>The order of severity of the actions.\<close>

fun action_rank :: "FraudAction \<Rightarrow> nat" where
  "action_rank FA_ALLOW = 0"
| "action_rank FA_REVIEW = 1"
| "action_rank FA_HOLD = 2"
| "action_rank FA_BLOCK = 3"

lemma fraud_assess_cases:
  assumes "fraud_assess v ad pol lid tid oid context (F, w) = (r, F', w')"
  obtains exn where "r = Inl exn" "F' = F"
  | a raw score where "r = Inr a" "ad lid tid oid context = Inr raw"
      "py_float (get_or raw ''fraud_score'' (PFloat (Fin 0))) = Inr score"
      "fa_fraud_score a = recorded_score score" "fa_action a = fraud_map_action pol score"
      "F' = fraud_enforce (fa_action a) lid
              (F\<lparr>fc_assessments := dict_set (fa_assessment_id a) a (fc_assessments F)\<rparr>)"
  using assms
  by (auto simp: fraud_assess_def Let_def new_id_def utcnow_def
      split: sum.splits option.splits)

lemma fraud_enforce_lists:
  "set (fc_blocked_listings (fraud_enforce action lid F)) =
     set (fc_blocked_listings F) \<union> (if action = FA_BLOCK then {lid} else {})"
  "distinct (fc_blocked_listings F) \<Longrightarrow> distinct (fc_blocked_listings (fraud_enforce action lid F))"
  "distinct (fc_held_listings F) \<Longrightarrow> distinct (fc_held_listings (fraud_enforce action lid F))"
  "distinct (fc_held_listings F) \<Longrightarrow> set (fc_held_listings (fraud_enforce action lid F)) =
     (if action = FA_BLOCK then set (fc_held_listings F) - {lid}
      else if action = FA_HOLD then insert lid (set (fc_held_listings F)) else set (fc_held_listings F))"
  by (cases action; force simp: fraud_enforce_def Let_def)+

lemma f_round_unit:
  assumes "0 \<le> x" "x \<le> 1"
  shows "f_le (Fin 0) (f_round n (Fin x))" "f_le (f_round n (Fin x)) (Fin 1)"
proof -
  have "0 \<le> rhe (x * 10 ^ n)" using assms by simp
  then show "f_le (Fin 0) (f_round n (Fin x))" by (simp add: fl_nonneg)
  have "x * 10 ^ n \<le> of_int (10 ^ n)" using assms by (simp add: mult_left_le_one_le)
  then have "rhe (x * 10 ^ n) \<le> 10 ^ n" by (rule rhe_le_iff_int)
  then have "of_int (rhe (x * 10 ^ n)) / 10 ^ n \<le> (1 :: rat)"
    by (metis divide_le_eq_1_pos of_int_le_numeral_power_cancel_iff zero_less_numeral zero_less_power)
  from fl_mono[OF this] show "f_le (f_round n (Fin x)) (Fin 1)"
    using fl_int[of 1] by simp
qed

inductive fraud_reach ::
  "validators \<Rightarrow> fraud_adapter \<Rightarrow> MarketplaceFinancialPolicy \<Rightarrow> FraudControlEngine \<Rightarrow> FraudControlEngine \<Rightarrow> bool"
  for v ad pol where
  fraud_refl: "fraud_reach v ad pol F F"
| fraud_assessed: "fraud_reach v ad pol F F1 \<Longrightarrow>
    fraud_assess v ad pol lid tid oid context (F1, w) = (r, F2, w') \<Longrightarrow> fraud_reach v ad pol F F2"

declare base_tax_adapter_def [run_simps] NoopTaxAdapter_def [run_simps] ledgerize_tax_def [run_simps]
  calculate_tax_def [run_simps] NoopFraudAdapter_def [run_simps] fraud_init_def [run_simps]
  fraud_map_action_def [run_simps] recorded_score_def [run_simps] fraud_enforce_def [run_simps]
  fraud_assess_def [run_simps]

section \<open>Properties\<close>

text \<open>
  Tax is posted once per request. After a calculation with positive tax, the ledger has used the
  request's key; every later calculation for the same request identifier, through whatever adapter
  and with whatever result, leaves the ledger as it is.
\<close>

theorem tax_posted_once:
  assumes "calculate_tax ad req (Some L, w) = (Inr res, Some L1, w1)"
    and "f_gt (txr_tax_amount res) (Fin 0)"
    and "lg_idempotency_keys L1 \<subseteq> lg_idempotency_keys L2"
    and "txq_tax_request_id req' = txq_tax_request_id req"
  shows "fst (snd (calculate_tax ad' req' (Some L2, w2))) = Some L2"
proof -
  from assms(1) obtain e w0 where L1: "L1 = fst (snd (ledger_append e L w0))"
    and k: "le_idempotency_key e = Some (''tax_'' @ txq_tax_request_id req)"
    using assms(2) by (cases rule: calculate_tax_cases) auto
  obtain r lg' w' where c: "calculate_tax ad' req' (Some L2, w2) = (r, lg', w')" by (metis surj_pair)
  from c show ?thesis
  proof (cases rule: calculate_tax_cases)
    case (2 res' e' w3)
    have "ledger_append e' L2 w3 = (False, L2, w3)"
      by (rule ledger.replay_refused[of e L w0]) (use assms(3,4) L1 k 2(4) in simp_all)
    then show ?thesis using c 2(3) by simp
  qed (simp add: c)
qed

definition flat_tax :: tax_adapter where
  "flat_tax req w = (Inr \<lparr>txr_tax_request_id = txq_tax_request_id req, txr_provider = ''flat'',
     txr_jurisdiction = txq_jurisdiction req, txr_tax_rate = Fin 1, txr_tax_amount = Fin 7,
     txr_currency = txq_currency req, txr_provider_reference = None, txr_calculated_at = 0,
     txr_evidence_ref = None\<rparr>, w)"

definition sample_tax :: TaxCalculationRequest where
  "sample_tax = \<lparr>txq_tax_request_id = ''tx1'', txq_marketplace_id = ''m1'', txq_order_id = ''o1'',
     txq_listing_id = ''l1'', txq_tenant_id = ''t1'', txq_jurisdiction = ''US'',
     txq_amounts = [[(''amount'', PInt 70)]], txq_currency = ''USD'', txq_provider = '''',
     txq_evidence_ref = None\<rparr>"

theorem tax_posted_once_witness:
  "\<exists>L1 w1. snd (calculate_tax flat_tax sample_tax (Some ledger_init, sample_world)) = (Some L1, w1)
     \<and> length (lg_entries L1) = 1
     \<and> fst (snd (calculate_tax flat_tax sample_tax (Some L1, w1))) = Some L1"
proof -
  have "\<exists>L1 w1 res. calculate_tax flat_tax sample_tax (Some ledger_init, sample_world) = (Inr res, Some L1, w1)
      \<and> length (lg_entries L1) = 1 \<and> txr_tax_amount res = Fin 7"
    by (simp add: run_simps flat_tax_def sample_tax_def)
  then obtain L1 w1 res where
    "calculate_tax flat_tax sample_tax (Some ledger_init, sample_world) = (Inr res, Some L1, w1)"
    "length (lg_entries L1) = 1" "txr_tax_amount res = Fin 7" by blast
  with tax_posted_once[of flat_tax sample_tax ledger_init sample_world res L1 w1 L1 sample_tax flat_tax w1]
  show ?thesis by simp
qed

text \<open>
  A blocked listing stays blocked, and a blocking assessment ends a hold: after an assessment
  whose action is \<open>BLOCK\<close> the listing is blocked and not held, and no later assessment of any
  listing unblocks it.
\<close>

theorem blocked_listing_stays_blocked:
  assumes "fraud_assess v ad pol lid tid oid context (F, w) = (Inr a, F1, w1)"
    and "fa_action a = FA_BLOCK" "distinct (fc_held_listings F)" "fraud_reach v ad pol F1 F2"
  shows "is_blocked lid F1 \<and> \<not> is_held lid F1 \<and> is_blocked lid F2"
proof -
  have 1: "is_blocked lid F1 \<and> \<not> is_held lid F1"
    using assms(1)
    by (cases rule: fraud_assess_cases)
      (use assms(2,3) in \<open>auto simp: is_blocked_def is_held_def fraud_enforce_lists\<close>)
  have "is_blocked lid F1 \<longrightarrow> is_blocked lid F2"
    using assms(4)
  proof (induction rule: fraud_reach.induct)
    case (fraud_assessed F F1 lid' tid oid cx w r F2 w')
    from fraud_assessed(2) show ?case
      by (cases rule: fraud_assess_cases)
        (use fraud_assessed.IH in \<open>auto simp: is_blocked_def fraud_enforce_lists\<close>)
  qed simp
  with 1 show ?thesis by simp
qed

definition scored :: "(string \<times> pyfloat) list \<Rightarrow> fraud_adapter" where
  "scored tab lid tid oid context = Inr [(''fraud_score'', PFloat (the (map_of tab lid)))]"

theorem blocked_listing_stays_blocked_witness:
  "is_blocked ''l1'' (fst (snd (fraud_assess plain_validators (scored [(''l1'', Fin 1)]) default_policy
       ''l1'' ''t'' None [] (fraud_init, sample_world))))"
proof -
  let ?q = "fraud_assess plain_validators (scored [(''l1'', Fin 1)]) default_policy ''l1'' ''t'' None []
    (fraud_init, sample_world)"
  have fl85: "f_le (fl (85/100)) (Fin 1)"
    using fl_mono[of "85/100" 1] fl_int[of 1] by simp
  have "\<exists>a F w. ?q = (Inr a, F, w) \<and> fa_action a = FA_BLOCK"
    using fl85 by (simp add: run_simps scored_def split_beta Let_def)
  then obtain a F w where q: "?q = (Inr a, F, w)" "fa_action a = FA_BLOCK" by blast
  have "distinct (fc_held_listings fraud_init)" by (simp add: fraud_init_def)
  from blocked_listing_stays_blocked[OF q this fraud_refl] show ?thesis by (simp add: q(1))
qed

text \<open>
  Scores are recorded in range and acted on monotonically. The recorded score of every assessment
  lies between 0 and 1, whatever float the vendor reports (infinities and NaN included), and a
  score at least as high never leads to a milder action.
\<close>

theorem fraud_score_bounded_and_monotone:
  "f_le (Fin 0) (recorded_score s) \<and> f_le (recorded_score s) (Fin 1)
   \<and> (f_le s t \<longrightarrow> action_rank (fraud_map_action pol s) \<le> action_rank (fraud_map_action pol t))"
proof -
  have "\<exists>x. f_max (Fin 0) (f_min (Fin 1) s) = Fin x \<and> 0 \<le> x \<and> x \<le> 1"
    by (cases s) (auto simp: f_max_def f_min_def)
  then have "f_le (Fin 0) (recorded_score s) \<and> f_le (recorded_score s) (Fin 1)"
    using f_round_unit unfolding recorded_score_def by metis
  moreover have "action_rank (fraud_map_action pol s) \<le> action_rank (fraud_map_action pol t)" if "f_le s t"
    using f_le_trans[OF _ that] by (simp add: fraud_map_action_def)
  ultimately show ?thesis by blast
qed

theorem fraud_score_bounded_and_monotone_witness:
  "action_rank (fraud_map_action default_policy (Fin 0)) \<le> action_rank (fraud_map_action default_policy PInf)
   \<and> f_le (recorded_score NaN) (Fin 1)"
  using fraud_score_bounded_and_monotone[of "Fin 0" PInf default_policy]
    fraud_score_bounded_and_monotone[of NaN NaN default_policy] by simp

text \<open>
  A score that is not a number is let through: it is recorded as 1.0, the highest risk, and yet
  mapped to \<open>ALLOW\<close>, so neither list changes.
\<close>

theorem nan_score_allowed:
  "recorded_score NaN = Fin 1 \<and> fraud_map_action pol NaN = FA_ALLOW
   \<and> fraud_enforce (fraud_map_action pol NaN) lid F = F"
  using fl_int[of 1] rhe_of_int[of 10000]
  by (simp add: recorded_score_def f_max_def f_min_def fraud_map_action_def fraud_enforce_def)

end
