(* ===== verification/Fin_Reconciliation.thy ===== *)
theory Fin_Reconciliation
  imports Fin_Payments Fin_Refunds Fin_Tax_Fraud
begin

text \<open>
  Reconciliation of payment events with the ledger (\<^verbatim>\<open>reconciliation.py\<close>). The checks of
  \<open>run_reconciliation\<close> are functions from the events and entries to the mismatches they find, in the
  order of the code; identifiers and time stamps are drawn for them in that order.
\<close>

section \<open>Mismatches\<close>

text \<open>The arguments of a \<open>ReconciliationMismatch(...)\<close> call.\<close>

record mismatch_args =
  ma_marketplace_id :: string
  ma_order_id :: "string option"
  ma_kind :: ReconciliationMismatchKind
  ma_severity :: ReconciliationSeverity
  ma_details :: string
  ma_evidence_refs :: "string list"

definition new_mismatch :: "mismatch_args \<Rightarrow> world \<Rightarrow> ReconciliationMismatch \<times> world" where
  "new_mismatch m w =
     (let (i, w) = new_id ''mismatch'' w; (t, w) = utcnow w in
      (\<lparr>mm_mismatch_id = i, mm_marketplace_id = ma_marketplace_id m, mm_order_id = ma_order_id m,
        mm_kind = ma_kind m, mm_severity = ma_severity m, mm_details = ma_details m,
        mm_evidence_refs = ma_evidence_refs m, mm_governance_ref = None, mm_detected_at = t\<rparr>, w))"

fun new_mismatches :: "mismatch_args list \<Rightarrow> world \<Rightarrow> ReconciliationMismatch list \<times> world" where
  "new_mismatches [] w = ([], w)"
| "new_mismatches (m # ms) w =
     (case new_mismatch m w of (x, w) \<Rightarrow> case new_mismatches ms w of (xs, w) \<Rightarrow> (x # xs, w))"

text \<open>\<open>[ref] if ref else []\<close>.\<close>

definition ref_list :: "string option \<Rightarrow> string list" where
  "ref_list r = (if opt_truthy r then [the r] else [])"

section \<open>Payment events against the ledger\<close>

text \<open>The first payment entry of each source event.\<close>

definition ledger_payment_entries ::
  "FinancialLedgerEntry list \<Rightarrow> (string, FinancialLedgerEntry) dict" where
  "ledger_payment_entries entries =
     fold (\<lambda>e d. if opt_truthy (le_source_event_id e)
                    \<and> (le_entry_type e = LT_PAYMENT_CAPTURED \<or> le_entry_type e = LT_PAYMENT_FAILED)
                 then dict_setdefault (the (le_source_event_id e)) e d else d) entries []"

definition event_reconciled :: "PaymentEvent \<Rightarrow> bool" where
  "event_reconciled ev =
     (pe_status ev = PS_CAPTURED \<or> pe_status ev = PS_AUTHORIZED \<or> pe_status ev = PS_FAILED
      \<or> pe_status ev = PS_CANCELLED)"

definition event_mismatches ::
  "(string, FinancialLedgerEntry) dict \<Rightarrow> PaymentEvent \<Rightarrow> mismatch_args list" where
  "event_mismatches lpe ev =
     (if \<not> event_reconciled ev then []
      else case dict_get lpe (pe_event_id ev) of
        None \<Rightarrow>
          [\<lparr>ma_marketplace_id = pe_marketplace_id ev, ma_order_id = Some (pe_order_id ev),
            ma_kind = PAYMENT_EVENT_MISSING_LEDGER, ma_severity = SEV_HIGH,
            ma_details = ''Payment event '' @ pe_event_id ev @ '' has no corresponding ledger entry.'',
            ma_evidence_refs = ref_list (pe_evidence_ref ev)\<rparr>]
      | Some entry \<Rightarrow>
          (if f_gt (f_abs (f_sub (le_amount entry) (pe_amount ev))) (fl (1/10000)) then
             [\<lparr>ma_marketplace_id = pe_marketplace_id ev, ma_order_id = Some (pe_order_id ev),
               ma_kind = AMOUNT_MISMATCH, ma_severity = SEV_MEDIUM,
               ma_details = ''Amount mismatch for '' @ pe_event_id ev @ '': event='' @
                 float_repr (pe_amount ev) @ '', ledger='' @ float_repr (le_amount entry) @ ''.'',
               ma_evidence_refs = ref_list (pe_evidence_ref ev)\<rparr>] else [])
        @ (if le_currency entry \<noteq> pe_currency ev then
             [\<lparr>ma_marketplace_id = pe_marketplace_id ev, ma_order_id = Some (pe_order_id ev),
               ma_kind = CURRENCY_MISMATCH, ma_severity = SEV_LOW,
               ma_details = ''Currency mismatch for '' @ pe_event_id ev @ '': event='' @
                 pe_currency ev @ '', ledger='' @ le_currency entry @ ''.'',
               ma_evidence_refs = []\<rparr>] else [])
        @ (if le_status entry \<noteq> payment_status_value (pe_status ev) then
             [\<lparr>ma_marketplace_id = pe_marketplace_id ev, ma_order_id = Some (pe_order_id ev),
               ma_kind = STATUS_MISMATCH, ma_severity = SEV_MEDIUM,
               ma_details = ''Status mismatch for '' @ pe_event_id ev @ '': event='' @
                 payment_status_value (pe_status ev) @ '', ledger='' @ le_status entry @ ''.'',
               ma_evidence_refs = []\<rparr>] else []))"

definition missing_event_mismatches ::
  "PaymentEvent list \<Rightarrow> (string, FinancialLedgerEntry) dict \<Rightarrow> mismatch_args list" where
  "missing_event_mismatches events lpe =
     map (\<lambda>(source_id, entry).
            \<lparr>ma_marketplace_id = le_marketplace_id entry, ma_order_id = le_order_id entry,
             ma_kind = LEDGER_MISSING_PAYMENT_EVENT, ma_severity = SEV_MEDIUM,
             ma_details = ''Ledger entry '' @ le_ledger_id entry @ '' references missing payment event ''
               @ source_id @ ''.'',
             ma_evidence_refs = ref_list (le_evidence_ref entry)\<rparr>)
       (filter (\<lambda>(source_id, entry). source_id \<notin> pe_event_id ` set events) lpe)"

definition duplicate_mismatches :: "string option \<Rightarrow> string list \<Rightarrow> mismatch_args list" where
  "duplicate_mismatches mid keys =
     map (\<lambda>k. \<lparr>ma_marketplace_id = opt_or_str mid '''', ma_order_id = None,
                ma_kind = DUPLICATE_IDEMPOTENCY_KEY, ma_severity = SEV_CRITICAL,
                ma_details = ''Duplicate idempotency key in ledger: '' @ k @ ''.'',
                ma_evidence_refs = [k]\<rparr>) keys"

section \<open>Refunds and captures per order\<close>

text \<open>\<open>d[k] = d.get(k, 0.0) + x\<close>.\<close>

definition add_amount :: "string \<Rightarrow> pyfloat \<Rightarrow> (string, pyfloat) dict \<Rightarrow> (string, pyfloat) dict" where
  "add_amount k x d = dict_set k (f_add (case dict_get d k of None \<Rightarrow> Fin 0 | Some y \<Rightarrow> y) x) d"

definition is_refund_entry :: "FinancialLedgerEntry \<Rightarrow> bool" where
  "is_refund_entry e = (le_entry_type e = LT_REFUND_APPROVED \<or> le_entry_type e = LT_REFUND_COMPLETED)"

text \<open>One turn of the loop over the entries: the captured and refunded sums per order, and the
  refunds whose payment event was not processed.\<close>

definition order_step ::
  "string set \<Rightarrow> FinancialLedgerEntry \<Rightarrow>
   (string, pyfloat) dict \<times> (string, pyfloat) dict \<times> mismatch_args list \<Rightarrow>
   (string, pyfloat) dict \<times> (string, pyfloat) dict \<times> mismatch_args list" where
  "order_step processed entry acc =
     (case acc of (captured, refunded, ms) \<Rightarrow>
      if \<not> opt_truthy (le_order_id entry) then acc
      else
       (if le_entry_type entry = LT_PAYMENT_CAPTURED
        then add_amount (the (le_order_id entry)) (le_amount entry) captured else captured,
        if is_refund_entry entry
        then add_amount (the (le_order_id entry)) (le_amount entry) refunded else refunded,
        if is_refund_entry entry \<and> opt_truthy (le_source_event_id entry)
           \<and> the (le_source_event_id entry) \<notin> processed
        then ms @ [\<lparr>ma_marketplace_id = le_marketplace_id entry, ma_order_id = le_order_id entry,
                    ma_kind = REFUND_WITHOUT_ORIGINAL_PAYMENT, ma_severity = SEV_HIGH,
                    ma_details = ''Refund ledger entry '' @ le_ledger_id entry
                      @ '' references a payment event that was not captured.'',
                    ma_evidence_refs = []\<rparr>]
        else ms))"

definition order_totals ::
  "string set \<Rightarrow> FinancialLedgerEntry list \<Rightarrow>
   (string, pyfloat) dict \<times> (string, pyfloat) dict \<times> mismatch_args list" where
  "order_totals processed entries = fold (order_step processed) entries ([], [], [])"

definition excess_mismatches ::
  "string option \<Rightarrow> (string, pyfloat) dict \<Rightarrow> (string, pyfloat) dict \<Rightarrow> mismatch_args list" where
  "excess_mismatches mid captured refunded =
     map (\<lambda>(oid, r).
            \<lparr>ma_marketplace_id = opt_or_str mid '''', ma_order_id = Some oid,
             ma_kind = REFUND_EXCEEDS_CAPTURED, ma_severity = SEV_HIGH,
             ma_details = ''Refunded amount '' @ float_repr r @ '' exceeds captured amount ''
               @ float_repr (case dict_get captured oid of None \<Rightarrow> Fin 0 | Some c \<Rightarrow> c)
               @ '' for order '' @ oid @ ''.'',
             ma_evidence_refs = []\<rparr>)
       (filter (\<lambda>(oid, r). f_gt r
          (f_add (case dict_get captured oid of None \<Rightarrow> Fin 0 | Some c \<Rightarrow> c) (fl (1/10000)))) refunded)"

definition tax_mismatches ::
  "TaxCalculationResult list option \<Rightarrow> FinancialLedgerEntry list \<Rightarrow> mismatch_args list" where
  "tax_mismatches tax entries =
     (case tax of None \<Rightarrow> []
      | Some calcs \<Rightarrow>
        map (\<lambda>e. \<lparr>ma_marketplace_id = le_marketplace_id e, ma_order_id = le_order_id e,
                   ma_kind = TAX_MISMATCH, ma_severity = SEV_MEDIUM,
                   ma_details = ''Tax ledger entry '' @ le_ledger_id e
                     @ '' has no corresponding tax calculation.'',
                   ma_evidence_refs = []\<rparr>)
          (filter (\<lambda>e. le_entry_type e = LT_TAX_CALCULATED
              \<and> le_source_event_id e \<notin> (Some \<circ> txr_tax_request_id) ` set calcs) entries))"

section \<open>The run\<close>

text \<open>All mismatches, in the order the code appends them.\<close>

definition find_mismatches ::
  "TaxCalculationResult list option \<Rightarrow> string option \<Rightarrow> PaymentEvent list \<Rightarrow> FinancialLedgerEngine \<Rightarrow>
   mismatch_args list" where
  "find_mismatches tax mid all_events L =
     (let events = (if opt_truthy mid then filter (\<lambda>e. pe_marketplace_id e = the mid) all_events else all_events);
          entries = ledger_report mid L;
          lpe = ledger_payment_entries entries;
          processed = pe_event_id ` {e \<in> set events. event_reconciled e}
      in case order_totals processed entries of (captured, refunded, refund_ms) \<Rightarrow>
         concat (map (event_mismatches lpe) events)
         @ missing_event_mismatches events lpe
         @ duplicate_mismatches mid (ledger_duplicate_idempotency_keys L)
         @ refund_ms
         @ excess_mismatches mid captured refunded
         @ tax_mismatches tax entries)"

record ReconciliationEngine =
  rc_reports :: "(string, ReconciliationReport) dict"

definition reconciliation_init :: ReconciliationEngine where
  "reconciliation_init = \<lparr>rc_reports = []\<rparr>"

definition severe :: "ReconciliationMismatch list \<Rightarrow> bool" where
  "severe ms = (\<exists>m \<in> set ms. mm_severity m = SEV_HIGH \<or> mm_severity m = SEV_CRITICAL)"

definition reconciliation_summary :: "ReconciliationMismatch list \<Rightarrow> (string, nat) dict" where
  "reconciliation_summary ms = count_into [] (map (mismatch_kind_value \<circ> mm_kind) ms)"

definition store_report ::
  "string option \<Rightarrow> FinancialLedgerEngine \<Rightarrow> ReconciliationMismatch list \<Rightarrow> string option \<Rightarrow>
   ReconciliationStatus \<Rightarrow> ReconciliationEngine \<times> world \<Rightarrow>
   (ReconciliationEngine \<times> world, ReconciliationReport) outcome" where
  "store_report mid L ms gref status ctx =
     (case ctx of (RC, w) \<Rightarrow>
      let (i, w) = new_id ''recon'' w; (t, w) = utcnow w;
          report = \<lparr>rec_report_id = i, rec_marketplace_id = opt_or_str mid '''', rec_generated_at = t,
                    rec_total_entries = length (ledger_report mid L), rec_mismatch_count = length ms,
                    rec_mismatches = ms, rec_summary = reconciliation_summary ms,
                    rec_governance_ref = gref, rec_status = status\<rparr>
      in (Inr report, (RC\<lparr>rc_reports := dict_set i report (rc_reports RC)\<rparr>, w)))"

definition run_reconciliation ::
  "governance option \<Rightarrow> TaxCalculationResult list option \<Rightarrow> string option \<Rightarrow> PaymentAdapterEngine \<Rightarrow>
   FinancialLedgerEngine \<Rightarrow> ReconciliationEngine \<times> world \<Rightarrow>
   (ReconciliationEngine \<times> world, ReconciliationReport) outcome" where
  "run_reconciliation gov tax mid P L ctx =
     (case ctx of (RC, w) \<Rightarrow>
      case new_mismatches (find_mismatches tax mid (processed_events P) L) w of (ms, w) \<Rightarrow>
      let status = (if ms = [] then REC_HEALTHY else REC_MISMATCHES_DETECTED)
      in case gov of
           None \<Rightarrow> store_report mid L ms None status (RC, w)
         | Some g \<Rightarrow>
           if \<not> severe ms then store_report mid L ms None status (RC, w)
           else case g FINANCIAL_ROLLBACK ''reconciliation''
                       [(''mismatch_count'', PInt (int (length ms))), (''severe'', PBool True)]
                       (map (PStr \<circ> mm_mismatch_id) ms) w of
             (Inl exn, w) \<Rightarrow> (Inl exn, (RC, w))
           | (Inr d, w) \<Rightarrow>
               store_report mid L ms (Some (gd_audit_ref d))
                 (if gd_allowed d then status else REC_FAILED) (RC, w))"

definition latest_reconciliation_report :: "ReconciliationEngine \<Rightarrow> ReconciliationReport option" where
  "latest_reconciliation_report RC =
     (if rc_reports RC = [] then None else Some (last (dict_values (rc_reports RC))))"

section \<open>Reports\<close>

lemma new_mismatches_args:
  "length (fst (new_mismatches ms w)) = length ms"
  "map mm_kind (fst (new_mismatches ms w)) = map ma_kind ms"
  "map mm_severity (fst (new_mismatches ms w)) = map ma_severity ms"
  "map mm_order_id (fst (new_mismatches ms w)) = map ma_order_id ms"
  by (induction ms arbitrary: w) (simp_all add: new_mismatch_def split_beta)

lemma store_report_sel:
  assumes "store_report mid L ms gref st ctx = (Inr rep, ctx')"
  shows "rec_mismatches rep = ms" "rec_mismatch_count rep = length ms"
    "rec_summary rep = reconciliation_summary ms" "rec_status rep = st" "rec_governance_ref rep = gref"
    "rc_reports (fst ctx') = dict_set (rec_report_id rep) rep (rc_reports (fst ctx))"
  using assms by (cases ctx; auto simp: store_report_def Let_def split_beta)+

lemma run_reconciliation_Inr:
  assumes "run_reconciliation gov tax mid P L (RC, w) = (Inr rep, RC', w')"
  obtains ms gref st w1 where
    "ms = fst (new_mismatches (find_mismatches tax mid (processed_events P) L) w)"
    "store_report mid L ms gref st (RC, w1) = (Inr rep, RC', w')"
    "st = (if ms = [] then REC_HEALTHY else REC_MISMATCHES_DETECTED) \<or> severe ms \<and> st = REC_FAILED"
  using assms
  by (auto simp: run_reconciliation_def Let_def
      split: prod.splits option.splits if_splits sum.splits)

lemma reconciliation_summary_get:
  "dict_get (reconciliation_summary ms) k =
     (let n = count_list (map (mismatch_kind_value \<circ> mm_kind) ms) k in if n = 0 then None else Some n)"
  by (auto simp: reconciliation_summary_def count_into_get Let_def count_list_0_iff)

lemma mismatch_kind_value_inj: "mismatch_kind_value k = mismatch_kind_value k' \<longleftrightarrow> k = k'"
  by (cases k; cases k') simp_all

section \<open>The first entry per source event\<close>

definition is_payment_entry :: "FinancialLedgerEntry \<Rightarrow> bool" where
  "is_payment_entry e \<longleftrightarrow> opt_truthy (le_source_event_id e)
     \<and> (le_entry_type e = LT_PAYMENT_CAPTURED \<or> le_entry_type e = LT_PAYMENT_FAILED)"

lemma lpe_fold:
  "dict_get (fold (\<lambda>e d. if is_payment_entry e then dict_setdefault (the (le_source_event_id e)) e d else d) es d) k =
     (case dict_get d k of Some x \<Rightarrow> Some x
      | None \<Rightarrow> find (\<lambda>e. is_payment_entry e \<and> the (le_source_event_id e) = k) es)"
  by (induction es arbitrary: d) (auto simp: dict_setdefault_get split: option.split)

lemma lpe_get:
  "dict_get (ledger_payment_entries es) k = find (\<lambda>e. is_payment_entry e \<and> the (le_source_event_id e) = k) es"
  using lpe_fold[of es "[]" k] unfolding ledger_payment_entries_def is_payment_entry_def by simp

lemma lpe_wf: "dict_wf (ledger_payment_entries es)"
proof -
  have "dict_wf d \<Longrightarrow> dict_wf (fold (\<lambda>e d. if is_payment_entry e
      then dict_setdefault (the (le_source_event_id e)) e d else d) es d)" for d
    by (induction es arbitrary: d) (auto intro: dict_setdefault_wf)
  then show ?thesis by (simp add: ledger_payment_entries_def is_payment_entry_def)
qed

lemma lpe_in:
  assumes "(k, e) \<in> set (ledger_payment_entries es)"
  shows "e \<in> set es \<and> is_payment_entry e \<and> the (le_source_event_id e) = k"
proof -
  have "dict_get (ledger_payment_entries es) k = Some e"
    using assms lpe_wf[of es] by (simp add: dict_get_def dict_wf_def)
  then show ?thesis by (auto simp: lpe_get find_Some_iff)
qed

section \<open>Books that agree\<close>

text \<open>An entry that repeats its event.\<close>

definition entry_of_event :: "PaymentEvent \<Rightarrow> FinancialLedgerEntry \<Rightarrow> bool" where
  "entry_of_event ev e \<longleftrightarrow> le_source_event_id e = Some (pe_event_id ev) \<and> pe_event_id ev \<noteq> []
     \<and> Some (le_entry_type e) = payment_entry_type (pe_status ev)
     \<and> le_amount e = pe_amount ev \<and> le_currency e = pe_currency ev
     \<and> le_status e = payment_status_value (pe_status ev)
     \<and> le_marketplace_id e = pe_marketplace_id ev"

lemma event_reconciled_iff: "event_reconciled ev \<longleftrightarrow> payment_entry_type (pe_status ev) \<noteq> None"
  by (cases "pe_status ev") (simp_all add: event_reconciled_def)

lemma payment_entry_type_range:
  "payment_entry_type st = Some ty \<Longrightarrow> ty = LT_PAYMENT_CAPTURED \<or> ty = LT_PAYMENT_FAILED"
  by (cases st) auto

lemma entry_of_event_payment: "entry_of_event ev e \<Longrightarrow> is_payment_entry e \<and> \<not> is_refund_entry e
    \<and> le_entry_type e \<noteq> LT_TAX_CALCULATED"
  using payment_entry_type_range[of "pe_status ev" "le_entry_type e"]
  by (auto simp: entry_of_event_def is_payment_entry_def is_refund_entry_def)

text \<open>The payment entries are those of the reconciled events, one each and in order.\<close>

definition books_agree :: "PaymentEvent list \<Rightarrow> FinancialLedgerEntry list \<Rightarrow> bool" where
  "books_agree evs es \<longleftrightarrow> distinct (map pe_event_id evs)
     \<and> list_all2 entry_of_event (filter event_reconciled evs) es"

lemma list_all2_member:
  "list_all2 R xs ys \<Longrightarrow> x \<in> set xs \<Longrightarrow> \<exists>y \<in> set ys. R x y"
  "list_all2 R xs ys \<Longrightarrow> y \<in> set ys \<Longrightarrow> \<exists>x \<in> set xs. R x y"
  by (induction rule: list_all2_induct) auto

lemma list_all2_filter:
  assumes "list_all2 R xs ys" "\<And>x y. R x y \<Longrightarrow> P x = Q y"
  shows "list_all2 R (filter P xs) (filter Q ys)"
  using assms(1) by (induction rule: list_all2_induct) (auto simp: assms(2))

lemma books_agree_filter:
  assumes "books_agree evs es"
  shows "books_agree (filter (\<lambda>e. pe_marketplace_id e = m) evs) (filter (\<lambda>e. le_marketplace_id e = m) es)"
proof -
  have "list_all2 entry_of_event (filter (\<lambda>e. pe_marketplace_id e = m) (filter event_reconciled evs))
      (filter (\<lambda>e. le_marketplace_id e = m) es)"
    using assms by (intro list_all2_filter) (auto simp: books_agree_def entry_of_event_def)
  then show ?thesis
    using assms by (simp add: books_agree_def distinct_map_filter filter_filter conj_commute)
qed

lemma books_agree_find:
  assumes "books_agree evs es" "ev \<in> set evs" "event_reconciled ev"
  shows "\<exists>e. dict_get (ledger_payment_entries es) (pe_event_id ev) = Some e \<and> entry_of_event ev e"
proof -
  have l2: "list_all2 entry_of_event (filter event_reconciled evs) es"
    and inj: "inj_on pe_event_id (set evs)" using assms(1) by (auto simp: books_agree_def distinct_map)
  have "\<exists>e \<in> set es. entry_of_event ev e"
    using list_all2_member(1)[OF l2] assms(2,3) by simp
  then obtain e0 where "e0 \<in> set es" "entry_of_event ev e0" by blast
  then obtain e where e: "dict_get (ledger_payment_entries es) (pe_event_id ev) = Some e"
    unfolding lpe_get using entry_of_event_payment[of ev e0]
    by (cases "find (\<lambda>e. is_payment_entry e \<and> the (le_source_event_id e) = pe_event_id ev) es")
      (auto simp: find_None_iff entry_of_event_def)
  then have "e \<in> set es \<and> is_payment_entry e \<and> the (le_source_event_id e) = pe_event_id ev"
    unfolding lpe_get by (metis (mono_tags, lifting) find_Some_iff nth_mem)
  then have es: "e \<in> set es" "le_source_event_id e = Some (pe_event_id ev)"
    by (auto simp: is_payment_entry_def opt_truthy_def split: option.splits)
  from list_all2_member(2)[OF l2 es(1)] obtain ev2 where ev2: "ev2 \<in> set evs" "entry_of_event ev2 e"
    by auto
  then have "pe_event_id ev2 = pe_event_id ev" using es(2) by (simp add: entry_of_event_def)
  then have "ev2 = ev" using inj_onD[OF inj _ ev2(1) assms(2)] by blast
  with e ev2(2) show ?thesis by blast
qed

lemma f_sub_self_small: "\<not> f_gt (f_abs (f_sub x x)) (fl (1/10000))"
proof (cases x)
  case (Fin r)
  have "f_le (Fin 0) (fl (1/10000))" by (rule fl_nonneg) simp
  then show ?thesis using Fin by (cases "fl (1/10000)") (auto simp: f_sub_def)
qed (simp_all add: f_sub_def)

lemma order_totals_no_refund:
  assumes "\<forall>e \<in> set es. \<not> is_refund_entry e"
  shows "\<exists>captured. order_totals S es = (captured, [], [])"
proof -
  have "\<exists>captured. fold (order_step S) es (c0, [], []) = (captured, [], [])" for c0
    using assms by (induction es arbitrary: c0) (auto simp: order_step_def)
  then show ?thesis by (simp add: order_totals_def)
qed

lemma books_agree_no_mismatch:
  assumes "books_agree evs es" "es = dict_values (lg_entries L)" "ledger_wf L"
  shows "find_mismatches tax mid evs L = []"
proof -
  define evs' where "evs' = (if opt_truthy mid then filter (\<lambda>e. pe_marketplace_id e = the mid) evs else evs)"
  have B: "books_agree evs' (ledger_report mid L)"
    using assms(1,2) books_agree_filter[of evs es "the mid"]
    by (simp add: evs'_def ledger_report_def only_marketplace_def)
  let ?es = "ledger_report mid L"
  have mem: "\<exists>ev \<in> set evs'. entry_of_event ev e" if "e \<in> set ?es" for e
    using B that list_all2_member(2) by (fastforce simp: books_agree_def)
  have 1: "concat (map (event_mismatches (ledger_payment_entries ?es)) evs') = []"
  proof -
    have "event_mismatches (ledger_payment_entries ?es) ev = []" if "ev \<in> set evs'" for ev
      using books_agree_find[OF B that] f_sub_self_small[of "pe_amount ev"]
      by (auto simp: event_mismatches_def entry_of_event_def)
    then show ?thesis by simp
  qed
  have 2: "missing_event_mismatches evs' (ledger_payment_entries ?es) = []"
  proof -
    have "k \<in> pe_event_id ` set evs'" if "(k, e) \<in> set (ledger_payment_entries ?es)" for k e
      using lpe_in[OF that] mem[of e] by (auto simp: entry_of_event_def)
    then show ?thesis by (auto simp: missing_event_mismatches_def filter_empty_conv)
  qed
  have "\<forall>e \<in> set ?es. \<not> is_refund_entry e \<and> le_entry_type e \<noteq> LT_TAX_CALCULATED"
    using mem entry_of_event_payment by blast
  moreover from this obtain captured where
    "order_totals (pe_event_id ` {e \<in> set evs'. event_reconciled e}) ?es = (captured, [], [])"
    using order_totals_no_refund by blast
  ultimately show ?thesis
    using 1 2 ledger_wf_no_duplicates[OF assms(3)]
    by (simp add: find_mismatches_def evs'_def[symmetric] Let_def duplicate_mismatches_def
        excess_mismatches_def tax_mismatches_def split: option.split)
qed

section \<open>Webhook ingestion keeps the books in agreement\<close>

definition pay_books :: "pay_ctx \<Rightarrow> bool" where
  "pay_books c \<longleftrightarrow> (\<exists>L. ctx_ledger c = Some L \<and> ledger_wf L
     \<and> le_ledger_id ` set (dict_values (lg_entries L)) \<subseteq> drawn ''le'' (ctx_world c)
     \<and> dict_wf (pay_events_by_provider_event_id (ctx_pay c))
     \<and> pe_event_id ` set (processed_events (ctx_pay c)) \<subseteq> drawn ''payev'' (ctx_world c)
     \<and> lg_idempotency_keys L \<subseteq> fst ` set (pay_events_by_idempotency (ctx_pay c))
     \<and> books_agree (processed_events (ctx_pay c)) (dict_values (lg_entries L)))"

lemma pay_books_init: "pay_books (payment_init, Some ledger_init, w)"
  by (simp add: pay_books_def ledger_wf_init books_agree_def)
    (simp add: payment_init_def ledger_init_def processed_events_def)

lemma pay_books_frame:
  assumes "pay_books c" "pay_frame c c'"
  shows "pay_books c'"
proof -
  from assms(1) obtain L where L: "ctx_ledger c = Some L" "ledger_wf L"
    "le_ledger_id ` set (dict_values (lg_entries L)) \<subseteq> drawn ''le'' (ctx_world c)"
    "dict_wf (pay_events_by_provider_event_id (ctx_pay c))"
    "pe_event_id ` set (processed_events (ctx_pay c)) \<subseteq> drawn ''payev'' (ctx_world c)"
    "lg_idempotency_keys L \<subseteq> fst ` set (pay_events_by_idempotency (ctx_pay c))"
    "books_agree (processed_events (ctx_pay c)) (dict_values (lg_entries L))"
    by (auto simp: pay_books_def)
  from assms(2) L(1) obtain L' where L': "ctx_ledger c' = Some L'" "lg_entries L' = lg_entries L"
    "lg_idempotency_keys L' = lg_idempotency_keys L"
    by (cases "ctx_ledger c'") (auto simp: pay_frame_def)
  have w: "world_le (ctx_world c) (ctx_world c')" using assms(2) by (simp add: pay_frame_def)
  have "ledger_wf L'" using L(2) by (simp add: ledger_wf_def L')
  then show ?thesis
    unfolding pay_books_def
    using L L' assms(2) subset_trans[OF L(3) drawn_mono[OF w]] subset_trans[OF L(5) drawn_mono[OF w]]
    by (intro exI[of _ L']) (simp add: pay_frame_def processed_events_def)
qed

text \<open>A new event under a key no index knows.\<close>

lemma pay_books_fresh:
  assumes "pay_books (P, lg, w)" "build_payment_event v env raw w = (Inr ev, w1)" "validators_ok v"
    and "opt_truthy (env_idempotency_key env)"
    and "\<not> key_in (env_idempotency_key env) (fst ` set (pay_events_by_idempotency P))"
    and "any_lookup (get_or raw ''provider_event_id'' PNone) (pay_events_by_provider_event_id P) = Inr None"
    and "process_payment_event ev (P, lg, w1) = (P', lg', w')" "ids_ok w'"
  shows "pay_books (P', lg', w')"
proof -
  from assms(1) obtain L where L: "lg = Some L" "ledger_wf L"
    "le_ledger_id ` set (dict_values (lg_entries L)) \<subseteq> drawn ''le'' w"
    "dict_wf (pay_events_by_provider_event_id P)"
    "pe_event_id ` set (processed_events P) \<subseteq> drawn ''payev'' w"
    "lg_idempotency_keys L \<subseteq> fst ` set (pay_events_by_idempotency P)"
    "books_agree (processed_events P) (dict_values (lg_entries L))"
    by (auto simp: pay_books_def)
  note B = build_payment_event_Inr[OF assms(2,3)]
  have key: "pe_idempotency_key ev = env_idempotency_key env" using B(3) assms(4) .
  obtain k where k: "pe_idempotency_key ev = Some k" "k \<noteq> []"
    using assms(4) unfolding key[symmetric] by (rule opt_truthyE)
  have knew: "k \<notin> fst ` set (pay_events_by_idempotency P)"
    using assms(4,5) k by (simp add: key_in_def key[symmetric])
  have pnew: "\<not> dict_in (pe_provider_event_id ev) (pay_events_by_provider_event_id P)"
    using assms(6) B(2) by (simp add: any_lookup_def dict.has_key_iff)
  note S = process_payment_event_Some[OF assms(7)[unfolded L(1)]]
  obtain L' where L': "lg' = Some L'" "lg_entries L' = lg_entries (payment_ledger_step ev L w1)"
    "lg_idempotency_keys L' = lg_idempotency_keys (payment_ledger_step ev L w1)"
    using S(2) by blast
  have w01: "world_le w w1" "uuid_n w < uuid_n w1" by (simp_all add: B(4) world_le_def)
  have w0': "world_le w w'" by (rule world_le_trans[OF w01(1) S(3)])
  have ok1: "ids_ok w1" by (rule ids_ok_before[OF S(3) assms(8)])
  have evid: "pe_event_id ev \<in> drawn ''payev'' w'"
    using drawn_next[OF w01, of "''payev''"] drawn_mono[OF S(3)] B(1) by auto
  have evnew: "pe_event_id ev \<notin> pe_event_id ` set (processed_events P)"
    using id_fresh[OF w01 ok1, of "''payev''"] L(5) unfolding B(1) by blast
  have evs: "processed_events P' = processed_events P @ [ev]"
    using pnew by (simp add: S(1) processed_events_def dict.vals_put_fresh)
  have idx: "fst ` set (pay_events_by_idempotency P') = insert k (fst ` set (pay_events_by_idempotency P))"
    using k by (simp add: S(1) keys_dict_set)
  have wf': "ledger_wf L'"
  proof -
    have "ledger_wf (payment_ledger_step ev L w1)"
      using L(2) by (simp add: payment_ledger_step_def ledger_wf_append split: option.split)
    then show ?thesis by (simp add: ledger_wf_def L')
  qed
  have mono: "le_ledger_id ` set (dict_values (lg_entries L)) \<subseteq> drawn ''le'' w'"
      "pe_event_id ` set (processed_events P) \<subseteq> drawn ''payev'' w'"
    using L(3,5) drawn_mono[OF w0'] by blast+
  have "le_ledger_id ` set (dict_values (lg_entries L')) \<subseteq> drawn ''le'' w'
      \<and> lg_idempotency_keys L' \<subseteq> insert k (lg_idempotency_keys L)
      \<and> books_agree (processed_events P @ [ev]) (dict_values (lg_entries L'))"
  proof (cases "payment_entry_type (pe_status ev)")
    case None
    then show ?thesis
      using L(7) mono evnew
      by (auto simp: L' payment_ledger_step_def books_agree_def event_reconciled_iff)
  next
    case (Some ty)
    let ?e = "fst (payment_ledger_entry ev ty w1)"
    have e: "le_idempotency_key ?e = Some k" "entry_of_event ev ?e" "le_ledger_id ?e = ''le_'' @ id_at w1 (uuid_n w1)"
      using k Some B(1) by (simp_all add: payment_ledger_entry_def opt_or_str_def entry_of_event_def)
    have kn: "\<not> key_in (le_idempotency_key ?e) (lg_idempotency_keys L)"
      using knew L(6) e(1) by (auto simp: key_in_def)
    have w1': "uuid_n w1 < uuid_n w'" using S(4) Some by simp
    have inew: "le_ledger_id ?e \<notin> le_ledger_id ` set (dict_values (lg_entries L))"
      using id_fresh[OF S(3) w1' assms(8), of "''le''"] L(3) drawn_mono[OF w01(1), of "''le''"] e(3) by auto
    have "le_ledger_id ?e \<in> drawn ''le'' w'"
      using drawn_next[OF S(3) w1', of "''le''"] e(3) by simp
    moreover have "dict_values (lg_entries L') = dict_values (lg_entries L) @ [?e]"
      unfolding L'(2) using ledger_append_log[OF L(2) kn inew] by (simp add: payment_ledger_step_def Some)
    moreover have "lg_idempotency_keys L' = insert k (lg_idempotency_keys L)"
      unfolding L'(3) using ledger_append_new(3)[OF kn] e(1) k(2)
      by (simp add: payment_ledger_step_def Some key_set_def)
    moreover have "list_all2 entry_of_event (filter event_reconciled (processed_events P @ [ev]))
        (dict_values (lg_entries L) @ [?e])"
      using L(7) e(2) Some by (simp add: books_agree_def event_reconciled_iff list_all2_appendI)
    ultimately show ?thesis
      using L(7) mono evnew by (simp add: books_agree_def)
  qed
  then show ?thesis
    unfolding pay_books_def
    using wf' L(4,6) mono evid evs idx
    by (intro exI[of _ L']) (auto simp: L'(1) S(1) dict.wf_put)
qed

lemma pay_books_step:
  assumes "pay_books c" "validators_ok v" "opt_truthy (env_idempotency_key env)"
    and "ids_ok (ctx_world (snd (ingest_webhook v ad pol env c)))"
  shows "pay_books (snd (ingest_webhook v ad pol env c))"
proof -
  obtain P lg w where c: "c = (P, lg, w)" by (cases c)
  obtain r c' where i: "ingest_webhook v ad pol env (P, lg, w) = (r, c')" by (metis surj_pair)
  from i show ?thesis
  proof (cases rule: ingest_webhook_cases)
    case (reject exn)
    then show ?thesis using pay_books_frame assms(1) i c by auto
  next
    case (replay ev)
    then show ?thesis using assms(1) i c by simp
  next
    case (fresh ev raw w1)
    obtain P' lg' w' where p: "process_payment_event ev (P, lg, w1) = (P', lg', w')" by (metis prod.exhaust)
    have "ids_ok w'" using assms(4) fresh(6) p i c by simp
    from pay_books_fresh[OF assms(1)[unfolded c] fresh(3) assms(2,3) fresh(4,5) p this]
    show ?thesis using fresh(6) p i c by simp
  qed
qed

lemma ingest_webhook_world:
  "world_le w (ctx_world (snd (ingest_webhook v ad pol env (P, Some L, w))))"
proof -
  obtain r c' where i: "ingest_webhook v ad pol env (P, Some L, w) = (r, c')" by (metis surj_pair)
  from i show ?thesis
  proof (cases rule: ingest_webhook_cases)
    case (reject exn)
    then show ?thesis using i by (simp add: pay_frame_def)
  next
    case (replay ev)
    then show ?thesis using i by simp
  next
    case (fresh ev raw w1)
    obtain P' lg' w' where p: "process_payment_event ev (P, Some L, w1) = (P', lg', w')" by (metis prod.exhaust)
    have "world_le w w1" using build_payment_event_world[of w v env raw] fresh(3) by simp
    then show ?thesis
      using world_le_trans process_payment_event_Some(3)[OF p] fresh(6) p i by auto
  qed
qed

lemma ingest_webhook_ledger:
  assumes "ctx_ledger c \<noteq> None"
  shows "ctx_ledger (snd (ingest_webhook v ad pol env c)) \<noteq> None"
proof -
  obtain P L w where c: "c = (P, Some L, w)" using assms by (cases c) auto
  obtain r c' where i: "ingest_webhook v ad pol env (P, Some L, w) = (r, c')" by (metis surj_pair)
  from i show ?thesis
  proof (cases rule: ingest_webhook_cases)
    case (reject exn)
    then show ?thesis using i c by (auto simp: pay_frame_def)
  next
    case (replay ev)
    then show ?thesis using i c by simp
  next
    case (fresh ev raw w1)
    obtain P' lg' w' where p: "process_payment_event ev (P, Some L, w1) = (P', lg', w')" by (metis prod.exhaust)
    then show ?thesis using process_payment_event_Some(2)[OF p] fresh(6) i c by auto
  qed
qed

lemma pay_books_ledger: "pay_books c \<Longrightarrow> \<exists>L. c = (ctx_pay c, Some L, ctx_world c)"
  by (cases c) (auto simp: pay_books_def)

lemma pay_books_ingest_all:
  assumes "validators_ok v" "\<forall>env \<in> set envs. opt_truthy (env_idempotency_key env)"
  shows "pay_books c \<Longrightarrow> ids_ok (ctx_world (ingest_all v ad pol envs c)) \<Longrightarrow>
     world_le (ctx_world c) (ctx_world (ingest_all v ad pol envs c))
     \<and> pay_books (ingest_all v ad pol envs c)"
  using assms(2)
proof (induction envs arbitrary: c rule: rev_induct)
  case (snoc env envs)
  have app: "ingest_all v ad pol (envs @ [env]) c = snd (ingest_webhook v ad pol env (ingest_all v ad pol envs c))" for c
    by (induction envs arbitrary: c) simp_all
  let ?d = "ingest_all v ad pol envs c"
  obtain P lg w where d: "?d = (P, lg, w)" by (cases ?d)
  have "lg \<noteq> None"
  proof -
    have "ctx_ledger (ingest_all v ad pol xs e) \<noteq> None" if "ctx_ledger e \<noteq> None" for xs e
      using that
    proof (induction xs arbitrary: e)
      case (Cons x xs)
      then show ?case using ingest_webhook_ledger[of e v ad pol x] by simp
    qed simp
    from this[of c envs] show ?thesis using pay_books_ledger[OF snoc.prems(1)] d by (metis fst_conv option.distinct(1) snd_conv)
  qed
  then obtain L where lg: "lg = Some L" by blast
  have w: "world_le w (ctx_world (ingest_all v ad pol (envs @ [env]) c))"
    unfolding app d lg by (rule ingest_webhook_world)
  then have "ids_ok (ctx_world ?d)" using snoc.prems(2) ids_ok_before d by auto
  then have IH: "world_le (ctx_world c) (ctx_world ?d)" "pay_books ?d"
    using snoc.IH[OF snoc.prems(1)] snoc.prems(3) by auto
  from pay_books_step[OF IH(2) assms(1)] snoc.prems(2,3) have "pay_books (ingest_all v ad pol (envs @ [env]) c)"
    by (simp add: app)
  then show ?case using world_le_trans[OF IH(1)] w d by simp
qed simp

lemma ingested_no_mismatch:
  assumes "validators_ok v" "\<forall>env \<in> set envs. opt_truthy (env_idempotency_key env)"
    and "ingest_all v ad pol envs (payment_init, Some ledger_init, w0) = (P, Some L, w)" "ids_ok w"
  shows "find_mismatches tax mid (processed_events P) L = []"
proof -
  have "pay_books (P, Some L, w)"
    using pay_books_ingest_all[OF assms(1,2) pay_books_init[of w0], of ad pol] assms(3,4) by simp
  then show ?thesis
    by (intro books_agree_no_mismatch[OF _ refl]) (auto simp: pay_books_def)
qed

lemma no_mismatch_healthy:
  assumes "find_mismatches tax mid (processed_events P) L = []"
  shows "\<exists>rep ctx'. run_reconciliation gov tax mid P L (RC, w) = (Inr rep, ctx')
     \<and> rec_status rep = REC_HEALTHY \<and> rec_mismatches rep = []"
  using assms
  by (simp add: run_reconciliation_def store_report_def severe_def Let_def split_beta split: option.split)

lemma sample_ingested:
  "\<exists>P L w. ingest_all plain_validators NoopPaymentAdapter default_policy
       [sample_envelope ''k1'' ''e1'' ''paid'' (Fin 100), sample_envelope ''k2'' ''e2'' ''failed'' (Fin 7)]
       (payment_init, Some ledger_init, sample_world) = (P, Some L, w)
     \<and> ids_ok w \<and> length (processed_events P) = 2 \<and> length (ledger_report None L) = 2"
proof -
  have "\<exists>P L w. ingest_all plain_validators NoopPaymentAdapter default_policy
       [sample_envelope ''k1'' ''e1'' ''paid'' (Fin 100), sample_envelope ''k2'' ''e2'' ''failed'' (Fin 7)]
       (payment_init, Some ledger_init, sample_world) = (P, Some L, w)
     \<and> uuid_n w = 8 \<and> uuid_of w = str_of_nat \<and> length (processed_events P) = 2 \<and> length (ledger_report None L) = 2"
    by (simp add: run_simps Let_def)
  moreover have "ids_ok w" if "uuid_n w = 8" "uuid_of w = str_of_nat" for w
    using that by (auto simp: ids_ok_def draws_distinct_def inj_on_def id_at_def str_of_nat.simps)
  ultimately show ?thesis by blast
qed

section \<open>Properties\<close>

text \<open>
  C1. Ingested webhooks reconcile. Start from an empty engine and ledger and deliver any sequence of
  webhooks, valid or not, repeated or not, through any adapter, each carrying an idempotency key:
  if the identifiers drawn are different, reconciliation of any marketplace finds nothing and the
  report is \<open>HEALTHY\<close>, whatever the governance kernel would say.
\<close>

theorem webhooks_reconcile:
  assumes "validators_ok v" "\<forall>env \<in> set envs. opt_truthy (env_idempotency_key env)"
    and "ingest_all v ad pol envs (payment_init, Some ledger_init, w0) = (P, Some L, w)" "ids_ok w"
  shows "\<exists>rep ctx'. run_reconciliation gov tax mid P L (RC, w) = (Inr rep, ctx')
     \<and> rec_status rep = REC_HEALTHY \<and> rec_mismatches rep = []"
  by (rule no_mismatch_healthy) (rule ingested_no_mismatch[OF assms])

theorem webhooks_reconcile_witness:
  "\<exists>P L w rep ctx'. ingest_all plain_validators NoopPaymentAdapter default_policy
       [sample_envelope ''k1'' ''e1'' ''paid'' (Fin 100), sample_envelope ''k2'' ''e2'' ''failed'' (Fin 7)]
       (payment_init, Some ledger_init, sample_world) = (P, Some L, w)
     \<and> length (ledger_report None L) = 2
     \<and> run_reconciliation None None None P L (reconciliation_init, w) = (Inr rep, ctx')
     \<and> rec_status rep = REC_HEALTHY"
proof -
  obtain P L w where q: "ingest_all plain_validators NoopPaymentAdapter default_policy
       [sample_envelope ''k1'' ''e1'' ''paid'' (Fin 100), sample_envelope ''k2'' ''e2'' ''failed'' (Fin 7)]
       (payment_init, Some ledger_init, sample_world) = (P, Some L, w)" "ids_ok w"
      "length (ledger_report None L) = 2"
    using sample_ingested by blast
  from webhooks_reconcile[OF plain_validators_ok _ q(1,2)] q(1,3) show ?thesis
    by (force simp: sample_envelope_def)
qed

text \<open>The records that a run looks at: those of its marketplace, or all when it is given none.\<close>

definition in_scope :: "string option \<Rightarrow> string \<Rightarrow> bool" where
  "in_scope mid marketplace \<longleftrightarrow> (opt_truthy mid \<longrightarrow> marketplace = the mid)"

text \<open>
  C33. A healthy report means agreeing books, for the marketplace of the run or for all of them. If a run ends \<open>HEALTHY\<close>, every
  processed event of its scope with a settled status has a payment entry of the scope in the ledger with its currency and
  status and an amount within the tolerance, every payment entry of the scope with a source belongs to a
  processed event of the scope, and no idempotency key occurs twice in the whole ledger.
\<close>

theorem healthy_means_agreement:
  assumes "run_reconciliation gov tax mid P L (RC, w) = (Inr rep, ctx')" "rec_status rep = REC_HEALTHY"
  shows "(\<forall>ev \<in> set (processed_events P). in_scope mid (pe_marketplace_id ev) \<and> event_reconciled ev \<longrightarrow>
        (\<exists>e \<in> set (ledger_report mid L). le_source_event_id e = Some (pe_event_id ev)
           \<and> le_currency e = pe_currency ev \<and> le_status e = payment_status_value (pe_status ev)
           \<and> \<not> f_gt (f_abs (f_sub (le_amount e) (pe_amount ev))) (fl (1/10000))))
     \<and> (\<forall>e \<in> set (dict_values (lg_entries L)). in_scope mid (le_marketplace_id e) \<and> is_payment_entry e \<longrightarrow>
          (\<exists>ev \<in> set (processed_events P). in_scope mid (pe_marketplace_id ev) \<and> le_source_event_id e = Some (pe_event_id ev)))
     \<and> ledger_duplicate_idempotency_keys L = []"
proof -
  obtain RC' w' where r: "run_reconciliation gov tax mid P L (RC, w) = (Inr rep, RC', w')"
    using assms(1) by (cases ctx') auto
  let ?lpe = "ledger_payment_entries (ledger_report mid L)"
  let ?events = "filter (\<lambda>ev. in_scope mid (pe_marketplace_id ev)) (processed_events P)"
  have "find_mismatches tax mid (processed_events P) L = []"
    using r
  proof (cases rule: run_reconciliation_Inr)
    case (1 ms gref st w1)
    then have "ms = []" using store_report_sel(4)[OF 1(2)] assms(2) by (auto split: if_splits)
    then show ?thesis using 1(1) new_mismatches_args(1) by (metis length_0_conv)
  qed
  moreover have "?events = (if opt_truthy mid then filter (\<lambda>e. pe_marketplace_id e = the mid) (processed_events P) else processed_events P)"
    by (simp add: in_scope_def)
  ultimately have F: "concat (map (event_mismatches ?lpe) ?events) = []"
      "missing_event_mismatches ?events ?lpe = []"
      "duplicate_mismatches mid (ledger_duplicate_idempotency_keys L) = []"
    by (simp_all add: find_mismatches_def Let_def split_beta)
  have scope: "e \<in> set (ledger_report mid L) \<longleftrightarrow> e \<in> set (dict_values (lg_entries L)) \<and> in_scope mid (le_marketplace_id e)" for e
    by (auto simp: ledger_report_def only_marketplace_def in_scope_def)
  have 1: "\<exists>e \<in> set (ledger_report mid L). le_source_event_id e = Some (pe_event_id ev)
      \<and> le_currency e = pe_currency ev \<and> le_status e = payment_status_value (pe_status ev)
      \<and> \<not> f_gt (f_abs (f_sub (le_amount e) (pe_amount ev))) (fl (1/10000))"
    if ev: "ev \<in> set ?events" "event_reconciled ev" for ev
  proof -
    have m: "event_mismatches ?lpe ev = []" using F(1) ev(1) by simp
    then obtain e where e: "dict_get ?lpe (pe_event_id ev) = Some e"
      using ev(2) by (auto simp: event_mismatches_def split: option.splits)
    then have "(pe_event_id ev, e) \<in> set ?lpe" by (simp add: dict_get_def map_of_SomeD)
    from lpe_in[OF this] show ?thesis
      using m e ev(2)
      by (intro bexI[of _ e]) (auto simp: event_mismatches_def is_payment_entry_def opt_truthy_def
          split: if_splits option.splits)
  qed
  have 2: "the (le_source_event_id e) \<in> pe_event_id ` set ?events"
    if "e \<in> set (ledger_report mid L)" "is_payment_entry e" for e
  proof -
    have "\<exists>x. dict_get ?lpe (the (le_source_event_id e)) = Some x"
      unfolding lpe_get using that
      by (cases "find (\<lambda>x. is_payment_entry x \<and> the (le_source_event_id x) = the (le_source_event_id e))
          (ledger_report mid L)") (auto simp: find_None_iff)
    then obtain x where "(the (le_source_event_id e), x) \<in> set ?lpe"
      by (auto simp: dict_get_def dest: map_of_SomeD)
    then show ?thesis using F(2) by (auto simp: missing_event_mismatches_def filter_empty_conv)
  qed
  have 3: "\<exists>ev \<in> set (processed_events P). in_scope mid (pe_marketplace_id ev) \<and> le_source_event_id e = Some (pe_event_id ev)"
    if "e \<in> set (dict_values (lg_entries L))" "in_scope mid (le_marketplace_id e)" "is_payment_entry e" for e
  proof -
    have "\<exists>i. le_source_event_id e = Some i" using that(3) by (auto simp: is_payment_entry_def opt_truthy_def split: option.splits)
    then show ?thesis using 2[of e] scope[of e] that by force
  qed
  from 1 3 F(3) show ?thesis by (simp add: duplicate_mismatches_def)
qed

text \<open>
  Reports are consistent. The count is the number of mismatches, the summary counts the mismatches
  of each kind and adds up to the total, the status is \<open>HEALTHY\<close> exactly if there is no mismatch,
  and \<open>FAILED\<close> only after a severe mismatch; the report is stored under its identifier.
\<close>

theorem reconciliation_report_consistent:
  assumes "run_reconciliation gov tax mid P L (RC, w) = (Inr rep, RC', w')"
  shows "rec_mismatch_count rep = length (rec_mismatches rep)
     \<and> sum_list (dict_values (rec_summary rep)) = rec_mismatch_count rep
     \<and> dict_get (rec_summary rep) (mismatch_kind_value k) =
         (let n = length (filter (\<lambda>m. mm_kind m = k) (rec_mismatches rep)) in if n = 0 then None else Some n)
     \<and> (rec_status rep = REC_HEALTHY \<longleftrightarrow> rec_mismatches rep = [])
     \<and> (rec_status rep = REC_FAILED \<longrightarrow> severe (rec_mismatches rep))
     \<and> dict_get (rc_reports RC') (rec_report_id rep) = Some rep"
  using assms
proof (cases rule: run_reconciliation_Inr)
  case (1 ms gref st w1)
  note S = store_report_sel[OF 1(2)]
  have sev: "severe ms \<Longrightarrow> ms \<noteq> []" by (auto simp: severe_def)
  have "count_list (map (mismatch_kind_value \<circ> mm_kind) ms) (mismatch_kind_value k)
      = length (filter (\<lambda>m. mm_kind m = k) ms)"
    by (simp add: count_list_eq_length_filter filter_map comp_def mismatch_kind_value_inj eq_commute)
  moreover have "sum_list (dict_values (reconciliation_summary ms)) = length ms"
    using count_into_sum[of "[]" "map (mismatch_kind_value \<circ> mm_kind) ms"]
    by (simp add: reconciliation_summary_def)
  ultimately show ?thesis
    using S 1(3) sev by (auto simp: reconciliation_summary_get Let_def split: if_splits)
qed

text \<open>
  A full refund is counted twice. The refund engine posts an approval and a completion entry for
  each refund and reconciliation adds up both, so a captured order of any whole amount of at least
  2 that is refunded in full is reported as refunded beyond its capture.
\<close>

theorem full_refund_reported_as_excess:
  assumes "2 \<le> n" "n < 2 ^ 51"
    and "map le_entry_type (ledger_report mid L) = [LT_PAYMENT_CAPTURED, LT_REFUND_REQUESTED, LT_REFUND_APPROVED, LT_REFUND_COMPLETED]"
    and "\<forall>e \<in> set (ledger_report mid L). le_amount e = Fin (of_int n) \<and> le_order_id e = Some oid" "oid \<noteq> []"
  shows "\<exists>m \<in> set (find_mismatches tax mid evs L). ma_kind m = REFUND_EXCEEDS_CAPTURED \<and> ma_order_id m = Some oid"
proof -
  obtain e1 e2 e3 e4 where es: "ledger_report mid L = [e1, e2, e3, e4]"
    using assms(3) by (auto simp: map_eq_Cons_conv)
  have t: "le_entry_type e1 = LT_PAYMENT_CAPTURED" "le_entry_type e2 = LT_REFUND_REQUESTED"
    "le_entry_type e3 = LT_REFUND_APPROVED" "le_entry_type e4 = LT_REFUND_COMPLETED"
    using assms(3) by (simp_all add: es)
  have a: "le_amount e = Fin (of_int n)" "le_order_id e = Some oid" if "e \<in> {e1, e2, e3, e4}" for e
    using assms(4) that by (auto simp: es)
  have s: "f_add (Fin 0) (Fin (of_int n)) = Fin (of_int n)"
      "f_add (Fin (of_int n)) (Fin (of_int n)) = Fin (of_int (n + n))"
    using fl_int[of n] fl_int[of "n + n"] assms(1,2) by simp_all
  have tot: "fst (order_totals S (ledger_report mid L)) = [(oid, Fin (of_int n))]"
      "fst (snd (order_totals S (ledger_report mid L))) = [(oid, Fin (of_int (n + n)))]" for S
    using t a[of e1] a[of e2] a[of e3] a[of e4] assms(5) s
    by (simp_all add: order_totals_def es order_step_def is_refund_entry_def add_amount_def
        dict_get_def dict_set_def)
  have "f_gt (Fin (of_int (n + n))) (f_add (Fin (of_int n)) (fl (1/10000)))"
  proof -
    have "f_le (Fin 0) (fl (1/10000))" "f_le (fl (1/10000)) (Fin 1)"
      using fl_nonneg[of "1/10000"] fl_mono[of "1/10000" 1] fl_int[of 1] by simp_all
    then obtain q where q: "fl (1/10000) = Fin q" "q \<le> 1"
      by (cases "fl (1/10000)") auto
    have "f_le (fl (of_int n + q)) (fl (of_int (n + 1)))"
      using q(2) by (intro fl_mono) simp
    also have "fl (of_int (n + 1)) = Fin (of_int (n + 1))"
      using assms(1,2) by (intro fl_int) simp
    finally have "f_le (f_add (Fin (of_int n)) (fl (1/10000))) (Fin (of_int (n + 1)))"
      by (simp add: q(1))
    then show ?thesis
      by (rule f_le_less_trans) (use assms(1) in simp)
  qed
  then show ?thesis
    by (simp add: find_mismatches_def Let_def split_beta tot excess_mismatches_def dict_get_def)
qed

text \<open>
  Posted tax always mismatches. With the tax engine attached, whose list of recent calculations is
  always empty, every tax entry in scope is reported as a tax mismatch.
\<close>

theorem posted_tax_reported_as_mismatch:
  "length (filter (\<lambda>m. ma_kind m = TAX_MISMATCH) (find_mismatches (Some recent_calculations) mid evs L))
   = length (filter (\<lambda>e. le_entry_type e = LT_TAX_CALCULATED) (ledger_report mid L))"
proof -
  have nt: "filter (\<lambda>m. ma_kind m = TAX_MISMATCH) (event_mismatches d ev) = []" for d ev
    by (simp add: event_mismatches_def split: option.split)
  have "filter (\<lambda>m. ma_kind m = TAX_MISMATCH) (concat (map (event_mismatches d) xs)) = []" for d xs
    by (induction xs) (simp_all add: nt)
  moreover have "filter (\<lambda>m. ma_kind m = TAX_MISMATCH) (snd (snd (fold (order_step S) es (c, r, ms)))) = []"
    if "filter (\<lambda>m. ma_kind m = TAX_MISMATCH) ms = []" for S es c r ms
    using that by (induction es arbitrary: c r ms) (simp_all add: order_step_def)
  ultimately show ?thesis
    by (simp add: find_mismatches_def Let_def split_beta missing_event_mismatches_def filter_map comp_def
        duplicate_mismatches_def excess_mismatches_def tax_mismatches_def recent_calculations_def
        order_totals_def)
qed

section \<open>Witnesses\<close>

theorem healthy_means_agreement_witness:
  "\<exists>P L. length (processed_events P) = 2 \<and> ledger_duplicate_idempotency_keys L = []
     \<and> (\<forall>e \<in> set (dict_values (lg_entries L)). in_scope (Some ''m1'') (le_marketplace_id e) \<and> is_payment_entry e \<longrightarrow>
          (\<exists>ev \<in> set (processed_events P). in_scope (Some ''m1'') (pe_marketplace_id ev) \<and> le_source_event_id e = Some (pe_event_id ev)))"
proof -
  obtain P L w where q: "ingest_all plain_validators NoopPaymentAdapter default_policy
       [sample_envelope ''k1'' ''e1'' ''paid'' (Fin 100), sample_envelope ''k2'' ''e2'' ''failed'' (Fin 7)]
       (payment_init, Some ledger_init, sample_world) = (P, Some L, w)" "ids_ok w"
      "length (processed_events P) = 2"
    using sample_ingested by blast
  have "find_mismatches None (Some ''m1'') (processed_events P) L = []"
    by (rule ingested_no_mismatch[OF plain_validators_ok _ q(1,2)]) (simp add: sample_envelope_def)
  from no_mismatch_healthy[OF this, of None reconciliation_init w] obtain rep ctx' where
    "run_reconciliation None None (Some ''m1'') P L (reconciliation_init, w) = (Inr rep, ctx')"
    "rec_status rep = REC_HEALTHY" by blast
  from healthy_means_agreement[OF this] q(3) show ?thesis by blast
qed

theorem reconciliation_report_consistent_witness:
  "\<exists>rep RC' w'. run_reconciliation None None None payment_init ledger_init (reconciliation_init, sample_world)
       = (Inr rep, RC', w')
     \<and> rec_mismatch_count rep = 0 \<and> dict_get (rc_reports RC') (rec_report_id rep) = Some rep"
proof -
  have "\<exists>rep RC' w'. run_reconciliation None None None payment_init ledger_init
      (reconciliation_init, sample_world) = (Inr rep, RC', w') \<and> rec_mismatches rep = []"
    by (simp add: run_reconciliation_def store_report_def find_mismatches_def order_totals_def
        ledger_payment_entries_def missing_event_mismatches_def duplicate_mismatches_def
        excess_mismatches_def tax_mismatches_def run_simps Let_def)
  then obtain rep RC' w' where q: "run_reconciliation None None None payment_init ledger_init
      (reconciliation_init, sample_world) = (Inr rep, RC', w')" "rec_mismatches rep = []" by blast
  from reconciliation_report_consistent[OF q(1), of TAX_MISMATCH] q show ?thesis by auto
qed

definition sample_entry :: "string \<Rightarrow> LedgerEntryType \<Rightarrow> FinancialLedgerEntry" where
  "sample_entry i ty = (fst (new_ledger_entry ''m1'' (Some ''o1'') None None ty (Fin 20) ''USD'' '''' (Some i)
     None None sample_world))\<lparr>le_ledger_id := i\<rparr>"

definition refunded_ledger :: FinancialLedgerEngine where
  "refunded_ledger = ledger_init\<lparr>lg_entries := map (\<lambda>(i, ty). (i, sample_entry i ty))
     [(''1'', LT_PAYMENT_CAPTURED), (''2'', LT_REFUND_REQUESTED), (''3'', LT_REFUND_APPROVED), (''4'', LT_REFUND_COMPLETED)]\<rparr>"

theorem full_refund_reported_as_excess_witness:
  "\<exists>m \<in> set (find_mismatches None None [] refunded_ledger).
     ma_kind m = REFUND_EXCEEDS_CAPTURED \<and> ma_order_id m = Some ''o1''"
  by (rule full_refund_reported_as_excess[of 20])
    (simp_all add: refunded_ledger_def sample_entry_def ledger_report_def only_marketplace_def dict_values_def)

end
