(* ===== verification/Fin_Compliance.thy ===== *)
theory Fin_Compliance
  imports Fin_Reconciliation
begin

text \<open>
  Financial compliance certification (\<^verbatim>\<open>compliance.py\<close>): ten gates over the other
  engines, the status they lead to, expiry and revocation. The engines a certification engine was
  given are a record of what the gates read of them; the certification engine of the production
  learning phase lies outside this package and enters through the report it last issued.
\<close>

section \<open>What the gates see\<close>

text \<open>The attributes read with \<open>getattr\<close> from the report of the prerequisite phase.\<close>

record learning_report =
  lr_revoked :: bool
  lr_expires_at :: "int option"
  lr_status_value :: string
  lr_id :: "string option"

record compliance_parts =
  cp_payment_engine :: bool
  cp_refund_engine :: bool
  cp_ledger :: "FinancialLedgerEngine option"
  cp_tax_engine :: bool
  cp_fraud_engine :: bool
  cp_sla_engine :: bool
  cp_reconciliation :: "ReconciliationEngine option"
  cp_learning :: "learning_report option option"
  cp_governance :: bool

record FinancialComplianceEngine =
  ce_reports :: "(string, FinancialComplianceReport) dict"

definition compliance_init :: FinancialComplianceEngine where
  "compliance_init = \<lparr>ce_reports = []\<rparr>"

text \<open>Gates: a passed gate keeps the default severity \<open>INFO\<close>.\<close>

definition gate_pass :: "string \<Rightarrow> string \<Rightarrow> string list \<Rightarrow> FinancialComplianceGate" where
  "gate_pass name reason refs =
     \<lparr>fg_name = name, fg_passed = True, fg_severity = ''INFO'', fg_reason = reason, fg_evidence_refs = refs\<rparr>"

definition gate_fail :: "string \<Rightarrow> string \<Rightarrow> string \<Rightarrow> string list \<Rightarrow> FinancialComplianceGate" where
  "gate_fail name sev reason refs =
     \<lparr>fg_name = name, fg_passed = False, fg_severity = sev, fg_reason = reason, fg_evidence_refs = refs\<rparr>"

section \<open>The gates\<close>

definition gate_payment_adapter_health :: "compliance_parts \<Rightarrow> FinancialComplianceGate" where
  "gate_payment_adapter_health cp =
     (if cp_payment_engine cp then gate_pass ''payment_adapter_health'' ''Payment adapter engine is present.'' []
      else gate_fail ''payment_adapter_health'' ''HIGH'' ''Payment adapter engine is missing.'' [])"

definition gate_refund_governance_evidence :: "compliance_parts \<Rightarrow> FinancialComplianceGate" where
  "gate_refund_governance_evidence cp =
     (if cp_refund_engine cp then gate_pass ''refund_governance_evidence'' ''Refund governance engine is present.'' []
      else gate_fail ''refund_governance_evidence'' ''HIGH'' ''Refund governance engine is missing.'' [])"

definition gate_ledger_integrity :: "compliance_parts \<Rightarrow> FinancialComplianceGate" where
  "gate_ledger_integrity cp =
     (case cp_ledger cp of
        None \<Rightarrow> gate_fail ''ledger_integrity'' ''HIGH'' ''Financial ledger is missing.'' []
      | Some L \<Rightarrow>
        (let duplicates = ledger_duplicate_idempotency_keys L in
         if duplicates \<noteq> [] then
           gate_fail ''ledger_integrity'' ''HIGH''
             (''Ledger contains duplicate idempotency keys: '' @ join '', '' duplicates) []
         else gate_pass ''ledger_integrity'' ''Ledger idempotency integrity verified.'' []))"

definition gate_reconciliation_health :: "compliance_parts \<Rightarrow> FinancialComplianceGate" where
  "gate_reconciliation_health cp =
     (case cp_reconciliation cp of
        None \<Rightarrow> gate_fail ''reconciliation_health'' ''MEDIUM'' ''Reconciliation engine is not configured.'' []
      | Some RC \<Rightarrow>
        (case latest_reconciliation_report RC of
           None \<Rightarrow> gate_fail ''reconciliation_health'' ''MEDIUM'' ''No reconciliation has been run.'' []
         | Some rep \<Rightarrow>
           if rec_status rep = REC_HEALTHY then
             gate_pass ''reconciliation_health'' ''Latest reconciliation is healthy.'' [rec_report_id rep]
           else if severe (rec_mismatches rep) \<or> rec_status rep = REC_FAILED then
             gate_fail ''reconciliation_health'' ''HIGH'' ''Reconciliation detected severe mismatches.''
               [rec_report_id rep]
           else gate_fail ''reconciliation_health'' ''MEDIUM'' ''Reconciliation has minor mismatches.''
               [rec_report_id rep]))"

definition gate_tax_adapter_evidence :: "compliance_parts \<Rightarrow> FinancialComplianceGate" where
  "gate_tax_adapter_evidence cp =
     (if cp_tax_engine cp then gate_pass ''tax_adapter_evidence'' ''Tax adapter engine is present.'' []
      else gate_fail ''tax_adapter_evidence'' ''MEDIUM'' ''Tax adapter engine is not configured.'' [])"

definition gate_fraud_control_evidence :: "compliance_parts \<Rightarrow> FinancialComplianceGate" where
  "gate_fraud_control_evidence cp =
     (if cp_fraud_engine cp then gate_pass ''fraud_control_evidence'' ''Fraud control engine is present.'' []
      else gate_fail ''fraud_control_evidence'' ''HIGH'' ''Fraud control engine is missing.'' [])"

definition gate_sla_monitoring_evidence :: "compliance_parts \<Rightarrow> FinancialComplianceGate" where
  "gate_sla_monitoring_evidence cp =
     (if cp_sla_engine cp then gate_pass ''sla_monitoring_evidence'' ''SLA monitoring engine is present.'' []
      else gate_fail ''sla_monitoring_evidence'' ''MEDIUM'' ''SLA monitoring engine is not configured.'' [])"

definition gate_audit_trail_integrity :: "compliance_parts \<Rightarrow> FinancialComplianceGate" where
  "gate_audit_trail_integrity cp =
     (case cp_ledger cp of
        None \<Rightarrow> gate_fail ''audit_trail_integrity'' ''MEDIUM''
                  ''Ledger is not configured; no audit trail available.'' []
      | Some L \<Rightarrow>
        if lg_audit_events L \<noteq> [] then
          gate_pass ''audit_trail_integrity'' ''Financial audit trail is present.''
            [str_of_nat (length (lg_audit_events L))]
        else gate_fail ''audit_trail_integrity'' ''MEDIUM'' ''Financial audit trail is empty.'' [])"

definition gate_governance_policy_evidence :: "compliance_parts \<Rightarrow> FinancialComplianceGate" where
  "gate_governance_policy_evidence cp =
     (if cp_governance cp then gate_pass ''governance_policy_evidence'' ''Governance controls are configured.'' []
      else gate_fail ''governance_policy_evidence'' ''HIGH'' ''Governance controls are not configured.'' [])"

text \<open>The clock is read only when the report of the prerequisite phase carries an expiry.\<close>

definition gate_production_learning_certification ::
  "compliance_parts \<Rightarrow> world \<Rightarrow> FinancialComplianceGate \<times> world" where
  "gate_production_learning_certification cp w =
     (let fail = gate_fail ''production_learning_certification'';
          valid = (\<lambda>rep. if lr_status_value rep = ''CERTIFIED'' \<or> lr_status_value rep = ''CONDITIONALLY_CERTIFIED''
            then gate_pass ''production_learning_certification''
                   ''Phase 26.8 production learning certification is valid.''
                   [case lr_id rep of Some i \<Rightarrow> i | None \<Rightarrow> ''unknown'']
            else fail ''HIGH'' ''Phase 26.8 production learning certification is not valid.'' [])
      in case cp_learning cp of
           None \<Rightarrow> (fail ''MEDIUM'' ''Phase 26.8 production learning certification engine is not wired.'' [], w)
         | Some None \<Rightarrow>
             (fail ''MEDIUM'' ''No Phase 26.8 production learning certification report found.'' [], w)
         | Some (Some rep) \<Rightarrow>
             if lr_revoked rep then (fail ''HIGH'' ''Phase 26.8 certification has been revoked.'' [], w)
             else (case lr_expires_at rep of
                     None \<Rightarrow> (valid rep, w)
                   | Some t \<Rightarrow>
                     (case utcnow w of (now, w) \<Rightarrow>
                        if t < now then (fail ''HIGH'' ''Phase 26.8 certification has expired.'' [], w)
                        else (valid rep, w))))"

definition compliance_gates :: "compliance_parts \<Rightarrow> world \<Rightarrow> FinancialComplianceGate list \<times> world" where
  "compliance_gates cp w =
     (case gate_production_learning_certification cp w of (g, w) \<Rightarrow>
        ([gate_payment_adapter_health cp, gate_refund_governance_evidence cp, gate_ledger_integrity cp,
          gate_reconciliation_health cp, gate_tax_adapter_evidence cp, gate_fraud_control_evidence cp,
          gate_sla_monitoring_evidence cp, gate_audit_trail_integrity cp,
          gate_governance_policy_evidence cp, g], w))"

section \<open>Certification\<close>

definition gate_failures :: "FinancialComplianceGate list \<Rightarrow> FinancialComplianceGate list" where
  "gate_failures gs = filter (\<lambda>g. \<not> fg_passed g \<and> (fg_severity g = ''HIGH'' \<or> fg_severity g = ''CRITICAL'')) gs"

definition gate_warnings :: "FinancialComplianceGate list \<Rightarrow> FinancialComplianceGate list" where
  "gate_warnings gs = filter (\<lambda>g. \<not> fg_passed g \<and> (fg_severity g = ''MEDIUM'' \<or> fg_severity g = ''INFO'')) gs"

definition gate_reasons :: "FinancialComplianceGate list \<Rightarrow> string list" where
  "gate_reasons gs = filter (\<lambda>r. r \<noteq> []) (map fg_reason gs)"

definition certification_status ::
  "MarketplaceFinancialPolicy \<Rightarrow> string \<Rightarrow> FinancialComplianceGate list \<Rightarrow> string \<times> string list" where
  "certification_status pol certified_by gs =
     (let (status, reasons) =
            (if gate_failures gs \<noteq> [] then (''NOT_CERTIFIED'', gate_reasons (gate_failures gs))
             else if gate_warnings gs \<noteq> [] \<and> pol_allow_conditional_financial_certification pol
             then (''CONDITIONALLY_CERTIFIED'', gate_reasons (gate_warnings gs))
             else (''CERTIFIED'', []))
      in if pol_require_human_financial_certification pol \<and> certified_by \<noteq> ''human'' \<and> status = ''CERTIFIED''
         then (''CONDITIONALLY_CERTIFIED'',
               reasons @ [''Human certification is required for financial certification.''])
         else (status, reasons))"

definition readiness_refs :: "MarketplaceFinancialReadinessEvidence option \<Rightarrow> string list" where
  "readiness_refs evidence = (case evidence of None \<Rightarrow> []
     | Some e \<Rightarrow> ev_slo_definitions e @ ev_runbooks e @ ev_incident_response_plans e
         @ ev_backup_restore_evidence e @ ev_observability_evidence e @ ev_dashboard_refs e
         @ ev_marketplace_metrics_refs e @ ev_payment_adapter_evidence e @ ev_fraud_evidence e
         @ ev_tax_evidence e @ ev_audit_evidence e)"

text \<open>One day in microseconds.\<close>

definition day_us :: int where
  "day_us = 24 * 60 * 60 * 1000000"

definition certify ::
  "MarketplaceFinancialPolicy \<Rightarrow> compliance_parts \<Rightarrow> string \<Rightarrow> string \<Rightarrow>
   MarketplaceFinancialReadinessEvidence option \<Rightarrow> string option \<Rightarrow>
   FinancialComplianceEngine \<times> world \<Rightarrow> FinancialComplianceReport \<times> FinancialComplianceEngine \<times> world" where
  "certify pol cp mid certified_by evidence prereq ctx =
     (case ctx of (CE, w) \<Rightarrow>
      case compliance_gates cp w of (gates, w) \<Rightarrow>
      let (status, reasons) = certification_status pol certified_by gates;
          (now, w) = utcnow w;
          (i, w) = new_id ''financial_certification'' w; (t, w) = utcnow w;
          report = \<lparr>fr_report_id = i, fr_marketplace_id = mid, fr_scope = ''financial_operations'', fr_status = status,
                    fr_gates = gates, fr_reasons = reasons, fr_evidence_refs = readiness_refs evidence,
                    fr_prerequisite_26_8_report_id = prereq, fr_certified_by = certified_by,
                    fr_created_at = t,
                    fr_expires_at = Some (now + pol_financial_certification_ttl_days pol * day_us),
                    fr_revoked_at = None, fr_revocation_reason = None\<rparr>
      in (report, CE\<lparr>ce_reports := dict_set i report (ce_reports CE)\<rparr>, w))"

definition get_compliance_report :: "string \<Rightarrow> FinancialComplianceEngine \<Rightarrow> py_exn + FinancialComplianceReport" where
  "get_compliance_report i CE =
     (case dict_get (ce_reports CE) i of
        None \<Rightarrow> Inl (KeyError (''Financial compliance report not found: '' @ i))
      | Some r \<Rightarrow> Inr r)"

definition revoke_certification ::
  "string \<Rightarrow> string \<Rightarrow> string \<Rightarrow> FinancialComplianceEngine \<times> world \<Rightarrow>
   (FinancialComplianceEngine \<times> world, FinancialComplianceReport) outcome" where
  "revoke_certification i reason revoked_by ctx =
     (case ctx of (CE, w) \<Rightarrow>
      case get_compliance_report i CE of
        Inl exn \<Rightarrow> (Inl exn, ctx)
      | Inr r \<Rightarrow>
        (let (t, w) = utcnow w;
             r' = r\<lparr>fr_status := ''REVOKED'', fr_revoked_at := Some t, fr_revocation_reason := Some reason,
                    fr_certified_by := revoked_by\<rparr>
         in (Inr r', (CE\<lparr>ce_reports := dict_set i r' (ce_reports CE)\<rparr>, w))))"

definition latest_compliance_report :: "FinancialComplianceEngine \<Rightarrow> FinancialComplianceReport option" where
  "latest_compliance_report CE =
     (if ce_reports CE = [] then None else Some (last (dict_values (ce_reports CE))))"

section \<open>Lemmas\<close>

lemmas gate_defs = gate_payment_adapter_health_def gate_refund_governance_evidence_def
  gate_ledger_integrity_def gate_reconciliation_health_def gate_tax_adapter_evidence_def
  gate_fraud_control_evidence_def gate_sla_monitoring_evidence_def gate_audit_trail_integrity_def
  gate_governance_policy_evidence_def

text \<open>Every failed gate is counted, as a failure or as a warning.\<close>

lemma gate_fail_sel [simp]: "fg_passed (gate_fail n s r e) = False" "fg_severity (gate_fail n s r e) = s"
  by (simp_all add: gate_fail_def)

lemma gate_pass_sel [simp]: "fg_passed (gate_pass n r e) = True"
  by (simp add: gate_pass_def)

definition counted_gate :: "FinancialComplianceGate \<Rightarrow> bool" where
  "counted_gate g \<longleftrightarrow> fg_passed g \<or> fg_severity g = ''HIGH'' \<or> fg_severity g = ''MEDIUM''"

lemma counted_gate_simps [simp]:
  "counted_gate (gate_pass n r e)" "counted_gate (gate_fail n ''HIGH'' r e)"
  "counted_gate (gate_fail n ''MEDIUM'' r e)"
  by (simp_all add: counted_gate_def)

lemma counted_gates:
  "counted_gate (gate_payment_adapter_health cp)" "counted_gate (gate_refund_governance_evidence cp)"
  "counted_gate (gate_ledger_integrity cp)" "counted_gate (gate_reconciliation_health cp)"
  "counted_gate (gate_tax_adapter_evidence cp)" "counted_gate (gate_fraud_control_evidence cp)"
  "counted_gate (gate_sla_monitoring_evidence cp)" "counted_gate (gate_audit_trail_integrity cp)"
  "counted_gate (gate_governance_policy_evidence cp)"
  "counted_gate (fst (gate_production_learning_certification cp w))"
  by (simp_all add: gate_defs gate_production_learning_certification_def Let_def utcnow_def
      split: option.split)

lemma compliance_gate_severity:
  assumes "g \<in> set (fst (compliance_gates cp w))" "\<not> fg_passed g"
  shows "fg_severity g = ''HIGH'' \<or> fg_severity g = ''MEDIUM''"
proof -
  have "\<forall>h \<in> set (fst (compliance_gates cp w)). counted_gate h"
    by (simp add: compliance_gates_def split_beta counted_gates)
  then show ?thesis using assms by (auto simp: counted_gate_def)
qed

lemma failed_gate_counted:
  assumes "g \<in> set (fst (compliance_gates cp w))" "\<not> fg_passed g"
  shows "g \<in> set (gate_failures (fst (compliance_gates cp w))) \<union> set (gate_warnings (fst (compliance_gates cp w)))"
  using assms compliance_gate_severity[OF assms] by (auto simp: gate_failures_def gate_warnings_def)

lemma certify_sel:
  assumes "certify pol cp mid by evidence prereq (CE, w) = (rep, CE', w')"
  shows "fr_gates rep = fst (compliance_gates cp w)"
    "fr_status rep = fst (certification_status pol by (fst (compliance_gates cp w)))"
    "ce_reports CE' = dict_set (fr_report_id rep) rep (ce_reports CE)"
    "fr_report_id rep = ''financial_certification'' @ ''_'' @ id_at w (uuid_n w)"
    "world_le w w'" "uuid_n w < uuid_n w'" "fr_revoked_at rep = None"
    "fr_expires_at rep = Some (clock_of w (clock_n (snd (compliance_gates cp w)))
       + pol_financial_certification_ttl_days pol * day_us)"
proof -
  have g: "snd (compliance_gates cp w) = w \<or> snd (compliance_gates cp w) = w\<lparr>clock_n := Suc (clock_n w)\<rparr>"
    by (auto simp: compliance_gates_def split_beta gate_production_learning_certification_def Let_def utcnow_def
        split: option.splits)
  show "fr_gates rep = fst (compliance_gates cp w)"
    "fr_status rep = fst (certification_status pol by (fst (compliance_gates cp w)))"
    "ce_reports CE' = dict_set (fr_report_id rep) rep (ce_reports CE)"
    "fr_report_id rep = ''financial_certification'' @ ''_'' @ id_at w (uuid_n w)"
    "world_le w w'" "uuid_n w < uuid_n w'" "fr_revoked_at rep = None"
    "fr_expires_at rep = Some (clock_of w (clock_n (snd (compliance_gates cp w)))
       + pol_financial_certification_ttl_days pol * day_us)"
    using assms g
    by (auto simp: certify_def Let_def split_beta new_id_def utcnow_def id_at_def world_le_def)
qed

lemma certified_gates_passed:
  assumes "certify pol cp mid by evidence prereq (CE, w) = (rep, CE', w')"
    and "fr_status rep = ''CERTIFIED''" "pol_allow_conditional_financial_certification pol"
  shows "\<forall>g \<in> set (fr_gates rep). fg_passed g"
    "pol_require_human_financial_certification pol \<longrightarrow> by = ''human''"
proof -
  note S = certify_sel(1,2)[OF assms(1)]
  have "gate_failures (fst (compliance_gates cp w)) = []" "gate_warnings (fst (compliance_gates cp w)) = []"
      and h: "pol_require_human_financial_certification pol \<longrightarrow> by = ''human''"
    using assms(2,3) by (auto simp: S(2) certification_status_def Let_def split: if_splits)
  then show "\<forall>g \<in> set (fr_gates rep). fg_passed g"
    using failed_gate_counted[of _ cp w] by (auto simp: S(1))
  from h show "pol_require_human_financial_certification pol \<longrightarrow> by = ''human''" .
qed

inductive compliance_step ::
  "MarketplaceFinancialPolicy \<Rightarrow> FinancialComplianceEngine \<times> world \<Rightarrow> FinancialComplianceEngine \<times> world \<Rightarrow> bool"
  for pol where
  step_certify: "certify pol cp mid by evidence prereq (CE, w) = (rep, CE', w') \<Longrightarrow>
    compliance_step pol (CE, w) (CE', w')"
| step_revoke: "revoke_certification i reason who (CE, w) = (r, CE', w') \<Longrightarrow>
    compliance_step pol (CE, w) (CE', w')"

definition compliance_ids :: "FinancialComplianceEngine \<times> world \<Rightarrow> bool" where
  "compliance_ids c \<longleftrightarrow> fst ` set (ce_reports (fst c)) \<subseteq> drawn ''financial_certification'' (snd c)"

lemma revoke_certification_world:
  "revoke_certification i reason who (CE, w) = (r, CE', w') \<Longrightarrow> world_le w w'"
  by (auto simp: revoke_certification_def utcnow_def Let_def world_le_def split: sum.splits)

lemma get_compliance_report_Inr:
  "get_compliance_report i CE = Inr x \<longleftrightarrow> dict_get (ce_reports CE) i = Some x"
  by (simp add: get_compliance_report_def split: option.split)

lemma compliance_step_keeps:
  assumes "compliance_step pol c c'" "compliance_ids c" "ids_ok (snd c')"
    and "dict_get (ce_reports (fst c)) i = Some x" "fr_status x = ''REVOKED''"
  shows "\<exists>y. dict_get (ce_reports (fst c')) i = Some y \<and> fr_status y = ''REVOKED''"
  using assms(1)
proof (cases rule: compliance_step.cases)
  case (step_certify cp mid cb evidence prereq CE w rep CE' w')
  note S = certify_sel[OF step_certify(3)]
  have "i \<in> fst ` set (ce_reports CE)"
    using assms(4) step_certify(1) by (force simp: dict_get_def dest: map_of_SomeD)
  then have "i \<in> drawn ''financial_certification'' w"
    using assms(2) step_certify(1) by (auto simp: compliance_ids_def)
  moreover have "fr_report_id rep \<notin> drawn ''financial_certification'' w"
    unfolding S(4) by (rule id_fresh[OF S(5,6)]) (use assms(3) step_certify(2) in simp)
  ultimately have "i \<noteq> fr_report_id rep" by blast
  then show ?thesis using assms(4,5) step_certify by (simp add: S(3) dict.lookup_put)
next
  case (step_revoke j reason who CE w r CE' w')
  then show ?thesis
    using assms(4,5)
    by (cases "get_compliance_report j CE")
      (auto simp: revoke_certification_def Let_def utcnow_def dict.lookup_put)
qed

lemma compliance_step_ids:
  assumes "compliance_step pol c c'" "compliance_ids c"
  shows "compliance_ids c' \<and> world_le (snd c) (snd c')"
  using assms(1)
proof (cases rule: compliance_step.cases)
  case (step_certify cp mid cb evidence prereq CE w rep CE' w')
  note S = certify_sel[OF step_certify(3)]
  have "fr_report_id rep \<in> drawn ''financial_certification'' w'"
    unfolding S(4) by (rule drawn_next[OF S(5,6)])
  then show ?thesis
    using assms(2) step_certify(1,2) S(5) drawn_mono[OF S(5), of "''financial_certification''"]
    by (auto simp: compliance_ids_def S(3) keys_dict_set)
next
  case (step_revoke j reason who CE w r CE' w')
  note w = revoke_certification_world[OF step_revoke(3)]
  show ?thesis
  proof (cases "get_compliance_report j CE")
    case (Inl exn)
    then show ?thesis using step_revoke assms(2) by (simp add: revoke_certification_def)
  next
    case (Inr x)
    then have j: "j \<in> fst ` set (ce_reports CE)"
      by (auto simp: get_compliance_report_Inr dict_get_def image_iff dest!: map_of_SomeD) (metis fst_conv)
    have "\<exists>y. ce_reports CE' = dict_set j y (ce_reports CE)"
      using step_revoke(3) Inr by (auto simp: revoke_certification_def Let_def utcnow_def)
    then have "fst ` set (ce_reports CE') = insert j (fst ` set (ce_reports CE))"
      by (metis keys_dict_set)
    then show ?thesis
      using j assms(2) step_revoke(1,2) w drawn_mono[OF w, of "''financial_certification''"]
      by (auto simp: compliance_ids_def insert_absorb)
  qed
qed

lemma compliance_run_keeps:
  assumes "rtranclp (compliance_step pol) c c'" "compliance_ids c"
    and "dict_get (ce_reports (fst c)) i = Some x" "fr_status x = ''REVOKED''"
  shows "compliance_ids c' \<and> (ids_ok (snd c') \<longrightarrow>
     (\<exists>y. dict_get (ce_reports (fst c')) i = Some y \<and> fr_status y = ''REVOKED''))"
  using assms(1)
proof (induction rule: rtranclp_induct)
  case base
  then show ?case using assms(2-4) by blast
next
  case (step d e)
  note I = compliance_step_ids[OF step.hyps(2)]
  then show ?case
    using step.IH compliance_step_keeps[OF step.hyps(2)] ids_ok_before[of "snd d" "snd e"] by blast
qed

declare compliance_init_def [run_simps] gate_pass_def [run_simps] gate_fail_def [run_simps]
  gate_production_learning_certification_def [run_simps] compliance_gates_def [run_simps]
  gate_failures_def [run_simps] gate_warnings_def [run_simps] gate_reasons_def [run_simps]
  certification_status_def [run_simps] readiness_refs_def [run_simps] certify_def [run_simps]
  get_compliance_report_def [run_simps] revoke_certification_def [run_simps]
  latest_reconciliation_report_def [run_simps] gate_defs [run_simps]

definition sample_parts :: "ReconciliationEngine \<Rightarrow> compliance_parts" where
  "sample_parts RC = \<lparr>cp_payment_engine = True, cp_refund_engine = True, cp_ledger = Some ledger_init,
     cp_tax_engine = True, cp_fraud_engine = True, cp_sla_engine = True, cp_reconciliation = Some RC,
     cp_learning = None, cp_governance = True\<rparr>"

section \<open>Properties\<close>

text \<open>
  C34. What a certificate vouches for. Under a policy that allows conditional certification (the
  default), a report with status \<open>CERTIFIED\<close> means that all ten gates passed, and, when the policy
  requires it, that a human certified; in particular the ledger is present without duplicate keys
  and the latest reconciliation was healthy.
\<close>

theorem certified_means_all_gates_passed:
  assumes "certify pol cp mid certified_by evidence prereq (CE, w) = (rep, CE', w')"
    and "fr_status rep = ''CERTIFIED''" "pol_allow_conditional_financial_certification pol"
  shows "length (fr_gates rep) = 10 \<and> (\<forall>g \<in> set (fr_gates rep). fg_passed g)
     \<and> (pol_require_human_financial_certification pol \<longrightarrow> certified_by = ''human'')
     \<and> (\<exists>L RC rec. cp_ledger cp = Some L \<and> ledger_duplicate_idempotency_keys L = []
          \<and> cp_reconciliation cp = Some RC \<and> latest_reconciliation_report RC = Some rec
          \<and> rec_status rec = REC_HEALTHY)"
proof -
  note S = certify_sel(1,2)[OF assms(1)]
  let ?gs = "fst (compliance_gates cp w)"
  note st = certified_gates_passed(2)[OF assms]
  have all: "\<forall>g \<in> set ?gs. fg_passed g" using certified_gates_passed(1)[OF assms] S(1) by simp
  then have "fg_passed (gate_ledger_integrity cp)" "fg_passed (gate_reconciliation_health cp)"
    by (auto simp: compliance_gates_def split_beta)
  then have "\<exists>L RC rec. cp_ledger cp = Some L \<and> ledger_duplicate_idempotency_keys L = []
      \<and> cp_reconciliation cp = Some RC \<and> latest_reconciliation_report RC = Some rec
      \<and> rec_status rec = REC_HEALTHY"
    by (auto simp: gate_ledger_integrity_def gate_reconciliation_health_def Let_def
        split: option.splits if_splits)
  moreover have "length ?gs = 10" by (simp add: compliance_gates_def split_beta)
  ultimately show ?thesis using all st S(1) by simp
qed

text \<open>
  A failed gate of high severity always refuses certification, whoever certifies and whatever the
  policy says; the reasons of the failed gates are those of the report.
\<close>

theorem severe_gate_refuses:
  assumes "certify pol cp mid certified_by evidence prereq (CE, w) = (rep, CE', w')"
    and "g \<in> set (fr_gates rep)" "\<not> fg_passed g" "fg_severity g = ''HIGH''"
  shows "fr_status rep = ''NOT_CERTIFIED''"
proof -
  note S = certify_sel(1,2)[OF assms(1)]
  have "gate_failures (fst (compliance_gates cp w)) \<noteq> []"
    using assms(2-4) by (auto simp: S(1) gate_failures_def filter_empty_conv)
  then show ?thesis by (simp add: S(2) certification_status_def Let_def)
qed

text \<open>
  The strict policy is the lax one. When the policy forbids conditional certification and no gate
  fails with high severity, warnings are dropped: a human certifier gets \<open>CERTIFIED\<close>, with no
  reasons given, although a gate failed.
\<close>

theorem strict_policy_certifies_with_warnings:
  assumes "certify pol cp mid ''human'' evidence prereq (CE, w) = (rep, CE', w')"
    and "\<not> pol_allow_conditional_financial_certification pol"
    and "\<forall>g \<in> set (fr_gates rep). \<not> fg_passed g \<longrightarrow> fg_severity g = ''MEDIUM''"
  shows "fr_status rep = ''CERTIFIED'' \<and> fr_reasons rep = []"
proof -
  have "gate_failures (fst (compliance_gates cp w)) = []"
    using assms(3) certify_sel(1)[OF assms(1)] by (auto simp: gate_failures_def filter_empty_conv)
  then show ?thesis
    using assms(1,2) by (auto simp: certify_def certification_status_def Let_def split_beta)
qed

text \<open>
  Revocation is final. A revoked report is found with status \<open>REVOKED\<close> after any sequence of
  further certifications and revocations, provided the identifiers drawn are different.
\<close>

theorem revocation_is_final:
  assumes "revoke_certification i reason who (CE, w) = (Inr r, c1)" "compliance_ids (CE, w)"
    and "rtranclp (compliance_step pol) c1 (CE2, w2)" "ids_ok w2"
  shows "\<exists>y. get_compliance_report i CE2 = Inr y \<and> fr_status y = ''REVOKED''"
proof -
  obtain CE1 w1 where c1: "c1 = (CE1, w1)" by (cases c1)
  have r: "dict_get (ce_reports CE1) i = Some r" "fr_status r = ''REVOKED''"
    using assms(1) by (auto simp: c1 revoke_certification_def Let_def utcnow_def split: sum.splits)
  have "compliance_ids c1"
    using compliance_step_ids[OF step_revoke] assms(1,2) unfolding c1 by blast
  from compliance_run_keeps[OF assms(3) this] r assms(4) show ?thesis
    by (auto simp: c1 get_compliance_report_Inr)
qed

section \<open>Witnesses\<close>

definition sample_reconciliation :: ReconciliationEngine where
  "sample_reconciliation = \<lparr>rc_reports = [(''r1'', \<lparr>rec_report_id = ''r1'', rec_marketplace_id = '''',
     rec_generated_at = 0, rec_total_entries = 0, rec_mismatch_count = 0, rec_mismatches = [],
     rec_summary = [], rec_governance_ref = None, rec_status = REC_HEALTHY\<rparr>)]\<rparr>"

definition full_parts :: compliance_parts where
  "full_parts = (sample_parts sample_reconciliation)
     \<lparr>cp_ledger := Some (ledger_init\<lparr>lg_audit_events := [fst (new_audit_event '''' '''' '''' '''' None None None
        None None None '''' sample_world)]\<rparr>),
      cp_learning := Some (Some \<lparr>lr_revoked = False, lr_expires_at = None, lr_status_value = ''CERTIFIED'',
        lr_id = Some ''x''\<rparr>)\<rparr>"

lemma run_certify:
  "\<exists>rep CE' w'. certify default_policy full_parts ''m'' ''human'' None None (compliance_init, sample_world) = (rep, CE', w')
     \<and> fr_status rep = ''CERTIFIED''"
  by (simp add: full_parts_def sample_parts_def sample_reconciliation_def run_simps Let_def)

theorem certified_means_all_gates_passed_witness:
  "\<exists>rep CE' w'. certify default_policy full_parts ''m'' ''human'' None None (compliance_init, sample_world) = (rep, CE', w')
     \<and> (\<forall>g \<in> set (fr_gates rep). fg_passed g)"
proof -
  from run_certify obtain rep CE' w' where q: "certify default_policy full_parts ''m'' ''human'' None None
      (compliance_init, sample_world) = (rep, CE', w')" "fr_status rep = ''CERTIFIED''" by blast
  have "pol_allow_conditional_financial_certification default_policy" by (simp add: default_policy_def)
  from certified_means_all_gates_passed[OF q this] q(1) show ?thesis by blast
qed

lemma run_certify_missing:
  "\<exists>rep CE' w'. certify pol (full_parts\<lparr>cp_fraud_engine := False\<rparr>) ''m'' ''human'' None None
       (compliance_init, sample_world) = (rep, CE', w')
     \<and> (\<exists>g \<in> set (fr_gates rep). \<not> fg_passed g \<and> fg_severity g = ''HIGH'')"
  by (simp add: full_parts_def sample_parts_def sample_reconciliation_def run_simps Let_def)

theorem severe_gate_refuses_witness:
  "\<exists>rep CE' w'. certify default_policy (full_parts\<lparr>cp_fraud_engine := False\<rparr>) ''m'' ''human'' None None
     (compliance_init, sample_world) = (rep, CE', w') \<and> fr_status rep = ''NOT_CERTIFIED''"
proof -
  from run_certify_missing obtain rep CE' w' g where
    "certify default_policy (full_parts\<lparr>cp_fraud_engine := False\<rparr>) ''m'' ''human'' None None
       (compliance_init, sample_world) = (rep, CE', w')"
    "g \<in> set (fr_gates rep)" "\<not> fg_passed g" "fg_severity g = ''HIGH''" by blast
  from this(1) severe_gate_refuses[OF this] show ?thesis by blast
qed

definition strict_policy :: MarketplaceFinancialPolicy where
  "strict_policy = default_policy\<lparr>pol_allow_conditional_financial_certification := False\<rparr>"

theorem strict_policy_certifies_with_warnings_witness:
  "\<exists>rep CE' w'. certify strict_policy (sample_parts reconciliation_init) ''m'' ''human'' None None
     (compliance_init, sample_world) = (rep, CE', w')
     \<and> (\<exists>g \<in> set (fr_gates rep). \<not> fg_passed g) \<and> fr_status rep = ''CERTIFIED''"
proof -
  have "\<exists>rep CE' w'. certify strict_policy (sample_parts reconciliation_init) ''m'' ''human'' None None
     (compliance_init, sample_world) = (rep, CE', w')
     \<and> (\<exists>g \<in> set (fr_gates rep). \<not> fg_passed g)
     \<and> (\<forall>g \<in> set (fr_gates rep). \<not> fg_passed g \<longrightarrow> fg_severity g = ''MEDIUM'')"
    by (simp add: sample_parts_def reconciliation_init_def run_simps Let_def)
  then obtain rep CE' w' where q: "certify strict_policy (sample_parts reconciliation_init) ''m'' ''human'' None None
     (compliance_init, sample_world) = (rep, CE', w')" "\<exists>g \<in> set (fr_gates rep). \<not> fg_passed g"
     "\<forall>g \<in> set (fr_gates rep). \<not> fg_passed g \<longrightarrow> fg_severity g = ''MEDIUM''" by blast
  have "\<not> pol_allow_conditional_financial_certification strict_policy" by (simp add: strict_policy_def)
  from strict_policy_certifies_with_warnings[OF q(1) this q(3)] q show ?thesis by blast
qed

theorem revocation_is_final_witness:
  "\<exists>rep CE w r CE1 w1 y. certify default_policy full_parts ''m'' ''human'' None None
       (compliance_init, sample_world) = (rep, CE, w)
     \<and> revoke_certification (fr_report_id rep) ''why'' ''who'' (CE, w) = (Inr r, CE1, w1)
     \<and> get_compliance_report (fr_report_id rep) CE1 = Inr y \<and> fr_status y = ''REVOKED''"
proof -
  obtain rep CE w where c: "certify default_policy full_parts ''m'' ''human'' None None
      (compliance_init, sample_world) = (rep, CE, w)" by (metis surj_pair)
  have step: "compliance_step default_policy (compliance_init, sample_world) (CE, w)"
    using c by (rule step_certify)
  have ids: "compliance_ids (CE, w)"
    using compliance_step_ids[OF step] by (simp add: compliance_ids_def compliance_init_def)
  have "\<exists>r CE1 w1. revoke_certification (fr_report_id rep) ''why'' ''who'' (CE, w) = (Inr r, CE1, w1) \<and> uuid_n w1 = uuid_n w
      \<and> uuid_of w1 = uuid_of w"
    using certify_sel(3)[OF c]
    by (simp add: revoke_certification_def get_compliance_report_def Let_def utcnow_def)
  then obtain r CE1 w1 where r: "revoke_certification (fr_report_id rep) ''why'' ''who'' (CE, w) = (Inr r, CE1, w1)"
    "uuid_n w1 = uuid_n w" "uuid_of w1 = uuid_of w" by blast
  have "uuid_n w = 1" "uuid_of w = str_of_nat"
    using c by (auto simp: full_parts_def sample_parts_def sample_reconciliation_def run_simps Let_def)
  then have "ids_ok w1"
    using r(2,3) by (auto simp: ids_ok_def draws_distinct_def inj_on_def)
  from revocation_is_final[OF r(1) ids rtranclp.rtrancl_refl this] c r(1) show ?thesis by blast
qed

end
