(* ===== verification/Fin_Sla.thy ===== *)
theory Fin_Sla
  imports Fin_Models
begin

text \<open>
  Service level monitoring (\<^verbatim>\<open>sla.py\<close>). Observations are kept per domain; a report prunes
  them to the window of the definition, reading the clock for each pruning, and classifies each
  domain. Observation times are aware time stamps in microseconds, and windows are lengths that
  \<open>timedelta\<close> can hold.
\<close>

section \<open>Definitions and state\<close>

record sla_observation =
  ob_value :: pyfloat
  ob_success :: bool
  ob_at :: int

definition new_sla_definition :: "SLADomain \<Rightarrow> pyfloat \<Rightarrow> SLAComparator \<Rightarrow> SLADefinition" where
  "new_sla_definition d target cmp =
     \<lparr>sd_domain = d, sd_target_value = target, sd_comparator = cmp, sd_window_seconds = 300,
      sd_warning_threshold_pct = fl (8/10), sd_breach_threshold_pct = fl (95/100),
      sd_severity_on_breach = SEV_HIGH\<rparr>"

definition DEFAULT_SLA_DEFINITIONS :: "SLADefinition list" where
  "DEFAULT_SLA_DEFINITIONS =
     [new_sla_definition PAYMENT_WEBHOOK_PROCESSING_LATENCY (Fin 500) LESS_THAN_MS,
      new_sla_definition PAYMENT_EVENT_INGESTION_SUCCESS_RATE (fl (99/100)) GREATER_THAN_RATE,
      new_sla_definition REFUND_PROCESSING_LATENCY (Fin 1000) LESS_THAN_MS,
      new_sla_definition RECONCILIATION_FRESHNESS (Fin 900) LESS_THAN_MS,
      new_sla_definition FRAUD_ASSESSMENT_LATENCY (Fin 200) LESS_THAN_MS,
      new_sla_definition TAX_CALCULATION_LATENCY (Fin 500) LESS_THAN_MS,
      new_sla_definition MARKETPLACE_API_AVAILABILITY (fl (999/1000)) GREATER_THAN_RATE,
      new_sla_definition LISTING_PUBLICATION_LATENCY (Fin 3000) LESS_THAN_MS]"

text \<open>The enumeration order of \<open>SLADomain\<close>.\<close>

definition sla_domains :: "SLADomain list" where
  "sla_domains = [PAYMENT_WEBHOOK_PROCESSING_LATENCY, PAYMENT_EVENT_INGESTION_SUCCESS_RATE,
     REFUND_PROCESSING_LATENCY, RECONCILIATION_FRESHNESS, FRAUD_ASSESSMENT_LATENCY,
     TAX_CALCULATION_LATENCY, MARKETPLACE_API_AVAILABILITY, LISTING_PUBLICATION_LATENCY]"

record SLAMonitorEngine =
  sl_marketplace_id :: string
  sl_definitions :: "(SLADomain, SLADefinition) dict"
  sl_observations :: "(SLADomain, sla_observation list) dict"
  sl_breach_counts :: "(SLADomain, nat) dict"
  sl_last_breach_at :: "(SLADomain, int option) dict"

definition sla_init :: "string \<Rightarrow> SLADefinition list \<Rightarrow> SLAMonitorEngine" where
  "sla_init mid defs =
     \<lparr>sl_marketplace_id = mid,
      sl_definitions = fold (\<lambda>d. dict_set (sd_domain d) d)
        (if defs \<noteq> [] then defs else DEFAULT_SLA_DEFINITIONS) [],
      sl_observations = [],
      sl_breach_counts = map (\<lambda>d. (d, 0)) sla_domains,
      sl_last_breach_at = map (\<lambda>d. (d, None)) sla_domains\<rparr>"

section \<open>Operations\<close>

text \<open>Reading \<open>_observations[domain]\<close> on the \<open>defaultdict\<close> creates the entry.\<close>

definition sla_touch :: "SLADomain \<Rightarrow> SLAMonitorEngine \<Rightarrow> sla_observation list \<times> SLAMonitorEngine" where
  "sla_touch d S =
     (let obs = dict_setdefault d [] (sl_observations S)
      in (the (dict_get obs d), S\<lparr>sl_observations := obs\<rparr>))"

definition sla_record ::
  "SLADomain \<Rightarrow> pyfloat \<Rightarrow> bool \<Rightarrow> int option \<Rightarrow> SLAMonitorEngine \<times> world \<Rightarrow> SLAMonitorEngine \<times> world" where
  "sla_record d value success recorded_at ctx =
     (case ctx of (S, w) \<Rightarrow>
      case sla_touch d S of (obs, S) \<Rightarrow>
      case (case recorded_at of Some t \<Rightarrow> (t, w) | None \<Rightarrow> utcnow w) of (t, w) \<Rightarrow>
        (S\<lparr>sl_observations := dict_set d
             (obs @ [\<lparr>ob_value = value, ob_success = success, ob_at = t\<rparr>]) (sl_observations S)\<rparr>, w))"

definition in_window :: "SLADefinition \<Rightarrow> int \<Rightarrow> sla_observation \<Rightarrow> bool" where
  "in_window df now ob = (now - ob_at ob \<le> sd_window_seconds df * 1000000)"

definition sla_prune ::
  "SLADomain \<Rightarrow> SLADefinition \<Rightarrow> SLAMonitorEngine \<times> world \<Rightarrow>
   sla_observation list \<times> SLAMonitorEngine \<times> world" where
  "sla_prune d df ctx =
     (case ctx of (S, w) \<Rightarrow>
      case utcnow w of (now, w) \<Rightarrow>
      case sla_touch d S of (obs, S) \<Rightarrow> (filter (in_window df now) obs, S, w))"

definition sla_breach :: "SLADomain \<Rightarrow> SLAMonitorEngine \<times> world \<Rightarrow> SLAMonitorEngine \<times> world" where
  "sla_breach d ctx =
     (case ctx of (S, w) \<Rightarrow>
      case utcnow w of (t, w) \<Rightarrow>
        (S\<lparr>sl_breach_counts := dict_set d (Suc (the (dict_get (sl_breach_counts S) d))) (sl_breach_counts S),
           sl_last_breach_at := dict_set d (Some t) (sl_last_breach_at S)\<rparr>, w))"

definition success_rate :: "sla_observation list \<Rightarrow> pyfloat" where
  "success_rate obs = f_int_div (int (length (filter ob_success obs))) (int (length obs))"

text \<open>The classification that \<open>_evaluate\<close> makes of the observations in the window.\<close>

definition sla_classify :: "SLADefinition \<Rightarrow> sla_observation list \<Rightarrow> SLAStatus" where
  "sla_classify df recent =
     (if recent = [] then SLA_WARNING
      else case sd_comparator df of
        LESS_THAN_MS \<Rightarrow>
          (let latest = ob_value (last recent) in
           if f_gt latest (sd_target_value df) then SLA_BREACH
           else if f_gt latest (f_mul (sd_target_value df) (sd_warning_threshold_pct df)) then SLA_WARNING
           else SLA_OK)
      | GREATER_THAN_RATE \<Rightarrow>
          (let rate = success_rate recent in
           if f_lt rate (sd_target_value df) then SLA_BREACH
           else if f_lt rate (f_mul (sd_target_value df) (sd_warning_threshold_pct df)) then SLA_WARNING
           else SLA_OK))"

definition sla_evaluate ::
  "SLADomain \<Rightarrow> SLADefinition \<Rightarrow> SLAMonitorEngine \<times> world \<Rightarrow> SLAStatus \<times> SLAMonitorEngine \<times> world" where
  "sla_evaluate d df ctx =
     (case sla_prune d df ctx of (recent, ctx) \<Rightarrow>
      let status = sla_classify df recent
      in (status, if status = SLA_BREACH then sla_breach d ctx else ctx))"

definition current_value :: "SLADefinition \<Rightarrow> sla_observation list \<Rightarrow> pyfloat" where
  "current_value df recent =
     (if recent = [] then sd_target_value df
      else case sd_comparator df of
        LESS_THAN_MS \<Rightarrow> ob_value (last recent)
      | GREATER_THAN_RATE \<Rightarrow> success_rate recent)"

text \<open>One turn of the loop of \<open>get_sla_report\<close>.\<close>

definition sla_item ::
  "SLADomain \<Rightarrow> SLADefinition \<Rightarrow> SLAMonitorEngine \<times> world \<Rightarrow> SLAStatusItem \<times> SLAMonitorEngine \<times> world" where
  "sla_item d df ctx =
     (case sla_prune d df ctx of (recent, ctx) \<Rightarrow>
      case sla_evaluate d df ctx of (status, S, w) \<Rightarrow>
        (\<lparr>si_domain = d, si_status = status, si_current_value = f_round 4 (current_value df recent),
          si_target_value = sd_target_value df,
          si_breach_count = the (dict_get (sl_breach_counts S) d),
          si_last_breach_at = the (dict_get (sl_last_breach_at S) d)\<rparr>, S, w))"

definition next_overall :: "SLAStatus \<Rightarrow> SLAStatusOverall \<Rightarrow> SLAStatusOverall" where
  "next_overall status overall =
     (if status = SLA_BREACH then SO_BREACH
      else if status = SLA_WARNING \<and> overall = SO_HEALTHY then SO_DEGRADED
      else overall)"

fun sla_loop ::
  "(SLADomain, SLADefinition) dict \<Rightarrow> SLAStatusItem list \<Rightarrow> string list \<Rightarrow> SLAStatusOverall \<Rightarrow>
   SLAMonitorEngine \<times> world \<Rightarrow>
   (SLAStatusItem list \<times> string list \<times> SLAStatusOverall) \<times> SLAMonitorEngine \<times> world" where
  "sla_loop [] items breaches overall ctx = ((items, breaches, overall), ctx)"
| "sla_loop ((d, df) # ds) items breaches overall ctx =
     (case sla_item d df ctx of (item, ctx) \<Rightarrow>
        sla_loop ds (items @ [item])
          (if si_status item = SLA_BREACH then breaches @ [''SLA breach on '' @ sla_domain_value d]
           else breaches)
          (next_overall (si_status item) overall) ctx)"

definition get_sla_report ::
  "SLAMonitorEngine \<times> world \<Rightarrow> SLAStatusReport \<times> SLAMonitorEngine \<times> world" where
  "get_sla_report ctx =
     (case sla_loop (sl_definitions (fst ctx)) [] [] SO_HEALTHY ctx of ((items, breaches, overall), S, w) \<Rightarrow>
      case utcnow w of (t, w) \<Rightarrow>
        (\<lparr>sr_marketplace_id = sl_marketplace_id S, sr_generated_at = t, sr_items = items,
          sr_overall_status = overall, sr_alerts = breaches,
          sr_recommendations =
            (if overall = SO_BREACH then [''Investigate SLA breaches and escalate if sustained.''] else [])
            @ (if breaches \<noteq> [] then [''Run governance review for repeated SLA breaches.''] else [])\<rparr>,
         S, w))"

definition record_latency ::
  "SLADomain \<Rightarrow> pyfloat \<Rightarrow> bool \<Rightarrow> SLAMonitorEngine \<times> world \<Rightarrow> SLAMonitorEngine \<times> world" where
  "record_latency d ms success ctx = sla_record d ms success None ctx"

section \<open>One domain\<close>

text \<open>The observations and the breach count of a domain, whether or not its entry exists.\<close>

definition obs_of :: "SLAMonitorEngine \<Rightarrow> SLADomain \<Rightarrow> sla_observation list" where
  "obs_of S d = (case dict_get (sl_observations S) d of None \<Rightarrow> [] | Some obs \<Rightarrow> obs)"

definition breaches_of :: "SLAMonitorEngine \<Rightarrow> SLADomain \<Rightarrow> nat" where
  "breaches_of S d = the (dict_get (sl_breach_counts S) d)"

lemma obs_of_update [simp]:
  "obs_of (S\<lparr>sl_breach_counts := B\<rparr>) = obs_of S" "obs_of (S\<lparr>sl_last_breach_at := L\<rparr>) = obs_of S"
  by (simp_all add: obs_of_def fun_eq_iff)

lemma sla_touch_sel [simp]:
  "fst (sla_touch d S) = obs_of S d" "obs_of (snd (sla_touch d S)) = obs_of S"
  "breaches_of (snd (sla_touch d S)) = breaches_of S"
  "sl_breach_counts (snd (sla_touch d S)) = sl_breach_counts S"
  "sl_definitions (snd (sla_touch d S)) = sl_definitions S"
  "sl_marketplace_id (snd (sla_touch d S)) = sl_marketplace_id S"
  by (auto simp: sla_touch_def Let_def dict_setdefault_get obs_of_def breaches_of_def fun_eq_iff
      split: option.split)

lemma sla_prune_eq:
  "sla_prune d df (S, w) = (filter (in_window df (clock_of w (clock_n w))) (obs_of S d),
     snd (sla_touch d S), w\<lparr>clock_n := Suc (clock_n w)\<rparr>)"
  using sla_touch_sel(1)[of d S] by (cases "sla_touch d S") (simp add: sla_prune_def utcnow_def)

text \<open>What the turn for one domain does: it classifies the observations in the window at some
  clock reading of the turn, and counts a breach when it finds one.\<close>

definition classified_at :: "SLADefinition \<Rightarrow> SLAMonitorEngine \<Rightarrow> SLADomain \<Rightarrow> world \<Rightarrow> nat \<Rightarrow> SLAStatus" where
  "classified_at df S d w n = sla_classify df (filter (in_window df (clock_of w n)) (obs_of S d))"

lemma sla_item_spec:
  assumes "sla_item d df (S, w) = (item, S', w')"
  shows "si_domain item = d" "si_status item = classified_at df S d w (Suc (clock_n w))"
    "obs_of S' = obs_of S" "sl_definitions S' = sl_definitions S" "sl_marketplace_id S' = sl_marketplace_id S"
    "clock_of w' = clock_of w" "Suc (clock_n w) < clock_n w'"
    "breaches_of S' = (breaches_of S)(d := breaches_of S d + (if si_status item = SLA_BREACH then 1 else 0))"
    "si_breach_count item = breaches_of S' d"
proof -
  let ?w1 = "w\<lparr>clock_n := Suc (clock_n w)\<rparr>" and ?S1 = "snd (sla_touch d S)"
  let ?S2 = "snd (sla_touch d ?S1)" and ?w2 = "w\<lparr>clock_n := Suc (Suc (clock_n w))\<rparr>"
  have e: "sla_evaluate d df (?S1, ?w1) = (classified_at df S d w (Suc (clock_n w)),
      if classified_at df S d w (Suc (clock_n w)) = SLA_BREACH then sla_breach d (?S2, ?w2) else (?S2, ?w2))"
    by (simp add: sla_evaluate_def sla_prune_eq classified_at_def Let_def)
  have b: "sla_breach d (?S2, ?w2) =
     (?S2\<lparr>sl_breach_counts := dict_set d (Suc (breaches_of ?S2 d)) (sl_breach_counts ?S2),
        sl_last_breach_at := dict_set d (Some (clock_of w (Suc (Suc (clock_n w))))) (sl_last_breach_at ?S2)\<rparr>,
      w\<lparr>clock_n := Suc (Suc (Suc (clock_n w)))\<rparr>)"
    by (simp add: sla_breach_def utcnow_def breaches_of_def)
  have bd: "breaches_of (?S2\<lparr>sl_breach_counts := dict_set d (Suc (breaches_of ?S2 d)) (sl_breach_counts ?S2),
        sl_last_breach_at := L\<rparr>) = (breaches_of S)(d := Suc (breaches_of S d))" for L
  proof -
    have "breaches_of ?S2 = breaches_of S" by simp
    then show ?thesis by (auto simp: breaches_of_def dict.lookup_put fun_eq_iff)
  qed
  have od: "obs_of (?S2\<lparr>sl_breach_counts := B, sl_last_breach_at := L\<rparr>) = obs_of S" for B L
    by simp
  show "si_domain item = d" "si_status item = classified_at df S d w (Suc (clock_n w))"
    "obs_of S' = obs_of S" "sl_definitions S' = sl_definitions S" "sl_marketplace_id S' = sl_marketplace_id S"
    "clock_of w' = clock_of w" "Suc (clock_n w) < clock_n w'"
    "breaches_of S' = (breaches_of S)(d := breaches_of S d + (if si_status item = SLA_BREACH then 1 else 0))"
    "si_breach_count item = breaches_of S' d"
    using assms bd od
    by (auto simp: sla_item_def sla_prune_eq e b breaches_of_def split: if_splits)
qed

section \<open>The whole report\<close>

definition alerts_of :: "SLAStatusItem list \<Rightarrow> string list" where
  "alerts_of items = map (\<lambda>i. ''SLA breach on '' @ sla_domain_value (si_domain i))
     (filter (\<lambda>i. si_status i = SLA_BREACH) items)"

lemma sla_loop_spec:
  assumes "sla_loop ds items br ov (S, w) = ((items', br', ov'), S', w')"
  shows "\<exists>new. items' = items @ new \<and> br' = br @ alerts_of new
     \<and> ov' = fold next_overall (map si_status new) ov
     \<and> map si_domain new = map fst ds
     \<and> list_all2 (\<lambda>(d, df) i. \<exists>n. clock_n w \<le> n \<and> n < clock_n w'
          \<and> si_status i = classified_at df S d w n) ds new
     \<and> clock_of w' = clock_of w \<and> clock_n w \<le> clock_n w' \<and> sl_marketplace_id S' = sl_marketplace_id S
     \<and> (distinct (map fst ds) \<longrightarrow> (\<forall>d. breaches_of S' d = breaches_of S d
          + (if \<exists>i \<in> set new. si_domain i = d \<and> si_status i = SLA_BREACH then 1 else 0)))"
  using assms
proof (induction ds arbitrary: items br ov S w)
  case Nil
  then show ?case by (auto simp: alerts_of_def)
next
  case (Cons p ds)
  obtain d df where p: "p = (d, df)" by (cases p)
  obtain i S1 w1 where i: "sla_item d df (S, w) = (i, S1, w1)" by (metis surj_pair)
  note I = sla_item_spec[OF i]
  from Cons.prems have "sla_loop ds (items @ [i])
      (if si_status i = SLA_BREACH then br @ [''SLA breach on '' @ sla_domain_value d] else br)
      (next_overall (si_status i) ov) (S1, w1) = ((items', br', ov'), S', w')"
    by (simp add: p i)
  from Cons.IH[OF this] obtain new where new:
    "items' = (items @ [i]) @ new"
    "br' = (if si_status i = SLA_BREACH then br @ [''SLA breach on '' @ sla_domain_value d] else br) @ alerts_of new"
    "ov' = fold next_overall (map si_status new) (next_overall (si_status i) ov)"
    "map si_domain new = map fst ds"
    "list_all2 (\<lambda>(d, df) i. \<exists>n. clock_n w1 \<le> n \<and> n < clock_n w'
        \<and> si_status i = classified_at df S1 d w1 n) ds new"
    "clock_of w' = clock_of w1" "clock_n w1 \<le> clock_n w'" "sl_marketplace_id S' = sl_marketplace_id S1"
    "distinct (map fst ds) \<longrightarrow> (\<forall>d. breaches_of S' d = breaches_of S1 d
        + (if \<exists>i \<in> set new. si_domain i = d \<and> si_status i = SLA_BREACH then 1 else 0))"
    by blast
  have c: "classified_at df' S1 d' w1 n = classified_at df' S d' w n" for df' d' n
    by (simp add: classified_at_def I(3,6))
  have "list_all2 (\<lambda>(d, df) i. \<exists>n. clock_n w \<le> n \<and> n < clock_n w'
        \<and> si_status i = classified_at df S d w n) (p # ds) (i # new)"
  proof -
    have "\<exists>n. clock_n w \<le> n \<and> n < clock_n w' \<and> si_status i = classified_at df S d w n"
      using I(2,7) new(7) by (intro exI[of _ "Suc (clock_n w)"]) simp
    moreover have "list_all2 (\<lambda>(d, df) i. \<exists>n. clock_n w \<le> n \<and> n < clock_n w'
        \<and> si_status i = classified_at df S d w n) ds new"
    proof (rule list_all2_mono[OF new(5)], clarsimp simp: c)
      fix a b n assume "clock_n w1 \<le> n" "n < clock_n w'"
      then show "\<exists>m\<ge>clock_n w. m < clock_n w' \<and> classified_at b S a w n = classified_at b S a w m"
        using I(7) by (intro exI[of _ n]) simp
    qed
    ultimately show ?thesis by (simp add: p)
  qed
  moreover have "breaches_of S' e = breaches_of S e
      + (if \<exists>i \<in> set (i # new). si_domain i = e \<and> si_status i = SLA_BREACH then 1 else 0)"
    if "distinct (map fst (p # ds))" for e
  proof -
    have "d \<notin> set (map fst ds)" and ds: "distinct (map fst ds)" using that by (simp_all add: p)
    then have nd: "si_domain j \<noteq> d" if "j \<in> set new" for j
      unfolding new(4)[symmetric] using that by auto
    show ?thesis
      using new(9) ds nd I(1,8) by (cases "e = d") auto
  qed
  ultimately show ?case
    using new I by (intro exI[of _ "i # new"]) (auto simp: alerts_of_def p)
qed

lemma fold_next_overall:
  "fold next_overall sts ov =
     (if SLA_BREACH \<in> set sts \<or> ov = SO_BREACH then SO_BREACH
      else if SLA_WARNING \<in> set sts \<or> ov = SO_DEGRADED then SO_DEGRADED else SO_HEALTHY)"
  by (induction sts arbitrary: ov) (auto simp: next_overall_def intro: SLAStatusOverall.exhaust
      split: if_splits)

lemma success_rate_le_1: "f_le (success_rate obs) (Fin 1)"
proof -
  have "of_int (int (length (filter ob_success obs))) / of_int (int (length obs)) \<le> (1 :: rat)"
    by (simp add: divide_le_eq_1)
  from fl_mono[OF this] show ?thesis using fl_int[of 1] by (simp add: success_rate_def f_int_div_def)
qed

text \<open>Scaling a double by a factor between 0 and 1 does not increase it.\<close>

lemma f_mul_shrinks:
  assumes "is_double (Fin t)" "0 \<le> t" "0 \<le> p" "p \<le> 1"
  shows "f_le (f_mul (Fin t) (Fin p)) (Fin t)"
proof -
  have "t * p \<le> t" using assms by (simp add: mult_left_le)
  from fl_mono[OF this] show ?thesis using assms(1) by (simp add: is_double_def)
qed

declare new_sla_definition_def [run_simps] sla_domains_def [run_simps] sla_init_def [run_simps]
  sla_touch_def [run_simps] sla_record_def [run_simps] in_window_def [run_simps] sla_prune_def [run_simps]
  sla_breach_def [run_simps] success_rate_def [run_simps] sla_classify_def [run_simps]
  sla_evaluate_def [run_simps] current_value_def [run_simps] sla_item_def [run_simps]
  next_overall_def [run_simps] get_sla_report_def [run_simps]

section \<open>Properties\<close>

text \<open>
  The report says what the observations say. It has one item per definition, in order; each
  item's status is the classification of the observations inside the window at some clock reading
  of the report; the overall status is \<open>BREACH\<close> exactly if some item breaches, \<open>DEGRADED\<close> exactly
  if none breaches and some warns, and the alerts name the breached domains in order.
\<close>

theorem sla_report_faithful:
  assumes "get_sla_report (S, w) = (rep, S', w')"
  shows "map si_domain (sr_items rep) = map fst (sl_definitions S)
     \<and> list_all2 (\<lambda>(d, df) i. \<exists>n. clock_n w \<le> n \<and> n < clock_n w'
          \<and> si_status i = sla_classify df (filter (in_window df (clock_of w n)) (obs_of S d)))
         (sl_definitions S) (sr_items rep)
     \<and> sr_overall_status rep =
         (if SLA_BREACH \<in> si_status ` set (sr_items rep) then SO_BREACH
          else if SLA_WARNING \<in> si_status ` set (sr_items rep) then SO_DEGRADED else SO_HEALTHY)
     \<and> sr_alerts rep = alerts_of (sr_items rep)"
proof -
  obtain items br ov S1 w1 where l: "sla_loop (sl_definitions S) [] [] SO_HEALTHY (S, w) = ((items, br, ov), S1, w1)"
    by (metis surj_pair)
  from sla_loop_spec[OF l] have L: "br = alerts_of items" "ov = fold next_overall (map si_status items) SO_HEALTHY"
    "map si_domain items = map fst (sl_definitions S)"
    "list_all2 (\<lambda>(d, df) i. \<exists>n. clock_n w \<le> n \<and> n < clock_n w1
        \<and> si_status i = classified_at df S d w n) (sl_definitions S) items"
    by auto
  have r: "sr_items rep = items" "sr_alerts rep = br" "sr_overall_status rep = ov" "clock_n w1 \<le> clock_n w'"
    using assms l by (auto simp: get_sla_report_def utcnow_def)
  have "list_all2 (\<lambda>(d, df) i. \<exists>n. clock_n w \<le> n \<and> n < clock_n w'
          \<and> si_status i = sla_classify df (filter (in_window df (clock_of w n)) (obs_of S d)))
         (sl_definitions S) items"
    using r(4) by (intro list_all2_mono[OF L(4)]) (auto simp: classified_at_def dest: less_le_trans)
  then show ?thesis using L r by (simp add: fold_next_overall)
qed

text \<open>
  Breaches are counted exactly. A report raises the breach count of a domain by one if it reports
  a breach for it and leaves every other count as it was.
\<close>

theorem sla_breaches_counted:
  assumes "get_sla_report (S, w) = (rep, S', w')" "dict_wf (sl_definitions S)"
  shows "breaches_of S' d = breaches_of S d
     + (if \<exists>i \<in> set (sr_items rep). si_domain i = d \<and> si_status i = SLA_BREACH then 1 else 0)"
proof -
  obtain items br ov S1 w1 where l: "sla_loop (sl_definitions S) [] [] SO_HEALTHY (S, w) = ((items, br, ov), S1, w1)"
    by (metis surj_pair)
  have "sr_items rep = items" "S' = S1"
    using assms(1) l by (auto simp: get_sla_report_def utcnow_def)
  with sla_loop_spec[OF l] assms(2) show ?thesis by (auto simp: dict_wf_def)
qed

text \<open>
  A rate objective never warns on data. With a warning factor between 0 and 1, which the default
  is, a domain measured as a success rate that has an observation in its window is either in
  breach or OK: the warning branch of the code cannot be reached.
\<close>

theorem rate_warning_unreachable:
  assumes "sd_comparator df = GREATER_THAN_RATE" "sd_target_value df = Fin t" "is_double (Fin t)" "0 \<le> t"
    and "sd_warning_threshold_pct df = Fin p" "0 \<le> p" "p \<le> 1" "recent \<noteq> []"
  shows "sla_classify df recent \<noteq> SLA_WARNING"
proof -
  have "\<not> f_lt (success_rate recent) (f_mul (Fin t) (Fin p))"
    if "\<not> f_lt (success_rate recent) (Fin t)"
    using that f_lt_le_trans[OF _ f_mul_shrinks[OF assms(3,4,6,7)]] by blast
  then show ?thesis using assms(1,2,5,8) by (simp add: sla_classify_def Let_def)
qed

definition sample_sla :: "pyfloat \<Rightarrow> SLAMonitorEngine \<times> world" where
  "sample_sla x = sla_record REFUND_PROCESSING_LATENCY x True None
     (sla_init ''m1'' [new_sla_definition REFUND_PROCESSING_LATENCY (Fin 1000) LESS_THAN_MS], sample_world)"

lemma sample_sla_run:
  "\<exists>S w rep S' w'. sample_sla (Fin 1500) = (S, w) \<and> get_sla_report (S, w) = (rep, S', w')
     \<and> dict_wf (sl_definitions S) \<and> breaches_of S REFUND_PROCESSING_LATENCY = 0
     \<and> (\<exists>i. sr_items rep = [i] \<and> si_status i = SLA_BREACH \<and> si_domain i = REFUND_PROCESSING_LATENCY)"
  by (simp add: sample_sla_def run_simps Let_def dict_wf_def breaches_of_def)

theorem sla_report_faithful_witness:
  "\<exists>rep S' w'. get_sla_report (sample_sla (Fin 1500)) = (rep, S', w') \<and> sr_overall_status rep = SO_BREACH
     \<and> length (sr_alerts rep) = 1"
proof -
  from sample_sla_run obtain S w rep S' w' i where q: "sample_sla (Fin 1500) = (S, w)"
    "get_sla_report (S, w) = (rep, S', w')" "sr_items rep = [i]" "si_status i = SLA_BREACH" by blast
  from sla_report_faithful[OF q(2)] q(3,4)
  have "sr_overall_status rep = SO_BREACH" "length (sr_alerts rep) = 1"
    by (simp_all add: alerts_of_def)
  with q(1,2) show ?thesis by auto
qed

theorem sla_breaches_counted_witness:
  "\<exists>rep S' w'. get_sla_report (sample_sla (Fin 1500)) = (rep, S', w')
     \<and> breaches_of S' REFUND_PROCESSING_LATENCY = 1"
proof -
  from sample_sla_run obtain S w rep S' w' i where q: "sample_sla (Fin 1500) = (S, w)"
    "get_sla_report (S, w) = (rep, S', w')" "dict_wf (sl_definitions S)" "sr_items rep = [i]"
    "si_status i = SLA_BREACH" "si_domain i = REFUND_PROCESSING_LATENCY"
    "breaches_of S REFUND_PROCESSING_LATENCY = 0" by blast
  from sla_breaches_counted[OF q(2,3), of REFUND_PROCESSING_LATENCY] q(4-7)
  have "breaches_of S' REFUND_PROCESSING_LATENCY = 1" by simp
  with q(1,2) show ?thesis by auto
qed

theorem rate_warning_unreachable_witness:
  "sla_classify ((new_sla_definition MARKETPLACE_API_AVAILABILITY (Fin 1) GREATER_THAN_RATE)
      \<lparr>sd_warning_threshold_pct := Fin (1/2)\<rparr>)
     [\<lparr>ob_value = Fin 1, ob_success = True, ob_at = 0\<rparr>] \<noteq> SLA_WARNING"
  by (rule rate_warning_unreachable[of _ 1 "1/2"])
    (use fl_int[of 1] in \<open>simp_all add: new_sla_definition_def is_double_def\<close>)

end
