(* ===== verification/Fin_Engine.thy ===== *)
theory Fin_Engine
  imports Fin_Compliance Fin_Sla
begin

text \<open>
  The coordinator of the financial control plane (\<^verbatim>\<open>engine.py\<close>,
  \<open>FinancialHardeningEngine\<close>): one ledger shared by the payment, refund, tax and reconciliation
  engines, and the operations the API calls. Its configuration (policy, governance kernel, provider
  adapters, prerequisite certification engine) is fixed at construction.
\<close>

section \<open>State and configuration\<close>

record fin_config =
  cfg_validators :: validators
  cfg_policy :: MarketplaceFinancialPolicy
  cfg_governance :: governance
  cfg_payment_adapter :: PaymentProviderAdapter
  cfg_tax_adapter :: tax_adapter
  cfg_fraud_adapter :: fraud_adapter
  cfg_learning :: "learning_report option option"

record FinancialHardeningEngine =
  fe_ledger :: FinancialLedgerEngine
  fe_payment :: PaymentAdapterEngine
  fe_refund :: RefundGovernanceEngine
  fe_fraud :: FraudControlEngine
  fe_sla :: SLAMonitorEngine
  fe_reconciliation :: ReconciliationEngine
  fe_compliance :: FinancialComplianceEngine

text \<open>What \<open>__init__\<close> builds when no governance kernel is given.\<close>

definition default_config :: "validators \<Rightarrow> fin_config" where
  "default_config v = \<lparr>cfg_validators = v, cfg_policy = default_policy,
     cfg_governance = default_governance v, cfg_payment_adapter = NoopPaymentAdapter,
     cfg_tax_adapter = NoopTaxAdapter, cfg_fraud_adapter = NoopFraudAdapter, cfg_learning = None\<rparr>"

definition engine_init :: FinancialHardeningEngine where
  "engine_init = \<lparr>fe_ledger = ledger_init, fe_payment = payment_init, fe_refund = refund_init,
     fe_fraud = fraud_init, fe_sla = sla_init ''marketplace_1'' [],
     fe_reconciliation = reconciliation_init, fe_compliance = compliance_init\<rparr>"

type_synonym fin_state = "FinancialHardeningEngine \<times> world"

section \<open>Operations\<close>

text \<open>Running a call of a sub-engine on the shared ledger.\<close>

definition fe_with_payment :: "pay_ctx \<Rightarrow> FinancialHardeningEngine \<Rightarrow> fin_state" where
  "fe_with_payment c E = (E\<lparr>fe_payment := fst c, fe_ledger := the (fst (snd c))\<rparr>, snd (snd c))"

definition fe_with_refund :: "ref_ctx \<Rightarrow> FinancialHardeningEngine \<Rightarrow> fin_state" where
  "fe_with_refund c E = (E\<lparr>fe_refund := fst c, fe_ledger := the (fst (snd c))\<rparr>, snd (snd c))"

definition process_payment_webhook ::
  "fin_config \<Rightarrow> PaymentWebhookEnvelope \<Rightarrow> fin_state \<Rightarrow> (fin_state, PaymentEvent) outcome" where
  "process_payment_webhook cfg env st =
     (case st of (E, w) \<Rightarrow>
      case ingest_webhook (cfg_validators cfg) (cfg_payment_adapter cfg) (cfg_policy cfg) env
             (fe_payment E, Some (fe_ledger E), w) of
        (Inl exn, c) \<Rightarrow> (Inl exn, fe_with_payment c E)
      | (Inr ev, c) \<Rightarrow>
        (case fe_with_payment c E of (E, w) \<Rightarrow>
         let bad = (pe_status ev = PS_FAILED \<or> pe_status ev = PS_CANCELLED) in
         case sla_record PAYMENT_EVENT_INGESTION_SUCCESS_RATE (if bad then Fin 0 else Fin 1) (\<not> bad) None
                (fe_sla E, w) of
           (S, w) \<Rightarrow> (Inr ev, (E\<lparr>fe_sla := S\<rparr>, w))))"

definition engine_request_refund ::
  "fin_config \<Rightarrow> refund_args \<Rightarrow> fin_state \<Rightarrow> (fin_state, nat) outcome" where
  "engine_request_refund cfg x st = (case st of (E, w) \<Rightarrow>
     case request_refund (Some (cfg_governance cfg)) (cfg_policy cfg) x
            (fe_refund E, Some (fe_ledger E), w) of (r, c) \<Rightarrow> (r, fe_with_refund c E))"

definition engine_approve_refund ::
  "fin_config \<Rightarrow> string \<Rightarrow> string \<Rightarrow> string option \<Rightarrow> fin_state \<Rightarrow> (fin_state, nat) outcome" where
  "engine_approve_refund cfg i approver ref st = (case st of (E, w) \<Rightarrow>
     case approve_refund (Some (cfg_governance cfg)) (cfg_policy cfg) i approver ref
            (fe_refund E, Some (fe_ledger E), w) of (r, c) \<Rightarrow> (r, fe_with_refund c E))"

definition engine_reject_refund ::
  "string \<Rightarrow> string \<Rightarrow> string \<Rightarrow> fin_state \<Rightarrow> (fin_state, nat) outcome" where
  "engine_reject_refund i approver reason st = (case st of (E, w) \<Rightarrow>
     case reject_refund i approver reason (fe_refund E, Some (fe_ledger E), w) of
       (r, c) \<Rightarrow> (r, fe_with_refund c E))"

definition engine_calculate_tax ::
  "fin_config \<Rightarrow> TaxCalculationRequest \<Rightarrow> fin_state \<Rightarrow> (fin_state, TaxCalculationResult) outcome" where
  "engine_calculate_tax cfg req st = (case st of (E, w) \<Rightarrow>
     case calculate_tax (cfg_tax_adapter cfg) req (Some (fe_ledger E), w) of
       (r, lg, w) \<Rightarrow> (r, (E\<lparr>fe_ledger := the lg\<rparr>, w)))"

definition assess_fraud ::
  "fin_config \<Rightarrow> string \<Rightarrow> string \<Rightarrow> string option \<Rightarrow> payload \<Rightarrow> fin_state \<Rightarrow>
   (fin_state, FraudAssessment) outcome" where
  "assess_fraud cfg lid tid oid context st = (case st of (E, w) \<Rightarrow>
     case fraud_assess (cfg_validators cfg) (cfg_fraud_adapter cfg) (cfg_policy cfg) lid tid oid context
            (fe_fraud E, w) of
       (r, F, w) \<Rightarrow> (r, (E\<lparr>fe_fraud := F\<rparr>, w)))"

definition engine_run_reconciliation ::
  "fin_config \<Rightarrow> string option \<Rightarrow> fin_state \<Rightarrow> (fin_state, ReconciliationReport) outcome" where
  "engine_run_reconciliation cfg mid st = (case st of (E, w) \<Rightarrow>
     case run_reconciliation (Some (cfg_governance cfg)) (Some recent_calculations) mid (fe_payment E)
            (fe_ledger E) (fe_reconciliation E, w) of
       (r, RC, w) \<Rightarrow> (r, (E\<lparr>fe_reconciliation := RC\<rparr>, w)))"

definition engine_latest_reconciliation_report :: "fin_state \<Rightarrow> ReconciliationReport option" where
  "engine_latest_reconciliation_report st = latest_reconciliation_report (fe_reconciliation (fst st))"

text \<open>The parts the coordinator hands to its certification engine: every engine is present.\<close>

definition engine_parts :: "fin_config \<Rightarrow> FinancialHardeningEngine \<Rightarrow> compliance_parts" where
  "engine_parts cfg E = \<lparr>cp_payment_engine = True, cp_refund_engine = True, cp_ledger = Some (fe_ledger E),
     cp_tax_engine = True, cp_fraud_engine = True, cp_sla_engine = True,
     cp_reconciliation = Some (fe_reconciliation E), cp_learning = cfg_learning cfg, cp_governance = True\<rparr>"

definition engine_certify ::
  "fin_config \<Rightarrow> string \<Rightarrow> MarketplaceFinancialReadinessEvidence option \<Rightarrow> string option \<Rightarrow> fin_state \<Rightarrow>
   FinancialComplianceReport \<times> fin_state" where
  "engine_certify cfg certified_by evidence prereq st = (case st of (E, w) \<Rightarrow>
     case certify (cfg_policy cfg) (engine_parts cfg E) (pol_marketplace_id (cfg_policy cfg)) certified_by
            evidence prereq (fe_compliance E, w) of
       (rep, CE, w) \<Rightarrow> (rep, (E\<lparr>fe_compliance := CE\<rparr>, w)))"

definition engine_latest_certification_report :: "fin_state \<Rightarrow> FinancialComplianceReport option" where
  "engine_latest_certification_report st = latest_compliance_report (fe_compliance (fst st))"

definition engine_revoke_certification ::
  "string \<Rightarrow> string \<Rightarrow> string \<Rightarrow> fin_state \<Rightarrow> (fin_state, FinancialComplianceReport) outcome" where
  "engine_revoke_certification i reason revoked_by st = (case st of (E, w) \<Rightarrow>
     case revoke_certification i reason revoked_by (fe_compliance E, w) of
       (r, CE, w) \<Rightarrow> (r, (E\<lparr>fe_compliance := CE\<rparr>, w)))"

definition engine_sla_report :: "fin_state \<Rightarrow> SLAStatusReport \<times> fin_state" where
  "engine_sla_report st = (case st of (E, w) \<Rightarrow>
     case get_sla_report (fe_sla E, w) of (rep, S, w) \<Rightarrow> (rep, (E\<lparr>fe_sla := S\<rparr>, w)))"

section \<open>Steps\<close>

inductive engine_step :: "fin_config \<Rightarrow> fin_state \<Rightarrow> fin_state \<Rightarrow> bool" for cfg where
  step_webhook: "process_payment_webhook cfg env s = (r, s') \<Longrightarrow> engine_step cfg s s'"
| step_req_refund: "engine_request_refund cfg x s = (r, s') \<Longrightarrow> engine_step cfg s s'"
| step_app_refund: "engine_approve_refund cfg i approver ref s = (r, s') \<Longrightarrow> engine_step cfg s s'"
| step_rej_refund: "engine_reject_refund i approver reason s = (r, s') \<Longrightarrow> engine_step cfg s s'"
| step_tax: "engine_calculate_tax cfg req s = (r, s') \<Longrightarrow> engine_step cfg s s'"
| step_fraud: "assess_fraud cfg lid tid oid cx s = (r, s') \<Longrightarrow> engine_step cfg s s'"
| step_reconcile: "engine_run_reconciliation cfg mid s = (r, s') \<Longrightarrow> engine_step cfg s s'"
| step_certification: "engine_certify cfg who ev prereq s = (rep, s') \<Longrightarrow> engine_step cfg s s'"
| step_revocation: "engine_revoke_certification i reason who s = (r, s') \<Longrightarrow> engine_step cfg s s'"
| step_sla: "engine_sla_report s = (rep, s') \<Longrightarrow> engine_step cfg s s'"

section \<open>The coordinator as a client of the ledger\<close>

definition config_ok :: "fin_config \<Rightarrow> bool" where
  "config_ok cfg \<longleftrightarrow> governance_ok (Some (cfg_governance cfg)) \<and> tax_adapter_ok (cfg_tax_adapter cfg)"

lemma config_ok_default: "config_ok (default_config v)"
  by (simp add: config_ok_def default_config_def governance_ok_default tax_adapter_ok_noop)

definition fe_books :: "fin_state \<Rightarrow> FinancialLedgerEngine \<times> world" where
  "fe_books s = (fe_ledger (fst s), snd s)"

lemma sla_record_world: "world_le w (snd (sla_record d x ok t (S, w)))"
  by (cases t) (simp_all add: sla_record_def split_beta utcnow_def world_le_def)

lemma sla_item_world: "world_le w (snd (snd (sla_item d df (S, w))))"
  by (simp add: sla_item_def sla_evaluate_def sla_prune_eq sla_breach_def utcnow_def Let_def split_beta world_le_def)

lemma sla_loop_world: "world_le (snd c) (snd (snd (sla_loop ds items br ov c)))"
proof (induction ds arbitrary: items br ov c)
  case (Cons p ds)
  obtain d df where p: "p = (d, df)" by (cases p)
  show ?case
    unfolding p using world_le_trans[OF sla_item_world[of "snd c" d df "fst c"] Cons.IH]
    by (simp add: split_beta)
qed simp

lemma get_sla_report_world: "world_le w (snd (snd (get_sla_report (S, w))))"
proof -
  let ?l = "sla_loop (sl_definitions S) [] [] SO_HEALTHY (S, w)"
  have "snd (snd (get_sla_report (S, w))) = snd (utcnow (snd (snd ?l)))"
    by (simp add: get_sla_report_def split_beta)
  moreover have "world_le (snd (snd ?l)) (snd (utcnow (snd (snd ?l))))" by (simp add: utcnow_def world_le_def)
  ultimately show ?thesis
    using world_le_trans[OF sla_loop_world[of "(S, w)" "sl_definitions S" "[]" "[]" SO_HEALTHY]] by simp
qed

lemma fraud_assess_world: "world_le w (snd (snd (fraud_assess v ad pol lid tid oid cx (F, w))))"
  by (auto simp: fraud_assess_def Let_def new_id_def utcnow_def world_le_def split: sum.split option.split)

lemma new_mismatches_world: "world_le w (snd (new_mismatches ms w))"
proof (induction ms arbitrary: w)
  case (Cons m ms)
  have "world_le w (snd (new_mismatch m w))"
    by (simp add: new_mismatch_def new_id_def utcnow_def Let_def world_le_def)
  from world_le_trans[OF this Cons.IH] show ?case by (simp add: split_beta)
qed simp

lemma store_report_world: "world_le (snd c) (snd (snd (store_report mid L ms g st c)))"
  by (simp add: store_report_def new_id_def utcnow_def Let_def split_beta world_le_def)

lemma run_reconciliation_world:
  assumes "governance_ok (Some g)"
  shows "world_le w (snd (snd (run_reconciliation (Some g) tax mid P L (RC, w))))"
proof -
  let ?m = "new_mismatches (find_mismatches tax mid (processed_events P) L) w"
  note m = new_mismatches_world[of w "find_mismatches tax mid (processed_events P) L"]
  let ?g = "g FINANCIAL_ROLLBACK ''reconciliation''
    [(''mismatch_count'', PInt (int (length (fst ?m)))), (''severe'', PBool True)]
    (map (PStr \<circ> mm_mismatch_id) (fst ?m)) (snd ?m)"
  have g: "world_le w (snd ?g)"
    using world_le_trans[OF m] assms by (auto simp: governance_ok_def)
  have st: "world_le w (snd (snd (store_report mid L ms gr s (RC, x))))" if "world_le w x" for ms gr s x
    using world_le_trans[OF that store_report_world[of "(RC, x)" mid L ms gr s, simplified]] .
  show ?thesis
    using m g st by (auto simp: run_reconciliation_def Let_def split_beta split: sum.split)
qed

lemma fe_time: "world_le (snd s) w' \<Longrightarrow> fe_ledger E' = fe_ledger (fst s) \<Longrightarrow> ledger_grows (fe_books s) (fe_books (E', w'))"
  by (simp add: fe_books_def ledger_grows.grows_time[OF ledger_grows.grows_refl])

lemma fe_refund_grows:
  assumes "governance_ok gov" "refund_step gov pol (fe_refund E, Some (fe_ledger E), w) c"
  shows "ledger_grows (fe_ledger E, w) (fe_books (fe_with_refund c E))"
proof -
  have "refund_call gov pol (fe_refund E, Some (fe_ledger E), w) c"
    using assms by (simp add: refund_call_def)
  from refunds.call_grows[OF this] show ?thesis
    by (simp add: ctx_books_def fe_books_def fe_with_refund_def)
qed

lemma process_payment_webhook_grows:
  assumes "process_payment_webhook cfg env (E, w) = (r, s')"
  shows "ledger_grows (fe_ledger E, w) (fe_books s')"
proof -
  obtain q c where q: "ingest_webhook (cfg_validators cfg) (cfg_payment_adapter cfg) (cfg_policy cfg) env
      (fe_payment E, Some (fe_ledger E), w) = (q, c)" by (metis surj_pair)
  have g: "ledger_grows (fe_ledger E, w) (ctx_books c)"
    using ingest_webhook_grows[of "fe_ledger E" w] q by (metis snd_conv)
  obtain L1 w1 where b: "ctx_books c = (L1, w1)" by (cases "ctx_books c")
  then have c: "the (fst (snd c)) = L1" "snd (snd c) = w1" by (simp_all add: ctx_books_def)
  show ?thesis
  proof (cases q)
    case (Inl exn)
    then show ?thesis using assms q g b c by (auto simp: process_payment_webhook_def fe_with_payment_def fe_books_def)
  next
    case (Inr ev)
    then have "fe_ledger (fst s') = L1 \<and> world_le w1 (snd s')"
      using assms q c sla_record_world[of w1 PAYMENT_EVENT_INGESTION_SUCCESS_RATE]
      by (auto simp: process_payment_webhook_def fe_with_payment_def Let_def split: prod.splits)
        (metis snd_conv)+
    then show ?thesis
      using ledger_grows.grows_time[OF g[unfolded b]] by (simp add: fe_books_def)
  qed
qed

definition engine_call :: "fin_config \<Rightarrow> fin_state \<Rightarrow> fin_state \<Rightarrow> bool" where
  "engine_call cfg s s' \<longleftrightarrow> config_ok cfg \<and> engine_step cfg s s'"

lemma engine_step_grows:
  assumes "config_ok cfg" "engine_step cfg s s'"
  shows "ledger_grows (fe_books s) (fe_books s')"
proof -
  obtain E w where s: "s = (E, w)" by (cases s)
  have b: "fe_books s = (fe_ledger E, w)" by (simp add: s fe_books_def)
  have gov: "governance_ok (Some (cfg_governance cfg))" and tax: "tax_adapter_ok (cfg_tax_adapter cfg)"
    using assms(1) by (simp_all add: config_ok_def)
  from assms(2) show ?thesis
  proof (cases rule: engine_step.cases)
    case (step_webhook env r)
    then show ?thesis using process_payment_webhook_grows by (simp add: s b[unfolded s])
  next
    case (step_req_refund x r)
    then show ?thesis unfolding b using fe_refund_grows[OF gov step_request]
      by (auto simp: s engine_request_refund_def split: prod.splits)
  next
    case (step_app_refund i approver ref r)
    then show ?thesis unfolding b using fe_refund_grows[OF gov step_approve]
      by (auto simp: s engine_approve_refund_def split: prod.splits)
  next
    case (step_rej_refund i approver reason r)
    then show ?thesis unfolding b using fe_refund_grows[OF gov step_reject]
      by (auto simp: s engine_reject_refund_def split: prod.splits)
  next
    case (step_tax req r)
    then show ?thesis unfolding b using calculate_tax_grows[OF tax]
      by (fastforce simp: s engine_calculate_tax_def fe_books_def split: prod.splits)
  next
    case (step_fraud lid tid oid cx r)
    then show ?thesis using fraud_assess_world[of w _ _ _ lid tid oid cx "fe_fraud E"]
      by (auto simp: s assess_fraud_def split_beta intro!: fe_time)
  next
    case (step_reconcile mid r)
    then show ?thesis using run_reconciliation_world[OF gov, of w _ mid "fe_payment E" "fe_ledger E" "fe_reconciliation E"]
      by (auto simp: s engine_run_reconciliation_def split_beta intro!: fe_time)
  next
    case (step_certification who ev prereq rep)
    then show ?thesis
      using certify_sel(5)[of "cfg_policy cfg" "engine_parts cfg E" _ who ev prereq "fe_compliance E" w]
      by (auto simp: s engine_certify_def split: prod.splits intro!: fe_time)
  next
    case (step_revocation i reason who r)
    then show ?thesis
      using revoke_certification_world[of i reason who "fe_compliance E" w]
      by (auto simp: s engine_revoke_certification_def split: prod.splits intro!: fe_time)
  next
    case (step_sla rep)
    then show ?thesis using get_sla_report_world[of w "fe_sla E"]
      by (auto simp: s engine_sla_report_def split_beta intro!: fe_time)
  qed
qed

interpretation engine: ledger_client "engine_call cfg" fe_books for cfg
  by unfold_locales (auto simp: engine_call_def intro: engine_step_grows)

section \<open>Properties\<close>

text \<open>
  C3. The shared ledger is append-only. Whatever sequence of webhooks, refunds, tax calculations, fraud
  assessments, reconciliations, certifications, revocations and reports is run, with whatever
  outcomes, the entries and the audit trail of an earlier state are a prefix of those of a later
  one, used idempotency keys stay used, and no idempotency key ever occurs twice.
\<close>

theorem engine_ledger_append_only:
  assumes "config_ok cfg" "rtranclp (engine_step cfg) (engine_init, w0) (E1, w1)"
    and "rtranclp (engine_step cfg) (E1, w1) (E2, w2)" "ids_ok w2"
  shows "ledger_extends (fe_ledger E1) (fe_ledger E2)
     \<and> ledger_duplicate_idempotency_keys (fe_ledger E2) = []"
proof -
  have call: "engine_call cfg = engine_step cfg" using assms(1) by (simp add: engine_call_def fun_eq_iff)
  have safe0: "ledger_safe (fe_books (engine_init, w0))"
    by (simp add: fe_books_def engine_init_def ledger_safe_init)
  have ok1: "ids_ok w1"
    using ledger_grows_world[OF engine.run_grows[OF assms(3)[folded call]]] assms(4) ids_ok_before
    by (auto simp: fe_books_def)
  have safe1: "ledger_safe (fe_books (E1, w1))"
    using ledger_grows_safe[OF engine.run_grows[OF assms(2)[folded call]] safe0] ok1 by (simp add: fe_books_def)
  show ?thesis
    using engine.run_extends[OF assms(3)[folded call] safe1] engine.run_no_duplicates[OF assms(3)[folded call] safe1]
      assms(4) by (simp add: fe_books_def)
qed

theorem engine_ledger_append_only_witness:
  "\<exists>E w. snd (process_payment_webhook (default_config plain_validators)
       (sample_envelope ''k1'' ''e1'' ''paid'' (Fin 100)) (engine_init, sample_world)) = (E, w)
     \<and> length (lg_entries (fe_ledger E)) = 1
     \<and> ledger_extends ledger_init (fe_ledger E) \<and> ledger_duplicate_idempotency_keys (fe_ledger E) = []"
proof -
  let ?q = "process_payment_webhook (default_config plain_validators)
       (sample_envelope ''k1'' ''e1'' ''paid'' (Fin 100)) (engine_init, sample_world)"
  have "\<exists>E w r. ?q = (r, E, w) \<and> length (lg_entries (fe_ledger E)) = 1 \<and> uuid_n w = 4 \<and> uuid_of w = str_of_nat"
    by (simp add: process_payment_webhook_def default_config_def engine_init_def fe_with_payment_def
        sla_record_def sla_touch_def run_simps Let_def)
  then obtain E w r where q: "?q = (r, E, w)" "length (lg_entries (fe_ledger E)) = 1" "uuid_n w = 4"
    "uuid_of w = str_of_nat" by blast
  have ok: "ids_ok w"
    using q(3,4) by (auto simp: ids_ok_def draws_distinct_def inj_on_def id_at_def str_of_nat.simps)
  have run: "rtranclp (engine_step (default_config plain_validators)) (engine_init, sample_world) (E, w)"
    using step_webhook[OF q(1)] by blast
  from engine_ledger_append_only[OF config_ok_default rtranclp.rtrancl_refl run ok] q(1,2)
  show ?thesis by (simp add: engine_init_def)
qed

text \<open>
  Certification at the coordinator. With a policy that allows conditional certification, the
  coordinator issues \<open>CERTIFIED\<close> only after a reconciliation whose latest report is healthy and
  only when a prerequisite certification engine is wired and its report is neither revoked nor
  without a certified status; the coordinator as constructed by default therefore never does.
\<close>

theorem engine_certified_requires_prerequisites:
  assumes "engine_certify cfg certified_by evidence prereq (E, w) = (rep, s')"
    and "fr_status rep = ''CERTIFIED''" "pol_allow_conditional_financial_certification (cfg_policy cfg)"
  shows "(\<exists>rec. engine_latest_reconciliation_report (E, w) = Some rec \<and> rec_status rec = REC_HEALTHY)
     \<and> (\<exists>lr. cfg_learning cfg = Some (Some lr) \<and> \<not> lr_revoked lr
          \<and> lr_status_value lr \<in> {''CERTIFIED'', ''CONDITIONALLY_CERTIFIED''})
     \<and> lg_audit_events (fe_ledger E) \<noteq> []"
proof -
  obtain CE' w' where c: "certify (cfg_policy cfg) (engine_parts cfg E) (pol_marketplace_id (cfg_policy cfg))
      certified_by evidence prereq (fe_compliance E, w) = (rep, CE', w')"
    using assms(1) by (auto simp: engine_certify_def split: prod.splits)
  have all: "fg_passed g" if "g \<in> set (fst (compliance_gates (engine_parts cfg E) w))" for g
    using certified_gates_passed(1)[OF c assms(2,3)] that certify_sel(1)[OF c] by simp
  then have "fg_passed (gate_reconciliation_health (engine_parts cfg E))"
    "fg_passed (gate_audit_trail_integrity (engine_parts cfg E))"
    "fg_passed (fst (gate_production_learning_certification (engine_parts cfg E) w))"
    by (auto simp: compliance_gates_def split_beta)
  then show ?thesis
    by (auto simp: gate_reconciliation_health_def gate_audit_trail_integrity_def engine_parts_def
        engine_latest_reconciliation_report_def gate_production_learning_certification_def Let_def utcnow_def
        split: option.splits if_splits)
qed

definition certified_config :: fin_config where
  "certified_config = (default_config plain_validators)\<lparr>cfg_learning := cp_learning full_parts\<rparr>"

definition certified_engine :: FinancialHardeningEngine where
  "certified_engine = engine_init\<lparr>fe_ledger := the (cp_ledger full_parts),
     fe_reconciliation := sample_reconciliation\<rparr>"

theorem engine_certified_requires_prerequisites_witness:
  "\<exists>rep s'. engine_certify certified_config ''human'' None None (certified_engine, sample_world) = (rep, s')
     \<and> fr_status rep = ''CERTIFIED''
     \<and> (\<exists>rec. engine_latest_reconciliation_report (certified_engine, sample_world) = Some rec
          \<and> rec_status rec = REC_HEALTHY)"
proof -
  have "\<exists>rep s'. engine_certify certified_config ''human'' None None (certified_engine, sample_world) = (rep, s')
     \<and> fr_status rep = ''CERTIFIED''"
    by (simp add: engine_certify_def engine_parts_def certified_config_def certified_engine_def default_config_def
        engine_init_def full_parts_def sample_parts_def sample_reconciliation_def run_simps Let_def)
  then obtain rep s' where q: "engine_certify certified_config ''human'' None None (certified_engine, sample_world) = (rep, s')"
    "fr_status rep = ''CERTIFIED''" by blast
  have "pol_allow_conditional_financial_certification (cfg_policy certified_config)"
    by (simp add: certified_config_def default_config_def default_policy_def)
  from engine_certified_requires_prerequisites[OF q this] q show ?thesis by blast
qed

end
