(* ===== verification/Py_Hash.thy ===== *)
theory Py_Hash
  imports Main "HOL-Library.Word"
begin

text \<open>
  The two digests of \<open>hashlib\<close> that the maintenance code uses, \<open>sha256\<close> and
  \<open>blake2b(digest_size=32)\<close>, on the standard word sizes, and \<open>str.encode("utf-8")\<close> for
  the code points of the string model. The development uses of them that they are functions into
  strings of 64 characters; nothing is assumed about collisions.
\<close>

unbundle bit_operations_syntax

section \<open>Bytes and hexadecimal digits\<close>

type_synonym bytes = "8 word list"

definition utf8_char :: "char \<Rightarrow> bytes" where
  "utf8_char c = (let n = (of_char c :: nat) in
     if n < 128 then [of_nat n] else [of_nat (192 + n div 64), of_nat (128 + n mod 64)])"

definition utf8 :: "string \<Rightarrow> bytes" where
  "utf8 s = concat (map utf8_char s)"

definition hex_digit :: "nat \<Rightarrow> char" where
  "hex_digit n = ''0123456789abcdef'' ! (n mod 16)"

definition hex_byte :: "8 word \<Rightarrow> string" where
  "hex_byte b = [hex_digit (unat b div 16), hex_digit (unat b)]"

definition hexdigest :: "bytes \<Rightarrow> string" where
  "hexdigest bs = concat (map hex_byte bs)"

lemma length_hexdigest [simp]: "length (hexdigest bs) = 2 * length bs"
  by (induction bs) (simp_all add: hexdigest_def hex_byte_def)

fun chunks :: "nat \<Rightarrow> nat \<Rightarrow> 'a list \<Rightarrow> 'a list list" where
  "chunks 0 k xs = []"
| "chunks (Suc n) k xs = take k xs # chunks n k (drop k xs)"

section \<open>SHA-256\<close>

text \<open>The constants are leading fractional bits of roots of the first primes, computed with an
  integer root (bit by bit, for arguments below the square or cube of \<open>2 ^ b\<close>).\<close>

fun int_root :: "nat \<Rightarrow> nat \<Rightarrow> int \<Rightarrow> int \<Rightarrow> int" where
  "int_root k 0 r x = r"
| "int_root k (Suc b) r x = int_root k b (if (r + 2 ^ b) ^ k \<le> x then r + 2 ^ b else r) x"

definition primes_upto :: "int \<Rightarrow> int list" where
  "primes_upto m = filter (\<lambda>n. \<forall>d \<in> set [2..n - 1]. n mod d \<noteq> 0) [2..m]"

definition sha256_K :: "32 word list" where
  "sha256_K = map (\<lambda>p. of_int (int_root 3 40 0 (p * 2 ^ 96))) (primes_upto 311)"

definition sha256_H0 :: "32 word list" where
  "sha256_H0 = map (\<lambda>p. of_int (int_root 2 40 0 (p * 2 ^ 64))) (primes_upto 19)"

definition be_word32 :: "bytes \<Rightarrow> 32 word" where
  "be_word32 bs = foldl (\<lambda>w b. push_bit 8 w OR ucast b) 0 bs"

definition be_bytes32 :: "32 word \<Rightarrow> bytes" where
  "be_bytes32 w = [ucast (drop_bit 24 w), ucast (drop_bit 16 w), ucast (drop_bit 8 w), ucast w]"

fun be_bytes :: "nat \<Rightarrow> nat \<Rightarrow> bytes" where
  "be_bytes 0 n = []"
| "be_bytes (Suc k) n = be_bytes k (n div 256) @ [of_nat (n mod 256)]"

definition sha256_pad :: "bytes \<Rightarrow> bytes" where
  "sha256_pad m = m @ [0x80] @ replicate ((119 - length m mod 64) mod 64) 0 @ be_bytes 8 (8 * length m)"

text \<open>The message schedule is extended one word at a time.\<close>

fun sha256_schedule :: "nat \<Rightarrow> 32 word list \<Rightarrow> 32 word list" where
  "sha256_schedule 0 ws = ws"
| "sha256_schedule (Suc n) ws =
     (let t = length ws; x = ws ! (t - 15); y = ws ! (t - 2);
          s0 = word_rotr 7 x XOR word_rotr 18 x XOR drop_bit 3 x;
          s1 = word_rotr 17 y XOR word_rotr 19 y XOR drop_bit 10 y
      in sha256_schedule n (ws @ [ws ! (t - 16) + s0 + ws ! (t - 7) + s1]))"

definition sha256_round :: "32 word list \<Rightarrow> 32 word \<times> 32 word \<Rightarrow> 32 word list" where
  "sha256_round v kw =
     (let a = v ! 0; b = v ! 1; c = v ! 2; d = v ! 3; e = v ! 4; f = v ! 5; g = v ! 6; h = v ! 7;
          S1 = word_rotr 6 e XOR word_rotr 11 e XOR word_rotr 25 e;
          ch = (e AND f) XOR (NOT e AND g);
          t1 = h + S1 + ch + fst kw + snd kw;
          S0 = word_rotr 2 a XOR word_rotr 13 a XOR word_rotr 22 a;
          maj = (a AND b) XOR (a AND c) XOR (b AND c)
      in [t1 + (S0 + maj), a, b, c, d + t1, e, f, g])"

definition sha256_block :: "32 word list \<Rightarrow> bytes \<Rightarrow> 32 word list" where
  "sha256_block h blk =
     (let ws = sha256_schedule 48 (map be_word32 (chunks 16 4 blk))
      in map2 (+) h (foldl sha256_round h (zip sha256_K ws)))"

definition sha256 :: "bytes \<Rightarrow> bytes" where
  "sha256 m = (let p = sha256_pad m in
     concat (map be_bytes32 (foldl sha256_block sha256_H0 (chunks (length p div 64) 64 p))))"

lemma foldl_length:
  assumes "\<And>a x. length a = n \<Longrightarrow> length (f a x) = n" "length a = n"
  shows "length (foldl f a xs) = n"
  using assms(2) by (induction xs arbitrary: a) (simp_all add: assms(1))

lemma length_sha256_round: "length (sha256_round v kw) = 8"
  by (simp add: sha256_round_def Let_def)

lemma length_sha256_block: "length h = 8 \<Longrightarrow> length (sha256_block h b) = 8"
  by (simp add: sha256_block_def Let_def foldl_length length_sha256_round)

lemma length_concat_be_bytes32: "length (concat (map be_bytes32 ws)) = 4 * length ws"
  by (induction ws) (simp_all add: be_bytes32_def)

lemma length_sha256_H0: "length sha256_H0 = 8"
proof -
  have "length (primes_upto 19) = 8" by code_simp
  then show ?thesis by (simp add: sha256_H0_def)
qed

lemma length_sha256 [simp]: "length (sha256 m) = 32"
proof -
  have "length (foldl sha256_block sha256_H0 bs) = 8" for bs
    by (rule foldl_length) (simp_all add: length_sha256_block length_sha256_H0)
  then show ?thesis
    by (simp add: sha256_def Let_def length_concat_be_bytes32)
qed

definition sha256_hexdigest :: "string \<Rightarrow> string" where
  "sha256_hexdigest s = hexdigest (sha256 (utf8 s))"

lemma length_sha256_hexdigest [simp]: "length (sha256_hexdigest s) = 64"
  by (simp add: sha256_hexdigest_def)

section \<open>BLAKE2b with a 32-byte digest\<close>

definition blake2b_IV :: "64 word list" where
  "blake2b_IV = map (\<lambda>p. of_int (int_root 2 72 0 (p * 2 ^ 128))) (primes_upto 19)"

definition blake2b_sigma :: "nat list list" where
  "blake2b_sigma = [
   [0, 1, 2, 3, 4, 5, 6, 7, 8, 9, 10, 11, 12, 13, 14, 15],
   [14, 10, 4, 8, 9, 15, 13, 6, 1, 12, 0, 2, 11, 7, 5, 3],
   [11, 8, 12, 0, 5, 2, 15, 13, 10, 14, 3, 6, 7, 1, 9, 4],
   [7, 9, 3, 1, 13, 12, 11, 14, 2, 6, 5, 10, 4, 0, 15, 8],
   [9, 0, 5, 7, 2, 4, 10, 15, 14, 1, 11, 12, 6, 8, 3, 13],
   [2, 12, 6, 10, 0, 11, 8, 3, 4, 13, 7, 5, 15, 14, 1, 9],
   [12, 5, 1, 15, 14, 13, 4, 10, 0, 7, 6, 3, 9, 2, 8, 11],
   [13, 11, 7, 14, 12, 1, 3, 9, 5, 0, 15, 4, 8, 6, 2, 10],
   [6, 15, 14, 9, 11, 3, 0, 8, 12, 2, 13, 7, 1, 4, 10, 5],
   [10, 2, 8, 4, 7, 6, 1, 5, 15, 11, 9, 14, 3, 12, 13, 0],
   [0, 1, 2, 3, 4, 5, 6, 7, 8, 9, 10, 11, 12, 13, 14, 15],
   [14, 10, 4, 8, 9, 15, 13, 6, 1, 12, 0, 2, 11, 7, 5, 3]]"

definition le_word64 :: "bytes \<Rightarrow> 64 word" where
  "le_word64 bs = foldr (\<lambda>b w. push_bit 8 w OR ucast b) bs 0"

definition le_bytes64 :: "64 word \<Rightarrow> bytes" where
  "le_bytes64 w = map (\<lambda>i. ucast (drop_bit (8 * i) w)) [0..<8]"

definition blake2b_mix :: "64 word list \<Rightarrow> nat \<times> nat \<times> nat \<times> nat \<Rightarrow> 64 word \<Rightarrow> 64 word \<Rightarrow> 64 word list" where
  "blake2b_mix v ix x y = (case ix of (a, b, c, d) \<Rightarrow>
     let va = v ! a + v ! b + x; vd = word_rotr 32 (v ! d XOR va);
         vc = v ! c + vd; vb = word_rotr 24 (v ! b XOR vc);
         va' = va + vb + y; vd' = word_rotr 16 (vd XOR va');
         vc' = vc + vd'; vb' = word_rotr 63 (vb XOR vc')
     in v[a := va', b := vb', c := vc', d := vd'])"

definition blake2b_columns :: "(nat \<times> nat \<times> nat \<times> nat) list" where
  "blake2b_columns = [(0, 4, 8, 12), (1, 5, 9, 13), (2, 6, 10, 14), (3, 7, 11, 15),
                      (0, 5, 10, 15), (1, 6, 11, 12), (2, 7, 8, 13), (3, 4, 9, 14)]"

definition blake2b_round :: "64 word list \<Rightarrow> 64 word list \<Rightarrow> nat list \<Rightarrow> 64 word list" where
  "blake2b_round m v s = foldl (\<lambda>v i. blake2b_mix v (blake2b_columns ! i) (m ! (s ! (2 * i))) (m ! (s ! (2 * i + 1)))) v [0..<8]"

definition blake2b_compress :: "64 word list \<Rightarrow> bytes \<Rightarrow> nat \<Rightarrow> bool \<Rightarrow> 64 word list" where
  "blake2b_compress h blk t final =
     (let m = map le_word64 (chunks 16 8 blk);
          v = h @ take 4 blake2b_IV @
              [blake2b_IV ! 4 XOR of_nat t, blake2b_IV ! 5 XOR of_int (int t div 2 ^ 64),
               (if final then NOT (blake2b_IV ! 6) else blake2b_IV ! 6), blake2b_IV ! 7];
          r = foldl (blake2b_round m) v blake2b_sigma
      in map (\<lambda>i. h ! i XOR r ! i XOR r ! (i + 8)) [0..<8])"

text \<open>The last block, which may be full, is zero-padded and compressed with the final flag.\<close>

fun blake2b_blocks :: "nat \<Rightarrow> nat \<Rightarrow> 64 word list \<Rightarrow> bytes \<Rightarrow> 64 word list" where
  "blake2b_blocks 0 t h bs = blake2b_compress h (bs @ replicate (128 - length bs) 0) (t + length bs) True"
| "blake2b_blocks (Suc n) t h bs =
     blake2b_blocks n (t + 128) (blake2b_compress h (take 128 bs) (t + 128) False) (drop 128 bs)"

definition blake2b_32 :: "bytes \<Rightarrow> bytes" where
  "blake2b_32 m =
     (let h = blake2b_IV[0 := blake2b_IV ! 0 XOR 0x01010020]
      in take 32 (concat (map le_bytes64 (blake2b_blocks ((length m - 1) div 128) 0 h m))))"

lemma length_concat_le_bytes64: "length (concat (map le_bytes64 ws)) = 8 * length ws"
  by (induction ws) (simp_all add: le_bytes64_def)

lemma length_blake2b_blocks: "length (blake2b_blocks n t h bs) = 8"
  by (induction n t h bs rule: blake2b_blocks.induct) (simp_all add: blake2b_compress_def Let_def)

lemma length_blake2b_32 [simp]: "length (blake2b_32 m) = 32"
  by (simp add: blake2b_32_def Let_def length_concat_le_bytes64 length_blake2b_blocks)

definition blake2b_hexdigest :: "string \<Rightarrow> string" where
  "blake2b_hexdigest s = hexdigest (blake2b_32 (utf8 s))"

lemma length_blake2b_hexdigest [simp]: "length (blake2b_hexdigest s) = 64"
  by (simp add: blake2b_hexdigest_def)

end
