(* ===== verification/Py_Json.thy ===== *)
theory Py_Json
  imports Py_Prelude Py_Hash "HOL-Library.List_Lexorder" "HOL-Library.Char_ord"
begin

text \<open>
  The \<open>json\<close> module as the maintenance code uses it: \<open>json.dumps\<close> with
  \<open>sort_keys=True\<close> and compact separators, with and without \<open>ensure_ascii\<close>, and
  \<open>json.loads\<close>. The round trip is proved for values built from strings, booleans,
  \<open>None\<close>, lists and dictionaries. The reader takes a fuel argument that bounds the depth of
  its calls; each nested value costs at least one character, so the fuel chosen in
  \<open>json_loads\<close> never runs out. Code points above 255 are outside the string model: an escape
  that names one is read as an error.
\<close>

section \<open>Writing\<close>

definition json_float :: "pyfloat \<Rightarrow> string" where
  "json_float x = (case x of NaN \<Rightarrow> ''NaN'' | PInf \<Rightarrow> ''Infinity'' | NInf \<Rightarrow> ''-Infinity''
     | Fin r \<Rightarrow> float_repr x)"

abbreviation quote_char :: char where "quote_char \<equiv> CHR 0x22"
abbreviation backslash_char :: char where "backslash_char \<equiv> CHR 0x5C"

definition json_esc :: "bool \<Rightarrow> char \<Rightarrow> string" where
  "json_esc ensure_ascii c = (let n = (of_char c :: nat) in
     if c = quote_char then [backslash_char, quote_char]
     else if c = backslash_char then [backslash_char, backslash_char]
     else if n = 10 then [backslash_char, CHR ''n'']
     else if n = 13 then [backslash_char, CHR ''r'']
     else if n = 9 then [backslash_char, CHR ''t'']
     else if n = 8 then [backslash_char, CHR ''b'']
     else if n = 12 then [backslash_char, CHR ''f'']
     else if n < 32 \<or> (ensure_ascii \<and> 127 \<le> n)
       then [backslash_char, CHR ''u'', CHR ''0'', CHR ''0'', hex_digit (n div 16), hex_digit n]
     else [c])"

definition json_str :: "bool \<Rightarrow> string \<Rightarrow> string" where
  "json_str ea s = quote_char # concat (map (json_esc ea) s) @ [quote_char]"

text \<open>\<open>sorted(d.items())\<close>: keys are distinct, so the order is that of the keys.\<close>

fun json_dumps :: "bool \<Rightarrow> pyval \<Rightarrow> string" where
  "json_dumps ea PNone = ''null''"
| "json_dumps ea (PBool b) = (if b then ''true'' else ''false'')"
| "json_dumps ea (PInt i) = str_of_int i"
| "json_dumps ea (PFloat x) = json_float x"
| "json_dumps ea (PStr s) = json_str ea s"
| "json_dumps ea (PList xs) = CHR ''['' # join '','' (map (json_dumps ea) xs) @ '']''"
| "json_dumps ea (PDict d) = CHR ''{'' # join '',''
     (map (\<lambda>(k, t). json_str ea k @ CHR '':'' # t)
        (sort_key fst (map (\<lambda>(k, v). (k, json_dumps ea v)) d))) @ ''}''"

section \<open>Reading\<close>

definition json_ws :: "char \<Rightarrow> bool" where
  "json_ws c = (c \<in> {CHR '' '', CHR 0x09, CHR 0x0A, CHR 0x0D})"

definition hex_val :: "char \<Rightarrow> nat option" where
  "hex_val c = (let n = (of_char c :: nat) in
     if 48 \<le> n \<and> n \<le> 57 then Some (n - 48)
     else if 97 \<le> n \<and> n \<le> 102 then Some (n - 87)
     else if 65 \<le> n \<and> n \<le> 70 then Some (n - 55) else None)"

definition json_unesc :: "char \<Rightarrow> char option" where
  "json_unesc e = map_of [(quote_char, quote_char), (backslash_char, backslash_char),
     (CHR ''/'', CHR ''/''), (CHR ''b'', CHR 0x08), (CHR ''f'', CHR 0x0C), (CHR ''n'', CHR 0x0A),
     (CHR ''r'', CHR 0x0D), (CHR ''t'', CHR 0x09)] e"

definition hex4 :: "char \<Rightarrow> char \<Rightarrow> char \<Rightarrow> char \<Rightarrow> char option" where
  "hex4 a b c d = (case (hex_val a, hex_val b, hex_val c, hex_val d) of
     (Some w, Some x, Some y, Some z) \<Rightarrow>
       (if w = 0 \<and> x = 0 then Some (char_of (16 * y + z)) else None)
   | _ \<Rightarrow> None)"

text \<open>The characters of a string literal up to its closing quote, and what follows it.\<close>

fun scan_str :: "string \<Rightarrow> (string \<times> string) option" where
  "scan_str [] = None"
| "scan_str (c # cs) =
     (if c = quote_char then Some ([], cs)
      else if c = backslash_char then
        (case cs of [] \<Rightarrow> None
         | e # es \<Rightarrow>
           if e = CHR ''u'' then
             (case es of h1 # h2 # h3 # h4 # r \<Rightarrow>
                (case hex4 h1 h2 h3 h4 of None \<Rightarrow> None
                 | Some x \<Rightarrow> map_option (apfst (Cons x)) (scan_str r))
              | _ \<Rightarrow> None)
           else (case json_unesc e of None \<Rightarrow> None
                 | Some x \<Rightarrow> map_option (apfst (Cons x)) (scan_str es)))
      else if (of_char c :: nat) < 32 then None
      else map_option (apfst (Cons c)) (scan_str cs))"

text \<open>Number literals: an integer part without leading zeros, then an optional fraction and an
  optional exponent, each only taken when it has a digit. Integers of more than 4300 digits are
  refused by \<open>int()\<close>.\<close>

definition json_int_part :: "string \<Rightarrow> string" where
  "json_int_part s = (case s of [] \<Rightarrow> []
     | c # _ \<Rightarrow> if c = CHR ''0'' then [c] else takeWhile is_digit s)"

definition json_frac_part :: "string \<Rightarrow> string" where
  "json_frac_part s = (case s of c # d # r \<Rightarrow>
       if c = CHR ''.'' \<and> is_digit d then c # takeWhile is_digit (d # r) else []
     | _ \<Rightarrow> [])"

definition json_exp_part :: "string \<Rightarrow> string" where
  "json_exp_part s = (case s of [] \<Rightarrow> []
     | c # r \<Rightarrow>
       if c = CHR ''e'' \<or> c = CHR ''E'' then
         (let sgn = (case r of x # _ \<Rightarrow> if x = CHR ''+'' \<or> x = CHR ''-'' then [x] else [] | [] \<Rightarrow> []);
              ds = takeWhile is_digit (drop (length sgn) r)
          in if ds = [] then [] else c # sgn @ ds)
       else [])"

definition json_number :: "string \<Rightarrow> (pyval \<times> string) option" where
  "json_number s =
     (let sgn = (case s of c # _ \<Rightarrow> if c = CHR ''-'' then [c] else [] | [] \<Rightarrow> []);
          s1 = drop (length sgn) s; ip = json_int_part s1;
          s2 = drop (length ip) s1; fp = json_frac_part s2;
          s3 = drop (length fp) s2; ep = json_exp_part s3;
          rest = drop (length ep) s3
      in if ip = [] then None
         else if fp = [] \<and> ep = [] then
           (if 4300 < length ip then None
            else (let v = foldl (\<lambda>n c. 10 * n + int (digit_val c)) 0 ip
                  in Some (PInt (if sgn = [] then v else - v), rest)))
         else map_option (\<lambda>x. (PFloat x, rest)) (float_of_str (sgn @ ip @ fp @ ep)))"

definition starts_with :: "string \<Rightarrow> string \<Rightarrow> bool" where
  "starts_with p s = (take (length p) s = p)"

definition json_word :: "string \<Rightarrow> (pyval \<times> string) option" where
  "json_word s =
     (if starts_with ''null'' s then Some (PNone, drop 4 s)
      else if starts_with ''true'' s then Some (PBool True, drop 4 s)
      else if starts_with ''false'' s then Some (PBool False, drop 5 s)
      else if starts_with ''NaN'' s then Some (PFloat NaN, drop 3 s)
      else if starts_with ''Infinity'' s then Some (PFloat PInf, drop 8 s)
      else if starts_with ''-Infinity'' s then Some (PFloat NInf, drop 9 s)
      else json_number s)"

definition dict_of_pairs :: "('k \<times> 'v) list \<Rightarrow> ('k, 'v) dict" where
  "dict_of_pairs kvs = foldl (\<lambda>d (k, v). dict_set k v d) [] kvs"

abbreviation skip_ws :: "string \<Rightarrow> string" where
  "skip_ws \<equiv> dropWhile json_ws"

fun json_value :: "nat \<Rightarrow> string \<Rightarrow> (pyval \<times> string) option"
and json_elems :: "nat \<Rightarrow> string \<Rightarrow> (pyval list \<times> string) option"
and json_items :: "nat \<Rightarrow> string \<Rightarrow> ((string \<times> pyval) list \<times> string) option" where
  "json_value 0 s = None"
| "json_value (Suc n) s = (case s of [] \<Rightarrow> None
     | c # cs \<Rightarrow>
       if c = quote_char then map_option (apfst PStr) (scan_str cs)
       else if c = CHR ''['' then
         (case skip_ws cs of [] \<Rightarrow> None
          | d # ds \<Rightarrow> if d = CHR '']'' then Some (PList [], ds)
                      else map_option (apfst PList) (json_elems n (d # ds)))
       else if c = CHR ''{'' then
         (case skip_ws cs of [] \<Rightarrow> None
          | d # ds \<Rightarrow> if d = CHR ''}'' then Some (PDict [], ds)
                      else map_option (apfst (PDict \<circ> dict_of_pairs)) (json_items n (d # ds)))
       else json_word s)"
| "json_elems 0 s = None"
| "json_elems (Suc n) s = (case json_value n s of None \<Rightarrow> None
     | Some (v, r) \<Rightarrow>
       (case skip_ws r of [] \<Rightarrow> None
        | d # ds \<Rightarrow> if d = CHR '']'' then Some ([v], ds)
                    else if d = CHR '','' then map_option (apfst (Cons v)) (json_elems n (skip_ws ds))
                    else None))"
| "json_items 0 s = None"
| "json_items (Suc n) s = (case s of [] \<Rightarrow> None
     | c # cs \<Rightarrow>
       if c \<noteq> quote_char then None
       else (case scan_str cs of None \<Rightarrow> None
        | Some (k, r) \<Rightarrow>
          (case skip_ws r of [] \<Rightarrow> None
           | e # es \<Rightarrow>
             if e \<noteq> CHR '':'' then None
             else (case json_value n (skip_ws es) of None \<Rightarrow> None
              | Some (v, r') \<Rightarrow>
                (case skip_ws r' of [] \<Rightarrow> None
                 | d # ds \<Rightarrow> if d = CHR ''}'' then Some ([(k, v)], ds)
                             else if d = CHR '','' then map_option (apfst (Cons (k, v))) (json_items n (skip_ws ds))
                             else None)))))"

definition json_loads :: "string \<Rightarrow> pyval option" where
  "json_loads s = (case json_value (2 * length s + 2) (skip_ws s) of None \<Rightarrow> None
     | Some (v, r) \<Rightarrow> (if skip_ws r = [] then Some v else None))"

section \<open>Round trip\<close>

text \<open>Values without numbers whose dictionaries have distinct keys, and the value that reading
  gives back: the same, with every dictionary in the order of its keys.\<close>

fun json_plain :: "pyval \<Rightarrow> bool" where
  "json_plain (PInt i) = False"
| "json_plain (PFloat x) = False"
| "json_plain (PList xs) = (\<forall>x \<in> set xs. json_plain x)"
| "json_plain (PDict d) = (distinct (map fst d) \<and> (\<forall>kv \<in> set d. json_plain (snd kv)))"
| "json_plain _ = True"

fun json_sorted :: "pyval \<Rightarrow> pyval" where
  "json_sorted (PList xs) = PList (map json_sorted xs)"
| "json_sorted (PDict d) = PDict (sort_key fst (map (\<lambda>(k, v). (k, json_sorted v)) d))"
| "json_sorted v = v"

lemma hex_val_digit: "hex_val (hex_digit n) = Some (n mod 16)"
proof -
  have "\<forall>m < 16. hex_val (''0123456789abcdef'' ! m) = Some m"
    by code_simp
  then show ?thesis by (simp add: hex_digit_def)
qed

lemma hex4_code:
  "hex4 (CHR ''0'') (CHR ''0'') (hex_digit (of_char c div 16)) (hex_digit (of_char c)) = Some c"
proof -
  have "of_char c div 16 < (16 :: nat)"
    using nat_of_char_less_256 [of c] by linarith
  moreover have "hex_val (CHR ''0'') = Some 0" by code_simp
  ultimately show ?thesis
    by (simp add: hex4_def hex_val_digit)
qed

lemma scan_str_esc: "scan_str (json_esc ea c @ r) = map_option (apfst (Cons c)) (scan_str r)"
proof -
  have unesc: "json_unesc quote_char = Some quote_char" "json_unesc backslash_char = Some backslash_char"
    "json_unesc (CHR ''n'') = Some (CHR 0x0A)" "json_unesc (CHR ''r'') = Some (CHR 0x0D)"
    "json_unesc (CHR ''t'') = Some (CHR 0x09)" "json_unesc (CHR ''b'') = Some (CHR 0x08)"
    "json_unesc (CHR ''f'') = Some (CHR 0x0C)"
    by (simp_all add: json_unesc_def)
  have chars: "char_of (10 :: nat) = CHR 0x0A" "char_of (13 :: nat) = CHR 0x0D"
    "char_of (9 :: nat) = CHR 0x09" "char_of (8 :: nat) = CHR 0x08" "char_of (12 :: nat) = CHR 0x0C"
    by code_simp+
  have code: "c = char_of n" if "of_char c = (n :: nat)" for n
    using that by auto
  show ?thesis
    by (auto simp: json_esc_def Let_def unesc chars hex4_code split: if_splits dest!: code)
qed

lemma scan_str_json: "scan_str (concat (map (json_esc ea) s) @ quote_char # r) = Some (s, r)"
  by (induction s) (simp_all add: scan_str_esc)

lemma insort_key_map_snd:
  "insort_key fst (k, g v) (map (\<lambda>(k, v). (k, g v)) d) = map (\<lambda>(k, v). (k, g v)) (insort_key fst (k, v) d)"
  by (induction d) auto

lemma sort_key_map_snd:
  "sort_key fst (map (\<lambda>(k, v). (k, g v)) d) = map (\<lambda>(k, v). (k, g v)) (sort_key fst d)"
  by (induction d) (auto simp: insort_key_map_snd)

lemma dict_of_pairs_distinct: "distinct (map fst d) \<Longrightarrow> dict_of_pairs d = d"
proof (induction d rule: rev_induct)
  case (snoc kv d)
  then show ?case
    by (cases kv) (auto simp: dict_of_pairs_def dict_set_fresh dict_in_def)
qed (simp add: dict_of_pairs_def)

text \<open>What the reader is asked to give back of the text \<open>t\<close> of a value \<open>v\<close>.\<close>

definition reads_as :: "string \<Rightarrow> pyval \<Rightarrow> bool" where
  "reads_as t v \<longleftrightarrow> (\<forall>n r. 2 * length t \<le> n \<longrightarrow> json_value n (t @ r) = Some (v, r)) \<and>
     (\<exists>c cs. t = c # cs \<and> \<not> json_ws c \<and> c \<noteq> CHR '']'')"

lemma reads_asD: "reads_as t v \<Longrightarrow> 2 * length t \<le> n \<Longrightarrow> json_value n (t @ r) = Some (v, r)"
  by (simp add: reads_as_def)

lemma reads_as_skip: "reads_as t v \<Longrightarrow> skip_ws (t @ r) = t @ r"
  by (auto simp: reads_as_def)

lemma join_start:
  "xs \<noteq> [] \<Longrightarrow> \<forall>x \<in> set xs. reads_as (f x) (g x) \<Longrightarrow>
     \<exists>c cs. join '','' (map f xs) = c # cs \<and> \<not> json_ws c \<and> c \<noteq> CHR '']''"
  by (cases xs rule: remdups_adj.cases) (auto simp: reads_as_def)

lemma json_elems_read:
  assumes "xs \<noteq> []" "\<forall>x \<in> set xs. reads_as (f x) (g x)" "2 * length (join '','' (map f xs)) + 1 \<le> n"
  shows "json_elems n (join '','' (map f xs) @ CHR '']'' # r) = Some (map g xs, r)"
  using assms
proof (induction xs arbitrary: n)
  case (Cons x xs)
  then obtain m where n: "n = Suc m" by (cases n) auto
  show ?case
  proof (cases "xs = []")
    case True
    then show ?thesis using Cons.prems by (simp add: n reads_asD json_ws_def)
  next
    case False
    then have j: "join '','' (map f (x # xs)) = f x @ CHR '','' # join '','' (map f xs)"
      by (cases xs) simp_all
    have len: "2 * length (f x) \<le> m" "2 * length (join '','' (map f xs)) + 1 \<le> m"
      using Cons.prems(3) unfolding n j by simp_all
    have first: "json_value m (f x @ CHR '','' # join '','' (map f xs) @ CHR '']'' # r)
        = Some (g x, CHR '','' # join '','' (map f xs) @ CHR '']'' # r)"
      using Cons.prems(2) len(1) by (auto intro: reads_asD)
    obtain c cs where start: "join '','' (map f xs) = c # cs" "\<not> json_ws c"
      using Cons.prems(2) False join_start by (metis list.set_intros(2))
    have rest: "json_elems m (join '','' (map f xs) @ CHR '']'' # r) = Some (map g xs, r)"
      using Cons.IH [of m] Cons.prems(2) len(2) False by simp
    have "json_elems n (join '','' (map f (x # xs)) @ CHR '']'' # r) = Some (g x # map g xs, r)"
      using first rest start by (simp add: n j json_ws_def del: list.map(2))
    then show ?thesis by simp
  qed
qed simp

definition item_text :: "bool \<Rightarrow> string \<times> string \<Rightarrow> string" where
  "item_text ea = (\<lambda>(k, t). json_str ea k @ CHR '':'' # t)"

lemma json_items_step:
  assumes "reads_as t v" "2 * length (item_text ea (k, t)) \<le> m" "\<not> json_ws d"
  shows "json_items (Suc m) (item_text ea (k, t) @ d # r) =
    (if d = CHR ''}'' then Some ([(k, v)], r)
     else if d = CHR '','' then map_option (apfst (Cons (k, v))) (json_items m (skip_ws r))
     else None)"
proof -
  have "json_value m (t @ d # r) = Some (v, d # r)"
    using assms by (intro reads_asD) (auto simp: item_text_def)
  moreover have "skip_ws (t @ d # r) = t @ d # r"
    using assms(1) by (rule reads_as_skip)
  moreover have "scan_str (concat (map (json_esc ea) k) @ quote_char # CHR '':'' # t @ d # r) =
      Some (k, CHR '':'' # t @ d # r)"
    by (rule scan_str_json)
  moreover have "\<not> json_ws (CHR '':'')" by (simp add: json_ws_def)
  ultimately show ?thesis
    using assms(3) by (simp add: item_text_def json_str_def)
qed

lemma json_items_read:
  assumes "d \<noteq> []" "\<forall>(k, t, v) \<in> set d. reads_as t v"
    "2 * length (join '','' (map (\<lambda>(k, t, v). item_text ea (k, t)) d)) + 1 \<le> n"
  shows "json_items n (join '','' (map (\<lambda>(k, t, v). item_text ea (k, t)) d) @ CHR ''}'' # r)
    = Some (map (\<lambda>(k, t, v). (k, v)) d, r)"
  using assms
proof (induction d arbitrary: n)
  case (Cons x d)
  obtain k t v where x: "x = (k, t, v)" by (cases x) auto
  obtain m where n: "n = Suc m" using Cons.prems(3) by (cases n) auto
  have t: "reads_as t v" using Cons.prems(2) by (simp add: x)
  show ?case
  proof (cases "d = []")
    case True
    then show ?thesis using Cons.prems(3) t
      by (simp add: n x json_items_step json_ws_def del: json_items.simps)
  next
    case False
    let ?rest = "join '','' (map (\<lambda>(k, t, v). item_text ea (k, t)) d)"
    have j: "join '','' (map (\<lambda>(k, t, v). item_text ea (k, t)) (x # d)) = item_text ea (k, t) @ CHR '','' # ?rest"
      using False by (cases d) (simp_all add: x)
    have len: "2 * length (item_text ea (k, t)) \<le> m" "2 * length ?rest + 1 \<le> m"
      using Cons.prems(3) unfolding n j by simp_all
    have "skip_ws (?rest @ CHR ''}'' # r) = ?rest @ CHR ''}'' # r"
      using False by (cases d rule: remdups_adj.cases)
        (auto simp: item_text_def json_str_def json_ws_def split: prod.splits)
    moreover have "json_items m (?rest @ CHR ''}'' # r) = Some (map (\<lambda>(k, t, v). (k, v)) d, r)"
      using Cons.IH [of m] Cons.prems(2) len(2) False by simp
    ultimately have "json_items n (join '','' (map (\<lambda>(k, t, v). item_text ea (k, t)) (x # d)) @ CHR ''}'' # r)
        = Some ((k, v) # map (\<lambda>(k, t, v). (k, v)) d, r)"
      using t len(1) unfolding j n by (simp add: json_items_step json_ws_def del: json_items.simps)
    then show ?thesis by (simp add: x)
  qed
qed simp

lemma reads_as_str: "reads_as (json_str ea s) (PStr s)"
proof -
  have "json_value n (json_str ea s @ r) = Some (PStr s, r)" if "2 * length (json_str ea s) \<le> n" for n r
    using that by (cases n) (simp_all add: json_str_def scan_str_json)
  then show ?thesis by (auto simp: reads_as_def json_str_def json_ws_def)
qed

lemma reads_as_list:
  assumes "\<forall>x \<in> set xs. reads_as (f x) (g x)"
  shows "reads_as (CHR ''['' # join '','' (map f xs) @ '']'') (PList (map g xs))"
proof -
  have "json_value n ((CHR ''['' # join '','' (map f xs) @ '']'') @ r) = Some (PList (map g xs), r)"
    if n: "2 * length (CHR ''['' # join '','' (map f xs) @ '']'') \<le> n" for n r
  proof (cases "xs = []")
    case True
    then show ?thesis using n by (cases n) (simp_all add: json_ws_def)
  next
    case False
    obtain m where m: "n = Suc m" "2 * length (join '','' (map f xs)) + 1 \<le> m"
      using n by (cases n) simp_all
    obtain c cs where j: "join '','' (map f xs) = c # cs" "\<not> json_ws c" "c \<noteq> CHR '']''"
      using join_start [OF False assms] by blast
    have "json_elems m (c # cs @ CHR '']'' # r) = Some (map g xs, r)"
      using json_elems_read [OF False assms m(2), of r] by (simp add: j)
    then show ?thesis by (simp add: m(1) j)
  qed
  then show ?thesis by (auto simp: reads_as_def json_ws_def)
qed

lemma reads_as_dict:
  assumes "\<forall>(k, t, v) \<in> set d. reads_as t v" "distinct (map fst d)"
  shows "reads_as (CHR ''{'' # join '','' (map (\<lambda>(k, t, v). item_text ea (k, t)) d) @ ''}'')
    (PDict (map (\<lambda>(k, t, v). (k, v)) d))"
proof -
  let ?j = "join '','' (map (\<lambda>(k, t, v). item_text ea (k, t)) d)"
  have "map fst (map (\<lambda>(k, t, v). (k, v)) d) = map fst d"
    by (induction d) auto
  then have pairs: "dict_of_pairs (map (\<lambda>(k, t, v). (k, v)) d) = map (\<lambda>(k, t, v). (k, v)) d"
    using assms(2) by (intro dict_of_pairs_distinct) (simp only:)
  have "json_value n ((CHR ''{'' # ?j @ ''}'') @ r) = Some (PDict (map (\<lambda>(k, t, v). (k, v)) d), r)"
    if n: "2 * length (CHR ''{'' # ?j @ ''}'') \<le> n" for n r
  proof (cases "d = []")
    case True
    then show ?thesis using n by (cases n) (simp_all add: json_ws_def dict_of_pairs_def)
  next
    case False
    obtain m where m: "n = Suc m" "2 * length ?j + 1 \<le> m"
      using n by (cases n) simp_all
    obtain cs where j: "?j = quote_char # cs"
      using False by (cases d rule: remdups_adj.cases)
        (auto simp: item_text_def json_str_def split: prod.splits)
    have "json_items m (quote_char # cs @ CHR ''}'' # r) = Some (map (\<lambda>(k, t, v). (k, v)) d, r)"
      using json_items_read [OF False assms(1) m(2), of r] by (simp add: j)
    then show ?thesis by (simp add: m(1) j json_ws_def pairs)
  qed
  then show ?thesis by (auto simp: reads_as_def json_ws_def)
qed

lemma reads_as_word:
  assumes "\<And>r. json_word ((c # cs) @ r) = Some (v, r)"
    and "\<not> json_ws c" "c \<notin> {quote_char, CHR ''['', CHR ''{'', CHR '']''}"
  shows "reads_as (c # cs) v"
proof -
  have "json_value n ((c # cs) @ r) = Some (v, r)" if "2 * length (c # cs) \<le> n" for n r
    using that assms(1) [of r] assms(3) by (cases n) simp_all
  then show ?thesis using assms(2,3) by (simp add: reads_as_def)
qed

lemma reads_as_dumps: "json_plain v \<Longrightarrow> reads_as (json_dumps ea v) (json_sorted v)"
proof (induction v)
  case (PList xs)
  then have "\<forall>x \<in> set xs. reads_as (json_dumps ea x) (json_sorted x)" by simp
  then show ?case using reads_as_list [of xs "json_dumps ea" json_sorted] by simp
next
  case (PDict d)
  let ?e = "map (\<lambda>(k, v). (k, json_dumps ea v, json_sorted v)) (sort_key fst d)"
  have "reads_as (json_dumps ea v) (json_sorted v)" if "(k, v) \<in> set d" for k v
    using PDict.IH [of "(k, v)" v] PDict.prems that by force
  then have "\<forall>(k, t, v) \<in> set ?e. reads_as t v" by auto
  moreover have "map fst ?e = map fst (sort_key fst d)"
    by (simp add: case_prod_unfold comp_def)
  moreover have "distinct (map fst (sort_key fst d))"
    using PDict.prems by (simp add: distinct_map)
  ultimately have "reads_as (CHR ''{'' # join '','' (map (\<lambda>(k, t, v). item_text ea (k, t)) ?e) @ ''}'')
    (PDict (map (\<lambda>(k, t, v). (k, v)) ?e))"
    by (intro reads_as_dict) (simp_all only:)
  then show ?case
    by (simp add: sort_key_map_snd [unfolded case_prod_unfold] item_text_def case_prod_unfold comp_def)
next
  case PNone
  show ?case by (simp, rule reads_as_word) (simp_all add: json_word_def starts_with_def json_ws_def)
next
  case (PBool b)
  have "reads_as ''true'' (PBool True)" "reads_as ''false'' (PBool False)"
    by (rule reads_as_word; simp add: json_word_def starts_with_def json_ws_def)+
  then show ?case by simp
qed (simp_all add: reads_as_str)

text \<open>Reading what \<open>json.dumps(v, sort_keys=True, separators=(",", ":"))\<close> wrote gives
  back the value, with every dictionary ordered by its keys.\<close>

lemma json_roundtrip:
  assumes "json_plain v"
  shows "json_loads (json_dumps ea v) = Some (json_sorted v)"
proof -
  have r: "reads_as (json_dumps ea v) (json_sorted v)"
    using assms by (rule reads_as_dumps)
  have "skip_ws (json_dumps ea v) = json_dumps ea v"
    using reads_as_skip [OF r, of "[]"] by simp
  moreover have "json_value (2 * length (json_dumps ea v) + 2) (json_dumps ea v) = Some (json_sorted v, [])"
    using reads_asD [OF r, of _ "[]"] by (simp del: json_value.simps)
  ultimately show ?thesis by (simp add: json_loads_def del: json_value.simps)
qed

end
