(* ===== verification/Maint_Record.thy ===== *)
theory Maint_Record
  imports Py_Json
begin

text \<open>
  Governed maintenance of deployed applications, up to the evidence it produces
  (\<open>deployed_app_observation.py\<close>, \<open>repair_report.py\<close>, \<open>governed_maintenance_record.py\<close>,
  \<open>governed_maintenance_execution.py\<close> under \<open>autonomous-api/app/engine\<close>): a runtime observation
  is assessed into an admission, a repair report is built and carries its own digest, and a
  maintenance record and event are made only from an admission and a report that pass every check.
  A raise is an \<open>Inl\<close>; nothing here has state.
\<close>

section \<open>Exceptions\<close>

datatype maint_exn =
    Py py_exn
  | JSONDecodeError
  | ObservatoryDeliveryError string
  | MaintenanceOutboxError string
  | Foreign string

abbreviation value_error :: "string \<Rightarrow> maint_exn" where
  "value_error m \<equiv> Py (ValueError m)"

text \<open>\<open>type(error).__name__\<close>.\<close>

fun exn_name :: "maint_exn \<Rightarrow> string" where
  "exn_name (Py (ValueError _)) = ''ValueError''"
| "exn_name (Py (KeyError _)) = ''KeyError''"
| "exn_name (Py (TypeError _)) = ''TypeError''"
| "exn_name (Py (AttributeError _)) = ''AttributeError''"
| "exn_name (Py (ValidationError _)) = ''ValidationError''"
| "exn_name (Py (RuntimeError _)) = ''RuntimeError''"
| "exn_name (Py (OverflowError _)) = ''OverflowError''"
| "exn_name (Py (NotImplementedError _)) = ''NotImplementedError''"
| "exn_name JSONDecodeError = ''JSONDecodeError''"
| "exn_name (ObservatoryDeliveryError _) = ''ObservatoryDeliveryError''"
| "exn_name (MaintenanceOutboxError _) = ''MaintenanceOutboxError''"
| "exn_name (Foreign c) = c"

text \<open>A sequence of guards, each raising its own error; the first that fires wins.\<close>

fun first_error :: "(bool \<times> maint_exn) list \<Rightarrow> maint_exn option" where
  "first_error [] = None"
| "first_error ((b, e) # gs) = (if b then Some e else first_error gs)"

definition guarded :: "(bool \<times> maint_exn) list \<Rightarrow> 'a \<Rightarrow> maint_exn + 'a" where
  "guarded gs x = (case first_error gs of None \<Rightarrow> Inr x | Some e \<Rightarrow> Inl e)"

lemma first_error_None: "first_error gs = None \<longleftrightarrow> (\<forall>(b, e) \<in> set gs. \<not> b)"
  by (induction gs rule: first_error.induct) auto

lemma guarded_Inr: "guarded gs x = Inr y \<longleftrightarrow> x = y \<and> (\<forall>(b, e) \<in> set gs. \<not> b)"
  by (simp add: guarded_def first_error_None [symmetric] split: option.splits)

section \<open>Runtime observations and admission\<close>

datatype ObservationStatus = HEALTHY | DEGRADED | FAILED | UNKNOWN

fun observation_status_value :: "ObservationStatus \<Rightarrow> string" where
  "observation_status_value HEALTHY = ''healthy''"
| "observation_status_value DEGRADED = ''degraded''"
| "observation_status_value FAILED = ''failed''"
| "observation_status_value UNKNOWN = ''unknown''"

datatype DriftSeverity = INFO | WARNING | CRITICAL

record RuntimeObservation =
  deployment_id :: string
  observed_revision :: string
  environment_fingerprint :: string
  ob_status :: ObservationStatus
  health_evidence :: "string list"
  ob_verification_evidence :: "string list"
  observed_capabilities :: "string list"

definition new_observation :: "RuntimeObservation \<Rightarrow> maint_exn + RuntimeObservation" where
  "new_observation ob = guarded
     [(deployment_id ob = [], value_error ''missing-deployment-id''),
      (observed_revision ob = [], value_error ''missing-observed-revision''),
      (environment_fingerprint ob = [], value_error ''missing-environment-fingerprint''),
      (health_evidence ob = [], value_error ''missing-health-evidence'')] ob"

definition evidence_complete :: "RuntimeObservation \<Rightarrow> bool" where
  "evidence_complete ob = (health_evidence ob \<noteq> [] \<and> ob_verification_evidence ob \<noteq> [])"

abbreviation str_list :: "string list \<Rightarrow> pyval" where
  "str_list ss \<equiv> PList (map PStr ss)"

definition observation_digest_of :: "RuntimeObservation \<Rightarrow> string" where
  "observation_digest_of ob = blake2b_hexdigest (json_dumps False (PDict
     [(''deployment_id'', PStr (deployment_id ob)),
      (''observed_revision'', PStr (observed_revision ob)),
      (''environment_fingerprint'', PStr (environment_fingerprint ob)),
      (''status'', PStr (observation_status_value (ob_status ob))),
      (''health_evidence'', str_list (health_evidence ob)),
      (''verification_evidence'', str_list (ob_verification_evidence ob)),
      (''observed_capabilities'', str_list (observed_capabilities ob))]))"

record RuntimeDrift =
  drift_code :: string
  drift_severity :: DriftSeverity
  drift_description :: string
  drift_evidence_refs :: "string list"
  authoritative_obligation_id :: "string option"

definition new_drift :: "RuntimeDrift \<Rightarrow> maint_exn + RuntimeDrift" where
  "new_drift d = guarded
     [(drift_code d = [], value_error ''missing-drift-code''),
      (drift_description d = [], value_error ''missing-drift-description''),
      (drift_evidence_refs d = [], value_error ''missing-drift-evidence'')] d"

record DeployedMaintenanceAdmission =
  ad_observation_digest :: string
  executable :: bool
  ad_reasons :: "string list"
  authorized_obligation_ids :: "string list"
  production_write_authorized :: bool

record admission_request =
  baseline_revision :: string
  baseline_environment_fingerprint :: string
  drifts :: "RuntimeDrift list"
  rq_obligation_ids :: "string list"
  explicit_change_authorization :: bool
  rq_production_write_authorized :: bool
  deployment_access :: bool

definition drift_reasons :: "string list \<Rightarrow> RuntimeDrift list \<Rightarrow> string list" where
  "drift_reasons authorized ds = concat (map (\<lambda>d.
     case authoritative_obligation_id d of
       None \<Rightarrow> [''advisory-drift:'' @ drift_code d]
     | Some i \<Rightarrow> (if i \<in> set authorized then [] else [''drift-obligation-not-authorized:'' @ drift_code d])) ds)"

definition admission_reasons :: "RuntimeObservation \<Rightarrow> admission_request \<Rightarrow> string list" where
  "admission_reasons ob q =
     (if evidence_complete ob then [] else [''runtime-verification-evidence-incomplete'']) @
     (if ob_status ob = HEALTHY then []
      else [''runtime-status-not-healthy:'' @ observation_status_value (ob_status ob)]) @
     (if baseline_revision q = [] then [''missing-baseline-revision''] else []) @
     (if baseline_environment_fingerprint q = [] then [''missing-baseline-environment''] else []) @
     (if observed_revision ob \<noteq> baseline_revision q then [''runtime-revision-drift''] else []) @
     (if environment_fingerprint ob \<noteq> baseline_environment_fingerprint q
      then [''runtime-environment-drift''] else []) @
     drift_reasons (rq_obligation_ids q) (drifts q) @
     (if explicit_change_authorization q then [] else [''explicit-change-authorization-required'']) @
     (if rq_production_write_authorized q \<and> \<not> deployment_access q
      then [''production-write-requires-deployment-access''] else []) @
     (if rq_production_write_authorized q \<and> \<not> explicit_change_authorization q
      then [''production-write-requires-explicit-authorization''] else [])"

definition blocking_reasons :: "string list \<Rightarrow> string list" where
  "blocking_reasons rs = filter (\<lambda>r. \<not> starts_with ''advisory-drift:'' r) rs"

definition assess_deployed_observation ::
    "RuntimeObservation \<Rightarrow> admission_request \<Rightarrow> DeployedMaintenanceAdmission" where
  "assess_deployed_observation ob q =
     (let reasons = admission_reasons ob q;
          exec = (blocking_reasons reasons = [] \<and> rq_obligation_ids q \<noteq> []);
          none = (rq_obligation_ids q = []);
          reasons = (if none then reasons @ [''no-authorized-obligations''] else reasons);
          exec = (if none then False else exec)
      in \<lparr>ad_observation_digest = observation_digest_of ob, executable = exec,
          ad_reasons = sort (remdups reasons),
          authorized_obligation_ids = sort (remdups (rq_obligation_ids q)),
          production_write_authorized = rq_production_write_authorized q \<and>
            explicit_change_authorization q \<and> deployment_access q\<rparr>)"

definition require_deployed_maintenance_admission :: "DeployedMaintenanceAdmission \<Rightarrow> maint_exn + unit" where
  "require_deployed_maintenance_admission ad =
     (if executable ad then Inr ()
      else Inl (value_error (case ad_reasons ad of [] \<Rightarrow> ''deployed-maintenance-not-admissible'' | r # _ \<Rightarrow> r)))"

section \<open>Repair reports\<close>

record RepairReport =
  schema_version :: string
  report_id :: string
  target :: string
  source_revision :: string
  finding_ids :: "string list"
  root_causes :: "payload list"
  candidates_considered :: "payload list"
  selected_candidate_id :: "string option"
  rep_patch_digest :: "string option"
  verification :: "payload list"
  regressions :: "payload list"
  measurements :: "payload list"
  residuals :: "string list"
  deployment_ready :: bool
  human_deployment_authorization_required :: bool
  rep_digest :: string

abbreviation dict_list :: "payload list \<Rightarrow> pyval" where
  "dict_list ds \<equiv> PList (map PDict ds)"

definition canonical_payload :: "RepairReport \<Rightarrow> pyval" where
  "canonical_payload r = PDict
     [(''schema_version'', PStr (schema_version r)), (''report_id'', PStr (report_id r)),
      (''target'', PStr (target r)), (''source_revision'', PStr (source_revision r)),
      (''finding_ids'', str_list (finding_ids r)), (''root_causes'', dict_list (root_causes r)),
      (''candidates_considered'', dict_list (candidates_considered r)),
      (''selected_candidate_id'', of_opt (selected_candidate_id r)),
      (''patch_digest'', of_opt (rep_patch_digest r)),
      (''verification'', dict_list (verification r)), (''regressions'', dict_list (regressions r)),
      (''measurements'', dict_list (measurements r)), (''residuals'', str_list (residuals r)),
      (''deployment_ready'', PBool (deployment_ready r)),
      (''human_deployment_authorization_required'', PBool (human_deployment_authorization_required r))]"

definition verify_digest :: "RepairReport \<Rightarrow> bool" where
  "verify_digest r = (rep_digest r = sha256_hexdigest (json_dumps True (canonical_payload r)))"

text \<open>The arguments are the fields of the report less its schema version and digest, which the
  function fills in.\<close>

definition build_repair_report :: "RepairReport \<Rightarrow> maint_exn + RepairReport" where
  "build_repair_report args =
     (let r = args\<lparr>schema_version := ''esap.repair-report.v1''\<rparr> in
      guarded
        [(deployment_ready r \<and> selected_candidate_id r = None,
          value_error ''deployment-ready-report-without-selected-repair''),
         (deployment_ready r \<and> residuals r \<noteq> [], value_error ''deployment-ready-report-has-residuals'')]
        (r\<lparr>rep_digest := sha256_hexdigest (json_dumps True (canonical_payload r))\<rparr>))"

section \<open>Maintenance records and events\<close>

record GovernedMaintenanceRecord =
  rec_observation_digest :: string
  rec_obligation_id :: string
  rec_patch_digest :: string
  verification_evidence :: "string list"
  authorization_ref :: string
  production_write_requested :: bool

text \<open>\<open>not s or not s.strip()\<close>.\<close>

definition blank :: "string \<Rightarrow> bool" where
  "blank s = (s = [] \<or> strip s = [])"

definition record_guards ::
    "GovernedMaintenanceRecord \<Rightarrow> DeployedMaintenanceAdmission \<Rightarrow> (bool \<times> maint_exn) list" where
  "record_guards r ad =
     [(\<not> executable ad, value_error ''maintenance-admission-not-executable''),
      (blank (rec_observation_digest r), value_error ''missing-observation-digest''),
      (rec_observation_digest r \<noteq> ad_observation_digest ad, value_error ''observation-digest-mismatch''),
      (blank (rec_obligation_id r), value_error ''missing-obligation-id''),
      (rec_obligation_id r \<notin> set (authorized_obligation_ids ad), value_error ''obligation-not-authorized''),
      (blank (rec_patch_digest r), value_error ''missing-patch-digest''),
      (verification_evidence r = [] \<or> (\<exists>e \<in> set (verification_evidence r). strip e = []),
       value_error ''missing-verification-evidence''),
      (blank (authorization_ref r), value_error ''missing-authorization-reference''),
      (production_write_requested r \<and> \<not> production_write_authorized ad,
       value_error ''production-write-not-authorized'')]"

definition validate_maintenance_record ::
    "GovernedMaintenanceRecord \<Rightarrow> DeployedMaintenanceAdmission \<Rightarrow> maint_exn + unit" where
  "validate_maintenance_record r ad = guarded (record_guards r ad) ()"

record GovernedMaintenanceEvent =
  event_type :: string
  ev_status :: string
  ev_observation_digest :: string
  ev_obligation_id :: string
  ev_patch_digest :: string
  repair_report_digest :: string
  ev_evidence :: "string list"
  ev_digest :: string

text \<open>The payload that the event's digest covers; \<open>record_verified_maintenance\<close> and
  \<open>deliver_maintenance_event\<close> both build it.\<close>

definition digest_payload :: "GovernedMaintenanceEvent \<Rightarrow> pyval" where
  "digest_payload e = PDict
     [(''event_type'', PStr (event_type e)), (''status'', PStr (ev_status e)),
      (''observation_digest'', PStr (ev_observation_digest e)),
      (''obligation_id'', PStr (ev_obligation_id e)), (''patch_digest'', PStr (ev_patch_digest e)),
      (''repair_report_digest'', PStr (repair_report_digest e)),
      (''evidence'', str_list (ev_evidence e))]"

definition event_digest_of :: "GovernedMaintenanceEvent \<Rightarrow> string" where
  "event_digest_of e = sha256_hexdigest (json_dumps True (digest_payload e))"

text \<open>\<open>item.get("evidence_refs", item.get("evidence_ref", item.get("evidence")))\<close>, a single
  string counting as a one-element tuple; \<open>None\<close> when the code rejects the references.\<close>

definition evidence_refs_of :: "payload \<Rightarrow> string list option" where
  "evidence_refs_of item =
     (case get_or item ''evidence_refs'' (get_or item ''evidence_ref'' (get_or item ''evidence'' PNone)) of
        PStr s \<Rightarrow> (if strip s = [] then None else Some [s])
      | PList vs \<Rightarrow>
          (if vs \<noteq> [] \<and> (\<forall>v \<in> set vs. case v of PStr s \<Rightarrow> strip s \<noteq> [] | _ \<Rightarrow> False)
           then Some (map (\<lambda>v. case v of PStr s \<Rightarrow> s | _ \<Rightarrow> []) vs) else None)
      | _ \<Rightarrow> None)"

definition is_detected_flag :: "payload \<Rightarrow> bool" where
  "is_detected_flag item = (case dict_get item ''detected'' of Some (PBool _) \<Rightarrow> True | _ \<Rightarrow> False)"

definition report_guards ::
    "RuntimeObservation \<Rightarrow> DeployedMaintenanceAdmission \<Rightarrow> RepairReport \<Rightarrow> (bool \<times> maint_exn) list" where
  "report_guards ob ad rep =
     [(\<not> executable ad, value_error ''maintenance-admission-not-executable''),
      (observation_digest_of ob \<noteq> ad_observation_digest ad, value_error ''observation-digest-mismatch''),
      (\<not> verify_digest rep, value_error ''repair-report-digest-invalid''),
      (case rep_patch_digest rep of None \<Rightarrow> True | Some p \<Rightarrow> blank p,
       value_error ''repair-report-missing-patch-digest''),
      (source_revision rep \<noteq> observed_revision ob, value_error ''repair-report-source-revision-mismatch''),
      (verification rep = [], value_error ''repair-report-verification-missing''),
      (\<exists>i \<in> set (verification rep). dict_get i ''passed'' \<noteq> Some (PBool True),
       value_error ''repair-report-verification-failed''),
      (regressions rep = [], value_error ''repair-report-regression-evidence-missing''),
      (\<exists>i \<in> set (regressions rep). \<not> is_detected_flag i,
       value_error ''repair-report-regression-evidence-malformed''),
      (\<exists>i \<in> set (regressions rep). dict_get i ''detected'' = Some (PBool True),
       value_error ''repair-report-regression-detected''),
      (\<exists>i \<in> set (regressions rep). evidence_refs_of i = None,
       value_error ''repair-report-regression-evidence-reference-missing''),
      (residuals rep \<noteq> [], value_error ''repair-report-has-residuals''),
      (\<exists>i \<in> set (verification rep). evidence_refs_of i = None,
       value_error ''repair-report-verification-evidence-missing'')]"

definition collect_evidence :: "payload list \<Rightarrow> string list" where
  "collect_evidence items = concat (map (\<lambda>(i, item). case evidence_refs_of item of
       None \<Rightarrow> []
     | Some refs \<Rightarrow> map (\<lambda>ref. ''verification:'' @ str_of_nat i @ '':'' @ strip ref) refs)
     (enumerate 0 items))"

definition new_maintenance_event :: "GovernedMaintenanceRecord \<Rightarrow> string \<Rightarrow> GovernedMaintenanceEvent" where
  "new_maintenance_event r report_digest =
     (let e = \<lparr>event_type = ''governed-maintenance-recorded'', ev_status = ''verified'',
          ev_observation_digest = rec_observation_digest r, ev_obligation_id = rec_obligation_id r,
          ev_patch_digest = rec_patch_digest r, repair_report_digest = report_digest,
          ev_evidence = verification_evidence r, ev_digest = []\<rparr>
      in e\<lparr>ev_digest := event_digest_of e\<rparr>)"

definition record_verified_maintenance ::
    "RuntimeObservation \<Rightarrow> DeployedMaintenanceAdmission \<Rightarrow> string \<Rightarrow> string \<Rightarrow> RepairReport \<Rightarrow> bool
      \<Rightarrow> maint_exn + GovernedMaintenanceRecord \<times> GovernedMaintenanceEvent" where
  "record_verified_maintenance ob ad obligation_id auth_ref rep write_requested =
     (case first_error (report_guards ob ad rep) of
        Some e \<Rightarrow> Inl e
      | None \<Rightarrow>
        (let r = \<lparr>rec_observation_digest = observation_digest_of ob, rec_obligation_id = obligation_id,
               rec_patch_digest = the (rep_patch_digest rep),
               verification_evidence = collect_evidence (verification rep),
               authorization_ref = auth_ref, production_write_requested = write_requested\<rparr>
         in case validate_maintenance_record r ad of
              Inl e \<Rightarrow> Inl e
            | Inr _ \<Rightarrow> Inr (r, new_maintenance_event r (rep_digest rep))))"

section \<open>Admission\<close>

text \<open>The conditions under which an observation is admitted for maintenance.\<close>

definition admissible :: "RuntimeObservation \<Rightarrow> admission_request \<Rightarrow> bool" where
  "admissible ob q \<longleftrightarrow>
     health_evidence ob \<noteq> [] \<and> ob_verification_evidence ob \<noteq> [] \<and> ob_status ob = HEALTHY \<and>
     baseline_revision q \<noteq> [] \<and> baseline_environment_fingerprint q \<noteq> [] \<and>
     observed_revision ob = baseline_revision q \<and>
     environment_fingerprint ob = baseline_environment_fingerprint q \<and>
     (\<forall>d \<in> set (drifts q). \<forall>i. authoritative_obligation_id d = Some i \<longrightarrow> i \<in> set (rq_obligation_ids q)) \<and>
     explicit_change_authorization q \<and>
     (rq_production_write_authorized q \<longrightarrow> deployment_access q) \<and> rq_obligation_ids q \<noteq> []"

lemma blocking_append [simp]: "blocking_reasons (xs @ ys) = blocking_reasons xs @ blocking_reasons ys"
  by (simp add: blocking_reasons_def)

lemma blocking_drifts:
  "blocking_reasons (drift_reasons authorized ds) = [] \<longleftrightarrow>
     (\<forall>d \<in> set ds. \<forall>i. authoritative_obligation_id d = Some i \<longrightarrow> i \<in> set authorized)"
  by (induction ds) (auto simp: drift_reasons_def blocking_reasons_def starts_with_def split: option.splits)

lemma blocking_none [simp]: "blocking_reasons [] = []"
  by (simp add: blocking_reasons_def)

lemma blocking_admission:
  "blocking_reasons (admission_reasons ob q) = [] \<and> rq_obligation_ids q \<noteq> [] \<longleftrightarrow> admissible ob q"
proof -
  have one: "blocking_reasons (if b then [] else [r]) = [] \<longleftrightarrow> b"
      "blocking_reasons (if b then [r] else []) = [] \<longleftrightarrow> \<not> b"
    if "\<not> starts_with ''advisory-drift:'' r" for b r
    using that by (simp_all add: blocking_reasons_def)
  show ?thesis
    unfolding admission_reasons_def blocking_append append_is_Nil_conv blocking_drifts
    by (subst one, simp add: starts_with_def)+ (auto simp: admissible_def evidence_complete_def)
qed

lemma executable_iff_admissible: "executable (assess_deployed_observation ob q) \<longleftrightarrow> admissible ob q"
  using blocking_admission [of ob q] by (auto simp: assess_deployed_observation_def Let_def)

lemma sort_eq_Nil [simp]: "sort xs = [] \<longleftrightarrow> xs = []"
  by (metis length_0_conv length_sort)

lemma rejected_has_reason:
  assumes "\<not> admissible ob q"
  shows "ad_reasons (assess_deployed_observation ob q) \<noteq> []"
proof -
  have "admission_reasons ob q \<noteq> [] \<or> rq_obligation_ids q = []"
    using assms blocking_admission [of ob q] by (cases "admission_reasons ob q") auto
  then show ?thesis
    by (auto simp: assess_deployed_observation_def Let_def)
qed

text \<open>Admission of a deployed-application observation: the assessment is executable exactly
  when the evidence is complete, the application healthy and on the baseline, every authoritative
  drift authorised, the change explicitly authorised and at least one obligation given;
  production writes are only admitted together with the explicit authorisation and deployment
  access; a rejected assessment carries a reason, and requiring it raises the first one.\<close>

theorem admission_decides:
  "(executable (assess_deployed_observation ob q) \<longleftrightarrow> admissible ob q) \<and>
   (production_write_authorized (assess_deployed_observation ob q) \<longleftrightarrow>
      rq_production_write_authorized q \<and> explicit_change_authorization q \<and> deployment_access q) \<and>
   (\<not> admissible ob q \<longrightarrow>
      (\<exists>r \<in> set (ad_reasons (assess_deployed_observation ob q)).
         require_deployed_maintenance_admission (assess_deployed_observation ob q) = Inl (value_error r)))"
proof (intro conjI impI)
  show "executable (assess_deployed_observation ob q) \<longleftrightarrow> admissible ob q"
    by (rule executable_iff_admissible)
  show "production_write_authorized (assess_deployed_observation ob q) \<longleftrightarrow>
      rq_production_write_authorized q \<and> explicit_change_authorization q \<and> deployment_access q"
    by (simp add: assess_deployed_observation_def Let_def)
  assume "\<not> admissible ob q"
  then show "\<exists>r \<in> set (ad_reasons (assess_deployed_observation ob q)).
         require_deployed_maintenance_admission (assess_deployed_observation ob q) = Inl (value_error r)"
    using rejected_has_reason [of ob q] executable_iff_admissible [of ob q]
    by (cases "ad_reasons (assess_deployed_observation ob q)")
      (simp_all add: require_deployed_maintenance_admission_def)
qed

definition sample_observation :: RuntimeObservation where
  "sample_observation = \<lparr>deployment_id = ''shop'', observed_revision = ''r7'', environment_fingerprint = ''env1'',
     ob_status = HEALTHY, health_evidence = [''probe''], ob_verification_evidence = [''suite''],
     observed_capabilities = []\<rparr>"

definition sample_request :: admission_request where
  "sample_request = \<lparr>baseline_revision = ''r7'', baseline_environment_fingerprint = ''env1'', drifts = [],
     rq_obligation_ids = [''ob-1''], explicit_change_authorization = True,
     rq_production_write_authorized = True, deployment_access = True\<rparr>"

lemma sample_admissible: "admissible sample_observation sample_request"
  by (simp add: admissible_def sample_observation_def sample_request_def)

theorem admission_decides_witness:
  "executable (assess_deployed_observation sample_observation sample_request) \<and>
   \<not> executable (assess_deployed_observation (sample_observation\<lparr>ob_status := FAILED\<rparr>) sample_request) \<and>
   (\<exists>r. require_deployed_maintenance_admission
      (assess_deployed_observation (sample_observation\<lparr>ob_status := FAILED\<rparr>) sample_request) = Inl (value_error r))"
proof -
  have "\<not> admissible (sample_observation\<lparr>ob_status := FAILED\<rparr>) sample_request"
    by (simp add: admissible_def)
  then show ?thesis
    using admission_decides [of sample_observation sample_request]
      admission_decides [of "sample_observation\<lparr>ob_status := FAILED\<rparr>" sample_request] sample_admissible
    by blast
qed

section \<open>Verified maintenance\<close>

lemma event_digest_of_update [simp]: "event_digest_of (e\<lparr>ev_digest := d\<rparr>) = event_digest_of e"
  by (simp add: event_digest_of_def digest_payload_def)

lemma built_report_verifies: "build_repair_report args = Inr r \<Longrightarrow> verify_digest r"
  by (auto simp: build_repair_report_def guarded_Inr verify_digest_def canonical_payload_def Let_def)

lemma is_detected_flag_iff: "is_detected_flag i \<longleftrightarrow> (\<exists>b. dict_get i ''detected'' = Some (PBool b))"
  by (auto simp: is_detected_flag_def split: option.splits pyval.splits)

lemma record_verified_cases:
  assumes "record_verified_maintenance ob ad oid auth rep w = Inr (r, e)"
  shows "\<forall>(b, e) \<in> set (report_guards ob ad rep). \<not> b"
    and "\<forall>(b, e) \<in> set (record_guards r ad). \<not> b"
    and "r = \<lparr>rec_observation_digest = observation_digest_of ob, rec_obligation_id = oid,
       rec_patch_digest = the (rep_patch_digest rep),
       verification_evidence = collect_evidence (verification rep),
       authorization_ref = auth, production_write_requested = w\<rparr>"
    and "e = new_maintenance_event r (rep_digest rep)"
  using assms
  by (auto simp: record_verified_maintenance_def Let_def validate_maintenance_record_def
      first_error_None [symmetric] guarded_def split: option.splits sum.splits)

text \<open>A maintenance record and its event exist only for an admitted observation of the reported
  revision, an obligation the admission authorises, a repair report with a valid digest whose
  verification items all passed, without detected regressions or residuals, and a production write
  only when it was authorised; record and event carry the same digests and evidence, and the
  event's own digest covers them.\<close>

theorem maintenance_record_authorised:
  assumes "record_verified_maintenance ob (assess_deployed_observation ob' q) oid auth rep w = Inr (r, e)"
  shows "admissible ob' q \<and> observation_digest_of ob = observation_digest_of ob' \<and>
    oid \<in> set (rq_obligation_ids q) \<and>
    (w \<longrightarrow> rq_production_write_authorized q \<and> explicit_change_authorization q \<and> deployment_access q) \<and>
    verify_digest rep \<and> source_revision rep = observed_revision ob \<and> residuals rep = [] \<and>
    (\<forall>i \<in> set (verification rep). dict_get i ''passed'' = Some (PBool True)) \<and>
    (\<forall>i \<in> set (regressions rep). dict_get i ''detected'' = Some (PBool False)) \<and>
    rec_obligation_id r = oid \<and> production_write_requested r = w \<and>
    rec_observation_digest r = observation_digest_of ob \<and> Some (rec_patch_digest r) = rep_patch_digest rep \<and>
    ev_observation_digest e = rec_observation_digest r \<and> ev_obligation_id e = rec_obligation_id r \<and>
    ev_patch_digest e = rec_patch_digest r \<and> ev_evidence e = verification_evidence r \<and>
    ev_status e = ''verified'' \<and> ev_digest e = event_digest_of e \<and> length (ev_digest e) = 64"
proof -
  note c = record_verified_cases [OF assms]
  let ?ad = "assess_deployed_observation ob' q"
  have g: "executable ?ad" "observation_digest_of ob = ad_observation_digest ?ad" "verify_digest rep"
    "source_revision rep = observed_revision ob" "residuals rep = []"
    "\<forall>i \<in> set (verification rep). dict_get i ''passed'' = Some (PBool True)"
    "\<forall>i \<in> set (regressions rep). is_detected_flag i"
    "\<forall>i \<in> set (regressions rep). dict_get i ''detected'' \<noteq> Some (PBool True)"
    "rep_patch_digest rep \<noteq> None"
    using c(1) by (auto simp: report_guards_def split: option.splits)
  have h: "oid \<in> set (authorized_obligation_ids ?ad)" "w \<longrightarrow> production_write_authorized ?ad"
    using c(2,3) by (auto simp: record_guards_def)
  have d: "dict_get i ''detected'' = Some (PBool False)" if "i \<in> set (regressions rep)" for i
    using g(7,8) that by (metis (full_types) is_detected_flag_iff)
  have ad: "ad_observation_digest ?ad = observation_digest_of ob'"
    "set (authorized_obligation_ids ?ad) = set (rq_obligation_ids q)"
    "production_write_authorized ?ad \<longleftrightarrow>
      rq_production_write_authorized q \<and> explicit_change_authorization q \<and> deployment_access q"
    by (simp_all add: assess_deployed_observation_def Let_def)
  show ?thesis
    using g(1-6,9) h d ad executable_iff_admissible [of ob' q] c(3,4)
    by (auto simp: new_maintenance_event_def event_digest_of_def digest_payload_def Let_def)
qed

lemma hex_digit_not_space: "\<not> is_space (hex_digit n)"
proof -
  have "\<forall>m < 16. \<not> is_space (''0123456789abcdef'' ! m)" by code_simp
  then show ?thesis by (simp add: hex_digit_def)
qed

lemma strip_hexdigest: "strip (hexdigest bs) = hexdigest bs"
proof -
  have ns: "\<forall>c \<in> set (hexdigest bs). \<not> is_space c"
    by (induction bs) (auto simp: hexdigest_def hex_byte_def hex_digit_not_space)
  have "dropWhile is_space t = t" if "\<forall>c \<in> set t. \<not> is_space c" for t
    using that by (cases t) auto
  from this [of "hexdigest bs"] this [of "rev (hexdigest bs)"] show ?thesis
    using ns by (simp add: strip_def)
qed

lemma observation_digest_not_blank: "\<not> blank (observation_digest_of ob)"
proof -
  have "length (observation_digest_of ob) = 64" "strip (observation_digest_of ob) = observation_digest_of ob"
    by (simp_all add: observation_digest_of_def blake2b_hexdigest_def strip_hexdigest)
  then show ?thesis by (auto simp: blank_def)
qed

definition sample_report_args :: RepairReport where
  "sample_report_args = \<lparr>schema_version = [], report_id = ''rep-1'', target = ''shop'', source_revision = ''r7'',
     finding_ids = [''f1''], root_causes = [], candidates_considered = [], selected_candidate_id = Some ''c1'',
     rep_patch_digest = Some ''p1'',
     verification = [[(''passed'', PBool True), (''evidence_refs'', PList [PStr ''log-1'', PStr ''log-2''])]],
     regressions = [[(''detected'', PBool False), (''evidence'', PStr ''log-3'')]],
     measurements = [], residuals = [], deployment_ready = True,
     human_deployment_authorization_required = True, rep_digest = []\<rparr>"

definition sample_report :: RepairReport where
  "sample_report = sample_report_args\<lparr>schema_version := ''esap.repair-report.v1'', rep_digest :=
     sha256_hexdigest (json_dumps True (canonical_payload
       (sample_report_args\<lparr>schema_version := ''esap.repair-report.v1''\<rparr>)))\<rparr>"

lemma sample_report_built: "build_repair_report sample_report_args = Inr sample_report"
  by (simp add: build_repair_report_def sample_report_def sample_report_args_def Let_def guarded_def)

definition sample_record :: GovernedMaintenanceRecord where
  "sample_record = \<lparr>rec_observation_digest = observation_digest_of sample_observation, rec_obligation_id = ''ob-1'',
     rec_patch_digest = ''p1'', verification_evidence = [''verification:0:log-1'', ''verification:0:log-2''],
     authorization_ref = ''chg-9'', production_write_requested = True\<rparr>"

definition sample_event :: GovernedMaintenanceEvent where
  "sample_event = new_maintenance_event sample_record (rep_digest sample_report)"

lemma sample_evidence:
  "collect_evidence (verification sample_report) = [''verification:0:log-1'', ''verification:0:log-2'']"
  "evidence_refs_of [(''detected'', PBool False), (''evidence'', PStr ''log-3'')] = Some [''log-3'']"
  by (simp add: sample_report_def sample_report_args_def) (code_simp+)

lemma sample_recorded:
  "record_verified_maintenance sample_observation (assess_deployed_observation sample_observation sample_request)
     ''ob-1'' ''chg-9'' sample_report True = Inr (sample_record, sample_event)"
proof -
  let ?ad = "assess_deployed_observation sample_observation sample_request"
  have ad: "executable ?ad" "ad_observation_digest ?ad = observation_digest_of sample_observation"
    "authorized_obligation_ids ?ad = [''ob-1'']" "production_write_authorized ?ad"
    using sample_admissible
    by (simp_all add: executable_iff_admissible) (simp_all add: assess_deployed_observation_def sample_request_def Let_def)
  have rep: "verify_digest sample_report"
    using sample_report_built by (rule built_report_verifies)
  have refs: "evidence_refs_of [(''passed'', PBool True), (''evidence_refs'', PList [PStr ''log-1'', PStr ''log-2''])] \<noteq> None"
    "\<not> blank ''p1''" "\<not> blank ''ob-1''" "\<not> blank ''chg-9''"
    "strip ''verification:0:log-1'' \<noteq> []" "strip ''verification:0:log-2'' \<noteq> []"
    by code_simp+
  have fields: "rep_patch_digest sample_report = Some ''p1''" "source_revision sample_report = ''r7''"
    "verification sample_report = [[(''passed'', PBool True), (''evidence_refs'', PList [PStr ''log-1'', PStr ''log-2''])]]"
    "regressions sample_report = [[(''detected'', PBool False), (''evidence'', PStr ''log-3'')]]"
    "residuals sample_report = []" "observed_revision sample_observation = ''r7''"
    by (simp_all add: sample_report_def sample_report_args_def sample_observation_def)
  have "first_error (report_guards sample_observation ?ad sample_report) = None"
    using refs(1) by (simp add: report_guards_def ad rep fields refs sample_evidence dict_get_def is_detected_flag_def)
  moreover have "first_error (record_guards sample_record ?ad) = None"
    by (simp add: record_guards_def ad refs sample_record_def observation_digest_not_blank)
  ultimately show ?thesis
    using sample_evidence(1)
    by (simp add: record_verified_maintenance_def Let_def validate_maintenance_record_def guarded_def
        fields(1) sample_event_def flip: sample_record_def)
qed

theorem maintenance_record_authorised_witness:
  "record_verified_maintenance sample_observation (assess_deployed_observation sample_observation sample_request)
     ''ob-1'' ''chg-9'' sample_report True = Inr (sample_record, sample_event) \<and>
   verify_digest sample_report \<and> ev_digest sample_event = event_digest_of sample_event \<and>
   ev_evidence sample_event = verification_evidence sample_record"
  using maintenance_record_authorised [OF sample_recorded] sample_recorded by blast

end
