(* ===== verification/Maint_Observatory.thy ===== *)
theory Maint_Observatory
  imports Maint_Record
begin

text \<open>
  Delivery of a maintenance event to the Observatory service
  (\<open>autonomous-api/app/engine/governed_maintenance_observatory.py\<close>). The transport
  \<open>opener\<close> is a parameter: a function of the network's state, the request and the timeout that
  gives the outcome of the call and the network's next state. The body of a response is given
  after decoding (\<open>None\<close> when the bytes are not UTF-8 or not JSON).
  \<open>urlsplit\<close> is modelled for the parts the code reads; whether the text in brackets of an IPv6 host
  is an address is a parameter \<open>bracket_ok\<close>, since the interpreters the project supports differ
  there.
\<close>

section \<open>Addresses\<close>

text \<open>\<open>s.partition(c)\<close> and \<open>s.rpartition(c)\<close>: the flag tells whether the separator occurs.\<close>

definition partition_str :: "char \<Rightarrow> string \<Rightarrow> string \<times> bool \<times> string" where
  "partition_str c s = (takeWhile (\<lambda>x. x \<noteq> c) s, c \<in> set s, tl (dropWhile (\<lambda>x. x \<noteq> c) s))"

definition rpartition_str :: "char \<Rightarrow> string \<Rightarrow> string \<times> bool \<times> string" where
  "rpartition_str c s =
     (if c \<in> set s
      then (rev (tl (dropWhile (\<lambda>x. x \<noteq> c) (rev s))), True, rev (takeWhile (\<lambda>x. x \<noteq> c) (rev s)))
      else ([], False, s))"

definition scheme_char :: "char \<Rightarrow> bool" where
  "scheme_char c = (let n = (of_char c :: nat) in
     (65 \<le> n \<and> n \<le> 90) \<or> (97 \<le> n \<and> n \<le> 122) \<or> (48 \<le> n \<and> n \<le> 57) \<or> c \<in> set ''+-.'')"

record split_url =
  url_scheme :: string
  url_netloc :: string
  url_query :: string
  url_fragment :: string

definition url_clean :: "string \<Rightarrow> string" where
  "url_clean s = filter (\<lambda>c. c \<notin> {CHR 0x09, CHR 0x0A, CHR 0x0D})
     (dropWhile (\<lambda>c. (of_char c :: nat) \<le> 32) s)"

definition bracketed_host :: "string \<Rightarrow> string" where
  "bracketed_host netloc =
     fst (partition_str (CHR '']'') (snd (snd (partition_str (CHR ''['') (snd (snd (rpartition_str (CHR ''@'') netloc)))))))"

definition urlsplit :: "(string \<Rightarrow> bool) \<Rightarrow> string \<Rightarrow> maint_exn + split_url" where
  "urlsplit bracket_ok raw =
     (let url = url_clean raw;
          (sch, colon, after) = partition_str (CHR '':'') url;
          has_scheme = (colon \<and> sch \<noteq> [] \<and> list_all scheme_char sch);
          scheme = (if has_scheme then lower sch else []);
          url = (if has_scheme then after else url);
          has_netloc = starts_with ''//'' url;
          netloc = (if has_netloc then takeWhile (\<lambda>c. c \<notin> set ''/?#'') (drop 2 url) else []);
          url = (if has_netloc then dropWhile (\<lambda>c. c \<notin> set ''/?#'') (drop 2 url) else url);
          opened = (CHR ''['' \<in> set netloc); closed = (CHR '']'' \<in> set netloc);
          (url, _, fragment) = partition_str (CHR ''#'') url;
          (path, _, query) = partition_str (CHR ''?'') url
      in if opened \<noteq> closed then Inl (value_error ''Invalid IPv6 URL'')
         else if opened \<and> \<not> bracket_ok (bracketed_host netloc) then Inl (value_error ''invalid bracketed host'')
         else Inr \<lparr>url_scheme = scheme, url_netloc = netloc, url_query = query, url_fragment = fragment\<rparr>)"

definition url_hostname :: "split_url \<Rightarrow> string option" where
  "url_hostname u =
     (let (_, _, hostinfo) = rpartition_str (CHR ''@'') (url_netloc u);
          (_, bracket, bracketed) = partition_str (CHR ''['') hostinfo;
          host = (if bracket then fst (partition_str (CHR '']'') bracketed)
                  else fst (partition_str (CHR '':'') hostinfo));
          (h, percent, zone) = partition_str (CHR ''%'') host
      in if host = [] then None else Some (lower h @ (if percent then CHR ''%'' # zone else [])))"

definition url_username :: "split_url \<Rightarrow> string option" where
  "url_username u = (let (userinfo, has_info, _) = rpartition_str (CHR ''@'') (url_netloc u)
     in if has_info then Some (fst (partition_str (CHR '':'') userinfo)) else None)"

definition url_password :: "split_url \<Rightarrow> string option" where
  "url_password u =
     (let (userinfo, has_info, _) = rpartition_str (CHR ''@'') (url_netloc u);
          (_, colon, password) = partition_str (CHR '':'') userinfo
      in if has_info \<and> colon then Some password else None)"

definition local_http_hosts :: "string list" where
  "local_http_hosts = [''localhost'', ''127.0.0.1'', ''::1'']"

definition base_url_allowed :: "split_url \<Rightarrow> bool" where
  "base_url_allowed u =
     (case url_hostname u of None \<Rightarrow> False
      | Some host \<Rightarrow> host \<noteq> [] \<and> url_username u = None \<and> url_password u = None \<and>
          url_query u = [] \<and> url_fragment u = [] \<and>
          (url_scheme u = ''https'' \<or> (url_scheme u = ''http'' \<and> lower host \<in> set local_http_hosts)))"

section \<open>Requests and responses\<close>

record http_request =
  rq_url :: string
  rq_data :: string
  rq_headers :: "(string \<times> string) list"
  rq_method :: string

datatype http_outcome =
    HttpOSError
  | HttpRaises string
  | HttpResponse "int option" "pyval option"

type_synonym 'net opener = "'net \<Rightarrow> http_request \<Rightarrow> pyfloat \<Rightarrow> http_outcome \<times> 'net"

record delivery_config =
  base_url :: string
  token :: string
  timeout :: pyfloat
  bracket_ok :: "string \<Rightarrow> bool"

definition f_isfinite :: "pyfloat \<Rightarrow> bool" where
  "f_isfinite x = (case x of Fin _ \<Rightarrow> True | _ \<Rightarrow> False)"

text \<open>The checks of the connection arguments; \<open>deliver_pending\<close> of the outbox repeats them.\<close>

definition delivery_guards :: "delivery_config \<Rightarrow> maint_exn option" where
  "delivery_guards c =
     (if strip (base_url c) = [] then Some (value_error ''observatory-base-url-required'')
      else if strip (token c) = [] then Some (value_error ''observatory-token-required'')
      else if \<not> f_isfinite (timeout c) \<or> f_le (timeout c) (Fin 0)
        then Some (value_error ''invalid-observatory-timeout'')
      else (case urlsplit (bracket_ok c) (strip (base_url c)) of
          Inl e \<Rightarrow> Some e
        | Inr u \<Rightarrow> (if base_url_allowed u then None else Some (value_error ''observatory-base-url-invalid''))))"

definition linked :: "GovernedMaintenanceRecord \<Rightarrow> GovernedMaintenanceEvent \<Rightarrow> bool" where
  "linked r e = (ev_observation_digest e = rec_observation_digest r \<and> ev_obligation_id e = rec_obligation_id r \<and>
     ev_patch_digest e = rec_patch_digest r \<and> ev_evidence e = verification_evidence r)"

definition event_guards :: "GovernedMaintenanceRecord \<Rightarrow> GovernedMaintenanceEvent \<Rightarrow> maint_exn option" where
  "event_guards r e = first_error
     [(ev_status e \<noteq> ''verified'', value_error ''maintenance-event-not-verified''),
      (ev_digest e = [] \<or> length (ev_digest e) \<noteq> 64, value_error ''maintenance-event-digest-invalid''),
      (\<not> linked r e, value_error ''maintenance-event-record-linkage-mismatch''),
      (ev_digest e \<noteq> event_digest_of e, value_error ''maintenance-event-digest-mismatch'')]"

definition delivery_payload :: "GovernedMaintenanceRecord \<Rightarrow> GovernedMaintenanceEvent \<Rightarrow> pyval" where
  "delivery_payload r e = PDict
     [(''event_type'', PStr ''governed_maintenance_recorded''), (''status'', PStr (ev_status e)),
      (''observation_digest'', PStr (rec_observation_digest r)),
      (''obligation_id'', PStr (rec_obligation_id r)), (''patch_digest'', PStr (rec_patch_digest r)),
      (''repair_report_digest'', PStr (repair_report_digest e)),
      (''maintenance_event_digest'', PStr (ev_digest e)),
      (''authorization_ref'', PStr (authorization_ref r)),
      (''production_write_requested'', PBool (production_write_requested r)),
      (''verification_evidence'', str_list (verification_evidence r))]"

definition delivery_body :: "GovernedMaintenanceRecord \<Rightarrow> GovernedMaintenanceEvent \<Rightarrow> pyval" where
  "delivery_body r e = PDict
     [(''id'', PStr (''maintenance-'' @ ev_digest e)), (''source'', PStr ''esap.governed-maintenance''),
      (''category'', PStr ''evidence''), (''type'', PStr ''governed_maintenance_recorded''),
      (''subject_id'', PStr (rec_obligation_id r)), (''payload'', delivery_payload r e),
      (''epistemic_status'', PStr ''observed''), (''severity'', PStr ''info''),
      (''evidence_refs'', str_list ([rec_observation_digest r, rec_patch_digest r,
          repair_report_digest e, ev_digest e] @ verification_evidence r)),
      (''provenance'', PDict [(''producer'', PStr ''autonomous-api-gen''),
          (''contract'', PStr ''governed-maintenance-v1'')])]"

definition rstrip_slash :: "string \<Rightarrow> string" where
  "rstrip_slash s = rev (dropWhile (\<lambda>c. c = CHR ''/'') (rev s))"

definition delivery_request ::
    "delivery_config \<Rightarrow> GovernedMaintenanceRecord \<Rightarrow> GovernedMaintenanceEvent \<Rightarrow> http_request" where
  "delivery_request c r e =
     \<lparr>rq_url = rstrip_slash (strip (base_url c)) @ ''/observatory/events'',
      rq_data = json_dumps True (delivery_body r e),
      rq_headers = [(''Content-Type'', ''application/json''), (''Accept'', ''application/json''),
        (''X-Observatory-Token'', token c), (''Idempotency-Key'', ''maintenance-'' @ ev_digest e),
        (''X-Actor-Id'', ''esap-maintenance-bridge''), (''X-Actor-Role'', ''system''),
        (''X-Actor-Clearance'', ''system'')],
      rq_method = ''POST''\<rparr>"

definition acknowledged_id :: "http_outcome \<Rightarrow> maint_exn + string" where
  "acknowledged_id out =
     (case out of
        HttpOSError \<Rightarrow> Inl (ObservatoryDeliveryError ''observatory-event-delivery-failed'')
      | HttpRaises c \<Rightarrow> Inl (Foreign c)
      | HttpResponse status body \<Rightarrow>
          (if (case status of None \<Rightarrow> True | Some s \<Rightarrow> \<not> (200 \<le> s \<and> s < 300))
           then Inl (ObservatoryDeliveryError ''observatory-event-ingestion-rejected'')
           else (case body of
               Some (PDict ack) \<Rightarrow>
                 (case (get_or ack ''status'' PNone, get_or ack ''event_id'' PNone) of
                    (PStr st, PStr i) \<Rightarrow>
                      (if st = ''accepted'' \<and> strip i \<noteq> [] then Inr i
                       else Inl (ObservatoryDeliveryError ''observatory-acknowledgement-invalid''))
                  | _ \<Rightarrow> Inl (ObservatoryDeliveryError ''observatory-acknowledgement-invalid''))
             | _ \<Rightarrow> Inl (ObservatoryDeliveryError ''observatory-acknowledgement-invalid''))))"

definition deliver_maintenance_event ::
    "'net opener \<Rightarrow> delivery_config \<Rightarrow> GovernedMaintenanceRecord \<Rightarrow> GovernedMaintenanceEvent \<Rightarrow> 'net
      \<Rightarrow> (maint_exn + string) \<times> 'net" where
  "deliver_maintenance_event opener c r e net =
     (case delivery_guards c of Some err \<Rightarrow> (Inl err, net)
      | None \<Rightarrow>
        (case event_guards r e of Some err \<Rightarrow> (Inl err, net)
         | None \<Rightarrow>
           (case opener net (delivery_request c r e) (timeout c) of (out, net') \<Rightarrow> (acknowledged_id out, net'))))"

definition record_and_deliver_verified_maintenance ::
    "'net opener \<Rightarrow> delivery_config \<Rightarrow> RuntimeObservation \<Rightarrow> DeployedMaintenanceAdmission \<Rightarrow> string \<Rightarrow> string
      \<Rightarrow> RepairReport \<Rightarrow> bool \<Rightarrow> 'net
      \<Rightarrow> (maint_exn + GovernedMaintenanceRecord \<times> GovernedMaintenanceEvent \<times> string) \<times> 'net" where
  "record_and_deliver_verified_maintenance opener c ob ad oid auth rep w net =
     (case record_verified_maintenance ob ad oid auth rep w of Inl err \<Rightarrow> (Inl err, net)
      | Inr (r, e) \<Rightarrow>
        (case deliver_maintenance_event opener c r e net of
           (Inl err, net') \<Rightarrow> (Inl err, net')
         | (Inr i, net') \<Rightarrow> (Inr (r, e, i), net')))"

section \<open>What a delivery promises\<close>

lemma acknowledged_id_Inr:
  "acknowledged_id out = Inr i \<longleftrightarrow>
     (\<exists>s ack. out = HttpResponse (Some s) (Some (PDict ack)) \<and> 200 \<le> s \<and> s < 300 \<and>
        dict_get ack ''status'' = Some (PStr ''accepted'') \<and> dict_get ack ''event_id'' = Some (PStr i) \<and>
        strip i \<noteq> [])"
  by (auto simp: acknowledged_id_def get_or_def split: http_outcome.splits option.splits pyval.splits if_splits)

lemma event_guards_None:
  "event_guards r e = None \<longleftrightarrow>
     ev_status e = ''verified'' \<and> length (ev_digest e) = 64 \<and> linked r e \<and> ev_digest e = event_digest_of e"
  by (auto simp: event_guards_def first_error_None)

lemma delivery_guards_None:
  assumes "delivery_guards c = None"
  shows "\<exists>u. urlsplit (bracket_ok c) (strip (base_url c)) = Inr u \<and> base_url_allowed u"
    and "strip (token c) \<noteq> []" and "\<exists>t > 0. timeout c = Fin t"
  using assms
  by (auto simp: delivery_guards_def f_isfinite_def split: if_splits sum.splits pyfloat.splits)

lemma deliver_Inr:
  "deliver_maintenance_event opener c r e net = (Inr i, net') \<longleftrightarrow>
     delivery_guards c = None \<and> event_guards r e = None \<and>
     (\<exists>out. opener net (delivery_request c r e) (timeout c) = (out, net') \<and> acknowledged_id out = Inr i)"
  by (auto simp: deliver_maintenance_event_def split: option.splits prod.splits)

text \<open>C37. An event counts as delivered only when its digest is right and it is linked to its record,
  the service is reached over HTTPS or on a local host without credentials, query or fragment, and
  the service answered the one request with a 2xx status and an acknowledgement that says accepted
  and names the stored event.\<close>

theorem delivered_only_if_acknowledged:
  assumes "deliver_maintenance_event opener c r e net = (Inr i, net')"
  shows "ev_status e = ''verified'' \<and> ev_digest e = event_digest_of e \<and> linked r e \<and>
    (\<exists>u. urlsplit (bracket_ok c) (strip (base_url c)) = Inr u \<and> base_url_allowed u) \<and>
    (\<exists>s ack. opener net (delivery_request c r e) (timeout c) =
        (HttpResponse (Some s) (Some (PDict ack)), net') \<and> 200 \<le> s \<and> s < 300 \<and>
      dict_get ack ''status'' = Some (PStr ''accepted'') \<and> dict_get ack ''event_id'' = Some (PStr i) \<and>
      strip i \<noteq> [])"
  using assms delivery_guards_None(1) by (auto simp: deliver_Inr event_guards_None acknowledged_id_Inr)

definition sample_delivery :: delivery_config where
  "sample_delivery = \<lparr>base_url = '' https://observatory.example/ '', token = ''t0ken'', timeout = Fin 5,
     bracket_ok = (\<lambda>_. False)\<rparr>"

lemma sample_delivery_ok: "delivery_guards sample_delivery = None"
  by code_simp

text \<open>A service that accepts every request and names the stored event after its own state.\<close>

definition accepting :: "string opener" where
  "accepting net rq t = (HttpResponse (Some 202) (Some (PDict [(''status'', PStr ''accepted''), (''event_id'', PStr (CHR ''e'' # net))])), CHR ''+'' # net)"

lemma recorded_event_guards:
  assumes "record_verified_maintenance ob ad oid auth rep w = Inr (r, e)"
  shows "event_guards r e = None"
proof -
  have "e = new_maintenance_event r (rep_digest rep)"
    by (rule record_verified_cases(4) [OF assms])
  then show ?thesis
    by (simp add: event_guards_None new_maintenance_event_def linked_def Let_def event_digest_of_def)
      (simp add: digest_payload_def)
qed

lemma accepting_acknowledges: "acknowledged_id (fst (accepting ''1'' rq t)) = Inr ''e1''"
  by (simp add: accepting_def acknowledged_id_def get_or_def dict_get_def) code_simp

lemma sample_delivered:
  "deliver_maintenance_event accepting sample_delivery sample_record sample_event ''1'' = (Inr ''e1'', ''+1'')"
proof -
  show ?thesis
    using recorded_event_guards [OF sample_recorded] sample_delivery_ok accepting_acknowledges
    by (auto simp: deliver_Inr accepting_def)
qed

theorem delivered_only_if_acknowledged_witness:
  "deliver_maintenance_event accepting sample_delivery sample_record sample_event ''1'' = (Inr ''e1'', ''+1'') \<and>
   ev_digest sample_event = event_digest_of sample_event \<and> linked sample_record sample_event"
  using delivered_only_if_acknowledged [OF sample_delivered] sample_delivered by blast

text \<open>Recording and delivery compose: whatever \<open>record_verified_maintenance\<close> produces passes
  the checks of the delivery, so with a valid configuration exactly one request is sent and the
  outcome is decided by the service alone; when the report is rejected nothing is sent.\<close>

theorem recorded_maintenance_reaches_service:
  assumes "delivery_guards c = None"
  shows "record_and_deliver_verified_maintenance opener c ob ad oid auth rep w net =
    (case record_verified_maintenance ob ad oid auth rep w of
       Inl err \<Rightarrow> (Inl err, net)
     | Inr (r, e) \<Rightarrow>
         (case opener net (delivery_request c r e) (timeout c) of (out, net') \<Rightarrow>
            ((case acknowledged_id out of Inl err \<Rightarrow> Inl err | Inr i \<Rightarrow> Inr (r, e, i)), net')))"
proof (cases "record_verified_maintenance ob ad oid auth rep w")
  case (Inl err)
  then show ?thesis by (simp add: record_and_deliver_verified_maintenance_def)
next
  case (Inr re)
  obtain r e where re: "re = (r, e)" by (cases re)
  have "event_guards r e = None"
    using recorded_event_guards Inr unfolding re by blast
  then show ?thesis
    using assms Inr re
    by (auto simp: record_and_deliver_verified_maintenance_def deliver_maintenance_event_def
        split: prod.splits sum.splits)
qed

theorem recorded_maintenance_reaches_service_witness:
  "fst (record_and_deliver_verified_maintenance accepting sample_delivery sample_observation
     (assess_deployed_observation sample_observation sample_request) ''ob-1'' ''chg-9'' sample_report True ''1'')
   = Inr (sample_record, sample_event, ''e1'')"
proof -
  show ?thesis
    using recorded_maintenance_reaches_service [OF sample_delivery_ok, of accepting sample_observation
        "assess_deployed_observation sample_observation sample_request" "''ob-1''" "''chg-9''"
        sample_report True "''1''"]
    by (simp add: sample_recorded case_prod_unfold accepting_acknowledges)
qed

end
