(* ===== verification/Maint_Outbox.thy ===== *)
theory Maint_Outbox
  imports Maint_Observatory "HOL-Library.Product_Lexorder"
begin

text \<open>
  The durable delivery queue of maintenance events
  (\<open>autonomous-api/app/engine/governed_maintenance_outbox.py\<close>). The SQLite table is a list of rows
  in insertion order; every \<open>BEGIN IMMEDIATE \<dots> commit\<close> block is one function on the table, so
  interleavings of several workers are sequences of these transactions. A clock reading is a
  finite float; the readings of a process are an infinite supply. The sender's loop threads the
  table, the clock and the network through its iterations. Stored payloads are read back with
  \<open>json.loads\<close>; a payload that \<open>enqueue\<close> did not write and whose fields have other types than the
  dataclasses declare is read as a \<open>TypeError\<close>. Integer parameters are below 2 to the 63, as
  SQLite requires.
\<close>

section \<open>Configuration and rows\<close>

record outbox_config =
  max_attempts :: nat
  base_backoff_seconds :: pyfloat
  max_backoff_seconds :: pyfloat
  lease_seconds :: pyfloat

definition bad_seconds :: "pyfloat \<Rightarrow> bool" where
  "bad_seconds x = (\<not> f_isfinite x \<or> f_le x (Fin 0))"

definition new_outbox :: "string \<Rightarrow> int \<Rightarrow> pyfloat \<Rightarrow> pyfloat \<Rightarrow> pyfloat \<Rightarrow> maint_exn + outbox_config" where
  "new_outbox path attempts_limit base_b max_b lease = guarded
     [(strip path = [], value_error ''outbox-database-path-required''),
      (attempts_limit < 1, value_error ''outbox-max-attempts-invalid''),
      (bad_seconds base_b, value_error ''outbox-base-backoff-invalid''),
      (bad_seconds max_b, value_error ''outbox-max-backoff-invalid''),
      (bad_seconds lease, value_error ''outbox-lease-invalid''),
      (f_lt max_b base_b, value_error ''outbox-backoff-range-invalid''),
      (strip path = '':memory:'', value_error ''outbox-database-must-be-durable'')]
     \<lparr>max_attempts = nat attempts_limit, base_backoff_seconds = base_b, max_backoff_seconds = max_b,
      lease_seconds = lease\<rparr>"

datatype outbox_status = Pending | Delivering | Delivered | DeadLetter

fun outbox_status_value :: "outbox_status \<Rightarrow> string" where
  "outbox_status_value Pending = ''pending''"
| "outbox_status_value Delivering = ''delivering''"
| "outbox_status_value Delivered = ''delivered''"
| "outbox_status_value DeadLetter = ''dead_letter''"

record outbox_row =
  event_digest :: string
  payload_json :: string
  row_status :: outbox_status
  attempts :: nat
  next_attempt_at :: pyfloat
  lease_until :: "pyfloat option"
  observatory_event_id :: "string option"
  last_error :: "string option"
  created_at :: rat
  updated_at :: rat

type_synonym table = "outbox_row list"

section \<open>Stored payloads\<close>

definition record_asdict :: "GovernedMaintenanceRecord \<Rightarrow> payload" where
  "record_asdict r =
     [(''observation_digest'', PStr (rec_observation_digest r)), (''obligation_id'', PStr (rec_obligation_id r)),
      (''patch_digest'', PStr (rec_patch_digest r)),
      (''verification_evidence'', str_list (verification_evidence r)),
      (''authorization_ref'', PStr (authorization_ref r)),
      (''production_write_requested'', PBool (production_write_requested r))]"

definition event_asdict :: "GovernedMaintenanceEvent \<Rightarrow> payload" where
  "event_asdict e =
     [(''event_type'', PStr (event_type e)), (''status'', PStr (ev_status e)),
      (''observation_digest'', PStr (ev_observation_digest e)), (''obligation_id'', PStr (ev_obligation_id e)),
      (''patch_digest'', PStr (ev_patch_digest e)), (''repair_report_digest'', PStr (repair_report_digest e)),
      (''evidence'', str_list (ev_evidence e)), (''digest'', PStr (ev_digest e))]"

definition serialize :: "GovernedMaintenanceRecord \<Rightarrow> GovernedMaintenanceEvent \<Rightarrow> maint_exn + string \<times> string" where
  "serialize r e = guarded
     [(ev_status e \<noteq> ''verified'', value_error ''maintenance-event-not-verified''),
      (length (ev_digest e) \<noteq> 64, value_error ''maintenance-event-digest-invalid''),
      (\<not> linked r e, value_error ''maintenance-event-record-linkage-mismatch'')]
     (ev_digest e, json_dumps True (PDict [(''record'', PDict (record_asdict r)), (''event'', PDict (event_asdict e))]))"

definition str_field :: "payload \<Rightarrow> string \<Rightarrow> string option" where
  "str_field d k = (case dict_get d k of Some (PStr s) \<Rightarrow> Some s | _ \<Rightarrow> None)"

definition strs_field :: "payload \<Rightarrow> string \<Rightarrow> string list option" where
  "strs_field d k = (case dict_get d k of
     Some (PList vs) \<Rightarrow> those (map (\<lambda>v. case v of PStr s \<Rightarrow> Some s | _ \<Rightarrow> None) vs) | _ \<Rightarrow> None)"

definition bool_field :: "payload \<Rightarrow> string \<Rightarrow> bool \<Rightarrow> bool option" where
  "bool_field d k dflt = (case dict_get d k of None \<Rightarrow> Some dflt | Some (PBool b) \<Rightarrow> Some b | _ \<Rightarrow> None)"

definition keys_among :: "payload \<Rightarrow> string list \<Rightarrow> bool" where
  "keys_among d ks = (\<forall>kv \<in> set d. fst kv \<in> set ks)"

definition record_of_dict :: "payload \<Rightarrow> GovernedMaintenanceRecord option" where
  "record_of_dict d =
     (if keys_among d [''observation_digest'', ''obligation_id'', ''patch_digest'', ''verification_evidence'',
         ''authorization_ref'', ''production_write_requested'']
      then (case (str_field d ''observation_digest'', str_field d ''obligation_id'', str_field d ''patch_digest'',
                  strs_field d ''verification_evidence'', str_field d ''authorization_ref'',
                  bool_field d ''production_write_requested'' False) of
              (Some a, Some b, Some c, Some ev, Some f, Some g) \<Rightarrow>
                Some \<lparr>rec_observation_digest = a, rec_obligation_id = b, rec_patch_digest = c,
                  verification_evidence = ev, authorization_ref = f, production_write_requested = g\<rparr>
            | _ \<Rightarrow> None)
      else None)"

definition event_of_dict :: "payload \<Rightarrow> GovernedMaintenanceEvent option" where
  "event_of_dict d =
     (if keys_among d [''event_type'', ''status'', ''observation_digest'', ''obligation_id'', ''patch_digest'',
         ''repair_report_digest'', ''evidence'', ''digest'']
      then (case (str_field d ''event_type'', str_field d ''status'', str_field d ''observation_digest'',
                  str_field d ''obligation_id'', str_field d ''patch_digest'', str_field d ''repair_report_digest'',
                  strs_field d ''evidence'', str_field d ''digest'') of
              (Some a, Some b, Some c, Some f, Some g, Some h, Some ev, Some i) \<Rightarrow>
                Some \<lparr>event_type = a, ev_status = b, ev_observation_digest = c, ev_obligation_id = f,
                  ev_patch_digest = g, repair_report_digest = h, ev_evidence = ev, ev_digest = i\<rparr>
            | _ \<Rightarrow> None)
      else None)"

definition dict_item :: "pyval \<Rightarrow> string \<Rightarrow> maint_exn + pyval" where
  "dict_item v k = (case v of
     PDict d \<Rightarrow> (case dict_get d k of None \<Rightarrow> Inl (Py (KeyError k)) | Some x \<Rightarrow> Inr x)
   | _ \<Rightarrow> Inl (Py (TypeError ''indices'')))"

definition decode_payload ::
    "string \<Rightarrow> maint_exn + GovernedMaintenanceRecord \<times> GovernedMaintenanceEvent" where
  "decode_payload text =
     (case json_loads text of None \<Rightarrow> Inl JSONDecodeError
      | Some v \<Rightarrow>
        (case dict_item v ''record'' of Inl x \<Rightarrow> Inl x
         | Inr rd \<Rightarrow>
           (case dict_item rd ''verification_evidence'' of Inl x \<Rightarrow> Inl x
            | Inr _ \<Rightarrow>
              (case dict_item v ''event'' of Inl x \<Rightarrow> Inl x
               | Inr ed \<Rightarrow>
                 (case dict_item ed ''evidence'' of Inl x \<Rightarrow> Inl x
                  | Inr _ \<Rightarrow>
                    (case (rd, ed) of
                       (PDict rdd, PDict edd) \<Rightarrow>
                         (case (record_of_dict rdd, event_of_dict edd) of
                            (Some r, Some e) \<Rightarrow> Inr (r, e)
                          | _ \<Rightarrow> Inl (Py (TypeError ''argument'')))
                     | _ \<Rightarrow> Inl (Py (TypeError ''argument''))))))))"

section \<open>Transactions\<close>

definition find_row :: "string \<Rightarrow> table \<Rightarrow> outbox_row option" where
  "find_row d rows = find (\<lambda>r. event_digest r = d) rows"

definition update_rows :: "(outbox_row \<Rightarrow> bool) \<Rightarrow> (outbox_row \<Rightarrow> outbox_row) \<Rightarrow> table \<Rightarrow> table" where
  "update_rows P f rows = map (\<lambda>r. if P r then f r else r) rows"

definition fresh_row :: "string \<Rightarrow> string \<Rightarrow> rat \<Rightarrow> outbox_row" where
  "fresh_row digest text now = \<lparr>event_digest = digest, payload_json = text, row_status = Pending,
     attempts = 0, next_attempt_at = Fin now, lease_until = None, observatory_event_id = None,
     last_error = None, created_at = now, updated_at = now\<rparr>"

definition tx_enqueue :: "string \<Rightarrow> string \<Rightarrow> rat \<Rightarrow> table \<Rightarrow> (maint_exn + string) \<times> table" where
  "tx_enqueue digest text now rows =
     (case find_row digest rows of
        Some r \<Rightarrow> (if payload_json r \<noteq> text then Inl (MaintenanceOutboxError ''outbox-event-digest-collision'')
                   else Inr digest, rows)
      | None \<Rightarrow> (Inr digest, rows @ [fresh_row digest text now]))"

definition lease_over :: "rat \<Rightarrow> outbox_row \<Rightarrow> bool" where
  "lease_over now r = (case lease_until r of None \<Rightarrow> False | Some l \<Rightarrow> f_le l (Fin now))"

definition expired_row :: "rat \<Rightarrow> outbox_row \<Rightarrow> outbox_row" where
  "expired_row now r = r\<lparr>row_status := DeadLetter, lease_until := None,
     last_error := Some ''delivery-lease-expired-at-attempt-limit'', updated_at := now\<rparr>"

definition expire_leases :: "outbox_config \<Rightarrow> rat \<Rightarrow> table \<Rightarrow> table" where
  "expire_leases cfg now = update_rows
     (\<lambda>r. row_status r = Delivering \<and> lease_over now r \<and> max_attempts cfg \<le> attempts r)
     (expired_row now)"

definition is_due :: "outbox_config \<Rightarrow> rat \<Rightarrow> outbox_row \<Rightarrow> bool" where
  "is_due cfg now r = (attempts r < max_attempts cfg \<and>
     ((row_status r = Pending \<and> f_le (next_attempt_at r) (Fin now)) \<or>
      (row_status r = Delivering \<and> lease_over now r)))"

definition select_due :: "outbox_config \<Rightarrow> rat \<Rightarrow> nat \<Rightarrow> table \<Rightarrow> table" where
  "select_due cfg now limit rows =
     take limit (sort_key (\<lambda>r. (created_at r, event_digest r)) (filter (is_due cfg now) rows))"

definition claimed_row :: "outbox_config \<Rightarrow> rat \<Rightarrow> outbox_row \<Rightarrow> outbox_row" where
  "claimed_row cfg now r = r\<lparr>row_status := Delivering, attempts := Suc (attempts r),
     lease_until := Some (f_add (Fin now) (lease_seconds cfg)), updated_at := now\<rparr>"

definition claim_one :: "outbox_config \<Rightarrow> rat \<Rightarrow> outbox_row \<Rightarrow> table \<times> table \<Rightarrow> table \<times> table" where
  "claim_one cfg now row st = (case st of (claimed, rows) \<Rightarrow>
     (let hit = (\<lambda>r. event_digest r = event_digest row \<and> attempts r = attempts row)
      in (if length (filter hit rows) = 1 then claimed @ [row] else claimed,
          update_rows hit (claimed_row cfg now) rows)))"

definition tx_claim :: "outbox_config \<Rightarrow> rat \<Rightarrow> nat \<Rightarrow> table \<Rightarrow> table \<times> table" where
  "tx_claim cfg now limit rows =
     (let rows1 = expire_leases cfg now rows
      in fold (claim_one cfg now) (select_due cfg now limit rows1) ([], rows1))"

definition tx_mark :: "string \<Rightarrow> (outbox_row \<Rightarrow> outbox_row) \<Rightarrow> table \<Rightarrow> table" where
  "tx_mark digest f = update_rows (\<lambda>r. event_digest r = digest \<and> row_status r = Delivering) f"

definition failed_row :: "outbox_status \<Rightarrow> pyfloat \<Rightarrow> string \<Rightarrow> rat \<Rightarrow> outbox_row \<Rightarrow> outbox_row" where
  "failed_row st retry_at err now r = r\<lparr>row_status := st, next_attempt_at := retry_at, lease_until := None,
     last_error := Some err, updated_at := now\<rparr>"

definition delivered_row :: "string \<Rightarrow> rat \<Rightarrow> outbox_row \<Rightarrow> outbox_row" where
  "delivered_row i now r = r\<lparr>row_status := Delivered, observatory_event_id := Some i, lease_until := None,
     last_error := None, updated_at := now\<rparr>"

definition retried_row :: "rat \<Rightarrow> outbox_row \<Rightarrow> outbox_row" where
  "retried_row now r = r\<lparr>row_status := Pending, attempts := 0, next_attempt_at := Fin now,
     lease_until := None, last_error := None, updated_at := now\<rparr>"

definition tx_retry :: "string \<Rightarrow> rat \<Rightarrow> table \<Rightarrow> bool \<times> table" where
  "tx_retry digest now rows =
     (let hit = (\<lambda>r. event_digest r = digest \<and> row_status r = DeadLetter)
      in (length (filter hit rows) = 1,
          update_rows hit (retried_row now) rows))"

section \<open>Operations\<close>

record 'net outbox =
  table_of :: table
  readings :: "nat \<Rightarrow> rat"
  reading_n :: nat
  network :: 'net

definition clock :: "'net outbox \<Rightarrow> rat \<times> 'net outbox" where
  "clock s = (readings s (reading_n s), s\<lparr>reading_n := Suc (reading_n s)\<rparr>)"

definition enqueue ::
    "GovernedMaintenanceRecord \<Rightarrow> GovernedMaintenanceEvent \<Rightarrow> 'net outbox \<Rightarrow> (maint_exn + string) \<times> 'net outbox" where
  "enqueue r e s =
     (case serialize r e of Inl x \<Rightarrow> (Inl x, s)
      | Inr (digest, text) \<Rightarrow>
        (case clock s of (now, s1) \<Rightarrow>
         case tx_enqueue digest text now (table_of s1) of (res, rows) \<Rightarrow> (res, s1\<lparr>table_of := rows\<rparr>)))"

definition claim :: "outbox_config \<Rightarrow> nat \<Rightarrow> 'net outbox \<Rightarrow> table \<times> 'net outbox" where
  "claim cfg limit s =
     (case clock s of (now, s1) \<Rightarrow>
      case tx_claim cfg now limit (table_of s1) of (claimed, rows) \<Rightarrow> (claimed, s1\<lparr>table_of := rows\<rparr>))"

record delivery_result =
  res_event_digest :: string
  res_status :: outbox_status
  res_attempts :: nat
  res_retry_in_seconds :: "pyfloat option"
  res_observatory_event_id :: "string option"
  res_error :: "string option"

text \<open>\<open>base * (2 ** max(0, attempts - 1))\<close>: the integer is converted to a float, which fails
  from 2 to the 1024 on.\<close>

definition backoff :: "outbox_config \<Rightarrow> nat \<Rightarrow> maint_exn + pyfloat" where
  "backoff cfg n =
     (if 1024 \<le> n - 1 then Inl (Py (OverflowError ''int too large to convert to float''))
      else Inr (f_min (f_mul (base_backoff_seconds cfg) (Fin (2 ^ (n - 1)))) (max_backoff_seconds cfg)))"

definition mark_failure ::
    "outbox_config \<Rightarrow> string \<Rightarrow> nat \<Rightarrow> maint_exn \<Rightarrow> 'net outbox \<Rightarrow> (maint_exn + delivery_result) \<times> 'net outbox" where
  "mark_failure cfg digest n err s =
     (case clock s of (now, s1) \<Rightarrow>
      (let dead = (max_attempts cfg \<le> n) in
       case backoff cfg n of Inl x \<Rightarrow> (Inl x, s1)
       | Inr delay \<Rightarrow>
         (let st = (if dead then DeadLetter else Pending);
              safe_error = ''delivery-failed:'' @ exn_name err
          in (Inr \<lparr>res_event_digest = digest, res_status = st, res_attempts = n,
                res_retry_in_seconds = (if dead then None else Some delay),
                res_observatory_event_id = None, res_error = Some safe_error\<rparr>,
              s1\<lparr>table_of := tx_mark digest
                (failed_row st (if dead then Fin now else f_add (Fin now) delay) safe_error now) (table_of s1)\<rparr>))))"

definition mark_delivered :: "string \<Rightarrow> nat \<Rightarrow> string \<Rightarrow> 'net outbox \<Rightarrow> delivery_result \<times> 'net outbox" where
  "mark_delivered digest n i s =
     (case clock s of (now, s1) \<Rightarrow>
      (\<lparr>res_event_digest = digest, res_status = Delivered, res_attempts = n, res_retry_in_seconds = None,
        res_observatory_event_id = Some i, res_error = None\<rparr>,
       s1\<lparr>table_of := tx_mark digest (delivered_row i now) (table_of s1)\<rparr>))"

text \<open>The body of the \<open>try\<close> block: decode the stored payload and deliver it.\<close>

definition attempt_delivery ::
    "'net opener \<Rightarrow> delivery_config \<Rightarrow> string \<Rightarrow> 'net \<Rightarrow> (maint_exn + string) \<times> 'net" where
  "attempt_delivery opener c text net =
     (case decode_payload text of Inl x \<Rightarrow> (Inl x, net)
      | Inr (r, e) \<Rightarrow> deliver_maintenance_event opener c r e net)"

definition deliver_row ::
    "outbox_config \<Rightarrow> 'net opener \<Rightarrow> delivery_config \<Rightarrow> outbox_row \<Rightarrow> 'net outbox
      \<Rightarrow> (maint_exn + delivery_result) \<times> 'net outbox" where
  "deliver_row cfg opener c row s =
     (case attempt_delivery opener c (payload_json row) (network s) of
        (Inl err, net) \<Rightarrow> mark_failure cfg (event_digest row) (attempts row + 1) err (s\<lparr>network := net\<rparr>)
      | (Inr i, net) \<Rightarrow>
        (case mark_delivered (event_digest row) (attempts row + 1) i (s\<lparr>network := net\<rparr>) of
           (res, s') \<Rightarrow> (Inr res, s')))"

fun deliver_rows ::
    "outbox_config \<Rightarrow> 'net opener \<Rightarrow> delivery_config \<Rightarrow> table \<Rightarrow> 'net outbox
      \<Rightarrow> (maint_exn + delivery_result list) \<times> 'net outbox" where
  "deliver_rows cfg opener c [] s = (Inr [], s)"
| "deliver_rows cfg opener c (row # rows) s =
     (case deliver_row cfg opener c row s of
        (Inl x, s1) \<Rightarrow> (Inl x, s1)
      | (Inr res, s1) \<Rightarrow>
        (case deliver_rows cfg opener c rows s1 of
           (Inl x, s2) \<Rightarrow> (Inl x, s2)
         | (Inr ress, s2) \<Rightarrow> (Inr (res # ress), s2)))"

definition deliver_pending ::
    "outbox_config \<Rightarrow> 'net opener \<Rightarrow> delivery_config \<Rightarrow> int \<Rightarrow> 'net outbox
      \<Rightarrow> (maint_exn + delivery_result list) \<times> 'net outbox" where
  "deliver_pending cfg opener c limit s =
     (if limit < 1 then (Inl (value_error ''outbox-limit-invalid''), s)
      else (case delivery_guards c of Some x \<Rightarrow> (Inl x, s)
        | None \<Rightarrow> (case claim cfg (nat limit) s of (claimed, s1) \<Rightarrow> deliver_rows cfg opener c claimed s1)))"

text \<open>Metadata only: the payload column is not selected.\<close>

definition row_metadata :: "outbox_row \<Rightarrow> outbox_row" where
  "row_metadata r = r\<lparr>payload_json := []\<rparr>"

definition outbox_get :: "string \<Rightarrow> 'net outbox \<Rightarrow> outbox_row option" where
  "outbox_get d s = map_option row_metadata (find_row d (table_of s))"

definition list_recent :: "int \<Rightarrow> 'net outbox \<Rightarrow> maint_exn + table" where
  "list_recent limit s = guarded [(\<not> (1 \<le> limit \<and> limit \<le> 100), value_error ''outbox-list-limit-invalid'')]
     (map row_metadata (take (nat limit) (sort_key (\<lambda>r. (- updated_at r, event_digest r)) (table_of s))))"

definition outbox_statuses :: "outbox_status list" where
  "outbox_statuses = [Pending, Delivering, Delivered, DeadLetter]"

definition summary :: "'net outbox \<Rightarrow> (outbox_status \<times> nat) list" where
  "summary s = map (\<lambda>st. (st, length (filter (\<lambda>r. row_status r = st) (table_of s)))) outbox_statuses"

definition retry_dead_letter :: "string \<Rightarrow> 'net outbox \<Rightarrow> bool \<times> 'net outbox" where
  "retry_dead_letter digest s =
     (case clock s of (now, s1) \<Rightarrow>
      case tx_retry digest now (table_of s1) of (b, rows) \<Rightarrow> (b, s1\<lparr>table_of := rows\<rparr>))"

section \<open>Interleavings\<close>

text \<open>The transactions of any number of senders, producers and operators, in the order in which the
  database commits them. A sender may report an outcome long after its claim.\<close>

datatype outbox_op =
    Enqueue string string rat
  | Claim nat rat
  | MarkFailed string bool pyfloat string rat
  | MarkDelivered string string rat
  | Retry string rat

fun outbox_apply :: "outbox_config \<Rightarrow> outbox_op \<Rightarrow> table \<Rightarrow> table" where
  "outbox_apply cfg (Enqueue d text now) rows = snd (tx_enqueue d text now rows)"
| "outbox_apply cfg (Claim limit now) rows = snd (tx_claim cfg now limit rows)"
| "outbox_apply cfg (MarkFailed d dead retry_at err now) rows =
     tx_mark d (failed_row (if dead then DeadLetter else Pending) retry_at err now) rows"
| "outbox_apply cfg (MarkDelivered d i now) rows = tx_mark d (delivered_row i now) rows"
| "outbox_apply cfg (Retry d now) rows = snd (tx_retry d now rows)"

definition outbox_run :: "outbox_config \<Rightarrow> outbox_op list \<Rightarrow> table \<Rightarrow> table" where
  "outbox_run cfg ops rows = fold (outbox_apply cfg) ops rows"

lemma outbox_run_simps [simp]:
  "outbox_run cfg [] rows = rows"
  "outbox_run cfg (op # ops) rows = outbox_run cfg ops (outbox_apply cfg op rows)"
  "outbox_run cfg (ops @ ops') rows = outbox_run cfg ops' (outbox_run cfg ops rows)"
  by (simp_all add: outbox_run_def)

abbreviation digests :: "table \<Rightarrow> string list" where
  "digests rows \<equiv> map event_digest rows"

lemma row_updates [simp]:
  "event_digest (expired_row now r) = event_digest r" "event_digest (claimed_row cfg now r) = event_digest r"
  "event_digest (failed_row st t err now r) = event_digest r" "event_digest (delivered_row i now r) = event_digest r"
  "event_digest (retried_row now r) = event_digest r"
  by (simp_all add: expired_row_def claimed_row_def failed_row_def delivered_row_def retried_row_def)

lemma fresh_row_simps [simp]:
  "event_digest (fresh_row d pj now) = d" "payload_json (fresh_row d pj now) = pj"
  "row_status (fresh_row d pj now) = Pending" "attempts (fresh_row d pj now) = 0"
  "next_attempt_at (fresh_row d pj now) = Fin now" "lease_until (fresh_row d pj now) = None"
  "observatory_event_id (fresh_row d pj now) = None" "created_at (fresh_row d pj now) = now"
  by (simp_all add: fresh_row_def)

lemma digests_update_rows:
  "(\<And>r. event_digest (f r) = event_digest r) \<Longrightarrow> digests (update_rows P f rows) = digests rows"
  by (induction rows) (auto simp: update_rows_def)

lemma find_row_None: "find_row d rows = None \<longleftrightarrow> d \<notin> set (digests rows)"
  by (auto simp: find_row_def find_None_iff)

lemma find_row_Some: "find_row d rows = Some r \<Longrightarrow> r \<in> set rows \<and> event_digest r = d"
  by (auto simp: find_row_def find_Some_iff)

lemma find_row_in:
  assumes "distinct (digests rows)" "r \<in> set rows"
  shows "find_row (event_digest r) rows = Some r"
  using assms by (induction rows) (auto simp: find_row_def)

lemma same_digest: "distinct (digests rows) \<Longrightarrow> r \<in> set rows \<Longrightarrow> r' \<in> set rows \<Longrightarrow> event_digest r = event_digest r' \<Longrightarrow> r = r'"
  by (auto simp: distinct_map inj_on_def)

subsection \<open>What a claim does\<close>

lemma filter_eq_once: "distinct xs \<Longrightarrow> x \<in> set xs \<Longrightarrow> length (filter (\<lambda>y. y = x) xs) = 1"
  by (induction xs) (auto simp: filter_empty_conv)

lemma claim_one_row:
  assumes "distinct (digests rows)" "x \<in> set rows"
  shows "claim_one cfg now x (acc, rows) =
    (acc @ [x], map (\<lambda>r. if r = x then claimed_row cfg now r else r) rows)"
proof -
  have hit: "event_digest r = event_digest x \<and> attempts r = attempts x \<longleftrightarrow> r = x" if "r \<in> set rows" for r
    using same_digest [OF assms(1) that assms(2)] by auto
  have "filter (\<lambda>r. event_digest r = event_digest x \<and> attempts r = attempts x) rows = filter (\<lambda>r. r = x) rows"
    by (rule filter_cong) (simp_all add: hit)
  moreover have "length (filter (\<lambda>r. r = x) rows) = 1"
    using assms distinct_map [of event_digest rows] by (simp add: filter_eq_once)
  ultimately show ?thesis
    by (simp add: claim_one_def update_rows_def hit cong: map_cong)
qed

lemma fold_claim_one:
  assumes "distinct (digests rows)" "distinct (digests sel)" "set sel \<subseteq> set rows"
  shows "fold (claim_one cfg now) sel (acc, rows) =
    (acc @ sel, map (\<lambda>r. if r \<in> set sel then claimed_row cfg now r else r) rows)"
  using assms
proof (induction sel arbitrary: acc rows)
  case (Cons x sel)
  let ?rows = "map (\<lambda>r. if r = x then claimed_row cfg now r else r) rows"
  have "digests ?rows = digests rows" by simp
  then have d: "distinct (digests ?rows)" using Cons.prems(1) by (simp only:)
  have x: "x \<in> set rows" "x \<notin> set sel" using Cons.prems by auto
  have new: "claimed_row cfg now x \<notin> set sel"
    using Cons.prems(2) by (metis distinct.simps(2) image_eqI list.simps(9) row_updates(2) set_map)
  have sub: "set sel \<subseteq> set ?rows" using Cons.prems(3) x(2) by auto
  have "fold (claim_one cfg now) (x # sel) (acc, rows) = fold (claim_one cfg now) sel (acc @ [x], ?rows)"
    using claim_one_row [OF Cons.prems(1) x(1)] by simp
  also have "\<dots> = ((acc @ [x]) @ sel, map (\<lambda>r. if r \<in> set sel then claimed_row cfg now r else r) ?rows)"
    using Cons.prems(2) by (intro Cons.IH d sub) simp
  also have "map (\<lambda>r. if r \<in> set sel then claimed_row cfg now r else r) ?rows =
      map (\<lambda>r. if r \<in> set (x # sel) then claimed_row cfg now r else r) rows"
    using new x(2) by auto
  finally show ?case by simp
qed simp

lemma select_due_sub: "set (select_due cfg now limit rows) \<subseteq> {r \<in> set rows. is_due cfg now r}"
  unfolding select_due_def by (rule subset_trans [OF set_take_subset]) auto

lemma select_due_in: "x \<in> set (select_due cfg now limit rows) \<Longrightarrow> x \<in> set rows \<and> is_due cfg now x"
  using select_due_sub by blast

lemma distinct_select_due:
  assumes "distinct (digests rows)"
  shows "distinct (digests (select_due cfg now limit rows))"
proof -
  have "distinct (digests (filter (is_due cfg now) rows))"
    using assms by (rule distinct_map_filter)
  then have "distinct (digests (sort_key k (filter (is_due cfg now) rows)))" for k :: "outbox_row \<Rightarrow> rat \<times> string"
    by (simp add: distinct_map)
  then show ?thesis
    unfolding select_due_def take_map [symmetric] by (rule distinct_take)
qed

definition expire_one :: "outbox_config \<Rightarrow> rat \<Rightarrow> outbox_row \<Rightarrow> outbox_row" where
  "expire_one cfg now r =
     (if row_status r = Delivering \<and> lease_over now r \<and> max_attempts cfg \<le> attempts r then expired_row now r else r)"

lemma expire_leases_map: "expire_leases cfg now rows = map (expire_one cfg now) rows"
  by (simp add: expire_leases_def update_rows_def expire_one_def)

lemma digest_expire_one [simp]: "event_digest (expire_one cfg now r) = event_digest r"
  by (simp add: expire_one_def)

lemma digests_expire [simp]: "digests (expire_leases cfg now rows) = digests rows"
  by (simp add: expire_leases_map)

lemma selected_digest:
  assumes "x \<in> set (select_due cfg now limit (expire_leases cfg now rows))"
  shows "event_digest x \<in> set (digests rows)"
  using select_due_in [OF assms] by (auto simp: expire_leases_map)

definition claim_step :: "outbox_config \<Rightarrow> rat \<Rightarrow> outbox_row list \<Rightarrow> outbox_row \<Rightarrow> outbox_row" where
  "claim_step cfg now sel r = (let r1 = expire_one cfg now r in if r1 \<in> set sel then claimed_row cfg now r1 else r1)"

lemma tx_claim_rows:
  assumes "distinct (digests rows)"
  shows "tx_claim cfg now limit rows =
    (let sel = select_due cfg now limit (expire_leases cfg now rows) in (sel, map (claim_step cfg now sel) rows))"
proof -
  let ?rows = "expire_leases cfg now rows"
  let ?sel = "select_due cfg now limit ?rows"
  have d: "distinct (digests ?rows)" using assms by simp
  have "fold (claim_one cfg now) ?sel ([], ?rows) =
      ([] @ ?sel, map (\<lambda>r. if r \<in> set ?sel then claimed_row cfg now r else r) ?rows)"
    using select_due_sub by (intro fold_claim_one d distinct_select_due) blast+
  then show ?thesis
    by (simp add: tx_claim_def Let_def expire_leases_map claim_step_def comp_def)
qed

subsection \<open>Relations that every transaction keeps\<close>

text \<open>A table evolves along a relation on rows when each row is related to its later version, and
  new rows are only appended.\<close>

definition evolves :: "(outbox_row \<Rightarrow> outbox_row \<Rightarrow> bool) \<Rightarrow> table \<Rightarrow> table \<Rightarrow> bool" where
  "evolves R rows rows' \<longleftrightarrow> (\<exists>old new. rows' = old @ new \<and> list_all2 R rows old)"

lemma evolvesI: "list_all2 R rows rows' \<Longrightarrow> evolves R rows rows'"
  unfolding evolves_def by (metis append_Nil2)

lemma evolves_in:
  assumes "evolves R rows rows'" "r \<in> set rows"
  shows "\<exists>r' \<in> set rows'. R r r'"
proof -
  have "\<exists>y \<in> set ys. R x y" if "list_all2 R xs ys" "x \<in> set xs" for x xs ys
    using that by (induction rule: list_all2_induct) auto
  then show ?thesis using assms by (fastforce simp: evolves_def)
qed

lemma evolves_trans:
  assumes "evolves R rows rows1" "evolves R rows1 rows2" "\<And>a b c. R a b \<Longrightarrow> R b c \<Longrightarrow> R a c"
  shows "evolves R rows rows2"
proof -
  obtain old new where 1: "rows1 = old @ new" "list_all2 R rows old"
    using assms(1) by (auto simp: evolves_def)
  obtain old' new' where 2: "rows2 = old' @ new'" "list_all2 R rows1 old'"
    using assms(2) by (auto simp: evolves_def)
  obtain o1 o2 where 3: "old' = o1 @ o2" "list_all2 R old o1"
    using 1(1) 2(2) by (auto simp: list_all2_append1)
  have "list_all2 R rows o1"
    using 1(2) 3(2) assms(3) by (rule list_all2_trans [rotated]) blast+
  then show ?thesis using 2(1) 3(1) by (auto simp: evolves_def)
qed

locale row_relation =
  fixes cfg :: outbox_config
    and R :: "outbox_row \<Rightarrow> outbox_row \<Rightarrow> bool"
  assumes R_refl: "R r r"
    and R_trans: "R r r' \<Longrightarrow> R r' r'' \<Longrightarrow> R r r''"
    and R_expire: "row_status r = Delivering \<Longrightarrow> lease_over now r \<Longrightarrow> max_attempts cfg \<le> attempts r
      \<Longrightarrow> R r (expired_row now r)"
    and R_claim: "is_due cfg now r \<Longrightarrow> R r (claimed_row cfg now r)"
    and R_fail: "row_status r = Delivering \<Longrightarrow> st \<in> {Pending, DeadLetter} \<Longrightarrow> R r (failed_row st t err now r)"
    and R_deliver: "row_status r = Delivering \<Longrightarrow> R r (delivered_row i now r)"
    and R_retry: "row_status r = DeadLetter \<Longrightarrow> R r (retried_row now r)"
begin

lemma R_claim_step:
  assumes "sel = select_due cfg now limit (expire_leases cfg now rows)"
  shows "R r (claim_step cfg now sel r)"
proof -
  have e: "R r (expire_one cfg now r)"
    by (simp add: expire_one_def R_refl R_expire)
  have "is_due cfg now r1" if "r1 \<in> set sel" for r1
    using that select_due_sub [of cfg now limit "expire_leases cfg now rows"] assms by auto
  then show ?thesis
    using e by (auto simp: claim_step_def Let_def intro: R_trans R_claim)
qed

lemma R_update:
  "(\<And>r. P r \<Longrightarrow> R r (f r)) \<Longrightarrow> evolves R rows (update_rows P f rows)"
  by (rule evolvesI) (simp add: update_rows_def list_all2_map2 list_all2_same R_refl)

lemma apply_evolves:
  assumes "distinct (digests rows)"
  shows "evolves R rows (outbox_apply cfg op rows)"
proof (cases op)
  case (Enqueue d pj now)
  have more: "evolves R rows (rows @ new)" for new
    unfolding evolves_def by (intro exI conjI, rule refl) (simp add: list_all2_same R_refl)
  show ?thesis using more [of "[]"] more by (simp add: Enqueue tx_enqueue_def split: option.split)
next
  case (Claim limit now)
  have "list_all2 R rows (map (claim_step cfg now (select_due cfg now limit (expire_leases cfg now rows))) rows)"
    by (simp add: list_all2_map2 list_all2_same R_claim_step)
  then show ?thesis
    using assms by (simp add: Claim tx_claim_rows Let_def evolvesI)
next
  case (MarkFailed d dead t err now)
  then show ?thesis by (auto simp: tx_mark_def intro!: R_update R_fail)
next
  case (MarkDelivered d i now)
  then show ?thesis by (auto simp: tx_mark_def intro!: R_update R_deliver)
next
  case (Retry d now)
  then show ?thesis by (auto simp: tx_retry_def Let_def intro!: R_update R_retry)
qed

lemma update_from:
  "(\<And>r. P r \<Longrightarrow> R r (f r)) \<Longrightarrow> r' \<in> set (update_rows P f rows) \<Longrightarrow> \<exists>r \<in> set rows. R r r'"
  using R_refl by (fastforce simp: update_rows_def)

lemma apply_from:
  assumes "distinct (digests rows)" "r' \<in> set (outbox_apply cfg op rows)"
  shows "(\<exists>r \<in> set rows. R r r') \<or> (\<exists>d pj now. op = Enqueue d pj now \<and> r' = fresh_row d pj now)"
proof (cases op)
  case (Enqueue d pj now)
  then show ?thesis using assms(2) R_refl
    by (auto simp: tx_enqueue_def split: option.splits)
next
  case (Claim limit now)
  then have "\<exists>r \<in> set rows. r' = claim_step cfg now (select_due cfg now limit (expire_leases cfg now rows)) r"
    using assms by (auto simp: tx_claim_rows Let_def)
  then show ?thesis using R_claim_step [OF refl] by blast
next
  case (MarkFailed d dead t err now)
  then show ?thesis using assms(2)
    by (intro disjI1 update_from [where f = "failed_row (if dead then DeadLetter else Pending) t err now"])
      (auto simp: tx_mark_def intro: R_fail)
next
  case (MarkDelivered d i now)
  then show ?thesis using assms(2)
    by (intro disjI1 update_from [where f = "delivered_row i now"]) (auto simp: tx_mark_def intro: R_deliver)
next
  case (Retry d now)
  then show ?thesis using assms(2)
    by (intro disjI1 update_from [where f = "retried_row now"]) (auto simp: tx_retry_def Let_def intro: R_retry)
qed

end

lemma distinct_apply:
  assumes "distinct (digests rows)"
  shows "distinct (digests (outbox_apply cfg op rows))"
proof (cases op)
  case (Enqueue d pj now)
  then show ?thesis using assms find_row_None [of d rows]
    by (auto simp: tx_enqueue_def split: option.split)
next
  case (Claim limit now)
  have "digests (map (claim_step cfg now sel) rows) = digests rows" for sel
    by (simp add: claim_step_def Let_def)
  then have "digests (snd (tx_claim cfg now limit rows)) = digests rows"
    using assms by (simp only: tx_claim_rows Let_def snd_conv)
  then show ?thesis using assms by (simp only: Claim outbox_apply.simps)
qed (use assms in \<open>simp_all add: tx_mark_def tx_retry_def Let_def digests_update_rows\<close>)

lemma distinct_run: "distinct (digests rows) \<Longrightarrow> distinct (digests (outbox_run cfg ops rows))"
  by (induction ops arbitrary: rows) (simp_all add: distinct_apply)

context row_relation begin

lemma run_evolves: "distinct (digests rows) \<Longrightarrow> evolves R rows (outbox_run cfg ops rows)"
proof (induction ops arbitrary: rows)
  case Nil
  then show ?case by (simp add: evolvesI list_all2_same R_refl)
next
  case (Cons op ops)
  then show ?case
    using evolves_trans [OF apply_evolves Cons.IH [OF distinct_apply]] R_trans by simp
qed

lemma run_row:
  assumes "distinct (digests rows)" "r \<in> set rows"
  shows "\<exists>r' \<in> set (outbox_run cfg ops rows). R r r'"
  by (rule evolves_in [OF run_evolves [OF assms(1)] assms(2)])

end

lemmas row_update_defs = expired_row_def claimed_row_def failed_row_def delivered_row_def retried_row_def

text \<open>Identity of a row, finality of delivery, the invariant of a row, and the state from which no
  transaction leads away.\<close>

definition same_event :: "outbox_row \<Rightarrow> outbox_row \<Rightarrow> bool" where
  "same_event r r' \<longleftrightarrow> event_digest r' = event_digest r \<and> payload_json r' = payload_json r \<and> created_at r' = created_at r"

definition row_ok :: "outbox_config \<Rightarrow> outbox_row \<Rightarrow> bool" where
  "row_ok cfg r \<longleftrightarrow> attempts r \<le> max_attempts cfg \<and>
     (row_status r = Delivering \<longleftrightarrow> lease_until r \<noteq> None) \<and>
     (row_status r = Delivering \<longrightarrow> 0 < attempts r) \<and>
     (row_status r = Delivered \<longleftrightarrow> observatory_event_id r \<noteq> None)"

interpretation keeps: row_relation cfg same_event for cfg
  by unfold_locales (auto simp: same_event_def row_update_defs)

interpretation final: row_relation cfg "\<lambda>r r'. row_status r = Delivered \<longrightarrow> r' = r" for cfg
  by unfold_locales (auto simp: is_due_def)

interpretation sound: row_relation cfg "\<lambda>r r'. row_ok cfg r \<longrightarrow> row_ok cfg r'" for cfg
  by unfold_locales (auto simp: row_ok_def row_update_defs is_due_def)

interpretation stuck: row_relation cfg
    "\<lambda>r r'. row_status r = Pending \<and> max_attempts cfg \<le> attempts r \<longrightarrow> r' = r" for cfg
  by unfold_locales (auto simp: is_due_def)

lemma run_rows_ok:
  assumes "distinct (digests rows)" "\<forall>r \<in> set rows. row_ok cfg r"
  shows "\<forall>r \<in> set (outbox_run cfg ops rows). row_ok cfg r"
  using assms
proof (induction ops arbitrary: rows)
  case (Cons op ops)
  have "row_ok cfg r" if "r \<in> set (outbox_apply cfg op rows)" for r
    using sound.apply_from [OF Cons.prems(1) that] Cons.prems(2)
    by (auto simp: row_ok_def [of cfg "fresh_row _ _ _"])
  then show ?case using Cons.IH [OF distinct_apply [OF Cons.prems(1), of cfg op]] by simp
qed simp

lemma run_origin:
  assumes "distinct (digests rows)" "r' \<in> set (outbox_run cfg ops rows)"
  shows "(\<exists>r \<in> set rows. same_event r r') \<or>
    (\<exists>now. Enqueue (event_digest r') (payload_json r') now \<in> set ops \<and> created_at r' = now)"
  using assms
proof (induction ops arbitrary: rows)
  case (Cons op ops)
  note d = distinct_apply [OF Cons.prems(1), of cfg op]
  have "r' \<in> set (outbox_run cfg ops (outbox_apply cfg op rows))" using Cons.prems(2) by simp
  from Cons.IH [OF d this] show ?case
  proof
    assume "\<exists>r \<in> set (outbox_apply cfg op rows). same_event r r'"
    then obtain r where r: "r \<in> set (outbox_apply cfg op rows)" "same_event r r'" by blast
    from keeps.apply_from [OF Cons.prems(1) r(1)] r(2) show ?thesis
      by (auto simp: same_event_def)
  qed auto
qed (auto intro: keeps.R_refl)

lemma run_keeps_digest:
  assumes "distinct (digests rows)" "Enqueue d pj now \<in> set ops"
  shows "d \<in> set (digests (outbox_run cfg ops rows))"
proof -
  obtain ops1 ops2 where ops: "ops = ops1 @ Enqueue d pj now # ops2"
    using split_list [OF assms(2)] by blast
  let ?rows = "outbox_apply cfg (Enqueue d pj now) (outbox_run cfg ops1 rows)"
  have dd: "distinct (digests ?rows)" by (intro distinct_apply distinct_run assms(1))
  have "d \<in> set (digests ?rows)"
    using find_row_Some find_row_None by (auto simp: tx_enqueue_def split: option.splits)
  then obtain r where "r \<in> set ?rows" "event_digest r = d" by auto
  then obtain r' where "r' \<in> set (outbox_run cfg ops2 ?rows)" "event_digest r' = d"
    using keeps.run_row [OF dd, of r cfg ops2] by (auto simp only: same_event_def)
  then show ?thesis by (auto simp: ops simp del: outbox_apply.simps)
qed

text \<open>C10. Any interleaving of enqueues, claims, outcome reports and operator retries keeps the table
  consistent: one row per digest, each written by an enqueue of exactly that payload and never
  lost; attempts never exceed the limit; a lease exists exactly while a row is being delivered,
  and an Observatory event id exactly when it is delivered.\<close>

theorem outbox_invariant:
  "distinct (digests (outbox_run cfg ops [])) \<and>
   list_all (row_ok cfg) (outbox_run cfg ops []) \<and>
   (\<forall>r \<in> set (outbox_run cfg ops []). Enqueue (event_digest r) (payload_json r) (created_at r) \<in> set ops) \<and>
   (\<forall>d pj now. Enqueue d pj now \<in> set ops \<longrightarrow> d \<in> set (digests (outbox_run cfg ops [])))"
proof (intro conjI ballI allI impI)
  show "distinct (digests (outbox_run cfg ops []))" by (simp add: distinct_run)
  show "list_all (row_ok cfg) (outbox_run cfg ops [])"
    using run_rows_ok [of "[]"] by (simp add: list_all_iff)
  show "Enqueue (event_digest r) (payload_json r) (created_at r) \<in> set ops"
    if "r \<in> set (outbox_run cfg ops [])" for r
    using run_origin [OF _ that] by auto
  show "d \<in> set (digests (outbox_run cfg ops []))" if "Enqueue d pj now \<in> set ops" for d pj now
    using that by (rule run_keeps_digest [rotated]) simp
qed

theorem outbox_invariant_witness:
  "\<exists>cfg. \<exists>r \<in> set (outbox_run cfg [Enqueue ''d'' ''p'' 0, Claim 20 1, Enqueue ''d'' ''q'' 2] []).
     event_digest r = ''d'' \<and> payload_json r \<in> {''p'', ''q''} \<and> row_ok cfg r"
proof -
  let ?ops = "[Enqueue ''d'' ''p'' 0, Claim 20 1, Enqueue ''d'' ''q'' 2]"
  let ?cfg = "\<lparr>max_attempts = 8, base_backoff_seconds = Fin 2, max_backoff_seconds = Fin 300, lease_seconds = Fin 30\<rparr>"
  have inv: "list_all (row_ok ?cfg) (outbox_run ?cfg ?ops [])"
      "\<forall>r \<in> set (outbox_run ?cfg ?ops []). Enqueue (event_digest r) (payload_json r) (created_at r) \<in> set ?ops"
      "\<forall>d pj now. Enqueue d pj now \<in> set ?ops \<longrightarrow> d \<in> set (digests (outbox_run ?cfg ?ops []))"
    using outbox_invariant [of ?cfg ?ops] by blast+
  have "Enqueue ''d'' ''p'' 0 \<in> set ?ops" by simp
  then have "''d'' \<in> set (digests (outbox_run ?cfg ?ops []))" using inv(3) by blast
  then obtain r where r: "r \<in> set (outbox_run ?cfg ?ops [])" "event_digest r = ''d''" by auto
  have "payload_json r \<in> {''p'', ''q''}" using bspec [OF inv(2) r(1)] by auto
  moreover have "row_ok ?cfg r" using inv(1) r(1) by (simp only: list_all_iff)
  ultimately show ?thesis using r by blast
qed

subsection \<open>Leases\<close>

lemma f_lt_not_le: "f_lt a b \<Longrightarrow> \<not> f_le b a"
  by (cases a; cases b) auto

lemma claimed_leased:
  assumes "distinct (digests rows)" "x \<in> set (fst (tx_claim cfg now limit rows))"
  shows "claimed_row cfg now x \<in> set (snd (tx_claim cfg now limit rows))"
proof -
  let ?sel = "select_due cfg now limit (expire_leases cfg now rows)"
  have "x \<in> set ?sel" using assms by (simp add: tx_claim_rows Let_def)
  moreover from this obtain r where "r \<in> set rows" "x = expire_one cfg now r"
    using select_due_sub [of cfg now limit "expire_leases cfg now rows"] by (auto simp: expire_leases_map)
  ultimately show ?thesis
    using assms(1) by (force simp: tx_claim_rows Let_def claim_step_def)
qed

lemma leased_not_claimed:
  assumes "distinct (digests rows)" "r \<in> set rows" "row_status r = Delivering" "lease_until r = Some l" "f_lt (Fin now) l"
  shows "r \<in> set (snd (tx_claim cfg now limit rows))"
    and "event_digest r \<notin> set (digests (fst (tx_claim cfg now limit rows)))"
proof -
  let ?rows = "expire_leases cfg now rows"
  let ?sel = "select_due cfg now limit ?rows"
  have e: "expire_one cfg now r = r" "\<not> is_due cfg now r"
    using assms(3-5) by (auto simp: expire_one_def is_due_def lease_over_def f_lt_not_le)
  have r: "r \<in> set ?rows" using assms(2) e(1) imageI [of r "set rows" "expire_one cfg now"]
    by (simp add: expire_leases_map)
  have d: "distinct (digests ?rows)" using assms(1) by (simp only: digests_expire)
  have other: "event_digest r \<notin> set (digests ?sel)"
  proof
    assume "event_digest r \<in> set (digests ?sel)"
    then obtain x where x: "x \<in> set ?sel" "event_digest x = event_digest r" by auto
    have "x = r" using select_due_in [OF x(1)] by (intro same_digest [OF d _ r x(2)]) simp
    then show False using select_due_in [OF x(1)] e(2) by simp
  qed
  then show "event_digest r \<notin> set (digests (fst (tx_claim cfg now limit rows)))"
    using assms(1) by (simp add: tx_claim_rows Let_def)
  have "claim_step cfg now ?sel r = r" using e(1) other by (auto simp: claim_step_def)
  then have "r \<in> set (map (claim_step cfg now ?sel) rows)"
    using assms(2) imageI [of r "set rows" "claim_step cfg now ?sel"] by simp
  then show "r \<in> set (snd (tx_claim cfg now limit rows))"
    using assms(1) by (simp add: tx_claim_rows Let_def)
qed

text \<open>Transactions of others that respect a lease: claims before it ends, and outcome reports for other
  events.\<close>

fun respects_lease :: "string \<Rightarrow> pyfloat \<Rightarrow> outbox_op \<Rightarrow> bool" where
  "respects_lease d l (Claim limit now) = f_lt (Fin now) l"
| "respects_lease d l (MarkFailed d' dead t err now) = (d' \<noteq> d)"
| "respects_lease d l (MarkDelivered d' i now) = (d' \<noteq> d)"
| "respects_lease d l _ = True"

lemma update_rows_other: "r \<in> set rows \<Longrightarrow> \<not> P r \<Longrightarrow> r \<in> set (update_rows P f rows)"
  by (force simp: update_rows_def)

lemma leased_row_kept:
  assumes "distinct (digests rows)" "r \<in> set rows" "row_status r = Delivering" "lease_until r = Some l"
    "respects_lease (event_digest r) l op"
  shows "r \<in> set (outbox_apply cfg op rows)"
proof (cases op)
  case (Enqueue d pj now)
  then show ?thesis using assms(2) by (auto simp: tx_enqueue_def split: option.split)
next
  case (Claim limit now)
  then show ?thesis using assms leased_not_claimed(1) by simp
next
  case (MarkFailed d dead t err now)
  then show ?thesis using assms by (simp add: tx_mark_def update_rows_other)
next
  case (MarkDelivered d i now)
  then show ?thesis using assms by (simp add: tx_mark_def update_rows_other)
next
  case (Retry d now)
  then show ?thesis using assms by (simp add: tx_retry_def Let_def update_rows_other)
qed

lemma leased_run_kept:
  "distinct (digests rows) \<Longrightarrow> r \<in> set rows \<Longrightarrow> row_status r = Delivering \<Longrightarrow> lease_until r = Some l \<Longrightarrow>
   list_all (respects_lease (event_digest r) l) ops \<Longrightarrow> r \<in> set (outbox_run cfg ops rows)"
  by (induction ops arbitrary: rows) (simp_all add: leased_row_kept distinct_apply del: outbox_apply.simps)

text \<open>C11. Leases exclude concurrent senders: after a claim at time \<open>t\<close> no claim of any sender before
  \<open>t + lease_seconds\<close> returns the same event, whatever other transactions happen in between, unless
  an outcome of that very event is reported.\<close>

theorem lease_excludes_other_senders:
  assumes "distinct (digests rows)" "x \<in> set (fst (tx_claim cfg t limit rows))"
    and "list_all (respects_lease (event_digest x) (f_add (Fin t) (lease_seconds cfg))) ops"
    and "f_lt (Fin now) (f_add (Fin t) (lease_seconds cfg))"
  shows "event_digest x \<notin> set (digests (fst (tx_claim cfg now limit'
      (outbox_run cfg ops (snd (tx_claim cfg t limit rows))))))"
proof -
  let ?rows = "snd (tx_claim cfg t limit rows)" and ?r = "claimed_row cfg t x"
  have d: "distinct (digests ?rows)"
    using distinct_apply [OF assms(1), of cfg "Claim limit t"] by simp
  have r: "row_status ?r = Delivering" "lease_until ?r = Some (f_add (Fin t) (lease_seconds cfg))" "event_digest ?r = event_digest x"
    by (simp_all add: claimed_row_def)
  have "?r \<in> set (outbox_run cfg ops ?rows)"
    using assms(3) r by (intro leased_run_kept d claimed_leased assms) simp_all
  then show ?thesis
    using leased_not_claimed(2) [OF distinct_run [OF d] _ r(1,2) assms(4)] r(3) by simp
qed

definition default_outbox_config :: outbox_config where
  "default_outbox_config = \<lparr>max_attempts = 8, base_backoff_seconds = Fin 2, max_backoff_seconds = Fin 300,
     lease_seconds = Fin 30\<rparr>"

theorem lease_excludes_other_senders_witness:
  "fst (tx_claim default_outbox_config 0 20 [fresh_row ''d'' ''p'' 0]) = [fresh_row ''d'' ''p'' 0] \<and>
   ''d'' \<notin> set (digests (fst (tx_claim default_outbox_config 29 20 (outbox_run default_outbox_config
      [Enqueue ''e'' ''q'' 5, Claim 20 10] (snd (tx_claim default_outbox_config 0 20 [fresh_row ''d'' ''p'' 0]))))))"
proof -
  have c: "fst (tx_claim default_outbox_config 0 20 [fresh_row ''d'' ''p'' 0]) = [fresh_row ''d'' ''p'' 0]"
    by (simp add: tx_claim_rows select_due_def expire_leases_map expire_one_def is_due_def default_outbox_config_def Let_def)
  have l: "f_add (Fin 0) (lease_seconds default_outbox_config) = Fin 30"
    by code_simp
  show ?thesis
    using lease_excludes_other_senders [of "[fresh_row ''d'' ''p'' 0]" "fresh_row ''d'' ''p'' 0" default_outbox_config
        0 20 "[Enqueue ''e'' ''q'' 5, Claim 20 10]" 29 20] c l by simp
qed

text \<open>Delivery is final: no transaction of any sender, producer or operator changes or removes a
  delivered row.\<close>

theorem delivered_is_final:
  assumes "distinct (digests rows)" "r \<in> set rows" "row_status r = Delivered"
  shows "r \<in> set (outbox_run cfg ops rows)"
  using final.run_row [OF assms(1,2), of cfg ops] assms(3) by auto

theorem delivered_is_final_witness:
  "delivered_row ''e1'' 3 (fresh_row ''d'' ''p'' 0) \<in> set (outbox_run default_outbox_config
     [Claim 20 9, Retry ''d'' 10, MarkFailed ''d'' True (Fin 0) ''x'' 11] [delivered_row ''e1'' 3 (fresh_row ''d'' ''p'' 0)])"
  by (rule delivered_is_final) (simp_all add: delivered_row_def)

subsection \<open>Counting attempts\<close>

definition attempts_of :: "string \<Rightarrow> table \<Rightarrow> nat" where
  "attempts_of d rows = (case find_row d rows of None \<Rightarrow> 0 | Some r \<Rightarrow> attempts r)"

text \<open>How often the claims of a history return an event.\<close>

fun claims_of :: "outbox_config \<Rightarrow> string \<Rightarrow> outbox_op list \<Rightarrow> table \<Rightarrow> nat" where
  "claims_of cfg d [] rows = 0"
| "claims_of cfg d (op # ops) rows =
     (case op of Claim limit now \<Rightarrow> (if d \<in> set (digests (fst (tx_claim cfg now limit rows))) then 1 else 0) | _ \<Rightarrow> 0)
     + claims_of cfg d ops (outbox_apply cfg op rows)"

lemma find_row_map:
  "(\<And>r. event_digest (f r) = event_digest r) \<Longrightarrow> find_row d (map f rows) = map_option f (find_row d rows)"
  by (induction rows) (simp_all add: find_row_def)

lemma attempts_of_update:
  assumes "\<And>r. event_digest (f r) = event_digest r" "\<And>r. event_digest r = d \<Longrightarrow> P r \<Longrightarrow> attempts (f r) = attempts r"
  shows "attempts_of d (update_rows P f rows) = attempts_of d rows"
proof -
  have "find_row d (update_rows P f rows) = map_option (\<lambda>r. if P r then f r else r) (find_row d rows)"
    unfolding update_rows_def by (rule find_row_map) (simp add: assms(1))
  then show ?thesis
    using assms(2) by (auto simp: attempts_of_def dest!: find_row_Some split: option.splits)
qed

lemma attempts_of_claim:
  assumes "distinct (digests rows)"
  shows "attempts_of d (snd (tx_claim cfg now limit rows)) = attempts_of d rows +
    (if d \<in> set (digests (fst (tx_claim cfg now limit rows))) then 1 else 0)"
proof -
  let ?sel = "select_due cfg now limit (expire_leases cfg now rows)"
  have f: "find_row d (map (claim_step cfg now ?sel) rows) = map_option (claim_step cfg now ?sel) (find_row d rows)"
    by (rule find_row_map) (simp add: claim_step_def Let_def)
  have n: "attempts (claim_step cfg now ?sel r) = attempts r + (if expire_one cfg now r \<in> set ?sel then 1 else 0)" for r
    by (simp add: claim_step_def Let_def claimed_row_def expire_one_def expired_row_def)
  show ?thesis
  proof (cases "find_row d rows")
    case None
    then have "d \<notin> set (digests ?sel)" using selected_digest [of _ cfg now limit rows] by (auto simp: find_row_None)
    then show ?thesis using assms None f by (simp add: attempts_of_def tx_claim_rows Let_def)
  next
    case (Some r)
    have r: "r \<in> set rows" "event_digest r = d" using find_row_Some [OF Some] by auto
    have "expire_one cfg now r \<in> set ?sel \<longleftrightarrow> d \<in> set (digests ?sel)"
    proof
      assume "d \<in> set (digests ?sel)"
      then obtain x where x: "x \<in> set ?sel" "event_digest x = d" by auto
      then have "x = expire_one cfg now r"
        using r select_due_in [OF x(1)]
        by (intro same_digest [of "expire_leases cfg now rows"])
          (simp only: digests_expire assms, simp_all add: expire_leases_map)
      then show "expire_one cfg now r \<in> set ?sel" using x(1) by simp
    next
      assume "expire_one cfg now r \<in> set ?sel"
      then have "event_digest (expire_one cfg now r) \<in> set (digests ?sel)" unfolding set_map by (rule imageI)
      then show "d \<in> set (digests ?sel)" by (simp only: digest_expire_one r)
    qed
    then show ?thesis using assms Some f n by (simp add: attempts_of_def tx_claim_rows Let_def)
  qed
qed

lemma attempts_of_apply:
  assumes "distinct (digests rows)" "\<And>now. op \<noteq> Retry d now"
  shows "attempts_of d (outbox_apply cfg op rows) = attempts_of d rows +
    (case op of Claim limit now \<Rightarrow> (if d \<in> set (digests (fst (tx_claim cfg now limit rows))) then 1 else 0) | _ \<Rightarrow> 0)"
proof (cases op)
  case (Enqueue d' pj now)
  have "find_row d (rows @ [fresh_row d' pj now]) = (case find_row d rows of Some r \<Rightarrow> Some r
      | None \<Rightarrow> if d' = d then Some (fresh_row d' pj now) else None)"
    by (induction rows) (simp_all add: find_row_def)
  then show ?thesis
    by (simp add: Enqueue tx_enqueue_def attempts_of_def split: option.split)
next
  case (Claim limit now)
  then show ?thesis using attempts_of_claim [OF assms(1)] by simp
next
  case (Retry d' now)
  then show ?thesis using assms(2) by (auto simp: tx_retry_def Let_def intro!: attempts_of_update)
qed (auto simp: tx_mark_def failed_row_def delivered_row_def intro!: attempts_of_update)

lemma attempts_of_run:
  assumes "distinct (digests rows)" "\<And>now. Retry d now \<notin> set ops"
  shows "attempts_of d (outbox_run cfg ops rows) = attempts_of d rows + claims_of cfg d ops rows"
  using assms
proof (induction ops arbitrary: rows)
  case (Cons op ops)
  have "op \<noteq> Retry d now" for now using Cons.prems(2) [of now] by auto
  then show ?case
    using Cons.IH [OF distinct_apply [OF Cons.prems(1), of cfg op]] Cons.prems attempts_of_apply [of rows op d cfg]
    by simp
qed simp

text \<open>Bounded retry: unless an operator requeues it, an event is handed to senders at most
  \<open>max_attempts\<close> times, and its \<open>attempts\<close> column counts exactly these hand-outs, in every
  interleaving.\<close>

theorem attempts_bounded:
  assumes "\<And>now. Retry d now \<notin> set ops"
  shows "claims_of cfg d ops [] = attempts_of d (outbox_run cfg ops []) \<and> claims_of cfg d ops [] \<le> max_attempts cfg"
proof -
  have eq: "attempts_of d (outbox_run cfg ops []) = claims_of cfg d ops []"
    using attempts_of_run [of "[]" d ops cfg] assms by (simp add: attempts_of_def find_row_def)
  have "attempts_of d (outbox_run cfg ops []) \<le> max_attempts cfg"
    using run_rows_ok [of "[]" cfg ops]
    by (auto simp: attempts_of_def row_ok_def dest!: find_row_Some split: option.split)
  then show ?thesis using eq by simp
qed

theorem attempts_bounded_witness:
  "claims_of default_outbox_config ''d'' [Enqueue ''d'' ''p'' 0, Claim 20 0, Retry ''e'' 1, Claim 20 60] [] \<le> 8"
  using attempts_bounded [of "''d''" "[Enqueue ''d'' ''p'' 0, Claim 20 0, Retry ''e'' 1, Claim 20 60]" default_outbox_config]
  by (simp add: default_outbox_config_def)

end
