(* ===== verification/Maint_Delivery.thy ===== *)
theory Maint_Delivery
  imports Maint_Outbox
begin

text \<open>
  The outbox operations as their callers see them: every operation is a sequence of the transactions
  of \<open>Maint_Outbox\<close>, stored payloads are read back as they were written, the backoff stays in its
  range, and a recorded event is delivered by a sender whose service accepts it. The last section
  shows what a late failure report of a sender whose lease has run out does.
\<close>

section \<open>Stored payloads are read back\<close>

lemma dict_get_sorted:
  assumes "distinct (map fst d)"
  shows "dict_get (sort_key fst d) k = dict_get d k"
proof -
  have "map_of (sort_key fst d) = map_of d"
    using assms by (subst map_of_inject_set) (simp_all add: distinct_map)
  then show ?thesis by (simp add: dict_get_def)
qed

lemma dict_get_map_snd: "dict_get (map (\<lambda>(k, v). (k, f v)) d) k = map_option f (dict_get d k)"
  by (simp add: dict_get_def map_of_map)

text \<open>The dictionary that reading a written dictionary gives.\<close>

definition reread :: "payload \<Rightarrow> payload" where
  "reread d = sort_key fst (map (\<lambda>(k, v). (k, json_sorted v)) d)"

lemma json_sorted_dict: "json_sorted (PDict d) = PDict (reread d)"
  by (simp add: reread_def)

lemma reread_get:
  assumes "distinct (map fst d)"
  shows "dict_get (reread d) k = map_option json_sorted (dict_get d k)"
proof -
  have "map fst (map (\<lambda>(k, v). (k, json_sorted v)) d) = map fst d"
    by (induction d) auto
  then have "distinct (map fst (map (\<lambda>(k, v). (k, json_sorted v)) d))"
    using assms by (simp only:)
  then show ?thesis by (simp only: reread_def dict_get_sorted dict_get_map_snd)
qed

lemma reread_keys: "keys_among (reread d) ks \<longleftrightarrow> keys_among d ks"
  by (auto simp: keys_among_def reread_def)

lemma str_field_reread: "distinct (map fst d) \<Longrightarrow> dict_get d k = Some (PStr s) \<Longrightarrow> str_field (reread d) k = Some s"
  by (simp add: str_field_def reread_get)

lemma those_strs: "those (map (\<lambda>v. case v of PStr s \<Rightarrow> Some s | _ \<Rightarrow> None) (map PStr ss)) = Some ss"
  by (induction ss) simp_all

lemma strs_field_reread:
  "distinct (map fst d) \<Longrightarrow> dict_get d k = Some (str_list ss) \<Longrightarrow> strs_field (reread d) k = Some ss"
  using those_strs [of ss] by (simp add: strs_field_def reread_get comp_def)

lemma bool_field_reread:
  "distinct (map fst d) \<Longrightarrow> dict_get d k = Some (PBool b) \<Longrightarrow> bool_field (reread d) k dflt = Some b"
  by (simp add: bool_field_def reread_get)

lemma record_asdict_reread: "record_of_dict (reread (record_asdict r)) = Some r"
proof -
  have d: "distinct (map fst (record_asdict r))" by (simp add: record_asdict_def)
  have "keys_among (record_asdict r) [''observation_digest'', ''obligation_id'', ''patch_digest'', ''verification_evidence'',
         ''authorization_ref'', ''production_write_requested'']"
    by (simp add: keys_among_def record_asdict_def)
  moreover have "dict_get (record_asdict r) ''observation_digest'' = Some (PStr (rec_observation_digest r))"
    "dict_get (record_asdict r) ''obligation_id'' = Some (PStr (rec_obligation_id r))"
    "dict_get (record_asdict r) ''patch_digest'' = Some (PStr (rec_patch_digest r))"
    "dict_get (record_asdict r) ''verification_evidence'' = Some (str_list (verification_evidence r))"
    "dict_get (record_asdict r) ''authorization_ref'' = Some (PStr (authorization_ref r))"
    "dict_get (record_asdict r) ''production_write_requested'' = Some (PBool (production_write_requested r))"
    by (simp_all add: record_asdict_def dict_get_def)
  ultimately show ?thesis
    by (simp add: record_of_dict_def reread_keys str_field_reread [OF d] strs_field_reread [OF d] bool_field_reread [OF d])
qed

lemma event_asdict_reread: "event_of_dict (reread (event_asdict e)) = Some e"
proof -
  have d: "distinct (map fst (event_asdict e))" by (simp add: event_asdict_def)
  have "keys_among (event_asdict e) [''event_type'', ''status'', ''observation_digest'', ''obligation_id'', ''patch_digest'',
         ''repair_report_digest'', ''evidence'', ''digest'']"
    by (simp add: keys_among_def event_asdict_def)
  moreover have "dict_get (event_asdict e) ''event_type'' = Some (PStr (event_type e))"
    "dict_get (event_asdict e) ''status'' = Some (PStr (ev_status e))"
    "dict_get (event_asdict e) ''observation_digest'' = Some (PStr (ev_observation_digest e))"
    "dict_get (event_asdict e) ''obligation_id'' = Some (PStr (ev_obligation_id e))"
    "dict_get (event_asdict e) ''patch_digest'' = Some (PStr (ev_patch_digest e))"
    "dict_get (event_asdict e) ''repair_report_digest'' = Some (PStr (repair_report_digest e))"
    "dict_get (event_asdict e) ''evidence'' = Some (str_list (ev_evidence e))"
    "dict_get (event_asdict e) ''digest'' = Some (PStr (ev_digest e))"
    by (simp_all add: event_asdict_def dict_get_def)
  ultimately show ?thesis
    by (simp add: event_of_dict_def reread_keys str_field_reread [OF d] strs_field_reread [OF d])
qed

definition stored_payload :: "GovernedMaintenanceRecord \<Rightarrow> GovernedMaintenanceEvent \<Rightarrow> string" where
  "stored_payload r e = json_dumps True (PDict [(''record'', PDict (record_asdict r)), (''event'', PDict (event_asdict e))])"

lemma serialize_Inr:
  "serialize r e = Inr (d, pj) \<longleftrightarrow>
     ev_status e = ''verified'' \<and> length (ev_digest e) = 64 \<and> linked r e \<and> d = ev_digest e \<and> pj = stored_payload r e"
  by (auto simp: serialize_def guarded_Inr stored_payload_def)

lemma decode_stored: "decode_payload (stored_payload r e) = Inr (r, e)"
proof -
  let ?p = "[(''record'', PDict (record_asdict r)), (''event'', PDict (event_asdict e))]"
  have dp: "distinct (map fst ?p)" "distinct (map fst (record_asdict r))" "distinct (map fst (event_asdict e))"
    by (simp_all add: record_asdict_def event_asdict_def)
  have "json_plain (PDict ?p)"
    using dp by (simp add: record_asdict_def event_asdict_def)
  then have l: "json_loads (stored_payload r e) = Some (PDict (reread ?p))"
    unfolding stored_payload_def json_sorted_dict [symmetric] by (rule json_roundtrip)
  have 1: "dict_item (PDict (reread ?p)) ''record'' = Inr (PDict (reread (record_asdict r)))"
    "dict_item (PDict (reread ?p)) ''event'' = Inr (PDict (reread (event_asdict e)))"
    by (simp_all add: dict_item_def reread_get [OF dp(1)] dict_get_def reread_def)
  have 2: "dict_get (record_asdict r) ''verification_evidence'' = Some (str_list (verification_evidence r))"
    "dict_get (event_asdict e) ''evidence'' = Some (str_list (ev_evidence e))"
    by (simp_all add: record_asdict_def event_asdict_def dict_get_def)
  have "\<exists>x. dict_item (PDict (reread (record_asdict r))) ''verification_evidence'' = Inr x"
    "\<exists>x. dict_item (PDict (reread (event_asdict e))) ''evidence'' = Inr x"
    by (simp_all add: dict_item_def reread_get [OF dp(2)] reread_get [OF dp(3)] 2)
  then show ?thesis
    by (auto simp: decode_payload_def l 1 record_asdict_reread event_asdict_reread)
qed

text \<open>C35. Round trip through the database: what a sender decodes and delivers for an enqueued pair is
  the pair itself, so the attempt is the direct delivery of the record and event that were
  enqueued.\<close>

theorem enqueued_is_delivered:
  assumes "serialize r e = Inr (digest, pj)"
  shows "decode_payload pj = Inr (r, e) \<and> digest = ev_digest e \<and>
    attempt_delivery opener c pj net = deliver_maintenance_event opener c r e net"
  using assms decode_stored [of r e] by (auto simp: serialize_Inr attempt_delivery_def)

lemma sample_serialized: "serialize sample_record sample_event = Inr (ev_digest sample_event, stored_payload sample_record sample_event)"
  using recorded_event_guards [OF sample_recorded] by (simp add: serialize_Inr event_guards_None event_digest_of_def)

theorem enqueued_is_delivered_witness:
  "decode_payload (stored_payload sample_record sample_event) = Inr (sample_record, sample_event) \<and>
   attempt_delivery accepting sample_delivery (stored_payload sample_record sample_event) ''1'' = (Inr ''e1'', ''+1'')"
  using enqueued_is_delivered [OF sample_serialized, of accepting sample_delivery "''1''"] sample_delivered by simp

section \<open>Operations are sequences of transactions\<close>

definition failure_op :: "outbox_config \<Rightarrow> string \<Rightarrow> nat \<Rightarrow> maint_exn \<Rightarrow> pyfloat \<Rightarrow> rat \<Rightarrow> outbox_op" where
  "failure_op cfg d n err delay now =
     MarkFailed d (max_attempts cfg \<le> n) (if max_attempts cfg \<le> n then Fin now else f_add (Fin now) delay)
       (''delivery-failed:'' @ exn_name err) now"

lemma mark_failure_run:
  "\<exists>ops. table_of (snd (mark_failure cfg d n err s)) = outbox_run cfg ops (table_of s)"
proof (cases "backoff cfg n")
  case (Inl x)
  then have "table_of (snd (mark_failure cfg d n err s)) = outbox_run cfg [] (table_of s)"
    by (simp add: mark_failure_def clock_def Let_def)
  then show ?thesis by blast
next
  case (Inr delay)
  then have "table_of (snd (mark_failure cfg d n err s)) =
      outbox_run cfg [failure_op cfg d n err delay (fst (clock s))] (table_of s)"
    by (simp add: mark_failure_def clock_def Let_def failure_op_def)
  then show ?thesis by blast
qed

lemma deliver_row_run:
  "\<exists>ops. table_of (snd (deliver_row cfg opener c row s)) = outbox_run cfg ops (table_of s)"
proof -
  obtain res net where a: "attempt_delivery opener c (payload_json row) (network s) = (res, net)" by fastforce
  show ?thesis
  proof (cases res)
    case (Inl err)
    then show ?thesis
      using mark_failure_run [of cfg "event_digest row" "attempts row + 1" err "s\<lparr>network := net\<rparr>"] a
      by (simp add: deliver_row_def)
  next
    case (Inr i)
    have "table_of (snd (deliver_row cfg opener c row s)) =
        outbox_run cfg [MarkDelivered (event_digest row) i (fst (clock s))] (table_of s)"
      by (simp add: deliver_row_def a Inr mark_delivered_def clock_def)
    then show ?thesis by blast
  qed
qed

lemma deliver_rows_run:
  "\<exists>ops. table_of (snd (deliver_rows cfg opener c rows s)) = outbox_run cfg ops (table_of s)"
proof (induction rows arbitrary: s)
  case Nil
  have "table_of (snd (deliver_rows cfg opener c [] s)) = outbox_run cfg [] (table_of s)" by simp
  then show ?case by blast
next
  case (Cons row rows)
  obtain res s1 where r: "deliver_row cfg opener c row s = (res, s1)" by fastforce
  obtain ops1 where 1: "table_of s1 = outbox_run cfg ops1 (table_of s)"
    using deliver_row_run [of cfg opener c row s] r by auto
  obtain ops2 where 2: "table_of (snd (deliver_rows cfg opener c rows s1)) = outbox_run cfg ops2 (table_of s1)"
    using Cons.IH by blast
  have "table_of (snd (deliver_rows cfg opener c (row # rows) s)) =
      outbox_run cfg (if isl res then ops1 else ops1 @ ops2) (table_of s)"
    using 1 2 by (cases res) (auto simp: r split: prod.split sum.split)
  then show ?case by blast
qed

lemma enqueue_run: "\<exists>ops. table_of (snd (enqueue r e s)) = outbox_run cfg ops (table_of s)"
proof (cases "serialize r e")
  case (Inl x)
  then have "table_of (snd (enqueue r e s)) = outbox_run cfg [] (table_of s)" by (simp add: enqueue_def)
  then show ?thesis by blast
next
  case (Inr dp)
  then have "table_of (snd (enqueue r e s)) = outbox_run cfg [Enqueue (fst dp) (snd dp) (fst (clock s))] (table_of s)"
    by (cases dp) (simp add: enqueue_def clock_def split: prod.split)
  then show ?thesis by blast
qed

lemma deliver_pending_run:
  "\<exists>ops. table_of (snd (deliver_pending cfg opener c limit s)) = outbox_run cfg ops (table_of s)"
proof (cases "limit < 1 \<or> delivery_guards c \<noteq> None")
  case True
  then have "table_of (snd (deliver_pending cfg opener c limit s)) = outbox_run cfg [] (table_of s)"
    by (auto simp: deliver_pending_def)
  then show ?thesis by blast
next
  case False
  obtain claimed s1 where 1: "claim cfg (nat limit) s = (claimed, s1)" by fastforce
  obtain ops where "table_of (snd (deliver_rows cfg opener c claimed s1)) = outbox_run cfg ops (table_of s1)"
    using deliver_rows_run by blast
  moreover have "table_of s1 = outbox_run cfg [Claim (nat limit) (fst (clock s))] (table_of s)"
    using 1 by (auto simp: claim_def clock_def split: prod.splits)
  ultimately have "table_of (snd (deliver_pending cfg opener c limit s)) =
      outbox_run cfg (Claim (nat limit) (fst (clock s)) # ops) (table_of s)"
    using False 1 by (simp add: deliver_pending_def)
  then show ?thesis by blast
qed

lemma retry_run: "table_of (snd (retry_dead_letter d s)) = outbox_run cfg [Retry d (fst (clock s))] (table_of s)"
  by (simp add: retry_dead_letter_def clock_def split: prod.split)

text \<open>The calls, each of them with the state it runs on.\<close>

datatype 'net outbox_call =
    CallEnqueue GovernedMaintenanceRecord GovernedMaintenanceEvent
  | CallDeliver "'net opener" delivery_config int
  | CallRetry string

fun run_call :: "outbox_config \<Rightarrow> 'net outbox_call \<Rightarrow> 'net outbox \<Rightarrow> 'net outbox" where
  "run_call cfg (CallEnqueue r e) s = snd (enqueue r e s)"
| "run_call cfg (CallDeliver opener c limit) s = snd (deliver_pending cfg opener c limit s)"
| "run_call cfg (CallRetry d) s = snd (retry_dead_letter d s)"

lemma call_run: "\<exists>ops. table_of (run_call cfg call s) = outbox_run cfg ops (table_of s)"
proof (cases call)
  case (CallRetry d)
  then show ?thesis using retry_run [of d s cfg] by (metis run_call.simps(3))
qed (simp_all add: enqueue_run deliver_pending_run)

text \<open>Processes that overlap. A call under way is what it has still to do; between two transactions it holds no lock, so the steps of other processes
  may come in between. A sender that has claimed rows keeps them as it read them, and each further step is one delivery with the transaction that
  reports it; a delivery does not look at the table, so the transaction is where it takes effect. Every process has its own position of the clock and its own network; the table is shared.\<close>

datatype 'net task =
    Waiting "'net outbox_call"
  | Sending "'net opener" delivery_config table
  | Finished

fun task_step :: "outbox_config \<Rightarrow> 'net task \<Rightarrow> 'net outbox \<Rightarrow> 'net task \<times> 'net outbox" where
  "task_step cfg (Waiting (CallEnqueue r e)) s = (Finished, snd (enqueue r e s))"
| "task_step cfg (Waiting (CallRetry d)) s = (Finished, snd (retry_dead_letter d s))"
| "task_step cfg (Waiting (CallDeliver opener c limit)) s =
     (if limit < 1 \<or> delivery_guards c \<noteq> None then (Finished, s)
      else (case claim cfg (nat limit) s of (claimed, s1) \<Rightarrow> (Sending opener c claimed, s1)))"
| "task_step cfg (Sending opener c []) s = (Finished, s)"
| "task_step cfg (Sending opener c (row # rows)) s =
     (case deliver_row cfg opener c row s of
        (Inl x, s1) \<Rightarrow> (Finished, s1)
      | (Inr res, s1) \<Rightarrow> (Sending opener c rows, s1))"
| "task_step cfg Finished s = (Finished, s)"

text \<open>Processes by number, each with its task and its private state, and a schedule: the number of the process that takes the next step. A process
  that is never scheduled again has died.\<close>

type_synonym 'net processes = "nat \<Rightarrow> 'net task \<times> (nat \<Rightarrow> rat) \<times> nat \<times> 'net"

definition process_step :: "outbox_config \<Rightarrow> nat \<Rightarrow> 'net processes \<times> table \<Rightarrow> 'net processes \<times> table" where
  "process_step cfg i sys =
     (case sys of (procs, rows) \<Rightarrow>
      case procs i of (task, reads, n, net) \<Rightarrow>
      case task_step cfg task \<lparr>table_of = rows, readings = reads, reading_n = n, network = net\<rparr> of (task', s) \<Rightarrow>
        (procs(i := (task', readings s, reading_n s, network s)), table_of s))"

definition overlapping :: "outbox_config \<Rightarrow> nat list \<Rightarrow> 'net processes \<times> table \<Rightarrow> 'net processes \<times> table" where
  "overlapping cfg schedule sys = fold (process_step cfg) schedule sys"

lemma task_run: "\<exists>ops. table_of (snd (task_step cfg task s)) = outbox_run cfg ops (table_of s)"
proof (cases "(cfg, task, s)" rule: task_step.cases)
  case (1 cfg' r e s')
  then show ?thesis using enqueue_run[of r e s cfg] by simp
next
  case (2 cfg' d s')
  then show ?thesis using retry_run[of d s cfg] by (metis prod.inject snd_conv task_step.simps(2))
next
  case (3 cfg' opener c limit s')
  have "table_of (snd (task_step cfg task s)) = outbox_run cfg [] (table_of s)
      \<or> table_of (snd (task_step cfg task s)) = outbox_run cfg [Claim (nat limit) (fst (clock s))] (table_of s)"
    using 3 by (auto simp: claim_def clock_def split: prod.splits)
  then show ?thesis by blast
next
  case (5 cfg' opener c row rows s')
  have "table_of (snd (task_step cfg task s)) = table_of (snd (deliver_row cfg opener c row s))"
    using 5 by (auto split: prod.split sum.split)
  then show ?thesis using deliver_row_run[of cfg opener c row s] by simp
qed (use outbox_run_simps(1)[of cfg "table_of s"] in \<open>auto intro: exI[of _ "[]"]\<close>)

lemma overlapping_run: "\<exists>ops. snd (overlapping cfg schedule (procs, rows)) = outbox_run cfg ops rows"
proof (induction schedule arbitrary: procs rows)
  case Nil
  have "snd (overlapping cfg [] (procs, rows)) = outbox_run cfg [] rows" by (simp add: overlapping_def)
  then show ?case by blast
next
  case (Cons i schedule)
  obtain task reads n net where i: "procs i = (task, reads, n, net)" by (cases "procs i") auto
  let ?s = "\<lparr>table_of = rows, readings = reads, reading_n = n, network = net\<rparr>"
  obtain ops1 where 1: "table_of (snd (task_step cfg task ?s)) = outbox_run cfg ops1 rows" using task_run[of cfg task ?s] by auto
  obtain procs' where first: "process_step cfg i (procs, rows) = (procs', table_of (snd (task_step cfg task ?s)))"
    by (simp add: process_step_def i split_beta)
  obtain ops2 where "snd (overlapping cfg schedule (procs', outbox_run cfg ops1 rows)) = outbox_run cfg ops2 (outbox_run cfg ops1 rows)"
    using Cons.IH by blast
  then have "snd (overlapping cfg (i # schedule) (procs, rows)) = outbox_run cfg (ops1 @ ops2) rows"
    by (simp add: overlapping_def first 1)
  then show ?case by blast
qed

text \<open>A call that nobody interrupts is the operation as it was defined.\<close>

abbreviation alone :: "outbox_config \<Rightarrow> 'net task \<times> 'net outbox \<Rightarrow> 'net task \<times> 'net outbox" where
  "alone cfg \<equiv> \<lambda>(task, s). task_step cfg task s"

lemma sending_alone: "\<exists>n. (alone cfg ^^ n) (Sending opener c rows, s) = (Finished, snd (deliver_rows cfg opener c rows s))"
proof (induction rows arbitrary: s)
  case Nil
  have "(alone cfg ^^ 1) (Sending opener c [], s) = (Finished, snd (deliver_rows cfg opener c [] s))" by simp
  then show ?case by blast
next
  case (Cons row rows)
  obtain res s1 where r: "deliver_row cfg opener c row s = (res, s1)" by fastforce
  show ?case
  proof (cases res)
    case (Inl x)
    have "(alone cfg ^^ 1) (Sending opener c (row # rows), s) = (Finished, snd (deliver_rows cfg opener c (row # rows) s))"
      using r Inl by simp
    then show ?thesis by blast
  next
    case (Inr y)
    obtain n where "(alone cfg ^^ n) (Sending opener c rows, s1) = (Finished, snd (deliver_rows cfg opener c rows s1))" using Cons.IH by blast
    then have "(alone cfg ^^ Suc n) (Sending opener c (row # rows), s) = (Finished, snd (deliver_rows cfg opener c (row # rows) s))"
      using r Inr by (simp add: funpow_Suc_right del: funpow.simps split: prod.split sum.split)
    then show ?thesis by blast
  qed
qed

lemma call_alone: "\<exists>n. (alone cfg ^^ n) (Waiting call, s) = (Finished, run_call cfg call s)"
proof (cases call)
  case (CallDeliver opener c limit)
  show ?thesis
  proof (cases "limit < 1 \<or> delivery_guards c \<noteq> None")
    case True
    then have "(alone cfg ^^ 1) (Waiting call, s) = (Finished, run_call cfg call s)"
      using CallDeliver by (auto simp: deliver_pending_def)
    then show ?thesis by blast
  next
    case False
    obtain claimed s1 where 1: "claim cfg (nat limit) s = (claimed, s1)" by fastforce
    obtain n where "(alone cfg ^^ n) (Sending opener c claimed, s1) = (Finished, snd (deliver_rows cfg opener c claimed s1))"
      using sending_alone by blast
    then have "(alone cfg ^^ Suc n) (Waiting call, s) = (Finished, run_call cfg call s)"
      using CallDeliver False 1 by (simp add: funpow_Suc_right deliver_pending_def del: funpow.simps)
    then show ?thesis by blast
  qed
next
  case (CallEnqueue r e)
  then have "(alone cfg ^^ 1) (Waiting call, s) = (Finished, run_call cfg call s)" by simp
  then show ?thesis by blast
next
  case (CallRetry d)
  then have "(alone cfg ^^ 1) (Waiting call, s) = (Finished, run_call cfg call s)" by simp
  then show ?thesis by blast
qed

text \<open>C36. Refinement: calls to the outbox operations by any number of processes, overlapping in any way, with their own clocks and networks and with
  processes that die on the way, change the table only through the atomic transactions; hence they keep one row per digest, the
  invariant of every row, and every delivered row. A call that is not interrupted is the operation.\<close>

theorem operations_refine_transactions:
  "(\<exists>ops. snd (overlapping cfg schedule (procs, rows)) = outbox_run cfg ops rows) \<and>
   (distinct (digests rows) \<and> list_all (row_ok cfg) rows \<longrightarrow>
      distinct (digests (snd (overlapping cfg schedule (procs, rows)))) \<and>
      list_all (row_ok cfg) (snd (overlapping cfg schedule (procs, rows))) \<and>
      (\<forall>r \<in> set rows. row_status r = Delivered \<longrightarrow> r \<in> set (snd (overlapping cfg schedule (procs, rows))))) \<and>
   (\<exists>n. (alone cfg ^^ n) (Waiting call, s) = (Finished, run_call cfg call s))"
proof -
  obtain ops where ops: "snd (overlapping cfg schedule (procs, rows)) = outbox_run cfg ops rows" using overlapping_run by blast
  have "distinct (digests (outbox_run cfg ops rows)) \<and> list_all (row_ok cfg) (outbox_run cfg ops rows) \<and>
      (\<forall>r \<in> set rows. row_status r = Delivered \<longrightarrow> r \<in> set (outbox_run cfg ops rows))"
    if "distinct (digests rows)" "list_all (row_ok cfg) rows"
  proof (intro conjI ballI impI)
    show "r \<in> set (outbox_run cfg ops rows)" if "r \<in> set rows" "row_status r = Delivered" for r
      using final.run_row [OF \<open>distinct (digests rows)\<close> that(1), of cfg ops] that(2) by auto
  qed (use that run_rows_ok [OF that(1), of cfg] in \<open>simp_all add: distinct_run list_all_iff\<close>)
  then show ?thesis using ops call_alone[of cfg call s] by auto
qed

text \<open>Two senders: the second claims while the first is still sending.\<close>

definition two_senders :: "string processes" where
  "two_senders = (\<lambda>i. if i = 0 then (Waiting (CallEnqueue sample_record sample_event), of_nat, 0, ''0'')
     else (Waiting (CallDeliver accepting sample_delivery 20), of_nat, 5, str_of_nat i))"

theorem operations_refine_transactions_witness:
  "distinct (digests (snd (overlapping default_outbox_config [0, 1, 2, 1, 2] (two_senders, []))))"
proof -
  have "distinct (digests []) \<and> list_all (row_ok default_outbox_config) []" by simp
  then show ?thesis using operations_refine_transactions [of default_outbox_config "[0, 1, 2, 1, 2]" two_senders "[]"] by blast
qed

section \<open>Backoff\<close>

lemma new_outbox_Inr:
  assumes "new_outbox path k b m l = Inr cfg"
  obtains x y z where "b = Fin x" "m = Fin y" "l = Fin z" "0 < x" "x \<le> y" "0 < z" "1 \<le> k"
    "cfg = \<lparr>max_attempts = nat k, base_backoff_seconds = b, max_backoff_seconds = m, lease_seconds = l\<rparr>"
  using assms
  by (auto simp: new_outbox_def guarded_Inr bad_seconds_def f_isfinite_def not_le not_less split: pyfloat.splits)

lemma f_min_bounds: "a \<noteq> NaN \<Longrightarrow> f_le (f_min a (Fin y)) (Fin y)"
  by (cases a) (auto simp: f_min_def)

lemma f_min_mono: "f_le a a' \<Longrightarrow> f_le (f_min a (Fin y)) (f_min a' (Fin y))"
  by (cases a; cases a') (auto simp: f_min_def)

lemma f_min_ge: "f_le (Fin x) a \<Longrightarrow> x \<le> y \<Longrightarrow> f_le (Fin x) (f_min a (Fin y))"
  by (cases a) (auto simp: f_min_def)

text \<open>Backoff: in a validly configured outbox the delay after the n-th attempt is between the
  base and the maximum and never decreases with the number of attempts, up to attempt 1024; from
  attempt 1025 on the computation itself overflows.\<close>

theorem backoff_in_range:
  assumes "new_outbox path k b m l = Inr cfg" "is_double b" "n \<le> n'" "n' \<le> 1024"
  shows "\<exists>d d'. backoff cfg n = Inr d \<and> backoff cfg n' = Inr d' \<and> f_le b d \<and> f_le d d' \<and> f_le d' m \<and>
    (\<exists>msg. backoff cfg (1025 + n) = Inl (Py (OverflowError msg)))"
proof -
  obtain x y z where c: "b = Fin x" "m = Fin y" "0 < x" "x \<le> y"
      "cfg = \<lparr>max_attempts = nat k, base_backoff_seconds = b, max_backoff_seconds = m, lease_seconds = l\<rparr>"
    using assms(1) by (rule new_outbox_Inr)
  have v: "backoff cfg j = Inr (f_min (fl (x * 2 ^ (j - 1))) (Fin y))" if "j \<le> 1024" for j
    using that by (simp add: backoff_def c)
  have b: "fl x = Fin x" using assms(2) by (simp add: is_double_def c(1))
  have "x * 1 \<le> x * 2 ^ (n - 1)" using c(3) by (intro mult_left_mono) simp_all
  then have 1: "f_le (Fin x) (fl (x * 2 ^ (n - 1)))" using fl_mono [of x "x * 2 ^ (n - 1)"] b by simp
  have "x * 2 ^ (n - 1) \<le> x * 2 ^ (n' - 1)"
    using c(3) assms(3) by (intro mult_left_mono power_increasing) simp_all
  then have 2: "f_le (fl (x * 2 ^ (n - 1))) (fl (x * 2 ^ (n' - 1)))" by (rule fl_mono)
  show ?thesis
    using v [of n] v [of n'] assms(3,4) 1 2 c(1,2,4) f_min_ge f_min_mono f_min_bounds
    by (auto simp: backoff_def)
qed

theorem backoff_in_range_witness:
  "new_outbox ''outbox.db'' 8 (Fin 2) (Fin 300) (Fin 30) = Inr default_outbox_config \<and>
   (\<exists>d. backoff default_outbox_config 5 = Inr d \<and> f_le (Fin 2) d \<and> f_le d (Fin 300))"
proof -
  have n: "new_outbox ''outbox.db'' 8 (Fin 2) (Fin 300) (Fin 30) = Inr default_outbox_config"
    and d: "is_double (Fin 2)"
    by code_simp+
  show ?thesis using backoff_in_range [OF n d, of 5 5] n by auto
qed

section \<open>Recorded events are delivered\<close>

lemma deliver_row_Inr:
  assumes "attempts row < 1024"
  shows "\<exists>res s1. deliver_row cfg opener c row s = (Inr res, s1)"
  using assms
  by (auto simp: deliver_row_def mark_failure_def mark_delivered_def backoff_def clock_def Let_def
      split: prod.split sum.split)

lemma deliver_rows_Inr:
  "\<forall>r \<in> set rows. attempts r < 1024 \<Longrightarrow> \<exists>ress s2. deliver_rows cfg opener c rows s = (Inr ress, s2)"
proof (induction rows arbitrary: s)
  case (Cons a rows)
  obtain res s1 where "deliver_row cfg opener c a s = (Inr res, s1)"
    using deliver_row_Inr [of a cfg opener c s] Cons.prems by auto
  moreover obtain ress s2 where "deliver_rows cfg opener c rows s1 = (Inr ress, s2)"
    using Cons.IH [of s1] Cons.prems by auto
  ultimately show ?case by simp
qed simp

lemma find_row_mark_other: "d' \<noteq> d \<Longrightarrow> (\<And>r. event_digest (f r) = event_digest r) \<Longrightarrow> find_row d (tx_mark d' f rows) = find_row d rows"
  by (induction rows) (auto simp: tx_mark_def update_rows_def find_row_def)

lemma deliver_row_other:
  "event_digest row \<noteq> d \<Longrightarrow> find_row d (table_of (snd (deliver_row cfg opener c row s))) = find_row d (table_of s)"
  by (auto simp: deliver_row_def mark_failure_def mark_delivered_def clock_def Let_def find_row_mark_other
      split: prod.split sum.split)

lemma find_row_mark_same:
  assumes "find_row d rows = Some y" "row_status y = Delivering" "\<And>r. event_digest (f r) = event_digest r"
  shows "find_row d (tx_mark d f rows) = Some (f y)"
proof -
  let ?g = "\<lambda>r. if event_digest r = d \<and> row_status r = Delivering then f r else r"
  have "find_row d (map ?g rows) = map_option ?g (find_row d rows)"
    by (rule find_row_map) (simp add: assms(3))
  then show ?thesis using assms(1,2) find_row_Some [OF assms(1)] by (simp add: tx_mark_def update_rows_def)
qed

lemma deliver_rows_keeps_delivered:
  assumes "distinct (digests (table_of s))" "find_row d (table_of s) = Some r" "row_status r = Delivered"
  shows "find_row d (table_of (snd (deliver_rows cfg opener c rows s))) = Some r"
proof -
  obtain ops where ops: "table_of (snd (deliver_rows cfg opener c rows s)) = outbox_run cfg ops (table_of s)"
    using deliver_rows_run by blast
  have r: "r \<in> set (table_of s)" "event_digest r = d" using find_row_Some [OF assms(2)] by auto
  have "r \<in> set (outbox_run cfg ops (table_of s))"
    using final.run_row [OF assms(1) r(1), of cfg ops] assms(3) by auto
  then show ?thesis
    using find_row_in [OF distinct_run [OF assms(1)]] r(2) ops by metis
qed

lemma deliver_rows_delivers:
  assumes "\<And>net. \<exists>i net'. attempt_delivery opener c (payload_json x) net = (Inr i, net')"
    and "x \<in> set rows" "distinct (digests rows)" "\<forall>r \<in> set rows. attempts r < 1024"
    and "distinct (digests (table_of s))" "find_row (event_digest x) (table_of s) = Some y" "row_status y = Delivering"
  shows "\<exists>ress s2 i now. deliver_rows cfg opener c rows s = (Inr ress, s2) \<and>
    find_row (event_digest x) (table_of s2) = Some (delivered_row i now y) \<and>
    (\<exists>res \<in> set ress. res_event_digest res = event_digest x \<and> res_status res = Delivered \<and> res_observatory_event_id res = Some i)"
  using assms(2-)
proof (induction rows arbitrary: s)
  case (Cons row rows)
  obtain res s1 where r: "deliver_row cfg opener c row s = (Inr res, s1)"
    using deliver_row_Inr [of row cfg opener c s] Cons.prems(3) by auto
  have d1: "distinct (digests (table_of s1))"
    using deliver_row_run [of cfg opener c row s] r distinct_run [OF Cons.prems(4)] by auto
  obtain ress s2 where rest: "deliver_rows cfg opener c rows s1 = (Inr ress, s2)"
    using deliver_rows_Inr [of rows cfg opener c s1] Cons.prems(3) by auto
  show ?case
  proof (cases "row = x")
    case True
    obtain i net where a: "attempt_delivery opener c (payload_json x) (network s) = (Inr i, net)"
      using assms(1) by blast
    obtain now where s1: "table_of s1 = tx_mark (event_digest x) (delivered_row i now) (table_of s)"
      and res: "res_event_digest res = event_digest x" "res_status res = Delivered" "res_observatory_event_id res = Some i"
      using r True a by (auto simp: deliver_row_def mark_delivered_def clock_def)
    have f: "find_row (event_digest x) (table_of s1) = Some (delivered_row i now y)"
      using Cons.prems(5,6) by (simp add: s1 find_row_mark_same)
    have "find_row (event_digest x) (table_of (snd (deliver_rows cfg opener c rows s1))) = Some (delivered_row i now y)"
      by (rule deliver_rows_keeps_delivered [OF d1 f]) (simp add: delivered_row_def)
    then have f2: "find_row (event_digest x) (table_of s2) = Some (delivered_row i now y)" by (simp add: rest)
    have "deliver_rows cfg opener c (row # rows) s = (Inr (res # ress), s2)" by (simp add: r rest)
    then show ?thesis using f2 res by (metis list.set_intros(1))
  next
    case False
    then have x: "x \<in> set rows" "event_digest row \<noteq> event_digest x" using Cons.prems(1,2) by auto
    have f: "find_row (event_digest x) (table_of s1) = Some y"
      using deliver_row_other [OF x(2), of cfg opener c s] r Cons.prems(5) by simp
    have p: "distinct (digests rows)" "\<forall>r \<in> set rows. attempts r < 1024" using Cons.prems(2,3) by simp_all
    from Cons.IH [OF x(1) p d1 f Cons.prems(6)] obtain ress s2 i now where "deliver_rows cfg opener c rows s1 = (Inr ress, s2)"
      "find_row (event_digest x) (table_of s2) = Some (delivered_row i now y)"
      "\<exists>res \<in> set ress. res_event_digest res = event_digest x \<and> res_status res = Delivered \<and> res_observatory_event_id res = Some i"
      by blast
    then show ?thesis using r by auto
  qed
qed simp

lemma enqueue_new:
  assumes "serialize r e = Inr (ev_digest e, pj)" "enqueue r e s = (Inr d, s1)" "d \<notin> set (digests (table_of s))"
  shows "d = ev_digest e" and "table_of s1 = table_of s @ [fresh_row d pj (readings s (reading_n s))]"
    and "readings s1 = readings s" and "reading_n s1 = Suc (reading_n s)"
proof -
  show d: "d = ev_digest e"
    using assms(1,2) by (auto simp: enqueue_def clock_def tx_enqueue_def split: option.splits if_splits)
  have "find_row (ev_digest e) (table_of s) = None" using assms(3) d by (simp add: find_row_None)
  then show "table_of s1 = table_of s @ [fresh_row d pj (readings s (reading_n s))]"
    "readings s1 = readings s" "reading_n s1 = Suc (reading_n s)"
    using assms(1,2) d by (auto simp: enqueue_def clock_def tx_enqueue_def)
qed

text \<open>A due row is claimed when the batch has room for the whole table.\<close>

lemma due_row_claimed:
  assumes "distinct (digests (table_of s))" "x \<in> set (table_of s)" "row_status x = Pending" "is_due cfg now x"
    and "length (table_of s) \<le> limit" "now = readings s (reading_n s)" "max_attempts cfg \<le> 1024"
  obtains sel s2 where "claim cfg limit s = (sel, s2)" "x \<in> set sel" "distinct (digests sel)"
    "\<forall>y \<in> set sel. attempts y < 1024" "distinct (digests (table_of s2))"
    "find_row (event_digest x) (table_of s2) = Some (claimed_row cfg now x)"
proof -
  let ?rows = "expire_leases cfg now (table_of s)" and ?t = "tx_claim cfg now limit (table_of s)"
  let ?sel = "select_due cfg now limit ?rows"
  obtain s2 where cl: "claim cfg limit s = (?sel, s2)" and t2: "table_of s2 = snd ?t"
    using assms(1,6) by (auto simp: claim_def clock_def tx_claim_rows Let_def)
  have "length (filter (is_due cfg now) ?rows) \<le> limit"
    using assms(5) length_filter_le [of "is_due cfg now" ?rows] by (simp add: expire_leases_map del: length_filter_map)
  moreover have "expire_one cfg now x = x" using assms(3) by (simp add: expire_one_def)
  then have "x \<in> set ?rows" using assms(2) imageI [of x "set (table_of s)" "expire_one cfg now"] by (simp add: expire_leases_map)
  ultimately have x: "x \<in> set ?sel" using assms(4) by (simp add: select_due_def)
  have "attempts y < 1024" if "y \<in> set ?sel" for y
    using select_due_in [OF that] assms(7) by (simp add: is_due_def)
  then have att: "\<forall>y \<in> set ?sel. attempts y < 1024" by blast
  have d2: "distinct (digests (table_of s2))"
    using distinct_apply [OF assms(1), of cfg "Claim limit now"] by (simp add: t2)
  have "claimed_row cfg now x \<in> set (table_of s2)"
    unfolding t2 using x assms(1) by (intro claimed_leased) (simp_all add: tx_claim_rows Let_def)
  then have "find_row (event_digest x) (table_of s2) = Some (claimed_row cfg now x)"
    using find_row_in [OF d2] by fastforce
  moreover have "distinct (digests ?sel)"
    using assms(1) by (intro distinct_select_due) (simp only: digests_expire)
  ultimately show thesis using that cl x att d2 by blast
qed

text \<open>C12. Liveness of delivery: a recorded event that was enqueued for the first time is delivered by
  the next sender whose batch has room for the whole table and whose service accepts every request,
  however many other events, malformed or failing ones included, share the table; the row holds the
  Observatory's event id and the sender reports it.\<close>

theorem recorded_event_gets_delivered:
  assumes rec: "record_verified_maintenance ob ad oid auth rep w = Inr (r, e)"
    and enq: "enqueue r e s = (Inr d, s1)" "d \<notin> set (digests (table_of s))" "distinct (digests (table_of s))"
    and limits: "0 < max_attempts cfg" "max_attempts cfg \<le> 1024" "int (length (table_of s1)) \<le> limit"
    and clock: "readings s (reading_n s) \<le> readings s (Suc (reading_n s))"
    and service: "delivery_guards c = None" "\<And>net rq t. \<exists>i. acknowledged_id (fst (opener net rq t)) = Inr i"
  shows "\<exists>ress s2 i row. deliver_pending cfg opener c limit s1 = (Inr ress, s2) \<and>
    find_row d (table_of s2) = Some row \<and> row_status row = Delivered \<and> observatory_event_id row = Some i \<and>
    payload_json row = stored_payload r e \<and>
    (\<exists>res \<in> set ress. res_event_digest res = d \<and> res_status res = Delivered \<and> res_observatory_event_id res = Some i)"
proof -
  let ?start = "readings s (reading_n s)" and ?now = "readings s (Suc (reading_n s))"
  let ?x = "fresh_row d (stored_payload r e) ?start"
  have ser: "serialize r e = Inr (ev_digest e, stored_payload r e)"
    using recorded_event_guards [OF rec] by (auto simp: serialize_Inr event_guards_None)
  note s1 = enqueue_new [OF ser enq(1,2)]
  have dist: "distinct (digests (table_of s1))" using enq(2,3) by (simp add: s1(2))
  have due: "is_due cfg ?now ?x" using limits(1) clock by (simp add: is_due_def)
  have room: "length (table_of s1) \<le> nat limit" "1 \<le> limit" using limits(3) by (simp_all add: s1(2))
  obtain sel s2 where cl: "claim cfg (nat limit) s1 = (sel, s2)" "?x \<in> set sel" "distinct (digests sel)"
      "\<forall>y \<in> set sel. attempts y < 1024" "distinct (digests (table_of s2))"
      "find_row (event_digest ?x) (table_of s2) = Some (claimed_row cfg ?now ?x)"
    by (rule due_row_claimed [OF dist _ _ due room(1) _ limits(2)]) (simp_all add: s1)
  have acc: "\<exists>i net'. attempt_delivery opener c (payload_json ?x) net = (Inr i, net')" for net
    using service(2) [of net "delivery_request c r e" "timeout c"] service(1) recorded_event_guards [OF rec]
    by (auto simp: attempt_delivery_def decode_stored deliver_maintenance_event_def split: prod.split)
  have "row_status (claimed_row cfg ?now ?x) = Delivering" by (simp add: claimed_row_def)
  from deliver_rows_delivers [of opener c ?x _ _ _ cfg, OF acc cl(2-6) this, unfolded fresh_row_simps(1)]
  obtain ress s3 i now where out: "deliver_rows cfg opener c sel s2 = (Inr ress, s3)"
    "find_row d (table_of s3) = Some (delivered_row i now (claimed_row cfg ?now ?x))"
    "\<exists>res \<in> set ress. res_event_digest res = d \<and> res_status res = Delivered \<and> res_observatory_event_id res = Some i"
    by blast
  have "deliver_pending cfg opener c limit s1 = (Inr ress, s3)"
    using service(1) cl(1) out(1) room(2) by (simp add: deliver_pending_def)
  then show ?thesis using out(2,3) by (auto simp: delivered_row_def claimed_row_def)
qed

text \<open>An empty outbox of a sender whose clock ticks once a second.\<close>

definition sample_outbox :: "string outbox" where
  "sample_outbox = \<lparr>table_of = [], readings = of_nat, reading_n = 0, network = ''1''\<rparr>"

lemma accepting_any: "\<exists>i. acknowledged_id (fst (accepting net rq t)) = Inr i"
proof -
  have "\<not> is_space (CHR ''e'')" by code_simp
  then have "strip (CHR ''e'' # net) \<noteq> []"
    by (simp add: strip_def)
  then show ?thesis by (simp add: accepting_def acknowledged_id_def get_or_def dict_get_def)
qed

theorem recorded_event_gets_delivered_witness:
  "\<exists>ress s2 row. deliver_pending default_outbox_config accepting sample_delivery 20
      (snd (enqueue sample_record sample_event sample_outbox)) = (Inr ress, s2) \<and>
    find_row (ev_digest sample_event) (table_of s2) = Some row \<and> row_status row = Delivered"
proof -
  let ?s1 = "snd (enqueue sample_record sample_event sample_outbox)"
  have enq: "enqueue sample_record sample_event sample_outbox = (Inr (ev_digest sample_event), ?s1)"
    and len: "length (table_of ?s1) = 1"
    using sample_serialized by (simp_all add: enqueue_def clock_def tx_enqueue_def find_row_def sample_outbox_def)
  show ?thesis
    using recorded_event_gets_delivered [OF sample_recorded enq, of default_outbox_config 20 sample_delivery accepting]
      sample_delivery_ok accepting_any len
    by (auto simp: sample_outbox_def default_outbox_config_def)
qed

section \<open>Enqueueing twice\<close>

text \<open>Enqueueing is idempotent by digest: a second enqueue of the same pair, after any
  transactions, returns the digest and leaves the table alone, and an event that claims the digest
  of a different payload is refused as a collision without touching the table.\<close>

theorem enqueue_idempotent:
  assumes "serialize r e = Inr (d, pj)" "enqueue r e s = (Inr d, s1)" "distinct (digests (table_of s))"
    and "table_of s2 = outbox_run cfg ops (table_of s1)" "serialize r' e' = Inr (d, pj')"
  shows "fst (enqueue r' e' s2) =
      (if pj' = pj then Inr d else Inl (MaintenanceOutboxError ''outbox-event-digest-collision'')) \<and>
    table_of (snd (enqueue r' e' s2)) = table_of s2"
proof -
  have d1: "distinct (digests (table_of s1))"
    using enqueue_run [of r e s cfg] assms(2) distinct_run [OF assms(3)] by auto
  have "\<exists>row \<in> set (table_of s1). event_digest row = d \<and> payload_json row = pj"
    using assms(1,2)
    by (auto simp: enqueue_def clock_def tx_enqueue_def dest!: find_row_Some split: option.splits if_splits)
  then obtain row where row: "row \<in> set (table_of s1)" "event_digest row = d" "payload_json row = pj" by blast
  then obtain row' where "row' \<in> set (table_of s2)" "event_digest row' = d" "payload_json row' = pj"
    using keeps.run_row [OF d1 row(1), of cfg ops] assms(4) by (auto simp: same_event_def)
  then have "find_row d (table_of s2) = Some row'" "payload_json row' = pj"
    using find_row_in [of "table_of s2" row'] distinct_run [OF d1] assms(4) by auto
  then show ?thesis
    using assms(5) by (auto simp: enqueue_def clock_def tx_enqueue_def)
qed

theorem enqueue_idempotent_witness:
  "fst (enqueue sample_record sample_event (snd (enqueue sample_record sample_event sample_outbox))) = Inr (ev_digest sample_event)"
proof -
  let ?s1 = "snd (enqueue sample_record sample_event sample_outbox)"
  have enq: "enqueue sample_record sample_event sample_outbox = (Inr (ev_digest sample_event), ?s1)"
    using sample_serialized by (simp add: enqueue_def clock_def tx_enqueue_def find_row_def sample_outbox_def)
  have "distinct (digests (table_of sample_outbox))" by (simp add: sample_outbox_def)
  from enqueue_idempotent [OF sample_serialized enq this, of ?s1 default_outbox_config "[]", OF _ sample_serialized]
  show ?thesis by simp
qed

section \<open>Summary\<close>

text \<open>The summary has one count per status and the counts add up to the number of stored
  events.\<close>

theorem summary_counts_all:
  "map fst (summary s) = [Pending, Delivering, Delivered, DeadLetter] \<and>
   sum_list (map snd (summary s)) = length (table_of s) \<and>
   (\<forall>st. map_of (summary s) st = Some (length (filter (\<lambda>r. row_status r = st) (table_of s))))"
proof (intro conjI allI)
  show "map fst (summary s) = [Pending, Delivering, Delivered, DeadLetter]"
    by (simp add: summary_def outbox_statuses_def)
  have "sum_list (map (\<lambda>st. length (filter (\<lambda>r. row_status r = st) rows)) [Pending, Delivering, Delivered, DeadLetter])
      = length rows" for rows
  proof (induction rows)
    case (Cons r rows)
    then show ?case by (cases "row_status r") simp_all
  qed simp
  then show "sum_list (map snd (summary s)) = length (table_of s)"
    by (simp add: summary_def outbox_statuses_def comp_def)
  show "map_of (summary s) st = Some (length (filter (\<lambda>r. row_status r = st) (table_of s)))" for st
    by (cases st) (simp_all add: summary_def outbox_statuses_def)
qed

section \<open>Late failure reports\<close>

text \<open>Eight claims of one event, each after the previous lease ran out, as slow senders of a long
  batch cause them; then the seventh sender reports its failure.\<close>

definition late_failure_run :: "string \<Rightarrow> string \<Rightarrow> outbox_op list" where
  "late_failure_run d pj = Enqueue d pj 0 # map (\<lambda>k. Claim 20 (of_nat (31 * k))) [0..<8] @
     [failure_op default_outbox_config d 7 (ObservatoryDeliveryError ''observatory-event-delivery-failed'') (Fin 128) 230]"

lemma claim_single:
  assumes "is_due cfg now r" "0 < limit"
  shows "outbox_apply cfg (Claim limit now) [r] = [claimed_row cfg now r]"
proof -
  have "expire_one cfg now r = r" using assms(1) by (auto simp: expire_one_def is_due_def)
  then show ?thesis
    using assms by (simp add: tx_claim_rows Let_def claim_step_def select_due_def expire_leases_map)
qed

lemma claim_chain:
  assumes "n \<le> 8"
  shows "\<exists>row. outbox_run default_outbox_config (map (\<lambda>k. Claim 20 (of_nat (31 * k))) [0..<n]) [fresh_row d pj 0] = [row] \<and>
    attempts row = n \<and> event_digest row = d \<and> payload_json row = pj \<and>
    (if n = 0 then row = fresh_row d pj 0
     else row_status row = Delivering \<and> lease_until row = Some (Fin (of_nat (31 * n - 1))))"
  using assms
proof (induction n)
  case (Suc n)
  let ?now = "of_nat (31 * n) :: rat"
  obtain row where row: "outbox_run default_outbox_config (map (\<lambda>k. Claim 20 (of_nat (31 * k))) [0..<n]) [fresh_row d pj 0] = [row]"
      "attempts row = n" "event_digest row = d" "payload_json row = pj"
      "if n = 0 then row = fresh_row d pj 0
       else row_status row = Delivering \<and> lease_until row = Some (Fin (of_nat (31 * n - 1)))"
    using Suc by auto
  have "is_due default_outbox_config ?now row"
    using row(2,5) Suc.prems
    by (cases "n = 0") (auto simp: is_due_def default_outbox_config_def lease_over_def simp flip: of_nat_mult)
  then have step: "outbox_apply default_outbox_config (Claim 20 ?now) [row] = [claimed_row default_outbox_config ?now row]"
    by (rule claim_single) simp
  have "fl (of_int (int (31 * n + 30))) = Fin (of_int (int (31 * n + 30)))"
    using Suc.prems by (intro fl_int) simp
  then have "f_add (Fin ?now) (lease_seconds default_outbox_config) = Fin (of_nat (31 * Suc n - 1))"
    by (simp add: default_outbox_config_def algebra_simps)
  then show ?case
    using row step by (simp add: claimed_row_def del: outbox_apply.simps)
qed simp

lemma late_failure_result:
  "\<exists>row. outbox_run default_outbox_config (late_failure_run d pj) [] = [row] \<and>
     row_status row = Pending \<and> attempts row = 8 \<and> event_digest row = d \<and> payload_json row = pj"
proof -
  obtain row where row: "outbox_run default_outbox_config (map (\<lambda>k. Claim 20 (of_nat (31 * k))) [0..<8]) [fresh_row d pj 0] = [row]"
      "attempts row = 8" "event_digest row = d" "payload_json row = pj" "row_status row = Delivering"
    using claim_chain [of 8 d pj] by auto
  have "outbox_apply default_outbox_config (Enqueue d pj 0) [] = [fresh_row d pj 0]"
    by (simp add: tx_enqueue_def find_row_def)
  then show ?thesis
    using row by (simp add: late_failure_run_def failure_op_def tx_mark_def update_rows_def failed_row_def
        default_outbox_config_def)
qed

text \<open>A late failure report strands an event: with the default configuration there is an
  interleaving in which the sender of the seventh attempt reports its failure after the eighth claim;
  the event is then pending with its attempts used up, and no transaction of anybody ever changes it
  again: it is neither delivered nor dead-lettered nor can an operator requeue it.\<close>

theorem late_failure_strands_event:
  "\<exists>row. outbox_run default_outbox_config (late_failure_run d pj) [] = [row] \<and>
     row_status row = Pending \<and> attempts row = max_attempts default_outbox_config \<and>
     (\<forall>ops. row \<in> set (outbox_run default_outbox_config ops [row]))"
proof -
  obtain row where row: "outbox_run default_outbox_config (late_failure_run d pj) [] = [row]"
      "row_status row = Pending" "attempts row = 8"
    using late_failure_result by blast
  have max: "max_attempts default_outbox_config = 8" by (simp add: default_outbox_config_def)
  have "row \<in> set (outbox_run default_outbox_config ops [row])" for ops
    using stuck.run_row [of "[row]" row default_outbox_config ops] row(2,3) max by auto
  then show ?thesis using row max by auto
qed

end
