(* ===== verification/Maint_Worker.thy ===== *)
theory Maint_Worker
  imports Maint_Delivery
begin

text \<open>
  The one-shot worker (\<open>autonomous-api/app/engine/maintenance_outbox_worker.py\<close>): it reads its
  configuration from the environment, delivers one bounded batch with the default outbox settings,
  logs metadata and turns the results into an exit code. The environment is a dictionary and the
  database that the path names is the outbox state passed in.
\<close>

section \<open>Configuration\<close>

text \<open>\<open>int(s)\<close> on a string: white space around an optional sign and digits with single
  underscores between them; more than 4300 digits are refused.\<close>

definition int_of_str :: "string \<Rightarrow> int option" where
  "int_of_str s =
     (case parse_sign (strip s) of (neg, ds) \<Rightarrow>
      case digit_run ds 0 0 of (v, n, rest) \<Rightarrow>
        if n = 0 \<or> rest \<noteq> [] \<or> 4300 < n then None else Some (if neg then - int v else int v))"

definition positive_int :: "string option \<Rightarrow> int \<Rightarrow> int \<Rightarrow> maint_exn + int" where
  "positive_int value dflt maximum =
     (case value of None \<Rightarrow> Inr dflt
      | Some v \<Rightarrow>
        (if strip v = [] then Inr dflt
         else (case int_of_str v of
             None \<Rightarrow> Inl (value_error ''maintenance-worker-integer-config-invalid'')
           | Some n \<Rightarrow> (if n < 1 \<or> maximum < n then Inl (value_error ''maintenance-worker-integer-config-out-of-range'')
                        else Inr n))))"

definition positive_float :: "string option \<Rightarrow> pyfloat \<Rightarrow> maint_exn + pyfloat" where
  "positive_float value dflt =
     (case value of None \<Rightarrow> Inr dflt
      | Some v \<Rightarrow>
        (if strip v = [] then Inr dflt
         else (case float_of_str v of
             None \<Rightarrow> Inl (value_error ''maintenance-worker-timeout-config-invalid'')
           | Some x \<Rightarrow> (if bad_seconds x then Inl (value_error ''maintenance-worker-timeout-config-invalid'')
                        else Inr x))))"

definition env_str :: "(string, string) dict \<Rightarrow> string \<Rightarrow> string" where
  "env_str env k = strip (case dict_get env k of None \<Rightarrow> [] | Some v \<Rightarrow> v)"

section \<open>One batch\<close>

datatype worker_log =
    LogDelivery string outbox_status nat string
  | LogBatch nat nat nat
  | LogStopped string

definition result_log :: "delivery_result \<Rightarrow> worker_log" where
  "result_log r = LogDelivery (res_event_digest r) (res_status r) (res_attempts r)
     (case res_error r of None \<Rightarrow> [] | Some x \<Rightarrow> x)"

definition batch_logs :: "delivery_result list \<Rightarrow> worker_log list" where
  "batch_logs rs = map result_log rs @
     [LogBatch (length rs) (length (filter (\<lambda>r. res_status r = Delivered) rs))
        (length (filter (\<lambda>r. res_status r \<noteq> Delivered) rs))]"

definition run_once ::
    "(string \<Rightarrow> bool) \<Rightarrow> 'net opener \<Rightarrow> (string, string) dict \<Rightarrow> 'net outbox
      \<Rightarrow> (maint_exn + delivery_result list \<times> worker_log list) \<times> 'net outbox" where
  "run_once br opener env s =
     (let database_path = env_str env ''MAINTENANCE_OUTBOX_DB_PATH'';
          url = env_str env ''OBSERVATORY_BASE_URL'';
          tok = env_str env ''OBSERVATORY_API_TOKEN''
      in if database_path = [] then (Inl (value_error ''maintenance-outbox-database-path-required''), s)
         else if url = [] then (Inl (value_error ''observatory-base-url-required''), s)
         else if tok = [] then (Inl (value_error ''observatory-token-required''), s)
         else (case positive_int (dict_get env ''MAINTENANCE_OUTBOX_BATCH_LIMIT'') 20 100 of Inl x \<Rightarrow> (Inl x, s)
           | Inr limit \<Rightarrow>
             (case positive_float (dict_get env ''MAINTENANCE_OUTBOX_HTTP_TIMEOUT_SECONDS'') (Fin 5) of Inl x \<Rightarrow> (Inl x, s)
              | Inr tmo \<Rightarrow>
                (case new_outbox database_path 8 (Fin 2) (Fin 300) (Fin 30) of Inl x \<Rightarrow> (Inl x, s)
                 | Inr cfg \<Rightarrow>
                   (case deliver_pending cfg opener \<lparr>base_url = url, token = tok, timeout = tmo, bracket_ok = br\<rparr> limit s of
                      (Inl x, s') \<Rightarrow> (Inl x, s')
                    | (Inr rs, s') \<Rightarrow> (Inr (rs, batch_logs rs), s'))))))"

definition worker_main ::
    "(string \<Rightarrow> bool) \<Rightarrow> 'net opener \<Rightarrow> (string, string) dict \<Rightarrow> 'net outbox \<Rightarrow> int \<times> worker_log list \<times> 'net outbox" where
  "worker_main br opener env s =
     (case run_once br opener env s of
        (Inl x, s') \<Rightarrow> (2, [LogStopped (exn_name x)], s')
      | (Inr (rs, logs), s') \<Rightarrow> (if \<exists>r \<in> set rs. res_status r \<noteq> Delivered then 1 else 0, logs, s'))"

section \<open>Reports are true\<close>

lemma deliver_rows_other:
  "d \<notin> set (digests rows) \<Longrightarrow> find_row d (table_of (snd (deliver_rows cfg opener c rows s))) = find_row d (table_of s)"
proof (induction rows arbitrary: s)
  case (Cons row rows)
  obtain res s1 where r: "deliver_row cfg opener c row s = (res, s1)" by fastforce
  have 1: "find_row d (table_of s1) = find_row d (table_of s)"
    using deliver_row_other [of row d cfg opener c s] Cons.prems r by auto
  have 2: "find_row d (table_of (snd (deliver_rows cfg opener c rows s1))) = find_row d (table_of s1)"
    using Cons.IH Cons.prems by simp
  show ?case using 1 2 by (cases res) (auto simp: r split: prod.split sum.split)
qed simp

text \<open>What a result says of the row it is about.\<close>

definition result_true :: "table \<Rightarrow> delivery_result \<Rightarrow> bool" where
  "result_true rows res \<longleftrightarrow> (\<exists>row. find_row (res_event_digest res) rows = Some row \<and>
     row_status row = res_status res \<and> attempts row = res_attempts res \<and>
     last_error row = res_error res \<and> (res_status res = Delivered \<longrightarrow> observatory_event_id row = res_observatory_event_id res))"

lemma deliver_row_true:
  assumes "deliver_row cfg opener c row s = (Inr res, s1)"
    and "find_row (event_digest row) (table_of s) = Some y" "row_status y = Delivering" "attempts y = Suc (attempts row)"
  shows "result_true (table_of s1) res \<and> res_event_digest res = event_digest row \<and>
    res_status res \<in> {Delivered, Pending, DeadLetter}"
  using assms find_row_mark_same [OF assms(2,3)]
  by (auto simp: deliver_row_def mark_failure_def mark_delivered_def clock_def Let_def result_true_def
      delivered_row_def failed_row_def split: prod.splits sum.splits)

lemma deliver_rows_true:
  assumes "deliver_rows cfg opener c rows s = (Inr ress, s2)" "distinct (digests rows)"
    and "\<And>row. row \<in> set rows \<Longrightarrow>
      \<exists>y. find_row (event_digest row) (table_of s) = Some y \<and> row_status y = Delivering \<and> attempts y = Suc (attempts row)"
  shows "map res_event_digest ress = digests rows \<and> (\<forall>res \<in> set ress. result_true (table_of s2) res)"
  using assms
proof (induction rows arbitrary: s ress)
  case (Cons row rows)
  obtain res s1 ress' where r: "deliver_row cfg opener c row s = (Inr res, s1)"
      "deliver_rows cfg opener c rows s1 = (Inr ress', s2)" "ress = res # ress'"
    using Cons.prems(1) by (auto split: prod.splits sum.splits)
  obtain y where y: "find_row (event_digest row) (table_of s) = Some y" "row_status y = Delivering" "attempts y = Suc (attempts row)"
    using Cons.prems(3) [of row] by auto
  note t = deliver_row_true [OF r(1) y]
  have other: "find_row (event_digest x) (table_of s1) = find_row (event_digest x) (table_of s)" if "x \<in> set rows" for x
    using deliver_row_other [of row "event_digest x" cfg opener c s] Cons.prems(2) that r(1) by auto
  have ih: "map res_event_digest ress' = digests rows" "\<forall>res \<in> set ress'. result_true (table_of s2) res"
    using Cons.IH [OF r(2)] Cons.prems(2,3) other by auto
  have "find_row (event_digest row) (table_of s2) = find_row (event_digest row) (table_of s1)"
    using deliver_rows_other [of "event_digest row" rows cfg opener c s1] Cons.prems(2) r(2) by simp
  then have "result_true (table_of s2) res" using t by (auto simp: result_true_def)
  then show ?case using t ih r(3) by simp
qed simp

lemma deliver_pending_true:
  assumes "deliver_pending cfg opener c limit s = (Inr ress, s2)" "distinct (digests (table_of s))"
  shows "int (length ress) \<le> limit \<and> distinct (map res_event_digest ress) \<and> (\<forall>res \<in> set ress. result_true (table_of s2) res)"
proof -
  let ?now = "readings s (reading_n s)"
  obtain claimed s1 where 1: "claim cfg (nat limit) s = (claimed, s1)" "deliver_rows cfg opener c claimed s1 = (Inr ress, s2)"
      "1 \<le> limit"
    using assms(1) by (auto simp: deliver_pending_def split: if_splits option.splits prod.splits)
  then have t: "tx_claim cfg ?now (nat limit) (table_of s) = (claimed, table_of s1)"
    by (auto simp: claim_def clock_def split: prod.splits)
  have sel: "claimed = select_due cfg ?now (nat limit) (expire_leases cfg ?now (table_of s))"
    using t assms(2) by (simp add: tx_claim_rows Let_def)
  have dsel: "distinct (digests claimed)"
    unfolding sel using assms(2) by (intro distinct_select_due) (simp only: digests_expire)
  have dt: "distinct (digests (table_of s1))"
    using distinct_apply [OF assms(2), of cfg "Claim (nat limit) ?now"] t by simp
  have "find_row (event_digest row) (table_of s1) = Some (claimed_row cfg ?now row)" if "row \<in> set claimed" for row
    using find_row_in [OF dt, of "claimed_row cfg ?now row"] claimed_leased [OF assms(2), of row cfg ?now "nat limit"] t that
    by simp
  then have "map res_event_digest ress = digests claimed \<and> (\<forall>res \<in> set ress. result_true (table_of s2) res)"
    by (intro deliver_rows_true [OF 1(2) dsel]) (simp add: claimed_row_def)
  moreover have "length ress = length claimed"
    using calculation by (metis length_map)
  moreover have "int (length claimed) \<le> limit" using 1(3) by (simp add: sel select_due_def)
  ultimately show ?thesis using dsel by simp
qed

lemma positive_int_bound: "positive_int v dflt m = Inr n \<Longrightarrow> dflt \<le> m \<Longrightarrow> n \<le> m"
  by (auto simp: positive_int_def split: option.splits if_splits)

lemma run_once_Inr:
  assumes "run_once br opener env s = (Inr (rs, logs), s')"
  obtains cfg c limit where "deliver_pending cfg opener c limit s = (Inr rs, s')" "limit \<le> 100" "logs = batch_logs rs"
  using assms positive_int_bound [of _ 20 100]
  by (auto simp: run_once_def Let_def split: if_splits sum.splits prod.splits)

text \<open>The worker tells the truth: a run that stops with an error exits with 2; otherwise it handled at
  most 100 distinct events, every reported status, attempt count, error and event id is what the
  table holds afterwards, and it exits with 0 exactly when all of them were delivered.\<close>

theorem worker_exit_code_true:
  assumes "distinct (digests (table_of s))"
  shows "case run_once br opener env s of
      (Inl x, s') \<Rightarrow> worker_main br opener env s = (2, [LogStopped (exn_name x)], s')
    | (Inr (rs, logs), s') \<Rightarrow>
        worker_main br opener env s = (if \<forall>r \<in> set rs. res_status r = Delivered then 0 else 1, batch_logs rs, s') \<and>
        length rs \<le> 100 \<and> distinct (map res_event_digest rs) \<and> (\<forall>res \<in> set rs. result_true (table_of s') res)"
proof -
  obtain res s' where r: "run_once br opener env s = (res, s')" by fastforce
  show ?thesis
  proof (cases res)
    case (Inl x)
    then show ?thesis by (simp add: r worker_main_def)
  next
    case (Inr rl)
    obtain rs logs where rl: "rl = (rs, logs)" by (cases rl)
    have "run_once br opener env s = (Inr (rs, logs), s')" using r Inr rl by simp
    then obtain cfg c limit where d: "deliver_pending cfg opener c limit s = (Inr rs, s')" "limit \<le> 100" "logs = batch_logs rs"
      by (rule run_once_Inr)
    show ?thesis using deliver_pending_true [OF d(1) assms] d(2,3) by (auto simp: r Inr rl worker_main_def)
  qed
qed

definition sample_env :: "(string, string) dict" where
  "sample_env = [(''MAINTENANCE_OUTBOX_DB_PATH'', ''outbox.db''), (''OBSERVATORY_BASE_URL'', ''https://observatory.example''),
     (''OBSERVATORY_API_TOKEN'', ''t0ken''), (''MAINTENANCE_OUTBOX_BATCH_LIMIT'', '' 5 '')]"

theorem worker_exit_code_true_witness:
  "\<exists>code logs s'. worker_main (\<lambda>_. False) accepting sample_env
     (snd (enqueue sample_record sample_event sample_outbox)) = (code, logs, s') \<and> code \<in> {0, 1, 2}"
proof -
  have "distinct (digests (table_of (snd (enqueue sample_record sample_event sample_outbox))))"
    using sample_serialized by (simp add: enqueue_def clock_def tx_enqueue_def find_row_def sample_outbox_def)
  from worker_exit_code_true [OF this, of "\<lambda>_. False" accepting sample_env]
  show ?thesis by (auto split: prod.splits sum.splits if_splits)
qed

end
