(* ===== verification/Cp_Lease.thy ===== *)
theory Cp_Lease
  imports Py_Prelude
begin

text \<open>
  The single-flight lease of the control plane (\<open>autonomous-api/app/storage/lease.py\<close>). The table
  \<open>control_plane_lease\<close> holds at most one row under the key \<open>evolution\<close>; every transaction starts
  with \<open>BEGIN IMMEDIATE\<close>, so the processes' operations are a sequence of atomic steps on that row.
  Instants are microseconds (the stored ISO stamps name them exactly). Owner tokens come from the
  supply of \<open>uuid4\<close> draws.
\<close>

section \<open>The lease row and its operations\<close>

record lease_row =
  owner_token :: string
  owner_run_id :: string
  acquired_at :: int
  heartbeat_at :: int
  expires_at :: int

datatype lease_exn = LeaseValueError string | ControlPlaneBusy string

definition BUSY_MESSAGE :: string where
  "BUSY_MESSAGE = ''another authoritative evolution operation is already active''"

definition LEASE_SECONDS :: int where
  "LEASE_SECONDS = 300"

definition uuid_str :: "string \<Rightarrow> string" where
  "uuid_str h = take 8 h @ ''-'' @ take 4 (drop 8 h) @ ''-'' @ take 4 (drop 12 h) @ ''-'' @ take 4 (drop 16 h) @ ''-'' @ drop 20 h"

definition new_token :: "world \<Rightarrow> string \<times> world" where
  "new_token w = (uuid_str (uuid_of w (uuid_n w)), w\<lparr>uuid_n := Suc (uuid_n w)\<rparr>)"

definition after_seconds :: "int \<Rightarrow> int \<Rightarrow> int" where
  "after_seconds now secs = now + secs * 1000000"

definition lease_active :: "int \<Rightarrow> lease_row \<Rightarrow> bool" where
  "lease_active now r = (now < expires_at r)"

text \<open>The transactions, at the time and with the token the process has read before.\<close>

definition tx_acquire ::
    "string \<Rightarrow> string \<Rightarrow> int \<Rightarrow> bool \<Rightarrow> int \<Rightarrow> lease_row option \<Rightarrow> (lease_exn + string) \<times> lease_row option" where
  "tx_acquire tok run_id secs takeover now row =
     (if (case row of None \<Rightarrow> False | Some r \<Rightarrow> lease_active now r \<or> \<not> takeover)
      then (Inl (ControlPlaneBusy BUSY_MESSAGE), row)
      else (Inr tok, Some \<lparr>owner_token = tok, owner_run_id = run_id, acquired_at = now, heartbeat_at = now,
          expires_at = after_seconds now secs\<rparr>))"

definition tx_heartbeat :: "string \<Rightarrow> int \<Rightarrow> int \<Rightarrow> lease_row option \<Rightarrow> (lease_exn + unit) \<times> lease_row option" where
  "tx_heartbeat tok secs now row =
     (case row of
        Some r \<Rightarrow>
          (if owner_token r = tok
           then (Inr (), Some (r\<lparr>heartbeat_at := now, expires_at := after_seconds now secs\<rparr>))
           else (Inl (ControlPlaneBusy ''control-plane lease ownership was lost''), row))
      | None \<Rightarrow> (Inl (ControlPlaneBusy ''control-plane lease ownership was lost''), row))"

definition tx_release :: "string \<Rightarrow> lease_row option \<Rightarrow> lease_row option" where
  "tx_release tok row = (case row of None \<Rightarrow> None | Some r \<Rightarrow> if owner_token r = tok then None else Some r)"

record lease_state =
  lease_db :: "lease_row option"
  lease_world :: world

definition acquire_control_plane_lease ::
    "string \<Rightarrow> int \<Rightarrow> bool \<Rightarrow> lease_state \<Rightarrow> (lease_exn + string) \<times> lease_state" where
  "acquire_control_plane_lease run_id secs takeover s =
     (if secs \<le> 0 then (Inl (LeaseValueError ''lease_seconds must be positive''), s)
      else (case new_token (lease_world s) of (tok, w1) \<Rightarrow>
            case utcnow w1 of (now, w2) \<Rightarrow>
            case tx_acquire tok run_id secs takeover now (lease_db s) of (res, row) \<Rightarrow>
              (res, \<lparr>lease_db = row, lease_world = w2\<rparr>)))"

definition heartbeat_control_plane_lease :: "string \<Rightarrow> int \<Rightarrow> lease_state \<Rightarrow> (lease_exn + unit) \<times> lease_state" where
  "heartbeat_control_plane_lease tok secs s =
     (case utcnow (lease_world s) of (now, w1) \<Rightarrow>
      case tx_heartbeat tok secs now (lease_db s) of (res, row) \<Rightarrow> (res, \<lparr>lease_db = row, lease_world = w1\<rparr>))"

definition release_control_plane_lease :: "string \<Rightarrow> lease_state \<Rightarrow> lease_state" where
  "release_control_plane_lease tok s = s\<lparr>lease_db := tx_release tok (lease_db s)\<rparr>"

definition lease_is_live :: "lease_state \<Rightarrow> bool \<times> lease_state" where
  "lease_is_live s =
     (case lease_db s of None \<Rightarrow> (False, s)
      | Some r \<Rightarrow> (case utcnow (lease_world s) of (now, w1) \<Rightarrow> (lease_active now r, s\<lparr>lease_world := w1\<rparr>)))"

text \<open>The context manager around a body that gets the token and may raise; it releases in both cases.\<close>

definition control_plane_lease ::
    "string \<Rightarrow> (string \<Rightarrow> lease_state \<Rightarrow> ('e + 'a) \<times> lease_state) \<Rightarrow> lease_state
      \<Rightarrow> ((lease_exn + 'e) + 'a) \<times> lease_state" where
  "control_plane_lease run_id body s =
     (case acquire_control_plane_lease run_id LEASE_SECONDS False s of
        (Inl e, s1) \<Rightarrow> (Inl (Inl e), s1)
      | (Inr tok, s1) \<Rightarrow>
        (case body tok s1 of (res, s2) \<Rightarrow>
           (case res of Inl e \<Rightarrow> Inl (Inr e) | Inr x \<Rightarrow> Inr x, release_control_plane_lease tok s2)))"

section \<open>Interleavings\<close>

datatype lease_op =
    Acquire string string int bool int
  | Heartbeat string int int
  | Release string

fun lease_step :: "lease_op \<Rightarrow> lease_row option \<Rightarrow> lease_row option" where
  "lease_step (Acquire tok run_id secs takeover now) row = snd (tx_acquire tok run_id secs takeover now row)"
| "lease_step (Heartbeat tok secs now) row = snd (tx_heartbeat tok secs now row)"
| "lease_step (Release tok) row = tx_release tok row"

inductive lease_steps :: "(lease_op \<Rightarrow> bool) \<Rightarrow> lease_row option \<Rightarrow> lease_row option \<Rightarrow> bool" for P where
  stop: "lease_steps P row row"
| step: "P op \<Longrightarrow> lease_steps P (lease_step op row) row' \<Longrightarrow> lease_steps P row row'"

text \<open>A property of the row that a class of steps keeps holds along any number of them.\<close>

locale lease_invariant =
  fixes allowed :: "lease_op \<Rightarrow> bool" and Inv :: "lease_row option \<Rightarrow> bool"
  assumes Inv_step: "allowed op \<Longrightarrow> Inv row \<Longrightarrow> Inv (lease_step op row)"
begin

lemma Inv_steps: "lease_steps allowed row row' \<Longrightarrow> Inv row \<Longrightarrow> Inv row'"
  by (induction rule: lease_steps.induct) (simp_all add: Inv_step)

end

text \<open>Steps that may neither recover a stale lease nor release one with the owner's token.\<close>

fun ordinary_step :: "string \<Rightarrow> lease_op \<Rightarrow> bool" where
  "ordinary_step tok (Acquire tok' run_id secs takeover now) = (\<not> takeover)"
| "ordinary_step tok (Heartbeat tok' secs now) = True"
| "ordinary_step tok (Release tok') = (tok' \<noteq> tok)"

interpretation owned: lease_invariant "ordinary_step tok" "\<lambda>row. \<exists>r. row = Some r \<and> owner_token r = tok" for tok
proof
  show "\<exists>r. lease_step op row = Some r \<and> owner_token r = tok" if "ordinary_step tok op" "\<exists>r. row = Some r \<and> owner_token r = tok" for op row
    using that by (cases op) (auto simp: tx_acquire_def tx_heartbeat_def tx_release_def)
qed

section \<open>Single flight\<close>

lemma acquire_Inr:
  assumes "acquire_control_plane_lease run_id secs takeover s = (Inr tok, s1)"
  shows "0 < secs" and "lease_db s1 = Some \<lparr>owner_token = tok, owner_run_id = run_id,
      acquired_at = fst (utcnow (lease_world s)), heartbeat_at = fst (utcnow (lease_world s)),
      expires_at = after_seconds (fst (utcnow (lease_world s))) secs\<rparr>"
    and "\<And>r. lease_db s = Some r \<Longrightarrow> takeover \<and> expires_at r \<le> fst (utcnow (lease_world s))"
  using assms
  by (auto simp: acquire_control_plane_lease_def new_token_def utcnow_def tx_acquire_def lease_active_def
      split: if_splits option.splits)

text \<open>Everything that happens after an acquisition, without restriction: attempts to acquire by anyone, renewals and releases with any
  token. The expiry is the one that the owner's last renewal has set.\<close>

definition lease_run :: "lease_op list \<Rightarrow> lease_row option \<Rightarrow> lease_row option" where
  "lease_run ops row = fold lease_step ops row"

fun renewed_expiry :: "string \<Rightarrow> int \<Rightarrow> lease_op list \<Rightarrow> int" where
  "renewed_expiry tok e [] = e"
| "renewed_expiry tok e (Heartbeat tok' secs now # ops) = renewed_expiry tok (if tok' = tok then after_seconds now secs else e) ops"
| "renewed_expiry tok e (_ # ops) = renewed_expiry tok e ops"

text \<open>The two ways in which the owner loses the lease: it gives it back, or a recovery finds it expired.\<close>

definition given_up :: "string \<Rightarrow> int \<Rightarrow> lease_op list \<Rightarrow> bool" where
  "given_up tok e ops \<longleftrightarrow> Release tok \<in> set ops
     \<or> (\<exists>before tok' run_id secs now after. ops = before @ Acquire tok' run_id secs True now # after \<and> renewed_expiry tok e before \<le> now)"

lemma given_up_Cons:
  "given_up tok (renewed_expiry tok e [op]) ops \<Longrightarrow> given_up tok e (op # ops)"
  by (cases op) (auto simp: given_up_def; metis append_Cons renewed_expiry.simps)+

lemma lease_kept:
  "owner_token r = tok \<Longrightarrow> \<not> given_up tok (expires_at r) ops \<Longrightarrow>
   \<exists>r'. lease_run ops (Some r) = Some r' \<and> owner_token r' = tok \<and> expires_at r' = renewed_expiry tok (expires_at r) ops"
proof (induction ops arbitrary: r)
  case (Cons op ops)
  have "op \<noteq> Release tok" using Cons.prems(2) by (auto simp: given_up_def)
  moreover have "expires_at r > now" if "op = Acquire tok' run_id secs True now" for tok' run_id secs now
    using Cons.prems(2) that by (force simp: given_up_def)
  ultimately have "\<exists>r1. lease_step op (Some r) = Some r1 \<and> owner_token r1 = tok \<and> expires_at r1 = renewed_expiry tok (expires_at r) [op]"
    using Cons.prems(1) by (cases op) (auto simp: tx_acquire_def tx_heartbeat_def tx_release_def lease_active_def)
  then obtain r1 where r1: "lease_step op (Some r) = Some r1" "owner_token r1 = tok" "expires_at r1 = renewed_expiry tok (expires_at r) [op]" by blast
  have "\<not> given_up tok (expires_at r1) ops" using Cons.prems(2) given_up_Cons r1(3) by metis
  moreover have "renewed_expiry tok (expires_at r) (op # ops) = renewed_expiry tok (expires_at r1) ops"
    by (cases op) (simp_all add: r1(3))
  ultimately show ?case using Cons.IH[OF r1(2)] r1(1) by (simp add: lease_run_def)
qed (simp add: lease_run_def)

text \<open>C38. Single flight: after a process has acquired the lease, whatever it and any other processes do, the lease stays with it, with the expiry of its
  last renewal, unless it has released the lease or a recovery has come after that expiry; and as long as it stays, every attempt to acquire
  it before the expiry, and every attempt without recovery at any time, fails with \<open>ControlPlaneBusy\<close> and changes nothing.\<close>

theorem lease_single_flight:
  assumes "acquire_control_plane_lease run_id secs takeover s = (Inr tok, s1)"
    and "expiry = after_seconds (fst (utcnow (lease_world s))) secs" "\<not> given_up tok expiry ops"
  shows "fst (utcnow (lease_world s)) < expiry
    \<and> (\<exists>r. lease_run ops (lease_db s1) = Some r \<and> owner_token r = tok \<and> expires_at r = renewed_expiry tok expiry ops)
    \<and> (t < renewed_expiry tok expiry ops \<or> \<not> takeover' \<longrightarrow>
        tx_acquire tok' run' secs' takeover' t (lease_run ops (lease_db s1)) = (Inl (ControlPlaneBusy BUSY_MESSAGE), lease_run ops (lease_db s1)))"
proof -
  note a = acquire_Inr [OF assms(1)]
  let ?r = "\<lparr>owner_token = tok, owner_run_id = run_id,
      acquired_at = fst (utcnow (lease_world s)), heartbeat_at = fst (utcnow (lease_world s)), expires_at = expiry\<rparr>"
  have r: "lease_db s1 = Some ?r" using a(2) assms(2) by simp
  obtain r' where "lease_run ops (lease_db s1) = Some r'" "owner_token r' = tok" "expires_at r' = renewed_expiry tok expiry ops"
    using lease_kept[of ?r tok ops] assms(3) r by auto
  then show ?thesis
    using assms(2) a(1) by (auto simp: tx_acquire_def lease_active_def after_seconds_def)
qed

definition lease_sample :: lease_state where
  "lease_sample = \<lparr>lease_db = None, lease_world = \<lparr>uuid_of = (\<lambda>n. str_of_nat n), uuid_n = 0, clock_of = (\<lambda>n. int n), clock_n = 0\<rparr>\<rparr>"

theorem lease_single_flight_witness:
  "\<exists>tok s1. acquire_control_plane_lease ''run-1'' 300 False lease_sample = (Inr tok, s1) \<and>
     fst (tx_acquire ''other'' ''run-2'' 300 True 300000008 (lease_run [Heartbeat tok 300 9, Acquire ''other'' ''run-2'' 300 True 20, Release ''other''] (lease_db s1)))
       = Inl (ControlPlaneBusy BUSY_MESSAGE)"
proof -
  obtain tok s1 where a: "acquire_control_plane_lease ''run-1'' 300 False lease_sample = (Inr tok, s1)" and tok: "tok \<noteq> ''other''"
    by (simp add: acquire_control_plane_lease_def new_token_def utcnow_def tx_acquire_def lease_sample_def uuid_str_def str_of_nat.simps)
  let ?ops = "[Heartbeat tok 300 9, Acquire ''other'' ''run-2'' 300 True 20, Release ''other'']"
  have "\<not> given_up tok 300000000 ?ops"
    using tok by (auto simp: given_up_def after_seconds_def Cons_eq_append_conv)
  then show ?thesis
    using lease_single_flight [OF a refl, of ?ops 300000008 True "''other''" "''run-2''" 300] a
    by (auto simp: after_seconds_def utcnow_def lease_sample_def)
qed

text \<open>A stale lease is only taken over by recovery: while the owner does not release it and no other
  process asks for a takeover, the lease stays with its owner for ever and ordinary acquisitions
  fail, expired or not; a takeover succeeds exactly when the lease has expired, and a process that
  still believes to own the lease is then refused its next heartbeat.\<close>

theorem stale_lease_needs_recovery:
  assumes "lease_steps (ordinary_step (owner_token r)) (Some r) row"
  shows "\<exists>r'. row = Some r' \<and> owner_token r' = owner_token r \<and>
    fst (tx_acquire tok run secs False now row) = Inl (ControlPlaneBusy BUSY_MESSAGE) \<and>
    (fst (tx_acquire tok run secs True now row) = Inr tok \<longleftrightarrow> expires_at r' \<le> now) \<and>
    (expires_at r' \<le> now \<and> tok \<noteq> owner_token r \<longrightarrow>
       isl (fst (tx_heartbeat (owner_token r) secs' now' (snd (tx_acquire tok run secs True now row)))))"
proof -
  obtain r' where "row = Some r'" "owner_token r' = owner_token r"
    using owned.Inv_steps [OF assms] by auto
  then show ?thesis by (auto simp: tx_acquire_def lease_active_def tx_heartbeat_def)
qed

theorem stale_lease_needs_recovery_witness:
  "\<exists>r. lease_steps (ordinary_step ''a'') (Some \<lparr>owner_token = ''a'', owner_run_id = ''r'', acquired_at = 0, heartbeat_at = 0, expires_at = 9\<rparr>) (Some r) \<and>
     owner_token r = ''a'' \<and> fst (tx_acquire ''b'' ''q'' 5 False 100 (Some r)) = Inl (ControlPlaneBusy BUSY_MESSAGE) \<and>
     fst (tx_acquire ''b'' ''q'' 5 True 100 (Some r)) = Inr ''b''"
proof -
  let ?r = "\<lparr>owner_token = ''a'', owner_run_id = ''r'', acquired_at = 0, heartbeat_at = 0, expires_at = 9 :: int\<rparr>"
  have st: "lease_steps (ordinary_step (owner_token ?r)) (Some ?r) (Some ?r)"
    by (rule lease_steps.step [where op = "Release ''z''"]) (simp_all add: tx_release_def lease_steps.stop)
  from stale_lease_needs_recovery [OF st, of "''b''" "''q''" 5 100]
  have "fst (tx_acquire ''b'' ''q'' 5 False 100 (Some ?r)) = Inl (ControlPlaneBusy BUSY_MESSAGE) \<and>
      fst (tx_acquire ''b'' ''q'' 5 True 100 (Some ?r)) = Inr ''b''" by simp
  then show ?thesis using st by (intro exI [of _ ?r]) (simp only: lease_row.simps)
qed

lemma bracket_release:
  "\<exists>r. row = Some r \<and> owner_token r = tok \<Longrightarrow> tx_release tok row = None"
  by (auto simp: tx_release_def)

text \<open>The context manager gives the lease back: if the body, together with everything other
  processes do meanwhile, neither takes the lease over nor releases it, then the lease is free after
  the block, whether the body returned or raised, and the body's outcome is passed on; when the
  lease is held, the body does not run and nothing changes but the clock and the token supply.\<close>

theorem control_plane_lease_bracket:
  assumes "\<And>tok s1. lease_steps (ordinary_step tok) (lease_db s1) (lease_db (snd (body tok s1)))"
  shows "case lease_db s of
      None \<Rightarrow> lease_db (snd (control_plane_lease run_id body s)) = None \<and>
        (\<exists>tok s1. fst (control_plane_lease run_id body s) =
           (case fst (body tok s1) of Inl e \<Rightarrow> Inl (Inr e) | Inr x \<Rightarrow> Inr x))
    | Some r \<Rightarrow> fst (control_plane_lease run_id body s) = Inl (Inl (ControlPlaneBusy BUSY_MESSAGE)) \<and>
        lease_db (snd (control_plane_lease run_id body s)) = Some r"
proof (cases "lease_db s")
  case None
  obtain tok s1 where a: "acquire_control_plane_lease run_id LEASE_SECONDS False s = (Inr tok, s1)"
    using None by (simp add: acquire_control_plane_lease_def LEASE_SECONDS_def new_token_def utcnow_def tx_acquire_def)
  have "tx_release tok (lease_db (snd (body tok s1))) = None"
    using owned.Inv_steps [OF assms [of tok s1]] acquire_Inr(2) [OF a] by (intro bracket_release) simp
  then have "lease_db (snd (control_plane_lease run_id body s)) = None"
    and "fst (control_plane_lease run_id body s) = (case fst (body tok s1) of Inl e \<Rightarrow> Inl (Inr e) | Inr x \<Rightarrow> Inr x)"
    by (auto simp: control_plane_lease_def a release_control_plane_lease_def split: prod.split)
  then show ?thesis using None by auto
next
  case (Some r)
  then show ?thesis
    by (simp add: control_plane_lease_def acquire_control_plane_lease_def LEASE_SECONDS_def new_token_def utcnow_def tx_acquire_def)
qed

theorem control_plane_lease_bracket_witness:
  "lease_db (snd (control_plane_lease ''run-1'' (\<lambda>tok s. (Inl ''failed'' :: string + unit, s)) lease_sample)) = None"
proof -
  have "lease_steps (ordinary_step tok) (lease_db s1) (lease_db (snd ((\<lambda>tok s. (Inl ''failed'' :: string + unit, s)) tok s1)))" for tok s1
    by (simp add: lease_steps.stop)
  from control_plane_lease_bracket [of "\<lambda>tok s. (Inl ''failed'' :: string + unit, s)", OF this, where s = lease_sample and run_id = "''run-1''"]
  show ?thesis by (simp add: lease_sample_def)
qed

text \<open>The owner's heartbeat also renews a lease that has already expired.\<close>

lemma heartbeat_revives_expired:
  assumes "expires_at r \<le> now" "0 < secs"
  shows "fst (tx_heartbeat (owner_token r) secs now (Some r)) = Inr ()"
    and "\<exists>r'. snd (tx_heartbeat (owner_token r) secs now (Some r)) = Some r' \<and> lease_active now r'"
  using assms by (auto simp: tx_heartbeat_def lease_active_def after_seconds_def)

end
