(* ===== verification/Ir_State_Machine.thy ===== *)
theory Ir_State_Machine
  imports Py_Prelude "HOL-Library.List_Lexorder" "HOL-Library.Char_ord"
begin

text \<open>
  The technology-neutral state-machine representation of workflows
  (\<open>autonomous-api/app/engine/state_machine_ir.py\<close>): its validation and the reachability sweep. The
  \<open>while changed\<close> loop is a recursive function; it terminates because every further round adds the
  target of some transition to the set. Python sets of identifiers are HOL sets, and
  \<open>tuple(sorted(s))\<close> is the sorted list of such a set.
\<close>

section \<open>Machines\<close>

record State =
  state_id :: string
  terminal :: bool

record Transition =
  transition_id :: string
  source :: string
  target :: string
  trigger :: string
  guard :: "string option"
  effects :: "string list"
  compensation :: "string list"

record StateMachineIR =
  architecture_id :: string
  machine_id :: string
  states :: "State list"
  transitions :: "Transition list"
  initial_state :: string
  invariants :: "string list"

definition state_ids :: "StateMachineIR \<Rightarrow> string set" where
  "state_ids sm = set (map state_id (states sm))"

definition terminal_ids :: "StateMachineIR \<Rightarrow> string set" where
  "terminal_ids sm = set (map state_id (filter terminal (states sm)))"

definition transition_errors :: "string set \<Rightarrow> Transition \<Rightarrow> string list" where
  "transition_errors ids t =
     (if source t \<notin> ids then [''missing-source:'' @ source t] else []) @
     (if target t \<notin> ids then [''missing-target:'' @ target t] else []) @
     (if source t = target t \<and> \<not> opt_truthy (guard t) then [''unguarded-self-transition:'' @ transition_id t] else [])"

definition validate_state_machine :: "StateMachineIR \<Rightarrow> string list" where
  "validate_state_machine sm =
     (if initial_state sm \<notin> state_ids sm then [''missing-initial-state''] else []) @
     concat (map (transition_errors (state_ids sm)) (transitions sm)) @
     map (\<lambda>t. ''transition-from-terminal:'' @ transition_id t)
       (filter (\<lambda>t. source t \<in> terminal_ids sm) (transitions sm))"

text \<open>One pass of the loop body over all transitions: the set so far and the flag \<open>changed\<close>.\<close>

definition sweep_step :: "Transition \<Rightarrow> string set \<times> bool \<Rightarrow> string set \<times> bool" where
  "sweep_step t sc = (case sc of (S, changed) \<Rightarrow>
     if source t \<in> S \<and> target t \<notin> S then (insert (target t) S, True) else (S, changed))"

definition sweep :: "Transition list \<Rightarrow> string set \<Rightarrow> string set \<times> bool" where
  "sweep ts S = fold sweep_step ts (S, False)"

lemma sweep_step_add: "source t \<in> S \<Longrightarrow> target t \<notin> S \<Longrightarrow> sweep_step t (S, c) = (insert (target t) S, True)"
  by (simp add: sweep_step_def)

lemma sweep_step_skip: "\<not> (source t \<in> S \<and> target t \<notin> S) \<Longrightarrow> sweep_step t (S, c) = (S, c)"
  by (auto simp: sweep_step_def)

lemma fold_sweep_grows:
  "fold sweep_step ts (S, c) = (S', c') \<Longrightarrow> S \<subseteq> S' \<and> S' \<subseteq> S \<union> target ` set ts \<and> (c \<longrightarrow> c') \<and> (c' \<and> \<not> c \<longrightarrow> S \<subset> S')"
proof (induction ts arbitrary: S c)
  case (Cons t ts)
  show ?case
  proof (cases "source t \<in> S \<and> target t \<notin> S")
    case True
    then have "fold sweep_step ts (insert (target t) S, True) = (S', c')"
      using Cons.prems(1) True by (simp add: sweep_step_add)
    from Cons.IH [OF this] True show ?thesis by auto
  next
    case False
    then have "fold sweep_step ts (S, c) = (S', c')" using Cons.prems(1) by (simp add: sweep_step_skip)
    from Cons.IH [OF this] show ?thesis by auto
  qed
qed simp

lemma sweep_grows:
  "sweep ts S = (S', changed) \<Longrightarrow> S \<subseteq> S' \<and> S' \<subseteq> S \<union> target ` set ts \<and> (changed \<longrightarrow> S \<subset> S')"
  using fold_sweep_grows [of ts S False] by (auto simp: sweep_def)

lemma sweep_decreases:
  assumes "sweep ts S = (S', True)"
  shows "card (target ` set ts - S') < card (target ` set ts - S)"
proof -
  have "S \<subset> S'" "S' \<subseteq> S \<union> target ` set ts" using sweep_grows [OF assms] by auto
  then have "target ` set ts - S' \<subset> target ` set ts - S" by blast
  then show ?thesis by (simp add: psubset_card_mono)
qed

function reach_loop :: "Transition list \<Rightarrow> string set \<Rightarrow> string set" where
  "reach_loop ts S = (case sweep ts S of (S', changed) \<Rightarrow> if changed then reach_loop ts S' else S')"
  by pat_completeness auto

termination
proof (relation "measure (\<lambda>(ts, S). card (target ` set ts - S))", goal_cases)
  case (2 ts S S' changed)
  then have "sweep ts S = (S', True)" by simp
  then show ?case using sweep_decreases by simp
qed simp

declare reach_loop.simps [simp del]

definition reachable_states :: "StateMachineIR \<Rightarrow> string list" where
  "reachable_states sm = sorted_list_of_set (reach_loop (transitions sm) {initial_state sm})"

definition find_unreachable_states :: "StateMachineIR \<Rightarrow> string list" where
  "find_unreachable_states sm = sorted_list_of_set (state_ids sm - set (reachable_states sm))"

definition verify_transition_effects :: "StateMachineIR \<Rightarrow> string list" where
  "verify_transition_effects sm = map (\<lambda>t. ''effect-without-trigger:'' @ transition_id t)
     (filter (\<lambda>t. effects t \<noteq> [] \<and> trigger t = []) (transitions sm))"

section \<open>Reachability\<close>

definition edges :: "Transition list \<Rightarrow> (string \<times> string) set" where
  "edges ts = (\<lambda>t. (source t, target t)) ` set ts"

lemma fold_sweep_sound:
  "fold sweep_step ts (S, c) = (S', c') \<Longrightarrow> set ts \<subseteq> set us \<Longrightarrow> S' \<subseteq> (edges us)\<^sup>* `` S"
proof (induction ts arbitrary: S c)
  case (Cons t ts)
  have e: "(source t, target t) \<in> edges us" using Cons.prems(2) by (auto simp: edges_def)
  show ?case
  proof (cases "source t \<in> S \<and> target t \<notin> S")
    case True
    then have "fold sweep_step ts (insert (target t) S, True) = (S', c')"
      using Cons.prems(1) True by (simp add: sweep_step_add)
    then have "S' \<subseteq> (edges us)\<^sup>* `` insert (target t) S" using Cons.IH Cons.prems(2) by auto
    moreover have "(edges us)\<^sup>* `` insert (target t) S \<subseteq> (edges us)\<^sup>* `` S"
      using True e by (auto intro: converse_rtrancl_into_rtrancl)
    ultimately show ?thesis by blast
  next
    case False
    then have "fold sweep_step ts (S, c) = (S', c')" using Cons.prems(1) by (simp add: sweep_step_skip)
    then show ?thesis using Cons.IH Cons.prems(2) by auto
  qed
qed auto

lemma sweep_fixpoint:
  assumes "sweep ts S = (S', False)"
  shows "S' = S \<and> edges ts `` S \<subseteq> S"
proof -
  have "S' = S \<and> (\<forall>t \<in> set ts. source t \<in> S \<longrightarrow> target t \<in> S)"
    if "fold sweep_step ts (S, False) = (S', False)" for ts
    using that
  proof (induction ts)
    case (Cons t ts)
    have "fold sweep_step ts (T, True) \<noteq> (S', False)" for T
      using fold_sweep_grows [of ts T True S' False] by auto
    then have n: "\<not> (source t \<in> S \<and> target t \<notin> S)"
      using Cons.prems sweep_step_add [of t S False] by fastforce
    then have "fold sweep_step ts (S, False) = (S', False)"
      using Cons.prems by (simp add: sweep_step_skip)
    then show ?case using Cons.IH n by auto
  qed simp
  then show ?thesis using assms by (auto simp: sweep_def edges_def)
qed

lemma reach_loop_closure: "reach_loop ts S = (edges ts)\<^sup>* `` S"
proof (induction ts S rule: reach_loop.induct)
  case (1 ts S)
  obtain S' changed where sw: "sweep ts S = (S', changed)" by fastforce
  have mono: "S \<subseteq> S'" "S' \<subseteq> (edges ts)\<^sup>* `` S"
    using sweep_grows [OF sw] fold_sweep_sound [of ts S False S' changed ts] sw by (auto simp: sweep_def)
  then have same: "(edges ts)\<^sup>* `` S' = (edges ts)\<^sup>* `` S" by (blast intro: rtrancl_trans)
  show ?case
  proof (cases changed)
    case True
    then show ?thesis using 1 sw same by (simp add: reach_loop.simps [of ts S])
  next
    case False
    then have fp: "S' = S" "edges ts `` S \<subseteq> S" using sweep_fixpoint sw by auto
    have "(edges ts)\<^sup>* `` S = S" by (rule Image_closed_trancl [OF fp(2)])
    then show ?thesis using sw False fp by (simp add: reach_loop.simps [of ts S])
  qed
qed

lemma finite_reach: "finite ((edges ts)\<^sup>* `` {s})"
proof (rule finite_subset)
  show "(edges ts)\<^sup>* `` {s} \<subseteq> insert s (target ` set ts)"
    by (auto simp: edges_def elim: rtranclE)
qed simp

text \<open>C39. The reachability loop terminates and computes exactly the states that a path of transitions
  leads to from the initial one, sorted and without repetition; the unreachable states are the
  declared states that are not among them.\<close>

theorem reachable_states_closure:
  "set (reachable_states sm) = (edges (transitions sm))\<^sup>* `` {initial_state sm} \<and>
   sorted (reachable_states sm) \<and> distinct (reachable_states sm) \<and>
   set (find_unreachable_states sm) = state_ids sm - (edges (transitions sm))\<^sup>* `` {initial_state sm}"
  using finite_reach [of "transitions sm" "initial_state sm"]
  by (simp add: reachable_states_def find_unreachable_states_def reach_loop_closure state_ids_def)

section \<open>Validated machines\<close>

definition well_formed :: "StateMachineIR \<Rightarrow> bool" where
  "well_formed sm \<longleftrightarrow> initial_state sm \<in> state_ids sm \<and>
     (\<forall>t \<in> set (transitions sm). source t \<in> state_ids sm - terminal_ids sm \<and> target t \<in> state_ids sm \<and>
        (source t = target t \<longrightarrow> opt_truthy (guard t)))"

lemma validate_iff: "validate_state_machine sm = [] \<longleftrightarrow> well_formed sm"
  by (auto simp: validate_state_machine_def transition_errors_def well_formed_def filter_empty_conv split: if_splits)

text \<open>Validation reports nothing exactly for machines whose initial state and transition ends are
  declared, whose terminal states have no outgoing transition and whose self-transitions are
  guarded; every reachable state of such a machine is declared, and no transition leads out of a
  reachable terminal state.\<close>

theorem validated_machine_is_closed:
  "(validate_state_machine sm = [] \<longleftrightarrow> well_formed sm) \<and>
   (validate_state_machine sm = [] \<longrightarrow> set (reachable_states sm) \<subseteq> state_ids sm \<and>
     (\<forall>s \<in> set (reachable_states sm) \<inter> terminal_ids sm. edges (transitions sm) `` {s} = {}))"
proof (intro conjI impI)
  assume "validate_state_machine sm = []"
  then have wf: "well_formed sm" by (simp add: validate_iff)
  then have "insert (initial_state sm) (target ` set (transitions sm)) \<subseteq> state_ids sm"
    by (auto simp: well_formed_def)
  moreover have "set (reachable_states sm) \<subseteq> insert (initial_state sm) (target ` set (transitions sm))"
    using finite_reach [of "transitions sm" "initial_state sm"]
    by (auto simp: reachable_states_def reach_loop_closure edges_def elim: rtranclE)
  ultimately show "set (reachable_states sm) \<subseteq> state_ids sm" by blast
  show "\<forall>s \<in> set (reachable_states sm) \<inter> terminal_ids sm. edges (transitions sm) `` {s} = {}"
    using wf by (auto simp: well_formed_def edges_def)
qed (simp add: validate_iff)

definition sample_machine :: StateMachineIR where
  "sample_machine = \<lparr>architecture_id = ''a'', machine_id = ''m'',
     states = [\<lparr>state_id = ''new'', terminal = False\<rparr>, \<lparr>state_id = ''paid'', terminal = True\<rparr>],
     transitions = [\<lparr>transition_id = ''t1'', source = ''new'', target = ''paid'', trigger = ''pay'', guard = None,
        effects = [''ledger''], compensation = []\<rparr>],
     initial_state = ''new'', invariants = []\<rparr>"

theorem validated_machine_is_closed_witness:
  "validate_state_machine sample_machine = [] \<and> set (reachable_states sample_machine) \<subseteq> state_ids sample_machine"
proof -
  have "validate_state_machine sample_machine = []" by code_simp
  then show ?thesis using validated_machine_is_closed [of sample_machine] by blast
qed

end
