(* ===== verification/Settle_Models.thy ===== *)
theory Settle_Models
  imports Py_Prelude
begin

text \<open>
  The data model of marketplace settlement
  (\<^verbatim>\<open>product_factory/marketplace_settlement/models.py\<close> and \<^verbatim>\<open>gateway.py\<close>): events, ledger entries,
  reconciliation mismatches and reports, settlement batches, payouts, the policy, and the two
  gateways as parameters with the static instances the package ships. Fields carry a prefix for
  their class; classes whose names the financial control plane also uses carry \<open>Settlement\<close> in
  their name. Points in time are microseconds: every date is taken to carry a time zone, as all
  dates the package creates do.
\<close>

section \<open>Enumerations\<close>

datatype FinancialEventType =
    FE_PAYMENT_CAPTURED | FE_PAYMENT_FAILED | FE_REFUND_ISSUED | FE_REFUND_FAILED | FE_FEE_CHARGED
  | FE_TAX_CHARGED | FE_CHARGEBACK_OPENED | FE_ADJUSTMENT | FE_PAYOUT_REQUESTED | FE_PAYOUT_COMPLETED

fun financial_event_type_value :: "FinancialEventType \<Rightarrow> string" where
  "financial_event_type_value FE_PAYMENT_CAPTURED = ''PAYMENT_CAPTURED''"
| "financial_event_type_value FE_PAYMENT_FAILED = ''PAYMENT_FAILED''"
| "financial_event_type_value FE_REFUND_ISSUED = ''REFUND_ISSUED''"
| "financial_event_type_value FE_REFUND_FAILED = ''REFUND_FAILED''"
| "financial_event_type_value FE_FEE_CHARGED = ''FEE_CHARGED''"
| "financial_event_type_value FE_TAX_CHARGED = ''TAX_CHARGED''"
| "financial_event_type_value FE_CHARGEBACK_OPENED = ''CHARGEBACK_OPENED''"
| "financial_event_type_value FE_ADJUSTMENT = ''ADJUSTMENT''"
| "financial_event_type_value FE_PAYOUT_REQUESTED = ''PAYOUT_REQUESTED''"
| "financial_event_type_value FE_PAYOUT_COMPLETED = ''PAYOUT_COMPLETED''"

datatype SettlementEntryType =
    ET_CREDIT | ET_DEBIT | ET_FEE | ET_TAX | ET_ADJUSTMENT | ET_SETTLEMENT

fun settlement_entry_type_value :: "SettlementEntryType \<Rightarrow> string" where
  "settlement_entry_type_value ET_CREDIT = ''CREDIT''"
| "settlement_entry_type_value ET_DEBIT = ''DEBIT''"
| "settlement_entry_type_value ET_FEE = ''FEE''"
| "settlement_entry_type_value ET_TAX = ''TAX''"
| "settlement_entry_type_value ET_ADJUSTMENT = ''ADJUSTMENT''"
| "settlement_entry_type_value ET_SETTLEMENT = ''SETTLEMENT''"

datatype SettlementReconStatus = RECON_OK | RECON_WARN | RECON_FAIL

datatype MismatchStatus = MS_OPEN | MS_RESOLVED

datatype SettlementStatus =
    SB_DRAFT | SB_PENDING_GOVERNANCE | SB_APPROVED | SB_SETTLING | SB_SETTLED | SB_FAILED | SB_REVERSED

section \<open>Model classes\<close>

record FinancialEvent =
  fe_id :: string
  fe_idempotency_key :: string
  fe_event_type :: FinancialEventType
  fe_marketplace_id :: string
  fe_tenant_id :: string
  fe_order_id :: "string option"
  fe_amount :: pyfloat
  fe_currency :: string
  fe_payload :: payload
  fe_occurred_at :: int

text \<open>The field constraint \<open>amount >= 0\<close>, which NaN fails.\<close>

definition financial_event_valid :: "FinancialEvent \<Rightarrow> bool" where
  "financial_event_valid ev = f_ge (fe_amount ev) (Fin 0)"

record LedgerEntry =
  sl_id :: string
  sl_event_id :: "string option"
  sl_idempotency_key :: string
  sl_entry_type :: SettlementEntryType
  sl_marketplace_id :: string
  sl_tenant_id :: string
  sl_order_id :: "string option"
  sl_amount :: pyfloat
  sl_currency :: string
  sl_created_at :: int

record SettlementMismatch =
  sm_id :: string
  sm_marketplace_id :: string
  sm_mismatch_type :: string
  sm_severity :: string
  sm_entity_id :: "string option"
  sm_expected :: string
  sm_observed :: string
  sm_details :: payload
  sm_status :: MismatchStatus
  sm_resolved_by :: "string option"
  sm_resolved_at :: "int option"

text \<open>A report lists the mismatch objects themselves, which later resolutions change in place: it
  holds their identifiers, under which the engine keeps the objects for good.\<close>

record SettlementReconReport =
  rp_id :: string
  rp_marketplace_id :: string
  rp_period_start :: int
  rp_period_end :: int
  rp_status :: SettlementReconStatus
  rp_mismatches :: "string list"
  rp_generated_at :: int

record SettlementBatch =
  sb_id :: string
  sb_marketplace_id :: string
  sb_tenant_id :: string
  sb_currency :: string
  sb_period_start :: int
  sb_period_end :: int
  sb_gross_amount :: pyfloat
  sb_refund_amount :: pyfloat
  sb_fee_amount :: pyfloat
  sb_tax_amount :: pyfloat
  sb_net_amount :: pyfloat
  sb_entry_ids :: "string list"
  sb_status :: SettlementStatus
  sb_governance_ref :: "string option"
  sb_provider_ref :: "string option"
  sb_created_at :: int
  sb_executed_at :: "int option"

record PayoutInstruction =
  po_id :: string
  po_settlement_batch_id :: string
  po_participant_id :: string
  po_amount :: pyfloat
  po_currency :: string
  po_status :: string
  po_provider_ref :: "string option"
  po_created_at :: int

record SettlementPolicy =
  sp_require_governance_for_settlement :: bool
  sp_allow_negative_settlement :: bool
  sp_allow_negative_balances :: bool
  sp_min_settlement_amount :: pyfloat
  sp_max_batch_entries :: int
  sp_settlement_currency :: string

definition settlement_policy_default :: SettlementPolicy where
  "settlement_policy_default = \<lparr>sp_require_governance_for_settlement = True,
     sp_allow_negative_settlement = False, sp_allow_negative_balances = False,
     sp_min_settlement_amount = Fin 0, sp_max_batch_entries = 5000, sp_settlement_currency = ''USD''\<rparr>"

text \<open>The field constraints of the policy.\<close>

definition settlement_policy_valid :: "SettlementPolicy \<Rightarrow> bool" where
  "settlement_policy_valid p = (f_ge (sp_min_settlement_amount p) (Fin 0) \<and> 1 \<le> sp_max_batch_entries p)"

section \<open>Gateways\<close>

datatype SettlementDecision = SD_ALLOW | SD_DENY | SD_REQUIRE_APPROVAL

record SettlementGovernanceDecision =
  sg_decision :: SettlementDecision
  sg_reason :: string
  sg_approval_ref :: "string option"

text \<open>\<open>evaluate_action(action, context)\<close>: an exception of the gateway or its decision.\<close>

type_synonym settlement_gateway = "string \<Rightarrow> payload \<Rightarrow> py_exn + SettlementGovernanceDecision"

text \<open>\<open>execute_settlement(batch)\<close>: the text of the exception it raised, or the provider reference.\<close>

type_synonym settlement_adapter = "SettlementBatch \<Rightarrow> string + string"

definition static_governance_gateway :: "SettlementDecision \<Rightarrow> string \<Rightarrow> settlement_gateway" where
  "static_governance_gateway d reason = (\<lambda>action ctx.
     Inr \<lparr>sg_decision = d, sg_reason = reason, sg_approval_ref = None\<rparr>)"

definition static_settlement_adapter :: settlement_adapter where
  "static_settlement_adapter b = Inr (''static_settlement:'' @ sb_id b)"

declare static_governance_gateway_def [run_simps] static_settlement_adapter_def [run_simps]
  settlement_policy_default_def [run_simps]

end
