(* ===== verification/Settle_Ledger.thy ===== *)
theory Settle_Ledger
  imports Settle_Models
begin

text \<open>
  The idempotent ledger of marketplace settlement
  (\<^verbatim>\<open>product_factory/marketplace_settlement/ledger.py\<close>): ingestion of financial events, the query
  for a period, balances, and the append that the settlement engine uses for its own entries.
\<close>

section \<open>State and operations\<close>

record SettlementLedger =
  fl_events :: "FinancialEvent list"
  fl_entries :: "LedgerEntry list"
  fl_idempotency_keys :: "string set"

definition settlement_ledger_init :: SettlementLedger where
  "settlement_ledger_init = \<lparr>fl_events = [], fl_entries = [], fl_idempotency_keys = {}\<rparr>"

fun entry_type_for_event :: "FinancialEventType \<Rightarrow> SettlementEntryType option" where
  "entry_type_for_event FE_PAYMENT_CAPTURED = Some ET_CREDIT"
| "entry_type_for_event FE_REFUND_ISSUED = Some ET_DEBIT"
| "entry_type_for_event FE_CHARGEBACK_OPENED = Some ET_DEBIT"
| "entry_type_for_event FE_PAYOUT_COMPLETED = Some ET_DEBIT"
| "entry_type_for_event FE_FEE_CHARGED = Some ET_FEE"
| "entry_type_for_event FE_TAX_CHARGED = Some ET_TAX"
| "entry_type_for_event FE_ADJUSTMENT = Some ET_ADJUSTMENT"
| "entry_type_for_event _ = None"

definition signed_amount :: "FinancialEvent \<Rightarrow> py_exn + pyfloat" where
  "signed_amount ev = (case fe_event_type ev of
     FE_PAYMENT_CAPTURED \<Rightarrow> Inr (fe_amount ev)
   | FE_REFUND_ISSUED \<Rightarrow> Inr (f_neg (fe_amount ev))
   | FE_CHARGEBACK_OPENED \<Rightarrow> Inr (f_neg (fe_amount ev))
   | FE_FEE_CHARGED \<Rightarrow> Inr (f_neg (fe_amount ev))
   | FE_TAX_CHARGED \<Rightarrow> Inr (f_neg (fe_amount ev))
   | FE_PAYOUT_COMPLETED \<Rightarrow> Inr (f_neg (fe_amount ev))
   | FE_ADJUSTMENT \<Rightarrow> py_float (get_or (fe_payload ev) ''signed_amount'' (PFloat (fe_amount ev)))
   | _ \<Rightarrow> Inr (Fin 0))"

text \<open>\<open>LedgerEntry(\<dots>)\<close>: the identifier and the time are drawn.\<close>

definition new_settlement_entry ::
  "string option \<Rightarrow> string \<Rightarrow> SettlementEntryType \<Rightarrow> string \<Rightarrow> string \<Rightarrow> string option \<Rightarrow> pyfloat \<Rightarrow>
   string \<Rightarrow> world \<Rightarrow> LedgerEntry \<times> world" where
  "new_settlement_entry event_id key ty mid tid oid amount currency w =
     (let (i, w) = new_id ''ledger_entry'' w; (t, w) = utcnow w in
      (\<lparr>sl_id = i, sl_event_id = event_id, sl_idempotency_key = key, sl_entry_type = ty,
        sl_marketplace_id = mid, sl_tenant_id = tid, sl_order_id = oid, sl_amount = amount,
        sl_currency = currency, sl_created_at = t\<rparr>, w))"

definition ingest_event ::
  "FinancialEvent \<Rightarrow> SettlementLedger \<times> world \<Rightarrow> (SettlementLedger \<times> world, LedgerEntry option) outcome" where
  "ingest_event ev c =
     (case c of (L, w) \<Rightarrow>
      if fe_idempotency_key ev \<in> fl_idempotency_keys L then (Inr None, (L, w))
      else case entry_type_for_event (fe_event_type ev) of
        None \<Rightarrow> (Inr None, (L, w))
      | Some ty \<Rightarrow>
        (case signed_amount ev of
           Inl exn \<Rightarrow> (Inl exn, (L, w))
         | Inr amount \<Rightarrow>
           (case new_settlement_entry (Some (fe_id ev)) (fe_idempotency_key ev) ty (fe_marketplace_id ev)
                   (fe_tenant_id ev) (fe_order_id ev) amount (fe_currency ev) w of
              (entry, w') \<Rightarrow>
                (Inr (Some entry),
                 (L\<lparr>fl_events := fl_events L @ [ev], fl_entries := fl_entries L @ [entry],
                    fl_idempotency_keys := insert (fe_idempotency_key ev) (fl_idempotency_keys L)\<rparr>, w')))))"

definition append_entry :: "LedgerEntry \<Rightarrow> SettlementLedger \<Rightarrow> SettlementLedger" where
  "append_entry e L = L\<lparr>fl_entries := fl_entries L @ [e],
     fl_idempotency_keys := (if sl_idempotency_key e \<noteq> [] then insert (sl_idempotency_key e) (fl_idempotency_keys L)
                             else fl_idempotency_keys L)\<rparr>"

definition in_period :: "string \<Rightarrow> int \<Rightarrow> int \<Rightarrow> string option \<Rightarrow> LedgerEntry \<Rightarrow> bool" where
  "in_period mid period_start period_end tid e =
     (if sl_marketplace_id e \<noteq> mid then False
      else if opt_truthy tid \<and> Some (sl_tenant_id e) \<noteq> tid then False
      else if sl_created_at e < period_start then False
      else if sl_created_at e > period_end then False
      else True)"

definition entries_for_period ::
  "string \<Rightarrow> int \<Rightarrow> int \<Rightarrow> string option \<Rightarrow> SettlementLedger \<Rightarrow> LedgerEntry list" where
  "entries_for_period mid period_start period_end tid L =
     filter (in_period mid period_start period_end tid) (fl_entries L)"

text \<open>The loop \<open>total += entry.amount\<close> from \<open>0.0\<close>.\<close>

definition float_total :: "pyfloat list \<Rightarrow> pyfloat" where
  "float_total xs = foldl f_add (Fin 0) xs"

definition of_account :: "string \<Rightarrow> string \<Rightarrow> string \<Rightarrow> LedgerEntry \<Rightarrow> bool" where
  "of_account mid tid cur e =
     (sl_marketplace_id e = mid \<and> sl_tenant_id e = tid \<and> sl_currency e = cur)"

definition ledger_balance :: "string \<Rightarrow> string \<Rightarrow> string \<Rightarrow> SettlementLedger \<Rightarrow> pyfloat" where
  "ledger_balance mid tid cur L =
     f_round 2 (float_total (map sl_amount (filter (of_account mid tid cur) (fl_entries L))))"

declare settlement_ledger_init_def [run_simps] signed_amount_def [run_simps]
  new_settlement_entry_def [run_simps] ingest_event_def [run_simps] append_entry_def [run_simps]
  in_period_def [run_simps] entries_for_period_def [run_simps] float_total_def [run_simps]
  of_account_def [run_simps] ledger_balance_def [run_simps]

section \<open>The outcome of an ingestion\<close>

text \<open>The identifier that the next draw gives.\<close>

definition next_id :: "string \<Rightarrow> world \<Rightarrow> string" where
  "next_id p w = p @ ''_'' @ id_at w (uuid_n w)"

lemma next_id_fresh: "world_le w w' \<Longrightarrow> uuid_n w < uuid_n w' \<Longrightarrow> ids_ok w' \<Longrightarrow> next_id p w \<notin> drawn p w"
  unfolding next_id_def by (rule id_fresh)

lemma next_id_drawn: "world_le w w' \<Longrightarrow> uuid_n w < uuid_n w' \<Longrightarrow> next_id p w \<in> drawn p w'"
  unfolding next_id_def by (rule drawn_next)

text \<open>The entry that books an event.\<close>

definition books_event :: "FinancialEvent \<Rightarrow> LedgerEntry \<Rightarrow> bool" where
  "books_event ev e \<longleftrightarrow> sl_event_id e = Some (fe_id ev) \<and> sl_idempotency_key e = fe_idempotency_key ev
     \<and> Some (sl_entry_type e) = entry_type_for_event (fe_event_type ev)
     \<and> sl_marketplace_id e = fe_marketplace_id ev \<and> sl_tenant_id e = fe_tenant_id ev
     \<and> sl_order_id e = fe_order_id ev \<and> signed_amount ev = Inr (sl_amount e) \<and> sl_currency e = fe_currency ev"

lemma new_settlement_entry_world [simp]:
  "snd (new_settlement_entry a b c d f g h i w) = w\<lparr>uuid_n := Suc (uuid_n w), clock_n := Suc (clock_n w)\<rparr>"
  by (simp add: new_settlement_entry_def new_id_def utcnow_def)

lemma new_settlement_entry_sel [simp]:
  "sl_id (fst (new_settlement_entry a b c d f g h i w)) = next_id ''ledger_entry'' w"
  "sl_event_id (fst (new_settlement_entry a b c d f g h i w)) = a"
  "sl_idempotency_key (fst (new_settlement_entry a b c d f g h i w)) = b"
  "sl_entry_type (fst (new_settlement_entry a b c d f g h i w)) = c"
  "sl_marketplace_id (fst (new_settlement_entry a b c d f g h i w)) = d"
  "sl_tenant_id (fst (new_settlement_entry a b c d f g h i w)) = f"
  "sl_order_id (fst (new_settlement_entry a b c d f g h i w)) = g"
  "sl_amount (fst (new_settlement_entry a b c d f g h i w)) = h"
  "sl_currency (fst (new_settlement_entry a b c d f g h i w)) = i"
  "sl_created_at (fst (new_settlement_entry a b c d f g h i w)) = clock_of w (clock_n w)"
  by (simp_all add: new_settlement_entry_def new_id_def utcnow_def id_at_def next_id_def)

lemma ingest_cases:
  assumes "ingest_event ev (L, w) = (r, (L', w'))"
  obtains (unchanged) "L' = L" "w' = w" "\<forall>e. r \<noteq> Inr (Some e)"
    "r = Inr None \<longrightarrow> fe_idempotency_key ev \<in> fl_idempotency_keys L \<or> entry_type_for_event (fe_event_type ev) = None"
  | (booked) e where "r = Inr (Some e)" "books_event ev e" "fe_idempotency_key ev \<notin> fl_idempotency_keys L"
    "L' = L\<lparr>fl_events := fl_events L @ [ev], fl_entries := fl_entries L @ [e],
           fl_idempotency_keys := insert (fe_idempotency_key ev) (fl_idempotency_keys L)\<rparr>"
    "w' = w\<lparr>uuid_n := Suc (uuid_n w), clock_n := Suc (clock_n w)\<rparr>"
    "sl_id e = next_id ''ledger_entry'' w" "sl_created_at e = clock_of w (clock_n w)"
proof (cases "fe_idempotency_key ev \<in> fl_idempotency_keys L \<or> entry_type_for_event (fe_event_type ev) = None
    \<or> isl (signed_amount ev)")
  case True
  then show ?thesis using assms unchanged
    by (auto simp: ingest_event_def split: option.splits sum.splits if_splits)
next
  case False
  then obtain ty am where ty: "entry_type_for_event (fe_event_type ev) = Some ty" "signed_amount ev = Inr am"
    by (cases "signed_amount ev") auto
  show ?thesis
    by (rule booked[of "fst (new_settlement_entry (Some (fe_id ev)) (fe_idempotency_key ev) ty (fe_marketplace_id ev)
                   (fe_tenant_id ev) (fe_order_id ev) am (fe_currency ev) w)"])
      (use False ty assms in \<open>auto simp: ingest_event_def books_event_def split_beta\<close>)
qed

section \<open>Sums of whole amounts\<close>

lemma f_add_int: "\<bar>a + b\<bar> < 2 ^ 53 \<Longrightarrow> f_add (Fin (of_int a)) (Fin (of_int b)) = Fin (of_int (a + b))"
  using fl_int[of "a + b"] by simp

lemma f_round_int: "\<bar>n\<bar> < 2 ^ 53 \<Longrightarrow> f_round 2 (Fin (of_int n)) = Fin (of_int n)"
proof -
  assume n: "\<bar>n\<bar> < 2 ^ 53"
  have "rhe (of_int n * 10 ^ 2 :: rat) = n * 100"
    using rhe_of_int[of "n * 100"] by simp
  then show ?thesis using fl_int[OF n] by simp
qed

definition whole :: "pyfloat list \<Rightarrow> int list \<Rightarrow> bool" where
  "whole xs ns \<longleftrightarrow> xs = map (\<lambda>n. Fin (of_int n)) ns \<and> (\<Sum>n\<leftarrow>ns. \<bar>n\<bar>) < 2 ^ 53"

lemma abs_sum_list_le: "\<bar>sum_list (ns :: int list)\<bar> \<le> (\<Sum>n\<leftarrow>ns. \<bar>n\<bar>)"
  by (induction ns) auto

lemma foldl_whole:
  "\<bar>a\<bar> + (\<Sum>n\<leftarrow>ns. \<bar>n\<bar>) < 2 ^ 53 \<Longrightarrow>
     foldl f_add (Fin (of_int a)) (map (\<lambda>n. Fin (of_int n)) ns) = Fin (of_int (a + sum_list ns))"
proof (induction ns arbitrary: a)
  case (Cons n ns)
  have s: "0 \<le> (\<Sum>n\<leftarrow>ns. \<bar>n\<bar>)" by (induction ns) auto
  then have "\<bar>a + n\<bar> < 2 ^ 53" "\<bar>a + n\<bar> + (\<Sum>n\<leftarrow>ns. \<bar>n\<bar>) < 2 ^ 53" using Cons.prems by auto
  then show ?case using Cons.IH[of "a + n"] by (simp only: foldl_Cons list.map f_add_int) (simp add: algebra_simps)
qed simp

lemma float_total_whole: "whole xs ns \<Longrightarrow> float_total xs = Fin (of_int (sum_list ns))"
  using foldl_whole[of 0 ns] by (auto simp: whole_def float_total_def)

lemma whole_sum_bound: "whole xs ns \<Longrightarrow> \<bar>sum_list ns\<bar> < 2 ^ 53"
  using abs_sum_list_le[of ns] by (auto simp: whole_def)

end
