(* ===== verification/Settle_Recon.thy ===== *)
theory Settle_Recon
  imports Settle_Ledger
begin

text \<open>
  Reconciliation of financial events against ledger entries
  (\<^verbatim>\<open>product_factory/marketplace_settlement/reconciliation.py\<close>): the run with its three checks, the
  register of mismatches under deterministic identifiers, resolution, and the two questions the
  settlement engine asks before it pays out.
\<close>

section \<open>State and operations\<close>

record SettlementRecon =
  re_mismatches :: "(string, SettlementMismatch) dict"
  re_reports :: "SettlementReconReport list"

definition settlement_recon_init :: SettlementRecon where
  "settlement_recon_init = \<lparr>re_mismatches = [], re_reports = []\<rparr>"

fun ledger_required :: "FinancialEventType \<Rightarrow> bool" where
  "ledger_required FE_PAYMENT_CAPTURED = True"
| "ledger_required FE_REFUND_ISSUED = True"
| "ledger_required FE_FEE_CHARGED = True"
| "ledger_required FE_TAX_CHARGED = True"
| "ledger_required FE_CHARGEBACK_OPENED = True"
| "ledger_required FE_ADJUSTMENT = True"
| "ledger_required FE_PAYOUT_COMPLETED = True"
| "ledger_required _ = False"

definition mismatch_id :: "string \<Rightarrow> string \<Rightarrow> string option \<Rightarrow> string" where
  "mismatch_id mid ty entity = ''mismatch:'' @ mid @ '':'' @ ty @ '':'' @ opt_or_str entity ''unknown''"

definition build_mismatch ::
  "string \<Rightarrow> string \<Rightarrow> string \<Rightarrow> string option \<Rightarrow> string \<Rightarrow> string \<Rightarrow> payload \<Rightarrow> SettlementMismatch" where
  "build_mismatch mid ty severity entity expected observed details =
     \<lparr>sm_id = mismatch_id mid ty entity, sm_marketplace_id = mid, sm_mismatch_type = ty,
      sm_severity = severity, sm_entity_id = entity, sm_expected = expected, sm_observed = observed,
      sm_details = details, sm_status = MS_OPEN, sm_resolved_by = None, sm_resolved_at = None\<rparr>"

definition balances_by_tenant :: "string \<Rightarrow> SettlementLedger \<Rightarrow> (string \<times> string, pyfloat) dict" where
  "balances_by_tenant mid L =
     fold (\<lambda>e bs. if sl_marketplace_id e \<noteq> mid then bs
             else (let key = (sl_tenant_id e, sl_currency e);
                       old = (case dict_get bs key of None \<Rightarrow> Fin 0 | Some b \<Rightarrow> b)
                   in dict_set key (f_round 2 (f_add old (sl_amount e))) bs))
       (fl_entries L) []"

definition period_events :: "string \<Rightarrow> int \<Rightarrow> int \<Rightarrow> SettlementLedger \<Rightarrow> FinancialEvent list" where
  "period_events mid period_start period_end L =
     filter (\<lambda>ev. fe_marketplace_id ev = mid \<and> period_start \<le> fe_occurred_at ev \<and> fe_occurred_at ev \<le> period_end)
       (fl_events L)"

definition missing_entries :: "string \<Rightarrow> FinancialEvent list \<Rightarrow> LedgerEntry list \<Rightarrow> SettlementMismatch list" where
  "missing_entries mid events entries =
     (let ledger_event_ids = {i. \<exists>e \<in> set entries. sl_event_id e = Some i \<and> i \<noteq> []} in
      map (\<lambda>ev. build_mismatch mid ''MISSING_LEDGER_ENTRY'' ''HIGH'' (Some (fe_id ev)) ''ledger_entry'' ''missing''
            [(''event_type'', PStr (financial_event_type_value (fe_event_type ev))),
             (''idempotency_key'', PStr (fe_idempotency_key ev))])
        (filter (\<lambda>ev. ledger_required (fe_event_type ev) \<and> fe_id ev \<notin> ledger_event_ids) events))"

definition orphan_entries :: "string \<Rightarrow> FinancialEvent list \<Rightarrow> LedgerEntry list \<Rightarrow> SettlementMismatch list" where
  "orphan_entries mid events entries =
     (let event_ids = fe_id ` set events in
      map (\<lambda>e. build_mismatch mid ''ORPHAN_LEDGER_ENTRY'' ''HIGH'' (Some (sl_id e)) ''financial_event'' ''missing''
            [(''entry_type'', PStr (settlement_entry_type_value (sl_entry_type e))),
             (''idempotency_key'', PStr (sl_idempotency_key e))])
        (filter (\<lambda>e. opt_truthy (sl_event_id e) \<and> the (sl_event_id e) \<notin> event_ids) entries))"

definition negative_balances :: "string \<Rightarrow> SettlementPolicy \<Rightarrow> SettlementLedger \<Rightarrow> SettlementMismatch list" where
  "negative_balances mid pol L =
     map (\<lambda>((tid, cur), bal). build_mismatch mid ''NEGATIVE_BALANCE'' ''HIGH'' (Some (tid @ '':'' @ cur))
            ''>=0'' (float_repr bal) [(''tenant_id'', PStr tid), (''currency'', PStr cur)])
       (filter (\<lambda>(k, bal). f_lt bal (Fin 0) \<and> \<not> sp_allow_negative_balances pol) (balances_by_tenant mid L))"

text \<open>Everything one run finds, in the order it is found.\<close>

definition found_mismatches ::
  "SettlementPolicy \<Rightarrow> string \<Rightarrow> int \<Rightarrow> int \<Rightarrow> SettlementLedger \<Rightarrow> SettlementMismatch list" where
  "found_mismatches pol mid period_start period_end L =
     (let entries = entries_for_period mid period_start period_end None L;
          events = period_events mid period_start period_end L
      in missing_entries mid events entries @ orphan_entries mid events entries @ negative_balances mid pol L)"

text \<open>A mismatch is stored unless its identifier is already known, open or resolved.\<close>

definition register_mismatches ::
  "SettlementMismatch list \<Rightarrow> (string, SettlementMismatch) dict \<Rightarrow> (string, SettlementMismatch) dict" where
  "register_mismatches ms d = fold (\<lambda>m. dict_setdefault (sm_id m) m) ms d"

definition open_mismatches :: "string \<Rightarrow> (string, SettlementMismatch) dict \<Rightarrow> SettlementMismatch list" where
  "open_mismatches mid d = filter (\<lambda>m. sm_marketplace_id m = mid \<and> sm_status m = MS_OPEN) (dict_values d)"

definition recon_status :: "SettlementMismatch list \<Rightarrow> SettlementReconStatus" where
  "recon_status ms =
     (if \<exists>m \<in> set ms. sm_severity m = ''HIGH'' then RECON_FAIL
      else if \<exists>m \<in> set ms. sm_severity m = ''WARNING'' then RECON_WARN
      else RECON_OK)"

definition recon_run ::
  "SettlementPolicy \<Rightarrow> string \<Rightarrow> int \<Rightarrow> int \<Rightarrow> SettlementLedger \<Rightarrow> SettlementRecon \<times> world \<Rightarrow>
   SettlementReconReport \<times> SettlementRecon \<times> world" where
  "recon_run pol mid period_start period_end L c =
     (case c of (R, w) \<Rightarrow>
      let ms = register_mismatches (found_mismatches pol mid period_start period_end L) (re_mismatches R);
          op = open_mismatches mid ms;
          (i, w) = new_id ''reconciliation_report'' w; (t, w) = utcnow w;
          report = \<lparr>rp_id = i, rp_marketplace_id = mid, rp_period_start = period_start,
            rp_period_end = period_end, rp_status = recon_status op, rp_mismatches = map sm_id op,
            rp_generated_at = t\<rparr>
      in (report, (R\<lparr>re_mismatches := ms, re_reports := re_reports R @ [report]\<rparr>, w)))"

definition resolve_mismatch ::
  "string \<Rightarrow> string \<Rightarrow> string \<Rightarrow> SettlementRecon \<Rightarrow> (SettlementRecon, SettlementMismatch) outcome" where
  "resolve_mismatch i actor_id notes R =
     (case dict_get (re_mismatches R) i of
        None \<Rightarrow> (Inl (KeyError (''Mismatch not found: '' @ i)), R)
      | Some m \<Rightarrow>
        (let m' = m\<lparr>sm_status := MS_RESOLVED, sm_resolved_by := Some actor_id,
                    sm_details := dict_set ''resolution_notes'' (PStr notes) (sm_details m)\<rparr>
         in (Inr m', R\<lparr>re_mismatches := dict_set i m' (re_mismatches R)\<rparr>)))"

definition recon_latest_report :: "string \<Rightarrow> SettlementRecon \<Rightarrow> SettlementReconReport option" where
  "recon_latest_report mid R = List.find (\<lambda>r. rp_marketplace_id r = mid) (rev (re_reports R))"

definition latest_report_failed :: "string \<Rightarrow> SettlementRecon \<Rightarrow> bool" where
  "latest_report_failed mid R =
     (case recon_latest_report mid R of None \<Rightarrow> False | Some r \<Rightarrow> rp_status r = RECON_FAIL)"

definition has_blocking_mismatches :: "string \<Rightarrow> SettlementRecon \<Rightarrow> bool" where
  "has_blocking_mismatches mid R =
     (\<exists>m \<in> set (dict_values (re_mismatches R)).
        sm_marketplace_id m = mid \<and> sm_status m = MS_OPEN \<and> sm_severity m = ''HIGH'')"

lemmas recon_run_defs = settlement_recon_init_def mismatch_id_def build_mismatch_def balances_by_tenant_def
  period_events_def missing_entries_def orphan_entries_def negative_balances_def found_mismatches_def
  register_mismatches_def open_mismatches_def recon_status_def recon_run_def
  resolve_mismatch_def recon_latest_report_def latest_report_failed_def has_blocking_mismatches_def

declare recon_run_defs [run_simps]

section \<open>The mismatches of a run\<close>

lemma build_mismatch_sel [simp]:
  "sm_id (build_mismatch a b c d e f g) = mismatch_id a b d"
  "sm_marketplace_id (build_mismatch a b c d e f g) = a" "sm_severity (build_mismatch a b c d e f g) = c"
  "sm_status (build_mismatch a b c d e f g) = MS_OPEN" "sm_mismatch_type (build_mismatch a b c d e f g) = b"
  by (simp_all add: build_mismatch_def)

lemma found_fresh:
  assumes "m \<in> set (found_mismatches pol mid s t L)"
  shows "sm_marketplace_id m = mid" "sm_severity m = ''HIGH''" "sm_status m = MS_OPEN"
  using assms
  by (auto simp: found_mismatches_def missing_entries_def orphan_entries_def negative_balances_def Let_def)

lemma register_get:
  "dict_get (register_mismatches ms d) i =
     (case dict_get d i of Some m \<Rightarrow> Some m | None \<Rightarrow> List.find (\<lambda>m. sm_id m = i) ms)"
  by (induction ms arbitrary: d) (auto simp: register_mismatches_def dict_setdefault_get split: option.splits)

lemma register_wf: "dict_wf d \<Longrightarrow> dict_wf (register_mismatches ms d)"
  by (induction ms arbitrary: d) (auto simp: register_mismatches_def dict_setdefault_wf)

lemma open_mismatches_iff:
  "dict_wf d \<Longrightarrow> m \<in> set (open_mismatches mid d) \<longleftrightarrow>
     sm_marketplace_id m = mid \<and> sm_status m = MS_OPEN \<and> (\<exists>i. dict_get d i = Some m)"
  by (auto simp: open_mismatches_def dict.vals_lookup)

lemma recon_status_FAIL_iff: "recon_status ms = RECON_FAIL \<longleftrightarrow> (\<exists>m \<in> set ms. sm_severity m = ''HIGH'')"
  by (simp add: recon_status_def)

lemma blocking_iff_open_high:
  "has_blocking_mismatches mid R \<longleftrightarrow>
     (\<exists>m \<in> set (open_mismatches mid (re_mismatches R)). sm_severity m = ''HIGH'')"
  by (auto simp: has_blocking_mismatches_def open_mismatches_def)

text \<open>After a run the blocking question and the status of its report agree.\<close>

lemma recon_run_sel:
  assumes "recon_run pol mid s t L (R, w) = (rep, R', w')"
  shows "re_mismatches R' = register_mismatches (found_mismatches pol mid s t L) (re_mismatches R)"
    "rp_status rep = recon_status (open_mismatches mid (re_mismatches R'))"
    "rp_marketplace_id rep = mid" "re_reports R' = re_reports R @ [rep]"
    "rp_mismatches rep = map sm_id (open_mismatches mid (re_mismatches R'))"
    "recon_latest_report mid R' = Some rep"
    "w' = w\<lparr>uuid_n := Suc (uuid_n w), clock_n := Suc (clock_n w)\<rparr>"
  using assms by (auto simp: recon_run_def new_id_def utcnow_def Let_def recon_latest_report_def)

lemma run_fail_iff_blocking:
  assumes "recon_run pol mid s t L (R, w) = (rep, R', w')"
  shows "rp_status rep = RECON_FAIL \<longleftrightarrow> has_blocking_mismatches mid R'"
  by (simp add: recon_run_sel(2)[OF assms] recon_status_FAIL_iff blocking_iff_open_high)

text \<open>What a run finds blocks, unless the same identifier was found before and resolved.\<close>

lemma found_blocks:
  assumes run: "recon_run pol mid s t L (R, w) = (rep, R', w')"
    and m: "m \<in> set (found_mismatches pol mid s t L)" and new: "dict_get (re_mismatches R) (sm_id m) = None"
  shows "has_blocking_mismatches mid R'"
proof -
  let ?f = "found_mismatches pol mid s t L"
  obtain m' where m': "List.find (\<lambda>x. sm_id x = sm_id m) ?f = Some m'"
    using m by (cases "List.find (\<lambda>x. sm_id x = sm_id m) ?f") (auto simp: find_None_iff)
  then have "m' \<in> set ?f" by (auto simp: find_Some_iff)
  moreover have "dict_get (re_mismatches R') (sm_id m) = Some m'"
    by (simp add: recon_run_sel(1)[OF run] register_get new m')
  ultimately show ?thesis
    using found_fresh[of m'] by (auto simp: has_blocking_mismatches_def intro!: bexI dict_get_in_values)
qed

end
