(* ===== verification/Settle_Engine.thy ===== *)
theory Settle_Engine
  imports Settle_Recon
begin

text \<open>
  Settlement batches and payouts (\<^verbatim>\<open>product_factory/marketplace_settlement/settlement.py\<close>), the
  coordinator that wires ledger, reconciliation and settlement together (\<^verbatim>\<open>engine.py\<close>), and the
  HTTP routes over it (\<^verbatim>\<open>api.py\<close>). A batch object is shared between the dictionary and every
  caller: the dictionary holds its current state, which each operation reads and overwrites.
\<close>

section \<open>State\<close>

record SettlementEngine =
  se_batches :: "(string, SettlementBatch) dict"
  se_payouts :: "PayoutInstruction list"
  se_settled_entry_ids :: "string set"

definition settlement_engine_init :: SettlementEngine where
  "settlement_engine_init = \<lparr>se_batches = [], se_payouts = [], se_settled_entry_ids = {}\<rparr>"

text \<open>A mutation of the batch object stored under an identifier.\<close>

definition put_batch :: "string \<Rightarrow> SettlementBatch \<Rightarrow> SettlementEngine \<Rightarrow> SettlementEngine" where
  "put_batch i b S = S\<lparr>se_batches := dict_set i b (se_batches S)\<rparr>"

definition get_batch :: "string \<Rightarrow> SettlementEngine \<Rightarrow> py_exn + SettlementBatch" where
  "get_batch i S = (case dict_get (se_batches S) i of
     None \<Rightarrow> Inl (KeyError (''Settlement batch not found: '' @ i)) | Some b \<Rightarrow> Inr b)"

section \<open>Creating a batch\<close>

text \<open>One iteration of the summation loop: gross, refunds, fees, taxes and net.\<close>

definition batch_sum_step ::
  "pyfloat \<times> pyfloat \<times> pyfloat \<times> pyfloat \<times> pyfloat \<Rightarrow> LedgerEntry \<Rightarrow>
   pyfloat \<times> pyfloat \<times> pyfloat \<times> pyfloat \<times> pyfloat" where
  "batch_sum_step s e = (case s of (gross, refund, fee, tax, net) \<Rightarrow>
     (if sl_entry_type e = ET_CREDIT then f_add gross (sl_amount e) else gross,
      if sl_entry_type e = ET_DEBIT then f_add refund (f_abs (sl_amount e)) else refund,
      if sl_entry_type e = ET_FEE then f_add fee (f_abs (sl_amount e)) else fee,
      if sl_entry_type e = ET_TAX then f_add tax (f_abs (sl_amount e)) else tax,
      f_add net (sl_amount e)))"

definition batch_sums :: "LedgerEntry list \<Rightarrow> pyfloat \<times> pyfloat \<times> pyfloat \<times> pyfloat \<times> pyfloat" where
  "batch_sums es = foldl batch_sum_step (Fin 0, Fin 0, Fin 0, Fin 0, Fin 0) es"

definition batch_entries ::
  "string \<Rightarrow> string \<Rightarrow> string \<Rightarrow> int \<Rightarrow> int \<Rightarrow> SettlementLedger \<Rightarrow> SettlementEngine \<Rightarrow> LedgerEntry list" where
  "batch_entries mid tid cur period_start period_end L S =
     filter (\<lambda>e. sl_id e \<notin> se_settled_entry_ids S \<and> sl_currency e = cur)
       (entries_for_period mid period_start period_end (Some tid) L)"

text \<open>Construction of the batch object from the sums, with a drawn identifier and time.\<close>

definition new_batch ::
  "string \<Rightarrow> string \<Rightarrow> string \<Rightarrow> int \<Rightarrow> int \<Rightarrow> LedgerEntry list \<Rightarrow> SettlementStatus \<Rightarrow> world \<Rightarrow>
   SettlementBatch \<times> world" where
  "new_batch mid tid cur period_start period_end entries status w =
     (case batch_sums entries of (gross, refund, fee, tax, net) \<Rightarrow>
      let (i, w) = new_id ''settlement_batch'' w; (t, w) = utcnow w in
      (\<lparr>sb_id = i, sb_marketplace_id = mid, sb_tenant_id = tid, sb_currency = cur,
        sb_period_start = period_start, sb_period_end = period_end,
        sb_gross_amount = f_round 2 gross, sb_refund_amount = f_round 2 refund,
        sb_fee_amount = f_round 2 fee, sb_tax_amount = f_round 2 tax, sb_net_amount = f_round 2 net,
        sb_entry_ids = map sl_id entries, sb_status = status, sb_governance_ref = None,
        sb_provider_ref = None, sb_created_at = t, sb_executed_at = None\<rparr>, w))"

definition batch_net :: "LedgerEntry list \<Rightarrow> pyfloat" where
  "batch_net es = (case batch_sums es of (gross, refund, fee, tax, net) \<Rightarrow> f_round 2 net)"

definition create_batch ::
  "SettlementPolicy \<Rightarrow> string \<Rightarrow> string \<Rightarrow> string \<Rightarrow> int \<Rightarrow> int \<Rightarrow> SettlementLedger \<Rightarrow>
   SettlementEngine \<times> world \<Rightarrow> (SettlementEngine \<times> world, SettlementBatch) outcome" where
  "create_batch pol mid tid cur period_start period_end L c =
     (case c of (S, w) \<Rightarrow>
      let entries = batch_entries mid tid cur period_start period_end L S;
          net = batch_net entries
      in if entries = [] then (Inl (ValueError ''No unsettled ledger entries found for period.''), c)
      else if int (length entries) > sp_max_batch_entries pol then
        (Inl (ValueError ''Settlement batch exceeds maximum entry count.''), c)
      else if f_lt net (sp_min_settlement_amount pol) then
        (Inl (ValueError ''Settlement amount is below minimum threshold.''), c)
      else
       (let status = (if f_lt net (Fin 0) \<and> \<not> sp_allow_negative_settlement pol then SB_FAILED else SB_DRAFT)
        in case new_batch mid tid cur period_start period_end entries status w of
             (b, w') \<Rightarrow> (Inr b, (put_batch (sb_id b) b S, w'))))"

section \<open>Approval\<close>

definition approval_context :: "SettlementBatch \<Rightarrow> string \<Rightarrow> payload" where
  "approval_context b actor_id =
     [(''batch_id'', PStr (sb_id b)), (''marketplace_id'', PStr (sb_marketplace_id b)),
      (''tenant_id'', PStr (sb_tenant_id b)), (''net_amount'', PFloat (sb_net_amount b)),
      (''currency'', PStr (sb_currency b)), (''actor_id'', PStr actor_id)]"

definition approve_settlement ::
  "SettlementPolicy \<Rightarrow> settlement_gateway option \<Rightarrow> string \<Rightarrow> string \<Rightarrow> string option \<Rightarrow>
   SettlementEngine \<Rightarrow> (SettlementEngine, SettlementBatch) outcome" where
  "approve_settlement pol gateway batch_id actor_id approval_ref S =
     (case get_batch batch_id S of
        Inl exn \<Rightarrow> (Inl exn, S)
      | Inr b \<Rightarrow>
        if sb_status b \<noteq> SB_DRAFT \<and> sb_status b \<noteq> SB_PENDING_GOVERNANCE then
          (Inl (ValueError ''Settlement batch cannot be approved.''), S)
        else if \<not> sp_require_governance_for_settlement pol then
          (let b' = b\<lparr>sb_status := SB_APPROVED\<rparr> in (Inr b', put_batch batch_id b' S))
        else (case gateway of
          None \<Rightarrow> (Inl (PermissionError ''Governance gateway is required for settlement approval.''), S)
        | Some gw \<Rightarrow>
          (case gw ''MARKETPLACE_SETTLEMENT_APPROVAL'' (approval_context b actor_id) of
             Inl exn \<Rightarrow> (Inl exn, S)
           | Inr d \<Rightarrow>
             (case sg_decision d of
                SD_DENY \<Rightarrow>
                  (Inl (PermissionError (''Settlement approval denied: '' @ sg_reason d)),
                   put_batch batch_id (b\<lparr>sb_status := SB_FAILED\<rparr>) S)
              | SD_REQUIRE_APPROVAL \<Rightarrow>
                  (let b' = b\<lparr>sb_status := SB_PENDING_GOVERNANCE, sb_governance_ref := sg_approval_ref d\<rparr>
                   in (Inr b', put_batch batch_id b' S))
              | SD_ALLOW \<Rightarrow>
                  (let b' = b\<lparr>sb_governance_ref := opt_or (sg_approval_ref d) approval_ref,
                              sb_status := SB_APPROVED\<rparr>
                   in (Inr b', put_batch batch_id b' S))))))"

section \<open>Execution\<close>

text \<open>The entry that books a payout, and the payout itself.\<close>

definition settlement_entry :: "SettlementBatch \<Rightarrow> world \<Rightarrow> LedgerEntry \<times> world" where
  "settlement_entry b w =
     new_settlement_entry (Some (sb_id b)) (''settlement:'' @ sb_id b) ET_SETTLEMENT (sb_marketplace_id b)
       (sb_tenant_id b) None (f_neg (sb_net_amount b)) (sb_currency b) w"

definition new_payout :: "SettlementBatch \<Rightarrow> string \<Rightarrow> world \<Rightarrow> PayoutInstruction \<times> world" where
  "new_payout b provider_ref w =
     (let (i, w) = new_id ''payout_instruction'' w; (t, w) = utcnow w in
      (\<lparr>po_id = i, po_settlement_batch_id = sb_id b, po_participant_id = sb_tenant_id b,
        po_amount = sb_net_amount b, po_currency = sb_currency b, po_status = ''COMPLETED'',
        po_provider_ref = Some provider_ref, po_created_at = t\<rparr>, w))"

text \<open>The part of \<open>execute_settlement\<close> after the adapter has returned.\<close>

definition finish_settlement ::
  "string \<Rightarrow> SettlementBatch \<Rightarrow> string \<Rightarrow> SettlementEngine \<times> SettlementLedger \<times> world \<Rightarrow>
   SettlementBatch \<times> SettlementEngine \<times> SettlementLedger \<times> world" where
  "finish_settlement batch_id b provider_ref c =
     (case c of (S, L, w) \<Rightarrow>
      let (S, L, w) =
            (if sb_net_amount b \<noteq> Fin 0 then
               (case settlement_entry b w of (e, w') \<Rightarrow>
                  (S\<lparr>se_settled_entry_ids := se_settled_entry_ids S \<union> set (sb_entry_ids b)\<rparr>, append_entry e L, w'))
             else (S, L, w));
          (p, w) = new_payout b provider_ref w;
          b' = b\<lparr>sb_provider_ref := Some provider_ref, sb_status := SB_SETTLED,
                 sb_executed_at := (case sb_executed_at b of Some t \<Rightarrow> Some t | None \<Rightarrow> Some (sb_created_at b))\<rparr>
      in (b', (put_batch batch_id b' (S\<lparr>se_payouts := se_payouts S @ [p]\<rparr>), L, w)))"

definition execute_settlement ::
  "settlement_adapter option \<Rightarrow> string \<Rightarrow> SettlementRecon \<Rightarrow>
   SettlementEngine \<times> SettlementLedger \<times> world \<Rightarrow>
   (SettlementEngine \<times> SettlementLedger \<times> world, SettlementBatch) outcome" where
  "execute_settlement adapter batch_id R c =
     (case c of (S, L, w) \<Rightarrow>
      case get_batch batch_id S of
        Inl exn \<Rightarrow> (Inl exn, c)
      | Inr b \<Rightarrow>
        if sb_status b \<noteq> SB_APPROVED then
          (Inl (ValueError ''Settlement batch must be approved before execution.''), c)
        else if has_blocking_mismatches (sb_marketplace_id b) R then
          (Inl (PermissionError ''Settlement blocked by unresolved reconciliation mismatches.''), c)
        else if latest_report_failed (sb_marketplace_id b) R then
          (Inl (PermissionError ''Settlement blocked because latest reconciliation failed.''), c)
        else (case adapter of
          None \<Rightarrow> (Inl (PermissionError ''Settlement adapter is not configured.''), c)
        | Some ad \<Rightarrow>
          (let b = b\<lparr>sb_status := SB_SETTLING\<rparr> in
           case ad b of
             Inl msg \<Rightarrow>
               (Inl (RuntimeError (''Settlement execution failed: '' @ msg)),
                (put_batch batch_id (b\<lparr>sb_status := SB_FAILED\<rparr>) S, L, w))
           | Inr provider_ref \<Rightarrow>
               (case finish_settlement batch_id b provider_ref (S, L, w) of (b', c') \<Rightarrow> (Inr b', c')))))"

section \<open>The coordinator\<close>

record MarketplaceSettlementEngine =
  me_policy :: SettlementPolicy
  me_ledger :: SettlementLedger
  me_recon :: SettlementRecon
  me_settle :: SettlementEngine

definition marketplace_settlement_init :: "SettlementPolicy option \<Rightarrow> MarketplaceSettlementEngine" where
  "marketplace_settlement_init pol =
     \<lparr>me_policy = (case pol of Some p \<Rightarrow> p | None \<Rightarrow> settlement_policy_default),
      me_ledger = settlement_ledger_init, me_recon = settlement_recon_init, me_settle = settlement_engine_init\<rparr>"

definition settlement_report :: "MarketplaceSettlementEngine \<Rightarrow> (string, nat) dict" where
  "settlement_report E =
     [(''ledger_entries'', length (fl_entries (me_ledger E))),
      (''financial_events'', length (fl_events (me_ledger E))),
      (''reconciliation_reports'', length (re_reports (me_recon E))),
      (''open_mismatches'',
        length (filter (\<lambda>m. sm_status m = MS_OPEN) (dict_values (re_mismatches (me_recon E))))),
      (''settlement_batches'', length (se_batches (me_settle E))),
      (''payout_instructions'', length (se_payouts (me_settle E)))]"

type_synonym settle_ctx = "MarketplaceSettlementEngine \<times> world"

text \<open>The calls that change the engine. A gateway and an adapter come with the call, so that their
  answers may differ from call to call.\<close>

datatype settle_call =
    Ingest FinancialEvent
  | RunRecon string int int
  | Resolve string string string
  | CreateBatch string string string int int
  | Approve "settlement_gateway option" string string "string option"
  | Execute "settlement_adapter option" string

fun perform :: "settle_call \<Rightarrow> settle_ctx \<Rightarrow> settle_ctx" where
  "perform (Ingest ev) (E, w) =
     (case ingest_event ev (me_ledger E, w) of (_, (L, w')) \<Rightarrow> (E\<lparr>me_ledger := L\<rparr>, w'))"
| "perform (RunRecon mid s t) (E, w) =
     (case recon_run (me_policy E) mid s t (me_ledger E) (me_recon E, w) of
        (_, (R, w')) \<Rightarrow> (E\<lparr>me_recon := R\<rparr>, w'))"
| "perform (Resolve i actor notes) (E, w) =
     (case resolve_mismatch i actor notes (me_recon E) of (_, R) \<Rightarrow> (E\<lparr>me_recon := R\<rparr>, w))"
| "perform (CreateBatch mid tid cur s t) (E, w) =
     (case create_batch (me_policy E) mid tid cur s t (me_ledger E) (me_settle E, w) of
        (_, (S, w')) \<Rightarrow> (E\<lparr>me_settle := S\<rparr>, w'))"
| "perform (Approve gw i actor ref) (E, w) =
     (case approve_settlement (me_policy E) gw i actor ref (me_settle E) of (_, S) \<Rightarrow> (E\<lparr>me_settle := S\<rparr>, w))"
| "perform (Execute ad i) (E, w) =
     (case execute_settlement ad i (me_recon E) (me_settle E, me_ledger E, w) of
        (_, (S, L, w')) \<Rightarrow> (E\<lparr>me_settle := S, me_ledger := L\<rparr>, w'))"

definition perform_all :: "settle_call list \<Rightarrow> settle_ctx \<Rightarrow> settle_ctx" where
  "perform_all cs c = fold perform cs c"

definition settle_start :: "SettlementPolicy option \<Rightarrow> world \<Rightarrow> settle_ctx" where
  "settle_start pol w = (marketplace_settlement_init pol, w)"

section \<open>HTTP routes\<close>

text \<open>A route turns exceptions into responses; those it does not catch become status 500. The
  detail of an error response is the text of the exception. A validation error is a \<open>ValueError\<close> and
  \<open>NotImplementedError\<close> a \<open>RuntimeError\<close> for an \<open>except\<close> clause.\<close>

datatype 'a http_response = HTTP_Ok nat 'a | HTTP_Error nat py_exn

fun settlement_error_status :: "py_exn \<Rightarrow> nat" where
  "settlement_error_status (KeyError _) = 404"
| "settlement_error_status (ValueError _) = 409"
| "settlement_error_status (ValidationError _) = 409"
| "settlement_error_status (PermissionError _) = 403"
| "settlement_error_status _ = 500"

datatype ingest_reply = Duplicate_Event string | Booked LedgerEntry

definition api_ingest_event :: "FinancialEvent \<Rightarrow> settle_ctx \<Rightarrow> ingest_reply http_response \<times> settle_ctx" where
  "api_ingest_event ev c =
     ((case fst (ingest_event ev (me_ledger (fst c), snd c)) of
         Inl exn \<Rightarrow> HTTP_Error 500 exn
       | Inr None \<Rightarrow> HTTP_Ok 201 (Duplicate_Event (fe_idempotency_key ev))
       | Inr (Some e) \<Rightarrow> HTTP_Ok 201 (Booked e)),
      perform (Ingest ev) c)"

definition api_run_reconciliation ::
  "string \<Rightarrow> int \<Rightarrow> int \<Rightarrow> settle_ctx \<Rightarrow> SettlementReconReport http_response \<times> settle_ctx" where
  "api_run_reconciliation mid s t c =
     (HTTP_Ok 200 (fst (recon_run (me_policy (fst c)) mid s t (me_ledger (fst c)) (me_recon (fst c), snd c))),
      perform (RunRecon mid s t) c)"

definition api_resolve_mismatch ::
  "string \<Rightarrow> string \<Rightarrow> string \<Rightarrow> settle_ctx \<Rightarrow> SettlementMismatch http_response \<times> settle_ctx" where
  "api_resolve_mismatch i actor notes c =
     ((case fst (resolve_mismatch i actor notes (me_recon (fst c))) of
         Inl exn \<Rightarrow> HTTP_Error (case exn of KeyError _ \<Rightarrow> 404 | _ \<Rightarrow> 500) exn | Inr m \<Rightarrow> HTTP_Ok 200 m),
      perform (Resolve i actor notes) c)"

definition api_create_batch ::
  "string \<Rightarrow> string \<Rightarrow> string \<Rightarrow> int \<Rightarrow> int \<Rightarrow> settle_ctx \<Rightarrow> SettlementBatch http_response \<times> settle_ctx" where
  "api_create_batch mid tid cur s t c =
     ((case fst (create_batch (me_policy (fst c)) mid tid cur s t (me_ledger (fst c)) (me_settle (fst c), snd c)) of
         Inl exn \<Rightarrow> HTTP_Error (case exn of ValueError _ \<Rightarrow> 409 | ValidationError _ \<Rightarrow> 409 | _ \<Rightarrow> 500) exn
       | Inr b \<Rightarrow> HTTP_Ok 201 b),
      perform (CreateBatch mid tid cur s t) c)"

definition api_approve_settlement ::
  "settlement_gateway option \<Rightarrow> string \<Rightarrow> string \<Rightarrow> string option \<Rightarrow> settle_ctx \<Rightarrow>
   SettlementBatch http_response \<times> settle_ctx" where
  "api_approve_settlement gw i actor ref c =
     ((case fst (approve_settlement (me_policy (fst c)) gw i actor ref (me_settle (fst c))) of
         Inl exn \<Rightarrow> HTTP_Error (settlement_error_status exn) exn
       | Inr b \<Rightarrow> HTTP_Ok 200 b),
      perform (Approve gw i actor ref) c)"

definition api_execute_settlement ::
  "settlement_adapter option \<Rightarrow> string \<Rightarrow> settle_ctx \<Rightarrow> SettlementBatch http_response \<times> settle_ctx" where
  "api_execute_settlement ad i c =
     ((case fst (execute_settlement ad i (me_recon (fst c)) (me_settle (fst c), me_ledger (fst c), snd c)) of
         Inl exn \<Rightarrow> HTTP_Error (case exn of RuntimeError _ \<Rightarrow> 502 | NotImplementedError _ \<Rightarrow> 502
            | _ \<Rightarrow> settlement_error_status exn) exn
       | Inr b \<Rightarrow> HTTP_Ok 200 b),
      perform (Execute ad i) c)"

definition api_get_balance :: "string \<Rightarrow> string \<Rightarrow> string \<Rightarrow> settle_ctx \<Rightarrow> payload" where
  "api_get_balance mid tid cur c =
     [(''marketplace_id'', PStr mid), (''tenant_id'', PStr tid), (''currency'', PStr cur),
      (''balance'', PFloat (ledger_balance mid tid cur (me_ledger (fst c))))]"

lemmas settle_run_defs = settlement_engine_init_def put_batch_def get_batch_def batch_sum_step_def batch_sums_def
  batch_entries_def new_batch_def batch_net_def create_batch_def approval_context_def approve_settlement_def
  settlement_entry_def new_payout_def finish_settlement_def execute_settlement_def
  marketplace_settlement_init_def settlement_report_def perform_all_def settle_start_def

declare settle_run_defs [run_simps]

end
