(* ===== verification/Settle_Safety.thy ===== *)
theory Settle_Safety
  imports Settle_Engine
begin

text \<open>
  What settlement guarantees over any sequence of calls: the life cycle of a batch, one payout and
  one ledger entry per settled batch, and the life of a mismatch. The calls are first shown to
  stay within a small step relation on batches, ledger and time; the invariants are proved for that
  relation.
\<close>

section \<open>Objects under an identifier\<close>

text \<open>Objects that stay under their identifier and only develop along a preorder, as long as the
  identifiers drawn so far differ.\<close>

locale object_history =
  fixes act :: "'a \<Rightarrow> 's \<Rightarrow> 's"
    and obj :: "'s \<Rightarrow> 'k \<Rightarrow> 'o option"
    and develops :: "'o \<Rightarrow> 'o \<Rightarrow> bool"
    and inv :: "'s \<Rightarrow> bool"
    and ok :: "'s \<Rightarrow> bool"
  assumes ok_before: "ok (act a s) \<Longrightarrow> ok s"
    and inv_act: "inv s \<Longrightarrow> ok (act a s) \<Longrightarrow> inv (act a s)"
    and obj_act: "inv s \<Longrightarrow> ok (act a s) \<Longrightarrow> obj s k = Some x \<Longrightarrow> \<exists>y. obj (act a s) k = Some y \<and> develops x y"
    and develops_refl: "develops x x"
    and develops_trans: "develops x y \<Longrightarrow> develops y z \<Longrightarrow> develops x z"
begin

lemma ok_run: "ok (fold act as s) \<Longrightarrow> ok s"
  by (induction as arbitrary: s) (auto dest: ok_before)

lemma inv_run: "inv s \<Longrightarrow> ok (fold act as s) \<Longrightarrow> inv (fold act as s)"
  by (induction as arbitrary: s) (auto intro: inv_act dest: ok_run)

lemma obj_run:
  assumes "inv s" "ok (fold act as s)" "obj s k = Some x"
  shows "\<exists>y. obj (fold act as s) k = Some y \<and> develops x y"
  using assms
proof (induction as arbitrary: s x)
  case (Cons a as)
  then have ok: "ok (act a s)" by (auto dest: ok_run)
  with Cons.prems obtain y where y: "obj (act a s) k = Some y" "develops x y" using obj_act by blast
  moreover have "inv (act a s)" using Cons.prems(1) ok by (rule inv_act)
  ultimately show ?case using Cons.IH[of "act a s" y] Cons.prems(2) by (auto intro: develops_trans)
qed (simp add: develops_refl)

end

section \<open>Batches\<close>

text \<open>What never changes of a batch.\<close>

definition batch_terms :: "SettlementBatch \<Rightarrow> SettlementBatch" where
  "batch_terms b = b\<lparr>sb_status := SB_DRAFT, sb_governance_ref := None, sb_provider_ref := None, sb_executed_at := None\<rparr>"

text \<open>The statuses a batch can have after one it has now.\<close>

fun later_statuses :: "SettlementStatus \<Rightarrow> SettlementStatus set" where
  "later_statuses SB_DRAFT = {SB_PENDING_GOVERNANCE, SB_APPROVED, SB_SETTLED, SB_FAILED}"
| "later_statuses SB_PENDING_GOVERNANCE = {SB_PENDING_GOVERNANCE, SB_APPROVED, SB_SETTLED, SB_FAILED}"
| "later_statuses SB_APPROVED = {SB_SETTLED, SB_FAILED}"
| "later_statuses _ = {}"

definition batch_develops :: "SettlementBatch \<Rightarrow> SettlementBatch \<Rightarrow> bool" where
  "batch_develops b b' \<longleftrightarrow> b' = b \<or> (batch_terms b' = batch_terms b \<and> sb_status b' \<in> later_statuses (sb_status b))"

lemma batch_develops_refl [simp]: "batch_develops b b"
  by (simp add: batch_develops_def)

lemma later_statuses_trans: "t \<in> later_statuses s \<Longrightarrow> u \<in> later_statuses t \<Longrightarrow> u \<in> later_statuses s"
  by (cases s; cases t; auto)

lemma batch_develops_trans: "batch_develops a b \<Longrightarrow> batch_develops b c \<Longrightarrow> batch_develops a c"
  by (auto simp: batch_develops_def intro: later_statuses_trans)

lemma batch_terms_sel:
  assumes "batch_terms b' = batch_terms b"
  shows "sb_id b' = sb_id b" "sb_marketplace_id b' = sb_marketplace_id b" "sb_tenant_id b' = sb_tenant_id b"
    "sb_currency b' = sb_currency b" "sb_net_amount b' = sb_net_amount b" "sb_entry_ids b' = sb_entry_ids b"
    "sb_created_at b' = sb_created_at b"
  using assms by (cases b; cases b'; simp add: batch_terms_def)+

section \<open>The steps of the books\<close>

type_synonym settle_books = "SettlementEngine \<times> SettlementLedger \<times> world"

inductive books_step :: "settle_books \<Rightarrow> settle_books \<Rightarrow> bool" where
  idle: "world_le w w' \<Longrightarrow> books_step (S, L, w) (S, L, w')"
| booked: "books_event ev e \<Longrightarrow> fe_idempotency_key ev \<notin> fl_idempotency_keys L \<Longrightarrow>
    sl_id e = next_id ''ledger_entry'' w \<Longrightarrow> world_le w w' \<Longrightarrow> uuid_n w < uuid_n w' \<Longrightarrow>
    books_step (S, L, w) (S, L\<lparr>fl_events := fl_events L @ [ev], fl_entries := fl_entries L @ [e],
           fl_idempotency_keys := insert (fe_idempotency_key ev) (fl_idempotency_keys L)\<rparr>, w')"
| opened: "sb_id b = next_id ''settlement_batch'' w \<Longrightarrow> sb_status b \<in> {SB_DRAFT, SB_FAILED} \<Longrightarrow>
    world_le w w' \<Longrightarrow> uuid_n w < uuid_n w' \<Longrightarrow> books_step (S, L, w) (put_batch (sb_id b) b S, L, w')"
| decided: "dict_get (se_batches S) i = Some b \<Longrightarrow> batch_terms b' = batch_terms b \<Longrightarrow>
    sb_status b' \<in> later_statuses (sb_status b) - {SB_SETTLED} \<Longrightarrow> books_step (S, L, w) (put_batch i b' S, L, w)"
| settled: "dict_get (se_batches S) i = Some b \<Longrightarrow> sb_status b = SB_APPROVED \<Longrightarrow>
    books_step (S, L, w) (snd (finish_settlement i (b\<lparr>sb_status := SB_SETTLING\<rparr>) ref (S, L, w)))"

inductive_cases books_stepE [consumes 1, case_names idle booked opened decided settled]: "books_step (S, L, w) (S', L', w')"

definition settle_books :: "settle_ctx \<Rightarrow> settle_books" where
  "settle_books c = (me_settle (fst c), me_ledger (fst c), snd c)"

lemma settle_books_simp [simp]: "settle_books (E, w) = (me_settle E, me_ledger E, w)"
  by (simp add: settle_books_def)

lemma new_batch_sel:
  assumes "new_batch mid tid cur s t es st w = (b, w')"
  shows "sb_id b = next_id ''settlement_batch'' w" "sb_status b = st" "world_le w w'"
    "uuid_n w < uuid_n w'" "sb_net_amount b = batch_net es" "sb_entry_ids b = map sl_id es"
    "sb_marketplace_id b = mid" "sb_tenant_id b = tid" "sb_currency b = cur"
    "sb_governance_ref b = None" "sb_provider_ref b = None" "sb_executed_at b = None"
    "w' = w\<lparr>uuid_n := Suc (uuid_n w), clock_n := Suc (clock_n w)\<rparr>"
  using assms by (auto simp: new_batch_def batch_net_def new_id_def utcnow_def id_at_def next_id_def world_le_def Let_def split: prod.splits)

lemma create_batch_step:
  assumes "create_batch pol mid tid cur s t L (S, w) = (r, (S', w'))"
  shows "books_step (S, L, w) (S', L, w')"
proof (cases r)
  case (Inl x)
  then have "S' = S" "w' = w" using assms by (auto simp: create_batch_def Let_def split: if_splits prod.splits)
  then show ?thesis by (simp add: idle)
next
  case (Inr b)
  then obtain st where b: "new_batch mid tid cur s t (batch_entries mid tid cur s t L S) st w = (b, w')"
      "S' = put_batch (sb_id b) b S" "st \<in> {SB_DRAFT, SB_FAILED}"
    using assms by (auto simp: create_batch_def Let_def split: if_splits prod.splits)
  note sel = new_batch_sel[OF b(1)]
  show ?thesis unfolding b(2)
    by (rule opened[OF sel(1) _ sel(3,4)]) (use sel(2) b(3) in simp)
qed

lemma get_batch_Inr [simp]: "get_batch i S = Inr b \<longleftrightarrow> dict_get (se_batches S) i = Some b"
  by (auto simp: get_batch_def split: option.splits)

lemma get_put_batch [simp]:
  "dict_get (se_batches (put_batch i b S)) k = (if k = i then Some b else dict_get (se_batches S) k)"
  by (simp add: put_batch_def dict.lookup_put)

lemma put_batch_sel [simp]:
  "se_payouts (put_batch i b S) = se_payouts S" "se_settled_entry_ids (put_batch i b S) = se_settled_entry_ids S"
  by (simp_all add: put_batch_def)

text \<open>The gateway allows the approval of a batch.\<close>

definition gateway_allows :: "settlement_gateway option \<Rightarrow> SettlementBatch \<Rightarrow> string \<Rightarrow> bool" where
  "gateway_allows gw b actor \<longleftrightarrow> (case gw of None \<Rightarrow> False | Some g \<Rightarrow>
     (case g ''MARKETPLACE_SETTLEMENT_APPROVAL'' (approval_context b actor) of
        Inl _ \<Rightarrow> False | Inr d \<Rightarrow> sg_decision d = SD_ALLOW))"

lemma approve_settlement_effect:
  assumes "approve_settlement pol gw i actor ref S = (r, S')" "S' \<noteq> S"
  shows "\<exists>b. dict_get (se_batches S) i = Some b \<and> sb_status b \<in> {SB_DRAFT, SB_PENDING_GOVERNANCE}
    \<and> (let b' = the (dict_get (se_batches S') i) in S' = put_batch i b' S \<and> batch_terms b' = batch_terms b
        \<and> sb_status b' \<in> {SB_APPROVED, SB_PENDING_GOVERNANCE, SB_FAILED}
        \<and> (sb_status b' = SB_APPROVED \<and> sp_require_governance_for_settlement pol \<longrightarrow> gateway_allows gw b actor))"
  using assms
  by (cases "get_batch i S")
    (auto simp: approve_settlement_def Let_def batch_terms_def gateway_allows_def
      split: if_splits option.splits sum.splits SettlementDecision.splits)

lemma approve_cases:
  assumes "approve_settlement pol gw i actor ref S = (r, S')"
  obtains (same) "S' = S"
  | (decided) b b' where "dict_get (se_batches S) i = Some b" "sb_status b \<in> {SB_DRAFT, SB_PENDING_GOVERNANCE}"
      "S' = put_batch i b' S" "batch_terms b' = batch_terms b"
      "sb_status b' \<in> {SB_APPROVED, SB_PENDING_GOVERNANCE, SB_FAILED}"
      "sb_status b' = SB_APPROVED \<Longrightarrow> sp_require_governance_for_settlement pol \<Longrightarrow> gateway_allows gw b actor"
  using approve_settlement_effect[OF assms] by (cases "S' = S") (auto simp: Let_def)

lemma approve_settlement_step:
  assumes "approve_settlement pol gw i actor ref S = (r, S')"
  shows "books_step (S, L, w) (S', L, w)"
  using assms
proof (cases rule: approve_cases)
  case (decided b b')
  then show ?thesis by (auto intro!: books_step.decided)
qed (simp add: idle)

text \<open>The branches of an execution.\<close>

lemma execute_cases:
  assumes "execute_settlement ad i R (S, L, w) = (r, (S', L', w'))"
  obtains (refused) "isl r" "S' = S" "L' = L" "w' = w"
  | (failed) b where "isl r" "dict_get (se_batches S) i = Some b" "sb_status b = SB_APPROVED"
      "S' = put_batch i (b\<lparr>sb_status := SB_FAILED\<rparr>) S" "L' = L" "w' = w"
  | (paid) b ref b' where "r = Inr b'" "dict_get (se_batches S) i = Some b" "sb_status b = SB_APPROVED"
      "\<not> has_blocking_mismatches (sb_marketplace_id b) R"
      "\<not> latest_report_failed (sb_marketplace_id b) R"
      "finish_settlement i (b\<lparr>sb_status := SB_SETTLING\<rparr>) ref (S, L, w) = (b', (S', L', w'))"
proof (cases "get_batch i S")
  case (Inl x)
  then have "r = Inl x" "S' = S" "L' = L" "w' = w" using assms by (simp_all add: execute_settlement_def)
  then show ?thesis using refused by simp
next
  case (Inr b)
  let ?st = "b\<lparr>sb_status := SB_SETTLING\<rparr>"
  consider (no) "sb_status b \<noteq> SB_APPROVED \<or> has_blocking_mismatches (sb_marketplace_id b) R
      \<or> latest_report_failed (sb_marketplace_id b) R \<or> ad = None"
    | (go) a where "ad = Some a" "sb_status b = SB_APPROVED" "\<not> has_blocking_mismatches (sb_marketplace_id b) R"
      "\<not> latest_report_failed (sb_marketplace_id b) R"
    by blast
  then show ?thesis
  proof cases
    case no
    then show ?thesis using assms Inr refused by (auto simp: execute_settlement_def split: if_splits)
  next
    case (go a)
    show ?thesis
    proof (cases "a ?st")
      case (Inl m)
      then show ?thesis using assms Inr go failed by (auto simp: execute_settlement_def)
    next
      fix ref assume ref: "a ?st = Inr ref"
      obtain b' c' where f: "finish_settlement i ?st ref (S, L, w) = (b', c')" by (metis surj_pair)
      then have "r = Inr b'" "c' = (S', L', w')" using assms Inr go ref by (simp_all add: execute_settlement_def)
      then show ?thesis using paid Inr go f by simp
    qed
  qed
qed

lemma execute_settlement_step:
  assumes "execute_settlement ad i R (S, L, w) = (r, (S', L', w'))"
  shows "books_step (S, L, w) (S', L', w')"
  using assms
proof (cases rule: execute_cases)
  case (failed b)
  then show ?thesis by (auto intro!: decided simp: batch_terms_def)
next
  case (paid b ref b')
  then show ?thesis using settled[OF paid(2,3), of L w ref] by simp
qed (simp add: idle)

theorem perform_books_step: "books_step (settle_books c) (settle_books (perform a c))"
proof (cases c)
  case (Pair E w)
  show ?thesis
  proof (cases a)
    case (Ingest ev)
    obtain r L' w' where i: "ingest_event ev (me_ledger E, w) = (r, (L', w'))" by (metis surj_pair)
    then show ?thesis
    proof (cases rule: ingest_cases)
      case (booked e)
      then show ?thesis using Pair Ingest i by (auto intro!: books_step.booked simp: world_le_def)
    qed (use Pair Ingest i in \<open>auto intro: idle\<close>)
  next
    case (RunRecon mid s t)
    obtain rep R' w' where r: "recon_run (me_policy E) mid s t (me_ledger E) (me_recon E, w) = (rep, R', w')"
      by (metis surj_pair)
    then show ?thesis using Pair RunRecon recon_run_sel(7)[OF r] by (auto intro: idle simp: world_le_def)
  next
    case (CreateBatch mid tid cur s t)
    then show ?thesis using Pair create_batch_step by (auto split: prod.splits)
  next
    case (Approve gw i actor ref)
    then show ?thesis using Pair approve_settlement_step by (auto split: prod.splits)
  next
    case (Execute ad i)
    then show ?thesis using Pair execute_settlement_step by (auto split: prod.splits)
  qed (use Pair in \<open>auto intro: idle split: prod.splits\<close>)
qed

section \<open>The invariant\<close>

text \<open>Batches are stored under their own, drawn identifier and are never left halfway.\<close>

definition batches_ok :: "SettlementEngine \<Rightarrow> world \<Rightarrow> bool" where
  "batches_ok S w \<longleftrightarrow> dict_wf (se_batches S) \<and> (\<forall>i b. dict_get (se_batches S) i = Some b \<longrightarrow>
     sb_id b = i \<and> i \<in> drawn ''settlement_batch'' w \<and> sb_status b \<noteq> SB_SETTLING \<and> sb_status b \<noteq> SB_REVERSED)"

definition batch_payouts :: "string \<Rightarrow> SettlementEngine \<Rightarrow> PayoutInstruction list" where
  "batch_payouts i S = filter (\<lambda>p. po_settlement_batch_id p = i) (se_payouts S)"

definition batch_postings :: "string \<Rightarrow> SettlementLedger \<Rightarrow> LedgerEntry list" where
  "batch_postings i L = filter (\<lambda>e. sl_entry_type e = ET_SETTLEMENT \<and> sl_event_id e = Some i) (fl_entries L)"

definition is_settled :: "string \<Rightarrow> SettlementEngine \<Rightarrow> bool" where
  "is_settled i S \<longleftrightarrow> (\<exists>b. dict_get (se_batches S) i = Some b \<and> sb_status b = SB_SETTLED)"

text \<open>One payout of the net amount and one posting of its negative for every settled batch, and
  none for any other identifier.\<close>

definition payout_pays :: "SettlementBatch \<Rightarrow> PayoutInstruction \<Rightarrow> bool" where
  "payout_pays b p \<longleftrightarrow> po_participant_id p = sb_tenant_id b \<and> po_amount p = sb_net_amount b
     \<and> po_currency p = sb_currency b \<and> po_status p = ''COMPLETED'' \<and> po_provider_ref p = sb_provider_ref b"

definition posting_books :: "SettlementBatch \<Rightarrow> LedgerEntry \<Rightarrow> bool" where
  "posting_books b e \<longleftrightarrow> sl_amount e = f_neg (sb_net_amount b) \<and> sl_currency e = sb_currency b
     \<and> sl_marketplace_id e = sb_marketplace_id b \<and> sl_tenant_id e = sb_tenant_id b
     \<and> sl_idempotency_key e = ''settlement:'' @ sb_id b"

definition batch_paid :: "string \<Rightarrow> SettlementEngine \<Rightarrow> SettlementLedger \<Rightarrow> bool" where
  "batch_paid i S L \<longleftrightarrow>
     (if is_settled i S then
        (\<exists>p. batch_payouts i S = [p] \<and> payout_pays (the (dict_get (se_batches S) i)) p)
      \<and> (if sb_net_amount (the (dict_get (se_batches S) i)) = Fin 0 then batch_postings i L = []
         else (\<exists>e. batch_postings i L = [e] \<and> posting_books (the (dict_get (se_batches S) i)) e))
      else batch_payouts i S = [] \<and> batch_postings i L = [])"

text \<open>The settled entries are those of the settled batches with a net amount.\<close>

definition settled_entries :: "(string \<Rightarrow> SettlementBatch option) \<Rightarrow> string set" where
  "settled_entries bs = {x. \<exists>i b. bs i = Some b \<and> sb_status b = SB_SETTLED \<and> sb_net_amount b \<noteq> Fin 0 \<and> x \<in> set (sb_entry_ids b)}"

definition settled_ids_ok :: "SettlementEngine \<Rightarrow> bool" where
  "settled_ids_ok S \<longleftrightarrow> se_settled_entry_ids S = settled_entries (dict_get (se_batches S))"

lemma settled_entries_upd:
  assumes "\<And>b. bs i = Some b \<Longrightarrow> sb_status b \<noteq> SB_SETTLED"
  shows "settled_entries (\<lambda>k. if k = i then Some b' else bs k) =
     settled_entries bs \<union> (if sb_status b' = SB_SETTLED \<and> sb_net_amount b' \<noteq> Fin 0 then set (sb_entry_ids b') else {})"
    (is "?l = ?r")
proof (rule set_eqI, rule iffI)
  fix x assume "x \<in> ?l"
  then obtain k b where "(if k = i then Some b' else bs k) = Some b" "sb_status b = SB_SETTLED" "sb_net_amount b \<noteq> Fin 0"
    "x \<in> set (sb_entry_ids b)" unfolding settled_entries_def by blast
  then show "x \<in> ?r" by (cases "k = i") (auto simp: settled_entries_def)
next
  fix x assume "x \<in> ?r"
  then consider "x \<in> settled_entries bs" | "sb_status b' = SB_SETTLED" "sb_net_amount b' \<noteq> Fin 0" "x \<in> set (sb_entry_ids b')"
    by (auto split: if_splits)
  then show "x \<in> ?l"
  proof cases
    case 1
    then obtain k b where k: "bs k = Some b" "sb_status b = SB_SETTLED" "sb_net_amount b \<noteq> Fin 0" "x \<in> set (sb_entry_ids b)"
      unfolding settled_entries_def by blast
    then have "k \<noteq> i" using assms by auto
    then show ?thesis using k unfolding settled_entries_def by (intro CollectI exI[of _ k] exI[of _ b]) simp
  next
    case 2
    then show ?thesis unfolding settled_entries_def by (intro CollectI exI[of _ i] exI[of _ b']) simp
  qed
qed

definition settle_inv :: "settle_books \<Rightarrow> bool" where
  "settle_inv c \<longleftrightarrow> (case c of (S, L, w) \<Rightarrow> batches_ok S w \<and> (\<forall>i. batch_paid i S L) \<and> settled_ids_ok S)"

text \<open>What an execution leaves behind.\<close>

lemma finish_settlement_eq:
  assumes "finish_settlement i b ref (S, L, w) = (b', S', L', w')"
  shows "se_batches S' = dict_set i b' (se_batches S)"
    "b' = b\<lparr>sb_provider_ref := Some ref, sb_status := SB_SETTLED,
        sb_executed_at := (case sb_executed_at b of Some t \<Rightarrow> Some t | None \<Rightarrow> Some (sb_created_at b))\<rparr>"
    "\<exists>p. se_payouts S' = se_payouts S @ [p] \<and> po_settlement_batch_id p = sb_id b \<and> payout_pays b' p"
    "se_settled_entry_ids S' = se_settled_entry_ids S \<union> (if sb_net_amount b = Fin 0 then {} else set (sb_entry_ids b))"
    "L' = (if sb_net_amount b = Fin 0 then L else append_entry (fst (settlement_entry b w)) L)"
    "world_le w w'"
  using assms
  by (auto simp: finish_settlement_def new_payout_def payout_pays_def put_batch_def settlement_entry_def Let_def
      new_id_def utcnow_def world_le_def split_beta split: if_splits)

lemma append_entry_entries [simp]:
  "fl_entries (append_entry e L) = fl_entries L @ [e]" "fl_events (append_entry e L) = fl_events L"
  by (simp_all add: append_entry_def)

lemma settlement_entry_sel [simp]:
  "sl_entry_type (fst (settlement_entry b w)) = ET_SETTLEMENT"
  "sl_event_id (fst (settlement_entry b w)) = Some (sb_id b)"
  "sl_marketplace_id (fst (settlement_entry b w)) = sb_marketplace_id b"
  "sl_tenant_id (fst (settlement_entry b w)) = sb_tenant_id b"
  "sl_currency (fst (settlement_entry b w)) = sb_currency b"
  "sl_amount (fst (settlement_entry b w)) = f_neg (sb_net_amount b)"
  "sl_idempotency_key (fst (settlement_entry b w)) = ''settlement:'' @ sb_id b"
  "sl_created_at (fst (settlement_entry b w)) = clock_of w (clock_n w)"
  "sl_id (fst (settlement_entry b w)) = next_id ''ledger_entry'' w"
  by (simp_all add: settlement_entry_def)

lemma books_event_not_settlement: "books_event ev e \<Longrightarrow> sl_entry_type e \<noteq> ET_SETTLEMENT"
  by (cases "fe_event_type ev") (auto simp: books_event_def)

section \<open>The steps keep the invariant\<close>

lemma finish_step:
  assumes "(S', L', w') = snd (finish_settlement i (b\<lparr>sb_status := SB_SETTLING\<rparr>) ref (S, L, w))"
  obtains b' where "finish_settlement i (b\<lparr>sb_status := SB_SETTLING\<rparr>) ref (S, L, w) = (b', S', L', w')"
  using assms by (metis prod.collapse)

lemma batches_ok_step:
  assumes "books_step (S, L, w) (S', L', w')" "batches_ok S w" "ids_ok w'"
  shows "batches_ok S' w'"
  using assms(1)
proof (cases rule: books_stepE)
  case idle
  then show ?thesis using assms(2) drawn_mono[of w w'] by (auto simp: batches_ok_def)
next
  case (booked ev e)
  then show ?thesis using assms(2) drawn_mono[of w w'] by (auto simp: batches_ok_def)
next
  case (opened b)
  then show ?thesis using assms(2) drawn_mono[of w w'] next_id_drawn[of w w' "''settlement_batch''"]
    by (auto simp: batches_ok_def put_batch_def dict.wf_put dict.lookup_put)
next
  case (decided i b b')
  then have "sb_id b' = sb_id b" using batch_terms_sel by blast
  moreover have "sb_status b' \<notin> {SB_SETTLING, SB_REVERSED}" using decided by (cases "sb_status b") auto
  ultimately show ?thesis using decided assms(2)
    by (auto simp: batches_ok_def put_batch_def dict.wf_put dict.lookup_put)
next
  case (settled i b ref)
  obtain b' where f: "finish_settlement i (b\<lparr>sb_status := SB_SETTLING\<rparr>) ref (S, L, w) = (b', S', L', w')"
    using settled(1) by (rule finish_step)
  note eq = finish_settlement_eq[OF f]
  show ?thesis using assms(2) drawn_mono[OF eq(6)] settled(2)
    by (auto simp: batches_ok_def eq(1) eq(2) dict.wf_put dict.lookup_put)
qed

lemma opened_fresh:
  assumes "sb_id b = next_id ''settlement_batch'' w" "world_le w w'" "uuid_n w < uuid_n w'"
    and "batches_ok S w" "ids_ok w'"
  shows "dict_get (se_batches S) (sb_id b) = None"
proof (rule ccontr)
  assume "dict_get (se_batches S) (sb_id b) \<noteq> None"
  then have "sb_id b \<in> drawn ''settlement_batch'' w" using assms(4) by (auto simp: batches_ok_def)
  then show False using next_id_fresh[OF assms(2,3,5)] assms(1) by simp
qed

lemma step_develops:
  assumes "books_step (S, L, w) (S', L', w')" "batches_ok S w" "ids_ok w'" "dict_get (se_batches S) k = Some x"
  shows "\<exists>y. dict_get (se_batches S') k = Some y \<and> batch_develops x y"
  using assms(1)
proof (cases rule: books_stepE)
  case (opened b)
  have "k \<noteq> sb_id b" using opened_fresh[OF opened(1,3,4) assms(2,3)] assms(4) by auto
  then show ?thesis using opened assms(4) by auto
next
  case (decided i b b')
  then show ?thesis using assms(4) by (auto simp: batch_develops_def)
next
  case (settled i b ref)
  obtain b' where f: "finish_settlement i (b\<lparr>sb_status := SB_SETTLING\<rparr>) ref (S, L, w) = (b', S', L', w')"
    using settled(1) by (rule finish_step)
  note eq = finish_settlement_eq[OF f]
  show ?thesis using assms(4) settled(2,3)
    by (auto simp: eq(1) eq(2) dict.lookup_put batch_develops_def batch_terms_def)
qed (use assms(4) in auto)

lemma batch_paid_frame:
  assumes "is_settled k S' = is_settled k S" "is_settled k S \<Longrightarrow> dict_get (se_batches S') k = dict_get (se_batches S) k"
    and "batch_payouts k S' = batch_payouts k S" "batch_postings k L' = batch_postings k L"
  shows "batch_paid k S' L' = batch_paid k S L"
  using assms by (auto simp: batch_paid_def)

lemma batch_paid_settled:
  assumes f: "finish_settlement i b ref (S, L, w) = (b', S', L', w')" and id: "sb_id b = i"
    and before: "batch_paid k S L" "\<not> is_settled i S"
  shows "batch_paid k S' L'"
proof -
  note eq = finish_settlement_eq[OF f]
  obtain p where p: "se_payouts S' = se_payouts S @ [p]" "po_settlement_batch_id p = i" "payout_pays b' p"
    using eq(3) id by auto
  have post: "batch_postings k L' = batch_postings k L @ (if k = i \<and> sb_net_amount b \<noteq> Fin 0 then [fst (settlement_entry b w)] else [])"
    using id by (auto simp: eq(5) batch_postings_def)
  have pay: "batch_payouts k S' = batch_payouts k S @ (if k = i then [p] else [])"
    using p by (auto simp: batch_payouts_def)
  show ?thesis
  proof (cases "k = i")
    case True
    have "posting_books b' (fst (settlement_entry b w))"
      by (simp add: posting_books_def eq(2))
    moreover have "sb_net_amount b' = sb_net_amount b" by (simp add: eq(2))
    moreover have "dict_get (se_batches S') i = Some b'" "is_settled i S'"
      by (simp_all add: is_settled_def eq(1) dict.lookup_put) (simp add: eq(2))
    ultimately show ?thesis using before p(3) True post pay by (auto simp: batch_paid_def)
  next
    case False
    then have "dict_get (se_batches S') k = dict_get (se_batches S) k" by (simp add: eq(1) dict.lookup_put)
    moreover from this have "is_settled k S' = is_settled k S" by (simp add: is_settled_def)
    ultimately show ?thesis using before(1) False post pay batch_paid_frame[of k S' S L' L] by simp
  qed
qed

lemma batch_paid_step:
  assumes "books_step (S, L, w) (S', L', w')" "batches_ok S w" "ids_ok w'" "batch_paid k S L"
    and paid: "\<And>i. batch_paid i S L"
  shows "batch_paid k S' L'"
  using assms(1)
proof (cases rule: books_stepE)
  case (booked ev e)
  then show ?thesis using assms(4) books_event_not_settlement[OF booked(1)]
    by (subst batch_paid_frame[of k S' S L' L]) (auto simp: batch_postings_def)
next
  case (opened b)
  note fresh = opened_fresh[OF opened(1,3,4) assms(2,3)]
  have S': "S' = put_batch (sb_id b) b S" using opened(1,5) by simp
  have "is_settled k S' = is_settled k S" "is_settled k S \<Longrightarrow> k \<noteq> sb_id b"
    using opened(2) fresh unfolding S' by (auto simp: is_settled_def)
  then show ?thesis using assms(4) opened(6) unfolding S'
    by (subst batch_paid_frame[of k _ S L' L]) (auto simp: batch_payouts_def)
next
  case (decided i b b')
  have "is_settled k S' = is_settled k S" "is_settled k S \<Longrightarrow> k \<noteq> i"
    using decided by (cases "sb_status b"; auto simp: is_settled_def)+
  then show ?thesis using assms(4) decided
    by (subst batch_paid_frame[of k S' S L' L]) (auto simp: batch_payouts_def)
next
  case (settled i b ref)
  obtain b' where f: "finish_settlement i (b\<lparr>sb_status := SB_SETTLING\<rparr>) ref (S, L, w) = (b', S', L', w')"
    using settled(1) by (rule finish_step)
  have "\<not> is_settled i S" "sb_id b = i" using settled assms(2) by (auto simp: is_settled_def batches_ok_def)
  then show ?thesis by (intro batch_paid_settled[OF f _ paid]) simp_all
qed (use assms(4) in simp)

lemma settled_ids_step:
  assumes "books_step (S, L, w) (S', L', w')" "batches_ok S w" "ids_ok w'" "settled_ids_ok S"
  shows "settled_ids_ok S'"
  using assms(1)
proof (cases rule: books_stepE)
  case (opened b)
  note fresh = opened_fresh[OF opened(1,3,4) assms(2,3)]
  have S': "S' = put_batch (sb_id b) b S" using opened(1,5) by simp
  have "dict_get (se_batches S') = (\<lambda>k. if k = sb_id b then Some b else dict_get (se_batches S) k)"
    by (rule ext) (simp add: S')
  moreover have "sb_status b \<noteq> SB_SETTLED" using opened(2) by auto
  ultimately show ?thesis using assms(4) fresh settled_entries_upd[of "dict_get (se_batches S)" "sb_id b" b]
    by (simp add: settled_ids_ok_def S')
next
  case (decided i b b')
  have no: "sb_status b \<noteq> SB_SETTLED" "sb_status b' \<noteq> SB_SETTLED" using decided by auto
  have "dict_get (se_batches S') = (\<lambda>k. if k = i then Some b' else dict_get (se_batches S) k)"
    by (rule ext) (simp add: decided)
  then show ?thesis using assms(4) no decided settled_entries_upd[of "dict_get (se_batches S)" i b']
    by (simp add: settled_ids_ok_def)
next
  case (settled i b ref)
  obtain b' where f: "finish_settlement i (b\<lparr>sb_status := SB_SETTLING\<rparr>) ref (S, L, w) = (b', S', L', w')"
    using settled(1) by (rule finish_step)
  note eq = finish_settlement_eq[OF f]
  have "dict_get (se_batches S') = (\<lambda>k. if k = i then Some b' else dict_get (se_batches S) k)"
    by (rule ext) (simp add: eq(1) dict.lookup_put)
  moreover have "sb_status b' = SB_SETTLED" "sb_net_amount b' = sb_net_amount b" "sb_entry_ids b' = sb_entry_ids b"
    by (simp_all add: eq(2))
  ultimately show ?thesis using assms(4) settled(2,3) settled_entries_upd[of "dict_get (se_batches S)" i b']
    by (simp add: settled_ids_ok_def eq(4))
qed (use assms(4) in simp_all)

lemma settle_inv_step:
  assumes "books_step c c'" "settle_inv c" "ids_ok (snd (snd c'))"
  shows "settle_inv c'"
proof (cases c; cases c')
  fix S L w S' L' w' assume "c = (S, L, w)" "c' = (S', L', w')"
  then show ?thesis using assms batches_ok_step[of S L w S' L' w'] batch_paid_step[of S L w S' L' w']
      settled_ids_step[of S L w S' L' w'] by (auto simp: settle_inv_def)
qed

lemma books_step_time: "books_step (S, L, w) (S', L', w') \<Longrightarrow> world_le w w'"
  by (cases rule: books_stepE) (auto dest: finish_settlement_eq(6) elim!: finish_step)

lemma settle_inv_start: "settle_inv (settle_books (settle_start pol w))"
  by (simp add: settle_inv_def settle_start_def marketplace_settlement_init_def settlement_engine_init_def
      settlement_ledger_init_def batches_ok_def batch_paid_def is_settled_def batch_payouts_def
      batch_postings_def settled_ids_ok_def settled_entries_def)

section \<open>Histories of batches\<close>

definition batch_of :: "settle_ctx \<Rightarrow> string \<Rightarrow> SettlementBatch option" where
  "batch_of c i = dict_get (se_batches (me_settle (fst c))) i"

abbreviation settle_ids_ok :: "settle_ctx \<Rightarrow> bool" where
  "settle_ids_ok c \<equiv> ids_ok (snd c)"

interpretation batches: object_history perform batch_of batch_develops "\<lambda>c. settle_inv (settle_books c)" settle_ids_ok
proof (unfold_locales, goal_cases)
  case (1 a c)
  then show ?case using perform_books_step[of c a] ids_ok_before books_step_time
    by (metis prod.collapse settle_books_simp)
next
  case (2 c a)
  then show ?case using settle_inv_step[OF perform_books_step[of c a]] by (simp add: settle_books_def)
next
  case (3 c a k x)
  then show ?case using step_develops[of "me_settle (fst c)" "me_ledger (fst c)" "snd c"]
      perform_books_step[of c a] by (auto simp: settle_books_def settle_inv_def batch_of_def)
next
  case (5 x y z)
  then show ?case by (rule batch_develops_trans)
qed simp

end
