(* ===== verification/Settle_Books.thy ===== *)
theory Settle_Books
  imports Settle_Safety
begin

text \<open>
  The guarantees of marketplace settlement for arbitrary sequences of calls, and what happens at
  the seams between its components: a payout entry meets reconciliation, two batches meet the same
  entries, a payout entry meets the next batch.
\<close>

section \<open>Runs\<close>

lemma perform_all_simps [simp]:
  "perform_all [] c = c" "perform_all (a # as) c = perform_all as (perform a c)"
  "perform_all (as @ bs) c = perform_all bs (perform_all as c)"
  by (simp_all add: perform_all_def)

lemma perform_policy [simp]: "me_policy (fst (perform a c)) = me_policy (fst c)"
  by (cases c; cases a) (auto split: prod.splits)

lemma perform_all_policy [simp]: "me_policy (fst (perform_all cs c)) = me_policy (fst c)"
  by (induction cs arbitrary: c) simp_all

text \<open>The accounting entries, one for each event in the order of arrival.\<close>

definition booked_once :: "SettlementLedger \<Rightarrow> bool" where
  "booked_once L \<longleftrightarrow>
     list_all2 books_event (fl_events L) (filter (\<lambda>e. sl_entry_type e \<noteq> ET_SETTLEMENT) (fl_entries L))
   \<and> distinct (map fe_idempotency_key (fl_events L))
   \<and> fe_idempotency_key ` set (fl_events L) \<subseteq> fl_idempotency_keys L"

lemma booked_once_step:
  assumes "books_step (S, L, w) (S', L', w')" "booked_once L"
  shows "booked_once L' \<and> fl_idempotency_keys L \<subseteq> fl_idempotency_keys L'"
  using assms(1)
proof (cases rule: books_stepE)
  case (booked ev e)
  then show ?thesis using assms(2) books_event_not_settlement[OF booked(1)]
    by (auto simp: booked_once_def list_all2_appendI)
next
  case (settled i b ref)
  obtain b' where f: "finish_settlement i (b\<lparr>sb_status := SB_SETTLING\<rparr>) ref (S, L, w) = (b', S', L', w')"
    using settled(1) by (rule finish_step)
  show ?thesis using assms(2) by (auto simp: finish_settlement_eq(5)[OF f] booked_once_def append_entry_def)
qed (use assms(2) in simp_all)

lemma booked_once_perform:
  "booked_once (me_ledger (fst c)) \<Longrightarrow> booked_once (me_ledger (fst (perform a c)))
     \<and> fl_idempotency_keys (me_ledger (fst c)) \<subseteq> fl_idempotency_keys (me_ledger (fst (perform a c)))"
  using perform_books_step[of c a] booked_once_step by (auto simp: settle_books_def)

lemma booked_once_run:
  "booked_once (me_ledger (fst c)) \<Longrightarrow> booked_once (me_ledger (fst (perform_all cs c)))
     \<and> fl_idempotency_keys (me_ledger (fst c)) \<subseteq> fl_idempotency_keys (me_ledger (fst (perform_all cs c)))"
proof (induction cs arbitrary: c)
  case (Cons a cs)
  note step = booked_once_perform[OF Cons.prems, of a]
  show ?case using step Cons.IH[OF conjunct1[OF step]] by (simp only: perform_all_simps) blast
qed simp

lemma booked_once_start: "booked_once (me_ledger (fst (settle_start pol w)))"
  by (simp add: booked_once_def settle_start_def marketplace_settlement_init_def settlement_ledger_init_def)

lemma settle_inv_run:
  "ids_ok (snd (perform_all cs (settle_start pol w))) \<Longrightarrow> settle_inv (settle_books (perform_all cs (settle_start pol w)))"
  unfolding perform_all_def by (rule batches.inv_run[OF settle_inv_start])

section \<open>Sample\<close>

definition sample_sale_event :: "string \<Rightarrow> FinancialEventType \<Rightarrow> rat \<Rightarrow> FinancialEvent" where
  "sample_sale_event k ty amount = \<lparr>fe_id = ''event_'' @ k, fe_idempotency_key = k, fe_event_type = ty,
     fe_marketplace_id = ''m'', fe_tenant_id = ''t'', fe_order_id = None, fe_amount = Fin amount,
     fe_currency = ''USD'', fe_payload = [], fe_occurred_at = 0\<rparr>"

definition sample_allow :: "settlement_gateway option" where
  "sample_allow = Some (static_governance_gateway SD_ALLOW ''ok'')"

text \<open>A sale of 100 with a fee of 10, settled. The first two draws name the entries, the third the
  batch.\<close>

definition sample_sale :: "settle_call list" where
  "sample_sale = [Ingest (sample_sale_event ''pay'' FE_PAYMENT_CAPTURED 100), Ingest (sample_sale_event ''fee'' FE_FEE_CHARGED 10),
     CreateBatch ''m'' ''t'' ''USD'' 0 1000]"

definition sample_batch :: string where
  "sample_batch = ''settlement_batch_2''"

definition sample_settle :: "settle_call list" where
  "sample_settle = [Approve sample_allow sample_batch ''a'' None, Execute (Some static_settlement_adapter) sample_batch]"

declare sample_sale_event_def [run_simps] sample_allow_def [run_simps] sample_sale_def [run_simps]
  sample_batch_def [run_simps] sample_settle_def [run_simps]

lemma sample_amounts [run_simps]:
  "fl 100 = Fin 100" "fl 90 = Fin 90" "fl 10 = Fin 10" "fl 50 = Fin 50" "fl (-40) = Fin (-40)" "fl (- 90) = Fin (- 90)"
  "f_round 2 (Fin 100) = Fin 100" "f_round 2 (Fin 90) = Fin 90" "f_round 2 (Fin 10) = Fin 10" "f_round 2 (Fin 0) = Fin 0"
  "f_round 2 (Fin (- 40)) = Fin (- 40)" "f_round 2 (Fin (- 90)) = Fin (- 90)"
  using fl_int[of 100] fl_int[of 90] fl_int[of 10] fl_int[of 50] fl_int[of "- 40"] fl_int[of "- 90"] f_round_int[of 100]
    f_round_int[of 90] f_round_int[of 10] f_round_int[of 0] f_round_int[of "- 40"] f_round_int[of "- 90"]
  by (simp_all del: f_round.simps)

lemma sample_ids_ok:
  assumes "uuid_of w = str_of_nat" "uuid_n w \<le> 10"
  shows "ids_ok w"
proof -
  have "m = n" if "m < 10" "n < 10" "str_of_nat m = str_of_nat n" for m n
  proof -
    have "of_char (char_of (48 + m) :: char) = (of_char (char_of (48 + n) :: char) :: nat)"
      using that by (simp add: str_of_nat.simps)
    then show ?thesis using that by simp
  qed
  moreover have "take 16 (str_of_nat m) = str_of_nat m" if "m < 10" for m
    using that by (simp add: str_of_nat.simps)
  ultimately show ?thesis using assms by (auto simp: ids_ok_def draws_distinct_def inj_on_def id_at_def)
qed

lemmas settle_eval = run_simps Let_def

definition sample_settled :: settle_ctx where
  "sample_settled = perform_all (sample_sale @ sample_settle) (settle_start None sample_world)"

lemma sample_settled_world: "uuid_n (snd sample_settled) = 5" "uuid_of (snd sample_settled) = str_of_nat"
  unfolding sample_settled_def by (simp_all add: settle_eval del: f_round.simps)

lemma sample_settled_facts:
  "map_option sb_status (batch_of sample_settled sample_batch) = Some SB_SETTLED"
  "map_option sb_net_amount (batch_of sample_settled sample_batch) = Some (Fin 90)"
  "map po_amount (se_payouts (me_settle (fst sample_settled))) = [Fin 90]"
  unfolding sample_settled_def batch_of_def by (simp_all add: settle_eval del: f_round.simps)

section \<open>Properties of runs\<close>

text \<open>C32. Every event that ingestion accepts is booked exactly once: after any sequence of calls the
  accounting entries correspond one to one, in order, to the ingested events, no two events share
  an idempotency key, and a key that was used stays used, so that another event under it is
  answered with \<open>None\<close> and changes nothing.\<close>

theorem event_booked_once:
  assumes "perform_all cs (settle_start pol w) = c"
  shows "list_all2 books_event (fl_events (me_ledger (fst c)))
           (filter (\<lambda>e. sl_entry_type e \<noteq> ET_SETTLEMENT) (fl_entries (me_ledger (fst c))))
       \<and> distinct (map fe_idempotency_key (fl_events (me_ledger (fst c))))
       \<and> (\<forall>ev ds. fe_idempotency_key ev \<in> fe_idempotency_key ` set (fl_events (me_ledger (fst c))) \<longrightarrow>
            (let d = perform_all ds c; L = me_ledger (fst d) in ingest_event ev (L, snd d) = (Inr None, (L, snd d))))"
proof -
  have b: "booked_once (me_ledger (fst c))"
    using booked_once_run[OF booked_once_start, of cs pol w] assms by simp
  moreover have "ingest_event ev (L, v) = (Inr None, (L, v))" if
    "fe_idempotency_key ev \<in> fe_idempotency_key ` set (fl_events (me_ledger (fst c)))" "perform_all ds c = d"
    "L = me_ledger (fst d)" for ev ds d L v
  proof -
    have "fe_idempotency_key ev \<in> fl_idempotency_keys (me_ledger (fst c))"
      using that(1) b by (auto simp: booked_once_def)
    then have "fe_idempotency_key ev \<in> fl_idempotency_keys L"
      using booked_once_run[OF b, of ds] that(2,3) by blast
    then show ?thesis by (simp add: ingest_event_def)
  qed
  ultimately show ?thesis by (simp add: booked_once_def Let_def)
qed

theorem event_booked_once_witness:
  "ingest_event (sample_sale_event ''pay'' FE_REFUND_ISSUED 7) (me_ledger (fst sample_settled), snd sample_settled) =
     (Inr None, (me_ledger (fst sample_settled), snd sample_settled))
   \<and> length (fl_entries (me_ledger (fst sample_settled))) = 3"
proof -
  have e: "fe_idempotency_key (sample_sale_event ''pay'' FE_REFUND_ISSUED 7) \<in>
      fe_idempotency_key ` set (fl_events (me_ledger (fst sample_settled)))"
    unfolding sample_settled_def by (simp add: settle_eval del: f_round.simps)
  have "length (fl_entries (me_ledger (fst sample_settled))) = 3"
    unfolding sample_settled_def by (simp add: settle_eval del: f_round.simps)
  then show ?thesis
    using conjunct2[OF conjunct2[OF event_booked_once[OF sample_settled_def[symmetric]]]] e
    by (metis perform_all_simps(1))
qed

text \<open>C4. Every settled batch has exactly one payout instruction, of its net amount to its tenant, and
  exactly one settlement entry of the negated net amount in the ledger (none when the net amount is
  zero); a batch that is not settled, and any other identifier, has neither. The entries marked as
  settled are exactly those of the settled batches with a net amount.\<close>

theorem settled_batch_paid_once:
  assumes "perform_all cs (settle_start pol w) = (E, w')" "ids_ok w'"
  shows "batch_paid i (me_settle E) (me_ledger E) \<and> settled_ids_ok (me_settle E)"
  using settle_inv_run[of cs pol w] assms by (simp add: settle_inv_def)

theorem settled_batch_paid_once_witness:
  "is_settled sample_batch (me_settle (fst sample_settled))
   \<and> batch_paid sample_batch (me_settle (fst sample_settled)) (me_ledger (fst sample_settled))"
proof -
  have "perform_all (sample_sale @ sample_settle) (settle_start None sample_world) = (fst sample_settled, snd sample_settled)"
    by (simp add: sample_settled_def)
  from settled_batch_paid_once[OF this, of sample_batch] show ?thesis
    using sample_ids_ok[OF sample_settled_world(2)] sample_settled_world(1) sample_settled_facts(1)
    by (auto simp: is_settled_def batch_of_def)
qed

text \<open>The life of a batch. From any point of a run to any later one a batch stays under its
  identifier with the same amounts, parties and entries; its status only moves from draft over
  pending governance to approved and from there to settled or failed; and a settled or failed batch
  never changes again.\<close>

theorem batch_lifecycle:
  assumes "perform_all cs (settle_start pol w) = c" "ids_ok (snd (perform_all ds c))" "batch_of c i = Some b"
  shows "\<exists>b'. batch_of (perform_all ds c) i = Some b' \<and> batch_terms b' = batch_terms b
     \<and> (sb_status b' = sb_status b \<or> sb_status b' \<in> later_statuses (sb_status b))
     \<and> (sb_status b \<in> {SB_SETTLED, SB_FAILED} \<longrightarrow> b' = b)"
proof -
  have "ids_ok (snd c)" using assms(2) unfolding perform_all_def by (rule batches.ok_run)
  then have "settle_inv (settle_books c)" using settle_inv_run assms(1) by blast
  from batches.obj_run[OF this _ assms(3)] assms(2) obtain b' where
    "batch_of (perform_all ds c) i = Some b'" "batch_develops b b'" unfolding perform_all_def by blast
  then show ?thesis by (auto simp: batch_develops_def)
qed

theorem batch_lifecycle_witness:
  "\<exists>b'. batch_of (perform_all sample_settle sample_settled) sample_batch = Some b'
     \<and> batch_of sample_settled sample_batch = Some b'"
proof -
  obtain b where b: "batch_of sample_settled sample_batch = Some b" "sb_status b = SB_SETTLED"
    using sample_settled_facts(1) by auto
  have "ids_ok (snd (perform_all sample_settle sample_settled))"
    unfolding sample_settled_def by (rule sample_ids_ok) (simp_all add: settle_eval del: f_round.simps)
  from batch_lifecycle[OF sample_settled_def[symmetric] this b(1)] b show ?thesis by auto
qed

section \<open>Governance\<close>

text \<open>How a batch comes to be approved or settled in one call.\<close>

lemma approved_by_step:
  assumes "batch_of (perform a c) i = Some b" "sb_status b \<in> {SB_APPROVED, SB_SETTLED}"
    and "settle_inv (settle_books c)" "ids_ok (snd (perform a c))" "sp_require_governance_for_settlement (me_policy (fst c))"
  shows "\<exists>b0. batch_of c i = Some b0 \<and> batch_terms b0 = batch_terms b
     \<and> (sb_status b0 \<in> {SB_APPROVED, SB_SETTLED} \<or> (\<exists>gw actor ref. a = Approve gw i actor ref \<and> gateway_allows gw b0 actor))"
proof (cases "batch_of c i")
  case None
  then have "sb_status b \<notin> {SB_APPROVED, SB_SETTLED}"
    using perform_books_step[of c a] assms(1)
    by (auto simp: settle_books_def batch_of_def finish_settlement_def Let_def split_beta elim!: books_stepE split: if_splits)
  then show ?thesis using assms(2) by simp
next
  case (Some b0)
  then have d: "batch_develops b0 b" using batches.obj_act[OF assms(3,4) Some] assms(1) by auto
  then have t: "batch_terms b0 = batch_terms b" by (auto simp: batch_develops_def)
  show ?thesis
  proof (cases "sb_status b0 \<in> {SB_APPROVED, SB_SETTLED}")
    case False
    then have new: "b \<noteq> b0" using assms(2) by auto
    obtain E w where c: "c = (E, w)" by (cases c)
    have "\<exists>gw actor ref. a = Approve gw i actor ref \<and> gateway_allows gw b0 actor"
    proof (cases a)
      case (Ingest ev)
      then show ?thesis using new assms(1) Some c by (auto simp: batch_of_def split: prod.splits)
    next
      case (RunRecon mid s t)
      then show ?thesis using new assms(1) Some c by (auto simp: batch_of_def split: prod.splits)
    next
      case (Resolve m actor nts)
      then show ?thesis using new assms(1) Some c by (auto simp: batch_of_def split: prod.splits)
    next
      case (CreateBatch mid tid cur s t)
      obtain r S' w' where cr: "create_batch (me_policy E) mid tid cur s t (me_ledger E) (me_settle E, w) = (r, (S', w'))"
        by (metis surj_pair)
      have pc: "perform a c = (E\<lparr>me_settle := S'\<rparr>, w')" using CreateBatch c cr by simp
      have "sb_status b \<in> {SB_DRAFT, SB_FAILED} \<or> b = b0"
        using cr assms(1) Some c unfolding pc batch_of_def
        by (auto simp: create_batch_def Let_def split: if_splits prod.splits dest: new_batch_sel(2))
      then show ?thesis using new assms(2) by auto
    next
      case (Approve gw j actor ref)
      obtain r S' where ap: "approve_settlement (me_policy E) gw j actor ref (me_settle E) = (r, S')" by (metis surj_pair)
      have pc: "perform a c = (E\<lparr>me_settle := S'\<rparr>, w)" using Approve c ap by simp
      have b: "dict_get (se_batches S') i = Some b" "dict_get (se_batches (me_settle E)) i = Some b0"
        using assms(1) Some c unfolding pc batch_of_def by simp_all
      from ap show ?thesis
      proof (cases rule: approve_cases)
        case same
        then show ?thesis using b new by simp
      next
        case (decided b1 b1')
        then have "j = i" "b1 = b0" "b1' = b" using b new by (auto split: if_splits)
        then show ?thesis using decided Approve assms(2,5) c by auto
      qed
    next
      case (Execute ad j)
      obtain r S' L' w' where ex: "execute_settlement ad j (me_recon E) (me_settle E, me_ledger E, w) = (r, (S', L', w'))"
        by (metis surj_pair)
      have pc: "perform a c = (E\<lparr>me_settle := S', me_ledger := L'\<rparr>, w')" using Execute c ex by simp
      have b: "dict_get (se_batches S') i = Some b" "dict_get (se_batches (me_settle E)) i = Some b0"
        using assms(1) Some c unfolding pc batch_of_def by simp_all
      from ex have "b = b0 \<or> sb_status b0 = SB_APPROVED"
      proof (cases rule: execute_cases)
        case (paid b1 ref b1')
        then show ?thesis using b by (auto simp: finish_settlement_eq(1)[OF paid(6)] dict.lookup_put split: if_splits)
      qed (use b in \<open>auto split: if_splits\<close>)
      then show ?thesis using new False by simp
    qed
    then show ?thesis using Some t by blast
  qed (use Some t in blast)
qed

text \<open>C9. No payout without governance. If the policy requires governance, then for every batch that is
  approved or settled at the end of a run there was a call to approve exactly that batch, with the
  amount and parties it has now, to which the governance gateway answered ALLOW.\<close>

theorem settlement_needs_governance:
  assumes "perform_all cs (settle_start pol w) = c" "ids_ok (snd c)"
    and "sp_require_governance_for_settlement (me_policy (fst c))"
    and "batch_of c i = Some b" "sb_status b \<in> {SB_APPROVED, SB_SETTLED}"
  shows "\<exists>cs1 gw actor ref cs2 b0. cs = cs1 @ Approve gw i actor ref # cs2
     \<and> batch_of (perform_all cs1 (settle_start pol w)) i = Some b0 \<and> batch_terms b0 = batch_terms b
     \<and> gateway_allows gw b0 actor"
  using assms
proof (induction cs arbitrary: c b rule: rev_induct)
  case Nil
  then show ?case by (auto simp: batch_of_def settle_start_def marketplace_settlement_init_def settlement_engine_init_def)
next
  case (snoc a cs)
  let ?d = "perform_all cs (settle_start pol w)"
  have c: "c = perform a ?d" using snoc.prems(1) by simp
  have ok: "ids_ok (snd ?d)" using snoc.prems(2) unfolding c by (rule batches.ok_before)
  have req: "sp_require_governance_for_settlement (me_policy (fst ?d))" using snoc.prems(3) unfolding c by simp
  from approved_by_step[of a ?d i b] snoc.prems settle_inv_run[OF ok] req c
  obtain b0 where b0: "batch_of ?d i = Some b0" "batch_terms b0 = batch_terms b"
    and how: "sb_status b0 \<in> {SB_APPROVED, SB_SETTLED} \<or> (\<exists>gw actor ref. a = Approve gw i actor ref \<and> gateway_allows gw b0 actor)"
    by auto
  from how show ?case
  proof
    assume "sb_status b0 \<in> {SB_APPROVED, SB_SETTLED}"
    from snoc.IH[OF refl ok req b0(1) this] b0(2) show ?thesis
      by (metis append_assoc append_Cons)
  next
    assume "\<exists>gw actor ref. a = Approve gw i actor ref \<and> gateway_allows gw b0 actor"
    then show ?thesis using b0 by blast
  qed
qed

theorem settlement_needs_governance_witness:
  "\<exists>cs1 gw actor ref cs2 b0. sample_sale @ sample_settle = cs1 @ Approve gw sample_batch actor ref # cs2
     \<and> batch_of (perform_all cs1 (settle_start None sample_world)) sample_batch = Some b0 \<and> gateway_allows gw b0 actor"
proof -
  obtain b where b: "batch_of sample_settled sample_batch = Some b" "sb_status b = SB_SETTLED"
    using sample_settled_facts(1) by auto
  have "sp_require_governance_for_settlement (me_policy (fst sample_settled))"
    by (simp add: sample_settled_def settle_start_def marketplace_settlement_init_def settlement_policy_default_def)
  from settlement_needs_governance[OF sample_settled_def[symmetric] _ this b(1)] b(2)
    sample_ids_ok[OF sample_settled_world(2)] sample_settled_world(1)
  show ?thesis by fastforce
qed

section \<open>Execution\<close>

text \<open>An execution pays exactly when the batch exists and is approved, no open high-severity mismatch of
  its marketplace is registered, its latest reconciliation report did not fail, and a configured
  adapter accepts it. In every other case it raises and leaves the ledger, the payouts and the
  settled entries as they were; the batch changes only when the adapter raised: it is then failed.\<close>

theorem settlement_paid_iff:
  fixes S :: SettlementEngine
  assumes "execute_settlement ad i R (S, L, w) = (r, (S', L', w'))"
  shows "(\<not> isl r \<longleftrightarrow> (\<exists>b a ref. dict_get (se_batches S) i = Some b \<and> sb_status b = SB_APPROVED
            \<and> \<not> has_blocking_mismatches (sb_marketplace_id b) R \<and> \<not> latest_report_failed (sb_marketplace_id b) R
            \<and> ad = Some a \<and> a (b\<lparr>sb_status := SB_SETTLING\<rparr>) = Inr ref))
     \<and> (isl r \<longrightarrow> L' = L \<and> w' = w \<and> se_payouts S' = se_payouts S \<and> se_settled_entry_ids S' = se_settled_entry_ids S
          \<and> (S' = S \<or> (\<exists>b a msg. dict_get (se_batches S) i = Some b \<and> ad = Some a \<and> a (b\<lparr>sb_status := SB_SETTLING\<rparr>) = Inl msg
               \<and> r = Inl (RuntimeError (''Settlement execution failed: '' @ msg))
               \<and> S' = put_batch i (b\<lparr>sb_status := SB_FAILED\<rparr>) S)))"
proof (cases "dict_get (se_batches S) i")
  case None
  then show ?thesis using assms by (auto simp: execute_settlement_def get_batch_def)
next
  case (Some b)
  note run = assms[unfolded execute_settlement_def get_batch_def, simplified Some, simplified]
  consider (status) "sb_status b \<noteq> SB_APPROVED" | (block) "sb_status b = SB_APPROVED" "has_blocking_mismatches (sb_marketplace_id b) R"
    | (late) "sb_status b = SB_APPROVED" "\<not> has_blocking_mismatches (sb_marketplace_id b) R" "latest_report_failed (sb_marketplace_id b) R"
    | (go) "sb_status b = SB_APPROVED" "\<not> has_blocking_mismatches (sb_marketplace_id b) R" "\<not> latest_report_failed (sb_marketplace_id b) R"
    by blast
  then show ?thesis
  proof cases
    case go
    show ?thesis
    proof (cases ad)
      case ad: (Some a)
      show ?thesis
      proof (cases "a (b\<lparr>sb_status := SB_SETTLING\<rparr>)")
        case (Inl m)
        then show ?thesis using run go ad Some by auto
      next
        case (Inr ref)
        then have "\<not> isl r" using run go ad Some by (auto split: prod.splits)
        then show ?thesis using go ad Some Inr by auto
      qed
    qed (use run go Some in auto)
  qed (use run Some in auto)
qed

text \<open>An engine with an approved batch of 90, for evaluation.\<close>

definition sample_approved :: settle_ctx where
  "sample_approved = perform_all (sample_sale @ [hd sample_settle]) (settle_start None sample_world)"

definition sample_failing_execution :: "(settle_books, SettlementBatch) outcome" where
  "sample_failing_execution = execute_settlement (Some (\<lambda>b. Inl ''bank down'')) sample_batch (me_recon (fst sample_approved))
     (me_settle (fst sample_approved), me_ledger (fst sample_approved), snd sample_approved)"

theorem settlement_paid_iff_witness:
  "\<exists>r S' L' w'. sample_failing_execution = (r, S', L', w') \<and> isl r \<and> L' = me_ledger (fst sample_approved)
     \<and> se_payouts S' = se_payouts (me_settle (fst sample_approved))
     \<and> map_option sb_status (dict_get (se_batches S') sample_batch) = Some SB_FAILED"
proof -
  obtain r S' L' w' where q: "sample_failing_execution = (r, S', L', w')" by (metis surj_pair)
  have st: "map_option sb_status (dict_get (se_batches S') sample_batch) = Some SB_FAILED" "isl r"
    using q unfolding sample_failing_execution_def sample_approved_def
    by (auto simp: settle_eval simp del: f_round.simps)
  show ?thesis using settlement_paid_iff[OF q[unfolded sample_failing_execution_def]] st q by auto
qed

text \<open>The answer of the route that executes a batch. The status says what happened: 404 exactly for an unknown
  batch, 409 for one that is not approved, 403 for a blocked marketplace or a missing adapter, 502
  exactly when the adapter raised, in which case the batch is now failed, and 200 exactly when the
  batch is now settled; no other status occurs.\<close>

theorem execute_route_status:
  assumes "api_execute_settlement ad i (E, w) = (resp, (E', w'))"
  shows "case resp of
     HTTP_Error n x \<Rightarrow> n \<in> {404, 409, 403, 502}
       \<and> (n = 404 \<longleftrightarrow> dict_get (se_batches (me_settle E)) i = None)
       \<and> (n = 409 \<longleftrightarrow> (\<exists>b. dict_get (se_batches (me_settle E)) i = Some b \<and> sb_status b \<noteq> SB_APPROVED))
       \<and> (n = 502 \<longrightarrow> map_option sb_status (dict_get (se_batches (me_settle E')) i) = Some SB_FAILED)
       \<and> (n \<noteq> 502 \<longrightarrow> me_settle E' = me_settle E) \<and> me_ledger E' = me_ledger E
   | HTTP_Ok n b \<Rightarrow> n = 200 \<and> dict_get (se_batches (me_settle E')) i = Some b \<and> sb_status b = SB_SETTLED"
proof -
  obtain r S' L' w2 where ex: "execute_settlement ad i (me_recon E) (me_settle E, me_ledger E, w) = (r, (S', L', w2))"
    by (metis surj_pair)
  have E': "E' = E\<lparr>me_settle := S', me_ledger := L'\<rparr>" using assms ex by (simp add: api_execute_settlement_def)
  show ?thesis
  proof (cases r)
    case (Inr b)
    from ex show ?thesis
    proof (cases rule: execute_cases)
      case (paid b0 ref b')
      then show ?thesis using assms ex Inr E' finish_settlement_eq(1,2)[OF paid(6)]
        by (auto simp: api_execute_settlement_def dict.lookup_put)
    qed (use Inr in auto)
  next
    case (Inl x)
    then have "resp = HTTP_Error (case x of RuntimeError _ \<Rightarrow> 502 | NotImplementedError _ \<Rightarrow> 502 | _ \<Rightarrow> settlement_error_status x) x"
      using assms ex by (simp add: api_execute_settlement_def)
    then show ?thesis using ex Inl E'
      by (cases "dict_get (se_batches (me_settle E)) i")
        (auto simp: execute_settlement_def get_batch_def Let_def split: if_splits option.splits sum.splits prod.splits)
  qed
qed

theorem execute_route_status_witness:
  "\<exists>x c. api_execute_settlement (Some (\<lambda>b. Inl ''bank down'')) sample_batch sample_approved = (HTTP_Error 502 x, c)
     \<and> map_option sb_status (batch_of c sample_batch) = Some SB_FAILED"
proof -
  obtain resp E' w' where q: "api_execute_settlement (Some (\<lambda>b. Inl ''bank down'')) sample_batch (fst sample_approved, snd sample_approved)
      = (resp, (E', w'))" by (metis surj_pair)
  have "\<exists>x. resp = HTTP_Error 502 x"
    using q unfolding sample_approved_def by (auto simp: api_execute_settlement_def settle_eval simp del: f_round.simps)
  then show ?thesis using execute_route_status[OF q] q by (auto simp: batch_of_def)
qed

end
