(* ===== verification/Settle_Seams.thy ===== *)
theory Settle_Seams
  imports Settle_Books
begin

text \<open>
  Reconciliation over time and the seams between the components of marketplace settlement: clean books
  reconcile, a full settlement clears the account, resolved mismatches stay resolved; and the
  defects where components disagree: a payout entry is an orphan to reconciliation, it enters the
  next batch, and entries of an unsettled batch can be put into a second one.
\<close>

section \<open>The history of mismatches\<close>

definition mismatch_of :: "settle_ctx \<Rightarrow> string \<Rightarrow> SettlementMismatch option" where
  "mismatch_of c i = dict_get (re_mismatches (me_recon (fst c))) i"

definition mismatch_develops :: "SettlementMismatch \<Rightarrow> SettlementMismatch \<Rightarrow> bool" where
  "mismatch_develops m m' \<longleftrightarrow> m' = m \<or> (sm_status m' = MS_RESOLVED \<and> sm_id m' = sm_id m
     \<and> sm_marketplace_id m' = sm_marketplace_id m \<and> sm_mismatch_type m' = sm_mismatch_type m
     \<and> sm_severity m' = sm_severity m \<and> sm_entity_id m' = sm_entity_id m)"

definition register_ok :: "settle_ctx \<Rightarrow> bool" where
  "register_ok c \<longleftrightarrow> dict_wf (re_mismatches (me_recon (fst c))) \<and> (\<forall>i m. mismatch_of c i = Some m \<longrightarrow> sm_id m = i)"

lemma perform_recon:
  "(\<exists>ms. re_mismatches (me_recon (fst (perform a c))) = register_mismatches ms (re_mismatches (me_recon (fst c))))
   \<or> (\<exists>i m m'. mismatch_of c i = Some m \<and> mismatch_develops m m' \<and> sm_status m' = MS_RESOLVED \<and> sm_id m' = sm_id m
        \<and> re_mismatches (me_recon (fst (perform a c))) = dict_set i m' (re_mismatches (me_recon (fst c))))"
  (is "?reg \<or> ?res")
proof -
  obtain E w where c: "c = (E, w)" by (cases c)
  have idle: ?reg if "me_recon (fst (perform a c)) = me_recon (fst c)"
    using that by (intro exI[of _ "[]"]) (simp add: register_mismatches_def)
  show ?thesis
  proof (cases a)
    case (RunRecon mid s t)
    then show ?thesis using c by (auto simp: recon_run_def Let_def split_beta)
  next
    case (Resolve i actor nts)
    show ?thesis
    proof (cases "mismatch_of c i")
      case None
      then show ?thesis using Resolve c idle by (simp add: mismatch_of_def resolve_mismatch_def)
    next
      case (Some m)
      then have "mismatch_of c i = Some m \<and> mismatch_develops m (the (mismatch_of (perform a c) i))
          \<and> sm_status (the (mismatch_of (perform a c) i)) = MS_RESOLVED \<and> sm_id (the (mismatch_of (perform a c) i)) = sm_id m
          \<and> re_mismatches (me_recon (fst (perform a c))) = dict_set i (the (mismatch_of (perform a c) i)) (re_mismatches (me_recon (fst c)))"
        using Resolve c by (simp add: mismatch_of_def resolve_mismatch_def mismatch_develops_def Let_def)
      then show ?thesis by blast
    qed
  qed (use c idle in \<open>auto split: prod.splits\<close>)
qed

lemma register_new_id:
  "dict_get (register_mismatches ms d) i = Some m \<Longrightarrow> dict_get d i = None \<Longrightarrow> sm_id m = i"
  by (auto simp: register_get find_Some_iff)

interpretation mismatches: object_history perform mismatch_of mismatch_develops register_ok "\<lambda>_. True"
proof (unfold_locales, goal_cases)
  case (2 c a)
  from perform_recon[of a c] show ?case
  proof
    assume "\<exists>ms. re_mismatches (me_recon (fst (perform a c))) = register_mismatches ms (re_mismatches (me_recon (fst c)))"
    then obtain ms where ms: "re_mismatches (me_recon (fst (perform a c))) = register_mismatches ms (re_mismatches (me_recon (fst c)))" ..
    have "sm_id m = i" if "mismatch_of (perform a c) i = Some m" for i m
    proof (cases "mismatch_of c i")
      case None
      then show ?thesis using that register_new_id by (simp add: mismatch_of_def ms)
    next
      case (Some m0)
      then have "m0 = m" using that by (simp add: mismatch_of_def ms register_get)
      then show ?thesis using Some 2 by (auto simp: register_ok_def)
    qed
    then show ?thesis using 2 by (simp add: register_ok_def ms register_wf)
  next
    assume "\<exists>i m m'. mismatch_of c i = Some m \<and> mismatch_develops m m' \<and> sm_status m' = MS_RESOLVED \<and> sm_id m' = sm_id m
        \<and> re_mismatches (me_recon (fst (perform a c))) = dict_set i m' (re_mismatches (me_recon (fst c)))"
    then show ?thesis using 2 by (auto simp: register_ok_def mismatch_of_def dict.wf_put dict.lookup_put split: if_splits)
  qed
next
  case (3 c a k m)
  then show ?case using perform_recon[of a c]
    by (auto simp: mismatch_of_def register_get dict.lookup_put mismatch_develops_def)
qed (auto simp: mismatch_develops_def)

lemma register_ok_start: "register_ok (settle_start pol w)"
  by (simp add: register_ok_def mismatch_of_def settle_start_def marketplace_settlement_init_def settlement_recon_init_def)

lemma register_ok_run: "register_ok (perform_all cs (settle_start pol w))"
  unfolding perform_all_def by (rule mismatches.inv_run[OF register_ok_start TrueI])

text \<open>A resolution is final. Once a mismatch is resolved it stays resolved through any later calls, keeps its
  identity, never blocks a settlement, and no later reconciliation lists it, even when it finds the
  same discrepancy again.\<close>

theorem resolved_mismatch_is_final:
  assumes "perform_all cs (settle_start pol w) = c" "mismatch_of c i = Some m" "sm_status m = MS_RESOLVED"
  shows "\<exists>m'. mismatch_of (perform_all ds c) i = Some m' \<and> sm_status m' = MS_RESOLVED
           \<and> sm_marketplace_id m' = sm_marketplace_id m \<and> sm_severity m' = sm_severity m
       \<and> i \<notin> set (rp_mismatches (fst (recon_run p mid s t L (me_recon (fst (perform_all ds c)), v))))"
proof -
  let ?d = "perform_all ds c"
  have c: "register_ok c" using register_ok_run assms(1) by blast
  from mismatches.obj_run[OF c TrueI assms(2), of ds, folded perform_all_def]
  obtain m' where m': "mismatch_of ?d i = Some m'" "mismatch_develops m m'" by blast
  have r: "sm_status m' = MS_RESOLVED" using m'(2) assms(3) by (auto simp: mismatch_develops_def)
  have d: "register_ok ?d" using mismatches.inv_run[OF c TrueI, of ds] by (simp add: perform_all_def)
  obtain rep R' v' where run: "recon_run p mid s t L (me_recon (fst ?d), v) = (rep, R', v')" by (metis surj_pair)
  note ms = recon_run_sel(1)[OF run]
  have "i \<notin> sm_id ` set (open_mismatches mid (re_mismatches R'))"
  proof
    assume "i \<in> sm_id ` set (open_mismatches mid (re_mismatches R'))"
    then obtain x k where x: "sm_id x = i" "sm_status x = MS_OPEN" "dict_get (re_mismatches R') k = Some x"
      using open_mismatches_iff[of "re_mismatches R'"] register_wf d by (auto simp: ms register_ok_def)
    have "k = i"
    proof (cases "mismatch_of ?d k")
      case None
      then show ?thesis using register_new_id x(1,3) by (simp add: ms mismatch_of_def)
    next
      case (Some x0)
      then show ?thesis using d x(1,3) by (auto simp: register_ok_def mismatch_of_def ms register_get)
    qed
    then show False using x m'(1) r by (simp add: ms register_get mismatch_of_def)
  qed
  then show ?thesis using m' r run by (auto simp: mismatch_develops_def recon_run_sel(5)[OF run])
qed

text \<open>A refund larger than the sale makes the balance negative; the mismatch is found, resolved and
  found again.\<close>

definition sample_resolved :: settle_ctx where
  "sample_resolved = perform_all
     [Ingest (sample_sale_event ''pay'' FE_PAYMENT_CAPTURED 10), Ingest (sample_sale_event ''ref'' FE_REFUND_ISSUED 100),
      RunRecon ''m'' 0 1000, Resolve ''mismatch:m:NEGATIVE_BALANCE:t:USD'' ''ops'' ''known''] (settle_start None sample_world)"

theorem resolved_mismatch_is_final_witness:
  "''mismatch:m:NEGATIVE_BALANCE:t:USD'' \<notin>
     set (rp_mismatches (fst (recon_run settlement_policy_default ''m'' 0 1000 (me_ledger (fst sample_resolved))
       (me_recon (fst sample_resolved), snd sample_resolved))))"
proof -
  have "map_option sm_status (mismatch_of sample_resolved ''mismatch:m:NEGATIVE_BALANCE:t:USD'') = Some MS_RESOLVED"
    unfolding sample_resolved_def mismatch_of_def by (simp add: settle_eval del: f_round.simps)
  then obtain m where "mismatch_of sample_resolved ''mismatch:m:NEGATIVE_BALANCE:t:USD'' = Some m" "sm_status m = MS_RESOLVED"
    by auto
  from resolved_mismatch_is_final[OF sample_resolved_def[symmetric] this, of "[]"
    settlement_policy_default "''m''" 0 1000 "me_ledger (fst sample_resolved)" "snd sample_resolved"]
  show ?thesis by auto
qed

section \<open>Clean books\<close>

lemma list_all2_partner:
  assumes "list_all2 P xs ys"
  shows "\<forall>x \<in> set xs. \<exists>y \<in> set ys. P x y" "\<forall>y \<in> set ys. \<exists>x \<in> set xs. P x y"
  using assms by (induction rule: list_all2_induct) auto

lemma in_entries_for_period:
  "e \<in> set (entries_for_period mid s t tid L) \<longleftrightarrow> e \<in> set (fl_entries L) \<and> sl_marketplace_id e = mid
     \<and> (opt_truthy tid \<longrightarrow> Some (sl_tenant_id e) = tid) \<and> s \<le> sl_created_at e \<and> sl_created_at e \<le> t"
  by (auto simp: entries_for_period_def in_period_def)

lemma missing_entries_Nil:
  assumes "\<And>ev. ev \<in> set events \<Longrightarrow> fe_id ev \<noteq> [] \<and> (\<exists>e \<in> set entries. sl_event_id e = Some (fe_id ev))"
  shows "missing_entries mid events entries = []"
  using assms by (auto simp: missing_entries_def Let_def filter_empty_conv)

lemma orphan_entries_Nil:
  assumes "\<And>e. e \<in> set entries \<Longrightarrow> \<exists>ev \<in> set events. sl_event_id e = Some (fe_id ev)"
  shows "orphan_entries mid events entries = []"
  using assms by (fastforce simp: orphan_entries_def Let_def filter_empty_conv)

lemma ingest_only_entries:
  "filter (\<lambda>e. sl_entry_type e \<noteq> ET_SETTLEMENT) (fl_entries (me_ledger (fst (perform_all (map Ingest evs) c)))) =
     fl_entries (me_ledger (fst (perform_all (map Ingest evs) c)))"
  if "\<forall>e \<in> set (fl_entries (me_ledger (fst c))). sl_entry_type e \<noteq> ET_SETTLEMENT"
  using that
proof (induction evs arbitrary: c)
  case (Cons ev evs)
  obtain E w where c: "c = (E, w)" by (cases c)
  obtain r L' w' where i: "ingest_event ev (me_ledger E, w) = (r, (L', w'))" by (metis surj_pair)
  have "\<forall>e \<in> set (fl_entries L'). sl_entry_type e \<noteq> ET_SETTLEMENT"
    using i
  proof (cases rule: ingest_cases)
    case (booked e)
    then show ?thesis using Cons.prems c books_event_not_settlement[OF booked(2)] by auto
  qed (use Cons.prems c in simp)
  then show ?case using Cons.IH[of "perform (Ingest ev) c"] c i by simp
qed simp

text \<open>Clean books reconcile. When only events were ingested, whatever their kind and order, every event of the marketplace and its
  entry lie in the period, and no balance is negative, a first reconciliation reports OK
  without any mismatch.\<close>

theorem clean_books_reconcile:
  assumes "perform_all (map Ingest evs) (settle_start pol w) = (E, w1)"
    and "recon_run (me_policy E) mid s t (me_ledger E) (me_recon E, w2) = (rep, R', w3)"
    and "\<forall>ev \<in> set (fl_events (me_ledger E)). fe_id ev \<noteq> [] \<and> s \<le> fe_occurred_at ev \<and> fe_occurred_at ev \<le> t"
    and "\<forall>e \<in> set (fl_entries (me_ledger E)). s \<le> sl_created_at e \<and> sl_created_at e \<le> t"
    and "\<forall>(k, bal) \<in> set (balances_by_tenant mid (me_ledger E)). \<not> f_lt bal (Fin 0)"
  shows "rp_status rep = RECON_OK \<and> rp_mismatches rep = [] \<and> \<not> has_blocking_mismatches mid R'"
proof -
  let ?L = "me_ledger E"
  have "booked_once ?L" using booked_once_run[OF booked_once_start, of "map Ingest evs" pol w] assms(1) by simp
  moreover have "filter (\<lambda>e. sl_entry_type e \<noteq> ET_SETTLEMENT) (fl_entries ?L) = fl_entries ?L"
    using ingest_only_entries[of "settle_start pol w" evs] assms(1)
    by (simp add: settle_start_def marketplace_settlement_init_def settlement_ledger_init_def)
  ultimately have pairs: "list_all2 books_event (fl_events ?L) (fl_entries ?L)" by (simp add: booked_once_def)
  note fwd = list_all2_partner(1)[OF pairs] and bwd = list_all2_partner(2)[OF pairs]
  have "missing_entries mid (period_events mid s t ?L) (entries_for_period mid s t None ?L) = []"
  proof (rule missing_entries_Nil)
    fix ev assume ev: "ev \<in> set (period_events mid s t ?L)"
    then have "ev \<in> set (fl_events ?L)" "fe_marketplace_id ev = mid" by (auto simp: period_events_def)
    moreover from this obtain e where e: "e \<in> set (fl_entries ?L)" "books_event ev e" using fwd by blast
    ultimately have "e \<in> set (entries_for_period mid s t None ?L)"
      using assms(4) by (simp add: in_entries_for_period books_event_def)
    then show "fe_id ev \<noteq> [] \<and> (\<exists>e \<in> set (entries_for_period mid s t None ?L). sl_event_id e = Some (fe_id ev))"
      using e(2) ev assms(3) by (auto simp: books_event_def period_events_def)
  qed
  moreover have "orphan_entries mid (period_events mid s t ?L) (entries_for_period mid s t None ?L) = []"
  proof (rule orphan_entries_Nil)
    fix e assume e: "e \<in> set (entries_for_period mid s t None ?L)"
    then have "e \<in> set (fl_entries ?L)" "sl_marketplace_id e = mid" by (simp_all add: in_entries_for_period)
    moreover from this obtain ev where "ev \<in> set (fl_events ?L)" "books_event ev e" using bwd by blast
    ultimately show "\<exists>ev \<in> set (period_events mid s t ?L). sl_event_id e = Some (fe_id ev)"
      using assms(3) by (auto simp: period_events_def books_event_def intro!: bexI[of _ ev])
  qed
  moreover have "negative_balances mid (me_policy E) ?L = []"
    using assms(5) by (auto simp: negative_balances_def filter_empty_conv)
  ultimately have found: "found_mismatches (me_policy E) mid s t ?L = []" by (simp add: found_mismatches_def)
  have "me_recon E = settlement_recon_init"
  proof -
    have "me_recon (fst (perform_all (map Ingest evs) c)) = me_recon (fst c)" for c
      by (induction evs arbitrary: c) (auto split: prod.splits)
    from this[of "settle_start pol w"] show ?thesis
      using assms(1) by (simp add: settle_start_def marketplace_settlement_init_def)
  qed
  then have "re_mismatches R' = []"
    using recon_run_sel(1)[OF assms(2)] found by (simp add: register_mismatches_def settlement_recon_init_def)
  then show ?thesis using recon_run_sel(2,5)[OF assms(2)]
    by (simp add: open_mismatches_def recon_status_def has_blocking_mismatches_def)
qed

theorem clean_books_reconcile_witness:
  "\<exists>E w1 rep R' w3. perform_all (map Ingest [sample_sale_event ''pay'' FE_PAYMENT_CAPTURED 100, sample_sale_event ''fee'' FE_FEE_CHARGED 10])
       (settle_start None sample_world) = (E, w1)
     \<and> recon_run (me_policy E) ''m'' 0 1000 (me_ledger E) (me_recon E, w1) = (rep, R', w3)
     \<and> rp_status rep = RECON_OK \<and> length (fl_entries (me_ledger E)) = 2"
proof -
  let ?evs = "[sample_sale_event ''pay'' FE_PAYMENT_CAPTURED 100, sample_sale_event ''fee'' FE_FEE_CHARGED 10]"
  let ?c = "perform_all (map Ingest ?evs) (settle_start None sample_world)"
  obtain rep R' w3 where run: "recon_run (me_policy (fst ?c)) ''m'' 0 1000 (me_ledger (fst ?c)) (me_recon (fst ?c), snd ?c) = (rep, R', w3)"
    by (metis surj_pair)
  have "length (fl_entries (me_ledger (fst ?c))) = 2" by (simp add: settle_eval)
  moreover have "rp_status rep = RECON_OK \<and> rp_mismatches rep = [] \<and> \<not> has_blocking_mismatches ''m'' R'"
    by (rule clean_books_reconcile[OF _ run, of ?evs None sample_world "snd ?c"])
      (simp_all add: settle_eval del: f_round.simps)
  ultimately show ?thesis using run by (metis prod.collapse)
qed

section \<open>Clearing an account\<close>

lemma batch_sums_net:
  "(case foldl batch_sum_step s es of (g, r, f, t, n) \<Rightarrow> n) =
     foldl f_add (case s of (g, r, f, t, n) \<Rightarrow> n) (map sl_amount es)"
  by (induction es arbitrary: s) (auto simp: batch_sum_step_def split: prod.splits)

lemma batch_net_total: "batch_net es = f_round 2 (float_total (map sl_amount es))"
  using batch_sums_net[of "(Fin 0, Fin 0, Fin 0, Fin 0, Fin 0)" es]
  by (auto simp: batch_net_def batch_sums_def float_total_def split: prod.splits)

lemma float_total_snoc: "float_total (xs @ [x]) = f_add (float_total xs) x"
  by (simp add: float_total_def)

text \<open>A full settlement clears the account. When a batch holds every entry of an account, the amounts are whole
  units of the currency and their total is below two to the 53 in size, the net amount of the batch is exactly the sum
  of the entries, and after the batch was executed the balance of the account is exactly zero.\<close>

theorem full_settlement_clears_account:
  assumes "create_batch pol mid tid cur s t L (S, w) = (Inr b, (S1, w1))"
    and "batch_entries mid tid cur s t L S = filter (of_account mid tid cur) (fl_entries L)"
    and "whole (map sl_amount (filter (of_account mid tid cur) (fl_entries L))) ns"
    and "dict_get (se_batches S2) (sb_id b) = Some b2" "batch_terms b2 = batch_terms b"
    and "execute_settlement ad (sb_id b) R (S2, L, w2) = (Inr b', (S3, L3, w3))"
  shows "sb_net_amount b = Fin (of_int (sum_list ns)) \<and> ledger_balance mid tid cur L3 = Fin 0"
proof -
  let ?es = "filter (of_account mid tid cur) (fl_entries L)"
  obtain st where nb: "new_batch mid tid cur s t ?es st w = (b, w1)"
    using assms(1,2) by (auto simp: create_batch_def Let_def split: if_splits prod.splits)
  note tot = float_total_whole[OF assms(3)] and bd = whole_sum_bound[OF assms(3)]
  have net: "sb_net_amount b = Fin (of_int (sum_list ns))"
    using new_batch_sel(5)[OF nb] f_round_int[OF bd] by (simp only: batch_net_total tot)
  have terms: "sb_marketplace_id b2 = mid" "sb_tenant_id b2 = tid" "sb_currency b2 = cur" "sb_net_amount b2 = sb_net_amount b"
    using batch_terms_sel[OF assms(5)] new_batch_sel(7,8,9)[OF nb] by simp_all
  from assms(6) obtain ref where fin: "finish_settlement (sb_id b) (b2\<lparr>sb_status := SB_SETTLING\<rparr>) ref (S2, L, w2) = (b', (S3, L3, w3))"
    by (cases rule: execute_cases) (use assms(4) in auto)
  have bal: "float_total (map sl_amount (filter (of_account mid tid cur) (fl_entries L3))) = Fin 0"
  proof (cases "sum_list ns = 0")
    case True
    then show ?thesis using finish_settlement_eq(5)[OF fin] tot terms net by simp
  next
    case False
    then have "L3 = append_entry (fst (settlement_entry (b2\<lparr>sb_status := SB_SETTLING\<rparr>) w2)) L"
      using finish_settlement_eq(5)[OF fin] terms net by simp
    then have "map sl_amount (filter (of_account mid tid cur) (fl_entries L3)) = map sl_amount ?es @ [f_neg (sb_net_amount b)]"
      using terms by (simp add: of_account_def)
    then show ?thesis using tot net by (simp add: float_total_snoc)
  qed
  then show ?thesis using net f_round_int[of 0] by (simp add: ledger_balance_def del: f_round.simps)
qed

theorem full_settlement_clears_account_witness:
  "ledger_balance ''m'' ''t'' ''USD'' (me_ledger (fst sample_settled)) = Fin 0
   \<and> ledger_balance ''m'' ''t'' ''USD'' (me_ledger (fst sample_approved)) = Fin 90"
proof -
  let ?c = "perform_all (take 2 sample_sale) (settle_start None sample_world)"
  obtain b S1 w1 where cr: "create_batch settlement_policy_default ''m'' ''t'' ''USD'' 0 1000 (me_ledger (fst ?c)) (me_settle (fst ?c), snd ?c)
      = (Inr b, (S1, w1))" and id: "sb_id b = sample_batch" by (simp add: settle_eval del: f_round.simps)
  obtain r S3 L3 w3 where ex: "execute_settlement (Some static_settlement_adapter) sample_batch (me_recon (fst sample_approved))
      (me_settle (fst sample_approved), me_ledger (fst ?c), snd sample_approved) = (r, (S3, L3, w3))" by (metis surj_pair)
  have r: "\<exists>b'. r = Inr b'" and L3: "L3 = me_ledger (fst sample_settled)"
    using ex unfolding sample_approved_def sample_settled_def by (auto simp: settle_eval simp del: f_round.simps)
  obtain b2 where b2: "dict_get (se_batches (me_settle (fst sample_approved))) sample_batch = Some b2" "batch_terms b2 = batch_terms b"
    using cr unfolding sample_approved_def by (auto simp: settle_eval batch_terms_def simp del: f_round.simps)
  have ents: "batch_entries ''m'' ''t'' ''USD'' 0 1000 (me_ledger (fst ?c)) (me_settle (fst ?c)) =
      filter (of_account ''m'' ''t'' ''USD'') (fl_entries (me_ledger (fst ?c)))"
    "whole (map sl_amount (filter (of_account ''m'' ''t'' ''USD'') (fl_entries (me_ledger (fst ?c))))) [100, - 10]"
    by (simp_all add: settle_eval whole_def)
  have "ledger_balance ''m'' ''t'' ''USD'' (me_ledger (fst sample_approved)) = Fin 90"
    unfolding sample_approved_def by (simp add: settle_eval del: f_round.simps)
  then show ?thesis
    using full_settlement_clears_account[OF cr ents b2(1)[folded id] b2(2), of "Some static_settlement_adapter" "me_recon (fst sample_approved)"
        "snd sample_approved"] r ex L3 id by auto
qed

section \<open>Seams\<close>

text \<open>The payout entry of a successful execution.\<close>

lemma executed_posting:
  assumes "execute_settlement ad i R (S, L, w) = (Inr b', (S', L', w'))" "sb_net_amount b' \<noteq> Fin 0"
  obtains e where "fl_entries L' = fl_entries L @ [e]" "fl_events L' = fl_events L" "sl_id e = next_id ''ledger_entry'' w"
    "sl_event_id e = Some (sb_id b')" "sl_marketplace_id e = sb_marketplace_id b'" "sl_tenant_id e = sb_tenant_id b'"
    "sl_currency e = sb_currency b'" "sl_amount e = f_neg (sb_net_amount b')" "sl_created_at e = clock_of w (clock_n w)"
  using assms(1)
proof (cases rule: execute_cases)
  case (paid b ref b1)
  note eq = finish_settlement_eq[OF paid(6)]
  have "L' = append_entry (fst (settlement_entry (b\<lparr>sb_status := SB_SETTLING\<rparr>) w)) L" "b' = b1"
    using eq(5) eq(2) paid(1) assms(2) by simp_all
  then show ?thesis by (intro that[of "fst (settlement_entry (b\<lparr>sb_status := SB_SETTLING\<rparr>) w)"]) (simp_all add: eq(2))
qed simp_all

text \<open>A payout blocks the next ones. Its settlement entry names the batch in place of an event, so a
  reconciliation over a period that contains it reports an orphan entry and FAIL, unless that
  orphan was registered before; from then on every execution of a batch of the marketplace raises.\<close>

theorem payout_fails_reconciliation:
  assumes "execute_settlement ad i R (S, L, w) = (Inr b', (S', L', w'))" "sb_net_amount b' \<noteq> Fin 0"
    and "sb_id b' \<noteq> []" "sb_id b' \<notin> fe_id ` set (fl_events L)"
    and "s \<le> clock_of w (clock_n w)" "clock_of w (clock_n w) \<le> t"
    and "dict_get (re_mismatches R) (mismatch_id (sb_marketplace_id b') ''ORPHAN_LEDGER_ENTRY'' (Some (next_id ''ledger_entry'' w))) = None"
    and "recon_run pol (sb_marketplace_id b') s t L' (R, v) = (rep, R', v')"
  shows "rp_status rep = RECON_FAIL
     \<and> (\<forall>S2 L2 w2 ad2 j b2. dict_get (se_batches S2) j = Some b2 \<and> sb_marketplace_id b2 = sb_marketplace_id b' \<longrightarrow>
          isl (fst (execute_settlement ad2 j R' (S2, L2, w2))))"
proof -
  let ?m = "sb_marketplace_id b'"
  obtain e where e: "fl_entries L' = fl_entries L @ [e]" "fl_events L' = fl_events L" "sl_id e = next_id ''ledger_entry'' w"
    "sl_event_id e = Some (sb_id b')" "sl_marketplace_id e = ?m" "sl_created_at e = clock_of w (clock_n w)"
    by (rule executed_posting[OF assms(1,2)]) blast
  have "e \<in> set (entries_for_period ?m s t None L')"
    using e assms(5,6) by (simp add: in_entries_for_period)
  moreover have "sb_id b' \<notin> fe_id ` set (period_events ?m s t L')"
    using e(2) assms(4) by (auto simp: period_events_def)
  ultimately have "\<exists>m \<in> set (orphan_entries ?m (period_events ?m s t L') (entries_for_period ?m s t None L')).
      sm_id m = mismatch_id ?m ''ORPHAN_LEDGER_ENTRY'' (Some (sl_id e))"
    using e(4) assms(3) by (auto simp: orphan_entries_def Let_def intro!: bexI[of _ e])
  then obtain m where m: "m \<in> set (found_mismatches pol ?m s t L')" "sm_id m = mismatch_id ?m ''ORPHAN_LEDGER_ENTRY'' (Some (sl_id e))"
    by (auto simp: found_mismatches_def Let_def)
  have blk: "has_blocking_mismatches ?m R'"
    by (rule found_blocks[OF assms(8) m(1)]) (use m(2) e(3) assms(7) in simp)
  have "isl (fst (execute_settlement ad2 j R' (S2, L2, w2)))"
    if "dict_get (se_batches S2) j = Some b2" "sb_marketplace_id b2 = ?m" for S2 L2 w2 ad2 j b2
    using that blk by (simp add: execute_settlement_def get_batch_def)
  then show ?thesis using run_fail_iff_blocking[OF assms(8)] blk by blast
qed

theorem payout_fails_reconciliation_witness:
  "rp_status (fst (recon_run settlement_policy_default ''m'' 0 1000 (me_ledger (fst sample_settled))
       (me_recon (fst sample_settled), snd sample_settled))) = RECON_FAIL"
proof -
  let ?c = "sample_approved"
  obtain r S' L' w' where ex: "execute_settlement (Some static_settlement_adapter) sample_batch (me_recon (fst ?c))
      (me_settle (fst ?c), me_ledger (fst ?c), snd ?c) = (r, (S', L', w'))" by (metis surj_pair)
  have "\<exists>b'. r = Inr b' \<and> sb_net_amount b' \<noteq> Fin 0 \<and> sb_id b' = sample_batch \<and> sb_marketplace_id b' = ''m''"
    and L': "L' = me_ledger (fst sample_settled)"
    using ex unfolding sample_approved_def sample_settled_def by (auto simp: settle_eval simp del: f_round.simps)
  then obtain b' where b': "r = Inr b'" "sb_net_amount b' \<noteq> Fin 0" "sb_id b' = sample_batch" "sb_marketplace_id b' = ''m''" by blast
  have pre: "sample_batch \<notin> fe_id ` set (fl_events (me_ledger (fst ?c)))" "clock_of (snd ?c) (clock_n (snd ?c)) = 3"
    "re_mismatches (me_recon (fst ?c)) = []" "me_recon (fst sample_settled) = me_recon (fst ?c)"
    unfolding sample_approved_def sample_settled_def by (simp_all add: settle_eval del: f_round.simps)
  obtain rep R' v' where run: "recon_run settlement_policy_default ''m'' 0 1000 (me_ledger (fst sample_settled))
       (me_recon (fst sample_settled), snd sample_settled) = (rep, R', v')" by (metis surj_pair)
  have "rp_status rep = RECON_FAIL"
    using payout_fails_reconciliation[OF ex[unfolded b'(1)] b'(2), of 0 1000 settlement_policy_default "snd sample_settled" rep R' v']
      pre run b'(3,4) by (simp add: L' sample_batch_def)
  then show ?thesis by (simp add: run)
qed

text \<open>A payout is charged again. The settlement entry itself is not marked as settled: the next batch of
  the account over a period that contains it holds it with its negative amount.\<close>

theorem payout_enters_next_batch:
  assumes "execute_settlement ad i R (S, L, w) = (Inr b', (S', L', w'))" "sb_net_amount b' \<noteq> Fin 0"
    and "s \<le> clock_of w (clock_n w)" "clock_of w (clock_n w) \<le> t" "next_id ''ledger_entry'' w \<notin> se_settled_entry_ids S'"
  shows "\<exists>e \<in> set (batch_entries (sb_marketplace_id b') (sb_tenant_id b') (sb_currency b') s t L' S').
     sl_event_id e = Some (sb_id b') \<and> sl_amount e = f_neg (sb_net_amount b')"
proof -
  obtain e where e: "fl_entries L' = fl_entries L @ [e]" "sl_id e = next_id ''ledger_entry'' w"
    "sl_event_id e = Some (sb_id b')" "sl_marketplace_id e = sb_marketplace_id b'" "sl_tenant_id e = sb_tenant_id b'"
    "sl_currency e = sb_currency b'" "sl_amount e = f_neg (sb_net_amount b')" "sl_created_at e = clock_of w (clock_n w)"
    by (rule executed_posting[OF assms(1,2)]) blast
  have "e \<in> set (entries_for_period (sb_marketplace_id b') s t (Some (sb_tenant_id b')) L')"
    using e assms(3,4) by (simp add: in_entries_for_period)
  then show ?thesis using e assms(5) by (intro bexI[of _ e]) (auto simp: batch_entries_def)
qed

text \<open>After the sale of 100 with its fee was paid out, a new sale of 50 cannot be settled: the batch
  counts the payout of 90 again.\<close>

theorem payout_enters_next_batch_witness:
  "(\<exists>e \<in> set (batch_entries ''m'' ''t'' ''USD'' 0 1000 (me_ledger (fst sample_settled)) (me_settle (fst sample_settled))).
       sl_amount e = Fin (- 90))
   \<and> (let c = perform (Ingest (sample_sale_event ''new'' FE_PAYMENT_CAPTURED 50)) sample_settled in
       fst (create_batch settlement_policy_default ''m'' ''t'' ''USD'' 0 1000 (me_ledger (fst c)) (me_settle (fst c), snd c)) =
         Inl (ValueError ''Settlement amount is below minimum threshold.''))"
proof -
  let ?c = "sample_approved"
  obtain r S' L' w' where ex: "execute_settlement (Some static_settlement_adapter) sample_batch (me_recon (fst ?c))
      (me_settle (fst ?c), me_ledger (fst ?c), snd ?c) = (r, (S', L', w'))" by (metis surj_pair)
  have "\<exists>b'. r = Inr b' \<and> sb_net_amount b' = Fin 90 \<and> sb_tenant_id b' = ''t'' \<and> sb_marketplace_id b' = ''m'' \<and> sb_currency b' = ''USD''"
    and L': "L' = me_ledger (fst sample_settled)" "S' = me_settle (fst sample_settled)"
    using ex unfolding sample_approved_def sample_settled_def by (auto simp: settle_eval simp del: f_round.simps)
  then obtain b' where b': "r = Inr b'" "sb_net_amount b' = Fin 90" "sb_tenant_id b' = ''t''" "sb_marketplace_id b' = ''m''" "sb_currency b' = ''USD''"
    by blast
  have pre: "clock_of (snd ?c) (clock_n (snd ?c)) = 3" "next_id ''ledger_entry'' (snd ?c) \<notin> se_settled_entry_ids (me_settle (fst sample_settled))"
    unfolding sample_approved_def sample_settled_def by (simp_all add: settle_eval next_id_def id_at_def del: f_round.simps)
  have "fst (create_batch settlement_policy_default ''m'' ''t'' ''USD'' 0 1000 (me_ledger (fst c)) (me_settle (fst c), snd c)) =
         Inl (ValueError ''Settlement amount is below minimum threshold.'')"
    if "c = perform (Ingest (sample_sale_event ''new'' FE_PAYMENT_CAPTURED 50)) sample_settled" for c
    using that unfolding sample_settled_def by (simp add: settle_eval del: f_round.simps)
  then show ?thesis
    using payout_enters_next_batch[OF ex[unfolded b'(1)], of 0 1000] pre b'(2-) by (simp add: L' Let_def) blast
qed

section \<open>Overlapping batches\<close>

lemma negative_below_minimum:
  "settlement_policy_valid pol \<Longrightarrow> f_lt x (Fin 0) \<Longrightarrow> f_lt x (sp_min_settlement_amount pol)"
  using f_lt_le_trans by (auto simp: settlement_policy_valid_def)

lemma create_draft:
  assumes "settlement_policy_valid pol" "create_batch pol mid tid cur s t L (S, w) = (Inr b, c')"
  shows "sb_status b = SB_DRAFT" "\<not> f_lt (sb_net_amount b) (sp_min_settlement_amount pol)"
  using assms negative_below_minimum[OF assms(1)]
  by (auto simp: create_batch_def Let_def split: if_splits prod.splits dest: new_batch_sel(2,5))

text \<open>The switch for negative settlements has no effect. A minimum amount is never negative, so a batch with a
  negative net amount is always refused; creation does not depend on the switch, and every batch
  it creates is a draft with a net amount that is not below the minimum.\<close>

theorem negative_switch_has_no_effect:
  assumes "settlement_policy_valid pol"
  shows "create_batch (pol\<lparr>sp_allow_negative_settlement := flag\<rparr>) mid tid cur s t L c =
           create_batch pol mid tid cur s t L c
       \<and> (\<forall>b c'. create_batch pol mid tid cur s t L c = (Inr b, c') \<longrightarrow>
            sb_status b = SB_DRAFT \<and> \<not> f_lt (sb_net_amount b) (sp_min_settlement_amount pol))"
proof (cases c)
  case (Pair S w)
  then show ?thesis using create_draft[OF assms] negative_below_minimum[OF assms]
    by (auto simp: create_batch_def Let_def)
qed

theorem negative_switch_has_no_effect_witness:
  "fst (create_batch (settlement_policy_default\<lparr>sp_allow_negative_settlement := True\<rparr>) ''m'' ''t'' ''USD'' 0 1000
     (me_ledger (fst (perform (Ingest (sample_sale_event ''ref'' FE_REFUND_ISSUED 90)) (settle_start None sample_world))))
     (settlement_engine_init, sample_world)) = Inl (ValueError ''Settlement amount is below minimum threshold.'')"
proof -
  have v: "settlement_policy_valid settlement_policy_default"
    by (simp add: settlement_policy_valid_def settlement_policy_default_def)
  show ?thesis
    using negative_switch_has_no_effect[OF v, of True "''m''" "''t''" "''USD''" 0 1000
        "me_ledger (fst (perform (Ingest (sample_sale_event ''ref'' FE_REFUND_ISSUED 90)) (settle_start None sample_world)))"
        "(settlement_engine_init, sample_world)"]
    by (simp add: settle_eval del: f_round.simps)
qed

lemma approve_static_allow:
  assumes "dict_get (se_batches S) i = Some b" "sb_status b = SB_DRAFT"
  shows "\<exists>b' r. approve_settlement pol (Some (static_governance_gateway SD_ALLOW why)) i actor ref S = (r, put_batch i b' S)
     \<and> sb_status b' = SB_APPROVED \<and> batch_terms b' = batch_terms b"
  using assms by (auto simp: approve_settlement_def static_governance_gateway_def get_batch_def Let_def batch_terms_def)

lemma execute_static:
  assumes "dict_get (se_batches S) i = Some b" "sb_status b = SB_APPROVED"
    and "\<not> has_blocking_mismatches (sb_marketplace_id b) R" "\<not> latest_report_failed (sb_marketplace_id b) R"
  shows "\<exists>r b' p S' L' w'. execute_settlement (Some static_settlement_adapter) i R (S, L, w) = (r, (S', L', w'))
     \<and> se_batches S' = dict_set i b' (se_batches S) \<and> se_payouts S' = se_payouts S @ [p] \<and> po_amount p = sb_net_amount b"
proof -
  let ?st = "b\<lparr>sb_status := SB_SETTLING\<rparr>"
  obtain b' S' L' w' where f: "finish_settlement i ?st (''static_settlement:'' @ sb_id b) (S, L, w) = (b', S', L', w')"
    by (metis surj_pair)
  have ex: "execute_settlement (Some static_settlement_adapter) i R (S, L, w) = (Inr b', (S', L', w'))"
    using assms f by (simp add: execute_settlement_def get_batch_def static_settlement_adapter_def)
  obtain p where "se_payouts S' = se_payouts S @ [p]" "payout_pays b' p" using finish_settlement_eq(3)[OF f] by blast
  moreover have "sb_net_amount b' = sb_net_amount b" by (simp add: finish_settlement_eq(2)[OF f])
  ultimately show ?thesis using ex finish_settlement_eq(1)[OF f] by (auto simp: payout_pays_def)
qed

text \<open>Entries are paid twice. Creating a batch does not reserve its entries: a second batch over the same
  period holds the same entries, and when both are approved and executed the same net amount is
  paid out twice.\<close>

theorem overlapping_batches_both_pay:
  assumes "create_batch (me_policy E) mid tid cur s t (me_ledger E) (me_settle E, w) = (Inr b1, (S1, w1))"
    and "create_batch (me_policy E) mid tid cur s t (me_ledger E) (S1, w1) = (Inr b2, (S2, w2))"
    and "settlement_policy_valid (me_policy E)" "sb_id b1 \<noteq> sb_id b2"
    and "\<not> has_blocking_mismatches mid (me_recon E)" "\<not> latest_report_failed mid (me_recon E)"
    and "gw = Some (static_governance_gateway SD_ALLOW why)" "ad = Some static_settlement_adapter"
  shows "sb_entry_ids b2 = sb_entry_ids b1 \<and> sb_net_amount b2 = sb_net_amount b1
     \<and> map po_amount (se_payouts (me_settle (fst (perform_all
          [CreateBatch mid tid cur s t, CreateBatch mid tid cur s t, Approve gw (sb_id b1) actor None,
           Approve gw (sb_id b2) actor None, Execute ad (sb_id b1), Execute ad (sb_id b2)] (E, w))))) =
       map po_amount (se_payouts (me_settle E)) @ [sb_net_amount b1, sb_net_amount b1]"
proof -
  let ?es = "batch_entries mid tid cur s t (me_ledger E) (me_settle E)"
  obtain st1 where n1: "new_batch mid tid cur s t ?es st1 w = (b1, w1)" and S1: "S1 = put_batch (sb_id b1) b1 (me_settle E)"
    using assms(1) by (auto simp: create_batch_def Let_def split: if_splits prod.splits)
  have es: "batch_entries mid tid cur s t (me_ledger E) S1 = ?es" by (simp add: batch_entries_def S1)
  obtain st2 where n2: "new_batch mid tid cur s t ?es st2 w1 = (b2, w2)" and S2: "S2 = put_batch (sb_id b2) b2 S1"
    using assms(2) es by (auto simp: create_batch_def Let_def split: if_splits prod.splits)
  have draft: "sb_status b1 = SB_DRAFT" "sb_status b2 = SB_DRAFT"
    using create_draft(1)[OF assms(3,1)] create_draft(1)[OF assms(3,2)] .
  have same: "sb_entry_ids b2 = sb_entry_ids b1" "sb_net_amount b2 = sb_net_amount b1"
    using new_batch_sel(5,6)[OF n1] new_batch_sel(5,6)[OF n2] by simp_all
  have g: "dict_get (se_batches S2) (sb_id b1) = Some b1" "dict_get (se_batches S2) (sb_id b2) = Some b2"
    using assms(4) by (simp_all add: S1 S2)
  obtain c1 r1 where a1: "approve_settlement (me_policy E) gw (sb_id b1) actor None S2 = (r1, put_batch (sb_id b1) c1 S2)"
    "sb_status c1 = SB_APPROVED" "batch_terms c1 = batch_terms b1" using approve_static_allow[OF g(1) draft(1)] assms(7) by blast
  let ?S3 = "put_batch (sb_id b1) c1 S2"
  have g3: "dict_get (se_batches ?S3) (sb_id b2) = Some b2" using g(2) assms(4) by simp
  obtain c2 r2 where a2: "approve_settlement (me_policy E) gw (sb_id b2) actor None ?S3 = (r2, put_batch (sb_id b2) c2 ?S3)"
    "sb_status c2 = SB_APPROVED" "batch_terms c2 = batch_terms b2" using approve_static_allow[OF g3 draft(2)] assms(7) by blast
  let ?S4 = "put_batch (sb_id b2) c2 ?S3"
  have g4: "dict_get (se_batches ?S4) (sb_id b1) = Some c1" "dict_get (se_batches ?S4) (sb_id b2) = Some c2"
    using assms(4) by simp_all
  note t1 = batch_terms_sel[OF a1(3)] and t2 = batch_terms_sel[OF a2(3)]
  have m: "sb_marketplace_id c1 = mid" "sb_marketplace_id c2 = mid"
    using t1 t2 new_batch_sel(7)[OF n1] new_batch_sel(7)[OF n2] by simp_all
  from execute_static[OF g4(1) a1(2), unfolded m, OF assms(5,6), of "me_ledger E" w2]
  obtain x1 d1 p1 S5 L5 w5 where e1: "execute_settlement ad (sb_id b1) (me_recon E) (?S4, me_ledger E, w2) = (x1, (S5, L5, w5))"
    "se_batches S5 = dict_set (sb_id b1) d1 (se_batches ?S4)" "se_payouts S5 = se_payouts ?S4 @ [p1]" "po_amount p1 = sb_net_amount c1"
    using assms(8) by blast
  have g5: "dict_get (se_batches S5) (sb_id b2) = Some c2" using g4(2) assms(4) by (simp add: e1(2) dict.lookup_put)
  from execute_static[OF g5 a2(2), unfolded m, OF assms(5,6), of L5 w5]
  obtain x2 p2 S6 L6 w6 where e2: "execute_settlement ad (sb_id b2) (me_recon E) (S5, L5, w5) = (x2, (S6, L6, w6))"
    "se_payouts S6 = se_payouts S5 @ [p2]" "po_amount p2 = sb_net_amount c2"
    using assms(8) by blast
  show ?thesis using assms(1,2) a1(1) a2(1) e1(1) e2(1) e1(3,4) e2(2,3) same t1(5) t2(5) by (simp add: S1 S2)
qed

text \<open>The sample sale, put into two batches: 180 are paid out for a sale that nets 90.\<close>

definition sample_booked :: settle_ctx where
  "sample_booked = perform_all (take 2 sample_sale) (settle_start None sample_world)"

theorem overlapping_batches_both_pay_witness:
  "map po_amount (se_payouts (me_settle (fst (perform_all
      [CreateBatch ''m'' ''t'' ''USD'' 0 1000, CreateBatch ''m'' ''t'' ''USD'' 0 1000,
       Approve sample_allow ''settlement_batch_2'' ''a'' None, Approve sample_allow ''settlement_batch_3'' ''a'' None,
       Execute (Some static_settlement_adapter) ''settlement_batch_2'',
       Execute (Some static_settlement_adapter) ''settlement_batch_3''] sample_booked)))) = [Fin 90, Fin 90]"
proof -
  let ?E = "fst sample_booked" and ?w = "snd sample_booked"
  have pre: "settlement_policy_valid (me_policy ?E)"
    "\<not> has_blocking_mismatches ''m'' (me_recon ?E)" "\<not> latest_report_failed ''m'' (me_recon ?E)" "se_payouts (me_settle ?E) = []"
    unfolding sample_booked_def by (simp_all add: settle_eval settlement_policy_valid_def del: f_round.simps)
  let ?r = "create_batch (me_policy ?E) ''m'' ''t'' ''USD'' 0 1000 (me_ledger ?E) (me_settle ?E, ?w)"
  have "\<exists>b1 S1 w1. ?r = (Inr b1, (S1, w1)) \<and> sb_id b1 = ''settlement_batch_2'' \<and> sb_net_amount b1 = Fin 90
      \<and> (\<exists>b2 S2 w2. create_batch (me_policy ?E) ''m'' ''t'' ''USD'' 0 1000 (me_ledger ?E) (S1, w1) = (Inr b2, (S2, w2))
           \<and> sb_id b2 = ''settlement_batch_3'')"
    unfolding sample_booked_def by (simp add: settle_eval del: f_round.simps)
  then obtain b1 S1 w1 b2 S2 w2 where b: "?r = (Inr b1, (S1, w1))" "sb_id b1 = ''settlement_batch_2''" "sb_net_amount b1 = Fin 90"
    "create_batch (me_policy ?E) ''m'' ''t'' ''USD'' 0 1000 (me_ledger ?E) (S1, w1) = (Inr b2, (S2, w2))" "sb_id b2 = ''settlement_batch_3''"
    by blast
  have "sb_id b1 \<noteq> sb_id b2" by (simp add: b(2,5))
  from overlapping_batches_both_pay[OF b(1,4) pre(1) this pre(2,3) sample_allow_def refl, of "''a''"]
  show ?thesis by (simp only: b(2,3,5) pre(4) list.map append_Nil prod.collapse)
qed

text \<open>Events without a ledger entry, such as a failed payment, are answered as duplicates although their
  key was never seen, and are not recorded.\<close>

lemma ignored_event_answered_as_duplicate:
  assumes "entry_type_for_event (fe_event_type ev) = None"
  shows "api_ingest_event ev c = (HTTP_Ok 201 (Duplicate_Event (fe_idempotency_key ev)), c)"
  using assms by (cases c) (simp add: api_ingest_event_def ingest_event_def)

end
