(* ===== verification/Isr_Graph.thy ===== *)
theory Isr_Graph
  imports Py_Prelude
begin

text \<open>
  The typed, directed, attributed graph behind the intermediate system representation
  (\<^verbatim>\<open>constitutional_architecture/isr/graph/typed_graph.py\<close>, \<^verbatim>\<open>isr/model/nodes.py\<close>,
  \<^verbatim>\<open>isr/model/edges.py\<close>), with the primitive operations of \<^verbatim>\<open>isr/graph/operations.py\<close>. The invariant
  \<open>graph_wf\<close> ties the two adjacency indexes to the edge dictionary; every graph built
  through the class keeps it, and on it the index look-ups are selections from the edges.
\<close>

section \<open>Nodes and edges\<close>

datatype node_type =
    N_SYSTEM | N_MODULE | N_ENTITY | N_SERVICE | N_WORKFLOW | N_POLICY | N_INTERFACE | N_EVENT
  | N_DEPLOYMENT | N_CONSTRAINT | N_FIELD | N_OPERATION | N_STATE | N_TRANSITION | N_RULE
  | N_PERMISSION | N_ENDPOINT | N_CONFIGURATION | N_DOCUMENTATION | N_TEST_STRATEGY

fun node_type_value :: "node_type \<Rightarrow> string" where
  "node_type_value N_SYSTEM = ''system''"
| "node_type_value N_MODULE = ''module''"
| "node_type_value N_ENTITY = ''entity''"
| "node_type_value N_SERVICE = ''service''"
| "node_type_value N_WORKFLOW = ''workflow''"
| "node_type_value N_POLICY = ''policy''"
| "node_type_value N_INTERFACE = ''interface''"
| "node_type_value N_EVENT = ''event''"
| "node_type_value N_DEPLOYMENT = ''deployment''"
| "node_type_value N_CONSTRAINT = ''constraint''"
| "node_type_value N_FIELD = ''field''"
| "node_type_value N_OPERATION = ''operation''"
| "node_type_value N_STATE = ''state''"
| "node_type_value N_TRANSITION = ''transition''"
| "node_type_value N_RULE = ''rule''"
| "node_type_value N_PERMISSION = ''permission''"
| "node_type_value N_ENDPOINT = ''endpoint''"
| "node_type_value N_CONFIGURATION = ''configuration''"
| "node_type_value N_DOCUMENTATION = ''documentation''"
| "node_type_value N_TEST_STRATEGY = ''test_strategy''"

datatype edge_type =
    E_OWNS | E_DEPENDS_ON | E_EMITS | E_CONSUMES | E_REFERENCES | E_IMPLEMENTS | E_SECURED_BY
  | E_DEPLOYS_TO | E_ORCHESTRATES | E_CONSTRAINS | E_CONTAINS | E_TRANSITIONS_TO | E_TRIGGERS
  | E_VALIDATES | E_DOCUMENTS | E_TESTS

fun edge_type_value :: "edge_type \<Rightarrow> string" where
  "edge_type_value E_OWNS = ''owns''"
| "edge_type_value E_DEPENDS_ON = ''depends_on''"
| "edge_type_value E_EMITS = ''emits''"
| "edge_type_value E_CONSUMES = ''consumes''"
| "edge_type_value E_REFERENCES = ''references''"
| "edge_type_value E_IMPLEMENTS = ''implements''"
| "edge_type_value E_SECURED_BY = ''secured_by''"
| "edge_type_value E_DEPLOYS_TO = ''deploys_to''"
| "edge_type_value E_ORCHESTRATES = ''orchestrates''"
| "edge_type_value E_CONSTRAINS = ''constrains''"
| "edge_type_value E_CONTAINS = ''contains''"
| "edge_type_value E_TRANSITIONS_TO = ''transitions_to''"
| "edge_type_value E_TRIGGERS = ''triggers''"
| "edge_type_value E_VALIDATES = ''validates''"
| "edge_type_value E_DOCUMENTS = ''documents''"
| "edge_type_value E_TESTS = ''tests''"

datatype coupling_strength = CS_TIGHT | CS_MODERATE | CS_LOOSE | CS_NONE

datatype communication_mode = CM_SYNC | CM_ASYNC

datatype edge_criticality = EC_CRITICAL | EC_HIGH | EC_MEDIUM | EC_LOW

record edge_attributes =
  ea_coupling_strength :: coupling_strength
  ea_communication_mode :: communication_mode
  ea_criticality :: edge_criticality
  ea_latency_budget_ms :: "pyfloat option"
  ea_description :: string
  ea_metadata :: "(string, string) dict"

definition EdgeAttributes :: edge_attributes where
  "EdgeAttributes = \<lparr>ea_coupling_strength = CS_MODERATE, ea_communication_mode = CM_SYNC,
     ea_criticality = EC_MEDIUM, ea_latency_budget_ms = None, ea_description = [], ea_metadata = []\<rparr>"

record graph_node =
  gn_id :: string
  gn_node_type :: node_type
  gn_label :: string
  gn_attributes :: payload
  gn_parent_id :: "string option"

record graph_edge =
  ge_id :: string
  ge_source_id :: string
  ge_target_id :: string
  ge_edge_type :: edge_type
  ge_attributes :: edge_attributes
  ge_metadata :: payload

section \<open>The graph\<close>

text \<open>A name between single quotes, as in the messages.\<close>

definition quoted :: "string \<Rightarrow> string" where
  "quoted s = CHR 0x27 # s @ [CHR 0x27]"

record typed_graph =
  g_nodes :: "(string, graph_node) dict"
  g_edges :: "(string, graph_edge) dict"
  g_adjacency :: "(string, string list) dict"
  g_reverse_adjacency :: "(string, string list) dict"

definition TypedGraph :: typed_graph where
  "TypedGraph = \<lparr>g_nodes = [], g_edges = [], g_adjacency = [], g_reverse_adjacency = []\<rparr>"

definition node_count :: "typed_graph \<Rightarrow> nat" where
  "node_count g = length (g_nodes g)"

definition edges_count :: "typed_graph \<Rightarrow> nat" where
  "edges_count g = length (g_edges g)"

definition add_node :: "graph_node \<Rightarrow> typed_graph \<Rightarrow> (typed_graph, unit) outcome" where
  "add_node n g =
     (if dict_in (gn_id n) (g_nodes g) then
        (Inl (ValueError (''Node '' @ quoted (gn_id n) @ '' already exists'')), g)
      else (Inr (), g\<lparr>g_nodes := dict_set (gn_id n) n (g_nodes g),
        g_adjacency := dict_setdefault (gn_id n) [] (g_adjacency g),
        g_reverse_adjacency := dict_setdefault (gn_id n) [] (g_reverse_adjacency g)\<rparr>))"

text \<open>\<open>d[k].append(v)\<close>; \<open>None\<close> when the key is missing.\<close>

definition dict_append :: "'k \<Rightarrow> 'v \<Rightarrow> ('k, 'v list) dict \<Rightarrow> ('k, 'v list) dict option" where
  "dict_append k v d = map_option (\<lambda>vs. dict_set k (vs @ [v]) d) (dict_get d k)"

definition add_edge :: "graph_edge \<Rightarrow> typed_graph \<Rightarrow> (typed_graph, unit) outcome" where
  "add_edge e g =
     (if dict_in (ge_id e) (g_edges g) then
        (Inl (ValueError (''Edge '' @ quoted (ge_id e) @ '' already exists'')), g)
      else if \<not> dict_in (ge_source_id e) (g_nodes g) then
        (Inl (ValueError (''Source node '' @ quoted (ge_source_id e) @ '' does not exist'')), g)
      else if \<not> dict_in (ge_target_id e) (g_nodes g) then
        (Inl (ValueError (''Target node '' @ quoted (ge_target_id e) @ '' does not exist'')), g)
      else
        let g1 = g\<lparr>g_edges := dict_set (ge_id e) e (g_edges g)\<rparr>
        in case dict_append (ge_source_id e) (ge_id e) (g_adjacency g1) of
             None \<Rightarrow> (Inl (KeyError (ge_source_id e)), g1)
           | Some adj \<Rightarrow>
               (let g2 = g1\<lparr>g_adjacency := adj\<rparr>
                in case dict_append (ge_target_id e) (ge_id e) (g_reverse_adjacency g2) of
                     None \<Rightarrow> (Inl (KeyError (ge_target_id e)), g2)
                   | Some radj \<Rightarrow> (Inr (), g2\<lparr>g_reverse_adjacency := radj\<rparr>)))"

definition get_node :: "typed_graph \<Rightarrow> string \<Rightarrow> graph_node option" where
  "get_node g n = dict_get (g_nodes g) n"

definition get_edge :: "typed_graph \<Rightarrow> string \<Rightarrow> graph_edge option" where
  "get_edge g e = dict_get (g_edges g) e"

definition nodes :: "typed_graph \<Rightarrow> graph_node list" where
  "nodes g = dict_values (g_nodes g)"

definition edges :: "typed_graph \<Rightarrow> graph_edge list" where
  "edges g = dict_values (g_edges g)"

definition get_nodes_by_type :: "typed_graph \<Rightarrow> node_type \<Rightarrow> graph_node list" where
  "get_nodes_by_type g t = filter (\<lambda>n. gn_node_type n = t) (nodes g)"

definition get_edges_by_type :: "typed_graph \<Rightarrow> edge_type \<Rightarrow> graph_edge list" where
  "get_edges_by_type g t = filter (\<lambda>e. ge_edge_type e = t) (edges g)"

text \<open>\<open>[self._edges[eid] for eid in eids]\<close>\<close>

fun lookup_edges :: "(string, graph_edge) dict \<Rightarrow> string list \<Rightarrow> py_exn + graph_edge list" where
  "lookup_edges d [] = Inr []"
| "lookup_edges d (i # is) =
     (case dict_get d i of
        None \<Rightarrow> Inl (KeyError i)
      | Some e \<Rightarrow> map_sum id ((#) e) (lookup_edges d is))"

text \<open>\<open>d.get(k, [])\<close>\<close>

definition dict_list :: "('k, 'v list) dict \<Rightarrow> 'k \<Rightarrow> 'v list" where
  "dict_list d k = (case dict_get d k of None \<Rightarrow> [] | Some vs \<Rightarrow> vs)"

definition get_outgoing_edges :: "typed_graph \<Rightarrow> string \<Rightarrow> py_exn + graph_edge list" where
  "get_outgoing_edges g n =
     lookup_edges (g_edges g) (dict_list (g_adjacency g) n)"

definition get_incoming_edges :: "typed_graph \<Rightarrow> string \<Rightarrow> py_exn + graph_edge list" where
  "get_incoming_edges g n =
     lookup_edges (g_edges g) (dict_list (g_reverse_adjacency g) n)"

fun has_edge_loop :: "(string, graph_edge) dict \<Rightarrow> string \<Rightarrow> edge_type \<Rightarrow> string list \<Rightarrow> py_exn + bool" where
  "has_edge_loop d target t [] = Inr False"
| "has_edge_loop d target t (i # is) =
     (case dict_get d i of
        None \<Rightarrow> Inl (KeyError i)
      | Some e \<Rightarrow> if ge_target_id e = target \<and> ge_edge_type e = t then Inr True
                  else has_edge_loop d target t is)"

definition has_edge :: "typed_graph \<Rightarrow> string \<Rightarrow> string \<Rightarrow> edge_type \<Rightarrow> py_exn + bool" where
  "has_edge g source target t =
     has_edge_loop (g_edges g) target t (dict_list (g_adjacency g) source)"

text \<open>The loops \<open>for x in xs: graph.add_...(x)\<close>, which stop at the first raise.\<close>

fun each :: "('a \<Rightarrow> 's \<Rightarrow> ('s, unit) outcome) \<Rightarrow> 'a list \<Rightarrow> 's \<Rightarrow> ('s, unit) outcome" where
  "each f [] s = (Inr (), s)"
| "each f (x # xs) s =
     (case f x s of (Inl exn, s') \<Rightarrow> (Inl exn, s') | (Inr _, s') \<Rightarrow> each f xs s')"

definition clone :: "typed_graph \<Rightarrow> py_exn + typed_graph" where
  "clone g =
     (case each add_node (nodes g) TypedGraph of
        (Inl exn, _) \<Rightarrow> Inl exn
      | (Inr _, g1) \<Rightarrow>
          (case each add_edge (edges g) g1 of
             (Inl exn, _) \<Rightarrow> Inl exn
           | (Inr _, g2) \<Rightarrow> Inr g2))"

section \<open>Well-formed graphs\<close>

text \<open>The graph with given nodes and edges: dictionaries keyed by identifier, and for every node the
  identifiers of its outgoing and incoming edges in the order of the edges.\<close>

definition index_by :: "(graph_edge \<Rightarrow> string) \<Rightarrow> graph_node list \<Rightarrow> graph_edge list \<Rightarrow> (string, string list) dict" where
  "index_by key ns es = map (\<lambda>n. (gn_id n, map ge_id (filter (\<lambda>e. key e = gn_id n) es))) ns"

definition graph_of :: "graph_node list \<Rightarrow> graph_edge list \<Rightarrow> typed_graph" where
  "graph_of ns es = \<lparr>g_nodes = map (\<lambda>n. (gn_id n, n)) ns, g_edges = map (\<lambda>e. (ge_id e, e)) es,
     g_adjacency = index_by ge_source_id ns es, g_reverse_adjacency = index_by ge_target_id ns es\<rparr>"

definition parts_ok :: "graph_node list \<Rightarrow> graph_edge list \<Rightarrow> bool" where
  "parts_ok ns es \<longleftrightarrow> distinct (map gn_id ns) \<and> distinct (map ge_id es)
     \<and> (\<forall>e \<in> set es. ge_source_id e \<in> gn_id ` set ns \<and> ge_target_id e \<in> gn_id ` set ns)"

definition graph_wf :: "typed_graph \<Rightarrow> bool" where
  "graph_wf g \<longleftrightarrow> g = graph_of (nodes g) (edges g) \<and> parts_ok (nodes g) (edges g)"

definition node_ids :: "typed_graph \<Rightarrow> string list" where
  "node_ids g = map gn_id (nodes g)"

lemma graph_of_parts [simp]:
  "nodes (graph_of ns es) = ns" "edges (graph_of ns es) = es"
  by (simp_all add: nodes_def edges_def graph_of_def dict_values_def comp_def)

lemma graph_wf_of [simp]: "graph_wf (graph_of ns es) \<longleftrightarrow> parts_ok ns es"
  by (simp add: graph_wf_def)

lemma graph_wf_cases:
  assumes "graph_wf g"
  obtains ns es where "g = graph_of ns es" "parts_ok ns es"
  using assms unfolding graph_wf_def by metis

lemma edge_ends:
  "graph_wf g \<Longrightarrow> e \<in> set (edges g) \<Longrightarrow> ge_source_id e \<in> set (node_ids g) \<and> ge_target_id e \<in> set (node_ids g)"
  by (auto simp: graph_wf_def parts_ok_def node_ids_def)

lemma dict_keyed:
  "dict_get (map (\<lambda>n. (f n, n)) ns) k = List.find (\<lambda>n. f n = k) ns"
  "dict_in k (map (\<lambda>n. (f n, h n)) ns) \<longleftrightarrow> k \<in> f ` set ns"
  by (induction ns) (auto simp: dict_get_def dict_in_def)

lemma find_key: "distinct (map f ns) \<Longrightarrow> List.find (\<lambda>n. f n = k) ns = Some n \<longleftrightarrow> n \<in> set ns \<and> f n = k"
  by (induction ns) (auto simp: image_iff)

lemma dict_get_map:
  "distinct (map f ns) \<Longrightarrow> n \<in> set ns \<Longrightarrow> dict_get (map (\<lambda>m. (f m, h m)) ns) (f n) = Some (h n)"
  by (induction ns) (auto simp: dict_get_def, metis imageI)

lemma dict_get_map_None: "k \<notin> f ` set ns \<Longrightarrow> dict_get (map (\<lambda>m. (f m, h m)) ns) k = None"
  by (induction ns) (auto simp: dict_get_def)

lemma dict_set_map:
  "distinct (map f ns) \<Longrightarrow> n \<in> set ns \<Longrightarrow>
     dict_set (f n) v (map (\<lambda>m. (f m, h m)) ns) = map (\<lambda>m. (f m, if f m = f n then v else h m)) ns"
  by (induction ns) (auto simp: dict_set_def, (metis imageI)+)

lemma get_node_of:
  "get_node (graph_of ns es) k = List.find (\<lambda>n. gn_id n = k) ns"
  "get_edge (graph_of ns es) k = List.find (\<lambda>e. ge_id e = k) es"
  by (simp_all add: get_node_def get_edge_def graph_of_def dict_keyed)

lemma get_node_Some: "graph_wf g \<Longrightarrow> get_node g k = Some n \<longleftrightarrow> n \<in> set (nodes g) \<and> gn_id n = k"
  by (erule graph_wf_cases) (auto simp: get_node_of find_key parts_ok_def)

lemma get_node_None: "graph_wf g \<Longrightarrow> get_node g k = None \<longleftrightarrow> k \<notin> set (node_ids g)"
  by (erule graph_wf_cases) (auto simp: get_node_of find_None_iff node_ids_def)

lemma lookup_edges_map:
  "distinct (map ge_id es) \<Longrightarrow> set is \<subseteq> set es \<Longrightarrow>
     lookup_edges (map (\<lambda>e. (ge_id e, e)) es) (map ge_id is) = Inr is"
  by (induction "is") (auto simp: dict_get_map[where f = ge_id and h = "\<lambda>e. e"])

lemma lookup_index:
  assumes "parts_ok ns es" "\<And>e. e \<in> set es \<Longrightarrow> key e \<in> gn_id ` set ns"
  shows "lookup_edges (map (\<lambda>e. (ge_id e, e)) es)
      (dict_list (index_by key ns es) k) = Inr (filter (\<lambda>e. key e = k) es)"
proof (cases "k \<in> gn_id ` set ns")
  case True
  then obtain n where "n \<in> set ns" "k = gn_id n" by auto
  then show ?thesis using assms(1)
    by (simp add: dict_list_def index_by_def dict_get_map[where f = gn_id] parts_ok_def lookup_edges_map)
next
  case False
  then have "filter (\<lambda>e. key e = k) es = []" using assms(2) by (auto simp: filter_empty_conv)
  then show ?thesis using False by (simp add: dict_list_def index_by_def dict_get_map_None)
qed

text \<open>On a well-formed graph the index look-ups raise nothing and select from the edges.\<close>

lemma get_outgoing_edges_wf:
  "graph_wf g \<Longrightarrow> get_outgoing_edges g k = Inr (filter (\<lambda>e. ge_source_id e = k) (edges g))"
  by (erule graph_wf_cases)
    (simp add: get_outgoing_edges_def, subst lookup_index[symmetric], auto simp: graph_of_def parts_ok_def)

lemma get_incoming_edges_wf:
  "graph_wf g \<Longrightarrow> get_incoming_edges g k = Inr (filter (\<lambda>e. ge_target_id e = k) (edges g))"
  by (erule graph_wf_cases)
    (simp add: get_incoming_edges_def, subst lookup_index[symmetric], auto simp: graph_of_def parts_ok_def)

lemma has_edge_loop_lookup:
  "lookup_edges d is = Inr es \<Longrightarrow>
     has_edge_loop d target t is = Inr (\<exists>e \<in> set es. ge_target_id e = target \<and> ge_edge_type e = t)"
  by (induction d "is" arbitrary: es rule: lookup_edges.induct) (auto split: option.splits sum.splits simp: map_sum_def)

lemma has_edge_wf:
  assumes "graph_wf g"
  shows "has_edge g s target t =
    Inr (\<exists>e \<in> set (edges g). ge_source_id e = s \<and> ge_target_id e = target \<and> ge_edge_type e = t)"
  using has_edge_loop_lookup[OF get_outgoing_edges_wf[OF assms, of s, unfolded get_outgoing_edges_def], of target t]
  by (simp add: has_edge_def conj_assoc Bex_def)

section \<open>Growing a graph\<close>

lemma TypedGraph_of: "TypedGraph = graph_of [] []"
  by (simp add: TypedGraph_def graph_of_def index_by_def)

lemma add_node_of:
  assumes "parts_ok ns es"
  shows "add_node n (graph_of ns es) =
    (if gn_id n \<in> gn_id ` set ns then (Inl (ValueError (''Node '' @ quoted (gn_id n) @ '' already exists'')), graph_of ns es)
     else (Inr (), graph_of (ns @ [n]) es))"
proof (cases "gn_id n \<in> gn_id ` set ns")
  case False
  have "index_by key (ns @ [n]) es = index_by key ns es @ [(gn_id n, [])]"
    if "\<And>e. e \<in> set es \<Longrightarrow> key e \<in> gn_id ` set ns" for key
  proof -
    have "filter (\<lambda>e. key e = gn_id n) es = []" unfolding filter_empty_conv using that False by metis
    then show ?thesis by (simp add: index_by_def)
  qed
  then have "index_by ge_source_id (ns @ [n]) es = index_by ge_source_id ns es @ [(gn_id n, [])]"
    "index_by ge_target_id (ns @ [n]) es = index_by ge_target_id ns es @ [(gn_id n, [])]"
    using assms by (auto simp: parts_ok_def)
  moreover have "\<not> dict_in (gn_id n) (index_by key ns es)" for key
    using False by (simp add: index_by_def dict_keyed)
  ultimately show ?thesis using False
    by (simp add: add_node_def graph_of_def dict_keyed dict_set_fresh dict_setdefault_def)
qed (simp add: add_node_def graph_of_def dict_keyed)

lemma dict_append_index:
  assumes "distinct (map gn_id ns)" "key e \<in> gn_id ` set ns"
  shows "dict_append (key e) (ge_id e) (index_by key ns es) = Some (index_by key ns (es @ [e]))"
proof -
  obtain n where "n \<in> set ns" "key e = gn_id n" using assms(2) by auto
  then show ?thesis using assms(1)
    by (simp add: dict_append_def index_by_def dict_get_map[where f = gn_id] dict_set_map[where f = gn_id])
qed

lemma add_edge_of:
  assumes "parts_ok ns es"
  shows "add_edge e (graph_of ns es) =
    (if ge_id e \<in> ge_id ` set es then (Inl (ValueError (''Edge '' @ quoted (ge_id e) @ '' already exists'')), graph_of ns es)
     else if ge_source_id e \<notin> gn_id ` set ns then
       (Inl (ValueError (''Source node '' @ quoted (ge_source_id e) @ '' does not exist'')), graph_of ns es)
     else if ge_target_id e \<notin> gn_id ` set ns then
       (Inl (ValueError (''Target node '' @ quoted (ge_target_id e) @ '' does not exist'')), graph_of ns es)
     else (Inr (), graph_of ns (es @ [e])))"
  using assms
  by (simp add: add_edge_def graph_of_def dict_keyed dict_set_fresh parts_ok_def Let_def
      dict_append_index[where key = ge_source_id] dict_append_index[where key = ge_target_id])

lemma each_add_node_of:
  "parts_ok (ms @ ns) es \<Longrightarrow> parts_ok ms es \<Longrightarrow> each add_node ns (graph_of ms es) = (Inr (), graph_of (ms @ ns) es)"
proof (induction ns arbitrary: ms)
  case (Cons n ns)
  then have "parts_ok (ms @ [n]) es" "gn_id n \<notin> gn_id ` set ms" by (auto simp: parts_ok_def)
  then show ?case using Cons.IH[of "ms @ [n]"] Cons.prems by (simp add: add_node_of)
qed simp

lemma each_add_edge_of:
  "parts_ok ns (es @ fs) \<Longrightarrow> each add_edge fs (graph_of ns es) = (Inr (), graph_of ns (es @ fs))"
proof (induction fs arbitrary: es)
  case (Cons f fs)
  then have "parts_ok ns es" "ge_id f \<notin> ge_id ` set es" "ge_source_id f \<in> gn_id ` set ns" "ge_target_id f \<in> gn_id ` set ns"
    by (auto simp: parts_ok_def)
  then show ?case using Cons.IH[of "es @ [f]"] Cons.prems by (simp add: add_edge_of)
qed simp

text \<open>A clone is the same graph, with the same orders.\<close>

lemma clone_wf: "graph_wf g \<Longrightarrow> clone g = Inr g"
proof (erule graph_wf_cases)
  fix ns es assume g: "g = graph_of ns es" and ok: "parts_ok ns es"
  have "parts_ok ns []" "parts_ok [] []" using ok by (auto simp: parts_ok_def)
  then show ?thesis using g ok each_add_node_of[of "[]" ns "[]"] each_add_edge_of[of ns "[]" es]
    by (simp add: clone_def TypedGraph_of)
qed

text \<open>Every graph that the class can be brought to, also by calls that raise, is well-formed.\<close>

inductive built :: "typed_graph \<Rightarrow> bool" where
  empty: "built TypedGraph"
| node: "built g \<Longrightarrow> built (snd (add_node n g))"
| edge: "built g \<Longrightarrow> built (snd (add_edge e g))"

lemma built_graph_wf: "built g \<Longrightarrow> graph_wf g"
proof (induction rule: built.induct)
  case empty
  show ?case by (simp add: TypedGraph_of parts_ok_def)
next
  case (node g n)
  then show ?case by (elim graph_wf_cases) (auto simp: add_node_of parts_ok_def)
next
  case (edge g e)
  then show ?case by (elim graph_wf_cases) (auto simp: add_edge_of parts_ok_def)
qed

lemma dict_list_set: "dict_list (dict_set k v d) i = (if i = k then v else dict_list d i)"
  by (simp add: dict_list_def dict.lookup_put)

text \<open>What a traversal may still expand: the indexed nodes that it has not visited.\<close>

definition open_keys :: "('k, 'v list) dict \<Rightarrow> 'k set \<Rightarrow> nat" where
  "open_keys d V = card (fst ` set d - V)"

lemma open_keys_mono: "V \<subseteq> W \<Longrightarrow> open_keys d W \<le> open_keys d V"
  unfolding open_keys_def by (intro card_mono) auto

lemma open_keys_visit:
  assumes "n \<notin> V"
  shows "open_keys d (insert n V) < open_keys d V \<or> open_keys d (insert n V) = open_keys d V \<and> dict_list d n = []"
proof (cases "n \<in> fst ` set d")
  case True
  then have "fst ` set d - insert n V \<subset> fst ` set d - V" using assms by auto
  then show ?thesis unfolding open_keys_def by (simp add: psubset_card_mono)
next
  case False
  then have "dict_get d n = None" by (metis dict.has_key_iff dict_in_def)
  moreover have "fst ` set d - insert n V = fst ` set d - V" using False by auto
  ultimately show ?thesis by (simp add: dict_list_def open_keys_def)
qed

abbreviation open_nodes :: "typed_graph \<Rightarrow> string set \<Rightarrow> nat" where
  "open_nodes g \<equiv> open_keys (g_adjacency g)"

lemma open_nodes_visit:
  assumes "get_outgoing_edges g n = Inr es" "n \<notin> V"
  shows "open_nodes g (insert n V) < open_nodes g V \<or> open_nodes g (insert n V) = open_nodes g V \<and> es = []"
  using open_keys_visit[OF assms(2), of "g_adjacency g"] assms(1) by (auto simp: get_outgoing_edges_def)

section \<open>A concrete graph\<close>

text \<open>Two services and a dependency, as a concrete graph.\<close>

definition service_node :: "string \<Rightarrow> graph_node" where
  "service_node i = \<lparr>gn_id = i, gn_node_type = N_SERVICE, gn_label = i, gn_attributes = [], gn_parent_id = None\<rparr>"

definition dependency :: "string \<Rightarrow> string \<Rightarrow> string \<Rightarrow> graph_edge" where
  "dependency i source target = \<lparr>ge_id = i, ge_source_id = source, ge_target_id = target,
     ge_edge_type = E_DEPENDS_ON, ge_attributes = EdgeAttributes, ge_metadata = []\<rparr>"

definition sample_graph :: typed_graph where
  "sample_graph = graph_of [service_node ''a'', service_node ''b''] [dependency ''e1'' ''a'' ''b'']"

lemma sample_graph_wf: "graph_wf sample_graph"
  by (simp add: sample_graph_def parts_ok_def service_node_def dependency_def)

end
