(* ===== verification/Isr_Ops.thy ===== *)
theory Isr_Ops
  imports Isr_Graph
begin

text \<open>
  The primitive graph operations that mutation operators use
  (\<^verbatim>\<open>constitutional_architecture/isr/graph/operations.py\<close>) and the queries
  (\<^verbatim>\<open>isr/graph/queries.py\<close>). The operations work on a clone; \<open>TypedGraph\<close> has no \<open>remove_node\<close> and no
  \<open>remove_edge\<close>, so a call of one of them is an \<open>AttributeError\<close>.
\<close>

section \<open>Operations\<close>

definition no_attribute :: "string \<Rightarrow> py_exn" where
  "no_attribute name = AttributeError (quoted ''TypedGraph'' @ '' object has no attribute '' @ quoted name)"

text \<open>The graph after a method call, or what it raised.\<close>

definition result_graph :: "(typed_graph, unit) outcome \<Rightarrow> py_exn + typed_graph" where
  "result_graph r = (case r of (Inl exn, _) \<Rightarrow> Inl exn | (Inr _, g) \<Rightarrow> Inr g)"

text \<open>\<open>f"edge-{uuid.uuid4().hex[:12]}"\<close>\<close>

definition new_edge_id :: "world \<Rightarrow> string \<times> world" where
  "new_edge_id w = (''edge-'' @ take 12 (uuid_of w (uuid_n w)), w\<lparr>uuid_n := Suc (uuid_n w)\<rparr>)"

definition new_edge :: "world \<Rightarrow> string \<Rightarrow> string \<Rightarrow> edge_type \<Rightarrow> edge_attributes \<Rightarrow> graph_edge \<times> world" where
  "new_edge w source target t attrs =
     (case new_edge_id w of (i, w') \<Rightarrow>
        (\<lparr>ge_id = i, ge_source_id = source, ge_target_id = target, ge_edge_type = t,
          ge_attributes = attrs, ge_metadata = []\<rparr>, w'))"

definition op_add_node ::
  "typed_graph \<Rightarrow> string \<Rightarrow> node_type \<Rightarrow> string \<Rightarrow> string option \<Rightarrow> payload option \<Rightarrow> py_exn + typed_graph" where
  "op_add_node g i t label parent attrs =
     (case clone g of
        Inl exn \<Rightarrow> Inl exn
      | Inr g' \<Rightarrow> result_graph (add_node \<lparr>gn_id = i, gn_node_type = t, gn_label = label,
          gn_attributes = (case attrs of None \<Rightarrow> [] | Some a \<Rightarrow> a), gn_parent_id = parent\<rparr> g'))"

definition op_remove_node :: "typed_graph \<Rightarrow> string \<Rightarrow> py_exn + typed_graph" where
  "op_remove_node g n =
     (case clone g of Inl exn \<Rightarrow> Inl exn | Inr g' \<Rightarrow> Inl (no_attribute ''remove_node''))"

definition op_add_edge ::
  "typed_graph \<Rightarrow> string \<Rightarrow> string \<Rightarrow> edge_type \<Rightarrow> edge_attributes option \<Rightarrow> world \<Rightarrow> (py_exn + typed_graph) \<times> world" where
  "op_add_edge g source target t attrs w =
     (case clone g of
        Inl exn \<Rightarrow> (Inl exn, w)
      | Inr g' \<Rightarrow>
          (case new_edge w source target t (case attrs of None \<Rightarrow> EdgeAttributes | Some a \<Rightarrow> a) of
             (e, w') \<Rightarrow> (result_graph (add_edge e g'), w')))"

definition op_remove_edge :: "typed_graph \<Rightarrow> string \<Rightarrow> py_exn + typed_graph" where
  "op_remove_edge g e =
     (case clone g of Inl exn \<Rightarrow> Inl exn | Inr g' \<Rightarrow> Inl (no_attribute ''remove_edge''))"

text \<open>Everything after \<open>new_graph.remove_node(old_node_id)\<close> is unreachable.\<close>

definition op_replace_node :: "typed_graph \<Rightarrow> string \<Rightarrow> graph_node \<Rightarrow> py_exn + typed_graph" where
  "op_replace_node g old n =
     (case clone g of
        Inl exn \<Rightarrow> Inl exn
      | Inr g' \<Rightarrow>
          (case get_incoming_edges g' old of
             Inl exn \<Rightarrow> Inl exn
           | Inr incoming \<Rightarrow>
               (case get_outgoing_edges g' old of
                  Inl exn \<Rightarrow> Inl exn
                | Inr outgoing \<Rightarrow> Inl (no_attribute ''remove_node''))))"

text \<open>The loop over the outgoing edges: each is copied, with its target mapped.\<close>

fun copy_edges ::
  "string \<Rightarrow> (string, string) dict \<Rightarrow> graph_edge list \<Rightarrow> typed_graph \<Rightarrow> world \<Rightarrow> (py_exn + typed_graph) \<times> world" where
  "copy_edges n mapping [] g w = (Inr g, w)"
| "copy_edges n mapping (e # es) g w =
     (case new_edge w n (case dict_get mapping (ge_target_id e) of None \<Rightarrow> ge_target_id e | Some t \<Rightarrow> t)
             (ge_edge_type e) (ge_attributes e) of
        (f, w') \<Rightarrow>
          (case add_edge f g of
             (Inl exn, _) \<Rightarrow> (Inl exn, w')
           | (Inr _, g') \<Rightarrow> copy_edges n mapping es g' w'))"

definition op_split_node ::
  "typed_graph \<Rightarrow> string \<Rightarrow> graph_node list \<Rightarrow> (string, string) dict \<Rightarrow> world \<Rightarrow> (py_exn + typed_graph) \<times> world" where
  "op_split_node g n children mapping w =
     (case clone g of
        Inl exn \<Rightarrow> (Inl exn, w)
      | Inr g' \<Rightarrow>
          if get_node g' n = None then (Inl (ValueError (''Node '' @ quoted n @ '' not found'')), w)
          else
            (case each add_node children g' of
               (Inl exn, _) \<Rightarrow> (Inl exn, w)
             | (Inr _, g1) \<Rightarrow>
                 (case get_outgoing_edges g1 n of
                    Inl exn \<Rightarrow> (Inl exn, w)
                  | Inr outgoing \<Rightarrow> copy_edges n mapping outgoing g1 w)))"

text \<open>The first loop of \<open>merge_nodes\<close> only reads edges; the second calls \<open>remove_node\<close> for each node, so only an empty
  list of nodes gets past it, and then there are no edges to redirect.\<close>

fun read_edges :: "typed_graph \<Rightarrow> string list \<Rightarrow> py_exn + unit" where
  "read_edges g [] = Inr ()"
| "read_edges g (n # ns) =
     (case get_incoming_edges g n of
        Inl exn \<Rightarrow> Inl exn
      | Inr _ \<Rightarrow> (case get_outgoing_edges g n of Inl exn \<Rightarrow> Inl exn | Inr _ \<Rightarrow> read_edges g ns))"

definition op_merge_nodes :: "typed_graph \<Rightarrow> string list \<Rightarrow> graph_node \<Rightarrow> py_exn + typed_graph" where
  "op_merge_nodes g ids merged =
     (case clone g of
        Inl exn \<Rightarrow> Inl exn
      | Inr g' \<Rightarrow>
          (case read_edges g' ids of
             Inl exn \<Rightarrow> Inl exn
           | Inr _ \<Rightarrow> if ids \<noteq> [] then Inl (no_attribute ''remove_node'')
                       else result_graph (add_node merged g')))"

definition op_retype_edge :: "typed_graph \<Rightarrow> string \<Rightarrow> edge_type \<Rightarrow> py_exn + typed_graph" where
  "op_retype_edge g e t =
     (case clone g of
        Inl exn \<Rightarrow> Inl exn
      | Inr g' \<Rightarrow> if get_edge g' e = None then Inl (ValueError (''Edge '' @ quoted e @ '' not found''))
                   else Inl (no_attribute ''remove_edge''))"

section \<open>Queries\<close>

definition find_modules :: "typed_graph \<Rightarrow> graph_node list" where
  "find_modules g = get_nodes_by_type g N_MODULE"

definition find_services :: "typed_graph \<Rightarrow> graph_node list" where
  "find_services g = get_nodes_by_type g N_SERVICE"

definition find_entities :: "typed_graph \<Rightarrow> graph_node list" where
  "find_entities g = get_nodes_by_type g N_ENTITY"

text \<open>The nodes at the given ends of the \<open>DEPENDS_ON\<close> edges of a list.\<close>

definition depends_on_ends :: "typed_graph \<Rightarrow> (graph_edge \<Rightarrow> string) \<Rightarrow> graph_edge list \<Rightarrow> graph_node list" where
  "depends_on_ends g end_of es =
     List.map_filter (\<lambda>e. if ge_edge_type e = E_DEPENDS_ON then get_node g (end_of e) else None) es"

definition find_dependencies :: "typed_graph \<Rightarrow> string \<Rightarrow> py_exn + graph_node list" where
  "find_dependencies g n = map_sum id (depends_on_ends g ge_target_id) (get_outgoing_edges g n)"

definition find_dependents :: "typed_graph \<Rightarrow> string \<Rightarrow> py_exn + graph_node list" where
  "find_dependents g n = map_sum id (depends_on_ends g ge_source_id) (get_incoming_edges g n)"

text \<open>\<open>and\<close> evaluates the second look-up only when the first is empty.\<close>

fun orphans_loop :: "typed_graph \<Rightarrow> graph_node list \<Rightarrow> py_exn + graph_node list" where
  "orphans_loop g [] = Inr []"
| "orphans_loop g (n # ns) =
     (case get_outgoing_edges g (gn_id n) of
        Inl exn \<Rightarrow> Inl exn
      | Inr out \<Rightarrow>
          if out \<noteq> [] then orphans_loop g ns
          else (case get_incoming_edges g (gn_id n) of
                  Inl exn \<Rightarrow> Inl exn
                | Inr inc \<Rightarrow> map_sum id (\<lambda>os. if inc = [] then n # os else os) (orphans_loop g ns)))"

definition find_orphaned_nodes :: "typed_graph \<Rightarrow> py_exn + graph_node list" where
  "find_orphaned_nodes g = orphans_loop g (nodes g)"

definition compute_in_degree :: "typed_graph \<Rightarrow> string \<Rightarrow> py_exn + nat" where
  "compute_in_degree g n = map_sum id length (get_incoming_edges g n)"

definition compute_out_degree :: "typed_graph \<Rightarrow> string \<Rightarrow> py_exn + nat" where
  "compute_out_degree g n = map_sum id length (get_outgoing_edges g n)"

definition find_nodes_by_label :: "typed_graph \<Rightarrow> string \<Rightarrow> graph_node list" where
  "find_nodes_by_label g label = filter (\<lambda>n. lower (gn_label n) = lower label) (nodes g)"

text \<open>The inner loop of \<open>get_subgraph\<close> over the outgoing edges of a node.\<close>

fun subgraph_targets ::
  "typed_graph \<Rightarrow> int \<Rightarrow> graph_edge list \<Rightarrow> (string \<times> int) list \<Rightarrow> typed_graph \<Rightarrow> py_exn + (string \<times> int) list \<times> typed_graph" where
  "subgraph_targets g depth [] q s = Inr (q, s)"
| "subgraph_targets g depth (e # es) q s =
     (case get_node g (ge_target_id e) of
        None \<Rightarrow> subgraph_targets g depth es q s
      | Some t \<Rightarrow>
          (case add_node t s of
             (Inl exn, _) \<Rightarrow> Inl exn
           | (Inr _, s1) \<Rightarrow>
               (case add_edge e s1 of
                  (Inl exn, _) \<Rightarrow> Inl exn
                | (Inr _, s2) \<Rightarrow> subgraph_targets g depth es (q @ [(ge_target_id e, depth + 1)]) s2)))"

function subgraph_loop ::
  "typed_graph \<Rightarrow> int \<Rightarrow> (string \<times> int) list \<Rightarrow> string set \<Rightarrow> typed_graph \<Rightarrow> py_exn + typed_graph" where
  "subgraph_loop g max_depth [] visited s = Inr s"
| "subgraph_loop g max_depth ((n, depth) # q) visited s =
     (if n \<in> visited then subgraph_loop g max_depth q visited s
      else if 0 \<le> max_depth \<and> max_depth < depth then subgraph_loop g max_depth q visited s
      else
        (case (case get_node g n of None \<Rightarrow> (Inr (), s) | Some x \<Rightarrow> add_node x s) of
           (Inl exn, _) \<Rightarrow> Inl exn
         | (Inr _, s1) \<Rightarrow>
             (case get_outgoing_edges g n of
                Inl exn \<Rightarrow> Inl exn
              | Inr es \<Rightarrow>
                  (case subgraph_targets g depth es q s1 of
                     Inl exn \<Rightarrow> Inl exn
                   | Inr (q', s2) \<Rightarrow> subgraph_loop g max_depth q' (insert n visited) s2))))"
  by pat_completeness auto

termination
proof (relation "measures [\<lambda>(g, _, _, V, _). open_nodes g V, \<lambda>(_, _, q, _, _). length q]", goal_cases)
  case (4 g max_depth n depth q visited s r u s1 es y q' s2)
  then show ?case using open_nodes_visit[of g n es visited] by auto
qed auto

definition get_subgraph :: "typed_graph \<Rightarrow> string \<Rightarrow> int \<Rightarrow> py_exn + typed_graph" where
  "get_subgraph g root_id max_depth = subgraph_loop g max_depth [(root_id, 0)] {} TypedGraph"

section \<open>What the operations do\<close>

lemma result_graph_Inr [simp]: "result_graph r = Inr g \<longleftrightarrow> r = (Inr (), g)"
  by (auto simp: result_graph_def split: prod.splits sum.splits)

text \<open>A graph that extends another: nodes and edges are only added, behind the old ones.\<close>

definition graph_extends :: "typed_graph \<Rightarrow> typed_graph \<Rightarrow> bool" where
  "graph_extends g g' \<longleftrightarrow> graph_wf g' \<and> (\<exists>ns. nodes g' = nodes g @ ns) \<and> (\<exists>es. edges g' = edges g @ es)"

lemma graph_extends_refl: "graph_wf g \<Longrightarrow> graph_extends g g"
  by (auto simp: graph_extends_def)

lemma graph_extends_trans [trans]: "graph_extends f g \<Longrightarrow> graph_extends g h \<Longrightarrow> graph_extends f h"
  by (auto simp: graph_extends_def)

lemma add_node_extends: "graph_wf g \<Longrightarrow> add_node n g = (Inr u, g') \<Longrightarrow> graph_extends g g'"
  by (erule graph_wf_cases) (auto simp: add_node_of graph_extends_def parts_ok_def split: if_splits)

lemma add_edge_extends: "graph_wf g \<Longrightarrow> add_edge e g = (Inr u, g') \<Longrightarrow> graph_extends g g'"
  by (erule graph_wf_cases) (auto simp: add_edge_of graph_extends_def parts_ok_def split: if_splits)

lemma each_extends:
  assumes "\<And>x s u s'. graph_wf s \<Longrightarrow> f x s = (Inr u, s') \<Longrightarrow> graph_extends s s'"
  shows "graph_wf g \<Longrightarrow> each f xs g = (Inr u, g') \<Longrightarrow> graph_extends g g'"
proof (induction xs arbitrary: g)
  case (Cons x xs)
  then obtain v g1 where 1: "f x g = (Inr v, g1)" "each f xs g1 = (Inr u, g')" by (auto split: prod.splits sum.splits)
  have "graph_extends g g1" using assms Cons.prems(1) 1(1) .
  also have "graph_extends g1 g'" using Cons.IH[of g1] 1(2) calculation by (simp add: graph_extends_def)
  finally show ?case .
qed (simp add: graph_extends_refl)

lemma copy_edges_extends: "graph_wf g \<Longrightarrow> copy_edges n mp es g w = (Inr g', w') \<Longrightarrow> graph_extends g g'"
proof (induction n mp es g w rule: copy_edges.induct)
  case (2 n mp e es g w)
  then obtain f w1 u g1 where 1: "new_edge w n (case dict_get mp (ge_target_id e) of None \<Rightarrow> ge_target_id e | Some t \<Rightarrow> t)
      (ge_edge_type e) (ge_attributes e) = (f, w1)" "add_edge f g = (Inr u, g1)" "copy_edges n mp es g1 w1 = (Inr g', w')"
    by (auto split: prod.splits sum.splits)
  have "graph_extends g g1" using add_edge_extends 2(2) 1(2) .
  also have "graph_extends g1 g'" using "2.IH"[OF 1(1)[symmetric] 1(2)[symmetric] refl] 1(3) calculation by (simp add: graph_extends_def)
  finally show ?case .
qed (auto simp: graph_extends_refl)

text \<open>A call of one of the eight operations that returns.\<close>

inductive graph_step :: "typed_graph \<Rightarrow> typed_graph \<Rightarrow> bool" where
  add_node: "op_add_node g i t label parent attrs = Inr g' \<Longrightarrow> graph_step g g'"
| remove_node: "op_remove_node g i = Inr g' \<Longrightarrow> graph_step g g'"
| add_edge: "op_add_edge g source target et eattrs w = (Inr g', w') \<Longrightarrow> graph_step g g'"
| remove_edge: "op_remove_edge g i = Inr g' \<Longrightarrow> graph_step g g'"
| replace_node: "op_replace_node g i n = Inr g' \<Longrightarrow> graph_step g g'"
| split_node: "op_split_node g i children mp w = (Inr g', w') \<Longrightarrow> graph_step g g'"
| merge_nodes: "op_merge_nodes g ids n = Inr g' \<Longrightarrow> graph_step g g'"
| retype_edge: "op_retype_edge g i et = Inr g' \<Longrightarrow> graph_step g g'"

lemma op_split_node_extends:
  assumes "graph_wf g" "op_split_node g i children mp w = (Inr g', w')"
  shows "graph_extends g g'"
proof -
  obtain u g1 es where 1: "each add_node children g = (Inr u, g1)" "copy_edges i mp es g1 w = (Inr g', w')"
    using assms by (auto simp: op_split_node_def clone_wf split: if_splits prod.splits sum.splits)
  have "graph_extends g g1" by (rule each_extends[OF add_node_extends assms(1) 1(1)])
  also have "graph_extends g1 g'" using copy_edges_extends[OF _ 1(2)] calculation by (simp add: graph_extends_def)
  finally show ?thesis .
qed

lemma add_node_result_extends: "graph_wf g \<Longrightarrow> result_graph (add_node n g) = Inr g' \<Longrightarrow> graph_extends g g'"
  by (auto intro: add_node_extends)

lemma graph_step_extends:
  assumes "graph_step g g'" "graph_wf g"
  shows "graph_extends g g'"
  using assms
proof (cases rule: graph_step.cases)
  case (add_edge source target et eattrs w w')
  then obtain e where "add_edge e g = (Inr (), g')" using assms(2)
    by (auto simp: op_add_edge_def clone_wf split: prod.splits)
  then show ?thesis using add_edge_extends assms(2) by blast
next
  case split_node
  then show ?thesis using op_split_node_extends assms(2) by blast
qed (use assms(2) in \<open>auto simp: op_add_node_def op_remove_node_def op_remove_edge_def op_replace_node_def op_merge_nodes_def
    op_retype_edge_def clone_wf intro: add_node_result_extends simp del: result_graph_Inr split: if_splits sum.splits\<close>)

text \<open>Whatever sequence of operations the evolution engine applies to a graph, nodes and edges are only
  added, behind the ones that were there: every operation that deletes, replaces, merges or retypes raises,
  because the graph class lacks the removal methods they call. The exceptions are an
  \<open>AttributeError\<close>, or the \<open>ValueError\<close> of an edge that is not there.\<close>

theorem graph_operations_only_add:
  assumes "graph_wf g"
  shows "(graph_step\<^sup>*\<^sup>* g g' \<longrightarrow> graph_extends g g')
    \<and> op_remove_node g i = Inl (no_attribute ''remove_node'')
    \<and> op_remove_edge g i = Inl (no_attribute ''remove_edge'')
    \<and> op_replace_node g i n = Inl (no_attribute ''remove_node'')
    \<and> (ids \<noteq> [] \<longrightarrow> op_merge_nodes g ids n = Inl (no_attribute ''remove_node''))
    \<and> op_retype_edge g i et = Inl (if get_edge g i = None then ValueError (''Edge '' @ quoted i @ '' not found'')
          else no_attribute ''remove_edge'')"
proof (intro conjI impI)
  assume "graph_step\<^sup>*\<^sup>* g g'"
  then show "graph_extends g g'"
  proof (induction rule: rtranclp_induct)
    case (step g1 g2)
    then show ?case using graph_step_extends graph_extends_trans by (metis graph_extends_def)
  qed (use assms in \<open>rule graph_extends_refl\<close>)
next
  have "read_edges g js = Inr ()" for js
    by (induction js) (simp_all add: get_incoming_edges_wf get_outgoing_edges_wf assms)
  moreover assume "ids \<noteq> []"
  ultimately show "op_merge_nodes g ids n = Inl (no_attribute ''remove_node'')"
    by (simp add: op_merge_nodes_def clone_wf assms)
qed (simp_all add: op_remove_node_def op_remove_edge_def op_replace_node_def op_retype_edge_def
    clone_wf get_incoming_edges_wf get_outgoing_edges_wf assms)

theorem graph_operations_only_add_witness:
  "op_merge_nodes sample_graph [''a'', ''b''] (service_node ''c'') = Inl (no_attribute ''remove_node'')
   \<and> op_retype_edge sample_graph ''e1'' E_OWNS = Inl (no_attribute ''remove_edge'')"
  using graph_operations_only_add[OF sample_graph_wf, of sample_graph "''e1''" "service_node ''c''" "[''a'', ''b'']" E_OWNS]
  by (simp add: sample_graph_def get_node_of dependency_def)

section \<open>Sub-graphs\<close>

lemma add_node_exn: "graph_wf g \<Longrightarrow> add_node n g = (Inl exn, g') \<Longrightarrow> \<exists>m. exn = ValueError m"
  by (erule graph_wf_cases) (auto simp: add_node_of split: if_splits)

lemma add_edge_exn: "graph_wf g \<Longrightarrow> add_edge e g = (Inl exn, g') \<Longrightarrow> \<exists>m. exn = ValueError m"
  by (erule graph_wf_cases) (auto simp: add_edge_of split: if_splits)

lemma add_node_known: "graph_wf g \<Longrightarrow> gn_id n \<in> set (node_ids g) \<Longrightarrow> \<exists>m. add_node n g = (Inl (ValueError m), g)"
  by (erule graph_wf_cases) (auto simp: add_node_of node_ids_def)

lemma add_node_Inr: "graph_wf g \<Longrightarrow> add_node n g = (Inr u, g') \<Longrightarrow> gn_id n \<notin> set (node_ids g) \<and> gn_id n \<in> set (node_ids g')"
  by (erule graph_wf_cases) (auto simp: add_node_of node_ids_def split: if_splits)

lemma graph_extends_ids: "graph_extends g g' \<Longrightarrow> set (node_ids g) \<subseteq> set (node_ids g')"
  by (auto simp: graph_extends_def node_ids_def)

lemma subgraph_targets_grow:
  "graph_wf s \<Longrightarrow> subgraph_targets g d es q s = Inr (q', s') \<Longrightarrow> (\<exists>qs. q' = q @ qs) \<and> graph_extends s s'"
proof (induction g d es q s rule: subgraph_targets.induct)
  case (2 g d e es q s)
  show ?case
  proof (cases "get_node g (ge_target_id e)")
    case None
    then show ?thesis using 2 by simp
  next
    case (Some t)
    then obtain u s1 v s2 where st: "add_node t s = (Inr u, s1)" "add_edge e s1 = (Inr v, s2)"
      "subgraph_targets g d es (q @ [(ge_target_id e, d + 1)]) s2 = Inr (q', s')"
      using "2.prems"(2) by (auto split: prod.splits sum.splits)
    have x1: "graph_extends s s1" using add_node_extends "2.prems"(1) st(1) .
    have x2: "graph_extends s1 s2" using add_edge_extends x1 st(2) by (auto simp: graph_extends_def)
    have "(\<exists>qs. q' = (q @ [(ge_target_id e, d + 1)]) @ qs) \<and> graph_extends s2 s'"
      using "2.IH"(2)[OF Some st(1)[symmetric] refl st(2)[symmetric] refl _ st(3)] x2 by (simp add: graph_extends_def)
    then show ?thesis using x1 x2 graph_extends_trans by (metis append_assoc)
  qed
qed (simp add: graph_extends_refl)

lemma subgraph_targets_exn:
  "graph_wf s \<Longrightarrow> subgraph_targets g d es q s = Inl exn \<Longrightarrow> \<exists>m. exn = ValueError m"
proof (induction g d es q s rule: subgraph_targets.induct)
  case (2 g d e es q s)
  show ?case
  proof (cases "get_node g (ge_target_id e)")
    case None
    then show ?thesis using 2 by simp
  next
    case (Some t)
    consider s1 where "add_node t s = (Inl exn, s1)"
      | u s1 s2 where "add_node t s = (Inr u, s1)" "add_edge e s1 = (Inl exn, s2)"
      | u s1 v s2 where "add_node t s = (Inr u, s1)" "add_edge e s1 = (Inr v, s2)"
        "subgraph_targets g d es (q @ [(ge_target_id e, d + 1)]) s2 = Inl exn"
      using "2.prems"(2) Some by (auto split: prod.splits sum.splits)
    then show ?thesis
    proof cases
      case 1
      then show ?thesis using add_node_exn "2.prems"(1) by blast
    next
      case (2 u s1 s2)
      then show ?thesis using add_edge_exn add_node_extends "2.prems"(1) by (metis graph_extends_def)
    next
      case (3 u s1 v s2)
      then have "graph_wf s2" using add_node_extends add_edge_extends "2.prems"(1) by (metis graph_extends_def)
      then show ?thesis using "2.IH"(2)[OF Some 3(1)[symmetric] refl 3(2)[symmetric] refl _ 3(3)] by simp
    qed
  qed
qed simp

text \<open>Except at depth 0, the sub-graph query only works for a root without outgoing edges, for which it returns the root
  alone: for any other root of a well-formed graph it raises \<open>ValueError\<close>, since the target of an edge is added to
  the sub-graph when the edge is seen and again when it leaves the queue.\<close>

theorem get_subgraph_outcome:
  assumes g: "graph_wf g" and x: "get_node g r = Some x" and md: "max_depth \<noteq> 0"
  shows "if \<exists>e \<in> set (edges g). ge_source_id e = r then \<exists>m. get_subgraph g r max_depth = Inl (ValueError m)
    else get_subgraph g r max_depth = Inr (graph_of [x] [])"
proof -
  let ?es = "filter (\<lambda>e. ge_source_id e = r) (edges g)" and ?s = "graph_of [x] []"
  have first: "get_subgraph g r max_depth = (case subgraph_targets g 0 ?es [] ?s of Inl exn \<Rightarrow> Inl exn
      | Inr (q', s2) \<Rightarrow> subgraph_loop g max_depth q' {r} s2)"
    using x by (auto simp: get_subgraph_def TypedGraph_of add_node_of parts_ok_def get_outgoing_edges_wf[OF g] split: sum.splits)
  have wf: "graph_wf ?s" by (simp add: parts_ok_def)
  show ?thesis
  proof (cases ?es)
    case Nil
    then show ?thesis using first by (auto simp: filter_empty_conv)
  next
    case (Cons e es)
    then have e: "e \<in> set (edges g)" "ge_source_id e = r" by (auto dest: Cons_eq_filterD simp: filter_eq_Cons_iff)
    then obtain t where t: "get_node g (ge_target_id e) = Some t" "gn_id t = ge_target_id e"
      using g by (erule_tac graph_wf_cases) (force simp: parts_ok_def get_node_of find_key)
    have "\<exists>m. get_subgraph g r max_depth = Inl (ValueError m)"
    proof (cases "subgraph_targets g 0 ?es [] ?s")
      case (Inl exn)
      then show ?thesis using first subgraph_targets_exn[OF wf Inl] by auto
    next
      case (Inr p)
      then obtain q' s2 u s1 v s1' where p: "p = (q', s2)" and st: "add_node t ?s = (Inr u, s1)" "add_edge e s1 = (Inr v, s1')"
        "subgraph_targets g 0 es [(ge_target_id e, 1)] s1' = Inr (q', s2)"
        using Cons t by (cases p) (auto split: prod.splits sum.splits)
      have x1: "graph_wf s1" "gn_id t \<in> set (node_ids s1)" "gn_id t \<noteq> r"
        using add_node_extends[OF wf st(1)] add_node_Inr[OF wf st(1)] x g by (auto simp: graph_extends_def node_ids_def get_node_Some)
      have x2: "graph_extends s1 s1'" using add_edge_extends x1(1) st(2) .
      obtain qs where q': "q' = (ge_target_id e, 1) # qs" and x3: "graph_extends s1' s2"
        using subgraph_targets_grow[OF _ st(3)] x2 by (auto simp: graph_extends_def)
      have "gn_id t \<in> set (node_ids s2)" "graph_wf s2"
        using x1(2) graph_extends_ids[OF x2] graph_extends_ids[OF x3] x3 by (auto simp: graph_extends_def)
      then obtain m where "add_node t s2 = (Inl (ValueError m), s2)" using add_node_known by blast
      moreover have "\<not> (0 \<le> max_depth \<and> max_depth < 1)" using md by linarith
      ultimately show ?thesis using first Inr p q' t x1(3) by auto
    qed
    then show ?thesis using e by auto
  qed
qed

theorem get_subgraph_outcome_witness:
  "(\<exists>m. get_subgraph sample_graph ''a'' (- 1) = Inl (ValueError m))
   \<and> get_subgraph sample_graph ''b'' (- 1) = Inr (graph_of [service_node ''b''] [])"
proof -
  have n: "get_node sample_graph ''a'' = Some (service_node ''a'')" "get_node sample_graph ''b'' = Some (service_node ''b'')"
    by (simp_all add: sample_graph_def get_node_of service_node_def)
  show ?thesis using get_subgraph_outcome[OF sample_graph_wf n(1), of "- 1"] get_subgraph_outcome[OF sample_graph_wf n(2), of "- 1"]
    by (simp add: sample_graph_def dependency_def)
qed

end
