(* ===== verification/Isr_Types.thy ===== *)
theory Isr_Types
  imports Isr_Graph
begin

text \<open>
  The architectural type system (\<^verbatim>\<open>constitutional_architecture/isr/model/edges.py\<close>, \<^verbatim>\<open>isr/types/type_system.py\<close>, \<^verbatim>\<open>isr/types/type_rules.py\<close>,
  \<^verbatim>\<open>isr/types/type_checker.py\<close>): which node types an edge of a type may connect, and the check of all edges of a
  graph. Python iterates the set of allowed types of a suggestion in an order of its own: \<open>order_of\<close> gives it, and only the
  text of a suggestion depends on it.
\<close>

section \<open>Edge definitions\<close>

record edge_def =
  ed_edge_type :: edge_type
  ed_valid_sources :: "node_type set"
  ed_valid_targets :: "node_type set"
  ed_min_cardinality :: int
  ed_max_cardinality :: int
  ed_description :: string

definition edge_definition :: "edge_type \<Rightarrow> node_type list \<Rightarrow> node_type list \<Rightarrow> string \<Rightarrow> edge_def" where
  "edge_definition t ss ts d = \<lparr>ed_edge_type = t, ed_valid_sources = set ss, ed_valid_targets = set ts,
     ed_min_cardinality = 0, ed_max_cardinality = - 1, ed_description = d\<rparr>"

definition def_is_valid_connection :: "edge_def \<Rightarrow> node_type \<Rightarrow> node_type \<Rightarrow> bool" where
  "def_is_valid_connection d source target \<longleftrightarrow> source \<in> ed_valid_sources d \<and> target \<in> ed_valid_targets d"

definition EDGE_DEFINITIONS :: "(edge_type, edge_def) dict" where
  "EDGE_DEFINITIONS =
   [(E_OWNS, edge_definition E_OWNS [N_SYSTEM, N_MODULE, N_ENTITY, N_SERVICE, N_WORKFLOW, N_POLICY, N_INTERFACE,
      N_DEPLOYMENT] [N_MODULE, N_ENTITY, N_SERVICE, N_WORKFLOW, N_POLICY, N_INTERFACE, N_FIELD, N_OPERATION,
      N_STATE, N_RULE, N_PERMISSION, N_ENDPOINT, N_EVENT, N_CONSTRAINT, N_DEPLOYMENT, N_CONFIGURATION,
      N_DOCUMENTATION, N_TEST_STRATEGY] ''Containment / responsibility relationship''),
    (E_DEPENDS_ON, edge_definition E_DEPENDS_ON [N_SERVICE, N_MODULE, N_WORKFLOW] [N_SERVICE, N_MODULE,
      N_INTERFACE] ''Runtime or build dependency''),
    (E_EMITS, edge_definition E_EMITS [N_SERVICE, N_WORKFLOW] [N_EVENT] ''Produces a domain event''),
    (E_CONSUMES, edge_definition E_CONSUMES [N_SERVICE, N_WORKFLOW] [N_EVENT] ''Subscribes to a domain event''),
    (E_REFERENCES, edge_definition E_REFERENCES [N_ENTITY, N_FIELD] [N_ENTITY] ''Data relationship between entities''),
    (E_IMPLEMENTS, edge_definition E_IMPLEMENTS [N_SERVICE] [N_INTERFACE] ''Realises an interface contract''),
    (E_SECURED_BY, edge_definition E_SECURED_BY [N_INTERFACE, N_ENDPOINT, N_SERVICE] [N_POLICY] ''Protected by a security policy''),
    (E_DEPLOYS_TO, edge_definition E_DEPLOYS_TO [N_SERVICE, N_MODULE, N_SYSTEM] [N_DEPLOYMENT] ''Infrastructure binding''),
    (E_ORCHESTRATES, edge_definition E_ORCHESTRATES [N_WORKFLOW] [N_SERVICE, N_OPERATION] ''Workflow coordination of services''),
    (E_CONSTRAINS, edge_definition E_CONSTRAINS [N_CONSTRAINT, N_POLICY] [N_ENTITY, N_SERVICE, N_INTERFACE,
      N_MODULE, N_FIELD, N_ENDPOINT] ''Applies a rule or constraint''),
    (E_CONTAINS, edge_definition E_CONTAINS [N_SYSTEM, N_MODULE, N_ENTITY, N_SERVICE, N_WORKFLOW, N_POLICY,
      N_INTERFACE, N_DEPLOYMENT] [N_MODULE, N_ENTITY, N_SERVICE, N_WORKFLOW, N_POLICY, N_INTERFACE, N_FIELD,
      N_OPERATION, N_STATE, N_TRANSITION, N_RULE, N_PERMISSION, N_ENDPOINT, N_EVENT, N_CONSTRAINT, N_CONFIGURATION,
      N_DOCUMENTATION, N_TEST_STRATEGY] ''Structural containment''),
    (E_TRANSITIONS_TO, edge_definition E_TRANSITIONS_TO [N_STATE] [N_STATE] ''State machine transition''),
    (E_TRIGGERS, edge_definition E_TRIGGERS [N_TRANSITION, N_EVENT] [N_OPERATION, N_SERVICE, N_WORKFLOW]
      ''Triggers an action''),
    (E_VALIDATES, edge_definition E_VALIDATES [N_CONSTRAINT, N_RULE] [N_FIELD, N_ENTITY, N_OPERATION] ''Validates a field or operation''),
    (E_DOCUMENTS, edge_definition E_DOCUMENTS [N_DOCUMENTATION] [N_SYSTEM, N_MODULE, N_ENTITY, N_SERVICE,
      N_INTERFACE, N_WORKFLOW] ''Documents an architectural element''),
    (E_TESTS, edge_definition E_TESTS [N_TEST_STRATEGY] [N_SERVICE, N_ENTITY, N_INTERFACE, N_WORKFLOW, N_MODULE]
      ''Tests an architectural element'')]"

section \<open>The type system\<close>

record type_violation =
  tv_source_id :: string
  tv_source_type :: node_type
  tv_edge_type :: edge_type
  tv_target_id :: string
  tv_target_type :: node_type
  tv_message :: string
  tv_severity :: string
  tv_suggested_fix :: string

definition build_rules :: "(node_type \<times> edge_type \<times> node_type) set" where
  "build_rules = (\<Union>(t, d) \<in> set EDGE_DEFINITIONS. \<Union>source \<in> ed_valid_sources d. \<Union>target \<in> ed_valid_targets d. {(source, t, target)})"

definition is_valid_connection :: "node_type \<Rightarrow> edge_type \<Rightarrow> node_type \<Rightarrow> bool" where
  "is_valid_connection source t target \<longleftrightarrow> (source, t, target) \<in> build_rules"

definition get_valid_targets :: "node_type \<Rightarrow> edge_type \<Rightarrow> node_type set" where
  "get_valid_targets source t = {target. (source, t, target) \<in> build_rules}"

definition get_valid_sources :: "edge_type \<Rightarrow> node_type \<Rightarrow> node_type set" where
  "get_valid_sources t target = {source. (source, t, target) \<in> build_rules}"

definition type_names :: "(node_type set \<Rightarrow> node_type list) \<Rightarrow> node_type set \<Rightarrow> string" where
  "type_names order_of ts = join '', '' (map node_type_value (order_of ts))"

definition check_connection ::
  "(node_type set \<Rightarrow> node_type list) \<Rightarrow> string \<Rightarrow> node_type \<Rightarrow> edge_type \<Rightarrow> string \<Rightarrow> node_type \<Rightarrow> type_violation option" where
  "check_connection order_of source_id source_type t target_id target_type =
     (if is_valid_connection source_type t target_type then None
      else Some \<lparr>tv_source_id = source_id, tv_source_type = source_type, tv_edge_type = t, tv_target_id = target_id,
        tv_target_type = target_type,
        tv_message = ''Invalid edge '' @ quoted (edge_type_value t) @ '' from '' @ node_type_value source_type @ '' ''
          @ quoted source_id @ '' to '' @ node_type_value target_type @ '' '' @ quoted target_id @ ''.'',
        tv_severity = ''error'',
        tv_suggested_fix =
          (if get_valid_targets source_type t \<noteq> {} then
             ''Valid targets for '' @ node_type_value source_type @ '' --'' @ edge_type_value t @ ''--> are: ''
               @ type_names order_of (get_valid_targets source_type t) @ ''.''
           else if get_valid_sources t target_type \<noteq> {} then
             ''Valid sources for --'' @ edge_type_value t @ ''--> '' @ node_type_value target_type @ '' are: ''
               @ type_names order_of (get_valid_sources t target_type) @ ''.''
           else [])\<rparr>)"

section \<open>The type checker\<close>

record type_check_result =
  tc_is_valid :: bool
  tc_violations :: "type_violation list"
  tc_warnings :: "type_violation list"
  tc_nodes_checked :: nat
  tc_edges_checked :: nat

text \<open>The violation of one edge, if any.\<close>

definition check_edge :: "(node_type set \<Rightarrow> node_type list) \<Rightarrow> typed_graph \<Rightarrow> graph_edge \<Rightarrow> type_violation option" where
  "check_edge order_of g e =
     (case (get_node g (ge_source_id e), get_node g (ge_target_id e)) of
        (Some s, Some t) \<Rightarrow> check_connection order_of (ge_source_id e) (gn_node_type s) (ge_edge_type e) (ge_target_id e) (gn_node_type t)
      | (s, t) \<Rightarrow> Some \<lparr>tv_source_id = ge_source_id e, tv_source_type = (case s of None \<Rightarrow> N_SYSTEM | Some n \<Rightarrow> gn_node_type n),
          tv_edge_type = ge_edge_type e, tv_target_id = ge_target_id e,
          tv_target_type = (case t of None \<Rightarrow> N_SYSTEM | Some n \<Rightarrow> gn_node_type n),
          tv_message = ''Edge '' @ quoted (ge_id e) @ '' references non-existent node'',
          tv_severity = ''error'', tv_suggested_fix = []\<rparr>)"

text \<open>A violation with severity \<open>warning\<close> goes to the warnings, except for a missing node, whose violation is always an
  error.\<close>

definition type_check :: "(node_type set \<Rightarrow> node_type list) \<Rightarrow> typed_graph \<Rightarrow> type_check_result" where
  "type_check order_of g =
     (let vs = List.map_filter (check_edge order_of g) (edges g);
          violations = filter (\<lambda>v. tv_severity v \<noteq> ''warning'') vs
      in \<lparr>tc_is_valid = (length violations = 0), tc_violations = violations,
          tc_warnings = filter (\<lambda>v. tv_severity v = ''warning'') vs,
          tc_nodes_checked = node_count g, tc_edges_checked = length (edges g)\<rparr>)"

section \<open>Documented combinations\<close>

definition INVALID_COMBINATIONS :: "(node_type \<times> edge_type \<times> node_type \<times> string) list" where
  "INVALID_COMBINATIONS =
   [(N_ENTITY, E_DEPENDS_ON, N_SERVICE, ''Entities cannot depend on services; services depend on entities''),
    (N_INTERFACE, E_IMPLEMENTS, N_POLICY, ''Interfaces are secured-by policies, not implementing them''),
    (N_EVENT, E_EMITS, N_SERVICE, ''Events do not emit services; services emit events''),
    (N_FIELD, E_DEPENDS_ON, N_SERVICE, ''Fields cannot have service dependencies''),
    (N_POLICY, E_SECURED_BY, N_INTERFACE, ''Policies do not get secured by interfaces; interfaces are secured by policies''),
    (N_SERVICE, E_ORCHESTRATES, N_WORKFLOW, ''Services do not orchestrate workflows; workflows orchestrate services''),
    (N_DEPLOYMENT, E_DEPENDS_ON, N_SERVICE, ''Deployment does not depend on services; services deploy to deployment'')]"

definition VALID_COMBINATIONS :: "(node_type \<times> edge_type \<times> node_type \<times> string) list" where
  "VALID_COMBINATIONS =
   [(N_SERVICE, E_DEPENDS_ON, N_SERVICE, ''Services can depend on other services''),
    (N_MODULE, E_OWNS, N_ENTITY, ''Modules own entities''),
    (N_SERVICE, E_EMITS, N_EVENT, ''Services emit events''),
    (N_SERVICE, E_CONSUMES, N_EVENT, ''Services consume events''),
    (N_INTERFACE, E_SECURED_BY, N_POLICY, ''Interfaces are secured by policies''),
    (N_WORKFLOW, E_ORCHESTRATES, N_SERVICE, ''Workflows orchestrate services''),
    (N_SERVICE, E_IMPLEMENTS, N_INTERFACE, ''Services implement interfaces''),
    (N_SERVICE, E_DEPLOYS_TO, N_DEPLOYMENT, ''Services deploy to infrastructure''),
    (N_ENTITY, E_REFERENCES, N_ENTITY, ''Entities reference other entities'')]"

section \<open>What the checker guarantees\<close>

lemma is_valid_connection_iff:
  "is_valid_connection source t target \<longleftrightarrow>
     (\<exists>d. dict_get EDGE_DEFINITIONS t = Some d \<and> def_is_valid_connection d source target)"
proof -
  have "distinct (map fst EDGE_DEFINITIONS)" by (simp add: EDGE_DEFINITIONS_def)
  then have "dict_get EDGE_DEFINITIONS t = Some d \<longleftrightarrow> (t, d) \<in> set EDGE_DEFINITIONS" for d
    by (simp add: dict_get_def)
  then show ?thesis by (auto simp: is_valid_connection_def build_rules_def def_is_valid_connection_def)
qed

text \<open>The source and the target exist and have types that the definition of the edge's type allows.\<close>

definition edge_typed :: "typed_graph \<Rightarrow> graph_edge \<Rightarrow> bool" where
  "edge_typed g e \<longleftrightarrow> (\<exists>s t d. get_node g (ge_source_id e) = Some s \<and> get_node g (ge_target_id e) = Some t
     \<and> dict_get EDGE_DEFINITIONS (ge_edge_type e) = Some d \<and> def_is_valid_connection d (gn_node_type s) (gn_node_type t))"

lemma check_edge_None: "check_edge order_of g e = None \<longleftrightarrow> edge_typed g e"
  by (auto simp: check_edge_def check_connection_def edge_typed_def is_valid_connection_iff split: option.splits)

lemma check_edge_severity: "check_edge order_of g e = Some v \<Longrightarrow> tv_severity v = ''error''"
  by (auto simp: check_edge_def check_connection_def split: option.splits if_splits)

lemma map_filter_Nil: "List.map_filter f xs = [] \<longleftrightarrow> (\<forall>x \<in> set xs. f x = None)"
  by (induction xs) (auto simp: map_filter_simps split: option.splits)

lemma set_map_filter_iff: "y \<in> set (List.map_filter f xs) \<longleftrightarrow> (\<exists>x \<in> set xs. f x = Some y)"
  by (induction xs) (auto simp: map_filter_simps split: option.splits)

lemma type_check_violations: "tc_violations (type_check order_of g) = List.map_filter (check_edge order_of g) (edges g)"
proof -
  have "tv_severity v \<noteq> ''warning''" if "v \<in> set (List.map_filter (check_edge order_of g) (edges g))" for v
    using that check_edge_severity by (fastforce simp: set_map_filter_iff)
  then show ?thesis by (simp add: type_check_def Let_def)
qed

lemma type_check_valid: "tc_is_valid (type_check order_of g) \<longleftrightarrow> (\<forall>e \<in> set (edges g). edge_typed g e)"
proof -
  have "tc_is_valid (type_check order_of g) \<longleftrightarrow> tc_violations (type_check order_of g) = []"
    by (simp add: type_check_def Let_def)
  then show ?thesis by (simp add: type_check_violations map_filter_Nil check_edge_None)
qed

text \<open>The checker accepts a graph exactly when every edge joins two existing nodes whose types the definition of its
  edge type allows; there is one violation per other edge and never a warning; and the documented lists agree with it: each
  combination listed as valid is accepted and each one listed as invalid is rejected.\<close>

theorem type_check_sound_complete:
  "(tc_is_valid (type_check order_of g) \<longleftrightarrow> (\<forall>e \<in> set (edges g). edge_typed g e))
   \<and> length (tc_violations (type_check order_of g)) = length (filter (\<lambda>e. \<not> edge_typed g e) (edges g))
   \<and> tc_warnings (type_check order_of g) = []
   \<and> (\<forall>(s, t, d, _) \<in> set VALID_COMBINATIONS. is_valid_connection s t d)
   \<and> (\<forall>(s, t, d, _) \<in> set INVALID_COMBINATIONS. \<not> is_valid_connection s t d)"
proof (intro conjI)
  have "length (List.map_filter f xs) = length (filter (\<lambda>e. f e \<noteq> None) xs)" for f :: "graph_edge \<Rightarrow> type_violation option" and xs
    by (induction xs) (auto simp: map_filter_simps)
  then show "length (tc_violations (type_check order_of g)) = length (filter (\<lambda>e. \<not> edge_typed g e) (edges g))"
    by (simp add: type_check_violations check_edge_None[of order_of, symmetric])
  show "tc_warnings (type_check order_of g) = []"
    using check_edge_severity by (fastforce simp: type_check_def Let_def filter_empty_conv set_map_filter_iff)
qed (simp_all add: type_check_valid is_valid_connection_iff VALID_COMBINATIONS_def INVALID_COMBINATIONS_def
    EDGE_DEFINITIONS_def dict_get_def def_is_valid_connection_def edge_definition_def)

theorem type_check_sound_complete_witness:
  "tc_is_valid (type_check (\<lambda>_. []) sample_graph) \<and> is_valid_connection N_SERVICE E_EMITS N_EVENT
   \<and> \<not> is_valid_connection N_EVENT E_EMITS N_SERVICE"
proof -
  have "\<forall>e \<in> set (edges sample_graph). edge_typed sample_graph e"
    by (simp add: sample_graph_def edge_typed_def get_node_of service_node_def dependency_def EDGE_DEFINITIONS_def dict_get_def
        def_is_valid_connection_def edge_definition_def)
  then show ?thesis using type_check_sound_complete[of "\<lambda>_. []" sample_graph]
    by (simp add: VALID_COMBINATIONS_def INVALID_COMBINATIONS_def)
qed

end
