(* ===== verification/Gr_Kahn.thy ===== *)
theory Gr_Kahn
  imports Py_Prelude
begin

text \<open>
  Kahn's topological sort, the loop that the build graph and the typed graph share
  (\<^verbatim>\<open>constitutional_architecture/core/build/dag.py\<close>, \<^verbatim>\<open>constitutional_architecture/isr/graph/traversal.py\<close>): a queue of nodes
  without open predecessors, an in-degree per node in a dictionary, and the output. \<open>None\<close> is the \<open>KeyError\<close> of
  an in-degree that is missing. The loop always ends; on a graph whose in-degrees are right it
  outputs predecessors first, and it outputs every node exactly when the graph has no cycle.
\<close>

section \<open>The loop\<close>

text \<open>The inner loop over the successors of one node.\<close>

fun kahn_relax :: "'n list \<Rightarrow> ('n, int) dict \<Rightarrow> 'n list \<Rightarrow> (('n, int) dict \<times> 'n list) option" where
  "kahn_relax [] deg q = Some (deg, q)"
| "kahn_relax (n # ns) deg q =
     (case dict_get deg n of
        None \<Rightarrow> None
      | Some v \<Rightarrow> kahn_relax ns (dict_set n (v - 1) deg) (if v - 1 = 0 then q @ [n] else q))"

definition open_degree :: "('n, int) dict \<Rightarrow> nat" where
  "open_degree deg = sum_list (map (nat \<circ> snd) deg)"

lemma open_degree_decrement:
  "dict_get deg n = Some v \<Longrightarrow>
     open_degree (dict_set n (v - 1) deg) = open_degree deg - (if 0 < v then 1 else 0)
   \<and> (0 < v \<longrightarrow> 0 < open_degree deg)"
  by (induction deg) (auto simp: open_degree_def dict_get_def dict_set_def split: if_splits)

lemma kahn_relax_measure:
  "kahn_relax ns deg q = Some (deg', q') \<Longrightarrow> open_degree deg' + length q' \<le> open_degree deg + length q"
proof (induction ns arbitrary: deg q)
  case (Cons n ns)
  then obtain v where v: "dict_get deg n = Some v"
    and r: "kahn_relax ns (dict_set n (v - 1) deg) (if v - 1 = 0 then q @ [n] else q) = Some (deg', q')"
    by (auto split: option.splits)
  show ?case using Cons.IH[OF r] open_degree_decrement[OF v] by (auto split: if_splits)
qed simp

function kahn_loop :: "('n \<Rightarrow> 'n list) \<Rightarrow> 'n list \<Rightarrow> ('n, int) dict \<Rightarrow> 'n list \<Rightarrow> 'n list option" where
  "kahn_loop adj [] deg out = Some out"
| "kahn_loop adj (c # q) deg out =
     (case kahn_relax (adj c) deg q of
        None \<Rightarrow> None
      | Some (deg', q') \<Rightarrow> kahn_loop adj q' deg' (out @ [c]))"
  by pat_completeness auto

termination
  by (relation "measure (\<lambda>(adj, q, deg, out). open_degree deg + length q)")
    (auto dest: kahn_relax_measure)

section \<open>The inner loop\<close>

text \<open>On in-degrees that cover what is subtracted: every successor is counted down, and those that
  reach zero are appended, each once.\<close>

lemma kahn_relax_spec:
  assumes "\<And>m. m \<in> set ns \<Longrightarrow> \<exists>v. dict_get deg m = Some v \<and> int (count_list ns m) \<le> v"
    and "distinct q" "set q \<inter> set ns = {}"
  shows "\<exists>deg' new. kahn_relax ns deg q = Some (deg', q @ new) \<and> distinct (q @ new)
     \<and> set new = {m \<in> set ns. dict_get deg m = Some (int (count_list ns m))}
     \<and> (\<forall>m. dict_get deg' m = map_option (\<lambda>v. v - int (count_list ns m)) (dict_get deg m))"
  using assms
proof (induction ns arbitrary: deg q)
  case (Cons n ns)
  obtain v where v: "dict_get deg n = Some v" "int (count_list (n # ns) n) \<le> v" using Cons.prems(1)[of n] by auto
  let ?deg = "dict_set n (v - 1) deg" and ?q = "if v = 1 then q @ [n] else q"
  have get: "dict_get ?deg m = (if m = n then Some (v - 1) else dict_get deg m)" for m
    by (simp add: dict.lookup_put)
  have one: "v = 1 \<Longrightarrow> n \<notin> set ns" using v(2) by (auto simp: count_list_0_iff[symmetric])
  have "\<exists>u. dict_get ?deg m = Some u \<and> int (count_list ns m) \<le> u" if "m \<in> set ns" for m
    using Cons.prems(1)[of m] that v(2) by (cases "m = n") (auto simp: get)
  moreover have "distinct ?q" using Cons.prems(2,3) by auto
  moreover have "set ?q \<inter> set ns = {}" using Cons.prems(3) one by auto
  ultimately obtain deg' new where IH: "kahn_relax ns ?deg ?q = Some (deg', ?q @ new)" "distinct (?q @ new)"
    "set new = {m \<in> set ns. dict_get ?deg m = Some (int (count_list ns m))}"
    "\<forall>m. dict_get deg' m = map_option (\<lambda>u. u - int (count_list ns m)) (dict_get ?deg m)"
    using Cons.IH[of ?deg ?q] by blast
  let ?new = "(if v = 1 then [n] else []) @ new"
  have "kahn_relax (n # ns) deg q = Some (deg', q @ ?new)" using v(1) IH(1) by (auto split: if_splits)
  moreover have "distinct (q @ ?new)" using IH(2) by (auto split: if_splits)
  moreover have "set ?new = {m \<in> set (n # ns). dict_get deg m = Some (int (count_list (n # ns) m))}"
  proof (rule set_eqI)
    fix m
    show "m \<in> set ?new \<longleftrightarrow> m \<in> {m \<in> set (n # ns). dict_get deg m = Some (int (count_list (n # ns) m))}"
    proof (cases "m = n")
      case True
      have c: "n \<in> set ns \<longleftrightarrow> 0 < count_list ns n" using count_list_0_iff[of ns n] by linarith
      have "n \<in> set new \<longleftrightarrow> 0 < count_list ns n \<and> v - 1 = int (count_list ns n)" by (simp add: IH(3) get c)
      then have "n \<in> set ?new \<longleftrightarrow> v = int (count_list ns n) + 1" using v(2) by auto
      then show ?thesis using True v(1) by auto
    next
      case False
      then show ?thesis using IH(3) by (auto simp: get)
    qed
  qed
  moreover have "dict_get deg' m = map_option (\<lambda>u. u - int (count_list (n # ns) m)) (dict_get deg m)" for m
    using IH(4) v(1) by (cases "m = n") (auto simp: get)
  ultimately show ?case by blast
qed (simp add: option.map_ident)

section \<open>Graphs with their in-degrees\<close>

text \<open>How many of the given nodes' edges lead to a node.\<close>

definition edge_count :: "('n \<Rightarrow> 'n list) \<Rightarrow> 'n list \<Rightarrow> 'n \<Rightarrow> nat" where
  "edge_count adj ns m = (\<Sum>n\<leftarrow>ns. count_list (adj n) m)"

definition kahn_edges :: "('n \<Rightarrow> 'n list) \<Rightarrow> 'n list \<Rightarrow> ('n \<times> 'n) set" where
  "kahn_edges adj ns = {(n, m). n \<in> set ns \<and> m \<in> set (adj n)}"

text \<open>A graph given by its list of edges.\<close>

lemma edge_count_pairs:
  assumes "distinct ns" "fst ` set ps \<subseteq> set ns"
  shows "edge_count (\<lambda>n. map snd (filter (\<lambda>p. fst p = n) ps)) ns m = length (filter (\<lambda>p. snd p = m) ps)"
  using assms(2)
proof (induction ps)
  case (Cons p ps)
  have "edge_count (\<lambda>n. map snd (filter (\<lambda>p. fst p = n) (p # ps))) ns m =
      edge_count (\<lambda>n. map snd (filter (\<lambda>p. fst p = n) ps)) ns m + (\<Sum>n\<leftarrow>ns. if fst p = n then if snd p = m then 1 else 0 else 0)"
    unfolding edge_count_def by (subst sum_list_addf[symmetric], rule arg_cong[where f = sum_list]) auto
  also have "(\<Sum>n\<leftarrow>ns. if fst p = n then if snd p = m then 1 else 0 else 0 :: nat) = (if snd p = m then 1 else 0)"
    using assms(1) Cons.prems by (simp add: sum_list_distinct_conv_sum_set)
  finally show ?case using Cons by simp
qed (simp add: edge_count_def)

text \<open>Predecessors first: no edge of the graph leads from a later element, or from outside, to an
  earlier one.\<close>

definition topological :: "('n \<times> 'n) set \<Rightarrow> 'n list \<Rightarrow> bool" where
  "topological E xs \<longleftrightarrow> distinct xs \<and> (\<forall>i < length xs. \<forall>n. (n, xs ! i) \<in> E \<longrightarrow> n \<in> set (take i xs))"

lemma topological_snoc:
  "topological E (xs @ [x]) \<longleftrightarrow> topological E xs \<and> x \<notin> set xs \<and> (\<forall>n. (n, x) \<in> E \<longrightarrow> n \<in> set xs)"
  by (auto simp: topological_def nth_append less_Suc_eq)

lemma topological_acyclic:
  assumes "topological E xs" "E \<subseteq> UNIV \<times> set xs"
  shows "acyclic E"
proof -
  have *: "i < length xs \<Longrightarrow> (n, xs ! i) \<in> E\<^sup>+ \<Longrightarrow> n \<in> set (take i xs)" for i n
  proof (induction i arbitrary: n rule: less_induct)
    case (less i)
    from less.prems(2) show ?case
    proof (cases rule: tranclE)
      case base
      then show ?thesis using assms(1) less.prems(1) by (auto simp: topological_def)
    next
      case (step y)
      then have "y \<in> set (take i xs)" using assms(1) less.prems(1) by (auto simp: topological_def)
      then obtain j where j: "j < i" "j < length xs" "y = xs ! j" by (auto simp: in_set_conv_nth)
      then have "n \<in> set (take j xs)" using less.IH step(1) by blast
      then show ?thesis using j(1) set_take_subset_set_take[of j i xs] by auto
    qed
  qed
  show ?thesis
  proof (rule acyclicI, rule allI, rule notI)
    fix x assume x: "(x, x) \<in> E\<^sup>+"
    then have "x \<in> set xs" using assms(2) trancl_subset_Sigma[of E UNIV]
      by (metis tranclE SigmaD2 subsetD)
    then obtain i where i: "i < length xs" "x = xs ! i" by (auto simp: in_set_conv_nth)
    then have "x \<in> set (take i xs)" using * x by blast
    then show False using i assms(1) by (auto simp: topological_def in_set_conv_nth nth_eq_iff_index_eq)
  qed
qed

section \<open>Correctness of the loop\<close>

text \<open>A client of the loop: the nodes, the successor lists and the in-degrees that it computes from its
  data, correct for well-formed data.\<close>

locale kahn_client =
  fixes nodes_of :: "'g \<Rightarrow> 'n list"
    and adj_of :: "'g \<Rightarrow> 'n \<Rightarrow> 'n list"
    and deg_of :: "'g \<Rightarrow> ('n, int) dict"
    and graph_ok :: "'g \<Rightarrow> bool"
  assumes nodes_distinct: "graph_ok g \<Longrightarrow> distinct (nodes_of g)"
    and adj_closed: "graph_ok g \<Longrightarrow> n \<in> set (nodes_of g) \<Longrightarrow> set (adj_of g n) \<subseteq> set (nodes_of g)"
    and deg_nodes: "graph_ok g \<Longrightarrow> map fst (deg_of g) = nodes_of g"
    and deg_count: "graph_ok g \<Longrightarrow> m \<in> set (nodes_of g) \<Longrightarrow>
      dict_get (deg_of g) m = Some (int (edge_count (adj_of g) (nodes_of g) m))"
begin

abbreviation edges_of :: "'g \<Rightarrow> ('n \<times> 'n) set" where
  "edges_of g \<equiv> kahn_edges (adj_of g) (nodes_of g)"

text \<open>Between two iterations: the output is sorted, the in-degrees count the edges from nodes that
  are not yet output, and the queue holds exactly the waiting nodes of degree zero.\<close>

definition loop_inv :: "'g \<Rightarrow> 'n list \<Rightarrow> ('n, int) dict \<Rightarrow> 'n list \<Rightarrow> bool" where
  "loop_inv g q deg out \<longleftrightarrow> topological (edges_of g) out \<and> set out \<subseteq> set (nodes_of g) \<and> distinct (out @ q)
     \<and> (\<forall>m. dict_get deg m = (if m \<in> set (nodes_of g) then
          Some (int (edge_count (adj_of g) (filter (\<lambda>n. n \<notin> set out) (nodes_of g)) m)) else None))
     \<and> set q = {m \<in> set (nodes_of g) - set out. dict_get deg m = Some 0}"

lemma edge_count_filter_remove:
  assumes "distinct ns" "c \<in> set ns" "P c" "\<And>n. Q n \<longleftrightarrow> P n \<and> n \<noteq> c"
  shows "edge_count adj (filter P ns) m = count_list (adj c) m + edge_count adj (filter Q ns) m"
  using assms
proof (induction ns)
  case (Cons n ns)
  show ?case
  proof (cases "n = c")
    case True
    have "filter Q ns = filter P ns" using True Cons.prems(1) by (auto simp: assms(4) intro!: filter_cong)
    moreover have "\<not> Q n" "P n" using True assms(3,4) by auto
    ultimately show ?thesis using True by (simp add: edge_count_def)
  next
    case False
    then have "edge_count adj (filter P ns) m = count_list (adj c) m + edge_count adj (filter Q ns) m"
      using Cons.IH Cons.prems by (metis distinct.simps(2) set_ConsD)
    moreover have "Q n \<longleftrightarrow> P n" using False assms(4) by auto
    ultimately show ?thesis by (simp add: edge_count_def)
  qed
qed simp

lemma loop_inv_step:
  assumes ok: "graph_ok g" and inv: "loop_inv g (c # q) deg out"
  shows "\<exists>deg' new. kahn_relax (adj_of g c) deg q = Some (deg', q @ new) \<and> loop_inv g (q @ new) deg' (out @ [c])"
proof -
  let ?N = "nodes_of g"
  note d = nodes_distinct[OF ok]
  have waiting: "set (c # q) = {m \<in> set ?N - set out. dict_get deg m = Some 0}" using inv unfolding loop_inv_def by (elim conjE)
  have "c \<in> {m \<in> set ?N - set out. dict_get deg m = Some 0}" unfolding waiting[symmetric] by simp
  then have c: "c \<in> set ?N" "c \<notin> set out" "dict_get deg c = Some 0" by simp_all
  have get: "dict_get deg m = (if m \<in> set ?N then
      Some (int (edge_count (adj_of g) (filter (\<lambda>n. n \<notin> set out) ?N) m)) else None)" for m
    using inv by (auto simp: loop_inv_def)
  have cnt: "edge_count (adj_of g) (filter (\<lambda>n. n \<notin> set out) ?N) m =
      count_list (adj_of g c) m + edge_count (adj_of g) (filter (\<lambda>n. n \<notin> set (out @ [c])) ?N) m" for m
    by (rule edge_count_filter_remove[OF d c(1)]) (use c(2) in auto)
  have noself: "c \<notin> set (adj_of g c)"
  proof
    assume "c \<in> set (adj_of g c)"
    then have "0 < count_list (adj_of g c) c" using count_list_0_iff by fastforce
    then show False using get[of c] cnt[of c] c by auto
  qed
  have preds: "n \<in> set out" if "(n, c) \<in> edges_of g" for n
  proof (rule ccontr)
    assume "n \<notin> set out"
    then have "n \<in> set (filter (\<lambda>n. n \<notin> set out) ?N)" "0 < count_list (adj_of g n) c"
      using that count_list_0_iff[of "adj_of g n" c] by (auto simp: kahn_edges_def)
    then have "0 < edge_count (adj_of g) (filter (\<lambda>n. n \<notin> set out) ?N) c"
      by (auto simp: edge_count_def sum_list_eq_0_iff simp flip: neq0_conv)
    then show False using get[of c] c by auto
  qed
  have disj: "set q \<inter> set (adj_of g c) = {}"
  proof -
    have "set q \<subseteq> {m \<in> set ?N - set out. dict_get deg m = Some 0}" unfolding waiting[symmetric] by auto
    then have "dict_get deg m = Some 0" if "m \<in> set q" for m using that by auto
    moreover have "m \<notin> set (adj_of g c)" if "dict_get deg m = Some 0" for m
      using that get[of m] cnt[of m] count_list_0_iff[of "adj_of g c" m] by (auto split: if_splits)
    ultimately show ?thesis by blast
  qed
  have "\<exists>v. dict_get deg m = Some v \<and> int (count_list (adj_of g c) m) \<le> v" if "m \<in> set (adj_of g c)" for m
    using that adj_closed[OF ok c(1)] get[of m] cnt[of m] by auto
  from kahn_relax_spec[OF this _ disj] inv obtain deg' new where
    r: "kahn_relax (adj_of g c) deg q = Some (deg', q @ new)" and dq: "distinct (q @ new)"
    and new: "set new = {m \<in> set (adj_of g c). dict_get deg m = Some (int (count_list (adj_of g c) m))}"
    and deg': "\<forall>m. dict_get deg' m = map_option (\<lambda>v. v - int (count_list (adj_of g c) m)) (dict_get deg m)"
    unfolding loop_inv_def by auto
  have get': "dict_get deg' m = (if m \<in> set ?N then
      Some (int (edge_count (adj_of g) (filter (\<lambda>n. n \<notin> set (out @ [c])) ?N) m)) else None)" for m
    using deg' get[of m] cnt[of m] by auto
  have newN: "set new \<subseteq> set ?N - set (out @ [c])"
  proof
    fix m assume m: "m \<in> set new"
    then have "m \<in> set (adj_of g c)" using new by auto
    moreover have "m \<notin> set out"
    proof
      assume "m \<in> set out"
      then obtain i where "i < length out" "m = out ! i" by (auto simp: in_set_conv_nth)
      moreover have "(c, m) \<in> edges_of g" using c(1) \<open>m \<in> set (adj_of g c)\<close> by (simp add: kahn_edges_def)
      ultimately have "c \<in> set out" using inv by (auto simp: loop_inv_def topological_def dest: in_set_takeD)
      then show False using c(2) by simp
    qed
    ultimately show "m \<in> set ?N - set (out @ [c])" using adj_closed[OF ok c(1)] noself by auto
  qed
  have q': "set (q @ new) = {m \<in> set ?N - set (out @ [c]). dict_get deg' m = Some 0}"
  proof (rule set_eqI)
    fix m
    have old: "m \<in> set q \<longleftrightarrow> m \<in> set ?N - set (out @ [c]) \<and> dict_get deg m = Some 0"
      using waiting inv by (auto simp: loop_inv_def)
    show "m \<in> set (q @ new) \<longleftrightarrow> m \<in> {m \<in> set ?N - set (out @ [c]). dict_get deg' m = Some 0}"
    proof (cases "m \<in> set (adj_of g c)")
      case True
      then have "m \<notin> set q" using disj by auto
      then show ?thesis using True newN deg' new by (auto simp: get)
    next
      case False
      then have "count_list (adj_of g c) m = 0" by (simp add: count_list_0_iff)
      then show ?thesis using False old deg' new by (auto simp: get)
    qed
  qed
  have "topological (edges_of g) (out @ [c])" using inv preds c(2) by (simp add: topological_snoc loop_inv_def)
  moreover have "distinct ((out @ [c]) @ q @ new)" using inv dq newN by (auto simp: loop_inv_def)
  ultimately have "loop_inv g (q @ new) deg' (out @ [c])" using inv c(1) get' q' by (simp add: loop_inv_def)
  then show ?thesis using r by blast
qed

lemma kahn_loop_inv:
  assumes "graph_ok g" "loop_inv g q deg out"
  shows "\<exists>out' deg'. kahn_loop (adj_of g) q deg out = Some out' \<and> loop_inv g [] deg' out'"
  using assms(2)
proof (induction "adj_of g" q deg out rule: kahn_loop.induct)
  case (2 c q deg out)
  from loop_inv_step[OF assms(1) "2.prems"] obtain deg' new where
    s: "kahn_relax (adj_of g c) deg q = Some (deg', q @ new)" "loop_inv g (q @ new) deg' (out @ [c])" by blast
  from "2.hyps"[OF s(1) refl s(2)] show ?case using s(1) by simp
qed auto

lemma loop_inv_start:
  assumes "graph_ok g"
  shows "loop_inv g (map fst (filter (\<lambda>p. snd p = 0) (deg_of g))) (deg_of g) []"
proof -
  have d: "distinct (map fst (deg_of g))" using nodes_distinct deg_nodes assms by metis
  have m: "m \<in> set (map fst (filter (\<lambda>p. snd p = 0) (deg_of g))) \<longleftrightarrow> dict_get (deg_of g) m = Some 0" for m
    using map_of_eq_Some_iff[OF d, of m 0] by (auto simp: dict_get_def image_iff)
  have none: "dict_get (deg_of g) m = None" if "m \<notin> set (nodes_of g)" for m
    using that deg_nodes[OF assms] by (metis dict_get_def map_of_eq_None_iff set_map)
  have "distinct (map fst (filter (\<lambda>p. snd p = 0) (deg_of g)))" using d by (simp add: distinct_map_filter)
  moreover have "set (map fst (filter (\<lambda>p. snd p = 0) (deg_of g))) = {m \<in> set (nodes_of g). dict_get (deg_of g) m = Some 0}"
  proof (rule set_eqI)
    fix x
    show "x \<in> set (map fst (filter (\<lambda>p. snd p = 0) (deg_of g))) \<longleftrightarrow> x \<in> {m \<in> set (nodes_of g). dict_get (deg_of g) m = Some 0}"
      using m[of x] none[of x] by (cases "x \<in> set (nodes_of g)") simp_all
  qed
  ultimately show ?thesis using deg_count[OF assms] none by (simp add: loop_inv_def topological_def)
qed

text \<open>The sort ends without a missing key, its output is in topological order, and it is complete exactly on
  acyclic graphs.\<close>

theorem kahn_sorts:
  assumes ok: "graph_ok g"
  shows "\<exists>out. kahn_loop (adj_of g) (map fst (filter (\<lambda>p. snd p = 0) (deg_of g))) (deg_of g) [] = Some out
     \<and> topological (edges_of g) out \<and> set out \<subseteq> set (nodes_of g)
     \<and> (length out = length (nodes_of g) \<longleftrightarrow> acyclic (edges_of g))
     \<and> (length out = length (nodes_of g) \<longrightarrow> set out = set (nodes_of g))"
proof -
  obtain out deg' where out: "kahn_loop (adj_of g) (map fst (filter (\<lambda>p. snd p = 0) (deg_of g))) (deg_of g) [] = Some out"
    and inv: "loop_inv g [] deg' out" using kahn_loop_inv[OF ok loop_inv_start[OF ok]] by blast
  have top: "topological (edges_of g) out" "set out \<subseteq> set (nodes_of g)" "distinct out"
    using inv by (auto simp: loop_inv_def)
  have full: "length out = length (nodes_of g) \<longleftrightarrow> set out = set (nodes_of g)"
    using top nodes_distinct[OF ok] by (metis card_subset_eq distinct_card List.finite_set)
  have "acyclic (edges_of g) \<longleftrightarrow> set out = set (nodes_of g)"
  proof
    assume ac: "acyclic (edges_of g)"
    have "finite (edges_of g)"
      by (rule finite_subset[of _ "set (nodes_of g) \<times> set (nodes_of g)"]) (use adj_closed[OF ok] in \<open>auto simp: kahn_edges_def\<close>)
    then have wf: "wf (edges_of g)" using ac by (rule finite_acyclic_wf)
    show "set out = set (nodes_of g)"
    proof (rule ccontr)
      assume "set out \<noteq> set (nodes_of g)"
      then obtain x where "x \<in> set (nodes_of g) - set out" using top(2) by auto
      then obtain m where m: "m \<in> set (nodes_of g) - set out" "\<And>n. (n, m) \<in> edges_of g \<Longrightarrow> n \<notin> set (nodes_of g) - set out"
        using wf unfolding wf_eq_minimal by meson
      have "count_list (adj_of g n) m = 0" if "n \<in> set (filter (\<lambda>n. n \<notin> set out) (nodes_of g))" for n
        using m(2)[of n] that by (auto simp: kahn_edges_def count_list_0_iff)
      then have "edge_count (adj_of g) (filter (\<lambda>n. n \<notin> set out) (nodes_of g)) m = 0"
        unfolding edge_count_def by (simp add: sum_list_eq_0_iff)
      then show False using inv m(1) by (auto simp: loop_inv_def)
    qed
  next
    assume "set out = set (nodes_of g)"
    then have "edges_of g \<subseteq> UNIV \<times> set out" using adj_closed[OF ok] by (auto simp: kahn_edges_def)
    then show "acyclic (edges_of g)" using topological_acyclic top(1) by blast
  qed
  then show ?thesis using out top full by blast
qed

end

end
