(* ===== verification/Isr_Traversal.thy ===== *)
theory Isr_Traversal
  imports Isr_Graph Gr_Kahn "HOL-Library.Multiset"
begin

text \<open>
  Traversals of the typed graph (\<^verbatim>\<open>constitutional_architecture/isr/graph/traversal.py\<close>): breadth-first and
  depth-first search, topological sort, cycle detection and path search. The search functions end on every graph, also an
  ill-formed one. The recursion limit of the interpreter is not modelled.
  An \<open>edge_filter\<close> that is not given is \<open>None\<close>.
\<close>

section \<open>Breadth-first search\<close>

definition edge_passes :: "(graph_edge \<Rightarrow> bool) option \<Rightarrow> graph_edge \<Rightarrow> bool" where
  "edge_passes f e = (case f of None \<Rightarrow> True | Some p \<Rightarrow> p e)"

function bfs_loop ::
  "typed_graph \<Rightarrow> (graph_edge \<Rightarrow> bool) option \<Rightarrow> string list \<Rightarrow> string set \<Rightarrow> graph_node list \<Rightarrow> py_exn + graph_node list" where
  "bfs_loop g f [] visited result = Inr result"
| "bfs_loop g f (n # q) visited result =
     (if n \<in> visited then bfs_loop g f q visited result
      else
        (case get_outgoing_edges g n of
           Inl exn \<Rightarrow> Inl exn
         | Inr es \<Rightarrow>
             bfs_loop g f
               (q @ map ge_target_id (filter (\<lambda>e. edge_passes f e \<and> ge_target_id e \<notin> insert n visited) es))
               (insert n visited)
               (case get_node g n of None \<Rightarrow> result | Some x \<Rightarrow> result @ [x])))"
  by pat_completeness auto

termination
proof (relation "measures [\<lambda>(g, _, _, V, _). open_nodes g V, \<lambda>(_, _, q, _, _). length q]", goal_cases)
  case (3 g f n q visited result es)
  then show ?case using open_nodes_visit[of g n es visited] by auto
qed auto

definition bfs :: "typed_graph \<Rightarrow> string \<Rightarrow> (graph_edge \<Rightarrow> bool) option \<Rightarrow> py_exn + graph_node list" where
  "bfs g start_id f = bfs_loop g f [start_id] {} []"

section \<open>Depth-first search\<close>

text \<open>\<open>_dfs\<close> is called for one node after the other; the state is the visited set and the result. The list holds the
  nodes the current activation still has to call \<open>_dfs\<close> for.\<close>

function dfs_calls ::
  "typed_graph \<Rightarrow> (graph_edge \<Rightarrow> bool) option \<Rightarrow> string list \<Rightarrow> string set \<times> graph_node list \<Rightarrow> py_exn + string set \<times> graph_node list" where
  "dfs_calls g f [] st = Inr st"
| "dfs_calls g f (n # ns) (visited, result) =
     (if n \<in> visited then dfs_calls g f ns (visited, result)
      else
        (case get_outgoing_edges g n of
           Inl exn \<Rightarrow> Inl exn
         | Inr es \<Rightarrow>
             (case dfs_calls g f (map ge_target_id (filter (edge_passes f) es))
                     (insert n visited, case get_node g n of None \<Rightarrow> result | Some x \<Rightarrow> result @ [x]) of
                Inl exn \<Rightarrow> Inl exn
              | Inr st \<Rightarrow> dfs_calls g f ns st)))"
  by pat_completeness auto

lemma dfs_calls_visited:
  "dfs_calls_dom (g, f, ns, st) \<Longrightarrow> dfs_calls g f ns st = Inr st' \<Longrightarrow> fst st \<subseteq> fst st'"
proof (induction arbitrary: st' rule: dfs_calls.pinduct)
  case (2 g f n ns visited result)
  show ?case
  proof (cases "n \<in> visited")
    case True
    then show ?thesis using 2 by (simp add: dfs_calls.psimps)
  next
    case False
    then obtain es st where e: "get_outgoing_edges g n = Inr es"
      "dfs_calls g f (map ge_target_id (filter (edge_passes f) es))
        (insert n visited, case get_node g n of None \<Rightarrow> result | Some x \<Rightarrow> result @ [x]) = Inr st" "dfs_calls g f ns st = Inr st'"
      using 2(1,5) by (auto simp: dfs_calls.psimps split: sum.splits)
    then show ?thesis using "2.IH"(2)[OF False e(1,2)] "2.IH"(3)[OF False e(1,2,3)] by auto
  qed
qed (simp add: dfs_calls.psimps)

termination dfs_calls
proof (relation "measures [\<lambda>(g, _, _, V, _). open_nodes g V, \<lambda>(_, _, ns, _). length ns]", goal_cases)
  case (3 g f n ns visited result es)
  then show ?case using open_nodes_visit[of g n es visited] by auto
next
  case (4 g f n ns visited result es st)
  then have "insert n visited \<subseteq> fst st" using dfs_calls_visited by fastforce
  then have "open_nodes g (fst st) \<le> open_nodes g visited" by (intro open_keys_mono) auto
  then show ?case by (cases st) auto
qed auto

definition dfs :: "typed_graph \<Rightarrow> string \<Rightarrow> (graph_edge \<Rightarrow> bool) option \<Rightarrow> py_exn + graph_node list" where
  "dfs g start_id f = map_sum id snd (dfs_calls g f [start_id] ({}, []))"

section \<open>Topological sort\<close>

text \<open>The two dictionaries \<open>in_degree\<close> and \<open>adjacency\<close>, filled edge by edge; the keys are the nodes.\<close>

definition note_edge ::
  "edge_type \<Rightarrow> (string, graph_node) dict \<Rightarrow> graph_edge \<Rightarrow> (string, string list) dict \<times> (string, int) dict \<Rightarrow> (string, string list) dict \<times> (string, int) dict" where
  "note_edge t ns e ad =
     (if ge_edge_type e = t \<and> dict_in (ge_source_id e) ns \<and> dict_in (ge_target_id e) ns then
        (dict_set (ge_source_id e) (the (dict_get (fst ad) (ge_source_id e)) @ [ge_target_id e]) (fst ad),
         dict_set (ge_target_id e) (the (dict_get (snd ad) (ge_target_id e)) + 1) (snd ad))
      else ad)"

definition sort_tables :: "typed_graph \<Rightarrow> edge_type \<Rightarrow> (string, graph_node) dict \<Rightarrow> (string, string list) dict \<times> (string, int) dict" where
  "sort_tables g t ns = fold (note_edge t ns) (edges g) (map (\<lambda>(i, _). (i, [])) ns, map (\<lambda>(i, _). (i, 0)) ns)"

text \<open>\<open>{n.id: n for n in graph.nodes()}\<close>\<close>

definition nodes_by_id :: "typed_graph \<Rightarrow> (string, graph_node) dict" where
  "nodes_by_id g = fold (\<lambda>n d. dict_set (gn_id n) n d) (nodes g) []"

definition topological_sort :: "typed_graph \<Rightarrow> edge_type \<Rightarrow> py_exn + graph_node list" where
  "topological_sort g t =
     (let ns = nodes_by_id g; (adjacency, in_degree) = sort_tables g t ns
      in case kahn_loop (dict_list adjacency) (map fst (filter (\<lambda>p. snd p = 0) in_degree)) in_degree [] of
           None \<Rightarrow> Inl (KeyError [])
         | Some out \<Rightarrow>
             if length out \<noteq> length ns then Inl (ValueError ''Cycle detected in dependency graph'')
             else Inr (map (\<lambda>i. the (dict_get ns i)) out))"

section \<open>The relations the traversals follow\<close>

definition edge_rel :: "typed_graph \<Rightarrow> (graph_edge \<Rightarrow> bool) \<Rightarrow> (string \<times> string) set" where
  "edge_rel g P = {(ge_source_id e, ge_target_id e) |e. e \<in> set (edges g) \<and> P e}"

abbreviation type_rel :: "typed_graph \<Rightarrow> edge_type \<Rightarrow> (string \<times> string) set" where
  "type_rel g t \<equiv> edge_rel g (\<lambda>e. ge_edge_type e = t)"

lemma edge_relI: "e \<in> set (edges g) \<Longrightarrow> P e \<Longrightarrow> ge_source_id e = a \<Longrightarrow> ge_target_id e = b \<Longrightarrow> (a, b) \<in> edge_rel g P"
  by (auto simp: edge_rel_def)

lemma edge_rel_nodes: "graph_wf g \<Longrightarrow> edge_rel g P \<subseteq> set (node_ids g) \<times> set (node_ids g)"
  by (erule graph_wf_cases) (fastforce simp: edge_rel_def node_ids_def parts_ok_def)

lemma edge_rel_finite: "finite (edge_rel g P)"
proof -
  have "edge_rel g P \<subseteq> (\<lambda>e. (ge_source_id e, ge_target_id e)) ` set (edges g)" by (auto simp: edge_rel_def)
  then show ?thesis by (rule finite_subset) simp
qed

section \<open>The tables of the sort\<close>

lemma nodes_by_id_wf: "graph_wf g \<Longrightarrow> nodes_by_id g = map (\<lambda>n. (gn_id n, n)) (nodes g)"
proof -
  have *: "distinct (map fst d @ map gn_id ns) \<Longrightarrow>
      fold (\<lambda>n d. dict_set (gn_id n) n d) ns d = d @ map (\<lambda>n. (gn_id n, n)) ns" for ns d
    by (induction ns arbitrary: d) (auto simp: dict_set_fresh dict_in_def image_iff)
  show "graph_wf g \<Longrightarrow> nodes_by_id g = map (\<lambda>n. (gn_id n, n)) (nodes g)"
    by (erule graph_wf_cases) (simp add: nodes_by_id_def * parts_ok_def)
qed

definition out_targets :: "edge_type \<Rightarrow> graph_edge list \<Rightarrow> string \<Rightarrow> string list" where
  "out_targets t es i = map ge_target_id (filter (\<lambda>e. ge_edge_type e = t \<and> ge_source_id e = i) es)"

definition in_count :: "edge_type \<Rightarrow> graph_edge list \<Rightarrow> string \<Rightarrow> nat" where
  "in_count t es i = length (filter (\<lambda>e. ge_edge_type e = t \<and> ge_target_id e = i) es)"

lemma note_edges_of:
  assumes "distinct (map gn_id ns)"
    and "\<forall>e \<in> set es. ge_source_id e \<in> gn_id ` set ns \<and> ge_target_id e \<in> gn_id ` set ns"
  shows "fold (note_edge t (map (\<lambda>n. (gn_id n, n)) ns)) es
      (map (\<lambda>n. (gn_id n, [])) ns, map (\<lambda>n. (gn_id n, 0)) ns) =
    (map (\<lambda>n. (gn_id n, out_targets t es (gn_id n))) ns, map (\<lambda>n. (gn_id n, int (in_count t es (gn_id n)))) ns)"
  using assms(2)
proof (induction es rule: rev_induct)
  case (snoc e es)
  obtain s d where sd: "s \<in> set ns" "gn_id s = ge_source_id e" "d \<in> set ns" "gn_id d = ge_target_id e"
    using snoc.prems by (auto simp: image_iff)
  have mem: "ge_source_id e \<in> gn_id ` set ns" "ge_target_id e \<in> gn_id ` set ns" using snoc.prems by auto
  show ?case using snoc mem
    by (auto simp: note_edge_def dict_keyed out_targets_def in_count_def sd(2,4)[symmetric]
        dict_get_map[where f = gn_id, OF assms(1) sd(1)] dict_get_map[where f = gn_id, OF assms(1) sd(3)]
        dict_set_map[where f = gn_id, OF assms(1) sd(1)] dict_set_map[where f = gn_id, OF assms(1) sd(3)])
qed (simp add: out_targets_def in_count_def)

lemma sort_tables_wf:
  assumes "graph_wf g"
  shows "sort_tables g t (nodes_by_id g) =
    (map (\<lambda>n. (gn_id n, out_targets t (edges g) (gn_id n))) (nodes g),
     map (\<lambda>n. (gn_id n, int (in_count t (edges g) (gn_id n)))) (nodes g))"
proof -
  obtain ns es where g: "g = graph_of ns es" "parts_ok ns es" using assms by (rule graph_wf_cases)
  then show ?thesis using note_edges_of[of ns es t] nodes_by_id_wf[OF assms]
    by (simp add: sort_tables_def parts_ok_def comp_def)
qed

lemma dict_list_targets:
  assumes "graph_wf g"
  shows "dict_list (map (\<lambda>n. (gn_id n, out_targets t (edges g) (gn_id n))) (nodes g)) i = out_targets t (edges g) i"
proof (cases "i \<in> gn_id ` set (nodes g)")
  case True
  then show ?thesis using assms
    by (auto simp: dict_list_def graph_wf_def parts_ok_def dict_get_map[where f = gn_id])
next
  case False
  then have "out_targets t (edges g) i = []"
    using assms by (auto simp: out_targets_def graph_wf_def parts_ok_def filter_empty_conv)
  then show ?thesis using False by (simp add: dict_list_def dict_get_map_None)
qed

lemma sort_adjacency: "graph_wf g \<Longrightarrow> dict_list (fst (sort_tables g t (nodes_by_id g))) = out_targets t (edges g)"
  by (rule ext) (simp add: sort_tables_wf dict_list_targets)

lemma sort_degrees:
  "graph_wf g \<Longrightarrow> snd (sort_tables g t (nodes_by_id g)) = map (\<lambda>n. (gn_id n, int (in_count t (edges g) (gn_id n)))) (nodes g)"
  by (simp add: sort_tables_wf)

lemma set_out_targets: "set (out_targets t (edges g) i) = type_rel g t `` {i}"
  by (auto simp: out_targets_def edge_rel_def)

lemma out_targets_closed: "graph_wf g \<Longrightarrow> set (out_targets t (edges g) i) \<subseteq> set (node_ids g)"
  by (auto simp: out_targets_def node_ids_def graph_wf_def parts_ok_def)

lemma edge_count_in_count:
  assumes "distinct ns" "\<forall>e \<in> set es. ge_source_id e \<in> set ns"
  shows "edge_count (out_targets t es) ns m = in_count t es m"
proof -
  let ?ps = "map (\<lambda>e. (ge_source_id e, ge_target_id e)) (filter (\<lambda>e. ge_edge_type e = t) es)"
  have "out_targets t es = (\<lambda>n. map snd (filter (\<lambda>p. fst p = n) ?ps))"
    by (rule ext) (simp add: out_targets_def filter_map comp_def)
  moreover have "fst ` set ?ps \<subseteq> set ns" using assms(2) by auto
  ultimately show ?thesis using edge_count_pairs[OF assms(1), of ?ps m] by (simp add: in_count_def filter_map comp_def)
qed

interpretation typed_sort: kahn_client "\<lambda>(g, t). node_ids g"
  "\<lambda>(g, t). dict_list (fst (sort_tables g t (nodes_by_id g)))" "\<lambda>(g, t). snd (sort_tables g t (nodes_by_id g))"
  "\<lambda>(g, t). graph_wf g"
proof (unfold_locales, goal_cases)
  case (1 p)
  then show ?case by (auto simp: node_ids_def graph_wf_def parts_ok_def)
next
  case (2 p n)
  then show ?case using out_targets_closed by (cases p) (simp add: sort_adjacency)
next
  case (3 p)
  then show ?case by (auto simp: sort_tables_wf node_ids_def comp_def)
next
  case (4 p m)
  then obtain g t n where p: "p = (g, t)" "graph_wf g" "n \<in> set (nodes g)" "m = gn_id n"
    by (cases p) (auto simp: node_ids_def)
  then have d: "distinct (map gn_id (nodes g))" "\<forall>e \<in> set (edges g). ge_source_id e \<in> set (map gn_id (nodes g))"
    by (auto simp: graph_wf_def parts_ok_def)
  then show ?case using p dict_get_map[where f = gn_id, OF d(1) p(3)] edge_count_in_count[OF d, of t m]
    by (simp add: sort_degrees sort_adjacency node_ids_def)
qed

text \<open>On a well-formed graph the topological sort by an edge type returns all nodes, each once and every
  node behind those with an edge to it, if the edges of the type have no cycle; otherwise it raises \<open>ValueError\<close>.\<close>

lemma topological_sort_spec:
  assumes "graph_wf g"
  shows "if acyclic (type_rel g t)
    then \<exists>xs. topological_sort g t = Inr xs \<and> set xs = set (nodes g) \<and> topological (type_rel g t) (map gn_id xs)
    else topological_sort g t = Inl (ValueError ''Cycle detected in dependency graph'')"
proof -
  let ?N = "nodes_by_id g" and ?T = "sort_tables g t (nodes_by_id g)"
  have E: "kahn_edges (dict_list (fst ?T)) (node_ids g) = type_rel g t"
    using edge_rel_nodes[OF assms] by (auto simp: kahn_edges_def sort_adjacency assms set_out_targets)
  obtain out where out: "kahn_loop (dict_list (fst ?T)) (map fst (filter (\<lambda>p. snd p = 0) (snd ?T))) (snd ?T) [] = Some out"
    "topological (type_rel g t) out" "set out \<subseteq> set (node_ids g)"
    "length out = length (node_ids g) \<longleftrightarrow> acyclic (type_rel g t)"
    "length out = length (node_ids g) \<longrightarrow> set out = set (node_ids g)"
    using typed_sort.kahn_sorts[of "(g, t)"] assms E by auto
  have len: "length ?N = length (node_ids g)" by (simp add: nodes_by_id_wf assms node_ids_def)
  have get: "dict_get ?N (gn_id n) = Some n" if "n \<in> set (nodes g)" for n
    using that assms by (simp add: nodes_by_id_wf graph_wf_def parts_ok_def dict_get_map[where f = gn_id and h = "\<lambda>n. n"])
  have ids: "gn_id (the (dict_get ?N i)) = i" "the (dict_get ?N i) \<in> set (nodes g)" if "i \<in> set (node_ids g)" for i
    using that get by (auto simp: node_ids_def)
  have same: "map (gn_id \<circ> (\<lambda>i. the (dict_get ?N i))) out = out" using out(3) ids(1) by (intro map_idI) auto
  have "set (map (\<lambda>i. the (dict_get ?N i)) out) = set (nodes g)" if "set out = set (node_ids g)"
    using that ids(2) get by (force simp: node_ids_def image_iff)
  then show ?thesis using out len same by (auto simp: topological_sort_def Let_def split: prod.splits)
qed

section \<open>What the searches visit\<close>

lemma closed_reach:
  assumes "V \<subseteq> R\<^sup>* `` {s}" "s \<in> V" "R `` V \<subseteq> V"
  shows "V = R\<^sup>* `` {s}"
proof -
  have "(s, x) \<in> R\<^sup>* \<Longrightarrow> x \<in> V" for x by (induction rule: rtrancl_induct) (use assms in auto)
  then show ?thesis using assms(1) by auto
qed

text \<open>The result lists the visited nodes.\<close>

definition lists_visited :: "typed_graph \<Rightarrow> string set \<Rightarrow> graph_node list \<Rightarrow> bool" where
  "lists_visited g V xs \<longleftrightarrow> distinct xs \<and> set xs = {x \<in> set (nodes g). gn_id x \<in> V}"

lemma lists_visited_step:
  "graph_wf g \<Longrightarrow> lists_visited g V xs \<Longrightarrow> n \<notin> V \<Longrightarrow>
     lists_visited g (insert n V) (case get_node g n of None \<Rightarrow> xs | Some x \<Rightarrow> xs @ [x])"
proof (cases "get_node g n")
  case None
  assume "graph_wf g" "lists_visited g V xs"
  moreover have "n \<notin> gn_id ` set (nodes g)" using None get_node_None[OF \<open>graph_wf g\<close>] by (simp add: node_ids_def)
  ultimately show ?thesis using None by (auto simp: lists_visited_def)
next
  case (Some x)
  assume g: "graph_wf g" and "lists_visited g V xs" "n \<notin> V"
  moreover have x: "x \<in> set (nodes g)" "gn_id x = n" using Some get_node_Some[OF g] by auto
  moreover have "y = x" if "y \<in> set (nodes g)" "gn_id y = n" for y
    using that Some get_node_Some[OF g, of n y] by auto
  then have "{y \<in> set (nodes g). gn_id y \<in> insert n V} = insert x {y \<in> set (nodes g). gn_id y \<in> V}" using x by blast
  ultimately show ?thesis using Some by (simp add: lists_visited_def)
qed

abbreviation filter_rel :: "typed_graph \<Rightarrow> (graph_edge \<Rightarrow> bool) option \<Rightarrow> (string \<times> string) set" where
  "filter_rel g f \<equiv> edge_rel g (edge_passes f)"

lemma filter_rel_targets:
  "filter_rel g f `` {n} = ge_target_id ` set (filter (edge_passes f) (filter (\<lambda>e. ge_source_id e = n) (edges g)))"
  by (auto simp: edge_rel_def)

lemma bfs_loop_reach:
  assumes "graph_wf g"
    and "V \<union> set q \<subseteq> (filter_rel g f)\<^sup>* `` {s}" "s \<in> V \<union> set q" "filter_rel g f `` V \<subseteq> V \<union> set q" "lists_visited g V xs"
  shows "\<exists>ys. bfs_loop g f q V xs = Inr ys \<and> lists_visited g ((filter_rel g f)\<^sup>* `` {s}) ys"
  using assms
proof (induction g f q V xs rule: bfs_loop.induct)
  case (1 g f V xs)
  then show ?case using closed_reach[of V "filter_rel g f" s] by auto
next
  case (2 g f n q V xs)
  show ?case
  proof (cases "n \<in> V")
    case True
    then show ?thesis using "2.IH"(1)[OF True "2.prems"(1)] "2.prems" by (simp add: insert_absorb)
  next
    case False
    let ?es = "filter (\<lambda>e. ge_source_id e = n) (edges g)"
    let ?new = "map ge_target_id (filter (\<lambda>e. edge_passes f e \<and> ge_target_id e \<notin> insert n V) ?es)"
    have out: "get_outgoing_edges g n = Inr ?es" using get_outgoing_edges_wf[OF "2.prems"(1)] .
    have n: "n \<in> (filter_rel g f)\<^sup>* `` {s}" using "2.prems"(2) by auto
    have new: "set ?new = filter_rel g f `` {n} - insert n V" unfolding filter_rel_targets by auto
    have a: "insert n V \<union> set (q @ ?new) \<subseteq> (filter_rel g f)\<^sup>* `` {s}"
      using "2.prems"(2) n unfolding set_append new by (auto intro: rtrancl_into_rtrancl)
    have b: "filter_rel g f `` insert n V \<subseteq> insert n V \<union> set (q @ ?new)"
      using "2.prems"(4) unfolding set_append new by auto
    show ?thesis using False out "2.IH"(2)[OF False out "2.prems"(1) a _ b lists_visited_step[OF "2.prems"(1,5) False]] "2.prems"(3)
      by auto
  qed
qed

text \<open>Breadth-first search returns exactly the nodes that edges passing the filter reach from the start, each once; a start
  that is not a node gives the empty list.\<close>

lemma bfs_visits_reachable:
  assumes "graph_wf g"
  shows "\<exists>xs. bfs g start_id f = Inr xs \<and> distinct xs
    \<and> set xs = {x \<in> set (nodes g). (start_id, gn_id x) \<in> (edge_rel g (edge_passes f))\<^sup>*}"
  using bfs_loop_reach[OF assms, of "{}" "[start_id]" f start_id "[]"] by (auto simp: bfs_def lists_visited_def)

lemma dfs_calls_reach:
  assumes "graph_wf g" "lists_visited g (fst st) (snd st)"
  shows "\<exists>V' ys. dfs_calls g f ns st = Inr (V', ys) \<and> lists_visited g V' ys \<and> fst st \<union> set ns \<subseteq> V'
    \<and> V' \<subseteq> fst st \<union> (filter_rel g f)\<^sup>* `` set ns \<and> filter_rel g f `` (V' - fst st) \<subseteq> V'"
  using assms
proof (induction g f ns st rule: dfs_calls.induct)
  case (2 g f n ns V xs)
  let ?R = "filter_rel g f"
  show ?case
  proof (cases "n \<in> V")
    case True
    then obtain V' ys where *: "dfs_calls g f ns (V, xs) = Inr (V', ys)" "lists_visited g V' ys" "V \<union> set ns \<subseteq> V'"
      "V' \<subseteq> V \<union> ?R\<^sup>* `` set ns" "?R `` (V' - V) \<subseteq> V'" using "2.IH"(1)[OF True "2.prems"] by auto
    then show ?thesis using True by (intro exI[of _ V'] exI[of _ ys]) auto
  next
    case False
    let ?es = "filter (\<lambda>e. ge_source_id e = n) (edges g)"
    let ?ts = "map ge_target_id (filter (edge_passes f) ?es)"
    have out: "get_outgoing_edges g n = Inr ?es" using get_outgoing_edges_wf[OF "2.prems"(1)] .
    have ts: "set ?ts = ?R `` {n}" unfolding filter_rel_targets by auto
    obtain V1 ys1 where 1: "dfs_calls g f ?ts (insert n V, case get_node g n of None \<Rightarrow> xs | Some x \<Rightarrow> xs @ [x]) = Inr (V1, ys1)"
      "lists_visited g V1 ys1" "insert n V \<union> set ?ts \<subseteq> V1" "V1 \<subseteq> insert n V \<union> ?R\<^sup>* `` set ?ts" "?R `` (V1 - insert n V) \<subseteq> V1"
      using "2.IH"(2)[OF False out "2.prems"(1)] lists_visited_step[OF "2.prems"(1) _ False] "2.prems"(2) by auto
    obtain V' ys where 2: "dfs_calls g f ns (V1, ys1) = Inr (V', ys)" "lists_visited g V' ys" "V1 \<union> set ns \<subseteq> V'"
      "V' \<subseteq> V1 \<union> ?R\<^sup>* `` set ns" "?R `` (V' - V1) \<subseteq> V'" using "2.IH"(3)[OF False out 1(1) "2.prems"(1)] 1(2) by auto
    have r: "?R\<^sup>* `` set ?ts \<subseteq> ?R\<^sup>* `` {n}" unfolding ts by (auto intro: converse_rtrancl_into_rtrancl)
    have split: "?R\<^sup>* `` set (n # ns) = ?R\<^sup>* `` {n} \<union> ?R\<^sup>* `` set ns" by auto
    have a: "V' \<subseteq> V \<union> ?R\<^sup>* `` set (n # ns)" unfolding split using 1(4) 2(4) r by blast
    have b: "?R `` (V' - V) \<subseteq> V'"
    proof -
      have "V' - V \<subseteq> (V' - V1) \<union> (V1 - insert n V) \<union> {n}" by auto
      moreover have "?R `` {n} \<subseteq> V'" using 1(3) 2(3) ts by auto
      ultimately show ?thesis using 1(5) 2(3,5) by (auto dest!: subsetD)
    qed
    show ?thesis using False out 1 2 a b by auto
  qed
qed auto

text \<open>Depth-first search visits the same nodes as breadth-first search, in another order.\<close>

theorem dfs_permutes_bfs:
  assumes "graph_wf g"
  shows "\<exists>xs ys. dfs g start_id f = Inr xs \<and> bfs g start_id f = Inr ys \<and> mset xs = mset ys"
proof -
  obtain V xs where x: "dfs_calls g f [start_id] ({}, []) = Inr (V, xs)" "lists_visited g V xs" "start_id \<in> V"
    "V \<subseteq> (filter_rel g f)\<^sup>* `` {start_id}" "filter_rel g f `` V \<subseteq> V"
    using dfs_calls_reach[OF assms, of "({}, [])" f "[start_id]"] by (auto simp: lists_visited_def)
  obtain ys where y: "bfs_loop g f [start_id] {} [] = Inr ys" "lists_visited g ((filter_rel g f)\<^sup>* `` {start_id}) ys"
    using bfs_loop_reach[OF assms, of "{}" "[start_id]" f start_id "[]"] by (auto simp: lists_visited_def)
  have "lists_visited g V ys" using y(2) closed_reach[OF x(4,3,5)] by simp
  then have "mset xs = mset ys" using x(2) by (simp add: lists_visited_def set_eq_iff_mset_eq_distinct[symmetric])
  then show ?thesis using x(1) y(1) by (simp add: dfs_def bfs_def)
qed

theorem dfs_permutes_bfs_witness:
  "\<exists>xs ys. dfs sample_graph ''a'' None = Inr xs \<and> bfs sample_graph ''a'' None = Inr ys \<and> mset xs = mset ys"
  by (rule dfs_permutes_bfs[OF sample_graph_wf])

section \<open>Cycle detection\<close>

text \<open>The variables shared by the activations of the inner \<open>_dfs\<close>.\<close>

record cycle_search =
  cy_cycles :: "string list list"
  cy_visited :: "string set"
  cy_rec_stack :: "string set"
  cy_path :: "string list"

definition cy_enter :: "string \<Rightarrow> cycle_search \<Rightarrow> cycle_search" where
  "cy_enter n st = st\<lparr>cy_visited := insert n (cy_visited st), cy_rec_stack := insert n (cy_rec_stack st),
     cy_path := cy_path st @ [n]\<rparr>"

definition cy_leave :: "string \<Rightarrow> cycle_search \<Rightarrow> cycle_search" where
  "cy_leave n st = st\<lparr>cy_path := butlast (cy_path st), cy_rec_stack := cy_rec_stack st - {n}\<rparr>"

text \<open>\<open>path[path.index(n):] + [n]\<close>; the index exists, since path and recursion stack hold the same nodes.\<close>

definition cy_report :: "string \<Rightarrow> cycle_search \<Rightarrow> cycle_search" where
  "cy_report n st = st\<lparr>cy_cycles := cy_cycles st @ [dropWhile (\<lambda>x. x \<noteq> n) (cy_path st) @ [n]]\<rparr>"

text \<open>The loop over the neighbours of the node that was entered last.\<close>

function cy_neighbors :: "(string, string list) dict \<Rightarrow> string list \<Rightarrow> cycle_search \<Rightarrow> cycle_search" where
  "cy_neighbors adj [] st = st"
| "cy_neighbors adj (n # ns) st =
     cy_neighbors adj ns
       (if n \<notin> cy_visited st then cy_leave n (cy_neighbors adj (dict_list adj n) (cy_enter n st))
        else if n \<in> cy_rec_stack st then cy_report n st
        else st)"
  by pat_completeness auto

lemma cy_neighbors_visited:
  "cy_neighbors_dom (adj, ns, st) \<Longrightarrow> cy_visited st \<subseteq> cy_visited (cy_neighbors adj ns st)"
proof (induction rule: cy_neighbors.pinduct)
  case (2 adj n ns st)
  then show ?case
    by (cases "n \<in> cy_visited st"; cases "n \<in> cy_rec_stack st")
      (auto simp: cy_neighbors.psimps cy_enter_def cy_leave_def cy_report_def)
qed (simp add: cy_neighbors.psimps)

termination cy_neighbors
proof (relation "measures [\<lambda>(adj, _, st). open_keys adj (cy_visited st), \<lambda>(_, ns, _). length ns]", goal_cases)
  case (2 adj n ns st)
  then show ?case using open_keys_visit[of n "cy_visited st" adj] by (auto simp: cy_enter_def)
next
  case (3 adj n ns st)
  let ?st = "if n \<notin> cy_visited st then cy_leave n (cy_neighbors adj (dict_list adj n) (cy_enter n st))
    else if n \<in> cy_rec_stack st then cy_report n st else st"
  have "cy_visited st \<subseteq> cy_visited ?st"
    using 3 cy_neighbors_visited[of adj "dict_list adj n" "cy_enter n st"] by (auto simp: cy_enter_def cy_leave_def cy_report_def)
  then show ?case using open_keys_mono[of "cy_visited st" "cy_visited ?st" adj] by auto
qed simp

definition cy_dfs :: "(string, string list) dict \<Rightarrow> string \<Rightarrow> cycle_search \<Rightarrow> cycle_search" where
  "cy_dfs adj n st = cy_leave n (cy_neighbors adj (dict_list adj n) (cy_enter n st))"

text \<open>\<open>ids\<close> is the set of node identifiers in the order in which it is iterated.\<close>

definition cy_adjacency :: "typed_graph \<Rightarrow> edge_type \<Rightarrow> string list \<Rightarrow> (string, string list) dict" where
  "cy_adjacency g t ids =
     fold (\<lambda>e adj. if ge_edge_type e = t \<and> ge_source_id e \<in> set ids \<and> ge_target_id e \<in> set ids
             then dict_set (ge_source_id e) (dict_list adj (ge_source_id e) @ [ge_target_id e]) adj else adj)
       (edges g) (map (\<lambda>i. (i, [])) ids)"

definition detect_cycles :: "typed_graph \<Rightarrow> edge_type \<Rightarrow> string list \<Rightarrow> string list list" where
  "detect_cycles g t ids =
     cy_cycles (fold (\<lambda>n st. if n \<notin> cy_visited st then cy_dfs (cy_adjacency g t ids) n st else st) ids
       \<lparr>cy_cycles = [], cy_visited = {}, cy_rec_stack = {}, cy_path = []\<rparr>)"

section \<open>Path search\<close>

text \<open>The inner \<open>while current is not None\<close> loop follows the parent pointers. Nothing in the loop bounds it: not returning is
  \<open>None\<close>.\<close>

partial_function (option) walk_parents :: "(string, string option) dict \<Rightarrow> string \<Rightarrow> string list \<Rightarrow> (py_exn + string list) option" where
  "walk_parents parent current path =
     (case dict_get parent current of
        None \<Rightarrow> Some (Inl (KeyError current))
      | Some None \<Rightarrow> Some (Inr (rev (path @ [current])))
      | Some (Some p) \<Rightarrow> walk_parents parent p (path @ [current]))"

function find_path_loop ::
  "typed_graph \<Rightarrow> (graph_edge \<Rightarrow> bool) option \<Rightarrow> string \<Rightarrow> string list \<Rightarrow> string set \<Rightarrow> (string, string option) dict
   \<Rightarrow> (py_exn + string list option) option" where
  "find_path_loop g f target [] visited parent = Some (Inr None)"
| "find_path_loop g f target (n # q) visited parent =
     (if n = target then map_option (map_sum id Some) (walk_parents parent target [])
      else if n \<in> visited then find_path_loop g f target q visited parent
      else
        (case get_outgoing_edges g n of
           Inl exn \<Rightarrow> Some (Inl exn)
         | Inr es \<Rightarrow>
             (let ts = map ge_target_id (filter (\<lambda>e. edge_passes f e \<and> ge_target_id e \<notin> insert n visited) es)
              in find_path_loop g f target (q @ ts) (insert n visited) (fold (\<lambda>t. dict_set t (Some n)) ts parent))))"
  by pat_completeness auto

termination
proof (relation "measures [\<lambda>(g, _, _, _, V, _). open_nodes g V, \<lambda>(_, _, _, q, _, _). length q]", goal_cases)
  case (3 g f target n q visited parent es ts)
  then show ?case using open_nodes_visit[of g n es visited] by auto
qed auto

definition find_path ::
  "typed_graph \<Rightarrow> string \<Rightarrow> string \<Rightarrow> (graph_edge \<Rightarrow> bool) option \<Rightarrow> (py_exn + string list option) option" where
  "find_path g source_id target_id f = find_path_loop g f target_id [source_id] {} [(source_id, None)]"

end
