(* ===== verification/Isr_Cycles.thy ===== *)
theory Isr_Cycles
  imports Isr_Traversal
begin

text \<open>
  Correctness of the cycle detection of \<^verbatim>\<open>constitutional_architecture/isr/graph/traversal.py\<close>: every reported
  list is a cycle of the graph, and nothing is reported exactly when there is none. The order in which Python iterates the set of nodes is
  arbitrary; the theorems hold for each.
\<close>

section \<open>Cycles\<close>

definition walk :: "('a \<times> 'a) set \<Rightarrow> 'a list \<Rightarrow> bool" where
  "walk E p = successively (\<lambda>a b. (a, b) \<in> E) p"

definition is_cycle :: "('a \<times> 'a) set \<Rightarrow> 'a list \<Rightarrow> bool" where
  "is_cycle E c \<longleftrightarrow> 2 \<le> length c \<and> hd c = last c \<and> walk E c"

lemma walk_simps [simp]: "walk E []" "walk E [x]" "walk E (x # y # p) \<longleftrightarrow> (x, y) \<in> E \<and> walk E (y # p)"
  by (simp_all add: walk_def)

lemma walk_snoc: "p \<noteq> [] \<Longrightarrow> walk E (p @ [x]) \<longleftrightarrow> walk E p \<and> (last p, x) \<in> E"
  by (auto simp: walk_def successively_append_iff)

lemma walk_suffix: "walk E (p @ q) \<Longrightarrow> walk E q"
  by (auto simp: walk_def successively_append_iff)

lemma walk_trancl: "walk E p \<Longrightarrow> 2 \<le> length p \<Longrightarrow> (hd p, last p) \<in> E\<^sup>+"
proof (induction p rule: induct_list012)
  case (3 x y p)
  then show ?case by (cases p) (auto intro: trancl_into_trancl2)
qed simp_all

lemma is_cycle_cyclic: "is_cycle E c \<Longrightarrow> \<not> acyclic E"
  using walk_trancl[of E c] by (auto simp: is_cycle_def acyclic_def)

section \<open>The search\<close>

definition adj_rel :: "('a, 'a list) dict \<Rightarrow> ('a \<times> 'a) set" where
  "adj_rel adj = {(a, b). b \<in> set (dict_list adj a)}"

text \<open>Between two steps of the loop: path and recursion stack hold the same nodes, all visited, and the path is a
  walk.\<close>

definition cy_ok :: "(string, string list) dict \<Rightarrow> cycle_search \<Rightarrow> bool" where
  "cy_ok adj st \<longleftrightarrow> cy_rec_stack st = set (cy_path st) \<and> distinct (cy_path st) \<and> set (cy_path st) \<subseteq> cy_visited st
     \<and> walk (adj_rel adj) (cy_path st)"

text \<open>What a run of the loop leaves: path and stack as before, more visited nodes, more reports, all of them cycles.\<close>

definition cy_grows :: "(string, string list) dict \<Rightarrow> cycle_search \<Rightarrow> cycle_search \<Rightarrow> bool" where
  "cy_grows adj st st' \<longleftrightarrow> cy_path st' = cy_path st \<and> cy_rec_stack st' = cy_rec_stack st \<and> cy_visited st \<subseteq> cy_visited st'
     \<and> (\<exists>cs. cy_cycles st' = cy_cycles st @ cs \<and> (\<forall>c \<in> set cs. is_cycle (adj_rel adj) c))"

lemma cy_grows_refl: "cy_grows adj st st"
  by (simp add: cy_grows_def)

lemma cy_grows_trans [trans]: "cy_grows adj a b \<Longrightarrow> cy_grows adj b c \<Longrightarrow> cy_grows adj a c"
proof -
  assume ab: "cy_grows adj a b" and bc: "cy_grows adj b c"
  obtain cs where "cy_cycles b = cy_cycles a @ cs" "\<forall>c \<in> set cs. is_cycle (adj_rel adj) c"
    using ab by (auto simp: cy_grows_def)
  moreover obtain ds where "cy_cycles c = cy_cycles b @ ds" "\<forall>c \<in> set ds. is_cycle (adj_rel adj) c"
    using bc by (auto simp: cy_grows_def)
  ultimately show ?thesis using ab bc by (auto simp: cy_grows_def intro!: exI[of _ "cs @ ds"])
qed

lemma cy_ok_grows: "cy_ok adj st \<Longrightarrow> cy_grows adj st st' \<Longrightarrow> cy_ok adj st'"
  by (auto simp: cy_ok_def cy_grows_def)

lemma cy_ok_enter:
  "cy_ok adj st \<Longrightarrow> n \<notin> cy_visited st \<Longrightarrow> cy_path st = [] \<or> (last (cy_path st), n) \<in> adj_rel adj \<Longrightarrow> cy_ok adj (cy_enter n st)"
  by (cases "cy_path st = []") (auto simp: cy_ok_def cy_enter_def walk_snoc)

lemma cy_leave_grows:
  "cy_ok adj st \<Longrightarrow> n \<notin> cy_visited st \<Longrightarrow> cy_grows adj (cy_enter n st) st' \<Longrightarrow> cy_grows adj st (cy_leave n st')"
  by (auto simp: cy_grows_def cy_leave_def cy_enter_def cy_ok_def)

lemma cy_report_grows:
  assumes "cy_ok adj st" "n \<in> cy_rec_stack st" "(last (cy_path st), n) \<in> adj_rel adj"
  shows "cy_grows adj st (cy_report n st)"
proof -
  let ?p = "cy_path st" and ?q = "dropWhile (\<lambda>x. x \<noteq> n) (cy_path st)"
  have "n \<in> set ?p" using assms(1,2) by (simp add: cy_ok_def)
  then have q: "?q \<noteq> []" "hd ?q = n" "last ?q = last ?p"
    using hd_dropWhile[of "\<lambda>x. x \<noteq> n" ?p] last_appendR[of ?q "takeWhile (\<lambda>x. x \<noteq> n) ?p"] by auto
  have "walk (adj_rel adj) ?q" using assms(1) walk_suffix[of _ "takeWhile (\<lambda>x. x \<noteq> n) ?p" ?q] by (simp add: cy_ok_def)
  then have "is_cycle (adj_rel adj) (?q @ [n])" using q assms(3)
    by (auto simp: is_cycle_def walk_snoc Suc_le_eq)
  then show ?thesis by (simp add: cy_grows_def cy_report_def)
qed

text \<open>The finished nodes: visited, and no longer on the path. While nothing is reported they are closed under edges and on
  no cycle.\<close>

definition finished :: "cycle_search \<Rightarrow> string set" where
  "finished st = cy_visited st - cy_rec_stack st"

definition clean :: "(string, string list) dict \<Rightarrow> string set \<Rightarrow> bool" where
  "clean adj F \<longleftrightarrow> adj_rel adj `` F \<subseteq> F \<and> (\<forall>x \<in> F. (x, x) \<notin> (adj_rel adj)\<^sup>+)"

lemma clean_insert:
  assumes "clean adj F" "set (dict_list adj n) \<subseteq> F" "n \<notin> F"
  shows "clean adj (insert n F)"
proof -
  have closed: "adj_rel adj `` F \<subseteq> F" using assms(1) by (simp add: clean_def)
  have F: "(y, z) \<in> (adj_rel adj)\<^sup>* \<Longrightarrow> y \<in> F \<Longrightarrow> z \<in> F" for y z
    by (induction rule: rtrancl_induct) (use closed in auto)
  have "(n, n) \<notin> (adj_rel adj)\<^sup>+"
  proof
    assume "(n, n) \<in> (adj_rel adj)\<^sup>+"
    then obtain y where "(n, y) \<in> adj_rel adj" "(y, n) \<in> (adj_rel adj)\<^sup>*" by (auto dest: tranclD)
    then show False using F[of y n] assms(2,3) by (auto simp: adj_rel_def)
  qed
  then show ?thesis using assms(1,2) by (auto simp: clean_def adj_rel_def)
qed

text \<open>One round of the loop.\<close>

definition cy_visit :: "(string, string list) dict \<Rightarrow> string \<Rightarrow> cycle_search \<Rightarrow> cycle_search" where
  "cy_visit adj n st = (if n \<notin> cy_visited st then cy_leave n (cy_neighbors adj (dict_list adj n) (cy_enter n st))
     else if n \<in> cy_rec_stack st then cy_report n st else st)"

lemma cy_neighbors_Cons: "cy_neighbors adj (n # ns) st = cy_neighbors adj ns (cy_visit adj n st)"
  by (simp add: cy_visit_def)

declare cy_neighbors.simps(2) [simp del] cy_neighbors_Cons [simp]

lemma cy_enter_simps [simp]:
  "cy_path (cy_enter n st) = cy_path st @ [n]" "cy_visited (cy_enter n st) = insert n (cy_visited st)"
  "cy_rec_stack (cy_enter n st) = insert n (cy_rec_stack st)" "cy_cycles (cy_enter n st) = cy_cycles st"
  by (simp_all add: cy_enter_def)

lemma cy_leave_simps [simp]:
  "cy_visited (cy_leave n st) = cy_visited st" "cy_cycles (cy_leave n st) = cy_cycles st"
  by (simp_all add: cy_leave_def)

text \<open>The neighbours of the node entered last.\<close>

lemma adj_rel_last: "set (dict_list adj n) \<subseteq> adj_rel adj `` {last (cy_path (cy_enter n st))}"
  by (auto simp: adj_rel_def)

lemma cy_neighbors_grows:
  assumes "cy_ok adj st" "cy_path st \<noteq> []" "set ns \<subseteq> adj_rel adj `` {last (cy_path st)}"
  shows "cy_grows adj st (cy_neighbors adj ns st) \<and> set ns \<subseteq> cy_visited (cy_neighbors adj ns st)"
  using assms
proof (induction adj ns st rule: cy_neighbors.induct)
  case (2 adj n ns st)
  define st1 where "st1 = cy_visit adj n st"
  have e: "(last (cy_path st), n) \<in> adj_rel adj" using "2.prems"(3) by auto
  have one: "cy_grows adj st st1 \<and> n \<in> cy_visited st1"
  proof (cases "n \<in> cy_visited st")
    case True
    then show ?thesis using cy_report_grows[OF "2.prems"(1) _ e] by (auto simp: st1_def cy_visit_def cy_grows_refl cy_report_def)
  next
    case False
    let ?st = "cy_neighbors adj (dict_list adj n) (cy_enter n st)"
    have "cy_grows adj (cy_enter n st) ?st"
      using "2.IH"(1)[OF False cy_ok_enter[OF "2.prems"(1) False]] e adj_rel_last by simp
    then show ?thesis using False cy_leave_grows[OF "2.prems"(1) False, of ?st] by (auto simp: st1_def cy_visit_def cy_grows_def)
  qed
  then have ok1: "cy_ok adj st1" "cy_path st1 = cy_path st" using cy_ok_grows "2.prems"(1) by (auto simp: cy_grows_def)
  have two: "cy_grows adj st1 (cy_neighbors adj ns st1) \<and> set ns \<subseteq> cy_visited (cy_neighbors adj ns st1)"
    using "2.IH"(2)[folded cy_visit_def, folded st1_def, OF ok1(1)] ok1(2) "2.prems"(2,3) by simp
  have "n \<in> cy_visited (cy_neighbors adj ns st1)" using one two by (auto simp: cy_grows_def)
  then show ?case using one two cy_grows_trans[of adj st st1] by (simp add: st1_def)
qed (simp add: cy_grows_refl)

lemma cy_visit_grows:
  assumes "cy_ok adj st" "n \<notin> cy_visited st" "cy_path st = [] \<or> (last (cy_path st), n) \<in> adj_rel adj"
  shows "cy_grows adj st (cy_visit adj n st) \<and> n \<in> cy_visited (cy_visit adj n st)"
    and "cy_grows adj (cy_enter n st) (cy_neighbors adj (dict_list adj n) (cy_enter n st))"
proof -
  let ?st = "cy_neighbors adj (dict_list adj n) (cy_enter n st)"
  show g: "cy_grows adj (cy_enter n st) ?st"
    using cy_neighbors_grows[OF cy_ok_enter[OF assms] _ adj_rel_last] by simp
  then show "cy_grows adj st (cy_visit adj n st) \<and> n \<in> cy_visited (cy_visit adj n st)"
    using assms(2) cy_leave_grows[OF assms(1,2) g] by (auto simp: cy_visit_def cy_grows_def)
qed

lemma cy_grows_Nil: "cy_grows adj st st' \<Longrightarrow> cy_cycles st' = [] \<Longrightarrow> cy_cycles st = []"
  by (auto simp: cy_grows_def)

lemma finished_enter: "n \<notin> cy_visited st \<Longrightarrow> finished (cy_enter n st) = finished st"
  by (auto simp: finished_def)

lemma finished_leave: "n \<in> cy_visited st \<Longrightarrow> finished (cy_leave n st) = insert n (finished st)"
  by (auto simp: finished_def cy_leave_def)

lemma finished_mono: "cy_grows adj st st' \<Longrightarrow> finished st \<subseteq> finished st'"
  by (auto simp: finished_def cy_grows_def)

lemma cy_neighbors_clean:
  assumes "cy_ok adj st" "cy_path st \<noteq> []" "set ns \<subseteq> adj_rel adj `` {last (cy_path st)}"
    and "clean adj (finished st)" "cy_cycles (cy_neighbors adj ns st) = []"
  shows "clean adj (finished (cy_neighbors adj ns st)) \<and> set ns \<subseteq> finished (cy_neighbors adj ns st)"
  using assms
proof (induction adj ns st rule: cy_neighbors.induct)
  case (2 adj n ns st)
  define st1 where "st1 = cy_visit adj n st"
  have e: "(last (cy_path st), n) \<in> adj_rel adj" using "2.prems"(3) by auto
  have g1: "cy_grows adj st st1"
    using cy_neighbors_grows[of adj st "[n]"] "2.prems"(1-3) by (simp add: st1_def)
  have ok1: "cy_ok adj st1" "cy_path st1 = cy_path st" using g1 cy_ok_grows "2.prems"(1) by (auto simp: cy_grows_def)
  have g2: "cy_grows adj st1 (cy_neighbors adj ns st1)"
    using cy_neighbors_grows[OF ok1(1), of ns] ok1(2) "2.prems"(2,3) by simp
  have none: "cy_cycles st1 = []" using cy_grows_Nil[OF g2] "2.prems"(5) by (simp add: st1_def)
  have one: "clean adj (finished st1) \<and> n \<in> finished st1"
  proof (cases "n \<in> cy_visited st")
    case True
    then have "n \<notin> cy_rec_stack st" using none by (auto simp: st1_def cy_visit_def cy_report_def split: if_splits)
    then show ?thesis using True "2.prems"(4) by (simp add: st1_def cy_visit_def finished_def)
  next
    case False
    let ?st = "cy_neighbors adj (dict_list adj n) (cy_enter n st)"
    have st1: "st1 = cy_leave n ?st" using False by (simp add: st1_def cy_visit_def)
    have g: "cy_grows adj (cy_enter n st) ?st" using cy_visit_grows(2)[OF "2.prems"(1) False] e by simp
    then have n: "n \<in> cy_visited ?st" "n \<notin> finished ?st" by (auto simp: cy_grows_def finished_def)
    have "clean adj (finished ?st) \<and> set (dict_list adj n) \<subseteq> finished ?st"
      using "2.IH"(1)[OF False cy_ok_enter[OF "2.prems"(1) False] _ adj_rel_last] e "2.prems"(4) none
      by (simp add: finished_enter False st1)
    then show ?thesis using clean_insert n by (simp add: st1 finished_leave)
  qed
  have "clean adj (finished (cy_neighbors adj ns st1)) \<and> set ns \<subseteq> finished (cy_neighbors adj ns st1)"
    using "2.IH"(2)[folded cy_visit_def, folded st1_def, OF ok1(1)] ok1(2) "2.prems"(2,3,5) one by (simp add: st1_def)
  then show ?case using one finished_mono[OF g2] by (auto simp: st1_def)
qed simp

section \<open>All nodes\<close>

text \<open>Between two rounds of the outer loop.\<close>

definition cy_idle :: "(string, string list) dict \<Rightarrow> cycle_search \<Rightarrow> bool" where
  "cy_idle adj st \<longleftrightarrow> cy_path st = [] \<and> cy_rec_stack st = {} \<and> (\<forall>c \<in> set (cy_cycles st). is_cycle (adj_rel adj) c)
     \<and> (cy_cycles st = [] \<longrightarrow> clean adj (cy_visited st))"

lemma cy_dfs_idle:
  assumes "cy_idle adj st" "n \<notin> cy_visited st"
  shows "cy_idle adj (cy_dfs adj n st) \<and> insert n (cy_visited st) \<subseteq> cy_visited (cy_dfs adj n st)"
proof -
  let ?st = "cy_neighbors adj (dict_list adj n) (cy_enter n st)"
  have ok: "cy_ok adj st" and p: "cy_path st = []" using assms(1) by (simp_all add: cy_idle_def cy_ok_def)
  have v: "cy_dfs adj n st = cy_visit adj n st" using assms(2) by (simp add: cy_dfs_def cy_visit_def)
  have g: "cy_grows adj st (cy_dfs adj n st)" "n \<in> cy_visited (cy_dfs adj n st)"
    using cy_visit_grows(1)[OF ok assms(2)] p by (simp_all add: v)
  have g': "cy_grows adj (cy_enter n st) ?st" using cy_visit_grows(2)[OF ok assms(2)] p by simp
  have "clean adj (cy_visited (cy_dfs adj n st))" if none: "cy_cycles (cy_dfs adj n st) = []"
  proof -
    have F: "finished st = cy_visited st" "finished (cy_dfs adj n st) = cy_visited (cy_dfs adj n st)"
      using assms(1) g(1) by (simp_all add: finished_def cy_idle_def cy_grows_def)
    have "cy_cycles st = []" using cy_grows_Nil[OF g(1) none] .
    then have "clean adj (finished (cy_enter n st))" using assms F(1) by (simp add: finished_enter cy_idle_def)
    moreover have "cy_cycles ?st = []" using none by (simp add: cy_dfs_def)
    ultimately have "clean adj (finished ?st) \<and> set (dict_list adj n) \<subseteq> finished ?st"
      using cy_neighbors_clean[OF cy_ok_enter[OF ok assms(2)] _ adj_rel_last] p by simp
    moreover have "n \<in> cy_visited ?st" "n \<notin> finished ?st" using g' by (auto simp: cy_grows_def finished_def)
    ultimately have "clean adj (finished (cy_dfs adj n st))" using clean_insert by (simp add: cy_dfs_def finished_leave)
    then show ?thesis by (simp add: F(2))
  qed
  then show ?thesis using assms(1) g by (auto simp: cy_idle_def cy_grows_def)
qed

lemma cy_fold_idle:
  assumes "cy_idle adj st"
  shows "cy_idle adj (fold (\<lambda>n st. if n \<notin> cy_visited st then cy_dfs adj n st else st) ids st)
    \<and> cy_visited st \<union> set ids \<subseteq> cy_visited (fold (\<lambda>n st. if n \<notin> cy_visited st then cy_dfs adj n st else st) ids st)"
  using assms
proof (induction ids arbitrary: st)
  case (Cons n ids)
  show ?case
  proof (cases "n \<in> cy_visited st")
    case True
    then show ?thesis using Cons.IH[OF Cons.prems] by auto
  next
    case False
    note d = cy_dfs_idle[OF Cons.prems False]
    show ?thesis using False d Cons.IH[of "cy_dfs adj n st"] by auto
  qed
qed simp

lemma adj_rel_cy_adjacency:
  assumes "graph_wf g" "set ids = set (node_ids g)"
  shows "adj_rel (cy_adjacency g t ids) = type_rel g t"
proof -
  let ?f = "\<lambda>e adj. if ge_edge_type e = t \<and> ge_source_id e \<in> set ids \<and> ge_target_id e \<in> set ids
             then dict_set (ge_source_id e) (dict_list adj (ge_source_id e) @ [ge_target_id e]) adj else adj"
  have init: "dict_list (map (\<lambda>i. (i, [])) ids) i = []" for i
    by (induction ids) (auto simp: dict_list_def dict_get_def)
  have lst: "dict_list (fold ?f es (map (\<lambda>i. (i, [])) ids)) i =
      map ge_target_id (filter (\<lambda>e. ge_edge_type e = t \<and> ge_source_id e \<in> set ids \<and> ge_target_id e \<in> set ids \<and> ge_source_id e = i) es)" for es i
    by (induction es rule: rev_induct) (auto simp: init dict_list_set)
  have "dict_list (cy_adjacency g t ids) i =
      map ge_target_id (filter (\<lambda>e. ge_edge_type e = t \<and> ge_source_id e \<in> set ids \<and> ge_target_id e \<in> set ids \<and> ge_source_id e = i) (edges g))" for i
    unfolding cy_adjacency_def by (rule lst)
  then have "adj_rel (cy_adjacency g t ids) =
      {(ge_source_id e, ge_target_id e) |e. e \<in> set (edges g) \<and> ge_edge_type e = t \<and> ge_source_id e \<in> set ids \<and> ge_target_id e \<in> set ids}"
    by (auto simp: adj_rel_def)
  then show ?thesis using edge_ends[OF assms(1)] assms(2) by (auto simp: edge_rel_def)
qed

text \<open>On a well-formed graph and for every iteration order of the node set, each reported list is a cycle of edges of the
  type, and the report is empty exactly when these edges have no cycle.\<close>

lemma detect_cycles_spec:
  assumes "graph_wf g" "set ids = set (node_ids g)"
  shows "(\<forall>c \<in> set (detect_cycles g t ids). is_cycle (type_rel g t) c)
    \<and> (detect_cycles g t ids = [] \<longleftrightarrow> acyclic (type_rel g t))"
proof -
  let ?adj = "cy_adjacency g t ids"
  define st where "st = fold (\<lambda>n st. if n \<notin> cy_visited st then cy_dfs ?adj n st else st) ids
       \<lparr>cy_cycles = [], cy_visited = {}, cy_rec_stack = {}, cy_path = []\<rparr>"
  have E: "adj_rel ?adj = type_rel g t" using adj_rel_cy_adjacency[OF assms] .
  have st: "cy_idle ?adj st" "set ids \<subseteq> cy_visited st"
    using cy_fold_idle[of ?adj "\<lparr>cy_cycles = [], cy_visited = {}, cy_rec_stack = {}, cy_path = []\<rparr>" ids]
    by (auto simp: st_def cy_idle_def clean_def)
  have "acyclic (type_rel g t)" if "cy_cycles st = []"
  proof (rule acyclicI, rule allI, rule notI)
    fix x assume x: "(x, x) \<in> (type_rel g t)\<^sup>+"
    then have "x \<in> set ids" using edge_rel_nodes[OF assms(1)] assms(2) by (auto elim: tranclE)
    then show False using x st that E by (auto simp: cy_idle_def clean_def)
  qed
  moreover have "\<forall>c \<in> set (cy_cycles st). is_cycle (type_rel g t) c" using st(1) E by (simp add: cy_idle_def)
  ultimately show ?thesis using is_cycle_cyclic unfolding detect_cycles_def st_def[symmetric]
    by (metis list.set_intros(1) neq_Nil_conv)
qed

text \<open>C15. Topological sort and cycle detection agree on every well-formed graph, whatever the order in which the node set is iterated: either nothing is
  reported and the sort returns all nodes, each once and behind those with an edge to it, or there are reports, each of them a
  cycle of edges of the type, and the sort raises \<open>ValueError\<close>.\<close>

theorem sort_or_cycles:
  assumes "graph_wf g" "set ids = set (node_ids g)"
  shows "(detect_cycles g t ids = [] \<and> (\<exists>xs. topological_sort g t = Inr xs \<and> set xs = set (nodes g) \<and> topological (type_rel g t) (map gn_id xs)))
    \<or> (\<exists>c cs. detect_cycles g t ids = c # cs \<and> list_all (is_cycle (type_rel g t)) (c # cs)
       \<and> topological_sort g t = Inl (ValueError ''Cycle detected in dependency graph''))"
proof (cases "acyclic (type_rel g t)")
  case True
  then show ?thesis using detect_cycles_spec[OF assms, of t] topological_sort_spec[OF assms(1), of t] by auto
next
  case False
  then have "detect_cycles g t ids \<noteq> []" using detect_cycles_spec[OF assms, of t] by blast
  then obtain c cs where "detect_cycles g t ids = c # cs" by (cases "detect_cycles g t ids") auto
  then show ?thesis using False detect_cycles_spec[OF assms, of t] topological_sort_spec[OF assms(1), of t]
    by (auto simp: list_all_iff)
qed

text \<open>Two services that depend on each other.\<close>

definition cyclic_graph :: typed_graph where
  "cyclic_graph = graph_of [service_node ''a'', service_node ''b''] [dependency ''e1'' ''a'' ''b'', dependency ''e2'' ''b'' ''a'']"

theorem sort_or_cycles_witness:
  "topological_sort cyclic_graph E_DEPENDS_ON = Inl (ValueError ''Cycle detected in dependency graph'')"
proof -
  have wf: "graph_wf cyclic_graph" "set [''a'', ''b''] = set (node_ids cyclic_graph)"
    by (simp_all add: cyclic_graph_def parts_ok_def service_node_def dependency_def node_ids_def)
  have e: "(''a'', ''b'') \<in> type_rel cyclic_graph E_DEPENDS_ON" "(''b'', ''a'') \<in> type_rel cyclic_graph E_DEPENDS_ON"
    by (rule edge_relI[of "dependency ''e1'' ''a'' ''b''"]; simp add: cyclic_graph_def dependency_def)
      (rule edge_relI[of "dependency ''e2'' ''b'' ''a''"]; simp add: cyclic_graph_def dependency_def)
  have none: "\<not> topological (type_rel cyclic_graph E_DEPENDS_ON) xs" if "set xs = set (node_ids cyclic_graph)" for xs
  proof
    assume "topological (type_rel cyclic_graph E_DEPENDS_ON) xs"
    then have "acyclic (type_rel cyclic_graph E_DEPENDS_ON)"
      by (rule topological_acyclic) (use that edge_rel_nodes[OF wf(1)] in auto)
    then show False using trancl_trans[OF r_into_trancl[OF e(1)] r_into_trancl[OF e(2)]] by (simp add: acyclic_def)
  qed
  have "\<not> topological (type_rel cyclic_graph E_DEPENDS_ON) (map gn_id xs)" if "set xs = set (nodes cyclic_graph)" for xs
    using none[of "map gn_id xs"] that by (simp add: node_ids_def)
  then show ?thesis using sort_or_cycles[OF wf, of E_DEPENDS_ON] by blast
qed

end
