(* ===== verification/Isr_Paths.thy ===== *)
theory Isr_Paths
  imports Isr_Cycles
begin

text \<open>
  Correctness of the path search of \<^verbatim>\<open>constitutional_architecture/isr/graph/traversal.py\<close>: it always returns, with a walk from
  source to target when there is one and with \<open>None\<close> otherwise. The pointers of nodes that wait in the queue are
  overwritten, so the walk need not be a shortest one.
\<close>

section \<open>Parent pointers\<close>

text \<open>A node's pointers lead back to the source over visited nodes, along edges.\<close>

inductive trail :: "('a \<times> 'a) set \<Rightarrow> 'a \<Rightarrow> 'a set \<Rightarrow> ('a, 'a option) dict \<Rightarrow> 'a \<Rightarrow> 'a list \<Rightarrow> bool" for R s V parent where
  source: "dict_get parent s = Some None \<Longrightarrow> trail R s V parent s [s]"
| pointer: "trail R s V parent y p \<Longrightarrow> y \<in> V \<Longrightarrow> (y, x) \<in> R \<Longrightarrow> dict_get parent x = Some (Some y) \<Longrightarrow> x \<notin> set p
    \<Longrightarrow> trail R s V parent x (p @ [x])"

lemma trail_walk: "trail R s V parent x p \<Longrightarrow> p \<noteq> [] \<and> hd p = s \<and> last p = x \<and> distinct p \<and> walk R p \<and> set p \<subseteq> insert x V"
  by (induction rule: trail.induct) (auto simp: walk_snoc)

lemma walk_parents_trail: "trail R s V parent x p \<Longrightarrow> walk_parents parent x acc = Some (Inr (p @ rev acc))"
  by (induction arbitrary: acc rule: trail.induct) (subst walk_parents.simps, simp)+

text \<open>Pointers outside the trail may change.\<close>

lemma trail_update:
  "trail R s V parent x p \<Longrightarrow> V \<subseteq> W \<Longrightarrow> (\<And>y. y \<in> insert x V \<Longrightarrow> dict_get parent' y = dict_get parent y) \<Longrightarrow> trail R s W parent' x p"
proof (induction rule: trail.induct)
  case (pointer y p x)
  have "trail R s W parent' y p" using pointer.IH pointer.prems pointer.hyps(2) by auto
  then show ?case using pointer by (intro trail.pointer) auto
qed (auto intro: trail.source)

lemma fold_pointers:
  "dict_get (fold (\<lambda>t. dict_set t v) ts parent) x = (if x \<in> set ts then Some v else dict_get parent x)"
  by (induction ts arbitrary: parent) (auto simp: dict.lookup_put)

section \<open>The search\<close>

definition path_inv :: "('a \<times> 'a) set \<Rightarrow> 'a \<Rightarrow> 'a \<Rightarrow> 'a list \<Rightarrow> 'a set \<Rightarrow> ('a, 'a option) dict \<Rightarrow> bool" where
  "path_inv R s target q V parent \<longleftrightarrow> target \<notin> V \<and> (V = {} \<and> q = [s] \<or> s \<in> V) \<and> R `` V \<subseteq> V \<union> set q
     \<and> (\<forall>x \<in> V \<union> set q. \<exists>p. trail R s V parent x p)"

lemma path_inv_visit:
  assumes inv: "path_inv R s target (n # q) V parent" and n: "n \<notin> V" "n \<noteq> target"
    and ts: "set ts = R `` {n} - insert n V"
  shows "path_inv R s target (q @ ts) (insert n V) (fold (\<lambda>t. dict_set t (Some n)) ts parent)"
proof -
  let ?parent = "fold (\<lambda>t. dict_set t (Some n)) ts parent"
  have keep: "trail R s (insert n V) ?parent x p" if "trail R s V parent x p" "x \<notin> set ts" for x p
    using that(1) by (rule trail_update) (use that(2) ts in \<open>auto simp: fold_pointers\<close>)
  have old: "\<exists>p. trail R s V parent x p" if "x \<in> insert n (V \<union> set q)" for x using inv that by (auto simp: path_inv_def)
  obtain p where p: "trail R s (insert n V) ?parent n p" using old[of n] keep[of n] ts by auto
  then have "set p \<subseteq> insert n V" using trail_walk by fastforce
  then have "trail R s (insert n V) ?parent x (p @ [x])" if "x \<in> set ts" for x
    using trail.pointer[OF p, of x] that ts by (auto simp: fold_pointers)
  then have "\<exists>p. trail R s (insert n V) ?parent x p" if "x \<in> insert n V \<union> set (q @ ts)" for x
    using that old[of x] keep[of x] by (cases "x \<in> set ts") auto
  then show ?thesis using inv n ts by (auto simp: path_inv_def)
qed

lemma find_path_loop_returns:
  assumes "graph_wf g" "path_inv (filter_rel g f) s target q V parent"
  shows "\<exists>r. find_path_loop g f target q V parent = Some (Inr r) \<and>
    (case r of None \<Rightarrow> (s, target) \<notin> (filter_rel g f)\<^sup>*
     | Some p \<Rightarrow> p \<noteq> [] \<and> hd p = s \<and> last p = target \<and> distinct p \<and> walk (filter_rel g f) p)"
  using assms
proof (induction g f target q V parent rule: find_path_loop.induct)
  case (1 g f target V parent)
  then have "s \<in> V" "target \<notin> V" "filter_rel g f `` V \<subseteq> V" by (auto simp: path_inv_def)
  moreover have "(s, x) \<in> (filter_rel g f)\<^sup>* \<Longrightarrow> s \<in> V \<Longrightarrow> x \<in> V" for x
    by (induction rule: rtrancl_induct) (use calculation in auto)
  ultimately show ?case by auto
next
  case (2 g f target n q V parent)
  consider "n = target" | "n \<noteq> target" "n \<in> V" | "n \<noteq> target" "n \<notin> V" by blast
  then show ?case
  proof cases
    case 1
    then obtain p where "trail (filter_rel g f) s V parent target p" using "2.prems"(2) by (auto simp: path_inv_def)
    then show ?thesis using 1 walk_parents_trail[of _ _ _ _ _ p "[]"] trail_walk by fastforce
  next
    case 2
    then have "path_inv (filter_rel g f) s target q V parent" using "2.prems"(2) by (auto simp: path_inv_def)
    then show ?thesis using "2.IH"(1)[OF 2 "2.prems"(1)] 2 by simp
  next
    case 3
    let ?es = "filter (\<lambda>e. ge_source_id e = n) (edges g)"
    let ?ts = "map ge_target_id (filter (\<lambda>e. edge_passes f e \<and> ge_target_id e \<notin> insert n V) ?es)"
    have out: "get_outgoing_edges g n = Inr ?es" using get_outgoing_edges_wf[OF "2.prems"(1)] .
    have ts: "set ?ts = filter_rel g f `` {n} - insert n V" unfolding filter_rel_targets by auto
    show ?thesis using "2.IH"(2)[OF 3 out refl "2.prems"(1) path_inv_visit[OF "2.prems"(2) 3(2,1) ts]] 3 out by (simp add: Let_def)
  qed
qed

text \<open>C16. The path search returns on every well-formed graph: a walk without repetitions from the source to the target along edges that pass
  the filter when there is one, \<open>None\<close> when there is none.\<close>

theorem find_path_spec:
  assumes "graph_wf g"
  shows "if (source_id, target_id) \<in> (edge_rel g (edge_passes f))\<^sup>*
    then \<exists>p. find_path g source_id target_id f = Some (Inr (Some p)) \<and> p \<noteq> [] \<and> hd p = source_id \<and> last p = target_id
           \<and> distinct p \<and> walk (edge_rel g (edge_passes f)) p
    else find_path g source_id target_id f = Some (Inr None)"
proof -
  have "path_inv (filter_rel g f) source_id target_id [source_id] {} [(source_id, None)]"
    using trail.source[of "[(source_id, None)]" source_id] by (auto simp: path_inv_def dict_get_def)
  from find_path_loop_returns[OF assms this] obtain r where r: "find_path g source_id target_id f = Some (Inr r)"
    "case r of None \<Rightarrow> (source_id, target_id) \<notin> (filter_rel g f)\<^sup>*
     | Some p \<Rightarrow> p \<noteq> [] \<and> hd p = source_id \<and> last p = target_id \<and> distinct p \<and> walk (filter_rel g f) p"
    unfolding find_path_def by blast
  have "(hd p, last p) \<in> (filter_rel g f)\<^sup>*" if "walk (filter_rel g f) p" "p \<noteq> []" for p
    using that walk_trancl[of "filter_rel g f" p] by (cases "tl p"; cases p) (auto intro: trancl_into_rtrancl)
  then show ?thesis using r by (cases r) auto
qed

theorem find_path_spec_witness:
  "\<exists>p. find_path sample_graph ''a'' ''b'' None = Some (Inr (Some p)) \<and> hd p = ''a'' \<and> last p = ''b''"
proof -
  have e: "(''a'', ''b'') \<in> edge_rel sample_graph (edge_passes None)"
    by (rule edge_relI[of "dependency ''e1'' ''a'' ''b''"]; simp add: sample_graph_def dependency_def edge_passes_def)
  show ?thesis using find_path_spec[OF sample_graph_wf, of "''a''" "''b''" None] unfolding if_P[OF r_into_rtrancl[OF e]] by blast
qed

end
