(* ===== verification/Isr_Validation.thy ===== *)
theory Isr_Validation
  imports Isr_Types Isr_Paths
begin

text \<open>
  Validation of the representation (\<^verbatim>\<open>constitutional_architecture/isr/validation/\<close>: \<^verbatim>\<open>diagnostics.py\<close>, \<^verbatim>\<open>invariants.py\<close>,
  \<^verbatim>\<open>rules.py\<close>, \<^verbatim>\<open>validator.py\<close>). A check returns a result with diagnostics, or the exception of a graph whose index is
  broken or whose attributes have unexpected types. The arrow of the messages is its UTF-8 encoding. \<open>ids\<close> is the set of node
  identifiers in the order in which cycle detection iterates it.
\<close>

section \<open>Diagnostics\<close>

datatype diagnostic_severity = DS_INFO | DS_WARNING | DS_ERROR | DS_FATAL

definition is_error_or_above :: "diagnostic_severity \<Rightarrow> bool" where
  "is_error_or_above s \<longleftrightarrow> s \<in> {DS_ERROR, DS_FATAL}"

record diagnostic_location =
  dl_node_id :: string
  dl_node_type :: string
  dl_path :: string
  dl_edge_id :: "string option"

record diagnostic =
  dg_code :: string
  dg_message :: string
  dg_severity :: diagnostic_severity
  dg_location :: diagnostic_location
  dg_suggested_fix :: string
  dg_related_nodes :: "string list"
  dg_documentation_url :: string

definition DiagnosticLocation :: "string \<Rightarrow> string \<Rightarrow> string \<Rightarrow> string option \<Rightarrow> diagnostic_location" where
  "DiagnosticLocation n t p e = \<lparr>dl_node_id = n, dl_node_type = t, dl_path = p, dl_edge_id = e\<rparr>"

definition Diagnostic :: "string \<Rightarrow> string \<Rightarrow> diagnostic_severity \<Rightarrow> diagnostic_location \<Rightarrow> string \<Rightarrow> diagnostic" where
  "Diagnostic code message severity location fix_text = \<lparr>dg_code = code, dg_message = message, dg_severity = severity,
     dg_location = location, dg_suggested_fix = fix_text, dg_related_nodes = [], dg_documentation_url = []\<rparr>"

lemma Diagnostic_severity [simp]: "dg_severity (Diagnostic c m s l f) = s"
  by (simp add: Diagnostic_def)

section \<open>Invariants\<close>

record invariant_result =
  iv_name :: string
  iv_passed :: bool
  iv_diagnostics :: "diagnostic list"

text \<open>\<open>InvariantResult(name, len(diagnostics) == 0, tuple(diagnostics))\<close>\<close>

definition by_diagnostics :: "string \<Rightarrow> diagnostic list \<Rightarrow> invariant_result" where
  "by_diagnostics name ds = \<lparr>iv_name = name, iv_passed = (length ds = 0), iv_diagnostics = ds\<rparr>"

definition arrow :: string where
  "arrow = [CHR '' '', char_of (226 :: nat), char_of (134 :: nat), char_of (146 :: nat), CHR '' '']"

definition check_dependency_acyclicity :: "typed_graph \<Rightarrow> string list \<Rightarrow> invariant_result" where
  "check_dependency_acyclicity g ids =
     (let cycles = detect_cycles g E_DEPENDS_ON ids
      in if cycles \<noteq> [] then
           \<lparr>iv_name = ''dependency_acyclicity'', iv_passed = False,
            iv_diagnostics = map (\<lambda>c. Diagnostic ''ISR-INV-001'' (''Circular dependency detected: '' @ join arrow c) DS_ERROR
              (DiagnosticLocation (hd c) [] (join arrow c) None)
              ''Break the cycle by introducing an interface, extracting a shared module, or using event-driven communication.'')
              cycles\<rparr>
         else \<lparr>iv_name = ''dependency_acyclicity'', iv_passed = True, iv_diagnostics = []\<rparr>)"

type_synonym label_key = "string \<times> node_type \<times> string option"

definition label_key :: "graph_node \<Rightarrow> label_key" where
  "label_key n = (lower (gn_label n), gn_node_type n, gn_parent_id n)"

fun unique_loop :: "graph_node list \<Rightarrow> (label_key, string) dict \<Rightarrow> diagnostic list" where
  "unique_loop [] seen = []"
| "unique_loop (n # ns) seen =
     (if dict_in (label_key n) seen \<and> gn_label n \<noteq> [] then
        Diagnostic ''ISR-INV-002''
          (''Duplicate '' @ node_type_value (gn_node_type n) @ '' '' @ quoted (gn_label n) @ '' (IDs: ''
            @ quoted (the (dict_get seen (label_key n))) @ '' and '' @ quoted (gn_id n) @ '')'')
          DS_ERROR (DiagnosticLocation (gn_id n) (node_type_value (gn_node_type n)) [] None)
          ''Rename one of the duplicate nodes or merge them.''
        # unique_loop ns seen
      else unique_loop ns (dict_set (label_key n) (gn_id n) seen))"

definition check_unique_identifiers :: "typed_graph \<Rightarrow> invariant_result" where
  "check_unique_identifiers g = by_diagnostics ''unique_identifiers'' (unique_loop (nodes g) [])"

definition dangling :: "typed_graph \<Rightarrow> graph_edge \<Rightarrow> string \<Rightarrow> string \<Rightarrow> diagnostic list" where
  "dangling g e side i =
     (if i \<in> set (node_ids g) then []
      else [Diagnostic ''ISR-INV-003'' (''Edge '' @ quoted (ge_id e) @ '' references non-existent '' @ side @ '' '' @ quoted i)
        DS_ERROR (DiagnosticLocation [] [] [] (Some (ge_id e))) []])"

definition check_referential_integrity :: "typed_graph \<Rightarrow> invariant_result" where
  "check_referential_integrity g = by_diagnostics ''referential_integrity''
     (concat (map (\<lambda>e. dangling g e ''source'' (ge_source_id e) @ dangling g e ''target'' (ge_target_id e)) (edges g)))"

text \<open>The nodes that breadth-first search reaches from one of the given states along transitions.\<close>

definition transition_filter :: "(graph_edge \<Rightarrow> bool) option" where
  "transition_filter = Some (\<lambda>e. ge_edge_type e = E_TRANSITIONS_TO)"

fun reachable_loop :: "typed_graph \<Rightarrow> graph_node list \<Rightarrow> string set \<Rightarrow> py_exn + string set" where
  "reachable_loop g [] reachable = Inr reachable"
| "reachable_loop g (s # ss) reachable =
     (case bfs g (gn_id s) transition_filter of
        Inl exn \<Rightarrow> Inl exn
      | Inr visited \<Rightarrow> reachable_loop g ss (reachable \<union> gn_id ` set visited))"

definition states_of :: "typed_graph \<Rightarrow> graph_node \<Rightarrow> graph_node list" where
  "states_of g wn = filter (\<lambda>n. gn_node_type n = N_STATE \<and> gn_parent_id n = Some (gn_id wn)) (nodes g)"

definition is_initial :: "graph_node \<Rightarrow> bool" where
  "is_initial s \<longleftrightarrow> dict_get (gn_attributes s) ''state_type'' = Some (PStr ''initial'')"

definition no_initial_state :: "graph_node \<Rightarrow> diagnostic" where
  "no_initial_state wn = Diagnostic ''ISR-INV-004'' (''Workflow '' @ quoted (gn_label wn) @ '' has no initial state'') DS_ERROR
     (DiagnosticLocation (gn_id wn) ''workflow'' (gn_label wn) None) (''Add a state with state_type='' @ quoted ''initial'' @ ''.'')"

definition unreachable_state :: "graph_node \<Rightarrow> graph_node \<Rightarrow> diagnostic" where
  "unreachable_state wn s = Diagnostic ''ISR-INV-004''
     (''State '' @ quoted (gn_label s) @ '' in workflow '' @ quoted (gn_label wn) @ '' is not reachable from any initial state'')
     DS_WARNING (DiagnosticLocation (gn_id s) ''state'' (gn_label wn @ '' > '' @ gn_label s) None)
     ''Add a transition to this state or remove it.''"

definition check_workflow :: "typed_graph \<Rightarrow> graph_node \<Rightarrow> py_exn + diagnostic list" where
  "check_workflow g wn =
     (let states = states_of g wn; initial = filter is_initial states
      in if states = [] then Inr []
         else if initial = [] then Inr [no_initial_state wn]
         else (case reachable_loop g initial {} of
                 Inl exn \<Rightarrow> Inl exn
               | Inr reachable \<Rightarrow> Inr (map (unreachable_state wn) (filter (\<lambda>s. gn_id s \<notin> reachable) states))))"

text \<open>\<open>for x in xs: diagnostics.extend(...)\<close>, up to the first exception.\<close>

fun collect :: "('a \<Rightarrow> py_exn + 'b list) \<Rightarrow> 'a list \<Rightarrow> py_exn + 'b list" where
  "collect f [] = Inr []"
| "collect f (x # xs) =
     (case f x of
        Inl exn \<Rightarrow> Inl exn
      | Inr ys \<Rightarrow> map_sum id ((@) ys) (collect f xs))"

definition check_workflow_reachability :: "typed_graph \<Rightarrow> py_exn + invariant_result" where
  "check_workflow_reachability g =
     map_sum id (by_diagnostics ''workflow_reachability'') (collect (check_workflow g) (get_nodes_by_type g N_WORKFLOW))"

text \<open>\<open>for perm in required_perms\<close> over a value of any type; \<open>str(perm)\<close> for a hashable value.\<close>

fun iterate :: "pyval \<Rightarrow> py_exn + pyval list" where
  "iterate (PList xs) = Inr xs"
| "iterate (PStr s) = Inr (map (\<lambda>c. PStr [c]) s)"
| "iterate (PDict d) = Inr (map (PStr \<circ> fst) d)"
| "iterate _ = Inl (TypeError ''object is not iterable'')"

fun str_atom :: "pyval \<Rightarrow> string" where
  "str_atom (PStr s) = s"
| "str_atom (PInt i) = str_of_int i"
| "str_atom (PFloat x) = float_repr x"
| "str_atom (PBool b) = (if b then ''True'' else ''False'')"
| "str_atom _ = ''None''"

definition undefined_permission :: "graph_node \<Rightarrow> string \<Rightarrow> diagnostic" where
  "undefined_permission n perm = Diagnostic ''ISR-INV-005''
     (''Endpoint '' @ quoted (gn_label n) @ '' references undefined permission '' @ quoted perm) DS_ERROR
     (DiagnosticLocation (gn_id n) ''endpoint'' (gn_label n) None) (''Define permission '' @ quoted perm @ '' in a Policy.'')"

definition check_permission :: "string set \<Rightarrow> graph_node \<Rightarrow> pyval \<Rightarrow> py_exn + diagnostic list" where
  "check_permission defined n perm =
     (if \<not> hashable perm then Inl (TypeError ''unhashable type'')
      else Inr (if \<exists>p \<in> defined. perm = PStr p then [] else [undefined_permission n (str_atom perm)]))"

definition check_endpoint :: "string set \<Rightarrow> graph_node \<Rightarrow> py_exn + diagnostic list" where
  "check_endpoint defined n =
     (case iterate (get_or (gn_attributes n) ''required_permissions'' (PList [])) of
        Inl exn \<Rightarrow> Inl exn
      | Inr perms \<Rightarrow> collect (check_permission defined n) perms)"

definition defined_permissions :: "typed_graph \<Rightarrow> string set" where
  "defined_permissions g = gn_label ` set (get_nodes_by_type g N_PERMISSION)"

definition check_permission_consistency :: "typed_graph \<Rightarrow> py_exn + invariant_result" where
  "check_permission_consistency g = map_sum id (by_diagnostics ''permission_consistency'')
     (collect (check_endpoint (defined_permissions g)) (get_nodes_by_type g N_ENDPOINT))"

definition owned_entities :: "typed_graph \<Rightarrow> graph_node \<Rightarrow> py_exn + graph_edge list" where
  "owned_entities g m =
     map_sum id (filter (\<lambda>e. ge_edge_type e = E_OWNS
         \<and> (case get_node g (ge_target_id e) of None \<Rightarrow> False | Some t \<Rightarrow> gn_node_type t = N_ENTITY)))
       (get_outgoing_edges g (gn_id m))"

definition check_module :: "typed_graph \<Rightarrow> graph_node \<Rightarrow> py_exn + diagnostic list" where
  "check_module g m =
     map_sum id (\<lambda>es. if es = [] then
         [Diagnostic ''ISR-INV-006'' (''Module '' @ quoted (gn_label m) @ '' owns no entities'') DS_WARNING
            (DiagnosticLocation (gn_id m) ''module'' (gn_label m) None) ''Add entities to this module or reconsider its purpose.'']
         else []) (owned_entities g m)"

definition check_module_has_entities :: "typed_graph \<Rightarrow> py_exn + invariant_result" where
  "check_module_has_entities g =
     map_sum id (\<lambda>ds. \<lparr>iv_name = ''module_has_entities'', iv_passed = True, iv_diagnostics = ds\<rparr>)
       (collect (check_module g) (get_nodes_by_type g N_MODULE))"

definition check_all :: "typed_graph \<Rightarrow> string list \<Rightarrow> py_exn + invariant_result list" where
  "check_all g ids =
     collect (map_sum id (\<lambda>r. [r]))
       [Inr (check_dependency_acyclicity g ids), Inr (check_unique_identifiers g), Inr (check_referential_integrity g),
        check_workflow_reachability g, check_permission_consistency g, check_module_has_entities g]"

section \<open>Rules\<close>

record rule_result =
  rr_rule_name :: string
  rr_passed :: bool
  rr_diagnostics :: "diagnostic list"

text \<open>A rule is its \<open>check\<close> method.\<close>

type_synonym validation_rule = "typed_graph \<Rightarrow> py_exn + rule_result"

definition CrossModuleReferenceRule :: validation_rule where
  "CrossModuleReferenceRule g = Inr \<lparr>rr_rule_name = ''cross_module_reference'', rr_passed = True, rr_diagnostics = []\<rparr>"

definition DeploymentCompletenessRule :: validation_rule where
  "DeploymentCompletenessRule g = Inr \<lparr>rr_rule_name = ''deployment_completeness'', rr_passed = True, rr_diagnostics = []\<rparr>"

definition insecure_interface :: "graph_node \<Rightarrow> diagnostic" where
  "insecure_interface n = Diagnostic ''ISR-SEC-001'' (''Public interface '' @ quoted (gn_label n) @ '' has no security policy'') DS_WARNING
     (DiagnosticLocation (gn_id n) ''interface'' (gn_label n) None) ''Add a SECURED_BY edge to a Policy node.''"

definition check_interface :: "typed_graph \<Rightarrow> graph_node \<Rightarrow> py_exn + diagnostic list" where
  "check_interface g n =
     (if truthy (get_or (gn_attributes n) ''is_internal'' (PBool False)) then Inr []
      else map_sum id (\<lambda>es. if \<exists>e \<in> set es. ge_edge_type e = E_SECURED_BY then []
          else [insecure_interface n])
        (get_outgoing_edges g (gn_id n)))"

definition InterfaceSecurityRule :: validation_rule where
  "InterfaceSecurityRule g =
     map_sum id (\<lambda>ds. \<lparr>rr_rule_name = ''interface_security'', rr_passed = (length ds = 0), rr_diagnostics = ds\<rparr>)
       (collect (check_interface g) (get_nodes_by_type g N_INTERFACE))"

section \<open>The validator\<close>

record validation_result =
  vr_is_valid :: bool
  vr_type_check :: type_check_result
  vr_invariant_results :: "invariant_result list"
  vr_rule_results :: "rule_result list"
  vr_diagnostics :: "diagnostic list"

definition violation_diagnostic :: "type_violation \<Rightarrow> diagnostic" where
  "violation_diagnostic v = Diagnostic ''ISR-TYPE-001'' (tv_message v) DS_ERROR
     (DiagnosticLocation (tv_source_id v) (node_type_value (tv_source_type v)) [] None) (tv_suggested_fix v)"

definition all_diagnostics :: "validation_result \<Rightarrow> diagnostic list" where
  "all_diagnostics r = vr_diagnostics r @ concat (map iv_diagnostics (vr_invariant_results r))
     @ concat (map rr_diagnostics (vr_rule_results r)) @ map violation_diagnostic (tc_violations (vr_type_check r))"

definition result_errors :: "validation_result \<Rightarrow> diagnostic list" where
  "result_errors r = filter (\<lambda>d. dg_severity d = DS_ERROR) (all_diagnostics r)"

definition result_warnings :: "validation_result \<Rightarrow> diagnostic list" where
  "result_warnings r = filter (\<lambda>d. dg_severity d = DS_WARNING) (all_diagnostics r)"

definition validate ::
  "(node_type set \<Rightarrow> node_type list) \<Rightarrow> validation_rule list \<Rightarrow> typed_graph \<Rightarrow> string list \<Rightarrow> py_exn + validation_result" where
  "validate order_of rules g ids =
     (let type_result = type_check order_of g
      in case check_all g ids of
           Inl exn \<Rightarrow> Inl exn
         | Inr invs \<Rightarrow>
             (case collect (\<lambda>rule. map_sum id (\<lambda>r. [r]) (rule g)) rules of
                Inl exn \<Rightarrow> Inl exn
              | Inr rrs \<Rightarrow>
                  Inr \<lparr>vr_is_valid = (tc_is_valid type_result \<and> (\<forall>r \<in> set invs. iv_passed r) \<and> (\<forall>r \<in> set rrs. rr_passed r)),
                    vr_type_check = type_result, vr_invariant_results = invs, vr_rule_results = rrs, vr_diagnostics = []\<rparr>))"

section \<open>What the checks establish\<close>

lemma collect_total: "(\<And>x. x \<in> set xs \<Longrightarrow> f x = Inr (h x)) \<Longrightarrow> collect f xs = Inr (concat (map h xs))"
  by (induction xs) auto

lemma acyclicity_passed:
  assumes "graph_wf g" "set ids = set (node_ids g)"
  shows "iv_passed (check_dependency_acyclicity g ids) \<longleftrightarrow> acyclic (type_rel g E_DEPENDS_ON)"
  using detect_cycles_spec[OF assms, of E_DEPENDS_ON] by (simp add: check_dependency_acyclicity_def Let_def)

text \<open>Named nodes of one type under one parent have different names, up to case.\<close>

definition unique_labels :: "typed_graph \<Rightarrow> bool" where
  "unique_labels g \<longleftrightarrow> distinct (map label_key (filter (\<lambda>n. gn_label n \<noteq> []) (nodes g)))"

lemma label_key_empty: "label_key m = label_key n \<Longrightarrow> gn_label m = [] \<longleftrightarrow> gn_label n = []"
  by (auto simp: label_key_def lower_def)

lemma unique_loop_Nil:
  "unique_loop ns seen = [] \<longleftrightarrow> distinct (map label_key (filter (\<lambda>n. gn_label n \<noteq> []) ns))
     \<and> (\<forall>n \<in> set ns. gn_label n \<noteq> [] \<longrightarrow> \<not> dict_in (label_key n) seen)"
proof (induction ns arbitrary: seen)
  case (Cons n ns)
  have key: "dict_in (label_key m) (dict_set (label_key n) (gn_id n) seen) \<longleftrightarrow> label_key m = label_key n \<or> dict_in (label_key m) seen" for m
    by (simp add: dict.has_key_put)
  consider "gn_label n = []" | "gn_label n \<noteq> []" "dict_in (label_key n) seen" | "gn_label n \<noteq> []" "\<not> dict_in (label_key n) seen" by blast
  then show ?case
  proof cases
    case 1
    then have "label_key m \<noteq> label_key n" if "gn_label m \<noteq> []" for m using that label_key_empty by blast
    then show ?thesis using 1 by (simp add: Cons.IH key)
  next
    case 3
    have "label_key n \<notin> label_key ` {m \<in> set ns. gn_label m \<noteq> []} \<longleftrightarrow> (\<forall>m \<in> set ns. gn_label m \<noteq> [] \<longrightarrow> label_key m \<noteq> label_key n)"
      by (force simp: image_iff)
    then show ?thesis using 3 by (simp add: Cons.IH key) blast
  qed simp
qed simp

lemma unique_passed: "iv_passed (check_unique_identifiers g) \<longleftrightarrow> unique_labels g"
  by (simp add: check_unique_identifiers_def by_diagnostics_def unique_loop_Nil unique_labels_def)

lemma integrity_passed: "graph_wf g \<Longrightarrow> check_referential_integrity g = by_diagnostics ''referential_integrity'' []"
  using edge_ends by (auto simp: check_referential_integrity_def by_diagnostics_def dangling_def)

text \<open>Every state of a workflow can be reached from an initial state of the workflow.\<close>

definition workflow_ok :: "typed_graph \<Rightarrow> graph_node \<Rightarrow> bool" where
  "workflow_ok g wn \<longleftrightarrow> (\<forall>s \<in> set (states_of g wn). \<exists>i \<in> set (states_of g wn). is_initial i
     \<and> (gn_id i, gn_id s) \<in> (type_rel g E_TRANSITIONS_TO)\<^sup>*)"

lemma reachable_loop_spec:
  assumes "graph_wf g"
  shows "reachable_loop g ss R = Inr (R \<union> {gn_id x |x. x \<in> set (nodes g) \<and> (\<exists>s \<in> set ss. (gn_id s, gn_id x) \<in> (type_rel g E_TRANSITIONS_TO)\<^sup>*)})"
proof (induction ss arbitrary: R)
  case (Cons s ss)
  have f: "edge_passes transition_filter = (\<lambda>e. ge_edge_type e = E_TRANSITIONS_TO)"
    by (rule ext) (simp add: transition_filter_def edge_passes_def)
  obtain xs where "bfs g (gn_id s) transition_filter = Inr xs"
    "set xs = {x \<in> set (nodes g). (gn_id s, gn_id x) \<in> (type_rel g E_TRANSITIONS_TO)\<^sup>*}"
    using bfs_visits_reachable[OF assms, of "gn_id s" transition_filter] unfolding f by blast
  then show ?case using Cons by (auto simp: image_def)
qed simp

lemma check_workflow_spec:
  assumes "graph_wf g"
  shows "\<exists>ds. check_workflow g wn = Inr ds \<and> (ds = [] \<longleftrightarrow> workflow_ok g wn)"
proof -
  let ?S = "states_of g wn"
  have sub: "set ?S \<subseteq> set (nodes g)" by (auto simp: states_of_def)
  show ?thesis
  proof (cases "?S = [] \<or> filter is_initial ?S = []")
    case True
    then show ?thesis by (cases "?S = []") (auto simp: check_workflow_def Let_def workflow_ok_def filter_empty_conv)
  next
    case False
    define Q where "Q = {gn_id x |x. x \<in> set (nodes g)
        \<and> (\<exists>i \<in> set (filter is_initial ?S). (gn_id i, gn_id x) \<in> (type_rel g E_TRANSITIONS_TO)\<^sup>*)}"
    have "workflow_ok g wn \<longleftrightarrow> (\<forall>s \<in> set ?S. gn_id s \<in> Q)" using sub by (fastforce simp: workflow_ok_def Q_def)
    moreover have "reachable_loop g (filter is_initial ?S) {} = Inr Q"
      unfolding reachable_loop_spec[OF assms] Q_def by simp
    ultimately show ?thesis using False by (simp add: check_workflow_def Let_def filter_empty_conv[of "\<lambda>s. gn_id s \<notin> Q"])
  qed
qed

lemma reachability_passed:
  assumes "graph_wf g"
  shows "\<exists>r. check_workflow_reachability g = Inr r
    \<and> (iv_passed r \<longleftrightarrow> (\<forall>wn \<in> set (get_nodes_by_type g N_WORKFLOW). workflow_ok g wn))"
proof -
  obtain h where h: "\<And>wn. check_workflow g wn = Inr (h wn) \<and> (h wn = [] \<longleftrightarrow> workflow_ok g wn)"
    using check_workflow_spec[OF assms] by metis
  then have "collect (check_workflow g) ws = Inr (concat (map h ws))" for ws by (intro collect_total) simp
  then show ?thesis using h by (simp add: check_workflow_reachability_def by_diagnostics_def)
qed

text \<open>The permissions that an endpoint requires, when they are given as a list of strings.\<close>

definition required_permissions :: "graph_node \<Rightarrow> string list option" where
  "required_permissions n = (case get_or (gn_attributes n) ''required_permissions'' (PList []) of
     PList ps \<Rightarrow> if \<forall>p \<in> set ps. \<exists>s. p = PStr s then Some (map str_atom ps) else None | _ \<Rightarrow> None)"

definition permissions_typed :: "typed_graph \<Rightarrow> bool" where
  "permissions_typed g \<longleftrightarrow> (\<forall>n \<in> set (get_nodes_by_type g N_ENDPOINT). required_permissions n \<noteq> None)"

definition permissions_ok :: "typed_graph \<Rightarrow> bool" where
  "permissions_ok g \<longleftrightarrow> (\<forall>n \<in> set (get_nodes_by_type g N_ENDPOINT). set (the (required_permissions n)) \<subseteq> defined_permissions g)"

lemma check_endpoint_spec:
  assumes "required_permissions n = Some ps"
  shows "check_endpoint D n = Inr (concat (map (\<lambda>p. if p \<in> D then [] else [undefined_permission n p]) ps))"
proof -
  obtain xs where xs: "get_or (gn_attributes n) ''required_permissions'' (PList []) = PList xs" "ps = map str_atom xs"
    "\<forall>p \<in> set xs. \<exists>s. p = PStr s" using assms by (auto simp: required_permissions_def split: pyval.splits if_splits)
  have "check_permission D n x = Inr (if str_atom x \<in> D then [] else [undefined_permission n (str_atom x)])" if x: "x \<in> set xs" for x
  proof -
    obtain q where "x = PStr q" using xs(3) x by blast
    then show ?thesis by (auto simp: check_permission_def)
  qed
  then have "collect (check_permission D n) xs = Inr (concat (map (\<lambda>x. if str_atom x \<in> D then [] else [undefined_permission n (str_atom x)]) xs))"
    by (rule collect_total)
  then show ?thesis using xs(1,2) by (simp add: check_endpoint_def comp_def)
qed

lemma permissions_passed:
  assumes "permissions_typed g"
  shows "\<exists>r. check_permission_consistency g = Inr r \<and> (iv_passed r \<longleftrightarrow> permissions_ok g)"
proof -
  let ?D = "defined_permissions g"
  have "collect (check_endpoint ?D) (get_nodes_by_type g N_ENDPOINT) =
      Inr (concat (map (\<lambda>n. concat (map (\<lambda>p. if p \<in> ?D then [] else [undefined_permission n p]) (the (required_permissions n))))
        (get_nodes_by_type g N_ENDPOINT)))"
    using assms by (intro collect_total check_endpoint_spec) (auto simp: permissions_typed_def)
  then show ?thesis by (auto simp: check_permission_consistency_def by_diagnostics_def permissions_ok_def split: if_splits)
qed

lemma modules_passed: "graph_wf g \<Longrightarrow> \<exists>r. check_module_has_entities g = Inr r \<and> iv_passed r"
proof -
  assume g: "graph_wf g"
  have "\<exists>ds. check_module g m = Inr ds" for m by (simp add: check_module_def owned_entities_def get_outgoing_edges_wf[OF g])
  then obtain h where "\<And>m. check_module g m = Inr (h m)" by metis
  then have "collect (check_module g) ms = Inr (concat (map h ms))" for ms by (intro collect_total)
  then show ?thesis by (simp add: check_module_has_entities_def)
qed

text \<open>What a valid graph is: well typed, without cyclic dependencies, unambiguous names, workflows whose states are
  reachable, and no permission that is required but not defined.\<close>

definition sound_architecture :: "typed_graph \<Rightarrow> bool" where
  "sound_architecture g \<longleftrightarrow> (\<forall>e \<in> set (edges g). edge_typed g e) \<and> acyclic (type_rel g E_DEPENDS_ON) \<and> unique_labels g
     \<and> (\<forall>wn \<in> set (get_nodes_by_type g N_WORKFLOW). workflow_ok g wn) \<and> permissions_ok g"

lemma validate_sound:
  assumes g: "graph_wf g" "set ids = set (node_ids g)" "permissions_typed g"
    and rules: "\<And>rule. rule \<in> set rules \<Longrightarrow> \<exists>r. rule g = Inr r"
  shows "\<exists>r. validate order_of rules g ids = Inr r
    \<and> (vr_is_valid r \<longleftrightarrow> sound_architecture g \<and> (\<forall>rule \<in> set rules. \<exists>rr. rule g = Inr rr \<and> rr_passed rr))"
proof -
  obtain r4 r5 r6 where r: "check_workflow_reachability g = Inr r4" "check_permission_consistency g = Inr r5" "check_module_has_entities g = Inr r6"
    "iv_passed r4 \<longleftrightarrow> (\<forall>wn \<in> set (get_nodes_by_type g N_WORKFLOW). workflow_ok g wn)" "iv_passed r5 \<longleftrightarrow> permissions_ok g" "iv_passed r6"
    using reachability_passed[OF g(1)] permissions_passed[OF g(3)] modules_passed[OF g(1)] by blast
  have "iv_passed (check_referential_integrity g)" by (simp add: integrity_passed g(1) by_diagnostics_def)
  moreover obtain h where h: "\<And>rule. rule \<in> set rules \<Longrightarrow> rule g = Inr (h rule)" using rules by metis
  moreover have "collect (\<lambda>rule. map_sum id (\<lambda>r. [r]) (rule g)) rules = Inr (concat (map (\<lambda>rule. [h rule]) rules))"
    by (rule collect_total) (simp add: h)
  moreover have "(\<forall>rule \<in> set rules. \<exists>rr. rule g = Inr rr \<and> rr_passed rr) \<longleftrightarrow> (\<forall>rule \<in> set rules. rr_passed (h rule))"
    by (intro ball_cong refl) (simp add: h)
  ultimately show ?thesis using r
    by (auto simp: validate_def Let_def check_all_def type_check_valid acyclicity_passed[OF g(1,2)] unique_passed sound_architecture_def)
qed

text \<open>C13. Validation of a well-formed graph whose permission lists are lists of strings always returns, and it accepts exactly the sound architectures that pass the
  configured rules: every edge typed, no cyclic dependency, no ambiguous name, every state of a workflow reachable from an initial
  one, every required permission defined. This holds for each order in which sets are iterated.\<close>

theorem validate_decides_soundness:
  assumes "graph_wf g" "set ids = set (node_ids g)" "permissions_typed g"
    and "\<And>rule. rule \<in> set rules \<Longrightarrow> \<exists>r. rule g = Inr r"
  shows "\<exists>r. validate order_of rules g ids = Inr r
    \<and> (vr_is_valid r \<longleftrightarrow> sound_architecture g \<and> (\<forall>rule \<in> set rules. \<exists>rr. rule g = Inr rr \<and> rr_passed rr))"
  by (rule validate_sound) (use assms in auto)

lemma sample_dependencies:
  "type_rel sample_graph E_DEPENDS_ON = {(''a'', ''b'')}" "acyclic (type_rel sample_graph E_DEPENDS_ON)"
proof -
  show "type_rel sample_graph E_DEPENDS_ON = {(''a'', ''b'')}" by (auto simp: edge_rel_def sample_graph_def dependency_def)
  then show "acyclic (type_rel sample_graph E_DEPENDS_ON)" by (simp add: acyclic_insert acyclicI)
qed

theorem validate_decides_soundness_witness:
  "\<exists>r. validate (\<lambda>_. []) [InterfaceSecurityRule] sample_graph [''b'', ''a''] = Inr r \<and> vr_is_valid r"
proof -
  have none: "get_nodes_by_type sample_graph t = []" if "t \<noteq> N_SERVICE" for t
    using that by (simp add: get_nodes_by_type_def sample_graph_def service_node_def)
  have rule: "InterfaceSecurityRule sample_graph = Inr \<lparr>rr_rule_name = ''interface_security'', rr_passed = True, rr_diagnostics = []\<rparr>"
    by (simp add: InterfaceSecurityRule_def none)
  note sample_dependencies(2)
  moreover have "\<forall>e \<in> set (edges sample_graph). edge_typed sample_graph e"
    by (simp add: sample_graph_def edge_typed_def get_node_of service_node_def dependency_def EDGE_DEFINITIONS_def dict_get_def
        def_is_valid_connection_def edge_definition_def)
  moreover have "unique_labels sample_graph"
    by (simp add: unique_labels_def sample_graph_def service_node_def label_key_def lower_def lower_char_def)
  ultimately have "sound_architecture sample_graph" by (simp add: sound_architecture_def permissions_ok_def none)
  then show ?thesis
    using validate_decides_soundness[OF sample_graph_wf, of "[''b'', ''a'']" "[InterfaceSecurityRule]" "\<lambda>_. []"] rule
    by (auto simp: node_ids_def sample_graph_def service_node_def permissions_typed_def none[unfolded sample_graph_def service_node_def])
qed

lemma map_sum_Inr:
  "map_sum f h s = Inr y \<longleftrightarrow> (\<exists>x. s = Inr x \<and> y = h x)" "Inr y = map_sum f h s \<longleftrightarrow> (\<exists>x. s = Inr x \<and> y = h x)"
  by (cases s; auto)+

lemma collect_from: "collect f xs = Inr ys \<Longrightarrow> y \<in> set ys \<Longrightarrow> \<exists>x \<in> set xs. \<exists>zs. f x = Inr zs \<and> y \<in> set zs"
  by (induction xs arbitrary: ys) (auto simp: map_sum_Inr split: sum.splits)

lemma check_all_quiet:
  assumes "check_all g ids = Inr invs" "x \<in> set invs" "iv_passed x" "d \<in> set (iv_diagnostics x)"
  shows "dg_severity d \<noteq> DS_ERROR"
proof -
  have "Inr x \<in> set [Inr (check_dependency_acyclicity g ids), Inr (check_unique_identifiers g), Inr (check_referential_integrity g),
        check_workflow_reachability g, check_permission_consistency g, check_module_has_entities g]"
    using collect_from[OF assms(1)[unfolded check_all_def] assms(2)] by (auto simp: map_sum_Inr split: sum.splits)
  moreover have "iv_diagnostics (by_diagnostics n ds) = ds" "iv_passed (by_diagnostics n ds) \<longleftrightarrow> ds = []" for n ds
    by (simp_all add: by_diagnostics_def)
  ultimately obtain ds where "collect (check_module g) (get_nodes_by_type g N_MODULE) = Inr ds" "d \<in> set ds"
    using assms(3,4) by (auto simp: check_dependency_acyclicity_def Let_def check_unique_identifiers_def check_referential_integrity_def
        check_workflow_reachability_def check_permission_consistency_def check_module_has_entities_def map_sum_Inr
        split: sum.splits if_splits)
  from collect_from[OF this] show ?thesis by (auto simp: check_module_def map_sum_Inr split: sum.splits if_splits)
qed

lemma shipped_rules_quiet:
  assumes "rule \<in> {CrossModuleReferenceRule, DeploymentCompletenessRule, InterfaceSecurityRule}" "rule g = Inr rr" "d \<in> set (rr_diagnostics rr)"
  shows "dg_severity d \<noteq> DS_ERROR"
proof -
  obtain ds where "collect (check_interface g) (get_nodes_by_type g N_INTERFACE) = Inr ds" "d \<in> set ds"
    using assms by (auto simp: CrossModuleReferenceRule_def DeploymentCompletenessRule_def InterfaceSecurityRule_def map_sum_Inr split: sum.splits)
  from collect_from[OF this] show ?thesis by (auto simp: check_interface_def insecure_interface_def map_sum_Inr split: sum.splits if_splits)
qed

text \<open>A graph that validation accepts under the shipped rules has no diagnostic of severity \<open>ERROR\<close>.\<close>

lemma valid_graph_has_no_errors:
  assumes "validate order_of rules g ids = Inr r" "vr_is_valid r"
    and "set rules \<subseteq> {CrossModuleReferenceRule, DeploymentCompletenessRule, InterfaceSecurityRule}"
  shows "result_errors r = []"
proof -
  obtain invs rrs where i: "check_all g ids = Inr invs" and rr: "collect (\<lambda>rule. map_sum id (\<lambda>r. [r]) (rule g)) rules = Inr rrs"
    and r: "r = \<lparr>vr_is_valid = True, vr_type_check = type_check order_of g, vr_invariant_results = invs, vr_rule_results = rrs, vr_diagnostics = []\<rparr>"
    and ok: "tc_is_valid (type_check order_of g)" "\<forall>x \<in> set invs. iv_passed x"
    using assms(1,2) by (auto simp: validate_def Let_def split: sum.splits)
  have "tc_violations (type_check order_of g) = []" using ok(1) by (simp add: type_check_def Let_def)
  moreover have "dg_severity d \<noteq> DS_ERROR" if x: "x \<in> set rrs" and d: "d \<in> set (rr_diagnostics x)" for x d
  proof -
    obtain rule where "rule \<in> set rules" "rule g = Inr x" using collect_from[OF rr x] by (auto simp: map_sum_Inr)
    then show ?thesis using shipped_rules_quiet[OF _ _ d] assms(3) by blast
  qed
  ultimately show ?thesis using check_all_quiet[OF i] ok(2) by (auto simp: r result_errors_def all_diagnostics_def filter_empty_conv)
qed

end
