(* ===== verification/Isr_Metrics.thy ===== *)
theory Isr_Metrics
  imports Isr_Validation
begin

text \<open>
  Architectural metrics (\<^verbatim>\<open>constitutional_architecture/isr/metrics/complexity.py\<close> and the counting metrics of
  \<^verbatim>\<open>isr/metrics/coupling.py\<close>). Counts are converted to floats by division, with the rounding of the hardware; they are far
  below the largest float. The dependency depth is shown to be the length of a longest chain of dependencies.
\<close>

section \<open>Complexity\<close>

definition graph_density :: "typed_graph \<Rightarrow> pyfloat" where
  "graph_density g =
     (let n = int (node_count g)
      in if n \<le> 1 then Fin 0
         else let max_edges = n * (n - 1)
              in if max_edges = 0 then Fin 0 else f_int_div (int (edges_count g)) max_edges)"

text \<open>The inner loop over the outgoing edges of a node.\<close>

definition depth_edge :: "string \<Rightarrow> graph_edge \<Rightarrow> (string, int) dict \<Rightarrow> (string, int) dict" where
  "depth_edge n e depth =
     (if ge_edge_type e = E_DEPENDS_ON \<and> dict_in (ge_target_id e) depth then
        dict_set (ge_target_id e) (max (the (dict_get depth (ge_target_id e))) (the (dict_get depth n) + 1)) depth
      else depth)"

fun depth_loop :: "typed_graph \<Rightarrow> graph_node list \<Rightarrow> (string, int) dict \<Rightarrow> py_exn + (string, int) dict" where
  "depth_loop g [] depth = Inr depth"
| "depth_loop g (n # ns) depth =
     (case get_outgoing_edges g (gn_id n) of
        Inl exn \<Rightarrow> Inl exn
      | Inr es \<Rightarrow> depth_loop g ns (fold (depth_edge (gn_id n)) es depth))"

definition max_dependency_depth :: "typed_graph \<Rightarrow> py_exn + int" where
  "max_dependency_depth g =
     (case (case topological_sort g E_DEPENDS_ON of
              Inl exn \<Rightarrow> Inl exn
            | Inr sorted_nodes \<Rightarrow>
                if sorted_nodes = [] then Inr 0
                else map_sum id (\<lambda>depth. if depth = [] then 0 else Max (set (dict_values depth)))
                  (depth_loop g sorted_nodes (map (\<lambda>n. (gn_id n, 0)) sorted_nodes))) of
        Inl (ValueError _) \<Rightarrow> Inr (- 1)
      | r \<Rightarrow> r)"

definition node_count_by_type :: "typed_graph \<Rightarrow> (string, nat) dict" where
  "node_count_by_type g = count_into [] (map (\<lambda>n. node_type_value (gn_node_type n)) (nodes g))"

definition average_module_size :: "typed_graph \<Rightarrow> py_exn + pyfloat" where
  "average_module_size g =
     (let modules = get_nodes_by_type g N_MODULE
      in if modules = [] then Inr (Fin 0)
         else map_sum id (\<lambda>entities. f_int_div (int (length entities)) (int (length modules)))
           (collect (owned_entities g) modules))"

text \<open>\<open>n / c\<close> for an integer and a float constant.\<close>

definition div_const :: "int \<Rightarrow> rat \<Rightarrow> pyfloat" where
  "div_const n c = (case fl (of_int n) of Fin x \<Rightarrow> fl (x / c) | y \<Rightarrow> y)"

definition compute_complexity_score :: "typed_graph \<Rightarrow> py_exn + pyfloat" where
  "compute_complexity_score g =
     map_sum id (\<lambda>depth.
       let norm_depth = f_min (div_const (max depth 0) 10) (Fin 1);
           norm_size = f_min (div_const (int (node_count g)) 200) (Fin 1);
           score = f_add (f_add (f_mul (fl (4 / 10)) (graph_density g)) (f_mul (fl (3 / 10)) norm_depth)) (f_mul (fl (3 / 10)) norm_size)
       in f_min (f_max score (Fin 0)) (Fin 1))
     (max_dependency_depth g)"

section \<open>Coupling\<close>

definition note_owner :: "string \<Rightarrow> graph_edge \<Rightarrow> (string, string) dict \<Rightarrow> (string, string) dict" where
  "note_owner m e owners = (if ge_edge_type e \<in> {E_OWNS, E_CONTAINS} then dict_set (ge_target_id e) m owners else owners)"

fun node_to_module :: "typed_graph \<Rightarrow> graph_node list \<Rightarrow> (string, string) dict \<Rightarrow> py_exn + (string, string) dict" where
  "node_to_module g [] owners = Inr owners"
| "node_to_module g (m # ms) owners =
     (case get_outgoing_edges g (gn_id m) of
        Inl exn \<Rightarrow> Inl exn
      | Inr es \<Rightarrow> node_to_module g ms (fold (note_owner (gn_id m)) es owners))"

text \<open>Both owners are known and not the empty string.\<close>

definition owners_of :: "(string, string) dict \<Rightarrow> graph_edge \<Rightarrow> (string \<times> string) option" where
  "owners_of owners e =
     (let s = dict_get owners (ge_source_id e); t = dict_get owners (ge_target_id e)
      in if opt_truthy s \<and> opt_truthy t then Some (the s, the t) else None)"

definition inter_module_coupling :: "typed_graph \<Rightarrow> py_exn + pyfloat" where
  "inter_module_coupling g =
     (let modules = get_nodes_by_type g N_MODULE
      in if length modules \<le> 1 then Inr (Fin 0)
         else map_sum id (\<lambda>owners.
           let pairs = List.map_filter (owners_of owners) (get_edges_by_type g E_DEPENDS_ON);
               cross_module = length (filter (\<lambda>(s, t). s \<noteq> t) pairs); total_deps = length pairs
           in if total_deps = 0 then Fin 0 else f_int_div (int cross_module) (int total_deps))
           (node_to_module g modules []))"

definition afferent_coupling :: "typed_graph \<Rightarrow> string \<Rightarrow> py_exn + nat" where
  "afferent_coupling g n = map_sum id (\<lambda>es. length (filter (\<lambda>e. ge_edge_type e = E_DEPENDS_ON) es)) (get_incoming_edges g n)"

definition efferent_coupling :: "typed_graph \<Rightarrow> string \<Rightarrow> py_exn + nat" where
  "efferent_coupling g n = map_sum id (\<lambda>es. length (filter (\<lambda>e. ge_edge_type e = E_DEPENDS_ON) es)) (get_outgoing_edges g n)"

definition instability_index :: "typed_graph \<Rightarrow> string \<Rightarrow> py_exn + pyfloat" where
  "instability_index g n =
     (case afferent_coupling g n of
        Inl exn \<Rightarrow> Inl exn
      | Inr ca \<Rightarrow> map_sum id (\<lambda>ce. if ca + ce = 0 then Fin 0 else f_int_div (int ce) (int (ca + ce))) (efferent_coupling g n))"

section \<open>The depth is the longest chain\<close>

lemma topological_split:
  assumes "topological E (ps @ n # rest)"
  shows "n \<notin> set ps" "\<And>m. (m, n) \<in> E \<Longrightarrow> m \<in> set ps" "\<And>m w. w \<in> set ps \<Longrightarrow> (m, w) \<in> E \<Longrightarrow> m \<in> set ps"
proof -
  show "n \<notin> set ps" using assms by (simp add: topological_def)
  show "m \<in> set ps" if "(m, n) \<in> E" for m
    using assms that by (auto simp: topological_def dest!: spec[of _ "length ps"])
  fix m w assume "w \<in> set ps" "(m, w) \<in> E"
  then obtain i where "i < length ps" "w = ps ! i" by (auto simp: in_set_conv_nth)
  then have "m \<in> set (take i (ps @ n # rest))" using assms \<open>(m, w) \<in> E\<close>
    by (auto simp: topological_def nth_append dest!: spec[of _ i])
  then show "m \<in> set ps" using \<open>i < length ps\<close> by (auto dest: in_set_takeD)
qed

lemma walk_pred: "walk E (q @ [u]) \<Longrightarrow> m \<in> set q \<Longrightarrow> \<exists>w \<in> set (q @ [u]). (m, w) \<in> E"
proof (induction q)
  case (Cons x q)
  then show ?case by (cases q) auto
qed simp

text \<open>The depths after the nodes \<open>ps\<close>: each is the length of a chain to its node, and at least the length of every chain
  whose earlier nodes are among \<open>ps\<close>.\<close>

definition depth_inv :: "('a \<times> 'a) set \<Rightarrow> 'a set \<Rightarrow> 'a set \<Rightarrow> ('a, int) dict \<Rightarrow> bool" where
  "depth_inv E N ps depth \<longleftrightarrow> fst ` set depth = N \<and> dict_wf depth
     \<and> (\<forall>v \<in> N. \<exists>p. walk E (p @ [v]) \<and> set p \<subseteq> N \<and> dict_get depth v = Some (int (length p)))
     \<and> (\<forall>v \<in> N. \<forall>p. walk E (p @ [v]) \<and> set p \<subseteq> ps \<longrightarrow> int (length p) \<le> the (dict_get depth v))"

text \<open>Processing a node raises its successors to one more than its own depth.\<close>

definition raised :: "('a \<times> 'a) set \<Rightarrow> 'a \<Rightarrow> ('a, int) dict \<Rightarrow> ('a, int) dict \<Rightarrow> bool" where
  "raised E n depth depth' \<longleftrightarrow> fst ` set depth' = fst ` set depth \<and> dict_wf depth'
     \<and> (\<forall>v \<in> fst ` set depth. the (dict_get depth' v) = (if (n, v) \<in> E then max (the (dict_get depth v)) (the (dict_get depth n) + 1) else the (dict_get depth v)))"

lemma depth_inv_step:
  assumes inv: "depth_inv E N ps depth" and r: "raised E n depth depth'" and n: "n \<in> N" "n \<notin> ps" "ps \<subseteq> N" "E \<subseteq> N \<times> N"
    and pred: "\<And>m w. w \<in> insert n ps \<Longrightarrow> (m, w) \<in> E \<Longrightarrow> m \<in> ps"
  shows "depth_inv E N (insert n ps) depth'"
proof -
  have keys: "fst ` set depth = N" "fst ` set depth' = N" "dict_wf depth'" using inv r by (auto simp: depth_inv_def raised_def)
  have get': "the (dict_get depth' v) = (if (n, v) \<in> E then max (the (dict_get depth v)) (the (dict_get depth n) + 1) else the (dict_get depth v))"
    if "v \<in> N" for v using r that keys(1) by (auto simp: raised_def)
  have some: "dict_get depth' v \<noteq> None" if "v \<in> N" for v using keys(2) that by (metis dict.has_key_iff dict_in_def)
  have low: "int (length p) \<le> the (dict_get depth v)" if "v \<in> N" "walk E (p @ [v])" "set p \<subseteq> ps" for v p
    using inv that by (auto simp: depth_inv_def)
  have chain: "\<exists>p. walk E (p @ [v]) \<and> set p \<subseteq> N \<and> the (dict_get depth v) = int (length p)" if "v \<in> N" for v
    using inv that by (fastforce simp: depth_inv_def)
  have "\<exists>p. walk E (p @ [v]) \<and> set p \<subseteq> N \<and> dict_get depth' v = Some (int (length p))" if v: "v \<in> N" for v
  proof (cases "the (dict_get depth' v) = the (dict_get depth v)")
    case True
    then show ?thesis using chain[OF v] some[OF v] by (metis option.collapse)
  next
    case False
    then have e: "(n, v) \<in> E" "the (dict_get depth' v) = the (dict_get depth n) + 1" using get'[OF v] by (auto split: if_splits)
    obtain p where p: "walk E (p @ [n])" "set p \<subseteq> N" "the (dict_get depth n) = int (length p)" using chain[OF n(1)] by blast
    then show ?thesis using e n(1) some[OF v] by (intro exI[of _ "p @ [n]"]) (auto simp: walk_snoc[of "p @ [n]", simplified])
  qed
  moreover have "int (length p) \<le> the (dict_get depth' v)" if v: "v \<in> N" and p: "walk E (p @ [v])" "set p \<subseteq> insert n ps" for v p
  proof (cases "set p \<subseteq> ps")
    case True
    then show ?thesis using low[OF v p(1)] get'[OF v] by auto
  next
    case False
    then obtain q u where q: "p = q @ [u]" by (cases p rule: rev_cases) auto
    have w: "walk E (q @ [u])" "(u, v) \<in> E" using p(1) walk_snoc[of "q @ [u]" E v] by (auto simp: q)
    have sub: "set q \<subseteq> ps" using walk_pred[OF w(1)] pred p(2) by (fastforce simp: q)
    then have u: "u = n" using False p(2) by (auto simp: q)
    then show ?thesis using low[OF n(1) _ sub] w get'[OF v] by (auto simp: q)
  qed
  ultimately show ?thesis using keys by (auto simp: depth_inv_def)
qed

lemma fold_depth_edges:
  assumes "dict_wf depth" "\<And>e. e \<in> set es \<Longrightarrow> ge_edge_type e = E_DEPENDS_ON \<Longrightarrow> ge_target_id e \<in> fst ` set depth \<and> ge_target_id e \<noteq> n"
  shows "dict_wf (fold (depth_edge n) es depth) \<and> fst ` set (fold (depth_edge n) es depth) = fst ` set depth
    \<and> (\<forall>v. the (dict_get (fold (depth_edge n) es depth) v) =
        (if \<exists>e \<in> set es. ge_edge_type e = E_DEPENDS_ON \<and> ge_target_id e = v then max (the (dict_get depth v)) (the (dict_get depth n) + 1)
         else the (dict_get depth v)))"
  using assms(2)
proof (induction es rule: rev_induct)
  case (snoc e es)
  let ?d = "fold (depth_edge n) es depth"
  have IH: "dict_wf ?d" "fst ` set ?d = fst ` set depth"
    "\<And>v. the (dict_get ?d v) = (if \<exists>e \<in> set es. ge_edge_type e = E_DEPENDS_ON \<and> ge_target_id e = v
        then max (the (dict_get depth v)) (the (dict_get depth n) + 1) else the (dict_get depth v))"
    using snoc by auto
  have self: "the (dict_get ?d n) = the (dict_get depth n)" using IH(3)[of n] snoc.prems by auto
  show ?case
  proof (cases "ge_edge_type e = E_DEPENDS_ON")
    case True
    then have t: "ge_target_id e \<in> fst ` set depth" "dict_in (ge_target_id e) ?d" using snoc.prems IH(2) by (auto simp: dict_in_def)
    then have f: "fold (depth_edge n) (es @ [e]) depth =
        dict_set (ge_target_id e) (max (the (dict_get ?d (ge_target_id e))) (the (dict_get depth n) + 1)) ?d"
      using True self depth_edge_def[of n e ?d] by simp
    have "fst ` set (fold (depth_edge n) (es @ [e]) depth) = fst ` set depth"
      using t(1) unfolding f keys_dict_set IH(2) by auto
    moreover have "dict_wf (fold (depth_edge n) (es @ [e]) depth)" unfolding f using IH(1) by (rule dict.wf_put)
    moreover have "the (dict_get (fold (depth_edge n) (es @ [e]) depth) v) =
        (if \<exists>e \<in> set (es @ [e]). ge_edge_type e = E_DEPENDS_ON \<and> ge_target_id e = v then max (the (dict_get depth v)) (the (dict_get depth n) + 1)
         else the (dict_get depth v))" for v
      using True unfolding f dict.lookup_put by (auto simp: IH(3))
    ultimately show ?thesis by blast
  next
    case False
    have "depth_edge n e d = d" for d using False by (simp add: depth_edge_def)
    then show ?thesis using IH False by simp
  qed
qed (simp add: assms(1))

lemma depth_loop_inv:
  assumes g: "graph_wf g" and top: "topological (type_rel g E_DEPENDS_ON) (map gn_id (ps @ xs))"
    and all: "set (map gn_id (ps @ xs)) = set (node_ids g)"
    and inv: "depth_inv (type_rel g E_DEPENDS_ON) (set (node_ids g)) (gn_id ` set ps) depth"
  shows "\<exists>depth'. depth_loop g xs depth = Inr depth' \<and>
    depth_inv (type_rel g E_DEPENDS_ON) (set (node_ids g)) (set (node_ids g)) depth'"
  using top all inv
proof (induction xs arbitrary: ps depth)
  case (Cons n xs)
  let ?E = "type_rel g E_DEPENDS_ON" and ?N = "set (node_ids g)" and ?n = "gn_id n"
  let ?es = "filter (\<lambda>e. ge_source_id e = ?n) (edges g)"
  have T: "topological ?E (map gn_id ps @ ?n # map gn_id xs)" using Cons.prems(1) by simp
  have t1: "?n \<notin> gn_id ` set ps" using topological_split(1)[OF T] by simp
  have t2: "m \<in> gn_id ` set ps" if "w \<in> insert ?n (gn_id ` set ps)" "(m, w) \<in> ?E" for m w
    using that topological_split(2)[OF T, of m] topological_split(3)[OF T, of w m] by auto
  have d: "dict_wf depth" "fst ` set depth = ?N" using Cons.prems(3) by (auto simp: depth_inv_def)
  have ends: "ge_target_id e \<in> fst ` set depth \<and> ge_target_id e \<noteq> ?n" if "e \<in> set ?es" "ge_edge_type e = E_DEPENDS_ON" for e
  proof -
    have "(?n, ge_target_id e) \<in> ?E" using that by (auto simp: edge_rel_def intro!: exI[of _ e])
    then have "ge_target_id e \<noteq> ?n" using t1 t2[of ?n ?n] by auto
    then show ?thesis using that(1) edge_ends[OF g, of e] d(2) by auto
  qed
  have "(\<exists>e \<in> set ?es. ge_edge_type e = E_DEPENDS_ON \<and> ge_target_id e = v) \<longleftrightarrow> (?n, v) \<in> ?E" for v by (force simp: edge_rel_def)
  then have "raised ?E ?n depth (fold (depth_edge ?n) ?es depth)"
    using fold_depth_edges[OF d(1), of ?es ?n] ends by (simp add: raised_def)
  then have "depth_inv ?E ?N (insert ?n (gn_id ` set ps)) (fold (depth_edge ?n) ?es depth)"
    by (rule depth_inv_step[OF Cons.prems(3) _ _ t1 _ edge_rel_nodes[OF g]]) (use Cons.prems(2) t2 in auto)
  then show ?case using Cons.IH[of "ps @ [n]"] Cons.prems(1,2) by (simp add: get_outgoing_edges_wf[OF g])
qed auto

text \<open>At the end the largest depth is the length of a longest chain.\<close>

definition longest_chain :: "('a \<times> 'a) set \<Rightarrow> 'a set \<Rightarrow> int \<Rightarrow> bool" where
  "longest_chain E N d \<longleftrightarrow> (\<exists>p. p \<noteq> [] \<and> set p \<subseteq> N \<and> walk E p \<and> int (length p) = d + 1)
     \<and> (\<forall>p. p \<noteq> [] \<and> set p \<subseteq> N \<and> walk E p \<longrightarrow> int (length p) \<le> d + 1)"

lemma depth_inv_longest:
  assumes inv: "depth_inv E N N depth" and ne: "depth \<noteq> []"
  shows "longest_chain E N (Max (set (dict_values depth)))"
  unfolding longest_chain_def
proof (intro conjI allI impI)
  let ?d = "Max (set (dict_values depth))"
  have "dict_wf depth" "fst ` set depth = N" using inv by (auto simp: depth_inv_def)
  then have V: "set (dict_values depth) = {v. \<exists>k \<in> N. dict_get depth k = Some v}"
    using dict.vals_lookup[of depth] dict.has_key_iff[of _ depth] by (auto simp: dict_in_def)
  have "?d \<in> set (dict_values depth)" using ne by (intro Max_in) (auto simp: dict_values_def)
  then obtain k where k: "k \<in> N" "dict_get depth k = Some ?d" using V by auto
  then obtain p where "walk E (p @ [k])" "set p \<subseteq> N" "?d = int (length p)"
    using inv unfolding depth_inv_def by (metis option.inject)
  then show "\<exists>p. p \<noteq> [] \<and> set p \<subseteq> N \<and> walk E p \<and> int (length p) = ?d + 1" using k(1) by (intro exI[of _ "p @ [k]"]) auto
  fix p assume p: "p \<noteq> [] \<and> set p \<subseteq> N \<and> walk E p"
  then obtain q v where q: "p = q @ [v]" by (cases p rule: rev_cases) auto
  then have v: "v \<in> N" "int (length q) \<le> the (dict_get depth v)" using inv p by (auto simp: depth_inv_def)
  then have "the (dict_get depth v) \<in> set (dict_values depth)" using inv V by (fastforce simp: depth_inv_def)
  then show "int (length p) \<le> ?d + 1" using order_trans[OF v(2) Max_ge] q by simp
qed

lemma depth_inv_init:
  assumes "distinct (map gn_id xs)"
  shows "depth_inv E (gn_id ` set xs) {} (map (\<lambda>n. (gn_id n, 0)) xs)"
proof -
  have "dict_get (map (\<lambda>n. (gn_id n, 0 :: int)) xs) v = Some 0" if "v \<in> gn_id ` set xs" for v
    using that assms by (auto simp: dict_get_map[where f = gn_id and h = "\<lambda>_. 0"])
  moreover have "walk E ([] @ [v])" for v by simp
  ultimately show ?thesis using assms
    by (auto simp: depth_inv_def dict_wf_def comp_def image_image intro!: exI[of _ "[]"])
qed

lemma dependency_depth:
  assumes "graph_wf g"
  shows "\<exists>d. max_dependency_depth g = Inr d \<and>
    (if \<not> acyclic (type_rel g E_DEPENDS_ON) then d = - 1
     else if nodes g = [] then d = 0
     else longest_chain (type_rel g E_DEPENDS_ON) (set (node_ids g)) d)"
proof -
  let ?E = "type_rel g E_DEPENDS_ON" and ?N = "set (node_ids g)"
  note ts = topological_sort_spec[OF assms, of E_DEPENDS_ON]
  show ?thesis
  proof (cases "acyclic ?E")
    case False
    then show ?thesis using ts by (simp add: max_dependency_depth_def)
  next
    case True
    then obtain xs where xs: "topological_sort g E_DEPENDS_ON = Inr xs" "set xs = set (nodes g)" "topological ?E (map gn_id xs)"
      using ts by auto
    show ?thesis
    proof (cases "xs = []")
      case True
      then show ?thesis using xs \<open>acyclic ?E\<close> by (simp add: max_dependency_depth_def)
    next
      case False
      let ?init = "map (\<lambda>n. (gn_id n, 0 :: int)) xs"
      have ids: "gn_id ` set xs = ?N" using xs(2) by (simp add: node_ids_def)
      have "depth_inv ?E ?N {} ?init" using depth_inv_init[of xs ?E] xs(3) ids by (simp add: topological_def)
      then obtain depth where d: "depth_loop g xs ?init = Inr depth" "depth_inv ?E ?N ?N depth"
        using depth_loop_inv[OF assms, of "[]" xs ?init] xs(3) ids by auto
      have "depth \<noteq> []" using d(2) xs(2) False by (auto simp: depth_inv_def node_ids_def)
      then show ?thesis using depth_inv_longest[OF d(2)] xs(1,2) d(1) False True by (auto simp: max_dependency_depth_def)
    qed
  qed
qed

text \<open>C40. The dependency depth of a well-formed graph: \<open>-1\<close> when the dependencies are cyclic, and otherwise the number of edges of a
  longest chain of dependencies (0 for the empty graph).\<close>

theorem max_dependency_depth_longest_chain:
  assumes "graph_wf g"
  shows "\<exists>d. max_dependency_depth g = Inr d \<and>
    (if \<not> acyclic (type_rel g E_DEPENDS_ON) then d = - 1
     else if nodes g = [] then d = 0
     else longest_chain (type_rel g E_DEPENDS_ON) (set (node_ids g)) d)"
  by (rule dependency_depth[OF assms])

theorem max_dependency_depth_longest_chain_witness:
  "\<exists>d. max_dependency_depth sample_graph = Inr d \<and> 1 \<le> d"
proof -
  have "walk {(''a'', ''b'')} [''a'', ''b'']" "set [''a'', ''b''] \<subseteq> set (node_ids sample_graph)"
    by (simp_all add: node_ids_def sample_graph_def service_node_def)
  then have "1 \<le> d" if "longest_chain {(''a'', ''b'')} (set (node_ids sample_graph)) d" for d
    using that by (fastforce simp: longest_chain_def dest!: spec[of _ "[''a'', ''b'']"])
  then show ?thesis using max_dependency_depth_longest_chain[OF sample_graph_wf] sample_dependencies
    by (auto simp: sample_graph_def)
qed

section \<open>Ranges\<close>

definition in_unit :: "pyfloat \<Rightarrow> bool" where
  "in_unit x \<longleftrightarrow> f_le (Fin 0) x \<and> f_le x (Fin 1)"

lemma int_div_unit: "a \<le> b \<Longrightarrow> in_unit (f_int_div (int a) (int b))"
  using fl_mono[of 0 "of_nat a / of_nat b"] fl_mono[of "of_nat a / of_nat b" 1] fl_int[of 1]
  by (cases "b = 0") (auto simp: in_unit_def f_int_div_def)

lemma clamp_unit: "f_le (Fin 0) x \<Longrightarrow> in_unit (f_min (f_max x (Fin 0)) (Fin 1))"
  by (cases x) (auto simp: in_unit_def f_min_def f_max_def)

lemma f_add_nonneg: "f_le (Fin 0) x \<Longrightarrow> f_le (Fin 0) y \<Longrightarrow> f_le (Fin 0) (f_add x y)"
  by (cases x; cases y) (auto simp: fl_nonneg)

lemma f_mul_nonneg: "f_lt (Fin 0) c \<and> c \<noteq> PInf \<Longrightarrow> f_le (Fin 0) x \<Longrightarrow> f_le (Fin 0) (f_mul c x)"
  by (cases c; cases x) (auto simp: fl_nonneg f_inf_def)

lemma f_min_nonneg: "f_le (Fin 0) x \<Longrightarrow> f_le (Fin 0) (f_min x (Fin 1))"
  by (cases x) (auto simp: f_min_def)

lemma div_const_nonneg: "0 \<le> n \<Longrightarrow> 0 < c \<Longrightarrow> f_le (Fin 0) (div_const n c)"
proof -
  assume "0 \<le> n" "0 < c"
  moreover have "f_le (Fin 0) (fl (of_int n))" using \<open>0 \<le> n\<close> by (intro fl_nonneg) simp
  ultimately show ?thesis by (cases "fl (of_int n)") (auto simp: div_const_def fl_nonneg)
qed

lemma weight_positive:
  assumes "1 / 4 \<le> x" "x \<le> 1"
  shows "f_lt (Fin 0) (fl x) \<and> fl x \<noteq> PInf"
proof -
  have x: "0 < x" using assms(1) by linarith
  have "(2::rat) powi (fexp x - 52) \<le> 2 powi fexp x" by (rule pow2_mono) simp
  moreover have "(2::rat) powi (- 1074) \<le> 2 powi (- 2)" by (rule pow2_mono) simp
  moreover have "(2::rat) powi (- 2) = 1 / 4" by (simp add: power_int_minus)
  ultimately have "2 powi ulp_exp x \<le> x" using fexp_bounds(1)[OF x] assms(1) by (auto simp: ulp_exp_def max_def)
  then have "2 powi ulp_exp x \<le> round53 x" using round53_ge_grid[OF x, of 1] by simp
  then have "0 < round53 x" using pow2_pos[of "ulp_exp x"] by linarith
  moreover have "f_le (fl x) (Fin 1)" using fl_mono[OF assms(2)] fl_int[of 1] by simp
  ultimately show ?thesis using x by (auto simp: fl_def Let_def)
qed

lemma graph_density_nonneg: "f_le (Fin 0) (graph_density g)"
  by (auto simp: graph_density_def Let_def f_int_div_def intro!: fl_nonneg divide_nonneg_nonneg)

text \<open>On every well-formed graph the complexity score, the coupling between modules and the instability of a node are
  computed without an exception and lie between 0 and 1, whatever the rounding.\<close>

theorem metrics_in_unit_interval:
  assumes "graph_wf g"
  shows "(\<exists>x. compute_complexity_score g = Inr x \<and> in_unit x) \<and> (\<exists>y. inter_module_coupling g = Inr y \<and> in_unit y)
    \<and> (\<exists>z. instability_index g n = Inr z \<and> in_unit z)"
proof (intro conjI)
  obtain d where d: "max_dependency_depth g = Inr d" using dependency_depth[OF assms] by blast
  show "\<exists>x. compute_complexity_score g = Inr x \<and> in_unit x"
    by (simp add: compute_complexity_score_def d Let_def)
      (intro clamp_unit f_add_nonneg f_mul_nonneg f_min_nonneg div_const_nonneg weight_positive graph_density_nonneg, simp_all)
  have zero: "in_unit (Fin 0)" by (simp add: in_unit_def)
  have "\<exists>owners. node_to_module g ms o0 = Inr owners" for ms o0
    by (induction ms arbitrary: o0) (simp_all add: get_outgoing_edges_wf[OF assms])
  then obtain owners where "node_to_module g (get_nodes_by_type g N_MODULE) [] = Inr owners" by blast
  then show "\<exists>y. inter_module_coupling g = Inr y \<and> in_unit y"
    by (simp add: inter_module_coupling_def Let_def zero int_div_unit[OF length_filter_le])
  show "\<exists>z. instability_index g n = Inr z \<and> in_unit z"
    using int_div_unit[OF le_add2] zero
    by (simp add: instability_index_def afferent_coupling_def efferent_coupling_def get_outgoing_edges_wf[OF assms] get_incoming_edges_wf[OF assms])
qed

theorem metrics_in_unit_interval_witness:
  "\<exists>x. compute_complexity_score sample_graph = Inr x \<and> in_unit x"
  using metrics_in_unit_interval[OF sample_graph_wf] by blast

end
