(* ===== verification/Gr_Build_Dag.thy ===== *)
theory Gr_Build_Dag
  imports Isr_Graph Gr_Kahn "HOL-Library.List_Lexorder" "HOL-Library.Char_ord"
begin

text \<open>
  The compiler dependency graph (\<^verbatim>\<open>constitutional_architecture/core/build/dag.py\<close>): compilers declare the artifacts they provide and
  require, and the resolver turns a set of wanted artifacts into an execution plan. Python sets are given by their elements in
  iteration order; \<open>order_of\<close> is the iteration order of the set of required compilers. The compiler classes are names.
\<close>

section \<open>Compilers and the resolver\<close>

datatype artifact_type = SOURCE_CODE | CONFIGURATION | INFRASTRUCTURE | DOCUMENTATION | TEST_SUITE | DOCKERFILE
  | CI_CD_PIPELINE | DATABASE_MIGRATION | SDK_CLIENT

record compiler_node =
  cn_compiler_id :: string
  cn_compiler_class :: string
  cn_provides :: "artifact_type list"
  cn_requires :: "artifact_type list"
  cn_consumed_genes :: "string list option"
  cn_consumed_node_types :: "string list option"

record resolver =
  rs_nodes :: "(string, compiler_node) dict"
  rs_providers :: "(artifact_type, string list) dict"

definition BuildGraphResolver :: resolver where
  "BuildGraphResolver = \<lparr>rs_nodes = [], rs_providers = []\<rparr>"

definition register :: "compiler_node \<Rightarrow> resolver \<Rightarrow> (resolver, unit) outcome" where
  "register node rs =
     (if dict_in (cn_compiler_id node) (rs_nodes rs) then
        (Inl (ValueError (''Compiler '' @ quoted (cn_compiler_id node) @ '' already registered.'')), rs)
      else (Inr (), rs\<lparr>rs_nodes := dict_set (cn_compiler_id node) node (rs_nodes rs),
        rs_providers := fold (\<lambda>a d. dict_set a (dict_list d a @ [cn_compiler_id node]) d) (cn_provides node) (rs_providers rs)\<rparr>))"

definition eligible_providers :: "resolver \<Rightarrow> string set \<Rightarrow> artifact_type \<Rightarrow> string list" where
  "eligible_providers rs eligible a = filter (\<lambda>c. c \<in> eligible) (dict_list (rs_providers rs) a)"

section \<open>Resolving a plan\<close>

text \<open>The inner loop over the providers of one artifact.\<close>

fun require_loop ::
  "resolver \<Rightarrow> string list \<Rightarrow> string set \<Rightarrow> artifact_type list \<Rightarrow> py_exn + string set \<times> artifact_type list" where
  "require_loop rs [] required q = Inr (required, q)"
| "require_loop rs (c # cs) required q =
     (if c \<in> required then require_loop rs cs required q
      else
        (case dict_get (rs_nodes rs) c of
           None \<Rightarrow> Inl (KeyError c)
         | Some node \<Rightarrow> require_loop rs cs (insert c required) (q @ cn_requires node)))"

lemma require_loop_measure:
  "require_loop rs cs R q = Inr (R', q') \<Longrightarrow>
     card (fst ` set (rs_nodes rs) - R') < card (fst ` set (rs_nodes rs) - R) \<or> R' = R \<and> q' = q"
proof (induction rs cs R q rule: require_loop.induct)
  case (2 rs c cs R q)
  show ?case
  proof (cases "c \<in> R")
    case False
    then obtain node where n: "dict_get (rs_nodes rs) c = Some node" "require_loop rs cs (insert c R) (q @ cn_requires node) = Inr (R', q')"
      using "2.prems" by (auto split: option.splits)
    then have "c \<in> fst ` set (rs_nodes rs)" by (metis dict.has_key_iff dict_in_def option.distinct(1))
    then have "card (fst ` set (rs_nodes rs) - insert c R) < card (fst ` set (rs_nodes rs) - R)"
      using False by (intro psubset_card_mono) auto
    then show ?thesis using "2.IH"(2)[OF False n] by auto
  qed (use 2 in simp)
qed simp

text \<open>\<open>str_of\<close> prints an artifact type in the message; the interpreters differ in how they format an enumeration.\<close>

definition no_provider :: "(artifact_type \<Rightarrow> string) \<Rightarrow> artifact_type \<Rightarrow> py_exn" where
  "no_provider str_of a = ValueError (''No eligible compiler registered to provide: '' @ str_of a)"

function required_loop ::
  "(artifact_type \<Rightarrow> string) \<Rightarrow> resolver \<Rightarrow> string set \<Rightarrow> artifact_type list \<Rightarrow> string set \<Rightarrow> py_exn + string set" where
  "required_loop str_of rs eligible [] required = Inr required"
| "required_loop str_of rs eligible (a # q) required =
     (let providers = eligible_providers rs eligible a
      in if providers = [] then Inl (no_provider str_of a)
         else
           (case require_loop rs providers required q of
              Inl exn \<Rightarrow> Inl exn
            | Inr (required', q') \<Rightarrow> required_loop str_of rs eligible q' required'))"
  by pat_completeness auto

termination
proof (relation "measures [\<lambda>(_, rs, _, _, R). card (fst ` set (rs_nodes rs) - R), \<lambda>(_, _, _, q, _). length q]", goal_cases)
  case (2 str_of rs eligible a q required providers y required' q')
  then show ?case using require_loop_measure[of rs providers required q required' q'] by auto
qed simp

text \<open>The dependencies \<open>(dep_cid, cid)\<close> in the order of the nested loops, and the two tables they fill.\<close>

definition dependency_pairs :: "resolver \<Rightarrow> string set \<Rightarrow> string list \<Rightarrow> py_exn + (string \<times> string) list" where
  "dependency_pairs rs required cids =
     (if \<exists>c \<in> set cids. \<not> dict_in c (rs_nodes rs) then Inl (KeyError (hd (filter (\<lambda>c. \<not> dict_in c (rs_nodes rs)) cids)))
      else Inr (concat (map (\<lambda>c. concat (map (\<lambda>a. map (\<lambda>d. (d, c)) (filter (\<lambda>d. d \<in> required) (dict_list (rs_providers rs) a)))
        (cn_requires (the (dict_get (rs_nodes rs) c))))) cids)))"

definition note_pair :: "string \<times> string \<Rightarrow> (string, string list) dict \<times> (string, int) dict \<Rightarrow> (string, string list) dict \<times> (string, int) dict" where
  "note_pair p t = (case (p, t) of ((d, c), (graph, in_degree)) \<Rightarrow>
     (dict_set d (dict_list graph d @ [c]) graph, dict_set c (the (dict_get in_degree c) + 1) in_degree))"

definition plan_tables :: "(string \<times> string) list \<Rightarrow> string list \<Rightarrow> (string, string list) dict \<times> (string, int) dict" where
  "plan_tables pairs cids = fold note_pair pairs ([], map (\<lambda>c. (c, 0)) cids)"

definition eligible_set :: "resolver \<Rightarrow> string set option \<Rightarrow> string set" where
  "eligible_set rs eligible_ids = (case eligible_ids of None \<Rightarrow> fst ` set (rs_nodes rs) | Some s \<Rightarrow> s)"

definition resolve_execution_plan ::
  "(artifact_type \<Rightarrow> string) \<Rightarrow> (string set \<Rightarrow> string list) \<Rightarrow> resolver \<Rightarrow> artifact_type list \<Rightarrow> string set option \<Rightarrow> py_exn + string list" where
  "resolve_execution_plan str_of order_of rs targets eligible_ids =
     (let eligible = eligible_set rs eligible_ids
      in case required_loop str_of rs eligible targets {} of
           Inl exn \<Rightarrow> Inl exn
         | Inr required \<Rightarrow>
             (let cids = order_of required
              in case dependency_pairs rs required cids of
                   Inl exn \<Rightarrow> Inl exn
                 | Inr pairs \<Rightarrow>
                     (case plan_tables pairs cids of (graph, in_degree) \<Rightarrow>
                      case kahn_loop (dict_list graph) (map fst (filter (\<lambda>p. snd p = 0) in_degree)) in_degree [] of
                        None \<Rightarrow> Inl (KeyError [])
                      | Some plan \<Rightarrow>
                          if length plan \<noteq> card required then Inl (RuntimeError ''Cyclic dependency detected in Compiler DAG!'')
                          else Inr plan)))"

section \<open>The platform\<close>

definition plain_compiler :: "string \<Rightarrow> string \<Rightarrow> artifact_type \<Rightarrow> compiler_node" where
  "plain_compiler i cls a = \<lparr>cn_compiler_id = i, cn_compiler_class = cls, cn_provides = [a], cn_requires = [],
     cn_consumed_genes = None, cn_consumed_node_types = None\<rparr>"

definition build_platform_graph :: resolver where
  "build_platform_graph = snd (each register
     [plain_compiler ''react_vite'' ''ReactCompiler'' SOURCE_CODE,
      plain_compiler ''fastapi_hexagonal'' ''FastAPICompiler'' SOURCE_CODE,
      plain_compiler ''postgres_alembic'' ''PostgresCompiler'' DATABASE_MIGRATION,
      plain_compiler ''terraform_aws'' ''TerraformCompiler'' INFRASTRUCTURE,
      plain_compiler ''markdown_adr'' ''MarkdownDocumentationCompiler'' DOCUMENTATION,
      plain_compiler ''operational_intelligence_v1'' ''OperationalIntelligenceCompiler'' CONFIGURATION,
      plain_compiler ''runtime_policy_v1'' ''RuntimePolicyCompiler'' CONFIGURATION,
      plain_compiler ''pytest_layered'' ''PytestCompiler'' TEST_SUITE,
      \<lparr>cn_compiler_id = ''github_actions_compose'', cn_compiler_class = ''CICDDeploymentCompiler'', cn_provides = [CI_CD_PIPELINE],
        cn_requires = [SOURCE_CODE, INFRASTRUCTURE, DATABASE_MIGRATION, TEST_SUITE, DOCUMENTATION, CONFIGURATION],
        cn_consumed_genes = Some [], cn_consumed_node_types = Some []\<rparr>] BuildGraphResolver)"

section \<open>Registered compilers\<close>

definition rs_ok :: "resolver \<Rightarrow> bool" where
  "rs_ok rs \<longleftrightarrow> (\<forall>a c. c \<in> set (dict_list (rs_providers rs) a) \<longleftrightarrow> (\<exists>n. dict_get (rs_nodes rs) c = Some n \<and> a \<in> set (cn_provides n)))"

inductive registered :: "resolver \<Rightarrow> bool" where
  empty: "registered BuildGraphResolver"
| register: "registered rs \<Longrightarrow> registered (snd (register node rs))"

lemma fold_providers:
  "set (dict_list (fold (\<lambda>a d. dict_set a (dict_list d a @ [c]) d) as d) b) = set (dict_list d b) \<union> (if b \<in> set as then {c} else {})"
  by (induction as arbitrary: d) (auto simp: dict_list_set)

lemma registered_ok: "registered rs \<Longrightarrow> rs_ok rs"
proof (induction rule: registered.induct)
  case empty
  show ?case by (simp add: rs_ok_def BuildGraphResolver_def dict_list_def)
next
  case (register rs node)
  have "dict_get (rs_nodes rs) (cn_compiler_id node) = None" if "\<not> dict_in (cn_compiler_id node) (rs_nodes rs)"
    using that by (simp add: dict.has_key_iff)
  then show ?case using register.IH by (auto simp: rs_ok_def register_def fold_providers dict.lookup_put split: if_splits)
qed

section \<open>The required compilers\<close>

text \<open>The artifacts that a plan for the targets needs.\<close>

inductive_set needed :: "resolver \<Rightarrow> string set \<Rightarrow> artifact_type set \<Rightarrow> artifact_type set" for rs eligible targets where
  target: "a \<in> targets \<Longrightarrow> a \<in> needed rs eligible targets"
| requires: "b \<in> needed rs eligible targets \<Longrightarrow> c \<in> set (eligible_providers rs eligible b) \<Longrightarrow>
    dict_get (rs_nodes rs) c = Some n \<Longrightarrow> a \<in> set (cn_requires n) \<Longrightarrow> a \<in> needed rs eligible targets"

definition needed_compilers :: "resolver \<Rightarrow> string set \<Rightarrow> artifact_type set \<Rightarrow> string set" where
  "needed_compilers rs eligible targets = (\<Union>a \<in> needed rs eligible targets. set (eligible_providers rs eligible a))"

definition requires_of :: "resolver \<Rightarrow> string set \<Rightarrow> artifact_type set" where
  "requires_of rs cs = {a. \<exists>c \<in> cs. \<exists>n. dict_get (rs_nodes rs) c = Some n \<and> a \<in> set (cn_requires n)}"

lemma provider_known: "rs_ok rs \<Longrightarrow> c \<in> set (eligible_providers rs eligible a) \<Longrightarrow> \<exists>n. dict_get (rs_nodes rs) c = Some n"
  by (auto simp: rs_ok_def eligible_providers_def)

lemma require_loop_spec:
  "(\<And>c. c \<in> set cs \<Longrightarrow> \<exists>n. dict_get (rs_nodes rs) c = Some n) \<Longrightarrow>
     \<exists>q'. require_loop rs cs R q = Inr (R \<union> set cs, q') \<and> set q' = set q \<union> requires_of rs (set cs - R)"
proof (induction rs cs R q rule: require_loop.induct)
  case (2 rs c cs R q)
  show ?case
  proof (cases "c \<in> R")
    case True
    then obtain q' where "require_loop rs cs R q = Inr (R \<union> set cs, q')" "set q' = set q \<union> requires_of rs (set cs - R)"
      using 2 by auto
    moreover have "set (c # cs) - R = set cs - R" using True by auto
    ultimately show ?thesis using True by (auto simp: insert_absorb)
  next
    case False
    then obtain n where n: "dict_get (rs_nodes rs) c = Some n" using "2.prems" by fastforce
    then obtain q' where "require_loop rs cs (insert c R) (q @ cn_requires n) = Inr (insert c R \<union> set cs, q')"
      "set q' = set (q @ cn_requires n) \<union> requires_of rs (set cs - insert c R)" using "2.IH"(2)[OF False n] "2.prems" by auto
    moreover have "set (cn_requires n) \<union> requires_of rs (set cs - insert c R) = requires_of rs (set (c # cs) - R)"
      using False n by (auto simp: requires_of_def)
    ultimately show ?thesis using False n by (auto simp: Un_assoc)
  qed
qed (simp add: requires_of_def)

text \<open>An artifact is served when it has an eligible provider and all of them are required.\<close>

definition served :: "resolver \<Rightarrow> string set \<Rightarrow> string set \<Rightarrow> artifact_type \<Rightarrow> bool" where
  "served rs eligible R a \<longleftrightarrow> eligible_providers rs eligible a \<noteq> [] \<and> set (eligible_providers rs eligible a) \<subseteq> R"

lemma needed_served:
  assumes "\<And>a. a \<in> T \<union> requires_of rs R \<Longrightarrow> served rs eligible R a"
  shows "a \<in> needed rs eligible T \<Longrightarrow> served rs eligible R a"
  by (induction rule: needed.induct) (use assms in \<open>auto simp: served_def requires_of_def\<close>)

lemma required_loop_spec:
  assumes "rs_ok rs" "set q \<subseteq> needed rs eligible T" "R \<subseteq> needed_compilers rs eligible T"
    and "\<And>a. a \<in> T \<union> requires_of rs R \<Longrightarrow> a \<in> set q \<or> served rs eligible R a"
  shows "if \<forall>a \<in> needed rs eligible T. eligible_providers rs eligible a \<noteq> []
    then required_loop str_of rs eligible q R = Inr (needed_compilers rs eligible T)
    else \<exists>a \<in> needed rs eligible T. eligible_providers rs eligible a = []
      \<and> required_loop str_of rs eligible q R = Inl (no_provider str_of a)"
  using assms
proof (induction str_of rs eligible q R rule: required_loop.induct)
  case (1 str_of rs eligible R)
  then have s: "a \<in> needed rs eligible T \<Longrightarrow> served rs eligible R a" for a using needed_served[of T rs R eligible a] by auto
  then have "R = needed_compilers rs eligible T" using "1.prems"(3) by (auto simp: needed_compilers_def served_def)
  then show ?case using s by (auto simp: served_def)
next
  case (2 str_of rs eligible a q R)
  let ?P = "eligible_providers rs eligible a"
  have a: "a \<in> needed rs eligible T" using "2.prems"(2) by auto
  show ?case
  proof (cases "?P = []")
    case True
    then show ?thesis using a by auto
  next
    case False
    obtain q' where q': "require_loop rs ?P R q = Inr (R \<union> set ?P, q')" "set q' = set q \<union> requires_of rs (set ?P - R)"
      using require_loop_spec[of ?P rs R q] provider_known[OF "2.prems"(1)] by blast
    have i2: "set q' \<subseteq> needed rs eligible T"
      using "2.prems"(2) a needed.requires[of a rs eligible T] by (auto simp: q'(2) requires_of_def)
    have i3: "R \<union> set ?P \<subseteq> needed_compilers rs eligible T" using "2.prems"(3) a by (auto simp: needed_compilers_def)
    have i4: "b \<in> set q' \<or> served rs eligible (R \<union> set ?P) b" if "b \<in> T \<union> requires_of rs (R \<union> set ?P)" for b
    proof (cases "b \<in> T \<union> requires_of rs R")
      case True
      then show ?thesis using "2.prems"(4)[OF True] False by (auto simp: served_def q'(2))
    next
      case nb: False
      then show ?thesis using that by (auto simp: q'(2) requires_of_def)
    qed
    have step: "required_loop str_of rs eligible (a # q) R = required_loop str_of rs eligible q' (R \<union> set ?P)"
      using False q'(1) by (simp add: Let_def)
    show ?thesis unfolding step by (rule "2.IH"[OF refl False q'(1) refl "2.prems"(1) i2 i3 i4])
  qed
qed

section \<open>Ordering them\<close>

lemma keys_dict_set_same: "k \<in> fst ` set d \<Longrightarrow> map fst (dict_set k v d) = map fst d"
  by (induction d) (auto simp: dict_set_def)

lemma plan_tables_spec:
  assumes "distinct cids" "snd ` set ps \<subseteq> set cids"
  shows "dict_list (fst (plan_tables ps cids)) d = map snd (filter (\<lambda>p. fst p = d) ps)"
    and "map fst (snd (plan_tables ps cids)) = cids"
    and "c \<in> set cids \<Longrightarrow> dict_get (snd (plan_tables ps cids)) c = Some (int (length (filter (\<lambda>p. snd p = c) ps)))"
proof -
  have "(\<forall>d. dict_list (fst (plan_tables ps cids)) d = map snd (filter (\<lambda>p. fst p = d) ps)) \<and> map fst (snd (plan_tables ps cids)) = cids
    \<and> (\<forall>c \<in> set cids. dict_get (snd (plan_tables ps cids)) c = Some (int (length (filter (\<lambda>p. snd p = c) ps))))"
    using assms(2)
  proof (induction ps rule: rev_induct)
    case Nil
    have "dict_get (map (\<lambda>c. (c, 0 :: int)) cids) c = Some 0" if "c \<in> set cids" for c
      using dict_get_map[where f = "\<lambda>c. c" and h = "\<lambda>_. 0 :: int"] that assms(1) by simp
    then show ?case by (simp add: plan_tables_def dict_list_def comp_def)
  next
    case (snoc p ps)
    obtain d c where p: "p = (d, c)" by (cases p)
    define T where "T = plan_tables ps cids"
    have T: "plan_tables (ps @ [(d, c)]) cids =
        (dict_set d (dict_list (fst T) d @ [c]) (fst T), dict_set c (the (dict_get (snd T) c) + 1) (snd T))"
      by (simp add: plan_tables_def T_def note_pair_def case_prod_unfold)
    have IH: "\<forall>d. dict_list (fst T) d = map snd (filter (\<lambda>p. fst p = d) ps)" "map fst (snd T) = cids"
      "\<forall>c \<in> set cids. dict_get (snd T) c = Some (int (length (filter (\<lambda>p. snd p = c) ps)))"
      using snoc by (auto simp: T_def)
    have "c \<in> fst ` set (snd T)" "c \<in> set cids" using snoc.prems IH(2) p by (auto simp flip: set_map)
    then show ?case using IH(1,3) by (simp add: p T dict_list_set keys_dict_set_same IH(2) dict.lookup_put)
  qed
  then show "dict_list (fst (plan_tables ps cids)) d = map snd (filter (\<lambda>p. fst p = d) ps)" "map fst (snd (plan_tables ps cids)) = cids"
    "c \<in> set cids \<Longrightarrow> dict_get (snd (plan_tables ps cids)) c = Some (int (length (filter (\<lambda>p. snd p = c) ps)))" by blast+
qed

interpretation plan_sort: kahn_client "\<lambda>(ps, cids). cids" "\<lambda>(ps, cids). dict_list (fst (plan_tables ps cids))"
  "\<lambda>(ps, cids). snd (plan_tables ps cids)" "\<lambda>(ps, cids). distinct cids \<and> set ps \<subseteq> set cids \<times> set (cids :: string list)"
proof (unfold_locales, goal_cases)
  case (2 g n)
  then obtain ps cids where g: "g = (ps, cids)" "distinct cids" "set ps \<subseteq> set cids \<times> set cids" by (cases g) auto
  then have "snd ` set ps \<subseteq> set cids" by auto
  then show ?case using g plan_tables_spec(1)[OF g(2), of ps n] by auto
next
  case (3 g)
  then show ?case by (cases g) (auto intro!: plan_tables_spec(2))
next
  case (4 g m)
  then obtain ps cids where g: "g = (ps, cids)" "distinct cids" "set ps \<subseteq> set cids \<times> set cids" "m \<in> set cids" by (cases g) auto
  then have sub: "snd ` set ps \<subseteq> set cids" "fst ` set ps \<subseteq> set cids" by auto
  have "dict_list (fst (plan_tables ps cids)) = (\<lambda>d. map snd (filter (\<lambda>p. fst p = d) ps))"
    using plan_tables_spec(1)[OF g(2) sub(1)] by blast
  then show ?case using g edge_count_pairs[OF g(2) sub(2), of m] plan_tables_spec(3)[OF g(2) sub(1) g(4)] by simp
qed auto

text \<open>Which of the given compilers depends on which: one requires what the other provides.\<close>

definition depends :: "resolver \<Rightarrow> string set \<Rightarrow> (string \<times> string) set" where
  "depends rs R = {(d, c). d \<in> R \<and> c \<in> R \<and> (\<exists>n m a. dict_get (rs_nodes rs) c = Some n \<and> a \<in> set (cn_requires n)
     \<and> dict_get (rs_nodes rs) d = Some m \<and> a \<in> set (cn_provides m))}"

lemma dependency_pairs_spec:
  assumes "rs_ok rs" "set cids = R" "\<And>c. c \<in> R \<Longrightarrow> \<exists>n. dict_get (rs_nodes rs) c = Some n"
  shows "\<exists>pairs. dependency_pairs rs R cids = Inr pairs \<and> set pairs = depends rs R"
proof -
  have "\<not> (\<exists>c \<in> set cids. \<not> dict_in c (rs_nodes rs))" using assms(2,3) by (force simp: dict.has_key_iff)
  moreover have "set (concat (map (\<lambda>c. concat (map (\<lambda>a. map (\<lambda>d. (d, c)) (filter (\<lambda>d. d \<in> R) (dict_list (rs_providers rs) a)))
        (cn_requires (the (dict_get (rs_nodes rs) c))))) cids)) = depends rs R"
    using assms(1,2) assms(3) by (force simp: depends_def rs_ok_def)
  ultimately show ?thesis unfolding dependency_pairs_def by simp
qed

lemma needed_compilers_finite: "rs_ok rs \<Longrightarrow> finite (needed_compilers rs eligible T)"
proof (rule finite_subset)
  assume "rs_ok rs"
  show "needed_compilers rs eligible T \<subseteq> fst ` set (rs_nodes rs)"
    using provider_known[OF \<open>rs_ok rs\<close>] dict.has_key_iff[of _ "rs_nodes rs"] by (fastforce simp: needed_compilers_def dict_in_def)
qed simp

text \<open>The iteration order of a set lists its elements once.\<close>

definition order_ok :: "(string set \<Rightarrow> string list) \<Rightarrow> bool" where
  "order_ok order_of \<longleftrightarrow> (\<forall>S. finite S \<longrightarrow> set (order_of S) = S \<and> distinct (order_of S))"

text \<open>The second half of the resolver, once the required compilers are known.\<close>

lemma resolve_required:
  assumes ok: "rs_ok rs" and ord: "order_ok order_of"
    and req: "required_loop str_of rs (eligible_set rs eligible_ids) targets {} = Inr R"
    and R: "R = needed_compilers rs (eligible_set rs eligible_ids) (set targets)"
  shows "if acyclic (depends rs R)
    then \<exists>plan. resolve_execution_plan str_of order_of rs targets eligible_ids = Inr plan \<and> set plan = R \<and> topological (depends rs R) plan
    else resolve_execution_plan str_of order_of rs targets eligible_ids = Inl (RuntimeError ''Cyclic dependency detected in Compiler DAG!'')"
proof -
  define cids where "cids = order_of R"
  have cids: "set cids = R" "distinct cids"
    using ord needed_compilers_finite[OF ok] by (auto simp: order_ok_def cids_def R)
  have known: "\<exists>n. dict_get (rs_nodes rs) c = Some n" if "c \<in> R" for c
    using that provider_known[OF ok] by (auto simp: R needed_compilers_def)
  obtain pairs where pairs: "dependency_pairs rs R cids = Inr pairs" "set pairs = depends rs R"
    using dependency_pairs_spec[OF ok cids(1) known] by blast
  have sub: "set pairs \<subseteq> set cids \<times> set cids" using pairs(2) cids(1) by (auto simp: depends_def)
  then have sub': "snd ` set pairs \<subseteq> set cids" by auto
  define T where "T = plan_tables pairs cids"
  have E: "kahn_edges (dict_list (fst T)) cids = depends rs R"
    using sub pairs(2) by (force simp: T_def kahn_edges_def plan_tables_spec(1)[OF cids(2) sub'])
  obtain plan where plan: "kahn_loop (dict_list (fst T)) (map fst (filter (\<lambda>p. snd p = 0) (snd T))) (snd T) [] = Some plan"
    "topological (depends rs R) plan"
    "length plan = length cids \<longleftrightarrow> acyclic (depends rs R)" "length plan = length cids \<longrightarrow> set plan = set cids"
    using plan_sort.kahn_sorts[of "(pairs, cids)"] cids(2) sub E by (auto simp: T_def)
  have len: "length cids = card R" using cids distinct_card by fastforce
  have "resolve_execution_plan str_of order_of rs targets eligible_ids =
      (if length plan \<noteq> card R then Inl (RuntimeError ''Cyclic dependency detected in Compiler DAG!'') else Inr plan)"
    using req pairs(1) plan(1) by (simp add: resolve_execution_plan_def Let_def cids_def[symmetric] T_def[symmetric] case_prod_unfold)
  then show ?thesis using plan(2-4) len cids(1) by auto
qed

text \<open>C14. For compilers registered in any order the resolver always returns. If some artifact that the targets need, directly or through requirements, has no
  eligible provider, it raises the \<open>ValueError\<close> for such an artifact. Otherwise it raises \<open>RuntimeError\<close> when the needed
  compilers depend on each other cyclically, and else returns exactly the needed compilers, each once and every one after all those of the plan that provide
  something it requires.\<close>

theorem execution_plan_spec:
  assumes "registered rs" "order_ok order_of" "eligible = eligible_set rs eligible_ids" "R = needed_compilers rs eligible (set targets)"
  shows "if \<exists>a \<in> needed rs eligible (set targets). eligible_providers rs eligible a = []
    then \<exists>a \<in> needed rs eligible (set targets). eligible_providers rs eligible a = []
      \<and> resolve_execution_plan str_of order_of rs targets eligible_ids = Inl (no_provider str_of a)
    else if acyclic (depends rs R)
    then \<exists>plan. resolve_execution_plan str_of order_of rs targets eligible_ids = Inr plan \<and> set plan = R
      \<and> topological (depends rs R) plan
    else resolve_execution_plan str_of order_of rs targets eligible_ids = Inl (RuntimeError ''Cyclic dependency detected in Compiler DAG!'')"
proof -
  let ?N = "needed rs eligible (set targets)"
  have ok: "rs_ok rs" using registered_ok assms(1) .
  have loop: "if \<forall>a \<in> ?N. eligible_providers rs eligible a \<noteq> [] then required_loop str_of rs eligible targets {} = Inr R
    else \<exists>a \<in> ?N. eligible_providers rs eligible a = [] \<and> required_loop str_of rs eligible targets {} = Inl (no_provider str_of a)"
    unfolding assms(4) by (rule required_loop_spec[OF ok]) (auto intro: needed.target simp: requires_of_def)
  show ?thesis
  proof (cases "\<forall>a \<in> ?N. eligible_providers rs eligible a \<noteq> []")
    case False
    from loop[unfolded if_not_P[OF this]] obtain a where a: "a \<in> ?N" "eligible_providers rs eligible a = []"
      "required_loop str_of rs eligible targets {} = Inl (no_provider str_of a)" by blast
    then have "resolve_execution_plan str_of order_of rs targets eligible_ids = Inl (no_provider str_of a)"
      by (simp add: resolve_execution_plan_def Let_def assms(3))
    then show ?thesis using a(1,2) by auto
  next
    case True
    then show ?thesis using resolve_required[OF ok assms(2), of str_of eligible_ids targets R] loop assms(3,4) by auto
  qed
qed

lemma order_ok_sorted: "order_ok sorted_list_of_set"
  by (simp add: order_ok_def)

definition two_compilers :: resolver where
  "two_compilers = snd (register (plain_compiler ''api'' ''FastAPICompiler'' SOURCE_CODE)
     (snd (register \<lparr>cn_compiler_id = ''ci'', cn_compiler_class = ''CICDDeploymentCompiler'', cn_provides = [CI_CD_PIPELINE],
        cn_requires = [SOURCE_CODE], cn_consumed_genes = None, cn_consumed_node_types = None\<rparr> BuildGraphResolver)))"

lemmas two_compilers_eval = two_compilers_def register_def BuildGraphResolver_def plain_compiler_def dict_in_def dict_set_def
  dict_list_def dict_get_def eligible_providers_def eligible_set_def

theorem execution_plan_spec_witness:
  "\<exists>plan. resolve_execution_plan (\<lambda>_. []) sorted_list_of_set two_compilers [CI_CD_PIPELINE] None = Inr plan
     \<and> set plan = {''api'', ''ci''}"
proof -
  let ?el = "eligible_set two_compilers None"
  have reg: "registered two_compilers" unfolding two_compilers_def by (intro registered.intros)
  have "a \<in> needed two_compilers ?el {CI_CD_PIPELINE} \<Longrightarrow> a \<in> {CI_CD_PIPELINE, SOURCE_CODE}" for a
    by (induction rule: needed.induct) (auto simp: two_compilers_eval split: if_splits)
  moreover have "SOURCE_CODE \<in> needed two_compilers ?el {CI_CD_PIPELINE}"
    by (rule needed.requires[OF needed.target, of CI_CD_PIPELINE _ "''ci''"]) (simp add: two_compilers_eval)+
  ultimately have N: "needed two_compilers ?el {CI_CD_PIPELINE} = {CI_CD_PIPELINE, SOURCE_CODE}" by (auto intro: needed.target)
  then have R: "needed_compilers two_compilers ?el {CI_CD_PIPELINE} = {''api'', ''ci''}"
    by (auto simp: needed_compilers_def two_compilers_eval)
  have "depends two_compilers {''api'', ''ci''} = {(''api'', ''ci'')}"
    by (auto simp: depends_def two_compilers_eval split: if_splits)
  then have "acyclic (depends two_compilers {''api'', ''ci''})" by (simp add: acyclic_insert acyclicI)
  moreover have "\<not> (\<exists>a \<in> {CI_CD_PIPELINE, SOURCE_CODE}. eligible_providers two_compilers ?el a = [])"
    by (simp add: two_compilers_eval)
  ultimately show ?thesis
    using execution_plan_spec[OF reg order_ok_sorted, of ?el None "{''api'', ''ci''}" "[CI_CD_PIPELINE]" "\<lambda>_. []"] R N by auto
qed

end
