(* ===== verification/Pa_Fronts.thy ===== *)
theory Pa_Fronts
  imports Gr_Kahn
begin

text \<open>
  Fast non-dominated sorting, the loops of \<^verbatim>\<open>evolution/pareto.py\<close> over an arbitrary dominance test: two nested loops
  fill a domination count and a list of dominated candidates per candidate, then fronts are peeled off
  while the counts fall to zero. The reference is \<open>peel_fronts\<close>: repeatedly remove the
  candidates that nobody left dominates. The locale \<open>dominance\<close> is what the sort needs of the test.
\<close>

section \<open>The sort\<close>

type_synonym 'c front_tables = "('c, int) dict \<times> ('c, 'c list) dict"

text \<open>Both dictionaries have a key for every candidate, so that the subscripts of the source find one.\<close>

definition table_row :: "('c, 'c list) dict \<Rightarrow> 'c \<Rightarrow> 'c list" where
  "table_row sets c = (case dict_get sets c of None \<Rightarrow> [] | Some cs \<Rightarrow> cs)"

definition table_count :: "('c, int) dict \<Rightarrow> 'c \<Rightarrow> int" where
  "table_count counts c = (case dict_get counts c of None \<Rightarrow> 0 | Some n \<Rightarrow> n)"

text \<open>The body of the inner loop: \<open>candidate_id\<close> against \<open>other_id\<close>.\<close>

definition compare_pair :: "('c \<Rightarrow> 'c \<Rightarrow> bool) \<Rightarrow> 'c \<Rightarrow> 'c \<Rightarrow> 'c front_tables \<Rightarrow> 'c front_tables" where
  "compare_pair beats c other t =
     (let (counts, sets) = t in
      if c = other then t
      else if beats c other then (counts, dict_set c (table_row sets c @ [other]) sets)
      else if beats other c then (dict_set c (table_count counts c + 1) counts, sets)
      else t)"

text \<open>The body of the outer loop.\<close>

definition rank_candidate ::
  "('c \<Rightarrow> 'c \<Rightarrow> bool) \<Rightarrow> 'c list \<Rightarrow> 'c \<Rightarrow> 'c front_tables \<times> 'c list \<Rightarrow> 'c front_tables \<times> 'c list" where
  "rank_candidate beats ids c s =
     (let t = fold (compare_pair beats c) ids (fst s)
      in (t, if table_count (fst t) c = 0 then snd s @ [c] else snd s))"

definition front_tables :: "('c \<Rightarrow> 'c \<Rightarrow> bool) \<Rightarrow> 'c list \<Rightarrow> 'c front_tables \<times> 'c list" where
  "front_tables beats ids = fold (rank_candidate beats ids) ids ((map (\<lambda>c. (c, 0)) ids, map (\<lambda>c. (c, [])) ids), [])"

text \<open>The \<open>while\<close> loop. One pass over the current front counts down every candidate that it dominates;
  \<open>None\<close> is the \<open>KeyError\<close> of a missing count.\<close>

function fronts_loop :: "('c, 'c list) dict \<Rightarrow> 'c list \<Rightarrow> ('c, int) dict \<Rightarrow> 'c list list \<Rightarrow> 'c list list option" where
  "fronts_loop sets front counts fronts =
     (case kahn_relax (concat (map (table_row sets) front)) counts [] of
        None \<Rightarrow> None
      | Some (counts', next_front) \<Rightarrow>
          if next_front = [] then Some fronts
          else fronts_loop sets next_front counts' (fronts @ [next_front]))"
  by pat_completeness auto

termination
proof (relation "measure (\<lambda>(sets, front, counts, fronts). open_degree counts)", goal_cases)
  case (2 sets front counts fronts x2 counts' next_front)
  then have "open_degree counts' + length next_front \<le> open_degree counts" "0 < length next_front"
    using kahn_relax_measure[of "concat (map (table_row sets) front)" counts "[]"] by auto
  then show ?case by (simp del: length_greater_0_conv)
qed simp

declare fronts_loop.simps [simp del]

definition nd_sort :: "('c \<Rightarrow> 'c \<Rightarrow> bool) \<Rightarrow> 'c list \<Rightarrow> 'c list list option" where
  "nd_sort beats ids =
     (if ids = [] then Some []
      else
        (let (t, first) = front_tables beats ids
         in if first = [] then Some [] else fronts_loop (snd t) first (fst t) [first]))"

section \<open>The reference\<close>

definition undominated :: "('c \<Rightarrow> 'c \<Rightarrow> bool) \<Rightarrow> 'c list \<Rightarrow> 'c list" where
  "undominated beats cs = filter (\<lambda>c. \<forall>d \<in> set cs. \<not> beats d c) cs"

function peel_fronts :: "('c \<Rightarrow> 'c \<Rightarrow> bool) \<Rightarrow> 'c list \<Rightarrow> 'c list list" where
  "peel_fronts beats cs =
     (if undominated beats cs = [] then []
      else undominated beats cs # peel_fronts beats (filter (\<lambda>c. c \<notin> set (undominated beats cs)) cs))"
  by pat_completeness auto

termination
proof (relation "measure (\<lambda>(beats, cs). length cs)", goal_cases)
  case (2 beats cs)
  then obtain c where "c \<in> set (undominated beats cs)" by (cases "undominated beats cs") auto
  then have "c \<in> set cs" "c \<in> set (undominated beats cs)" by (auto simp: undominated_def)
  then show ?case by (auto intro!: length_filter_less)
qed simp

declare peel_fronts.simps [simp del]

lemma peel_fronts_Nil: "undominated beats cs = [] \<Longrightarrow> peel_fronts beats cs = []"
  by (simp add: peel_fronts.simps)

lemma peel_fronts_Cons:
  "undominated beats cs \<noteq> [] \<Longrightarrow>
     peel_fronts beats cs = undominated beats cs # peel_fronts beats (filter (\<lambda>c. c \<notin> set (undominated beats cs)) cs)"
  by (subst peel_fronts.simps) simp

lemma set_undominated: "set (undominated beats cs) = {c \<in> set cs. \<forall>d \<in> set cs. \<not> beats d c}"
  by (simp add: undominated_def)

text \<open>Fronts are disjoint, and a candidate's dominators are in earlier fronts.\<close>

lemma peel_fronts_members: "set (concat (peel_fronts beats cs)) \<subseteq> set cs"
proof (induction beats cs rule: peel_fronts.induct)
  case (1 beats cs)
  show ?case
  proof (cases "undominated beats cs = []")
    case False
    then show ?thesis using "1.IH"[OF False] by (auto simp: peel_fronts.simps[of beats cs] set_undominated)
  qed (simp add: peel_fronts.simps)
qed

lemma peel_fronts_distinct: "distinct cs \<Longrightarrow> distinct (concat (peel_fronts beats cs))"
proof (induction beats cs rule: peel_fronts.induct)
  case (1 beats cs)
  have "distinct (undominated beats cs)" using "1.prems" by (simp add: undominated_def)
  moreover have "set (undominated beats cs) \<inter> set (concat (peel_fronts beats (filter (\<lambda>c. c \<notin> set (undominated beats cs)) cs))) = {}"
    using peel_fronts_members[of beats "filter (\<lambda>c. c \<notin> set (undominated beats cs)) cs"] by auto
  ultimately show ?case using 1 by (auto simp: peel_fronts.simps[of beats cs])
qed

lemma peel_fronts_dominators:
  "j < length (peel_fronts beats cs) \<Longrightarrow> c \<in> set (peel_fronts beats cs ! j) \<Longrightarrow> d \<in> set cs \<Longrightarrow> beats d c \<Longrightarrow>
     \<exists>i < j. d \<in> set (peel_fronts beats cs ! i)"
proof (induction beats cs arbitrary: j rule: peel_fronts.induct)
  case (1 beats cs)
  let ?f = "undominated beats cs" and ?r = "filter (\<lambda>c. c \<notin> set (undominated beats cs)) cs"
  have ne: "?f \<noteq> []" using "1.prems"(1) by (auto simp: peel_fronts.simps[of beats cs])
  then have eq: "peel_fronts beats cs = ?f # peel_fronts beats ?r" by (simp add: peel_fronts.simps[of beats cs])
  show ?case
  proof (cases j)
    case 0
    then show ?thesis using "1.prems" by (auto simp: eq set_undominated)
  next
    case (Suc k)
    show ?thesis
    proof (cases "d \<in> set ?f")
      case True
      then show ?thesis using Suc by (intro exI[of _ 0]) (simp add: eq)
    next
      case False
      then obtain i where "i < k" "d \<in> set (peel_fronts beats ?r ! i)"
        using "1.IH"[OF ne, of k] "1.prems" Suc by (auto simp: eq)
      then show ?thesis using Suc by (intro exI[of _ "Suc i"]) (simp add: eq)
    qed
  qed
qed

text \<open>Where dominance has no cycles, every candidate has a front.\<close>

lemma peel_fronts_complete:
  assumes "acyclic {(d, c). d \<in> A \<and> c \<in> A \<and> beats d c}" "finite A"
  shows "set cs \<subseteq> A \<Longrightarrow> set (concat (peel_fronts beats cs)) = set cs"
  using assms(1)
proof (induction beats cs rule: peel_fronts.induct)
  case (1 beats cs)
  let ?E = "{(d, c). d \<in> A \<and> c \<in> A \<and> beats d c}"
  show ?case
  proof (cases "undominated beats cs = []")
    case True
    have "finite ?E" by (rule finite_subset[of _ "A \<times> A"]) (use assms(2) in auto)
    then have "wf ?E" using "1.prems"(2) by (rule finite_acyclic_wf)
    have "cs = []"
    proof (rule ccontr)
      assume "cs \<noteq> []"
      then obtain x where "x \<in> set cs" by (cases cs) auto
      then obtain m where m: "m \<in> set cs" "\<And>d. (d, m) \<in> ?E \<Longrightarrow> d \<notin> set cs"
        using \<open>wf ?E\<close> unfolding wf_eq_minimal by meson
      then have "m \<in> set (undominated beats cs)" using "1.prems"(1) by (auto simp: set_undominated)
      then show False using True by simp
    qed
    then show ?thesis by (simp add: peel_fronts.simps[of beats "[]"] undominated_def)
  next
    case False
    then show ?thesis using 1 by (auto simp: peel_fronts.simps[of beats cs] set_undominated)
  qed
qed

section \<open>The tables\<close>

text \<open>What the inner loop does for one candidate.\<close>

lemma compare_pairs:
  assumes "fst ` set (fst t) = fst ` set (snd t)" "c \<in> fst ` set (fst t)"
  shows "dict_get (fst (fold (compare_pair beats c) os t)) k =
       (if k = c then Some (table_count (fst t) c + int (length (filter (\<lambda>d. d \<noteq> c \<and> \<not> beats c d \<and> beats d c) os)))
        else dict_get (fst t) k)
   \<and> table_row (snd (fold (compare_pair beats c) os t)) k =
       (if k = c then table_row (snd t) c @ filter (\<lambda>d. d \<noteq> c \<and> beats c d) os else table_row (snd t) k)
   \<and> fst ` set (fst (fold (compare_pair beats c) os t)) = fst ` set (fst t)
   \<and> fst ` set (snd (fold (compare_pair beats c) os t)) = fst ` set (snd t)"
  using assms
proof (induction os arbitrary: t)
  case Nil
  then obtain n where "dict_get (fst t) c = Some n" unfolding dict_get_def by (metis map_of_eq_None_iff not_None_eq)
  then show ?case by (simp add: table_count_def)
next
  case (Cons d os)
  let ?t = "compare_pair beats c d t"
  have keys: "fst ` set (fst ?t) = fst ` set (fst t)" "fst ` set (snd ?t) = fst ` set (snd t)"
    using Cons.prems by (auto simp: compare_pair_def Let_def split_beta keys_dict_set)
  have "table_count (fst ?t) c = table_count (fst t) c + (if d \<noteq> c \<and> \<not> beats c d \<and> beats d c then 1 else 0)"
    "table_row (snd ?t) k = table_row (snd t) k @ (if k = c \<and> d \<noteq> c \<and> beats c d then [d] else [])"
    "k \<noteq> c \<Longrightarrow> dict_get (fst ?t) k = dict_get (fst t) k" for k
    by (auto simp: compare_pair_def split_beta table_count_def table_row_def dict.lookup_put)
  then show ?case using Cons.IH[of ?t] Cons.prems keys by auto
qed

text \<open>What the outer loop leaves behind: with a test that never holds both ways, the count of a candidate is the number
  of its dominators, its row lists what it dominates, and the first front is the undominated candidates.\<close>

definition dominators :: "('c \<Rightarrow> 'c \<Rightarrow> bool) \<Rightarrow> 'c set \<Rightarrow> 'c \<Rightarrow> 'c set" where
  "dominators beats A c = {d \<in> A. beats d c}"

lemma finite_dominators [simp]: "finite A \<Longrightarrow> finite (dominators beats A c)"
  by (simp add: dominators_def)

lemma dict_get_const: "dict_get (map (\<lambda>c. (c, v)) ids) k = (if k \<in> set ids then Some v else None)"
  by (induction ids) (auto simp: dict_get_def)

section \<open>Correctness\<close>

text \<open>What the sort needs of the test: it never holds both ways.\<close>

locale dominance =
  fixes beats :: "'c \<Rightarrow> 'c \<Rightarrow> bool"
  assumes beats_asym: "beats c d \<Longrightarrow> \<not> beats d c"
begin

lemma beats_irrefl: "\<not> beats c c"
  using beats_asym by blast

lemma count_dominators:
  assumes "distinct ids"
  shows "length (filter (\<lambda>d. d \<noteq> c \<and> \<not> beats c d \<and> beats d c) ids) = card (dominators beats (set ids) c)"
proof -
  have "(\<lambda>d. d \<noteq> c \<and> \<not> beats c d \<and> beats d c) = (\<lambda>d. beats d c)" using beats_asym beats_irrefl by blast
  then show ?thesis using assms by (simp add: dominators_def distinct_card[symmetric] Collect_conj_eq Int_commute)
qed

lemma row_dominated: "filter (\<lambda>d. d \<noteq> c \<and> beats c d) ids = filter (beats c) ids"
  using beats_irrefl by (auto intro!: filter_cong)

lemma rank_candidates:
  assumes "distinct ids" "distinct cs" "set cs \<subseteq> set ids"
    and "fst ` set (fst (fst s)) = set ids" "fst ` set (snd (fst s)) = set ids"
    and "\<And>c. c \<in> set cs \<Longrightarrow> table_count (fst (fst s)) c = 0 \<and> table_row (snd (fst s)) c = []"
  shows "dict_get (fst (fst (fold (rank_candidate beats ids) cs s))) k =
       (if k \<in> set cs then Some (int (card (dominators beats (set ids) k))) else dict_get (fst (fst s)) k)
   \<and> table_row (snd (fst (fold (rank_candidate beats ids) cs s))) k =
       (if k \<in> set cs then filter (beats k) ids else table_row (snd (fst s)) k)
   \<and> snd (fold (rank_candidate beats ids) cs s) = snd s @ filter (\<lambda>c. dominators beats (set ids) c = {}) cs"
  using assms(2-)
proof (induction cs arbitrary: s)
  case (Cons c cs)
  let ?s = "rank_candidate beats ids c s" and ?n = "int (card (dominators beats (set ids) c))"
  have c: "c \<in> fst ` set (fst (fst s))" "fst ` set (fst (fst s)) = fst ` set (snd (fst s))"
    "table_count (fst (fst s)) c = 0" "table_row (snd (fst s)) c = []" using Cons.prems by auto
  note inner = compare_pairs[OF c(2,1), of beats ids, unfolded c(3,4) row_dominated count_dominators[OF assms(1)] append_Nil add_0]
  have get: "dict_get (fst (fst ?s)) k = (if k = c then Some ?n else dict_get (fst (fst s)) k)"
    and row: "table_row (snd (fst ?s)) k = (if k = c then filter (beats c) ids else table_row (snd (fst s)) k)"
    and keys: "fst ` set (fst (fst ?s)) = set ids" "fst ` set (snd (fst ?s)) = set ids" for k
    using inner[of k] Cons.prems(3,4) by (simp_all add: rank_candidate_def Let_def)
  have first: "snd ?s = snd s @ (if dominators beats (set ids) c = {} then [c] else [])"
    using get[of c] by (simp add: rank_candidate_def Let_def table_count_def)
  have "table_count (fst (fst ?s)) d = 0 \<and> table_row (snd (fst ?s)) d = []" if "d \<in> set cs" for d
    using that Cons.prems(1,5) by (auto simp: table_count_def get row)
  then show ?case using Cons.IH[of ?s] Cons.prems keys by (auto simp: get row first)
qed simp

lemma front_tables_spec:
  assumes "distinct ids"
  shows "dict_get (fst (fst (front_tables beats ids))) k =
       (if k \<in> set ids then Some (int (card (dominators beats (set ids) k))) else None)
   \<and> table_row (snd (fst (front_tables beats ids))) k = (if k \<in> set ids then filter (beats k) ids else [])
   \<and> snd (front_tables beats ids) = undominated beats ids"
proof -
  let ?s = "((map (\<lambda>c. (c, 0 :: int)) ids, map (\<lambda>c. (c, [])) ids), [])"
  have "filter (\<lambda>c. dominators beats (set ids) c = {}) ids = undominated beats ids"
    by (auto simp: undominated_def dominators_def intro!: filter_cong)
  then show ?thesis
    using rank_candidates[OF assms assms subset_refl, of ?s]
    by (simp add: front_tables_def image_image table_count_def table_row_def dict_get_const)
qed

text \<open>Between two passes of the \<open>while\<close> loop, with \<open>E\<close> the candidates of the fronts before the current one: the current front is what
  nobody outside \<open>E\<close> dominates, the counts are the dominators outside \<open>E\<close>, and candidates in \<open>E\<close> have none.\<close>

definition front_inv :: "'c list \<Rightarrow> 'c set \<Rightarrow> 'c list \<Rightarrow> ('c, int) dict \<Rightarrow> bool" where
  "front_inv ids E front counts \<longleftrightarrow> distinct front \<and> (\<forall>c \<in> E. dominators beats (set ids - E) c = {})
     \<and> set front = {c \<in> set ids - E. dominators beats (set ids - E) c = {}}
     \<and> (\<forall>m. dict_get counts m = (if m \<in> set ids then Some (int (card (dominators beats (set ids - E) m))) else None))"

lemma count_front:
  assumes "distinct ids" "distinct front" "set front \<subseteq> set ids" "m \<in> set ids"
  shows "count_list (concat (map (\<lambda>c. filter (beats c) ids) front)) m = card (dominators beats (set front) m)"
proof -
  have one: "count_list (filter P ids) m = (if P m then 1 else 0)" for P
    using assms(1,4) by (induction ids) (auto simp: count_list_0_iff)
  have "count_list (concat (map (\<lambda>c. filter (beats c) ids) front)) m = length (filter (\<lambda>c. beats c m) front)"
    by (induction front) (auto simp: one)
  then show ?thesis using assms(2) by (simp add: dominators_def distinct_card[symmetric] Collect_conj_eq Int_commute)
qed

lemma front_pass:
  assumes d: "distinct ids" and inv: "front_inv ids E front counts"
    and rows: "\<And>c. c \<in> set ids \<Longrightarrow> table_row sets c = filter (beats c) ids"
  shows "\<exists>counts' next_front. kahn_relax (concat (map (table_row sets) front)) counts [] = Some (counts', next_front)
     \<and> front_inv ids (E \<union> set front) next_front counts'"
proof -
  let ?ns = "concat (map (table_row sets) front)" and ?R = "set ids - E"
  have F: "distinct front" "set front \<subseteq> ?R" "set front = {c \<in> ?R. dominators beats ?R c = {}}"
    and get: "dict_get counts m = (if m \<in> set ids then Some (int (card (dominators beats ?R m))) else None)" for m
    using inv by (auto simp: front_inv_def)
  have E: "\<And>c. c \<in> E \<Longrightarrow> dominators beats ?R c = {}" using inv by (simp add: front_inv_def)
  have ns: "?ns = concat (map (\<lambda>c. filter (beats c) ids) front)"
    using F(2) by (intro arg_cong[where f = concat] map_cong refl rows) auto
  have cnt: "count_list ?ns m = card (dominators beats (set front) m)" if "m \<in> set ids" for m
    unfolding ns by (rule count_front[OF d F(1) _ that]) (use F(2) in blast)
  have split: "card (dominators beats ?R m) = card (dominators beats (set front) m) + card (dominators beats (?R - set front) m)" for m
  proof -
    have "dominators beats ?R m = dominators beats (set front) m \<union> dominators beats (?R - set front) m"
      using F(2) by (auto simp: dominators_def)
    moreover have "dominators beats (set front) m \<inter> dominators beats (?R - set front) m = {}" by (auto simp: dominators_def)
    ultimately show ?thesis by (simp add: card_Un_disjoint)
  qed
  have "\<exists>v. dict_get counts m = Some v \<and> int (count_list ?ns m) \<le> v" if "m \<in> set ?ns" for m
  proof -
    have "m \<in> set ids" using that by (auto simp: ns)
    then show ?thesis using cnt[of m] split[of m] by (simp add: get)
  qed
  from kahn_relax_spec[OF this, of "[]"] obtain counts' new where
    r: "kahn_relax ?ns counts [] = Some (counts', new)" and dn: "distinct new"
    and new: "set new = {m \<in> set ?ns. dict_get counts m = Some (int (count_list ?ns m))}"
    and get': "\<forall>m. dict_get counts' m = map_option (\<lambda>v. v - int (count_list ?ns m)) (dict_get counts m)"
    by auto
  have R: "set ids - (E \<union> set front) = ?R - set front" by blast
  have "set new = {c \<in> ?R - set front. dominators beats (?R - set front) c = {}}"
  proof (rule set_eqI)
    fix m
    have "m \<in> set new \<longleftrightarrow> m \<in> set ids \<and> dominators beats (set front) m \<noteq> {} \<and> dominators beats (?R - set front) m = {}"
      using cnt[of m] split[of m] by (auto simp: new get ns dominators_def)
    also have "\<dots> \<longleftrightarrow> m \<in> {c \<in> ?R - set front. dominators beats (?R - set front) c = {}}"
      using F(2,3) E[of m] by (auto simp: dominators_def)
    finally show "m \<in> set new \<longleftrightarrow> m \<in> {c \<in> ?R - set front. dominators beats (?R - set front) c = {}}" .
  qed
  moreover have "dominators beats (?R - set front) c = {}" if "c \<in> E \<union> set front" for c
    using that E[of c] F(3) by (auto simp: dominators_def)
  ultimately have "front_inv ids (E \<union> set front) new counts'"
    using dn get' cnt split by (simp add: front_inv_def R get)
  then show ?thesis using r by blast
qed

lemma fronts_loop_peels:
  assumes d: "distinct ids"
  shows "front_inv ids E front counts \<Longrightarrow> \<forall>c \<in> set ids. table_row sets c = filter (beats c) ids \<Longrightarrow>
     \<exists>gs. fronts_loop sets front counts fronts = Some (fronts @ gs) \<and> list_all distinct gs
        \<and> map set gs = map set (peel_fronts beats (filter (\<lambda>c. c \<notin> E \<union> set front) ids))"
proof (induction sets front counts fronts arbitrary: E rule: fronts_loop.induct)
  case (1 sets front counts fronts)
  let ?E = "E \<union> set front" and ?r = "filter (\<lambda>c. c \<notin> E \<union> set front) ids"
  obtain counts' nf where p: "kahn_relax (concat (map (table_row sets) front)) counts [] = Some (counts', nf)"
    and inv: "front_inv ids ?E nf counts'" using front_pass[OF d "1.prems"(1)] "1.prems"(2) by blast
  have nf: "set nf = set (undominated beats ?r)" "distinct nf" using inv by (auto simp: front_inv_def set_undominated dominators_def)
  show ?case
  proof (cases "nf = []")
    case True
    then have "undominated beats ?r = []" using nf(1) by simp
    then show ?thesis using p True by (simp add: fronts_loop.simps[of sets front] peel_fronts_Nil)
  next
    case False
    obtain gs where gs: "fronts_loop sets nf counts' (fronts @ [nf]) = Some ((fronts @ [nf]) @ gs)" "list_all distinct gs"
      "map set gs = map set (peel_fronts beats (filter (\<lambda>c. c \<notin> ?E \<union> set nf) ids))"
      using "1.IH"[OF p refl False inv "1.prems"(2)] by blast
    have "filter (\<lambda>c. c \<notin> set (undominated beats ?r)) ?r = filter (\<lambda>c. c \<notin> ?E \<union> set nf) ids"
      unfolding nf(1)[symmetric] by (auto intro!: filter_cong)
    moreover have "undominated beats ?r \<noteq> []" using False nf(1) by auto
    ultimately have "map set (nf # gs) = map set (peel_fronts beats ?r)"
      using gs(3) nf(1) peel_fronts_Cons[of beats ?r] by simp
    then show ?thesis using p False gs(1,2) nf(2) by (intro exI[of _ "nf # gs"]) (simp add: fronts_loop.simps[of sets front])
  qed
qed

text \<open>The sort returns the fronts of the reference.\<close>

lemma nd_sort_peels:
  assumes "distinct ids"
  shows "\<exists>fronts. nd_sort beats ids = Some fronts \<and> map set fronts = map set (peel_fronts beats ids)
     \<and> list_all distinct fronts"
proof (cases "undominated beats ids = []")
  case True
  then show ?thesis using front_tables_spec[OF assms]
    by (auto simp: nd_sort_def split_beta peel_fronts.simps[of beats ids])
next
  case False
  obtain t where t: "front_tables beats ids = (t, undominated beats ids)"
    using front_tables_spec[OF assms] by (metis prod.collapse)
  have "front_inv ids {} (undominated beats ids) (fst t)"
    using front_tables_spec[OF assms] t assms by (auto simp: front_inv_def set_undominated undominated_def dominators_def)
  moreover have "table_row (snd t) c = filter (beats c) ids" if "c \<in> set ids" for c
    using front_tables_spec[OF assms, of c] t that by simp
  ultimately obtain gs where gs: "fronts_loop (snd t) (undominated beats ids) (fst t) [undominated beats ids] = Some ([undominated beats ids] @ gs)"
    "list_all distinct gs"
    "map set gs = map set (peel_fronts beats (filter (\<lambda>c. c \<notin> {} \<union> set (undominated beats ids)) ids))"
    using fronts_loop_peels[OF assms] by blast
  have "ids \<noteq> []" using False by (auto simp: undominated_def)
  then have "nd_sort beats ids = Some (undominated beats ids # gs)" using False t gs(1) by (simp add: nd_sort_def)
  moreover have "map set (undominated beats ids # gs) = map set (peel_fronts beats ids)"
    using False gs(3) by (simp add: peel_fronts.simps[of beats ids])
  moreover have "distinct (undominated beats ids)" using assms by (simp add: undominated_def)
  ultimately show ?thesis using gs(2) by (intro exI[of _ "undominated beats ids # gs"]) simp
qed

end

end
