(* ===== verification/Pa_Selection.thy ===== *)
theory Pa_Selection
  imports Pa_Fronts "HOL-Library.Multiset" "HOL-Library.List_Lexorder" "HOL-Library.Char_ord"
begin

text \<open>
  Multi-candidate selection (\<^verbatim>\<open>evolution/pareto.py\<close>, with its data from \<^verbatim>\<open>evolution/models.py\<close>): dominance with a tolerance, the
  non-dominated sort of \<open>Pa_Fronts\<close> over it, crowding distances, and the selection of candidates front by front.
  \<open>sorted\<close> is a stable insertion sort; on keys without NaN every stable sort returns the same list. What a
  front is ordered by does not enter the theorems, only that ordering permutes it.
\<close>

section \<open>Data\<close>

type_synonym objective_values = "(string, pyfloat) dict"

record FitnessEvaluation =
  fe_id :: string
  fe_candidate_id :: string
  fe_objectives :: objective_values
  fe_constraints :: "(string, bool) dict"
  fe_passed :: bool
  fe_notes :: "string list"
  fe_created_at :: string

text \<open>The verification report is stored and never read here: it stays a type variable.\<close>

record 'v CandidateEvaluationRecord =
  ce_candidate_id :: string
  ce_simulation_id :: "string option"
  ce_verification :: "'v option"
  ce_fitness :: "FitnessEvaluation option"
  ce_feasible :: bool
  ce_reasons :: "string list"
  ce_created_at :: string

record ParetoSelectionPolicy =
  po_objectives :: "string list"
  po_max_selected :: int
  po_min_objective_value :: pyfloat
  po_epsilon :: pyfloat
  po_require_constraints :: bool

text \<open>The bounds of the fields, checked when a policy is built.\<close>

definition policy_ok :: "ParetoSelectionPolicy \<Rightarrow> bool" where
  "policy_ok p \<longleftrightarrow> 1 \<le> po_max_selected p \<and> po_max_selected p \<le> 20
     \<and> f_le (Fin 0) (po_min_objective_value p) \<and> f_le (po_min_objective_value p) (Fin 1)
     \<and> f_le (Fin 0) (po_epsilon p)"

record ParetoCandidate =
  pc_candidate_id :: string
  pc_rank :: nat
  pc_crowding_distance :: pyfloat
  pc_objectives :: objective_values

record ParetoSelectionResult =
  ps_proposal_id :: string
  ps_objectives :: "string list"
  ps_fronts :: "ParetoCandidate list list"
  ps_selected_candidate_ids :: "string list"
  ps_selected_candidate_id :: "string option"
  ps_created_at :: string

section \<open>Dominance and fronts\<close>

definition objective_value :: "objective_values \<Rightarrow> string \<Rightarrow> pyfloat" where
  "objective_value a objective = (case dict_get a objective of None \<Rightarrow> Fin 0 | Some x \<Rightarrow> x)"

fun dominates_loop :: "objective_values \<Rightarrow> objective_values \<Rightarrow> pyfloat \<Rightarrow> string list \<Rightarrow> bool \<Rightarrow> bool" where
  "dominates_loop a b epsilon [] at_least_one_better = at_least_one_better"
| "dominates_loop a b epsilon (objective # objectives) at_least_one_better =
     (let a_value = objective_value a objective; b_value = objective_value b objective
      in if f_lt (f_add a_value epsilon) b_value then False
         else dominates_loop a b epsilon objectives
                (if f_gt a_value (f_add b_value epsilon) then True else at_least_one_better))"

definition dominates :: "objective_values \<Rightarrow> objective_values \<Rightarrow> string list \<Rightarrow> pyfloat \<Rightarrow> bool" where
  "dominates a b objectives epsilon = dominates_loop a b epsilon objectives False"

text \<open>\<open>values_by_candidate[candidate_id]\<close>, for a key of the dictionary.\<close>

definition values_of :: "(string, objective_values) dict \<Rightarrow> string \<Rightarrow> objective_values" where
  "values_of vs c = (case dict_get vs c of None \<Rightarrow> [] | Some v \<Rightarrow> v)"

definition beats_in :: "(string, objective_values) dict \<Rightarrow> string list \<Rightarrow> pyfloat \<Rightarrow> string \<Rightarrow> string \<Rightarrow> bool" where
  "beats_in vs objectives epsilon c d = dominates (values_of vs c) (values_of vs d) objectives epsilon"

definition non_dominated_sort ::
  "(string, objective_values) dict \<Rightarrow> string list \<Rightarrow> pyfloat \<Rightarrow> string list list option" where
  "non_dominated_sort vs objectives epsilon = nd_sort (beats_in vs objectives epsilon) (map fst vs)"

section \<open>Crowding distance\<close>

definition LARGE_CROWDING_DISTANCE :: pyfloat where
  "LARGE_CROWDING_DISTANCE = Fin 1000000000"

text \<open>\<open>sorted\<close> with a comparison of keys: elements with equal keys keep their order.\<close>

fun insort_by :: "('a \<Rightarrow> 'a \<Rightarrow> bool) \<Rightarrow> 'a \<Rightarrow> 'a list \<Rightarrow> 'a list" where
  "insort_by lt x [] = [x]"
| "insort_by lt x (y # ys) = (if lt x y then x # y # ys else y # insort_by lt x ys)"

definition py_sorted :: "('a \<Rightarrow> 'a \<Rightarrow> bool) \<Rightarrow> 'a list \<Rightarrow> 'a list" where
  "py_sorted lt xs = fold (insort_by lt) xs []"

lemma mset_py_sorted [simp]: "mset (py_sorted lt xs) = mset xs"
proof -
  have "mset (insort_by lt x ys) = add_mset x (mset ys)" for x ys by (induction ys) auto
  then have "mset (fold (insort_by lt) xs ys) = mset xs + mset ys" for ys by (induction xs arbitrary: ys) auto
  then show ?thesis by (simp add: py_sorted_def)
qed

lemma set_py_sorted [simp]: "set (py_sorted lt xs) = set xs"
  by (metis mset_py_sorted set_mset_mset)

lemma length_py_sorted [simp]: "length (py_sorted lt xs) = length xs"
  by (metis mset_py_sorted size_mset)

lemma distinct_py_sorted [simp]: "distinct (py_sorted lt xs) \<longleftrightarrow> distinct xs"
  using mset_eq_imp_distinct_iff[OF mset_py_sorted] .

definition distance_of :: "('c, pyfloat) dict \<Rightarrow> 'c \<Rightarrow> pyfloat" where
  "distance_of distances c = (case dict_get distances c of None \<Rightarrow> Fin 0 | Some x \<Rightarrow> x)"

text \<open>The inner \<open>for index in range(1, len(sorted_ids) - 1)\<close>, along the neighbours of each index.\<close>

fun crowd_inner ::
  "('c \<Rightarrow> pyfloat) \<Rightarrow> pyfloat \<Rightarrow> 'c list \<Rightarrow> ('c, pyfloat) dict \<Rightarrow> py_exn + ('c, pyfloat) dict" where
  "crowd_inner val range_value (p # c # n # rest) distances =
     (case f_div (f_sub (val n) (val p)) range_value of
        Inl exn \<Rightarrow> Inl exn
      | Inr q \<Rightarrow> crowd_inner val range_value (c # n # rest) (dict_set c (f_add (distance_of distances c) q) distances))"
| "crowd_inner val range_value _ distances = Inr distances"

text \<open>The body of \<open>for objective in objectives\<close>.\<close>

definition crowd_objective ::
  "(string, objective_values) dict \<Rightarrow> string list \<Rightarrow> string \<Rightarrow> (string, pyfloat) dict \<Rightarrow> py_exn + (string, pyfloat) dict" where
  "crowd_objective vs front objective distances =
     (let val = (\<lambda>c. objective_value (values_of vs c) objective);
          sorted_ids = py_sorted (\<lambda>c d. f_lt (val c) (val d)) front;
          min_value = val (hd sorted_ids);
          max_value = val (last sorted_ids);
          distances = dict_set (last sorted_ids) LARGE_CROWDING_DISTANCE
                        (dict_set (hd sorted_ids) LARGE_CROWDING_DISTANCE distances)
      in if f_eq max_value min_value then Inr distances
         else crowd_inner val (f_sub max_value min_value) sorted_ids distances)"

fun crowd_objectives ::
  "(string, objective_values) dict \<Rightarrow> string list \<Rightarrow> string list \<Rightarrow> (string, pyfloat) dict \<Rightarrow> py_exn + (string, pyfloat) dict" where
  "crowd_objectives vs front [] distances = Inr distances"
| "crowd_objectives vs front (objective # objectives) distances =
     (case crowd_objective vs front objective distances of
        Inl exn \<Rightarrow> Inl exn
      | Inr distances' \<Rightarrow> crowd_objectives vs front objectives distances')"

definition crowding_distance ::
  "string list \<Rightarrow> string list \<Rightarrow> (string, objective_values) dict \<Rightarrow> py_exn + (string, pyfloat) dict" where
  "crowding_distance front objectives vs =
     (if front = [] then Inr []
      else if length front \<le> 2 then Inr (fold (\<lambda>c. dict_set c LARGE_CROWDING_DISTANCE) front [])
      else crowd_objectives vs front objectives (fold (\<lambda>c. dict_set c (Fin 0)) front []))"

section \<open>Selection\<close>

text \<open>The loop over the evaluations: what may compete.\<close>

definition eligible :: "ParetoSelectionPolicy \<Rightarrow> 'v CandidateEvaluationRecord \<Rightarrow> bool" where
  "eligible policy e =
     (case ce_fitness e of
        None \<Rightarrow> False
      | Some fitness \<Rightarrow> ce_feasible e
          \<and> (po_require_constraints policy \<longrightarrow> list_all id (dict_values (fe_constraints fitness)))
          \<and> \<not> list_ex (\<lambda>x. f_lt x (po_min_objective_value policy)) (dict_values (fe_objectives fitness)))"

definition objectives_of :: "'v CandidateEvaluationRecord \<Rightarrow> objective_values" where
  "objectives_of e = (case ce_fitness e of None \<Rightarrow> [] | Some fitness \<Rightarrow> fe_objectives fitness)"

definition selection_objectives :: "ParetoSelectionPolicy \<Rightarrow> 'v CandidateEvaluationRecord list \<Rightarrow> string list" where
  "selection_objectives policy es =
     (if po_objectives policy \<noteq> [] then po_objectives policy
      else sort (remdups (concat (map (map fst \<circ> objectives_of) es))))"

definition candidate_values :: "string list \<Rightarrow> 'v CandidateEvaluationRecord list \<Rightarrow> (string, objective_values) dict" where
  "candidate_values objectives es =
     fold (\<lambda>e. dict_set (ce_candidate_id e)
            (fold (\<lambda>objective. dict_set objective (objective_value (objectives_of e) objective)) objectives [])) es []"

text \<open>The key of a candidate in its front: \<open>(-distance, tuple(-value ...), candidate_id)\<close>, compared the way tuples
  are: at the first position where the components differ.\<close>

fun floats_less :: "pyfloat list \<Rightarrow> pyfloat list \<Rightarrow> bool" where
  "floats_less (x # xs) (y # ys) = (if f_eq x y then floats_less xs ys else f_lt x y)"
| "floats_less [] (y # ys) = True"
| "floats_less _ [] = False"

fun floats_equal :: "pyfloat list \<Rightarrow> pyfloat list \<Rightarrow> bool" where
  "floats_equal [] [] = True"
| "floats_equal (x # xs) (y # ys) = (f_eq x y \<and> floats_equal xs ys)"
| "floats_equal _ _ = False"

type_synonym rank_key = "pyfloat \<times> pyfloat list \<times> string"

definition rank_key :: "(string, pyfloat) dict \<Rightarrow> string list \<Rightarrow> (string, objective_values) dict \<Rightarrow> string \<Rightarrow> rank_key" where
  "rank_key distances objectives vs c =
     (f_neg (distance_of distances c), map (\<lambda>objective. f_neg (objective_value (values_of vs c) objective)) objectives, c)"

fun rank_less :: "rank_key \<Rightarrow> rank_key \<Rightarrow> bool" where
  "rank_less (d, xs, c) (d', xs', c') =
     (if \<not> f_eq d d' then f_lt d d' else if \<not> floats_equal xs xs' then floats_less xs xs' else c < c')"

definition sorted_front ::
  "string list \<Rightarrow> (string, objective_values) dict \<Rightarrow> (string, pyfloat) dict \<Rightarrow> string list \<Rightarrow> string list" where
  "sorted_front objectives vs distances front =
     py_sorted (\<lambda>c d. rank_less (rank_key distances objectives vs c) (rank_key distances objectives vs d)) front"

definition pareto_candidates ::
  "nat \<Rightarrow> (string, objective_values) dict \<Rightarrow> (string, pyfloat) dict \<Rightarrow> string list \<Rightarrow> ParetoCandidate list" where
  "pareto_candidates rank vs distances = map (\<lambda>c.
     \<lparr>pc_candidate_id = c, pc_rank = rank, pc_crowding_distance = distance_of distances c, pc_objectives = values_of vs c\<rparr>)"

definition take_selected :: "int \<Rightarrow> string list \<Rightarrow> string list \<Rightarrow> string list" where
  "take_selected max_selected = fold (\<lambda>c selected. if int (length selected) < max_selected then selected @ [c] else selected)"

text \<open>The loop over the fronts, which ends early once enough candidates are selected.\<close>

fun select_fronts ::
  "int \<Rightarrow> string list \<Rightarrow> (string, objective_values) dict \<Rightarrow> nat \<Rightarrow> string list list \<Rightarrow> ParetoCandidate list list \<Rightarrow> string list
   \<Rightarrow> py_exn + ParetoCandidate list list \<times> string list" where
  "select_fronts max_selected objectives vs rank [] models selected = Inr (models, selected)"
| "select_fronts max_selected objectives vs rank (front # fronts) models selected =
     (case crowding_distance front objectives vs of
        Inl exn \<Rightarrow> Inl exn
      | Inr distances \<Rightarrow>
          (let ordered = sorted_front objectives vs distances front;
               models' = models @ [pareto_candidates rank vs distances ordered];
               selected' = take_selected max_selected ordered selected
           in if max_selected \<le> int (length selected') then Inr (models', selected')
              else select_fronts max_selected objectives vs (rank + 1) fronts models' selected'))"

text \<open>\<open>created_at\<close> is the reading of the clock, in ISO format.\<close>

definition select_pareto ::
  "string \<Rightarrow> 'v CandidateEvaluationRecord list \<Rightarrow> ParetoSelectionPolicy \<Rightarrow> string \<Rightarrow> py_exn + ParetoSelectionResult" where
  "select_pareto proposal_id evaluations policy created_at =
     (let es = filter (eligible policy) evaluations in
      if es = [] then Inr \<lparr>ps_proposal_id = proposal_id, ps_objectives = po_objectives policy, ps_fronts = [],
        ps_selected_candidate_ids = [], ps_selected_candidate_id = None, ps_created_at = created_at\<rparr>
      else
        (let objectives = selection_objectives policy es; vs = candidate_values objectives es in
         case non_dominated_sort vs objectives (po_epsilon policy) of
           None \<Rightarrow> Inl (KeyError ''domination_count'')
         | Some fronts \<Rightarrow>
             (case select_fronts (po_max_selected policy) objectives vs 0 fronts [] [] of
                Inl exn \<Rightarrow> Inl exn
              | Inr (models, selected) \<Rightarrow> Inr \<lparr>ps_proposal_id = proposal_id, ps_objectives = objectives, ps_fronts = models,
                  ps_selected_candidate_ids = selected,
                  ps_selected_candidate_id = (case selected of [] \<Rightarrow> None | c # _ \<Rightarrow> Some c),
                  ps_created_at = created_at\<rparr>)))"

section \<open>Dominance is asymmetric\<close>

lemma dominates_loop_iff:
  "dominates_loop a b epsilon os better \<longleftrightarrow>
     (\<forall>o' \<in> set os. \<not> f_lt (f_add (objective_value a o') epsilon) (objective_value b o'))
   \<and> (better \<or> (\<exists>o' \<in> set os. f_lt (f_add (objective_value b o') epsilon) (objective_value a o')))"
  by (induction os arbitrary: better) (auto simp: Let_def)

lemmas dominates_iff = dominates_loop_iff[where better = False, folded dominates_def, simplified]

text \<open>Whatever the tolerance and the values are, NaN and infinities included.\<close>

interpretation pareto: dominance "beats_in vs objectives epsilon" for vs objectives epsilon
  by unfold_locales (auto simp: beats_in_def dominates_iff)

section \<open>Without tolerance, dominance is transitive\<close>

definition regular :: "pyfloat \<Rightarrow> bool" where
  "regular x \<longleftrightarrow> is_double x \<and> x \<noteq> NaN"

definition regular_values :: "objective_values \<Rightarrow> bool" where
  "regular_values a \<longleftrightarrow> (\<forall>x \<in> set (dict_values a). regular x)"

lemma regular_0 [simp]: "regular (Fin 0)"
  by (simp add: regular_def is_double_def)

lemma regular_objective [simp]: "regular_values a \<Longrightarrow> regular (objective_value a o')"
  by (auto simp: regular_values_def objective_value_def split: option.splits dest: dict_get_in_values)

lemma regular_add_0 [simp]: "regular x \<Longrightarrow> f_add x (Fin 0) = x"
  by (cases x) (auto simp: regular_def is_double_def)

lemma regular_not_NaN: "regular x \<Longrightarrow> x \<noteq> NaN"
  by (simp add: regular_def)

lemma regular_dominates:
  assumes "regular_values a" "regular_values b"
  shows "dominates a b os (Fin 0) \<longleftrightarrow>
     (\<forall>o' \<in> set os. f_le (objective_value b o') (objective_value a o'))
   \<and> (\<exists>o' \<in> set os. f_lt (objective_value b o') (objective_value a o'))"
proof -
  have "\<not> f_lt x y \<longleftrightarrow> f_le y x" if "regular x" "regular y" for x y
    using that f_not_lt[of x y] f_le_less_trans[of y x y] by (auto simp: regular_not_NaN)
  then show ?thesis using assms by (simp add: dominates_iff)
qed

lemma regular_dominates_trans:
  assumes "regular_values a" "regular_values b" "regular_values c"
    and "dominates a b os (Fin 0)" "dominates b c os (Fin 0)"
  shows "dominates a c os (Fin 0)"
proof -
  obtain o' where o': "o' \<in> set os" "f_lt (objective_value c o') (objective_value b o')"
    using assms by (auto simp: regular_dominates)
  then have "f_lt (objective_value c o') (objective_value a o')"
    using assms by (intro f_lt_le_trans[OF o'(2)]) (auto simp: regular_dominates)
  then show ?thesis using assms o'(1) by (auto simp: regular_dominates intro: f_le_trans)
qed

definition regular_table :: "(string, objective_values) dict \<Rightarrow> bool" where
  "regular_table vs \<longleftrightarrow> (\<forall>v \<in> set (dict_values vs). regular_values v)"

lemma regular_values_of: "regular_table vs \<Longrightarrow> regular_values (values_of vs c)"
  using dict_get_in_values[of vs c]
  by (cases "dict_get vs c") (auto simp: values_of_def regular_table_def regular_values_def dict_values_def[of "[]"])

lemma regular_acyclic:
  assumes "regular_table vs"
  shows "acyclic {(d, c). d \<in> A \<and> c \<in> A \<and> beats_in vs os (Fin 0) d c}"
proof -
  let ?E = "{(d, c). d \<in> A \<and> c \<in> A \<and> beats_in vs os (Fin 0) d c}"
  note reg = regular_values_of[OF assms]
  have "trans ?E" using regular_dominates_trans[OF reg reg reg] by (auto simp: trans_def beats_in_def)
  then have "?E\<^sup>+ = ?E" by (rule trancl_id)
  then show ?thesis using pareto.beats_irrefl by (auto simp: acyclic_def)
qed

section \<open>Crowding distances exist\<close>

text \<open>Distinct finite doubles have a difference that is not rounded to zero, since all of them are multiples of the least
  subnormal.\<close>

definition on_grid :: "rat \<Rightarrow> bool" where
  "on_grid r \<longleftrightarrow> (\<exists>n. r = of_int n * 2 powi (- 1074))"

lemma double_on_grid:
  assumes "is_double (Fin r)"
  shows "on_grid r"
proof -
  have "\<bar>r\<bar> = round53 \<bar>r\<bar>" using assms by (auto simp: is_double_def fl_def Let_def split: if_splits)
  moreover obtain m where "(2::rat) powi ulp_exp \<bar>r\<bar> = of_int m * 2 powi (- 1074)"
    using pow2_grid[of "- 1074" "ulp_exp \<bar>r\<bar>"] by (auto simp: ulp_exp_def)
  ultimately have "\<exists>n. \<bar>r\<bar> = of_int n * 2 powi (- 1074)"
    by (cases "r = 0") (auto simp: round53_def intro: exI[of _ 0] exI[of _ "_ * m"])
  then show ?thesis unfolding on_grid_def by (metis abs_if minus_mult_left of_int_minus minus_minus)
qed

lemma grid_rounds_nonzero:
  assumes "on_grid r" "0 < r"
  shows "0 < round53 r"
proof -
  let ?u = "(2::rat) powi (- 1074)"
  obtain n where n: "r = of_int n * ?u" using assms(1) by (auto simp: on_grid_def)
  then have "0 < n" using assms(2) by (simp add: zero_less_mult_iff)
  then have "of_int 1 \<le> (of_int n :: rat)" by (simp add: of_int_le_iff)
  then have le: "?u \<le> r" unfolding n using mult_right_mono[of "of_int 1" "of_int n :: rat" ?u] by simp
  have "fexp ?u \<le> - 1074" using fexp_bounds(1)[of ?u] pow2_less[of "- 1074" "fexp ?u"] by (simp add: not_less[symmetric])
  then have "ulp_exp ?u = - 1074" by (simp add: ulp_exp_def)
  then have "round53 ?u = ?u" by (intro round53_grid[of _ 1]) simp_all
  then show ?thesis using round53_mono[OF le] pow2_pos[of "- 1074"] by linarith
qed

lemma regular_range_nonzero:
  assumes "regular x" "regular y" "\<not> f_eq x y"
  shows "f_sub x y \<noteq> Fin 0"
proof (cases x; cases y)
  fix p q assume eq: "x = Fin p" "y = Fin q"
  then have "on_grid p" "on_grid q" "p \<noteq> q" using assms double_on_grid by (auto simp: regular_def f_eq_def)
  then have "on_grid (p - q)" "on_grid (q - p)" unfolding on_grid_def by (metis left_diff_distrib of_int_diff)+
  then have "0 < round53 \<bar>p - q\<bar>" using \<open>p \<noteq> q\<close> grid_rounds_nonzero[of "p - q"] grid_rounds_nonzero[of "q - p"] by (cases "p < q") auto
  then show ?thesis by (auto simp: eq f_sub_def fl_def Let_def)
qed (use assms in \<open>auto simp: f_sub_def f_eq_def regular_def\<close>)

lemma f_div_nonzero: "y \<noteq> Fin 0 \<Longrightarrow> \<exists>q. f_div x y = Inr q"
  by (cases x; cases y) auto

lemma crowd_inner_Inr: "r \<noteq> Fin 0 \<Longrightarrow> \<exists>ds'. crowd_inner val r cs ds = Inr ds'"
proof (induction val r cs ds rule: crowd_inner.induct)
  case (1 val r p c n rest ds)
  obtain q where "f_div (f_sub (val n) (val p)) r = Inr q" using f_div_nonzero[OF "1.prems"] by blast
  then show ?case using 1 by simp
qed auto

lemma crowding_distance_Inr:
  assumes "regular_table vs"
  shows "\<exists>ds. crowding_distance front os vs = Inr ds"
proof -
  note reg = regular_values_of[OF assms]
  have "\<exists>ds'. crowd_objective vs front o' ds = Inr ds'" for o' ds
    using crowd_inner_Inr[OF regular_range_nonzero[OF regular_objective[OF reg] regular_objective[OF reg]]]
    by (auto simp: crowd_objective_def Let_def)
  then have "\<exists>ds'. crowd_objectives vs front os ds = Inr ds'" for ds
    by (induction os arbitrary: ds) (auto split: sum.split, metis sum.distinct(1) old.sum.exhaust)
  then show ?thesis by (auto simp: crowding_distance_def)
qed

section \<open>What is selected\<close>

lemma take_selected_take:
  "int (length selected) \<le> n \<Longrightarrow> take_selected n cs selected = take (nat n) (selected @ cs)"
proof (induction cs arbitrary: selected)
  case (Cons c cs)
  show ?case
  proof (cases "int (length selected) < n")
    case True
    then show ?thesis using Cons.IH[of "selected @ [c]"] by (simp add: take_selected_def)
  next
    case False
    then have "length selected = nat n" using Cons.prems by simp
    then show ?thesis using Cons.IH[of selected] Cons.prems False by (simp add: take_selected_def)
  qed
qed (simp add: take_selected_def)

text \<open>The selection is a prefix of the fronts, each in some order.\<close>

lemma select_fronts_prefix:
  assumes "regular_table vs" "int (length selected) \<le> n"
  shows "\<exists>models ordered. select_fronts n os vs rank fronts models0 selected = Inr (models, take (nat n) (selected @ concat ordered))
     \<and> list_all2 (\<lambda>xs front. mset xs = mset front) ordered fronts"
  using assms(2)
proof (induction fronts arbitrary: rank models0 selected)
  case (Cons front fronts)
  obtain ds where ds: "crowding_distance front os vs = Inr ds" using crowding_distance_Inr[OF assms(1)] by blast
  let ?o = "sorted_front os vs ds front"
  let ?s = "take_selected n ?o selected"
  have s: "?s = take (nat n) (selected @ ?o)" using take_selected_take[OF Cons.prems] .
  have o: "mset ?o = mset front" by (simp add: sorted_front_def)
  have "int (length ?s) \<le> n" using Cons.prems by (simp add: s)
  from Cons.IH[OF this] obtain models ordered where IH:
    "select_fronts n os vs (rank + 1) fronts (models0 @ [pareto_candidates rank vs ds ?o]) ?s = Inr (models, take (nat n) (?s @ concat ordered))"
    "list_all2 (\<lambda>xs front. mset xs = mset front) ordered fronts" by blast
  have all: "list_all2 (\<lambda>xs front. mset xs = mset front) (?o # ordered) (front # fronts)" using IH(2) o by simp
  show ?case
  proof (cases "n \<le> int (length ?s)")
    case True
    then have "?s = take (nat n) (selected @ concat (?o # ordered))" using Cons.prems by (auto simp: s)
    then show ?thesis using True ds all by (intro exI[of _ "models0 @ [pareto_candidates rank vs ds ?o]"] exI[of _ "?o # ordered"]) (simp add: Let_def)
  next
    case False
    then have "?s = selected @ ?o" by (auto simp: s)
    then show ?thesis using False ds all IH(1) by (intro exI[of _ models] exI[of _ "?o # ordered"]) (simp add: Let_def)
  qed
qed simp

lemma concat_block:
  "i < length (concat xss) \<Longrightarrow>
     \<exists>j < length xss. concat xss ! i \<in> set (xss ! j) \<and> set (concat (take j xss)) \<subseteq> set (take i (concat xss))"
proof (induction xss arbitrary: i)
  case (Cons xs xss)
  show ?case
  proof (cases "i < length xs")
    case True
    then show ?thesis by (intro exI[of _ 0]) (simp add: nth_append)
  next
    case False
    then have "i - length xs < length (concat xss)" using Cons.prems by simp
    then obtain j where "j < length xss" "concat xss ! (i - length xs) \<in> set (xss ! j)"
      "set (concat (take j xss)) \<subseteq> set (take (i - length xs) (concat xss))"
      using Cons.IH by blast
    then show ?thesis using False by (intro exI[of _ "Suc j"]) (auto simp: nth_append)
  qed
qed simp

lemma same_fronts:
  "map set xss = map set yss \<Longrightarrow> list_all distinct xss \<Longrightarrow> list_all distinct yss \<Longrightarrow>
     list_all2 (\<lambda>xs ys. mset xs = mset ys) xss yss"
proof (induction xss arbitrary: yss)
  case (Cons xs xss)
  then obtain ys yss' where "yss = ys # yss'" "set xs = set ys" "map set xss = map set yss'" by (cases yss) auto
  then show ?case using Cons by (simp add: set_eq_iff_mset_eq_distinct[symmetric])
qed simp

lemma mset_concat_fronts:
  "list_all2 (\<lambda>xs ys. mset xs = mset ys) xss yss \<Longrightarrow> mset (concat xss) = mset (concat yss)"
  by (induction rule: list_all2_induct) auto

text \<open>Every candidate of a front is preceded by its dominators, in whatever order the fronts are listed.\<close>

lemma ordered_fronts:
  assumes "distinct ids" "nd_sort beats ids = Some fronts" "dominance beats"
    and "acyclic {(d, c). d \<in> set ids \<and> c \<in> set ids \<and> beats d c}"
    and "list_all2 (\<lambda>xs front. mset xs = mset front) ordered fronts"
  shows "distinct (concat ordered) \<and> set (concat ordered) = set ids
     \<and> (\<forall>i < length (concat ordered). \<forall>d \<in> set ids. beats d (concat ordered ! i) \<longrightarrow> d \<in> set (take i (concat ordered)))"
proof -
  let ?P = "peel_fronts beats ids"
  have f: "map set fronts = map set ?P" "list_all distinct fronts"
    using dominance.nd_sort_peels[OF assms(3,1)] assms(2) by auto
  have dP: "distinct (concat ?P)" by (rule peel_fronts_distinct[OF assms(1)])
  then have "list_all distinct ?P" by (auto simp: list_all_iff distinct_concat_iff)
  then have "list_all2 (\<lambda>xs ys. mset xs = mset ys) fronts ?P" by (rule same_fronts[OF f])
  then have same: "list_all2 (\<lambda>xs ys. mset xs = mset ys) ordered ?P"
    using assms(5) by (auto simp: list_all2_conv_all_nth)
  then have m: "mset (concat ordered) = mset (concat ?P)" by (rule mset_concat_fronts)
  have sP: "set (concat ?P) = set ids" by (rule peel_fronts_complete[OF assms(4)]) simp_all
  have block: "set (ordered ! j) = set (?P ! j)" if "j < length ordered" for j
    using list_all2_nthD[OF same that] by (rule mset_eq_setD)
  have "d \<in> set (take i (concat ordered))"
    if i: "i < length (concat ordered)" and d: "d \<in> set ids" "beats d (concat ordered ! i)" for i d
  proof -
    obtain j where j: "j < length ordered" "concat ordered ! i \<in> set (ordered ! j)"
      "set (concat (take j ordered)) \<subseteq> set (take i (concat ordered))" using concat_block[OF i] by blast
    have len: "length ordered = length ?P" using same by (rule list_all2_lengthD)
    obtain k where "k < j" "d \<in> set (?P ! k)"
      using peel_fronts_dominators[of j beats ids, OF _ _ d] j(1,2) block[OF j(1)] len by auto
    then have "k < length (take j ordered)" "d \<in> set (take j ordered ! k)" using block[of k] j(1) by auto
    then have "d \<in> set (concat (take j ordered))" by (metis UN_iff nth_mem set_concat)
    then show ?thesis using j(3) by auto
  qed
  then show ?thesis using dP sP m mset_eq_imp_distinct_iff[OF m] mset_eq_setD[OF m] by auto
qed

lemma candidate_values_keys:
  "dict_wf (candidate_values os es) \<and> fst ` set (candidate_values os es) = ce_candidate_id ` set es"
proof -
  have "dict_wf vs \<Longrightarrow> dict_wf (fold (\<lambda>e. dict_set (ce_candidate_id e) (g e)) es vs)
      \<and> fst ` set (fold (\<lambda>e. dict_set (ce_candidate_id e) (g e)) es vs) = fst ` set vs \<union> ce_candidate_id ` set es" for g vs
    by (induction es arbitrary: vs) (auto simp: keys_dict_set dict.wf_put)
  from this[of "[]"] show ?thesis by (simp add: candidate_values_def)
qed

lemma candidate_values_regular:
  assumes "\<And>e. e \<in> set es \<Longrightarrow> regular_values (objectives_of e)"
  shows "regular_table (candidate_values os es)"
proof -
  have inner: "regular_values d \<Longrightarrow> (\<And>o'. o' \<in> set os \<Longrightarrow> regular (h o')) \<Longrightarrow> regular_values (fold (\<lambda>o'. dict_set o' (h o')) os d)" for h d os
  proof (induction os arbitrary: d)
    case (Cons o' os)
    have "regular_values (dict_set o' (h o') d)"
      using Cons.prems set_dict_set[of o' "h o'" d] by (fastforce simp: regular_values_def dict_values_def)
    then show ?case using Cons by simp
  qed simp
  have "regular_table vs \<Longrightarrow> (\<And>e. e \<in> set es \<Longrightarrow> regular_values (g e)) \<Longrightarrow>
      regular_table (fold (\<lambda>e. dict_set (ce_candidate_id e) (g e)) es vs)" for g vs
  proof (induction es arbitrary: vs)
    case (Cons e es)
    have "regular_table (dict_set (ce_candidate_id e) (g e) vs)"
      using Cons.prems set_dict_set[of "ce_candidate_id e" "g e" vs] by (fastforce simp: regular_table_def dict_values_def)
    then show ?case using Cons by simp
  qed simp
  then show ?thesis unfolding candidate_values_def
  proof this
    fix e assume "e \<in> set es"
    then show "regular_values (fold (\<lambda>o'. dict_set o' (objective_value (objectives_of e) o')) os [])"
      using assms by (intro inner) (simp_all add: regular_values_def[of "[]"] dict_values_def)
  qed (simp add: regular_table_def dict_values_def)
qed

section \<open>Properties\<close>

definition sample_values :: "(string, objective_values) dict" where
  "sample_values = [(''a'', [(''x'', Fin 1), (''y'', Fin 3)]), (''b'', [(''x'', Fin 2), (''y'', Fin 1)]),
     (''c'', [(''x'', Fin 1), (''y'', Fin 1)])]"

text \<open>C29. \<open>non_dominated_sort\<close> terminates without a missing key, whatever the tolerance and the values are, and its fronts are those of the
  reference: the candidates that no remaining candidate dominates, removed front after front.\<close>

theorem non_dominated_sort_peels:
  assumes "dict_wf vs"
  shows "\<exists>fronts. non_dominated_sort vs objectives epsilon = Some fronts
     \<and> map set fronts = map set (peel_fronts (\<lambda>c d. dominates (values_of vs c) (values_of vs d) objectives epsilon) (map fst vs))
     \<and> list_all distinct fronts"
  using pareto.nd_sort_peels[of "map fst vs" vs objectives epsilon] assms
  by (simp add: non_dominated_sort_def beats_in_def[abs_def] dict_wf_def)

theorem non_dominated_sort_peels_witness:
  "\<exists>fronts. non_dominated_sort sample_values [''x'', ''y''] (Fin 0) = Some fronts
     \<and> map set fronts = map set (peel_fronts (\<lambda>c d. dominates (values_of sample_values c) (values_of sample_values d) [''x'', ''y''] (Fin 0))
         (map fst sample_values))
     \<and> list_all distinct fronts"
  by (rule non_dominated_sort_peels) (simp add: dict_wf_def sample_values_def)

text \<open>The candidates that compete under a policy, and the comparison between them.\<close>

definition competitors :: "ParetoSelectionPolicy \<Rightarrow> 'v CandidateEvaluationRecord list \<Rightarrow> string set" where
  "competitors policy evaluations = ce_candidate_id ` set (filter (eligible policy) evaluations)"

definition outranks :: "ParetoSelectionPolicy \<Rightarrow> 'v CandidateEvaluationRecord list \<Rightarrow> string \<Rightarrow> string \<Rightarrow> bool" where
  "outranks policy evaluations =
     (let es = filter (eligible policy) evaluations; objectives = selection_objectives policy es
      in beats_in (candidate_values objectives es) objectives (po_epsilon policy))"

text \<open>C28. Without tolerance and with objective values that are numbers, selection always returns. It selects as many distinct eligible candidates as
  the policy allows and exist, and a selected candidate comes after every eligible candidate that dominates it; so the first one,
  which is the preferred candidate, is dominated by none.\<close>

theorem select_pareto_frontier_first:
  assumes "policy_ok policy" "po_epsilon policy = Fin 0"
    and "\<And>e. e \<in> set evaluations \<Longrightarrow> eligible policy e \<Longrightarrow> regular_values (objectives_of e)"
  shows "\<exists>r. select_pareto proposal_id evaluations policy now = Inr r
     \<and> distinct (ps_selected_candidate_ids r) \<and> set (ps_selected_candidate_ids r) \<subseteq> competitors policy evaluations
     \<and> length (ps_selected_candidate_ids r) = min (nat (po_max_selected policy)) (card (competitors policy evaluations))
     \<and> ps_selected_candidate_id r = (if competitors policy evaluations = {} then None else Some (hd (ps_selected_candidate_ids r)))
     \<and> (\<forall>i < length (ps_selected_candidate_ids r). \<forall>d \<in> competitors policy evaluations.
          outranks policy evaluations d (ps_selected_candidate_ids r ! i) \<longrightarrow> d \<in> set (take i (ps_selected_candidate_ids r)))"
proof (cases "filter (eligible policy) evaluations = []")
  case True
  then show ?thesis by (simp add: select_pareto_def competitors_def)
next
  case False
  let ?es = "filter (eligible policy) evaluations" and ?n = "po_max_selected policy"
  let ?os = "selection_objectives policy ?es"
  let ?vs = "candidate_values ?os ?es"
  let ?ids = "map fst ?vs" and ?beats = "beats_in ?vs ?os (Fin 0)"
  have reg: "regular_table ?vs" by (rule candidate_values_regular) (use assms(3) in auto)
  have d: "distinct ?ids" and ids: "set ?ids = competitors policy evaluations"
    using candidate_values_keys[of ?os ?es] by (auto simp: dict_wf_def competitors_def)
  have n: "1 \<le> ?n" using assms(1) by (simp add: policy_ok_def)
  obtain fronts where fronts: "nd_sort ?beats ?ids = Some fronts" using pareto.nd_sort_peels[OF d] by blast
  obtain models ordered where sel: "select_fronts ?n ?os ?vs 0 fronts [] [] = Inr (models, take (nat ?n) (concat ordered))"
    and perm: "list_all2 (\<lambda>xs front. mset xs = mset front) ordered fronts"
    using select_fronts_prefix[OF reg, of "[]" ?n ?os 0 fronts "[]"] n by auto
  let ?L = "concat ordered"
  have L: "distinct ?L" "set ?L = set ?ids" "\<forall>i < length ?L. \<forall>c \<in> set ?ids. ?beats c (?L ! i) \<longrightarrow> c \<in> set (take i ?L)"
    using ordered_fronts[OF d fronts pareto.dominance_axioms regular_acyclic[OF reg] perm] by blast+
  have len: "length ?L = card (competitors policy evaluations)" using distinct_card[OF L(1)] L(2) ids by simp
  have ne: "competitors policy evaluations \<noteq> {}" using False by (simp add: competitors_def del: set_filter)
  then have hd: "?L \<noteq> []" using L(2) ids by (metis empty_set)
  let ?S = "take (nat ?n) ?L"
  have pick: "(case ?S of [] \<Rightarrow> None | c # _ \<Rightarrow> Some c) = Some (hd ?S)"
    using hd n by (cases ?L) (auto simp: take_Cons')
  have run: "\<exists>r. select_pareto proposal_id evaluations policy now = Inr r \<and> ps_selected_candidate_ids r = ?S
      \<and> ps_selected_candidate_id r = Some (hd ?S)"
    using False fronts sel pick by (simp add: select_pareto_def Let_def non_dominated_sort_def assms(2))
  have out: "outranks policy evaluations = ?beats" using assms(2) by (simp add: outranks_def Let_def)
  note L3 = L(3)[unfolded ids, folded out]
  have before: "\<forall>i < length ?S. \<forall>d \<in> competitors policy evaluations. outranks policy evaluations d (?S ! i) \<longrightarrow> d \<in> set (take i ?S)"
    using L3 by (simp add: min_absorb1)
  have "set ?S \<subseteq> competitors policy evaluations" using L(2) ids set_take_subset[of "nat ?n" ?L] by blast
  moreover have "length ?S = min (nat ?n) (card (competitors policy evaluations))" using len by simp
  ultimately show ?thesis using run L(1) ne before distinct_take[OF L(1)] by (metis (no_types, lifting))
qed

lemma regular_numeral: "(numeral k :: int) < 2 ^ 53 \<Longrightarrow> regular (Fin (numeral k))" "regular (Fin 1)"
  using fl_int[of "numeral k"] fl_int[of 1] by (simp_all add: regular_def is_double_def)

definition sample_evaluation :: "string \<Rightarrow> objective_values \<Rightarrow> unit CandidateEvaluationRecord" where
  "sample_evaluation c objectives =
     \<lparr>ce_candidate_id = c, ce_simulation_id = None, ce_verification = None,
      ce_fitness = Some \<lparr>fe_id = ''f'', fe_candidate_id = c, fe_objectives = objectives, fe_constraints = [(''safe'', True)],
        fe_passed = True, fe_notes = [], fe_created_at = []\<rparr>,
      ce_feasible = True, ce_reasons = [], ce_created_at = []\<rparr>"

definition sample_evaluations :: "unit CandidateEvaluationRecord list" where
  "sample_evaluations = map (\<lambda>(c, v). sample_evaluation c v) sample_values"

definition sample_policy :: "pyfloat \<Rightarrow> ParetoSelectionPolicy" where
  "sample_policy epsilon = \<lparr>po_objectives = [], po_max_selected = 2, po_min_objective_value = Fin 0, po_epsilon = epsilon,
     po_require_constraints = True\<rparr>"

theorem select_pareto_frontier_first_witness:
  "\<exists>r. select_pareto ''p'' sample_evaluations (sample_policy (Fin 0)) ''now'' = Inr r
     \<and> distinct (ps_selected_candidate_ids r) \<and> set (ps_selected_candidate_ids r) \<subseteq> competitors (sample_policy (Fin 0)) sample_evaluations
     \<and> length (ps_selected_candidate_ids r) = min (nat (po_max_selected (sample_policy (Fin 0)))) (card (competitors (sample_policy (Fin 0)) sample_evaluations))
     \<and> ps_selected_candidate_id r = (if competitors (sample_policy (Fin 0)) sample_evaluations = {} then None else Some (hd (ps_selected_candidate_ids r)))
     \<and> (\<forall>i < length (ps_selected_candidate_ids r). \<forall>d \<in> competitors (sample_policy (Fin 0)) sample_evaluations.
          outranks (sample_policy (Fin 0)) sample_evaluations d (ps_selected_candidate_ids r ! i) \<longrightarrow> d \<in> set (take i (ps_selected_candidate_ids r)))"
  by (rule select_pareto_frontier_first)
    (auto simp: policy_ok_def sample_policy_def sample_evaluations_def sample_values_def sample_evaluation_def objectives_of_def
       regular_values_def dict_values_def regular_numeral)

text \<open>A tolerance can make dominance go round in a circle. Then there is no first front, and nothing is selected although
  every candidate is eligible.\<close>

definition cyclic_values :: "(string, objective_values) dict" where
  "cyclic_values = [(''a'', [(''x'', Fin 3), (''y'', Fin 2), (''z'', Fin 1)]), (''b'', [(''x'', Fin 1), (''y'', Fin 3), (''z'', Fin 2)]),
     (''c'', [(''x'', Fin 2), (''y'', Fin 1), (''z'', Fin 3)])]"

lemma cyclic_beats:
  "undominated (beats_in cyclic_values [''x'', ''y'', ''z''] (Fin 1)) (map fst cyclic_values) = []"
  using fl_int[of 2] fl_int[of 3] fl_int[of 4]
  by (simp add: undominated_def beats_in_def dominates_def values_of_def cyclic_values_def dict_get_def objective_value_def)

definition cyclic_evaluations :: "unit CandidateEvaluationRecord list" where
  "cyclic_evaluations = map (\<lambda>(c, v). sample_evaluation c v) cyclic_values"

theorem epsilon_cycle_selects_nothing:
  "policy_ok (sample_policy (Fin 1)) \<and> list_all (eligible (sample_policy (Fin 1))) cyclic_evaluations
     \<and> map_sum id (\<lambda>r. (ps_fronts r, ps_selected_candidate_id r))
         (select_pareto proposal_id cyclic_evaluations (sample_policy (Fin 1)) now) = Inr ([], None)"
proof -
  have e: "list_all (eligible (sample_policy (Fin 1))) cyclic_evaluations"
    by (simp add: cyclic_evaluations_def cyclic_values_def sample_evaluation_def eligible_def sample_policy_def dict_values_def)
  have es: "filter (eligible (sample_policy (Fin 1))) cyclic_evaluations = cyclic_evaluations"
    using e by (simp add: list_all_iff filter_id_conv)
  have ne: "cyclic_evaluations \<noteq> []" by (simp add: cyclic_evaluations_def cyclic_values_def)
  have os: "selection_objectives (sample_policy (Fin 1)) cyclic_evaluations = [''x'', ''y'', ''z'']" by code_simp
  have vs: "candidate_values [''x'', ''y'', ''z''] cyclic_evaluations = cyclic_values" by code_simp
  have "distinct (map fst cyclic_values)" by (simp add: cyclic_values_def)
  then have "nd_sort (beats_in cyclic_values [''x'', ''y'', ''z''] (Fin 1)) (map fst cyclic_values) = Some []"
    using pareto.nd_sort_peels[of "map fst cyclic_values" cyclic_values "[''x'', ''y'', ''z'']" "Fin 1"]
    by (simp add: peel_fronts_Nil[OF cyclic_beats])
  moreover have "po_epsilon (sample_policy (Fin 1)) = Fin 1" "policy_ok (sample_policy (Fin 1))"
    by (simp_all add: sample_policy_def policy_ok_def)
  ultimately show ?thesis using e es ne by (simp add: select_pareto_def Let_def os vs non_dominated_sort_def)
qed

end
