(* ===== verification/Ev_Genome.thy ===== *)
theory Ev_Genome
  imports Py_Json "HOL-Library.Multiset"
begin

text \<open>
  The architectural genome of the constructive evolution engine (\<^verbatim>\<open>evolution/core\<close>: genome.py, operations.py, refinement.py,
  construction.py and the traced operations of engine.py): chromosomes of genes over an immutable source graph, mutation within a decision
  space, gene-wise crossover, refinement by weak dimensions, and the content hash. Random numbers are a supply that is drawn from in
  order. The JSON form of an ISR graph is a parameter.
\<close>

section \<open>Genomes\<close>

datatype ChromosomeFamily = ARCHITECTURE | PERSISTENCE | SECURITY | MESSAGING | INFRASTRUCTURE

fun family_value :: "ChromosomeFamily \<Rightarrow> string" where
  "family_value ARCHITECTURE = ''architecture''"
| "family_value PERSISTENCE = ''persistence''"
| "family_value SECURITY = ''security''"
| "family_value MESSAGING = ''messaging''"
| "family_value INFRASTRUCTURE = ''infrastructure''"

record Gene =
  gene_id :: string
  decision :: string
  gene_value :: string

record Chromosome =
  family :: ChromosomeFamily
  genes :: "(string, Gene) dict"

record Genome =
  system_id :: string
  chromosomes :: "(string, Chromosome) dict"
  source_graph :: payload

text \<open>The constructors check that their texts are not empty.\<close>

definition new_gene :: "string \<Rightarrow> string \<Rightarrow> string \<Rightarrow> py_exn + Gene" where
  "new_gene gid d v =
     (if gid = [] \<or> d = [] \<or> v = [] then Inl (ValidationError ''Gene'') else Inr \<lparr>gene_id = gid, decision = d, gene_value = v\<rparr>)"

definition new_genome :: "string \<Rightarrow> (string, Chromosome) dict \<Rightarrow> payload \<Rightarrow> py_exn + Genome" where
  "new_genome sid cs graph =
     (if sid = [] then Inl (ValidationError ''Genome'') else Inr \<lparr>system_id = sid, chromosomes = cs, source_graph = graph\<rparr>)"

definition gene_ok :: "Gene \<Rightarrow> bool" where
  "gene_ok g \<longleftrightarrow> gene_id g \<noteq> [] \<and> decision g \<noteq> [] \<and> gene_value g \<noteq> []"

text \<open>What every genome satisfies: checked texts and dictionaries with distinct keys; the keys of the genes are not empty, which
  holds for the genomes of the constructor.\<close>

definition chromosome_ok :: "Chromosome \<Rightarrow> bool" where
  "chromosome_ok c \<longleftrightarrow> dict_wf (genes c) \<and> (\<forall>(gid, g) \<in> set (genes c). gid \<noteq> [] \<and> gene_ok g)"

definition genome_ok :: "Genome \<Rightarrow> bool" where
  "genome_ok g \<longleftrightarrow> system_id g \<noteq> [] \<and> dict_wf (chromosomes g) \<and> (\<forall>(k, c) \<in> set (chromosomes g). chromosome_ok c)"

section \<open>Content hash\<close>

definition gene_dump :: "Gene \<Rightarrow> pyval" where
  "gene_dump g = PDict [(''gene_id'', PStr (gene_id g)), (''decision'', PStr (decision g)), (''value'', PStr (gene_value g))]"

definition canonical_chromosome :: "Chromosome \<Rightarrow> pyval" where
  "canonical_chromosome c = PDict [(''family'', PStr (family_value (family c))),
     (''genes'', PDict (map (\<lambda>(gid, g). (gid, gene_dump g)) (sort_key fst (genes c))))]"

definition canonical_genome :: "Genome \<Rightarrow> pyval" where
  "canonical_genome g = PDict [(''system_id'', PStr (system_id g)),
     (''chromosomes'', PDict (map (\<lambda>(k, c). (k, canonical_chromosome c)) (sort_key fst (chromosomes g)))),
     (''source_graph'', PDict (source_graph g))]"

definition genome_content_hash :: "Genome \<Rightarrow> string" where
  "genome_content_hash g = sha256_hexdigest (json_dumps False (canonical_genome g))"

section \<open>Decision space and random numbers\<close>

record DecisionSpace =
  choices :: "(string, string list) dict"

definition space_values :: "DecisionSpace \<Rightarrow> string \<Rightarrow> string list" where
  "space_values space gid = (case dict_get (choices space) gid of None \<Rightarrow> [] | Some vs \<Rightarrow> vs)"

definition is_valid :: "DecisionSpace \<Rightarrow> string \<Rightarrow> string \<Rightarrow> bool" where
  "is_valid space gid v = (case dict_get (choices space) gid of None \<Rightarrow> True | Some vs \<Rightarrow> v \<in> set vs)"

text \<open>\<open>random.Random\<close>: the next \<open>random()\<close>, and the index that the next \<open>choice\<close> takes out of so many.\<close>

record rng =
  rng_floats :: "nat \<Rightarrow> pyfloat"
  rng_indexes :: "nat \<Rightarrow> nat \<Rightarrow> nat"
  rng_n :: nat

definition rng_random :: "rng \<Rightarrow> pyfloat \<times> rng" where
  "rng_random r = (rng_floats r (rng_n r), r\<lparr>rng_n := Suc (rng_n r)\<rparr>)"

definition rng_choice :: "'a list \<Rightarrow> rng \<Rightarrow> 'a \<times> rng" where
  "rng_choice xs r = (xs ! rng_indexes r (rng_n r) (length xs), r\<lparr>rng_n := Suc (rng_n r)\<rparr>)"

text \<open>Documented: \<open>random()\<close> is in \<open>[0, 1)\<close> and \<open>choice\<close> picks an element.\<close>

definition rng_ok :: "rng \<Rightarrow> bool" where
  "rng_ok r \<longleftrightarrow> (\<forall>k. f_le (Fin 0) (rng_floats r k) \<and> f_lt (rng_floats r k) (Fin 1)) \<and> (\<forall>k n. 0 < n \<longrightarrow> rng_indexes r k n < n)"

section \<open>Mutation\<close>

text \<open>The loop over the genes of a chromosome; \<open>acc\<close> is \<open>new_genes\<close>.\<close>

fun mutate_genes ::
  "pyfloat \<Rightarrow> DecisionSpace \<Rightarrow> (string, Gene) dict \<Rightarrow> (string, Gene) dict \<Rightarrow> rng \<Rightarrow> (rng, (string, Gene) dict) outcome" where
  "mutate_genes rate space [] acc r = (Inr acc, r)"
| "mutate_genes rate space ((gid, g) # gs) acc r =
     (let opts = filter (\<lambda>v. v \<noteq> gene_value g) (space_values space gid) in
      if opts = [] then mutate_genes rate space gs (dict_set gid g acc) r
      else
        (case rng_random r of (x, r1) \<Rightarrow>
           if f_lt x rate then
             (case rng_choice opts r1 of (new_val, r2) \<Rightarrow>
                (case new_gene gid (decision g) new_val of
                   Inl exn \<Rightarrow> (Inl exn, r2)
                 | Inr g' \<Rightarrow> mutate_genes rate space gs (dict_set gid g' acc) r2))
           else mutate_genes rate space gs (dict_set gid g acc) r1))"

fun mutate_chromosomes ::
  "pyfloat \<Rightarrow> DecisionSpace \<Rightarrow> (string, Chromosome) dict \<Rightarrow> (string, Chromosome) dict \<Rightarrow> rng \<Rightarrow> (rng, (string, Chromosome) dict) outcome" where
  "mutate_chromosomes rate space [] acc r = (Inr acc, r)"
| "mutate_chromosomes rate space ((k, c) # cs) acc r =
     (case mutate_genes rate space (genes c) [] r of
        (Inl exn, r') \<Rightarrow> (Inl exn, r')
      | (Inr gs, r') \<Rightarrow> mutate_chromosomes rate space cs (dict_set k \<lparr>family = family c, genes = gs\<rparr> acc) r')"

definition mutate :: "Genome \<Rightarrow> pyfloat \<Rightarrow> DecisionSpace \<Rightarrow> rng \<Rightarrow> (rng, Genome) outcome" where
  "mutate g rate space r =
     (case mutate_chromosomes rate space (chromosomes g) [] r of
        (Inl exn, r') \<Rightarrow> (Inl exn, r')
      | (Inr cs, r') \<Rightarrow> (new_genome (system_id g) cs (source_graph g), r'))"

section \<open>Crossover\<close>

text \<open>\<open>==\<close> on JSON data: dictionaries regardless of their order, numbers by value. A value of the common substrate is the same
  object on both sides, hence equal to itself.\<close>

fun eq_form :: "pyval \<Rightarrow> pyval" where
  "eq_form (PBool b) = PInt (if b then 1 else 0)"
| "eq_form (PFloat (Fin x)) = (if x = of_int \<lfloor>x\<rfloor> then PInt \<lfloor>x\<rfloor> else PFloat (Fin x))"
| "eq_form (PList vs) = PList (map eq_form vs)"
| "eq_form (PDict d) = PDict (sort_key fst (map (\<lambda>(k, v). (k, eq_form v)) d))"
| "eq_form v = v"

definition same_substrate :: "payload \<Rightarrow> payload \<Rightarrow> bool" where
  "same_substrate d e \<longleftrightarrow> eq_form (PDict d) = eq_form (PDict e)"

definition union_keys :: "(string, 'a) dict \<Rightarrow> (string, 'b) dict \<Rightarrow> string list" where
  "union_keys d e = sort (remdups (map fst d @ map fst e))"

fun merge_genes ::
  "(string, Gene) dict \<Rightarrow> (string, Gene) dict \<Rightarrow> string list \<Rightarrow> (string, Gene) dict \<Rightarrow> rng \<Rightarrow> (string, Gene) dict \<times> rng" where
  "merge_genes ga gb [] acc r = (acc, r)"
| "merge_genes ga gb (gid # gids) acc r =
     (case (dict_get ga gid, dict_get gb gid) of
        (None, None) \<Rightarrow> merge_genes ga gb gids acc r
      | (None, Some b) \<Rightarrow> merge_genes ga gb gids (dict_set gid b acc) r
      | (Some a, None) \<Rightarrow> merge_genes ga gb gids (dict_set gid a acc) r
      | (Some a, Some b) \<Rightarrow>
          (case rng_random r of (x, r') \<Rightarrow>
             merge_genes ga gb gids (dict_set gid (if f_lt x (fl (1 / 2)) then a else b) acc) r'))"

fun merge_chromosomes ::
  "(string, Chromosome) dict \<Rightarrow> (string, Chromosome) dict \<Rightarrow> string list \<Rightarrow> (string, Chromosome) dict \<Rightarrow> rng
   \<Rightarrow> (string, Chromosome) dict \<times> rng" where
  "merge_chromosomes ca cb [] acc r = (acc, r)"
| "merge_chromosomes ca cb (k # ks) acc r =
     (case (dict_get ca k, dict_get cb k) of
        (None, None) \<Rightarrow> merge_chromosomes ca cb ks acc r
      | (None, Some b) \<Rightarrow> merge_chromosomes ca cb ks (dict_set k b acc) r
      | (Some a, None) \<Rightarrow> merge_chromosomes ca cb ks (dict_set k a acc) r
      | (Some a, Some b) \<Rightarrow>
          (case merge_genes (genes a) (genes b) (union_keys (genes a) (genes b)) [] r of (gs, r') \<Rightarrow>
             merge_chromosomes ca cb ks (dict_set k \<lparr>family = family a, genes = gs\<rparr> acc) r'))"

definition crossover :: "Genome \<Rightarrow> Genome \<Rightarrow> rng \<Rightarrow> (rng, Genome) outcome" where
  "crossover a b r =
     (if \<not> same_substrate (source_graph a) (source_graph b) then
        (Inl (ValueError ''cannot cross over genomes with different source ISR semantic substrates''), r)
      else
        (case merge_chromosomes (chromosomes a) (chromosomes b) (union_keys (chromosomes a) (chromosomes b)) [] r of (cs, r') \<Rightarrow>
           (new_genome (if system_id a \<noteq> [] then system_id a else system_id b) cs (source_graph a), r')))"

section \<open>Refinement\<close>

datatype FitnessDimension = MODULARITY | SIMPLICITY | TESTABILITY | SECURITY_POSTURE | DEPLOYABILITY

fun dimension_value :: "FitnessDimension \<Rightarrow> string" where
  "dimension_value MODULARITY = ''modularity''"
| "dimension_value SIMPLICITY = ''simplicity''"
| "dimension_value TESTABILITY = ''testability''"
| "dimension_value SECURITY_POSTURE = ''security_posture''"
| "dimension_value DEPLOYABILITY = ''deployability''"

definition improvements :: "(string, string) dict" where
  "improvements = [(''modularity'', ''domain-driven''), (''simplicity'', ''modular''), (''testability'', ''contract-tested''),
     (''security_posture'', ''zero-trust''), (''deployability'', ''containerized'')]"

text \<open>The inner \<open>for dim in weak_dims ... else\<close>.\<close>

fun refine_gene :: "string \<Rightarrow> Gene \<Rightarrow> FitnessDimension list \<Rightarrow> py_exn + Gene" where
  "refine_gene gid g [] = Inr g"
| "refine_gene gid g (w # dims) =
     (case dict_get improvements (dimension_value w) of
        Some v \<Rightarrow> if decision g = ''decomposition'' then new_gene gid (decision g) v else refine_gene gid g dims
      | None \<Rightarrow> refine_gene gid g dims)"

fun refine_genes :: "string \<Rightarrow> FitnessDimension list \<Rightarrow> (string, Gene) dict \<Rightarrow> (string, Gene) dict \<Rightarrow> py_exn + (string, Gene) dict" where
  "refine_genes k dims [] acc = Inr acc"
| "refine_genes k dims ((gid, g) # gs) acc =
     (case (if k = family_value ARCHITECTURE then refine_gene gid g dims else Inr g) of
        Inl exn \<Rightarrow> Inl exn
      | Inr g' \<Rightarrow> refine_genes k dims gs (dict_set gid g' acc))"

fun refine_chromosomes ::
  "FitnessDimension list \<Rightarrow> (string, Chromosome) dict \<Rightarrow> (string, Chromosome) dict \<Rightarrow> py_exn + (string, Chromosome) dict" where
  "refine_chromosomes dims [] acc = Inr acc"
| "refine_chromosomes dims ((k, c) # cs) acc =
     (case refine_genes k dims (genes c) [] of
        Inl exn \<Rightarrow> Inl exn
      | Inr gs \<Rightarrow> refine_chromosomes dims cs (dict_set k \<lparr>family = family c, genes = gs\<rparr> acc))"

text \<open>The new genome is built without a source graph, whose default is the empty mapping.\<close>

definition refine :: "Genome \<Rightarrow> FitnessDimension list \<Rightarrow> py_exn + Genome" where
  "refine g dims =
     (case refine_chromosomes dims (chromosomes g) [] of
        Inl exn \<Rightarrow> Inl exn
      | Inr cs \<Rightarrow> new_genome (system_id g) cs [])"

section \<open>Construction\<close>

text \<open>What the constructor reads of an ISR revision: the system, and the identifiers and types of the nodes; the evaluator
  also counts the edges. The JSON form of the graph, \<open>graph.model_dump\<close>, comes with the revision.\<close>

datatype IsrNodeType = N_DOMAIN | N_SERVICE | N_OTHER string

record isr_node =
  in_id :: string
  in_type :: IsrNodeType

record isr_revision =
  ir_system_id :: string
  ir_nodes :: "(string, isr_node) dict"
  ir_edges :: "(string, payload) dict"
  ir_dump :: payload

text \<open>\<open>d.split(":", 1)[1] if ":" in d else d\<close>.\<close>

definition strip_prefix :: "string \<Rightarrow> string" where
  "strip_prefix d = (case dropWhile (\<lambda>c. c \<noteq> CHR '':'') d of [] \<Rightarrow> d | _ # rest \<Rightarrow> rest)"

definition isr_domains :: "isr_revision \<Rightarrow> string list" where
  "isr_domains isr = map in_id (filter (\<lambda>n. in_type n = N_DOMAIN) (sort_key in_id (dict_values (ir_nodes isr))))"

fun architecture_genes :: "string list \<Rightarrow> (string, Gene) dict \<Rightarrow> py_exn + (string, Gene) dict" where
  "architecture_genes [] acc = Inr acc"
| "architecture_genes (name # names) acc =
     (case new_gene name ''decomposition'' ''bounded-context'' of
        Inl exn \<Rightarrow> Inl exn
      | Inr g \<Rightarrow> architecture_genes names (dict_set name g acc))"

definition single_gene :: "string \<Rightarrow> string \<Rightarrow> string \<Rightarrow> (string, Gene) dict" where
  "single_gene gid d v = [(gid, \<lparr>gene_id = gid, decision = d, gene_value = v\<rparr>)]"

definition construct :: "isr_revision \<Rightarrow> py_exn + Genome" where
  "construct isr =
     (case architecture_genes (map strip_prefix (isr_domains isr)) [] of
        Inl exn \<Rightarrow> Inl exn
      | Inr gs \<Rightarrow>
          new_genome (ir_system_id isr)
            ([(family_value ARCHITECTURE, \<lparr>family = ARCHITECTURE, genes = gs\<rparr>),
              (family_value PERSISTENCE, \<lparr>family = PERSISTENCE, genes = single_gene ''baseline'' ''storage'' ''json''\<rparr>),
              (family_value SECURITY, \<lparr>family = SECURITY, genes = single_gene ''baseline'' ''authn'' ''token''\<rparr>)] @
             (if 2 \<le> length (isr_domains isr)
              then [(family_value MESSAGING, \<lparr>family = MESSAGING, genes = single_gene ''style'' ''protocol'' ''event-driven''\<rparr>)] else []))
            (ir_dump isr))"

section \<open>The traced operations of the engine\<close>

record OperationRecord =
  operation_type :: string
  source_genome_ids :: "string list"
  result_genome_id :: string
  mutation_rate :: "pyfloat option"
  changed_genes :: "string list"

record evolution_engine =
  mutation_rng :: rng
  crossover_rng :: rng
  operations_trace :: "OperationRecord list"

definition record_operation :: "OperationRecord \<Rightarrow> evolution_engine \<Rightarrow> evolution_engine" where
  "record_operation x eng = eng\<lparr>operations_trace := operations_trace eng @ [x]\<rparr>"

definition mutate_candidate :: "Genome \<Rightarrow> pyfloat \<Rightarrow> DecisionSpace \<Rightarrow> evolution_engine \<Rightarrow> (evolution_engine, Genome) outcome" where
  "mutate_candidate g rate space eng =
     (case mutate g rate space (mutation_rng eng) of
        (Inl exn, r) \<Rightarrow> (Inl exn, eng\<lparr>mutation_rng := r\<rparr>)
      | (Inr g', r) \<Rightarrow> (Inr g', record_operation
           \<lparr>operation_type = ''mutation'', source_genome_ids = [genome_content_hash g], result_genome_id = genome_content_hash g',
            mutation_rate = Some rate, changed_genes = []\<rparr> (eng\<lparr>mutation_rng := r\<rparr>)))"

definition crossover_candidates :: "Genome \<Rightarrow> Genome \<Rightarrow> evolution_engine \<Rightarrow> (evolution_engine, Genome) outcome" where
  "crossover_candidates a b eng =
     (case crossover a b (crossover_rng eng) of
        (Inl exn, r) \<Rightarrow> (Inl exn, eng\<lparr>crossover_rng := r\<rparr>)
      | (Inr g', r) \<Rightarrow> (Inr g', record_operation
           \<lparr>operation_type = ''crossover'', source_genome_ids = [genome_content_hash a, genome_content_hash b],
            result_genome_id = genome_content_hash g', mutation_rate = None, changed_genes = []\<rparr> (eng\<lparr>crossover_rng := r\<rparr>)))"

definition refine_candidate :: "Genome \<Rightarrow> FitnessDimension list \<Rightarrow> evolution_engine \<Rightarrow> (evolution_engine, Genome) outcome" where
  "refine_candidate g dims eng =
     (case refine g dims of
        Inl exn \<Rightarrow> (Inl exn, eng)
      | Inr g' \<Rightarrow> (Inr g', record_operation
           \<lparr>operation_type = ''refinement'', source_genome_ids = [genome_content_hash g], result_genome_id = genome_content_hash g',
            mutation_rate = None, changed_genes = []\<rparr> eng))"

section \<open>The hash does not depend on the order of the dictionaries\<close>

text \<open>The same genome, whatever the order of chromosomes and genes.\<close>

definition same_chromosome :: "Chromosome \<Rightarrow> Chromosome \<Rightarrow> bool" where
  "same_chromosome c d \<longleftrightarrow> family c = family d \<and> dict_wf (genes c) \<and> dict_wf (genes d) \<and> set (genes c) = set (genes d)"

definition same_genome :: "Genome \<Rightarrow> Genome \<Rightarrow> bool" where
  "same_genome g h \<longleftrightarrow> system_id g = system_id h \<and> source_graph g = source_graph h
     \<and> dict_wf (chromosomes g) \<and> dict_wf (chromosomes h) \<and> fst ` set (chromosomes g) = fst ` set (chromosomes h)
     \<and> (\<forall>(k, c) \<in> set (chromosomes g). \<forall>(l, d) \<in> set (chromosomes h). k = l \<longrightarrow> same_chromosome c d)"

lemma sort_key_same:
  assumes "dict_wf d" "dict_wf e" "set d = set e"
  shows "sort_key fst d = sort_key fst (e :: (string, 'a) dict)"
proof (rule sort_key_inj_key_eq)
  show "mset d = mset (sort_key fst e)" using assms by (simp add: dict_wf_def set_eq_iff_mset_eq_distinct[symmetric] distinct_map)
  show "inj_on fst (set d)" using assms(1) by (simp add: dict_wf_def distinct_map)
qed simp

lemma canonical_chromosome_same: "same_chromosome c d \<Longrightarrow> canonical_chromosome c = canonical_chromosome d"
  using sort_key_same[of "genes c" "genes d"] by (simp add: same_chromosome_def canonical_chromosome_def)

lemma key_entry: "k \<in> fst ` set d \<longleftrightarrow> (\<exists>v. (k, v) \<in> set d)"
  by force

lemma canonical_genome_same:
  assumes "same_genome g h"
  shows "canonical_genome g = canonical_genome h"
proof -
  let ?f = "map (\<lambda>(k, c). (k, canonical_chromosome c))"
  have same: "canonical_chromosome c = canonical_chromosome d" if "(k, c) \<in> set (chromosomes g)" "(k, d) \<in> set (chromosomes h)" for k c d
    using assms that by (intro canonical_chromosome_same) (auto simp: same_genome_def)
  have keys: "(\<exists>c. (k, c) \<in> set (chromosomes g)) \<longleftrightarrow> (\<exists>d. (k, d) \<in> set (chromosomes h))" for k
    using assms unfolding key_entry[symmetric] by (simp add: same_genome_def)
  have "set (?f (chromosomes g)) = set (?f (chromosomes h))"
  proof (intro equalityI subsetI)
    fix x assume "x \<in> set (?f (chromosomes g))"
    then obtain k c where x: "x = (k, canonical_chromosome c)" "(k, c) \<in> set (chromosomes g)" by auto
    then obtain d where "(k, d) \<in> set (chromosomes h)" using keys by blast
    then show "x \<in> set (?f (chromosomes h))" using x(1) same[OF x(2)] by force
  next
    fix x assume "x \<in> set (?f (chromosomes h))"
    then obtain k d where x: "x = (k, canonical_chromosome d)" "(k, d) \<in> set (chromosomes h)" by auto
    then obtain c where "(k, c) \<in> set (chromosomes g)" using keys by blast
    then show "x \<in> set (?f (chromosomes g))" using x(1) same[OF _ x(2)] by force
  qed
  moreover have "dict_wf (?f d)" if "dict_wf d" for d using that by (simp add: dict_wf_def comp_def case_prod_beta)
  ultimately have "sort_key fst (?f (chromosomes g)) = sort_key fst (?f (chromosomes h))"
    using assms by (intro sort_key_same) (auto simp: same_genome_def)
  then show ?thesis using assms by (simp add: canonical_genome_def same_genome_def sort_key_map_snd)
qed

end
