(* ===== verification/Ev_Operators.thy ===== *)
theory Ev_Operators
  imports Ev_Genome
begin

text \<open>
  What the operators on genomes guarantee: mutation stays inside the decision space and touches values only, crossover takes every
  gene from a parent, and refinement loses the source graph.
\<close>

section \<open>Mutation\<close>

text \<open>No choice of the space is the empty text, which no gene accepts.\<close>

definition space_ok :: "DecisionSpace \<Rightarrow> bool" where
  "space_ok space \<longleftrightarrow> (\<forall>gid. [] \<notin> set (space_values space gid))"

text \<open>A gene after mutation: itself, or the same decision with another value of the space.\<close>

definition gene_mutated :: "pyfloat \<Rightarrow> DecisionSpace \<Rightarrow> string \<times> Gene \<Rightarrow> string \<times> Gene \<Rightarrow> bool" where
  "gene_mutated rate space e e' \<longleftrightarrow> fst e' = fst e \<and>
     (snd e' = snd e \<or> f_lt (Fin 0) rate \<and> gene_id (snd e') = fst e \<and> decision (snd e') = decision (snd e)
        \<and> gene_value (snd e') \<in> set (space_values space (fst e)) \<and> gene_value (snd e') \<noteq> gene_value (snd e))"

definition chromosome_mutated :: "pyfloat \<Rightarrow> DecisionSpace \<Rightarrow> string \<times> Chromosome \<Rightarrow> string \<times> Chromosome \<Rightarrow> bool" where
  "chromosome_mutated rate space e e' \<longleftrightarrow> fst e' = fst e \<and> family (snd e') = family (snd e)
     \<and> list_all2 (gene_mutated rate space) (genes (snd e)) (genes (snd e'))"

lemma rng_ok_next [simp]: "rng_ok (r\<lparr>rng_n := n\<rparr>) \<longleftrightarrow> rng_ok r"
  by (simp add: rng_ok_def)

lemma rng_draws:
  "rng_ok r \<Longrightarrow> rng_random r = (x, r') \<Longrightarrow> rng_ok r' \<and> f_le (Fin 0) x"
  "rng_ok r \<Longrightarrow> rng_choice xs r = (v, r') \<Longrightarrow> xs \<noteq> [] \<Longrightarrow> rng_ok r' \<and> v \<in> set xs"
  by (auto simp: rng_random_def rng_choice_def) (auto simp: rng_ok_def)

lemma dict_set_last: "dict_wf (acc @ (k, v) # d) \<Longrightarrow> dict_set k v' acc = acc @ [(k, v')]"
  by (rule dict_set_fresh) (force simp: dict_wf_def dict_in_def)

lemma dict_wf_move: "dict_wf (acc @ (k, v) # d) \<Longrightarrow> dict_wf ((acc @ [(k, v')]) @ d)"
  by (auto simp: dict_wf_def)

lemma mutate_genes_spec:
  assumes "space_ok space"
  shows "dict_wf (acc @ gs) \<Longrightarrow> (\<forall>(gid, g) \<in> set gs. gid \<noteq> [] \<and> gene_ok g) \<Longrightarrow> rng_ok r \<Longrightarrow>
     \<exists>gs' r'. mutate_genes rate space gs acc r = (Inr (acc @ gs'), r') \<and> rng_ok r' \<and> list_all2 (gene_mutated rate space) gs gs'
       \<and> (\<forall>(gid, g) \<in> set gs'. gid \<noteq> [] \<and> gene_ok g)"
proof (induction gs arbitrary: acc r)
  case (Cons e gs)
  obtain gid g where e: "e = (gid, g)" by (cases e)
  have g: "gid \<noteq> []" "gene_ok g" and gs: "\<forall>(gid, g) \<in> set gs. gid \<noteq> [] \<and> gene_ok g" using Cons.prems(2) e by auto
  have wf: "dict_wf (acc @ (gid, g) # gs)" using Cons.prems(1) e by simp
  have go: ?case if step: "mutate_genes rate space (e # gs) acc r = mutate_genes rate space gs (dict_set gid g' acc) r'"
    "rng_ok r'" "gene_mutated rate space e (gid, g')" "gene_ok g'" for g' r'
  proof -
    obtain gs' r'' where IH: "mutate_genes rate space gs (acc @ [(gid, g')]) r' = (Inr ((acc @ [(gid, g')]) @ gs'), r'')" "rng_ok r''"
      "list_all2 (gene_mutated rate space) gs gs'" "\<forall>(gid, g) \<in> set gs'. gid \<noteq> [] \<and> gene_ok g"
      using Cons.IH[OF dict_wf_move[OF wf] gs step(2)] by blast
    then show ?thesis using step g(1) by (intro exI[of _ "(gid, g') # gs'"] exI[of _ r'']) (simp add: dict_set_last[OF wf])
  qed
  let ?opts = "filter (\<lambda>v. v \<noteq> gene_value g) (space_values space gid)"
  have keep: "gene_mutated rate space e (gid, g)" by (simp add: e gene_mutated_def)
  obtain x r1 where r1: "rng_random r = (x, r1)" by fastforce
  obtain v r2 where r2: "rng_choice ?opts r1 = (v, r2)" by fastforce
  note ok1 = rng_draws(1)[OF Cons.prems(3) r1]
  consider "?opts = []" | "?opts \<noteq> []" "\<not> f_lt x rate" | "?opts \<noteq> []" "f_lt x rate" by blast
  then show ?case
  proof cases
    case 1
    then show ?thesis using go[of g r] Cons.prems(3) keep g(2) e by simp
  next
    case 2
    then show ?thesis using go[of g r1] ok1 keep g(2) e r1 by simp
  next
    case 3
    let ?g = "\<lparr>gene_id = gid, decision = decision g, gene_value = v\<rparr>"
    have v: "rng_ok r2" "v \<in> set (space_values space gid)" "v \<noteq> gene_value g" using rng_draws(2)[OF _ r2 3(1)] ok1 by auto
    then have "v \<noteq> []" using assms by (auto simp: space_ok_def)
    then have ok: "new_gene gid (decision g) v = Inr ?g" "gene_ok ?g" using g by (auto simp: new_gene_def gene_ok_def)
    have "f_lt (Fin 0) rate" using f_le_less_trans 3(2) ok1 by blast
    then have "gene_mutated rate space e (gid, ?g)" using v by (simp add: gene_mutated_def e)
    then show ?thesis using go[of ?g r2] v(1) ok 3 r1 r2 e by simp
  qed
qed simp

lemma mutate_chromosomes_spec:
  assumes "space_ok space"
  shows "dict_wf (acc @ cs) \<Longrightarrow> (\<forall>(k, c) \<in> set cs. chromosome_ok c) \<Longrightarrow> rng_ok r \<Longrightarrow>
     \<exists>cs' r'. mutate_chromosomes rate space cs acc r = (Inr (acc @ cs'), r') \<and> list_all2 (chromosome_mutated rate space) cs cs'"
proof (induction cs arbitrary: acc r)
  case (Cons e cs)
  obtain k c where e: "e = (k, c)" by (cases e)
  have c: "chromosome_ok c" and cs: "\<forall>(k, c) \<in> set cs. chromosome_ok c" using Cons.prems(2) e by auto
  have wf: "dict_wf (acc @ (k, c) # cs)" using Cons.prems(1) e by simp
  obtain gs r1 where gs: "mutate_genes rate space (genes c) [] r = (Inr gs, r1)" "rng_ok r1" "list_all2 (gene_mutated rate space) (genes c) gs"
    using mutate_genes_spec[OF assms, of "[]" "genes c" r rate] c Cons.prems(3) by (auto simp: chromosome_ok_def)
  let ?c = "\<lparr>family = family c, genes = gs\<rparr>"
  obtain cs' r' where IH: "mutate_chromosomes rate space cs (acc @ [(k, ?c)]) r1 = (Inr ((acc @ [(k, ?c)]) @ cs'), r')"
    "list_all2 (chromosome_mutated rate space) cs cs'" using Cons.IH[OF dict_wf_move[OF wf] cs gs(2)] by blast
  have "chromosome_mutated rate space e (k, ?c)" using gs(3) by (simp add: e chromosome_mutated_def)
  then show ?case using IH gs(1) e by (intro exI[of _ "(k, ?c) # cs'"] exI[of _ r']) (simp add: dict_set_last[OF wf])
qed simp

lemma unmutated:
  assumes "list_all2 (chromosome_mutated rate space) cs cs'" "\<not> f_lt (Fin 0) rate"
  shows "cs' = cs"
proof -
  have genes: "list_all2 (gene_mutated rate space) gs gs' \<Longrightarrow> gs' = gs" for gs gs'
    by (induction rule: list_all2_induct) (use assms(2) in \<open>auto simp: gene_mutated_def prod_eq_iff\<close>)
  show ?thesis using assms(1)
    by (induction rule: list_all2_induct) (auto simp: chromosome_mutated_def prod_eq_iff dest: genes)
qed

section \<open>Crossover\<close>

definition gene_at :: "Genome \<Rightarrow> string \<Rightarrow> string \<Rightarrow> Gene option" where
  "gene_at g k gid = Option.bind (dict_get (chromosomes g) k) (\<lambda>c. dict_get (genes c) gid)"

text \<open>Taken from one of the parents, and from the one that has it.\<close>

definition inherited :: "'a option \<Rightarrow> 'a option \<Rightarrow> 'a option \<Rightarrow> bool" where
  "inherited x a b \<longleftrightarrow> (x = a \<or> x = b) \<and> (x = None \<longleftrightarrow> a = None \<and> b = None)"

lemma set_union_keys: "set (union_keys d e) = fst ` set d \<union> fst ` set e"
  by (simp add: union_keys_def)

lemma distinct_union_keys: "distinct (union_keys d e)"
  by (simp add: union_keys_def)

lemma no_key: "k \<notin> fst ` set d \<Longrightarrow> dict_get d k = None"
  by (simp add: dict_get_def map_of_eq_None_iff)

lemma merge_genes_get:
  "distinct gids \<Longrightarrow> (\<And>k. k \<in> set gids \<Longrightarrow> dict_get acc k = None) \<Longrightarrow> merge_genes ga gb gids acc r = (gs, r') \<Longrightarrow>
     (k \<in> set gids \<longrightarrow> inherited (dict_get gs k) (dict_get ga k) (dict_get gb k)) \<and> (k \<notin> set gids \<longrightarrow> dict_get gs k = dict_get acc k)"
proof (induction gids arbitrary: acc r)
  case (Cons gid gids)
  have fresh: "\<And>k v. k \<in> set gids \<Longrightarrow> dict_get (dict_set gid v acc) k = None" "\<And>k. k \<in> set gids \<Longrightarrow> dict_get acc k = None"
    "gid \<notin> set gids" using Cons.prems(1,2) by (auto simp: dict.lookup_put)
  show ?case
  proof (cases "dict_get ga gid"; cases "dict_get gb gid")
    assume "dict_get ga gid = None" "dict_get gb gid = None"
    then show ?thesis using Cons.IH[of acc r] Cons.prems fresh by (auto simp: inherited_def)
  next
    fix b assume "dict_get ga gid = None" "dict_get gb gid = Some b"
    then show ?thesis using Cons.IH[of "dict_set gid b acc" r] Cons.prems fresh by (auto simp: inherited_def dict.lookup_put)
  next
    fix a assume "dict_get ga gid = Some a" "dict_get gb gid = None"
    then show ?thesis using Cons.IH[of "dict_set gid a acc" r] Cons.prems fresh by (auto simp: inherited_def dict.lookup_put)
  next
    fix a b assume ab: "dict_get ga gid = Some a" "dict_get gb gid = Some b"
    obtain x r1 where r: "rng_random r = (x, r1)" by fastforce
    let ?g = "if f_lt x (fl (1 / 2)) then a else b"
    have "?g = a \<or> ?g = b" by simp
    then show ?thesis using ab r Cons.IH[of "dict_set gid ?g acc" r1] Cons.prems fresh by (auto simp: inherited_def dict.lookup_put)
  qed
qed simp

lemma merged_genes:
  "merge_genes ga gb (union_keys ga gb) [] r = (gs, r') \<Longrightarrow> inherited (dict_get gs k) (dict_get ga k) (dict_get gb k)"
  using merge_genes_get[OF distinct_union_keys, of ga gb "[]" ga gb r gs r' k] no_key[of k ga] no_key[of k gb]
  by (cases "k \<in> set (union_keys ga gb)") (auto simp: set_union_keys inherited_def)

text \<open>A chromosome of the child: that of the only parent that has it, or one whose genes are all inherited.\<close>

definition chromosome_inherited :: "Chromosome option \<Rightarrow> Chromosome option \<Rightarrow> Chromosome option \<Rightarrow> bool" where
  "chromosome_inherited x a b \<longleftrightarrow>
     (case (a, b) of
        (Some c, Some d) \<Rightarrow> \<exists>e. x = Some e \<and> family e = family c
          \<and> (\<forall>gid. inherited (dict_get (genes e) gid) (dict_get (genes c) gid) (dict_get (genes d) gid))
      | (Some c, None) \<Rightarrow> x = a
      | (None, _) \<Rightarrow> x = b)"

lemma merge_chromosomes_get:
  "distinct ks \<Longrightarrow> (\<And>k. k \<in> set ks \<Longrightarrow> dict_get acc k = None) \<Longrightarrow> merge_chromosomes ca cb ks acc r = (cs, r') \<Longrightarrow>
     (k \<in> set ks \<longrightarrow> chromosome_inherited (dict_get cs k) (dict_get ca k) (dict_get cb k)) \<and> (k \<notin> set ks \<longrightarrow> dict_get cs k = dict_get acc k)"
proof (induction ks arbitrary: acc r)
  case (Cons k' ks)
  have fresh: "\<And>k v. k \<in> set ks \<Longrightarrow> dict_get (dict_set k' v acc) k = None" "\<And>k. k \<in> set ks \<Longrightarrow> dict_get acc k = None"
    "k' \<notin> set ks" using Cons.prems(1,2) by (auto simp: dict.lookup_put)
  show ?case
  proof (cases "dict_get ca k'"; cases "dict_get cb k'")
    assume "dict_get ca k' = None" "dict_get cb k' = None"
    then show ?thesis using Cons.IH[of acc r] Cons.prems fresh by (auto simp: chromosome_inherited_def)
  next
    fix b assume "dict_get ca k' = None" "dict_get cb k' = Some b"
    then show ?thesis using Cons.IH[of "dict_set k' b acc" r] Cons.prems fresh by (auto simp: chromosome_inherited_def dict.lookup_put)
  next
    fix a assume "dict_get ca k' = Some a" "dict_get cb k' = None"
    then show ?thesis using Cons.IH[of "dict_set k' a acc" r] Cons.prems fresh by (auto simp: chromosome_inherited_def dict.lookup_put)
  next
    fix a b assume ab: "dict_get ca k' = Some a" "dict_get cb k' = Some b"
    obtain gs r1 where r: "merge_genes (genes a) (genes b) (union_keys (genes a) (genes b)) [] r = (gs, r1)" by fastforce
    let ?c = "\<lparr>family = family a, genes = gs\<rparr>"
    have "chromosome_inherited (Some ?c) (Some a) (Some b)" using merged_genes[OF r] by (simp add: chromosome_inherited_def)
    then show ?thesis using ab r Cons.IH[of "dict_set k' ?c acc" r1] Cons.prems fresh by (auto simp: dict.lookup_put)
  qed
qed simp

lemma merged_chromosomes:
  "merge_chromosomes ca cb (union_keys ca cb) [] r = (cs, r') \<Longrightarrow> chromosome_inherited (dict_get cs k) (dict_get ca k) (dict_get cb k)"
  using merge_chromosomes_get[OF distinct_union_keys, of ca cb "[]" ca cb r cs r' k] no_key[of k ca] no_key[of k cb]
  by (cases "k \<in> set (union_keys ca cb)") (auto simp: set_union_keys chromosome_inherited_def)

lemma chromosome_inherited_genes:
  "chromosome_inherited x a b \<Longrightarrow>
     inherited (Option.bind x (\<lambda>c. dict_get (genes c) gid)) (Option.bind a (\<lambda>c. dict_get (genes c) gid)) (Option.bind b (\<lambda>c. dict_get (genes c) gid))"
proof (cases a; cases b)
  fix c d assume x: "chromosome_inherited x a b" and "a = Some c" "b = Some d"
  then obtain e where "x = Some e" "\<forall>gid. inherited (dict_get (genes e) gid) (dict_get (genes c) gid) (dict_get (genes d) gid)"
    by (auto simp: chromosome_inherited_def)
  then show ?thesis using \<open>a = Some c\<close> \<open>b = Some d\<close> by simp
qed (simp_all add: chromosome_inherited_def inherited_def)

section \<open>Refinement\<close>

lemma improvement_exists: "\<exists>v. dict_get improvements (dimension_value w) = Some v \<and> v \<noteq> []"
  by (cases w) (simp_all add: improvements_def dict_get_def)

lemma refine_gene_Inr: "gid \<noteq> [] \<Longrightarrow> gene_ok g \<Longrightarrow> \<exists>g'. refine_gene gid g dims = Inr g'"
proof (induction dims)
  case (Cons w dims)
  obtain v where "dict_get improvements (dimension_value w) = Some v" "v \<noteq> []" using improvement_exists by blast
  then show ?case using Cons by (simp add: new_gene_def gene_ok_def)
qed simp

lemma refine_genes_Inr: "(\<forall>(gid, g) \<in> set gs. gid \<noteq> [] \<and> gene_ok g) \<Longrightarrow> \<exists>gs'. refine_genes k dims gs acc = Inr gs'"
proof (induction gs arbitrary: acc)
  case (Cons e gs)
  obtain gid g where e: "e = (gid, g)" by (cases e)
  obtain g' where "(if k = family_value ARCHITECTURE then refine_gene gid g dims else Inr g) = Inr g'"
    using refine_gene_Inr[of gid g dims] Cons.prems e by (cases "k = family_value ARCHITECTURE") auto
  then show ?case using Cons.IH[of "dict_set gid g' acc"] Cons.prems e by simp
qed simp

lemma refine_chromosomes_Inr: "(\<forall>(k, c) \<in> set cs. chromosome_ok c) \<Longrightarrow> \<exists>cs'. refine_chromosomes dims cs acc = Inr cs'"
proof (induction cs arbitrary: acc)
  case (Cons e cs)
  obtain k c where e: "e = (k, c)" by (cases e)
  obtain gs where "refine_genes k dims (genes c) [] = Inr gs"
    using refine_genes_Inr[of "genes c" k dims "[]"] Cons.prems e by (auto simp: chromosome_ok_def)
  then show ?case using Cons.IH Cons.prems e by auto
qed simp

lemma same_substrate_empty: "same_substrate [] d \<longleftrightarrow> d = []"
proof
  assume "same_substrate [] d"
  then have "length (sort_key fst (map (\<lambda>(k, v). (k, eq_form v)) d)) = 0" by (simp add: same_substrate_def)
  then show "d = []" by simp
qed (simp add: same_substrate_def)

section \<open>Properties\<close>

definition sample_genome :: Genome where
  "sample_genome = \<lparr>system_id = ''shop'', chromosomes =
     [(''architecture'', \<lparr>family = ARCHITECTURE, genes = single_gene ''orders'' ''decomposition'' ''bounded-context''\<rparr>),
      (''security'', \<lparr>family = SECURITY, genes = single_gene ''baseline'' ''authn'' ''token''\<rparr>)],
     source_graph = [(''nodes'', PDict []), (''edges'', PDict [])]\<rparr>"

definition sample_rng :: rng where
  "sample_rng = \<lparr>rng_floats = (\<lambda>k. Fin (if even k then 0 else 1 / 2)), rng_indexes = (\<lambda>k n. k mod n), rng_n = 0\<rparr>"

definition sample_space :: DecisionSpace where
  "sample_space = \<lparr>choices = [(''baseline'', [''token'', ''mtls''])]\<rparr>"

lemma samples_ok: "genome_ok sample_genome" "rng_ok sample_rng" "space_ok sample_space"
  by (auto simp: genome_ok_def chromosome_ok_def gene_ok_def dict_wf_def sample_genome_def single_gene_def rng_ok_def sample_rng_def
      space_ok_def space_values_def sample_space_def dict_get_def split: option.splits if_splits)

text \<open>C31. Mutation of a genome always returns. It keeps the system, the source graph, the chromosomes with their families and the genes with their decisions; a
  gene keeps its value or takes another one that the decision space lists for it, and with a rate that is not positive the genome is unchanged.\<close>

theorem mutation_stays_in_space:
  assumes "genome_ok g" "rng_ok r" "space_ok space"
  shows "\<exists>g'. fst (mutate g rate space r) = Inr g' \<and> system_id g' = system_id g \<and> source_graph g' = source_graph g
     \<and> list_all2 (chromosome_mutated rate space) (chromosomes g) (chromosomes g')
     \<and> (\<not> f_lt (Fin 0) rate \<longrightarrow> g' = g)"
proof -
  obtain cs' r' where cs: "mutate_chromosomes rate space (chromosomes g) [] r = (Inr cs', r')"
    "list_all2 (chromosome_mutated rate space) (chromosomes g) cs'"
    using mutate_chromosomes_spec[OF assms(3), of "[]" "chromosomes g" r rate] assms(1,2) by (auto simp: genome_ok_def)
  let ?g = "\<lparr>system_id = system_id g, chromosomes = cs', source_graph = source_graph g\<rparr>"
  have "fst (mutate g rate space r) = Inr ?g" using cs(1) assms(1) by (simp add: mutate_def new_genome_def genome_ok_def)
  moreover have "?g = g" if "\<not> f_lt (Fin 0) rate" using unmutated[OF cs(2) that] by simp
  ultimately show ?thesis using cs(2) by (intro exI[of _ ?g]) simp
qed

theorem mutation_stays_in_space_witness:
  "\<exists>g'. fst (mutate sample_genome (Fin 1) sample_space sample_rng) = Inr g' \<and> system_id g' = system_id sample_genome
     \<and> source_graph g' = source_graph sample_genome
     \<and> list_all2 (chromosome_mutated (Fin 1) sample_space) (chromosomes sample_genome) (chromosomes g')
     \<and> (\<not> f_lt (Fin 0) (Fin 1) \<longrightarrow> g' = sample_genome)"
  by (rule mutation_stays_in_space[OF samples_ok])

text \<open>Crossover refuses genomes with different source graphs and otherwise returns a child of the first parent's system over the common source graph, in which
  every gene is the gene of a parent at the same place, and no gene that a parent has is missing.\<close>

theorem crossover_inherits:
  assumes "genome_ok a"
  shows "if same_substrate (source_graph a) (source_graph b)
     then \<exists>c. fst (crossover a b r) = Inr c \<and> system_id c = system_id a \<and> source_graph c = source_graph a
       \<and> (\<forall>k gid. inherited (gene_at c k gid) (gene_at a k gid) (gene_at b k gid))
     else crossover a b r = (Inl (ValueError ''cannot cross over genomes with different source ISR semantic substrates''), r)"
proof (cases "same_substrate (source_graph a) (source_graph b)")
  case True
  obtain cs r' where cs: "merge_chromosomes (chromosomes a) (chromosomes b) (union_keys (chromosomes a) (chromosomes b)) [] r = (cs, r')" by fastforce
  let ?c = "\<lparr>system_id = system_id a, chromosomes = cs, source_graph = source_graph a\<rparr>"
  have "fst (crossover a b r) = Inr ?c" using True cs assms by (simp add: crossover_def new_genome_def genome_ok_def)
  moreover have "inherited (gene_at ?c k gid) (gene_at a k gid) (gene_at b k gid)" for k gid
    using chromosome_inherited_genes[OF merged_chromosomes[OF cs]] by (simp add: gene_at_def)
  ultimately show ?thesis using True by (simp add: exI[of _ ?c])
qed (simp add: crossover_def)

theorem crossover_inherits_witness:
  "if same_substrate (source_graph sample_genome) (source_graph sample_genome)
     then \<exists>c. fst (crossover sample_genome sample_genome sample_rng) = Inr c \<and> system_id c = system_id sample_genome
       \<and> source_graph c = source_graph sample_genome
       \<and> (\<forall>k gid. inherited (gene_at c k gid) (gene_at sample_genome k gid) (gene_at sample_genome k gid))
     else crossover sample_genome sample_genome sample_rng =
       (Inl (ValueError ''cannot cross over genomes with different source ISR semantic substrates''), sample_rng)"
  by (rule crossover_inherits[OF samples_ok(1)])

text \<open>Refinement loses the source graph: the refined genome has none, and crossing it with the genome it came from raises.\<close>

theorem refinement_drops_source_graph:
  assumes "genome_ok g" "source_graph g \<noteq> []"
  shows "\<exists>g'. refine g dims = Inr g' \<and> system_id g' = system_id g \<and> source_graph g' = []
     \<and> crossover g' g r = (Inl (ValueError ''cannot cross over genomes with different source ISR semantic substrates''), r)"
proof -
  obtain cs where "refine_chromosomes dims (chromosomes g) [] = Inr cs"
    using refine_chromosomes_Inr[of "chromosomes g" dims "[]"] assms(1) by (auto simp: genome_ok_def)
  then show ?thesis using assms by (simp add: refine_def new_genome_def genome_ok_def crossover_def same_substrate_empty)
qed

theorem refinement_drops_source_graph_witness:
  "\<exists>g'. refine sample_genome [MODULARITY] = Inr g' \<and> system_id g' = system_id sample_genome \<and> source_graph g' = []
     \<and> crossover g' sample_genome sample_rng = (Inl (ValueError ''cannot cross over genomes with different source ISR semantic substrates''), sample_rng)"
  by (rule refinement_drops_source_graph[OF samples_ok(1)]) (simp add: sample_genome_def)

text \<open>The content hash depends on the genome only: genomes with the same system, the same source graph and the same genes have the same hash, in
  whatever order their chromosomes and genes are stored.\<close>

theorem genome_hash_order_independent:
  assumes "same_genome g h"
  shows "genome_content_hash g = genome_content_hash h"
  by (simp add: genome_content_hash_def canonical_genome_same[OF assms])

theorem genome_hash_order_independent_witness:
  "genome_content_hash sample_genome = genome_content_hash (sample_genome\<lparr>chromosomes := rev (chromosomes sample_genome)\<rparr>)"
  by (rule genome_hash_order_independent) (auto simp: same_genome_def same_chromosome_def sample_genome_def dict_wf_def single_gene_def)

end
