(* ===== verification/Ev_Selection.thy ===== *)
theory Ev_Selection
  imports Ev_Genome Pa_Selection
begin

text \<open>
  Fitness and selection of the constructive evolution engine (\<^verbatim>\<open>evolution/core\<close>: fitness.py, fitness_evaluator.py, selection.py): vectors over five
  dimensions, dominance without tolerance, the non-dominated sort of \<open>Pa_Fronts\<close> over indices, and the choice of one candidate.
  The arrays of the sort are tables with the indices as keys.
\<close>

section \<open>Fitness vectors\<close>

type_synonym fitness_vector = "(FitnessDimension, pyfloat) dict"

definition score_of :: "fitness_vector \<Rightarrow> FitnessDimension \<Rightarrow> pyfloat" where
  "score_of v d = (case dict_get v d of None \<Rightarrow> Fin 0 | Some x \<Rightarrow> x)"

text \<open>The loop over the union of the dimensions. A set is iterated in an unspecified order, which does not matter: \<open>vector_dominates_iff\<close>.\<close>

fun vector_dominates_loop :: "fitness_vector \<Rightarrow> fitness_vector \<Rightarrow> FitnessDimension list \<Rightarrow> bool \<Rightarrow> bool" where
  "vector_dominates_loop a b [] at_least_one = at_least_one"
| "vector_dominates_loop a b (d # ds) at_least_one =
     (if f_lt (score_of a d) (score_of b d) then False
      else vector_dominates_loop a b ds (if f_gt (score_of a d) (score_of b d) then True else at_least_one))"

definition vector_dominates :: "fitness_vector \<Rightarrow> fitness_vector \<Rightarrow> bool" where
  "vector_dominates a b = vector_dominates_loop a b (remdups (map fst a @ map fst b)) False"

definition vector_fronts :: "fitness_vector list \<Rightarrow> nat list list option" where
  "vector_fronts vectors = nd_sort (\<lambda>i j. vector_dominates (vectors ! i) (vectors ! j)) [0..<length vectors]"

section \<open>Crowding and selection\<close>

definition all_dimensions :: "FitnessDimension list" where
  "all_dimensions = [MODULARITY, SIMPLICITY, TESTABILITY, SECURITY_POSTURE, DEPLOYABILITY]"

definition crowd_dimension ::
  "fitness_vector list \<Rightarrow> nat list \<Rightarrow> FitnessDimension \<Rightarrow> (nat, pyfloat) dict \<Rightarrow> py_exn + (nat, pyfloat) dict" where
  "crowd_dimension vectors front d distances =
     (let val = (\<lambda>i. score_of (vectors ! i) d);
          sorted_idx = py_sorted (\<lambda>i j. f_lt (val i) (val j)) front;
          distances = dict_set (last sorted_idx) LARGE_CROWDING_DISTANCE (dict_set (hd sorted_idx) LARGE_CROWDING_DISTANCE distances);
          range_val = f_sub (val (last sorted_idx)) (val (hd sorted_idx))
      in if f_eq range_val (Fin 0) then Inr distances else crowd_inner val range_val sorted_idx distances)"

fun crowd_dimensions ::
  "fitness_vector list \<Rightarrow> nat list \<Rightarrow> FitnessDimension list \<Rightarrow> (nat, pyfloat) dict \<Rightarrow> py_exn + (nat, pyfloat) dict" where
  "crowd_dimensions vectors front [] distances = Inr distances"
| "crowd_dimensions vectors front (d # ds) distances =
     (case crowd_dimension vectors front d distances of
        Inl exn \<Rightarrow> Inl exn
      | Inr distances' \<Rightarrow> crowd_dimensions vectors front ds distances')"

definition vector_crowding :: "nat list \<Rightarrow> fitness_vector list \<Rightarrow> py_exn + (nat, pyfloat) dict" where
  "vector_crowding front vectors =
     (if length front \<le> 2 then Inr (fold (\<lambda>i. dict_set i LARGE_CROWDING_DISTANCE) front [])
      else crowd_dimensions vectors front all_dimensions (fold (\<lambda>i. dict_set i (Fin 0)) front []))"

text \<open>\<open>max(first, key=...)\<close> keeps the first of several largest.\<close>

definition max_by :: "('a \<Rightarrow> pyfloat) \<Rightarrow> 'a \<Rightarrow> 'a list \<Rightarrow> 'a" where
  "max_by key = foldl (\<lambda>best i. if f_gt (key i) (key best) then i else best)"

definition select_candidate :: "fitness_vector list \<Rightarrow> py_exn + nat" where
  "select_candidate candidates =
     (if candidates = [] then Inl (ValueError ''No candidates to select from'')
      else
        (case vector_fronts candidates of
           None \<Rightarrow> Inl (KeyError ''domination_count'')
         | Some [] \<Rightarrow> Inr 0
         | Some (first # _) \<Rightarrow>
             (case first of
                [i] \<Rightarrow> Inr i
              | _ \<Rightarrow>
                  (case vector_crowding first candidates of
                     Inl exn \<Rightarrow> Inl exn
                   | Inr distances \<Rightarrow>
                       (case first of
                          [] \<Rightarrow> Inl (ValueError ''max() arg is an empty sequence'')
                        | i # is \<Rightarrow> Inr (max_by (distance_of distances) i is))))))"

section \<open>Evaluation\<close>

text \<open>\<open>n / d\<close> for a count and a positive float constant.\<close>

definition count_over :: "nat \<Rightarrow> rat \<Rightarrow> pyfloat" where
  "count_over n d = (case fl (of_nat n) of Fin r \<Rightarrow> fl (r / d) | x \<Rightarrow> x)"

definition evaluate :: "isr_revision \<Rightarrow> Genome \<Rightarrow> fitness_vector" where
  "evaluate isr g =
     (let e = length (ir_edges isr);
          domains = length (filter (\<lambda>n. in_type n = N_DOMAIN) (dict_values (ir_nodes isr)));
          services = length (filter (\<lambda>n. in_type n = N_SERVICE) (dict_values (ir_nodes isr)));
          modularity = (if 0 < domains then f_min (Fin 1) (count_over domains 3) else Fin 0);
          simplicity = (if 0 < e then f_max (Fin 0) (f_sub (Fin 1) (count_over e 20)) else Fin 1);
          testability = (if 0 < services then Fin 1 else Fin 0);
          has_sec = dict_in (family_value SECURITY) (chromosomes g);
          security_posture = (if has_sec then Fin 1 else Fin 0);
          has_persist = dict_in (family_value PERSISTENCE) (chromosomes g);
          deployability = (if has_persist \<and> has_sec then Fin 1 else Fin (1 / 2))
      in [(MODULARITY, f_round 4 modularity), (SIMPLICITY, f_round 4 simplicity), (TESTABILITY, f_round 4 testability),
          (SECURITY_POSTURE, f_round 4 security_posture), (DEPLOYABILITY, f_round 4 deployability)])"

section \<open>Dominance\<close>

lemma vector_dominates_loop_iff:
  "vector_dominates_loop a b ds better \<longleftrightarrow> (\<forall>d \<in> set ds. \<not> f_lt (score_of a d) (score_of b d))
     \<and> (better \<or> (\<exists>d \<in> set ds. f_lt (score_of b d) (score_of a d)))"
  by (induction ds arbitrary: better) auto

lemma score_of_absent: "d \<notin> fst ` set v \<Longrightarrow> score_of v d = Fin 0"
  using map_of_eq_None_iff[of v d] by (simp add: score_of_def dict_get_def)

text \<open>A dimension that neither vector has is zero in both.\<close>

lemma vector_dominates_iff:
  "vector_dominates a b \<longleftrightarrow> (\<forall>d. \<not> f_lt (score_of a d) (score_of b d)) \<and> (\<exists>d. f_lt (score_of b d) (score_of a d))"
proof -
  have "\<not> f_lt (score_of a d) (score_of b d)" "\<not> f_lt (score_of b d) (score_of a d)"
    if "d \<notin> set (remdups (map fst a @ map fst b))" for d
    using that score_of_absent[of d a] score_of_absent[of d b] by auto
  then show ?thesis unfolding vector_dominates_def vector_dominates_loop_iff by blast
qed

interpretation fitness: dominance "\<lambda>i j. vector_dominates (vectors ! i) (vectors ! j)" for vectors
  by unfold_locales (auto simp: vector_dominates_iff)

definition scored :: "fitness_vector \<Rightarrow> bool" where
  "scored v \<longleftrightarrow> (\<forall>x \<in> set (dict_values v). x \<noteq> NaN)"

lemma scored_score: "scored v \<Longrightarrow> score_of v d \<noteq> NaN"
  by (auto simp: scored_def score_of_def split: option.splits dest: dict_get_in_values)

lemma vector_dominates_trans:
  assumes "scored a" "scored b" "scored c" "vector_dominates a b" "vector_dominates b c"
  shows "vector_dominates a c"
proof -
  have le: "\<not> f_lt (score_of u d) (score_of v d) \<longleftrightarrow> f_le (score_of v d) (score_of u d)" if "scored u" "scored v" for u v d
    using that f_not_lt[of "score_of u d" "score_of v d"] f_le_less_trans[of "score_of v d" "score_of u d" "score_of v d"]
    by (auto simp: scored_score)
  have ab: "\<forall>d. f_le (score_of b d) (score_of a d)" and bc: "\<forall>d. f_le (score_of c d) (score_of b d)"
    using assms by (auto simp: vector_dominates_iff le)
  obtain d where "f_lt (score_of c d) (score_of b d)" using assms(5) by (auto simp: vector_dominates_iff)
  then have "f_lt (score_of c d) (score_of a d)" using ab f_lt_le_trans by blast
  moreover have "f_le (score_of c d) (score_of a d)" for d using ab bc f_le_trans by blast
  ultimately show ?thesis using assms(1,3) by (auto simp: vector_dominates_iff le)
qed

section \<open>Selection\<close>

lemma max_by_in: "max_by key i is \<in> set (i # is)"
proof (induction "is" arbitrary: i)
  case (Cons a "is")
  show ?case using Cons[of "if f_gt (key a) (key i) then a else i"] by (auto simp: max_by_def split: if_splits)
qed (simp add: max_by_def)

lemma vector_crowding_Inr: "\<exists>ds. vector_crowding front vectors = Inr ds"
proof -
  have one: "\<exists>ds'. crowd_dimension vectors front d ds = Inr ds'" for d ds
    using crowd_inner_Inr by (auto simp: crowd_dimension_def Let_def f_eq_def)
  have "\<exists>ds'. crowd_dimensions vectors front dims ds = Inr ds'" for dims ds
  proof (induction dims arbitrary: ds)
    case (Cons d dims)
    obtain ds1 where "crowd_dimension vectors front d ds = Inr ds1" using one by blast
    then show ?case using Cons.IH by simp
  qed simp
  then show ?thesis by (simp add: vector_crowding_def)
qed

lemma selects_from_first_front:
  assumes "\<forall>v \<in> set candidates. scored v" "candidates \<noteq> []"
  shows "\<exists>i. select_candidate candidates = Inr i \<and> i < length candidates
     \<and> (\<forall>j < length candidates. \<not> vector_dominates (candidates ! j) (candidates ! i))"
proof -
  let ?ids = "[0..<length candidates]" and ?beats = "\<lambda>i j. vector_dominates (candidates ! i) (candidates ! j)"
  let ?E = "{(i, j). i \<in> set ?ids \<and> j \<in> set ?ids \<and> ?beats i j}"
  have "trans ?E"
    using vector_dominates_trans assms(1) unfolding trans_def by (auto simp del: vector_dominates_iff) (metis nth_mem)
  then have "acyclic ?E" using fitness.beats_irrefl by (auto simp: acyclic_def trancl_id)
  then have "set (concat (peel_fronts ?beats ?ids)) = set ?ids" by (rule peel_fronts_complete) simp_all
  then have ne: "undominated ?beats ?ids \<noteq> []" using assms(2) by (auto dest: peel_fronts_Nil)
  obtain fronts where fronts: "vector_fronts candidates = Some fronts" "map set fronts = map set (peel_fronts ?beats ?ids)"
    using fitness.nd_sort_peels[of ?ids candidates] by (auto simp: vector_fronts_def)
  obtain first rest where f: "fronts = first # rest" "set first = set (undominated ?beats ?ids)"
    using fronts(2) peel_fronts_Cons[OF ne] by (cases fronts) auto
  then have "first \<noteq> []" using ne by auto
  then obtain i "is" where first: "first = i # is" by (cases first) auto
  obtain ds where ds: "vector_crowding first candidates = Inr ds" using vector_crowding_Inr by blast
  have "select_candidate candidates = Inr (if is = [] then i else max_by (distance_of ds) i is)"
    using assms(2) fronts(1) f(1) first ds by (cases "is") (auto simp: select_candidate_def)
  moreover have "(if is = [] then i else max_by (distance_of ds) i is) \<in> set first" using max_by_in[of _ i "is"] first by auto
  ultimately show ?thesis using f(2) by (auto simp: set_undominated)
qed

text \<open>Evaluation gives numbers, whatever the revision and the genome are.\<close>

lemma f_round_not_NaN: "x \<noteq> NaN \<Longrightarrow> f_round n x \<noteq> NaN"
  by (cases x) auto

lemma count_over_not_NaN: "count_over n d \<noteq> NaN"
  by (auto simp: count_over_def split: pyfloat.splits)

lemma evaluate_scored: "scored (evaluate isr g)"
proof -
  have "f_min (Fin 1) (count_over n d) \<noteq> NaN" for n d using count_over_not_NaN by (simp add: f_min_def)
  moreover have "f_sub (Fin 1) (count_over n d) \<noteq> NaN" for n d
    using count_over_not_NaN[of n d] by (cases "count_over n d") (auto simp: f_sub_def)
  then have "f_max (Fin 0) (f_sub (Fin 1) (count_over n d)) \<noteq> NaN" for n d by (simp add: f_max_def)
  ultimately show ?thesis by (auto simp: scored_def evaluate_def Let_def dict_values_def intro!: f_round_not_NaN)
qed

text \<open>Selection among candidates evaluated against an ISR revision returns one of them, and none of the candidates dominates it.\<close>

theorem selected_candidate_undominated:
  assumes "gs \<noteq> []"
  shows "\<exists>i. select_candidate (map (evaluate isr) gs) = Inr i \<and> i < length gs
     \<and> (\<forall>j < length gs. \<not> vector_dominates (evaluate isr (gs ! j)) (evaluate isr (gs ! i)))"
  using selects_from_first_front[of "map (evaluate isr) gs"] assms by (auto simp: evaluate_scored)

theorem selected_candidate_undominated_witness:
  "\<exists>i. select_candidate (map (evaluate \<lparr>ir_system_id = ''shop'', ir_nodes = [], ir_edges = [], ir_dump = []\<rparr>)
         [\<lparr>system_id = ''shop'', chromosomes = [], source_graph = []\<rparr>]) = Inr i \<and> i < length [\<lparr>system_id = ''shop'', chromosomes = [], source_graph = []\<rparr>]
     \<and> (\<forall>j < length [\<lparr>system_id = ''shop'', chromosomes = [], source_graph = []\<rparr> :: Genome].
          \<not> vector_dominates (evaluate \<lparr>ir_system_id = ''shop'', ir_nodes = [], ir_edges = [], ir_dump = []\<rparr> ([\<lparr>system_id = ''shop'', chromosomes = [], source_graph = []\<rparr>] ! j))
              (evaluate \<lparr>ir_system_id = ''shop'', ir_nodes = [], ir_edges = [], ir_dump = []\<rparr> ([\<lparr>system_id = ''shop'', chromosomes = [], source_graph = []\<rparr>] ! i)))"
  by (rule selected_candidate_undominated) simp

end
