(* ===== verification/Mw_Rate_Limit.thy ===== *)
theory Mw_Rate_Limit
  imports Py_Prelude "HOL-Library.Sublist"
begin

text \<open>
  The rate-limiting middleware (\<^verbatim>\<open>autonomous-api/app/middleware/rate_limit.py\<close>): a limiter keeps the times of the accepted requests per
  client and forgets those that left the window; the middleware chooses between two limiters by path. Clock readings are arguments.
  The application behind the middleware and the header object of its responses are parameters. The reference is a limiter
  that forgets nothing and counts, at each request, the accepted ones of the client inside the window.
\<close>

section \<open>The limiter\<close>

record rate_limiter =
  rl_max_requests :: int
  rl_window_seconds :: int
  rl_requests :: "(string, pyfloat list) dict"

record rate_limit_info =
  ri_limit :: int
  ri_remaining :: int
  ri_retry_after :: int
  ri_window_seconds :: int

definition RateLimiter :: "int \<Rightarrow> int \<Rightarrow> rate_limiter" where
  "RateLimiter max_requests window_seconds =
     \<lparr>rl_max_requests = max_requests, rl_window_seconds = window_seconds, rl_requests = []\<rparr>"

text \<open>\<open>current_time - req_time < window_seconds\<close>: Python compares a float with an integer exactly.\<close>

definition stamp_in_window :: "int \<Rightarrow> pyfloat \<Rightarrow> pyfloat \<Rightarrow> bool" where
  "stamp_in_window window now t = f_lt (f_sub now t) (Fin (of_int window))"

text \<open>\<open>int(x)\<close> on floats, and an integer operand of a float operation.\<close>

fun int_of_float :: "pyfloat \<Rightarrow> py_exn + int" where
  "int_of_float (Fin r) = Inr (if r < 0 then \<lceil>r\<rceil> else \<lfloor>r\<rfloor>)"
| "int_of_float NaN = Inl (ValueError ''cannot convert float NaN to integer'')"
| "int_of_float _ = Inl (OverflowError ''cannot convert float infinity to integer'')"

definition float_of_int :: "int \<Rightarrow> py_exn + pyfloat" where
  "float_of_int n = (case fl (of_int n) of Fin r \<Rightarrow> Inr (Fin r) | _ \<Rightarrow> Inl (OverflowError ''int too large to convert to float''))"

text \<open>\<open>min(times)\<close>.\<close>

fun oldest_request :: "pyfloat list \<Rightarrow> py_exn + pyfloat" where
  "oldest_request [] = Inl (ValueError ''min() arg is an empty sequence'')"
| "oldest_request (t # ts) = Inr (fold (\<lambda>t m. f_min m t) ts t)"

text \<open>\<open>int(window_seconds - (current_time - oldest_request)) + 1\<close>.\<close>

definition retry_after :: "int \<Rightarrow> pyfloat \<Rightarrow> pyfloat list \<Rightarrow> py_exn + int" where
  "retry_after window now stamps =
     (case oldest_request stamps of
        Inl exn \<Rightarrow> Inl exn
      | Inr oldest \<Rightarrow>
          (case float_of_int window of
             Inl exn \<Rightarrow> Inl exn
           | Inr w \<Rightarrow>
               (case int_of_float (f_sub w (f_sub now oldest)) of Inl exn \<Rightarrow> Inl exn | Inr n \<Rightarrow> Inr (n + 1))))"

definition client_requests :: "rate_limiter \<Rightarrow> string \<Rightarrow> pyfloat list" where
  "client_requests rl ip = (case dict_get (rl_requests rl) ip of None \<Rightarrow> [] | Some ts \<Rightarrow> ts)"

definition is_rate_limited :: "pyfloat \<Rightarrow> string \<Rightarrow> rate_limiter \<Rightarrow> (rate_limiter, bool \<times> rate_limit_info) outcome" where
  "is_rate_limited now ip rl =
     (let kept = filter (stamp_in_window (rl_window_seconds rl) now) (client_requests rl ip);
          rl1 = rl\<lparr>rl_requests := dict_set ip kept (rl_requests rl)\<rparr>
      in if rl_max_requests rl \<le> int (length kept) then
           (case retry_after (rl_window_seconds rl) now kept of
              Inl exn \<Rightarrow> (Inl exn, rl1)
            | Inr n \<Rightarrow> (Inr (True, \<lparr>ri_limit = rl_max_requests rl, ri_remaining = 0, ri_retry_after = n,
                 ri_window_seconds = rl_window_seconds rl\<rparr>), rl1))
         else
           (Inr (False, \<lparr>ri_limit = rl_max_requests rl, ri_remaining = rl_max_requests rl - int (length (kept @ [now])), ri_retry_after = 0,
              ri_window_seconds = rl_window_seconds rl\<rparr>),
            rl1\<lparr>rl_requests := dict_set ip (kept @ [now]) (rl_requests rl1)\<rparr>))"

definition cleanup :: "pyfloat \<Rightarrow> rate_limiter \<Rightarrow> rate_limiter" where
  "cleanup now rl =
     (let pruned = map (\<lambda>(ip, ts). (ip, filter (stamp_in_window (rl_window_seconds rl) now) ts)) (rl_requests rl)
      in rl\<lparr>rl_requests := filter (\<lambda>(ip, ts). ts \<noteq> []) pruned\<rparr>)"

section \<open>The middleware\<close>

record limiters =
  evolution_limiter :: rate_limiter
  general_limiter :: rate_limiter

definition initial_limiters :: limiters where
  "initial_limiters = \<lparr>evolution_limiter = RateLimiter 20 60, general_limiter = RateLimiter 100 60\<rparr>"

record http_request =
  rq_client_host :: "string option"
  rq_path :: string

record http_exception =
  hx_status_code :: int
  hx_error :: string
  hx_message :: string
  hx_retry_after :: int
  hx_limit :: int
  hx_window_seconds :: int
  hx_headers :: "(string, string) dict"

datatype 'r dispatch_result = Response 'r | Rejected http_exception | Failed py_exn

text \<open>\<open>sub in text\<close>.\<close>

definition contains_str :: "string \<Rightarrow> string \<Rightarrow> bool" where
  "contains_str sub txt = list_ex (prefix sub) (suffixes txt)"

definition rejection :: "rate_limit_info \<Rightarrow> int \<Rightarrow> http_exception" where
  "rejection info seconds =
     \<lparr>hx_status_code = 429, hx_error = ''rate_limit_exceeded'',
      hx_message = ''Too many requests. Try again in '' @ str_of_int (ri_retry_after info) @ '' seconds.'',
      hx_retry_after = ri_retry_after info, hx_limit = ri_limit info, hx_window_seconds = ri_window_seconds info,
      hx_headers = [(''Retry-After'', str_of_int (ri_retry_after info)), (''X-RateLimit-Limit'', str_of_int (ri_limit info)),
        (''X-RateLimit-Remaining'', ''0''), (''X-RateLimit-Reset'', str_of_int (seconds + ri_retry_after info))]\<rparr>"

text \<open>\<open>now\<close> and \<open>now'\<close> are the two clock readings; \<open>call_next\<close> is the application and \<open>set_header\<close> the assignment to the headers of
  its response.\<close>

definition dispatch ::
  "(http_request \<Rightarrow> py_exn + 'r) \<Rightarrow> (string \<Rightarrow> string \<Rightarrow> 'r \<Rightarrow> 'r) \<Rightarrow> pyfloat \<Rightarrow> pyfloat \<Rightarrow> http_request \<Rightarrow> limiters
   \<Rightarrow> 'r dispatch_result \<times> limiters" where
  "dispatch call_next set_header now now' request ls =
     (let client_ip = (case rq_client_host request of None \<Rightarrow> ''unknown'' | Some host \<Rightarrow> host);
          evolve = contains_str ''/evolve'' (rq_path request);
          (checked, limiter) = is_rate_limited now client_ip (if evolve then evolution_limiter ls else general_limiter ls);
          ls' = (if evolve then ls\<lparr>evolution_limiter := limiter\<rparr> else ls\<lparr>general_limiter := limiter\<rparr>)
      in case checked of
           Inl exn \<Rightarrow> (Failed exn, ls')
         | Inr (True, info) \<Rightarrow>
             (case int_of_float now' of Inl exn \<Rightarrow> (Failed exn, ls') | Inr seconds \<Rightarrow> (Rejected (rejection info seconds), ls'))
         | Inr (False, info) \<Rightarrow>
             (case call_next request of
                Inl exn \<Rightarrow> (Failed exn, ls')
              | Inr response \<Rightarrow>
                  (Response (set_header ''X-RateLimit-Window'' (str_of_int (ri_window_seconds info))
                     (set_header ''X-RateLimit-Remaining'' (str_of_int (ri_remaining info))
                       (set_header ''X-RateLimit-Limit'' (str_of_int (ri_limit info)) response))), ls')))"

definition cleanup_old_entries :: "pyfloat \<Rightarrow> pyfloat \<Rightarrow> limiters \<Rightarrow> limiters" where
  "cleanup_old_entries now now' ls =
     ls\<lparr>evolution_limiter := cleanup now (evolution_limiter ls), general_limiter := cleanup now' (general_limiter ls)\<rparr>"

section \<open>The reference\<close>

datatype limiter_call = Check string pyfloat | Cleanup pyfloat

fun call_time :: "limiter_call \<Rightarrow> pyfloat" where
  "call_time (Check ip now) = now"
| "call_time (Cleanup now) = now"

text \<open>The answers of a limiter to a sequence of calls.\<close>

fun limiter_run :: "limiter_call list \<Rightarrow> rate_limiter \<Rightarrow> (py_exn + bool \<times> rate_limit_info) list" where
  "limiter_run [] rl = []"
| "limiter_run (Check ip now # cs) rl = (case is_rate_limited now ip rl of (answer, rl') \<Rightarrow> answer # limiter_run cs rl')"
| "limiter_run (Cleanup now # cs) rl = limiter_run cs (cleanup now rl)"

text \<open>All accepted requests, and the count over them.\<close>

definition accepted_in_window :: "int \<Rightarrow> pyfloat \<Rightarrow> string \<Rightarrow> (string \<times> pyfloat) list \<Rightarrow> pyfloat list" where
  "accepted_in_window window now ip past = map snd (filter (\<lambda>(i, t). i = ip \<and> stamp_in_window window now t) past)"

fun window_run :: "int \<Rightarrow> int \<Rightarrow> limiter_call list \<Rightarrow> (string \<times> pyfloat) list \<Rightarrow> bool list" where
  "window_run limit window [] past = []"
| "window_run limit window (Check ip now # cs) past =
     (if limit \<le> int (length (accepted_in_window window now ip past)) then True # window_run limit window cs past
      else False # window_run limit window cs (past @ [(ip, now)]))"
| "window_run limit window (Cleanup now # cs) past = window_run limit window cs past"

text \<open>The clock: finite readings that never go back.\<close>

fun finite_time :: "pyfloat \<Rightarrow> bool" where
  "finite_time (Fin r) = True"
| "finite_time _ = False"

definition steady_clock :: "pyfloat list \<Rightarrow> bool" where
  "steady_clock ts \<longleftrightarrow> list_all finite_time ts \<and> sorted_wrt f_le ts"

section \<open>Windows\<close>

lemma f_sub_mono: "f_le now now' \<Longrightarrow> finite_time now \<Longrightarrow> finite_time now' \<Longrightarrow> finite_time t \<Longrightarrow> f_le (f_sub now t) (f_sub now' t)"
  by (cases now; cases now'; cases t) (auto simp: f_sub_def intro!: fl_mono)

lemma in_window_antimono:
  "f_le now now' \<Longrightarrow> finite_time now \<Longrightarrow> finite_time now' \<Longrightarrow> finite_time t \<Longrightarrow> stamp_in_window w now' t \<Longrightarrow> stamp_in_window w now t"
  using f_sub_mono f_le_less_trans by (simp add: stamp_in_window_def) blast

lemma filter_window:
  assumes "f_le now now'" "finite_time now" "finite_time now'" "list_all finite_time ts"
  shows "filter (stamp_in_window w now') (filter (stamp_in_window w now) ts) = filter (stamp_in_window w now') ts"
  using in_window_antimono[OF assms(1-3)] assms(4) by (auto simp: list_all_iff intro!: filter_cong)

lemma fold_f_min:
  "list_all finite_time (t # ts) \<Longrightarrow> fold (\<lambda>t m. f_min m t) ts t \<in> set (t # ts)"
proof (induction ts arbitrary: t)
  case (Cons u ts)
  then have "fold (\<lambda>t m. f_min m t) ts (f_min t u) \<in> set (f_min t u # ts)" by (simp add: f_min_def)
  then show ?case by (auto simp: f_min_def split: if_splits)
qed simp

text \<open>Inside the window the waiting time is at least one second and at most one more than the window.\<close>

lemma retry_after_range:
  assumes w: "\<bar>w\<bar> < 2 ^ 53" and now: "finite_time now" and ne: "stamps \<noteq> []"
    and seen: "list_all (\<lambda>t. finite_time t \<and> f_le t now \<and> stamp_in_window w now t) stamps"
  shows "\<exists>n. retry_after w now stamps = Inr n \<and> 1 \<le> n \<and> n \<le> w + 1"
proof -
  obtain t ts where ts: "stamps = t # ts" using ne by (cases stamps) auto
  let ?m = "fold (\<lambda>t m. f_min m t) ts t"
  have "?m \<in> set stamps" unfolding ts using seen ts by (intro fold_f_min) (auto simp: list_all_iff)
  then have m: "finite_time ?m" "f_le ?m now" "stamp_in_window w now ?m" using seen by (auto simp: list_all_iff)
  obtain a b where ab: "now = Fin a" "?m = Fin b" using now m(1) by (cases now; cases ?m) auto
  have "f_le (fl 0) (fl (a - b))" using m(2) ab by (intro fl_mono) simp
  then obtain d where d: "fl (a - b) = Fin d" "0 \<le> d" "d < of_int w"
    using m(3) ab by (cases "fl (a - b)") (auto simp: stamp_in_window_def f_sub_def)
  have fw: "fl (of_int w) = Fin (of_int w)" using w by (rule fl_int)
  have "f_le (fl 0) (fl (of_int w - d))" "f_le (fl (of_int w - d)) (fl (of_int w))"
    using d(2,3) by (auto intro!: fl_mono fl_nonneg)
  then obtain r where r: "fl (of_int w - d) = Fin r" "0 \<le> r" "r \<le> of_int w"
    using fw by (cases "fl (of_int w - d)") auto
  have "0 \<le> \<lfloor>r\<rfloor>" "\<lfloor>r\<rfloor> \<le> w" using r(2,3) by (simp_all add: floor_le_iff)
  then show ?thesis using ts ab d(1) fw r by (simp add: retry_after_def float_of_int_def f_sub_def)
qed

section \<open>A limiter and the requests it accepted\<close>

text \<open>What a limiter stores and what it ever accepted agree on every window that ends now or later.\<close>

definition tracks :: "rate_limiter \<Rightarrow> (string \<times> pyfloat) list \<Rightarrow> pyfloat \<Rightarrow> bool" where
  "tracks rl past now \<longleftrightarrow>
     (\<forall>ip now'. finite_time now' \<longrightarrow> f_le now now' \<longrightarrow>
        filter (stamp_in_window (rl_window_seconds rl) now') (client_requests rl ip) = accepted_in_window (rl_window_seconds rl) now' ip past)
   \<and> (\<forall>ip. list_all (\<lambda>t. finite_time t \<and> f_le t now) (client_requests rl ip))"

lemma tracks_later: "tracks rl past now \<Longrightarrow> f_le now now' \<Longrightarrow> tracks rl past now'"
  unfolding tracks_def list_all_iff by (meson f_le_trans)

lemma tracks_start: "tracks (RateLimiter limit w) [] now"
  by (simp add: tracks_def RateLimiter_def client_requests_def accepted_in_window_def)

text \<open>Dropping what is outside the window now changes nothing for later windows.\<close>

lemma tracks_prune:
  assumes "tracks rl past now" "finite_time now" "rl_window_seconds rl' = rl_window_seconds rl"
    and "\<And>ip. client_requests rl' ip = client_requests rl ip \<or>
      client_requests rl' ip = filter (stamp_in_window (rl_window_seconds rl) now) (client_requests rl ip)"
  shows "tracks rl' past now"
proof -
  have "filter (stamp_in_window (rl_window_seconds rl) now') (client_requests rl' ip) = filter (stamp_in_window (rl_window_seconds rl) now') (client_requests rl ip)"
    if "finite_time now'" "f_le now now'" for ip now'
    using assms(1) assms(4)[of ip] filter_window[OF that(2) assms(2) that(1), of "client_requests rl ip"]
    by (auto simp: tracks_def list_all_iff)
  moreover have "list_all (\<lambda>t. finite_time t \<and> f_le t now) (client_requests rl' ip)" for ip
    using assms(1) assms(4)[of ip] by (auto simp: tracks_def list_all_iff)
  ultimately show ?thesis using assms(1,3) by (simp add: tracks_def)
qed

lemma tracks_cleanup:
  assumes "dict_wf (rl_requests rl)" "tracks rl past now" "finite_time now"
  shows "tracks (cleanup now rl) past now"
proof (rule tracks_prune[OF assms(2,3)])
  fix ip
  have "map_of (filter (\<lambda>(ip, ts). ts \<noteq> []) (map (\<lambda>(ip, ts). (ip, f ts)) d)) ip =
      (case map_of d ip of None \<Rightarrow> None | Some ts \<Rightarrow> if f ts = [] then None else Some (f ts))"
    if "distinct (map fst d)" for f :: "pyfloat list \<Rightarrow> pyfloat list" and d :: "(string, pyfloat list) dict"
    using that
  proof (induction d)
    case (Cons e d)
    have "map_of d (fst e) = None" using Cons.prems by (simp add: map_of_eq_None_iff)
    then show ?case using Cons by (cases e) auto
  qed simp
  from this[of "rl_requests rl"] show "client_requests (cleanup now rl) ip = client_requests rl ip \<or>
      client_requests (cleanup now rl) ip = filter (stamp_in_window (rl_window_seconds rl) now) (client_requests rl ip)"
    using assms(1) by (auto simp: client_requests_def cleanup_def dict_get_def dict_wf_def split: option.splits)
qed (simp add: cleanup_def)

lemma cleanup_frame [simp]:
  "rl_max_requests (cleanup now rl) = rl_max_requests rl" "rl_window_seconds (cleanup now rl) = rl_window_seconds rl"
  by (simp_all add: cleanup_def)

lemma dict_wf_cleanup: "dict_wf (rl_requests rl) \<Longrightarrow> dict_wf (rl_requests (cleanup now rl))"
  by (simp add: cleanup_def dict_wf_def distinct_map_filter comp_def case_prod_beta)

lemma client_requests_set:
  "client_requests (rl\<lparr>rl_requests := dict_set ip ts (rl_requests rl)\<rparr>) ip' = (if ip' = ip then ts else client_requests rl ip')"
  by (simp add: client_requests_def dict.lookup_put)

text \<open>One request: the decision is that of the reference, a refusal names a sensible waiting time, and the limiter goes on tracking.\<close>

lemma check_tracks:
  assumes t: "tracks rl past now" and now: "finite_time now"
    and limit: "1 \<le> rl_max_requests rl" and w: "\<bar>rl_window_seconds rl\<bar> < 2 ^ 53"
    and run: "is_rate_limited now ip rl = (answer, rl')"
  defines "full \<equiv> rl_max_requests rl \<le> int (length (accepted_in_window (rl_window_seconds rl) now ip past))"
  shows "(\<exists>info. answer = Inr (full, info) \<and> ri_limit info = rl_max_requests rl \<and> 0 \<le> ri_remaining info \<and> ri_remaining info < ri_limit info
       \<and> (if full then 1 \<le> ri_retry_after info \<and> ri_retry_after info \<le> rl_window_seconds rl + 1 else ri_retry_after info = 0))
     \<and> tracks rl' (if full then past else past @ [(ip, now)]) now"
proof -
  let ?w = "rl_window_seconds rl" and ?n = "rl_max_requests rl"
  let ?kept = "filter (stamp_in_window ?w now) (client_requests rl ip)"
  let ?rl = "rl\<lparr>rl_requests := dict_set ip ?kept (rl_requests rl)\<rparr>"
  have refl: "f_le now now" using now by (cases now) auto
  have kept: "?kept = accepted_in_window ?w now ip past" using t now refl by (simp add: tracks_def)
  have old: "list_all (\<lambda>t. finite_time t \<and> f_le t now) (client_requests rl i)" for i using t by (simp add: tracks_def)
  have t1: "tracks ?rl past now"
    by (rule tracks_prune[OF t now]) (auto simp: client_requests_set)
  show ?thesis
  proof (cases full)
    case True
    then have "?n \<le> int (length ?kept)" by (simp add: full_def kept)
    moreover from this have "?kept \<noteq> []" using limit by auto
    then obtain n where "retry_after ?w now ?kept = Inr n" "1 \<le> n" "n \<le> ?w + 1"
      using retry_after_range[OF w now, of ?kept] old[of ip] by (auto simp: list_all_iff)
    ultimately show ?thesis using run t1 True limit by (auto simp: is_rate_limited_def Let_def)
  next
    case False
    then have len: "int (length ?kept) < ?n" by (simp add: full_def kept)
    then have rl': "rl' = rl\<lparr>rl_requests := dict_set ip (?kept @ [now]) (dict_set ip ?kept (rl_requests rl))\<rparr>"
      and info: "\<exists>info. answer = Inr (False, info) \<and> ri_limit info = ?n \<and> ri_remaining info = ?n - int (length ?kept) - 1 \<and> ri_retry_after info = 0"
      using run by (auto simp: is_rate_limited_def Let_def)
    have reqs: "client_requests rl' i = client_requests ?rl i @ (if i = ip then [now] else [])" for i
      by (simp add: rl' client_requests_def dict.lookup_put)
    have "rl_window_seconds rl' = ?w" by (simp add: rl')
    then have "tracks rl' (past @ [(ip, now)]) now"
      using t1 refl now by (auto simp: tracks_def reqs accepted_in_window_def list_all_iff)
    then show ?thesis using info False len by auto
  qed
qed

lemma check_frame:
  "is_rate_limited now ip rl = (answer, rl') \<Longrightarrow> rl_max_requests rl' = rl_max_requests rl \<and> rl_window_seconds rl' = rl_window_seconds rl
     \<and> (dict_wf (rl_requests rl) \<longrightarrow> dict_wf (rl_requests rl'))"
  by (auto simp: is_rate_limited_def Let_def dict.wf_put split: if_splits sum.splits)

text \<open>The answers to a sequence of calls, against the reference.\<close>

definition answer_ok :: "int \<Rightarrow> int \<Rightarrow> py_exn + bool \<times> rate_limit_info \<Rightarrow> bool \<Rightarrow> bool" where
  "answer_ok limit window answer full \<longleftrightarrow>
     (\<exists>info. answer = Inr (full, info) \<and> ri_limit info = limit \<and> 0 \<le> ri_remaining info \<and> ri_remaining info < ri_limit info
       \<and> (if full then 1 \<le> ri_retry_after info \<and> ri_retry_after info \<le> window + 1 else ri_retry_after info = 0))"

lemma limiter_run_tracks:
  assumes "1 \<le> limit" "\<bar>window\<bar> < 2 ^ 53"
  shows "steady_clock (now # map call_time cs) \<Longrightarrow> tracks rl past now \<Longrightarrow> dict_wf (rl_requests rl) \<Longrightarrow>
     rl_max_requests rl = limit \<Longrightarrow> rl_window_seconds rl = window \<Longrightarrow>
     list_all2 (answer_ok limit window) (limiter_run cs rl) (window_run limit window cs past)"
proof (induction cs arbitrary: rl past now)
  case (Cons c cs)
  let ?now = "call_time c"
  have clock: "steady_clock (?now # map call_time cs)" "finite_time ?now" "f_le now ?now"
    using Cons.prems(1) by (auto simp: steady_clock_def)
  have t: "tracks rl past ?now" using tracks_later[OF Cons.prems(2) clock(3)] .
  show ?case
  proof (cases c)
    case (Check ip n)
    obtain answer rl' where run: "is_rate_limited ?now ip rl = (answer, rl')" by fastforce
    have ok: "answer_ok limit window answer (limit \<le> int (length (accepted_in_window window ?now ip past)))"
      and t': "tracks rl' (if limit \<le> int (length (accepted_in_window window ?now ip past)) then past else past @ [(ip, ?now)]) ?now"
      using check_tracks[OF t clock(2) _ _ run] Cons.prems(4,5) assms by (auto simp: answer_ok_def)
    then show ?thesis using Cons.IH[OF clock(1) t'] check_frame[OF run] Cons.prems(3-5) Check run by auto
  next
    case (Cleanup n)
    then show ?thesis
      using Cons.IH[OF clock(1) tracks_cleanup[OF Cons.prems(3) t clock(2)] dict_wf_cleanup[OF Cons.prems(3)]] Cons.prems(4,5) by simp
  qed
qed simp

section \<open>Properties\<close>

text \<open>C30. A limiter with a positive limit, called at times of a clock that does not go back and cleaned at any moments, answers every request and decides exactly
  like the reference: it refuses if and only if as many requests of the client as the limit were accepted inside the window. A
  refusal names a waiting time between one second and the window plus one, an acceptance the number of requests left.\<close>

theorem limiter_counts_window:
  assumes "1 \<le> limit" "\<bar>window\<bar> < 2 ^ 53" "steady_clock (map call_time calls)"
  shows "list_all2 (answer_ok limit window) (limiter_run calls (RateLimiter limit window)) (window_run limit window calls [])"
proof (cases calls)
  case (Cons c cs)
  have "f_le (call_time c) (call_time c)" "finite_time (call_time c)" using assms(3) Cons by (cases "call_time c"; simp add: steady_clock_def)+
  then have "steady_clock (call_time c # map call_time calls)" using assms(3) Cons by (auto simp: steady_clock_def)
  then show ?thesis
    by (rule limiter_run_tracks[OF assms(1,2) _ tracks_start]) (simp_all add: RateLimiter_def dict_wf_def)
qed simp

theorem limiter_counts_window_witness:
  "list_all2 (answer_ok 1 60)
     (limiter_run [Check ''10.0.0.1'' (Fin 0), Cleanup (Fin 1), Check ''10.0.0.1'' (Fin 59), Check ''10.0.0.1'' (Fin 60)] (RateLimiter 1 60))
     (window_run 1 60 [Check ''10.0.0.1'' (Fin 0), Cleanup (Fin 1), Check ''10.0.0.1'' (Fin 59), Check ''10.0.0.1'' (Fin 60)] [])"
  by (rule limiter_counts_window) (simp_all add: steady_clock_def)

text \<open>A limit of zero or less does not refuse the first request: it raises.\<close>

theorem limiter_without_limit_raises:
  "limit \<le> 0 \<Longrightarrow> fst (is_rate_limited now ip (RateLimiter limit window)) = Inl (ValueError ''min() arg is an empty sequence'')"
  by (simp add: is_rate_limited_def RateLimiter_def client_requests_def retry_after_def)

end
