(* ===== verification/Evo_Chain.thy ===== *)
theory Evo_Chain
  imports Py_Prelude
begin

text \<open>
  The contract of a hash-chained log, shared by the evolution history and by the audit trail of promotions: every event names the hash
  before it and stores its own, which an auditor recomputes from its content.
\<close>

locale hash_chain =
  fixes previous :: "'e \<Rightarrow> string" and stored :: "'e \<Rightarrow> string" and recomputed :: "'e \<Rightarrow> string" and content :: "'e \<Rightarrow> 'c"
  assumes not_genesis: "recomputed e \<noteq> ''genesis''"
    and same_event: "stored e = stored f \<Longrightarrow> content e = content f \<Longrightarrow> e = f"
begin

fun chain_from :: "string \<Rightarrow> 'e list \<Rightarrow> bool" where
  "chain_from p [] = True"
| "chain_from p (e # es) = (previous e = p \<and> stored e = recomputed e \<and> chain_from (stored e) es)"

definition end_of :: "'e list \<Rightarrow> string" where
  "end_of es = (if es = [] then ''genesis'' else stored (last es))"

definition distinguishable :: "'e list \<Rightarrow> 'e list \<Rightarrow> bool" where
  "distinguishable es fs \<longleftrightarrow> (\<forall>e \<in> set es. \<forall>f \<in> set fs. recomputed e = recomputed f \<longrightarrow> content e = content f)"

lemma chain_from_append: "chain_from p (es @ fs) \<longleftrightarrow> chain_from p es \<and> chain_from (if es = [] then p else stored (last es)) fs"
  by (induction es arbitrary: p) auto

lemma chain_from_snoc:
  "chain_from ''genesis'' (es @ [e]) \<longleftrightarrow> chain_from ''genesis'' es \<and> previous e = end_of es \<and> stored e = recomputed e"
  by (auto simp: chain_from_append end_of_def)

lemma chain_prefix: "chain_from p (es @ fs) \<Longrightarrow> chain_from p es"
  by (simp add: chain_from_append)

lemma end_of_snoc [simp]: "end_of (es @ [e]) = stored e" "end_of [] = ''genesis''"
  by (simp_all add: end_of_def)

lemma proper_end: "chain_from ''genesis'' (es @ [e]) \<Longrightarrow> stored e \<noteq> ''genesis''"
  by (simp add: chain_from_snoc not_genesis)

text \<open>A chain is determined by its end.\<close>

lemma same_chain:
  "chain_from ''genesis'' es \<Longrightarrow> chain_from ''genesis'' fs \<Longrightarrow> end_of es = end_of fs \<Longrightarrow> distinguishable es fs \<Longrightarrow> es = fs"
proof (induction es arbitrary: fs rule: rev_induct)
  case Nil
  then show ?case by (cases fs rule: rev_cases) (use proper_end in force)+
next
  case (snoc e es)
  show ?case
  proof (cases fs rule: rev_cases)
    case Nil
    then show ?thesis using snoc.prems proper_end by force
  next
    case (snoc gs g)
    have stored: "stored e = stored g" "recomputed e = recomputed g" using snoc.prems snoc by (auto simp: chain_from_snoc)
    then have "content e = content g" using snoc.prems(4) snoc by (simp add: distinguishable_def)
    then have "e = g" using stored same_event by blast
    moreover have "es = gs" using snoc.IH[of gs] snoc.prems snoc \<open>e = g\<close> by (auto simp: chain_from_snoc distinguishable_def)
    ultimately show ?thesis using snoc by simp
  qed
qed

end

end
