(* ===== verification/Evo_Models.thy ===== *)
theory Evo_Models
  imports Pa_Selection Py_Json Evo_Chain
begin

text \<open>
  Data of the self-evolution engine (\<^verbatim>\<open>evolution/models.py\<close>, errors.py, utils.py, history.py): proposals and their records, and the
  hash-chained history of events. Clock readings are drawn in order from a supply of ISO texts. A promotion is shared between the
  engine's dictionary and the proposal; it lives in the dictionary, and the proposal holds its identifier.
\<close>

section \<open>Errors\<close>

text \<open>\<open>OtherError\<close> is any other exception that a collaborator raises, by its text.\<close>

datatype evo_error =
    ProposalNotFoundError string
  | InvalidStateError string
  | MutationError string
  | OtherError string

fun error_text :: "evo_error \<Rightarrow> string" where
  "error_text (ProposalNotFoundError s) = s"
| "error_text (InvalidStateError s) = s"
| "error_text (MutationError s) = s"
| "error_text (OtherError s) = s"

section \<open>Records\<close>

datatype EvolutionTargetType = APPLICATION_ARCHITECTURE | PLATFORM_CORE | COMPILER_PIPELINE | ISR_SCHEMA | OPTIMIZATION_STRATEGY

fun target_type_value :: "EvolutionTargetType \<Rightarrow> string" where
  "target_type_value APPLICATION_ARCHITECTURE = ''APPLICATION_ARCHITECTURE''"
| "target_type_value PLATFORM_CORE = ''PLATFORM_CORE''"
| "target_type_value COMPILER_PIPELINE = ''COMPILER_PIPELINE''"
| "target_type_value ISR_SCHEMA = ''ISR_SCHEMA''"
| "target_type_value OPTIMIZATION_STRATEGY = ''OPTIMIZATION_STRATEGY''"

datatype ProposalStatus =
    P_DRAFT | P_MUTATED | P_SIMULATED | P_VERIFIED | P_EVALUATED | P_PENDING_APPROVAL | P_APPROVED | P_REJECTED | P_PROMOTED
  | P_ROLLED_BACK | P_FAILED

fun proposal_status_value :: "ProposalStatus \<Rightarrow> string" where
  "proposal_status_value P_DRAFT = ''DRAFT''"
| "proposal_status_value P_MUTATED = ''MUTATED''"
| "proposal_status_value P_SIMULATED = ''SIMULATED''"
| "proposal_status_value P_VERIFIED = ''VERIFIED''"
| "proposal_status_value P_EVALUATED = ''EVALUATED''"
| "proposal_status_value P_PENDING_APPROVAL = ''PENDING_APPROVAL''"
| "proposal_status_value P_APPROVED = ''APPROVED''"
| "proposal_status_value P_REJECTED = ''REJECTED''"
| "proposal_status_value P_PROMOTED = ''PROMOTED''"
| "proposal_status_value P_ROLLED_BACK = ''ROLLED_BACK''"
| "proposal_status_value P_FAILED = ''FAILED''"

datatype MutationOperationType = SET_VALUE | ADD_ITEM | REMOVE_ITEM | MERGE_OBJECT

fun operation_value :: "MutationOperationType \<Rightarrow> string" where
  "operation_value SET_VALUE = ''SET_VALUE''"
| "operation_value ADD_ITEM = ''ADD_ITEM''"
| "operation_value REMOVE_ITEM = ''REMOVE_ITEM''"
| "operation_value MERGE_OBJECT = ''MERGE_OBJECT''"

record MutationOperationSpec =
  mo_operation :: MutationOperationType
  mo_path :: string
  mo_value :: pyval
  mo_rationale :: string

record MutationSpec =
  ms_id :: "string option"
  ms_operator :: string
  ms_chromosome_family :: string
  ms_gene_id :: string
  ms_operations :: "MutationOperationSpec list"
  ms_rationale :: string

record EvolutionProposalRequest =
  er_title :: string
  er_description :: string
  er_target_type :: EvolutionTargetType
  er_target_ref :: string
  er_base_isr :: payload
  er_mutation :: MutationSpec
  er_high_impact :: bool
  er_allow_breaking_changes :: bool
  er_environment :: string

record CandidateArchitecture =
  ca_id :: string
  ca_proposal_id :: string
  ca_mutation_spec_id :: string
  ca_base_isr_hash :: string
  ca_content_hash :: string
  ca_isr :: payload
  ca_created_at :: string

datatype IssueSeverity = ISSUE_ERROR | ISSUE_WARNING | ISSUE_INFO

fun issue_severity_value :: "IssueSeverity \<Rightarrow> string" where
  "issue_severity_value ISSUE_ERROR = ''ERROR''"
| "issue_severity_value ISSUE_WARNING = ''WARNING''"
| "issue_severity_value ISSUE_INFO = ''INFO''"

record SimulationIssue =
  si_severity :: IssueSeverity
  si_code :: string
  si_message :: string

datatype SimulationStatus = SIM_PASSED | SIM_FAILED

fun simulation_status_value :: "SimulationStatus \<Rightarrow> string" where
  "simulation_status_value SIM_PASSED = ''PASSED''"
| "simulation_status_value SIM_FAILED = ''FAILED''"

record SimulationResult =
  sr_id :: string
  sr_candidate_id :: string
  sr_status :: SimulationStatus
  sr_metrics :: payload
  sr_issues :: "SimulationIssue list"
  sr_logs :: "string list"
  sr_created_at :: string

record VerificationReport =
  vr_candidate_id :: string
  vr_valid :: bool
  vr_issues :: "SimulationIssue list"
  vr_created_at :: string

datatype EvolutionDecision = ED_ALLOW | ED_DENY | ED_REQUIRE_APPROVAL | ED_REQUIRE_EVIDENCE

fun evolution_decision_value :: "EvolutionDecision \<Rightarrow> string" where
  "evolution_decision_value ED_ALLOW = ''ALLOW''"
| "evolution_decision_value ED_DENY = ''DENY''"
| "evolution_decision_value ED_REQUIRE_APPROVAL = ''REQUIRE_APPROVAL''"
| "evolution_decision_value ED_REQUIRE_EVIDENCE = ''REQUIRE_EVIDENCE''"

record EvolutionGovernanceDecision =
  eg_decision :: EvolutionDecision
  eg_reason :: string
  eg_constraints :: "payload list"
  eg_required_approvals :: "payload list"

record EvolutionApproval =
  ea_approver_id :: string
  ea_decision :: string
  ea_comments :: string
  ea_governance_ref :: "string option"
  ea_created_at :: string

record RollbackPlan =
  rp_parent_isr_hash :: string
  rp_steps :: "string list"
  rp_automated :: bool

record PromotionRecord =
  pm_id :: string
  pm_proposal_id :: string
  pm_candidate_id :: string
  pm_environment :: string
  pm_promoted_content_hash :: string
  pm_rollback_plan :: RollbackPlan
  pm_compilation_ref :: "string option"
  pm_status :: string
  pm_rolled_back_at :: "string option"
  pm_rollback_reason :: "string option"
  pm_created_at :: string

record EvolutionProposal =
  pr_id :: string
  pr_status :: ProposalStatus
  pr_request :: EvolutionProposalRequest
  pr_candidate_ids :: "string list"
  pr_simulation_ids :: "string list"
  pr_verification :: "VerificationReport option"
  pr_fitness :: "FitnessEvaluation option"
  pr_governance_decision :: "EvolutionGovernanceDecision option"
  pr_approval :: "EvolutionApproval option"
  pr_promotion :: "string option"
  pr_selected_candidate_id :: "string option"
  pr_error :: "string option"
  pr_created_at :: string
  pr_updated_at :: string

section \<open>Hashes and identifiers\<close>

definition canonical_json :: "pyval \<Rightarrow> string" where
  "canonical_json v = json_dumps False v"

definition deterministic_id :: "string \<Rightarrow> payload \<Rightarrow> string" where
  "deterministic_id pre d = pre @ ''_'' @ sha256_hexdigest (canonical_json (PDict d))"

definition opt_text :: "string option \<Rightarrow> pyval" where
  "opt_text s = (case s of None \<Rightarrow> PNone | Some t \<Rightarrow> PStr t)"

text \<open>\<open>model_dump(mode="json")\<close> of a mutation, of a fitness evaluation and of a verification report.\<close>

definition mutation_operation_dump :: "MutationOperationSpec \<Rightarrow> pyval" where
  "mutation_operation_dump m = PDict [(''operation'', PStr (operation_value (mo_operation m))), (''path'', PStr (mo_path m)),
     (''value'', mo_value m), (''rationale'', PStr (mo_rationale m))]"

definition mutation_dump :: "MutationSpec \<Rightarrow> payload" where
  "mutation_dump m = [(''id'', opt_text (ms_id m)), (''operator'', PStr (ms_operator m)), (''chromosome_family'', PStr (ms_chromosome_family m)),
     (''gene_id'', PStr (ms_gene_id m)), (''operations'', PList (map mutation_operation_dump (ms_operations m))), (''rationale'', PStr (ms_rationale m))]"

definition fitness_dump :: "FitnessEvaluation \<Rightarrow> pyval" where
  "fitness_dump f = PDict [(''id'', PStr (fe_id f)), (''candidate_id'', PStr (fe_candidate_id f)),
     (''objectives'', PDict (map (\<lambda>(k, x). (k, PFloat x)) (fe_objectives f))), (''constraints'', PDict (map (\<lambda>(k, b). (k, PBool b)) (fe_constraints f))),
     (''passed'', PBool (fe_passed f)), (''notes'', PList (map PStr (fe_notes f))), (''created_at'', PStr (fe_created_at f))]"

definition verification_dump :: "VerificationReport \<Rightarrow> pyval" where
  "verification_dump v = PDict [(''candidate_id'', PStr (vr_candidate_id v)), (''valid'', PBool (vr_valid v)),
     (''issues'', PList (map (\<lambda>i. PDict [(''severity'', PStr (issue_severity_value (si_severity i))), (''code'', PStr (si_code i)),
        (''message'', PStr (si_message i))]) (vr_issues v))), (''created_at'', PStr (vr_created_at v))]"

text \<open>\<open>if not mutation.id: mutation.id = deterministic_id(...)\<close>.\<close>

definition with_mutation_id :: "MutationSpec \<Rightarrow> MutationSpec" where
  "with_mutation_id m = (if opt_truthy (ms_id m) then m else m\<lparr>ms_id := Some (deterministic_id ''mutation'' (mutation_dump m))\<rparr>)"

definition mutation_id :: "MutationSpec \<Rightarrow> string" where
  "mutation_id m = (case ms_id m of None \<Rightarrow> [] | Some s \<Rightarrow> s)"

section \<open>History\<close>

record EvolutionEvent =
  ee_id :: string
  ee_proposal_id :: string
  ee_event_type :: string
  ee_actor_id :: string
  ee_details :: payload
  ee_timestamp :: string
  ee_previous_event_hash :: string
  ee_event_hash :: string

record history =
  hs_events :: "EvolutionEvent list"
  hs_last_event_hash :: string

definition empty_history :: history where
  "empty_history = \<lparr>hs_events = [], hs_last_event_hash = ''genesis''\<rparr>"

definition event_id :: "string \<Rightarrow> string \<Rightarrow> string \<Rightarrow> string \<Rightarrow> string" where
  "event_id pid typ ts previous = deterministic_id ''evolution_event'' [(''proposal_id'', PStr pid), (''event_type'', PStr typ),
     (''timestamp'', PStr ts), (''previous_event_hash'', PStr previous)]"

definition event_hash :: "string \<Rightarrow> string \<Rightarrow> string \<Rightarrow> string \<Rightarrow> payload \<Rightarrow> string \<Rightarrow> string \<Rightarrow> string" where
  "event_hash eid pid typ actor details ts previous = sha256_hexdigest (canonical_json (PDict [(''event_id'', PStr eid), (''proposal_id'', PStr pid),
     (''event_type'', PStr typ), (''actor_id'', PStr actor), (''details'', PDict details), (''timestamp'', PStr ts),
     (''previous_event_hash'', PStr previous)]))"

definition history_record :: "string \<Rightarrow> string \<Rightarrow> string \<Rightarrow> payload \<Rightarrow> string \<Rightarrow> history \<Rightarrow> history" where
  "history_record pid typ actor details ts h =
     (let previous = hs_last_event_hash h;
          eid = event_id pid typ ts previous;
          hash = event_hash eid pid typ actor details ts previous
      in \<lparr>hs_events = hs_events h @ [\<lparr>ee_id = eid, ee_proposal_id = pid, ee_event_type = typ, ee_actor_id = actor, ee_details = details,
            ee_timestamp = ts, ee_previous_event_hash = previous, ee_event_hash = hash\<rparr>],
          hs_last_event_hash = hash\<rparr>)"

definition list_events :: "string option \<Rightarrow> history \<Rightarrow> EvolutionEvent list" where
  "list_events pid h = (if opt_truthy pid then filter (\<lambda>e. Some (ee_proposal_id e) = pid) (hs_events h) else hs_events h)"

text \<open>Recomputing the chain from a given predecessor: every event names the hash before it and carries its own.\<close>

fun chained :: "string \<Rightarrow> EvolutionEvent list \<Rightarrow> bool" where
  "chained previous [] = True"
| "chained previous (e # es) =
     (ee_previous_event_hash e = previous
      \<and> ee_event_hash e = event_hash (ee_id e) (ee_proposal_id e) (ee_event_type e) (ee_actor_id e) (ee_details e) (ee_timestamp e) previous
      \<and> chained (ee_event_hash e) es)"

definition event_hash_of :: "EvolutionEvent \<Rightarrow> string" where
  "event_hash_of e = event_hash (ee_id e) (ee_proposal_id e) (ee_event_type e) (ee_actor_id e) (ee_details e) (ee_timestamp e) (ee_previous_event_hash e)"

interpretation events: hash_chain ee_previous_event_hash ee_event_hash event_hash_of "\<lambda>e. e\<lparr>ee_event_hash := []\<rparr>"
proof
  fix e :: EvolutionEvent
  show "event_hash_of e \<noteq> ''genesis''"
  proof
    assume "event_hash_of e = ''genesis''"
    then have "length (event_hash_of e) = 7" by simp
    then show False by (simp add: event_hash_of_def event_hash_def)
  qed
next
  fix e f :: EvolutionEvent
  assume "ee_event_hash e = ee_event_hash f" "e\<lparr>ee_event_hash := []\<rparr> = f\<lparr>ee_event_hash := []\<rparr>"
  then show "e = f" by (cases e; cases f) simp
qed

lemma chained_iff: "chained p es \<longleftrightarrow> events.chain_from p es"
  by (induction es arbitrary: p) (auto simp: event_hash_of_def)

definition chain_end :: "EvolutionEvent list \<Rightarrow> string" where
  "chain_end es = (if es = [] then ''genesis'' else ee_event_hash (last es))"

definition history_ok :: "history \<Rightarrow> bool" where
  "history_ok h \<longleftrightarrow> chained ''genesis'' (hs_events h) \<and> hs_last_event_hash h = chain_end (hs_events h)"

lemma chained_append:
  "chained p (es @ [e]) \<longleftrightarrow> chained p es \<and> chained (if es = [] then p else ee_event_hash (last es)) [e]"
  by (induction es arbitrary: p) auto

lemma history_ok_empty [inv_intros]: "history_ok empty_history"
  by (simp add: history_ok_def empty_history_def chain_end_def)

lemma history_ok_record [inv_intros]: "history_ok h \<Longrightarrow> history_ok (history_record pid typ actor details ts h)"
  by (auto simp: history_ok_def history_record_def Let_def chained_append chain_end_def)

lemma history_record_events:
  "\<exists>e. hs_events (history_record pid typ actor details ts h) = hs_events h @ [e] \<and> ee_proposal_id e = pid \<and> ee_event_type e = typ"
  by (simp add: history_record_def Let_def)

end
