(* ===== verification/Evo_Engine.thy ===== *)
theory Evo_Engine
  imports Evo_Models
begin

text \<open>
  The self-evolution engine (\<^verbatim>\<open>evolution/engine.py\<close>): proposals are mutated, simulated, verified, evaluated, submitted to governance,
  approved, promoted and rolled back. The collaborators that the constructor takes (mutation engine, simulator, verifier, fitness
  evaluator, governance client) are arguments, each with its own answer or exception at every call.
\<close>

section \<open>State and collaborators\<close>

record self_evolution =
  se_proposals :: "(string, EvolutionProposal) dict"
  se_candidates :: "(string, CandidateArchitecture) dict"
  se_simulations :: "(string, SimulationResult) dict"
  se_promotions :: "(string, PromotionRecord) dict"
  se_history :: history
  se_readings :: "nat \<Rightarrow> string"
  se_reading_n :: nat

definition SelfEvolutionEngine :: "(nat \<Rightarrow> string) \<Rightarrow> self_evolution" where
  "SelfEvolutionEngine readings =
     \<lparr>se_proposals = [], se_candidates = [], se_simulations = [], se_promotions = [], se_history = empty_history,
      se_readings = readings, se_reading_n = 0\<rparr>"

record EvolutionPolicy =
  require_governance_for_high_impact :: bool
  require_approval_for_high_impact :: bool
  require_approval_for_platform_core :: bool
  auto_approve_when_governance_allow :: bool

definition default_evolution_policy :: EvolutionPolicy where
  "default_evolution_policy = \<lparr>require_governance_for_high_impact = True, require_approval_for_high_impact = True,
     require_approval_for_platform_core = True, auto_approve_when_governance_allow = True\<rparr>"

record collaborators =
  co_mutate :: "payload \<Rightarrow> MutationSpec \<Rightarrow> evo_error + payload"
  co_simulate :: "CandidateArchitecture \<Rightarrow> evo_error + SimulationResult"
  co_verify :: "CandidateArchitecture \<Rightarrow> EvolutionProposal \<Rightarrow> evo_error + VerificationReport"
  co_evaluate :: "CandidateArchitecture \<Rightarrow> SimulationResult \<Rightarrow> VerificationReport option \<Rightarrow> evo_error + FitnessEvaluation"
  co_governance :: "(EvolutionProposal \<Rightarrow> payload \<Rightarrow> evo_error + EvolutionGovernanceDecision) option"

type_synonym 'a evo = "self_evolution \<Rightarrow> (evo_error + 'a) \<times> self_evolution"

definition iso_now :: "self_evolution \<Rightarrow> string \<times> self_evolution" where
  "iso_now st = (se_readings st (se_reading_n st), st\<lparr>se_reading_n := Suc (se_reading_n st)\<rparr>)"

definition put_proposal :: "string \<Rightarrow> EvolutionProposal \<Rightarrow> self_evolution \<Rightarrow> self_evolution" where
  "put_proposal pid p st = st\<lparr>se_proposals := dict_set pid p (se_proposals st)\<rparr>"

definition record_event :: "string \<Rightarrow> string \<Rightarrow> string \<Rightarrow> payload \<Rightarrow> self_evolution \<Rightarrow> self_evolution" where
  "record_event pid typ actor details st =
     (case iso_now st of (ts, st') \<Rightarrow> st'\<lparr>se_history := history_record pid typ actor details ts (se_history st')\<rparr>)"

text \<open>The end of most operations: \<open>proposal.updated_at = now\<close>, then the event.\<close>

definition close_operation :: "string \<Rightarrow> EvolutionProposal \<Rightarrow> string \<Rightarrow> string \<Rightarrow> payload \<Rightarrow> self_evolution \<Rightarrow> self_evolution" where
  "close_operation pid p typ actor details st =
     (case iso_now st of (ts, st') \<Rightarrow> record_event pid typ actor details (put_proposal pid (p\<lparr>pr_updated_at := ts\<rparr>) st'))"

section \<open>Lookups\<close>

definition get_proposal :: "string \<Rightarrow> self_evolution \<Rightarrow> evo_error + EvolutionProposal" where
  "get_proposal pid st = (case dict_get (se_proposals st) pid of
     None \<Rightarrow> Inl (ProposalNotFoundError (''Evolution proposal not found: '' @ pid)) | Some p \<Rightarrow> Inr p)"

definition last_candidate :: "EvolutionProposal \<Rightarrow> self_evolution \<Rightarrow> evo_error + CandidateArchitecture" where
  "last_candidate p st =
     (if pr_candidate_ids p = [] then Inl (InvalidStateError ''Proposal has no candidates.'')
      else (case dict_get (se_candidates st) (last (pr_candidate_ids p)) of
              None \<Rightarrow> Inl (InvalidStateError (''Candidate not found: '' @ last (pr_candidate_ids p)))
            | Some c \<Rightarrow> Inr c))"

definition latest_candidate :: "EvolutionProposal \<Rightarrow> self_evolution \<Rightarrow> evo_error + CandidateArchitecture" where
  "latest_candidate p st =
     (case pr_selected_candidate_id p of
        None \<Rightarrow> last_candidate p st
      | Some cid \<Rightarrow>
          if cid = [] then last_candidate p st
          else (case dict_get (se_candidates st) cid of None \<Rightarrow> last_candidate p st | Some c \<Rightarrow> Inr c))"

definition latest_simulation :: "EvolutionProposal \<Rightarrow> self_evolution \<Rightarrow> evo_error + SimulationResult" where
  "latest_simulation p st =
     (if pr_simulation_ids p = [] then Inl (InvalidStateError ''Proposal has no simulations.'')
      else (case dict_get (se_simulations st) (last (pr_simulation_ids p)) of
              None \<Rightarrow> Inl (InvalidStateError (''Simulation not found: '' @ last (pr_simulation_ids p)))
            | Some s \<Rightarrow> Inr s))"

section \<open>Proposal and mutation\<close>

definition new_proposal :: "string \<Rightarrow> EvolutionProposalRequest \<Rightarrow> string \<Rightarrow> EvolutionProposal" where
  "new_proposal pid request ts =
     \<lparr>pr_id = pid, pr_status = P_DRAFT, pr_request = request, pr_candidate_ids = [], pr_simulation_ids = [], pr_verification = None,
      pr_fitness = None, pr_governance_decision = None, pr_approval = None, pr_promotion = None, pr_selected_candidate_id = None,
      pr_error = None, pr_created_at = ts, pr_updated_at = ts\<rparr>"

definition propose :: "EvolutionProposalRequest \<Rightarrow> string \<Rightarrow> EvolutionProposal evo" where
  "propose request actor st =
     (case iso_now st of (ts, st1) \<Rightarrow>
        (let m = with_mutation_id (er_mutation request);
             request = request\<lparr>er_mutation := m\<rparr>;
             pid = deterministic_id ''evolution_proposal'' [(''title'', PStr (er_title request)),
               (''target_type'', PStr (target_type_value (er_target_type request))), (''target_ref'', PStr (er_target_ref request)),
               (''base_isr_hash'', PStr (sha256_hexdigest (canonical_json (PDict (er_base_isr request))))),
               (''mutation_id'', PStr (mutation_id m)), (''created_at'', PStr ts)];
             p = new_proposal pid request ts
         in (Inr p, record_event pid ''proposal_created'' actor
               [(''title'', PStr (er_title request)), (''target_type'', PStr (target_type_value (er_target_type request)))] (put_proposal pid p st1))))"

definition new_candidate :: "string \<Rightarrow> MutationSpec \<Rightarrow> payload \<Rightarrow> payload \<Rightarrow> string \<Rightarrow> CandidateArchitecture" where
  "new_candidate pid m base isr ts =
     (let content_hash = sha256_hexdigest (canonical_json (PDict isr)) in
      \<lparr>ca_id = deterministic_id ''candidate'' [(''proposal_id'', PStr pid), (''mutation_id'', opt_text (ms_id m)), (''content_hash'', PStr content_hash)],
       ca_proposal_id = pid, ca_mutation_spec_id = mutation_id m, ca_base_isr_hash = sha256_hexdigest (canonical_json (PDict base)),
       ca_content_hash = content_hash, ca_isr = isr, ca_created_at = ts\<rparr>)"

definition store_candidate :: "CandidateArchitecture \<Rightarrow> self_evolution \<Rightarrow> self_evolution" where
  "store_candidate c st = st\<lparr>se_candidates := dict_set (ca_id c) c (se_candidates st)\<rparr>"

definition mutate_proposal :: "collaborators \<Rightarrow> string \<Rightarrow> string \<Rightarrow> CandidateArchitecture evo" where
  "mutate_proposal co pid actor st =
     (case get_proposal pid st of
        Inl exn \<Rightarrow> (Inl exn, st)
      | Inr p \<Rightarrow>
          if pr_status p \<notin> {P_DRAFT, P_FAILED} then (Inl (InvalidStateError ''Mutation is only allowed for DRAFT or FAILED proposals.''), st)
          else
            (let base = er_base_isr (pr_request p); m = er_mutation (pr_request p) in
             case co_mutate co base m of
               Inl (MutationError e) \<Rightarrow>
                 (Inl (MutationError e), close_operation pid (p\<lparr>pr_status := P_FAILED, pr_error := Some e\<rparr>) ''mutation_failed'' actor [(''error'', PStr e)] st)
             | Inl exn \<Rightarrow> (Inl exn, st)
             | Inr isr \<Rightarrow>
                 (case iso_now st of (ts, st1) \<Rightarrow>
                    (let c = new_candidate pid m base isr ts in
                     (Inr c, close_operation pid
                        (p\<lparr>pr_candidate_ids := pr_candidate_ids p @ [ca_id c], pr_status := P_MUTATED, pr_error := None\<rparr>)
                        ''candidate_mutated'' actor [(''candidate_id'', PStr (ca_id c))] (store_candidate c st1))))))"

section \<open>Simulation, verification, fitness\<close>

definition store_simulation :: "SimulationResult \<Rightarrow> self_evolution \<Rightarrow> self_evolution" where
  "store_simulation s st = st\<lparr>se_simulations := dict_set (sr_id s) s (se_simulations st)\<rparr>"

definition simulate_proposal :: "collaborators \<Rightarrow> string \<Rightarrow> string \<Rightarrow> SimulationResult evo" where
  "simulate_proposal co pid actor st =
     (case get_proposal pid st of
        Inl exn \<Rightarrow> (Inl exn, st)
      | Inr p \<Rightarrow>
          if pr_status p \<noteq> P_MUTATED then (Inl (InvalidStateError ''Simulation is only allowed after mutation.''), st)
          else
            (case latest_candidate p st of
               Inl exn \<Rightarrow> (Inl exn, st)
             | Inr c \<Rightarrow>
                 (case co_simulate co c of
                    Inl exn \<Rightarrow> (Inl exn, st)
                  | Inr s \<Rightarrow>
                      (let p1 = p\<lparr>pr_simulation_ids := pr_simulation_ids p @ [sr_id s]\<rparr>;
                           p2 = (if sr_status s = SIM_FAILED then p1\<lparr>pr_status := P_FAILED, pr_error := Some ''Architecture simulation failed.''\<rparr>
                                 else p1\<lparr>pr_status := P_SIMULATED, pr_error := None\<rparr>)
                       in (Inr s, close_operation pid p2 ''simulation_completed'' actor
                             [(''simulation_id'', PStr (sr_id s)), (''status'', PStr (simulation_status_value (sr_status s)))] (store_simulation s st))))))"

definition verify_proposal :: "collaborators \<Rightarrow> string \<Rightarrow> string \<Rightarrow> VerificationReport evo" where
  "verify_proposal co pid actor st =
     (case get_proposal pid st of
        Inl exn \<Rightarrow> (Inl exn, st)
      | Inr p \<Rightarrow>
          if pr_status p \<noteq> P_SIMULATED then (Inl (InvalidStateError ''Verification is only allowed after successful simulation.''), st)
          else
            (case latest_candidate p st of
               Inl exn \<Rightarrow> (Inl exn, st)
             | Inr c \<Rightarrow>
                 (case co_verify co c p of
                    Inl exn \<Rightarrow> (Inl exn, st)
                  | Inr v \<Rightarrow>
                      (let p1 = p\<lparr>pr_verification := Some v\<rparr>;
                           p2 = (if \<not> vr_valid v then p1\<lparr>pr_status := P_FAILED, pr_error := Some ''Verification failed.''\<rparr>
                                 else p1\<lparr>pr_status := P_VERIFIED, pr_error := None\<rparr>)
                       in (Inr v, close_operation pid p2 ''verification_completed'' actor [(''valid'', PBool (vr_valid v))] st)))))"

definition evaluate_proposal :: "collaborators \<Rightarrow> string \<Rightarrow> string \<Rightarrow> FitnessEvaluation evo" where
  "evaluate_proposal co pid actor st =
     (case get_proposal pid st of
        Inl exn \<Rightarrow> (Inl exn, st)
      | Inr p \<Rightarrow>
          if pr_status p \<noteq> P_VERIFIED then (Inl (InvalidStateError ''Fitness evaluation is only allowed after verification.''), st)
          else
            (case latest_candidate p st of
               Inl exn \<Rightarrow> (Inl exn, st)
             | Inr c \<Rightarrow>
                 (case latest_simulation p st of
                    Inl exn \<Rightarrow> (Inl exn, st)
                  | Inr s \<Rightarrow>
                      (case co_evaluate co c s (pr_verification p) of
                         Inl exn \<Rightarrow> (Inl exn, st)
                       | Inr f \<Rightarrow>
                           (let p1 = p\<lparr>pr_fitness := Some f\<rparr>;
                                p2 = (if \<not> fe_passed f then p1\<lparr>pr_status := P_FAILED, pr_error := Some ''Fitness constraints were not satisfied.''\<rparr>
                                      else p1\<lparr>pr_status := P_EVALUATED, pr_error := None\<rparr>)
                            in (Inr f, close_operation pid p2 ''fitness_evaluated'' actor
                                  [(''fitness_id'', PStr (fe_id f)), (''passed'', PBool (fe_passed f))] st))))))"

section \<open>Governance and approval\<close>

definition HIGH_IMPACT_TARGETS :: "EvolutionTargetType set" where
  "HIGH_IMPACT_TARGETS = {PLATFORM_CORE, COMPILER_PIPELINE, ISR_SCHEMA}"

definition high_impact :: "EvolutionProposal \<Rightarrow> bool" where
  "high_impact p \<longleftrightarrow> er_high_impact (pr_request p) \<or> er_target_type (pr_request p) \<in> HIGH_IMPACT_TARGETS"

definition proposal_context :: "EvolutionProposal \<Rightarrow> payload" where
  "proposal_context p =
     [(''proposal_id'', PStr (pr_id p)), (''title'', PStr (er_title (pr_request p))),
      (''target_type'', PStr (target_type_value (er_target_type (pr_request p)))), (''target_ref'', PStr (er_target_ref (pr_request p))),
      (''high_impact'', PBool (high_impact p)), (''fitness'', case pr_fitness p of None \<Rightarrow> PNone | Some f \<Rightarrow> fitness_dump f),
      (''verification'', case pr_verification p of None \<Rightarrow> PNone | Some v \<Rightarrow> verification_dump v)]"

definition governance_answer :: "collaborators \<Rightarrow> EvolutionPolicy \<Rightarrow> EvolutionProposal \<Rightarrow> evo_error + EvolutionGovernanceDecision" where
  "governance_answer co policy p =
     (case co_governance co of
        Some evaluate \<Rightarrow> evaluate p (proposal_context p)
      | None \<Rightarrow>
          if high_impact p \<and> require_governance_for_high_impact policy then
            Inr \<lparr>eg_decision = ED_DENY, eg_reason = ''Governance client is unavailable for high-impact evolution.'', eg_constraints = [], eg_required_approvals = []\<rparr>
          else Inr \<lparr>eg_decision = ED_ALLOW, eg_reason = ''Governance client is not configured.'', eg_constraints = [], eg_required_approvals = []\<rparr>)"

definition forced_approval :: "EvolutionPolicy \<Rightarrow> EvolutionProposal \<Rightarrow> bool" where
  "forced_approval policy p \<longleftrightarrow> high_impact p \<and>
     (require_approval_for_high_impact policy
      \<or> er_target_type (pr_request p) = PLATFORM_CORE \<and> require_approval_for_platform_core policy)"

definition governed_status :: "EvolutionPolicy \<Rightarrow> EvolutionProposal \<Rightarrow> EvolutionDecision \<Rightarrow> ProposalStatus" where
  "governed_status policy p d =
     (if d = ED_DENY then P_REJECTED
      else if d = ED_REQUIRE_APPROVAL then P_PENDING_APPROVAL
      else if forced_approval policy p then P_PENDING_APPROVAL
      else if auto_approve_when_governance_allow policy then P_APPROVED
      else P_PENDING_APPROVAL)"

definition submit_for_approval :: "collaborators \<Rightarrow> EvolutionPolicy \<Rightarrow> string \<Rightarrow> string \<Rightarrow> EvolutionProposal evo" where
  "submit_for_approval co policy pid actor st =
     (case get_proposal pid st of
        Inl exn \<Rightarrow> (Inl exn, st)
      | Inr p \<Rightarrow>
          if pr_status p \<noteq> P_EVALUATED then (Inl (InvalidStateError ''Approval submission is only allowed after fitness evaluation.''), st)
          else
            (case governance_answer co policy p of
               Inl exn \<Rightarrow> (Inl exn, st)
             | Inr d \<Rightarrow>
                 (let p1 = p\<lparr>pr_governance_decision := Some d, pr_status := governed_status policy p (eg_decision d)\<rparr>;
                      p2 = (if eg_decision d = ED_DENY then p1\<lparr>pr_error := Some (eg_reason d)\<rparr> else p1);
                      st' = close_operation pid p2 ''approval_submitted'' actor
                        [(''decision'', PStr (evolution_decision_value (eg_decision d))), (''status'', PStr (proposal_status_value (pr_status p2)))] st
                  in (get_proposal pid st', st'))))"

definition approve_proposal :: "string \<Rightarrow> string \<Rightarrow> string \<Rightarrow> string \<Rightarrow> EvolutionProposal evo" where
  "approve_proposal pid approver decision comments st =
     (case get_proposal pid st of
        Inl exn \<Rightarrow> (Inl exn, st)
      | Inr p \<Rightarrow>
          if pr_status p \<noteq> P_PENDING_APPROVAL then (Inl (InvalidStateError ''Approval is only allowed for PENDING_APPROVAL proposals.''), st)
          else if decision \<notin> {''APPROVED'', ''REJECTED''} then (Inl (InvalidStateError ''Approval decision must be APPROVED or REJECTED.''), st)
          else
            (case iso_now st of (ts, st1) \<Rightarrow>
               (let p1 = p\<lparr>pr_approval := Some \<lparr>ea_approver_id = approver, ea_decision = decision, ea_comments = comments,
                      ea_governance_ref = None, ea_created_at = ts\<rparr>\<rparr>;
                    p2 = (if decision = ''APPROVED'' then p1\<lparr>pr_status := P_APPROVED, pr_error := None\<rparr>
                          else p1\<lparr>pr_status := P_REJECTED, pr_error := Some (if comments \<noteq> [] then comments else ''Proposal rejected by approver.'')\<rparr>);
                    st' = close_operation pid p2 ''approval_decided'' approver [(''decision'', PStr decision)] st1
                in (get_proposal pid st', st'))))"

section \<open>Promotion and rollback\<close>

definition rollback_steps :: "string list" where
  "rollback_steps = [''Restore parent ISR hash as authoritative ISR.'', ''Mark promoted candidate as rolled back.'',
     ''Emit rollback audit event.'', ''Notify governed systems.'']"

definition new_promotion :: "string \<Rightarrow> CandidateArchitecture \<Rightarrow> string \<Rightarrow> string \<Rightarrow> PromotionRecord" where
  "new_promotion pid c environment ts =
     \<lparr>pm_id = deterministic_id ''promotion'' [(''proposal_id'', PStr pid), (''candidate_id'', PStr (ca_id c)), (''environment'', PStr environment)],
      pm_proposal_id = pid, pm_candidate_id = ca_id c, pm_environment = environment, pm_promoted_content_hash = ca_content_hash c,
      pm_rollback_plan = \<lparr>rp_parent_isr_hash = ca_base_isr_hash c, rp_steps = rollback_steps, rp_automated = False\<rparr>,
      pm_compilation_ref = None, pm_status = ''ACTIVE'', pm_rolled_back_at = None, pm_rollback_reason = None, pm_created_at = ts\<rparr>"

definition store_promotion :: "PromotionRecord \<Rightarrow> self_evolution \<Rightarrow> self_evolution" where
  "store_promotion m st = st\<lparr>se_promotions := dict_set (pm_id m) m (se_promotions st)\<rparr>"

definition promote :: "string \<Rightarrow> string \<Rightarrow> string \<Rightarrow> PromotionRecord evo" where
  "promote pid environment actor st =
     (case get_proposal pid st of
        Inl exn \<Rightarrow> (Inl exn, st)
      | Inr p \<Rightarrow>
          if pr_status p \<noteq> P_APPROVED then (Inl (InvalidStateError ''Promotion is only allowed for APPROVED proposals.''), st)
          else if \<not> (case pr_verification p of None \<Rightarrow> False | Some v \<Rightarrow> vr_valid v) then
            (Inl (InvalidStateError ''Cannot promote without valid verification.''), st)
          else if \<not> (case pr_fitness p of None \<Rightarrow> False | Some f \<Rightarrow> fe_passed f) then
            (Inl (InvalidStateError ''Cannot promote without passing fitness evaluation.''), st)
          else
            (case latest_candidate p st of
               Inl exn \<Rightarrow> (Inl exn, st)
             | Inr c \<Rightarrow>
                 (case iso_now st of (ts, st1) \<Rightarrow>
                    (let m = new_promotion pid c environment ts in
                     (Inr m, close_operation pid (p\<lparr>pr_promotion := Some (pm_id m), pr_status := P_PROMOTED\<rparr>) ''promotion_completed'' actor
                        [(''promotion_id'', PStr (pm_id m)), (''environment'', PStr environment)] (store_promotion m st1))))))"

definition rollback :: "string \<Rightarrow> string \<Rightarrow> string \<Rightarrow> PromotionRecord evo" where
  "rollback mid reason actor st =
     (case dict_get (se_promotions st) mid of
        None \<Rightarrow> (Inl (ProposalNotFoundError (''Promotion not found: '' @ mid)), st)
      | Some m \<Rightarrow>
          if pm_status m \<noteq> ''ACTIVE'' then (Inl (InvalidStateError ''Only active promotions can be rolled back.''), st)
          else
            (case iso_now st of (ts, st1) \<Rightarrow>
               (let m' = m\<lparr>pm_status := ''ROLLED_BACK'', pm_rolled_back_at := Some ts, pm_rollback_reason := Some reason\<rparr>;
                    st2 = st1\<lparr>se_promotions := dict_set mid m' (se_promotions st1)\<rparr>
                in (Inr m',
                    case dict_get (se_proposals st2) (pm_proposal_id m) of
                      None \<Rightarrow> st2
                    | Some p \<Rightarrow> close_operation (pm_proposal_id m) (p\<lparr>pr_status := P_ROLLED_BACK\<rparr>) ''rollback_completed'' actor
                        [(''promotion_id'', PStr mid), (''reason'', PStr reason)] st2))))"

record evolution_metrics =
  em_proposal_count :: nat
  em_candidate_count :: nat
  em_simulation_count :: nat
  em_promotion_count :: nat
  em_status_counts :: "(string, nat) dict"
  em_history_event_count :: nat

definition metrics :: "self_evolution \<Rightarrow> evolution_metrics" where
  "metrics st =
     \<lparr>em_proposal_count = length (se_proposals st), em_candidate_count = length (se_candidates st),
      em_simulation_count = length (se_simulations st), em_promotion_count = length (se_promotions st),
      em_status_counts = count_into [] (map (\<lambda>p. proposal_status_value (pr_status p)) (dict_values (se_proposals st))),
      em_history_event_count = length (hs_events (se_history st))\<rparr>"

end
