(* ===== verification/Evo_Multi.thy ===== *)
theory Evo_Multi
  imports Evo_Engine
begin

text \<open>
  The multi-candidate engine on top of the base engine (\<^verbatim>\<open>evolution/multi.py\<close>): several candidates of a proposal are generated and
  evaluated, and Pareto selection (\<open>Pa_Selection\<close>) chooses the one that the base engine goes on with.
\<close>

type_synonym evaluation_record = "VerificationReport CandidateEvaluationRecord"

record multi_evolution =
  mu_base :: self_evolution
  mu_evaluations :: "(string, (string, evaluation_record) dict) dict"
  mu_selections :: "(string, ParetoSelectionResult) dict"

definition MultiCandidateEvolutionEngine :: "self_evolution \<Rightarrow> multi_evolution" where
  "MultiCandidateEvolutionEngine base = \<lparr>mu_base = base, mu_evaluations = [], mu_selections = []\<rparr>"

definition TERMINAL_STATES :: "ProposalStatus set" where
  "TERMINAL_STATES = {P_APPROVED, P_PENDING_APPROVAL, P_REJECTED, P_PROMOTED, P_ROLLED_BACK}"

section \<open>Generation\<close>

record GenerateCandidatesRequest =
  gc_mutations :: "MutationSpec list"
  gc_include_base_mutation :: bool

definition update_proposal :: "string \<Rightarrow> (EvolutionProposal \<Rightarrow> EvolutionProposal) \<Rightarrow> self_evolution \<Rightarrow> self_evolution" where
  "update_proposal pid f st = (case dict_get (se_proposals st) pid of None \<Rightarrow> st | Some p \<Rightarrow> put_proposal pid (f p) st)"

definition note_candidate :: "string \<Rightarrow> EvolutionProposal \<Rightarrow> EvolutionProposal" where
  "note_candidate cid p = (if cid \<in> set (pr_candidate_ids p) then p else p\<lparr>pr_candidate_ids := pr_candidate_ids p @ [cid]\<rparr>)"

text \<open>The body of \<open>for spec in mutation_specs\<close>. The identifier does not depend on the clock, so the candidate of an existing identifier
  is found before the reading for a new one is taken.\<close>

fun generate_loop ::
  "collaborators \<Rightarrow> string \<Rightarrow> payload \<Rightarrow> MutationSpec list \<Rightarrow> CandidateArchitecture list \<Rightarrow> CandidateArchitecture list evo" where
  "generate_loop co pid base [] created st = (Inr created, st)"
| "generate_loop co pid base (spec # specs) created st =
     (let m = with_mutation_id spec in
      case co_mutate co base m of
        Inl exn \<Rightarrow> (Inl exn, st)
      | Inr isr \<Rightarrow>
          (let cid = ca_id (new_candidate pid m base isr []) in
           case dict_get (se_candidates st) cid of
             Some c \<Rightarrow> generate_loop co pid base specs (created @ [c]) (update_proposal pid (note_candidate cid) st)
           | None \<Rightarrow>
               (case iso_now st of (ts, st1) \<Rightarrow>
                  (let c = new_candidate pid m base isr ts in
                   generate_loop co pid base specs (created @ [c]) (update_proposal pid (note_candidate cid) (store_candidate c st1))))))"

definition generate_candidates ::
  "collaborators \<Rightarrow> string \<Rightarrow> GenerateCandidatesRequest \<Rightarrow> string \<Rightarrow> self_evolution \<Rightarrow> (evo_error + CandidateArchitecture list) \<times> self_evolution" where
  "generate_candidates co pid request actor st =
     (case get_proposal pid st of
        Inl exn \<Rightarrow> (Inl exn, st)
      | Inr p \<Rightarrow>
          if pr_status p \<in> TERMINAL_STATES then (Inl (InvalidStateError ''Cannot generate candidates for a proposal in a terminal state.''), st)
          else
            (let specs = (if gc_include_base_mutation request then [er_mutation (pr_request p)] else []) @ gc_mutations request in
             if specs = [] then (Inl (InvalidStateError ''At least one mutation specification is required.''), st)
             else
               (case generate_loop co pid (er_base_isr (pr_request p)) specs [] st of
                  (Inl exn, st1) \<Rightarrow> (Inl exn, st1)
                | (Inr created, st1) \<Rightarrow>
                    (case get_proposal pid st1 of
                       Inl exn \<Rightarrow> (Inl exn, st1)
                     | Inr p1 \<Rightarrow>
                         (Inr created, close_operation pid (p1\<lparr>pr_status := P_MUTATED, pr_selected_candidate_id := None, pr_error := None\<rparr>)
                            ''multi_candidates_generated'' actor
                            [(''candidate_count'', PInt (int (length created))), (''candidate_ids'', PList (map (PStr \<circ> ca_id) created))] st1)))))"

section \<open>Evaluation\<close>

text \<open>The \<open>try\<close> block for one candidate: what it has found when it ends or when an exception stops it, with the reasons, and the
  simulation stored on the way.\<close>

record trial =
  tr_simulation :: "SimulationResult option"
  tr_verification :: "VerificationReport option"
  tr_fitness :: "FitnessEvaluation option"
  tr_feasible :: bool
  tr_reasons :: "string list"

definition stopped :: "SimulationResult option \<Rightarrow> VerificationReport option \<Rightarrow> FitnessEvaluation option \<Rightarrow> string \<Rightarrow> trial" where
  "stopped s v f reason = \<lparr>tr_simulation = s, tr_verification = v, tr_fitness = f, tr_feasible = False, tr_reasons = [reason]\<rparr>"

definition note_simulation :: "string \<Rightarrow> EvolutionProposal \<Rightarrow> EvolutionProposal" where
  "note_simulation sid p = (if sid \<in> set (pr_simulation_ids p) then p else p\<lparr>pr_simulation_ids := pr_simulation_ids p @ [sid]\<rparr>)"

definition try_candidate :: "collaborators \<Rightarrow> string \<Rightarrow> CandidateArchitecture \<Rightarrow> self_evolution \<Rightarrow> trial \<times> self_evolution" where
  "try_candidate co pid c st =
     (case co_simulate co c of
        Inl exn \<Rightarrow> (stopped None None None (error_text exn), st)
      | Inr s \<Rightarrow>
          (let st1 = update_proposal pid (note_simulation (sr_id s)) (store_simulation s st) in
           if sr_status s \<noteq> SIM_PASSED then (stopped (Some s) None None ''simulation_failed'', st1)
           else
             (case get_proposal pid st1 of
                Inl exn \<Rightarrow> (stopped (Some s) None None (error_text exn), st1)
              | Inr p \<Rightarrow>
                  (case co_verify co c p of
                     Inl exn \<Rightarrow> (stopped (Some s) None None (error_text exn), st1)
                   | Inr v \<Rightarrow>
                       if \<not> vr_valid v then (stopped (Some s) (Some v) None ''verification_failed'', st1)
                       else
                         (case co_evaluate co c s (Some v) of
                            Inl exn \<Rightarrow> (stopped (Some s) (Some v) None (error_text exn), st1)
                          | Inr f \<Rightarrow>
                              if \<not> fe_passed f then (stopped (Some s) (Some v) (Some f) ''fitness_failed'', st1)
                              else (\<lparr>tr_simulation = Some s, tr_verification = Some v, tr_fitness = Some f, tr_feasible = True, tr_reasons = []\<rparr>, st1))))))"

definition evaluation_of :: "string \<Rightarrow> trial \<Rightarrow> string \<Rightarrow> evaluation_record" where
  "evaluation_of cid t ts =
     \<lparr>ce_candidate_id = cid, ce_simulation_id = map_option sr_id (tr_simulation t), ce_verification = tr_verification t,
      ce_fitness = tr_fitness t, ce_feasible = tr_feasible t, ce_reasons = tr_reasons t, ce_created_at = ts\<rparr>"

fun evaluate_loop ::
  "collaborators \<Rightarrow> string \<Rightarrow> bool \<Rightarrow> string list \<Rightarrow> (string, evaluation_record) dict \<Rightarrow> self_evolution
   \<Rightarrow> (string, evaluation_record) dict \<times> self_evolution" where
  "evaluate_loop co pid force [] es st = (es, st)"
| "evaluate_loop co pid force (cid # cids) es st =
     (if dict_in cid es \<and> \<not> force then evaluate_loop co pid force cids es st
      else
        (case dict_get (se_candidates st) cid of
           None \<Rightarrow> evaluate_loop co pid force cids es st
         | Some c \<Rightarrow>
             (case try_candidate co pid c st of (t, st1) \<Rightarrow>
                (case iso_now st1 of (ts, st2) \<Rightarrow>
                   evaluate_loop co pid force cids (dict_set cid (evaluation_of cid t ts) es) st2))))"

definition proposal_evaluations :: "string \<Rightarrow> multi_evolution \<Rightarrow> (string, evaluation_record) dict" where
  "proposal_evaluations pid mu = (case dict_get (mu_evaluations mu) pid of None \<Rightarrow> [] | Some es \<Rightarrow> es)"

definition evaluated_status :: "evaluation_record list \<Rightarrow> EvolutionProposal \<Rightarrow> EvolutionProposal" where
  "evaluated_status es p =
     (if list_ex ce_feasible es then p\<lparr>pr_status := P_EVALUATED, pr_error := None\<rparr>
      else p\<lparr>pr_status := P_FAILED, pr_error := Some ''No feasible candidates were produced.''\<rparr>)"

definition evaluate_candidates ::
  "collaborators \<Rightarrow> string \<Rightarrow> string \<Rightarrow> bool \<Rightarrow> multi_evolution \<Rightarrow> (evo_error + evaluation_record list) \<times> multi_evolution" where
  "evaluate_candidates co pid actor force mu =
     (case get_proposal pid (mu_base mu) of
        Inl exn \<Rightarrow> (Inl exn, mu)
      | Inr p \<Rightarrow>
          if pr_candidate_ids p = [] then (Inl (InvalidStateError ''Proposal has no candidates.''), mu)
          else
            (case evaluate_loop co pid force (pr_candidate_ids p) (proposal_evaluations pid mu) (mu_base mu) of (es, st1) \<Rightarrow>
               (let mu1 = mu\<lparr>mu_base := st1, mu_evaluations := dict_set pid es (mu_evaluations mu)\<rparr>; records = dict_values es in
                case get_proposal pid st1 of
                  Inl exn \<Rightarrow> (Inl exn, mu1)
                | Inr p1 \<Rightarrow>
                    (Inr records, mu1\<lparr>mu_base := close_operation pid (evaluated_status records p1) ''multi_candidates_evaluated'' actor
                       [(''candidate_count'', PInt (int (length records))),
                        (''feasible_count'', PInt (int (length (filter ce_feasible records))))] st1\<rparr>))))"

section \<open>Selection\<close>

definition exn_text :: "py_exn \<Rightarrow> string" where
  "exn_text e = (case e of ValueError s \<Rightarrow> s | KeyError s \<Rightarrow> s | TypeError s \<Rightarrow> s | AttributeError s \<Rightarrow> s | ValidationError s \<Rightarrow> s
     | PermissionError s \<Rightarrow> s | RuntimeError s \<Rightarrow> s | OverflowError s \<Rightarrow> s | NotImplementedError s \<Rightarrow> s | ZeroDivisionError s \<Rightarrow> s)"

definition move_to_end :: "string \<Rightarrow> string list \<Rightarrow> string list" where
  "move_to_end cid cids = (if cid \<in> set cids then remove1 cid cids @ [cid] else cids)"

definition adopt_selection :: "string option \<Rightarrow> (string, evaluation_record) dict \<Rightarrow> EvolutionProposal \<Rightarrow> EvolutionProposal" where
  "adopt_selection selected es p =
     (case selected of
        None \<Rightarrow> p
      | Some cid \<Rightarrow>
          if cid = [] then p
          else
            (let p1 = p\<lparr>pr_selected_candidate_id := Some cid, pr_candidate_ids := move_to_end cid (pr_candidate_ids p)\<rparr> in
             case dict_get es cid of
               None \<Rightarrow> p1
             | Some e \<Rightarrow> p1\<lparr>pr_verification := (case ce_verification e of None \<Rightarrow> pr_verification p1 | Some v \<Rightarrow> Some v),
                           pr_fitness := (case ce_fitness e of None \<Rightarrow> pr_fitness p1 | Some f \<Rightarrow> Some f)\<rparr>))"

definition select_candidates ::
  "string \<Rightarrow> ParetoSelectionPolicy \<Rightarrow> string \<Rightarrow> multi_evolution \<Rightarrow> (evo_error + ParetoSelectionResult) \<times> multi_evolution" where
  "select_candidates pid policy actor mu =
     (case get_proposal pid (mu_base mu) of
        Inl exn \<Rightarrow> (Inl exn, mu)
      | Inr p \<Rightarrow>
          (let es = proposal_evaluations pid mu in
           if es = [] then (Inl (InvalidStateError ''Candidates must be evaluated before Pareto selection.''), mu)
           else
             (case iso_now (mu_base mu) of (ts, st1) \<Rightarrow>
                (case select_pareto pid (dict_values es) policy ts of
                   Inl exn \<Rightarrow> (Inl (OtherError (exn_text exn)), mu)
                 | Inr r \<Rightarrow>
                     (Inr r, mu\<lparr>mu_selections := dict_set pid r (mu_selections mu),
                        mu_base := close_operation pid (adopt_selection (ps_selected_candidate_id r) es p) ''pareto_selection_completed'' actor
                          [(''selected_candidate_id'', opt_text (ps_selected_candidate_id r)),
                           (''selected_candidate_ids'', PList (map PStr (ps_selected_candidate_ids r))),
                           (''objectives'', PList (map PStr (ps_objectives r)))] st1\<rparr>)))))"

definition get_evaluations :: "string \<Rightarrow> multi_evolution \<Rightarrow> evo_error + evaluation_record list" where
  "get_evaluations pid mu = (case get_proposal pid (mu_base mu) of Inl exn \<Rightarrow> Inl exn | Inr _ \<Rightarrow> Inr (dict_values (proposal_evaluations pid mu)))"

definition get_pareto_result :: "string \<Rightarrow> multi_evolution \<Rightarrow> evo_error + ParetoSelectionResult option" where
  "get_pareto_result pid mu = (case get_proposal pid (mu_base mu) of Inl exn \<Rightarrow> Inl exn | Inr _ \<Rightarrow> Inr (dict_get (mu_selections mu) pid))"

end
