(* ===== verification/Evo_Promotion.thy ===== *)
theory Evo_Promotion
  imports Evo_Multi
begin

text \<open>
  Promotion control (\<^verbatim>\<open>evolution/governance_safety.py\<close> and promotion.py): evidence about a candidate is judged by the safety interlocks,
  the request goes to governance, is approved, promoted and rolled back. The governance gateway is an argument of the calls that
  consult it; the history is the one of the base engine when there is one.
\<close>

section \<open>Evidence and interlocks\<close>

datatype SafetySeverity = SAFETY_ERROR | SAFETY_WARNING

record SafetyIssue =
  sf_severity :: SafetySeverity
  sf_code :: string
  sf_message :: string

record SafetyInterlockPolicy =
  sp_require_simulation_passed :: bool
  sp_require_verification_valid :: bool
  sp_require_fitness_passed :: bool
  sp_require_compiler_evidence :: bool
  sp_require_feedback_evidence :: bool
  sp_require_pareto_selection :: bool
  sp_require_rollback_plan :: bool
  sp_forbid_critical_incidents :: bool
  sp_forbid_critical_security_findings :: bool
  sp_allow_breaking_changes :: bool
  sp_max_complexity :: "pyfloat option"
  sp_fail_on_fitness_constraints :: bool

definition default_safety_policy :: SafetyInterlockPolicy where
  "default_safety_policy =
     \<lparr>sp_require_simulation_passed = True, sp_require_verification_valid = True, sp_require_fitness_passed = True,
      sp_require_compiler_evidence = False, sp_require_feedback_evidence = False, sp_require_pareto_selection = True,
      sp_require_rollback_plan = True, sp_forbid_critical_incidents = True, sp_forbid_critical_security_findings = True,
      sp_allow_breaking_changes = False, sp_max_complexity = Some (Fin 100), sp_fail_on_fitness_constraints = True\<rparr>"

record EvolutionEvidence =
  ev_proposal_id :: string
  ev_candidate_id :: string
  ev_isr_content_hash :: string
  ev_simulation_status :: "string option"
  ev_verification_valid :: "bool option"
  ev_fitness_passed :: "bool option"
  ev_objectives :: objective_values
  ev_constraints :: "(string, bool) dict"
  ev_compiler_passed :: "bool option"
  ev_feedback_passed :: "bool option"
  ev_critical_incident :: bool
  ev_critical_security_finding :: bool
  ev_pareto_selected :: bool
  ev_complexity :: "pyfloat option"
  ev_public_api_removed :: bool
  ev_breaking_changes_allowed :: bool
  ev_rollback_plan :: "payload option"

record SafetyInterlockReport =
  sf_id :: string
  sf_proposal_id :: string
  sf_candidate_id :: string
  sf_passed :: bool
  sf_issues :: "SafetyIssue list"
  sf_error_count :: nat
  sf_warning_count :: nat
  sf_created_at :: string

definition safety_error :: "bool \<Rightarrow> string \<Rightarrow> string \<Rightarrow> SafetyIssue list" where
  "safety_error b code message = (if b then [\<lparr>sf_severity = SAFETY_ERROR, sf_code = code, sf_message = message\<rparr>] else [])"

definition present :: "payload option \<Rightarrow> bool" where
  "present d = (case d of None \<Rightarrow> False | Some kvs \<Rightarrow> kvs \<noteq> [])"

definition too_complex :: "SafetyInterlockPolicy \<Rightarrow> EvolutionEvidence \<Rightarrow> bool" where
  "too_complex policy ev = (case ev_complexity ev of None \<Rightarrow> False | Some x \<Rightarrow>
     (case sp_max_complexity policy of None \<Rightarrow> False | Some m \<Rightarrow> f_gt x m))"

definition failed_constraints :: "EvolutionEvidence \<Rightarrow> string list" where
  "failed_constraints ev = map fst (filter (\<lambda>(k, v). \<not> v) (ev_constraints ev))"

definition constraint_error :: "string \<Rightarrow> SafetyIssue" where
  "constraint_error name = \<lparr>sf_severity = SAFETY_ERROR, sf_code = ''CONSTRAINT_FAILED:'' @ name, sf_message = ''Fitness constraint failed: '' @ name\<rparr>"

definition safety_issues :: "SafetyInterlockPolicy \<Rightarrow> EvolutionEvidence \<Rightarrow> SafetyIssue list" where
  "safety_issues policy ev =
     safety_error (sp_require_simulation_passed policy \<and> ev_simulation_status ev \<noteq> Some ''PASSED'')
       ''SIMULATION_NOT_PASSED'' ''Candidate simulation did not pass.''
     @ safety_error (sp_require_verification_valid policy \<and> ev_verification_valid ev \<noteq> Some True)
       ''VERIFICATION_NOT_VALID'' ''Candidate verification is not valid.''
     @ safety_error (sp_require_fitness_passed policy \<and> ev_fitness_passed ev \<noteq> Some True)
       ''FITNESS_NOT_PASSED'' ''Candidate fitness evaluation did not pass.''
     @ safety_error (sp_require_compiler_evidence policy \<and> ev_compiler_passed ev \<noteq> Some True)
       ''COMPILER_EVIDENCE_MISSING'' ''Compiler-in-the-loop evidence did not pass.''
     @ safety_error (sp_require_feedback_evidence policy \<and> ev_feedback_passed ev \<noteq> Some True)
       ''FEEDBACK_EVIDENCE_MISSING'' ''Production feedback evidence did not pass.''
     @ safety_error (sp_require_pareto_selection policy \<and> \<not> ev_pareto_selected ev)
       ''NOT_PARETO_SELECTED'' ''Candidate was not selected through Pareto selection.''
     @ safety_error (sp_require_rollback_plan policy \<and> \<not> present (ev_rollback_plan ev))
       ''ROLLBACK_PLAN_MISSING'' ''Candidate does not have a rollback plan.''
     @ safety_error (sp_forbid_critical_incidents policy \<and> ev_critical_incident ev)
       ''CRITICAL_INCIDENT_PRESENT'' ''Critical production incident evidence is present.''
     @ safety_error (sp_forbid_critical_security_findings policy \<and> ev_critical_security_finding ev)
       ''CRITICAL_SECURITY_FINDING_PRESENT'' ''Critical security finding evidence is present.''
     @ safety_error (too_complex policy ev)
       ''COMPLEXITY_LIMIT_EXCEEDED'' ''Candidate complexity exceeds the configured limit.''
     @ safety_error (\<not> (ev_breaking_changes_allowed ev \<or> sp_allow_breaking_changes policy) \<and> ev_public_api_removed ev)
       ''PUBLIC_API_REMOVED'' ''Public API removal detected without breaking-change approval.''
     @ (if sp_fail_on_fitness_constraints policy then map constraint_error (failed_constraints ev) else [])"

definition issues_of :: "SafetySeverity \<Rightarrow> SafetyIssue list \<Rightarrow> SafetyIssue list" where
  "issues_of s issues = filter (\<lambda>i. sf_severity i = s) issues"

definition safety_evaluate :: "SafetyInterlockPolicy \<Rightarrow> EvolutionEvidence \<Rightarrow> string \<Rightarrow> SafetyInterlockReport" where
  "safety_evaluate policy ev ts =
     (let issues = safety_issues policy ev; errors = issues_of SAFETY_ERROR issues; warnings = issues_of SAFETY_WARNING issues in
      \<lparr>sf_id = deterministic_id ''safety_interlock_report'' [(''proposal_id'', PStr (ev_proposal_id ev)), (''candidate_id'', PStr (ev_candidate_id ev)),
         (''error_codes'', PList (map (PStr \<circ> sf_code) errors)), (''warning_codes'', PList (map (PStr \<circ> sf_code) warnings))],
       sf_proposal_id = ev_proposal_id ev, sf_candidate_id = ev_candidate_id ev, sf_passed = (length errors = 0), sf_issues = issues,
       sf_error_count = length errors, sf_warning_count = length warnings, sf_created_at = ts\<rparr>)"

section \<open>Requests and policy\<close>

datatype promotion_error = PromotionError string | EngineError evo_error | OtherPromotionError string

fun promotion_error_text :: "promotion_error \<Rightarrow> string" where
  "promotion_error_text (PromotionError s) = s"
| "promotion_error_text (EngineError e) = error_text e"
| "promotion_error_text (OtherPromotionError s) = s"

datatype PromotionAnswer = PA_ALLOW | PA_DENY | PA_REQUIRE_APPROVAL

fun promotion_answer_value :: "PromotionAnswer \<Rightarrow> string" where
  "promotion_answer_value PA_ALLOW = ''ALLOW''"
| "promotion_answer_value PA_DENY = ''DENY''"
| "promotion_answer_value PA_REQUIRE_APPROVAL = ''REQUIRE_APPROVAL''"

record PromotionDecision =
  pd_decision :: PromotionAnswer
  pd_reason :: string
  pd_constraints :: "payload list"
  pd_required_approvals :: "payload list"

definition new_promotion_decision :: "PromotionAnswer \<Rightarrow> string \<Rightarrow> PromotionDecision" where
  "new_promotion_decision a reason = \<lparr>pd_decision = a, pd_reason = reason, pd_constraints = [], pd_required_approvals = []\<rparr>"

record GovernancePromotionRequest =
  gp_promotion_request_id :: string
  gp_proposal_id :: string
  gp_candidate_id :: string
  gp_environment :: string
  gp_evidence :: EvolutionEvidence
  gp_safety_report :: "SafetyInterlockReport option"

type_synonym gateway = "GovernancePromotionRequest \<Rightarrow> promotion_error + PromotionDecision"

definition static_gateway :: "PromotionAnswer \<Rightarrow> string \<Rightarrow> gateway" where
  "static_gateway a reason request = Inr (new_promotion_decision a reason)"

datatype PromotionRequestStatus =
    R_DRAFT | R_SAFETY_CHECKS_PASSED | R_SAFETY_FAILED | R_GOVERNANCE_PENDING | R_GOVERNANCE_DENIED | R_APPROVED | R_PROMOTED
  | R_ROLLED_BACK | R_REJECTED

fun request_status_value :: "PromotionRequestStatus \<Rightarrow> string" where
  "request_status_value R_DRAFT = ''DRAFT''"
| "request_status_value R_SAFETY_CHECKS_PASSED = ''SAFETY_CHECKS_PASSED''"
| "request_status_value R_SAFETY_FAILED = ''SAFETY_FAILED''"
| "request_status_value R_GOVERNANCE_PENDING = ''GOVERNANCE_PENDING''"
| "request_status_value R_GOVERNANCE_DENIED = ''GOVERNANCE_DENIED''"
| "request_status_value R_APPROVED = ''APPROVED''"
| "request_status_value R_PROMOTED = ''PROMOTED''"
| "request_status_value R_ROLLED_BACK = ''ROLLED_BACK''"
| "request_status_value R_REJECTED = ''REJECTED''"

record PromotionControlPolicy =
  cp_require_safety_checks :: bool
  cp_auto_submit_governance :: bool
  cp_governance_required_environments :: "string list"
  cp_allow_auto_approval_when_governance_allow :: bool
  cp_fail_closed_if_governance_unavailable :: bool

definition default_promotion_policy :: PromotionControlPolicy where
  "default_promotion_policy = \<lparr>cp_require_safety_checks = True, cp_auto_submit_governance = True,
     cp_governance_required_environments = [''production'', ''staging''], cp_allow_auto_approval_when_governance_allow = True,
     cp_fail_closed_if_governance_unavailable = True\<rparr>"

record PromotionRequest =
  rq_id :: string
  rq_proposal_id :: string
  rq_candidate_id :: string
  rq_environment :: string
  rq_actor_id :: string
  rq_status :: PromotionRequestStatus
  rq_evidence :: EvolutionEvidence
  rq_safety_report :: "SafetyInterlockReport option"
  rq_governance_decision :: "PromotionDecision option"
  rq_approval :: "payload option"
  rq_rollback_plan :: "payload option"
  rq_error :: "string option"
  rq_created_at :: string
  rq_updated_at :: string
  rq_promoted_at :: "string option"
  rq_rolled_back_at :: "string option"

record promotion_control =
  pc_policy :: PromotionControlPolicy
  pc_safety_policy :: SafetyInterlockPolicy
  pc_requests :: "(string, PromotionRequest) dict"
  pc_history :: "history option"
  pc_readings :: "nat \<Rightarrow> string"
  pc_reading_n :: nat

definition PromotionControlEngine ::
  "PromotionControlPolicy \<Rightarrow> SafetyInterlockPolicy \<Rightarrow> history option \<Rightarrow> (nat \<Rightarrow> string) \<Rightarrow> promotion_control" where
  "PromotionControlEngine policy safety h readings =
     \<lparr>pc_policy = policy, pc_safety_policy = safety, pc_requests = [], pc_history = h, pc_readings = readings, pc_reading_n = 0\<rparr>"

type_synonym 'a promo = "promotion_control \<Rightarrow> (promotion_error + 'a) \<times> promotion_control"

section \<open>Helpers of the engine\<close>

definition pc_now :: "promotion_control \<Rightarrow> string \<times> promotion_control" where
  "pc_now st = (pc_readings st (pc_reading_n st), st\<lparr>pc_reading_n := Suc (pc_reading_n st)\<rparr>)"

definition put_request :: "PromotionRequest \<Rightarrow> promotion_control \<Rightarrow> promotion_control" where
  "put_request r st = st\<lparr>pc_requests := dict_set (rq_id r) r (pc_requests st)\<rparr>"

definition find_request :: "string \<Rightarrow> promotion_control \<Rightarrow> promotion_error + PromotionRequest" where
  "find_request rid st = (case dict_get (pc_requests st) rid of
     None \<Rightarrow> Inl (PromotionError (''Promotion request not found: '' @ rid)) | Some r \<Rightarrow> Inr r)"

text \<open>\<open>_touch\<close>: the new time, with the request written back.\<close>

definition touch :: "PromotionRequest \<Rightarrow> promotion_control \<Rightarrow> PromotionRequest \<times> promotion_control" where
  "touch r st = (case pc_now st of (ts, st1) \<Rightarrow> (r\<lparr>rq_updated_at := ts\<rparr>, put_request (r\<lparr>rq_updated_at := ts\<rparr>) st1))"

definition governance_required :: "string \<Rightarrow> PromotionControlPolicy \<Rightarrow> bool" where
  "governance_required environment policy \<longleftrightarrow> lower environment \<in> set (map lower (cp_governance_required_environments policy))"

definition note_request :: "PromotionRequest \<Rightarrow> string \<Rightarrow> string \<Rightarrow> promotion_control \<Rightarrow> promotion_control" where
  "note_request r typ actor st =
     (case pc_history st of
        None \<Rightarrow> st
      | Some h \<Rightarrow>
          (case pc_now st of (ts, st1) \<Rightarrow>
             st1\<lparr>pc_history := Some (history_record (rq_proposal_id r) typ actor
               [(''promotion_request_id'', PStr (rq_id r)), (''candidate_id'', PStr (rq_candidate_id r)),
                (''environment'', PStr (rq_environment r)), (''status'', PStr (request_status_value (rq_status r)))] ts h)\<rparr>))"

text \<open>\<open>_touch\<close>, \<open>_record_history\<close> and \<open>return request\<close>.\<close>

definition finish_request :: "PromotionRequest \<Rightarrow> string \<Rightarrow> string \<Rightarrow> PromotionRequest promo" where
  "finish_request r typ actor st = (case touch r st of (r1, st1) \<Rightarrow> (Inr r1, note_request r1 typ actor st1))"

section \<open>Life cycle\<close>

definition governance_verdict :: "gateway option \<Rightarrow> PromotionControlPolicy \<Rightarrow> PromotionRequest \<Rightarrow> promotion_error + PromotionDecision" where
  "governance_verdict gw policy r =
     (case gw of
        None \<Rightarrow>
          if cp_fail_closed_if_governance_unavailable policy \<and> governance_required (rq_environment r) policy then
            Inr (new_promotion_decision PA_DENY ''Governance gateway is unavailable.'')
          else Inr (new_promotion_decision PA_ALLOW ''Governance is not required.'')
      | Some evaluate \<Rightarrow>
          evaluate \<lparr>gp_promotion_request_id = rq_id r, gp_proposal_id = rq_proposal_id r, gp_candidate_id = rq_candidate_id r,
            gp_environment = rq_environment r, gp_evidence = rq_evidence r, gp_safety_report = rq_safety_report r\<rparr>)"

definition decide_request :: "PromotionControlPolicy \<Rightarrow> PromotionDecision \<Rightarrow> PromotionRequest \<Rightarrow> PromotionRequest" where
  "decide_request policy d r =
     (let r1 = r\<lparr>rq_governance_decision := Some d\<rparr> in
      case pd_decision d of
        PA_ALLOW \<Rightarrow> r1\<lparr>rq_status := if cp_allow_auto_approval_when_governance_allow policy then R_APPROVED else R_GOVERNANCE_PENDING\<rparr>
      | PA_REQUIRE_APPROVAL \<Rightarrow> r1\<lparr>rq_status := R_GOVERNANCE_PENDING\<rparr>
      | PA_DENY \<Rightarrow> r1\<lparr>rq_status := R_GOVERNANCE_DENIED, rq_error := Some (pd_reason d)\<rparr>)"

definition submit_governance :: "gateway option \<Rightarrow> string \<Rightarrow> string \<Rightarrow> PromotionRequest promo" where
  "submit_governance gw rid actor st =
     (case find_request rid st of
        Inl exn \<Rightarrow> (Inl exn, st)
      | Inr r \<Rightarrow>
          if rq_status r \<noteq> R_SAFETY_CHECKS_PASSED then (Inl (PromotionError ''Governance submission is only allowed after safety checks pass.''), st)
          else
            (case governance_verdict gw (pc_policy st) r of
               Inl exn \<Rightarrow> (Inl exn, st)
             | Inr d \<Rightarrow> finish_request (decide_request (pc_policy st) d r) ''promotion_governance_evaluated'' actor st))"

text \<open>The evidence given, or collected.\<close>

definition given_evidence ::
  "(string \<Rightarrow> string \<Rightarrow> promotion_error + EvolutionEvidence) option \<Rightarrow> string \<Rightarrow> string \<Rightarrow> EvolutionEvidence option \<Rightarrow> promotion_error + EvolutionEvidence" where
  "given_evidence collector pid cid evidence =
     (case evidence of
        Some ev \<Rightarrow> Inr ev
      | None \<Rightarrow>
          (case collector of
             None \<Rightarrow> Inl (PromotionError ''Evolution evidence is required for promotion.'')
           | Some collect \<Rightarrow> collect pid cid))"

definition new_request :: "string \<Rightarrow> string \<Rightarrow> string \<Rightarrow> string \<Rightarrow> EvolutionEvidence \<Rightarrow> string \<Rightarrow> PromotionRequest" where
  "new_request pid cid environment actor ev ts =
     \<lparr>rq_id = deterministic_id ''promotion_request'' [(''proposal_id'', PStr pid), (''candidate_id'', PStr cid), (''environment'', PStr environment),
        (''created_at'', PStr ts)],
      rq_proposal_id = pid, rq_candidate_id = cid, rq_environment = environment, rq_actor_id = actor, rq_status = R_DRAFT, rq_evidence = ev,
      rq_safety_report = None, rq_governance_decision = None, rq_approval = None, rq_rollback_plan = ev_rollback_plan ev, rq_error = None,
      rq_created_at = ts, rq_updated_at = ts, rq_promoted_at = None, rq_rolled_back_at = None\<rparr>"

text \<open>From \<open>request.status = SAFETY_CHECKS_PASSED\<close> on.\<close>

definition after_safety :: "gateway option \<Rightarrow> PromotionRequest \<Rightarrow> string \<Rightarrow> PromotionRequest promo" where
  "after_safety gw r actor st =
     (case touch (r\<lparr>rq_status := R_SAFETY_CHECKS_PASSED\<rparr>) st of (r1, st1) \<Rightarrow>
        if governance_required (rq_environment r) (pc_policy st) then
          if cp_auto_submit_governance (pc_policy st) then submit_governance gw (rq_id r) actor st1
          else finish_request (r1\<lparr>rq_status := R_GOVERNANCE_PENDING\<rparr>) ''promotion_governance_pending'' actor st1
        else finish_request (r1\<lparr>rq_status := R_APPROVED\<rparr>) ''promotion_approved_without_governance_requirement'' actor st1)"

definition create_promotion_request ::
  "(string \<Rightarrow> string \<Rightarrow> promotion_error + EvolutionEvidence) option \<Rightarrow> gateway option \<Rightarrow> string \<Rightarrow> string \<Rightarrow> string \<Rightarrow> string
   \<Rightarrow> EvolutionEvidence option \<Rightarrow> PromotionRequest promo" where
  "create_promotion_request collector gw pid cid environment actor evidence st =
     (case given_evidence collector pid cid evidence of
        Inl exn \<Rightarrow> (Inl exn, st)
      | Inr ev \<Rightarrow>
          (case pc_now st of (ts, st1) \<Rightarrow>
             (let r = new_request pid cid environment actor ev ts; st2 = put_request r st1 in
              if cp_require_safety_checks (pc_policy st) then
                (case pc_now st2 of (ts', st3) \<Rightarrow>
                   (let report = safety_evaluate (pc_safety_policy st) ev ts'; r1 = r\<lparr>rq_safety_report := Some report\<rparr> in
                    if \<not> sf_passed report then
                      finish_request (r1\<lparr>rq_status := R_SAFETY_FAILED, rq_error := Some ''Safety interlocks failed.''\<rparr>) ''promotion_safety_failed'' actor st3
                    else after_safety gw r1 actor st3))
              else after_safety gw r actor st2)))"

definition approve_request :: "string \<Rightarrow> string \<Rightarrow> string \<Rightarrow> PromotionRequest promo" where
  "approve_request rid approver comments st =
     (case find_request rid st of
        Inl exn \<Rightarrow> (Inl exn, st)
      | Inr r \<Rightarrow>
          if rq_status r \<noteq> R_GOVERNANCE_PENDING then (Inl (PromotionError ''Approval is only allowed for GOVERNANCE_PENDING requests.''), st)
          else
            (case pc_now st of (ts, st1) \<Rightarrow>
               finish_request (r\<lparr>rq_approval := Some [(''approver_id'', PStr approver), (''comments'', PStr comments), (''approved_at'', PStr ts)],
                  rq_status := R_APPROVED\<rparr>) ''promotion_approved'' approver st1))"

definition promote_request :: "string \<Rightarrow> string \<Rightarrow> PromotionRequest promo" where
  "promote_request rid actor st =
     (case find_request rid st of
        Inl exn \<Rightarrow> (Inl exn, st)
      | Inr r \<Rightarrow>
          if rq_status r \<noteq> R_APPROVED then (Inl (PromotionError ''Promotion is only allowed for APPROVED requests.''), st)
          else
            (case pc_now st of (ts, st1) \<Rightarrow>
               finish_request (r\<lparr>rq_status := R_PROMOTED, rq_promoted_at := Some ts\<rparr>) ''promotion_completed'' actor st1))"

definition rollback_request :: "string \<Rightarrow> string \<Rightarrow> string \<Rightarrow> PromotionRequest promo" where
  "rollback_request rid actor reason st =
     (case find_request rid st of
        Inl exn \<Rightarrow> (Inl exn, st)
      | Inr r \<Rightarrow>
          if rq_status r \<noteq> R_PROMOTED then (Inl (PromotionError ''Rollback is only allowed for PROMOTED requests.''), st)
          else
            (case pc_now st of (ts, st1) \<Rightarrow>
               (let plan = (case rq_rollback_plan r of None \<Rightarrow> [] | Some d \<Rightarrow> d) in
                finish_request (r\<lparr>rq_status := R_ROLLED_BACK, rq_rolled_back_at := Some ts,
                  rq_rollback_plan := Some (dict_set ''rollback_reason'' (PStr reason) plan)\<rparr>) ''promotion_rolled_back'' actor st1)))"

record PromotionPacket =
  pk_request :: PromotionRequest
  pk_evidence :: EvolutionEvidence
  pk_safety_report :: "SafetyInterlockReport option"
  pk_governance_decision :: "PromotionDecision option"
  pk_created_at :: string

definition get_packet :: "string \<Rightarrow> PromotionPacket promo" where
  "get_packet rid st =
     (case find_request rid st of
        Inl exn \<Rightarrow> (Inl exn, st)
      | Inr r \<Rightarrow>
          (case pc_now st of (ts, st1) \<Rightarrow>
             (Inr \<lparr>pk_request = r, pk_evidence = rq_evidence r, pk_safety_report = rq_safety_report r,
                pk_governance_decision = rq_governance_decision r, pk_created_at = ts\<rparr>, st1)))"

section \<open>Governance over HTTP\<close>

text \<open>
  The clients of the governance kernel (\<open>HttpGovernanceGateway\<close>, and \<open>HttpGovernanceKernelClient\<close> of \<^verbatim>\<open>evolution/governance.py\<close>). The
  request over httpx with the validation of its answer is an argument: the decision, or the text of the exception.
\<close>

definition strip_slashes :: "string \<Rightarrow> string" where
  "strip_slashes url = rev (dropWhile (\<lambda>c. c = CHR ''/'') (rev url))"

definition kernel_url :: "string \<Rightarrow> string" where
  "kernel_url base_url = strip_slashes base_url @ ''/v1/governance/evaluate''"

definition unavailable :: "string \<Rightarrow> string" where
  "unavailable exn = ''Governance Kernel unavailable or error: '' @ exn"

definition gateway_payload :: "GovernancePromotionRequest \<Rightarrow> payload" where
  "gateway_payload q =
     [(''subject_type'', PStr ''EVOLUTION_PROMOTION''), (''subject_id'', PStr (gp_promotion_request_id q)), (''action'', PStr ''PROMOTE_EVOLVED_ISR''),
      (''actor'', PDict [(''actor_type'', PStr ''SERVICE''), (''actor_id'', PStr ''promotion_control_engine''), (''roles'', PList []),
         (''delegated_authority'', PList [])]),
      (''context'', PDict [(''proposal_id'', PStr (gp_proposal_id q)), (''candidate_id'', PStr (gp_candidate_id q)),
         (''environment'', PStr (gp_environment q)),
         (''safety_passed'', case gp_safety_report q of None \<Rightarrow> PNone | Some s \<Rightarrow> PBool (sf_passed s))]),
      (''evidence_refs'', PList [PStr (''promotion_request:'' @ gp_promotion_request_id q), PStr (''proposal:'' @ gp_proposal_id q),
         PStr (''candidate:'' @ gp_candidate_id q)])]"

definition http_gateway :: "(string \<Rightarrow> payload \<Rightarrow> string + PromotionDecision) \<Rightarrow> string \<Rightarrow> gateway" where
  "http_gateway post base_url q =
     (case post (kernel_url base_url) (gateway_payload q) of
        Inl exn \<Rightarrow> Inr (new_promotion_decision PA_DENY (unavailable exn))
      | Inr d \<Rightarrow> Inr d)"

definition kernel_payload :: "EvolutionProposal \<Rightarrow> payload \<Rightarrow> payload" where
  "kernel_payload p ctxt =
     [(''subject_type'', PStr ''EVOLUTION_PROPOSAL''), (''subject_id'', PStr (pr_id p)), (''action'', PStr ''EVOLVE_ISR''),
      (''actor'', PDict [(''actor_type'', PStr ''AUTONOMOUS_AGENT''), (''actor_id'', PStr ''self_evolution_engine''),
         (''roles'', PList [PStr ''evolution_proposer'']), (''delegated_authority'', PList [])]),
      (''context'', PDict ctxt), (''evidence_refs'', PList [PStr (''evolution_proposal:'' @ pr_id p)])]"

definition http_governance_client ::
  "(string \<Rightarrow> payload \<Rightarrow> string + EvolutionGovernanceDecision) \<Rightarrow> string \<Rightarrow> EvolutionProposal \<Rightarrow> payload \<Rightarrow> evo_error + EvolutionGovernanceDecision" where
  "http_governance_client post base_url p ctxt =
     (case post (kernel_url base_url) (kernel_payload p ctxt) of
        Inl exn \<Rightarrow> Inr \<lparr>eg_decision = ED_DENY, eg_reason = unavailable exn, eg_constraints = [], eg_required_approvals = []\<rparr>
      | Inr d \<Rightarrow> Inr d)"

definition static_governance_client :: "EvolutionDecision \<Rightarrow> string \<Rightarrow> EvolutionProposal \<Rightarrow> payload \<Rightarrow> evo_error + EvolutionGovernanceDecision" where
  "static_governance_client d reason p ctxt = Inr \<lparr>eg_decision = d, eg_reason = reason, eg_constraints = [], eg_required_approvals = []\<rparr>"

section \<open>Collecting evidence\<close>

text \<open>\<open>SimpleEvolutionEvidenceCollector\<close>: the candidate engine, when there is one, answers \<open>get_evaluations\<close>.\<close>

definition promotion_rollback_plan :: "CandidateArchitecture \<Rightarrow> payload" where
  "promotion_rollback_plan c =
     [(''parent_isr_hash'', PStr (ca_base_isr_hash c)),
      (''steps'', PList [PStr ''Restore parent ISR as authoritative ISR.'', PStr ''Mark promoted candidate as rolled back.'',
         PStr ''Emit rollback audit event.'', PStr ''Notify governed systems.'']),
      (''automated'', PBool False)]"

definition evaluated_simulation :: "self_evolution \<Rightarrow> evaluation_record option \<Rightarrow> SimulationResult option" where
  "evaluated_simulation base e =
     (case e of None \<Rightarrow> None | Some r \<Rightarrow>
        (case ce_simulation_id r of None \<Rightarrow> None | Some sid \<Rightarrow> if sid = [] then None else dict_get (se_simulations base) sid))"

definition compiler_constraint :: "(string, bool) dict \<Rightarrow> bool option" where
  "compiler_constraint cs = (case dict_get cs ''compiler_all_required_backends_succeeded'' of
     None \<Rightarrow> dict_get cs ''compiler_compiler_configuration_valid'' | Some b \<Rightarrow> Some b)"

definition removes_public_api :: "VerificationReport option \<Rightarrow> bool" where
  "removes_public_api v = (case v of None \<Rightarrow> False | Some r \<Rightarrow> list_ex (\<lambda>i. si_code i = ''PUBLIC_API_REMOVED'') (vr_issues r))"

definition collected_evidence ::
  "EvolutionProposal \<Rightarrow> CandidateArchitecture \<Rightarrow> evaluation_record option \<Rightarrow> SimulationResult option \<Rightarrow> pyfloat option \<Rightarrow> string \<Rightarrow> string \<Rightarrow> EvolutionEvidence" where
  "collected_evidence p c e sim complexity pid cid =
     (let verification = (case e of None \<Rightarrow> None | Some r \<Rightarrow> ce_verification r);
          fitness = (case e of None \<Rightarrow> None | Some r \<Rightarrow> ce_fitness r);
          constraints = (case fitness of None \<Rightarrow> [] | Some f \<Rightarrow> fe_constraints f)
      in \<lparr>ev_proposal_id = pid, ev_candidate_id = cid, ev_isr_content_hash = ca_content_hash c,
          ev_simulation_status = map_option (\<lambda>s. simulation_status_value (sr_status s)) sim,
          ev_verification_valid = map_option vr_valid verification, ev_fitness_passed = map_option fe_passed fitness,
          ev_objectives = (case fitness of None \<Rightarrow> [] | Some f \<Rightarrow> fe_objectives f), ev_constraints = constraints,
          ev_compiler_passed = compiler_constraint constraints,
          ev_feedback_passed = dict_get constraints ''feedback_sufficient_feedback_evidence'',
          ev_critical_incident = (dict_get constraints ''feedback_no_critical_incidents'' = Some False),
          ev_critical_security_finding = (dict_get constraints ''feedback_no_critical_security_findings'' = Some False),
          ev_pareto_selected = (pr_selected_candidate_id p = Some cid), ev_complexity = complexity,
          ev_public_api_removed = removes_public_api verification, ev_breaking_changes_allowed = er_allow_breaking_changes (pr_request p),
          ev_rollback_plan = Some (promotion_rollback_plan c)\<rparr>)"

text \<open>The complexity is any value of the metrics; its validation as a float is pydantic's.\<close>

definition collect_promotion_evidence ::
  "validators \<Rightarrow> self_evolution \<Rightarrow> (string \<Rightarrow> evo_error + evaluation_record list) option \<Rightarrow> string \<Rightarrow> string \<Rightarrow> promotion_error + EvolutionEvidence" where
  "collect_promotion_evidence v base evaluations pid cid =
     (case get_proposal pid base of
        Inl exn \<Rightarrow> Inl (EngineError exn)
      | Inr p \<Rightarrow>
          (case dict_get (se_candidates base) cid of
             None \<Rightarrow> Inl (PromotionError (''Candidate not found: '' @ cid))
           | Some c \<Rightarrow>
               (case (case evaluations of None \<Rightarrow> Inr [] | Some get \<Rightarrow> get pid) of
                  Inl exn \<Rightarrow> Inl (EngineError exn)
                | Inr es \<Rightarrow>
                    (let e = List.find (\<lambda>r. ce_candidate_id r = cid) es;
                         sim = evaluated_simulation base e;
                         complexity = (case sim of None \<Rightarrow> PNone | Some s \<Rightarrow> get_or (sr_metrics s) ''complexity'' PNone)
                     in if complexity = PNone then Inr (collected_evidence p c e sim None pid cid)
                        else (case v_float v complexity of
                                None \<Rightarrow> Inl (OtherPromotionError ''complexity: not a valid number'')
                              | Some x \<Rightarrow> Inr (collected_evidence p c e sim (Some x) pid cid))))))"

end
