(* ===== verification/Evo_Interlock.thy ===== *)
theory Evo_Interlock
  imports Evo_Promotion
begin

text \<open>
  Safety of promotion control over all runs, and where it ends: what a promoted request has passed, and the configuration under which
  governance is never asked.
\<close>

section \<open>What the interlocks demand\<close>

definition interlocks_hold :: "SafetyInterlockPolicy \<Rightarrow> EvolutionEvidence \<Rightarrow> bool" where
  "interlocks_hold policy ev \<longleftrightarrow>
     (sp_require_simulation_passed policy \<longrightarrow> ev_simulation_status ev = Some ''PASSED'')
     \<and> (sp_require_verification_valid policy \<longrightarrow> ev_verification_valid ev = Some True)
     \<and> (sp_require_fitness_passed policy \<longrightarrow> ev_fitness_passed ev = Some True)
     \<and> (sp_require_compiler_evidence policy \<longrightarrow> ev_compiler_passed ev = Some True)
     \<and> (sp_require_feedback_evidence policy \<longrightarrow> ev_feedback_passed ev = Some True)
     \<and> (sp_require_pareto_selection policy \<longrightarrow> ev_pareto_selected ev)
     \<and> (sp_require_rollback_plan policy \<longrightarrow> present (ev_rollback_plan ev))
     \<and> (sp_forbid_critical_incidents policy \<longrightarrow> \<not> ev_critical_incident ev)
     \<and> (sp_forbid_critical_security_findings policy \<longrightarrow> \<not> ev_critical_security_finding ev)
     \<and> \<not> too_complex policy ev
     \<and> (ev_public_api_removed ev \<longrightarrow> ev_breaking_changes_allowed ev \<or> sp_allow_breaking_changes policy)
     \<and> (sp_fail_on_fitness_constraints policy \<longrightarrow> (\<forall>(k, v) \<in> set (ev_constraints ev). v))"

lemma safety_error_Nil [simp]: "safety_error b c m = [] \<longleftrightarrow> \<not> b"
  by (simp add: safety_error_def)

lemma safety_issues_are_errors: "i \<in> set (safety_issues policy ev) \<Longrightarrow> sf_severity i = SAFETY_ERROR"
  by (auto simp: safety_issues_def safety_error_def constraint_error_def split: if_splits)

lemma errors_of_issues: "issues_of SAFETY_ERROR (safety_issues policy ev) = safety_issues policy ev"
  by (auto simp: issues_of_def filter_id_conv safety_issues_are_errors)

lemma no_warnings: "issues_of SAFETY_WARNING (safety_issues policy ev) = []"
  by (auto simp: issues_of_def filter_empty_conv dest: safety_issues_are_errors)

lemma failed_constraints_Nil: "failed_constraints ev = [] \<longleftrightarrow> (\<forall>(k, v) \<in> set (ev_constraints ev). v)"
  by (auto simp: failed_constraints_def filter_empty_conv)

lemma no_safety_issues: "safety_issues policy ev = [] \<longleftrightarrow> interlocks_hold policy ev"
proof -
  have breaking: "\<not> (\<not> (a \<or> b) \<and> c) \<longleftrightarrow> (c \<longrightarrow> a \<or> b)" for a b c :: bool by blast
  have constraints: "(if b then map constraint_error (failed_constraints ev) else []) = [] \<longleftrightarrow> (b \<longrightarrow> (\<forall>(k, v) \<in> set (ev_constraints ev). v))" for b
    by (simp add: failed_constraints_Nil)
  show ?thesis unfolding safety_issues_def append_is_Nil_conv safety_error_Nil interlocks_hold_def constraints breaking
    by (simp only: de_Morgan_conj not_not imp_conv_disj)
qed

lemma safety_passes: "sf_passed (safety_evaluate policy ev ts) \<longleftrightarrow> interlocks_hold policy ev"
  by (simp add: safety_evaluate_def Let_def errors_of_issues no_safety_issues)

section \<open>Frames\<close>

lemma pc_now_sel [simp]:
  "pc_policy (snd (pc_now st)) = pc_policy st" "pc_safety_policy (snd (pc_now st)) = pc_safety_policy st"
  "pc_requests (snd (pc_now st)) = pc_requests st" "pc_history (snd (pc_now st)) = pc_history st"
  by (simp_all add: pc_now_def)

lemma put_request_sel [simp]:
  "pc_policy (put_request r st) = pc_policy st" "pc_safety_policy (put_request r st) = pc_safety_policy st"
  "pc_requests (put_request r st) = dict_set (rq_id r) r (pc_requests st)" "pc_history (put_request r st) = pc_history st"
  by (simp_all add: put_request_def)

lemma note_request_sel [simp]:
  "pc_policy (note_request r typ actor st) = pc_policy st" "pc_safety_policy (note_request r typ actor st) = pc_safety_policy st"
  "pc_requests (note_request r typ actor st) = pc_requests st"
  by (simp_all add: note_request_def split_beta split: option.splits)

lemma touch_eq: "touch r st = (fst (touch r st), put_request (fst (touch r st)) (snd (pc_now st)))" "fst (touch r st) = r\<lparr>rq_updated_at := fst (pc_now st)\<rparr>"
  by (simp_all add: touch_def split_beta)

section \<open>The invariant\<close>

text \<open>Governance stands behind a request: it was asked and did not deny, and either it allowed with automatic approval or a person approved.\<close>

definition asked :: "PromotionRequest \<Rightarrow> bool" where
  "asked r \<longleftrightarrow> (case rq_governance_decision r of None \<Rightarrow> False | Some d \<Rightarrow> pd_decision d \<noteq> PA_DENY)"

definition authorised :: "PromotionControlPolicy \<Rightarrow> PromotionRequest \<Rightarrow> bool" where
  "authorised policy r \<longleftrightarrow> rq_approval r \<noteq> None
     \<or> cp_allow_auto_approval_when_governance_allow policy
       \<and> (case rq_governance_decision r of None \<Rightarrow> False | Some d \<Rightarrow> pd_decision d = PA_ALLOW)"

definition governed :: "PromotionControlPolicy \<Rightarrow> PromotionRequest \<Rightarrow> bool" where
  "governed policy r \<longleftrightarrow> governance_required (rq_environment r) policy \<and> cp_auto_submit_governance policy"

definition request_ok :: "PromotionControlPolicy \<Rightarrow> SafetyInterlockPolicy \<Rightarrow> PromotionRequest \<Rightarrow> bool" where
  "request_ok policy safety r \<longleftrightarrow>
     (cp_require_safety_checks policy \<and> rq_status r \<notin> {R_DRAFT, R_SAFETY_FAILED} \<longrightarrow> interlocks_hold safety (rq_evidence r))
     \<and> (governed policy r \<and> rq_status r \<in> {R_GOVERNANCE_PENDING, R_APPROVED, R_PROMOTED, R_ROLLED_BACK} \<longrightarrow> asked r)
     \<and> (governance_required (rq_environment r) policy \<and> rq_status r \<in> {R_APPROVED, R_PROMOTED, R_ROLLED_BACK} \<longrightarrow> authorised policy r)"

definition requests_ok :: "promotion_control \<Rightarrow> bool" where
  "requests_ok st \<longleftrightarrow> (\<forall>rid r. dict_get (pc_requests st) rid = Some r \<longrightarrow> rq_id r = rid \<and> request_ok (pc_policy st) (pc_safety_policy st) r)"

lemma request_ok_touch [simp]: "request_ok policy safety (r\<lparr>rq_updated_at := ts\<rparr>) = request_ok policy safety r"
  by (simp add: request_ok_def governed_def asked_def authorised_def)

lemma requests_ok_find: "requests_ok st \<Longrightarrow> find_request rid st = Inr r \<Longrightarrow> rq_id r = rid \<and> request_ok (pc_policy st) (pc_safety_policy st) r"
  by (auto simp: requests_ok_def find_request_def split: option.splits)

lemma requests_ok_put:
  "requests_ok st \<Longrightarrow> request_ok (pc_policy st) (pc_safety_policy st) r \<Longrightarrow> requests_ok (put_request r st)"
  by (auto simp: requests_ok_def dict.lookup_put)

lemma requests_ok_now [simp]: "requests_ok (snd (pc_now st)) = requests_ok st"
  by (simp add: requests_ok_def)

lemma requests_ok_note [simp]: "requests_ok (note_request r typ actor st) = requests_ok st"
  by (simp add: requests_ok_def)

text \<open>The policies are those of the constructor.\<close>

definition same_policies :: "promotion_control \<Rightarrow> promotion_control \<Rightarrow> bool" where
  "same_policies st st' \<longleftrightarrow> pc_policy st' = pc_policy st \<and> pc_safety_policy st' = pc_safety_policy st"

definition keeps_ok :: "promotion_control \<Rightarrow> promotion_control \<Rightarrow> bool" where
  "keeps_ok st st' \<longleftrightarrow> same_policies st st' \<and> requests_ok st'"

lemma keeps_ok_trans: "keeps_ok st st' \<Longrightarrow> keeps_ok st' st'' \<Longrightarrow> keeps_ok st st''"
  by (simp add: keeps_ok_def same_policies_def)

lemma keeps_ok_refl: "requests_ok st \<Longrightarrow> keeps_ok st st"
  by (simp add: keeps_ok_def same_policies_def)

lemma finish_request_ok:
  "requests_ok st1 \<Longrightarrow> same_policies st st1 \<Longrightarrow> request_ok (pc_policy st) (pc_safety_policy st) r \<Longrightarrow> keeps_ok st (snd (finish_request r typ actor st1))"
  by (simp add: finish_request_def split_beta keeps_ok_def same_policies_def touch_def requests_ok_put)

lemma same_policies_now [simp]: "same_policies st (snd (pc_now st))"
  by (simp add: same_policies_def)

lemma decide_request_ok:
  "request_ok policy safety r \<Longrightarrow> rq_status r = R_SAFETY_CHECKS_PASSED \<Longrightarrow> request_ok policy safety (decide_request policy d r)"
  by (auto simp: request_ok_def decide_request_def Let_def asked_def authorised_def governed_def split: PromotionAnswer.splits)

lemma submit_governance_ok: "requests_ok st \<Longrightarrow> keeps_ok st (snd (submit_governance gw rid actor st))"
  by (auto simp: submit_governance_def keeps_ok_refl intro!: finish_request_ok decide_request_ok dest: requests_ok_find split: sum.splits)
     (simp add: same_policies_def)

lemma after_safety_ok:
  assumes "requests_ok st" "request_ok (pc_policy st) (pc_safety_policy st) (r\<lparr>rq_status := R_SAFETY_CHECKS_PASSED\<rparr>)"
    "rq_approval r = None" "rq_governance_decision r = None"
  shows "keeps_ok st (snd (after_safety gw r actor st))"
proof -
  let ?r1 = "r\<lparr>rq_status := R_SAFETY_CHECKS_PASSED, rq_updated_at := fst (pc_now st)\<rparr>"
  let ?st1 = "put_request ?r1 (snd (pc_now st))"
  have touched: "touch (r\<lparr>rq_status := R_SAFETY_CHECKS_PASSED\<rparr>) st = (?r1, ?st1)" by (simp add: touch_def split_beta)
  have r1: "request_ok (pc_policy st) (pc_safety_policy st) ?r1"
    using assms(2) by (simp add: request_ok_def governed_def asked_def authorised_def)
  have st1: "requests_ok ?st1" "same_policies st ?st1" using assms(1) r1 by (simp_all add: requests_ok_put same_policies_def)
  have fin: "keeps_ok st (snd (finish_request r' et actor ?st1))" if "request_ok (pc_policy st) (pc_safety_policy st) r'" for r' et
    by (rule finish_request_ok[OF st1 that])
  have sub: "keeps_ok st (snd (submit_governance gw (rq_id r) actor ?st1))"
    using keeps_ok_trans[OF _ submit_governance_ok[OF st1(1)]] st1 by (simp add: keeps_ok_def)
  show ?thesis using assms(2)
    by (auto simp: after_safety_def touched request_ok_def governed_def asked_def authorised_def intro!: fin sub)
qed

lemma create_ok:
  assumes "requests_ok st"
  shows "keeps_ok st (snd (create_promotion_request collector gw pid cid environment actor evidence st))"
proof (cases "given_evidence collector pid cid evidence")
  case (Inr ev)
  let ?r = "new_request pid cid environment actor ev (fst (pc_now st))"
  let ?st2 = "put_request ?r (snd (pc_now st))"
  let ?report = "safety_evaluate (pc_safety_policy st) ev (fst (pc_now ?st2))"
  have draft: "request_ok (pc_policy st) (pc_safety_policy st) ?r" by (simp add: request_ok_def new_request_def)
  have st2: "keeps_ok st ?st2" using assms draft by (simp add: keeps_ok_def same_policies_def requests_ok_put)
  have st3: "keeps_ok st (snd (pc_now ?st2))" using st2 by (simp add: keeps_ok_def same_policies_def)
  have failed: "keeps_ok st (snd (finish_request (?r\<lparr>rq_safety_report := Some ?report, rq_status := R_SAFETY_FAILED, rq_error := e\<rparr>) et actor (snd (pc_now ?st2))))" for e et
    by (rule finish_request_ok) (use st3 in \<open>simp_all add: keeps_ok_def same_policies_def request_ok_def\<close>)
  have go: "keeps_ok st (snd (after_safety gw r actor st'))"
    if "keeps_ok st st'" "r = ?r \<or> r = ?r\<lparr>rq_safety_report := Some ?report\<rparr>"
      "cp_require_safety_checks (pc_policy st) \<longrightarrow> interlocks_hold (pc_safety_policy st) ev" for st' r
    using that by (intro keeps_ok_trans[OF that(1) after_safety_ok])
      (auto simp: keeps_ok_def same_policies_def request_ok_def new_request_def)
  show ?thesis using Inr st2 st3 failed go
    by (auto simp: create_promotion_request_def Let_def split_beta safety_passes)
qed (simp add: create_promotion_request_def assms keeps_ok_refl)

lemma keeps_ok_now: "requests_ok st \<Longrightarrow> keeps_ok st (snd (pc_now st))"
  by (simp add: keeps_ok_def same_policies_def)

lemma move_ok:
  "requests_ok st \<Longrightarrow> find_request rid st = Inr r \<Longrightarrow>
   (request_ok (pc_policy st) (pc_safety_policy st) r \<Longrightarrow> request_ok (pc_policy st) (pc_safety_policy st) r') \<Longrightarrow>
   keeps_ok st (snd (finish_request r' et actor (snd (pc_now st))))"
  using requests_ok_find[of st rid r] by (intro finish_request_ok) auto

lemma approve_ok: "requests_ok st \<Longrightarrow> keeps_ok st (snd (approve_request rid approver comments st))"
  by (auto simp: approve_request_def split_beta keeps_ok_refl intro!: move_ok split: sum.splits)
     (auto simp: request_ok_def governed_def asked_def authorised_def)

lemma promote_ok: "requests_ok st \<Longrightarrow> keeps_ok st (snd (promote_request rid actor st))"
  by (auto simp: promote_request_def split_beta keeps_ok_refl intro!: move_ok split: sum.splits)
     (auto simp: request_ok_def governed_def asked_def authorised_def)

lemma rollback_ok: "requests_ok st \<Longrightarrow> keeps_ok st (snd (rollback_request rid actor reason st))"
  by (auto simp: rollback_request_def Let_def split_beta keeps_ok_refl intro!: move_ok split: sum.splits)
     (auto simp: request_ok_def governed_def asked_def authorised_def)

lemma packet_ok: "requests_ok st \<Longrightarrow> keeps_ok st (snd (get_packet rid st))"
  by (auto simp: get_packet_def split_beta keeps_ok_refl keeps_ok_now split: sum.splits)

section \<open>Runs\<close>

text \<open>Every call, with any collector and gateway: their answers may differ from call to call, or be exceptions.\<close>

inductive promotion_step :: "promotion_control \<Rightarrow> promotion_control \<Rightarrow> bool" where
  creates: "promotion_step st (snd (create_promotion_request collector gw pid cid environment actor evidence st))"
| submits_request: "promotion_step st (snd (submit_governance gw rid actor st))"
| approves_request: "promotion_step st (snd (approve_request rid approver comments st))"
| promotes_request: "promotion_step st (snd (promote_request rid actor st))"
| rolls_request_back: "promotion_step st (snd (rollback_request rid actor reason st))"
| packs: "promotion_step st (snd (get_packet rid st))"

lemma promotion_step_ok: "promotion_step st st' \<Longrightarrow> requests_ok st \<Longrightarrow> keeps_ok st st'"
  by (erule promotion_step.cases) (simp_all add: create_ok submit_governance_ok approve_ok promote_ok rollback_ok packet_ok)

lemma promotion_run_ok: "promotion_step\<^sup>*\<^sup>* st st' \<Longrightarrow> requests_ok st \<Longrightarrow> keeps_ok st st'"
proof (induction rule: rtranclp_induct)
  case (step y z)
  then have "keeps_ok st y" by simp
  moreover from this have "keeps_ok y z" using promotion_step_ok[OF step.hyps(2)] by (simp add: keeps_ok_def)
  ultimately show ?case by (rule keeps_ok_trans)
qed (rule keeps_ok_refl)

lemma engine_starts_ok: "requests_ok (PromotionControlEngine policy safety h readings)"
  by (simp add: requests_ok_def PromotionControlEngine_def dict_get_def)

text \<open>C21. On every run of promotion control, with any gateway answers and any evidence, a promoted request (rolled back since or not) met every
  interlock that its safety policy demands; in an environment that requires governance a person approved it or governance allowed it
  under automatic approval, and governance had been asked and had not denied it whenever submission is automatic.\<close>

theorem promoted_requests_are_safe:
  assumes "promotion_step\<^sup>*\<^sup>* (PromotionControlEngine policy safety h readings) st" "dict_get (pc_requests st) rid = Some r"
    "rq_status r \<in> {R_PROMOTED, R_ROLLED_BACK}"
  shows "(cp_require_safety_checks policy \<longrightarrow> interlocks_hold safety (rq_evidence r))
    \<and> (governance_required (rq_environment r) policy \<longrightarrow> authorised policy r \<and> (cp_auto_submit_governance policy \<longrightarrow> asked r))"
proof -
  have "requests_ok st" "pc_policy st = policy" "pc_safety_policy st = safety"
    using promotion_run_ok[OF assms(1) engine_starts_ok] by (simp_all add: keeps_ok_def same_policies_def PromotionControlEngine_def)
  then have "request_ok policy safety r" using assms(2) by (auto simp: requests_ok_def)
  then show ?thesis using assms(3) by (auto simp: request_ok_def governed_def)
qed

definition sample_evidence :: EvolutionEvidence where
  "sample_evidence = \<lparr>ev_proposal_id = ''p'', ev_candidate_id = ''c'', ev_isr_content_hash = ''h'', ev_simulation_status = Some ''PASSED'',
     ev_verification_valid = Some True, ev_fitness_passed = Some True, ev_objectives = [], ev_constraints = [], ev_compiler_passed = None,
     ev_feedback_passed = None, ev_critical_incident = False, ev_critical_security_finding = False, ev_pareto_selected = True,
     ev_complexity = Some (Fin 12), ev_public_api_removed = False, ev_breaking_changes_allowed = False,
     ev_rollback_plan = Some [(''automated'', PBool False)]\<rparr>"

definition sample_control :: promotion_control where
  "sample_control = PromotionControlEngine default_promotion_policy default_safety_policy None (\<lambda>_. ''t'')"

definition sample_request_id :: string where
  "sample_request_id = rq_id (new_request ''p'' ''c'' ''production'' ''ada'' sample_evidence ''t'')"

definition sample_created :: promotion_control where
  "sample_created = snd (create_promotion_request None (Some (static_gateway PA_ALLOW ''ok'')) ''p'' ''c'' ''production'' ''ada'' (Some sample_evidence) sample_control)"

definition sample_promoted :: promotion_control where
  "sample_promoted = snd (promote_request sample_request_id ''ada'' sample_created)"

lemma sample_evidence_passes: "interlocks_hold default_safety_policy sample_evidence"
  by (simp add: interlocks_hold_def default_safety_policy_def sample_evidence_def present_def too_complex_def)

lemmas promotion_run_simps = create_promotion_request_def given_evidence_def after_safety_def submit_governance_def governance_verdict_def
  decide_request_def finish_request_def find_request_def approve_request_def promote_request_def touch_def Let_def split_beta

lemma note_none [simp]: "pc_history st = None \<Longrightarrow> note_request r typ actor st = st"
  by (simp add: note_request_def)

lemma sample_promoted_has:
  "\<exists>r. dict_get (pc_requests sample_promoted) sample_request_id = Some r \<and> rq_status r = R_PROMOTED \<and> rq_environment r = ''production'' \<and> rq_evidence r = sample_evidence"
  by (simp add: sample_promoted_def sample_created_def sample_control_def sample_request_id_def promotion_run_simps safety_passes
      PromotionControlEngine_def pc_now_def put_request_def new_request_def dict_get_def dict_set_def default_promotion_policy_def
      governance_required_def lower_def lower_char_def static_gateway_def new_promotion_decision_def sample_evidence_passes)

lemma promoted_requests_are_safe_witness:
  "\<exists>r. dict_get (pc_requests sample_promoted) sample_request_id = Some r \<and> interlocks_hold default_safety_policy (rq_evidence r)
     \<and> authorised default_promotion_policy r \<and> asked r"
proof -
  obtain r where r: "dict_get (pc_requests sample_promoted) sample_request_id = Some r" "rq_status r = R_PROMOTED" "rq_environment r = ''production''"
    using sample_promoted_has by blast
  have "promotion_step sample_control sample_created" "promotion_step sample_created sample_promoted"
    unfolding sample_created_def sample_promoted_def by (rule creates) (rule promotes_request)
  then have run: "promotion_step\<^sup>*\<^sup>* (PromotionControlEngine default_promotion_policy default_safety_policy None (\<lambda>_. ''t'')) sample_promoted"
    unfolding sample_control_def by (rule converse_rtranclp_into_rtranclp[OF _ r_into_rtranclp])
  have "governance_required ''production'' default_promotion_policy" by (simp add: governance_required_def default_promotion_policy_def)
  with promoted_requests_are_safe[OF run r(1)] r show ?thesis by (auto simp: default_promotion_policy_def)
qed

section \<open>An unreachable governance kernel\<close>

text \<open>Both clients fail closed: an exception of any kind is a denial. So a request never stays at \<open>SAFETY_CHECKS_PASSED\<close> behind the HTTP
  gateway, and a failing kernel denies it.\<close>

lemma http_gateway_fails_closed: "post (kernel_url url) (gateway_payload q) = Inl exn \<Longrightarrow> \<exists>d. http_gateway post url q = Inr d \<and> pd_decision d = PA_DENY"
  by (simp add: http_gateway_def new_promotion_decision_def)

lemma http_gateway_never_raises: "\<exists>d. http_gateway post url q = Inr d"
  by (simp add: http_gateway_def split: sum.splits)

lemma unreachable_kernel_denies:
  assumes "find_request rid st = Inr r" "rq_status r = R_SAFETY_CHECKS_PASSED" "\<forall>payload. \<exists>exn. post (kernel_url url) payload = Inl exn"
  shows "\<exists>r'. fst (submit_governance (Some (http_gateway post url)) rid actor st) = Inr r' \<and> rq_status r' = R_GOVERNANCE_DENIED"
proof -
  obtain d where "governance_verdict (Some (http_gateway post url)) (pc_policy st) r = Inr d" "pd_decision d = PA_DENY"
  proof -
    let ?q = "\<lparr>gp_promotion_request_id = rq_id r, gp_proposal_id = rq_proposal_id r, gp_candidate_id = rq_candidate_id r,
      gp_environment = rq_environment r, gp_evidence = rq_evidence r, gp_safety_report = rq_safety_report r\<rparr>"
    obtain exn where "post (kernel_url url) (gateway_payload ?q) = Inl exn" using assms(3) by blast
    from http_gateway_fails_closed[of post url ?q, OF this] that show thesis by (auto simp: governance_verdict_def)
  qed
  then show ?thesis using assms(1,2) by (simp add: submit_governance_def decide_request_def finish_request_def touch_def split_beta)
qed

lemma kernel_client_fails_closed:
  "post (kernel_url url) (kernel_payload p ctxt) = Inl exn \<Longrightarrow> \<exists>d. http_governance_client post url p ctxt = Inr d \<and> eg_decision d = ED_DENY"
  by (simp add: http_governance_client_def)

section \<open>Where it ends\<close>

text \<open>Without automatic submission a request goes straight to \<open>GOVERNANCE_PENDING\<close>, from where \<open>submit_governance\<close> refuses it: governance
  is never asked, whatever it would answer, and a single approval leads to promotion.\<close>

lemma pending_cannot_be_submitted:
  "find_request rid st = Inr r \<Longrightarrow> rq_status r = R_GOVERNANCE_PENDING \<Longrightarrow>
   submit_governance gw rid actor st = (Inl (PromotionError ''Governance submission is only allowed after safety checks pass.''), st)"
  by (simp add: submit_governance_def)

lemma governance_skipped:
  assumes "\<not> cp_auto_submit_governance (pc_policy st)" "governance_required environment (pc_policy st)"
    "interlocks_hold (pc_safety_policy st) ev"
  shows "\<exists>r. fst (create_promotion_request collector gw pid cid environment actor (Some ev) st) = Inr r
    \<and> rq_status r = R_GOVERNANCE_PENDING \<and> rq_governance_decision r = None"
  using assms by (simp add: promotion_run_simps safety_passes new_request_def)

lemma approval_skips_governance:
  assumes "find_request rid st = Inr r" "rq_status r = R_GOVERNANCE_PENDING"
  shows "\<exists>r'. fst (approve_request rid approver comments st) = Inr r' \<and> rq_status r' = R_APPROVED
    \<and> rq_governance_decision r' = rq_governance_decision r"
  using assms by (simp add: approve_request_def finish_request_def touch_def split_beta)

text \<open>The evidence is never compared with the candidate of the request.\<close>

lemma evidence_of_another_candidate:
  assumes "interlocks_hold (pc_safety_policy st) ev" "\<not> governance_required environment (pc_policy st)"
  shows "\<exists>r. fst (create_promotion_request collector gw pid cid environment actor (Some ev) st) = Inr r
    \<and> rq_status r = R_APPROVED \<and> rq_candidate_id r = cid \<and> rq_evidence r = ev"
  using assms by (simp add: promotion_run_simps safety_passes new_request_def)

end
