(* ===== verification/Evo_Safety.thy ===== *)
theory Evo_Safety
  imports Evo_Multi "HOL-Library.Sublist"
begin

text \<open>
  Runs of the evolution engines. The history stays one hash chain that only grows; under the base engine a promotion is earned
  by the promoted candidate itself, and statuses move along the life cycle. The last section shows how the multi-candidate
  engine and the governance answer \<open>REQUIRE_EVIDENCE\<close> get around both.
\<close>

section \<open>Frames\<close>

lemma iso_now_sel [simp]:
  "se_proposals (snd (iso_now st)) = se_proposals st" "se_candidates (snd (iso_now st)) = se_candidates st"
  "se_simulations (snd (iso_now st)) = se_simulations st" "se_promotions (snd (iso_now st)) = se_promotions st"
  "se_history (snd (iso_now st)) = se_history st"
  by (simp_all add: iso_now_def)

lemma put_proposal_sel [simp]:
  "se_proposals (put_proposal pid p st) = dict_set pid p (se_proposals st)" "se_candidates (put_proposal pid p st) = se_candidates st"
  "se_simulations (put_proposal pid p st) = se_simulations st" "se_promotions (put_proposal pid p st) = se_promotions st"
  "se_history (put_proposal pid p st) = se_history st"
  by (simp_all add: put_proposal_def)

lemma store_sel [simp]:
  "se_proposals (store_candidate c st) = se_proposals st" "se_candidates (store_candidate c st) = dict_set (ca_id c) c (se_candidates st)"
  "se_promotions (store_candidate c st) = se_promotions st" "se_history (store_candidate c st) = se_history st"
  "se_proposals (store_simulation s st) = se_proposals st" "se_candidates (store_simulation s st) = se_candidates st"
  "se_promotions (store_simulation s st) = se_promotions st" "se_history (store_simulation s st) = se_history st"
  "se_proposals (store_promotion m st) = se_proposals st" "se_candidates (store_promotion m st) = se_candidates st"
  "se_history (store_promotion m st) = se_history st"
  by (simp_all add: store_candidate_def store_simulation_def store_promotion_def)

lemma record_event_sel [simp]:
  "se_proposals (record_event pid typ actor details st) = se_proposals st"
  "se_candidates (record_event pid typ actor details st) = se_candidates st"
  "se_promotions (record_event pid typ actor details st) = se_promotions st"
  "se_history (record_event pid typ actor details st) = history_record pid typ actor details (fst (iso_now st)) (se_history st)"
  by (simp_all add: record_event_def split_beta)

lemma close_operation_sel [simp]:
  "se_proposals (close_operation pid p typ actor details st) = dict_set pid (p\<lparr>pr_updated_at := fst (iso_now st)\<rparr>) (se_proposals st)"
  "se_candidates (close_operation pid p typ actor details st) = se_candidates st"
  "se_promotions (close_operation pid p typ actor details st) = se_promotions st"
  by (simp_all add: close_operation_def split_beta)

lemma update_proposal_sel [simp]:
  "se_candidates (update_proposal pid f st) = se_candidates st" "se_history (update_proposal pid f st) = se_history st"
  by (simp_all add: update_proposal_def split: option.splits)

section \<open>The history\<close>

text \<open>Growing at the end, and staying a chain.\<close>

definition history_grows :: "history \<Rightarrow> history \<Rightarrow> bool" where
  "history_grows h h' \<longleftrightarrow> prefix (hs_events h) (hs_events h') \<and> (history_ok h \<longrightarrow> history_ok h')"

lemma history_grows_refl [simp]: "history_grows h h"
  by (simp add: history_grows_def)

lemma history_grows_trans: "history_grows h h' \<Longrightarrow> history_grows h' h'' \<Longrightarrow> history_grows h h''"
  by (auto simp: history_grows_def intro: prefix_order.trans)

lemma history_grows_record: "history_grows h (history_record pid typ actor details ts h)"
  by (auto simp: history_grows_def history_ok_record) (simp add: history_record_def Let_def)

lemma close_operation_history: "history_grows (se_history st) (se_history (close_operation pid p typ actor details st))"
  by (simp add: close_operation_def split_beta history_grows_record)

lemma close_after: "se_history st1 = se_history st \<Longrightarrow> history_grows (se_history st) (se_history (close_operation pid p typ actor details st1))"
  using close_operation_history[of st1] by simp

lemma propose_history: "history_grows (se_history st) (se_history (snd (propose request actor st)))"
  by (simp add: propose_def split_beta Let_def history_grows_record)

lemma mutate_history: "history_grows (se_history st) (se_history (snd (mutate_proposal co pid actor st)))"
  by (auto simp: mutate_proposal_def Let_def split_beta intro!: close_after split: sum.splits evo_error.splits)

lemma simulate_history: "history_grows (se_history st) (se_history (snd (simulate_proposal co pid actor st)))"
  by (auto simp: simulate_proposal_def Let_def intro!: close_after split: sum.splits)

lemma verify_history: "history_grows (se_history st) (se_history (snd (verify_proposal co pid actor st)))"
  by (auto simp: verify_proposal_def Let_def intro!: close_after split: sum.splits)

lemma evaluate_history: "history_grows (se_history st) (se_history (snd (evaluate_proposal co pid actor st)))"
  by (auto simp: evaluate_proposal_def Let_def intro!: close_after split: sum.splits)

lemma submit_history: "history_grows (se_history st) (se_history (snd (submit_for_approval co policy pid actor st)))"
  by (auto simp: submit_for_approval_def Let_def intro!: close_after split: sum.splits)

lemma approve_history: "history_grows (se_history st) (se_history (snd (approve_proposal pid approver decision comments st)))"
  by (auto simp: approve_proposal_def Let_def split_beta intro!: close_after split: sum.splits)

lemma promote_history: "history_grows (se_history st) (se_history (snd (promote pid environment actor st)))"
  by (auto simp: promote_def Let_def split_beta intro!: close_after split: sum.splits)

lemma rollback_history: "history_grows (se_history st) (se_history (snd (rollback mid reason actor st)))"
  by (auto simp: rollback_def Let_def split_beta intro!: close_after split: option.splits)

lemma generate_loop_history: "generate_loop co pid base specs created st = (r, st') \<Longrightarrow> se_history st' = se_history st"
proof (induction specs arbitrary: created st)
  case (Cons spec specs)
  then show ?case by (auto simp: Let_def split_beta split: sum.splits option.splits dest!: Cons.IH)
qed simp

lemma generate_history: "history_grows (se_history st) (se_history (snd (generate_candidates co pid request actor st)))"
  by (auto simp: generate_candidates_def Let_def simp del: generate_loop.simps intro!: close_after split: sum.splits prod.splits dest: generate_loop_history)

lemma try_candidate_history: "se_history (snd (try_candidate co pid c st)) = se_history st"
  by (auto simp: try_candidate_def Let_def split: sum.splits)

lemma evaluate_loop_history: "evaluate_loop co pid force cids es st = (es', st') \<Longrightarrow> se_history st' = se_history st"
proof (induction cids arbitrary: es st)
  case (Cons cid cids)
  then show ?case by (auto simp: split_beta try_candidate_history split: if_splits option.splits dest!: Cons.IH)
qed simp

lemma evaluate_candidates_history:
  "history_grows (se_history (mu_base mu)) (se_history (mu_base (snd (evaluate_candidates co pid actor force mu))))"
  by (auto simp: evaluate_candidates_def Let_def simp del: evaluate_loop.simps intro!: close_after split: sum.splits prod.splits dest: evaluate_loop_history)

lemma select_candidates_history:
  "history_grows (se_history (mu_base mu)) (se_history (mu_base (snd (select_candidates pid policy actor mu))))"
  by (auto simp: select_candidates_def Let_def split_beta intro!: close_after split: sum.splits)

section \<open>Runs\<close>

text \<open>The verifier and the evaluator report on the candidate they are given, as \<^verbatim>\<open>evolution/verification.py\<close> and fitness.py do.\<close>

definition honest :: "collaborators \<Rightarrow> bool" where
  "honest co \<longleftrightarrow> (\<forall>c p v. co_verify co c p = Inr v \<longrightarrow> vr_candidate_id v = ca_id c)
     \<and> (\<forall>c s v f. co_evaluate co c s v = Inr f \<longrightarrow> fe_candidate_id f = ca_id c)"

text \<open>The calls of the base engine that move an existing proposal, with any collaborators for which \<open>trusted\<close> holds.\<close>

inductive lifecycle_step :: "EvolutionPolicy \<Rightarrow> (collaborators \<Rightarrow> bool) \<Rightarrow> self_evolution \<Rightarrow> self_evolution \<Rightarrow> bool" for policy trusted where
  mutates: "lifecycle_step policy trusted st (snd (mutate_proposal co pid actor st))"
| simulates: "lifecycle_step policy trusted st (snd (simulate_proposal co pid actor st))"
| verifies: "trusted co \<Longrightarrow> lifecycle_step policy trusted st (snd (verify_proposal co pid actor st))"
| evaluates: "trusted co \<Longrightarrow> lifecycle_step policy trusted st (snd (evaluate_proposal co pid actor st))"
| submits: "lifecycle_step policy trusted st (snd (submit_for_approval co policy pid actor st))"
| approves: "lifecycle_step policy trusted st (snd (approve_proposal pid approver decision comments st))"
| promotes: "lifecycle_step policy trusted st (snd (promote pid environment actor st))"
| rolls_back: "lifecycle_step policy trusted st (snd (rollback mid reason actor st))"

inductive base_step :: "EvolutionPolicy \<Rightarrow> (collaborators \<Rightarrow> bool) \<Rightarrow> self_evolution \<Rightarrow> self_evolution \<Rightarrow> bool" for policy trusted where
  proposes: "base_step policy trusted st (snd (propose request actor st))"
| moves: "lifecycle_step policy trusted st st' \<Longrightarrow> base_step policy trusted st st'"

inductive multi_step :: "EvolutionPolicy \<Rightarrow> (collaborators \<Rightarrow> bool) \<Rightarrow> multi_evolution \<Rightarrow> multi_evolution \<Rightarrow> bool" for policy trusted where
  base_call: "base_step policy trusted (mu_base mu) st' \<Longrightarrow> multi_step policy trusted mu (mu\<lparr>mu_base := st'\<rparr>)"
| generates: "multi_step policy trusted mu (mu\<lparr>mu_base := snd (generate_candidates co pid request actor (mu_base mu))\<rparr>)"
| tries: "trusted co \<Longrightarrow> multi_step policy trusted mu (snd (evaluate_candidates co pid actor force mu))"
| selects: "multi_step policy trusted mu (snd (select_candidates pid selection_policy actor mu))"

lemma base_step_history: "base_step policy trusted st st' \<Longrightarrow> history_grows (se_history st) (se_history st')"
  by (auto elim!: base_step.cases lifecycle_step.cases
      intro: propose_history mutate_history simulate_history verify_history evaluate_history submit_history approve_history
        promote_history rollback_history)

lemma multi_step_history: "multi_step policy trusted mu mu' \<Longrightarrow> history_grows (se_history (mu_base mu)) (se_history (mu_base mu'))"
  by (auto elim!: multi_step.cases intro: base_step_history generate_history evaluate_candidates_history select_candidates_history)

lemma multi_run_history: "(multi_step policy trusted)\<^sup>*\<^sup>* mu mu' \<Longrightarrow> history_grows (se_history (mu_base mu)) (se_history (mu_base mu'))"
  by (induction rule: rtranclp_induct) (auto intro: history_grows_trans multi_step_history)

section \<open>The life cycle under the base engine\<close>





















text \<open>What stands behind a status, for the last candidate of the proposal.\<close>

definition verified_last :: "EvolutionProposal \<Rightarrow> bool" where
  "verified_last p \<longleftrightarrow> (case pr_verification p of None \<Rightarrow> False | Some v \<Rightarrow> vr_valid v \<and> vr_candidate_id v = last (pr_candidate_ids p))"

definition fit_last :: "EvolutionProposal \<Rightarrow> bool" where
  "fit_last p \<longleftrightarrow> (case pr_fitness p of None \<Rightarrow> False | Some f \<Rightarrow> fe_passed f \<and> fe_candidate_id f = last (pr_candidate_ids p))"

definition not_denied :: "EvolutionProposal \<Rightarrow> bool" where
  "not_denied p \<longleftrightarrow> (case pr_governance_decision p of None \<Rightarrow> False | Some d \<Rightarrow> eg_decision d \<noteq> ED_DENY)"

definition consented :: "EvolutionPolicy \<Rightarrow> EvolutionProposal \<Rightarrow> bool" where
  "consented policy p \<longleftrightarrow> (case pr_approval p of None \<Rightarrow> False | Some a \<Rightarrow> ea_decision a = ''APPROVED'')
     \<or> auto_approve_when_governance_allow policy \<and> \<not> forced_approval policy p
       \<and> (case pr_governance_decision p of None \<Rightarrow> False | Some d \<Rightarrow> eg_decision d \<noteq> ED_REQUIRE_APPROVAL)"

definition earned :: "EvolutionPolicy \<Rightarrow> EvolutionProposal \<Rightarrow> bool" where
  "earned policy p \<longleftrightarrow> pr_selected_candidate_id p = None
     \<and> (pr_status p \<in> {P_VERIFIED, P_EVALUATED, P_PENDING_APPROVAL, P_APPROVED, P_PROMOTED} \<longrightarrow> verified_last p)
     \<and> (pr_status p \<in> {P_EVALUATED, P_PENDING_APPROVAL, P_APPROVED, P_PROMOTED} \<longrightarrow> fit_last p)
     \<and> (pr_status p \<in> {P_PENDING_APPROVAL, P_APPROVED, P_PROMOTED} \<longrightarrow> not_denied p)
     \<and> (pr_status p \<in> {P_APPROVED, P_PROMOTED} \<longrightarrow> consented policy p)"

definition candidates_keyed :: "self_evolution \<Rightarrow> bool" where
  "candidates_keyed st \<longleftrightarrow> (\<forall>cid c. dict_get (se_candidates st) cid = Some c \<longrightarrow> ca_id c = cid)"

definition all_earned :: "EvolutionPolicy \<Rightarrow> self_evolution \<Rightarrow> bool" where
  "all_earned policy st \<longleftrightarrow> candidates_keyed st \<and> (\<forall>pid p. dict_get (se_proposals st) pid = Some p \<longrightarrow> earned policy p)"

lemmas stage_defs = verified_last_def fit_last_def not_denied_def consented_def forced_approval_def high_impact_def

lemma stage_touch [simp]:
  "verified_last (p\<lparr>pr_fitness := x_fitness\<rparr>) = verified_last p" "verified_last (p\<lparr>pr_governance_decision := x_governance_decision\<rparr>) = verified_last p" "verified_last (p\<lparr>pr_approval := x_approval\<rparr>) = verified_last p" "verified_last (p\<lparr>pr_promotion := x_promotion\<rparr>) = verified_last p" "verified_last (p\<lparr>pr_status := x_status\<rparr>) = verified_last p" "verified_last (p\<lparr>pr_error := x_error\<rparr>) = verified_last p"
  "fit_last (p\<lparr>pr_verification := x_verification\<rparr>) = fit_last p" "fit_last (p\<lparr>pr_governance_decision := x_governance_decision\<rparr>) = fit_last p" "fit_last (p\<lparr>pr_approval := x_approval\<rparr>) = fit_last p" "fit_last (p\<lparr>pr_promotion := x_promotion\<rparr>) = fit_last p" "fit_last (p\<lparr>pr_status := x_status\<rparr>) = fit_last p" "fit_last (p\<lparr>pr_error := x_error\<rparr>) = fit_last p"
  "not_denied (p\<lparr>pr_approval := x_approval\<rparr>) = not_denied p" "not_denied (p\<lparr>pr_promotion := x_promotion\<rparr>) = not_denied p" "not_denied (p\<lparr>pr_status := x_status\<rparr>) = not_denied p" "not_denied (p\<lparr>pr_error := x_error\<rparr>) = not_denied p"
  "consented policy (p\<lparr>pr_promotion := x_promotion\<rparr>) = consented policy p" "consented policy (p\<lparr>pr_status := x_status\<rparr>) = consented policy p" "consented policy (p\<lparr>pr_error := x_error\<rparr>) = consented policy p"
  by (simp_all add: stage_defs cong: option.case_cong)

lemma earned_touch [simp]: "earned policy (p\<lparr>pr_updated_at := ts\<rparr>) = earned policy p"
  by (simp add: earned_def stage_defs cong: option.case_cong)

lemma all_earned_get: "all_earned policy st \<Longrightarrow> get_proposal pid st = Inr p \<Longrightarrow> earned policy p"
  by (auto simp: all_earned_def get_proposal_def split: option.splits)

lemma all_earned_close:
  "all_earned policy st \<Longrightarrow> earned policy p' \<Longrightarrow> se_proposals st1 = se_proposals st \<Longrightarrow> candidates_keyed st1 \<Longrightarrow>
   all_earned policy (close_operation pid p' et actor details st1)"
  by (auto simp: all_earned_def candidates_keyed_def dict.lookup_put)

lemma keyed_store: "candidates_keyed st \<Longrightarrow> candidates_keyed (store_candidate c st)"
  by (auto simp: candidates_keyed_def dict.lookup_put)

lemma keyed_same: "candidates_keyed st \<Longrightarrow> se_candidates st' = se_candidates st \<Longrightarrow> candidates_keyed st'"
  by (simp add: candidates_keyed_def)

lemma latest_is_last:
  "candidates_keyed st \<Longrightarrow> pr_selected_candidate_id p = None \<Longrightarrow> latest_candidate p st = Inr c \<Longrightarrow> ca_id c = last (pr_candidate_ids p)"
  by (auto simp: latest_candidate_def last_candidate_def candidates_keyed_def split: if_splits option.splits)

lemma earned_mutated: "pr_selected_candidate_id p = None \<Longrightarrow> pr_status p \<in> {P_DRAFT, P_MUTATED, P_SIMULATED, P_FAILED, P_REJECTED, P_ROLLED_BACK} \<Longrightarrow> earned policy p"
  by (auto simp: earned_def)

lemma earned_sel: "earned policy p \<Longrightarrow> pr_selected_candidate_id p = None"
  by (simp add: earned_def)

lemma all_earned_keyed: "all_earned policy st \<Longrightarrow> candidates_keyed st"
  by (simp add: all_earned_def)

lemma all_earned_sel: "all_earned policy st \<Longrightarrow> get_proposal pid st = Inr p \<Longrightarrow> pr_selected_candidate_id p = None"
  using all_earned_get earned_sel by blast

lemma all_earned_latest:
  "all_earned policy st \<Longrightarrow> get_proposal pid st = Inr p \<Longrightarrow> latest_candidate p st = Inr c \<Longrightarrow> ca_id c = last (pr_candidate_ids p)"
  by (rule latest_is_last[OF all_earned_keyed all_earned_sel])

lemmas earned_facts = all_earned_keyed all_earned_sel all_earned_latest keyed_store keyed_same[of st for st]

lemma mutate_earned: "all_earned policy st \<Longrightarrow> all_earned policy (snd (mutate_proposal co pid actor st))"
  by (auto simp: mutate_proposal_def Let_def split_beta earned_facts keyed_same[of st] intro!: all_earned_close[of policy st] earned_mutated
      split: sum.splits evo_error.splits)

lemma propose_earned: "all_earned policy st \<Longrightarrow> all_earned policy (snd (propose request actor st))"
  by (auto simp: propose_def Let_def split_beta all_earned_def candidates_keyed_def dict.lookup_put new_proposal_def intro!: earned_mutated)

lemma simulate_earned: "all_earned policy st \<Longrightarrow> all_earned policy (snd (simulate_proposal co pid actor st))"
  by (auto simp: simulate_proposal_def Let_def earned_facts keyed_same[of st] intro!: all_earned_close[of policy st] earned_mutated
      split: sum.splits)

lemma verify_earned: "all_earned policy st \<Longrightarrow> honest co \<Longrightarrow> all_earned policy (snd (verify_proposal co pid actor st))"
  by (auto simp: verify_proposal_def Let_def earned_facts intro!: all_earned_close[of policy st] split: sum.splits)
     (auto simp: earned_def verified_last_def honest_def earned_facts)

lemma earned_stage:
  "earned policy p \<Longrightarrow> pr_status p \<in> {P_VERIFIED, P_EVALUATED, P_PENDING_APPROVAL, P_APPROVED, P_PROMOTED} \<Longrightarrow> verified_last p"
  "earned policy p \<Longrightarrow> pr_status p \<in> {P_EVALUATED, P_PENDING_APPROVAL, P_APPROVED, P_PROMOTED} \<Longrightarrow> fit_last p"
  "earned policy p \<Longrightarrow> pr_status p \<in> {P_PENDING_APPROVAL, P_APPROVED, P_PROMOTED} \<Longrightarrow> not_denied p"
  "earned policy p \<Longrightarrow> pr_status p \<in> {P_APPROVED, P_PROMOTED} \<Longrightarrow> consented policy p"
  unfolding earned_def by blast+

lemma evaluate_earned: "all_earned policy st \<Longrightarrow> honest co \<Longrightarrow> all_earned policy (snd (evaluate_proposal co pid actor st))"
  by (auto simp: evaluate_proposal_def Let_def earned_facts intro!: all_earned_close[of policy st] split: sum.splits)
     (auto simp: earned_def honest_def earned_facts fit_last_def dest!: all_earned_get)

lemma governed_earned:
  assumes "earned policy p" "pr_status p = P_EVALUATED" "eg_decision d = k"
  shows "earned policy (p\<lparr>pr_governance_decision := Some d, pr_status := governed_status policy p k, pr_error := e\<rparr>)"
    and "earned policy (p\<lparr>pr_governance_decision := Some d, pr_status := governed_status policy p k\<rparr>)"
  using assms by (auto simp: earned_def governed_status_def not_denied_def consented_def forced_approval_def high_impact_def)

lemma submit_earned: "all_earned policy st \<Longrightarrow> all_earned policy (snd (submit_for_approval co policy pid actor st))"
  by (auto simp: submit_for_approval_def Let_def earned_facts governed_earned all_earned_get intro!: all_earned_close[of policy st] split: sum.splits)

lemma approve_earned: "all_earned policy st \<Longrightarrow> all_earned policy (snd (approve_proposal pid approver decision comments st))"
  by (auto simp: approve_proposal_def Let_def split_beta earned_facts keyed_same[of st] intro!: all_earned_close[of policy st] split: sum.splits)
     (auto simp: earned_def consented_def dest!: all_earned_get)

lemma promote_earned: "all_earned policy st \<Longrightarrow> all_earned policy (snd (promote pid environment actor st))"
  by (auto simp: promote_def Let_def split_beta earned_facts keyed_same[of st] intro!: all_earned_close[of policy st] split: sum.splits)
     (auto simp: earned_def dest!: all_earned_get)

lemma rollback_earned:
  assumes "all_earned policy st"
  shows "all_earned policy (snd (rollback mid reason actor st))"
proof (cases "dict_get (se_promotions st) mid")
  case (Some m)
  have touch: "all_earned policy (st1\<lparr>se_promotions := d\<rparr>)" if "se_proposals st1 = se_proposals st" "se_candidates st1 = se_candidates st" for st1 d
    using assms that by (simp add: all_earned_def candidates_keyed_def)
  have closed: "earned policy (p\<lparr>pr_status := P_ROLLED_BACK\<rparr>)" if "dict_get (se_proposals st) pid = Some p" for pid p
    using assms that by (auto simp: all_earned_def earned_def)
  show ?thesis using Some assms
    by (auto simp: rollback_def Let_def split_beta touch closed earned_facts keyed_same[of st] intro!: all_earned_close[of policy st] split: option.splits)
qed (simp add: rollback_def assms)

lemma base_step_earned: "base_step policy honest st st' \<Longrightarrow> all_earned policy st \<Longrightarrow> all_earned policy st'"
  by (auto elim!: base_step.cases lifecycle_step.cases
      intro: propose_earned mutate_earned simulate_earned verify_earned evaluate_earned submit_earned approve_earned promote_earned rollback_earned)

lemma all_earned_start: "all_earned policy (SelfEvolutionEngine readings)"
  by (simp add: all_earned_def SelfEvolutionEngine_def candidates_keyed_def dict_get_def)

lemma base_run_earned: "(base_step policy honest)\<^sup>*\<^sup>* (SelfEvolutionEngine readings) st \<Longrightarrow> all_earned policy st"
  by (induction rule: rtranclp_induct) (auto intro: base_step_earned all_earned_start)

lemma promote_outcome:
  assumes "all_earned policy st" "fst (promote pid environment actor st) = Inr m"
  obtains p where "get_proposal pid st = Inr p" "pr_status p = P_APPROVED" "earned policy p"
    "pm_candidate_id m = last (pr_candidate_ids p)" "pm_proposal_id m = pid"
  using assms by (auto simp: promote_def Let_def split_beta new_promotion_def earned_facts split: sum.splits if_splits dest: all_earned_get)

section \<open>What the engine guarantees\<close>

text \<open>C19. Whatever is called, and whatever its collaborators answer, the multi-candidate engine keeps one history: the events are a hash
  chain from \<open>genesis\<close> that an auditor can recompute, and later calls only append to it.\<close>

theorem history_is_chained:
  assumes "(multi_step policy trusted)\<^sup>*\<^sup>* (MultiCandidateEvolutionEngine (SelfEvolutionEngine readings)) mu" "(multi_step policy trusted)\<^sup>*\<^sup>* mu mu'"
  shows "chained ''genesis'' (hs_events (se_history (mu_base mu')))
    \<and> prefix (hs_events (se_history (mu_base mu))) (hs_events (se_history (mu_base mu')))"
proof -
  have "history_ok (se_history (mu_base (MultiCandidateEvolutionEngine (SelfEvolutionEngine readings))))"
    by (simp add: MultiCandidateEvolutionEngine_def SelfEvolutionEngine_def history_ok_empty)
  then show ?thesis using multi_run_history[OF assms(1)] multi_run_history[OF assms(2)] by (simp add: history_grows_def history_ok_def)
qed

text \<open>A recorded history is determined by its last hash, as long as no two different events hash alike.\<close>

lemma history_determined_by_end:
  assumes "history_ok h" "chained ''genesis'' es" "chain_end es = hs_last_event_hash h" "events.distinguishable (hs_events h) es"
  shows "es = hs_events h"
  using events.same_chain[of "hs_events h" es] assms by (simp add: history_ok_def chained_iff chain_end_def events.end_of_def)

definition sample_request :: EvolutionProposalRequest where
  "sample_request = \<lparr>er_title = ''cache'', er_description = [], er_target_type = APPLICATION_ARCHITECTURE, er_target_ref = ''app'', er_base_isr = [],
     er_mutation = \<lparr>ms_id = Some ''m1'', ms_operator = ''op'', ms_chromosome_family = ''data'', ms_gene_id = ''g'', ms_operations = [], ms_rationale = []\<rparr>,
     er_high_impact = False, er_allow_breaking_changes = False, er_environment = ''sandbox''\<rparr>"

definition sample_collaborators :: collaborators where
  "sample_collaborators = \<lparr>co_mutate = \<lambda>base m. Inr (base @ [(''cache'', PBool True)]),
     co_simulate = \<lambda>c. Inr \<lparr>sr_id = ''s1'', sr_candidate_id = ca_id c, sr_status = SIM_PASSED, sr_metrics = [], sr_issues = [], sr_logs = [], sr_created_at = ''t''\<rparr>,
     co_verify = \<lambda>c p. Inr \<lparr>vr_candidate_id = ca_id c, vr_valid = True, vr_issues = [], vr_created_at = ''t''\<rparr>,
     co_evaluate = \<lambda>c s v. Inr \<lparr>fe_id = ''f1'', fe_candidate_id = ca_id c, fe_objectives = [], fe_constraints = [], fe_passed = True, fe_notes = [],
       fe_created_at = ''t''\<rparr>,
     co_governance = None\<rparr>"

definition sample_proposed :: self_evolution where
  "sample_proposed = snd (propose sample_request ''ada'' (SelfEvolutionEngine (\<lambda>_. ''t'')))"

lemma history_is_chained_witness:
  "chained ''genesis'' (hs_events (se_history sample_proposed)) \<and> prefix [] (hs_events (se_history sample_proposed))"
proof -
  let ?start = "MultiCandidateEvolutionEngine (SelfEvolutionEngine (\<lambda>_. ''t''))"
  have "multi_step default_evolution_policy honest ?start (?start\<lparr>mu_base := sample_proposed\<rparr>)"
    by (rule base_call) (simp add: sample_proposed_def MultiCandidateEvolutionEngine_def proposes)
  from history_is_chained[OF rtranclp.rtrancl_refl r_into_rtranclp[of "multi_step default_evolution_policy honest", OF this]] show ?thesis by simp
qed


text \<open>A second proposal of the same content at the same reading of the clock takes the place of the first, whatever has become of it.\<close>

lemma repeated_proposal_resets:
  assumes "fst (propose request actor st) = Inr p" "fst (iso_now st') = fst (iso_now st)"
  shows "\<exists>q. dict_get (se_proposals (snd (propose request actor' st'))) (pr_id p) = Some q \<and> pr_status q = P_DRAFT \<and> pr_candidate_ids q = []"
  using assms by (auto simp: propose_def Let_def split_beta new_proposal_def dict.lookup_put)

definition sample_id :: string where
  "sample_id = fst (hd (se_proposals sample_proposed))"

definition sample_mutated :: self_evolution where
  "sample_mutated = snd (mutate_proposal sample_collaborators sample_id ''ada'' sample_proposed)"

definition sample_evaluated :: self_evolution where
  "sample_evaluated = snd (evaluate_proposal sample_collaborators sample_id ''ada''
     (snd (verify_proposal sample_collaborators sample_id ''ada''
       (snd (simulate_proposal sample_collaborators sample_id ''ada'' sample_mutated)))))"

definition sample_approved :: self_evolution where
  "sample_approved = snd (submit_for_approval sample_collaborators default_evolution_policy sample_id ''ada'' sample_evaluated)"

lemma dict_single [simp]: "dict_get [(k, v)] k = Some v" "dict_set k w [(k, v)] = [(k, w)]" "dict_set k w [] = [(k, w)]"
  by (simp_all add: dict_get_def dict_set_def)

lemma close_one: "se_proposals st = [(pid, q)] \<Longrightarrow> se_proposals (close_operation pid p et actor details st) = [(pid, p\<lparr>pr_updated_at := fst (iso_now st)\<rparr>)]"
  by simp
lemma simulations_sel [simp]: "se_simulations (close_operation pid p et actor details st) = se_simulations st"
   "se_simulations (store_candidate c st) = se_simulations st"  "se_simulations (store_simulation s st) = dict_set (sr_id s) s (se_simulations st)"
  by (simp_all add: close_operation_def record_event_def split_beta store_candidate_def store_simulation_def)

lemma sample_proposed_has: "\<exists>p. se_proposals sample_proposed = [(sample_id, p)] \<and> se_candidates sample_proposed = [] \<and> se_simulations sample_proposed = []
   \<and> pr_status p = P_DRAFT \<and> pr_selected_candidate_id p = None \<and> \<not> high_impact p \<and> pr_candidate_ids p = [] \<and> pr_simulation_ids p = []"
  by (simp add: sample_proposed_def sample_id_def propose_def Let_def split_beta SelfEvolutionEngine_def new_proposal_def sample_request_def record_event_def
     iso_now_def put_proposal_def high_impact_def HIGH_IMPACT_TARGETS_def)

lemma sample_mutated_has: "\<exists>p c. se_proposals sample_mutated = [(sample_id, p)] \<and> se_candidates sample_mutated = [(ca_id c, c)] \<and> se_simulations sample_mutated = []
   \<and> pr_status p = P_MUTATED \<and> pr_selected_candidate_id p = None \<and> \<not> high_impact p \<and> pr_candidate_ids p = [ca_id c] \<and> pr_simulation_ids p = []"
  using sample_proposed_has 
  by (auto simp: sample_mutated_def mutate_proposal_def get_proposal_def sample_collaborators_def Let_def split_beta high_impact_def close_one)

lemma sample_evaluated_has: "\<exists>p c. se_proposals sample_evaluated = [(sample_id, p)] \<and> se_candidates sample_evaluated = [(ca_id c, c)] 
   \<and> pr_status p = P_EVALUATED \<and> pr_selected_candidate_id p = None \<and> \<not> high_impact p \<and> pr_candidate_ids p = [ca_id c] \<and> 
   (\<exists>v f. pr_verification p = Some v \<and> vr_valid v \<and> pr_fitness p = Some f \<and> fe_passed f)"
  using sample_mutated_has
  by (auto simp: sample_evaluated_def evaluate_proposal_def simulate_proposal_def verify_proposal_def get_proposal_def sample_collaborators_def Let_def split_beta high_impact_def close_one
    latest_candidate_def latest_simulation_def last_candidate_def)

lemma sample_approved_has: "\<exists>p c. se_proposals sample_approved = [(sample_id, p)] \<and> se_candidates sample_approved = [(ca_id c, c)] 
   \<and> pr_status p = P_APPROVED \<and> pr_selected_candidate_id p = None \<and> pr_candidate_ids p = [ca_id c] \<and> 
   (\<exists>v f. pr_verification p = Some v \<and> vr_valid v \<and> pr_fitness p = Some f \<and> fe_passed f)"
  using sample_evaluated_has
  by (auto simp: sample_approved_def submit_for_approval_def get_proposal_def sample_collaborators_def Let_def split_beta high_impact_def close_one
    governance_answer_def governed_status_def forced_approval_def default_evolution_policy_def)



text \<open>C17. Under the base engine a promotion is earned, on every run: the proposal was approved, the candidate promoted is its last one, that
  very candidate has a valid verification and a passing fitness evaluation, governance did not deny it, and either a person approved
  it or the policy allows automatic approval of a proposal without high impact.\<close>

theorem promotion_is_earned:
  assumes "(base_step policy honest)\<^sup>*\<^sup>* (SelfEvolutionEngine readings) st" "fst (promote pid environment actor st) = Inr m"
  shows "\<exists>p. dict_get (se_proposals st) pid = Some p \<and> pr_status p = P_APPROVED
    \<and> pm_proposal_id m = pid \<and> pm_candidate_id m = last (pr_candidate_ids p)
    \<and> verified_last p \<and> fit_last p \<and> not_denied p \<and> consented policy p"
proof -
  obtain p where p: "get_proposal pid st = Inr p" "pr_status p = P_APPROVED" "earned policy p"
    "pm_candidate_id m = last (pr_candidate_ids p)" "pm_proposal_id m = pid"
    by (rule promote_outcome[OF base_run_earned[OF assms(1)] assms(2)])
  moreover have "verified_last p" "fit_last p" "not_denied p" "consented policy p" using earned_stage[OF p(3)] p(2) by auto
  ultimately show ?thesis by (auto simp: get_proposal_def split: option.splits)
qed

lemma sample_honest: "honest sample_collaborators"
  by (auto simp: honest_def sample_collaborators_def)

lemma run_then_step: "(base_step policy honest)\<^sup>*\<^sup>* st st' \<Longrightarrow> lifecycle_step policy honest st' st'' \<Longrightarrow> (base_step policy honest)\<^sup>*\<^sup>* st st''"
  by (erule rtranclp.rtrancl_into_rtrancl) (rule moves)

lemma sample_approved_reached: "(base_step default_evolution_policy honest)\<^sup>*\<^sup>* (SelfEvolutionEngine (\<lambda>_. ''t'')) sample_approved"
proof -
  have "(base_step default_evolution_policy honest)\<^sup>*\<^sup>* (SelfEvolutionEngine (\<lambda>_. ''t'')) sample_proposed"
    unfolding sample_proposed_def by (rule r_into_rtranclp) (rule proposes)
  from run_then_step[OF run_then_step[OF run_then_step[OF run_then_step[OF run_then_step[OF this mutates] simulates]
      verifies[where trusted = honest, OF sample_honest]] evaluates[where trusted = honest, OF sample_honest]] submits]
  show ?thesis unfolding sample_approved_def sample_evaluated_def sample_mutated_def .
qed

lemma promotion_is_earned_witness:
  "\<exists>m p. fst (promote sample_id ''prod'' ''ada'' sample_approved) = Inr m \<and> dict_get (se_proposals sample_approved) sample_id = Some p
     \<and> pm_candidate_id m = last (pr_candidate_ids p) \<and> consented default_evolution_policy p"
proof -
  obtain m where m: "fst (promote sample_id ''prod'' ''ada'' sample_approved) = Inr m"
    using sample_approved_has by (auto simp: promote_def get_proposal_def latest_candidate_def last_candidate_def Let_def split_beta)
  from promotion_is_earned[OF sample_approved_reached m] m show ?thesis by blast
qed

section \<open>Where the guarantees end\<close>

text \<open>\<open>evaluate_candidates\<close> of the multi-candidate engine checks no status: evaluating a rejected (or promoted) proposal again puts it back
  before approval.\<close>

lemma evaluate_loop_known: "\<forall>cid \<in> set cids. dict_in cid es \<Longrightarrow> evaluate_loop co pid False cids es st = (es, st)"
  by (induction cids) auto

lemma evaluation_revives:
  assumes "get_proposal pid (mu_base mu) = Inr p" "pr_candidate_ids p \<noteq> []"
    "\<forall>cid \<in> set (pr_candidate_ids p). dict_in cid (proposal_evaluations pid mu)"
    "list_ex ce_feasible (dict_values (proposal_evaluations pid mu))"
  shows "\<exists>p'. get_proposal pid (mu_base (snd (evaluate_candidates co pid actor False mu))) = Inr p' \<and> pr_status p' = P_EVALUATED"
  using assms evaluate_loop_known[OF assms(3), of co pid "mu_base mu"]
  by (simp add: evaluate_candidates_def Let_def get_proposal_def dict.lookup_put evaluated_status_def)

text \<open>Selection checks no status either: on an approved proposal it changes the candidate that \<open>promote\<close> takes, and the approval stays.\<close>

lemma selection_redirects_promotion:
  assumes "get_proposal pid (mu_base mu) = Inr p" "select_candidates pid policy actor mu = (Inr r, mu')"
    "ps_selected_candidate_id r = Some cid" "cid \<noteq> []" "dict_get (se_candidates (mu_base mu)) cid = Some c"
  shows "\<exists>p'. get_proposal pid (mu_base mu') = Inr p' \<and> pr_status p' = pr_status p \<and> pr_approval p' = pr_approval p
    \<and> latest_candidate p' (mu_base mu') = Inr c"
  using assms
  by (auto simp: select_candidates_def Let_def split_beta get_proposal_def[of pid "mu_base mu'"] dict.lookup_put adopt_selection_def latest_candidate_def
      split: sum.splits if_splits option.splits)

text \<open>The answer \<open>REQUIRE_EVIDENCE\<close> falls into the branch of \<open>ALLOW\<close>.\<close>

lemma required_evidence_is_ignored:
  "governance_answer co policy p = Inr d \<Longrightarrow> eg_decision d = ED_REQUIRE_EVIDENCE \<Longrightarrow> \<not> high_impact p \<Longrightarrow>
   auto_approve_when_governance_allow policy \<Longrightarrow> get_proposal pid st = Inr p \<Longrightarrow> pr_status p = P_EVALUATED \<Longrightarrow>
   \<exists>p'. get_proposal pid (snd (submit_for_approval co policy pid actor st)) = Inr p' \<and> pr_status p' = P_APPROVED"
  by (simp add: submit_for_approval_def Let_def governed_status_def forced_approval_def get_proposal_def dict.lookup_put)

end
