(* ===== verification/Evo_Evidence.thy ===== *)
theory Evo_Evidence
  imports Evo_Interlock Evo_Safety
begin

text \<open>
  The engines together: the evidence that the collector takes from the multi-candidate engine is about the candidate it names, on every
  run, so that promotion control judges what was really verified and evaluated.
\<close>

text \<open>An evaluation under the key of its candidate reports on that candidate.\<close>

definition true_evaluation :: "string \<Rightarrow> evaluation_record \<Rightarrow> bool" where
  "true_evaluation cid e \<longleftrightarrow> ce_candidate_id e = cid
     \<and> (\<forall>v. ce_verification e = Some v \<longrightarrow> vr_candidate_id v = cid)
     \<and> (\<forall>f. ce_fitness e = Some f \<longrightarrow> fe_candidate_id f = cid)"

definition true_evaluations :: "(string, evaluation_record) dict \<Rightarrow> bool" where
  "true_evaluations es \<longleftrightarrow> (\<forall>(cid, e) \<in> set es. true_evaluation cid e)"

definition multi_true :: "multi_evolution \<Rightarrow> bool" where
  "multi_true mu \<longleftrightarrow> candidates_keyed (mu_base mu) \<and> (\<forall>pid es. dict_get (mu_evaluations mu) pid = Some es \<longrightarrow> true_evaluations es)"

lemma candidates_kept: "se_candidates st' = se_candidates st \<Longrightarrow> candidates_keyed st' = candidates_keyed st"
  by (simp add: candidates_keyed_def)

lemma keyed_frame [simp]:
  "candidates_keyed (close_operation pid p et actor details st) = candidates_keyed st" "candidates_keyed (snd (iso_now st)) = candidates_keyed st"
  "candidates_keyed (store_simulation s st) = candidates_keyed st" "candidates_keyed (store_promotion m st) = candidates_keyed st"
  "candidates_keyed (update_proposal pid f st) = candidates_keyed st" "candidates_keyed (st\<lparr>se_promotions := d\<rparr>) = candidates_keyed st"
  by (rule candidates_kept, simp)+

lemma lifecycle_step_keyed: "lifecycle_step policy trusted st st' \<Longrightarrow> candidates_keyed st \<Longrightarrow> candidates_keyed st'"
proof (induction rule: lifecycle_step.induct)
  case (mutates st co pid actor)
  then show ?case by (auto simp: mutate_proposal_def Let_def split_beta keyed_store split: sum.splits evo_error.splits)
next
  case (simulates st co pid actor)
  then show ?case by (auto simp: simulate_proposal_def Let_def split: sum.splits)
next
  case (verifies co st pid actor)
  then show ?case by (auto simp: verify_proposal_def Let_def split: sum.splits)
next
  case (evaluates co st pid actor)
  then show ?case by (auto simp: evaluate_proposal_def Let_def split: sum.splits)
next
  case (submits st co pid actor)
  then show ?case by (auto simp: submit_for_approval_def Let_def split: sum.splits)
next
  case (approves st pid approver decision comments)
  then show ?case by (auto simp: approve_proposal_def Let_def split_beta split: sum.splits)
next
  case (promotes st pid environment actor)
  then show ?case by (auto simp: promote_def Let_def split_beta split: sum.splits)
next
  case (rolls_back st mid reason actor)
  then show ?case by (auto simp: rollback_def Let_def split_beta split: option.splits)
qed

lemma propose_keyed: "candidates_keyed (snd (propose request actor st)) = candidates_keyed st"
  by (rule candidates_kept) (simp add: propose_def Let_def split_beta)

lemma base_step_keyed: "base_step policy trusted st st' \<Longrightarrow> candidates_keyed st \<Longrightarrow> candidates_keyed st'"
  by (erule base_step.cases) (simp_all add: propose_keyed lifecycle_step_keyed)

lemma try_candidate_true:
  assumes "honest co" "ca_id c = cid"
  shows "true_evaluation cid (evaluation_of cid (fst (try_candidate co pid c st)) ts)"
  using assms by (auto simp: try_candidate_def Let_def evaluation_of_def stopped_def true_evaluation_def honest_def split: sum.splits if_splits)

lemma try_candidate_candidates: "se_candidates (snd (try_candidate co pid c st)) = se_candidates st"
  by (auto simp: try_candidate_def Let_def split: sum.splits)

lemma evaluate_loop_true:
  "evaluate_loop co pid force cids es st = (es', st') \<Longrightarrow> honest co \<Longrightarrow> candidates_keyed st \<Longrightarrow> true_evaluations es \<Longrightarrow>
   true_evaluations es' \<and> se_candidates st' = se_candidates st"
proof (induction cids arbitrary: es st)
  case (Cons cid cids)
  show ?case
  proof (cases "dict_in cid es \<and> \<not> force \<or> dict_get (se_candidates st) cid = None")
    case True
    then show ?thesis using Cons by (auto split: if_splits option.splits)
  next
    case False
    then obtain c where c: "dict_get (se_candidates st) cid = Some c" by auto
    let ?t = "try_candidate co pid c st" and ?ts = "fst (iso_now (snd (try_candidate co pid c st)))"
    have id: "ca_id c = cid" using c Cons.prems(3) by (simp add: candidates_keyed_def)
    have "true_evaluations (dict_set cid (evaluation_of cid (fst ?t) ?ts) es)"
      using Cons.prems(4) try_candidate_true[OF Cons.prems(2) id, of pid st ?ts] set_dict_set[of cid _ es]
      by (fastforce simp: true_evaluations_def)
    moreover have "candidates_keyed (snd (iso_now (snd ?t)))" using Cons.prems(3) by (simp add: candidates_keyed_def try_candidate_candidates)
    ultimately show ?thesis using Cons.IH[of "dict_set cid (evaluation_of cid (fst ?t) ?ts) es" "snd (iso_now (snd ?t))"] Cons.prems False c
      by (auto simp: split_beta try_candidate_candidates)
  qed
qed simp

lemma generate_loop_keyed: "generate_loop co pid base specs created st = (r, st') \<Longrightarrow> candidates_keyed st \<Longrightarrow> candidates_keyed st'"
proof (induction specs arbitrary: created st)
  case (Cons spec specs)
  show ?case using Cons.prems
    by (auto simp: Let_def split_beta keyed_store split: sum.splits option.splits dest!: Cons.IH)
qed simp

lemma generate_keyed: "candidates_keyed st \<Longrightarrow> candidates_keyed (snd (generate_candidates co pid request actor st))"
  by (auto simp: generate_candidates_def Let_def simp del: generate_loop.simps
      split: sum.splits prod.splits dest: generate_loop_keyed)

lemma evaluate_true:
  assumes "honest co" "multi_true mu"
  shows "multi_true (snd (evaluate_candidates co pid actor force mu))"
proof -
  have es: "true_evaluations (proposal_evaluations pid mu)"
    using assms(2) by (cases "dict_get (mu_evaluations mu) pid") (auto simp: proposal_evaluations_def multi_true_def true_evaluations_def)
  have k: "candidates_keyed (mu_base mu)" using assms(2) by (simp add: multi_true_def)
  show ?thesis using assms(2) evaluate_loop_true[OF _ assms(1) k es]
    by (auto simp: evaluate_candidates_def Let_def multi_true_def dict.lookup_put candidates_keyed_def
        simp del: evaluate_loop.simps split: sum.splits prod.splits)
qed

lemma select_true: "multi_true mu \<Longrightarrow> multi_true (snd (select_candidates pid policy actor mu))"
  by (auto simp: select_candidates_def Let_def split_beta multi_true_def split: sum.splits)

lemma multi_step_true: "multi_step policy honest mu mu' \<Longrightarrow> multi_true mu \<Longrightarrow> multi_true mu'"
proof (induction rule: multi_step.induct)
  case (base_call mu st')
  then show ?case by (simp add: multi_true_def base_step_keyed)
next
  case (generates mu co pid request actor)
  then show ?case by (simp add: multi_true_def generate_keyed)
qed (simp_all add: evaluate_true select_true)

lemma multi_starts_true: "multi_true (MultiCandidateEvolutionEngine (SelfEvolutionEngine readings))"
  by (simp add: multi_true_def MultiCandidateEvolutionEngine_def SelfEvolutionEngine_def candidates_keyed_def dict_get_def)

lemma multi_run_true: "(multi_step policy honest)\<^sup>*\<^sup>* (MultiCandidateEvolutionEngine (SelfEvolutionEngine readings)) mu \<Longrightarrow> multi_true mu"
  by (induction rule: rtranclp_induct) (auto intro: multi_step_true multi_starts_true)

section \<open>Passing evidence is earned\<close>

lemma collect_Inr:
  assumes "collect_promotion_evidence v base (Some get) pid cid = Inr ev"
  obtains p c es x where "get_proposal pid base = Inr p" "dict_get (se_candidates base) cid = Some c" "get pid = Inr es"
    "ev = collected_evidence p c (List.find (\<lambda>r. ce_candidate_id r = cid) es) (evaluated_simulation base (List.find (\<lambda>r. ce_candidate_id r = cid) es)) x pid cid"
  using assms by (auto simp: collect_promotion_evidence_def Let_def split: sum.splits option.splits if_splits)

lemma true_evaluation_found:
  assumes "multi_true mu" "get_evaluations pid mu = Inr es" "List.find (\<lambda>r. ce_candidate_id r = cid) es = Some e"
  shows "e \<in> set (dict_values (proposal_evaluations pid mu)) \<and> true_evaluation cid e"
proof -
  have es: "es = dict_values (proposal_evaluations pid mu)" using assms(2) by (simp add: get_evaluations_def split: sum.splits)
  have e: "e \<in> set es" "ce_candidate_id e = cid" using assms(3) by (auto simp: find_Some_iff)
  then obtain k where k: "(k, e) \<in> set (proposal_evaluations pid mu)" by (auto simp: es dict_values_def)
  have "true_evaluations (proposal_evaluations pid mu)"
    using assms(1) by (cases "dict_get (mu_evaluations mu) pid") (auto simp: proposal_evaluations_def multi_true_def true_evaluations_def)
  then have "true_evaluation k e" using k by (auto simp: true_evaluations_def)
  then show ?thesis using e es by (auto simp: true_evaluation_def)
qed

text \<open>C22. On every run of the multi-candidate engine with collaborators that report on the candidate they are given, evidence that the collector
  takes for a candidate and that meets the interlocks is about that candidate: it exists with the content named, was selected, and
  its own verification is valid and its own evaluation passed, as far as the safety policy asks for each.\<close>

theorem passing_evidence_is_earned:
  assumes "(multi_step policy honest)\<^sup>*\<^sup>* (MultiCandidateEvolutionEngine (SelfEvolutionEngine readings)) mu"
    "collect_promotion_evidence v (mu_base mu) (Some (\<lambda>pid. get_evaluations pid mu)) pid cid = Inr ev" "interlocks_hold safety ev"
  shows "\<exists>p c. dict_get (se_proposals (mu_base mu)) pid = Some p \<and> dict_get (se_candidates (mu_base mu)) cid = Some c \<and> ca_id c = cid
    \<and> ev_candidate_id ev = cid \<and> ev_isr_content_hash ev = ca_content_hash c
    \<and> (sp_require_pareto_selection safety \<longrightarrow> pr_selected_candidate_id p = Some cid)
    \<and> (sp_require_verification_valid safety \<longrightarrow> (\<exists>e \<in> set (dict_values (proposal_evaluations pid mu)). \<exists>ver.
         ce_verification e = Some ver \<and> vr_valid ver \<and> vr_candidate_id ver = cid))
    \<and> (sp_require_fitness_passed safety \<longrightarrow> (\<exists>e \<in> set (dict_values (proposal_evaluations pid mu)). \<exists>f.
         ce_fitness e = Some f \<and> fe_passed f \<and> fe_candidate_id f = cid))"
proof -
  have true: "multi_true mu" by (rule multi_run_true[OF assms(1)])
  obtain p c es x where got: "get_proposal pid (mu_base mu) = Inr p" "dict_get (se_candidates (mu_base mu)) cid = Some c" "get_evaluations pid mu = Inr es"
    and ev: "ev = collected_evidence p c (List.find (\<lambda>r. ce_candidate_id r = cid) es)
      (evaluated_simulation (mu_base mu) (List.find (\<lambda>r. ce_candidate_id r = cid) es)) x pid cid"
    by (rule collect_Inr[OF assms(2)])
  have id: "ca_id c = cid" using true got(2) by (simp add: multi_true_def candidates_keyed_def)
  have p: "dict_get (se_proposals (mu_base mu)) pid = Some p" using got(1) by (auto simp: get_proposal_def split: option.splits)
  have ver: "\<exists>e \<in> set (dict_values (proposal_evaluations pid mu)). \<exists>ver. ce_verification e = Some ver \<and> vr_valid ver \<and> vr_candidate_id ver = cid"
    if "ev_verification_valid ev = Some True"
  proof (cases "List.find (\<lambda>r. ce_candidate_id r = cid) es")
    case (Some e)
    then show ?thesis using that true_evaluation_found[OF true got(3) Some] by (auto simp: ev collected_evidence_def Let_def true_evaluation_def)
  qed (use that in \<open>simp add: ev collected_evidence_def\<close>)
  have fit: "\<exists>e \<in> set (dict_values (proposal_evaluations pid mu)). \<exists>f. ce_fitness e = Some f \<and> fe_passed f \<and> fe_candidate_id f = cid"
    if "ev_fitness_passed ev = Some True"
  proof (cases "List.find (\<lambda>r. ce_candidate_id r = cid) es")
    case (Some e)
    then show ?thesis using that true_evaluation_found[OF true got(3) Some] by (auto simp: ev collected_evidence_def Let_def true_evaluation_def)
  qed (use that in \<open>simp add: ev collected_evidence_def\<close>)
  have "ev_candidate_id ev = cid" "ev_isr_content_hash ev = ca_content_hash c" "ev_pareto_selected ev = (pr_selected_candidate_id p = Some cid)"
    by (simp_all add: ev collected_evidence_def Let_def)
  then show ?thesis using p got(2) id ver fit assms(3) by (auto simp: interlocks_hold_def)
qed

definition unselected_policy :: SafetyInterlockPolicy where
  "unselected_policy = default_safety_policy\<lparr>sp_require_pareto_selection := False\<rparr>"

definition sample_multi :: multi_evolution where
  "sample_multi = snd (evaluate_candidates sample_collaborators sample_id ''ada'' False (MultiCandidateEvolutionEngine sample_mutated))"

lemma sample_multi_reached:
  "(multi_step default_evolution_policy honest)\<^sup>*\<^sup>* (MultiCandidateEvolutionEngine (SelfEvolutionEngine (\<lambda>_. ''t''))) sample_multi"
proof -
  let ?m = "\<lambda>st. MultiCandidateEvolutionEngine st"
  have base: "multi_step policy honest (?m st) (?m st')" if "base_step policy honest st st'" for policy st st'
    using base_call[of policy honest "?m st" st'] that by (simp add: MultiCandidateEvolutionEngine_def)
  have "multi_step default_evolution_policy honest (?m (SelfEvolutionEngine (\<lambda>_. ''t''))) (?m sample_proposed)"
    unfolding sample_proposed_def by (rule base) (rule proposes)
  moreover have "multi_step default_evolution_policy honest (?m sample_proposed) (?m sample_mutated)"
    unfolding sample_mutated_def by (rule base) (rule moves[OF mutates])
  moreover have "multi_step default_evolution_policy honest (?m sample_mutated) sample_multi"
    unfolding sample_multi_def by (rule tries[where trusted = honest, OF sample_honest])
  ultimately show ?thesis by (meson rtranclp.rtrancl_into_rtrancl rtranclp.rtrancl_refl)
qed

lemma sample_multi_has:
  "\<exists>p c e s. se_proposals (mu_base sample_multi) = [(sample_id, p)] \<and> se_candidates (mu_base sample_multi) = [(ca_id c, c)]
     \<and> dict_get (se_simulations (mu_base sample_multi)) ''s1'' = Some s \<and> sr_status s = SIM_PASSED \<and> sr_metrics s = []
     \<and> proposal_evaluations sample_id sample_multi = [(ca_id c, e)] \<and> ce_candidate_id e = ca_id c \<and> ce_simulation_id e = Some ''s1''
     \<and> (\<exists>v f. ce_verification e = Some v \<and> vr_valid v \<and> vr_issues v = [] \<and> ce_fitness e = Some f \<and> fe_passed f \<and> fe_constraints f = [])"
proof -
  obtain p c where "se_proposals sample_mutated = [(sample_id, p)]" "se_candidates sample_mutated = [(ca_id c, c)]" "se_simulations sample_mutated = []"
    "pr_candidate_ids p = [ca_id c]" "pr_simulation_ids p = []" using sample_mutated_has by blast
  then show ?thesis
    by (simp add: sample_multi_def evaluate_candidates_def MultiCandidateEvolutionEngine_def get_proposal_def proposal_evaluations_def try_candidate_def
        sample_collaborators_def update_proposal_def note_simulation_def put_proposal_def store_simulation_def iso_now_def evaluation_of_def close_operation_def
        record_event_def dict_values_def dict_in_def dict_get_def dict_set_def Let_def split_beta)
qed

lemma passing_evidence_is_earned_witness:
  "\<exists>cid ev. collect_promotion_evidence plain_validators (mu_base sample_multi) (Some (\<lambda>pid. get_evaluations pid sample_multi)) sample_id cid = Inr ev
     \<and> (\<exists>e \<in> set (dict_values (proposal_evaluations sample_id sample_multi)). \<exists>ver. ce_verification e = Some ver \<and> vr_valid ver \<and> vr_candidate_id ver = cid)"
proof -
  obtain p c e s v f where has: "se_proposals (mu_base sample_multi) = [(sample_id, p)]" "se_candidates (mu_base sample_multi) = [(ca_id c, c)]"
    "dict_get (se_simulations (mu_base sample_multi)) ''s1'' = Some s" "sr_status s = SIM_PASSED" "sr_metrics s = []"
    "proposal_evaluations sample_id sample_multi = [(ca_id c, e)]" "ce_candidate_id e = ca_id c" "ce_simulation_id e = Some ''s1''"
    "ce_verification e = Some v" "vr_valid v" "vr_issues v = []" "ce_fitness e = Some f" "fe_passed f" "fe_constraints f = []"
    using sample_multi_has by blast
  let ?ev = "collected_evidence p c (Some e) (Some s) None sample_id (ca_id c)"
  have got: "collect_promotion_evidence plain_validators (mu_base sample_multi) (Some (\<lambda>pid. get_evaluations pid sample_multi)) sample_id (ca_id c) = Inr ?ev"
    using has by (simp add: collect_promotion_evidence_def get_evaluations_def get_proposal_def dict_values_def evaluated_simulation_def get_or_def dict_get_def)
  have "interlocks_hold unselected_policy ?ev"
    using has by (simp add: interlocks_hold_def unselected_policy_def default_safety_policy_def collected_evidence_def Let_def present_def
        promotion_rollback_plan_def too_complex_def removes_public_api_def dict_get_def)
  moreover have "sp_require_verification_valid unselected_policy" by (simp add: unselected_policy_def default_safety_policy_def)
  ultimately show ?thesis using passing_evidence_is_earned[OF sample_multi_reached got] got by blast
qed

end
