(* ===== verification/Evo_Audit.thy ===== *)
theory Evo_Audit
  imports Evo_Interlock "HOL-Library.Sublist"
begin

text \<open>
  The audit trail of promotions and the audited engine (\<^verbatim>\<open>evolution/promotion_audit.py\<close>): one hash chain per request, its verification, and
  what the trail says about the requests on every run.
\<close>

section \<open>Trail\<close>

record PromotionAuditEvent =
  au_id :: string
  au_promotion_request_id :: string
  au_event_type :: string
  au_actor_id :: string
  au_details :: payload
  au_timestamp :: string
  au_previous_event_hash :: string
  au_event_hash :: string

record PromotionAuditVerificationReport =
  av_promotion_request_id :: string
  av_valid :: bool
  av_event_count :: nat
  av_first_invalid_event_id :: "string option"

record audit_trail =
  at_events_by_request :: "(string, PromotionAuditEvent list) dict"
  at_last_hash_by_request :: "(string, string) dict"

definition PromotionAuditTrail :: audit_trail where
  "PromotionAuditTrail = \<lparr>at_events_by_request = [], at_last_hash_by_request = []\<rparr>"

definition audit_event_id :: "string \<Rightarrow> string \<Rightarrow> string \<Rightarrow> string \<Rightarrow> string" where
  "audit_event_id rid typ ts previous = deterministic_id ''promotion_audit_event''
     [(''promotion_request_id'', PStr rid), (''event_type'', PStr typ), (''timestamp'', PStr ts), (''previous_event_hash'', PStr previous)]"

definition audit_event_hash :: "string \<Rightarrow> string \<Rightarrow> string \<Rightarrow> string \<Rightarrow> payload \<Rightarrow> string \<Rightarrow> string \<Rightarrow> string" where
  "audit_event_hash eid rid typ actor details ts previous = sha256_hexdigest (canonical_json (PDict
     [(''event_id'', PStr eid), (''promotion_request_id'', PStr rid), (''event_type'', PStr typ), (''actor_id'', PStr actor),
      (''details'', PDict details), (''timestamp'', PStr ts), (''previous_event_hash'', PStr previous)]))"

definition new_promotion_audit_event :: "string \<Rightarrow> string \<Rightarrow> string \<Rightarrow> payload \<Rightarrow> string \<Rightarrow> string \<Rightarrow> PromotionAuditEvent" where
  "new_promotion_audit_event rid typ actor details ts previous =
     (let eid = audit_event_id rid typ ts previous in
      \<lparr>au_id = eid, au_promotion_request_id = rid, au_event_type = typ, au_actor_id = actor, au_details = details, au_timestamp = ts,
       au_previous_event_hash = previous, au_event_hash = audit_event_hash eid rid typ actor details ts previous\<rparr>)"

definition audit_list_events :: "string \<Rightarrow> audit_trail \<Rightarrow> PromotionAuditEvent list" where
  "audit_list_events rid trail = (case dict_get (at_events_by_request trail) rid of None \<Rightarrow> [] | Some es \<Rightarrow> es)"

definition last_audit_hash :: "string \<Rightarrow> audit_trail \<Rightarrow> string" where
  "last_audit_hash rid trail = (case dict_get (at_last_hash_by_request trail) rid of None \<Rightarrow> ''genesis'' | Some h \<Rightarrow> h)"

definition audit_record :: "string \<Rightarrow> string \<Rightarrow> string \<Rightarrow> payload option \<Rightarrow> string \<Rightarrow> audit_trail \<Rightarrow> PromotionAuditEvent \<times> audit_trail" where
  "audit_record rid typ actor details ts trail =
     (let e = new_promotion_audit_event rid typ actor (case details of None \<Rightarrow> [] | Some d \<Rightarrow> d) ts (last_audit_hash rid trail) in
      (e, \<lparr>at_events_by_request = dict_set rid (audit_list_events rid trail @ [e]) (at_events_by_request trail),
           at_last_hash_by_request = dict_set rid (au_event_hash e) (at_last_hash_by_request trail)\<rparr>))"

definition audit_hash_of :: "PromotionAuditEvent \<Rightarrow> string" where
  "audit_hash_of e = audit_event_hash (au_id e) (au_promotion_request_id e) (au_event_type e) (au_actor_id e) (au_details e) (au_timestamp e)
     (au_previous_event_hash e)"

text \<open>The loop of \<open>verify\<close>: the first event that breaks the chain.\<close>

fun first_invalid :: "string \<Rightarrow> PromotionAuditEvent list \<Rightarrow> PromotionAuditEvent option" where
  "first_invalid previous [] = None"
| "first_invalid previous (e # es) =
     (if au_previous_event_hash e \<noteq> previous then Some e
      else if au_event_hash e \<noteq> audit_hash_of e then Some e
      else first_invalid (au_event_hash e) es)"

definition audit_verify :: "string \<Rightarrow> audit_trail \<Rightarrow> PromotionAuditVerificationReport" where
  "audit_verify rid trail =
     (let es = audit_list_events rid trail in
      case first_invalid ''genesis'' es of
        Some e \<Rightarrow> \<lparr>av_promotion_request_id = rid, av_valid = False, av_event_count = length es, av_first_invalid_event_id = Some (au_id e)\<rparr>
      | None \<Rightarrow> \<lparr>av_promotion_request_id = rid, av_valid = True, av_event_count = length es, av_first_invalid_event_id = None\<rparr>)"

definition reconstruct :: "string \<Rightarrow> audit_trail \<Rightarrow> PromotionAuditEvent list" where
  "reconstruct rid trail = audit_list_events rid trail"

section \<open>The audited engine\<close>

record audited_engine =
  ap_inner :: promotion_control
  ap_trail :: audit_trail

definition AuditedPromotionEngine :: "promotion_control \<Rightarrow> audit_trail \<Rightarrow> audited_engine" where
  "AuditedPromotionEngine inner trail = \<lparr>ap_inner = inner, ap_trail = trail\<rparr>"

type_synonym 'a audited = "audited_engine \<Rightarrow> (promotion_error + 'a) \<times> audited_engine"

definition audit_note :: "string \<Rightarrow> string \<Rightarrow> string \<Rightarrow> payload \<Rightarrow> audited_engine \<Rightarrow> audited_engine" where
  "audit_note rid typ actor details ap =
     (case pc_now (ap_inner ap) of (ts, inner) \<Rightarrow> \<lparr>ap_inner = inner, ap_trail = snd (audit_record rid typ actor (Some details) ts (ap_trail ap))\<rparr>)"

definition request_details :: "PromotionRequest \<Rightarrow> payload" where
  "request_details r =
     [(''proposal_id'', PStr (rq_proposal_id r)), (''candidate_id'', PStr (rq_candidate_id r)), (''environment'', PStr (rq_environment r)),
      (''status'', PStr (request_status_value (rq_status r)))]
     @ (case rq_governance_decision r of None \<Rightarrow> [] | Some d \<Rightarrow> [(''governance_decision'', PStr (promotion_answer_value (pd_decision d)))])
     @ (case rq_safety_report r of None \<Rightarrow> [] | Some s \<Rightarrow> [(''safety_passed'', PBool (sf_passed s))])"

definition state_event_type :: "PromotionRequestStatus \<Rightarrow> string" where
  "state_event_type s = ''PROMOTION_'' @ request_status_value s"

definition record_request_state :: "PromotionRequest \<Rightarrow> string \<Rightarrow> audited_engine \<Rightarrow> audited_engine" where
  "record_request_state r actor ap = audit_note (rq_id r) (state_event_type (rq_status r)) actor (request_details r) ap"

definition audited_operation :: "string \<Rightarrow> string \<Rightarrow> string \<Rightarrow> PromotionRequest promo \<Rightarrow> PromotionRequest audited" where
  "audited_operation rid actor name operation ap =
     (case operation (ap_inner ap) of (res, inner) \<Rightarrow>
        (case res of
           Inl exn \<Rightarrow> (Inl exn, audit_note rid ''PROMOTION_OPERATION_FAILED'' actor
             [(''operation'', PStr name), (''error'', PStr (promotion_error_text exn))] (ap\<lparr>ap_inner := inner\<rparr>))
         | Inr r \<Rightarrow> (Inr r, record_request_state r actor (ap\<lparr>ap_inner := inner\<rparr>))))"

definition audited_create ::
  "(string \<Rightarrow> string \<Rightarrow> promotion_error + EvolutionEvidence) option \<Rightarrow> gateway option \<Rightarrow> string \<Rightarrow> string \<Rightarrow> string \<Rightarrow> string
   \<Rightarrow> EvolutionEvidence option \<Rightarrow> PromotionRequest audited" where
  "audited_create collector gw pid cid environment actor evidence ap =
     (case create_promotion_request collector gw pid cid environment actor evidence (ap_inner ap) of (res, inner) \<Rightarrow>
        (case res of
           Inl exn \<Rightarrow> (Inl exn, audit_note ''unknown'' ''PROMOTION_OPERATION_FAILED'' actor
             [(''operation'', PStr ''create_promotion_request''), (''proposal_id'', PStr pid), (''candidate_id'', PStr cid),
              (''error'', PStr (promotion_error_text exn))] (ap\<lparr>ap_inner := inner\<rparr>))
         | Inr r \<Rightarrow> (Inr r, record_request_state r actor (ap\<lparr>ap_inner := inner\<rparr>))))"

definition audited_submit :: "gateway option \<Rightarrow> string \<Rightarrow> string \<Rightarrow> PromotionRequest audited" where
  "audited_submit gw rid actor = audited_operation rid actor ''submit_governance'' (submit_governance gw rid actor)"

definition audited_approve :: "string \<Rightarrow> string \<Rightarrow> string \<Rightarrow> PromotionRequest audited" where
  "audited_approve rid approver comments = audited_operation rid approver ''approve'' (approve_request rid approver comments)"

definition audited_promote :: "string \<Rightarrow> string \<Rightarrow> PromotionRequest audited" where
  "audited_promote rid actor = audited_operation rid actor ''promote'' (promote_request rid actor)"

definition audited_rollback :: "string \<Rightarrow> string \<Rightarrow> string \<Rightarrow> PromotionRequest audited" where
  "audited_rollback rid actor reason = audited_operation rid actor ''rollback'' (rollback_request rid actor reason)"

section \<open>Chains\<close>

interpretation audits: hash_chain au_previous_event_hash au_event_hash audit_hash_of "\<lambda>e. e\<lparr>au_event_hash := []\<rparr>"
proof
  fix e :: PromotionAuditEvent
  show "audit_hash_of e \<noteq> ''genesis''"
  proof
    assume "audit_hash_of e = ''genesis''"
    then have "length (audit_hash_of e) = 7" by simp
    then show False by (simp add: audit_hash_of_def audit_event_hash_def)
  qed
next
  fix e f :: PromotionAuditEvent
  assume "au_event_hash e = au_event_hash f" "e\<lparr>au_event_hash := []\<rparr> = f\<lparr>au_event_hash := []\<rparr>"
  then show "e = f" by (cases e; cases f) simp
qed

definition audit_end :: "PromotionAuditEvent list \<Rightarrow> string" where
  "audit_end es = (if es = [] then ''genesis'' else au_event_hash (last es))"

lemma first_invalid_iff: "first_invalid p es = None \<longleftrightarrow> audits.chain_from p es"
  by (induction es arbitrary: p) auto

lemma audit_end_of: "audit_end es = audits.end_of es"
  by (simp add: audit_end_def audits.end_of_def)

definition trail_ok :: "audit_trail \<Rightarrow> bool" where
  "trail_ok trail \<longleftrightarrow> (\<forall>rid. first_invalid ''genesis'' (audit_list_events rid trail) = None \<and> last_audit_hash rid trail = audit_end (audit_list_events rid trail))"

lemma audit_record_events:
  "audit_list_events rid' (snd (audit_record rid et actor details ts trail)) =
     (if rid' = rid then audit_list_events rid trail @ [fst (audit_record rid et actor details ts trail)] else audit_list_events rid' trail)"
  by (simp add: audit_record_def Let_def audit_list_events_def dict.lookup_put)

lemma audit_record_ok: "trail_ok trail \<Longrightarrow> trail_ok (snd (audit_record rid et actor details ts trail))"
proof -
  assume ok: "trail_ok trail"
  let ?e = "fst (audit_record rid et actor details ts trail)"
  have "last_audit_hash rid' (snd (audit_record rid et actor details ts trail)) = (if rid' = rid then au_event_hash ?e else last_audit_hash rid' trail)" for rid'
    by (simp add: audit_record_def Let_def last_audit_hash_def dict.lookup_put)
  moreover have "au_previous_event_hash ?e = audits.end_of (audit_list_events rid trail)" "au_event_hash ?e = audit_hash_of ?e"
    using ok by (simp_all add: audit_record_def Let_def new_promotion_audit_event_def audit_hash_of_def trail_ok_def audit_end_of)
  ultimately show ?thesis using ok
    by (auto simp: trail_ok_def audit_record_events first_invalid_iff audit_end_of audits.chain_from_snoc)
qed

section \<open>Runs\<close>

inductive audited_step :: "audited_engine \<Rightarrow> audited_engine \<Rightarrow> bool" where
  audited_creates: "audited_step ap (snd (audited_create collector gw pid cid environment actor evidence ap))"
| audited_submits: "audited_step ap (snd (audited_submit gw rid actor ap))"
| audited_approves: "audited_step ap (snd (audited_approve rid approver comments ap))"
| audited_promotes: "audited_step ap (snd (audited_promote rid actor ap))"
| audited_rolls_back: "audited_step ap (snd (audited_rollback rid actor reason ap))"

text \<open>What an audited call does: an inner call, then one event.\<close>

definition noted :: "audited_engine \<Rightarrow> audited_engine \<Rightarrow> bool" where
  "noted ap ap' \<longleftrightarrow> (\<exists>inner rid et actor details. ap' = audit_note rid et actor details (ap\<lparr>ap_inner := inner\<rparr>))"

lemma notedI: "noted ap (audit_note rid et actor details (ap\<lparr>ap_inner := inner\<rparr>))"
  unfolding noted_def by blast

lemma audited_operation_noted: "noted ap (snd (audited_operation rid actor name operation ap))"
  by (auto simp: audited_operation_def record_request_state_def split_beta notedI split: sum.splits)

lemma audited_step_noted: "audited_step ap ap' \<Longrightarrow> noted ap ap'"
  by (erule audited_step.cases)
     (auto simp: audited_create_def audited_submit_def audited_approve_def audited_promote_def audited_rollback_def audited_operation_noted
       record_request_state_def split_beta notedI split: sum.splits)

lemma audit_note_trail [simp]:
  "ap_trail (audit_note rid et actor details ap) = snd (audit_record rid et actor (Some details) (fst (pc_now (ap_inner ap))) (ap_trail ap))"
  "ap_inner (audit_note rid et actor details ap) = snd (pc_now (ap_inner ap))"
  by (simp_all add: audit_note_def split_beta)

definition trail_grows :: "audit_trail \<Rightarrow> audit_trail \<Rightarrow> bool" where
  "trail_grows t t' \<longleftrightarrow> (trail_ok t \<longrightarrow> trail_ok t') \<and> (\<forall>rid. prefix (audit_list_events rid t) (audit_list_events rid t'))"

lemma audited_step_grows: "audited_step ap ap' \<Longrightarrow> trail_grows (ap_trail ap) (ap_trail ap')"
  by (auto dest!: audited_step_noted simp: noted_def trail_grows_def audit_record_ok audit_record_events)

lemma audited_run_grows: "audited_step\<^sup>*\<^sup>* ap ap' \<Longrightarrow> trail_grows (ap_trail ap) (ap_trail ap')"
proof (induction rule: rtranclp_induct)
  case (step y z)
  then show ?case using audited_step_grows[OF step.hyps(2)] unfolding trail_grows_def by (meson prefix_order.trans)
qed (simp add: trail_grows_def)

lemma empty_trail_ok: "trail_ok PromotionAuditTrail"
  by (simp add: trail_ok_def PromotionAuditTrail_def audit_list_events_def last_audit_hash_def audit_end_def dict_get_def)

text \<open>C24. On every run of the audited engine the trail of every request passes \<open>verify\<close>, with all its events counted, and what is recorded is
  never changed or removed later.\<close>

theorem audit_trail_verifies:
  assumes "audited_step\<^sup>*\<^sup>* (AuditedPromotionEngine inner PromotionAuditTrail) ap" "audited_step\<^sup>*\<^sup>* ap ap'"
  shows "audit_verify rid (ap_trail ap') = \<lparr>av_promotion_request_id = rid, av_valid = True,
      av_event_count = length (audit_list_events rid (ap_trail ap')), av_first_invalid_event_id = None\<rparr>
    \<and> prefix (audit_list_events rid (ap_trail ap)) (audit_list_events rid (ap_trail ap'))"
proof -
  have "trail_ok (ap_trail ap')" using audited_run_grows[OF assms(1)] audited_run_grows[OF assms(2)] empty_trail_ok
    by (simp add: trail_grows_def AuditedPromotionEngine_def)
  then show ?thesis using audited_run_grows[OF assms(2)] by (simp add: audit_verify_def Let_def trail_ok_def trail_grows_def)
qed

definition sample_audited :: audited_engine where
  "sample_audited = snd (audited_create None (Some (static_gateway PA_ALLOW ''ok'')) ''p'' ''c'' ''production'' ''ada'' (Some sample_evidence)
     (AuditedPromotionEngine sample_control PromotionAuditTrail))"

lemma sample_audited_reached: "audited_step\<^sup>*\<^sup>* (AuditedPromotionEngine sample_control PromotionAuditTrail) sample_audited"
  unfolding sample_audited_def by (rule r_into_rtranclp) (rule audited_creates)

lemma audit_trail_verifies_witness:
  "av_valid (audit_verify ''unknown'' (ap_trail (snd (audited_promote sample_request_id ''ada'' sample_audited))))
     \<and> prefix (audit_list_events sample_request_id (ap_trail sample_audited))
         (audit_list_events sample_request_id (ap_trail (snd (audited_promote sample_request_id ''ada'' sample_audited))))"
proof -
  have "audited_step\<^sup>*\<^sup>* sample_audited (snd (audited_promote sample_request_id ''ada'' sample_audited))"
    by (rule r_into_rtranclp) (rule audited_promotes)
  from audit_trail_verifies[OF sample_audited_reached this] show ?thesis by simp
qed

section \<open>The trail and the requests\<close>

text \<open>What a call leaves in the requests: with a result, that result under its identifier and nothing else changed.\<close>

definition stores :: "promotion_control \<Rightarrow> (promotion_error + PromotionRequest) \<times> promotion_control \<Rightarrow> bool" where
  "stores st out \<longleftrightarrow> (\<forall>r. fst out = Inr r \<longrightarrow> (\<forall>rid. dict_get (pc_requests (snd out)) rid = (if rid = rq_id r then Some r else dict_get (pc_requests st) rid)))
     \<and> (\<forall>exn. fst out = Inl exn \<longrightarrow> pc_requests (snd out) = pc_requests st)"

lemma stores_Inl: "stores st (Inl exn, st)"
  by (simp add: stores_def)

lemma finish_request_stores: "(\<And>rid. rid \<noteq> rq_id r \<Longrightarrow> dict_get (pc_requests st1) rid = dict_get (pc_requests st) rid) \<Longrightarrow> stores st (finish_request r et actor st1)"
  by (auto simp: stores_def finish_request_def touch_def split_beta dict.lookup_put)

lemma decide_request_id [simp]: "rq_id (decide_request policy d r) = rq_id r"
  by (simp add: decide_request_def Let_def split: PromotionAnswer.splits)

lemma submit_stores: "stores st (submit_governance gw rid actor st)"
  by (auto simp: submit_governance_def stores_Inl intro!: finish_request_stores split: sum.splits)

lemma operations_store:
  "stores st (approve_request rid approver comments st)" "stores st (promote_request rid actor st)" "stores st (rollback_request rid actor reason st)"
  by (auto simp: approve_request_def promote_request_def rollback_request_def Let_def split_beta stores_Inl intro!: finish_request_stores split: sum.splits)

text \<open>A call that creates: as above, but when the gateway raises, the request stays behind with its safety checks passed.\<close>

definition creates_stored :: "promotion_control \<Rightarrow> (promotion_error + PromotionRequest) \<times> promotion_control \<Rightarrow> bool" where
  "creates_stored st out \<longleftrightarrow>
     (\<forall>r. fst out = Inr r \<longrightarrow> (\<forall>rid. dict_get (pc_requests (snd out)) rid = (if rid = rq_id r then Some r else dict_get (pc_requests st) rid)))
     \<and> (\<forall>exn. fst out = Inl exn \<longrightarrow> (\<forall>rid. dict_get (pc_requests (snd out)) rid = dict_get (pc_requests st) rid
          \<or> (\<exists>r. dict_get (pc_requests (snd out)) rid = Some r \<and> rq_id r = rid \<and> rq_status r = R_SAFETY_CHECKS_PASSED)))"

lemma stores_created:
  assumes "stores st1 out" and q: "\<And>rid. dict_get (pc_requests st1) rid = (if rid = rq_id q then Some q else dict_get (pc_requests st) rid)"
    and status: "rq_status q = R_SAFETY_CHECKS_PASSED" and same: "\<And>r. fst out = Inr r \<Longrightarrow> rq_id r = rq_id q"
  shows "creates_stored st out"
proof (cases "fst out")
  case (Inl exn)
  then have "pc_requests (snd out) = pc_requests st1" using assms(1) by (simp add: stores_def)
  then have "dict_get (pc_requests (snd out)) rid = (if rid = rq_id q then Some q else dict_get (pc_requests st) rid)" for rid by (simp add: q)
  then show ?thesis using Inl status by (simp add: creates_stored_def)
next
  case (Inr r)
  then have "dict_get (pc_requests (snd out)) rid = (if rid = rq_id r then Some r else dict_get (pc_requests st1) rid)" for rid
    using assms(1) by (simp add: stores_def)
  then show ?thesis using Inr same[OF Inr] by (simp add: creates_stored_def q)
qed

lemma finish_request_id: "fst (finish_request r et actor st) = Inr r' \<Longrightarrow> rq_id r' = rq_id r"
  by (auto simp: finish_request_def touch_def split_beta)

lemma submit_result_id:
  "find_request rid st = Inr r \<Longrightarrow> fst (submit_governance gw rid actor st) = Inr r' \<Longrightarrow> rq_id r' = rq_id r"
  by (auto simp: submit_governance_def dest: finish_request_id split: sum.splits if_splits)

lemma finish_stores_created:
  "(\<And>rid. rid \<noteq> rq_id r \<Longrightarrow> dict_get (pc_requests st1) rid = dict_get (pc_requests st) rid) \<Longrightarrow> creates_stored st (finish_request r et actor st1)"
  by (auto simp: creates_stored_def finish_request_def touch_def split_beta dict.lookup_put)

lemma after_safety_stores:
  assumes "\<And>rid. rid \<noteq> rq_id r \<Longrightarrow> dict_get (pc_requests st1) rid = dict_get (pc_requests st) rid"
  shows "creates_stored st (after_safety gw r actor st1)"
proof -
  let ?q = "r\<lparr>rq_status := R_SAFETY_CHECKS_PASSED, rq_updated_at := fst (pc_now st1)\<rparr>"
  let ?st2 = "put_request ?q (snd (pc_now st1))"
  have touched: "touch (r\<lparr>rq_status := R_SAFETY_CHECKS_PASSED\<rparr>) st1 = (?q, ?st2)" by (simp add: touch_def split_beta)
  have q: "dict_get (pc_requests ?st2) rid = (if rid = rq_id ?q then Some ?q else dict_get (pc_requests st) rid)" for rid
    using assms by (simp add: dict.lookup_put)
  have found: "find_request (rq_id r) ?st2 = Inr ?q" using q[of "rq_id r"] by (simp add: find_request_def)
  have "creates_stored st (submit_governance gw (rq_id r) actor ?st2)"
    by (rule stores_created[OF submit_stores q]) (use submit_result_id[OF found] in simp_all)
  then show ?thesis using assms by (auto simp: after_safety_def touched dict.lookup_put intro!: finish_stores_created)
qed

lemma create_stores: "creates_stored st (create_promotion_request collector gw pid cid environment actor evidence st)"
proof (cases "given_evidence collector pid cid evidence")
  case (Inr ev)
  let ?r = "new_request pid cid environment actor ev (fst (pc_now st))"
  let ?st2 = "put_request ?r (snd (pc_now st))"
  have st2: "rid \<noteq> rq_id ?r \<Longrightarrow> dict_get (pc_requests ?st2) rid = dict_get (pc_requests st) rid" for rid by (simp add: dict.lookup_put)
  have go: "creates_stored st (after_safety gw r actor st')" if "rq_id r = rq_id ?r" "pc_requests st' = pc_requests ?st2" for r st'
    by (rule after_safety_stores) (use that st2 in simp)
  have failed: "creates_stored st (finish_request r et actor st')" if "rq_id r = rq_id ?r" "pc_requests st' = pc_requests ?st2" for r et st'
    by (rule finish_stores_created) (use that st2 in simp)
  show ?thesis using Inr go failed by (simp add: create_promotion_request_def Let_def split_beta)
qed (simp add: create_promotion_request_def creates_stored_def)

text \<open>The last event of a request that is not a failed operation.\<close>

definition last_state_event :: "string \<Rightarrow> audit_trail \<Rightarrow> PromotionAuditEvent option" where
  "last_state_event rid trail =
     (let es = filter (\<lambda>e. au_event_type e \<noteq> ''PROMOTION_OPERATION_FAILED'') (audit_list_events rid trail) in
      if es = [] then None else Some (last es))"

definition reports_request :: "audit_trail \<Rightarrow> PromotionRequest \<Rightarrow> bool" where
  "reports_request trail r \<longleftrightarrow> (case last_state_event (rq_id r) trail of None \<Rightarrow> False
     | Some e \<Rightarrow> au_event_type e = state_event_type (rq_status r) \<and> au_details e = request_details r)"

definition trail_matches :: "audited_engine \<Rightarrow> bool" where
  "trail_matches ap \<longleftrightarrow> (\<forall>rid r. dict_get (pc_requests (ap_inner ap)) rid = Some r \<longrightarrow>
     rq_id r = rid \<and> (rq_status r = R_SAFETY_CHECKS_PASSED \<or> reports_request (ap_trail ap) r))"

lemma status_event_not_failed: "state_event_type s \<noteq> ''PROMOTION_OPERATION_FAILED''"
  by (cases s) (simp_all add: state_event_type_def)

lemma audit_record_fields [simp]:
  "au_event_type (fst (audit_record rid et actor details ts trail)) = et"
  "au_details (fst (audit_record rid et actor details ts trail)) = (case details of None \<Rightarrow> [] | Some d \<Rightarrow> d)"
  by (simp_all add: audit_record_def Let_def new_promotion_audit_event_def)

lemma last_state_event_record:
  "last_state_event rid' (snd (audit_record rid et actor details ts trail)) =
     (if rid' = rid \<and> et \<noteq> ''PROMOTION_OPERATION_FAILED'' then Some (fst (audit_record rid et actor details ts trail)) else last_state_event rid' trail)"
  by (simp add: last_state_event_def Let_def audit_record_events)

lemma reports_failed [simp]:
  "reports_request (snd (audit_record rid ''PROMOTION_OPERATION_FAILED'' actor details ts trail)) r = reports_request trail r"
  by (simp add: reports_request_def last_state_event_record)

lemma reports_recorded:
  "reports_request (snd (audit_record (rq_id q) (state_event_type (rq_status q)) actor (Some (request_details q)) ts trail)) r
     = (if rq_id r = rq_id q then state_event_type (rq_status r) = state_event_type (rq_status q) \<and> request_details r = request_details q
        else reports_request trail r)"
  using status_event_not_failed[of "rq_status q"] by (auto simp: reports_request_def last_state_event_record)

lemma trail_matches_state:
  assumes "trail_matches ap" "\<And>rid. dict_get (pc_requests inner) rid = (if rid = rq_id r then Some r else dict_get (pc_requests (ap_inner ap)) rid)"
  shows "trail_matches (record_request_state r actor (ap\<lparr>ap_inner := inner\<rparr>))"
  using assms by (auto simp: trail_matches_def record_request_state_def reports_recorded)

lemma trail_matches_failed:
  assumes "trail_matches ap" "\<And>rid. dict_get (pc_requests inner) rid = dict_get (pc_requests (ap_inner ap)) rid
     \<or> (\<exists>r. dict_get (pc_requests inner) rid = Some r \<and> rq_id r = rid \<and> rq_status r = R_SAFETY_CHECKS_PASSED)"
  shows "trail_matches (audit_note rid ''PROMOTION_OPERATION_FAILED'' actor details (ap\<lparr>ap_inner := inner\<rparr>))"
proof -
  have "rq_id r = k \<and> (rq_status r = R_SAFETY_CHECKS_PASSED \<or> reports_request (ap_trail ap) r)" if "dict_get (pc_requests inner) k = Some r" for k r
    using assms(2)[of k]
  proof
    assume "dict_get (pc_requests inner) k = dict_get (pc_requests (ap_inner ap)) k"
    then show ?thesis using assms(1) that by (simp add: trail_matches_def)
  qed (use that in simp)
  then show ?thesis by (simp add: trail_matches_def)
qed

lemma audited_operation_matches:
  assumes "trail_matches ap" "stores (ap_inner ap) (operation (ap_inner ap))"
  shows "trail_matches (snd (audited_operation rid actor name operation ap))"
proof (cases "operation (ap_inner ap)")
  case (Pair res inner)
  show ?thesis
  proof (cases res)
    case (Inl exn)
    then show ?thesis using assms(2) trail_matches_failed[OF assms(1), of inner] by (simp add: audited_operation_def Pair stores_def)
  next
    case (Inr r)
    then show ?thesis using assms(2) trail_matches_state[OF assms(1), of inner r] by (simp add: audited_operation_def Pair stores_def)
  qed
qed

lemma audited_create_matches:
  assumes "trail_matches ap"
  shows "trail_matches (snd (audited_create collector gw pid cid environment actor evidence ap))"
proof (cases "create_promotion_request collector gw pid cid environment actor evidence (ap_inner ap)")
  case (Pair res inner)
  have stored: "creates_stored (ap_inner ap) (res, inner)" using create_stores[of "ap_inner ap" collector gw pid cid environment actor evidence] by (simp add: Pair)
  show ?thesis
  proof (cases res)
    case (Inl exn)
    then show ?thesis using stored trail_matches_failed[OF assms, of inner] by (simp add: audited_create_def Pair creates_stored_def)
  next
    case (Inr r)
    then show ?thesis using stored trail_matches_state[OF assms, of inner r] by (simp add: audited_create_def Pair creates_stored_def)
  qed
qed

lemma audited_step_matches: "audited_step ap ap' \<Longrightarrow> trail_matches ap \<Longrightarrow> trail_matches ap'"
  by (erule audited_step.cases)
     (simp_all add: audited_create_matches audited_submit_def audited_approve_def audited_promote_def audited_rollback_def
       audited_operation_matches submit_stores operations_store)

lemma fresh_matches: "trail_matches (AuditedPromotionEngine (PromotionControlEngine policy safety h readings) PromotionAuditTrail)"
  by (simp add: trail_matches_def AuditedPromotionEngine_def PromotionControlEngine_def dict_get_def)

lemma audited_run_matches:
  "audited_step\<^sup>*\<^sup>* (AuditedPromotionEngine (PromotionControlEngine policy safety h readings) PromotionAuditTrail) ap \<Longrightarrow> trail_matches ap"
  by (induction rule: rtranclp_induct) (auto intro: audited_step_matches fresh_matches)

text \<open>C23. On every run of the audited engine the trail tells the truth about every request: the last event that is not a failed operation has the
  type and the details of the request as it is now. Only a request whose governance gateway raised (status
  \<open>SAFETY_CHECKS_PASSED\<close>) may be ahead of its trail.\<close>

theorem audit_matches_requests:
  assumes "audited_step\<^sup>*\<^sup>* (AuditedPromotionEngine (PromotionControlEngine policy safety h readings) PromotionAuditTrail) ap"
    "dict_get (pc_requests (ap_inner ap)) rid = Some r" "rq_status r \<noteq> R_SAFETY_CHECKS_PASSED"
  shows "\<exists>e. last_state_event rid (ap_trail ap) = Some e \<and> au_event_type e = state_event_type (rq_status r) \<and> au_details e = request_details r"
proof -
  have "rq_id r = rid" "reports_request (ap_trail ap) r" using audited_run_matches[OF assms(1)] assms(2,3) by (auto simp: trail_matches_def)
  then show ?thesis by (auto simp: reports_request_def split: option.splits)
qed

lemma sample_audited_has: "\<exists>r. dict_get (pc_requests (ap_inner sample_audited)) sample_request_id = Some r \<and> rq_status r = R_APPROVED"
  by (simp add: sample_audited_def audited_create_def AuditedPromotionEngine_def sample_control_def sample_request_id_def promotion_run_simps safety_passes
      PromotionControlEngine_def pc_now_def put_request_def new_request_def dict_get_def dict_set_def default_promotion_policy_def
      governance_required_def lower_def lower_char_def static_gateway_def new_promotion_decision_def sample_evidence_passes record_request_state_def)

lemma audit_matches_requests_witness: "\<exists>e. last_state_event sample_request_id (ap_trail sample_audited) = Some e \<and> au_event_type e = ''PROMOTION_APPROVED''"
proof -
  obtain r where r: "dict_get (pc_requests (ap_inner sample_audited)) sample_request_id = Some r" "rq_status r = R_APPROVED" using sample_audited_has by blast
  show ?thesis using audit_matches_requests[OF sample_audited_reached[unfolded sample_control_def] r(1)] r(2) by (auto simp: state_event_type_def)
qed

section \<open>Tampering\<close>

text \<open>No two of the events hash to the same value unless they agree on everything that is hashed.\<close>

definition collision_free :: "PromotionAuditEvent list \<Rightarrow> PromotionAuditEvent list \<Rightarrow> bool" where
  "collision_free es es' \<longleftrightarrow> (\<forall>e \<in> set es. \<forall>e' \<in> set es'. audit_hash_of e = audit_hash_of e' \<longrightarrow> e\<lparr>au_event_hash := []\<rparr> = e'\<lparr>au_event_hash := []\<rparr>)"

text \<open>C25. Whoever noted the last hash of a request's trail notices every alteration: a trail of the same request that ends in that hash but
  differs in any event, order or number of events fails \<open>verify\<close>, unless two different events hash alike.\<close>

theorem altered_trail_is_detected:
  assumes "audited_step\<^sup>*\<^sup>* (AuditedPromotionEngine inner PromotionAuditTrail) ap"
    "audit_list_events rid altered \<noteq> audit_list_events rid (ap_trail ap)"
    "audit_end (audit_list_events rid altered) = last_audit_hash rid (ap_trail ap)"
    "collision_free (audit_list_events rid altered) (audit_list_events rid (ap_trail ap))"
  shows "\<not> av_valid (audit_verify rid altered)"
proof
  assume "av_valid (audit_verify rid altered)"
  then have "first_invalid ''genesis'' (audit_list_events rid altered) = None" by (simp add: audit_verify_def Let_def split: option.splits)
  moreover have "trail_ok (ap_trail ap)" using audited_run_grows[OF assms(1)] empty_trail_ok by (simp add: trail_grows_def AuditedPromotionEngine_def)
  ultimately show False using audits.same_chain[of "audit_list_events rid altered" "audit_list_events rid (ap_trail ap)"] assms(2-4)
    by (simp add: trail_ok_def first_invalid_iff audit_end_of collision_free_def audits.distinguishable_def)
qed

definition duplicated_trail :: audit_trail where
  "duplicated_trail = \<lparr>at_events_by_request = [(sample_request_id, audit_list_events sample_request_id (ap_trail sample_audited)
     @ audit_list_events sample_request_id (ap_trail sample_audited))], at_last_hash_by_request = []\<rparr>"

lemma sample_audited_events: "\<exists>e. audit_list_events sample_request_id (ap_trail sample_audited) = [e]"
  by (simp add: sample_audited_def audited_create_def AuditedPromotionEngine_def sample_control_def sample_request_id_def promotion_run_simps safety_passes
      PromotionControlEngine_def pc_now_def put_request_def new_request_def dict_get_def dict_set_def default_promotion_policy_def
      governance_required_def lower_def lower_char_def static_gateway_def new_promotion_decision_def sample_evidence_passes record_request_state_def
      audit_record_events) (simp add: audit_list_events_def PromotionAuditTrail_def dict_get_def)

lemma altered_trail_is_detected_witness: "\<not> av_valid (audit_verify sample_request_id duplicated_trail)"
proof -
  obtain e where e: "audit_list_events sample_request_id (ap_trail sample_audited) = [e]" using sample_audited_events by blast
  have twice: "audit_list_events sample_request_id duplicated_trail = [e, e]"
    by (simp add: duplicated_trail_def audit_list_events_def[of _ "\<lparr>at_events_by_request = d, at_last_hash_by_request = l\<rparr>" for d l] dict_get_def e)
  have "trail_ok (ap_trail sample_audited)" using audited_run_grows[OF sample_audited_reached] empty_trail_ok
    by (simp add: trail_grows_def AuditedPromotionEngine_def)
  then have "audit_end [e, e] = last_audit_hash sample_request_id (ap_trail sample_audited)" using e by (simp add: trail_ok_def audit_end_def)
  then show ?thesis using altered_trail_is_detected[OF sample_audited_reached, of sample_request_id duplicated_trail] by (simp add: e twice collision_free_def)
qed

text \<open>Without the last hash the end of a trail can be cut off unnoticed: \<open>verify\<close> never looks at \<open>last_hash_by_request\<close>.\<close>

lemma truncation_unnoticed:
  assumes "trail_ok trail" "prefix es (audit_list_events rid trail)"
  shows "av_valid (audit_verify rid (trail\<lparr>at_events_by_request := dict_set rid es (at_events_by_request trail)\<rparr>))"
proof -
  obtain fs where fs: "audit_list_events rid trail = es @ fs" using assms(2) by (auto simp: prefix_def)
  have "audits.chain_from ''genesis'' (es @ fs)" using assms(1) fs[symmetric] by (simp add: trail_ok_def first_invalid_iff)
  then have "first_invalid ''genesis'' es = None"
    using audits.chain_prefix[of "''genesis''" es fs] by (simp add: first_invalid_iff)
  then show ?thesis by (simp add: audit_verify_def Let_def audit_list_events_def dict.lookup_put)
qed

text \<open>When the gateway raises during creation the trail has one event for the key \<open>unknown\<close> and none for the request that stays behind.\<close>

lemma raised_creation_unaudited:
  assumes "create_promotion_request collector gw pid cid environment actor evidence (ap_inner ap) = (Inl exn, inner)" "rid \<noteq> ''unknown''"
  shows "audit_list_events rid (ap_trail (snd (audited_create collector gw pid cid environment actor evidence ap))) = audit_list_events rid (ap_trail ap)"
  using assms by (simp add: audited_create_def audit_record_events)

end
