(* ===== verification/Evo_Design.thy ===== *)
theory Evo_Design
  imports Evo_Models
begin

text \<open>
  The governance design of a candidate and its six objectives (\<^verbatim>\<open>evolution/core/governance_design.py\<close>, core/governance_fitness.py and the
  objective part of governance_fitness_evaluator.py). The texts that explain a score are not modelled.
\<close>

section \<open>Tables and configuration\<close>

definition ALL_OBJECTIVES :: "string list" where
  "ALL_OBJECTIVES = [''constitutional_currency'', ''compliance_posture'', ''exception_hygiene'', ''audit_integrity'', ''ratification_rigor'',
     ''policy_coverage'']"

definition VOTING_RULE_RIGOR :: "(string, pyfloat) dict" where
  "VOTING_RULE_RIGOR = [(''unanimity'', Fin 1), (''weighted_majority'', fl (7 / 10)), (''simple_majority'', fl (5 / 10))]"

definition SEVERITY_TOLERANCE :: "(string, pyfloat) dict" where
  "SEVERITY_TOLERANCE = [(''low'', Fin 1), (''medium'', fl (7 / 10)), (''high'', fl (4 / 10)), (''critical'', fl (1 / 10))]"

definition VERSIONING_RIGOR :: "(string, pyfloat) dict" where
  "VERSIONING_RIGOR = [(''semver_chain'', Fin 1), (''date_based'', fl (7 / 10)), (''monotonic_counter'', fl (5 / 10))]"

record GovernanceDesignFitnessConfig =
  gf_max_meaningful_quorum :: int
  gf_max_meaningful_stages :: int
  gf_target_policy_rule_count :: int
  gf_permissive_policy_factor :: pyfloat
  gf_no_review_factor :: pyfloat
  gf_no_audit_floor :: pyfloat
  gf_no_compliance_floor :: pyfloat

definition default_design_config :: GovernanceDesignFitnessConfig where
  "default_design_config = \<lparr>gf_max_meaningful_quorum = 5, gf_max_meaningful_stages = 3, gf_target_policy_rule_count = 10,
     gf_permissive_policy_factor = fl (6 / 10), gf_no_review_factor = fl (7 / 10), gf_no_audit_floor = fl (2 / 10), gf_no_compliance_floor = fl (2 / 10)\<rparr>"

text \<open>\<open>table.get(str(value))\<close>: only a string prints as one of these words.\<close>

definition word_in :: "pyval \<Rightarrow> (string, pyfloat) dict \<Rightarrow> pyfloat option" where
  "word_in v table = (case v of PStr s \<Rightarrow> dict_get table s | _ \<Rightarrow> None)"

definition word_or :: "pyval \<Rightarrow> (string, pyfloat) dict \<Rightarrow> pyfloat \<Rightarrow> pyfloat" where
  "word_or v table dflt = (case word_in v table of None \<Rightarrow> dflt | Some x \<Rightarrow> x)"

text \<open>\<open>int(value)\<close> of a field that validation has accepted as an integer.\<close>

definition int_field :: "payload \<Rightarrow> string \<Rightarrow> int \<Rightarrow> int" where
  "int_field d key dflt = (case get_or d key (PInt dflt) of PInt i \<Rightarrow> i | _ \<Rightarrow> dflt)"

text \<open>\<open>a / b\<close> on integers, with its exceptions.\<close>

definition int_ratio :: "int \<Rightarrow> int \<Rightarrow> py_exn + pyfloat" where
  "int_ratio a b =
     (if b = 0 then Inl (ZeroDivisionError ''division by zero'')
      else if f_int_div a b \<in> {PInf, NInf} then Inl (OverflowError ''integer division result too large for a float'')
      else Inr (f_int_div a b))"

section \<open>Scores\<close>

definition ratification_rigor :: "GovernanceDesignFitnessConfig \<Rightarrow> payload \<Rightarrow> py_exn + pyfloat" where
  "ratification_rigor cfg d =
     (let voting = word_or (get_or d ''voting_rule'' (PStr ''simple_majority'')) VOTING_RULE_RIGOR (fl (5 / 10)) in
      case int_ratio (int_field d ''quorum'' 1) (gf_max_meaningful_quorum cfg) of
        Inl exn \<Rightarrow> Inl exn
      | Inr q \<Rightarrow>
          (case int_ratio (int_field d ''approval_stage_count'' 1) (gf_max_meaningful_stages cfg) of
             Inl exn \<Rightarrow> Inl exn
           | Inr s \<Rightarrow> f_div (f_add (f_add voting (f_min (Fin 1) q)) (f_min (Fin 1) s)) (Fin 3)))"

definition policy_coverage :: "GovernanceDesignFitnessConfig \<Rightarrow> payload \<Rightarrow> py_exn + pyfloat" where
  "policy_coverage cfg d =
     (let target = gf_target_policy_rule_count cfg;
          posture = (if truthy (get_or d ''fail_closed_default'' (PBool True)) then Fin 1 else gf_permissive_policy_factor cfg)
      in if target > 0 then map_sum id (\<lambda>x. f_mul (f_min (Fin 1) x) posture) (int_ratio (int_field d ''policy_rule_count'' 0) target)
         else Inr (f_mul (Fin 1) posture))"

definition exception_hygiene :: "GovernanceDesignFitnessConfig \<Rightarrow> payload \<Rightarrow> pyfloat" where
  "exception_hygiene cfg d =
     f_mul (word_or (get_or d ''exception_max_severity'' (PStr ''high'')) SEVERITY_TOLERANCE (fl (4 / 10)))
       (if truthy (get_or d ''exception_review_required'' (PBool True)) then Fin 1 else gf_no_review_factor cfg)"

definition audit_integrity :: "GovernanceDesignFitnessConfig \<Rightarrow> payload \<Rightarrow> pyfloat" where
  "audit_integrity cfg d = (if truthy (get_or d ''audit_chaining_required'' (PBool True)) then Fin 1 else gf_no_audit_floor cfg)"

definition compliance_posture :: "GovernanceDesignFitnessConfig \<Rightarrow> payload \<Rightarrow> pyfloat" where
  "compliance_posture cfg d = (if truthy (get_or d ''compliance_evaluation_required'' (PBool True)) then Fin 1 else gf_no_compliance_floor cfg)"

definition constitutional_currency :: "payload \<Rightarrow> pyfloat" where
  "constitutional_currency d = word_or (get_or d ''versioning_strategy'' (PStr ''semver_chain'')) VERSIONING_RIGOR (fl (5 / 10))"

definition evaluate_design :: "GovernanceDesignFitnessConfig \<Rightarrow> payload \<Rightarrow> py_exn + objective_values" where
  "evaluate_design cfg d =
     (case ratification_rigor cfg d of
        Inl exn \<Rightarrow> Inl exn
      | Inr rigor \<Rightarrow>
          (case policy_coverage cfg d of
             Inl exn \<Rightarrow> Inl exn
           | Inr coverage \<Rightarrow>
               Inr [(''ratification_rigor'', rigor), (''policy_coverage'', coverage), (''exception_hygiene'', exception_hygiene cfg d),
                    (''audit_integrity'', audit_integrity cfg d), (''compliance_posture'', compliance_posture cfg d),
                    (''constitutional_currency'', constitutional_currency d)]))"

section \<open>Validation\<close>

definition int_at_least :: "int \<Rightarrow> pyval \<Rightarrow> bool" where
  "int_at_least n v = (case v of PInt i \<Rightarrow> n \<le> i | _ \<Rightarrow> False)"

definition id_ok :: "payload \<Rightarrow> bool" where
  "id_ok d = (case get_or d ''design_id'' PNone of PStr s \<Rightarrow> strip s \<noteq> [] | _ \<Rightarrow> False)"

text \<open>The first complaint; its text names the offending value in one case, which is left out.\<close>

definition validate_design :: "payload \<Rightarrow> py_exn option" where
  "validate_design d =
     (if d = [] then Some (ValueError ''governance design must be a non-empty dict'')
      else if \<not> dict_in ''design_id'' d then Some (ValueError ''governance design missing required field: design_id'')
      else if \<not> dict_in ''voting_rule'' d then Some (ValueError ''governance design missing required field: voting_rule'')
      else if \<not> id_ok d then Some (ValueError ''governance design_id must be a non-empty string'')
      else if word_in (get_or d ''voting_rule'' PNone) VOTING_RULE_RIGOR = None then Some (ValueError ''unknown voting_rule'')
      else if word_in (get_or d ''exception_max_severity'' (PStr ''high'')) SEVERITY_TOLERANCE = None then Some (ValueError ''unknown exception_max_severity'')
      else if word_in (get_or d ''versioning_strategy'' (PStr ''semver_chain'')) VERSIONING_RIGOR = None then Some (ValueError ''unknown versioning_strategy'')
      else if \<not> int_at_least 1 (get_or d ''quorum'' (PInt 1)) then Some (ValueError ''governance quorum must be an int >= 1'')
      else if \<not> int_at_least 1 (get_or d ''approval_stage_count'' (PInt 1)) then Some (ValueError ''governance approval_stage_count must be an int >= 1'')
      else if \<not> int_at_least 0 (get_or d ''policy_rule_count'' (PInt 0)) then Some (ValueError ''governance policy_rule_count must be an int >= 0'')
      else None)"

definition design_objectives :: "GovernanceDesignFitnessConfig \<Rightarrow> payload \<Rightarrow> py_exn + objective_values" where
  "design_objectives cfg d = (case validate_design d of Some exn \<Rightarrow> Inl exn | None \<Rightarrow> evaluate_design cfg d)"

definition fail_closed_objectives :: objective_values where
  "fail_closed_objectives = map (\<lambda>name. (name, Fin 0)) ALL_OBJECTIVES"

text \<open>Anything wrong with the design gives the zero vector.\<close>

definition governance_objectives_for :: "GovernanceDesignFitnessConfig \<Rightarrow> payload \<Rightarrow> objective_values" where
  "governance_objectives_for cfg isr =
     (case get_or isr ''governance'' PNone of
        PDict d \<Rightarrow> if d = [] then fail_closed_objectives
                   else (case design_objectives cfg d of Inl _ \<Rightarrow> fail_closed_objectives | Inr objectives \<Rightarrow> objectives)
      | _ \<Rightarrow> fail_closed_objectives)"

definition baseline_governance_design :: payload where
  "baseline_governance_design =
     [(''design_id'', PStr ''baseline_governance_v1''), (''voting_rule'', PStr ''simple_majority''), (''quorum'', PInt 1),
      (''approval_stage_count'', PInt 1), (''policy_rule_count'', PInt 3), (''fail_closed_default'', PBool True),
      (''exception_max_severity'', PStr ''high''), (''exception_review_required'', PBool True), (''audit_chaining_required'', PBool True),
      (''compliance_evaluation_required'', PBool True), (''versioning_strategy'', PStr ''semver_chain'')]"

section \<open>Bounds\<close>

definition unit_score :: "pyfloat \<Rightarrow> bool" where
  "unit_score x \<longleftrightarrow> f_le (Fin 0) x \<and> f_le x (Fin 1)"

lemma unit_const [simp]: "unit_score (Fin 0)" "unit_score (Fin 1)"
  by (simp_all add: unit_score_def)

lemma fl_1: "fl 1 = Fin 1"
  using fl_int[of 1] by simp

lemma fl_3: "fl 3 = Fin 3"
  using fl_int[of 3] by simp

lemma unit_fl: "0 \<le> x \<Longrightarrow> x \<le> 1 \<Longrightarrow> unit_score (fl x)"
  using fl_nonneg[of x] fl_mono[of x 1] by (simp add: unit_score_def fl_1)

lemma unit_scoreE:
  assumes "unit_score x"
  obtains r where "x = Fin r" "0 \<le> r" "r \<le> 1"
  using assms by (cases x) (auto simp: unit_score_def)

lemma unit_mul: "unit_score x \<Longrightarrow> unit_score y \<Longrightarrow> unit_score (f_mul x y)"
  by (auto elim!: unit_scoreE intro!: unit_fl simp: mult_le_one)

lemma unit_word: "list_all (\<lambda>(k, x). unit_score x) table \<Longrightarrow> unit_score dflt \<Longrightarrow> unit_score (word_or v table dflt)"
  by (auto simp: word_or_def word_in_def dict_get_def list_all_iff split: option.splits pyval.splits dest: map_of_SomeD)

lemma unit_tables:
  "list_all (\<lambda>(k, x). unit_score x) VOTING_RULE_RIGOR" "list_all (\<lambda>(k, x). unit_score x) SEVERITY_TOLERANCE"
  "list_all (\<lambda>(k, x). unit_score x) VERSIONING_RIGOR"
  by (auto simp: VOTING_RULE_RIGOR_def SEVERITY_TOLERANCE_def VERSIONING_RIGOR_def intro!: unit_fl)

lemma unit_min: "int_ratio a b = Inr x \<Longrightarrow> 0 \<le> a \<Longrightarrow> 0 \<le> b \<Longrightarrow> unit_score (f_min (Fin 1) x)"
  using fl_nonneg[of "of_int a / of_int b"]
  by (cases x) (auto simp: int_ratio_def f_int_div_def f_min_def unit_score_def split: if_splits)

lemma fl_range:
  assumes "0 \<le> x" "x \<le> of_int n" "\<bar>n\<bar> < 2 ^ 53"
  obtains r where "fl x = Fin r" "0 \<le> r" "r \<le> of_int n"
  using fl_nonneg[OF assms(1)] fl_mono[OF assms(2)] fl_int[OF assms(3)] by (cases "fl x") auto

lemma unit_third:
  assumes "unit_score x" "unit_score y" "unit_score z"
  shows "\<exists>r. f_div (f_add (f_add x y) z) (Fin 3) = Inr r \<and> unit_score r"
proof -
  obtain a b c where abc: "x = Fin a" "y = Fin b" "z = Fin c" "0 \<le> a" "a \<le> 1" "0 \<le> b" "b \<le> 1" "0 \<le> c" "c \<le> 1"
    using assms by (auto elim!: unit_scoreE)
  obtain s where s: "fl (a + b) = Fin s" "0 \<le> s" "s \<le> of_int 2" by (rule fl_range[of "a + b" 2]) (use abc in auto)
  obtain t where t: "fl (s + c) = Fin t" "0 \<le> t" "t \<le> of_int 3" by (rule fl_range[of "s + c" 3]) (use abc s in auto)
  then show ?thesis using abc s by (auto intro!: unit_fl)
qed

text \<open>A sensible configuration: positive limits, factors and floors in the unit interval. The default is one.\<close>

definition config_sensible :: "GovernanceDesignFitnessConfig \<Rightarrow> bool" where
  "config_sensible cfg \<longleftrightarrow> 0 < gf_max_meaningful_quorum cfg \<and> 0 < gf_max_meaningful_stages cfg
     \<and> unit_score (gf_permissive_policy_factor cfg) \<and> unit_score (gf_no_review_factor cfg)
     \<and> unit_score (gf_no_audit_floor cfg) \<and> unit_score (gf_no_compliance_floor cfg)"

lemma default_config_sensible: "config_sensible default_design_config"
  by (auto simp: config_sensible_def default_design_config_def intro!: unit_fl)

lemma int_field_accepted: "int_at_least n (get_or d key (PInt dflt)) \<Longrightarrow> n \<le> int_field d key dflt"
  by (auto simp: int_at_least_def int_field_def split: pyval.splits)

lemma validated_ints:
  assumes "validate_design d = None"
  shows "1 \<le> int_field d ''quorum'' 1" "1 \<le> int_field d ''approval_stage_count'' 1" "0 \<le> int_field d ''policy_rule_count'' 0"
  using assms by (auto simp: validate_design_def intro!: int_field_accepted split: if_splits)

lemma rigor_unit:
  assumes "config_sensible cfg" "validate_design d = None" "ratification_rigor cfg d = Inr x"
  shows "unit_score x"
proof -
  let ?voting = "word_or (get_or d ''voting_rule'' (PStr ''simple_majority'')) VOTING_RULE_RIGOR (fl (5 / 10))"
  obtain q s where qs: "int_ratio (int_field d ''quorum'' 1) (gf_max_meaningful_quorum cfg) = Inr q"
    "int_ratio (int_field d ''approval_stage_count'' 1) (gf_max_meaningful_stages cfg) = Inr s"
    "f_div (f_add (f_add ?voting (f_min (Fin 1) q)) (f_min (Fin 1) s)) (Fin 3) = Inr x"
    using assms(3) by (auto simp: ratification_rigor_def Let_def split: sum.splits)
  have "unit_score ?voting" by (rule unit_word[OF unit_tables(1)]) (simp add: unit_fl)
  moreover have "unit_score (f_min (Fin 1) q)" "unit_score (f_min (Fin 1) s)"
    using unit_min[OF qs(1)] unit_min[OF qs(2)] validated_ints[OF assms(2)] assms(1) by (auto simp: config_sensible_def)
  ultimately show ?thesis using unit_third[of ?voting "f_min (Fin 1) q" "f_min (Fin 1) s"] qs(3) by auto
qed

lemma coverage_unit:
  assumes "config_sensible cfg" "validate_design d = None" "policy_coverage cfg d = Inr x"
  shows "unit_score x"
proof -
  let ?posture = "if truthy (get_or d ''fail_closed_default'' (PBool True)) then Fin 1 else gf_permissive_policy_factor cfg"
  have posture: "unit_score ?posture" using assms(1) by (simp add: config_sensible_def)
  show ?thesis
  proof (cases "0 < gf_target_policy_rule_count cfg")
    case True
    then obtain y where "int_ratio (int_field d ''policy_rule_count'' 0) (gf_target_policy_rule_count cfg) = Inr y" "x = f_mul (f_min (Fin 1) y) ?posture"
      using assms(3) by (cases "int_ratio (int_field d ''policy_rule_count'' 0) (gf_target_policy_rule_count cfg)") (auto simp: policy_coverage_def Let_def)
    then show ?thesis using unit_mul[OF unit_min posture] validated_ints(3)[OF assms(2)] True by simp
  next
    case False
    then show ?thesis using assms(3) unit_mul[OF unit_const(2) posture] by (simp add: policy_coverage_def Let_def)
  qed
qed

lemma floors_unit:
  assumes "config_sensible cfg"
  shows "unit_score (exception_hygiene cfg d)" "unit_score (audit_integrity cfg d)" "unit_score (compliance_posture cfg d)" "unit_score (constitutional_currency d)"
  using assms
  by (auto simp: exception_hygiene_def audit_integrity_def compliance_posture_def constitutional_currency_def config_sensible_def
      intro!: unit_mul unit_word unit_tables unit_fl)

lemma design_scores_unit:
  assumes "config_sensible cfg" "design_objectives cfg d = Inr objectives" "(name, x) \<in> set objectives"
  shows "unit_score x"
  using assms rigor_unit[OF assms(1)] coverage_unit[OF assms(1)] floors_unit[OF assms(1), of d]
  by (auto simp: design_objectives_def evaluate_design_def split: option.splits sum.splits)

text \<open>C27. Whatever a candidate carries as its governance design, it is scored in the same six dimensions with floats between 0 and 1, under every
  configuration with positive limits and factors in the unit interval.\<close>

theorem governance_scores_bounded:
  assumes "config_sensible cfg"
  shows "set (map fst (governance_objectives_for cfg isr)) = set ALL_OBJECTIVES \<and> distinct (map fst (governance_objectives_for cfg isr))
    \<and> (\<forall>(name, x) \<in> set (governance_objectives_for cfg isr). f_le (Fin 0) x \<and> f_le x (Fin 1))"
proof -
  have closed: "(name, x) \<in> set fail_closed_objectives \<Longrightarrow> unit_score x" for name x by (auto simp: fail_closed_objectives_def)
  have names: "design_objectives cfg d = Inr objectives \<Longrightarrow> set (map fst objectives) = set ALL_OBJECTIVES \<and> distinct (map fst objectives)" for d objectives
    by (auto simp: design_objectives_def evaluate_design_def ALL_OBJECTIVES_def split: option.splits sum.splits)
  have zero: "set (map fst fail_closed_objectives) = set ALL_OBJECTIVES" "distinct (map fst fail_closed_objectives)"
    by (simp_all add: fail_closed_objectives_def ALL_OBJECTIVES_def)
  have "governance_objectives_for cfg isr = fail_closed_objectives \<or> (\<exists>d. design_objectives cfg d = Inr (governance_objectives_for cfg isr))"
    by (auto simp: governance_objectives_for_def split: pyval.splits sum.splits)
  then show ?thesis
  proof
    assume "governance_objectives_for cfg isr = fail_closed_objectives"
    then show ?thesis using zero closed by (auto simp: unit_score_def)
  next
    assume "\<exists>d. design_objectives cfg d = Inr (governance_objectives_for cfg isr)"
    then obtain d where "design_objectives cfg d = Inr (governance_objectives_for cfg isr)" ..
    then show ?thesis using names design_scores_unit[OF assms] by (auto simp: unit_score_def)
  qed
qed

lemma governance_scores_bounded_witness:
  "list_all (\<lambda>(name, x). f_le (Fin 0) x \<and> f_le x (Fin 1)) (governance_objectives_for default_design_config [(''governance'', PDict baseline_governance_design)])"
  unfolding list_all_iff
  using governance_scores_bounded[OF default_config_sensible, of "[(''governance'', PDict baseline_governance_design)]"] by blast

end
