(* ===== verification/Evo_Stages.thy ===== *)
theory Evo_Stages
  imports Evo_Design Evo_Engine
begin

text \<open>
  The stages that judge a candidate by default (\<^verbatim>\<open>evolution/utils.py\<close>, simulation.py, verification.py, fitness.py,
  governance_fitness_evaluator.py). A candidate's ISR is untyped JSON, so every stage may raise where the ISR has another shape than it
  expects. The recursion limit of the interpreter is not modelled.
\<close>

section \<open>Untyped values\<close>

text \<open>\<open>repr\<close> and \<open>str\<close> of JSON values.\<close>

definition printable :: "nat \<Rightarrow> bool" where
  "printable n \<longleftrightarrow> 32 \<le> n \<and> n \<noteq> 173 \<and> \<not> (127 \<le> n \<and> n \<le> 160)"

definition repr_char :: "char \<Rightarrow> char \<Rightarrow> string" where
  "repr_char q c =
     (let n = (of_char c :: nat) in
      if c = q \<or> n = 92 then [char_of (92::nat), c]
      else if n = 10 then [char_of (92::nat), CHR ''n''] else if n = 13 then [char_of (92::nat), CHR ''r''] else if n = 9 then [char_of (92::nat), CHR ''t'']
      else if printable n then [c] else [char_of (92::nat), CHR ''x''] @ hex_byte (of_nat n))"

definition repr_str :: "string \<Rightarrow> string" where
  "repr_str s =
     (let single = char_of (39::nat); double = char_of (34::nat); q = (if single \<in> set s \<and> double \<notin> set s then double else single) in
      q # concat (map (repr_char q) s) @ [q])"

fun py_repr :: "pyval \<Rightarrow> string" where
  "py_repr PNone = ''None''"
| "py_repr (PBool b) = (if b then ''True'' else ''False'')"
| "py_repr (PInt i) = str_of_int i"
| "py_repr (PFloat x) = float_repr x"
| "py_repr (PStr s) = repr_str s"
| "py_repr (PList xs) = ''['' @ join '', '' (map py_repr xs) @ '']''"
| "py_repr (PDict d) = ''{'' @ join '', '' (map (\<lambda>(k, v). repr_str k @ '': '' @ py_repr v) d) @ ''}''"

definition py_str :: "pyval \<Rightarrow> string" where
  "py_str v = (case v of PStr s \<Rightarrow> s | _ \<Rightarrow> py_repr v)"

fun type_name :: "pyval \<Rightarrow> string" where
  "type_name PNone = ''NoneType''"
| "type_name (PBool _) = ''bool''"
| "type_name (PInt _) = ''int''"
| "type_name (PFloat _) = ''float''"
| "type_name (PStr _) = ''str''"
| "type_name (PList _) = ''list''"
| "type_name (PDict _) = ''dict''"

text \<open>\<open>for x in value\<close>, \<open>len(value)\<close>, and \<open>value or []\<close>.\<close>

definition py_iter :: "pyval \<Rightarrow> py_exn + pyval list" where
  "py_iter v = (case v of
     PList xs \<Rightarrow> Inr xs
   | PDict d \<Rightarrow> Inr (map (\<lambda>(k, _). PStr k) d)
   | PStr s \<Rightarrow> Inr (map (\<lambda>c. PStr [c]) s)
   | _ \<Rightarrow> Inl (TypeError (repr_str (type_name v) @ '' object is not iterable'')))"

definition py_len :: "pyval \<Rightarrow> py_exn + nat" where
  "py_len v = (case v of
     PList xs \<Rightarrow> Inr (length xs)
   | PDict d \<Rightarrow> Inr (length d)
   | PStr s \<Rightarrow> Inr (length s)
   | _ \<Rightarrow> Inl (TypeError (''object of type '' @ repr_str (type_name v) @ '' has no len()'')))"

definition list_field :: "payload \<Rightarrow> string \<Rightarrow> pyval" where
  "list_field d key = py_or (get_or d key (PList [])) (PList [])"

section \<open>Walking an ISR\<close>

text \<open>A generator is what it yields, and the exception that ends it if one does.\<close>

type_synonym 'a generator = "'a list \<times> py_exn option"

definition service_item :: "pyval \<Rightarrow> payload list" where
  "service_item v = (case v of PDict d \<Rightarrow> [d] | PStr s \<Rightarrow> [[(''name'', PStr s)]] | _ \<Rightarrow> [])"

definition services_of :: "payload \<Rightarrow> payload generator" where
  "services_of d = (case py_iter (list_field d ''services'') of Inl exn \<Rightarrow> ([], Some exn) | Inr vs \<Rightarrow> (concat (map service_item vs), None))"

fun domain_services :: "pyval list \<Rightarrow> payload generator" where
  "domain_services [] = ([], None)"
| "domain_services (v # vs) =
     (case v of
        PDict d \<Rightarrow>
          (case services_of d of
             (xs, Some exn) \<Rightarrow> (xs, Some exn)
           | (xs, None) \<Rightarrow> (case domain_services vs of (ys, e) \<Rightarrow> (xs @ ys, e)))
      | _ \<Rightarrow> domain_services vs)"

definition iter_services :: "payload \<Rightarrow> payload generator" where
  "iter_services isr =
     (case py_iter (list_field isr ''domains'') of
        Inl exn \<Rightarrow> ([], Some exn)
      | Inr ds \<Rightarrow>
          (case domain_services ds of
             (xs, Some exn) \<Rightarrow> (xs, Some exn)
           | (xs, None) \<Rightarrow> (case services_of isr of (ys, e) \<Rightarrow> (xs @ ys, e))))"

text \<open>\<open>list(generator)\<close>, and a loop over a generator whose body may raise too.\<close>

definition all_yielded :: "'a generator \<Rightarrow> py_exn + 'a list" where
  "all_yielded g = (case snd g of Some exn \<Rightarrow> Inl exn | None \<Rightarrow> Inr (fst g))"

definition after_loop :: "py_exn option \<Rightarrow> py_exn + 'a \<Rightarrow> py_exn + 'a" where
  "after_loop e out = (case out of Inl exn \<Rightarrow> Inl exn | Inr x \<Rightarrow> (case e of Some exn \<Rightarrow> Inl exn | None \<Rightarrow> Inr x))"

fun each_models :: "payload list \<Rightarrow> pyval list \<Rightarrow> py_exn + pyval list" where
  "each_models [] ms = Inr ms"
| "each_models (s # ss) ms = (case py_iter (list_field s ''data_models'') of Inl exn \<Rightarrow> Inl exn | Inr xs \<Rightarrow> each_models ss (ms @ xs))"

text \<open>\<open>list(iter_data_models(isr))\<close>.\<close>

definition data_models :: "payload \<Rightarrow> py_exn + pyval list" where
  "data_models isr =
     (case py_iter (list_field isr ''data_models'') of
        Inl exn \<Rightarrow> Inl exn
      | Inr ms \<Rightarrow> (case iter_services isr of (ss, e) \<Rightarrow> after_loop e (each_models ss ms)))"

definition api_name :: "pyval \<Rightarrow> string list" where
  "api_name v = (case v of
     PStr s \<Rightarrow> [s]
   | PDict d \<Rightarrow> (let name = get_or d ''name'' PNone in if truthy name then [py_str name] else [])
   | _ \<Rightarrow> [])"

fun each_apis :: "payload list \<Rightarrow> string list \<Rightarrow> py_exn + string list" where
  "each_apis [] names = Inr names"
| "each_apis (s # ss) names =
     (case py_iter (list_field s ''apis'') of Inl exn \<Rightarrow> Inl exn | Inr xs \<Rightarrow> each_apis ss (names @ concat (map api_name xs)))"

text \<open>The names in the order they are found; only membership matters.\<close>

definition collect_api_names :: "payload \<Rightarrow> py_exn + string list" where
  "collect_api_names isr = (case iter_services isr of (ss, e) \<Rightarrow> after_loop e (each_apis ss []))"

section \<open>Simulation\<close>

text \<open>The recursive \<open>visit\<close>. WHITE is neither GRAY nor BLACK; the list holds the neighbors the current activation has still to look at.\<close>

definition open_services :: "(string, string list) dict \<Rightarrow> string set \<Rightarrow> nat" where
  "open_services g seen = card (fst ` set g - seen)"

definition neighbors :: "(string, string list) dict \<Rightarrow> string \<Rightarrow> string list" where
  "neighbors g n = (case dict_get g n of None \<Rightarrow> [] | Some ns \<Rightarrow> ns)"

function visit_neighbors :: "(string, string list) dict \<Rightarrow> string list \<Rightarrow> string set \<Rightarrow> string set \<Rightarrow> bool \<times> string set" where
  "visit_neighbors g [] gray black = (False, black)"
| "visit_neighbors g (n # ns) gray black =
     (if \<not> dict_in n g then visit_neighbors g ns gray black
      else if n \<in> gray then (True, black)
      else if n \<in> black then visit_neighbors g ns gray black
      else
        (let out = visit_neighbors g (neighbors g n) (insert n gray) black in
         if fst out then out else visit_neighbors g ns gray (insert n (snd out))))"
  by pat_completeness auto

lemma open_services_visit: "dict_in n g \<Longrightarrow> n \<notin> seen \<Longrightarrow> open_services g (insert n seen) < open_services g seen"
  unfolding open_services_def dict_in_def by (rule psubset_card_mono) auto

lemma open_services_mono: "seen \<subseteq> seen' \<Longrightarrow> open_services g seen' \<le> open_services g seen"
  unfolding open_services_def by (rule card_mono) auto

lemma visit_neighbors_black: "visit_neighbors_dom (g, ns, gray, black) \<Longrightarrow> black \<subseteq> snd (visit_neighbors g ns gray black)"
proof (induction g ns gray black rule: visit_neighbors.pinduct)
  case (2 g n ns gray black)
  let ?out = "visit_neighbors g (neighbors g n) (insert n gray) black"
  have "dict_in n g \<Longrightarrow> n \<notin> gray \<Longrightarrow> n \<notin> black \<Longrightarrow> \<not> fst ?out \<Longrightarrow> black \<subseteq> snd (visit_neighbors g ns gray (insert n (snd ?out)))"
    using 2(4) 2(5)[OF _ _ _ refl] by blast
  then show ?case using 2 by (simp add: visit_neighbors.psimps Let_def)
qed (simp add: visit_neighbors.psimps)

termination visit_neighbors
proof (relation "measures [\<lambda>(g, ns, gray, black). open_services g (gray \<union> black), \<lambda>(g, ns, gray, black). length ns]", goal_cases)
  case (4 g n ns gray black)
  then show ?case using open_services_visit[of n g "gray \<union> black"] by auto
next
  case (5 g n ns gray black out)
  then have "black \<subseteq> snd out" using visit_neighbors_black by blast
  then have "open_services g (gray \<union> insert n (snd out)) < open_services g (gray \<union> black)"
    using open_services_visit[of n g "gray \<union> black"] open_services_mono[of "insert n (gray \<union> black)" "gray \<union> insert n (snd out)" g] 5 by fastforce
  then show ?case by auto
qed auto

text \<open>\<open>for node in graph\<close>: GRAY is empty between the calls.\<close>

definition has_dependency_cycle :: "(string, string list) dict \<Rightarrow> bool" where
  "has_dependency_cycle g = fst (visit_neighbors g (map fst g) {} {})"

definition issue :: "IssueSeverity \<Rightarrow> string \<Rightarrow> string \<Rightarrow> SimulationIssue" where
  "issue severity code message = \<lparr>si_severity = severity, si_code = code, si_message = message\<rparr>"

definition required_issues :: "payload \<Rightarrow> SimulationIssue list" where
  "required_issues isr =
     map (\<lambda>name. issue ISSUE_ERROR ''ISR_MISSING_REQUIRED_FIELD'' (''ISR is missing required field: '' @ name))
       (filter (\<lambda>name. \<not> truthy (get_or isr name PNone)) [''isr_id'', ''version'', ''name''])"

text \<open>The loop over the services: the numbers of APIs and dependencies, and the graph by service name.\<close>

fun tally :: "payload list \<Rightarrow> nat \<Rightarrow> nat \<Rightarrow> (string, string list) dict \<Rightarrow> py_exn + nat \<times> nat \<times> (string, string list) dict" where
  "tally [] apis deps g = Inr (apis, deps, g)"
| "tally (s # ss) apis deps g =
     (case py_len (list_field s ''apis'') of
        Inl exn \<Rightarrow> Inl exn
      | Inr a \<Rightarrow>
          (case py_len (list_field s ''depends_on'') of
             Inl exn \<Rightarrow> Inl exn
           | Inr d \<Rightarrow>
               (let name = get_or s ''name'' PNone in
                if \<not> truthy name then tally ss (apis + a) (deps + d) g
                else
                  (case py_iter (list_field s ''depends_on'') of
                     Inl exn \<Rightarrow> Inl exn
                   | Inr ds \<Rightarrow> tally ss (apis + a) (deps + d) (dict_set (py_str name) (map py_str ds) g)))))"

definition has_error :: "SimulationIssue list \<Rightarrow> bool" where
  "has_error issues = list_ex (\<lambda>i. si_severity i = ISSUE_ERROR) issues"

definition issue_dump :: "SimulationIssue \<Rightarrow> pyval" where
  "issue_dump i = PDict [(''severity'', PStr (issue_severity_value (si_severity i))), (''code'', PStr (si_code i)), (''message'', PStr (si_message i))]"

definition simulation_metrics :: "nat \<Rightarrow> nat \<Rightarrow> nat \<Rightarrow> nat \<Rightarrow> payload" where
  "simulation_metrics services apis models deps =
     [(''service_count'', PInt (int services)), (''api_count'', PInt (int apis)), (''data_model_count'', PInt (int models)),
      (''dependency_count'', PInt (int deps)), (''complexity'', PInt (int (services + apis + models + deps)))]"

definition simulation_result :: "CandidateArchitecture \<Rightarrow> payload \<Rightarrow> SimulationIssue list \<Rightarrow> string \<Rightarrow> SimulationResult" where
  "simulation_result c sim_metrics issues ts =
     (let status = (if has_error issues then SIM_FAILED else SIM_PASSED) in
      \<lparr>sr_id = deterministic_id ''simulation'' [(''candidate_id'', PStr (ca_id c)), (''metrics'', PDict sim_metrics), (''issues'', PList (map issue_dump issues))],
       sr_candidate_id = ca_id c, sr_status = status, sr_metrics = sim_metrics, sr_issues = issues,
       sr_logs = [''Simulation completed with status '' @ simulation_status_value status @ ''.''], sr_created_at = ts\<rparr>)"

definition simulate :: "string \<Rightarrow> CandidateArchitecture \<Rightarrow> py_exn + SimulationResult" where
  "simulate ts c =
     (case all_yielded (iter_services (ca_isr c)) of
        Inl exn \<Rightarrow> Inl exn
      | Inr services \<Rightarrow>
          (case data_models (ca_isr c) of
             Inl exn \<Rightarrow> Inl exn
           | Inr models \<Rightarrow>
               (case tally services 0 0 [] of
                  Inl exn \<Rightarrow> Inl exn
                | Inr (apis, deps, g) \<Rightarrow>
                    Inr (simulation_result c (simulation_metrics (length services) apis (length models) deps)
                      (required_issues (ca_isr c)
                       @ (if has_dependency_cycle g then [issue ISSUE_ERROR ''DEPENDENCY_CYCLE'' ''Service dependency cycle detected.''] else [])) ts))))"

section \<open>Verification\<close>

text \<open>\<open>not metadata or not metadata.get("mutations")\<close>.\<close>

definition lacks_provenance :: "payload \<Rightarrow> py_exn + bool" where
  "lacks_provenance isr =
     (let v = get_or isr ''evolution'' PNone in
      if \<not> truthy v then Inr True
      else (case v of
              PDict d \<Rightarrow> Inr (\<not> truthy (get_or d ''mutations'' PNone))
            | _ \<Rightarrow> Inl (AttributeError (repr_str (type_name v) @ '' object has no attribute '' @ repr_str ''get''))))"

definition removed_apis :: "string list \<Rightarrow> string list \<Rightarrow> string list" where
  "removed_apis base candidate = sort (remdups (filter (\<lambda>n. n \<notin> set candidate) base))"

definition verify :: "string \<Rightarrow> CandidateArchitecture \<Rightarrow> EvolutionProposal \<Rightarrow> py_exn + VerificationReport" where
  "verify ts c p =
     (case lacks_provenance (ca_isr c) of
        Inl exn \<Rightarrow> Inl exn
      | Inr lacks \<Rightarrow>
          (case collect_api_names (er_base_isr (pr_request p)) of
             Inl exn \<Rightarrow> Inl exn
           | Inr base \<Rightarrow>
               (case collect_api_names (ca_isr c) of
                  Inl exn \<Rightarrow> Inl exn
                | Inr candidate \<Rightarrow>
                    (let removed = removed_apis base candidate;
                         issues = required_issues (ca_isr c)
                           @ (if ca_content_hash c = ca_base_isr_hash c
                              then [issue ISSUE_ERROR ''NO_ARCHITECTURAL_CHANGE'' ''Candidate ISR is identical to base ISR.''] else [])
                           @ (if lacks then [issue ISSUE_ERROR ''MISSING_EVOLUTION_PROVENANCE'' ''Candidate ISR does not contain evolution provenance.''] else [])
                           @ (if removed \<noteq> [] then [issue (if er_allow_breaking_changes (pr_request p) then ISSUE_WARNING else ISSUE_ERROR)
                                ''PUBLIC_API_REMOVED'' (''Public APIs were removed: '' @ join '', '' removed)] else [])
                     in Inr \<lparr>vr_candidate_id = ca_id c, vr_valid = (\<not> has_error issues), vr_issues = issues, vr_created_at = ts\<rparr>))))"

section \<open>Fitness\<close>

definition readiness :: "bool \<Rightarrow> pyfloat" where
  "readiness b = (if b then Fin 1 else Fin 0)"

definition base_objectives :: "payload \<Rightarrow> pyfloat \<Rightarrow> bool \<Rightarrow> objective_values" where
  "base_objectives isr simplicity valid =
     map (\<lambda>(name, x). (name, f_round 4 x))
       [(''simplicity'', simplicity),
        (''modularity'', readiness (truthy (list_field isr ''domains'') \<or> truthy (list_field isr ''services''))),
        (''security_readiness'', readiness (truthy (get_or isr ''security'' PNone))),
        (''observability_readiness'', readiness (truthy (get_or isr ''observability'' PNone))),
        (''deployment_readiness'', readiness (truthy (get_or isr ''deployment'' PNone))),
        (''testability'', readiness (truthy (get_or isr ''testing'' PNone))),
        (''compatibility'', readiness valid)]"

definition fitness_result :: "string \<Rightarrow> CandidateArchitecture \<Rightarrow> SimulationResult \<Rightarrow> pyfloat \<Rightarrow> pyfloat \<Rightarrow> bool \<Rightarrow> FitnessEvaluation" where
  "fitness_result ts c s complexity simplicity valid =
     (let objectives = base_objectives (ca_isr c) simplicity valid;
          constraints = [(''simulation_passed'', sr_status s = SIM_PASSED), (''verification_valid'', valid), (''complexity_within_limit'', f_le complexity (Fin 100))]
      in \<lparr>fe_id = deterministic_id ''fitness'' [(''candidate_id'', PStr (ca_id c)), (''objectives'', PDict (map (\<lambda>(k, x). (k, PFloat x)) objectives)),
            (''constraints'', PDict (map (\<lambda>(k, b). (k, PBool b)) constraints))],
          fe_candidate_id = ca_id c, fe_objectives = objectives, fe_constraints = constraints,
          fe_passed = (list_all snd constraints \<and> list_all (\<lambda>(k, x). f_ge x (fl (2 / 10))) objectives),
          fe_notes = map (\<lambda>(k, x). ''Objective below threshold: '' @ k) (filter (\<lambda>(k, x). f_lt x (fl (2 / 10))) objectives), fe_created_at = ts\<rparr>)"

definition evaluate_fitness :: "string \<Rightarrow> CandidateArchitecture \<Rightarrow> SimulationResult \<Rightarrow> VerificationReport option \<Rightarrow> py_exn + FitnessEvaluation" where
  "evaluate_fitness ts c s v =
     (case py_float (get_or (sr_metrics s) ''complexity'' (PInt 0)) of
        Inl exn \<Rightarrow> Inl exn
      | Inr complexity \<Rightarrow>
          (case f_div complexity (Fin 50) of
             Inl exn \<Rightarrow> Inl exn
           | Inr share \<Rightarrow>
               (case v of
                  None \<Rightarrow> Inl (AttributeError (repr_str ''NoneType'' @ '' object has no attribute '' @ repr_str ''valid''))
                | Some r \<Rightarrow> Inr (fitness_result ts c s complexity (f_max (Fin 0) (f_sub (Fin 1) share)) (vr_valid r)))))"

text \<open>\<open>GovernanceAwareFitnessEvaluator\<close>, the default: the governance objectives are merged in, the verdict stays.\<close>

definition governance_aware_evaluate ::
  "GovernanceDesignFitnessConfig \<Rightarrow> string \<Rightarrow> CandidateArchitecture \<Rightarrow> SimulationResult \<Rightarrow> VerificationReport option \<Rightarrow> py_exn + FitnessEvaluation" where
  "governance_aware_evaluate cfg ts c s v =
     map_sum id (\<lambda>f. f\<lparr>fe_objectives := fold (\<lambda>(name, x) d. dict_set name x d) (governance_objectives_for cfg (ca_isr c)) (fe_objectives f)\<rparr>)
       (evaluate_fitness ts c s v)"

end
