(* ===== verification/Evo_Mutation.thy ===== *)
theory Evo_Mutation
  imports Evo_Design Evo_Engine
begin

text \<open>
  The mutation engine (\<^verbatim>\<open>evolution/mutation.py\<close>). ISRs are copied before they are changed, so a mutation is a function of values. The
  values of a specification's operations are taken not to be shared with one another: the code stores the object itself, so a later
  operation on the same place, or on \<open>evolution\<close>, would also change the specification.
\<close>

section \<open>Paths\<close>

fun split_dots :: "string \<Rightarrow> string \<Rightarrow> string list" where
  "split_dots acc [] = [rev acc]"
| "split_dots acc (c # cs) = (if c = CHR ''.'' then rev acc # split_dots [] cs else split_dots (c # acc) cs)"

definition split_path :: "string \<Rightarrow> string list" where
  "split_path path = filter (\<lambda>s. s \<noteq> []) (split_dots [] path)"

text \<open>\<open>int(segment)\<close>: blanks around, a sign, digits with single underscores between them.\<close>

fun int_digits :: "bool \<Rightarrow> nat \<Rightarrow> string \<Rightarrow> nat option" where
  "int_digits after n [] = (if after then Some n else None)"
| "int_digits after n (c # cs) =
     (if is_digit c then int_digits True (10 * n + digit_val c) cs
      else if c = CHR ''_'' \<and> after then int_digits False n cs
      else None)"

definition int_of_str :: "string \<Rightarrow> int option" where
  "int_of_str s = (case parse_sign (strip s) of (neg, digits) \<Rightarrow> map_option (\<lambda>n. if neg then - int n else int n) (int_digits False 0 digits))"

definition list_index :: "string \<Rightarrow> evo_error + int" where
  "list_index s = (case int_of_str s of None \<Rightarrow> Inl (MutationError (''List index must be numeric: '' @ s)) | Some i \<Rightarrow> Inr i)"

definition index_in_range :: "string \<Rightarrow> pyval list \<Rightarrow> evo_error + nat" where
  "index_in_range s xs = (case list_index s of
     Inl exn \<Rightarrow> Inl exn
   | Inr i \<Rightarrow> if i < 0 \<or> i \<ge> int (length xs) then Inl (MutationError (''List index out of range: '' @ s)) else Inr (nat i))"

text \<open>Going down a path and replacing what is there.\<close>

fun at_path :: "string list \<Rightarrow> (pyval \<Rightarrow> evo_error + pyval) \<Rightarrow> pyval \<Rightarrow> evo_error + pyval" where
  "at_path [] f v = f v"
| "at_path (s # ss) f v =
     (case v of
        PDict d \<Rightarrow>
          (case dict_get d s of
             None \<Rightarrow> Inl (MutationError (''Path segment not found: '' @ s))
           | Some w \<Rightarrow> map_sum id (\<lambda>w'. PDict (dict_set s w' d)) (at_path ss f w))
      | PList xs \<Rightarrow>
          (case index_in_range s xs of
             Inl exn \<Rightarrow> Inl exn
           | Inr i \<Rightarrow> map_sum id (\<lambda>w'. PList (xs[i := w'])) (at_path ss f (xs ! i)))
      | _ \<Rightarrow> Inl (MutationError (''Cannot traverse path segment '' @ s @ '' on non-container.'')))"

definition at_parent :: "string \<Rightarrow> (string \<Rightarrow> pyval \<Rightarrow> evo_error + pyval) \<Rightarrow> pyval \<Rightarrow> evo_error + pyval" where
  "at_parent path f v =
     (let segments = split_path path in
      if segments = [] then Inl (MutationError ''Mutation path must not be empty.'')
      else at_path (butlast segments) (f (last segments)) v)"

section \<open>Operations\<close>

definition set_in :: "pyval \<Rightarrow> string \<Rightarrow> pyval \<Rightarrow> evo_error + pyval" where
  "set_in value key parent =
     (case parent of
        PDict d \<Rightarrow> Inr (PDict (dict_set key value d))
      | PList xs \<Rightarrow>
          (case list_index key of
             Inl exn \<Rightarrow> Inl exn
           | Inr i \<Rightarrow>
               if i = int (length xs) then Inr (PList (xs @ [value]))
               else if 0 \<le> i \<and> i < int (length xs) then Inr (PList (xs[nat i := value]))
               else Inl (MutationError (''List index out of range: '' @ key)))
      | _ \<Rightarrow> Inl (MutationError ''Cannot set value on non-container parent.''))"

definition remove_in :: "string \<Rightarrow> pyval \<Rightarrow> evo_error + pyval" where
  "remove_in key parent =
     (case parent of
        PDict d \<Rightarrow> if dict_in key d then Inr (PDict (filter (\<lambda>(k, _). k \<noteq> key) d)) else Inl (MutationError (''Key not found for removal: '' @ key))
      | PList xs \<Rightarrow> map_sum id (\<lambda>i. PList (take i xs @ drop (Suc i) xs)) (index_in_range key xs)
      | _ \<Rightarrow> Inl (MutationError ''Cannot remove item from non-container parent.''))"

definition merge_in :: "pyval \<Rightarrow> string \<Rightarrow> pyval \<Rightarrow> evo_error + pyval" where
  "merge_in value key parent =
     (case parent of
        PDict d \<Rightarrow>
          Inr (PDict (dict_set key
            (case (dict_get d key, value) of
               (Some (PDict old), PDict new) \<Rightarrow> PDict (fold (\<lambda>(k, x) m. dict_set k x m) new old)
             | _ \<Rightarrow> value) d))
      | _ \<Rightarrow> Inl (MutationError ''MERGE_OBJECT can only be applied to dictionary parents.''))"

definition add_in :: "MutationOperationSpec \<Rightarrow> pyval \<Rightarrow> evo_error + pyval" where
  "add_in m container =
     (case container of
        PList xs \<Rightarrow> Inr (PList (xs @ [mo_value m]))
      | _ \<Rightarrow> Inl (MutationError (''ADD_ITEM target path must be a list: '' @ mo_path m)))"

definition apply_operation :: "MutationOperationSpec \<Rightarrow> pyval \<Rightarrow> evo_error + pyval" where
  "apply_operation m v =
     (case mo_operation m of
        SET_VALUE \<Rightarrow> at_parent (mo_path m) (set_in (mo_value m)) v
      | ADD_ITEM \<Rightarrow> at_path (split_path (mo_path m)) (add_in m) v
      | REMOVE_ITEM \<Rightarrow> at_parent (mo_path m) remove_in v
      | MERGE_OBJECT \<Rightarrow> at_parent (mo_path m) (merge_in (mo_value m)) v)"

fun apply_operations :: "MutationOperationSpec list \<Rightarrow> pyval \<Rightarrow> evo_error + pyval" where
  "apply_operations [] v = Inr v"
| "apply_operations (m # ms) v = (case apply_operation m v of Inl exn \<Rightarrow> Inl exn | Inr w \<Rightarrow> apply_operations ms w)"

section \<open>Provenance\<close>

definition provenance_entry :: "MutationSpec \<Rightarrow> pyval" where
  "provenance_entry m = PDict [(''mutation_id'', opt_text (ms_id m)), (''operator'', PStr (ms_operator m)), (''chromosome_family'', PStr (ms_chromosome_family m)),
     (''gene_id'', PStr (ms_gene_id m)), (''rationale'', PStr (ms_rationale m))]"

text \<open>\<open>setdefault\<close> and \<open>append\<close> on whatever the operations have left at \<open>evolution\<close> and \<open>mutations\<close>.\<close>

definition with_provenance :: "MutationSpec \<Rightarrow> payload \<Rightarrow> evo_error + payload" where
  "with_provenance m isr =
     (case get_or isr ''evolution'' (PDict []) of
        PDict d \<Rightarrow>
          (case get_or d ''mutations'' (PList []) of
             PList xs \<Rightarrow> Inr (dict_set ''evolution'' (PDict (dict_set ''mutations'' (PList (xs @ [provenance_entry m])) d)) isr)
           | _ \<Rightarrow> Inl (OtherError ''object has no attribute append''))
      | _ \<Rightarrow> Inl (OtherError ''object has no attribute setdefault''))"

definition apply_mutation :: "payload \<Rightarrow> MutationSpec \<Rightarrow> evo_error + payload" where
  "apply_mutation base m =
     (case apply_operations (ms_operations m) (PDict base) of
        Inl exn \<Rightarrow> Inl exn
      | Inr (PDict isr) \<Rightarrow> map_sum id (dict_setdefault ''governance'' (PDict baseline_governance_design)) (with_provenance m isr)
      | Inr _ \<Rightarrow> Inl (OtherError ''object has no attribute setdefault''))"

end
