(* ===== verification/Evo_Defaults.thy ===== *)
theory Evo_Defaults
  imports Evo_Stages Evo_Mutation Evo_Evidence
begin

text \<open>
  What the default stages guarantee: the simulator finds exactly the cyclic dependency graphs, a mutation stays at the places it names,
  and a candidate that passes every stage is sound.
\<close>

section \<open>Dependency cycles\<close>

definition depends :: "(string, string list) dict \<Rightarrow> (string \<times> string) set" where
  "depends g = {(a, b). dict_in a g \<and> b \<in> set (neighbors g a) \<and> dict_in b g}"

text \<open>Finished services: closed under dependencies and free of cycles.\<close>

definition settled_services :: "(string, string list) dict \<Rightarrow> string set \<Rightarrow> bool" where
  "settled_services g B \<longleftrightarrow> depends g `` B \<subseteq> B \<and> (\<forall>x \<in> B. (x, x) \<notin> (depends g)\<^sup>+)"

lemma settled_reach: "(y, z) \<in> (depends g)\<^sup>* \<Longrightarrow> settled_services g B \<Longrightarrow> y \<in> B \<Longrightarrow> z \<in> B"
  by (induction rule: rtrancl_induct) (auto simp: settled_services_def)

lemma settled_insert:
  assumes "settled_services g B" "depends g `` {n} \<subseteq> B" "n \<notin> B"
  shows "settled_services g (insert n B)"
proof -
  have "(n, n) \<notin> (depends g)\<^sup>+"
  proof
    assume "(n, n) \<in> (depends g)\<^sup>+"
    then obtain y where y: "(n, y) \<in> depends g" "(y, n) \<in> (depends g)\<^sup>*" by (auto dest: tranclD)
    then show False using settled_reach[OF y(2) assms(1)] assms(2,3) by auto
  qed
  then show ?thesis using assms(1,2) by (auto simp: settled_services_def)
qed

lemma visit_finds:
  "fst (visit_neighbors g ns gray black) \<Longrightarrow> (\<And>x n. x \<in> gray \<Longrightarrow> n \<in> set ns \<Longrightarrow> dict_in n g \<Longrightarrow> (x, n) \<in> (depends g)\<^sup>+)
   \<Longrightarrow> \<exists>n. (n, n) \<in> (depends g)\<^sup>+"
proof (induction g ns gray black rule: visit_neighbors.induct)
  case (2 g n ns gray black)
  let ?out = "visit_neighbors g (neighbors g n) (insert n gray) black"
  consider (skip) "\<not> dict_in n g \<or> (n \<notin> gray \<and> n \<in> black)" | (gray) "dict_in n g" "n \<in> gray"
    | (found) "dict_in n g" "n \<notin> gray" "n \<notin> black" "fst ?out" | (on) "dict_in n g" "n \<notin> gray" "n \<notin> black" "\<not> fst ?out" by blast
  then show ?case
  proof cases
    case skip
    then show ?thesis using 2 by (auto split: if_splits)
  next
    case gray
    then show ?thesis using 2(6)[of n n] by auto
  next
    case found
    have "(x, m) \<in> (depends g)\<^sup>+" if "x \<in> insert n gray" "m \<in> set (neighbors g n)" "dict_in m g" for x m
    proof -
      have "(n, m) \<in> depends g" using that(2,3) found by (simp add: depends_def)
      then show ?thesis using that(1) 2(6)[of x n] found by (auto intro: trancl_into_trancl)
    qed
    then show ?thesis using 2(3) found by blast
  next
    case on
    then show ?thesis using 2(4)[OF _ _ _ refl] 2(5,6) by (simp add: Let_def)
  qed
qed simp

lemma visit_settles:
  "\<not> fst (visit_neighbors g ns gray black) \<Longrightarrow> settled_services g black \<Longrightarrow> gray \<inter> black = {} \<Longrightarrow>
   settled_services g (snd (visit_neighbors g ns gray black)) \<and> gray \<inter> snd (visit_neighbors g ns gray black) = {}
   \<and> {n \<in> set ns. dict_in n g} \<subseteq> snd (visit_neighbors g ns gray black) \<and> black \<subseteq> snd (visit_neighbors g ns gray black)"
proof (induction g ns gray black rule: visit_neighbors.induct)
  case (2 g n ns gray black)
  let ?out = "visit_neighbors g (neighbors g n) (insert n gray) black"
  show ?case
  proof (cases "dict_in n g \<and> n \<notin> gray \<and> n \<notin> black")
    case False
    then show ?thesis using 2 by (auto split: if_splits)
  next
    case True
    then have quiet: "\<not> fst ?out" "\<not> fst (visit_neighbors g ns gray (insert n (snd ?out)))" using 2(5) by (auto simp: Let_def split: if_splits)
    have inner: "settled_services g (snd ?out)" "insert n gray \<inter> snd ?out = {}" "{m \<in> set (neighbors g n). dict_in m g} \<subseteq> snd ?out" "black \<subseteq> snd ?out"
      using 2(3)[of ] quiet(1) 2(6,7) True by auto
    have "settled_services g (insert n (snd ?out))"
      by (rule settled_insert) (use inner in \<open>auto simp: depends_def\<close>)
    moreover have "gray \<inter> insert n (snd ?out) = {}" using inner(2) True by auto
    ultimately have "settled_services g (snd (visit_neighbors g ns gray (insert n (snd ?out))))
      \<and> gray \<inter> snd (visit_neighbors g ns gray (insert n (snd ?out))) = {}
      \<and> {m \<in> set ns. dict_in m g} \<subseteq> snd (visit_neighbors g ns gray (insert n (snd ?out)))
      \<and> insert n (snd ?out) \<subseteq> snd (visit_neighbors g ns gray (insert n (snd ?out)))"
      using 2(4)[OF _ _ _ refl] quiet True by auto
    then show ?thesis using True quiet inner(4) by (auto simp: Let_def)
  qed
qed simp

lemma cycle_iff: "has_dependency_cycle g \<longleftrightarrow> (\<exists>n. (n, n) \<in> (depends g)\<^sup>+)"
proof
  assume "has_dependency_cycle g"
  then show "\<exists>n. (n, n) \<in> (depends g)\<^sup>+" unfolding has_dependency_cycle_def by (rule visit_finds) simp
next
  assume "\<exists>n. (n, n) \<in> (depends g)\<^sup>+"
  then obtain n where n: "(n, n) \<in> (depends g)\<^sup>+" ..
  then have "n \<in> set (map fst g)" by (auto dest!: tranclD simp: depends_def dict_in_def)
  show "has_dependency_cycle g"
  proof (rule ccontr)
    assume "\<not> has_dependency_cycle g"
    then have "\<not> fst (visit_neighbors g (map fst g) {} {})" by (simp add: has_dependency_cycle_def)
    from visit_settles[OF this] have "settled_services g (snd (visit_neighbors g (map fst g) {} {}))" "n \<in> snd (visit_neighbors g (map fst g) {} {})"
      using \<open>n \<in> set (map fst g)\<close> by (auto simp: settled_services_def dict_in_def)
    then show False using n by (simp add: settled_services_def)
  qed
qed

section \<open>Mutation\<close>

text \<open>The keys of an ISR that a specification names: the first segments of its paths.\<close>

definition named_roots :: "MutationSpec \<Rightarrow> string set" where
  "named_roots m = {hd (split_path (mo_path op)) | op. op \<in> set (ms_operations m) \<and> split_path (mo_path op) \<noteq> []}"

definition same_except :: "string set \<Rightarrow> pyval \<Rightarrow> pyval \<Rightarrow> bool" where
  "same_except K v w \<longleftrightarrow> (case (v, w) of (PDict d, PDict e) \<Rightarrow> (\<forall>k. k \<notin> K \<longrightarrow> dict_get e k = dict_get d k) | _ \<Rightarrow> False)"

lemma same_except_dict: "same_except K (PDict d) w \<longleftrightarrow> (\<exists>e. w = PDict e \<and> (\<forall>k. k \<notin> K \<longrightarrow> dict_get e k = dict_get d k))"
  by (auto simp: same_except_def split: pyval.splits)

lemma same_except_trans: "same_except K u v \<Longrightarrow> same_except L v w \<Longrightarrow> K \<subseteq> M \<Longrightarrow> L \<subseteq> M \<Longrightarrow> same_except M u w"
  by (cases u; cases v; cases w) (simp_all add: same_except_def, metis subsetD)

lemma dict_get_remove: "k \<noteq> key \<Longrightarrow> dict_get (filter (\<lambda>(k, _). k \<noteq> key) d) k = dict_get d k"
  by (induction d) (auto simp: dict_get_def)

lemma map_sum_InrE: "map_sum id f x = Inr y \<Longrightarrow> (\<And>z. x = Inr z \<Longrightarrow> y = f z \<Longrightarrow> P) \<Longrightarrow> P"
  by (cases x) auto

lemma at_path_same: "at_path (s # ss) f (PDict d) = Inr w \<Longrightarrow> same_except {s} (PDict d) w"
  by (auto simp: same_except_dict dict.lookup_put elim!: map_sum_InrE split: option.splits)

lemma at_parent_same:
  assumes "at_parent path f (PDict d) = Inr w" "\<And>key e w. f key (PDict e) = Inr w \<Longrightarrow> same_except {key} (PDict e) w"
  shows "split_path path \<noteq> [] \<and> same_except {hd (split_path path)} (PDict d) w"
proof (cases "split_path path")
  case (Cons s ss)
  show ?thesis
  proof (cases ss)
    case Nil
    then show ?thesis using assms Cons by (simp add: at_parent_def)
  next
    case (Cons t ts)
    then show ?thesis using assms(1) \<open>split_path path = s # ss\<close> at_path_same[of s] by (simp add: at_parent_def Let_def del: at_path.simps)
  qed
qed (use assms in \<open>simp add: at_parent_def\<close>)

lemma edits_same:
  "set_in value key (PDict e) = Inr w \<Longrightarrow> same_except {key} (PDict e) w"
  "remove_in key (PDict e) = Inr w \<Longrightarrow> same_except {key} (PDict e) w"
  "merge_in value key (PDict e) = Inr w \<Longrightarrow> same_except {key} (PDict e) w"
  by (auto simp: set_in_def remove_in_def merge_in_def same_except_dict dict.lookup_put dict_get_remove split: if_splits)

lemma apply_operation_same:
  assumes "apply_operation m (PDict d) = Inr w"
  shows "split_path (mo_path m) \<noteq> [] \<and> same_except {hd (split_path (mo_path m))} (PDict d) w"
proof (cases "mo_operation m")
  case ADD_ITEM
  show ?thesis
  proof (cases "split_path (mo_path m)")
    case Nil
    then show ?thesis using assms ADD_ITEM by (simp add: apply_operation_def add_in_def)
  next
    case (Cons s ss)
    then show ?thesis using assms ADD_ITEM at_path_same[of s ss] by (simp add: apply_operation_def del: at_path.simps)
  qed
qed (use assms in \<open>auto simp: apply_operation_def dest!: at_parent_same intro: edits_same\<close>)

lemma apply_operations_same:
  "apply_operations ms (PDict d) = Inr w \<Longrightarrow>
   same_except {hd (split_path (mo_path op)) | op. op \<in> set ms \<and> split_path (mo_path op) \<noteq> []} (PDict d) w"
proof (induction ms arbitrary: d)
  case (Cons m ms)
  then obtain v where v: "apply_operation m (PDict d) = Inr v" "apply_operations ms v = Inr w" by (auto split: sum.splits)
  have step: "split_path (mo_path m) \<noteq> []" "same_except {hd (split_path (mo_path m))} (PDict d) v" using apply_operation_same[OF v(1)] by auto
  then obtain e where e: "v = PDict e" by (auto simp: same_except_dict)
  show ?case by (rule same_except_trans[OF step(2) Cons.IH[OF v(2)[unfolded e], folded e]]) (use step(1) in auto)
qed (auto simp: same_except_dict)

lemma with_provenance_has:
  assumes "with_provenance m d = Inr isr"
  shows "\<exists>e xs. dict_get isr ''evolution'' = Some (PDict e) \<and> dict_get e ''mutations'' = Some (PList (xs @ [provenance_entry m]))"
    and "k \<noteq> ''evolution'' \<Longrightarrow> dict_get isr k = dict_get d k"
  using assms by (auto simp: with_provenance_def dict.lookup_put split: pyval.splits)

lemma setdefault_get: "dict_get (dict_setdefault k v d) k' = (case dict_get d k' of Some x \<Rightarrow> Some x | None \<Rightarrow> if k' = k then Some v else None)"
proof (cases "dict_in k d")
  case True
  then have "dict_get d k \<noteq> None" by (auto simp: dict_in_def dict_get_def map_of_eq_None_iff)
  then show ?thesis using True by (auto simp: dict_setdefault_def split: option.splits)
next
  case False
  then have "dict_get d k = None" by (auto simp: dict_in_def dict_get_def map_of_eq_None_iff)
  then show ?thesis using False by (auto simp: dict_setdefault_def dict_get_def map_add_def split: option.splits)
qed

text \<open>C26. A mutation stays at the places it names: a key of the ISR that no operation's path begins with keeps its value, the governance
  design included; besides, the mutation is entered at the end of the provenance list and the result has a governance design.\<close>

theorem mutation_touches_named_places:
  assumes "apply_mutation base m = Inr isr"
  shows "(\<forall>k. k \<notin> named_roots m \<union> {''evolution'', ''governance''} \<longrightarrow> dict_get isr k = dict_get base k)
    \<and> (''governance'' \<notin> named_roots m \<and> dict_get base ''governance'' \<noteq> None \<longrightarrow> dict_get isr ''governance'' = dict_get base ''governance'')
    \<and> dict_get isr ''governance'' \<noteq> None
    \<and> (\<exists>d xs. dict_get isr ''evolution'' = Some (PDict d) \<and> dict_get d ''mutations'' = Some (PList (xs @ [provenance_entry m])))"
proof -
  obtain d e where d: "apply_operations (ms_operations m) (PDict base) = Inr (PDict d)" "with_provenance m d = Inr e"
    "isr = dict_setdefault ''governance'' (PDict baseline_governance_design) e"
    using assms by (auto simp: apply_mutation_def elim!: map_sum_InrE split: sum.splits pyval.splits)
  have kept: "k \<notin> named_roots m \<Longrightarrow> dict_get d k = dict_get base k" for k
    using apply_operations_same[OF d(1)] by (auto simp: same_except_dict named_roots_def)
  have e: "k \<noteq> ''evolution'' \<Longrightarrow> dict_get e k = dict_get d k" for k using with_provenance_has(2)[OF d(2)] .
  obtain h xs where "dict_get e ''evolution'' = Some (PDict h)" "dict_get h ''mutations'' = Some (PList (xs @ [provenance_entry m]))"
    using with_provenance_has(1)[OF d(2)] by blast
  then show ?thesis using kept e by (auto simp: d(3) setdefault_get split: option.splits)
qed

definition sample_mutation :: MutationSpec where
  "sample_mutation = \<lparr>ms_id = Some ''m1'', ms_operator = ''op'', ms_chromosome_family = ''security'', ms_gene_id = ''g'',
     ms_operations = [\<lparr>mo_operation = SET_VALUE, mo_path = ''security.tls'', mo_value = PBool True, mo_rationale = []\<rparr>], ms_rationale = []\<rparr>"

definition sample_isr :: payload where
  "sample_isr = [(''name'', PStr ''shop''), (''security'', PDict [])]"

lemma sample_mutation_applies: "\<exists>isr. apply_mutation sample_isr sample_mutation = Inr isr"
  by (simp add: apply_mutation_def sample_isr_def sample_mutation_def apply_operation_def at_parent_def split_path_def set_in_def dict_get_def dict_set_def
      with_provenance_def get_or_def)

lemma mutation_touches_named_places_witness:
  "\<exists>isr. apply_mutation sample_isr sample_mutation = Inr isr \<and> dict_get isr ''name'' = Some (PStr ''shop'')"
proof -
  obtain isr where isr: "apply_mutation sample_isr sample_mutation = Inr isr" using sample_mutation_applies by blast
  have "''name'' \<notin> named_roots sample_mutation \<union> {''evolution'', ''governance''}"
    by (simp add: named_roots_def sample_mutation_def split_path_def)
  then have "dict_get isr ''name'' = dict_get sample_isr ''name''" using mutation_touches_named_places[OF isr] by blast
  then show ?thesis using isr by (simp add: sample_isr_def dict_get_def)
qed

section \<open>Passing every stage\<close>

lemma exact_13_16: "fl (13 / 16) = Fin (13 / 16)"
  by code_simp

lemma exact_3_16: "fl (3 / 16) = Fin (3 / 16)"
  by code_simp

lemma fifth_above_3_16: "\<not> f_le (fl (2 / 10)) (Fin (3 / 16))"
proof -
  have "fl (25 / 128) = Fin (25 / 128)" by code_simp
  then have "f_le (Fin (25 / 128)) (fl (2 / 10))" using fl_mono[of "25 / 128" "2 / 10"] by simp
  then show ?thesis by (cases "fl (2 / 10)") auto
qed

lemma rounded_below: "r \<le> 3 / 16 \<Longrightarrow> f_le (f_round 4 (Fin r)) (Fin (3 / 16))"
proof -
  assume "r \<le> 3 / 16"
  then have "rhe (r * 10 ^ 4) \<le> 1875" by (intro rhe_le_iff_int) simp
  then have "of_int (rhe (r * 10 ^ 4)) / 10 ^ 4 \<le> (3 / 16 :: rat)" by (simp add: field_simps)
  then show ?thesis using fl_mono exact_3_16 by (metis f_round.simps(1))
qed

lemma simplicity_bounds_complexity:
  assumes "py_float (PInt (int n)) = Inr x" "f_div x (Fin 50) = Inr share" "f_ge (f_round 4 (f_max (Fin 0) (f_sub (Fin 1) share))) (fl (2 / 10))"
  shows "n \<le> 40"
proof (rule ccontr)
  assume "\<not> n \<le> 40"
  then have n: "(41::rat) \<le> of_int (int n)" by simp
  obtain q where q: "fl (of_int (int n)) = Fin q" "x = Fin q" using assms(1) by (auto split: pyfloat.splits)
  have "f_le (fl (of_int 41)) (fl (of_int (int n)))" using n by (intro fl_mono) simp
  then have "41 \<le> q" using q fl_int[of 41] by simp
  then have "f_le (fl (13 / 16)) (fl (q / 50))" by (intro fl_mono) simp
  moreover have "share = fl (q / 50)" using assms(2) q by simp
  ultimately have share: "f_le (Fin (13 / 16)) share" by (simp add: exact_13_16)
  have "\<exists>r. f_max (Fin 0) (f_sub (Fin 1) share) = Fin r \<and> r \<le> 3 / 16"
  proof (cases share)
    case (Fin s)
    then have "f_le (fl (1 - s)) (fl (3 / 16))" using share by (intro fl_mono) simp
    then show ?thesis using Fin by (cases "fl (1 - s)") (auto simp: f_max_def f_sub_def exact_3_16)
  qed (use share in \<open>auto simp: f_max_def f_sub_def\<close>)
  then have "f_le (f_round 4 (f_max (Fin 0) (f_sub (Fin 1) share))) (Fin (3 / 16))" using rounded_below by auto
  then show False using assms(3) fifth_above_3_16 f_le_trans by blast
qed

lemma required_clean:
  assumes "\<not> has_error (required_issues isr @ rest)"
  shows "truthy (get_or isr ''isr_id'' PNone) \<and> truthy (get_or isr ''version'' PNone) \<and> truthy (get_or isr ''name'' PNone) \<and> \<not> has_error rest"
  using assms by (auto simp: required_issues_def has_error_def issue_def split: if_splits)

lemma simulate_passed:
  assumes "simulate ts c = Inr s" "sr_status s = SIM_PASSED"
  obtains services models apis deps g where "all_yielded (iter_services (ca_isr c)) = Inr services" "data_models (ca_isr c) = Inr models"
    "tally services 0 0 [] = Inr (apis, deps, g)" "\<not> has_dependency_cycle g"
    "get_or (sr_metrics s) ''complexity'' (PInt 0) = PInt (int (length services + apis + length models + deps))"
proof -
  obtain services models apis deps g where ran: "all_yielded (iter_services (ca_isr c)) = Inr services" "data_models (ca_isr c) = Inr models"
    "tally services 0 0 [] = Inr (apis, deps, g)"
    "s = simulation_result c (simulation_metrics (length services) apis (length models) deps)
       (required_issues (ca_isr c) @ (if has_dependency_cycle g then [issue ISSUE_ERROR ''DEPENDENCY_CYCLE'' ''Service dependency cycle detected.''] else [])) ts"
    using assms(1) by (auto simp: simulate_def split: sum.splits)
  have "\<not> has_dependency_cycle g"
    using assms(2) by (auto simp: ran(4) simulation_result_def Let_def has_error_def issue_def split: if_splits)
  moreover have "get_or (sr_metrics s) ''complexity'' (PInt 0) = PInt (int (length services + apis + length models + deps))"
    by (simp add: ran(4) simulation_result_def Let_def simulation_metrics_def get_or_def dict_get_def)
  ultimately show ?thesis using that ran by blast
qed

lemma removed_none: "removed_apis base names = [] \<longleftrightarrow> set base \<subseteq> set names"
proof -
  have "removed_apis base names = [] \<longleftrightarrow> set (removed_apis base names) = {}" by simp
  also have "\<dots> \<longleftrightarrow> set base \<subseteq> set names" unfolding removed_apis_def by auto
  finally show ?thesis .
qed

lemma has_error_append: "has_error (xs @ ys) \<longleftrightarrow> has_error xs \<or> has_error ys"
  by (simp add: has_error_def)

lemma has_error_if: "has_error (if b then [issue ISSUE_ERROR code message] else []) \<longleftrightarrow> b"
  by (simp add: has_error_def issue_def)

lemma has_error_if_not: "has_error (if b then [issue (if w then ISSUE_WARNING else ISSUE_ERROR) code message] else []) \<longleftrightarrow> b \<and> \<not> w"
  by (simp add: has_error_def issue_def)

lemma verify_valid:
  assumes "verify ts c p = Inr v" "vr_valid v"
  obtains base names where "lacks_provenance (ca_isr c) = Inr False" "ca_content_hash c \<noteq> ca_base_isr_hash c"
    "truthy (get_or (ca_isr c) ''isr_id'' PNone) \<and> truthy (get_or (ca_isr c) ''version'' PNone) \<and> truthy (get_or (ca_isr c) ''name'' PNone)"
    "collect_api_names (er_base_isr (pr_request p)) = Inr base" "collect_api_names (ca_isr c) = Inr names"
    "er_allow_breaking_changes (pr_request p) \<or> set base \<subseteq> set names"
proof -
  obtain lacks base names where ran: "lacks_provenance (ca_isr c) = Inr lacks" "collect_api_names (er_base_isr (pr_request p)) = Inr base"
    "collect_api_names (ca_isr c) = Inr names"
    using assms(1) unfolding verify_def by (cases "lacks_provenance (ca_isr c)"; cases "collect_api_names (er_base_isr (pr_request p))";
      cases "collect_api_names (ca_isr c)") simp_all
  have "\<not> has_error (required_issues (ca_isr c)) \<and> ca_content_hash c \<noteq> ca_base_isr_hash c \<and> \<not> lacks
      \<and> (removed_apis base names = [] \<or> er_allow_breaking_changes (pr_request p))"
    using assms unfolding verify_def ran sum.case Let_def
    by (auto simp only: sum.inject VerificationReport.simps has_error_append has_error_if has_error_if_not)
  then have "lacks_provenance (ca_isr c) = Inr False" "ca_content_hash c \<noteq> ca_base_isr_hash c"
    "er_allow_breaking_changes (pr_request p) \<or> set base \<subseteq> set names" "\<not> has_error (required_issues (ca_isr c) @ [])"
    using ran removed_none[of base names] by auto
  then show ?thesis using that ran required_clean by blast
qed

lemma fitness_passed:
  assumes "governance_aware_evaluate cfg ts c s (Some v) = Inr f" "fe_passed f"
  obtains x share where "sr_status s = SIM_PASSED" "py_float (get_or (sr_metrics s) ''complexity'' (PInt 0)) = Inr x" "f_div x (Fin 50) = Inr share"
    "list_all (\<lambda>(k, y). f_ge y (fl (2 / 10))) (base_objectives (ca_isr c) (f_max (Fin 0) (f_sub (Fin 1) share)) (vr_valid v))"
proof -
  obtain f' where f': "evaluate_fitness ts c s (Some v) = Inr f'" "fe_passed f'"
    using assms unfolding governance_aware_evaluate_def by (auto elim!: map_sum_InrE)
  obtain x share where xs: "py_float (get_or (sr_metrics s) ''complexity'' (PInt 0)) = Inr x" "f_div x (Fin 50) = Inr share"
    "f' = fitness_result ts c s x (f_max (Fin 0) (f_sub (Fin 1) share)) (vr_valid v)"
    using f'(1) unfolding evaluate_fitness_def by (auto split: sum.splits)
  from f'(2) have scores: "list_all (\<lambda>(k, y). f_ge y (fl (2 / 10))) (base_objectives (ca_isr c) (f_max (Fin 0) (f_sub (Fin 1) share)) (vr_valid v))"
    unfolding xs(3) fitness_result_def Let_def FitnessEvaluation.simps by blast
  from f'(2) have "sr_status s = SIM_PASSED" by (simp add: xs(3) fitness_result_def Let_def)
  from that[OF this xs(1,2) scores] show ?thesis .
qed

lemma fl_fifth_positive: "\<not> f_le (fl (2 / 10)) (f_round 4 (Fin 0))"
proof
  assume "f_le (fl (2 / 10)) (f_round 4 (Fin 0))"
  from f_le_trans[OF this rounded_below[of 0]] show False using fifth_above_3_16 by simp
qed

lemma readiness_passes: "f_ge (f_round 4 (readiness b)) (fl (2 / 10)) \<Longrightarrow> b"
  using fl_fifth_positive by (cases b) (simp_all add: readiness_def del: f_round.simps)

lemma objectives_pass:
  assumes "list_all (\<lambda>(k, y). f_ge y (fl (2 / 10))) (base_objectives isr simplicity valid)"
  shows "f_ge (f_round 4 simplicity) (fl (2 / 10))" "valid"
    "truthy (list_field isr ''domains'') \<or> truthy (list_field isr ''services'')"
    "truthy (get_or isr ''security'' PNone)" "truthy (get_or isr ''observability'' PNone)" "truthy (get_or isr ''deployment'' PNone)"
    "truthy (get_or isr ''testing'' PNone)"
proof -
  have all: "f_ge (f_round 4 simplicity) (fl (2 / 10))
      \<and> f_ge (f_round 4 (readiness (truthy (list_field isr ''domains'') \<or> truthy (list_field isr ''services'')))) (fl (2 / 10))
      \<and> f_ge (f_round 4 (readiness (truthy (get_or isr ''security'' PNone)))) (fl (2 / 10))
      \<and> f_ge (f_round 4 (readiness (truthy (get_or isr ''observability'' PNone)))) (fl (2 / 10))
      \<and> f_ge (f_round 4 (readiness (truthy (get_or isr ''deployment'' PNone)))) (fl (2 / 10))
      \<and> f_ge (f_round 4 (readiness (truthy (get_or isr ''testing'' PNone)))) (fl (2 / 10))
      \<and> f_ge (f_round 4 (readiness valid)) (fl (2 / 10))"
    using assms unfolding base_objectives_def list.map list.pred_inject prod.case by blast
  from all show "f_ge (f_round 4 simplicity) (fl (2 / 10))" by blast
  from all show "valid" using readiness_passes by blast
  from all show "truthy (list_field isr ''domains'') \<or> truthy (list_field isr ''services'')" using readiness_passes by blast
  from all show "truthy (get_or isr ''security'' PNone)" using readiness_passes by blast
  from all show "truthy (get_or isr ''observability'' PNone)" using readiness_passes by blast
  from all show "truthy (get_or isr ''deployment'' PNone)" using readiness_passes by blast
  from all show "truthy (get_or isr ''testing'' PNone)" using readiness_passes by blast
qed

text \<open>What the default stages leave of a candidate's defects.\<close>

definition well_described :: "payload \<Rightarrow> bool" where
  "well_described isr \<longleftrightarrow>
     list_all (\<lambda>key. truthy (get_or isr key PNone))
       [''isr_id'', ''version'', ''name'', ''security'', ''observability'', ''deployment'', ''testing'']
     \<and> (truthy (list_field isr ''domains'') \<or> truthy (list_field isr ''services''))"

definition keeps_apis :: "payload \<Rightarrow> payload \<Rightarrow> bool" where
  "keeps_apis base isr = (case (collect_api_names base, collect_api_names isr) of (Inr old, Inr new) \<Rightarrow> set old \<subseteq> set new | _ \<Rightarrow> False)"

definition acyclic_and_small :: "payload \<Rightarrow> bool" where
  "acyclic_and_small isr \<longleftrightarrow>
     (\<exists>services models apis deps g. all_yielded (iter_services isr) = Inr services \<and> data_models isr = Inr models
        \<and> tally services 0 0 [] = Inr (apis, deps, g) \<and> (\<nexists>n. (n, n) \<in> (depends g)\<^sup>+)
        \<and> length services + apis + length models + deps \<le> 40)"

text \<open>Together with what verification compares with the request of the proposal.\<close>

definition candidate_sound :: "CandidateArchitecture \<Rightarrow> EvolutionProposalRequest \<Rightarrow> bool" where
  "candidate_sound c request \<longleftrightarrow> well_described (ca_isr c) \<and> acyclic_and_small (ca_isr c) \<and> ca_content_hash c \<noteq> ca_base_isr_hash c
     \<and> lacks_provenance (ca_isr c) = Inr False \<and> (er_allow_breaking_changes request \<or> keeps_apis (er_base_isr request) (ca_isr c))"

lemma stages_sound:
  assumes "simulate ts1 c = Inr s" "verify ts2 c p = Inr v" "governance_aware_evaluate cfg ts3 c s (Some v) = Inr f" "fe_passed f"
  shows "candidate_sound c (pr_request p)"
proof -
  obtain x share where status: "sr_status s = SIM_PASSED" and x: "py_float (get_or (sr_metrics s) ''complexity'' (PInt 0)) = Inr x" "f_div x (Fin 50) = Inr share"
    "list_all (\<lambda>(k, y). f_ge y (fl (2 / 10))) (base_objectives (ca_isr c) (f_max (Fin 0) (f_sub (Fin 1) share)) (vr_valid v))"

    by (rule fitness_passed[OF assms(3,4)])
  note passes = objectives_pass[OF x(3)]
  obtain services models apis deps g where ran: "all_yielded (iter_services (ca_isr c)) = Inr services" "data_models (ca_isr c) = Inr models"
    "tally services 0 0 [] = Inr (apis, deps, g)" "\<not> has_dependency_cycle g"
    "get_or (sr_metrics s) ''complexity'' (PInt 0) = PInt (int (length services + apis + length models + deps))"
    by (rule simulate_passed[OF assms(1) status])
  have "length services + apis + length models + deps \<le> 40"
    by (rule simplicity_bounds_complexity[OF x(1)[unfolded ran(5)] x(2) passes(1)])
  then have "acyclic_and_small (ca_isr c)" using ran(1-4) by (auto simp: acyclic_and_small_def cycle_iff)
  moreover obtain base names where "lacks_provenance (ca_isr c) = Inr False" "ca_content_hash c \<noteq> ca_base_isr_hash c"
    "truthy (get_or (ca_isr c) ''isr_id'' PNone) \<and> truthy (get_or (ca_isr c) ''version'' PNone) \<and> truthy (get_or (ca_isr c) ''name'' PNone)"
    "collect_api_names (er_base_isr (pr_request p)) = Inr base" "collect_api_names (ca_isr c) = Inr names"
    "er_allow_breaking_changes (pr_request p) \<or> set base \<subseteq> set names"
    by (rule verify_valid[OF assms(2) passes(2)])
  ultimately show ?thesis using passes(3-7) by (simp add: candidate_sound_def well_described_def keeps_apis_def)
qed

definition sound_isr :: payload where
  "sound_isr = [(''isr_id'', PStr ''i''), (''version'', PStr ''1''), (''name'', PStr ''shop''), (''domains'', PList [PDict []]),
     (''security'', PBool True), (''observability'', PBool True), (''deployment'', PBool True), (''testing'', PBool True),
     (''evolution'', PDict [(''mutations'', PList [PStr ''m1''])])]"

definition sound_candidate :: CandidateArchitecture where
  "sound_candidate = \<lparr>ca_id = ''c1'', ca_proposal_id = ''p1'', ca_mutation_spec_id = ''m1'', ca_base_isr_hash = ''b'', ca_content_hash = ''c'',
     ca_isr = sound_isr, ca_created_at = ''t''\<rparr>"

lemma rounded_one: "f_round 4 (Fin 1) = Fin 1"
  by code_simp

lemma fifth_below_one: "f_le (fl (1 / 5)) (Fin 1)"
  using fl_mono[of "1 / 5" 1] fl_int[of 1] by simp

lemma sound_isr_get:
  "get_or sound_isr ''isr_id'' d = PStr ''i''" "get_or sound_isr ''version'' d = PStr ''1''" "get_or sound_isr ''name'' d = PStr ''shop''"
  "get_or sound_isr ''domains'' d = PList [PDict []]" "get_or sound_isr ''services'' d = d" "get_or sound_isr ''data_models'' d = d"
  "get_or sound_isr ''security'' d = PBool True" "get_or sound_isr ''observability'' d = PBool True"
  "get_or sound_isr ''deployment'' d = PBool True" "get_or sound_isr ''testing'' d = PBool True"
  "get_or sound_isr ''evolution'' d = PDict [(''mutations'', PList [PStr ''m1''])]"
  by (simp_all add: sound_isr_def get_or_def dict_get_def)

lemma sound_isr_walk:
  "iter_services sound_isr = ([], None)" "data_models sound_isr = Inr []" "collect_api_names sound_isr = Inr []" "required_issues sound_isr = []"
  "lacks_provenance sound_isr = Inr False" "iter_services [] = ([], None)" "collect_api_names [] = Inr []"
  by (simp_all add: iter_services_def data_models_def collect_api_names_def required_issues_def lacks_provenance_def list_field_def sound_isr_get
      py_or_def py_iter_def services_of_def after_loop_def) (simp_all add: get_or_def dict_get_def)

lemma sound_simulation:
  "\<exists>s. simulate ''t'' sound_candidate = Inr s \<and> sr_status s = SIM_PASSED \<and> get_or (sr_metrics s) ''complexity'' (PInt 0) = PInt 0"
  by (simp add: simulate_def sound_candidate_def all_yielded_def sound_isr_walk simulation_result_def has_dependency_cycle_def has_error_def
      simulation_metrics_def get_or_def dict_get_def Let_def)

lemma sound_verification:
  "er_base_isr (pr_request p) = [] \<Longrightarrow> \<exists>v. verify ''t'' sound_candidate p = Inr v \<and> vr_valid v"
  by (simp add: verify_def sound_candidate_def sound_isr_walk removed_apis_def has_error_def Let_def)

lemma sound_fitness:
  assumes "sr_status s = SIM_PASSED" "get_or (sr_metrics s) ''complexity'' (PInt 0) = PInt 0" "vr_valid v"
  shows "\<exists>f. governance_aware_evaluate cfg ''t'' sound_candidate s (Some v) = Inr f \<and> fe_passed f"
proof -
  have zero: "fl 0 = Fin 0" and one: "fl 1 = Fin 1" using fl_int[of 0] fl_int[of 1] by simp_all
  have "fe_passed (fitness_result ''t'' sound_candidate s (Fin 0) (Fin 1) True)"
    using assms rounded_one fifth_below_one
    by (simp add: fitness_result_def Let_def base_objectives_def sound_candidate_def sound_isr_get list_field_def py_or_def readiness_def del: f_round.simps)
  moreover have "evaluate_fitness ''t'' sound_candidate s (Some v) = Inr (fitness_result ''t'' sound_candidate s (Fin 0) (Fin 1) True)"
    using assms by (simp add: evaluate_fitness_def zero one f_max_def f_sub_def)
  ultimately show ?thesis by (simp add: governance_aware_evaluate_def)
qed

section \<open>The default collaborators\<close>

text \<open>What the constructor of the engine builds when it is given nothing (\<open>engine.py\<close>). Each stage reads the clock for itself: the
  readings are given by candidate.\<close>

definition raised :: "py_exn + 'a \<Rightarrow> evo_error + 'a" where
  "raised out = map_sum (\<lambda>exn. OtherError (exn_text exn)) id out"

definition default_collaborators ::
  "GovernanceDesignFitnessConfig \<Rightarrow> (string \<Rightarrow> string) \<Rightarrow> (string \<Rightarrow> string) \<Rightarrow> (string \<Rightarrow> string) \<Rightarrow> collaborators" where
  "default_collaborators cfg ts1 ts2 ts3 =
     \<lparr>co_mutate = apply_mutation, co_simulate = \<lambda>c. raised (simulate (ts1 (ca_id c)) c),
      co_verify = \<lambda>c p. raised (verify (ts2 (ca_id c)) c p),
      co_evaluate = \<lambda>c s v. raised (governance_aware_evaluate cfg (ts3 (ca_id c)) c s v), co_governance = None\<rparr>"

lemma raised_Inr [simp]: "raised out = Inr x \<longleftrightarrow> out = Inr x"
  by (cases out) (simp_all add: raised_def)

lemma verify_names_candidate: "verify ts c p = Inr v \<Longrightarrow> vr_candidate_id v = ca_id c"
  by (auto simp: verify_def Let_def simp del: list.map append_Nil split: sum.splits)

lemma evaluate_names_candidate: "governance_aware_evaluate cfg ts c s v = Inr f \<Longrightarrow> fe_candidate_id f = ca_id c"
  by (auto simp: governance_aware_evaluate_def evaluate_fitness_def fitness_result_def Let_def elim!: map_sum_InrE split: sum.splits option.splits)

lemma default_honest: "honest (default_collaborators cfg ts1 ts2 ts3)"
  by (auto simp: honest_def default_collaborators_def dest: verify_names_candidate evaluate_names_candidate)

section \<open>Evaluation with the default collaborators\<close>

definition request_of :: "string \<Rightarrow> self_evolution \<Rightarrow> EvolutionProposalRequest option" where
  "request_of pid st = map_option pr_request (dict_get (se_proposals st) pid)"

lemma request_of_update: "request_of pid (update_proposal pid (note_simulation sid) (store_simulation s st)) = request_of pid st"
  by (simp add: request_of_def update_proposal_def note_simulation_def store_simulation_def put_proposal_def dict.lookup_put split: option.splits)

lemma request_of_try: "request_of pid (snd (try_candidate co pid c st)) = request_of pid st"
  by (auto simp: try_candidate_def Let_def request_of_update split: sum.splits)

lemma request_of_iso_now: "request_of pid (snd (iso_now st)) = request_of pid st"
  by (simp add: request_of_def iso_now_def)

lemma try_candidate_passes:
  assumes "tr_feasible (fst (try_candidate co pid c st))"
  obtains s v f p where "co_simulate co c = Inr s" "co_verify co c p = Inr v" "co_evaluate co c s (Some v) = Inr f" "fe_passed f"
    "request_of pid st = Some (pr_request p)"
proof -
  obtain s v f p where ran: "co_simulate co c = Inr s" "co_verify co c p = Inr v" "co_evaluate co c s (Some v) = Inr f" "fe_passed f"
    "get_proposal pid (update_proposal pid (note_simulation (sr_id s)) (store_simulation s st)) = Inr p"
    using assms by (auto simp: try_candidate_def stopped_def Let_def split: sum.splits if_splits)
  have "request_of pid st = Some (pr_request p)"
    using ran(5) request_of_update[of pid "sr_id s" s st, symmetric] by (simp add: request_of_def get_proposal_def split: option.splits)
  then show ?thesis using that ran by blast
qed

lemma try_default_sound:
  assumes "tr_feasible (fst (try_candidate (default_collaborators cfg ts1 ts2 ts3) pid c st))"
  shows "\<exists>request. request_of pid st = Some request \<and> candidate_sound c request"
  by (rule try_candidate_passes[OF assms]) (auto simp: default_collaborators_def intro: stages_sound)

lemma evaluate_loop_sound:
  "evaluate_loop (default_collaborators cfg ts1 ts2 ts3) pid force cids es st = (es', st') \<Longrightarrow> dict_get es' cid = Some e \<Longrightarrow> dict_get es cid \<noteq> Some e \<Longrightarrow>
   ce_feasible e \<Longrightarrow>
   \<exists>c request. dict_get (se_candidates st) cid = Some c \<and> request_of pid st = Some request \<and> candidate_sound c request"
proof (induction cids arbitrary: es st)
  case (Cons k cids)
  let ?co = "default_collaborators cfg ts1 ts2 ts3"
  show ?case
  proof (cases "dict_in k es \<and> \<not> force \<or> dict_get (se_candidates st) k = None")
    case True
    then show ?thesis using Cons by (auto split: if_splits option.splits)
  next
    case False
    then obtain c where c: "dict_get (se_candidates st) k = Some c" by auto
    let ?t = "try_candidate ?co pid c st"
    let ?e = "evaluation_of k (fst ?t) (fst (iso_now (snd ?t)))"
    show ?thesis
    proof (cases "dict_get (dict_set k ?e es) cid = Some e")
      case True
      then have "cid = k" "e = ?e" using Cons.prems(3) by (auto simp: dict.lookup_put split: if_splits)
      then have "tr_feasible (fst ?t)" using Cons.prems(4) by (simp add: evaluation_of_def)
      then show ?thesis using try_default_sound c \<open>cid = k\<close> by blast
    next
      case False
      moreover have "evaluate_loop ?co pid force cids (dict_set k ?e es) (snd (iso_now (snd ?t))) = (es', st')"
        using Cons.prems(1) c \<open>\<not> (dict_in k es \<and> \<not> force \<or> dict_get (se_candidates st) k = None)\<close> by (simp add: split_beta split: if_splits)
      ultimately have "\<exists>c request. dict_get (se_candidates (snd (iso_now (snd ?t)))) cid = Some c
          \<and> request_of pid (snd (iso_now (snd ?t))) = Some request \<and> candidate_sound c request"
        using Cons.IH Cons.prems(2,4) by blast
      then show ?thesis by (simp add: request_of_iso_now request_of_try try_candidate_candidates)
    qed
  qed
qed simp

text \<open>C18. A candidate that the multi-candidate engine records as feasible in a call with the default stages is sound: its ISR has the required and
  the readiness sections, differs from the base, carries provenance, keeps every API name of the base unless the request allows
  breaking changes, has no cyclic service dependency, and has at most 40 services, APIs, models and dependencies together.\<close>

theorem feasible_candidates_are_sound:
  assumes "evaluate_candidates (default_collaborators cfg ts1 ts2 ts3) pid actor force mu = (Inr records, mu')"
    "dict_get (proposal_evaluations pid mu') cid = Some e" "dict_get (proposal_evaluations pid mu) cid \<noteq> Some e" "ce_feasible e"
  shows "\<exists>c p. dict_get (se_candidates (mu_base mu)) cid = Some c \<and> get_proposal pid (mu_base mu) = Inr p \<and> candidate_sound c (pr_request p)"
proof -
  obtain p es st where ran: "get_proposal pid (mu_base mu) = Inr p"
    "evaluate_loop (default_collaborators cfg ts1 ts2 ts3) pid force (pr_candidate_ids p) (proposal_evaluations pid mu) (mu_base mu) = (es, st)"
    "mu_evaluations mu' = dict_set pid es (mu_evaluations mu)"
    using assms(1) by (auto simp: evaluate_candidates_def Let_def simp del: evaluate_loop.simps split: sum.splits prod.splits if_splits)
  have "dict_get es cid = Some e" using assms(2) by (simp add: proposal_evaluations_def ran(3) dict.lookup_put)
  from evaluate_loop_sound[OF ran(2) this assms(3,4)] ran(1) show ?thesis by (auto simp: request_of_def get_proposal_def split: option.splits)
qed

definition sound_engine :: multi_evolution where
  "sound_engine = MultiCandidateEvolutionEngine ((SelfEvolutionEngine (\<lambda>_. ''t''))
     \<lparr>se_proposals := [(''p1'', (new_proposal ''p1'' sample_request ''t'')\<lparr>pr_candidate_ids := [''c1'']\<rparr>)],
      se_candidates := [(''c1'', sound_candidate)]\<rparr>)"

lemma sound_trial:
  assumes "request_of pid st = Some sample_request"
  shows "tr_feasible (fst (try_candidate (default_collaborators default_design_config (\<lambda>_. ''t'') (\<lambda>_. ''t'') (\<lambda>_. ''t'')) pid sound_candidate st))"
proof -
  obtain s where s: "simulate ''t'' sound_candidate = Inr s" "sr_status s = SIM_PASSED" "get_or (sr_metrics s) ''complexity'' (PInt 0) = PInt 0"
    using sound_simulation by blast
  have "request_of pid (update_proposal pid (note_simulation (sr_id s)) (store_simulation s st)) = Some sample_request"
    using assms by (simp add: request_of_update)
  then obtain p where p: "get_proposal pid (update_proposal pid (note_simulation (sr_id s)) (store_simulation s st)) = Inr p" "pr_request p = sample_request"
    by (auto simp: request_of_def get_proposal_def)
  have "er_base_isr (pr_request p) = []" by (simp add: p(2) sample_request_def)
  from sound_verification[OF this] obtain v where v: "verify ''t'' sound_candidate p = Inr v" "vr_valid v" by blast
  from sound_fitness[OF s(2,3) v(2), of default_design_config]
  obtain f where "governance_aware_evaluate default_design_config ''t'' sound_candidate s (Some v) = Inr f" "fe_passed f" by blast
  then show ?thesis using s(1,2) p(1) v by (simp add: try_candidate_def default_collaborators_def raised_def Let_def)
qed

lemma feasible_candidates_are_sound_witness: "candidate_sound sound_candidate sample_request"
proof -
  let ?co = "default_collaborators default_design_config (\<lambda>_. ''t'') (\<lambda>_. ''t'') (\<lambda>_. ''t'')"
  let ?st = "mu_base sound_engine"
  have p: "get_proposal ''p1'' ?st = Inr ((new_proposal ''p1'' sample_request ''t'')\<lparr>pr_candidate_ids := [''c1'']\<rparr>)"
    and c: "dict_get (se_candidates ?st) ''c1'' = Some sound_candidate" and es: "proposal_evaluations pid sound_engine = []" for pid
    by (simp_all add: sound_engine_def MultiCandidateEvolutionEngine_def SelfEvolutionEngine_def get_proposal_def proposal_evaluations_def dict_get_def)
  then have request: "request_of ''p1'' ?st = Some sample_request"
    by (auto simp: request_of_def get_proposal_def new_proposal_def split: option.splits)
  let ?t = "try_candidate ?co ''p1'' sound_candidate ?st"
  let ?e = "evaluation_of ''c1'' (fst ?t) (fst (iso_now (snd ?t)))"
  have "ce_feasible ?e" using sound_trial[OF request] by (simp add: evaluation_of_def)
  have loop: "evaluate_loop ?co ''p1'' False [''c1''] [] ?st = ([(''c1'', ?e)], snd (iso_now (snd ?t)))"
    using c by (simp add: split_beta dict_in_def)
  have "request_of ''p1'' (snd (iso_now (snd ?t))) = Some sample_request" using request by (simp add: request_of_iso_now request_of_try)
  then obtain q where q: "get_proposal ''p1'' (snd (iso_now (snd ?t))) = Inr q" unfolding request_of_def get_proposal_def by auto
  obtain mu' where mu': "evaluate_candidates ?co ''p1'' ''ada'' False sound_engine = (Inr [?e], mu')"
      "mu_evaluations mu' = dict_set ''p1'' [(''c1'', ?e)] (mu_evaluations sound_engine)"
    using p es loop q by (simp add: evaluate_candidates_def Let_def new_proposal_def dict_values_def del: evaluate_loop.simps)
  have "dict_get (proposal_evaluations ''p1'' mu') ''c1'' = Some ?e" by (simp add: proposal_evaluations_def mu'(2) dict.lookup_put)
  from feasible_candidates_are_sound[OF mu'(1) this _ \<open>ce_feasible ?e\<close>] show ?thesis
    using p c es by (simp add: new_proposal_def dict_get_def)
qed

end
