(* ===== verification/Spec2Isabelle.thy ===== *)
theory Spec2Isabelle
  imports Fin_Engine Maint_Worker Cp_Lease Ir_State_Machine Settle_Seams Isr_Ops Isr_Metrics Gr_Build_Dag Pa_Selection Ev_Operators Ev_Selection Mw_Rate_Limit Evo_Evidence Evo_Audit Evo_Defaults
begin

text \<open>
  A verification library for the parts of this repository that move money, hand evidence between
  processes, decide what may run, or judge architectures: the marketplace financial control plane and its settlement
  layer, the governed maintenance pipeline with its durable outbox, the control-plane lease and the rate limiter, the
  state-machine representation of workflows, the typed architecture graph with its validation and metrics, the compiler build
  graph, and the evolution engines: from a proposal over candidates, their simulation, verification, evaluation and Pareto selection
  to approval, interlocked promotion and its audit trail.

  \<^bold>\<open>Parts of the program and the theories that model them.\<close>

  \<^item> \<open>Py_Float\<close>, \<open>Py_Prelude\<close>, \<open>Py_Hash\<close>, \<open>Py_Json\<close>: the Python the sources use. Binary64 floats with
    their rounding, insertion-ordered dictionaries, dynamically typed values, truthiness, exceptions as
    values, the supplies of \<open>uuid4\<close> identifiers and clock readings, SHA-256 and BLAKE2b, and
    \<open>json.dumps\<close> / \<open>json.loads\<close> with their round trip. Strings are lists of code points below 256.
  \<^item> \<open>product_factory/marketplace_financial_hardening\<close>: \<open>Fin_Models\<close> (models.py), \<open>Fin_Ledger\<close>
    (ledger.py), \<open>Fin_Payments\<close> (payments.py), \<open>Fin_Refunds\<close> (refunds.py), \<open>Fin_Tax_Fraud\<close> (tax.py,
    fraud.py), \<open>Fin_Sla\<close> (sla.py), \<open>Fin_Reconciliation\<close> (reconciliation.py), \<open>Fin_Compliance\<close>
    (compliance.py), \<open>Fin_Engine\<close> (engine.py). One definition per method, under the method's name or with
    its engine's prefix. The ledger is shared: payments, refunds and taxes post to it, reconciliation
    and compliance read it, the coordinator owns it. Operations take and return the engine's record, the
    ledger and the world (identifiers and clock); refunds live in an explicit heap, because two indexes
    and the callers share the objects.
  \<^item> \<open>product_factory/marketplace_settlement\<close>: \<open>Settle_Models\<close> (models.py, gateways.py), \<open>Settle_Ledger\<close> (ledger.py),
    \<open>Settle_Recon\<close> (reconciliation.py), \<open>Settle_Engine\<close> (settlement.py, engine.py, api.py), and, on these definitions, \<open>Settle_Safety\<close> (the
    invariant of batches, payouts and entries), \<open>Settle_Books\<close> (properties of runs) and \<open>Settle_Seams\<close> (where ingestion, settlement and
    reconciliation meet). Events become entries, entries are netted into batches, batches are approved by governance and paid,
    and a reconciliation register blocks further batches. Dates carry their time zone; reports hold the identifiers of mismatches,
    which live in the register.
  \<^item> \<open>autonomous-api/app/engine\<close>, governed maintenance: \<open>Maint_Record\<close> (deployed_app_observation.py,
    repair_report.py, governed_maintenance_record.py, governed_maintenance_execution.py),
    \<open>Maint_Observatory\<close> (governed_maintenance_observatory.py), \<open>Maint_Outbox\<close> and \<open>Maint_Delivery\<close>
    (governed_maintenance_outbox.py), \<open>Maint_Worker\<close> (maintenance_outbox_worker.py). An observation is
    admitted, a verified repair becomes a record and an event, the pair is enqueued in a SQLite table,
    and senders claim rows under a lease and deliver them to the Observatory. Every database transaction
    is one function on the table; the sender's loop threads table, clock and network, and \<open>task_step\<close> cuts the calls between
    their transactions so that processes can overlap.
  \<^item> \<open>autonomous-api/app/storage/lease.py\<close>: \<open>Cp_Lease\<close>, the single lease row that keeps
    authoritative evolution runs apart.
  \<^item> \<open>autonomous-api/app/middleware/rate_limit.py\<close>: \<open>Mw_Rate_Limit\<close>, the sliding-window limiters and the middleware.
  \<^item> \<open>autonomous-api/app/engine/state_machine_ir.py\<close>: \<open>Ir_State_Machine\<close>, validation and
    reachability of workflow machines.
  \<^item> \<open>constitutional_architecture/isr\<close>: \<open>Isr_Graph\<close> (graph/typed_graph.py, meta/node_types.py, meta/edge_types.py), \<open>Isr_Ops\<close> (graph/operations.py,
    graph/queries.py), \<open>Isr_Traversal\<close>, \<open>Isr_Cycles\<close> and \<open>Isr_Paths\<close> (graph/traversal.py), \<open>Isr_Types\<close> (types), \<open>Isr_Validation\<close> (validation),
    \<open>Isr_Metrics\<close> (metrics). A graph is its dictionaries of nodes, edges and the two indexes, in insertion order. Where the code iterates
    over a set, the order is an argument (\<open>ids\<close>, \<open>order_of\<close>), and theorems hold for every order.
  \<^item> \<open>constitutional_architecture/core/build/dag.py\<close>: \<open>Gr_Build_Dag\<close>, the resolution of compilers into an execution plan. \<open>Gr_Kahn\<close> holds the
    loop of Kahn's sort, which both graphs use.
  \<^item> \<open>evolution\<close>: \<open>Pa_Fronts\<close> and \<open>Pa_Selection\<close> (pareto.py, models.py), and from \<open>evolution/core\<close> \<open>Ev_Genome\<close> (genome.py, operations.py, refinement.py,
    construction.py, engine.py), \<open>Ev_Operators\<close> (what the operators guarantee) and \<open>Ev_Selection\<close> (fitness.py, fitness_evaluator.py, selection.py). Random
    numbers are a supply that the operators draw from in order.
  \<^item> \<open>evolution\<close>, the engines: \<open>Evo_Chain\<close> (the contract of hash-chained logs), \<open>Evo_Models\<close> (models.py, errors.py, history.py),
    \<open>Evo_Engine\<close> (engine.py: a proposal is mutated, simulated, verified, evaluated, submitted, approved, promoted, rolled back), \<open>Evo_Multi\<close> (multi.py:
    many candidates per proposal and Pareto selection over them) and \<open>Evo_Safety\<close> (properties of runs). An operation takes the engine's record and returns its
    outcome, an error or a value, with the new record. The stages are arguments; \<open>Evo_Design\<close> (core/governance_design.py, core/governance_fitness.py),
    \<open>Evo_Stages\<close> (utils.py, simulation.py, verification.py, fitness.py, governance_fitness_evaluator.py) and \<open>Evo_Mutation\<close> (mutation.py) model the
    ones that the constructor builds by default, and \<open>Evo_Defaults\<close> holds what the engine guarantees with them.
  \<^item> \<open>evolution\<close>, promotion: \<open>Evo_Promotion\<close> (governance_safety.py, promotion.py, governance.py: evidence, interlocks, requests and both governance
    clients), \<open>Evo_Interlock\<close> (what a promoted request has passed), \<open>Evo_Evidence\<close> (that the evidence taken from the multi-candidate engine is about the
    candidate it names) and \<open>Evo_Audit\<close> (promotion_audit.py: the trail per request, its verification, and the audited engine around promotion control).

  \<^bold>\<open>Interfaces.\<close> The locale \<open>dict_spec\<close> is the contract of dictionaries; \<open>idempotent_log\<close> and
  \<open>ledger_client\<close> are what the engines rely on of the ledger and what a client of it inherits (growth, no
  duplicate keys), interpreted for payments, refunds, taxes and the coordinator; \<open>row_relation\<close> collects what
  a relation between the versions of an outbox row must satisfy to hold along every interleaving, and is
  interpreted for identity, finality of delivery, the row invariant and the stuck state;
  \<open>lease_invariant\<close> does the same for the lease row; \<open>object_history\<close> turns a relation between the versions of an object into one along
  settlement runs, for batches and for mismatches. \<open>kahn_client\<close> is what the topological sort needs of the node list, the successors and
  the in-degrees, interpreted for the typed graph and the build graph; \<open>dominance\<close> is what the non-dominated sort needs of its
  comparison, interpreted for tolerant dominance of objective values and for fitness vectors; \<open>hash_chain\<close> is the contract of a log whose events
  name the hash before them (appending keeps the chain, and a chain is determined by its end), interpreted for the evolution history and for the
  audit trail. All are interpreted on the model's own definitions.

  \<^bold>\<open>What is shown.\<close> For the financial plane: webhooks reconcile, redelivery and repeated requests
  change nothing, the ledger is append-only without duplicate keys along any run of the coordinator, refunds
  agree with their ledger entries and follow their life cycle, denied refunds never complete when the policy asks for governance, a healthy
  report means agreement in its scope, certification means that every gate passed, and revocation is final. For the
  outbox: the table invariant, exclusion by leases, bounded attempts, finality of delivery and idempotent
  enqueueing under every interleaving of senders, producers and operators; the refinement of
  overlapping calls to these transactions; the round trip of stored payloads; the range of the backoff; and that a
  recorded event is delivered. For admission and records: they exist exactly for authorised,
  verified maintenance. For the lease: single flight under renewals, releases and attempts of any process, recovery only after expiry, and the context manager.
  For state machines: the loop terminates with the transitive closure. For settlement: an event is booked once, a settled batch has exactly one
  payout and one entry, nothing is paid without the governance the policy asks for, statuses move only forward, an execution pays
  exactly under the stated conditions, a full settlement clears an account, and clean books reconcile. For the typed graph: the operations only add; depth-first and
  breadth-first search agree; sorting succeeds exactly when cycle detection reports nothing, and reported cycles are real; path search returns
  a path when there is one; type checking is sound and complete; validation accepts exactly the sound graphs; the
  dependency depth is the longest chain. For the build graph: the plan is what is needed, in order, or the right error. For
  evolution: the sort returns the fronts of its reference, selection never prefers a dominated candidate, mutation stays inside its
  space, crossover inherits, hashes do not depend on order. For the engines: the history is one growing hash chain, statuses follow the life cycle when
  proposals get distinct identifiers, a promotion under the base engine is earned by the candidate it promotes, and with the default stages a feasible candidate is sound; the simulator finds
  exactly the cyclic dependency graphs, a mutation changes only the places it names, and governance scores lie in the unit interval. For promotion
  control: a promoted request passed its interlocks and was authorised, passing evidence is earned, the audit trail agrees with the requests, verifies, and
  any change to it that keeps its end is noticed. For the rate limiter: it decides like a limiter that forgets nothing. Several lemmas state how the
  code departs from what it says; they are named with the findings.

  \<^bold>\<open>Bounds and fuel.\<close> Decimal printing of floats scales by at most 400 powers of ten and tries at most 17
  digits, which covers every double. The JSON reader takes twice the length of the text plus two as depth of its
  calls, and each nested value costs a character. The integer roots behind the digest constants use 40 and
  72 bits. The loops over graphs (\<open>reach_loop\<close>, \<open>kahn_loop\<close>, \<open>bfs_loop\<close>, \<open>dfs_calls\<close>, \<open>cy_neighbors\<close>,
  \<open>find_path_loop\<close>, \<open>subgraph_loop\<close>, \<open>required_loop\<close>, \<open>visit_neighbors\<close>) and over fronts (\<open>fronts_loop\<close>) carry termination proofs with what is still unvisited or uncounted as
  measure. \<open>walk_parents\<close>, which nothing in the code bounds, may return no value, and \<open>find_path_spec\<close> proves that it does
  return. No other recursion needs a bound.

  \<^bold>\<open>Parameters.\<close> Provider adapters, the governance kernel and the certification engine of the previous
  phase (financial plane); the settlement gateways and adapters; the HTTP transport and the Observatory behind it; the application behind the rate limiter; the compilers
  of the build graph; the collaborators of the evolution engines and the promotion gateway, each with its own answer or exception at
  every call, and the HTTP client behind both governance clients; random numbers; the order in which sets are iterated and \<open>str\<close> of objects (\<open>str_of\<close>); the check of bracketed IPv6
  hosts in \<open>urlsplit\<close>, which differs between interpreters. Each theorem that needs something of them
  says so in its hypotheses.

  \<^bold>\<open>Not modelled.\<close> HTTP routes and user interfaces; SQLite connection set-up and durability (a committed
  transaction is taken to be atomic and permanent); code generators, which are templates of text in other
  languages; Python's recursion limit, which the recursive searches of the typed graph and of the simulator could reach; averages with the built-in float \<open>sum\<close>, whose
  rounding differs between interpreters; the materialization of genomes; objects shared between a mutation specification and the architecture it
  was applied to; the recombination, feedback and orchestration services of the evolution package; the registries, simulations and reports of the other top-level
  packages. Payload rows that \<open>enqueue\<close> did not write are read with the declared field types only.
\<close>

end
